(* ===== verification/Go_Prelude.thy ===== *)
theory Go_Prelude
  imports Main
begin

text \<open>
  Shared vocabulary of the development: the Go strings, maps and clocks the
  service is written with, the error values of \<^verbatim>\<open>internal/shared/apperr\<close>, the
  collections of simplification rules the component theories extend, and a
  small interface for state machines whose invariant is kept by every step.

  A Go \<^verbatim>\<open>string\<close> is its bytes, so it is a HOL \<open>string\<close> (a \<open>char\<close> is one byte). A Go
  map is an association list with distinct keys, in the (unspecified) order an
  iteration happens to take; every property is stated through \<open>map_of\<close>, so it
  does not depend on that order. A \<^verbatim>\<open>time.Time\<close> is an \<open>int\<close>: nanoseconds since the
  Unix epoch.
\<close>

named_theorems go_simps \<open>rewriting rules for the Go string and map operations\<close>

section \<open>Strings\<close>

definition byte_of :: "char \<Rightarrow> nat" where
  "byte_of c = of_char c"

fun HasPrefix :: "string \<Rightarrow> string \<Rightarrow> bool" where
  "HasPrefix s [] = True"
| "HasPrefix [] (p # ps) = False"
| "HasPrefix (x # xs) (p # ps) = (x = p \<and> HasPrefix xs ps)"

definition HasSuffix :: "string \<Rightarrow> string \<Rightarrow> bool" where
  "HasSuffix s t = HasPrefix (rev s) (rev t)"

fun Contains :: "string \<Rightarrow> string \<Rightarrow> bool" where
  "Contains [] t = (t = [])"
| "Contains (x # xs) t = (HasPrefix (x # xs) t \<or> Contains xs t)"

text \<open>\<^verbatim>\<open>strings.Split\<close> with a one-byte separator, and \<^verbatim>\<open>strings.Join\<close>.\<close>

fun split_on :: "char \<Rightarrow> string \<Rightarrow> string list" where
  "split_on c [] = [[]]"
| "split_on c (x # xs) =
     (if x = c then [] # split_on c xs
      else (x # hd (split_on c xs)) # tl (split_on c xs))"

fun join_with :: "char \<Rightarrow> string list \<Rightarrow> string" where
  "join_with c [] = []"
| "join_with c [x] = x"
| "join_with c (x # y # ys) = x @ c # join_with c (y # ys)"

text \<open>\<^verbatim>\<open>strings.Trim(s, "c")\<close> for a one-byte cutset, and \<^verbatim>\<open>strings.Cut\<close> at one byte.\<close>

definition trim_char :: "char \<Rightarrow> string \<Rightarrow> string" where
  "trim_char c s = rev (dropWhile ((=) c) (rev (dropWhile ((=) c) s)))"

definition cut_at :: "char \<Rightarrow> string \<Rightarrow> (string \<times> string) option" where
  "cut_at c s =
     (if c \<in> set s then Some (takeWhile (\<lambda>x. x \<noteq> c) s, tl (dropWhile (\<lambda>x. x \<noteq> c) s)) else None)"

lemma HasPrefix_iff: "HasPrefix s p \<longleftrightarrow> (\<exists>t. s = p @ t)"
  by (induction s p rule: HasPrefix.induct) auto

lemma HasPrefix_append [simp]: "HasPrefix (p @ t) p"
  by (simp add: HasPrefix_iff)

lemma Contains_iff: "Contains s t \<longleftrightarrow> (\<exists>a b. s = a @ t @ b)"
proof (induction s)
  case Nil
  then show ?case by auto
next
  case (Cons x xs)
  have "(\<exists>a b. x # xs = a @ t @ b) \<longleftrightarrow> (\<exists>b. x # xs = t @ b) \<or> (\<exists>a b. xs = a @ t @ b)"
    by (metis append_Cons append_eq_Cons_conv append_Nil)
  then show ?case by (simp add: Cons.IH HasPrefix_iff del: HasPrefix.simps)
qed

lemma split_on_not_Nil [simp]: "split_on c s \<noteq> []"
  by (cases s) auto

lemma split_on_no_sep: "seg \<in> set (split_on c s) \<Longrightarrow> c \<notin> set seg"
proof (induction s arbitrary: seg)
  case Nil
  then show ?case by simp
next
  case (Cons x xs)
  show ?case
  proof (cases "x = c")
    case True
    with Cons show ?thesis by auto
  next
    case False
    with Cons.prems have "seg = x # hd (split_on c xs) \<or> seg \<in> set (tl (split_on c xs))"
      by simp
    with Cons.IH False show ?thesis
      by (metis list.set_sel(1) list.set_sel(2) set_ConsD split_on_not_Nil)
  qed
qed

lemma set_split_on: "seg \<in> set (split_on c s) \<Longrightarrow> set seg \<subseteq> set s"
proof (induction s arbitrary: seg)
  case Nil
  then show ?case by simp
next
  case (Cons x xs)
  show ?case
  proof (cases "x = c")
    case True
    with Cons show ?thesis by auto
  next
    case False
    with Cons.prems have "seg = x # hd (split_on c xs) \<or> seg \<in> set (tl (split_on c xs))"
      by simp
    then show ?thesis
    proof
      assume "seg = x # hd (split_on c xs)"
      with Cons.IH [of "hd (split_on c xs)"] show ?thesis by auto
    next
      assume "seg \<in> set (tl (split_on c xs))"
      with Cons.IH [of seg] show ?thesis by (meson list.set_sel(2) set_subset_Cons split_on_not_Nil subset_trans)
    qed
  qed
qed

lemma split_on_single: "c \<notin> set s \<Longrightarrow> split_on c s = [s]"
  by (induction s) auto

lemma split_on_append_sep: "split_on c (s @ c # t) = split_on c s @ split_on c t"
  by (induction s) (auto simp: tl_append split: list.split)

lemma join_with_Cons: "xs \<noteq> [] \<Longrightarrow> join_with c (x # xs) = x @ c # join_with c xs"
  by (cases xs) auto

lemma split_on_join:
  "xs \<noteq> [] \<Longrightarrow> \<forall>x\<in>set xs. c \<notin> set x \<Longrightarrow> split_on c (join_with c xs) = xs"
proof (induction xs rule: join_with.induct)
  case (3 c x y ys)
  then show ?case by (simp add: split_on_append_sep split_on_single)
qed (auto simp: split_on_single)

lemma join_split_on: "join_with c (split_on c s) = s"
proof (induction s)
  case Nil
  then show ?case by simp
next
  case (Cons x xs)
  obtain y ys where s: "split_on c xs = y # ys"
    by (cases "split_on c xs") auto
  with Cons show ?case
    by (cases ys) auto
qed

lemma set_join_with: "set (join_with c xs) \<subseteq> insert c (\<Union> (set ` set xs))"
  by (induction c xs rule: join_with.induct) auto


text \<open>\<^verbatim>\<open>strings.TrimSpace\<close>: \<open>space_prefix\<close> is the length in bytes of the white-space character a
  string starts with (U+0009 to U+000D, space, U+0085, U+00A0, U+1680, U+2000 to U+200A, U+2028,
  U+2029, U+202F, U+205F, U+3000), \<open>space_suffix\<close> that of the one a reversed string ends with.\<close>

fun space3 :: "nat \<Rightarrow> nat \<Rightarrow> nat \<Rightarrow> bool" where
  "space3 a b c \<longleftrightarrow>
     (a = 225 \<and> b = 154 \<and> c = 128) \<or>
     (a = 226 \<and> b = 128 \<and> (128 \<le> c \<and> c \<le> 138 \<or> c = 168 \<or> c = 169 \<or> c = 175)) \<or>
     (a = 226 \<and> b = 129 \<and> c = 159) \<or> (a = 227 \<and> b = 128 \<and> c = 128)"

definition space1 :: "nat \<Rightarrow> bool" where
  "space1 a \<longleftrightarrow> 9 \<le> a \<and> a \<le> 13 \<or> a = 32"

definition space2 :: "nat \<Rightarrow> nat \<Rightarrow> bool" where
  "space2 a b \<longleftrightarrow> a = 194 \<and> (b = 133 \<or> b = 160)"

definition space_prefix :: "string \<Rightarrow> nat" where
  "space_prefix s =
     (case map byte_of s of
        [] \<Rightarrow> 0
      | a # r \<Rightarrow>
          if space1 a then 1
          else (case r of [] \<Rightarrow> 0 | b # r' \<Rightarrow>
            if space2 a b then 2
            else (case r' of [] \<Rightarrow> 0 | c # _ \<Rightarrow> if space3 a b c then 3 else 0)))"

definition space_suffix :: "string \<Rightarrow> nat" where
  "space_suffix s =
     (case map byte_of s of
        [] \<Rightarrow> 0
      | a # r \<Rightarrow>
          if space1 a then 1
          else (case r of [] \<Rightarrow> 0 | b # r' \<Rightarrow>
            if space2 b a then 2
            else (case r' of [] \<Rightarrow> 0 | c # _ \<Rightarrow> if space3 c b a then 3 else 0)))"

function trim_prefix :: "(string \<Rightarrow> nat) \<Rightarrow> string \<Rightarrow> string" where
  "trim_prefix f s = (if f s = 0 \<or> s = [] then s else trim_prefix f (drop (f s) s))"
  by auto
termination by (relation "measure (\<lambda>(f, s). length s)") auto

declare trim_prefix.simps [simp del]

definition TrimSpace :: "string \<Rightarrow> string" where
  "TrimSpace s = rev (trim_prefix space_suffix (rev (trim_prefix space_prefix s)))"

section \<open>UTF-8\<close>

text \<open>\<^verbatim>\<open>utf8.ValidString\<close> on the bytes: shortest-form encodings of U+0000 to U+10FFFF
  without the surrogates.\<close>

definition utf8_cont :: "nat \<Rightarrow> bool" where
  "utf8_cont b \<longleftrightarrow> 128 \<le> b \<and> b \<le> 191"

definition utf8_2 :: "nat \<Rightarrow> nat \<Rightarrow> bool" where
  "utf8_2 a b \<longleftrightarrow> 194 \<le> a \<and> a \<le> 223 \<and> utf8_cont b"

definition utf8_3 :: "nat \<Rightarrow> nat \<Rightarrow> nat \<Rightarrow> bool" where
  "utf8_3 a b c \<longleftrightarrow> 224 \<le> a \<and> a \<le> 239 \<and> utf8_cont b \<and>
     (a = 224 \<longrightarrow> 160 \<le> b) \<and> (a = 237 \<longrightarrow> b \<le> 159) \<and> utf8_cont c"

definition utf8_4 :: "nat \<Rightarrow> nat \<Rightarrow> nat \<Rightarrow> nat \<Rightarrow> bool" where
  "utf8_4 a b c d \<longleftrightarrow> 240 \<le> a \<and> a \<le> 244 \<and> utf8_cont b \<and>
     (a = 240 \<longrightarrow> 144 \<le> b) \<and> (a = 244 \<longrightarrow> b \<le> 143) \<and> utf8_cont c \<and> utf8_cont d"

fun utf8_bytes :: "nat list \<Rightarrow> bool" where
  "utf8_bytes [] = True"
| "utf8_bytes (a # r) =
     (if a < 128 then utf8_bytes r
      else (case r of [] \<Rightarrow> False | b # r1 \<Rightarrow>
        if utf8_2 a b then utf8_bytes r1
        else (case r1 of [] \<Rightarrow> False | c # r2 \<Rightarrow>
          if utf8_3 a b c then utf8_bytes r2
          else (case r2 of [] \<Rightarrow> False | d # r3 \<Rightarrow> utf8_4 a b c d \<and> utf8_bytes r3))))"

definition ValidString :: "string \<Rightarrow> bool" where
  "ValidString s = utf8_bytes (map byte_of s)"

declare utf8_bytes.simps(2) [simp del]

inductive utf8_seq :: "nat list \<Rightarrow> bool" where
  nil: "utf8_seq []"
| one: "a < 128 \<Longrightarrow> utf8_seq r \<Longrightarrow> utf8_seq (a # r)"
| two: "utf8_2 a b \<Longrightarrow> utf8_seq r \<Longrightarrow> utf8_seq (a # b # r)"
| three: "utf8_3 a b c \<Longrightarrow> utf8_seq r \<Longrightarrow> utf8_seq (a # b # c # r)"
| four: "utf8_4 a b c d \<Longrightarrow> utf8_seq r \<Longrightarrow> utf8_seq (a # b # c # d # r)"

lemma utf8_lead:
  "utf8_2 a b \<Longrightarrow> 128 \<le> a \<and> 128 \<le> b"
  "utf8_3 a b c \<Longrightarrow> 128 \<le> a \<and> 128 \<le> b \<and> 128 \<le> c \<and> \<not> utf8_2 a b"
  "utf8_4 a b c d \<Longrightarrow> 128 \<le> a \<and> 128 \<le> b \<and> 128 \<le> c \<and> 128 \<le> d \<and> \<not> utf8_2 a b \<and> \<not> utf8_3 a b c"
  by (auto simp: utf8_2_def utf8_3_def utf8_4_def utf8_cont_def)

lemma utf8_bytes_Cons:
  assumes "utf8_bytes (a # r)"
  obtains "a < 128" "utf8_bytes r"
  | b r1 where "r = b # r1" "utf8_2 a b" "utf8_bytes r1"
  | b c r2 where "r = b # c # r2" "utf8_3 a b c" "utf8_bytes r2"
  | b c d r3 where "r = b # c # d # r3" "utf8_4 a b c d" "utf8_bytes r3"
  using assms by (subst (asm) utf8_bytes.simps(2)) (auto split: if_splits list.splits)

lemma utf8_bytes_seq: "utf8_bytes s \<Longrightarrow> utf8_seq s"
proof (induction s rule: measure_induct_rule [where f = length])
  case (less s)
  show ?case
  proof (cases s)
    case Nil
    then show ?thesis by (simp add: utf8_seq.nil)
  next
    case (Cons a r)
    with less.prems have "utf8_bytes (a # r)" by simp
    then show ?thesis
      by (cases rule: utf8_bytes_Cons) (auto simp: Cons less.IH intro: utf8_seq.intros)
  qed
qed

lemma utf8_seq_bytes: "utf8_seq s \<Longrightarrow> utf8_bytes s"
  by (induction rule: utf8_seq.induct) (auto simp: utf8_bytes.simps(2) dest: utf8_lead)

lemma utf8_append: "utf8_seq a \<Longrightarrow> utf8_seq b \<Longrightarrow> utf8_seq (a @ b)"
  by (induction rule: utf8_seq.induct) (auto intro: utf8_seq.intros)

lemma utf8_ascii_split:
  "utf8_seq s \<Longrightarrow> s = a @ c # b \<Longrightarrow> c < 128 \<Longrightarrow> utf8_seq a \<and> utf8_seq b"
proof (induction arbitrary: a rule: utf8_seq.induct)
  case nil
  then show ?case by simp
next
  case (one x r)
  then show ?case by (auto simp: Cons_eq_append_conv intro: utf8_seq.intros)
next
  case (two x y r)
  then show ?case using utf8_lead(1) [OF two.hyps(1)]
    by (auto simp: Cons_eq_append_conv intro: utf8_seq.intros)
next
  case (three x y z r)
  then show ?case using utf8_lead(2) [OF three.hyps(1)]
    by (auto simp: Cons_eq_append_conv intro: utf8_seq.intros)
next
  case (four x y z w r)
  then show ?case using utf8_lead(3) [OF four.hyps(1)]
    by (auto simp: Cons_eq_append_conv intro: utf8_seq.intros)
qed

lemma ValidString_seq: "ValidString s = utf8_seq (map byte_of s)"
  unfolding ValidString_def using utf8_bytes_seq utf8_seq_bytes by blast

lemma ValidString_Nil [simp]: "ValidString []"
  by (simp add: ValidString_def)

lemma ValidString_append: "ValidString a \<Longrightarrow> ValidString b \<Longrightarrow> ValidString (a @ b)"
  by (simp add: ValidString_seq utf8_append)

lemma ValidString_split:
  assumes "ValidString (a @ c # b)" and "byte_of c < 128"
  shows "ValidString a" and "ValidString b"
  using utf8_ascii_split [of "map byte_of (a @ c # b)" "map byte_of a" "byte_of c" "map byte_of b"] assms
  by (simp_all add: ValidString_seq)

lemma ValidString_ascii: "byte_of c < 128 \<Longrightarrow> ValidString [c]"
  by (auto simp: ValidString_seq intro: utf8_seq.intros)

lemma ValidString_split_on:
  assumes "ValidString s" and "byte_of c < 128" and "seg \<in> set (split_on c s)"
  shows "ValidString seg"
proof -
  from assms(3) obtain pre post where sp: "split_on c s = pre @ seg # post"
    by (auto simp: in_set_conv_decomp)
  have s: "s = join_with c (pre @ seg # post)"
    using join_split_on [of c s] sp by simp
  have join_app: "join_with c (ys @ zs) = join_with c ys @ c # join_with c zs"
    if "ys \<noteq> []" "zs \<noteq> []" for ys zs
    using that by (induction c ys rule: join_with.induct) (auto simp: join_with_Cons)
  have tail: "ValidString seg" if "ValidString (join_with c (seg # post))"
  proof (cases post)
    case Nil
    with that show ?thesis by simp
  next
    case (Cons y ys)
    with that have "ValidString (seg @ c # join_with c (y # ys))" by simp
    from ValidString_split(1) [OF this assms(2)] show ?thesis .
  qed
  show ?thesis
  proof (cases pre)
    case Nil
    with assms(1) s tail show ?thesis by simp
  next
    case (Cons y ys)
    with s have "s = join_with c (y # ys) @ c # join_with c (seg # post)"
      using join_app [of "y # ys" "seg # post"] by simp
    with assms(1) have "ValidString (join_with c (seg # post))"
      using ValidString_split(2) [OF _ assms(2)] by metis
    with tail show ?thesis .
  qed
qed

lemma ValidString_join:
  "\<forall>x\<in>set xs. ValidString x \<Longrightarrow> byte_of c < 128 \<Longrightarrow> ValidString (join_with c xs)"
proof (induction c xs rule: join_with.induct)
  case (3 c x y ys)
  then have "ValidString ([c] @ join_with c (y # ys))"
    by (intro ValidString_append ValidString_ascii) auto
  with 3 show ?case by (auto intro: ValidString_append)
qed auto

section \<open>Maps\<close>

type_synonym ('k, 'v) gomap = "('k \<times> 'v) list"

text \<open>\<^verbatim>\<open>m[k] = v\<close>.\<close>

definition map_put :: "'k \<Rightarrow> 'v \<Rightarrow> ('k, 'v) gomap \<Rightarrow> ('k, 'v) gomap" where
  "map_put k v m = (k, v) # filter (\<lambda>e. fst e \<noteq> k) m"

text \<open>\<^verbatim>\<open>delete(m, k)\<close>.\<close>

definition map_del :: "'k \<Rightarrow> ('k, 'v) gomap \<Rightarrow> ('k, 'v) gomap" where
  "map_del k m = filter (\<lambda>e. fst e \<noteq> k) m"

definition gomap_wf :: "('k, 'v) gomap \<Rightarrow> bool" where
  "gomap_wf m = distinct (map fst m)"

lemma map_of_filter_key: "map_of (filter (\<lambda>e. fst e \<noteq> k) m) = (map_of m)(k := None)"
  by (induction m) (auto simp: fun_eq_iff)

lemma map_of_put [go_simps]: "map_of (map_put k v m) = (map_of m)(k \<mapsto> v)"
  by (simp add: map_put_def map_of_filter_key)

lemma map_of_del [go_simps]: "map_of (map_del k m) = (map_of m)(k := None)"
  by (simp add: map_del_def map_of_filter_key)

lemma gomap_wf_filter: "gomap_wf m \<Longrightarrow> gomap_wf (filter P m)"
  by (induction m) (auto simp: gomap_wf_def)

lemma gomap_wf_put: "gomap_wf m \<Longrightarrow> gomap_wf (map_put k v m)"
  using gomap_wf_filter [of m "\<lambda>e. fst e \<noteq> k"] by (auto simp: gomap_wf_def map_put_def)

lemma gomap_wf_del: "gomap_wf m \<Longrightarrow> gomap_wf (map_del k m)"
  unfolding map_del_def by (rule gomap_wf_filter)

lemma gomap_wf_Nil [simp]: "gomap_wf []"
  by (simp add: gomap_wf_def)

lemma gomap_Ball: "gomap_wf m \<Longrightarrow> (\<forall>e\<in>set m. P (fst e) (snd e)) \<longleftrightarrow> (\<forall>k v. map_of m k = Some v \<longrightarrow> P k v)"
  unfolding gomap_wf_def by (metis fst_conv map_of_SomeD map_of_is_SomeI prod.collapse snd_conv)

text \<open>Reading a missing key gives the zero value: false in a map of flags, the empty slice in a
  map of slices. \<^verbatim>\<open>m[k] = append(m[k], v)\<close> is \<open>append_at\<close>.\<close>

definition flag :: "('k, bool) gomap \<Rightarrow> 'k \<Rightarrow> bool" where
  "flag m k \<longleftrightarrow> map_of m k = Some True"

definition lookup_list :: "('k, 'v list) gomap \<Rightarrow> 'k \<Rightarrow> 'v list" where
  "lookup_list m k = (case map_of m k of None \<Rightarrow> [] | Some vs \<Rightarrow> vs)"

definition append_at :: "'k \<Rightarrow> 'v \<Rightarrow> ('k, 'v list) gomap \<Rightarrow> ('k, 'v list) gomap" where
  "append_at k v m = map_put k (lookup_list m k @ [v]) m"

lemma flag_put [go_simps]: "flag (map_put k v m) j = (if j = k then v else flag m j)"
  by (simp add: flag_def go_simps)

lemma lookup_append_at [go_simps]:
  "lookup_list (append_at k v m) j = (if j = k then lookup_list m k @ [v] else lookup_list m j)"
  by (simp add: lookup_list_def append_at_def go_simps)

lemma flag_Nil [simp]: "\<not> flag [] k"
  by (simp add: flag_def)

lemma lookup_list_Nil [simp]: "lookup_list [] k = []"
  by (simp add: lookup_list_def)

text \<open>Loops that fill a map from rows.\<close>

lemma foldl_put:
  "distinct (map k rows) \<Longrightarrow>
   map_of (foldl (\<lambda>m r. map_put (k r) (v r) m) m rows) x =
     (case map_of (map (\<lambda>r. (k r, v r)) rows) x of None \<Rightarrow> map_of m x | Some y \<Rightarrow> Some y)"
proof (induction rows arbitrary: m)
  case (Cons r rows)
  then have "x = k r \<Longrightarrow> map_of (map (\<lambda>r. (k r, v r)) rows) x = None"
    by (auto simp: map_of_eq_None_iff)
  with Cons show ?case by (auto simp: go_simps split: option.split)
qed simp

lemma foldl_put_mem:
  assumes "distinct (map k rows)"
  shows "map_of (foldl (\<lambda>m r. map_put (k r) (v r) m) [] rows) x = Some y \<longleftrightarrow> (\<exists>r\<in>set rows. k r = x \<and> v r = y)"
proof -
  have "distinct (map fst (map (\<lambda>r. (k r, v r)) rows))" using assms by (simp add: comp_def)
  from map_of_eq_Some_iff [OF this, of x y] show ?thesis
    by (auto simp: foldl_put [OF assms] split: option.split)
qed

lemma flag_foldl_put:
  "flag (foldl (\<lambda>m r. map_put (k r) True m) m rows) x \<longleftrightarrow> flag m x \<or> (\<exists>r\<in>set rows. k r = x)"
  by (induction rows arbitrary: m) (auto simp: go_simps)

lemma keys_foldl_put:
  "fst ` set (foldl (\<lambda>m r. map_put (k r) (v r) m) m rows) = fst ` set m \<union> k ` set rows"
  by (induction rows arbitrary: m) (auto simp: map_put_def image_iff)

lemma gomap_wf_foldl: "(\<And>m r. gomap_wf m \<Longrightarrow> gomap_wf (f m r)) \<Longrightarrow> gomap_wf m \<Longrightarrow> gomap_wf (foldl f m rows)"
  by (induction rows arbitrary: m) auto

lemma gomap_wf_append_at: "gomap_wf m \<Longrightarrow> gomap_wf (append_at k v m)"
  by (simp add: append_at_def gomap_wf_put)

lemma foldl_append_at:
  "map_of (foldl (\<lambda>m r. append_at (k r) (v r) m) m rows) a =
     (if \<exists>r\<in>set rows. k r = a then Some (lookup_list m a @ map v (filter (\<lambda>r. k r = a) rows)) else map_of m a)"
  by (induction rows arbitrary: m) (auto simp: go_simps append_at_def lookup_list_def filter_empty_conv)

lemma lookup_foldl_append_at:
  "lookup_list (foldl (\<lambda>m r. append_at (k r) (v r) m) m rows) a =
     lookup_list m a @ map v (filter (\<lambda>r. k r = a) rows)"
  by (induction rows arbitrary: m) (auto simp: go_simps)

section \<open>Time\<close>

type_synonym time = int
type_synonym duration = int

text \<open>The zero \<^verbatim>\<open>time.Time\<close> is 1 January of year 1, UTC.\<close>

definition zero_time :: time where
  "zero_time = - 62135596800000000000"

definition IsZero :: "time \<Rightarrow> bool" where
  "IsZero t \<longleftrightarrow> t = zero_time"

definition After :: "time \<Rightarrow> time \<Rightarrow> bool" where
  "After t u \<longleftrightarrow> t > u"

definition Before :: "time \<Rightarrow> time \<Rightarrow> bool" where
  "Before t u \<longleftrightarrow> t < u"

definition Unix :: "time \<Rightarrow> int" where
  "Unix t = t div 1000000000"

text \<open>\<^verbatim>\<open>t.Sub(u)\<close> saturates at the ends of the 64-bit \<^verbatim>\<open>Duration\<close>.\<close>

definition time_sub :: "time \<Rightarrow> time \<Rightarrow> duration" where
  "time_sub t u = max (- (2 ^ 63)) (min (2 ^ 63 - 1) (t - u))"

abbreviation Second :: duration where "Second \<equiv> 1000000000"

section \<open>Integers\<close>

text \<open>Go's conversions \<^verbatim>\<open>int32(x)\<close> and \<^verbatim>\<open>int64(x)\<close> keep the low bits, read as two's
  complement; arithmetic at that width wraps the same way.\<close>

definition int32 :: "int \<Rightarrow> int" where
  "int32 x = (x + 2 ^ 31) mod 2 ^ 32 - 2 ^ 31"

definition int64 :: "int \<Rightarrow> int" where
  "int64 x = (x + 2 ^ 63) mod 2 ^ 64 - 2 ^ 63"

lemma int32_id [go_simps]: "- (2 ^ 31) \<le> x \<Longrightarrow> x < 2 ^ 31 \<Longrightarrow> int32 x = x"
  by (simp add: int32_def)

lemma int64_id [go_simps]: "- (2 ^ 63) \<le> x \<Longrightarrow> x < 2 ^ 63 \<Longrightarrow> int64 x = x"
  by (simp add: int64_def)

text \<open>Go's integer division truncates towards zero.\<close>

definition go_quot :: "int \<Rightarrow> int \<Rightarrow> int" where
  "go_quot a b = sgn a * sgn b * (\<bar>a\<bar> div \<bar>b\<bar>)"

lemma go_quot_nonneg [go_simps]: "0 \<le> a \<Longrightarrow> 0 < b \<Longrightarrow> go_quot a b = a div b"
  by (cases "a = 0") (simp_all add: go_quot_def)

section \<open>Errors\<close>

text \<open>The sentinels of \<^verbatim>\<open>internal/shared/apperr/errors.go\<close>. Attached details (\<^verbatim>\<open>With\<close>)
  and wrapped causes (\<^verbatim>\<open>Wrap\<close>) do not change which sentinel an error is.\<close>

datatype apperr =
    ErrInternal | ErrInvalidCredentials | ErrIdentityLocked | ErrIdentityDisabled
  | ErrMfaRequired | ErrMfaInvalid | ErrTokenInvalid | ErrRefreshInvalid | ErrRefreshReuse
  | ErrSessionRevoked | ErrUnauthenticated | ErrDeviceChallenge | ErrPermissionDenied
  | ErrStepUpRequired | ErrNoTenantSelected | ErrInvalidArgument | ErrNotFound | ErrConflict
  | ErrRateLimited | ErrUnavailableFeed | ErrStreamUnavailable | ErrMailNotConfigured
  | ErrSnapshotUnavailable | ErrRegistrationClosed | ErrRedirectURI | ErrPKCE | ErrPasswordPolicy

type_synonym 'a result = "apperr + 'a"

text \<open>\<^verbatim>\<open>if err != nil { return ..., err }\<close>.\<close>

definition and_then :: "'e + 'a \<Rightarrow> ('a \<Rightarrow> 'e + 'b) \<Rightarrow> 'e + 'b" where
  "and_then r f = (case r of Inl e \<Rightarrow> Inl e | Inr a \<Rightarrow> f a)"

lemma and_then_Inr: "and_then r f = Inr b \<longleftrightarrow> (\<exists>a. r = Inr a \<and> f a = Inr b)"
  by (simp add: and_then_def split: sum.split)

lemma and_then_simps [simp]: "and_then (Inl e) f = Inl e" "and_then (Inr a) f = f a"
  by (simp_all add: and_then_def)

section \<open>State machines\<close>

text \<open>A component with an initial state and a family of steps whose invariant
  every admissible step keeps. A theory that models such a component interprets this on
  its own step function; what it gets is that every run keeps the invariant.\<close>

locale machine =
  fixes initial :: "'s \<Rightarrow> bool"
    and ok :: "'a \<Rightarrow> bool"
    and step :: "'s \<Rightarrow> 'a \<Rightarrow> 's"
    and inv :: "'s \<Rightarrow> bool"
  assumes inv_initial: "initial s \<Longrightarrow> inv s"
    and inv_step: "inv s \<Longrightarrow> ok a \<Longrightarrow> inv (step s a)"
begin

lemma inv_run: "inv s \<Longrightarrow> \<forall>a\<in>set as. ok a \<Longrightarrow> inv (foldl step s as)"
  by (induction as arbitrary: s) (auto intro: inv_step)

lemma inv_reachable: "initial s \<Longrightarrow> \<forall>a\<in>set as. ok a \<Longrightarrow> inv (foldl step s as)"
  by (rule inv_run [OF inv_initial])

lemma inv_stable:
  assumes "inv s" and "P s" and "\<forall>a\<in>set as. ok a"
    and "\<And>s a. inv s \<Longrightarrow> P s \<Longrightarrow> ok a \<Longrightarrow> P (step s a)"
  shows "P (foldl step s as)"
  using assms(1-3) by (induction as arbitrary: s) (auto intro: inv_step assms(4))

end

text \<open>\<^verbatim>\<open>nstr\<close> of the repositories: a nullable column read as a string.\<close>

definition nstr :: "string option \<Rightarrow> string" where
  "nstr s = (case s of None \<Rightarrow> [] | Some v \<Rightarrow> v)"

end
