(* ===== verification/Route_Path.thy ===== *)
theory Route_Path
  imports Go_Prelude
begin

text \<open>
  \<^verbatim>\<open>internal/gate/routepath\<close>: the request path is normalised once and then matched
  against the tenant's route policies in priority order. The normaliser is the
  security boundary (a path it cannot canonicalise is refused), so what is
  proved of it is that an accepted path is canonical, that normalising it again
  changes nothing, and exactly which dot segments are refused.
\<close>

unbundle bit_operations_syntax

section \<open>normalize.go\<close>

datatype path_err = ErrAmbiguousPath

fun unhex :: "char \<Rightarrow> nat option" where
  "unhex c =
     (let b = byte_of c in
      if 48 \<le> b \<and> b \<le> 57 then Some (b - 48)
      else if 97 \<le> b \<and> b \<le> 102 then Some (b - 97 + 10)
      else if 65 \<le> b \<and> b \<le> 70 then Some (b - 65 + 10)
      else None)"

fun decodeOnce :: "string \<Rightarrow> path_err + string" where
  "decodeOnce [] = Inr []"
| "decodeOnce (c # s) =
     (if c \<noteq> CHR ''%'' then map_sum id (Cons c) (decodeOnce s)
      else (case s of
              h # l # r \<Rightarrow>
                (case (unhex h, unhex l) of
                   (Some hi, Some lo) \<Rightarrow>
                     map_sum id (Cons (char_of (push_bit 4 hi OR lo))) (decodeOnce r)
                 | _ \<Rightarrow> Inl ErrAmbiguousPath)
            | _ \<Rightarrow> Inl ErrAmbiguousPath))"

text \<open>The bytes the loop over the decoded path refuses.\<close>

definition ambiguous_byte :: "char \<Rightarrow> bool" where
  "ambiguous_byte c \<longleftrightarrow>
     byte_of c < 32 \<or> byte_of c = 127 \<or> byte_of c = 92 \<or> byte_of c = 59 \<or> byte_of c = 37 \<or>
     byte_of c = 0 \<or> byte_of c = 35 \<or> byte_of c = 63"

text \<open>The loop over the segments; \<open>out\<close> is the slice it appends to and truncates.\<close>

fun resolveSegs :: "bool \<Rightarrow> string list \<Rightarrow> string list \<Rightarrow> path_err + string list" where
  "resolveSegs encodedDots [] out = Inr out"
| "resolveSegs encodedDots (s # segs) out =
     (if s = [] then resolveSegs encodedDots segs out
      else if s = ''.'' then
        (if encodedDots then Inl ErrAmbiguousPath else resolveSegs encodedDots segs out)
      else if s = ''..'' then
        (if encodedDots then Inl ErrAmbiguousPath
         else if out = [] then Inl ErrAmbiguousPath
         else resolveSegs encodedDots segs (butlast out))
      else resolveSegs encodedDots segs (out @ [s]))"

text \<open>The part of the raw path before a literal \<^verbatim>\<open>?\<close> or \<^verbatim>\<open>#\<close>.\<close>

definition path_part :: "string \<Rightarrow> string" where
  "path_part raw =
     (let r = takeWhile (\<lambda>c. c \<noteq> CHR ''?'' \<and> c \<noteq> CHR ''#'') raw in if r = [] then ''/'' else r)"

definition render_path :: "string list \<Rightarrow> bool \<Rightarrow> string" where
  "render_path out trailingSlash =
     (let norm = CHR ''/'' # join_with CHR ''/'' out in
      if trailingSlash \<and> norm \<noteq> ''/'' then norm @ ''/'' else norm)"

definition NormalizePath :: "string \<Rightarrow> path_err + string" where
  "NormalizePath raw =
     (if raw = [] \<or> hd raw \<noteq> CHR ''/'' then Inl ErrAmbiguousPath
      else let r = path_part raw in
        case decodeOnce r of
          Inl e \<Rightarrow> Inl e
        | Inr decoded \<Rightarrow>
            if \<not> ValidString decoded then Inl ErrAmbiguousPath
            else if \<exists>c\<in>set decoded. ambiguous_byte c then Inl ErrAmbiguousPath
            else
              let encodedDots = Contains r ''%2e'' \<or> Contains r ''%2E'';
                  trailingSlash = (HasSuffix decoded ''/'' \<and> decoded \<noteq> ''/'')
              in case resolveSegs encodedDots (split_on CHR ''/'' decoded) [] of
                   Inl e \<Rightarrow> Inl e
                 | Inr out \<Rightarrow> Inr (render_path out trailingSlash))"

section \<open>What an accepted path looks like\<close>

definition plain_seg :: "string \<Rightarrow> bool" where
  "plain_seg s \<longleftrightarrow> s \<noteq> [] \<and> s \<noteq> ''.'' \<and> s \<noteq> ''..'' \<and> CHR ''/'' \<notin> set s \<and>
     ValidString s \<and> (\<forall>c\<in>set s. \<not> ambiguous_byte c)"

text \<open>A canonical path: an absolute path of plain segments, with at most one
  trailing slash.\<close>

definition canonical_path :: "string \<Rightarrow> bool" where
  "canonical_path p \<longleftrightarrow> (\<exists>segs t. (\<forall>s\<in>set segs. plain_seg s) \<and> p = render_path segs t)"

lemma byte_of_slash [simp]: "byte_of CHR ''/'' = 47"
  by (simp add: byte_of_def)

lemma slash_not_ambiguous [simp]: "\<not> ambiguous_byte CHR ''/''"
  by (simp add: ambiguous_byte_def)

lemma percent_ambiguous: "ambiguous_byte CHR ''%''" "ambiguous_byte CHR ''?''" "ambiguous_byte CHR ''#''"
  by (simp_all add: ambiguous_byte_def byte_of_def)

lemma resolveSegs_plain:
  assumes "resolveSegs ed segs out = Inr res"
    and "\<And>s. s \<in> set segs \<Longrightarrow> s \<noteq> [] \<Longrightarrow> s \<noteq> ''.'' \<Longrightarrow> s \<noteq> ''..'' \<Longrightarrow> P s"
    and "\<forall>s\<in>set out. P s"
  shows "\<forall>s\<in>set res. P s"
  using assms
proof (induction ed segs out rule: resolveSegs.induct)
  case (1 ed out)
  then show ?case by simp
next
  case (2 ed s segs out)
  show ?case
  proof (cases "s = [] \<or> s = ''.''")
    case True
    with 2 show ?thesis by (auto split: if_splits)
  next
    case False
    show ?thesis
    proof (cases "s = ''..''")
      case True
      with 2 False show ?thesis by (auto split: if_splits dest: in_set_butlastD)
    next
      case ndd: False
      with 2 False show ?thesis by auto
    qed
  qed
qed

lemma resolveSegs_id:
  assumes "\<forall>s\<in>set segs. s \<noteq> [] \<and> s \<noteq> ''.'' \<and> s \<noteq> ''..''"
  shows "resolveSegs ed segs out = Inr (out @ segs)"
  using assms by (induction segs arbitrary: out) auto

lemma resolveSegs_skip_last: "resolveSegs ed (segs @ [[]]) out = resolveSegs ed segs out"
  by (induction ed segs out rule: resolveSegs.induct) auto


lemma render_Nil [simp]: "render_path [] t = ''/''"
  by (simp add: render_path_def)

lemma join_not_Nil: "segs \<noteq> [] \<Longrightarrow> \<forall>s\<in>set segs. s \<noteq> [] \<Longrightarrow> join_with c segs \<noteq> []"
  by (induction c segs rule: join_with.induct) auto

lemma render_path_nonempty:
  assumes "segs \<noteq> []" and "\<forall>s\<in>set segs. plain_seg s"
  shows "render_path segs t = CHR ''/'' # join_with CHR ''/'' segs @ (if t then ''/'' else [])"
  using join_not_Nil [of segs] assms by (auto simp: render_path_def plain_seg_def)

lemma hd_render [simp]: "render_path segs t \<noteq> []" "hd (render_path segs t) = CHR ''/''"
  by (simp_all add: render_path_def Let_def)

lemma set_render:
  assumes "\<forall>s\<in>set segs. plain_seg s" and "c \<in> set (render_path segs t)"
  shows "\<not> ambiguous_byte c"
proof -
  from assms(2) have "c = CHR ''/'' \<or> c \<in> set (join_with CHR ''/'' segs)"
    by (auto simp: render_path_def Let_def split: if_splits)
  then consider "c = CHR ''/''" | s where "s \<in> set segs" "c \<in> set s"
    using set_join_with [of "CHR ''/''" segs] by blast
  then show ?thesis
  proof cases
    case 1
    then show ?thesis by simp
  next
    case 2
    with assms(1) show ?thesis by (auto simp: plain_seg_def)
  qed
qed

lemma ValidString_render:
  assumes "\<forall>s\<in>set segs. plain_seg s"
  shows "ValidString (render_path segs t)"
proof -
  have sl: "ValidString ''/''" by (rule ValidString_ascii) simp
  have "ValidString (join_with CHR ''/'' segs)"
    using assms by (intro ValidString_join) (auto simp: plain_seg_def)
  from ValidString_append [OF sl this]
  have "ValidString (CHR ''/'' # join_with CHR ''/'' segs)" by simp
  with ValidString_append [OF this sl] show ?thesis
    by (simp add: render_path_def Let_def)
qed

lemma split_render:
  assumes "\<forall>s\<in>set segs. plain_seg s"
  shows "split_on CHR ''/'' (render_path segs t) =
     [] # (if segs = [] then [[]] else segs @ (if t then [[]] else []))"
proof (cases "segs = []")
  case True
  then show ?thesis by simp
next
  case False
  with assms have "split_on CHR ''/'' (join_with CHR ''/'' segs) = segs"
    by (intro split_on_join) (auto simp: plain_seg_def)
  with False assms show ?thesis
    using split_on_append_sep [of "CHR ''/''" "join_with CHR ''/'' segs" "[]"]
    by (simp add: render_path_nonempty)
qed

lemma HasPrefix_single: "HasPrefix s [c] \<longleftrightarrow> s \<noteq> [] \<and> hd s = c"
  by (cases s) auto

lemma HasSuffix_slash: "HasSuffix s [c] \<longleftrightarrow> s \<noteq> [] \<and> last s = c"
  by (cases s rule: rev_cases) (auto simp: HasSuffix_def HasPrefix_iff)

lemma last_join:
  assumes "segs \<noteq> []" and "\<forall>s\<in>set segs. s \<noteq> []"
  shows "last (join_with c segs) = last (last segs)"
  using assms
proof (induction c segs rule: join_with.induct)
  case (3 c x y ys)
  then show ?case using join_not_Nil [of "y # ys" c] by simp
qed auto

lemma trailing_render:
  assumes "\<forall>s\<in>set segs. plain_seg s"
  shows "HasSuffix (render_path segs t) ''/'' \<and> render_path segs t \<noteq> ''/'' \<longleftrightarrow> segs \<noteq> [] \<and> t"
proof (cases "segs = []")
  case True
  then show ?thesis by simp
next
  case False
  have ne: "\<forall>s\<in>set segs. s \<noteq> []" using assms by (auto simp: plain_seg_def)
  have "CHR ''/'' \<notin> set (last segs)" and "last segs \<noteq> []"
    using False assms ne by (auto simp: plain_seg_def)
  then have "last (join_with CHR ''/'' segs) \<noteq> CHR ''/''"
    using last_join [OF False ne] last_in_set [of "last segs"] by metis
  with False assms show ?thesis
    by (auto simp: HasSuffix_slash render_path_nonempty join_not_Nil ne)
qed

lemma takeWhile_all: "\<forall>c\<in>set s. P c \<Longrightarrow> takeWhile P s = s"
  by (simp add: takeWhile_eq_all_conv)

lemma path_part_render: "\<forall>s\<in>set segs. plain_seg s \<Longrightarrow> path_part (render_path segs t) = render_path segs t"
  using set_render [of segs _ t] percent_ambiguous
  by (subst path_part_def, subst takeWhile_all) (auto simp: Let_def)

lemma decodeOnce_id: "CHR ''%'' \<notin> set s \<Longrightarrow> decodeOnce s = Inr s"
  by (induction s rule: decodeOnce.induct) auto

lemma normalize_render:
  assumes "\<forall>s\<in>set segs. plain_seg s"
  shows "NormalizePath (render_path segs t) = Inr (render_path segs t)"
proof -
  let ?p = "render_path segs t"
  have pct: "CHR ''%'' \<notin> set ?p" using set_render [OF assms] percent_ambiguous(1) by blast
  then have nd: "\<not> Contains ?p ''%2e''" "\<not> Contains ?p ''%2E''"
    by (auto simp: Contains_iff)
  have res: "resolveSegs False (split_on CHR ''/'' ?p) [] = Inr segs"
    using assms
    by (auto simp: split_render resolveSegs_skip_last plain_seg_def resolveSegs_id)
  have tr: "(HasSuffix ?p ''/'' \<and> ?p \<noteq> ''/'') = (segs \<noteq> [] \<and> t)"
    by (rule trailing_render [OF assms])
  have "NormalizePath ?p = Inr (render_path segs (segs \<noteq> [] \<and> t))"
    unfolding NormalizePath_def path_part_render [OF assms] decodeOnce_id [OF pct] Let_def
    using set_render [OF assms] by (simp add: ValidString_render assms nd res tr)
  also have "render_path segs (segs \<noteq> [] \<and> t) = ?p" by (cases "segs = []") simp_all
  finally show ?thesis .
qed

lemma normalize_shape:
  assumes "NormalizePath raw = Inr p"
  shows "\<exists>segs t. (\<forall>s\<in>set segs. plain_seg s) \<and> p = render_path segs t"
proof -
  from assms obtain d ed segs t where
    d: "ValidString d" "\<forall>c\<in>set d. \<not> ambiguous_byte c"
    and r: "resolveSegs ed (split_on CHR ''/'' d) [] = Inr segs" and p: "p = render_path segs t"
    by (auto simp: NormalizePath_def Let_def split: if_splits sum.splits)
  have "\<forall>s\<in>set segs. plain_seg s"
  proof (rule resolveSegs_plain [OF r])
    fix s assume s: "s \<in> set (split_on CHR ''/'' d)" and "s \<noteq> []" "s \<noteq> ''.''" "s \<noteq> ''..''"
    with split_on_no_sep [OF s] set_split_on [OF s] d show "plain_seg s"
      by (auto simp: plain_seg_def intro: ValidString_split_on [OF d(1) _ s])
  qed simp
  with p show ?thesis by blast
qed

section \<open>Which dot segments are refused\<close>

text \<open>How far below the root the walk is after some segments: a plain segment goes one
  down, \<^verbatim>\<open>..\<close> one up, empty and \<^verbatim>\<open>.\<close> segments stay.\<close>

fun seg_depth :: "string list \<Rightarrow> int" where
  "seg_depth [] = 0"
| "seg_depth (s # ss) =
     (if s = [] \<or> s = ''.'' then 0 else if s = ''..'' then - 1 else 1) + seg_depth ss"

lemma resolveSegs_accepts:
  "(\<exists>res. resolveSegs False segs out = Inr res) \<longleftrightarrow>
     (\<forall>k\<le>length segs. 0 \<le> int (length out) + seg_depth (take k segs))"
proof (induction segs arbitrary: out)
  case Nil
  then show ?case by simp
next
  case (Cons s segs)
  have all_Suc: "(\<forall>k\<le>length (s # segs). P k) \<longleftrightarrow> P 0 \<and> (\<forall>k\<le>length segs. P (Suc k))" for P
    by (metis Suc_le_mono bot_nat_0.extremum length_Cons not0_implies_Suc)
  have pre: "0 \<le> int (length out) + seg_depth (take 0 (s # segs))" by simp
  have zero: "(\<forall>k\<le>length segs. 0 \<le> d + seg_depth (take k segs)) \<Longrightarrow> 0 \<le> d" for d
    by (drule spec [where x = 0]) simp
  show ?case
  proof (cases "s = [] \<or> s = ''.''")
    case True
    then show ?thesis unfolding all_Suc using Cons.IH [of out] by auto
  next
    case False
    show ?thesis
    proof (cases "s = ''..''")
      case True
      show ?thesis
      proof (cases "out = []")
        case True
        with \<open>s = ''..''\<close> zero [of "- 1"] show ?thesis unfolding all_Suc by auto
      next
        case False
        then have "int (length (butlast out)) = int (length out) - 1"
          by (cases out) auto
        with \<open>s = ''..''\<close> False Cons.IH [of "butlast out"] show ?thesis
          unfolding all_Suc by (auto simp: algebra_simps)
      qed
    next
      case ndd: False
      with False Cons.IH [of "out @ [s]"] show ?thesis
        unfolding all_Suc by (auto simp: algebra_simps)
    qed
  qed
qed

lemma resolveSegs_encoded:
  "(\<exists>res. resolveSegs True segs out = Inr res) \<longleftrightarrow> (\<forall>s\<in>set segs. s \<noteq> ''.'' \<and> s \<noteq> ''..'')"
  by (induction segs arbitrary: out) auto

text \<open>The condition under which a request path is served at all.\<close>

definition accepted_path :: "string \<Rightarrow> bool" where
  "accepted_path raw \<longleftrightarrow> HasPrefix raw ''/'' \<and>
     (\<exists>d. decodeOnce (path_part raw) = Inr d \<and> ValidString d \<and> (\<forall>c\<in>set d. \<not> ambiguous_byte c) \<and>
        (let segs = split_on CHR ''/'' d in
         if Contains (path_part raw) ''%2e'' \<or> Contains (path_part raw) ''%2E''
         then ''.'' \<notin> set segs \<and> ''..'' \<notin> set segs
         else \<forall>k\<le>length segs. 0 \<le> seg_depth (take k segs)))"

lemma normalize_decoded:
  assumes "HasPrefix raw ''/''" and "decodeOnce (path_part raw) = Inr d"
    and ed: "ed = (Contains (path_part raw) ''%2e'' \<or> Contains (path_part raw) ''%2E'')"
  shows "(\<exists>p. NormalizePath raw = Inr p) \<longleftrightarrow>
     ValidString d \<and> (\<forall>c\<in>set d. \<not> ambiguous_byte c) \<and>
     (\<exists>res. resolveSegs ed (split_on CHR ''/'' d) [] = Inr res)"
proof (cases "ValidString d \<and> (\<forall>c\<in>set d. \<not> ambiguous_byte c)")
  case False
  with assms show ?thesis
    unfolding NormalizePath_def Let_def ed [symmetric] by (simp add: HasPrefix_single)
next
  case True
  with assms show ?thesis
    unfolding NormalizePath_def Let_def ed [symmetric]
    by (cases "resolveSegs ed (split_on CHR ''/'' d) []") (simp_all add: HasPrefix_single)
qed

lemma normalize_accepts: "(\<exists>p. NormalizePath raw = Inr p) \<longleftrightarrow> accepted_path raw"
proof (cases "HasPrefix raw ''/'' \<and> (\<exists>d. decodeOnce (path_part raw) = Inr d)")
  case False
  then have "\<not> accepted_path raw" unfolding accepted_path_def by blast
  moreover have "\<nexists>p. NormalizePath raw = Inr p"
    using False by (cases "decodeOnce (path_part raw)") (auto simp: NormalizePath_def Let_def HasPrefix_single)
  ultimately show ?thesis by blast
next
  case True
  then obtain d where h: "HasPrefix raw ''/''" and d: "decodeOnce (path_part raw) = Inr d" by blast
  define ed where "ed = (Contains (path_part raw) ''%2e'' \<or> Contains (path_part raw) ''%2E'')"
  have "(\<exists>res. resolveSegs ed (split_on CHR ''/'' d) [] = Inr res) \<longleftrightarrow>
      (let segs = split_on CHR ''/'' d in
         if ed then ''.'' \<notin> set segs \<and> ''..'' \<notin> set segs
         else \<forall>k\<le>length segs. 0 \<le> seg_depth (take k segs))"
    using resolveSegs_accepts [of "split_on CHR ''/'' d" "[]"] resolveSegs_encoded [of "split_on CHR ''/'' d" "[]"]
    unfolding Let_def by (cases ed) (simp, blast, simp)
  then have "accepted_path raw \<longleftrightarrow> ValidString d \<and> (\<forall>c\<in>set d. \<not> ambiguous_byte c) \<and>
     (\<exists>res. resolveSegs ed (split_on CHR ''/'' d) [] = Inr res)"
    unfolding accepted_path_def d ed_def [symmetric] using h by simp
  with normalize_decoded [OF h d ed_def] show ?thesis by simp
qed

section \<open>The shared corpus\<close>

text \<open>\<^verbatim>\<open>testdata/normalize_corpus.txt\<close>, which runs against every consumer of the normaliser.\<close>

definition rejected :: "string \<Rightarrow> bool" where
  "rejected raw \<longleftrightarrow> NormalizePath raw = Inl ErrAmbiguousPath"

lemma normalize_corpus:
  "NormalizePath ''/a//b///c'' = Inr ''/a/b/c''"
  "NormalizePath ''/a/./b'' = Inr ''/a/b''"
  "NormalizePath ''/a/b/../c'' = Inr ''/a/c''"
  "NormalizePath ''/a/b/'' = Inr ''/a/b/''"
  "NormalizePath ''/a/%41'' = Inr ''/a/A''"
  "NormalizePath ''/a%2fb'' = Inr ''/a/b''"
  "NormalizePath ''/a/b?x=1'' = Inr ''/a/b''"
  "NormalizePath ''/a/%20b'' = Inr ''/a/ b''"
  "rejected ''/a/../..''"
  "rejected ''/%2e%2e/etc/passwd''"
  "rejected ''/a/%252e%252e/b''"
  "rejected ''/a/b%00''"
  "rejected ''/a;jsessionid=x/b''"
  "rejected ''/a/%zz''"
  "rejected ''relative/path''"
  "rejected ''/a/%c0%af/b''"
  "rejected ''/a%3fb''"
  by code_simp+

text \<open>C6. Path normalisation is canonicalisation: a string is the result of \<^verbatim>\<open>NormalizePath\<close> on
  some request path exactly when it is canonical (absolute, valid UTF-8, no empty, \<^verbatim>\<open>.\<close> or
  \<^verbatim>\<open>..\<close> segment, no ambiguous byte, at most one trailing slash), and exactly then normalising it
  again returns it unchanged.\<close>

theorem normalize_canonical:
  "((\<exists>raw. NormalizePath raw = Inr p) \<longleftrightarrow> canonical_path p) \<and>
   (canonical_path p \<longleftrightarrow> NormalizePath p = Inr p)"
  using normalize_render normalize_shape unfolding canonical_path_def by metis

text \<open>C7. Acceptance is decided exactly: a request path is served when it is absolute, decodes
  in one round to valid UTF-8 without control bytes, backslash, semicolon, a surviving percent
  sign, or a decoded \<^verbatim>\<open>?\<close> or \<^verbatim>\<open>#\<close>, and no prefix of its segments climbs above the root; when a
  dot was percent-encoded, no dot segment at all is tolerated. Everything else is refused.\<close>

theorem normalize_accepts_iff:
  "((\<exists>p. NormalizePath raw = Inr p) \<longleftrightarrow> accepted_path raw) \<and>
   (NormalizePath raw = Inl ErrAmbiguousPath \<longleftrightarrow> \<not> accepted_path raw)"
proof (cases "NormalizePath raw")
  case (Inl e)
  then show ?thesis using normalize_accepts [of raw] by (cases e) simp
next
  case (Inr p)
  then show ?thesis using normalize_accepts [of raw] by simp
qed

end
