(* ===== verification/Scope_Index.thy ===== *)
theory Scope_Index
  imports Go_Prelude
begin

text \<open>
  \<^verbatim>\<open>internal/gate/snapshot/scope_index.go\<close>: the place hierarchy as dense indices with one
  parent pointer each. The specification is the relation on node ids the rows describe;
  the index is shown to answer exactly it, for every set of rows, cyclic ones included.
\<close>

section \<open>Data\<close>

record ScopeNode =
  Node_ID :: string
  Node_Parent :: string

record ScopeConstraint =
  SC_NodeID :: string
  SC_Inherit :: bool
  SC_Exclude :: bool
  SC_node :: int

record ScopeIndex =
  SI_idx :: "(string, int) gomap"
  SI_parent :: "int list"

section \<open>Building and resolving\<close>

text \<open>The loop that keys the map by slices of the slab the ids were copied into.\<close>

fun index_slab :: "string \<Rightarrow> ScopeNode list \<Rightarrow> nat \<Rightarrow> nat \<Rightarrow> (string, int) gomap \<Rightarrow> (string, int) gomap" where
  "index_slab slab [] i pos m = m"
| "index_slab slab (nd # nds) i pos m =
     (let n = length (Node_ID nd) in
      index_slab slab nds (i + 1) (pos + n) (map_put (take n (drop pos slab)) (int32 (int i)) m))"

definition link_parent :: "(string, int) gomap \<Rightarrow> ScopeNode \<Rightarrow> int" where
  "link_parent idx nd =
     (case map_of idx (Node_Parent nd) of
        None \<Rightarrow> - 1
      | Some p \<Rightarrow> if Node_Parent nd = [] then - 1 else p)"

definition NewScopeIndex :: "ScopeNode list \<Rightarrow> ScopeIndex" where
  "NewScopeIndex nodes =
     (let slab = concat (map Node_ID nodes);
          idx = index_slab slab nodes 0 0 []
      in \<lparr>SI_idx = idx, SI_parent = map (link_parent idx) nodes\<rparr>)"

definition Len :: "ScopeIndex \<Rightarrow> nat" where
  "Len x = length (SI_parent x)"

definition Resolve :: "ScopeIndex \<Rightarrow> string \<Rightarrow> int option" where
  "Resolve x nid = map_of (SI_idx x) nid"

definition Intern :: "ScopeIndex \<Rightarrow> ScopeConstraint list \<Rightarrow> ScopeConstraint list" where
  "Intern x cs =
     map (\<lambda>c. case map_of (SI_idx x) (SC_NodeID c) of
                None \<Rightarrow> c | Some n \<Rightarrow> c\<lparr>SC_node := int32 (n + 1)\<rparr>) cs"

section \<open>CoveredBy\<close>

text \<open>The depth-0 scan: \<open>None\<close> is the early \<^verbatim>\<open>return false\<close>, otherwise the three flags
  included, inherits, hasExclude.\<close>

fun scan_exact :: "int \<Rightarrow> ScopeConstraint list \<Rightarrow> bool \<Rightarrow> bool \<Rightarrow> bool \<Rightarrow> (bool \<times> bool \<times> bool) option" where
  "scan_exact target [] included inherits hasExclude = Some (included, inherits, hasExclude)"
| "scan_exact target (c # cs) included inherits hasExclude =
     (let hasExclude' = (hasExclude \<or> SC_Exclude c) in
      if SC_node c = int32 (target + 1) then
        (if SC_Exclude c then None
         else scan_exact target cs True (inherits \<or> SC_Inherit c) hasExclude')
      else scan_exact target cs included (inherits \<or> SC_Inherit c) hasExclude')"

text \<open>One node of the ascent: \<open>Inl\<close> is a \<^verbatim>\<open>return\<close>, \<open>Inr\<close> the new \<^verbatim>\<open>included\<close>.\<close>

fun scan_inherited :: "int \<Rightarrow> bool \<Rightarrow> ScopeConstraint list \<Rightarrow> bool \<Rightarrow> bool + bool" where
  "scan_inherited n hasExclude [] included = Inr included"
| "scan_inherited n hasExclude (c # cs) included =
     (if SC_node c = int32 (n + 1) \<and> SC_Inherit c then
        (if SC_Exclude c then Inl False
         else if \<not> hasExclude then Inl True
         else scan_inherited n hasExclude cs True)
      else scan_inherited n hasExclude cs included)"

text \<open>The ascent, with the number of steps still allowed by the cycle guard.\<close>

fun ascend :: "ScopeIndex \<Rightarrow> ScopeConstraint list \<Rightarrow> bool \<Rightarrow> nat \<Rightarrow> int \<Rightarrow> bool \<Rightarrow> bool" where
  "ascend x cs hasExclude 0 n included = included"
| "ascend x cs hasExclude (Suc steps) n included =
     (if n < 0 then included
      else (case scan_inherited n hasExclude cs included of
              Inl b \<Rightarrow> b
            | Inr inc \<Rightarrow> ascend x cs hasExclude steps (SI_parent x ! nat n) inc))"

definition CoveredBy :: "ScopeIndex \<Rightarrow> int \<Rightarrow> ScopeConstraint list \<Rightarrow> bool" where
  "CoveredBy x target cs =
     (if target < 0 \<or> target \<ge> int (length (SI_parent x)) then False
      else (case scan_exact target cs False False False of
              None \<Rightarrow> False
            | Some (included, inherits, hasExclude) \<Rightarrow>
                if included \<and> \<not> hasExclude then True
                else if \<not> inherits then included
                else ascend x cs hasExclude (length (SI_parent x)) (SI_parent x ! nat target) included))"

section \<open>Specification\<close>

text \<open>What the rows say: a node's parent is the row its parent id names, if there is one;
  ancestor-or-self is the closure of that.\<close>

definition row_parent :: "ScopeNode list \<Rightarrow> string \<Rightarrow> string \<Rightarrow> bool" where
  "row_parent nodes a p \<longleftrightarrow> p \<noteq> [] \<and> p \<in> Node_ID ` set nodes \<and>
     (\<exists>nd\<in>set nodes. Node_ID nd = a \<and> Node_Parent nd = p)"

definition ancestor :: "ScopeNode list \<Rightarrow> string \<Rightarrow> string \<Rightarrow> bool" where
  "ancestor nodes a b \<longleftrightarrow> (row_parent nodes)\<^sup>+\<^sup>+ b a"

definition covers :: "ScopeNode list \<Rightarrow> ScopeConstraint \<Rightarrow> string \<Rightarrow> bool" where
  "covers nodes c t \<longleftrightarrow>
     t \<in> Node_ID ` set nodes \<and> (SC_NodeID c = t \<or> SC_Inherit c \<and> ancestor nodes (SC_NodeID c) t)"

text \<open>Some include covers the target and no exclude does.\<close>

definition admits :: "('c \<Rightarrow> bool) \<Rightarrow> ('c \<Rightarrow> bool) \<Rightarrow> 'c list \<Rightarrow> bool" where
  "admits excl cov cs \<longleftrightarrow> (\<exists>c\<in>set cs. \<not> excl c \<and> cov c) \<and> \<not> (\<exists>c\<in>set cs. excl c \<and> cov c)"

text \<open>The tables the loader reads: ids are primary keys, and there are fewer of them than an
  \<^verbatim>\<open>int32\<close> can count.\<close>

definition rows_wf :: "ScopeNode list \<Rightarrow> bool" where
  "rows_wf nodes \<longleftrightarrow> distinct (map Node_ID nodes) \<and> length nodes < 2 ^ 31 - 1"

section \<open>The index holds the rows\<close>

lemma index_slab_map_of:
  assumes "slab = pre @ concat (map Node_ID nds)" and "length pre = pos"
    and "distinct (map Node_ID nds)" and "i + length nds < 2 ^ 31"
  shows "(k \<notin> Node_ID ` set nds \<longrightarrow> map_of (index_slab slab nds i pos m) k = map_of m k) \<and>
     (\<forall>j<length nds. map_of (index_slab slab nds i pos m) (Node_ID (nds ! j)) = Some (int (i + j)))"
  using assms
proof (induction nds arbitrary: pre pos i m k)
  case (Cons nd nds)
  have sl: "take (length (Node_ID nd)) (drop pos slab) = Node_ID nd"
    using Cons.prems by simp
  have pre: "slab = (pre @ Node_ID nd) @ concat (map Node_ID nds)"
      "length (pre @ Node_ID nd) = pos + length (Node_ID nd)" "(i + 1) + length nds < 2 ^ 31"
      "distinct (map Node_ID nds)"
    using Cons.prems by simp_all
  let ?m = "map_put (Node_ID nd) (int32 (int i)) m"
  have step: "index_slab slab (nd # nds) i pos m =
      index_slab slab nds (i + 1) (pos + length (Node_ID nd)) ?m"
    by (simp only: index_slab.simps Let_def sl)
  note IH = Cons.IH [OF pre(1,2,4,3), of _ ?m]
  have i: "int32 (int i) = int i" using Cons.prems by (intro int32_id) auto
  have nd: "Node_ID nd \<notin> Node_ID ` set nds" using Cons.prems by simp
  have "map_of (index_slab slab (nd # nds) i pos m) (Node_ID ((nd # nds) ! j)) = Some (int (i + j))"
    if "j < length (nd # nds)" for j
    using that IH [of "Node_ID nd"] nd i unfolding step
    by (cases j) (auto simp: go_simps)
  moreover have "map_of (index_slab slab (nd # nds) i pos m) k = map_of m k"
    if "k \<notin> Node_ID ` set (nd # nds)"
    using that IH [of k] unfolding step by (auto simp: go_simps)
  ultimately show ?case by blast
qed simp

lemma rows_wf_slab:
  assumes "rows_wf nodes"
  shows "nid \<notin> Node_ID ` set nodes \<Longrightarrow> Resolve (NewScopeIndex nodes) nid = None"
    and "j < length nodes \<Longrightarrow> Resolve (NewScopeIndex nodes) (Node_ID (nodes ! j)) = Some (int j)"
  using index_slab_map_of [of "concat (map Node_ID nodes)" "[]" nodes 0 0 nid "[]"] assms
  by (simp_all add: Resolve_def NewScopeIndex_def Let_def rows_wf_def)

lemma Resolve_iff:
  assumes "rows_wf nodes"
  shows "Resolve (NewScopeIndex nodes) nid = Some n \<longleftrightarrow>
     0 \<le> n \<and> nat n < length nodes \<and> Node_ID (nodes ! nat n) = nid"
proof
  assume r: "Resolve (NewScopeIndex nodes) nid = Some n"
  then have "nid \<in> Node_ID ` set nodes" using rows_wf_slab(1) [OF assms, of nid] by fastforce
  then obtain j where "j < length nodes" "Node_ID (nodes ! j) = nid"
    by (auto simp: in_set_conv_nth)
  with r rows_wf_slab(2) [OF assms, of j] show "0 \<le> n \<and> nat n < length nodes \<and> Node_ID (nodes ! nat n) = nid"
    by auto
next
  assume "0 \<le> n \<and> nat n < length nodes \<and> Node_ID (nodes ! nat n) = nid"
  with rows_wf_slab(2) [OF assms, of "nat n"] show "Resolve (NewScopeIndex nodes) nid = Some n" by auto
qed

lemma Resolve_None:
  assumes "rows_wf nodes"
  shows "Resolve (NewScopeIndex nodes) nid = None \<longleftrightarrow> nid \<notin> Node_ID ` set nodes"
proof
  assume none: "Resolve (NewScopeIndex nodes) nid = None"
  show "nid \<notin> Node_ID ` set nodes"
  proof
    assume "nid \<in> Node_ID ` set nodes"
    then obtain j where "j < length nodes" "Node_ID (nodes ! j) = nid"
      by (auto simp: in_set_conv_nth)
    with rows_wf_slab(2) [OF assms, of j] none show False by simp
  qed
qed (rule rows_wf_slab(1) [OF assms])

lemma length_parent [simp]: "length (SI_parent (NewScopeIndex nodes)) = length nodes"
  by (simp add: NewScopeIndex_def Let_def)

lemma parent_nth:
  "j < length nodes \<Longrightarrow> SI_parent (NewScopeIndex nodes) ! j =
     (case Resolve (NewScopeIndex nodes) (Node_Parent (nodes ! j)) of
        None \<Rightarrow> - 1 | Some p \<Rightarrow> if Node_Parent (nodes ! j) = [] then - 1 else p)"
  by (simp add: NewScopeIndex_def Let_def link_parent_def Resolve_def)

section \<open>The ascent visits every ancestor\<close>

definition parent_of :: "ScopeIndex \<Rightarrow> int \<Rightarrow> int" where
  "parent_of x n = (if n < 0 then n else SI_parent x ! nat n)"

definition index_wf :: "ScopeIndex \<Rightarrow> bool" where
  "index_wf x \<longleftrightarrow> length (SI_parent x) < 2 ^ 31 - 1 \<and>
     (\<forall>p\<in>set (SI_parent x). - 1 \<le> p \<and> p < int (length (SI_parent x)))"

lemma index_wf_New: "rows_wf nodes \<Longrightarrow> index_wf (NewScopeIndex nodes)"
  by (auto simp: index_wf_def in_set_conv_nth parent_nth Resolve_iff split: option.splits)
     (auto simp: rows_wf_def)

lemma iterate_within:
  fixes g :: "'a \<Rightarrow> 'a"
  assumes "finite S" and "\<And>i. i \<le> m \<Longrightarrow> (g ^^ i) a \<in> S"
  shows "\<exists>i<card S. (g ^^ i) a = (g ^^ m) a"
proof -
  define l where "l = (LEAST i. (g ^^ i) a = (g ^^ m) a)"
  have l: "(g ^^ l) a = (g ^^ m) a" unfolding l_def by (rule LeastI) simp
  have lm: "l \<le> m" unfolding l_def by (rule Least_le) simp
  have "inj_on (\<lambda>i. (g ^^ i) a) {..l}"
  proof (rule linorder_inj_onI)
    fix i j assume ij: "i < j" "i \<in> {..l}" "j \<in> {..l}"
    show "(g ^^ i) a \<noteq> (g ^^ j) a"
    proof
      assume eq: "(g ^^ i) a = (g ^^ j) a"
      have "(g ^^ l) a = (g ^^ (l - j)) ((g ^^ j) a)"
        using ij by (metis atMost_iff comp_apply funpow_add le_add_diff_inverse2)
      also have "\<dots> = (g ^^ (l - j + i)) a" by (simp add: eq [symmetric] funpow_add)
      finally have "(g ^^ (l - j + i)) a = (g ^^ m) a" using l by simp
      then have "l \<le> l - j + i" unfolding l_def by (rule Least_le)
      with ij show False by simp
    qed
  qed auto
  then have "card {..l} \<le> card S"
    using assms(2) lm by (intro card_inj_on_le [OF _ _ assms(1)]) auto
  with l show ?thesis by (auto simp: Suc_le_eq)
qed

lemma parent_of_nonneg: "0 \<le> parent_of x n \<Longrightarrow> 0 \<le> n"
  by (simp add: parent_of_def split: if_splits)

lemma parent_of_neg: "n < 0 \<Longrightarrow> (parent_of x ^^ k) n = n"
  by (induction k) (auto simp: parent_of_def)

lemma parent_of_range:
  assumes "index_wf x" and "n < int (length (SI_parent x))"
  shows "(parent_of x ^^ k) n < int (length (SI_parent x))"
  using assms(2)
proof (induction k)
  case (Suc k)
  let ?v = "(parent_of x ^^ k) n"
  show ?case
  proof (cases "?v < 0")
    case False
    then have "SI_parent x ! nat ?v \<in> set (SI_parent x)" using Suc by (intro nth_mem) auto
    with False assms(1) show ?thesis by (simp add: parent_of_def [of x ?v] index_wf_def)
  qed (simp add: parent_of_def [of x ?v])
qed simp

lemma parent_of_nonneg_before:
  assumes "0 \<le> (parent_of x ^^ m) n" and "i \<le> m"
  shows "0 \<le> (parent_of x ^^ i) n"
proof (rule ccontr)
  assume "\<not> 0 \<le> (parent_of x ^^ i) n"
  then have "(parent_of x ^^ (m - i)) ((parent_of x ^^ i) n) < 0"
    by (simp add: parent_of_neg)
  with assms show False by (metis comp_apply funpow_add le_add_diff_inverse2 not_le)
qed

lemma ascent_complete:
  assumes "index_wf x" and "n < int (length (SI_parent x))" and "0 \<le> (parent_of x ^^ m) n"
  shows "\<exists>i<length (SI_parent x). (parent_of x ^^ i) n = (parent_of x ^^ m) n"
proof -
  have "(parent_of x ^^ i) n \<in> {0..<int (length (SI_parent x))}" if "i \<le> m" for i
    using parent_of_range [OF assms(1,2)] parent_of_nonneg_before [OF assms(3) that] by simp
  from iterate_within [OF _ this] show ?thesis by simp
qed

section \<open>What the scans and the ascent compute\<close>

text \<open>Constraint \<open>c\<close> names node \<open>n\<close> of the index.\<close>

abbreviation names :: "int \<Rightarrow> ScopeConstraint \<Rightarrow> bool" where
  "names n c \<equiv> SC_node c = int32 (n + 1)"

lemma scan_exact_None:
  "scan_exact t cs inc inh he = None \<longleftrightarrow> (\<exists>c\<in>set cs. names t c \<and> SC_Exclude c)"
  by (induction t cs inc inh he rule: scan_exact.induct) (auto simp: Let_def)

lemma scan_exact_Some:
  "scan_exact t cs inc inh he = Some r \<Longrightarrow>
   r = (inc \<or> (\<exists>c\<in>set cs. names t c), inh \<or> (\<exists>c\<in>set cs. SC_Inherit c), he \<or> (\<exists>c\<in>set cs. SC_Exclude c))"
  by (induction t cs inc inh he rule: scan_exact.induct) (auto simp: Let_def split: if_splits)

abbreviation inherits_from :: "int \<Rightarrow> ScopeConstraint \<Rightarrow> bool" where
  "inherits_from n c \<equiv> names n c \<and> SC_Inherit c"

lemma scan_inherited_cases:
  assumes "he \<or> (\<forall>c\<in>set cs. \<not> SC_Exclude c)"
  shows "case scan_inherited n he cs inc of
      Inl b \<Rightarrow> (if b then \<not> he \<and> (\<exists>c\<in>set cs. inherits_from n c)
                else (\<exists>c\<in>set cs. inherits_from n c \<and> SC_Exclude c))
    | Inr inc' \<Rightarrow> (\<forall>c\<in>set cs. inherits_from n c \<longrightarrow> \<not> SC_Exclude c) \<and>
                  (inc' \<longleftrightarrow> inc \<or> (\<exists>c\<in>set cs. inherits_from n c))"
  using assms
proof (induction n he cs inc rule: scan_inherited.induct)
  case (2 n he c cs inc)
  show ?case
  proof (cases "inherits_from n c \<and> \<not> SC_Exclude c \<and> he")
    case True
    with 2 show ?thesis by (auto split: sum.splits)
  next
    case False
    show ?thesis
    proof (cases "inherits_from n c")
      case True
      with False 2 show ?thesis by auto
    next
      case nin: False
      with 2 show ?thesis by (auto split: sum.splits)
    qed
  qed
qed simp

definition visits :: "ScopeIndex \<Rightarrow> nat \<Rightarrow> int \<Rightarrow> int set" where
  "visits x steps n = {v. 0 \<le> v \<and> (\<exists>k<steps. v = (parent_of x ^^ k) n)}"

lemma visits_simps:
  "visits x 0 n = {}"
  "n < 0 \<Longrightarrow> visits x steps n = {}"
  "0 \<le> n \<Longrightarrow> visits x (Suc steps) n = insert n (visits x steps (SI_parent x ! nat n))"
proof -
  show "visits x 0 n = {}" by (simp add: visits_def)
  show "visits x steps n = {}" if "n < 0" using that by (auto simp: visits_def parent_of_neg)
  assume n: "0 \<le> n"
  have split: "(\<exists>k<Suc steps. v = (parent_of x ^^ k) n) \<longleftrightarrow>
      v = n \<or> (\<exists>k<steps. v = (parent_of x ^^ k) (SI_parent x ! nat n))" for v
    using n by (auto simp: less_Suc_eq_0_disj funpow_swap1 parent_of_def [of x n])
  show "visits x (Suc steps) n = insert n (visits x steps (SI_parent x ! nat n))"
    unfolding visits_def split using n by auto
qed

lemma ascend_spec:
  assumes "he \<or> (\<forall>c\<in>set cs. \<not> SC_Exclude c)"
  shows "ascend x cs he steps n inc \<longleftrightarrow>
     (inc \<or> (\<exists>v\<in>visits x steps n. \<exists>c\<in>set cs. inherits_from v c)) \<and>
     \<not> (\<exists>v\<in>visits x steps n. \<exists>c\<in>set cs. inherits_from v c \<and> SC_Exclude c)"
  using assms
proof (induction x cs he steps n inc rule: ascend.induct)
  case (2 x cs he steps n inc)
  show ?case
  proof (cases "n < 0")
    case True
    then show ?thesis by (simp add: visits_simps)
  next
    case False
    note sc = scan_inherited_cases [OF 2(2), of n inc]
    note vis = visits_simps(3) [of n x steps]
    show ?thesis
    proof (cases "scan_inherited n he cs inc")
      case (Inl b)
      with False sc 2(2) vis show ?thesis by (cases b) (auto simp: not_less)
    next
      case (Inr inc')
      with False 2(1) [OF False Inr 2(2)] sc vis show ?thesis by (auto simp: not_less)
    qed
  qed
qed (simp add: visits_simps)

text \<open>A constraint covers index node \<open>t\<close>: it names it, or inherits from a node on the way up.\<close>

definition index_covers :: "ScopeIndex \<Rightarrow> int \<Rightarrow> ScopeConstraint \<Rightarrow> bool" where
  "index_covers x t c \<longleftrightarrow> names t c \<or>
     SC_Inherit c \<and> (\<exists>k. 0 \<le> (parent_of x ^^ Suc k) t \<and> names ((parent_of x ^^ Suc k) t) c)"

lemma visits_all:
  assumes "index_wf x" and "0 \<le> t" and "t < int (length (SI_parent x))"
  shows "visits x (length (SI_parent x)) (SI_parent x ! nat t) =
     {v. 0 \<le> v \<and> (\<exists>k. v = (parent_of x ^^ Suc k) t)}"
proof -
  have "SI_parent x ! nat t \<in> set (SI_parent x)" using assms by (intro nth_mem) auto
  then have p: "SI_parent x ! nat t < int (length (SI_parent x))" using assms by (simp add: index_wf_def)
  have up: "(parent_of x ^^ Suc k) t = (parent_of x ^^ k) (SI_parent x ! nat t)" for k
    using assms(2) by (simp add: funpow_swap1 parent_of_def [of x t])
  show ?thesis
    unfolding visits_def up using ascent_complete [OF assms(1) p] by (auto) metis
qed

lemma CoveredBy_index:
  assumes "index_wf x"
  shows "CoveredBy x t cs \<longleftrightarrow>
     0 \<le> t \<and> t < int (length (SI_parent x)) \<and> admits SC_Exclude (index_covers x t) cs"
proof (cases "0 \<le> t \<and> t < int (length (SI_parent x))")
  case False
  then show ?thesis by (auto simp: CoveredBy_def)
next
  case True
  let ?V = "visits x (length (SI_parent x)) (SI_parent x ! nat t)"
  have cov: "index_covers x t c \<longleftrightarrow> names t c \<or> (\<exists>v\<in>?V. inherits_from v c)" for c
    unfolding index_covers_def using visits_all [OF assms] True by auto
  show ?thesis
  proof (cases "scan_exact t cs False False False")
    case None
    then have "\<exists>c\<in>set cs. names t c \<and> SC_Exclude c" by (simp add: scan_exact_None)
    with None True cov show ?thesis by (auto simp: CoveredBy_def admits_def)
  next
    case (Some r)
    let ?he = "\<exists>c\<in>set cs. SC_Exclude c"
    have ne: "\<not> (\<exists>c\<in>set cs. names t c \<and> SC_Exclude c)"
      using Some scan_exact_None [of t cs False False False] by simp
    have r: "r = (\<exists>c\<in>set cs. names t c, \<exists>c\<in>set cs. SC_Inherit c, ?he)"
      using scan_exact_Some [OF Some] by simp
    have asc: "ascend x cs ?he (length (SI_parent x)) (SI_parent x ! nat t) inc \<longleftrightarrow>
       (inc \<or> (\<exists>v\<in>?V. \<exists>c\<in>set cs. inherits_from v c)) \<and>
       \<not> (\<exists>v\<in>?V. \<exists>c\<in>set cs. inherits_from v c \<and> SC_Exclude c)" for inc
      by (rule ascend_spec) blast
    show ?thesis
      unfolding CoveredBy_def Some r option.case prod.case asc admits_def cov
      using True ne by (simp, blast)
  qed
qed

section \<open>The index refines the rows\<close>

abbreviation node_at :: "ScopeNode list \<Rightarrow> int \<Rightarrow> string \<Rightarrow> bool" where
  "node_at nodes n nid \<equiv> Resolve (NewScopeIndex nodes) nid = Some n"

lemma node_at_known: "rows_wf nodes \<Longrightarrow> node_at nodes n nid \<Longrightarrow> nid \<in> Node_ID ` set nodes"
  by (auto simp: Resolve_iff)

lemma row_parent_index:
  assumes wf: "rows_wf nodes" and a: "node_at nodes n a"
  shows "row_parent nodes a p \<longleftrightarrow>
     (\<exists>m. SI_parent (NewScopeIndex nodes) ! nat n = m \<and> 0 \<le> m \<and> node_at nodes m p)"
proof -
  from a wf have n: "nat n < length nodes" "Node_ID (nodes ! nat n) = a" by (auto simp: Resolve_iff)
  have uniq: "(\<exists>nd\<in>set nodes. Node_ID nd = a \<and> Node_Parent nd = p) \<longleftrightarrow> Node_Parent (nodes ! nat n) = p"
  proof
    assume "\<exists>nd\<in>set nodes. Node_ID nd = a \<and> Node_Parent nd = p"
    then obtain nd where nd: "nd \<in> set nodes" "Node_ID nd = a" "Node_Parent nd = p" by blast
    have "inj_on Node_ID (set nodes)" using wf by (simp add: rows_wf_def distinct_map)
    from inj_onD [OF this _ nd(1) nth_mem [OF n(1)]] nd n(2) have "nd = nodes ! nat n" by simp
    with nd show "Node_Parent (nodes ! nat n) = p" by simp
  next
    assume "Node_Parent (nodes ! nat n) = p"
    with n show "\<exists>nd\<in>set nodes. Node_ID nd = a \<and> Node_Parent nd = p"
      by (intro bexI [of _ "nodes ! nat n"]) simp_all
  qed
  have known: "p \<in> Node_ID ` set nodes \<longleftrightarrow> (\<exists>m. node_at nodes m p)"
    using Resolve_None [OF wf, of p] by auto
  let ?q = "Node_Parent (nodes ! nat n)"
  show ?thesis
  proof (cases "Resolve (NewScopeIndex nodes) ?q")
    case None
    then show ?thesis unfolding row_parent_def uniq known parent_nth [OF n(1)] by auto
  next
    case (Some m)
    then have "0 \<le> m" and inj: "node_at nodes m p \<Longrightarrow> p = ?q" using wf by (auto simp: Resolve_iff)
    with Some show ?thesis
      unfolding row_parent_def uniq known parent_nth [OF n(1)] by auto
  qed
qed

lemma parent_step:
  assumes "rows_wf nodes" and "node_at nodes n a" and "row_parent nodes a p"
  shows "node_at nodes (parent_of (NewScopeIndex nodes) n) p"
  using row_parent_index [OF assms(1,2)] assms by (auto simp: parent_of_def Resolve_iff [OF assms(1)])

lemma parent_step_conv:
  assumes wf: "rows_wf nodes" and y: "node_at nodes n y" and a: "node_at nodes (parent_of (NewScopeIndex nodes) n) a"
  shows "row_parent nodes y a"
proof -
  from y wf have "0 \<le> n" by (simp add: Resolve_iff)
  then have p: "parent_of (NewScopeIndex nodes) n = SI_parent (NewScopeIndex nodes) ! nat n"
    by (simp add: parent_of_def)
  moreover have "0 \<le> parent_of (NewScopeIndex nodes) n" using a wf by (simp add: Resolve_iff)
  ultimately show ?thesis using a unfolding row_parent_index [OF wf y] by auto
qed

lemma ancestor_index:
  assumes wf: "rows_wf nodes" and t: "node_at nodes t b"
  shows "ancestor nodes a b \<longleftrightarrow> (\<exists>k. node_at nodes ((parent_of (NewScopeIndex nodes) ^^ Suc k) t) a)"
proof
  assume "ancestor nodes a b"
  then have "(row_parent nodes)\<^sup>+\<^sup>+ b a" by (simp add: ancestor_def)
  then show "\<exists>k. node_at nodes ((parent_of (NewScopeIndex nodes) ^^ Suc k) t) a"
  proof (induction rule: tranclp_induct)
    case (base y)
    then show ?case using parent_step [OF wf t base] by (intro exI [of _ 0]) simp
  next
    case (step y z)
    then obtain k where "node_at nodes ((parent_of (NewScopeIndex nodes) ^^ Suc k) t) y" by blast
    from parent_step [OF wf this step(2)] show ?case by (intro exI [of _ "Suc k"]) simp
  qed
next
  assume "\<exists>k. node_at nodes ((parent_of (NewScopeIndex nodes) ^^ Suc k) t) a"
  then obtain k where "node_at nodes ((parent_of (NewScopeIndex nodes) ^^ Suc k) t) a" by blast
  then have "(row_parent nodes)\<^sup>+\<^sup>+ b a"
  proof (induction k arbitrary: a)
    case 0
    then have "row_parent nodes b a" using parent_step_conv [OF wf t] by simp
    then show ?case by blast
  next
    case (Suc k)
    let ?n = "(parent_of (NewScopeIndex nodes) ^^ Suc k) t"
    have a: "node_at nodes (parent_of (NewScopeIndex nodes) ?n) a" using Suc.prems by simp
    then have "0 \<le> parent_of (NewScopeIndex nodes) ?n" using wf by (simp add: Resolve_iff)
    then have n0: "0 \<le> ?n" by (rule parent_of_nonneg)
    have "t < int (length (SI_parent (NewScopeIndex nodes)))" using t wf by (auto simp: Resolve_iff)
    then have "?n < int (length nodes)"
      using parent_of_range [OF index_wf_New [OF wf], of t "Suc k"] by simp
    with n0 have y: "node_at nodes ?n (Node_ID (nodes ! nat ?n))" using wf by (auto simp: Resolve_iff)
    from parent_step_conv [OF wf y a] have "row_parent nodes (Node_ID (nodes ! nat ?n)) a" .
    with Suc.IH [OF y] show ?case by simp
  qed
  then show "ancestor nodes a b" by (simp add: ancestor_def)
qed

definition fresh :: "ScopeConstraint list \<Rightarrow> bool" where
  "fresh cs \<longleftrightarrow> (\<forall>c\<in>set cs. SC_node c = 0)"

definition intern1 :: "ScopeIndex \<Rightarrow> ScopeConstraint \<Rightarrow> ScopeConstraint" where
  "intern1 x c = (case Resolve x (SC_NodeID c) of None \<Rightarrow> c | Some n \<Rightarrow> c\<lparr>SC_node := int32 (n + 1)\<rparr>)"

lemma Intern_map: "Intern x cs = map (intern1 x) cs"
  by (simp add: Intern_def intern1_def Resolve_def)

lemma intern1_sel [simp]:
  "SC_NodeID (intern1 x c) = SC_NodeID c" "SC_Inherit (intern1 x c) = SC_Inherit c"
  "SC_Exclude (intern1 x c) = SC_Exclude c"
  by (simp_all add: intern1_def split: option.split)

lemma names_intern1:
  assumes wf: "rows_wf nodes" and "SC_node c = 0" and "0 \<le> n" and "n < int (length nodes)"
  shows "names n (intern1 (NewScopeIndex nodes) c) \<longleftrightarrow> node_at nodes n (SC_NodeID c)"
proof -
  have small: "int32 (m + 1) = m + 1" if "0 \<le> m" "m < int (length nodes)" for m
    using that wf by (intro int32_id) (auto simp: rows_wf_def)
  show ?thesis
  proof (cases "Resolve (NewScopeIndex nodes) (SC_NodeID c)")
    case None
    then show ?thesis using assms small [of n] by (simp add: intern1_def)
  next
    case (Some m)
    then have "0 \<le> m" "m < int (length nodes)" using wf by (auto simp: Resolve_iff)
    with Some show ?thesis using assms small [of n] small [of m] by (simp add: intern1_def)
  qed
qed

lemma index_covers_rows:
  assumes wf: "rows_wf nodes" and c: "SC_node c = 0" and t: "node_at nodes t tgt"
  shows "index_covers (NewScopeIndex nodes) t (intern1 (NewScopeIndex nodes) c) \<longleftrightarrow> covers nodes c tgt"
proof -
  let ?up = "\<lambda>k. (parent_of (NewScopeIndex nodes) ^^ Suc k) t"
  have t0: "0 \<le> t" "t < int (length nodes)" using t wf by (auto simp: Resolve_iff)
  have up: "?up k < int (length nodes)" for k
    using parent_of_range [OF index_wf_New [OF wf], of t "Suc k"] t0 by simp
  have self: "names t (intern1 (NewScopeIndex nodes) c) \<longleftrightarrow> SC_NodeID c = tgt"
    using names_intern1 [of nodes c t, OF wf c t0] t wf by (auto simp: Resolve_iff)
  have above: "0 \<le> ?up k \<and> names (?up k) (intern1 (NewScopeIndex nodes) c) \<longleftrightarrow> node_at nodes (?up k) (SC_NodeID c)"
    for k
    using names_intern1 [of nodes c "?up k", OF wf c _ up] wf by (auto simp: Resolve_iff)
  show ?thesis
    unfolding index_covers_def covers_def ancestor_index [OF wf t] above self
    using node_at_known [OF wf t] by simp
qed

lemma CoveredBy_rows:
  assumes "rows_wf nodes" and "fresh cs" and "node_at nodes t tgt"
  shows "CoveredBy (NewScopeIndex nodes) t (Intern (NewScopeIndex nodes) cs) \<longleftrightarrow>
     admits SC_Exclude (\<lambda>c. covers nodes c tgt) cs"
proof -
  have "0 \<le> t \<and> t < int (length (SI_parent (NewScopeIndex nodes)))"
    using assms by (auto simp: Resolve_iff)
  then show ?thesis
    unfolding CoveredBy_index [OF index_wf_New [OF assms(1)]] Intern_map admits_def
    using assms(2) by (simp add: index_covers_rows [OF assms(1) _ assms(3)] fresh_def)
qed

section \<open>The interface the evaluator relies on\<close>

text \<open>What a hierarchy index promises its clients: a target it does not know resolves to
  nothing, and a target it knows is covered exactly when some include covers it and no
  exclude does. \<open>build\<close> makes the index from the rows, \<open>intern\<close> prepares a constraint list.\<close>

locale scope_hierarchy =
  fixes build :: "'rows \<Rightarrow> 'x"
    and resolve :: "'x \<Rightarrow> string \<Rightarrow> 'n option"
    and intern :: "'x \<Rightarrow> 'c list \<Rightarrow> 'c list"
    and covered :: "'x \<Rightarrow> 'n \<Rightarrow> 'c list \<Rightarrow> bool"
    and good_rows :: "'rows \<Rightarrow> bool"
    and unresolved :: "'c list \<Rightarrow> bool"
    and excl :: "'c \<Rightarrow> bool"
    and cov :: "'rows \<Rightarrow> 'c \<Rightarrow> string \<Rightarrow> bool"
  assumes cov_known: "good_rows r \<Longrightarrow> cov r c t \<Longrightarrow> resolve (build r) t \<noteq> None"
    and covered_iff: "good_rows r \<Longrightarrow> unresolved cs \<Longrightarrow> resolve (build r) t = Some n \<Longrightarrow>
       covered (build r) n (intern (build r) cs) \<longleftrightarrow> admits excl (\<lambda>c. cov r c t) cs"
begin

lemma reached_iff:
  assumes "good_rows r" and "unresolved cs"
  shows "(case resolve (build r) t of
      None \<Rightarrow> False | Some n \<Rightarrow> covered (build r) n (intern (build r) cs))
    \<longleftrightarrow> admits excl (\<lambda>c. cov r c t) cs"
proof (cases "resolve (build r) t")
  case None
  then have "\<not> cov r c t" for c using cov_known [OF assms(1)] by blast
  with None show ?thesis by (simp add: admits_def)
next
  case (Some n)
  with covered_iff [OF assms Some] show ?thesis by simp
qed

text \<open>Adding a carve-out to a grant never opens a place.\<close>

lemma exclude_shrinks:
  assumes "good_rows r" and "unresolved cs" and "unresolved (cs @ [c])" and "excl c"
    and "resolve (build r) t = Some n"
  shows "covered (build r) n (intern (build r) (cs @ [c])) \<longleftrightarrow>
     covered (build r) n (intern (build r) cs) \<and> \<not> cov r c t"
  using covered_iff [OF assms(1,2,5)] covered_iff [OF assms(1,3,5)] assms(4) by (auto simp: admits_def)

end

interpretation index: scope_hierarchy NewScopeIndex Resolve Intern CoveredBy rows_wf fresh SC_Exclude covers
proof
  fix r c t
  assume "rows_wf r" "covers r c t"
  then show "Resolve (NewScopeIndex r) t \<noteq> None"
    by (simp add: Resolve_None covers_def)
qed (rule CoveredBy_rows)

text \<open>C3. The hierarchy index answers the question the rows ask: for every set of rows with
  distinct ids (in any order, with dangling parents or parent cycles), a target is covered by a
  grant's interned constraints exactly when some include constraint names it or inherits to it
  from an ancestor and no exclude constraint does; a target the rows do not hold resolves to
  nothing and is covered by nothing.\<close>

theorem scope_index_refines_rows:
  assumes "rows_wf nodes" and "fresh cs"
  shows "(case Resolve (NewScopeIndex nodes) tgt of
            None \<Rightarrow> False
          | Some n \<Rightarrow> CoveredBy (NewScopeIndex nodes) n (Intern (NewScopeIndex nodes) cs))
     \<longleftrightarrow> admits SC_Exclude (\<lambda>c. covers nodes c tgt) cs"
  by (rule index.reached_iff [OF assms])

definition demo_rows :: "ScopeNode list" where
  "demo_rows = [\<lparr>Node_ID = ''shop'', Node_Parent = ''city''\<rparr>,
                \<lparr>Node_ID = ''city'', Node_Parent = ''org''\<rparr>,
                \<lparr>Node_ID = ''org'', Node_Parent = []\<rparr>]"

definition demo_include :: ScopeConstraint where
  "demo_include = \<lparr>SC_NodeID = ''org'', SC_Inherit = True, SC_Exclude = False, SC_node = 0\<rparr>"

definition demo_exclude :: ScopeConstraint where
  "demo_exclude = \<lparr>SC_NodeID = ''city'', SC_Inherit = True, SC_Exclude = True, SC_node = 0\<rparr>"

theorem scope_index_refines_rows_witness:
  "admits SC_Exclude (\<lambda>c. covers demo_rows c ''shop'') [demo_include] \<and>
   \<not> admits SC_Exclude (\<lambda>c. covers demo_rows c ''shop'') [demo_include, demo_exclude]"
proof -
  have wf: "rows_wf demo_rows" by (simp add: rows_wf_def demo_rows_def)
  have f: "fresh [demo_include]" "fresh [demo_include, demo_exclude]"
    by (simp_all add: fresh_def demo_include_def demo_exclude_def)
  show ?thesis
    unfolding scope_index_refines_rows [OF wf f(1), symmetric] scope_index_refines_rows [OF wf f(2), symmetric]
    by code_simp
qed

lemma uninterned_denies:
  assumes "index_wf x" and "fresh cs"
  shows "\<not> CoveredBy x t cs"
proof -
  have "\<not> index_covers x t c" if c: "c \<in> set cs" and t: "0 \<le> t" "t < int (length (SI_parent x))" for c
  proof -
    have small: "int32 (v + 1) \<noteq> 0" if "0 \<le> v" "v < int (length (SI_parent x))" for v
      using that assms(1) int32_id [of "v + 1"] by (simp add: index_wf_def)
    have "SC_node c = 0" using c assms(2) by (simp add: fresh_def)
    with small [OF t] small [OF _ parent_of_range [OF assms(1) t(2)]] show ?thesis
      unfolding index_covers_def by metis
  qed
  then show ?thesis unfolding CoveredBy_index [OF assms(1)] admits_def by blast
qed

end
