(* ===== verification/Snapshot.thy ===== *)
theory Snapshot
  imports Scope_Index "HOL-Library.List_Lexorder" "HOL-Library.Char_ord"
begin

text \<open>
  \<^verbatim>\<open>internal/gate/snapshot\<close>: one tenant's frozen authorization state (\<^verbatim>\<open>data.go\<close>) and the
  three questions answered from it: may this subject do this here (\<^verbatim>\<open>evaluator.go\<close>,
  \<^verbatim>\<open>share.go\<close>), where may they (\<^verbatim>\<open>granted_nodes.go\<close>), and is their session still good.
\<close>

section \<open>data.go\<close>

record Grant =
  Grant_ID :: string
  Grant_RoleID :: string
  Grant_SelfScoped :: bool
  Grant_ValidFrom :: time
  Grant_ValidUntil :: time
  Grant_Scopes :: "(string, ScopeConstraint list) gomap"

record Share =
  Share_Record :: string
  Share_Permissions :: "(string, bool) gomap"
  Share_ValidUntil :: time

record Permission =
  Perm_Key :: string
  Perm_MinAssurance :: int
  Perm_RequiresAMR :: "string list"
  Perm_MaxAuthAgeSecs :: int
  Perm_Risk :: string

record Identity =
  Ident_TokenEpoch :: int
  Ident_Blocked :: bool
  Ident_AssuranceLevel :: int

record Route =
  Route_AppSlug :: string
  Route_Priority :: int
  Route_Effect :: string
  Route_PathPattern :: string
  Route_HostPattern :: string
  Route_Methods :: "string list"
  Route_PermissionKey :: string
  Route_ScopeBindings :: "(string, string) gomap"

record Data =
  Data_TenantID :: string
  Data_TenantSlug :: string
  Data_Version :: int
  Data_LoadedAt :: time
  Data_BuiltAt :: time
  Data_StrictAxes :: "(string, bool) gomap"
  Data_Scope :: ScopeIndex
  Data_GrantsByIdentity :: "(string, Grant list) gomap"
  Data_SharesByIdentity :: "(string, Share list) gomap"
  Data_RolePermissions :: "(string, (string, bool) gomap) gomap"
  Data_Permissions :: "(string, Permission) gomap"
  Data_Identities :: "(string, Identity) gomap"
  Data_RevokedSessions :: "(string, bool) gomap"
  Data_Routes :: "Route list"

type_synonym targets = "(string, string) gomap"

definition intern_grant :: "ScopeIndex \<Rightarrow> Grant \<Rightarrow> Grant" where
  "intern_grant x g = g\<lparr>Grant_Scopes := map (\<lambda>(axis, cs). (axis, Intern x cs)) (Grant_Scopes g)\<rparr>"

definition InternGrantScopes :: "Data \<Rightarrow> Data" where
  "InternGrantScopes d = d\<lparr>Data_GrantsByIdentity :=
     map (\<lambda>(who, gs). (who, map (intern_grant (Data_Scope d)) gs)) (Data_GrantsByIdentity d)\<rparr>"

section \<open>evaluator.go and share.go\<close>

definition role_has :: "Data \<Rightarrow> string \<Rightarrow> string \<Rightarrow> bool" where
  "role_has d role permission =
     (case map_of (Data_RolePermissions d) role of None \<Rightarrow> False | Some m \<Rightarrow> flag m permission)"

definition sharedRecordAllows :: "Data \<Rightarrow> string \<Rightarrow> string \<Rightarrow> string \<Rightarrow> time \<Rightarrow> bool" where
  "sharedRecordAllows d identityID permission record now =
     list_ex (\<lambda>s. Share_Record s = record \<and> After (Share_ValidUntil s) now \<and>
                  flag (Share_Permissions s) permission)
       (lookup_list (Data_SharesByIdentity d) identityID)"

fun grant_scopes_loop :: "ScopeIndex \<Rightarrow> (string \<times> ScopeConstraint list) list \<Rightarrow> targets \<Rightarrow> bool" where
  "grant_scopes_loop x [] targets = True"
| "grant_scopes_loop x ((axis, constraints) # rest) targets =
     (case map_of targets axis of
        None \<Rightarrow> False
      | Some target \<Rightarrow>
          (case Resolve x target of
             None \<Rightarrow> False
           | Some n \<Rightarrow> if \<not> CoveredBy x n constraints then False else grant_scopes_loop x rest targets))"

definition grantScopesSatisfied :: "Data \<Rightarrow> Grant \<Rightarrow> targets \<Rightarrow> bool" where
  "grantScopesSatisfied d g targets = grant_scopes_loop (Data_Scope d) (Grant_Scopes g) targets"

definition strictAxesAddressed :: "Data \<Rightarrow> Grant \<Rightarrow> bool" where
  "strictAxesAddressed d g =
     list_all (\<lambda>(axis, _). map_of (Grant_Scopes g) axis \<noteq> None) (Data_StrictAxes d)"

fun evaluate_grants :: "Data \<Rightarrow> string \<Rightarrow> string \<Rightarrow> targets \<Rightarrow> time \<Rightarrow> Grant list \<Rightarrow> bool" where
  "evaluate_grants d identityID permission targets now [] = False"
| "evaluate_grants d identityID permission targets now (g # gs) =
     (let continue = evaluate_grants d identityID permission targets now gs;
          owner = map_of targets ''_owner''
      in if After (Grant_ValidFrom g) now then continue
         else if \<not> IsZero (Grant_ValidUntil g) \<and> \<not> After (Grant_ValidUntil g) now then continue
         else if \<not> role_has d (Grant_RoleID g) permission then continue
         else if Grant_SelfScoped g \<and> (owner = None \<or> owner \<noteq> Some identityID) then continue
         else if \<not> grantScopesSatisfied d g targets then continue
         else if \<not> strictAxesAddressed d g then continue
         else True)"

definition Evaluate :: "Data \<Rightarrow> string \<Rightarrow> string \<Rightarrow> targets \<Rightarrow> time \<Rightarrow> bool" where
  "Evaluate d identityID permission targets now =
     (case map_of (Data_Identities d) identityID of
        None \<Rightarrow> False
      | Some ident \<Rightarrow>
          if Ident_Blocked ident then False
          else (case map_of (Data_Permissions d) permission of
             None \<Rightarrow> False
           | Some perm \<Rightarrow>
               if Perm_MinAssurance perm > Ident_AssuranceLevel ident then False
               else if evaluate_grants d identityID permission targets now
                         (lookup_list (Data_GrantsByIdentity d) identityID) then True
               else (case map_of targets ''_record'' of
                  None \<Rightarrow> False
                | Some record \<Rightarrow> sharedRecordAllows d identityID permission record now)))"

definition SessionAlive :: "Data \<Rightarrow> string \<Rightarrow> int \<Rightarrow> string \<Rightarrow> bool" where
  "SessionAlive d sessionID epoch identityID =
     (if flag (Data_RevokedSessions d) sessionID then False
      else (case map_of (Data_Identities d) identityID of
              None \<Rightarrow> False
            | Some ident \<Rightarrow> if Ident_Blocked ident then False else Ident_TokenEpoch ident = epoch))"

section \<open>granted\<close>

text \<open>\<^verbatim>\<open>internal/authz/domain/granted\<close>: the places a list names.\<close>

datatype Node = Node (NodeID: string) (Node_Inherit: bool) (Node_Except: "Node list")

record Nodes =
  Nodes_Everywhere :: bool
  Nodes_OwnRecords :: bool
  Nodes_Nodes :: "Node list"
  Nodes_AsOf :: time

definition nodeKey :: "Node \<Rightarrow> string" where
  "nodeKey n = NodeID n @ (if Node_Inherit n then ''+'' else []) @
     concat (map (\<lambda>e. ''|-'' @ NodeID e @ (if Node_Inherit e then ''+'' else [])) (Node_Except n))"

definition constraintsToNodes :: "ScopeConstraint list \<Rightarrow> Node list" where
  "constraintsToNodes cs =
     (let except = sort_key nodeKey
            (map (\<lambda>c. Node (SC_NodeID c) (SC_Inherit c) []) (filter SC_Exclude cs))
      in map (\<lambda>c. Node (SC_NodeID c) (SC_Inherit c) except) (filter (\<lambda>c. \<not> SC_Exclude c) cs))"

definition live :: "Grant \<Rightarrow> time \<Rightarrow> bool" where
  "live g now =
     (if After (Grant_ValidFrom g) now then False
      else IsZero (Grant_ValidUntil g) \<or> After (Grant_ValidUntil g) now)"

definition grantQualifies :: "Data \<Rightarrow> Grant \<Rightarrow> string \<Rightarrow> time \<Rightarrow> bool" where
  "grantQualifies d g permission now \<longleftrightarrow>
     live g now \<and> role_has d (Grant_RoleID g) permission \<and> strictAxesAddressed d g"

fun other_axes_loop ::
  "ScopeIndex \<Rightarrow> string \<Rightarrow> (string \<times> ScopeConstraint list) list \<Rightarrow> targets \<Rightarrow> bool" where
  "other_axes_loop x open_axis [] fixed = True"
| "other_axes_loop x open_axis ((axis, cs) # rest) fixed =
     (if axis = open_axis then other_axes_loop x open_axis rest fixed
      else (case map_of fixed axis of
         None \<Rightarrow> False
       | Some target \<Rightarrow>
           (case Resolve x target of
              None \<Rightarrow> False
            | Some n \<Rightarrow> if \<not> CoveredBy x n cs then False else other_axes_loop x open_axis rest fixed)))"

definition otherAxesSatisfied :: "Data \<Rightarrow> Grant \<Rightarrow> string \<Rightarrow> targets \<Rightarrow> bool" where
  "otherAxesSatisfied d g open_axis fixed = other_axes_loop (Data_Scope d) open_axis (Grant_Scopes g) fixed"

text \<open>The inner loop: append the nodes whose key has not been seen.\<close>

fun add_nodes :: "Node list \<Rightarrow> string list \<times> Node list \<Rightarrow> string list \<times> Node list" where
  "add_nodes [] (seen, out) = (seen, out)"
| "add_nodes (n # ns) (seen, out) =
     (let k = nodeKey n in
      if k \<in> set seen then add_nodes ns (seen, out) else add_nodes ns (k # seen, out @ [n]))"

fun granted_loop ::
  "Data \<Rightarrow> string \<Rightarrow> string \<Rightarrow> targets \<Rightarrow> time \<Rightarrow> Grant list \<Rightarrow> string list \<times> Nodes \<Rightarrow> Nodes" where
  "granted_loop d permission axis fixed now [] (seen, out) = out"
| "granted_loop d permission axis fixed now (g # gs) (seen, out) =
     (if \<not> grantQualifies d g permission now then
        granted_loop d permission axis fixed now gs (seen, out)
      else if Grant_SelfScoped g then
        granted_loop d permission axis fixed now gs (seen, out\<lparr>Nodes_OwnRecords := True\<rparr>)
      else if \<not> otherAxesSatisfied d g axis fixed then
        granted_loop d permission axis fixed now gs (seen, out)
      else (case map_of (Grant_Scopes g) axis of
              None \<Rightarrow> granted_loop d permission axis fixed now gs (seen, out\<lparr>Nodes_Everywhere := True\<rparr>)
            | Some cs \<Rightarrow>
                (let (seen', nodes') = add_nodes (constraintsToNodes cs) (seen, Nodes_Nodes out) in
                 granted_loop d permission axis fixed now gs (seen', out\<lparr>Nodes_Nodes := nodes'\<rparr>))))"

definition GrantedNodes ::
  "Data \<Rightarrow> string \<Rightarrow> string \<Rightarrow> string \<Rightarrow> targets \<Rightarrow> time \<Rightarrow> Nodes \<times> bool" where
  "GrantedNodes d identityID permission axis fixed now =
     (let out = \<lparr>Nodes_Everywhere = False, Nodes_OwnRecords = False, Nodes_Nodes = [],
                 Nodes_AsOf = Data_LoadedAt d\<rparr>
      in case map_of (Data_Identities d) identityID of
           None \<Rightarrow> (out, False)
         | Some ident \<Rightarrow>
             (case map_of (Data_Permissions d) permission of
                None \<Rightarrow> (out, False)
              | Some perm \<Rightarrow>
                  if Ident_Blocked ident \<or> Perm_MinAssurance perm > Ident_AssuranceLevel ident
                  then (out, True)
                  else
                    let o1 = granted_loop d permission axis fixed now
                               (lookup_list (Data_GrantsByIdentity d) identityID) ([], out);
                        o2 = (if Nodes_Everywhere o1 then o1\<lparr>Nodes_Nodes := []\<rparr> else o1)
                    in (o2\<lparr>Nodes_Nodes := sort_key nodeKey (Nodes_Nodes o2)\<rparr>, True)))"

fun reaches_loop :: "Data \<Rightarrow> string \<Rightarrow> int \<Rightarrow> time \<Rightarrow> Grant list \<Rightarrow> bool" where
  "reaches_loop d axis target now [] = False"
| "reaches_loop d axis target now (g # gs) =
     (if \<not> live g now \<or> Grant_SelfScoped g \<or> \<not> strictAxesAddressed d g
      then reaches_loop d axis target now gs
      else (case map_of (Grant_Scopes g) axis of
              None \<Rightarrow> True
            | Some cs \<Rightarrow> if CoveredBy (Data_Scope d) target cs then True
                         else reaches_loop d axis target now gs))"

definition Reaches :: "Data \<Rightarrow> string \<Rightarrow> string \<Rightarrow> string \<Rightarrow> time \<Rightarrow> bool" where
  "Reaches d identityID axis nodeID now =
     (case map_of (Data_Identities d) identityID of
        None \<Rightarrow> False
      | Some ident \<Rightarrow>
          if Ident_Blocked ident then False
          else (case Resolve (Data_Scope d) nodeID of
             None \<Rightarrow> False
           | Some target \<Rightarrow>
               reaches_loop d axis target now (lookup_list (Data_GrantsByIdentity d) identityID)))"

section \<open>What the state means\<close>

text \<open>The state as the loader assembles it, before constraints are interned: the index is built
  from \<open>rows\<close> and every grant's limits form a map.\<close>

definition grant_wf :: "Grant \<Rightarrow> bool" where
  "grant_wf g \<longleftrightarrow> gomap_wf (Grant_Scopes g) \<and> (\<forall>e\<in>set (Grant_Scopes g). fresh (snd e))"

definition state_wf :: "ScopeNode list \<Rightarrow> Data \<Rightarrow> bool" where
  "state_wf rows d \<longleftrightarrow> rows_wf rows \<and> Data_Scope d = NewScopeIndex rows \<and>
     (\<forall>e\<in>set (Data_GrantsByIdentity d). \<forall>g\<in>set (snd e). grant_wf g)"

text \<open>One grant reaches the targets: it is live, its role confers the permission, a self-scoped
  one is asked about the subject's own record, every axis it limits has a target its
  constraints admit, and it limits every strict axis.\<close>

definition grant_reaches :: "ScopeNode list \<Rightarrow> Data \<Rightarrow> string \<Rightarrow> string \<Rightarrow> targets \<Rightarrow> time \<Rightarrow> Grant \<Rightarrow> bool" where
  "grant_reaches rows d who permission targets now g \<longleftrightarrow>
     (Grant_ValidFrom g \<le> now \<and> (Grant_ValidUntil g = zero_time \<or> now < Grant_ValidUntil g)) \<and>
     role_has d (Grant_RoleID g) permission \<and>
     (Grant_SelfScoped g \<longrightarrow> map_of targets ''_owner'' = Some who) \<and>
     (\<forall>axis cs. map_of (Grant_Scopes g) axis = Some cs \<longrightarrow>
        (\<exists>t. map_of targets axis = Some t \<and> admits SC_Exclude (\<lambda>c. covers rows c t) cs)) \<and>
     fst ` set (Data_StrictAxes d) \<subseteq> dom (map_of (Grant_Scopes g))"

definition share_reaches :: "Data \<Rightarrow> string \<Rightarrow> string \<Rightarrow> targets \<Rightarrow> time \<Rightarrow> bool" where
  "share_reaches d who permission targets now \<longleftrightarrow>
     (\<exists>record s. map_of targets ''_record'' = Some record \<and>
        s \<in> set (lookup_list (Data_SharesByIdentity d) who) \<and>
        Share_Record s = record \<and> now < Share_ValidUntil s \<and> flag (Share_Permissions s) permission)"

definition may_act :: "Data \<Rightarrow> string \<Rightarrow> string \<Rightarrow> bool" where
  "may_act d who permission \<longleftrightarrow>
     (\<exists>ident perm. map_of (Data_Identities d) who = Some ident \<and> \<not> Ident_Blocked ident \<and>
        map_of (Data_Permissions d) permission = Some perm \<and>
        Perm_MinAssurance perm \<le> Ident_AssuranceLevel ident)"

definition authorised :: "ScopeNode list \<Rightarrow> Data \<Rightarrow> string \<Rightarrow> string \<Rightarrow> targets \<Rightarrow> time \<Rightarrow> bool" where
  "authorised rows d who permission targets now \<longleftrightarrow> may_act d who permission \<and>
     ((\<exists>g\<in>set (lookup_list (Data_GrantsByIdentity d) who). grant_reaches rows d who permission targets now g) \<or>
      share_reaches d who permission targets now)"

section \<open>Evaluate decides it\<close>

lemma lookup_mem: "v \<in> set (lookup_list m k) \<Longrightarrow> \<exists>e\<in>set m. v \<in> set (snd e)"
  by (cases "map_of m k") (auto simp: lookup_list_def dest: map_of_SomeD intro: bexI [of _ "(k, _)"])

lemma map_of_map_snd: "map_of (map (\<lambda>(k, v). (k, f v)) m) k = map_option f (map_of m k)"
  by (induction m) auto

lemma intern_simps [simp]:
  "Grant_ID (intern_grant x g) = Grant_ID g" "Grant_RoleID (intern_grant x g) = Grant_RoleID g"
  "Grant_SelfScoped (intern_grant x g) = Grant_SelfScoped g"
  "Grant_ValidFrom (intern_grant x g) = Grant_ValidFrom g"
  "Grant_ValidUntil (intern_grant x g) = Grant_ValidUntil g"
  "map_of (Grant_Scopes (intern_grant x g)) a = map_option (Intern x) (map_of (Grant_Scopes g) a)"
  by (simp_all add: intern_grant_def map_of_map_snd)

lemma dom_intern [simp]: "dom (map_of (Grant_Scopes (intern_grant x g))) = dom (map_of (Grant_Scopes g))"
  by (simp add: dom_def)

lemma InternGrantScopes_simps [simp]:
  "Data_Scope (InternGrantScopes d) = Data_Scope d"
  "Data_StrictAxes (InternGrantScopes d) = Data_StrictAxes d"
  "Data_RolePermissions (InternGrantScopes d) = Data_RolePermissions d"
  "Data_Permissions (InternGrantScopes d) = Data_Permissions d"
  "Data_Identities (InternGrantScopes d) = Data_Identities d"
  "Data_SharesByIdentity (InternGrantScopes d) = Data_SharesByIdentity d"
  "Data_RevokedSessions (InternGrantScopes d) = Data_RevokedSessions d"
  "Data_Routes (InternGrantScopes d) = Data_Routes d"
  "Data_LoadedAt (InternGrantScopes d) = Data_LoadedAt d"
  "lookup_list (Data_GrantsByIdentity (InternGrantScopes d)) who =
     map (intern_grant (Data_Scope d)) (lookup_list (Data_GrantsByIdentity d) who)"
  by (simp_all add: InternGrantScopes_def lookup_list_def map_of_map_snd split: option.split)

lemma role_has_Intern [simp]: "role_has (InternGrantScopes d) = role_has d"
  by (simp add: role_has_def fun_eq_iff)

lemma sharedRecordAllows_Intern [simp]:
  "sharedRecordAllows (InternGrantScopes d) = sharedRecordAllows d"
  by (simp add: sharedRecordAllows_def fun_eq_iff)

lemma state_wf_grant:
  "state_wf rows d \<Longrightarrow> g \<in> set (lookup_list (Data_GrantsByIdentity d) who) \<Longrightarrow> grant_wf g"
  using lookup_mem [of g "Data_GrantsByIdentity d" who] by (auto simp: state_wf_def)

lemma strictAxesAddressed_iff:
  "strictAxesAddressed d g \<longleftrightarrow> fst ` set (Data_StrictAxes d) \<subseteq> dom (map_of (Grant_Scopes g))"
  by (auto simp: strictAxesAddressed_def list_all_iff)

lemma strict_Intern [simp]:
  "strictAxesAddressed (InternGrantScopes d) (intern_grant x g) = strictAxesAddressed d g"
  by (auto simp: strictAxesAddressed_def list_all_iff)

text \<open>Both loops over a grant's axes: every entry passes the axis test.\<close>

definition axis_reached :: "ScopeIndex \<Rightarrow> string option \<Rightarrow> ScopeConstraint list \<Rightarrow> bool" where
  "axis_reached x target cs = (case target of None \<Rightarrow> False | Some t \<Rightarrow>
     (case Resolve x t of None \<Rightarrow> False | Some n \<Rightarrow> CoveredBy x n cs))"

lemma grant_scopes_loop_iff:
  "grant_scopes_loop x m targets \<longleftrightarrow> (\<forall>e\<in>set m. axis_reached x (map_of targets (fst e)) (snd e))"
  by (induction x m targets rule: grant_scopes_loop.induct) (auto simp: axis_reached_def split: option.splits)

lemma other_axes_loop_iff:
  "other_axes_loop x ax m targets \<longleftrightarrow>
     (\<forall>e\<in>set m. fst e = ax \<or> axis_reached x (map_of targets (fst e)) (snd e))"
  by (induction x ax m targets rule: other_axes_loop.induct) (auto simp: axis_reached_def split: option.splits)

lemma axis_reached_rows:
  assumes "rows_wf rows" and "fresh cs"
  shows "axis_reached (NewScopeIndex rows) target (Intern (NewScopeIndex rows) cs) \<longleftrightarrow>
     (\<exists>t. target = Some t \<and> admits SC_Exclude (\<lambda>c. covers rows c t) cs)"
  using index.reached_iff [OF assms] by (cases target) (simp_all add: axis_reached_def)

lemma interned_axes:
  assumes "rows_wf rows" and "grant_wf g"
  shows "(\<forall>e\<in>set (Grant_Scopes (intern_grant (NewScopeIndex rows) g)).
            P (fst e) \<or> axis_reached (NewScopeIndex rows) (map_of targets (fst e)) (snd e)) \<longleftrightarrow>
     (\<forall>axis cs. map_of (Grant_Scopes g) axis = Some cs \<longrightarrow>
        P axis \<or> (\<exists>t. map_of targets axis = Some t \<and> admits SC_Exclude (\<lambda>c. covers rows c t) cs))"
proof -
  have "(\<forall>e\<in>set (Grant_Scopes (intern_grant (NewScopeIndex rows) g)).
            P (fst e) \<or> axis_reached (NewScopeIndex rows) (map_of targets (fst e)) (snd e)) \<longleftrightarrow>
        (\<forall>e\<in>set (Grant_Scopes g). P (fst e) \<or>
           (\<exists>t. map_of targets (fst e) = Some t \<and> admits SC_Exclude (\<lambda>c. covers rows c t) (snd e)))"
    using assms by (simp add: intern_grant_def split_beta grant_wf_def axis_reached_rows)
  also have "\<dots> \<longleftrightarrow> (\<forall>axis cs. map_of (Grant_Scopes g) axis = Some cs \<longrightarrow>
        P axis \<or> (\<exists>t. map_of targets axis = Some t \<and> admits SC_Exclude (\<lambda>c. covers rows c t) cs))"
    using assms(2) by (intro gomap_Ball) (simp add: grant_wf_def)
  finally show ?thesis .
qed

lemma live_iff: "live g now \<longleftrightarrow>
   Grant_ValidFrom g \<le> now \<and> (Grant_ValidUntil g = zero_time \<or> now < Grant_ValidUntil g)"
  by (auto simp: live_def After_def IsZero_def)

lemma live_Intern [simp]: "live (intern_grant x g) now = live g now"
  by (simp add: live_def)

lemma evaluate_grants_iff:
  "evaluate_grants d who permission targets now gs \<longleftrightarrow>
     (\<exists>g\<in>set gs. live g now \<and> role_has d (Grant_RoleID g) permission \<and>
        (Grant_SelfScoped g \<longrightarrow> map_of targets ''_owner'' = Some who) \<and>
        grantScopesSatisfied d g targets \<and> strictAxesAddressed d g)"
proof (induction gs)
  case (Cons g gs)
  show ?case
    unfolding evaluate_grants.simps(2) Let_def Cons.IH
    by (cases "live g now") (auto simp: live_def After_def split: if_splits)
qed simp

lemma grant_reaches_interned:
  assumes "state_wf rows d" and "grant_wf g"
  shows "grant_reaches rows d who permission targets now g \<longleftrightarrow>
     (let g' = intern_grant (Data_Scope d) g; d' = InternGrantScopes d in
      live g' now \<and> role_has d' (Grant_RoleID g') permission \<and>
      (Grant_SelfScoped g' \<longrightarrow> map_of targets ''_owner'' = Some who) \<and>
      grantScopesSatisfied d' g' targets \<and> strictAxesAddressed d' g')"
proof -
  have x: "Data_Scope d = NewScopeIndex rows" and r: "rows_wf rows" using assms(1) by (auto simp: state_wf_def)
  show ?thesis
    unfolding Let_def grantScopesSatisfied_def grant_scopes_loop_iff x
    using interned_axes [OF r assms(2), of "\<lambda>_. False" targets]
    by (simp add: grant_reaches_def live_iff strictAxesAddressed_iff x)
qed

lemma Evaluate_split:
  "Evaluate d who permission targets now \<longleftrightarrow> may_act d who permission \<and>
     (evaluate_grants d who permission targets now (lookup_list (Data_GrantsByIdentity d) who) \<or>
      share_reaches d who permission targets now)"
  by (auto simp: Evaluate_def may_act_def share_reaches_def sharedRecordAllows_def list_ex_iff After_def
      split: option.splits)

lemma may_act_Intern [simp]: "may_act (InternGrantScopes d) = may_act d"
  by (simp add: may_act_def fun_eq_iff)

lemma share_reaches_Intern [simp]: "share_reaches (InternGrantScopes d) = share_reaches d"
  by (simp add: share_reaches_def fun_eq_iff)

lemma Evaluate_authorised:
  assumes "state_wf rows d"
  shows "Evaluate (InternGrantScopes d) who permission targets now \<longleftrightarrow>
     authorised rows d who permission targets now"
proof -
  have "evaluate_grants (InternGrantScopes d) who permission targets now
          (lookup_list (Data_GrantsByIdentity (InternGrantScopes d)) who) \<longleftrightarrow>
        (\<exists>g\<in>set (lookup_list (Data_GrantsByIdentity d) who). grant_reaches rows d who permission targets now g)"
    unfolding evaluate_grants_iff InternGrantScopes_simps
    using grant_reaches_interned [OF assms state_wf_grant [OF assms]] by (auto simp: Let_def)
  then show ?thesis by (simp add: Evaluate_split authorised_def)
qed

section \<open>GrantedNodes lists it\<close>

text \<open>Identifiers are UUIDs: in particular they have none of the bytes \<^verbatim>\<open>nodeKey\<close> adds.\<close>

definition plain_id :: "string \<Rightarrow> bool" where
  "plain_id s \<longleftrightarrow> CHR ''+'' \<notin> set s \<and> CHR ''|'' \<notin> set s"

definition plain_node :: "Node \<Rightarrow> bool" where
  "plain_node n \<longleftrightarrow> plain_id (NodeID n) \<and>
     (\<forall>e\<in>set (Node_Except n). plain_id (NodeID e) \<and> Node_Except e = [])"

definition place_key :: "Node \<Rightarrow> string" where
  "place_key n = NodeID n @ (if Node_Inherit n then ''+'' else [])"

lemma join_concat: "join_with c (x # xs) = x @ concat (map (Cons c) xs)"
  by (induction xs arbitrary: x) (auto simp: join_with_Cons)

lemma nodeKey_join: "nodeKey n = join_with CHR ''|'' (place_key n # map (\<lambda>e. CHR ''-'' # place_key e) (Node_Except n))"
  by (simp add: nodeKey_def place_key_def join_concat comp_def)

lemma place_key_inherit: "plain_id (NodeID n) \<Longrightarrow> Node_Inherit n \<longleftrightarrow> CHR ''+'' \<in> set (place_key n)"
  by (auto simp: place_key_def plain_id_def)

lemma place_key_inj:
  assumes "plain_id (NodeID a)" and "plain_id (NodeID b)" and "place_key a = place_key b"
  shows "NodeID a = NodeID b" and "Node_Inherit a = Node_Inherit b"
proof -
  show "Node_Inherit a = Node_Inherit b"
    using place_key_inherit [OF assms(1)] place_key_inherit [OF assms(2)] assms(3) by simp
  then show "NodeID a = NodeID b" using assms(3) by (auto simp: place_key_def split: if_splits)
qed

lemma place_key_plain: "plain_id (NodeID a) \<Longrightarrow> CHR ''|'' \<notin> set (place_key a)"
  by (auto simp: place_key_def plain_id_def)

lemma Node_eqI:
  "NodeID a = NodeID b \<Longrightarrow> Node_Inherit a = Node_Inherit b \<Longrightarrow> Node_Except a = Node_Except b \<Longrightarrow> a = b"
  by (cases a; cases b) simp

lemma nodeKey_inj:
  assumes "plain_node a" and "plain_node b" and "nodeKey a = nodeKey b"
  shows "a = b"
proof (rule Node_eqI)
  let ?parts = "\<lambda>n. place_key n # map (\<lambda>e. CHR ''-'' # place_key e) (Node_Except n)"
  have "split_on CHR ''|'' (nodeKey n) = ?parts n" if "plain_node n" for n
    unfolding nodeKey_join using that
    by (intro split_on_join) (auto simp: plain_node_def dest: place_key_plain)
  with assms have eq: "?parts a = ?parts b" by metis
  then have "place_key a = place_key b" by simp
  with place_key_inj [of a b] assms show "NodeID a = NodeID b" "Node_Inherit a = Node_Inherit b"
    by (simp_all add: plain_node_def)
  have keys: "map place_key (Node_Except a) = map place_key (Node_Except b)"
    using arg_cong [OF eq, of "\<lambda>l. map tl (tl l)"] by (simp add: comp_def)
  have pl: "plain_id (NodeID e) \<and> Node_Except e = []"
    if "e \<in> set (Node_Except a) \<union> set (Node_Except b)" for e
    using that assms(1,2) unfolding plain_node_def by blast
  have "inj_on place_key (set (Node_Except a) \<union> set (Node_Except b))"
  proof (rule inj_onI, rule Node_eqI)
    fix x y
    assume x: "x \<in> set (Node_Except a) \<union> set (Node_Except b)"
      and y: "y \<in> set (Node_Except a) \<union> set (Node_Except b)" and eq: "place_key x = place_key y"
    have px: "plain_id (NodeID x)" "Node_Except x = []" and py: "plain_id (NodeID y)" "Node_Except y = []"
      using pl [OF x] pl [OF y] by blast+
    show "NodeID x = NodeID y" "Node_Inherit x = Node_Inherit y"
      by (rule place_key_inj [OF px(1) py(1) eq])+
    show "Node_Except x = Node_Except y" using px py by simp
  qed
  from inj_on_map_eq_map [OF this] keys show "Node_Except a = Node_Except b" by simp
qed

text \<open>A listed node reaches a place, minus its exceptions.\<close>

definition place_covers :: "ScopeNode list \<Rightarrow> Node \<Rightarrow> string \<Rightarrow> bool" where
  "place_covers rows n t \<longleftrightarrow> t \<in> Node_ID ` set rows \<and>
     (NodeID n = t \<or> Node_Inherit n \<and> ancestor rows (NodeID n) t)"

definition node_lists :: "ScopeNode list \<Rightarrow> Node \<Rightarrow> string \<Rightarrow> bool" where
  "node_lists rows n t \<longleftrightarrow> place_covers rows n t \<and> \<not> (\<exists>e\<in>set (Node_Except n). place_covers rows e t)"

lemma constraintsToNodes_lists:
  "(\<exists>n\<in>set (constraintsToNodes cs). node_lists rows n t) \<longleftrightarrow> admits SC_Exclude (\<lambda>c. covers rows c t) cs"
  by (auto simp: constraintsToNodes_def Let_def node_lists_def place_covers_def covers_def admits_def)

lemma constraintsToNodes_Intern [simp]: "constraintsToNodes (Intern x cs) = constraintsToNodes cs"
  by (simp add: constraintsToNodes_def Intern_map filter_map comp_def)

lemma constraintsToNodes_plain:
  "\<forall>c\<in>set cs. plain_id (SC_NodeID c) \<Longrightarrow> n \<in> set (constraintsToNodes cs) \<Longrightarrow> plain_node n"
  by (auto simp: constraintsToNodes_def Let_def plain_node_def)

lemma add_nodes_set:
  assumes "set seen = nodeKey ` set out" and "\<forall>n\<in>set out \<union> set ns. plain_node n"
  shows "set (fst (add_nodes ns (seen, out))) = nodeKey ` set (snd (add_nodes ns (seen, out))) \<and>
     set (snd (add_nodes ns (seen, out))) = set out \<union> set ns"
  using assms
proof (induction ns arbitrary: seen out)
  case (Cons n ns)
  show ?case
  proof (cases "nodeKey n \<in> set seen")
    case True
    then obtain m where "m \<in> set out" "nodeKey m = nodeKey n" using Cons.prems by auto
    then have "n \<in> set out" using nodeKey_inj [of m n] Cons.prems by auto
    with True Cons.IH [OF Cons.prems(1)] Cons.prems show ?thesis by (auto simp: Let_def)
  next
    case False
    have "set (nodeKey n # seen) = nodeKey ` set (out @ [n])" using Cons.prems by simp
    with False Cons.IH [OF this] Cons.prems show ?thesis by (auto simp: Let_def)
  qed
qed simp

definition contributes :: "Data \<Rightarrow> string \<Rightarrow> string \<Rightarrow> targets \<Rightarrow> time \<Rightarrow> Grant \<Rightarrow> bool" where
  "contributes d permission axis fixed now g \<longleftrightarrow>
     grantQualifies d g permission now \<and> \<not> Grant_SelfScoped g \<and> otherAxesSatisfied d g axis fixed"

definition grant_nodes :: "string \<Rightarrow> Grant \<Rightarrow> Node set" where
  "grant_nodes axis g = (case map_of (Grant_Scopes g) axis of None \<Rightarrow> {} | Some cs \<Rightarrow> set (constraintsToNodes cs))"

definition plain_grant :: "Grant \<Rightarrow> bool" where
  "plain_grant g \<longleftrightarrow> (\<forall>e\<in>set (Grant_Scopes g). \<forall>c\<in>set (snd e). plain_id (SC_NodeID c))"

lemma grant_nodes_plain: "plain_grant g \<Longrightarrow> n \<in> grant_nodes axis g \<Longrightarrow> plain_node n"
  by (force simp: grant_nodes_def plain_grant_def dest: map_of_SomeD constraintsToNodes_plain split: option.splits)

text \<open>What the loop adds for the grants \<open>gs\<close> to an answer \<open>out\<close> to give \<open>r\<close>.\<close>

definition adds :: "Data \<Rightarrow> string \<Rightarrow> string \<Rightarrow> targets \<Rightarrow> time \<Rightarrow> Grant list \<Rightarrow> Nodes \<Rightarrow> Nodes \<Rightarrow> bool" where
  "adds d permission axis fixed now gs out r \<longleftrightarrow>
     (Nodes_Everywhere r \<longleftrightarrow> Nodes_Everywhere out \<or>
       (\<exists>g\<in>set gs. contributes d permission axis fixed now g \<and> map_of (Grant_Scopes g) axis = None)) \<and>
     (Nodes_OwnRecords r \<longleftrightarrow> Nodes_OwnRecords out \<or>
       (\<exists>g\<in>set gs. grantQualifies d g permission now \<and> Grant_SelfScoped g)) \<and>
     set (Nodes_Nodes r) = set (Nodes_Nodes out) \<union>
       (\<Union>g\<in>{g\<in>set gs. contributes d permission axis fixed now g}. grant_nodes axis g)"

lemma granted_loop_adds:
  assumes "set seen = nodeKey ` set (Nodes_Nodes out)" and "\<forall>n\<in>set (Nodes_Nodes out). plain_node n"
    and "\<forall>g\<in>set gs. plain_grant g"
  shows "adds d permission axis fixed now gs out (granted_loop d permission axis fixed now gs (seen, out))"
  using assms
proof (induction gs arbitrary: seen out)
  case Nil
  then show ?case by (simp add: adds_def)
next
  case (Cons g gs)
  have pg: "plain_grant g" "\<forall>g\<in>set gs. plain_grant g" using Cons.prems by simp_all
  note IH = Cons.IH [OF _ _ pg(2)]
  consider (skip) "\<not> grantQualifies d g permission now"
    | (own) "grantQualifies d g permission now" "Grant_SelfScoped g"
    | (other) "grantQualifies d g permission now" "\<not> Grant_SelfScoped g" "\<not> otherAxesSatisfied d g axis fixed"
    | (every) "contributes d permission axis fixed now g" "map_of (Grant_Scopes g) axis = None"
    | (nodes) cs where "contributes d permission axis fixed now g" "map_of (Grant_Scopes g) axis = Some cs"
    unfolding contributes_def by (cases "map_of (Grant_Scopes g) axis") auto
  then show ?case
  proof cases
    case skip
    then show ?thesis using IH [OF Cons.prems(1,2)] by (auto simp: adds_def contributes_def)
  next
    case own
    then show ?thesis using IH [of seen "out\<lparr>Nodes_OwnRecords := True\<rparr>"] Cons.prems
      by (auto simp: adds_def contributes_def)
  next
    case other
    then show ?thesis using IH [OF Cons.prems(1,2)] by (auto simp: adds_def contributes_def)
  next
    case every
    then show ?thesis using IH [of seen "out\<lparr>Nodes_Everywhere := True\<rparr>"] Cons.prems
      by (auto simp: adds_def contributes_def grant_nodes_def)
  next
    case nodes
    let ?a = "add_nodes (constraintsToNodes cs) (seen, Nodes_Nodes out)"
    have gn: "grant_nodes axis g = set (constraintsToNodes cs)" using nodes(2) by (simp add: grant_nodes_def)
    have pl: "\<forall>n\<in>set (Nodes_Nodes out) \<union> set (constraintsToNodes cs). plain_node n"
      using Cons.prems(2) grant_nodes_plain [OF pg(1), of _ axis] unfolding gn by blast
    note a = add_nodes_set [OF Cons.prems(1) pl]
    have r: "granted_loop d permission axis fixed now (g # gs) (seen, out) =
        granted_loop d permission axis fixed now gs (fst ?a, out\<lparr>Nodes_Nodes := snd ?a\<rparr>)"
      using nodes by (simp add: contributes_def split_beta)
    have "adds d permission axis fixed now gs (out\<lparr>Nodes_Nodes := snd ?a\<rparr>)
        (granted_loop d permission axis fixed now gs (fst ?a, out\<lparr>Nodes_Nodes := snd ?a\<rparr>))"
      using a pl by (intro IH) simp_all
    then show ?thesis
      unfolding r adds_def using nodes a gn by (auto simp: contributes_def)
  qed
qed

lemma grant_nodes_intern [simp]: "grant_nodes axis (intern_grant x g) = grant_nodes axis g"
  by (simp add: grant_nodes_def split: option.split)

lemma plain_grant_intern [simp]: "plain_grant (intern_grant x g) = plain_grant g"
  by (simp add: plain_grant_def intern_grant_def split_beta Intern_map)

text \<open>A grant contributes to the list exactly when, with the open axis ignored, it would pass.\<close>

lemma contributes_reaches:
  assumes "state_wf rows d" and "grant_wf g" and "axis \<noteq> ''_owner''" and "\<not> Grant_SelfScoped g"
  shows "grant_reaches rows d who permission (map_put axis t fixed) now g \<longleftrightarrow>
     contributes (InternGrantScopes d) permission axis fixed now (intern_grant (Data_Scope d) g) \<and>
     (map_of (Grant_Scopes g) axis = None \<or> (\<exists>n\<in>grant_nodes axis g. node_lists rows n t))"
proof -
  have x: "Data_Scope d = NewScopeIndex rows" and r: "rows_wf rows" using assms(1) by (auto simp: state_wf_def)
  have split: "(\<forall>a cs. map_of (Grant_Scopes g) a = Some cs \<longrightarrow>
        (\<exists>u. map_of (map_put axis t fixed) a = Some u \<and> admits SC_Exclude (\<lambda>c. covers rows c u) cs)) \<longleftrightarrow>
      (\<forall>a cs. map_of (Grant_Scopes g) a = Some cs \<longrightarrow>
        a = axis \<or> (\<exists>u. map_of fixed a = Some u \<and> admits SC_Exclude (\<lambda>c. covers rows c u) cs)) \<and>
      (map_of (Grant_Scopes g) axis = None \<or> (\<exists>n\<in>grant_nodes axis g. node_lists rows n t))"
    by (cases "map_of (Grant_Scopes g) axis")
       (auto simp: go_simps grant_nodes_def constraintsToNodes_lists)
  show ?thesis
    unfolding grant_reaches_def split contributes_def grantQualifies_def otherAxesSatisfied_def
      other_axes_loop_iff InternGrantScopes_simps x
    using interned_axes [OF r assms(2), of "\<lambda>a. a = axis" fixed] assms(4)
    by (simp add: live_iff strictAxesAddressed_iff x) blast
qed

text \<open>What the database keeps true of the grants: identifiers are UUIDs, and a self-scoped grant
  has no place (a trigger of migration 0010 refuses one).\<close>

definition plain_state :: "Data \<Rightarrow> bool" where
  "plain_state d \<longleftrightarrow> (\<forall>e\<in>set (Data_GrantsByIdentity d). \<forall>g\<in>set (snd e).
     plain_grant g \<and> (Grant_SelfScoped g \<longrightarrow> Grant_Scopes g = []))"

lemma plain_state_grant:
  "plain_state d \<Longrightarrow> g \<in> set (lookup_list (Data_GrantsByIdentity d) who) \<Longrightarrow>
     plain_grant g \<and> (Grant_SelfScoped g \<longrightarrow> Grant_Scopes g = [])"
  using lookup_mem [of g "Data_GrantsByIdentity d" who] by (auto simp: plain_state_def)

lemma grant_reaches_self:
  assumes "Grant_SelfScoped g" and "Grant_Scopes g = []" and "axis \<noteq> ''_owner''"
  shows "grant_reaches rows d who permission (map_put axis t fixed) now g \<longleftrightarrow>
     grantQualifies (InternGrantScopes d) (intern_grant x g) permission now \<and> map_of fixed ''_owner'' = Some who"
  using assms by (auto simp: grant_reaches_def grantQualifies_def live_iff strictAxesAddressed_iff go_simps)

definition nowhere :: "time \<Rightarrow> Nodes" where
  "nowhere asof = \<lparr>Nodes_Everywhere = False, Nodes_OwnRecords = False, Nodes_Nodes = [], Nodes_AsOf = asof\<rparr>"

lemma GrantedNodes_denied:
  "\<not> may_act d who permission \<Longrightarrow>
     fst (GrantedNodes d who permission axis fixed now) = nowhere (Data_LoadedAt d)"
  by (auto simp: GrantedNodes_def may_act_def nowhere_def Let_def split: option.splits)

lemma GrantedNodes_adds:
  assumes "may_act d who permission" and "\<forall>g\<in>set (lookup_list (Data_GrantsByIdentity d) who). plain_grant g"
    and out_def: "out = fst (GrantedNodes d who permission axis fixed now)"
  shows "\<exists>r. adds d permission axis fixed now (lookup_list (Data_GrantsByIdentity d) who) (nowhere (Data_LoadedAt d)) r \<and>
     Nodes_Everywhere out = Nodes_Everywhere r \<and> Nodes_OwnRecords out = Nodes_OwnRecords r \<and>
     (Nodes_Everywhere r \<or> set (Nodes_Nodes out) = set (Nodes_Nodes r)) \<and>
     (Nodes_Everywhere r \<longrightarrow> Nodes_Nodes out = [])"
proof -
  let ?r = "granted_loop d permission axis fixed now (lookup_list (Data_GrantsByIdentity d) who) ([], nowhere (Data_LoadedAt d))"
  have "adds d permission axis fixed now (lookup_list (Data_GrantsByIdentity d) who) (nowhere (Data_LoadedAt d)) ?r"
    using assms(2) by (intro granted_loop_adds) (simp_all add: nowhere_def)
  moreover have "out = (let o2 = (if Nodes_Everywhere ?r then ?r\<lparr>Nodes_Nodes := []\<rparr> else ?r)
      in o2\<lparr>Nodes_Nodes := sort_key nodeKey (Nodes_Nodes o2)\<rparr>)"
    using assms(1) by (auto simp: out_def GrantedNodes_def may_act_def nowhere_def Let_def)
  ultimately show ?thesis by (intro exI [of _ ?r]) (simp add: Let_def)
qed

lemma GrantedNodes_exact:
  assumes wf: "state_wf rows d" and pl: "plain_state d"
    and ax: "axis \<noteq> ''_owner''" "axis \<noteq> ''_record''"
    and out_def: "out = fst (GrantedNodes (InternGrantScopes d) who permission axis fixed now)"
  shows "Evaluate (InternGrantScopes d) who permission (map_put axis t fixed) now \<longleftrightarrow>
     Nodes_Everywhere out \<or> (Nodes_OwnRecords out \<and> map_of fixed ''_owner'' = Some who) \<or>
     (\<exists>n\<in>set (Nodes_Nodes out). node_lists rows n t) \<or> may_act d who permission \<and> share_reaches d who permission fixed now"
proof (cases "may_act d who permission")
  case False
  then show ?thesis
    using GrantedNodes_denied [of "InternGrantScopes d" who permission]
    by (simp add: Evaluate_split out_def nowhere_def)
next
  case True
  let ?gs = "lookup_list (Data_GrantsByIdentity d) who"
  let ?d = "InternGrantScopes d" and ?i = "intern_grant (Data_Scope d)"
  obtain r where r: "adds ?d permission axis fixed now (map ?i ?gs) (nowhere (Data_LoadedAt d)) r"
    and out: "Nodes_Everywhere out = Nodes_Everywhere r" "Nodes_OwnRecords out = Nodes_OwnRecords r"
      "Nodes_Everywhere r \<or> set (Nodes_Nodes out) = set (Nodes_Nodes r)"
    using GrantedNodes_adds [OF _ _ out_def] True plain_state_grant [OF pl] by auto
  have self: "(\<exists>g\<in>set ?gs. Grant_SelfScoped g \<and> grant_reaches rows d who permission (map_put axis t fixed) now g) \<longleftrightarrow>
      Nodes_OwnRecords r \<and> map_of fixed ''_owner'' = Some who"
  proof -
    have "grant_reaches rows d who permission (map_put axis t fixed) now g \<longleftrightarrow>
        grantQualifies ?d (?i g) permission now \<and> map_of fixed ''_owner'' = Some who"
      if "g \<in> set ?gs" "Grant_SelfScoped g" for g
      using that plain_state_grant [OF pl that(1)] ax(1) by (intro grant_reaches_self) simp_all
    then show ?thesis using r by (auto simp: adds_def nowhere_def)
  qed
  have nonself: "(\<exists>g\<in>set ?gs. \<not> Grant_SelfScoped g \<and> grant_reaches rows d who permission (map_put axis t fixed) now g) \<longleftrightarrow>
      Nodes_Everywhere r \<or> (\<exists>n\<in>set (Nodes_Nodes r). node_lists rows n t)"
  proof -
    let ?c = "\<lambda>g. contributes ?d permission axis fixed now (?i g)"
    have every: "Nodes_Everywhere r \<longleftrightarrow> (\<exists>g\<in>set ?gs. ?c g \<and> map_of (Grant_Scopes g) axis = None)"
      and nodes: "set (Nodes_Nodes r) = (\<Union>g\<in>{g\<in>set ?gs. ?c g}. grant_nodes axis g)"
      using r by (auto simp: adds_def nowhere_def)
    have c: "\<not> Grant_SelfScoped g \<and> grant_reaches rows d who permission (map_put axis t fixed) now g \<longleftrightarrow>
        ?c g \<and> (map_of (Grant_Scopes g) axis = None \<or> (\<exists>n\<in>grant_nodes axis g. node_lists rows n t))"
      if "g \<in> set ?gs" for g
      using contributes_reaches [OF wf state_wf_grant [OF wf that] ax(1)]
      by (cases "Grant_SelfScoped g") (auto simp: contributes_def)
    show ?thesis unfolding every nodes using c by blast
  qed
  have "share_reaches d who permission (map_put axis t fixed) now = share_reaches d who permission fixed now"
    using ax(2) by (simp add: share_reaches_def go_simps)
  then have "Evaluate ?d who permission (map_put axis t fixed) now \<longleftrightarrow>
      (\<exists>g\<in>set ?gs. grant_reaches rows d who permission (map_put axis t fixed) now g) \<or> share_reaches d who permission fixed now"
    by (simp add: Evaluate_authorised [OF wf] authorised_def True)
  then show ?thesis using self nonself out True by auto
qed

lemma reaches_loop_iff:
  "reaches_loop d axis target now gs \<longleftrightarrow>
     (\<exists>g\<in>set gs. live g now \<and> \<not> Grant_SelfScoped g \<and> strictAxesAddressed d g \<and>
        (case map_of (Grant_Scopes g) axis of None \<Rightarrow> True | Some cs \<Rightarrow> CoveredBy (Data_Scope d) target cs))"
  by (induction gs) (auto split: option.splits)

end
