(* ===== verification/Route_Match.thy ===== *)
theory Route_Match
  imports Route_Path Snapshot
begin

text \<open>
  \<^verbatim>\<open>internal/gate/routepath/matcher.go\<close>: the first route, in the order the snapshot lists them,
  whose host, method and path pattern accept the request. \<open>equal_fold\<close> stands for
  \<^verbatim>\<open>strings.EqualFold\<close> (Unicode case folding); nothing proved here depends on what it equates.
\<close>

section \<open>matcher.go\<close>

definition splitSegs :: "string \<Rightarrow> string list" where
  "splitSegs p = (let p' = trim_char CHR ''/'' p in if p' = [] then [] else split_on CHR ''/'' p')"

definition is_capture :: "string \<Rightarrow> bool" where
  "is_capture seg \<longleftrightarrow> length seg > 1 \<and> hd seg = CHR ''{'' \<and> last seg = CHR ''}''"

definition capture_name :: "string \<Rightarrow> string" where
  "capture_name seg = butlast (tl seg)"

text \<open>The loop over the pattern's segments, on what is left of the pattern and of the path.\<close>

fun path_loop :: "string list \<Rightarrow> string list \<Rightarrow> (string, string) gomap \<Rightarrow> (string, string) gomap \<times> bool" where
  "path_loop [] xs params = (params, xs = [])"
| "path_loop (seg # ps) xs params =
     (if seg = ''**'' then (params, ps = [] \<and> xs \<noteq> [])
      else (case xs of
              [] \<Rightarrow> ([], False)
            | x # xs' \<Rightarrow>
                if seg = ''*'' then path_loop ps xs' params
                else if is_capture seg then path_loop ps xs' (map_put (capture_name seg) x params)
                else if seg \<noteq> x then ([], False)
                else path_loop ps xs' params))"

definition pathMatch :: "string \<Rightarrow> string \<Rightarrow> (string, string) gomap \<times> bool" where
  "pathMatch pattern path = path_loop (splitSegs pattern) (splitSegs path) []"

definition hostMatch :: "(string \<Rightarrow> string \<Rightarrow> bool) \<Rightarrow> string \<Rightarrow> string \<Rightarrow> bool" where
  "hostMatch equal_fold pattern host =
     equal_fold pattern (case cut_at CHR '':'' host of None \<Rightarrow> host | Some (h, _) \<Rightarrow> h)"

definition methodMatch :: "(string \<Rightarrow> string \<Rightarrow> bool) \<Rightarrow> string list \<Rightarrow> string \<Rightarrow> bool" where
  "methodMatch equal_fold methods m \<longleftrightarrow>
     list_ex (\<lambda>allow. allow = ''*'' \<or> equal_fold allow m) methods \<or> methods = []"

fun Match ::
  "(string \<Rightarrow> string \<Rightarrow> bool) \<Rightarrow> Route list \<Rightarrow> string \<Rightarrow> string \<Rightarrow> string \<Rightarrow> (Route \<times> (string, string) gomap) option" where
  "Match equal_fold [] host method normPath = None"
| "Match equal_fold (r # routes) host method normPath =
     (if Route_HostPattern r \<noteq> [] \<and> \<not> hostMatch equal_fold (Route_HostPattern r) host then
        Match equal_fold routes host method normPath
      else if \<not> methodMatch equal_fold (Route_Methods r) method then
        Match equal_fold routes host method normPath
      else (case pathMatch (Route_PathPattern r) normPath of
              (params, ok) \<Rightarrow> if ok then Some (r, params) else Match equal_fold routes host method normPath))"

section \<open>What a pattern accepts\<close>

definition seg_ok :: "string \<Rightarrow> string \<Rightarrow> bool" where
  "seg_ok seg x \<longleftrightarrow> seg = ''*'' \<or> is_capture seg \<or> seg = x"

text \<open>Segment by segment; a final \<^verbatim>\<open>**\<close> stands for one or more further segments, and a \<^verbatim>\<open>**\<close>
  anywhere else accepts nothing.\<close>

definition pattern_accepts :: "string list \<Rightarrow> string list \<Rightarrow> bool" where
  "pattern_accepts ps xs \<longleftrightarrow>
     (if ''**'' \<notin> set ps then list_all2 seg_ok ps xs
      else last ps = ''**'' \<and> ''**'' \<notin> set (butlast ps) \<and> length ps \<le> length xs \<and>
           list_all2 seg_ok (butlast ps) (take (length ps - 1) xs))"

lemma pattern_accepts_Nil: "pattern_accepts [] xs \<longleftrightarrow> xs = []"
  by (simp add: pattern_accepts_def)

lemma pattern_accepts_star2: "pattern_accepts (''**'' # ps) xs \<longleftrightarrow> ps = [] \<and> xs \<noteq> []"
  by (cases ps; cases xs) (auto simp: pattern_accepts_def)

lemma pattern_accepts_Cons:
  assumes "seg \<noteq> ''**''"
  shows "pattern_accepts (seg # ps) xs \<longleftrightarrow> (\<exists>x xs'. xs = x # xs' \<and> seg_ok seg x \<and> pattern_accepts ps xs')"
proof (cases xs)
  case Nil
  then show ?thesis by (simp add: pattern_accepts_def)
next
  case (Cons x xs')
  show ?thesis
  proof (cases "''**'' \<in> set ps")
    case True
    then obtain p ps' where ps: "ps = p # ps'" by (cases ps) auto
    with True Cons assms show ?thesis by (auto simp: pattern_accepts_def)
  next
    case False
    with Cons assms show ?thesis by (auto simp: pattern_accepts_def)
  qed
qed

lemma path_loop_accepts: "snd (path_loop ps xs params) \<longleftrightarrow> pattern_accepts ps xs"
proof (induction ps arbitrary: xs params)
  case Nil
  then show ?case by (simp add: pattern_accepts_Nil)
next
  case (Cons seg ps)
  show ?case
  proof (cases "seg = ''**''")
    case True
    then show ?thesis by (simp add: pattern_accepts_star2)
  next
    case False
    with Cons.IH show ?thesis
      by (cases xs) (auto simp: pattern_accepts_Cons seg_ok_def)
  qed
qed

text \<open>A captured name is bound to the segment at its last position in the pattern.\<close>

definition binds :: "string list \<Rightarrow> string list \<Rightarrow> string \<Rightarrow> string \<Rightarrow> bool" where
  "binds ps xs name v \<longleftrightarrow> (\<exists>i<length ps. i < length xs \<and> is_capture (ps ! i) \<and> capture_name (ps ! i) = name \<and>
     v = xs ! i \<and> (\<forall>j<length ps. i < j \<longrightarrow> \<not> (is_capture (ps ! j) \<and> capture_name (ps ! j) = name)))"

lemma not_capture_stars [simp]: "\<not> is_capture ''**''" "\<not> is_capture ''*''"
  by (simp_all add: is_capture_def)

lemma binds_Cons:
  "binds (seg # ps) (x # xs) name v \<longleftrightarrow> binds ps xs name v \<or>
     (is_capture seg \<and> capture_name seg = name \<and> v = x \<and>
      \<not> (\<exists>j<length ps. is_capture (ps ! j) \<and> capture_name (ps ! j) = name))"
  unfolding binds_def length_Cons Ex_less_Suc2 All_less_Suc2 by auto

definition captures :: "string list \<Rightarrow> string \<Rightarrow> bool" where
  "captures ps name \<longleftrightarrow> (\<exists>j<length ps. is_capture (ps ! j) \<and> capture_name (ps ! j) = name)"

lemma captures_Cons: "captures (seg # ps) name \<longleftrightarrow> is_capture seg \<and> capture_name seg = name \<or> captures ps name"
  unfolding captures_def length_Cons Ex_less_Suc2 by simp

lemma binds_captures: "binds ps xs name v \<Longrightarrow> captures ps name"
  by (auto simp: binds_def captures_def)

lemma path_loop_binds:
  assumes "pattern_accepts ps xs"
  shows "map_of (fst (path_loop ps xs params)) name = Some v \<longleftrightarrow>
     binds ps xs name v \<or> (\<not> captures ps name \<and> map_of params name = Some v)"
  using assms
proof (induction ps arbitrary: xs params)
  case Nil
  then show ?case by (simp add: binds_def captures_def)
next
  case (Cons seg ps)
  show ?case
  proof (cases "seg = ''**''")
    case True
    with Cons.prems show ?thesis by (simp add: pattern_accepts_star2 binds_def captures_def)
  next
    case False
    with Cons.prems obtain x xs' where xs: "xs = x # xs'" "seg_ok seg x" "pattern_accepts ps xs'"
      by (auto simp: pattern_accepts_Cons)
    have IH: "map_of (fst (path_loop ps xs' params')) name = Some v \<longleftrightarrow>
       binds ps xs' name v \<or> (\<not> captures ps name \<and> map_of params' name = Some v)" for params'
      by (rule Cons.IH [OF xs(3)])
    show ?thesis
    proof (cases "is_capture seg")
      case True
      then have "path_loop (seg # ps) xs params = path_loop ps xs' (map_put (capture_name seg) x params)"
        using False xs(1) by auto
      then show ?thesis
        using True IH xs(1) binds_captures [of ps xs' name v]
        by (auto simp: binds_Cons captures_Cons go_simps captures_def [symmetric])
    next
      case nc: False
      then have "path_loop (seg # ps) xs params = path_loop ps xs' params"
        using False xs(1,2) by (auto simp: seg_ok_def)
      then show ?thesis using nc IH xs(1) by (simp add: binds_Cons captures_Cons)
    qed
  qed
qed

section \<open>Canonical paths\<close>

lemma dropWhile_hd: "s \<noteq> [] \<Longrightarrow> hd s \<noteq> c \<Longrightarrow> dropWhile ((=) c) s = s"
  by (cases s) auto

lemma trim_char_inner:
  assumes "m \<noteq> []" and "hd m \<noteq> c" and "last m \<noteq> c"
  shows "trim_char c (c # m @ replicate k c) = m"
proof -
  have d: "dropWhile ((=) c) (c # m @ replicate k c) = m @ replicate k c"
    using assms by (cases m) auto
  have "dropWhile ((=) c) (replicate k c @ rev m) = rev m"
    using assms by (induction k) (auto simp: dropWhile_hd hd_rev)
  then show ?thesis unfolding trim_char_def d by simp
qed

lemma hd_join:
  assumes "segs \<noteq> []" and "\<forall>s\<in>set segs. s \<noteq> []"
  shows "hd (join_with c segs) = hd (hd segs)"
  using assms by (cases segs rule: remdups_adj.cases) auto

lemma splitSegs_render:
  assumes pl: "\<forall>s\<in>set segs. plain_seg s"
  shows "splitSegs (render_path segs t) = segs"
proof (cases "segs = []")
  case True
  then show ?thesis by (simp add: splitSegs_def trim_char_def)
next
  case False
  have ne: "\<forall>s\<in>set segs. s \<noteq> []" and ns: "\<forall>s\<in>set segs. CHR ''/'' \<notin> set s"
    using pl by (auto simp: plain_seg_def)
  let ?m = "join_with CHR ''/'' segs"
  have "hd ?m = hd (hd segs)" "last ?m = last (last segs)" using hd_join last_join False ne by auto
  moreover have "hd (hd segs) \<in> set (hd segs)" "last (last segs) \<in> set (last segs)"
    using False ne by (simp_all add: list.set_sel)
  ultimately have "hd ?m \<noteq> CHR ''/''" "last ?m \<noteq> CHR ''/''"
    using False ns hd_in_set [OF False] last_in_set [OF False] by metis+
  then have "trim_char CHR ''/'' (render_path segs t) = ?m"
    using trim_char_inner [OF join_not_Nil [OF False ne], of "CHR ''/''" "CHR ''/''" "if t then 1 else 0"]
    by (auto simp: render_path_nonempty [OF False pl])
  then show ?thesis
    using join_not_Nil [OF False ne] split_on_join [OF False ns] by (simp add: splitSegs_def)
qed

section \<open>The first route that accepts\<close>

definition route_accepts :: "(string \<Rightarrow> string \<Rightarrow> bool) \<Rightarrow> Route \<Rightarrow> string \<Rightarrow> string \<Rightarrow> string \<Rightarrow> bool" where
  "route_accepts equal_fold r host method path \<longleftrightarrow>
     (Route_HostPattern r = [] \<or> hostMatch equal_fold (Route_HostPattern r) host) \<and>
     (Route_Methods r = [] \<or> (\<exists>m\<in>set (Route_Methods r). m = ''*'' \<or> equal_fold m method)) \<and>
     pattern_accepts (splitSegs (Route_PathPattern r)) (splitSegs path)"

lemma Match_find:
  "Match equal_fold routes host method path =
     map_option (\<lambda>r. (r, fst (pathMatch (Route_PathPattern r) path)))
       (find (\<lambda>r. route_accepts equal_fold r host method path) routes)"
proof (induction routes)
  case (Cons r routes)
  have "snd (pathMatch (Route_PathPattern r) path) \<longleftrightarrow>
      pattern_accepts (splitSegs (Route_PathPattern r)) (splitSegs path)"
    by (simp add: pathMatch_def path_loop_accepts)
  with Cons show ?case
    by (auto simp: route_accepts_def methodMatch_def list_ex_iff split_beta)
qed simp

lemma find_Some_first:
  "find P xs = Some x \<longleftrightarrow> (\<exists>i<length xs. xs ! i = x \<and> P x \<and> (\<forall>j<i. \<not> P (xs ! j)))"
  by (auto simp: find_Some_iff)

text \<open>Routes are tried in order: \<^verbatim>\<open>Match\<close> returns a route exactly when it is the first of the
  list whose host pattern, method list and path pattern accept the request, and returns nothing
  exactly when none does.\<close>

theorem match_first_route:
  "(\<exists>params. Match equal_fold routes host method path = Some (r, params)) \<longleftrightarrow>
     (\<exists>i<length routes. routes ! i = r \<and> route_accepts equal_fold r host method path \<and>
        (\<forall>j<i. \<not> route_accepts equal_fold (routes ! j) host method path))"
  unfolding Match_find by (auto simp: find_Some_first)

text \<open>What a matched route captures: when a normalised request path matches a route, the path's
  segments (whatever its trailing slash) are accepted by the pattern one by one, and a captured
  name is bound to exactly the path segment at its last occurrence in the pattern, a plain
  segment free of slashes and dot segments.\<close>

theorem match_captures:
  assumes "NormalizePath raw = Inr path" and "Match equal_fold routes host method path = Some (r, params)"
  shows "pattern_accepts (splitSegs (Route_PathPattern r)) (splitSegs path) \<and>
     (\<forall>s\<in>set (splitSegs path). plain_seg s) \<and>
     (\<forall>name v. map_of params name = Some v \<longleftrightarrow> binds (splitSegs (Route_PathPattern r)) (splitSegs path) name v)"
proof -
  from normalize_shape [OF assms(1)] obtain segs t where segs: "\<forall>s\<in>set segs. plain_seg s" "path = render_path segs t"
    by blast
  from assms(2) have acc: "pattern_accepts (splitSegs (Route_PathPattern r)) (splitSegs path)"
    and params: "params = fst (pathMatch (Route_PathPattern r) path)"
    unfolding Match_find by (auto simp: find_Some_first route_accepts_def)
  have "map_of params name = Some v \<longleftrightarrow> binds (splitSegs (Route_PathPattern r)) (splitSegs path) name v" for name v
    unfolding params pathMatch_def path_loop_binds [OF acc] by simp
  with acc segs splitSegs_render [OF segs(1)] show ?thesis by simp
qed

definition demo_route :: Route where
  "demo_route = \<lparr>Route_AppSlug = ''app'', Route_Priority = 1, Route_Effect = ''require_permission'',
     Route_PathPattern = ''/shops/{id}/**'', Route_HostPattern = [], Route_Methods = [''GET''],
     Route_PermissionKey = ''sale'', Route_ScopeBindings = [(''place'', ''path.id'')]\<rparr>"

theorem match_captures_witness:
  "binds (splitSegs ''/shops/{id}/**'') (splitSegs ''/shops/7/sales/'') ''id'' ''7''"
proof -
  have n: "NormalizePath ''/shops//7/./sales/'' = Inr ''/shops/7/sales/''" by code_simp
  have m: "Match (=) [demo_route] ''h'' ''GET'' ''/shops/7/sales/'' = Some (demo_route, [(''id'', ''7'')])"
    by code_simp
  show ?thesis
    using match_captures [OF n m, THEN conjunct2, THEN conjunct2, rule_format, of "''id''" "''7''"]
    by (simp add: demo_route_def)
qed


theorem match_first_route_witness:
  "\<exists>i<2. [demo_route\<lparr>Route_Methods := [''POST'']\<rparr>, demo_route] ! i = demo_route \<and>
     route_accepts (=) demo_route ''h'' ''GET'' ''/shops/7/sales/'' \<and>
     (\<forall>j<i. \<not> route_accepts (=) ([demo_route\<lparr>Route_Methods := [''POST'']\<rparr>, demo_route] ! j)
        ''h'' ''GET'' ''/shops/7/sales/'')"
proof -
  have "Match (=) [demo_route\<lparr>Route_Methods := [''POST'']\<rparr>, demo_route] ''h'' ''GET'' ''/shops/7/sales/'' =
      Some (demo_route, [(''id'', ''7'')])"
    by code_simp
  then have "\<exists>ps. Match (=) [demo_route\<lparr>Route_Methods := [''POST'']\<rparr>, demo_route] ''h'' ''GET''
      ''/shops/7/sales/'' = Some (demo_route, ps)"
    by blast
  from this [unfolded match_first_route] show ?thesis
    by (simp only: list.size numeral_2_eq_2 add_0_right add_Suc_right)
qed

end
