(* ===== verification/Revocation_Broker.thy ===== *)
theory Revocation_Broker
  imports Snapshot
begin

text \<open>
  \<^verbatim>\<open>internal/platform/revocation\<close> and \<^verbatim>\<open>internal/gate/app/revocations.go\<close>: what stopped being
  valid is fanned out per tenant, without ever blocking the publisher. A channel is shared by
  the broker's map and its reader, so channels live in a store keyed by the subscription id; the
  maps hold the id.
\<close>

section \<open>revocation.go\<close>

record Event =
  Ev_Kind :: string
  Ev_TenantSlug :: string
  Ev_SessionID :: string
  Ev_IdentityID :: string
  Ev_Epoch :: int
  Ev_ObservedAt :: time

definition KindSession :: string where "KindSession = ''session''"
definition KindEpoch :: string where "KindEpoch = ''epoch''"

definition subBuffer :: nat where "subBuffer = 64"

text \<open>\<open>Chan_tenant\<close> is the tenant the subscription's cancel function captured.\<close>

record Chan =
  Chan_tenant :: string
  Chan_buf :: "Event list"
  Chan_closed :: bool

record Broker =
  Br_subs :: "(string, int list) gomap"
  Br_chans :: "(int, Chan) gomap"
  Br_next :: int
  Br_dropped :: int

definition NewBroker :: Broker where
  "NewBroker = \<lparr>Br_subs = [], Br_chans = [], Br_next = 0, Br_dropped = 0\<rparr>"

definition Subscribe :: "Broker \<Rightarrow> string \<Rightarrow> Broker \<times> int" where
  "Subscribe b tenantSlug =
     (let nid = Br_next b + 1 in
      (b\<lparr>Br_next := nid,
         Br_subs := append_at tenantSlug nid (Br_subs b),
         Br_chans := map_put nid \<lparr>Chan_tenant = tenantSlug, Chan_buf = [], Chan_closed = False\<rparr> (Br_chans b)\<rparr>, nid))"

text \<open>The function \<^verbatim>\<open>Subscribe\<close> returns: \<^verbatim>\<open>once\<close> makes a second call do nothing, which the
  channel being closed records.\<close>

definition Cancel :: "Broker \<Rightarrow> int \<Rightarrow> Broker" where
  "Cancel b nid =
     (case map_of (Br_chans b) nid of
        None \<Rightarrow> b
      | Some ch \<Rightarrow>
          if Chan_closed ch then b
          else
            let slug = Chan_tenant ch;
                m = filter (\<lambda>i. i \<noteq> nid) (lookup_list (Br_subs b) slug);
                subs' = (if map_of (Br_subs b) slug = None then Br_subs b
                         else if m = [] then map_del slug (Br_subs b)
                         else map_put slug m (Br_subs b))
            in b\<lparr>Br_subs := subs', Br_chans := map_put nid (ch\<lparr>Chan_closed := True\<rparr>) (Br_chans b)\<rparr>)"

definition Subscribers :: "Broker \<Rightarrow> nat" where
  "Subscribers b = sum_list (map (\<lambda>e. length (snd e)) (Br_subs b))"

definition SubscribersFor :: "Broker \<Rightarrow> string \<Rightarrow> nat" where
  "SubscribersFor b tenantSlug = length (lookup_list (Br_subs b) tenantSlug)"

definition Dropped :: "Broker \<Rightarrow> int" where
  "Dropped b = Br_dropped b"

text \<open>The non-blocking send to one channel.\<close>

definition send :: "Event \<Rightarrow> Broker \<Rightarrow> int \<Rightarrow> Broker" where
  "send ev b nid =
     (case map_of (Br_chans b) nid of
        None \<Rightarrow> b
      | Some ch \<Rightarrow>
          if length (Chan_buf ch) < subBuffer
          then b\<lparr>Br_chans := map_put nid (ch\<lparr>Chan_buf := Chan_buf ch @ [ev]\<rparr>) (Br_chans b)\<rparr>
          else b\<lparr>Br_dropped := Br_dropped b + 1\<rparr>)"

definition Publish :: "Broker \<Rightarrow> Event \<Rightarrow> Broker" where
  "Publish b ev = foldl (send ev) b (lookup_list (Br_subs b) (Ev_TenantSlug ev))"

text \<open>The reader's side: take the oldest buffered event.\<close>

definition receive :: "Broker \<Rightarrow> int \<Rightarrow> Broker \<times> Event option" where
  "receive b nid =
     (case map_of (Br_chans b) nid of
        None \<Rightarrow> (b, None)
      | Some ch \<Rightarrow>
          (case Chan_buf ch of
             [] \<Rightarrow> (b, None)
           | ev # rest \<Rightarrow> (b\<lparr>Br_chans := map_put nid (ch\<lparr>Chan_buf := rest\<rparr>) (Br_chans b)\<rparr>, Some ev)))"

section \<open>revocations.go\<close>

definition session_event :: "string \<Rightarrow> time \<Rightarrow> string \<Rightarrow> Event" where
  "session_event slug now sid = \<lparr>Ev_Kind = KindSession, Ev_TenantSlug = slug, Ev_SessionID = sid,
     Ev_IdentityID = [], Ev_Epoch = 0, Ev_ObservedAt = now\<rparr>"

definition epoch_event :: "string \<Rightarrow> time \<Rightarrow> string \<Rightarrow> int \<Rightarrow> Event" where
  "epoch_event slug now who epoch = \<lparr>Ev_Kind = KindEpoch, Ev_TenantSlug = slug, Ev_SessionID = [],
     Ev_IdentityID = who, Ev_Epoch = epoch, Ev_ObservedAt = now\<rparr>"

text \<open>The events the two loops publish, in order.\<close>

definition revocation_events :: "string \<Rightarrow> time \<Rightarrow> Data \<Rightarrow> Data \<Rightarrow> Event list" where
  "revocation_events slug now prev nxt =
     map (\<lambda>e. session_event slug now (fst e))
       (filter (\<lambda>e. \<not> flag (Data_RevokedSessions prev) (fst e)) (Data_RevokedSessions nxt)) @
     map (\<lambda>e. epoch_event slug now (fst e) (Ident_TokenEpoch (snd e)))
       (filter (\<lambda>e. case map_of (Data_Identities prev) (fst e) of
                      None \<Rightarrow> False | Some old \<Rightarrow> Ident_TokenEpoch (snd e) > Ident_TokenEpoch old)
          (Data_Identities nxt))"

definition publishRevocations ::
  "Broker option \<Rightarrow> string \<Rightarrow> Data option \<Rightarrow> Data option \<Rightarrow> time \<Rightarrow> Broker option" where
  "publishRevocations b slug prev nxt now =
     (case (b, nxt, prev) of
        (Some br, Some n, Some p) \<Rightarrow>
          if SubscribersFor br slug = 0 then b
          else Some (foldl Publish br (revocation_events slug now p n))
      | _ \<Rightarrow> b)"

section \<open>Every run is bounded and isolated\<close>

datatype broker_op = OpSubscribe string | OpCancel int | OpPublish Event | OpReceive int

fun broker_step :: "Broker \<Rightarrow> broker_op \<Rightarrow> Broker" where
  "broker_step b (OpSubscribe slug) = fst (Subscribe b slug)"
| "broker_step b (OpCancel nid) = Cancel b nid"
| "broker_step b (OpPublish ev) = Publish b ev"
| "broker_step b (OpReceive nid) = fst (receive b nid)"

text \<open>A channel is open exactly while it is registered, under the tenant it was subscribed for,
  once; what it buffers is that tenant's, and never more than the buffer holds.\<close>

definition chan_ok :: "Broker \<Rightarrow> int \<Rightarrow> Chan \<Rightarrow> bool" where
  "chan_ok b i ch \<longleftrightarrow> 0 < i \<and> i \<le> Br_next b \<and> length (Chan_buf ch) \<le> subBuffer \<and>
     (\<forall>ev\<in>set (Chan_buf ch). Ev_TenantSlug ev = Chan_tenant ch)"

definition broker_inv :: "Broker \<Rightarrow> bool" where
  "broker_inv b \<longleftrightarrow> 0 \<le> Br_next b \<and>
     (\<forall>i ch. map_of (Br_chans b) i = Some ch \<longrightarrow> chan_ok b i ch) \<and>
     (\<forall>slug. distinct (lookup_list (Br_subs b) slug)) \<and>
     (\<forall>slug i. i \<in> set (lookup_list (Br_subs b) slug) \<longleftrightarrow>
        (\<exists>ch. map_of (Br_chans b) i = Some ch \<and> \<not> Chan_closed ch \<and> Chan_tenant ch = slug))"

lemma lookup_put [go_simps]: "lookup_list (map_put k v m) j = (if j = k then v else lookup_list m j)"
  by (simp add: lookup_list_def go_simps)

lemma lookup_del [go_simps]: "lookup_list (map_del k m) j = (if j = k then [] else lookup_list m j)"
  by (simp add: lookup_list_def go_simps)

lemma broker_inv_New: "broker_inv NewBroker"
  by (simp add: broker_inv_def NewBroker_def)

lemma broker_inv_chan: "broker_inv b \<Longrightarrow> map_of (Br_chans b) i = Some ch \<Longrightarrow> chan_ok b i ch"
  by (simp add: broker_inv_def)

lemma broker_inv_Subscribe:
  assumes "broker_inv b"
  shows "broker_inv (fst (Subscribe b slug))"
proof -
  have fresh: "map_of (Br_chans b) (Br_next b + 1) = None"
    using broker_inv_chan [OF assms] by (cases "map_of (Br_chans b) (Br_next b + 1)") (force simp: chan_ok_def)+
  then have "Br_next b + 1 \<notin> set (lookup_list (Br_subs b) s)" for s
    using assms by (simp add: broker_inv_def)
  with fresh assms show ?thesis
    by (fastforce simp: broker_inv_def Subscribe_def Let_def go_simps chan_ok_def)
qed

lemma broker_inv_chan_upd:
  assumes "broker_inv b" and "map_of (Br_chans b) i = Some ch"
    and "chan_ok b i ch'" and "Chan_tenant ch' = Chan_tenant ch" and "Chan_closed ch' = Chan_closed ch"
  shows "broker_inv (b\<lparr>Br_chans := map_put i ch' (Br_chans b)\<rparr>)"
  using assms by (auto simp: broker_inv_def go_simps chan_ok_def)

lemma broker_inv_send:
  assumes "broker_inv b" and "i \<in> set (lookup_list (Br_subs b) (Ev_TenantSlug ev))"
  shows "broker_inv (send ev b i) \<and> Br_subs (send ev b i) = Br_subs b"
proof -
  from assms obtain ch where ch: "map_of (Br_chans b) i = Some ch" "Chan_tenant ch = Ev_TenantSlug ev"
    by (auto simp: broker_inv_def)
  then have "chan_ok b i ch" using assms(1) by (simp add: broker_inv_def)
  with ch assms(1) show ?thesis
    using broker_inv_chan_upd [OF assms(1) ch(1), of "ch\<lparr>Chan_buf := Chan_buf ch @ [ev]\<rparr>"]
    by (auto simp: send_def chan_ok_def broker_inv_def)
qed

lemma broker_inv_Publish: "broker_inv b \<Longrightarrow> broker_inv (Publish b ev)"
proof -
  have "broker_inv b \<Longrightarrow> set is \<subseteq> set (lookup_list (Br_subs b) (Ev_TenantSlug ev)) \<Longrightarrow>
      broker_inv (foldl (send ev) b is)" for "is"
    by (induction "is" arbitrary: b) (auto simp: broker_inv_send)
  then show "broker_inv b \<Longrightarrow> broker_inv (Publish b ev)" by (simp add: Publish_def)
qed

lemma broker_inv_receive: "broker_inv b \<Longrightarrow> broker_inv (fst (receive b i))"
proof (cases "map_of (Br_chans b) i")
  case (Some ch)
  assume b: "broker_inv b"
  then have "chan_ok b i ch" using Some by (simp add: broker_inv_def)
  then show ?thesis
    using broker_inv_chan_upd [OF b Some] b Some
    by (cases "Chan_buf ch") (auto simp: receive_def chan_ok_def)
qed (simp add: receive_def)

lemma broker_inv_Cancel:
  assumes "broker_inv b"
  shows "broker_inv (Cancel b i)"
proof (cases "map_of (Br_chans b) i")
  case None
  with assms show ?thesis by (simp add: Cancel_def)
next
  case (Some ch)
  show ?thesis
  proof (cases "Chan_closed ch")
    case True
    with Some assms show ?thesis by (simp add: Cancel_def)
  next
    case False
    have sub: "i \<in> set (lookup_list (Br_subs b) (Chan_tenant ch))"
      using assms Some False by (auto simp: broker_inv_def)
    then have ne: "map_of (Br_subs b) (Chan_tenant ch) \<noteq> None"
      by (cases "map_of (Br_subs b) (Chan_tenant ch)") (auto simp: lookup_list_def)
    have look: "lookup_list (Br_subs (Cancel b i)) s =
        (if s = Chan_tenant ch then filter (\<lambda>j. j \<noteq> i) (lookup_list (Br_subs b) s) else lookup_list (Br_subs b) s)" for s
      using Some False ne by (auto simp: Cancel_def Let_def go_simps)
    have chans: "Br_chans (Cancel b i) = map_put i (ch\<lparr>Chan_closed := True\<rparr>) (Br_chans b)" "Br_next (Cancel b i) = Br_next b"
      using Some False by (simp_all add: Cancel_def Let_def)
    have "0 \<le> Br_next b" using assms by (simp add: broker_inv_def)
    with assms Some show ?thesis
      unfolding broker_inv_def look chans chan_ok_def by (auto simp: go_simps chans intro: order.trans)
  qed
qed

interpretation broker: machine "\<lambda>b. b = NewBroker" "\<lambda>_. True" broker_step broker_inv
proof
  fix b op
  assume "broker_inv b"
  then show "broker_inv (broker_step b op)"
    by (cases op) (simp_all add: broker_inv_Subscribe broker_inv_Cancel broker_inv_Publish broker_inv_receive)
qed (simp add: broker_inv_New)

lemma send_effect:
  "map_of (Br_chans (send ev b i)) j =
     map_option (\<lambda>ch. if j = i \<and> length (Chan_buf ch) < subBuffer then ch\<lparr>Chan_buf := Chan_buf ch @ [ev]\<rparr> else ch)
       (map_of (Br_chans b) j)"
  by (cases "map_of (Br_chans b) i"; cases "map_of (Br_chans b) j") (auto simp: send_def go_simps)

definition full :: "Broker \<Rightarrow> int \<Rightarrow> bool" where
  "full b i \<longleftrightarrow> (\<exists>ch. map_of (Br_chans b) i = Some ch \<and> subBuffer \<le> length (Chan_buf ch))"

lemma send_dropped: "Br_dropped (send ev b i) = Br_dropped b + (if full b i then 1 else 0)"
  by (auto simp: send_def full_def split: option.split)

lemma sends_effect:
  assumes "distinct is"
  shows "map_of (Br_chans (foldl (send ev) b is)) j =
       map_option (\<lambda>ch. if j \<in> set is \<and> length (Chan_buf ch) < subBuffer then ch\<lparr>Chan_buf := Chan_buf ch @ [ev]\<rparr> else ch)
         (map_of (Br_chans b) j) \<and>
     Br_dropped (foldl (send ev) b is) = Br_dropped b + int (length (filter (full b) is))"
  using assms
proof (induction "is" arbitrary: b)
  case Nil
  then show ?case by (cases "map_of (Br_chans b) j") simp_all
next
  case (Cons i "is")
  have "full (send ev b i) k = full b k" if "k \<in> set is" for k
    using that Cons.prems by (auto simp: full_def send_effect split: if_splits)
  then have "filter (full (send ev b i)) is = filter (full b) is" by (rule filter_cong [OF refl])
  with Cons show ?case by (cases "map_of (Br_chans b) j") (auto simp: send_effect send_dropped)
qed

text \<open>No slow reader costs another tenant or the gate anything: after any sequence of
  subscriptions, cancellations, publications and reads, every channel buffers at most 64
  events, all of the tenant it was opened for, and is registered (once) exactly while open.\<close>

theorem broker_isolated:
  assumes "map_of (Br_chans (foldl broker_step NewBroker ops)) i = Some ch"
  shows "length (Chan_buf ch) \<le> 64 \<and> (\<forall>ev\<in>set (Chan_buf ch). Ev_TenantSlug ev = Chan_tenant ch) \<and>
     (Chan_closed ch \<longleftrightarrow> (\<forall>slug. i \<notin> set (lookup_list (Br_subs (foldl broker_step NewBroker ops)) slug)))"
proof -
  have inv: "broker_inv (foldl broker_step NewBroker ops)" by (rule broker.inv_reachable) simp_all
  with broker_inv_chan [OF inv assms] assms show ?thesis
    by (auto simp: broker_inv_def chan_ok_def subBuffer_def)
qed

definition demo_event :: Event where
  "demo_event = session_event ''acme'' 3 ''s1''"

theorem broker_isolated_witness:
  "\<exists>ch. map_of (Br_chans (foldl broker_step NewBroker [OpSubscribe ''acme'', OpPublish demo_event])) 1 = Some ch \<and>
     Chan_buf ch = [demo_event] \<and> length (Chan_buf ch) \<le> 64"
proof -
  let ?b = "foldl broker_step NewBroker [OpSubscribe ''acme'', OpPublish demo_event]"
  have "map_of (Br_chans ?b) 1 = Some \<lparr>Chan_tenant = ''acme'', Chan_buf = [demo_event], Chan_closed = False\<rparr>"
    by code_simp
  with broker_isolated [OF this] show ?thesis by simp
qed

text \<open>A publication reaches every open stream of its tenant exactly once or is counted as
  dropped: in every reachable state, each registered channel with room gets the event at its end,
  every other channel is unchanged, and the drop counter grows by the number of the tenant's
  full channels.\<close>

theorem publish_accounted:
  "(let b = foldl broker_step NewBroker ops; b' = Publish b ev;
        ids = lookup_list (Br_subs b) (Ev_TenantSlug ev) in
    (\<forall>i. map_of (Br_chans b') i =
       map_option (\<lambda>ch. if i \<in> set ids \<and> length (Chan_buf ch) < 64 then ch\<lparr>Chan_buf := Chan_buf ch @ [ev]\<rparr> else ch)
         (map_of (Br_chans b) i)) \<and>
    Dropped b' = Dropped b + int (length (filter (full b) ids)) \<and> SubscribersFor b (Ev_TenantSlug ev) = card (set ids))"
proof -
  let ?b = "foldl broker_step NewBroker ops"
  have "broker_inv ?b" by (rule broker.inv_reachable) simp_all
  then have "distinct (lookup_list (Br_subs ?b) (Ev_TenantSlug ev))" by (simp add: broker_inv_def)
  from sends_effect [OF this, of ev ?b] distinct_card [OF this] show ?thesis
    unfolding Let_def Publish_def Dropped_def SubscribersFor_def subBuffer_def by simp
qed

text \<open>What a snapshot swap announces: a session event for exactly the sessions revoked in the
  new snapshot and not in the old, and an epoch event for exactly the identities known to both
  whose epoch rose; nothing else, and no event for an epoch that appears to fall.\<close>

theorem revocation_events_exact:
  assumes "gomap_wf (Data_Identities nxt)"
  shows "ev \<in> set (revocation_events slug now prev nxt) \<longleftrightarrow>
     (\<exists>sid. sid \<in> fst ` set (Data_RevokedSessions nxt) \<and> \<not> flag (Data_RevokedSessions prev) sid \<and>
        ev = session_event slug now sid) \<or>
     (\<exists>who old cur. map_of (Data_Identities prev) who = Some old \<and> map_of (Data_Identities nxt) who = Some cur \<and>
        Ident_TokenEpoch old < Ident_TokenEpoch cur \<and> ev = epoch_event slug now who (Ident_TokenEpoch cur))"
proof -
  have mem: "(who, cur) \<in> set (Data_Identities nxt) \<longleftrightarrow> map_of (Data_Identities nxt) who = Some cur" for who cur
    using assms by (simp add: gomap_wf_def)
  show ?thesis
    unfolding revocation_events_def mem [symmetric]
    by (force split: option.splits)
qed

definition demo_snap :: "(string, bool) gomap \<Rightarrow> int \<Rightarrow> Data" where
  "demo_snap revoked epoch = \<lparr>Data_TenantID = ''t'', Data_TenantSlug = ''acme'', Data_Version = 1,
     Data_LoadedAt = 0, Data_BuiltAt = 0, Data_StrictAxes = [], Data_Scope = NewScopeIndex [],
     Data_GrantsByIdentity = [], Data_SharesByIdentity = [], Data_RolePermissions = [],
     Data_Permissions = [],
     Data_Identities = [(''alice'', \<lparr>Ident_TokenEpoch = epoch, Ident_Blocked = False, Ident_AssuranceLevel = 1\<rparr>)],
     Data_RevokedSessions = revoked, Data_Routes = []\<rparr>"

theorem revocation_events_exact_witness:
  "session_event ''acme'' 9 ''s1'' \<in> set (revocation_events ''acme'' 9 (demo_snap [] 1) (demo_snap [(''s1'', True)] 2)) \<and>
   epoch_event ''acme'' 9 ''alice'' 2 \<in> set (revocation_events ''acme'' 9 (demo_snap [] 1) (demo_snap [(''s1'', True)] 2)) \<and>
   epoch_event ''acme'' 9 ''alice'' 1 \<notin> set (revocation_events ''acme'' 9 (demo_snap [] 2) (demo_snap [] 1))"
proof -
  have wf: "gomap_wf (Data_Identities (demo_snap r e))" for r e by (simp add: demo_snap_def gomap_wf_def)
  show ?thesis
    unfolding revocation_events_exact [OF wf]
    by (auto simp: demo_snap_def epoch_event_def session_event_def KindSession_def KindEpoch_def)
qed

end
