(* ===== verification/Snapshot_Manager.thy ===== *)
theory Snapshot_Manager
  imports Revocation_Broker
begin

text \<open>
  \<^verbatim>\<open>internal/gate/app/manager.go\<close>: per-tenant snapshots, refreshed by a version probe or a rebuild,
  served while fresh and refused past the maximum age. The loader (the postgres repository) and
  the tenant lister are the parameters \<open>Loader\<close> and \<open>list_tenants\<close>; a snapshot is held by
  reference, so the map holds a reference number with the value, and a refresh allocates a new one.
\<close>

section \<open>manager.go\<close>

record Manager =
  Mg_maxAge :: duration
  Mg_rebuildEvery :: duration
  Mg_data :: "(string, nat \<times> Data) gomap"
  Mg_fresh_ref :: nat
  Mg_revocations :: "Broker option"

definition NewManager :: "duration \<Rightarrow> Manager" where
  "NewManager maxAge =
     (let maxAge' = (if maxAge \<le> 0 then 5 * 60 * Second else maxAge) in
      \<lparr>Mg_maxAge = maxAge', Mg_rebuildEvery = maxAge', Mg_data = [], Mg_fresh_ref = 0, Mg_revocations = None\<rparr>)"

definition PublishRevocationsTo :: "Manager \<Rightarrow> Broker \<Rightarrow> Manager" where
  "PublishRevocationsTo m b = m\<lparr>Mg_revocations := Some b\<rparr>"

definition Get :: "Manager \<Rightarrow> string \<Rightarrow> time \<Rightarrow> Data option \<times> bool" where
  "Get m tenantSlug now =
     (case map_of (Mg_data m) tenantSlug of
        None \<Rightarrow> (None, False)
      | Some (_, d) \<Rightarrow> (Some d, time_sub now (Data_LoadedAt d) \<le> Mg_maxAge m))"

text \<open>Stale, worst age, any snapshot at all.\<close>

definition Stale :: "Manager \<Rightarrow> time \<Rightarrow> bool \<times> duration \<times> bool" where
  "Stale m now =
     (if Mg_data m = [] then (True, 0, False)
      else let worst = foldl (\<lambda>w e. let age = time_sub now (Data_LoadedAt (snd (snd e))) in if age > w then age else w)
                         0 (Mg_data m)
           in (worst > Mg_maxAge m, worst, True))"

definition touch :: "Manager \<Rightarrow> string \<Rightarrow> nat \<times> Data \<Rightarrow> time \<Rightarrow> Manager" where
  "touch m slug cur now =
     (case map_of (Mg_data m) slug of
        None \<Rightarrow> m
      | Some (ref, _) \<Rightarrow>
          if ref = fst cur
          then m\<lparr>Mg_data := map_put slug (Mg_fresh_ref m, (snd cur)\<lparr>Data_LoadedAt := now\<rparr>) (Mg_data m),
                 Mg_fresh_ref := Mg_fresh_ref m + 1\<rparr>
          else m)"

text \<open>What one call of \<^verbatim>\<open>load\<close> gets from outside: the version probe, the rebuild, and the clock
  readings at entry, at the end of the probe and at the swap.\<close>

record Loader =
  Ld_CatalogVersion :: "int result"
  Ld_LoadSnapshot :: "Data result"
  Ld_since :: time
  Ld_touched :: time
  Ld_swapped :: time

definition rebuild :: "Manager \<Rightarrow> string \<Rightarrow> Loader \<Rightarrow> Manager" where
  "rebuild m slug l =
     (case Ld_LoadSnapshot l of
        Inl e \<Rightarrow> m
      | Inr d \<Rightarrow>
          let prev = map_option snd (map_of (Mg_data m) slug);
              m' = m\<lparr>Mg_data := map_put slug (Mg_fresh_ref m, d) (Mg_data m), Mg_fresh_ref := Mg_fresh_ref m + 1\<rparr>
          in m'\<lparr>Mg_revocations := publishRevocations (Mg_revocations m') slug prev (Some d) (Ld_swapped l)\<rparr>)"

definition load :: "Manager \<Rightarrow> string \<Rightarrow> Loader \<Rightarrow> Manager" where
  "load m slug l =
     (case map_of (Mg_data m) slug of
        None \<Rightarrow> rebuild m slug l
      | Some cur \<Rightarrow>
          if time_sub (Ld_since l) (Data_BuiltAt (snd cur)) \<ge> Mg_rebuildEvery m then rebuild m slug l
          else if Ld_CatalogVersion l = Inr (Data_Version (snd cur)) then touch m slug cur (Ld_touched l)
          else rebuild m slug l)"

text \<open>The tenants listed, each with what its \<^verbatim>\<open>load\<close> gets.\<close>

definition refreshAll :: "Manager \<Rightarrow> ((string \<times> string) list) result \<Rightarrow> (string \<Rightarrow> Loader) \<Rightarrow> Manager" where
  "refreshAll m list_tenants loader =
     (case list_tenants of
        Inl e \<Rightarrow> m
      | Inr ts \<Rightarrow> foldl (\<lambda>m t. load m (snd t) (loader (fst t))) m ts)"

definition refreshPending ::
  "Manager \<Rightarrow> string list \<Rightarrow> ((string \<times> string) list) result \<Rightarrow> (string \<Rightarrow> Loader) \<Rightarrow> Manager \<times> string list" where
  "refreshPending m pending list_tenants loader =
     (if pending = [] then (m, pending)
      else (case list_tenants of
              Inl e \<Rightarrow> (m, pending)
            | Inr ts \<Rightarrow>
                (foldl (\<lambda>m t. if fst t \<in> set pending then load m (snd t) (loader (fst t)) else m) m ts, [])))"

section \<open>Run\<close>

text \<open>The loop's own state: the tenants bumped since the last pass and when the batch must go.\<close>

record RunState =
  Rs_mgr :: Manager
  Rs_pending :: "string list"
  Rs_deadline :: time
  Rs_timer :: "time option"

definition coalesceQuiet :: duration where "coalesceQuiet = 250000000"
definition coalesceMax :: duration where "coalesceMax = 2 * Second"

datatype run_event =
    Tick "((string \<times> string) list) result" "string \<Rightarrow> Loader"
  | Dirty string time
  | Fire "((string \<times> string) list) result" "string \<Rightarrow> Loader"

fun run_step :: "RunState \<Rightarrow> run_event \<Rightarrow> RunState" where
  "run_step r (Tick ts loader) = r\<lparr>Rs_mgr := refreshAll (Rs_mgr r) ts loader\<rparr>"
| "run_step r (Dirty tenantID now) =
     (let deadline = (if Rs_pending r = [] then now + coalesceMax else Rs_deadline r);
          until = time_sub deadline now;
          wait = (if until < coalesceQuiet then max until 0 else coalesceQuiet)
      in r\<lparr>Rs_pending := (if tenantID \<in> set (Rs_pending r) then Rs_pending r else Rs_pending r @ [tenantID]),
           Rs_deadline := deadline, Rs_timer := Some (now + wait)\<rparr>)"
| "run_step r (Fire ts loader) =
     (let (m, pending) = refreshPending (Rs_mgr r) (Rs_pending r) ts loader
      in r\<lparr>Rs_mgr := m, Rs_pending := pending, Rs_timer := None\<rparr>)"

section \<open>How old a served snapshot can be\<close>

lemma time_sub_less: "r \<le> 2 ^ 63 - 1 \<Longrightarrow> time_sub t u < r \<Longrightarrow> t - u < r"
  by (auto simp: time_sub_def)

lemma time_sub_le: "r < 2 ^ 63 - 1 \<Longrightarrow> time_sub t u \<le> r \<Longrightarrow> t - u \<le> r"
  by (auto simp: time_sub_def)

datatype manager_op = Load string Loader

fun manager_step :: "Manager \<Rightarrow> manager_op \<Rightarrow> Manager" where
  "manager_step m (Load slug l) = load m slug l"

text \<open>The loader stamps a rebuilt snapshot's \<^verbatim>\<open>LoadedAt\<close> before its \<^verbatim>\<open>BuiltAt\<close>, and a version probe
  takes at most \<open>slack\<close>.\<close>

fun loader_ok :: "duration \<Rightarrow> manager_op \<Rightarrow> bool" where
  "loader_ok slack (Load slug l) \<longleftrightarrow> Ld_touched l - Ld_since l \<le> slack \<and>
     (case Ld_LoadSnapshot l of Inl e \<Rightarrow> True | Inr d \<Rightarrow> Data_LoadedAt d \<le> Data_BuiltAt d)"

definition manager_inv :: "duration \<Rightarrow> duration \<Rightarrow> Manager \<Rightarrow> bool" where
  "manager_inv maxAge slack m \<longleftrightarrow> 0 \<le> slack \<and> 0 < maxAge \<and> maxAge < 2 ^ 63 - 1 \<and>
     Mg_maxAge m = maxAge \<and> Mg_rebuildEvery m = maxAge \<and>
     (\<forall>slug ref d. map_of (Mg_data m) slug = Some (ref, d) \<longrightarrow>
        ref < Mg_fresh_ref m \<and> Data_LoadedAt d < Data_BuiltAt d + maxAge + slack)"

lemma rebuild_sel:
  "Mg_maxAge (rebuild m slug l) = Mg_maxAge m" "Mg_rebuildEvery (rebuild m slug l) = Mg_rebuildEvery m"
  "map_of (Mg_data (rebuild m slug l)) =
     (case Ld_LoadSnapshot l of Inl e \<Rightarrow> map_of (Mg_data m) | Inr d \<Rightarrow> (map_of (Mg_data m))(slug \<mapsto> (Mg_fresh_ref m, d)))"
  "Mg_fresh_ref (rebuild m slug l) = (case Ld_LoadSnapshot l of Inl e \<Rightarrow> Mg_fresh_ref m | Inr d \<Rightarrow> Mg_fresh_ref m + 1)"
  by (simp_all add: rebuild_def Let_def go_simps split: sum.split)

lemma manager_inv_rebuild:
  assumes "manager_inv maxAge slack m" and "loader_ok slack (Load slug l)"
  shows "manager_inv maxAge slack (rebuild m slug l)"
  using assms unfolding manager_inv_def rebuild_sel
  by (cases "Ld_LoadSnapshot l") (auto simp: less_Suc_eq)

lemma manager_inv_touch:
  assumes "manager_inv maxAge slack m" and "map_of (Mg_data m) slug = Some cur"
    and "Data_LoadedAt ((snd cur)\<lparr>Data_LoadedAt := now\<rparr>) < Data_BuiltAt (snd cur) + maxAge + slack"
  shows "manager_inv maxAge slack (touch m slug cur now)"
  using assms by (cases cur) (auto simp: manager_inv_def touch_def go_simps less_Suc_eq)

lemma manager_inv_load:
  assumes inv: "manager_inv maxAge slack m" and ok: "loader_ok slack (Load slug l)"
  shows "manager_inv maxAge slack (load m slug l)"
proof (cases "map_of (Mg_data m) slug")
  case None
  then show ?thesis using manager_inv_rebuild [OF inv ok] by (simp add: load_def)
next
  case (Some cur)
  have "time_sub (Ld_since l) (Data_BuiltAt (snd cur)) < Mg_rebuildEvery m \<Longrightarrow>
      Ld_since l - Data_BuiltAt (snd cur) < maxAge"
    using inv time_sub_less [of maxAge] by (auto simp: manager_inv_def)
  then show ?thesis
    using manager_inv_rebuild [OF inv ok] manager_inv_touch [OF inv Some, of "Ld_touched l"] ok Some
    by (auto simp: load_def)
qed

interpretation manager: machine
  "\<lambda>m. m = NewManager maxAge \<and> 0 < maxAge \<and> maxAge < 2 ^ 63 - 1 \<and> 0 \<le> slack" "loader_ok slack" manager_step
  "manager_inv maxAge slack" for maxAge slack
proof
  fix m op
  assume "manager_inv maxAge slack m" "loader_ok slack op"
  then show "manager_inv maxAge slack (manager_step m op)" by (cases op) (simp add: manager_inv_load)
qed (auto simp: manager_inv_def NewManager_def Let_def)

lemma manager_inv_served:
  assumes inv: "manager_inv maxAge slack m" and g: "Get m slug now = (Some d, True)"
  shows "now - Data_BuiltAt d < 2 * maxAge + slack"
proof -
  from g obtain ref where d: "map_of (Mg_data m) slug = Some (ref, d)"
    and fresh: "time_sub now (Data_LoadedAt d) \<le> Mg_maxAge m"
    by (auto simp: Get_def split: option.splits)
  have "now - Data_LoadedAt d \<le> maxAge"
    using fresh inv time_sub_le [of maxAge] by (simp add: manager_inv_def)
  moreover have "Data_LoadedAt d < Data_BuiltAt d + maxAge + slack"
    using inv d unfolding manager_inv_def by blast
  ultimately show ?thesis by simp
qed

text \<open>C38. What the gate serves is bounded in age: after any sequence of refreshes, whatever the
  database answered or failed to answer, a snapshot served as fresh was rebuilt from the database
  less than twice the maximum age ago (plus the time one version probe takes).\<close>

theorem served_age_bounded:
  assumes "0 < maxAge" and "maxAge < 2 ^ 63 - 1" and "0 \<le> slack" and "\<forall>op\<in>set ops. loader_ok slack op"
    and "Get (foldl manager_step (NewManager maxAge) ops) slug now = (Some d, True)"
  shows "now - Data_BuiltAt d < 2 * maxAge + slack"
  using assms by (intro manager_inv_served [OF manager.inv_reachable]) simp_all

definition demo_loader :: "time \<Rightarrow> Loader" where
  "demo_loader t = \<lparr>Ld_CatalogVersion = Inr 1, Ld_LoadSnapshot = Inr (demo_snap [] 1\<lparr>Data_LoadedAt := t, Data_BuiltAt := t\<rparr>),
     Ld_since = t, Ld_touched = t, Ld_swapped = t\<rparr>"

theorem served_age_bounded_witness:
  "\<exists>d. Get (foldl manager_step (NewManager 100) [Load ''acme'' (demo_loader 0), Load ''acme'' (demo_loader 99)])
         ''acme'' 150 = (Some d, True) \<and> 150 - Data_BuiltAt d < 200"
proof -
  let ?ops = "[Load ''acme'' (demo_loader 0), Load ''acme'' (demo_loader 99)]"
  obtain d where d: "Get (foldl manager_step (NewManager 100) ?ops) ''acme'' 150 = (Some d, True)"
    by (simp add: demo_loader_def Get_def load_def rebuild_def touch_def NewManager_def Let_def go_simps
        publishRevocations_def time_sub_def demo_snap_def)
  have "\<forall>op\<in>set ?ops. loader_ok 0 op" by (simp add: demo_loader_def)
  with served_age_bounded [OF _ _ _ this d] d show ?thesis by auto
qed

text \<open>The bound is not the maximum age itself: a refresh that finds the catalog version unchanged
  one moment before the periodic rebuild renews the snapshot, so with the database gone after
  that, the gate still serves (as fresh) a snapshot last rebuilt more than the maximum age ago.\<close>

theorem served_beyond_max_age:
  "\<exists>ops d. list_all (loader_ok 0) ops \<and>
     Get (foldl manager_step (NewManager 100) ops) ''acme'' 199 = (Some d, True) \<and> 199 - Data_BuiltAt d > 100"
proof -
  let ?ops = "[Load ''acme'' (demo_loader 0), Load ''acme'' (demo_loader 99)]"
  have ok: "list_all (loader_ok 0) ?ops" by (simp add: demo_loader_def)
  have "\<exists>d. Get (foldl manager_step (NewManager 100) ?ops) ''acme'' 199 = (Some d, True) \<and> 199 - Data_BuiltAt d > 100"
    by (simp add: demo_loader_def Get_def load_def rebuild_def touch_def NewManager_def Let_def go_simps
        publishRevocations_def time_sub_def demo_snap_def)
  with ok show ?thesis by blast
qed

section \<open>Failing static\<close>

text \<open>Everything of a snapshot that can change a decision: all but the two timestamps.\<close>

definition content :: "Data \<Rightarrow> Data" where
  "content d = d\<lparr>Data_LoadedAt := 0, Data_BuiltAt := 0\<rparr>"

definition held :: "Manager \<Rightarrow> string \<Rightarrow> Data option" where
  "held m slug = map_option (content \<circ> snd) (map_of (Mg_data m) slug)"

lemma held_touch: "map_of (Mg_data m) slug = Some cur \<Longrightarrow> held (touch m slug cur now) s = held m s"
  by (cases cur) (auto simp: held_def touch_def go_simps content_def)

lemma held_load:
  "held (load m slug l) s = (case Ld_LoadSnapshot l of
     Inl e \<Rightarrow> held m s
   | Inr d \<Rightarrow> if s = slug \<and> held (load m slug l) s \<noteq> held m s then Some (content d) else held m s)"
proof (cases "map_of (Mg_data m) slug")
  case None
  then show ?thesis by (auto simp: load_def rebuild_def held_def Let_def go_simps split: sum.split)
next
  case (Some cur)
  have r: "held (rebuild m slug l) s = (case Ld_LoadSnapshot l of
     Inl e \<Rightarrow> held m s | Inr d \<Rightarrow> if s = slug then Some (content d) else held m s)"
    by (simp add: rebuild_def held_def Let_def go_simps split: sum.split)
  have "load m slug l = rebuild m slug l \<or> load m slug l = touch m slug cur (Ld_touched l)"
    using Some by (simp add: load_def)
  then show ?thesis
  proof
    assume "load m slug l = rebuild m slug l"
    then show ?thesis unfolding r by (auto simp: r split: sum.split)
  next
    assume "load m slug l = touch m slug cur (Ld_touched l)"
    then show ?thesis using held_touch [OF Some] by (simp split: sum.split)
  qed
qed

text \<open>A refresh changes one tenant or nothing: other tenants' snapshots are untouched, a failed
  rebuild leaves the previous snapshot serving, and when the tenant's snapshot does change, it is
  the one the database just gave, as a whole.\<close>

theorem load_fail_static:
  "held (load m slug l) s \<noteq> held m s \<longleftrightarrow>
     (\<exists>d. Ld_LoadSnapshot l = Inr d \<and> s = slug \<and> held (load m slug l) s = Some (content d) \<and>
        held m s \<noteq> Some (content d))"
  using held_load [of m slug l s] by (cases "Ld_LoadSnapshot l") (auto split: if_splits)

section \<open>Coalescing bumps\<close>

lemma dirty_timer:
  "Rs_timer (run_step r (Dirty t now)) =
     Some (max now (min (now + coalesceQuiet) (Rs_deadline (run_step r (Dirty t now)))))"
  by (auto simp: Let_def time_sub_def coalesceQuiet_def)

lemma dirty_pending: "set (Rs_pending (run_step r (Dirty t now))) = insert t (set (Rs_pending r))"
  by (auto simp: Let_def)

lemma dirty_deadline:
  "Rs_deadline (run_step r (Dirty t now)) = (if Rs_pending r = [] then now + coalesceMax else Rs_deadline r)"
  "Rs_pending (run_step r (Dirty t now)) \<noteq> []"
  by (auto simp: Let_def)

lemma dirty_run:
  assumes "Rs_pending r \<noteq> []" and "bumps \<noteq> []"
  defines "r' \<equiv> foldl run_step r (map (\<lambda>(t, now). Dirty t now) bumps)"
  shows "Rs_deadline r' = Rs_deadline r \<and>
     Rs_timer r' = Some (max (snd (last bumps)) (min (snd (last bumps) + coalesceQuiet) (Rs_deadline r))) \<and>
     set (Rs_pending r') = set (Rs_pending r) \<union> fst ` set bumps"
  using assms(1,2) unfolding r'_def
proof (induction bumps arbitrary: r)
  case (Cons b bumps)
  obtain t now where b: "b = (t, now)" by force
  let ?r = "run_step r (Dirty t now)"
  show ?case
  proof (cases "bumps = []")
    case True
    then show ?thesis
      using Cons.prems dirty_timer [of r t now] dirty_deadline [of r t now] dirty_pending [of r t now]
      by (simp add: b del: run_step.simps)
  next
    case False
    then show ?thesis
      using Cons.IH [of ?r] Cons.prems dirty_deadline [of r t now] dirty_pending [of r t now]
      by (simp add: b del: run_step.simps)
  qed
qed simp

text \<open>Coalescing is prompt: however many catalog bumps arrive in a row, the reload is scheduled
  a quarter second after the last of them or two seconds after the first, whichever is earlier
  (never before the last one), and the batch names every tenant bumped.\<close>

theorem coalesce_prompt:
  assumes "Rs_pending r = []" and "bumps \<noteq> []"
    and "r' = foldl run_step r (map (\<lambda>(t, now). Dirty t now) bumps)"
  shows "Rs_timer r' = Some (max (snd (last bumps))
       (min (snd (last bumps) + 250000000) (snd (hd bumps) + 2000000000))) \<and>
     set (Rs_pending r') = fst ` set bumps"
proof -
  from assms(2) obtain t now bs where bumps: "bumps = (t, now) # bs" by (cases bumps) auto
  let ?r = "run_step r (Dirty t now)"
  have dl: "Rs_deadline ?r = now + coalesceMax" and ne: "Rs_pending ?r \<noteq> []" and pd: "set (Rs_pending ?r) = {t}"
    using dirty_deadline [of r t now] dirty_pending [of r t now] assms(1) by (simp_all del: run_step.simps)
  have r': "r' = foldl run_step ?r (map (\<lambda>(t, now). Dirty t now) bs)"
    using assms(3) by (simp add: bumps del: run_step.simps)
  show ?thesis
  proof (cases "bs = []")
    case True
    then have "r' = ?r" using r' by simp
    then show ?thesis
      using dirty_timer [of r t now] dl pd
      by (simp add: bumps True coalesceQuiet_def coalesceMax_def del: run_step.simps)
  next
    case False
    from dirty_run [OF ne False] show ?thesis
      unfolding r' dl pd by (simp add: bumps False coalesceQuiet_def coalesceMax_def)
  qed
qed

definition idle :: RunState where
  "idle = \<lparr>Rs_mgr = NewManager 0, Rs_pending = [], Rs_deadline = 0, Rs_timer = None\<rparr>"

theorem coalesce_prompt_witness:
  "Rs_timer (foldl run_step idle [Dirty ''a'' 0, Dirty ''b'' 1900000000]) = Some 2000000000"
  using coalesce_prompt [of idle "[(''a'', 0), (''b'', 1900000000)]", OF _ _ refl]
  by (simp add: idle_def del: run_step.simps)

text \<open>A batch that goes through loads every pending tenant the lister returns and empties the set; a
  failed tenant list keeps it.\<close>

lemma refreshPending_keeps:
  "list_tenants = Inl e \<Longrightarrow> refreshPending m pending list_tenants loader = (m, pending)"
  by (simp add: refreshPending_def)

section \<open>The interface a decision relies on\<close>

text \<open>\<^verbatim>\<open>Snapshots\<close>: the tenant's data and whether it is fresh. Absent data is never fresh, and
  fresh data was rebuilt within a bound.\<close>

locale snapshot_source =
  fixes get :: "'s \<Rightarrow> string \<Rightarrow> time \<Rightarrow> Data option \<times> bool"
    and good :: "'s \<Rightarrow> bool"
    and bound :: "'s \<Rightarrow> duration"
  assumes absent_stale: "get s slug now = (None, f) \<Longrightarrow> \<not> f"
    and fresh_recent: "good s \<Longrightarrow> get s slug now = (Some d, True) \<Longrightarrow> now - Data_BuiltAt d < bound s"
begin

lemma served_recent:
  assumes "good s" and "snd (get s slug now)"
  shows "\<exists>d. fst (get s slug now) = Some d \<and> now - Data_BuiltAt d < bound s"
proof (cases "get s slug now")
  case (Pair od f)
  with assms absent_stale fresh_recent show ?thesis by (cases od) auto
qed

end

interpretation mgr: snapshot_source Get "\<lambda>m. \<exists>slack. manager_inv (Mg_maxAge m) slack m \<and> slack \<le> 30 * Second"
  "\<lambda>m. 2 * Mg_maxAge m + 30 * Second"
proof
  fix m slug now d
  assume "\<exists>slack. manager_inv (Mg_maxAge m) slack m \<and> slack \<le> 30 * Second" and g: "Get m slug now = (Some d, True)"
  then obtain slack where "manager_inv (Mg_maxAge m) slack m" "slack \<le> 30 * Second" by blast
  with manager_inv_served [OF this(1) g] show "now - Data_BuiltAt d < 2 * Mg_maxAge m + 30 * Second" by simp
qed (auto simp: Get_def split: option.splits)

end
