(* ===== verification/Snapshot_Loader.thy ===== *)
theory Snapshot_Loader
  imports Snapshot
begin

text \<open>
  \<^verbatim>\<open>internal/gate/adapter/postgres/snapshot_repository.go\<close>: one tenant's state, read in one
  repeatable-read transaction and assembled into a \<open>Data\<close>. The transaction is the record
  \<open>Tx\<close> of what each query of \<^verbatim>\<open>rquery/snapshot.go\<close> returns in it, rows or an error; decoding the
  JSON of a route's scope bindings is the parameter \<open>unmarshal\<close>.
\<close>

section \<open>Rows\<close>

record AxisRow =
  AxisRow_Code :: string
  AxisRow_DefaultEffect :: string

record NodeRow =
  NodeRow_ID :: string
  NodeRow_ParentID :: "string option"

record GrantRow =
  GrantRow_ID :: string
  GrantRow_IdentityID :: string
  GrantRow_RoleID :: string
  GrantRow_SelfScoped :: bool
  GrantRow_ValidFrom :: time
  GrantRow_ValidUntil :: "time option"

record GrantScopeRow =
  GSRow_GrantID :: string
  GSRow_AxisCode :: string
  GSRow_ScopeNodeID :: string
  GSRow_Inherit :: bool
  GSRow_Exclude :: bool

record ShareRow =
  ShareRow_ToIdentityID :: string
  ShareRow_Record :: string
  ShareRow_PermissionKeys :: "string list"
  ShareRow_ValidUntil :: time

record RolePermissionRow =
  RPRow_RoleID :: string
  RPRow_Key :: string

record PermissionRow =
  PermRow_Key :: string
  PermRow_Risk :: string
  PermRow_MinAssurance :: int
  PermRow_RequiresAmr :: "string list"
  PermRow_MaxAuthAgeSecs :: int

record IdentityRow =
  IdentRow_ID :: string
  IdentRow_TokenEpoch :: int
  IdentRow_Status :: string
  IdentRow_AssuranceLevel :: int
  IdentRow_Blocked :: bool

record RouteRow =
  RouteRow_Priority :: int
  RouteRow_Effect :: string
  RouteRow_PathPattern :: string
  RouteRow_HostPattern :: "string option"
  RouteRow_Methods :: "string list"
  RouteRow_ScopeBindings :: string
  RouteRow_PermissionKey :: "string option"
  RouteRow_ApplicationSlug :: string

record Tx =
  Tx_isolation :: "string option"
  Tx_version :: "(int option) result"
  Tx_axes :: "(AxisRow list) result"
  Tx_nodes :: "(NodeRow list) result"
  Tx_grants :: "(GrantRow list) result"
  Tx_gscopes :: "(GrantScopeRow list) result"
  Tx_shares :: "(ShareRow list) result"
  Tx_rps :: "(RolePermissionRow list) result"
  Tx_perms :: "(PermissionRow list) result"
  Tx_idents :: "(IdentityRow list) result"
  Tx_revoked :: "duration \<Rightarrow> (string list) result"
  Tx_routes :: "(RouteRow list) result"

section \<open>Assembling\<close>

definition load_strict :: "AxisRow list \<Rightarrow> (string, bool) gomap" where
  "load_strict axes =
     foldl (\<lambda>m a. if AxisRow_DefaultEffect a = ''deny'' then map_put (AxisRow_Code a) True m else m) [] axes"

definition load_hierarchy :: "NodeRow list \<Rightarrow> ScopeNode list" where
  "load_hierarchy nodes =
     map (\<lambda>n. \<lparr>Node_ID = NodeRow_ID n,
               Node_Parent = (case NodeRow_ParentID n of None \<Rightarrow> [] | Some p \<Rightarrow> p)\<rparr>) nodes"

definition row_grant :: "GrantRow \<Rightarrow> Grant" where
  "row_grant g =
     \<lparr>Grant_ID = GrantRow_ID g, Grant_RoleID = GrantRow_RoleID g,
      Grant_SelfScoped = GrantRow_SelfScoped g, Grant_ValidFrom = GrantRow_ValidFrom g,
      Grant_ValidUntil = (case GrantRow_ValidUntil g of None \<Rightarrow> zero_time | Some v \<Rightarrow> v),
      Grant_Scopes = []\<rparr>"

definition row_constraint :: "GrantScopeRow \<Rightarrow> ScopeConstraint" where
  "row_constraint gs =
     \<lparr>SC_NodeID = GSRow_ScopeNodeID gs, SC_Inherit = GSRow_Inherit gs, SC_Exclude = GSRow_Exclude gs,
      SC_node = 0\<rparr>"

definition load_byGrant :: "GrantRow list \<Rightarrow> (string, Grant) gomap" where
  "load_byGrant grants = foldl (\<lambda>m g. map_put (GrantRow_ID g) (row_grant g) m) [] grants"

definition load_order :: "GrantRow list \<Rightarrow> (string, string) gomap" where
  "load_order grants = foldl (\<lambda>m g. map_put (GrantRow_ID g) (GrantRow_IdentityID g) m) [] grants"

definition add_scope :: "(string, Grant) gomap \<Rightarrow> GrantScopeRow \<Rightarrow> (string, Grant) gomap" where
  "add_scope byGrant gs =
     (case map_of byGrant (GSRow_GrantID gs) of
        None \<Rightarrow> byGrant
      | Some g \<Rightarrow> map_put (GSRow_GrantID gs)
          (g\<lparr>Grant_Scopes := append_at (GSRow_AxisCode gs) (row_constraint gs) (Grant_Scopes g)\<rparr>) byGrant)"

definition load_grants :: "GrantRow list \<Rightarrow> GrantScopeRow list \<Rightarrow> (string, Grant list) gomap" where
  "load_grants grants gscopes =
     (let byGrant = foldl add_scope (load_byGrant grants) gscopes;
          order = load_order grants
      in foldl (\<lambda>m e. append_at (case map_of order (fst e) of None \<Rightarrow> [] | Some who \<Rightarrow> who) (snd e) m)
           [] byGrant)"

definition row_share :: "ShareRow \<Rightarrow> Share" where
  "row_share sh =
     \<lparr>Share_Record = ShareRow_Record sh,
      Share_Permissions = foldl (\<lambda>m k. map_put k True m) [] (ShareRow_PermissionKeys sh),
      Share_ValidUntil = ShareRow_ValidUntil sh\<rparr>"

definition load_shares :: "ShareRow list \<Rightarrow> (string, Share list) gomap" where
  "load_shares shares = foldl (\<lambda>m sh. append_at (ShareRow_ToIdentityID sh) (row_share sh) m) [] shares"

definition load_rps :: "RolePermissionRow list \<Rightarrow> (string, (string, bool) gomap) gomap" where
  "load_rps rps =
     foldl (\<lambda>m rp. map_put (RPRow_RoleID rp)
              (map_put (RPRow_Key rp) True (case map_of m (RPRow_RoleID rp) of None \<Rightarrow> [] | Some k \<Rightarrow> k)) m)
       [] rps"

definition row_permission :: "PermissionRow \<Rightarrow> Permission" where
  "row_permission p =
     \<lparr>Perm_Key = PermRow_Key p, Perm_MinAssurance = PermRow_MinAssurance p,
      Perm_RequiresAMR = PermRow_RequiresAmr p, Perm_MaxAuthAgeSecs = PermRow_MaxAuthAgeSecs p,
      Perm_Risk = PermRow_Risk p\<rparr>"

definition row_identity :: "IdentityRow \<Rightarrow> Identity" where
  "row_identity i =
     \<lparr>Ident_TokenEpoch = IdentRow_TokenEpoch i,
      Ident_Blocked = (IdentRow_Blocked i \<or> IdentRow_Status i \<noteq> ''active''),
      Ident_AssuranceLevel = IdentRow_AssuranceLevel i\<rparr>"

definition row_route :: "(string \<Rightarrow> (string, string) gomap) \<Rightarrow> RouteRow \<Rightarrow> Route" where
  "row_route unmarshal r =
     \<lparr>Route_AppSlug = RouteRow_ApplicationSlug r, Route_Priority = RouteRow_Priority r,
      Route_Effect = RouteRow_Effect r, Route_PathPattern = RouteRow_PathPattern r,
      Route_HostPattern = nstr (RouteRow_HostPattern r), Route_Methods = RouteRow_Methods r,
      Route_PermissionKey = nstr (RouteRow_PermissionKey r),
      Route_ScopeBindings = unmarshal (RouteRow_ScopeBindings r)\<rparr>"

definition LoadSnapshot ::
  "(string \<Rightarrow> (string, string) gomap) \<Rightarrow> Tx option \<Rightarrow> string \<Rightarrow> string \<Rightarrow> duration \<Rightarrow> time \<Rightarrow> time \<Rightarrow> Data result" where
  "LoadSnapshot unmarshal begin_tx tenantID tenantSlug revokedWindow now1 now2 =
     (case begin_tx of None \<Rightarrow> Inl ErrInternal | Some tx \<Rightarrow>
      (case Tx_isolation tx of None \<Rightarrow> Inl ErrInternal | Some isolation \<Rightarrow>
       if isolation \<noteq> ''repeatable read'' then Inl ErrInternal else
       and_then (Tx_axes tx) (\<lambda>axes.
       and_then (Tx_nodes tx) (\<lambda>nodes.
       and_then (Tx_grants tx) (\<lambda>grants.
       and_then (Tx_gscopes tx) (\<lambda>gscopes.
       let d0 = \<lparr>Data_TenantID = tenantID, Data_TenantSlug = tenantSlug,
                 Data_Version = (case Tx_version tx of Inr (Some v) \<Rightarrow> v | _ \<Rightarrow> 0),
                 Data_LoadedAt = now1, Data_BuiltAt = now2,
                 Data_StrictAxes = load_strict axes,
                 Data_Scope = NewScopeIndex (load_hierarchy nodes),
                 Data_GrantsByIdentity = load_grants grants gscopes,
                 Data_SharesByIdentity = [], Data_RolePermissions = [], Data_Permissions = [],
                 Data_Identities = [], Data_RevokedSessions = [], Data_Routes = []\<rparr>;
           d1 = InternGrantScopes d0
       in
       and_then (Tx_shares tx) (\<lambda>shares.
       and_then (Tx_rps tx) (\<lambda>rps.
       and_then (Tx_perms tx) (\<lambda>perms.
       and_then (Tx_idents tx) (\<lambda>idents.
       and_then (Tx_revoked tx revokedWindow) (\<lambda>revoked.
       and_then (Tx_routes tx) (\<lambda>routes.
       Inr (d1\<lparr>Data_SharesByIdentity := load_shares shares,
               Data_RolePermissions := load_rps rps,
               Data_Permissions := foldl (\<lambda>m p. map_put (PermRow_Key p) (row_permission p) m) [] perms,
               Data_Identities := foldl (\<lambda>m i. map_put (IdentRow_ID i) (row_identity i) m) [] idents,
               Data_RevokedSessions := foldl (\<lambda>m r. map_put r True m) [] revoked,
               Data_Routes := map (row_route unmarshal) routes\<rparr>)))))))))))))"

section \<open>What the tables say\<close>

definition rows_of :: "('a list) result \<Rightarrow> 'a list" where
  "rows_of r = (case r of Inl e \<Rightarrow> [] | Inr xs \<Rightarrow> xs)"

definition row_covers :: "Tx \<Rightarrow> string \<Rightarrow> GrantScopeRow \<Rightarrow> bool" where
  "row_covers tx t s \<longleftrightarrow> covers (load_hierarchy (rows_of (Tx_nodes tx))) (row_constraint s) t"

definition grant_row_reaches :: "Tx \<Rightarrow> string \<Rightarrow> string \<Rightarrow> targets \<Rightarrow> time \<Rightarrow> GrantRow \<Rightarrow> bool" where
  "grant_row_reaches tx who permission targets now g \<longleftrightarrow>
     GrantRow_ValidFrom g \<le> now \<and>
     (case GrantRow_ValidUntil g of None \<Rightarrow> True | Some u \<Rightarrow> u = zero_time \<or> now < u) \<and>
     (\<exists>rp\<in>set (rows_of (Tx_rps tx)). RPRow_RoleID rp = GrantRow_RoleID g \<and> RPRow_Key rp = permission) \<and>
     (GrantRow_SelfScoped g \<longrightarrow> map_of targets ''_owner'' = Some who) \<and>
     (\<forall>axis. let ss = filter (\<lambda>s. GSRow_GrantID s = GrantRow_ID g \<and> GSRow_AxisCode s = axis) (rows_of (Tx_gscopes tx))
        in ss = [] \<or> (\<exists>t. map_of targets axis = Some t \<and> admits GSRow_Exclude (row_covers tx t) ss)) \<and>
     (\<forall>a\<in>set (rows_of (Tx_axes tx)). AxisRow_DefaultEffect a = ''deny'' \<longrightarrow>
        (\<exists>s\<in>set (rows_of (Tx_gscopes tx)). GSRow_GrantID s = GrantRow_ID g \<and> GSRow_AxisCode s = AxisRow_Code a))"

definition tables_authorise :: "Tx \<Rightarrow> string \<Rightarrow> string \<Rightarrow> targets \<Rightarrow> time \<Rightarrow> bool" where
  "tables_authorise tx who permission targets now \<longleftrightarrow>
     (\<exists>i\<in>set (rows_of (Tx_idents tx)). \<exists>p\<in>set (rows_of (Tx_perms tx)).
        IdentRow_ID i = who \<and> \<not> IdentRow_Blocked i \<and> IdentRow_Status i = ''active'' \<and>
        PermRow_Key p = permission \<and> PermRow_MinAssurance p \<le> IdentRow_AssuranceLevel i) \<and>
     ((\<exists>g\<in>set (rows_of (Tx_grants tx)). GrantRow_IdentityID g = who \<and>
         grant_row_reaches tx who permission targets now g) \<or>
      (\<exists>sh\<in>set (rows_of (Tx_shares tx)). map_of targets ''_record'' = Some (ShareRow_Record sh) \<and>
         ShareRow_ToIdentityID sh = who \<and> now < ShareRow_ValidUntil sh \<and>
         permission \<in> set (ShareRow_PermissionKeys sh)))"

text \<open>The tables' primary keys, and no more scope nodes than an \<^verbatim>\<open>int32\<close> counts.\<close>

definition tables_wf :: "Tx \<Rightarrow> bool" where
  "tables_wf tx \<longleftrightarrow>
     distinct (map NodeRow_ID (rows_of (Tx_nodes tx))) \<and> length (rows_of (Tx_nodes tx)) < 2 ^ 31 - 1 \<and>
     distinct (map GrantRow_ID (rows_of (Tx_grants tx))) \<and>
     distinct (map IdentRow_ID (rows_of (Tx_idents tx))) \<and>
     distinct (map PermRow_Key (rows_of (Tx_perms tx)))"

section \<open>The loader is faithful to them\<close>

definition axes_of :: "GrantScopeRow list \<Rightarrow> string \<Rightarrow> (string, ScopeConstraint list) gomap" where
  "axes_of gscopes gid = foldl (\<lambda>m s. append_at (GSRow_AxisCode s) (row_constraint s) m) []
     (filter (\<lambda>s. GSRow_GrantID s = gid) gscopes)"

lemma map_of_axes_of:
  "map_of (axes_of gscopes gid) axis =
     (let ss = filter (\<lambda>s. GSRow_GrantID s = gid \<and> GSRow_AxisCode s = axis) gscopes
      in if ss = [] then None else Some (map row_constraint ss))"
  by (auto simp: axes_of_def foldl_append_at Let_def filter_empty_conv conj_commute)

lemma gomap_wf_axes_of: "gomap_wf (axes_of gscopes gid)"
  unfolding axes_of_def by (rule gomap_wf_foldl) (auto intro: gomap_wf_append_at)

lemma add_scope_fold:
  "map_of (foldl add_scope m gscopes) gid =
     map_option (\<lambda>g. g\<lparr>Grant_Scopes := foldl (\<lambda>m s. append_at (GSRow_AxisCode s) (row_constraint s) m)
        (Grant_Scopes g) (filter (\<lambda>s. GSRow_GrantID s = gid) gscopes)\<rparr>) (map_of m gid)"
proof (induction gscopes arbitrary: m)
  case Nil
  then show ?case by (cases "map_of m gid") simp_all
next
  case (Cons s gscopes)
  show ?case
    by (cases "map_of m (GSRow_GrantID s)") (auto simp: Cons.IH add_scope_def [of m s] go_simps)
qed

lemma gomap_wf_add_scope: "gomap_wf m \<Longrightarrow> gomap_wf (add_scope m gs)"
  by (auto simp: add_scope_def gomap_wf_put split: option.split)

lemma load_grants_mem:
  assumes "distinct (map GrantRow_ID grants)"
  shows "g' \<in> set (lookup_list (load_grants grants gscopes) who) \<longleftrightarrow>
     (\<exists>g\<in>set grants. GrantRow_IdentityID g = who \<and>
        g' = (row_grant g)\<lparr>Grant_Scopes := axes_of gscopes (GrantRow_ID g)\<rparr>)"
proof -
  let ?m = "foldl add_scope (load_byGrant grants) gscopes"
  have wf: "gomap_wf ?m"
    by (rule gomap_wf_foldl) (auto intro: gomap_wf_add_scope gomap_wf_foldl gomap_wf_put simp: load_byGrant_def)
  have m: "(gid, h) \<in> set ?m \<longleftrightarrow> (\<exists>g\<in>set grants. GrantRow_ID g = gid \<and>
      h = (row_grant g)\<lparr>Grant_Scopes := axes_of gscopes gid\<rparr>)" for gid h
  proof -
    have "(gid, h) \<in> set ?m \<longleftrightarrow> map_of ?m gid = Some h"
      using wf by (simp add: gomap_wf_def)
    also have "\<dots> \<longleftrightarrow> (\<exists>g0. map_of (load_byGrant grants) gid = Some g0 \<and>
        h = g0\<lparr>Grant_Scopes := foldl (\<lambda>m s. append_at (GSRow_AxisCode s) (row_constraint s) m)
            (Grant_Scopes g0) (filter (\<lambda>s. GSRow_GrantID s = gid) gscopes)\<rparr>)"
      unfolding add_scope_fold by auto
    also have "\<dots> \<longleftrightarrow> (\<exists>g\<in>set grants. GrantRow_ID g = gid \<and> h = (row_grant g)\<lparr>Grant_Scopes := axes_of gscopes gid\<rparr>)"
      unfolding load_byGrant_def foldl_put_mem [OF assms] axes_of_def by (auto simp: row_grant_def)
    finally show ?thesis .
  qed
  have ord: "(case map_of (load_order grants) (GrantRow_ID g) of None \<Rightarrow> [] | Some w \<Rightarrow> w) = GrantRow_IdentityID g"
    if "g \<in> set grants" for g
    using foldl_put_mem [OF assms, of GrantRow_IdentityID "GrantRow_ID g" "GrantRow_IdentityID g"] that
    by (auto simp: load_order_def)
  have "g' \<in> set (lookup_list (load_grants grants gscopes) who) \<longleftrightarrow>
      (\<exists>gid. (gid, g') \<in> set ?m \<and> (case map_of (load_order grants) gid of None \<Rightarrow> [] | Some w \<Rightarrow> w) = who)"
    unfolding load_grants_def Let_def lookup_foldl_append_at by force
  then show ?thesis unfolding m using ord by auto
qed

lemma load_strict_keys:
  "fst ` set (load_strict axes) = AxisRow_Code ` {a\<in>set axes. AxisRow_DefaultEffect a = ''deny''}"
proof -
  have "fst ` set (foldl (\<lambda>m a. if P a then map_put (k a) True m else m) m axes) =
      fst ` set m \<union> k ` {a\<in>set axes. P a}" for P m and k :: "AxisRow \<Rightarrow> string"
    by (induction axes arbitrary: m) (auto simp: map_put_def image_iff)
  then show ?thesis by (simp add: load_strict_def)
qed

lemma load_rps_flag:
  "(case map_of (load_rps rps) role of None \<Rightarrow> False | Some m \<Rightarrow> flag m key) \<longleftrightarrow>
     (\<exists>rp\<in>set rps. RPRow_RoleID rp = role \<and> RPRow_Key rp = key)"
proof -
  let ?f = "\<lambda>m rp. map_put (RPRow_RoleID rp)
      (map_put (RPRow_Key rp) True (case map_of m (RPRow_RoleID rp) of None \<Rightarrow> [] | Some k \<Rightarrow> k)) m"
  have "(case map_of (foldl ?f m rps) role of None \<Rightarrow> False | Some m \<Rightarrow> flag m key) \<longleftrightarrow>
      (case map_of m role of None \<Rightarrow> False | Some m \<Rightarrow> flag m key) \<or>
      (\<exists>rp\<in>set rps. RPRow_RoleID rp = role \<and> RPRow_Key rp = key)" for m
    by (induction rps arbitrary: m) (auto simp: go_simps split: option.splits)
  then show ?thesis by (simp add: load_rps_def)
qed

lemma load_hierarchy_ids: "map Node_ID (load_hierarchy nodes) = map NodeRow_ID nodes"
  by (simp add: load_hierarchy_def)

text \<open>The state, before its constraints are interned, holds the rows.\<close>

definition assembled_from :: "Tx \<Rightarrow> Data \<Rightarrow> bool" where
  "assembled_from tx d0 \<longleftrightarrow>
     Data_StrictAxes d0 = load_strict (rows_of (Tx_axes tx)) \<and>
     Data_Scope d0 = NewScopeIndex (load_hierarchy (rows_of (Tx_nodes tx))) \<and>
     Data_GrantsByIdentity d0 = load_grants (rows_of (Tx_grants tx)) (rows_of (Tx_gscopes tx)) \<and>
     Data_SharesByIdentity d0 = load_shares (rows_of (Tx_shares tx)) \<and>
     Data_RolePermissions d0 = load_rps (rows_of (Tx_rps tx)) \<and>
     Data_Permissions d0 = foldl (\<lambda>m p. map_put (PermRow_Key p) (row_permission p) m) [] (rows_of (Tx_perms tx)) \<and>
     Data_Identities d0 = foldl (\<lambda>m i. map_put (IdentRow_ID i) (row_identity i) m) [] (rows_of (Tx_idents tx))"

lemma LoadSnapshot_assembled:
  assumes "LoadSnapshot unmarshal (Some tx) tenantID slug window now1 now2 = Inr d"
  shows "\<exists>d0. d = InternGrantScopes d0 \<and> assembled_from tx d0"
proof -
  from assms obtain axes nodes grants gscopes shares rps perms idents revoked routes where
    q: "Tx_axes tx = Inr axes" "Tx_nodes tx = Inr nodes" "Tx_grants tx = Inr grants" "Tx_gscopes tx = Inr gscopes"
      "Tx_shares tx = Inr shares" "Tx_rps tx = Inr rps" "Tx_perms tx = Inr perms" "Tx_idents tx = Inr idents"
    and "Tx_revoked tx window = Inr revoked" "Tx_routes tx = Inr routes"
    by (auto simp: LoadSnapshot_def Let_def and_then_Inr split: option.splits if_splits)
  let ?d0 = "\<lparr>Data_TenantID = tenantID, Data_TenantSlug = slug,
                 Data_Version = (case Tx_version tx of Inr (Some v) \<Rightarrow> v | _ \<Rightarrow> 0),
                 Data_LoadedAt = now1, Data_BuiltAt = now2,
                 Data_StrictAxes = load_strict axes,
                 Data_Scope = NewScopeIndex (load_hierarchy nodes),
                 Data_GrantsByIdentity = load_grants grants gscopes,
                 Data_SharesByIdentity = load_shares shares, Data_RolePermissions = load_rps rps,
                 Data_Permissions = foldl (\<lambda>m p. map_put (PermRow_Key p) (row_permission p) m) [] perms,
                 Data_Identities = foldl (\<lambda>m i. map_put (IdentRow_ID i) (row_identity i) m) [] idents,
                 Data_RevokedSessions = foldl (\<lambda>m r. map_put r True m) [] revoked,
                 Data_Routes = map (row_route unmarshal) routes\<rparr>"
  have "d = InternGrantScopes ?d0"
    using assms q \<open>Tx_revoked tx window = Inr revoked\<close> \<open>Tx_routes tx = Inr routes\<close>
    by (auto simp: LoadSnapshot_def Let_def and_then_Inr InternGrantScopes_def split: option.splits if_splits)
  moreover have "assembled_from tx ?d0" using q by (simp add: assembled_from_def rows_of_def)
  ultimately show ?thesis by blast
qed

lemma load_grants_entry:
  assumes "distinct (map GrantRow_ID gr)" and e: "e \<in> set (load_grants gr gs)" and h: "h \<in> set (snd e)"
  shows "\<exists>g\<in>set gr. h = (row_grant g)\<lparr>Grant_Scopes := axes_of gs (GrantRow_ID g)\<rparr>"
proof -
  have "gomap_wf (load_grants gr gs)"
    unfolding load_grants_def Let_def by (rule gomap_wf_foldl) (auto intro: gomap_wf_append_at)
  with e have "map_of (load_grants gr gs) (fst e) = Some (snd e)" by (simp add: gomap_wf_def)
  with h have "h \<in> set (lookup_list (load_grants gr gs) (fst e))" by (simp add: lookup_list_def)
  then show ?thesis using load_grants_mem [OF assms(1)] by blast
qed

lemma assembled_wf:
  assumes "assembled_from tx d0" and "tables_wf tx"
  shows "state_wf (load_hierarchy (rows_of (Tx_nodes tx))) d0"
proof -
  let ?gr = "rows_of (Tx_grants tx)" and ?gs = "rows_of (Tx_gscopes tx)"
  have "rows_wf (load_hierarchy (rows_of (Tx_nodes tx)))"
    using assms(2) by (simp add: rows_wf_def tables_wf_def load_hierarchy_ids) (simp add: load_hierarchy_def)
  moreover have "grant_wf g" if e: "e \<in> set (load_grants ?gr ?gs)" and g: "g \<in> set (snd e)" for e g
  proof -
    obtain gid where "Grant_Scopes g = axes_of ?gs gid"
      using load_grants_entry [OF _ e g] assms(2) by (auto simp: tables_wf_def)
    moreover have "fresh cs" if "(a, cs) \<in> set (axes_of ?gs gid)" for a cs
    proof -
      have "map_of (axes_of ?gs gid) a = Some cs"
        using that gomap_wf_axes_of [of ?gs gid] by (simp add: gomap_wf_def)
      then show ?thesis
        by (auto simp: map_of_axes_of Let_def fresh_def row_constraint_def split: if_splits)
    qed
    ultimately show ?thesis by (auto simp: grant_wf_def gomap_wf_axes_of)
  qed
  ultimately show ?thesis using assms(1) by (auto simp: state_wf_def assembled_from_def)
qed

lemma admits_rows:
  "admits SC_Exclude (\<lambda>c. covers h c t) (map row_constraint ss) =
   admits GSRow_Exclude (\<lambda>s. covers h (row_constraint s) t) ss"
  by (simp add: admits_def row_constraint_def)

lemma assembled_grant:
  assumes "assembled_from tx d0"
  shows "grant_reaches (load_hierarchy (rows_of (Tx_nodes tx))) d0 who permission targets now
       ((row_grant g)\<lparr>Grant_Scopes := axes_of (rows_of (Tx_gscopes tx)) (GrantRow_ID g)\<rparr>) \<longleftrightarrow>
     grant_row_reaches tx who permission targets now g"
proof -
  let ?gs = "rows_of (Tx_gscopes tx)"
  have strict: "fst ` set (Data_StrictAxes d0) \<subseteq> dom (map_of (axes_of ?gs (GrantRow_ID g))) \<longleftrightarrow>
      (\<forall>a\<in>set (rows_of (Tx_axes tx)). AxisRow_DefaultEffect a = ''deny'' \<longrightarrow>
        (\<exists>s\<in>set ?gs. GSRow_GrantID s = GrantRow_ID g \<and> GSRow_AxisCode s = AxisRow_Code a))"
    using assms by (auto simp: assembled_from_def load_strict_keys map_of_axes_of dom_def Let_def filter_empty_conv)
  have axes: "(\<forall>axis cs. map_of (axes_of ?gs (GrantRow_ID g)) axis = Some cs \<longrightarrow>
        (\<exists>t. map_of targets axis = Some t \<and>
           admits SC_Exclude (\<lambda>c. covers (load_hierarchy (rows_of (Tx_nodes tx))) c t) cs)) \<longleftrightarrow>
      (\<forall>axis. let ss = filter (\<lambda>s. GSRow_GrantID s = GrantRow_ID g \<and> GSRow_AxisCode s = axis) ?gs
        in ss = [] \<or> (\<exists>t. map_of targets axis = Some t \<and> admits GSRow_Exclude (row_covers tx t) ss))"
    by (simp add: map_of_axes_of Let_def admits_rows row_covers_def [abs_def]) blast
  have role: "role_has d0 r permission \<longleftrightarrow>
      (\<exists>rp\<in>set (rows_of (Tx_rps tx)). RPRow_RoleID rp = r \<and> RPRow_Key rp = permission)" for r
    using assms load_rps_flag by (simp add: role_has_def assembled_from_def)
  have until: "(Grant_ValidUntil (row_grant g) = zero_time \<or> now < Grant_ValidUntil (row_grant g)) \<longleftrightarrow>
      (case GrantRow_ValidUntil g of None \<Rightarrow> True | Some u \<Rightarrow> u = zero_time \<or> now < u)"
    by (simp add: row_grant_def split: option.split)
  show ?thesis
    unfolding grant_reaches_def grant_row_reaches_def Grant.simps strict [symmetric] axes [symmetric] role [symmetric] until [symmetric]
    by (auto simp: row_grant_def)
qed

lemma assembled_authorised:
  assumes a: "assembled_from tx d0" and wf: "tables_wf tx"
  shows "authorised (load_hierarchy (rows_of (Tx_nodes tx))) d0 who permission targets now \<longleftrightarrow>
     tables_authorise tx who permission targets now"
proof -
  have act: "may_act d0 who permission \<longleftrightarrow>
     (\<exists>i\<in>set (rows_of (Tx_idents tx)). \<exists>p\<in>set (rows_of (Tx_perms tx)).
        IdentRow_ID i = who \<and> \<not> IdentRow_Blocked i \<and> IdentRow_Status i = ''active'' \<and>
        PermRow_Key p = permission \<and> PermRow_MinAssurance p \<le> IdentRow_AssuranceLevel i)"
  proof -
    have I: "map_of (Data_Identities d0) who = Some x \<longleftrightarrow>
        (\<exists>i\<in>set (rows_of (Tx_idents tx)). IdentRow_ID i = who \<and> row_identity i = x)" for x
      using a wf by (simp add: assembled_from_def tables_wf_def foldl_put_mem)
    have P: "map_of (Data_Permissions d0) permission = Some x \<longleftrightarrow>
        (\<exists>p\<in>set (rows_of (Tx_perms tx)). PermRow_Key p = permission \<and> row_permission p = x)" for x
      using a wf by (simp add: assembled_from_def tables_wf_def foldl_put_mem)
    have sel: "Ident_Blocked (row_identity i) \<longleftrightarrow> IdentRow_Blocked i \<or> IdentRow_Status i \<noteq> ''active''"
      "Ident_AssuranceLevel (row_identity i) = IdentRow_AssuranceLevel i"
      "Perm_MinAssurance (row_permission p) = PermRow_MinAssurance p" for i p
      by (simp_all add: row_identity_def row_permission_def)
    show ?thesis unfolding may_act_def I P by (auto simp: sel) (metis sel)+
  qed
  have grants: "(\<exists>g\<in>set (lookup_list (Data_GrantsByIdentity d0) who).
        grant_reaches (load_hierarchy (rows_of (Tx_nodes tx))) d0 who permission targets now g) \<longleftrightarrow>
     (\<exists>g\<in>set (rows_of (Tx_grants tx)). GrantRow_IdentityID g = who \<and> grant_row_reaches tx who permission targets now g)"
  proof -
    have mem: "h \<in> set (lookup_list (Data_GrantsByIdentity d0) who) \<longleftrightarrow>
        (\<exists>g\<in>set (rows_of (Tx_grants tx)). GrantRow_IdentityID g = who \<and>
           h = (row_grant g)\<lparr>Grant_Scopes := axes_of (rows_of (Tx_gscopes tx)) (GrantRow_ID g)\<rparr>)" for h
      using a wf load_grants_mem by (simp add: assembled_from_def tables_wf_def)
    show ?thesis
      unfolding Bex_def mem [unfolded Bex_def] using assembled_grant [OF a] by auto
  qed
  have shares: "share_reaches d0 who permission targets now \<longleftrightarrow>
      (\<exists>sh\<in>set (rows_of (Tx_shares tx)). map_of targets ''_record'' = Some (ShareRow_Record sh) \<and>
         ShareRow_ToIdentityID sh = who \<and> now < ShareRow_ValidUntil sh \<and>
         permission \<in> set (ShareRow_PermissionKeys sh))"
    using a by (auto simp: share_reaches_def assembled_from_def load_shares_def lookup_foldl_append_at
        row_share_def flag_foldl_put)
  show ?thesis unfolding authorised_def tables_authorise_def act grants shares ..
qed

text \<open>C2. The gate decides what the tables say: on a snapshot loaded from the tenant's rows, the
  in-memory evaluator allows a subject a permission at the given targets exactly when the rows do:
  an active identity with the permission's assurance, and either a live grant whose role
  confers the permission, whose every limited axis has a target that some include row covers
  and no exclude row covers, and which limits every deny-by-default axis; or a live share of
  the named record that lists the permission.\<close>

theorem evaluate_decides_tables:
  assumes "LoadSnapshot unmarshal (Some tx) tenantID slug window now1 now2 = Inr d" and "tables_wf tx"
  shows "Evaluate d who permission targets now \<longleftrightarrow> tables_authorise tx who permission targets now"
proof -
  from LoadSnapshot_assembled [OF assms(1)] obtain d0 where d: "d = InternGrantScopes d0" "assembled_from tx d0"
    by blast
  show ?thesis
    unfolding d(1) Evaluate_authorised [OF assembled_wf [OF d(2) assms(2)]]
    by (rule assembled_authorised [OF d(2) assms(2)])
qed

definition demo_tx :: Tx where
  "demo_tx =
     \<lparr>Tx_isolation = Some ''repeatable read'', Tx_version = Inr (Some 7),
      Tx_axes = Inr [\<lparr>AxisRow_Code = ''place'', AxisRow_DefaultEffect = ''deny''\<rparr>],
      Tx_nodes = Inr [\<lparr>NodeRow_ID = ''shop'', NodeRow_ParentID = Some ''city''\<rparr>,
                      \<lparr>NodeRow_ID = ''kiosk'', NodeRow_ParentID = Some ''city''\<rparr>,
                      \<lparr>NodeRow_ID = ''city'', NodeRow_ParentID = None\<rparr>],
      Tx_grants = Inr [\<lparr>GrantRow_ID = ''g1'', GrantRow_IdentityID = ''alice'', GrantRow_RoleID = ''clerk'',
                        GrantRow_SelfScoped = False, GrantRow_ValidFrom = 0, GrantRow_ValidUntil = None\<rparr>],
      Tx_gscopes = Inr [\<lparr>GSRow_GrantID = ''g1'', GSRow_AxisCode = ''place'', GSRow_ScopeNodeID = ''city'',
                         GSRow_Inherit = True, GSRow_Exclude = False\<rparr>,
                        \<lparr>GSRow_GrantID = ''g1'', GSRow_AxisCode = ''place'', GSRow_ScopeNodeID = ''kiosk'',
                         GSRow_Inherit = False, GSRow_Exclude = True\<rparr>],
      Tx_shares = Inr [], Tx_rps = Inr [\<lparr>RPRow_RoleID = ''clerk'', RPRow_Key = ''sale''\<rparr>],
      Tx_perms = Inr [\<lparr>PermRow_Key = ''sale'', PermRow_Risk = ''low'', PermRow_MinAssurance = 1,
                        PermRow_RequiresAmr = [], PermRow_MaxAuthAgeSecs = 0\<rparr>],
      Tx_idents = Inr [\<lparr>IdentRow_ID = ''alice'', IdentRow_TokenEpoch = 0, IdentRow_Status = ''active'',
                         IdentRow_AssuranceLevel = 1, IdentRow_Blocked = False\<rparr>],
      Tx_revoked = (\<lambda>_. Inr []), Tx_routes = Inr []\<rparr>"

definition demo_data :: Data where
  "demo_data = projr (LoadSnapshot (\<lambda>_. []) (Some demo_tx) ''t'' ''acme'' 0 5 5)"

theorem evaluate_decides_tables_witness:
  "tables_authorise demo_tx ''alice'' ''sale'' [(''place'', ''shop'')] 10 \<and>
   \<not> tables_authorise demo_tx ''alice'' ''sale'' [(''place'', ''kiosk'')] 10"
proof -
  have load: "LoadSnapshot (\<lambda>_. []) (Some demo_tx) ''t'' ''acme'' 0 5 5 = Inr demo_data"
    by (simp add: demo_data_def demo_tx_def LoadSnapshot_def Let_def)
  have wf: "tables_wf demo_tx" by (simp add: tables_wf_def demo_tx_def rows_of_def)
  have "Evaluate demo_data ''alice'' ''sale'' [(''place'', ''shop'')] 10" by code_simp
  moreover have "\<not> Evaluate demo_data ''alice'' ''sale'' [(''place'', ''kiosk'')] 10" by code_simp
  ultimately show ?thesis
    using evaluate_decides_tables [OF load wf] by simp
qed

section \<open>Listing agrees with deciding\<close>

text \<open>Scope node ids are UUIDs, and migration 0010's trigger refuses a scope row on a
  self-scoped grant.\<close>

definition tables_plain :: "Tx \<Rightarrow> bool" where
  "tables_plain tx \<longleftrightarrow> (\<forall>s\<in>set (rows_of (Tx_gscopes tx)). plain_id (GSRow_ScopeNodeID s) \<and>
     (\<forall>g\<in>set (rows_of (Tx_grants tx)). GrantRow_SelfScoped g \<longrightarrow> GSRow_GrantID s \<noteq> GrantRow_ID g))"

lemma axes_of_plain:
  assumes "tables_plain tx" and "(a, cs) \<in> set (axes_of (rows_of (Tx_gscopes tx)) gid)" and "c \<in> set cs"
  shows "plain_id (SC_NodeID c)"
proof -
  have "map_of (axes_of (rows_of (Tx_gscopes tx)) gid) a = Some cs"
    using assms(2) gomap_wf_axes_of [of "rows_of (Tx_gscopes tx)" gid] by (simp add: gomap_wf_def)
  then show ?thesis
    using assms(1,3) by (auto simp: map_of_axes_of Let_def tables_plain_def row_constraint_def split: if_splits)
qed

lemma assembled_plain:
  assumes a: "assembled_from tx d0" and wf: "tables_wf tx" and pl: "tables_plain tx"
  shows "plain_state d0"
proof -
  have "plain_grant h \<and> (Grant_SelfScoped h \<longrightarrow> Grant_Scopes h = [])"
    if e: "e \<in> set (Data_GrantsByIdentity d0)" and h: "h \<in> set (snd e)" for e h
  proof -
    have "distinct (map GrantRow_ID (rows_of (Tx_grants tx)))" using wf by (simp add: tables_wf_def)
    moreover have "e \<in> set (load_grants (rows_of (Tx_grants tx)) (rows_of (Tx_gscopes tx)))"
      using a e by (simp add: assembled_from_def)
    ultimately obtain g where g: "g \<in> set (rows_of (Tx_grants tx))"
      "h = (row_grant g)\<lparr>Grant_Scopes := axes_of (rows_of (Tx_gscopes tx)) (GrantRow_ID g)\<rparr>"
      using load_grants_entry [OF _ _ h] by blast
    have "axes_of (rows_of (Tx_gscopes tx)) (GrantRow_ID g) = []" if "GrantRow_SelfScoped g"
    proof -
      have "filter (\<lambda>s. GSRow_GrantID s = GrantRow_ID g) (rows_of (Tx_gscopes tx)) = []"
        using that g(1) pl by (auto simp: tables_plain_def filter_empty_conv)
      then show ?thesis by (simp add: axes_of_def)
    qed
    then show ?thesis
      using axes_of_plain [OF pl] by (auto simp: g(2) plain_grant_def row_grant_def)
  qed
  then show ?thesis by (auto simp: plain_state_def)
qed

text \<open>C5. The list of places and the decision agree, in both directions. On a loaded snapshot, for an axis of places (any but the
  two reserved names \<^verbatim>\<open>_owner\<close> and \<^verbatim>\<open>_record\<close>) and whatever other targets are fixed: a subject asking about a place is
  allowed exactly when \<^verbatim>\<open>GrantedNodes\<close> answered everywhere, or own records and the fixed owner is the subject, or a listed node
  that reaches the place and whose exceptions do not, or, beside the list, a record is named and a live share opens it to the
  subject for the permission. The list speaks of grants only, so a share is the one way to be allowed at a place that is not listed. This
  rests on the keys of the tables (\<open>tables_wf\<close>) and on \<open>tables_plain\<close>: ids of places are uuids, free of the two
  characters the list's keys are built with, and a grant of one's own records has no scope rows (the trigger of migration 0010).\<close>

theorem granted_nodes_exact:
  assumes "LoadSnapshot unmarshal (Some tx) tenantID slug window now1 now2 = Inr d"
    and "tables_wf tx" and "tables_plain tx"
    and "axis \<noteq> ''_owner''" and "axis \<noteq> ''_record''"
    and "out = fst (GrantedNodes d who permission axis fixed now)"
  shows "Evaluate d who permission (map_put axis t fixed) now \<longleftrightarrow>
     Nodes_Everywhere out \<or> (Nodes_OwnRecords out \<and> map_of fixed ''_owner'' = Some who) \<or>
     (\<exists>n\<in>set (Nodes_Nodes out). node_lists (load_hierarchy (rows_of (Tx_nodes tx))) n t) \<or>
     may_act d who permission \<and> (\<exists>record. map_of fixed ''_record'' = Some record \<and> sharedRecordAllows d who permission record now)"
proof -
  from LoadSnapshot_assembled [OF assms(1)] obtain d0 where d: "d = InternGrantScopes d0" "assembled_from tx d0"
    by blast
  have "share_reaches d0 who permission fixed now \<longleftrightarrow>
      (\<exists>record. map_of fixed ''_record'' = Some record \<and> sharedRecordAllows d who permission record now)"
    by (auto simp: share_reaches_def sharedRecordAllows_def list_ex_iff After_def d(1))
  then show ?thesis
    using GrantedNodes_exact [OF assembled_wf [OF d(2) assms(2)] assembled_plain [OF d(2) assms(2,3)] assms(4,5)]
      assms(6) by (simp add: d(1))
qed

theorem granted_nodes_exact_witness:
  "Nodes_Nodes (fst (GrantedNodes demo_data ''alice'' ''sale'' ''place'' [] 10)) =
     [Node ''city'' True [Node ''kiosk'' False []]] \<and>
   node_lists (load_hierarchy (rows_of (Tx_nodes demo_tx))) (Node ''city'' True [Node ''kiosk'' False []]) ''shop''"
proof -
  let ?out = "fst (GrantedNodes demo_data ''alice'' ''sale'' ''place'' [] 10)"
  have load: "LoadSnapshot (\<lambda>_. []) (Some demo_tx) ''t'' ''acme'' 0 5 5 = Inr demo_data"
    by (simp add: demo_data_def demo_tx_def LoadSnapshot_def Let_def)
  have wf: "tables_wf demo_tx" by (simp add: tables_wf_def demo_tx_def rows_of_def)
  have pl: "tables_plain demo_tx" by code_simp
  have out: "?out = \<lparr>Nodes_Everywhere = False, Nodes_OwnRecords = False,
      Nodes_Nodes = [Node ''city'' True [Node ''kiosk'' False []]], Nodes_AsOf = 5\<rparr>" by code_simp
  have "Evaluate demo_data ''alice'' ''sale'' (map_put ''place'' ''shop'' []) 10" by code_simp
  with granted_nodes_exact [OF load wf pl _ _ refl, where axis = "''place''" and fixed = "[]" and who = "''alice''" and permission = "''sale''"
      and t = "''shop''" and now = 10] out
  show ?thesis by simp
qed

end
