(* ===== verification/Base64_Url.thy ===== *)
theory Base64_Url
  imports Go_Prelude
begin

text \<open>
  \<^verbatim>\<open>encoding/base64.RawURLEncoding\<close>, with and without \<^verbatim>\<open>Strict()\<close>: the encoding every token
  of the service is carried in. The decoder skips carriage returns and line feeds, and only the
  strict one refuses non-zero trailing bits, which is what the uniqueness lemma is about.
\<close>

section \<open>Alphabet\<close>

definition b64_char :: "nat \<Rightarrow> char" where
  "b64_char n = char_of
     (if n < 26 then n + 65 else if n < 52 then n + 71 else if n < 62 then n - 4 else if n = 62 then 45 else 95)"

definition b64_val :: "char \<Rightarrow> nat option" where
  "b64_val c =
     (let b = byte_of c in
      if 65 \<le> b \<and> b \<le> 90 then Some (b - 65)
      else if 97 \<le> b \<and> b \<le> 122 then Some (b - 71)
      else if 48 \<le> b \<and> b \<le> 57 then Some (b + 4)
      else if b = 45 then Some 62
      else if b = 95 then Some 63
      else None)"

lemma byte_of_char_of [simp]: "n < 256 \<Longrightarrow> byte_of (char_of n) = n"
  by (simp add: byte_of_def)

lemma char_of_byte_of [simp]: "char_of (byte_of c) = c"
  by (simp add: byte_of_def)

lemma byte_of_less [simp]: "byte_of c < 256"
  by (simp add: byte_of_def)

lemma byte_of_inj: "byte_of a = byte_of b \<longleftrightarrow> a = b"
  by (metis char_of_byte_of)

lemma b64_val_char [simp]: "n < 64 \<Longrightarrow> b64_val (b64_char n) = Some n"
  by (auto simp: b64_val_def b64_char_def Let_def)

lemma b64_char_val: "b64_val c = Some n \<Longrightarrow> n < 64 \<and> b64_char n = c"
  unfolding b64_val_def b64_char_def Let_def
  by (auto split: if_splits simp flip: byte_of_inj)

definition newline :: "char \<Rightarrow> bool" where
  "newline c \<longleftrightarrow> byte_of c = 10 \<or> byte_of c = 13"

lemma b64_char_not_newline [simp]: "n < 64 \<Longrightarrow> \<not> newline (b64_char n)"
  by (auto simp: newline_def b64_char_def)

lemma b64_char_not_dot: "n < 64 \<Longrightarrow> b64_char n \<noteq> CHR ''.''"
proof
  assume n: "n < 64" and "b64_char n = CHR ''.''"
  then have "byte_of (b64_char n) = 46" by (simp add: byte_of_def)
  with n show False by (auto simp: b64_char_def split: if_splits)
qed

section \<open>Sextets\<close>

fun enc_sextets :: "nat list \<Rightarrow> nat list" where
  "enc_sextets (a # b # c # r) =
     [a div 4, (a mod 4) * 16 + b div 16, (b mod 16) * 4 + c div 64, c mod 64] @ enc_sextets r"
| "enc_sextets [a, b] = [a div 4, (a mod 4) * 16 + b div 16, (b mod 16) * 4]"
| "enc_sextets [a] = [a div 4, (a mod 4) * 16]"
| "enc_sextets [] = []"

fun dec_sextets :: "bool \<Rightarrow> nat list \<Rightarrow> nat list option" where
  "dec_sextets strict (p # q # r # s # rest) =
     map_option (\<lambda>t. [p * 4 + q div 16, (q mod 16) * 16 + r div 4, (r mod 4) * 64 + s] @ t) (dec_sextets strict rest)"
| "dec_sextets strict [p, q, r] =
     (if strict \<and> r mod 4 \<noteq> 0 then None else Some [p * 4 + q div 16, (q mod 16) * 16 + r div 4])"
| "dec_sextets strict [p, q] = (if strict \<and> q mod 16 \<noteq> 0 then None else Some [p * 4 + q div 16])"
| "dec_sextets strict [p] = None"
| "dec_sextets strict [] = Some []"

lemma enc_sextets_range: "\<forall>x\<in>set bs. x < 256 \<Longrightarrow> \<forall>s\<in>set (enc_sextets bs). s < 64"
  by (induction bs rule: enc_sextets.induct) auto

lemma dec_sextets_range: "dec_sextets strict ss = Some bs \<Longrightarrow> \<forall>s\<in>set ss. s < 64 \<Longrightarrow> \<forall>x\<in>set bs. x < 256"
  by (induction strict ss arbitrary: bs rule: dec_sextets.induct) (auto split: if_splits)

lemma split_digit: "y < k \<Longrightarrow> (x * k + y) div k = (x::nat)" "y < k \<Longrightarrow> (x * k + y) mod k = (y::nat)"
  by simp_all

lemma quad_dec:
  fixes a b c :: nat
  assumes "a < 256" "b < 256" "c < 256"
  shows "a div 4 * 4 + (a mod 4 * 16 + b div 16) div 16 = a"
    and "(a mod 4 * 16 + b div 16) mod 16 * 16 + (b mod 16 * 4 + c div 64) div 4 = b"
    and "(b mod 16 * 4 + c div 64) mod 4 * 64 + c mod 64 = c"
proof -
  have b: "b div 16 < 16" and c: "c div 64 < 4" using assms by auto
  show "a div 4 * 4 + (a mod 4 * 16 + b div 16) div 16 = a"
    unfolding split_digit(1) [OF b] by simp
  show "(a mod 4 * 16 + b div 16) mod 16 * 16 + (b mod 16 * 4 + c div 64) div 4 = b"
    unfolding split_digit(1) [OF c] split_digit(2) [OF b] by simp
  show "(b mod 16 * 4 + c div 64) mod 4 * 64 + c mod 64 = c"
    unfolding split_digit(2) [OF c] by simp
qed

lemma dec_enc: "\<forall>x\<in>set bs. x < 256 \<Longrightarrow> dec_sextets strict (enc_sextets bs) = Some bs"
proof (induction bs rule: enc_sextets.induct)
  case (1 a b c r)
  then show ?case using quad_dec [of a b c] by simp
next
  case (2 a b)
  then show ?case using quad_dec [of a b 0] by simp
next
  case (3 a)
  then show ?case using quad_dec [of a 0 0] by simp
qed simp

lemma quad_enc:
  fixes p q r s :: nat
  assumes "p < 64" "q < 64" "r < 64" "s < 64"
  shows "(p * 4 + q div 16) div 4 = p"
    and "(p * 4 + q div 16) mod 4 * 16 + (q mod 16 * 16 + r div 4) div 16 = q"
    and "(q mod 16 * 16 + r div 4) mod 16 * 4 + (r mod 4 * 64 + s) div 64 = r"
    and "(r mod 4 * 64 + s) mod 64 = s"
proof -
  have q: "q div 16 < 4" and r: "r div 4 < 16" using assms by auto
  show "(p * 4 + q div 16) div 4 = p" by (rule split_digit(1) [OF q])
  show "(p * 4 + q div 16) mod 4 * 16 + (q mod 16 * 16 + r div 4) div 16 = q"
    unfolding split_digit(1) [OF r] split_digit(2) [OF q] by simp
  show "(q mod 16 * 16 + r div 4) mod 16 * 4 + (r mod 4 * 64 + s) div 64 = r"
    unfolding split_digit(1) [OF assms(4)] split_digit(2) [OF r] by simp
  show "(r mod 4 * 64 + s) mod 64 = s" by (rule split_digit(2) [OF assms(4)])
qed

lemma enc_dec:
  assumes "dec_sextets True ss = Some bs" and "\<forall>s\<in>set ss. s < 64"
  shows "enc_sextets bs = ss"
  using assms
proof (induction "True" ss arbitrary: bs rule: dec_sextets.induct)
  case (1 p q r s rest)
  then show ?case using quad_enc [of p q r s] by auto
next
  case (2 p q r)
  then have "r mod 4 = 0" by (auto split: if_splits)
  with 2 show ?case using quad_enc [of p q r 0] by auto
next
  case (3 p q)
  then have "q mod 16 = 0" by (auto split: if_splits)
  with 3 show ?case using quad_enc [of p q 0 0] by auto
qed auto

section \<open>Strings\<close>

definition EncodeToString :: "string \<Rightarrow> string" where
  "EncodeToString s = map b64_char (enc_sextets (map byte_of s))"

definition DecodeString :: "bool \<Rightarrow> string \<Rightarrow> string option" where
  "DecodeString strict s =
     (case those (map b64_val (filter (\<lambda>c. \<not> newline c) s)) of
        None \<Rightarrow> None
      | Some ss \<Rightarrow> map_option (map char_of) (dec_sextets strict ss))"

lemma those_map_Some: "those (map Some xs) = Some xs"
  by (induction xs) auto

lemma those_map: "\<forall>x\<in>set xs. f x = Some (g x) \<Longrightarrow> those (map f xs) = Some (map g xs)"
  by (induction xs) auto

lemma those_Some_iff: "those xs = Some ys \<longleftrightarrow> xs = map Some ys"
proof (induction xs arbitrary: ys)
  case (Cons x xs)
  then show ?case by (cases x; cases ys) auto
qed auto

lemma decode_encode [simp]: "DecodeString strict (EncodeToString s) = Some s"
proof -
  let ?ss = "enc_sextets (map byte_of s)"
  have r: "\<forall>n\<in>set ?ss. n < 64" by (rule enc_sextets_range) simp
  then have f: "filter (\<lambda>c. \<not> newline c) (map b64_char ?ss) = map b64_char ?ss"
    by (auto intro!: filter_True)
  have "those (map b64_val (map b64_char ?ss)) = Some (map (\<lambda>n. n) ?ss)"
    unfolding map_map by (rule those_map) (use r in simp)
  then show ?thesis
    unfolding EncodeToString_def DecodeString_def f by (simp add: dec_enc map_idI)
qed

lemma encode_decode:
  assumes "DecodeString True t = Some s"
  shows "filter (\<lambda>c. \<not> newline c) t = EncodeToString s"
proof -
  let ?t = "filter (\<lambda>c. \<not> newline c) t"
  from assms obtain ss bs where ss: "map b64_val ?t = map Some ss" and bs: "dec_sextets True ss = Some bs"
    and s: "s = map char_of bs"
    by (auto simp: DecodeString_def those_Some_iff split: option.splits)
  have len: "length ss = length ?t" using ss by (metis length_map)
  have each: "ss ! i < 64 \<and> b64_char (ss ! i) = ?t ! i" if "i < length ?t" for i
    using arg_cong [OF ss, of "\<lambda>l. l ! i"] that len b64_char_val by simp
  have r: "\<forall>n\<in>set ss. n < 64" using each len by (auto simp: in_set_conv_nth)
  have t: "?t = map b64_char ss" using each len by (auto intro: nth_equalityI)
  have "map byte_of s = bs"
    using dec_sextets_range [OF bs r] by (auto simp: s map_idI)
  then show ?thesis unfolding t EncodeToString_def using enc_dec [OF bs r] by simp
qed

lemma encode_no_dot: "CHR ''.'' \<notin> set (EncodeToString s)"
proof -
  have "\<forall>n\<in>set (enc_sextets (map byte_of s)). n < 64" by (rule enc_sextets_range) simp
  then show ?thesis using b64_char_not_dot by (auto simp: EncodeToString_def dest: sym)
qed

lemma encode_Nil: "EncodeToString s = [] \<longleftrightarrow> s = []"
  by (cases s rule: remdups_adj.cases) (auto simp: EncodeToString_def elim: enc_sextets.elims)

end
