(* ===== verification/Paseto.thy ===== *)
theory Paseto
  imports Base64_Url
begin

text \<open>
  \<^verbatim>\<open>pkg/anubis/paseto\<close>: the v4.public token layout over Ed25519. The signature primitive is the
  record \<open>ed25519\<close> of its two functions; what a theorem needs of it is a hypothesis there.
\<close>

section \<open>paseto.go\<close>

record ed25519 =
  ed_sign :: "string \<Rightarrow> string \<Rightarrow> string"
  ed_verify :: "string \<Rightarrow> string \<Rightarrow> string \<Rightarrow> bool"

definition SignatureSize :: nat where "SignatureSize = 64"
definition PublicKeySize :: nat where "PublicKeySize = 32"
definition PrivateKeySize :: nat where "PrivateKeySize = 64"

datatype paseto_err = PasetoMalformed | PasetoWrongHeader | PasetoBadSig | PasetoKeySize

definition headerV4Public :: string where
  "headerV4Public = ''v4.public.''"

fun le_bytes :: "nat \<Rightarrow> nat \<Rightarrow> nat list" where
  "le_bytes 0 n = []"
| "le_bytes (Suc k) n = n mod 256 # le_bytes k (n div 256)"

definition le64 :: "nat \<Rightarrow> string" where
  "le64 n = map char_of (le_bytes 8 (n mod 2 ^ 63))"

definition pae :: "string list \<Rightarrow> string" where
  "pae pieces = le64 (length pieces) @ concat (map (\<lambda>p. le64 (length p) @ p) pieces)"

definition Sign :: "ed25519 \<Rightarrow> string \<Rightarrow> string \<Rightarrow> string \<Rightarrow> string \<Rightarrow> paseto_err + string" where
  "Sign ed sk message footer implicit =
     (if length sk \<noteq> PrivateKeySize then Inl PasetoKeySize
      else let m2 = pae [headerV4Public, message, footer, implicit];
               sig = ed_sign ed sk m2
           in Inr (headerV4Public @ EncodeToString (message @ sig) @
                   (if length footer > 0 then ''.'' @ EncodeToString footer else [])))"

definition Parse :: "string \<Rightarrow> paseto_err + (string \<times> string \<times> string)" where
  "Parse token =
     (if \<not> HasPrefix token headerV4Public then Inl PasetoWrongHeader
      else let rest = drop (length headerV4Public) token;
               parts = (case cut_at CHR ''.'' rest of
                          None \<Rightarrow> Some (rest, [])
                        | Some (bodyPart, footPart) \<Rightarrow>
                            if footPart = [] \<or> CHR ''.'' \<in> set footPart then None else Some (bodyPart, footPart))
           in case parts of
                None \<Rightarrow> Inl PasetoMalformed
              | Some (bodyPart, footPart) \<Rightarrow>
                  (case DecodeString True bodyPart of
                     None \<Rightarrow> Inl PasetoMalformed
                   | Some body \<Rightarrow>
                       if length body < SignatureSize then Inl PasetoMalformed
                       else
                         let n = length body - SignatureSize in
                         if footPart \<noteq> [] then
                           (case DecodeString True footPart of
                              None \<Rightarrow> Inl PasetoMalformed
                            | Some footer \<Rightarrow> Inr (take n body, drop n body, footer))
                         else Inr (take n body, drop n body, [])))"

definition Verify :: "ed25519 \<Rightarrow> string \<Rightarrow> string \<Rightarrow> string \<Rightarrow> paseto_err + (string \<times> string)" where
  "Verify ed pk token implicit =
     (if length pk \<noteq> PublicKeySize then Inl PasetoKeySize
      else and_then (Parse token) (\<lambda>(m, sig, f).
        if \<not> ed_verify ed pk (pae [headerV4Public, m, f, implicit]) sig then Inl PasetoBadSig
        else Inr (m, f)))"

section \<open>The encoding that is signed is injective\<close>

fun le_val :: "nat list \<Rightarrow> nat" where
  "le_val [] = 0"
| "le_val (b # bs) = b + 256 * le_val bs"

lemma le_val_bytes: "le_val (le_bytes k n) = n mod 256 ^ k"
  by (induction k arbitrary: n) (simp_all add: mod_mult2_eq)

lemma le_bytes_range: "\<forall>b\<in>set (le_bytes k n). b < 256"
  by (induction k arbitrary: n) auto

lemma length_le_bytes [simp]: "length (le_bytes k n) = k"
  by (induction k arbitrary: n) auto

lemma length_le64 [simp]: "length (le64 n) = 8"
  by (simp add: le64_def)

lemma le64_inj:
  assumes "le64 m = le64 n" and "m < 2 ^ 63" and "n < 2 ^ 63"
  shows "m = n"
proof -
  have r: "map byte_of (le64 k) = le_bytes 8 (k mod 2 ^ 63)" for k
    using le_bytes_range [of 8 "k mod 2 ^ 63"] by (simp add: le64_def map_idI)
  have "le_bytes 8 (m mod 2 ^ 63) = le_bytes 8 (n mod 2 ^ 63)" using assms(1) r by metis
  then have "(m mod 2 ^ 63) mod 256 ^ 8 = (n mod 2 ^ 63) mod 256 ^ 8"
    using le_val_bytes by metis
  with assms show ?thesis by simp
qed

lemma pae_body_inj:
  assumes "concat (map (\<lambda>p. le64 (length p) @ p) ps) = concat (map (\<lambda>p. le64 (length p) @ p) qs)"
    and "length ps = length qs" and "\<forall>p\<in>set ps \<union> set qs. length p < 2 ^ 63"
  shows "ps = qs"
  using assms
proof (induction ps arbitrary: qs)
  case (Cons p ps)
  then obtain q qs' where qs: "qs = q # qs'" by (cases qs) auto
  let ?b = "\<lambda>ps. concat (map (\<lambda>p. le64 (length p) @ p) ps)"
  have eq: "le64 (length p) @ (p @ ?b ps) = le64 (length q) @ (q @ ?b qs')" using Cons.prems qs by simp
  then have "le64 (length p) = le64 (length q)" and tl: "p @ ?b ps = q @ ?b qs'"
    by (simp_all add: append_eq_append_conv)
  then have len: "length p = length q" using le64_inj Cons.prems qs by auto
  then have "p = q" and "?b ps = ?b qs'" using tl by simp_all
  with Cons.IH [of qs'] Cons.prems qs show ?case by simp
qed simp

lemma pae_inj:
  assumes "pae ps = pae qs" and "length ps < 2 ^ 63" and "length qs < 2 ^ 63"
    and "\<forall>p\<in>set ps \<union> set qs. length p < 2 ^ 63"
  shows "ps = qs"
proof -
  have "le64 (length ps) = le64 (length qs)"
    and "concat (map (\<lambda>p. le64 (length p) @ p) ps) = concat (map (\<lambda>p. le64 (length p) @ p) qs)"
    using assms(1) by (simp_all add: pae_def append_eq_append_conv)
  with le64_inj assms(2,3) pae_body_inj [OF _ _ assms(4)] show ?thesis by blast
qed

section \<open>Round trip\<close>

lemma cut_at_append: "c \<notin> set a \<Longrightarrow> cut_at c (a @ c # b) = Some (a, b)"
  by (simp add: cut_at_def takeWhile_append dropWhile_append)

lemma cut_at_Cons: "cut_at c (x # s) = (if x = c then Some ([], s) else map_option (apfst (Cons x)) (cut_at c s))"
  by (simp add: cut_at_def)

lemma cut_at_Some: "cut_at c s = Some (a, b) \<Longrightarrow> s = a @ c # b \<and> c \<notin> set a"
proof (induction s arbitrary: a)
  case Nil
  then show ?case by (simp add: cut_at_def)
next
  case (Cons x s)
  then show ?case by (auto simp: cut_at_Cons split: if_splits)
qed

lemma cut_at_none: "c \<notin> set a \<Longrightarrow> cut_at c a = None"
  by (simp add: cut_at_def)

lemma Parse_token:
  assumes "length sig = SignatureSize"
  shows "Parse (headerV4Public @ EncodeToString (message @ sig) @
     (if length footer > 0 then ''.'' @ EncodeToString footer else [])) = Inr (message, sig, footer)"
proof (cases "footer = []")
  case True
  with assms show ?thesis
    by (simp add: Parse_def cut_at_none [OF encode_no_dot] Let_def)
next
  case False
  have "cut_at CHR ''.'' (EncodeToString (message @ sig) @ CHR ''.'' # EncodeToString footer) =
      Some (EncodeToString (message @ sig), EncodeToString footer)"
    by (rule cut_at_append [OF encode_no_dot])
  with assms False show ?thesis
    by (simp add: Parse_def Let_def encode_Nil encode_no_dot)
qed

text \<open>What is relied on of a key pair: signatures have 64 bytes and verify.\<close>

definition key_pair :: "ed25519 \<Rightarrow> string \<Rightarrow> string \<Rightarrow> bool" where
  "key_pair ed sk pk \<longleftrightarrow> length sk = PrivateKeySize \<and> length pk = PublicKeySize \<and>
     (\<forall>m. length (ed_sign ed sk m) = SignatureSize \<and> ed_verify ed pk m (ed_sign ed sk m))"

lemma sign_verify:
  assumes "key_pair ed sk pk"
  shows "\<exists>token. Sign ed sk message footer implicit = Inr token \<and>
     Verify ed pk token implicit = Inr (message, footer)"
proof -
  let ?sig = "ed_sign ed sk (pae [headerV4Public, message, footer, implicit])"
  have "Parse (headerV4Public @ EncodeToString (message @ ?sig) @
     (if length footer > 0 then ''.'' @ EncodeToString footer else [])) = Inr (message, ?sig, footer)"
    using assms by (intro Parse_token) (simp add: key_pair_def)
  then show ?thesis using assms by (simp add: Sign_def Verify_def key_pair_def Let_def)
qed

section \<open>Only what was signed verifies\<close>

text \<open>Unforgeability, as a statement about one key: whatever verifies under it is one of the byte
  strings its holder signed, each the encoding of a (message, footer, implicit) triple.\<close>

definition only_signed :: "ed25519 \<Rightarrow> string \<Rightarrow> (string \<times> string \<times> string) set \<Rightarrow> bool" where
  "only_signed ed pk S \<longleftrightarrow> (\<forall>x sig. ed_verify ed pk x sig \<longrightarrow>
     (\<exists>(m, f, i)\<in>S. x = pae [headerV4Public, m, f, i] \<and> length m < 2 ^ 63 \<and> length f < 2 ^ 63 \<and> length i < 2 ^ 63))"

lemma verified_was_signed:
  assumes "only_signed ed pk S" and v: "Verify ed pk token implicit = Inr (m, f)"
    and len: "length m < 2 ^ 63" "length f < 2 ^ 63" "length implicit < 2 ^ 63"
  shows "(m, f, implicit) \<in> S"
proof -
  from v obtain sig where "ed_verify ed pk (pae [headerV4Public, m, f, implicit]) sig"
    by (auto simp: Verify_def and_then_Inr split: if_splits)
  with assms(1) obtain m' f' i' where s: "(m', f', i') \<in> S"
    and eq: "pae [headerV4Public, m, f, implicit] = pae [headerV4Public, m', f', i']"
    and len': "length m' < 2 ^ 63" "length f' < 2 ^ 63" "length i' < 2 ^ 63"
    unfolding only_signed_def by blast
  have "[headerV4Public, m, f, implicit] = [headerV4Public, m', f', i']"
    using len len' by (intro pae_inj [OF eq]) (auto simp: headerV4Public_def)
  with s show ?thesis by simp
qed

text \<open>PASETO round trip: for every message, footer and implicit assertion, signing succeeds and
  the token verifies under the matching public key to the same message and footer.\<close>

theorem paseto_round_trip:
  assumes "key_pair ed sk pk"
  shows "\<exists>token. Sign ed sk message footer implicit = Inr token \<and>
     Parse token = Inr (message, ed_sign ed sk (pae [headerV4Public, message, footer, implicit]), footer) \<and>
     Verify ed pk token implicit = Inr (message, footer)"
proof -
  let ?sig = "ed_sign ed sk (pae [headerV4Public, message, footer, implicit])"
  have "Parse (headerV4Public @ EncodeToString (message @ ?sig) @
     (if length footer > 0 then ''.'' @ EncodeToString footer else [])) = Inr (message, ?sig, footer)"
    using assms by (intro Parse_token) (simp add: key_pair_def)
  then show ?thesis using assms by (simp add: Sign_def Verify_def key_pair_def Let_def)
qed

definition toy_ed :: ed25519 where
  "toy_ed = \<lparr>ed_sign = (\<lambda>sk m. replicate 64 CHR ''s''), ed_verify = (\<lambda>pk m sig. sig = replicate 64 CHR ''s'')\<rparr>"

theorem paseto_round_trip_witness:
  "\<exists>token. Sign toy_ed (replicate 64 CHR ''k'') ''msg'' ''foot'' [] = Inr token \<and>
     Verify toy_ed (replicate 32 CHR ''p'') token [] = Inr (''msg'', ''foot'')"
proof -
  have "key_pair toy_ed (replicate 64 CHR ''k'') (replicate 32 CHR ''p'')"
    by (simp add: key_pair_def toy_ed_def PrivateKeySize_def PublicKeySize_def SignatureSize_def)
  from paseto_round_trip [OF this] show ?thesis by blast
qed

text \<open>No byte of a token is authenticated as something else: if whatever verifies under a public
  key was signed by its holder, then a token that verifies carries exactly a message, footer and
  implicit assertion the holder signed together; none of them can be shifted into another.\<close>

theorem paseto_authentic:
  assumes "only_signed ed pk S" and "Verify ed pk token implicit = Inr (m, f)"
    and "length m < 2 ^ 63" and "length f < 2 ^ 63" and "length implicit < 2 ^ 63"
  shows "(m, f, implicit) \<in> S"
  using assms by (rule verified_was_signed)

definition strict_ed :: ed25519 where
  "strict_ed = \<lparr>ed_sign = (\<lambda>sk m. replicate 64 CHR ''s''),
     ed_verify = (\<lambda>pk x sig. x = pae [headerV4Public, ''m'', [], []] \<and> sig = replicate 64 CHR ''s'')\<rparr>"

theorem paseto_authentic_witness:
  "\<exists>token. Verify strict_ed (replicate 32 CHR ''p'') token [] = Inr (''m'', []) \<and> (''m'', [], []) \<in> {(''m'', [], [])}"
proof -
  let ?pk = "replicate 32 CHR ''p''"
  obtain token where "Sign strict_ed (replicate 64 CHR ''k'') ''m'' [] [] = Inr token"
    and p: "Parse token = Inr (''m'', replicate 64 CHR ''s'', [])"
    using Parse_token [of "replicate 64 CHR ''s''" "''m''" "[]"]
    by (simp add: Sign_def strict_ed_def PrivateKeySize_def SignatureSize_def Let_def)
  have v: "Verify strict_ed ?pk token [] = Inr (''m'', [])"
    by (simp add: Verify_def p PublicKeySize_def strict_ed_def)
  have "only_signed strict_ed ?pk {(''m'', [], [])}" by (auto simp: only_signed_def strict_ed_def)
  from paseto_authentic [OF this v] v show ?thesis by auto
qed

end
