(* ===== verification/Access_Token.thy ===== *)
theory Access_Token
  imports Paseto
begin

text \<open>
  \<^verbatim>\<open>pkg/anubis/jws\<close>, \<^verbatim>\<open>internal/platform/crypto/accesstoken\<close>, \<^verbatim>\<open>internal/platform/crypto/keyring\<close> and
  the SDK's \<^verbatim>\<open>claims.go\<close>, \<^verbatim>\<open>verifier.go\<close> and \<^verbatim>\<open>keys/\<close>: the second token format, the dispatch
  between the two, the key ring they are signed and verified with, and what makes a verified
  token acceptable. \<^verbatim>\<open>encoding/json\<close> is the record \<open>json\<close> of the decoders the code calls.
\<close>

section \<open>Claims\<close>

record Claims =
  Cl_Issuer :: string
  Cl_Subject :: string
  Cl_Audience :: "string list"
  Cl_Expires :: int
  Cl_IssuedAt :: int
  Cl_NotBefore :: int
  Cl_TokenID :: string
  Cl_Session :: string
  Cl_Tenant :: string
  Cl_Roles :: "string list"
  Cl_Scope :: string
  Cl_Scopes :: "(string, string) gomap"
  Cl_Realm :: string
  Cl_IAL :: int
  Cl_AMR :: "string list"
  Cl_AuthTime :: int
  Cl_Epoch :: int
  Cl_Version :: int

datatype sdk_err =
    ErrExpired | ErrNotYetValid | ErrIssuer | ErrAudience | ErrNoAudience | ErrTokenVersion
  | ErrUnknownKid | ErrDecode | ErrToken | ErrNoKeys | ErrFetch

definition Validate :: "Claims \<Rightarrow> time \<Rightarrow> string \<Rightarrow> string \<Rightarrow> duration \<Rightarrow> sdk_err option" where
  "Validate c now issuer audience leeway =
     (let n = Unix now; l = go_quot leeway Second in
      if Cl_Expires c \<noteq> 0 \<and> n > int64 (Cl_Expires c + l) then Some ErrExpired
      else if Cl_NotBefore c \<noteq> 0 \<and> n < int64 (Cl_NotBefore c - l) then Some ErrNotYetValid
      else if issuer \<noteq> [] \<and> Cl_Issuer c \<noteq> issuer then Some ErrIssuer
      else if audience = [] then Some ErrNoAudience
      else if audience \<in> set (Cl_Audience c) then None
      else Some ErrAudience)"

section \<open>jws.go\<close>

record Header =
  Hd_Alg :: string
  Hd_Typ :: string
  Hd_Kid :: string
  Hd_Crit :: "string list"

record json =
  js_header :: "string \<Rightarrow> Header option"
  js_marshal_header :: "Header \<Rightarrow> string"
  js_kid :: "string \<Rightarrow> string option"
  js_marshal_kid :: "string \<Rightarrow> string"
  js_claims :: "string \<Rightarrow> Claims option"
  js_marshal_claims :: "Claims \<Rightarrow> string"

datatype jws_err =
  JwsKeySize | JwsMalformed | JwsBadSig | JwsWrongAlg | JwsWrongType | JwsCritHeader | JwsHeaderTooBig

definition maxHeaderBytes :: nat where "maxHeaderBytes = 1024"

definition jws_Sign :: "ed25519 \<Rightarrow> json \<Rightarrow> string \<Rightarrow> string \<Rightarrow> string \<Rightarrow> jws_err + string" where
  "jws_Sign ed js sk payload kid =
     (if length sk \<noteq> PrivateKeySize then Inl JwsKeySize
      else let h = js_marshal_header js \<lparr>Hd_Alg = ''EdDSA'', Hd_Typ = ''JWT'', Hd_Kid = kid, Hd_Crit = []\<rparr>;
               signing = EncodeToString h @ ''.'' @ EncodeToString payload;
               sig = ed_sign ed sk signing
           in Inr (signing @ ''.'' @ EncodeToString sig))"

definition jws_parts :: "string \<Rightarrow> (string \<times> string \<times> string) option" where
  "jws_parts token =
     (case cut_at CHR ''.'' token of None \<Rightarrow> None
      | Some (headPart, rest) \<Rightarrow>
          (case cut_at CHR ''.'' rest of None \<Rightarrow> None
           | Some (payPart, sigPart) \<Rightarrow> if CHR ''.'' \<in> set sigPart then None else Some (headPart, payPart, sigPart)))"

definition jws_Parse :: "json \<Rightarrow> string \<Rightarrow> jws_err + (Header \<times> string \<times> string)" where
  "jws_Parse js token =
     (case jws_parts token of
        None \<Rightarrow> Inl JwsMalformed
      | Some (headPart, payPart, sigPart) \<Rightarrow>
          if length headPart > maxHeaderBytes then Inl JwsHeaderTooBig
          else (case DecodeString False headPart of
             None \<Rightarrow> Inl JwsMalformed
           | Some rawHead \<Rightarrow>
               (case js_header js rawHead of
                  None \<Rightarrow> Inl JwsMalformed
                | Some h \<Rightarrow>
                    if Hd_Alg h \<noteq> ''EdDSA'' then Inl JwsWrongAlg
                    else if Hd_Typ h \<noteq> [] \<and> Hd_Typ h \<noteq> ''JWT'' then Inl JwsWrongType
                    else if length (Hd_Crit h) > 0 then Inl JwsCritHeader
                    else (case DecodeString False payPart of
                       None \<Rightarrow> Inl JwsMalformed
                     | Some payload \<Rightarrow>
                         (case DecodeString False sigPart of
                            None \<Rightarrow> Inl JwsMalformed
                          | Some sig \<Rightarrow>
                              if length sig \<noteq> SignatureSize then Inl JwsMalformed
                              else Inr (h, payload, sig))))))"

text \<open>The bytes before the last dot.\<close>

definition before_last_dot :: "string \<Rightarrow> string" where
  "before_last_dot token = rev (tl (dropWhile (\<lambda>c. c \<noteq> CHR ''.'') (rev token)))"

definition jws_Verify :: "ed25519 \<Rightarrow> json \<Rightarrow> string \<Rightarrow> string \<Rightarrow> jws_err + (string \<times> Header)" where
  "jws_Verify ed js pk token =
     (if length pk \<noteq> PublicKeySize then Inl JwsKeySize
      else and_then (jws_Parse js token) (\<lambda>(h, payload, sig).
        if \<not> ed_verify ed pk (before_last_dot token) sig then Inl JwsBadSig
        else Inr (payload, h)))"

section \<open>accesstoken.go\<close>

datatype token_err = TokPaseto paseto_err | TokJws jws_err | TokMalformed | TokJson

definition IsAccessToken :: "json \<Rightarrow> string \<Rightarrow> bool" where
  "IsAccessToken js token =
     (if HasPrefix token headerV4Public then True
      else (case jws_Parse js token of Inl e \<Rightarrow> False | Inr r \<Rightarrow> True))"

definition Kid :: "json \<Rightarrow> string \<Rightarrow> token_err + string" where
  "Kid js token =
     (if HasPrefix token headerV4Public then
        (case Parse token of
           Inl e \<Rightarrow> Inl (TokPaseto e)
         | Inr (m, sig, footer) \<Rightarrow>
             if length footer = 0 then Inr []
             else (case js_kid js footer of None \<Rightarrow> Inl TokJson | Some k \<Rightarrow> Inr k))
      else (case jws_Parse js token of Inl e \<Rightarrow> Inl TokMalformed | Inr (h, p, s) \<Rightarrow> Inr (Hd_Kid h)))"

definition ClaimsUnverified :: "json \<Rightarrow> string \<Rightarrow> token_err + string" where
  "ClaimsUnverified js token =
     (if HasPrefix token headerV4Public then
        (case Parse token of Inl e \<Rightarrow> Inl (TokPaseto e) | Inr (m, sig, footer) \<Rightarrow> Inr m)
      else (case jws_Parse js token of Inl e \<Rightarrow> Inl TokMalformed | Inr (h, p, s) \<Rightarrow> Inr p))"

definition VerifyToken :: "ed25519 \<Rightarrow> json \<Rightarrow> string \<Rightarrow> string \<Rightarrow> token_err + string" where
  "VerifyToken ed js pk token =
     (if HasPrefix token headerV4Public then
        (case Verify ed pk token [] of Inl e \<Rightarrow> Inl (TokPaseto e) | Inr (m, f) \<Rightarrow> Inr m)
      else (case jws_Verify ed js pk token of Inl e \<Rightarrow> Inl (TokJws e) | Inr (p, h) \<Rightarrow> Inr p))"

section \<open>keyring\<close>

datatype purpose = PurposeAccess | PurposeLocal | PurposeOther string
datatype key_status = StatusPending | StatusActive | StatusRetiring | StatusRetired | StatusOther string

record Key =
  Key_Kid :: string
  Key_Purpose :: purpose
  Key_Alg :: string
  Key_Status :: key_status
  Key_Public :: string
  Key_Private :: "string option"
  Key_Secret :: string
  Key_NotBefore :: time
  Key_NotAfter :: time

record Ring =
  Ring_byKid :: "(string, Key) gomap"
  Ring_activeAccess :: "Key option"
  Ring_activeLocal :: "Key option"

datatype ring_err = ErrNoActiveKey | RingUnknownKid | ErrTooManyKeys | ErrKeyOutOfWindow | ErrDuplicateKid | ErrTwoActive

definition maxKeys :: nat where "maxKeys = 64"

definition InWindow :: "Key \<Rightarrow> time \<Rightarrow> bool" where
  "InWindow k now =
     (if \<not> IsZero (Key_NotBefore k) \<and> Before now (Key_NotBefore k) then False
      else if \<not> IsZero (Key_NotAfter k) \<and> \<not> Before now (Key_NotAfter k) then False
      else True)"

fun ring_loop :: "Key list \<Rightarrow> Ring \<Rightarrow> ring_err + Ring" where
  "ring_loop [] r = Inr r"
| "ring_loop (k # ks) r =
     (if Key_Status k = StatusRetired then ring_loop ks r
      else if map_of (Ring_byKid r) (Key_Kid k) \<noteq> None then Inl ErrDuplicateKid
      else
        let r1 = r\<lparr>Ring_byKid := map_put (Key_Kid k) k (Ring_byKid r)\<rparr> in
        if Key_Status k = StatusActive then
          (case Key_Purpose k of
             PurposeAccess \<Rightarrow> if Ring_activeAccess r1 \<noteq> None then Inl ErrTwoActive
                             else ring_loop ks (r1\<lparr>Ring_activeAccess := Some k\<rparr>)
           | PurposeLocal \<Rightarrow> if Ring_activeLocal r1 \<noteq> None then Inl ErrTwoActive
                            else ring_loop ks (r1\<lparr>Ring_activeLocal := Some k\<rparr>)
           | PurposeOther p \<Rightarrow> ring_loop ks r1)
        else ring_loop ks r1)"

definition NewRing :: "Key list \<Rightarrow> ring_err + Ring" where
  "NewRing keys =
     (if length keys > maxKeys then Inl ErrTooManyKeys
      else ring_loop keys \<lparr>Ring_byKid = [], Ring_activeAccess = None, Ring_activeLocal = None\<rparr>)"

definition Lookup :: "Ring \<Rightarrow> string \<Rightarrow> ring_err + Key" where
  "Lookup r kid = (case map_of (Ring_byKid r) kid of None \<Rightarrow> Inl RingUnknownKid | Some k \<Rightarrow> Inr k)"

definition ActiveAccessPresent :: "Ring \<Rightarrow> ring_err + Key" where
  "ActiveAccessPresent r =
     (case Ring_activeAccess r of
        None \<Rightarrow> Inl ErrNoActiveKey
      | Some k \<Rightarrow> if Key_Private k = None then Inl ErrNoActiveKey else Inr k)"

definition ActiveAccessAt :: "Ring \<Rightarrow> time \<Rightarrow> ring_err + Key" where
  "ActiveAccessAt r now =
     and_then (ActiveAccessPresent r) (\<lambda>k. if \<not> InWindow k now then Inl ErrKeyOutOfWindow else Inr k)"

definition ActiveLocal :: "Ring \<Rightarrow> ring_err + Key" where
  "ActiveLocal r =
     (case Ring_activeLocal r of
        None \<Rightarrow> Inl ErrNoActiveKey
      | Some k \<Rightarrow> if length (Key_Secret k) = 0 then Inl ErrNoActiveKey else Inr k)"

definition All :: "Ring \<Rightarrow> Key list" where
  "All r = map snd (Ring_byKid r)"

section \<open>The ring\<close>

definition usable :: "Key list \<Rightarrow> string \<Rightarrow> Key \<Rightarrow> bool" where
  "usable keys kid k \<longleftrightarrow> k \<in> set keys \<and> Key_Status k \<noteq> StatusRetired \<and> Key_Kid k = kid"

definition ring_of :: "Key list \<Rightarrow> Ring \<Rightarrow> bool" where
  "ring_of keys r \<longleftrightarrow>
     (\<forall>kid k. map_of (Ring_byKid r) kid = Some k \<longleftrightarrow> usable keys kid k) \<and>
     (\<forall>k. Ring_activeAccess r = Some k \<longleftrightarrow> usable keys (Key_Kid k) k \<and> Key_Status k = StatusActive \<and> Key_Purpose k = PurposeAccess) \<and>
     (\<forall>k. Ring_activeLocal r = Some k \<longleftrightarrow> usable keys (Key_Kid k) k \<and> Key_Status k = StatusActive \<and> Key_Purpose k = PurposeLocal)"

lemma usable_snoc: "usable (ks @ [k]) kid j \<longleftrightarrow> usable ks kid j \<or> (j = k \<and> Key_Status k \<noteq> StatusRetired \<and> Key_Kid k = kid)"
  by (auto simp: usable_def)

lemma ring_of_retired: "ring_of ks r \<Longrightarrow> Key_Status k = StatusRetired \<Longrightarrow> ring_of (ks @ [k]) r"
  by (simp add: ring_of_def usable_snoc)

lemma ring_of_put:
  assumes "ring_of ks r" and "Key_Status k \<noteq> StatusRetired" and "map_of (Ring_byKid r) (Key_Kid k) = None"
    and "Key_Status k = StatusActive \<Longrightarrow> Key_Purpose k = PurposeAccess \<Longrightarrow> Ring_activeAccess r = None"
    and "Key_Status k = StatusActive \<Longrightarrow> Key_Purpose k = PurposeLocal \<Longrightarrow> Ring_activeLocal r = None"
  shows "ring_of (ks @ [k]) (r\<lparr>Ring_byKid := map_put (Key_Kid k) k (Ring_byKid r),
     Ring_activeAccess := (if Key_Status k = StatusActive \<and> Key_Purpose k = PurposeAccess then Some k else Ring_activeAccess r),
     Ring_activeLocal := (if Key_Status k = StatusActive \<and> Key_Purpose k = PurposeLocal then Some k else Ring_activeLocal r)\<rparr>)"
proof -
  have fresh: "\<not> usable ks (Key_Kid k) j" for j
    using assms(1,3) unfolding ring_of_def by (metis option.distinct(1))
  have put: "map_of (map_put (Key_Kid k) k (Ring_byKid r)) kid = Some j \<longleftrightarrow> usable (ks @ [k]) kid j" for kid j
    using assms(1,2) fresh by (auto simp: ring_of_def usable_snoc go_simps)
  have acc: "Ring_activeAccess r = Some j \<longleftrightarrow> usable ks (Key_Kid j) j \<and> Key_Status j = StatusActive \<and> Key_Purpose j = PurposeAccess"
    and loc: "Ring_activeLocal r = Some j \<longleftrightarrow> usable ks (Key_Kid j) j \<and> Key_Status j = StatusActive \<and> Key_Purpose j = PurposeLocal" for j
    using assms(1) by (simp_all add: ring_of_def)
  show ?thesis
    unfolding ring_of_def
    using put acc loc assms(2,4,5) by (auto simp: usable_snoc)
qed

lemma ring_loop_of:
  assumes "ring_of ks r" and "ring_loop ks' r = Inr r'"
  shows "ring_of (ks @ ks') r'"
  using assms
proof (induction ks' arbitrary: ks r)
  case (Cons k ks')
  show ?case
  proof (cases "Key_Status k = StatusRetired")
    case True
    with Cons.IH [OF ring_of_retired [OF Cons.prems(1) True]] Cons.prems(2) show ?thesis by simp
  next
    case False
    let ?r = "r\<lparr>Ring_byKid := map_put (Key_Kid k) k (Ring_byKid r),
       Ring_activeAccess := (if Key_Status k = StatusActive \<and> Key_Purpose k = PurposeAccess then Some k else Ring_activeAccess r),
       Ring_activeLocal := (if Key_Status k = StatusActive \<and> Key_Purpose k = PurposeLocal then Some k else Ring_activeLocal r)\<rparr>"
    have "ring_of (ks @ [k]) ?r"
      using Cons.prems(2) False by (intro ring_of_put [OF Cons.prems(1)]) (auto simp: Let_def split: if_splits)
    moreover have "ring_loop ks' ?r = Inr r'"
      using Cons.prems(2) False by (auto simp: Let_def split: if_splits purpose.splits)
    ultimately show ?thesis using Cons.IH by fastforce
  qed
qed simp

lemma NewRing_of:
  assumes "NewRing keys = Inr r"
  shows "ring_of keys r" and "length keys \<le> 64"
proof -
  have "ring_of [] \<lparr>Ring_byKid = [], Ring_activeAccess = None, Ring_activeLocal = None\<rparr>"
    by (simp add: ring_of_def usable_def)
  with assms ring_loop_of [OF this] show "ring_of keys r" "length keys \<le> 64"
    by (auto simp: NewRing_def maxKeys_def split: if_splits)
qed

text \<open>A ring that loads is unambiguous: looking a key id up finds exactly the one non-retired key
  of that id, the signing key is the only active access key, it is found under its own id (so what
  is signed now can be verified), and it is only handed out inside its published window.\<close>

theorem ring_unambiguous:
  assumes "NewRing keys = Inr r"
  shows "(Lookup r kid = Inr k \<longleftrightarrow> k \<in> set keys \<and> Key_Status k \<noteq> StatusRetired \<and> Key_Kid k = kid) \<and>
     (ActiveAccessAt r now = Inr a \<longleftrightarrow>
        a \<in> set keys \<and> Key_Status a = StatusActive \<and> Key_Purpose a = PurposeAccess \<and> Key_Private a \<noteq> None \<and>
        (Key_NotBefore a = zero_time \<or> Key_NotBefore a \<le> now) \<and> (Key_NotAfter a = zero_time \<or> now < Key_NotAfter a)) \<and>
     (ActiveAccessAt r now = Inr a \<longrightarrow> Lookup r (Key_Kid a) = Inr a)"
proof -
  note r = NewRing_of(1) [OF assms]
  have look: "Lookup r kid' = Inr k' \<longleftrightarrow> usable keys kid' k'" for kid' k'
  proof -
    have "Lookup r kid' = Inr k' \<longleftrightarrow> map_of (Ring_byKid r) kid' = Some k'"
      by (simp add: Lookup_def split: option.split)
    with r show ?thesis by (simp add: ring_of_def)
  qed
  have win: "InWindow a now \<longleftrightarrow> (Key_NotBefore a = zero_time \<or> Key_NotBefore a \<le> now) \<and>
      (Key_NotAfter a = zero_time \<or> now < Key_NotAfter a)"
    by (auto simp: InWindow_def IsZero_def Before_def)
  have "ActiveAccessAt r now = Inr a \<longleftrightarrow> Ring_activeAccess r = Some a \<and> Key_Private a \<noteq> None \<and> InWindow a now"
    by (auto simp: ActiveAccessAt_def ActiveAccessPresent_def and_then_Inr split: option.splits if_splits)
  then have act: "ActiveAccessAt r now = Inr a \<longleftrightarrow> usable keys (Key_Kid a) a \<and> Key_Status a = StatusActive \<and>
      Key_Purpose a = PurposeAccess \<and> Key_Private a \<noteq> None \<and> InWindow a now"
    using r by (auto simp: ring_of_def)
  show ?thesis unfolding look act win by (auto simp: usable_def)
qed

definition demo_key :: Key where
  "demo_key = \<lparr>Key_Kid = ''ak_1'', Key_Purpose = PurposeAccess, Key_Alg = ''Ed25519'', Key_Status = StatusActive,
     Key_Public = replicate 32 CHR ''p'', Key_Private = Some (replicate 64 CHR ''k''), Key_Secret = [],
     Key_NotBefore = 0, Key_NotAfter = 100\<rparr>"

definition demo_ring :: Ring where
  "demo_ring = \<lparr>Ring_byKid = [(''ak_1'', demo_key)], Ring_activeAccess = Some demo_key, Ring_activeLocal = None\<rparr>"

lemma demo_ring_New: "NewRing [demo_key] = Inr demo_ring"
  by (simp add: NewRing_def maxKeys_def demo_ring_def demo_key_def map_put_def)

theorem ring_unambiguous_witness:
  "ActiveAccessAt demo_ring 50 = Inr demo_key \<and> Lookup demo_ring ''ak_1'' = Inr demo_key \<and> ActiveAccessAt demo_ring 100 \<noteq> Inr demo_key"
  using ring_unambiguous [OF demo_ring_New, of "''ak_1''" demo_key 50 demo_key]
    ring_unambiguous [OF demo_ring_New, of "''ak_1''" demo_key 100 demo_key]
  by (simp add: demo_key_def zero_time_def)

section \<open>Both formats behave alike\<close>

text \<open>What is relied on of the JSON codec: decoding reverses encoding, an object has at least its
  braces, and the header of a key id of ordinary length fits the bound.\<close>

definition json_ok :: "json \<Rightarrow> string \<Rightarrow> bool" where
  "json_ok js kid \<longleftrightarrow>
     (let h = \<lparr>Hd_Alg = ''EdDSA'', Hd_Typ = ''JWT'', Hd_Kid = kid, Hd_Crit = []\<rparr> in
      js_header js (js_marshal_header js h) = Some h \<and> length (js_marshal_header js h) \<ge> 2 \<and>
      length (EncodeToString (js_marshal_header js h)) \<le> maxHeaderBytes) \<and>
     js_kid js (js_marshal_kid js kid) = Some kid \<and> length (js_marshal_kid js kid) \<ge> 2"

lemma length_EncodeToString: "length s \<ge> 2 \<Longrightarrow> length (EncodeToString s) \<ge> 3"
  by (cases s; cases "tl s"; cases "tl (tl s)") (auto simp: EncodeToString_def)

lemma jws_not_paseto:
  assumes "length h \<ge> 2"
  shows "\<not> HasPrefix (EncodeToString h @ t) headerV4Public"
proof
  assume "HasPrefix (EncodeToString h @ t) headerV4Public"
  then obtain u where "EncodeToString h @ t = ''v4.public.'' @ u"
    by (auto simp: HasPrefix_iff headerV4Public_def)
  then have "(EncodeToString h @ t) ! 2 = CHR ''.''" by simp
  moreover have "2 < length (EncodeToString h)" using length_EncodeToString [OF assms] by simp
  ultimately have "EncodeToString h ! 2 = CHR ''.''" by (simp add: nth_append)
  with \<open>2 < length (EncodeToString h)\<close> encode_no_dot [of h] show False by (metis nth_mem)
qed

lemma jws_parts_token:
  "CHR ''.'' \<notin> set a \<Longrightarrow> CHR ''.'' \<notin> set b \<Longrightarrow> CHR ''.'' \<notin> set c \<Longrightarrow>
     jws_parts (a @ ''.'' @ b @ ''.'' @ c) = Some (a, b, c)"
  by (simp add: jws_parts_def cut_at_append)

lemma before_last_dot_token: "CHR ''.'' \<notin> set c \<Longrightarrow> before_last_dot (a @ ''.'' @ c) = a"
  by (simp add: before_last_dot_def dropWhile_append)

lemma jws_Parse_token:
  assumes js: "json_ok js kid" and sig: "length sig = SignatureSize"
  defines "h \<equiv> \<lparr>Hd_Alg = ''EdDSA'', Hd_Typ = ''JWT'', Hd_Kid = kid, Hd_Crit = []\<rparr>"
  shows "jws_Parse js (EncodeToString (js_marshal_header js h) @ ''.'' @ EncodeToString p @ ''.'' @ EncodeToString sig)
     = Inr (h, p, sig)"
  using js sig unfolding jws_Parse_def jws_parts_token [OF encode_no_dot encode_no_dot encode_no_dot]
  by (simp add: json_ok_def Let_def h_def)

text \<open>One of the two formats, as the issuer writes them.\<close>

definition issue_token :: "ed25519 \<Rightarrow> json \<Rightarrow> bool \<Rightarrow> string \<Rightarrow> string \<Rightarrow> string \<Rightarrow> string option" where
  "issue_token ed js jws sk kid claims =
     (if jws then (case jws_Sign ed js sk claims kid of Inl e \<Rightarrow> None | Inr t \<Rightarrow> Some t)
      else (case Sign ed sk claims (js_marshal_kid js kid) [] of Inl e \<Rightarrow> None | Inr t \<Rightarrow> Some t))"

lemma formats_agree:
  assumes kp: "key_pair ed sk pk" and js: "json_ok js kid"
  shows "\<exists>token. issue_token ed js jws sk kid claims = Some token \<and> IsAccessToken js token \<and>
     Kid js token = Inr kid \<and> ClaimsUnverified js token = Inr claims \<and> VerifyToken ed js pk token = Inr claims"
proof (cases jws)
  case False
  from kp js obtain token where t: "Sign ed sk claims (js_marshal_kid js kid) [] = Inr token"
    and v: "Verify ed pk token [] = Inr (claims, js_marshal_kid js kid)"
    using sign_verify by blast
  from v obtain sig where p: "Parse token = Inr (claims, sig, js_marshal_kid js kid)"
    by (auto simp: Verify_def and_then_Inr split: if_splits)
  then have "HasPrefix token headerV4Public" by (auto simp: Parse_def split: if_splits)
  with False t v p js show ?thesis
    by (auto simp: issue_token_def IsAccessToken_def Kid_def ClaimsUnverified_def VerifyToken_def json_ok_def)
next
  case True
  let ?h = "\<lparr>Hd_Alg = ''EdDSA'', Hd_Typ = ''JWT'', Hd_Kid = kid, Hd_Crit = []\<rparr>"
  let ?head = "EncodeToString (js_marshal_header js ?h)"
  let ?signing = "?head @ ''.'' @ EncodeToString claims"
  let ?sig = "ed_sign ed sk ?signing"
  let ?token = "?signing @ ''.'' @ EncodeToString ?sig"
  have s: "jws_Sign ed js sk claims kid = Inr ?token" using kp by (simp add: jws_Sign_def key_pair_def Let_def)
  have p: "jws_Parse js ?token = Inr (?h, claims, ?sig)"
    using jws_Parse_token [OF js, of ?sig claims] kp by (simp add: key_pair_def)
  have np: "\<not> HasPrefix ?token headerV4Public"
    using jws_not_paseto [of "js_marshal_header js ?h"] js by (simp add: json_ok_def Let_def)
  have "before_last_dot ?token = ?signing" using before_last_dot_token [OF encode_no_dot, of ?signing ?sig] by simp
  then have "jws_Verify ed js pk ?token = Inr (claims, ?h)"
    using kp p by (simp add: jws_Verify_def key_pair_def)
  with True s p np show ?thesis
    by (auto simp: issue_token_def IsAccessToken_def Kid_def ClaimsUnverified_def VerifyToken_def)
qed

text \<open>No call site has to know there are two formats: whichever the application's token is issued
  in, it is recognised as an access token, names its key id, and yields the same claims bytes both
  unverified and verified under the issuing key.\<close>

theorem formats_interchangeable:
  assumes "key_pair ed sk pk" and "json_ok js kid"
  shows "\<exists>token. issue_token ed js jws sk kid claims = Some token \<and> IsAccessToken js token \<and>
     Kid js token = Inr kid \<and> ClaimsUnverified js token = Inr claims \<and> VerifyToken ed js pk token = Inr claims"
  using assms by (rule formats_agree)

definition demo_claims :: Claims where
  "demo_claims = \<lparr>Cl_Issuer = ''anubis'', Cl_Subject = ''alice'', Cl_Audience = [''shop''], Cl_Expires = 100,
     Cl_IssuedAt = 0, Cl_NotBefore = 0, Cl_TokenID = ''j1'', Cl_Session = ''s1'', Cl_Tenant = ''acme'',
     Cl_Roles = [], Cl_Scope = [], Cl_Scopes = [(''place'', ''shop'')], Cl_Realm = ''staff'', Cl_IAL = 1,
     Cl_AMR = [''pwd''], Cl_AuthTime = 0, Cl_Epoch = 0, Cl_Version = 1\<rparr>"

definition toy_json :: json where
  "toy_json = \<lparr>js_header = (\<lambda>s. if hd s = CHR ''{''
        then Some \<lparr>Hd_Alg = ''EdDSA'', Hd_Typ = ''JWT'', Hd_Kid = tl s, Hd_Crit = []\<rparr> else None),
     js_marshal_header = (\<lambda>h. CHR ''{'' # Hd_Kid h),
     js_kid = (\<lambda>s. if hd s = CHR ''{'' then Some (tl s) else None), js_marshal_kid = (\<lambda>k. CHR ''{'' # k),
     js_claims = (\<lambda>s. if s = ''claims'' then Some demo_claims else None), js_marshal_claims = (\<lambda>c. ''claims'')\<rparr>"

theorem formats_interchangeable_witness:
  "\<exists>token. issue_token toy_ed toy_json True (replicate 64 CHR ''k'') ''ak_1'' ''claims'' = Some token \<and>
     VerifyToken toy_ed toy_json (replicate 32 CHR ''p'') token = Inr ''claims''"
proof -
  have "key_pair toy_ed (replicate 64 CHR ''k'') (replicate 32 CHR ''p'')"
    by (simp add: key_pair_def toy_ed_def PrivateKeySize_def PublicKeySize_def SignatureSize_def)
  moreover have "json_ok toy_json ''ak_1''" by code_simp
  ultimately show ?thesis using formats_interchangeable [of toy_ed _ _ toy_json] by blast
qed

text \<open>The algorithm is never negotiated: a token that is not a PASETO and verifies has exactly
  three parts, a header that says EdDSA and carries no critical extension, and an Ed25519 signature
  over the very bytes before its last dot. A header naming \<^verbatim>\<open>none\<close> or any other algorithm never
  yields claims, verified or not.\<close>

theorem jws_pins_algorithm:
  assumes "\<not> HasPrefix token headerV4Public" and "ClaimsUnverified js token = Inr claims"
  shows "\<exists>a b c raw h sig. token = a @ ''.'' @ b @ ''.'' @ c \<and> CHR ''.'' \<notin> set a \<union> set b \<union> set c \<and>
     DecodeString False a = Some raw \<and> js_header js raw = Some h \<and> Hd_Alg h = ''EdDSA'' \<and> Hd_Crit h = [] \<and>
     DecodeString False b = Some claims \<and> DecodeString False c = Some sig \<and>
     (VerifyToken ed js pk token = Inr claims \<longleftrightarrow> length pk = 32 \<and> ed_verify ed pk (a @ ''.'' @ b) sig)"
proof -
  from assms obtain h sig where p: "jws_Parse js token = Inr (h, claims, sig)"
    by (auto simp: ClaimsUnverified_def split: sum.splits)
  then obtain a b c where abc: "jws_parts token = Some (a, b, c)" by (auto simp: jws_Parse_def split: option.splits)
  then have tok: "token = a @ ''.'' @ b @ ''.'' @ c" and nd: "CHR ''.'' \<notin> set a \<union> set b \<union> set c"
    by (auto simp: jws_parts_def dest!: cut_at_Some split: option.splits if_splits)
  have bl: "before_last_dot token = a @ ''.'' @ b" using before_last_dot_token [of c "a @ ''.'' @ b"] nd tok by simp
  have v: "VerifyToken ed js pk token = Inr claims \<longleftrightarrow> length pk = 32 \<and> ed_verify ed pk (a @ ''.'' @ b) sig"
    using assms(1) p by (auto simp: VerifyToken_def jws_Verify_def bl PublicKeySize_def)
  from p abc obtain raw where "DecodeString False a = Some raw" "js_header js raw = Some h" "Hd_Alg h = ''EdDSA''"
      "Hd_Crit h = []" "DecodeString False b = Some claims" "DecodeString False c = Some sig"
    by (auto simp: jws_Parse_def split: option.splits if_splits)
  with tok nd v show ?thesis by blast
qed

definition demo_jws :: string where
  "demo_jws = EncodeToString ''{ak_1'' @ ''.'' @ EncodeToString ''claims'' @ ''.'' @ EncodeToString (replicate 64 CHR ''s'')"

lemma demo_jws_ok:
  "IsAccessToken toy_json demo_jws" "Kid toy_json demo_jws = Inr ''ak_1''"
  "ClaimsUnverified toy_json demo_jws = Inr ''claims''"
  "VerifyToken toy_ed toy_json (replicate 32 CHR ''p'') demo_jws = Inr ''claims''"
  "\<not> HasPrefix demo_jws headerV4Public"
proof -
  have kp: "key_pair toy_ed (replicate 64 CHR ''k'') (replicate 32 CHR ''p'')"
    by (simp add: key_pair_def toy_ed_def PrivateKeySize_def PublicKeySize_def SignatureSize_def)
  have js: "json_ok toy_json ''ak_1''" by code_simp
  have "issue_token toy_ed toy_json True (replicate 64 CHR ''k'') ''ak_1'' ''claims'' = Some demo_jws"
    by (simp add: issue_token_def jws_Sign_def demo_jws_def toy_ed_def toy_json_def PrivateKeySize_def Let_def)
  with formats_agree [OF kp js, of True "''claims''"]
  show "IsAccessToken toy_json demo_jws" "Kid toy_json demo_jws = Inr ''ak_1''"
    "ClaimsUnverified toy_json demo_jws = Inr ''claims''"
    "VerifyToken toy_ed toy_json (replicate 32 CHR ''p'') demo_jws = Inr ''claims''" by auto
  show "\<not> HasPrefix demo_jws headerV4Public" using jws_not_paseto [of "''{ak_1''"] by (simp add: demo_jws_def)
qed

theorem jws_pins_algorithm_witness:
  "\<exists>a b c raw h sig. demo_jws = a @ ''.'' @ b @ ''.'' @ c \<and> js_header toy_json raw = Some h \<and> Hd_Alg h = ''EdDSA'' \<and>
     DecodeString False b = Some ''claims'' \<and> DecodeString False c = Some sig"
  using jws_pins_algorithm [OF demo_jws_ok(5,3), of toy_ed "[]"] by blast

end
