(* ===== verification/Principal.thy ===== *)
theory Principal
  imports Go_Prelude
begin

text \<open>
  \<^verbatim>\<open>internal/shared/authctx\<close> and \<^verbatim>\<open>internal/shared/validate\<close>: who is calling, from which address,
  and the shape of codes and slugs. Address parsing (\<^verbatim>\<open>net/netip\<close>) is the record \<open>netip\<close> of the
  functions used.
\<close>

section \<open>principal.go\<close>

record Principal =
  Pr_IdentityID :: string
  Pr_TenantID :: string
  Pr_TenantSlug :: string
  Pr_SessionID :: string
  Pr_Realm :: string
  Pr_Roles :: "string list"
  Pr_Scopes :: "(string, string) gomap"
  Pr_AMR :: "string list"
  Pr_AuthTime :: time
  Pr_IAL :: int
  Pr_Epoch :: int
  Pr_Audience :: "string list"
  Pr_Service :: bool
  Pr_Platform :: bool
  Pr_Token :: string

definition LinkBound :: "Principal \<Rightarrow> bool" where
  "LinkBound p = list_ex (\<lambda>m. m = ''link'') (Pr_AMR p)"

definition LinkRecord :: "Principal \<Rightarrow> string" where
  "LinkRecord p = (case map_of (Pr_Scopes p) ''_record'' of None \<Rightarrow> [] | Some r \<Rightarrow> r)"

definition FirstPartyAudience :: string where
  "FirstPartyAudience = ''anubis''"

definition FirstParty :: "Principal \<Rightarrow> bool" where
  "FirstParty p = list_ex (\<lambda>a. a = FirstPartyAudience) (Pr_Audience p)"

definition MayAskAbout :: "Principal \<Rightarrow> string \<Rightarrow> bool" where
  "MayAskAbout p subject =
     (if Pr_Service p \<or> Pr_Platform p \<or> Pr_SessionID p = [] then True else subject = Pr_IdentityID p)"

section \<open>validate.go\<close>

text \<open>The two patterns are ASCII classes with bounded repetition, anchored at both ends.\<close>

definition lower :: "char \<Rightarrow> bool" where
  "lower c \<longleftrightarrow> 97 \<le> byte_of c \<and> byte_of c \<le> 122"

definition digit :: "char \<Rightarrow> bool" where
  "digit c \<longleftrightarrow> 48 \<le> byte_of c \<and> byte_of c \<le> 57"

definition ValidSlug :: "string \<Rightarrow> bool" where
  "ValidSlug s \<longleftrightarrow> (case s of [] \<Rightarrow> False | c # cs \<Rightarrow>
     (lower c \<or> digit c) \<and> 1 \<le> length cs \<and> length cs \<le> 62 \<and>
     list_all (\<lambda>d. lower d \<or> digit d \<or> d = CHR ''_'' \<or> d = CHR ''-'') cs)"

definition ValidCode :: "string \<Rightarrow> bool" where
  "ValidCode s \<longleftrightarrow> (case s of [] \<Rightarrow> False | c # cs \<Rightarrow>
     lower c \<and> 1 \<le> length cs \<and> length cs \<le> 30 \<and>
     list_all (\<lambda>d. lower d \<or> digit d \<or> d = CHR ''_'') cs)"

lemma ValidCode_reserved: "ValidCode s \<Longrightarrow> s \<noteq> ''_owner'' \<and> s \<noteq> ''_record''"
  by (auto simp: ValidCode_def lower_def byte_of_def)

text \<open>\<^verbatim>\<open>itoa\<close> on an \<^verbatim>\<open>int\<close> (64 bits): negating the least value leaves it negative.\<close>

fun itoa_digits :: "nat \<Rightarrow> string" where
  "itoa_digits n = (if n = 0 then [] else itoa_digits (n div 10) @ [char_of (48 + n mod 10)])"

declare itoa_digits.simps [simp del]

definition itoa :: "int \<Rightarrow> string" where
  "itoa n =
     (if n = 0 then ''0''
      else let neg = (n < 0); n1 = (if neg then int64 (- n) else n);
               digits = (if n1 > 0 then itoa_digits (nat n1) else [])
           in (if neg then CHR ''-'' # digits else digits))"

section \<open>clientip.go\<close>

record ('addr, 'prefix) netip =
  ParseAddr :: "string \<Rightarrow> 'addr option"
  ParsePrefix :: "string \<Rightarrow> 'prefix option"
  PrefixFrom :: "'addr \<Rightarrow> 'prefix"
  Unmap :: "'addr \<Rightarrow> 'addr"
  PrefixContains :: "'prefix \<Rightarrow> 'addr \<Rightarrow> bool"
  SplitHostPort :: "string \<Rightarrow> string option"

fun trust_loop :: "('addr, 'prefix) netip \<Rightarrow> string list \<Rightarrow> 'prefix list \<Rightarrow> 'prefix list option" where
  "trust_loop ip [] nets = Some nets"
| "trust_loop ip (r # raws) nets =
     (let raw = TrimSpace r in
      if raw = [] then trust_loop ip raws nets
      else (case ParsePrefix ip raw of
              Some p \<Rightarrow> trust_loop ip raws (nets @ [p])
            | None \<Rightarrow>
                (case ParseAddr ip raw of
                   None \<Rightarrow> None
                 | Some a \<Rightarrow> trust_loop ip raws (nets @ [PrefixFrom ip a]))))"

definition NewProxyTrust :: "('addr, 'prefix) netip \<Rightarrow> string \<Rightarrow> 'prefix list option" where
  "NewProxyTrust ip l = trust_loop ip (split_on CHR '','' l) []"

definition Trusted :: "('addr, 'prefix) netip \<Rightarrow> 'prefix list \<Rightarrow> string \<Rightarrow> bool" where
  "Trusted ip nets s =
     (if nets = [] then False
      else (case ParseAddr ip s of
              None \<Rightarrow> False
            | Some a \<Rightarrow> list_ex (\<lambda>n. PrefixContains ip n (Unmap ip a)) nets))"

definition host_of :: "('addr, 'prefix) netip \<Rightarrow> string \<Rightarrow> string" where
  "host_of ip s = (case SplitHostPort ip s of Some h \<Rightarrow> h | None \<Rightarrow> s)"

text \<open>\<^verbatim>\<open>strings.Trim(hop, "[]")\<close>.\<close>

definition trim_brackets :: "string \<Rightarrow> string" where
  "trim_brackets s =
     (let b = (\<lambda>c. c = CHR ''['' \<or> c = CHR '']'') in rev (dropWhile b (rev (dropWhile b s))))"

fun hop_loop :: "('addr, 'prefix) netip \<Rightarrow> 'prefix list \<Rightarrow> string \<Rightarrow> string list \<Rightarrow> string" where
  "hop_loop ip nets peer [] = peer"
| "hop_loop ip nets peer (p # parts) =
     (let hop = trim_brackets (host_of ip (TrimSpace p)) in
      if hop = [] then hop_loop ip nets peer parts
      else if ParseAddr ip hop = None then peer
      else if \<not> Trusted ip nets hop then hop
      else hop_loop ip nets peer parts)"

definition ClientIPFrom :: "('addr, 'prefix) netip \<Rightarrow> string \<Rightarrow> string \<Rightarrow> 'prefix list \<Rightarrow> string" where
  "ClientIPFrom ip peerAddr forwardedFor nets =
     (let peer = host_of ip peerAddr in
      if \<not> Trusted ip nets peer \<or> forwardedFor = [] then peer
      else hop_loop ip nets peer (rev (split_on CHR '','' forwardedFor)))"

section \<open>Which address is believed\<close>

lemma hop_loop_decided:
  "hop_loop ip nets peer parts \<noteq> peer \<Longrightarrow> hop_loop ip nets peer (parts @ rest) = hop_loop ip nets peer parts"
  by (induction parts) (auto simp: Let_def split: if_splits)

lemma hop_loop_addr:
  "hop_loop ip nets peer parts \<noteq> peer \<Longrightarrow>
     \<not> Trusted ip nets (hop_loop ip nets peer parts) \<and> ParseAddr ip (hop_loop ip nets peer parts) \<noteq> None"
  by (induction parts) (auto simp: Let_def split: if_splits)

text \<open>The client's address cannot be chosen by the client: from a peer that is not a named proxy
  the forwarding header is ignored, and once the hops a proxy appended name an address, nothing
  placed to the left of them changes the answer, which is a well-formed address that is not itself
  a proxy.\<close>

theorem client_ip_unforgeable:
  "(ClientIPFrom ip peerAddr forwardedFor nets = host_of ip peerAddr \<or>
     Trusted ip nets (host_of ip peerAddr) \<and>
     \<not> Trusted ip nets (ClientIPFrom ip peerAddr forwardedFor nets) \<and>
     ParseAddr ip (ClientIPFrom ip peerAddr forwardedFor nets) \<noteq> None) \<and>
   (ClientIPFrom ip peerAddr forwardedFor nets = host_of ip peerAddr \<or>
     ClientIPFrom ip peerAddr (forged @ '','' @ forwardedFor) nets = ClientIPFrom ip peerAddr forwardedFor nets)"
proof (cases "ClientIPFrom ip peerAddr forwardedFor nets = host_of ip peerAddr")
  case False
  then have t: "Trusted ip nets (host_of ip peerAddr)" and ne: "forwardedFor \<noteq> []"
    and c: "ClientIPFrom ip peerAddr forwardedFor nets =
      hop_loop ip nets (host_of ip peerAddr) (rev (split_on CHR '','' forwardedFor))"
    by (auto simp: ClientIPFrom_def Let_def split: if_splits)
  let ?parts = "rev (split_on CHR '','' forwardedFor)"
  have ne': "hop_loop ip nets (host_of ip peerAddr) ?parts \<noteq> host_of ip peerAddr" using False c by simp
  have "ClientIPFrom ip peerAddr (forged @ '','' @ forwardedFor) nets =
      hop_loop ip nets (host_of ip peerAddr) (?parts @ rev (split_on CHR '','' forged))"
    using t by (simp add: ClientIPFrom_def Let_def split_on_append_sep)
  with hop_loop_decided [OF ne'] hop_loop_addr [OF ne'] t c show ?thesis by simp
qed simp

end
