(* ===== verification/Gate_Decision.thy ===== *)
theory Gate_Decision
  imports Route_Match Snapshot_Manager Snapshot_Loader Access_Token Principal
begin

text \<open>
  \<^verbatim>\<open>internal/gate/app/decision.go\<close> and \<^verbatim>\<open>granted_nodes_interactor.go\<close>: the forward-auth answer, from
  the snapshot and the key ring alone. The \<^verbatim>\<open>Snapshots\<close> interface is the function \<open>snaps\<close>; the
  clock is read once in \<^verbatim>\<open>verify\<close> and once at the permission check.
\<close>

section \<open>decision.go\<close>

record Request =
  Rq_Tenant :: string
  Rq_Method :: string
  Rq_Path :: string
  Rq_Host :: string
  Rq_Token :: string

datatype Outcome = Allow | Unauthenticated | Denied | Unavailable | BadRequest

record Decision =
  Dc_Outcome :: Outcome
  Dc_Reason :: string
  Dc_Subject :: string
  Dc_Session :: string
  Dc_Scopes :: "(string, string) gomap"

record Decider =
  De_issuer :: string
  De_ring :: Ring
  De_equal_fold :: "string \<Rightarrow> string \<Rightarrow> bool"
  De_ed :: ed25519
  De_json :: json

definition answer :: "Outcome \<Rightarrow> string \<Rightarrow> Decision" where
  "answer out reason = \<lparr>Dc_Outcome = out, Dc_Reason = reason, Dc_Subject = [], Dc_Session = [], Dc_Scopes = []\<rparr>"

definition verify :: "Decider \<Rightarrow> string \<Rightarrow> Data \<Rightarrow> time \<Rightarrow> Claims option" where
  "verify d token snap clock =
     (if token = [] then None
      else (case Kid (De_json d) token of
         Inl e \<Rightarrow> None
       | Inr kid \<Rightarrow>
           (case Lookup (De_ring d) kid of
              Inl e \<Rightarrow> None
            | Inr key \<Rightarrow>
                if Key_Purpose key \<noteq> PurposeAccess then None
                else (case VerifyToken (De_ed d) (De_json d) (Key_Public key) token of
                   Inl e \<Rightarrow> None
                 | Inr msg \<Rightarrow>
                     (case js_claims (De_json d) msg of
                        None \<Rightarrow> None
                      | Some claims \<Rightarrow>
                          let now = Unix clock in
                          if Cl_Issuer claims \<noteq> De_issuer d \<or> Cl_Tenant claims \<noteq> Data_TenantSlug snap \<or>
                             (Cl_Expires claims \<noteq> 0 \<and> now > Cl_Expires claims) \<or>
                             (Cl_NotBefore claims \<noteq> 0 \<and> now < int64 (Cl_NotBefore claims - 60))
                          then None
                          else if \<not> SessionAlive snap (Cl_Session claims) (Cl_Epoch claims) (Cl_Subject claims)
                          then None
                          else Some claims)))))"

definition bind_target :: "Claims \<Rightarrow> (string, string) gomap \<Rightarrow> targets \<Rightarrow> string \<times> string \<Rightarrow> targets" where
  "bind_target claims params targets b =
     (let (axis, src) = b in
      if src = ''token'' then
        (case map_of (Cl_Scopes claims) axis of None \<Rightarrow> targets | Some v \<Rightarrow> map_put axis v targets)
      else if HasPrefix src ''path.'' then
        (case map_of params (drop 5 src) of None \<Rightarrow> targets | Some v \<Rightarrow> map_put axis v targets)
      else targets)"

definition Decide :: "Decider \<Rightarrow> (string \<Rightarrow> Data option \<times> bool) \<Rightarrow> Request \<Rightarrow> time \<Rightarrow> time \<Rightarrow> Decision" where
  "Decide d snaps req clock1 clock2 =
     (if Rq_Path req = [] \<or> Rq_Method req = [] then answer BadRequest ''missing method or path''
      else (case snaps (Rq_Tenant req) of
         (None, _) \<Rightarrow> answer Unavailable ''authorization snapshot unavailable''
       | (Some snap, is_fresh) \<Rightarrow>
           if \<not> is_fresh then answer Unavailable ''authorization snapshot unavailable''
           else (case NormalizePath (Rq_Path req) of
              Inl e \<Rightarrow> answer Denied ''ambiguous path''
            | Inr normPath \<Rightarrow>
                (case Match (De_equal_fold d) (Data_Routes snap) (Rq_Host req) (Rq_Method req) normPath of
                   None \<Rightarrow> answer Denied ''no route policy''
                 | Some (route, params) \<Rightarrow>
                     if Route_Effect route = ''public'' then answer Allow ''public route''
                     else if Route_Effect route = ''deny'' then answer Denied ''denied by policy''
                     else (case verify d (Rq_Token req) snap clock1 of
                        None \<Rightarrow> answer Unauthenticated ''authentication required''
                      | Some claims \<Rightarrow>
                          if list_ex (\<lambda>m. m = ''link'') (Cl_AMR claims)
                          then answer Denied ''an access link does not pass the gate''
                          else if Route_Effect route = ''require_permission'' \<and>
                             \<not> Evaluate snap (Cl_Subject claims) (Route_PermissionKey route)
                                 (foldl (bind_target claims params) [] (Route_ScopeBindings route)) clock2
                          then answer Denied ''permission denied''
                          else \<lparr>Dc_Outcome = Allow, Dc_Reason = ''allowed'', Dc_Subject = Cl_Subject claims,
                                Dc_Session = Cl_Session claims, Dc_Scopes = Cl_Scopes claims\<rparr>)))))"

section \<open>granted_nodes_interactor.go\<close>

record NodesInput =
  NI_Subject :: string
  NI_Permission :: string
  NI_Axis :: string
  NI_Scopes :: "(string, string) gomap"

definition GrantedNodes_Execute ::
  "Principal option \<Rightarrow> (string \<Rightarrow> Data option \<times> bool) \<Rightarrow> NodesInput \<Rightarrow> time \<Rightarrow> Nodes result" where
  "GrantedNodes_Execute ctx snaps inp now =
     (case ctx of
        None \<Rightarrow> Inl ErrUnauthenticated
      | Some p \<Rightarrow>
          if LinkBound p then Inl ErrPermissionDenied
          else if NI_Subject inp = [] \<or> NI_Permission inp = [] \<or> \<not> ValidCode (NI_Axis inp) then Inl ErrInvalidArgument
          else if \<not> MayAskAbout p (NI_Subject inp) then Inl ErrPermissionDenied
          else if length (NI_Scopes inp) > 16 then Inl ErrInvalidArgument
          else if \<not> list_all (\<lambda>e. ValidCode (fst e)) (NI_Scopes inp) then Inl ErrInvalidArgument
          else (case snaps (Pr_TenantSlug p) of
             (Some snap, True) \<Rightarrow>
               (let (out, known) = GrantedNodes snap (NI_Subject inp) (NI_Permission inp) (NI_Axis inp) (NI_Scopes inp) now
                in if \<not> known then Inl ErrNotFound else Inr out)
           | _ \<Rightarrow> Inl ErrSnapshotUnavailable))"

definition CanReach :: "(string \<Rightarrow> Data option \<times> bool) \<Rightarrow> string \<Rightarrow> string \<Rightarrow> string \<Rightarrow> string \<Rightarrow> time \<Rightarrow> bool result" where
  "CanReach snaps tenantSlug identityID axis nodeID now =
     (case snaps tenantSlug of
        (Some snap, True) \<Rightarrow> Inr (Reaches snap identityID axis nodeID now)
      | _ \<Rightarrow> Inl ErrSnapshotUnavailable)"

section \<open>What an allowed request has\<close>

text \<open>The token is signed by an access key of the ring, was issued here for this tenant, is inside
  its time window and its session is alive in the snapshot.\<close>

definition token_good :: "Decider \<Rightarrow> Data \<Rightarrow> string \<Rightarrow> time \<Rightarrow> Claims \<Rightarrow> bool" where
  "token_good d snap token clock claims \<longleftrightarrow>
     (\<exists>kid key msg. Kid (De_json d) token = Inr kid \<and> Lookup (De_ring d) kid = Inr key \<and>
        Key_Purpose key = PurposeAccess \<and> VerifyToken (De_ed d) (De_json d) (Key_Public key) token = Inr msg \<and>
        js_claims (De_json d) msg = Some claims) \<and>
     Cl_Issuer claims = De_issuer d \<and> Cl_Tenant claims = Data_TenantSlug snap \<and>
     (Cl_Expires claims = 0 \<or> Unix clock \<le> Cl_Expires claims) \<and>
     (Cl_NotBefore claims = 0 \<or> int64 (Cl_NotBefore claims - 60) \<le> Unix clock) \<and>
     \<not> flag (Data_RevokedSessions snap) (Cl_Session claims) \<and>
     (\<exists>ident. map_of (Data_Identities snap) (Cl_Subject claims) = Some ident \<and> \<not> Ident_Blocked ident \<and>
        Ident_TokenEpoch ident = Cl_Epoch claims)"

lemma verify_good: "verify d token snap clock = Some claims \<Longrightarrow> token \<noteq> [] \<and> token_good d snap token clock claims"
  unfolding verify_def token_good_def
  by (auto simp: SessionAlive_def Let_def split: sum.splits option.splits if_splits)

lemma answer_sel [simp]: "Dc_Outcome (answer out reason) = out"
  by (simp add: answer_def)

lemma Decide_allow:
  assumes "Dc_Outcome (Decide d snaps req clock1 clock2) = Allow"
  obtains snap normPath route params where "snaps (Rq_Tenant req) = (Some snap, True)"
    "NormalizePath (Rq_Path req) = Inr normPath"
    "Match (De_equal_fold d) (Data_Routes snap) (Rq_Host req) (Rq_Method req) normPath = Some (route, params)"
    "Route_Effect route = ''public'' \<or>
     (Route_Effect route \<noteq> ''deny'' \<and> (\<exists>claims. verify d (Rq_Token req) snap clock1 = Some claims \<and>
        ''link'' \<notin> set (Cl_AMR claims) \<and>
        (Route_Effect route = ''require_permission'' \<longrightarrow>
           Evaluate snap (Cl_Subject claims) (Route_PermissionKey route)
             (foldl (bind_target claims params) [] (Route_ScopeBindings route)) clock2)))"
proof -
  have nb: "\<not> (Rq_Path req = [] \<or> Rq_Method req = [])"
    using assms by (cases "Rq_Path req = [] \<or> Rq_Method req = []") (simp_all add: Decide_def)
  obtain snap where s: "snaps (Rq_Tenant req) = (Some snap, True)"
  proof -
    obtain o1 f where of: "snaps (Rq_Tenant req) = (o1, f)" by (cases "snaps (Rq_Tenant req)")
    with assms nb show ?thesis by (cases o1; cases f) (simp_all add: Decide_def that)
  qed
  obtain path where n: "NormalizePath (Rq_Path req) = Inr path"
    using assms nb s by (cases "NormalizePath (Rq_Path req)") (simp_all add: Decide_def)
  obtain route params where
    m: "Match (De_equal_fold d) (Data_Routes snap) (Rq_Host req) (Rq_Method req) path = Some (route, params)"
    using assms nb s n
    by (cases "Match (De_equal_fold d) (Data_Routes snap) (Rq_Host req) (Rq_Method req) path") (auto simp: Decide_def)
  have "Route_Effect route = ''public'' \<or>
     (Route_Effect route \<noteq> ''deny'' \<and> (\<exists>claims. verify d (Rq_Token req) snap clock1 = Some claims \<and>
        ''link'' \<notin> set (Cl_AMR claims) \<and>
        (Route_Effect route = ''require_permission'' \<longrightarrow>
           Evaluate snap (Cl_Subject claims) (Route_PermissionKey route)
             (foldl (bind_target claims params) [] (Route_ScopeBindings route)) clock2)))"
  proof (cases "verify d (Rq_Token req) snap clock1")
    case None
    with assms nb s n m show ?thesis by (simp add: Decide_def split: if_splits)
  next
    case (Some claims)
    with assms nb s n m show ?thesis by (simp add: Decide_def list_ex_iff split: if_splits)
  qed
  with s n m show ?thesis by (rule that)
qed

text \<open>Where a route takes an axis's target from.\<close>

definition bound_value :: "Claims \<Rightarrow> (string, string) gomap \<Rightarrow> string \<Rightarrow> string \<Rightarrow> string option" where
  "bound_value claims params axis src =
     (if src = ''token'' then map_of (Cl_Scopes claims) axis
      else if HasPrefix src ''path.'' then map_of params (drop 5 src) else None)"

definition bound_target :: "Claims \<Rightarrow> (string, string) gomap \<Rightarrow> (string, string) gomap \<Rightarrow> string \<Rightarrow> string option" where
  "bound_target claims params bindings axis = Option.bind (map_of bindings axis) (bound_value claims params axis)"

lemma bind_target_map_of:
  "map_of (bind_target claims params ts (a, src)) axis =
     (if axis = a \<and> bound_value claims params a src \<noteq> None then bound_value claims params a src else map_of ts axis)"
  by (simp add: bind_target_def bound_value_def go_simps split: option.split)

lemma bind_targets:
  assumes "distinct (map fst bindings)"
  shows "map_of (foldl (bind_target claims params) ts bindings) axis =
     (if bound_target claims params bindings axis = None then map_of ts axis else bound_target claims params bindings axis)"
  using assms
proof (induction bindings arbitrary: ts)
  case (Cons b bindings)
  obtain a src where b: "b = (a, src)" by force
  have "map_of bindings a = None" using Cons.prems b by (simp add: map_of_eq_None_iff)
  then have "bound_target claims params bindings a = None" by (simp add: bound_target_def)
  moreover have "bound_target claims params (b # bindings) axis =
      (if axis = a then bound_value claims params a src else bound_target claims params bindings axis)"
    by (simp add: b bound_target_def)
  moreover have "map_of (foldl (bind_target claims params) (bind_target claims params ts b) bindings) axis =
      (if bound_target claims params bindings axis = None then map_of (bind_target claims params ts b) axis
       else bound_target claims params bindings axis)"
    using Cons.prems by (intro Cons.IH) simp
  ultimately show ?case by (simp add: b bind_target_map_of)
qed (simp add: bound_target_def)

text \<open>C4. The gate lets a request through only for a reason: an allowed request found a fresh snapshot
  of its tenant, its path is canonical and the first route policy that accepts it is public, or is
  not a deny and the bearer token is good (signed by an access key of the ring for this issuer and
  tenant, in its time window, its session not revoked, its subject not blocked and at the token's
  epoch), is not an access link, and, where the route requires a permission, the evaluator grants
  it at the targets the route binds.\<close>

theorem gate_allows_only:
  assumes "Dc_Outcome (Decide d snaps req clock1 clock2) = Allow"
  shows "\<exists>snap path i. snaps (Rq_Tenant req) = (Some snap, True) \<and> NormalizePath (Rq_Path req) = Inr path \<and>
     canonical_path path \<and> i < length (Data_Routes snap) \<and>
     (\<forall>j<i. \<not> route_accepts (De_equal_fold d) (Data_Routes snap ! j) (Rq_Host req) (Rq_Method req) path) \<and>
     (let route = Data_Routes snap ! i in
      route_accepts (De_equal_fold d) route (Rq_Host req) (Rq_Method req) path \<and>
      (Route_Effect route = ''public'' \<or>
       Route_Effect route \<noteq> ''deny'' \<and>
       (\<exists>claims. token_good d snap (Rq_Token req) clock1 claims \<and> ''link'' \<notin> set (Cl_AMR claims) \<and>
          (Route_Effect route = ''require_permission'' \<longrightarrow>
             Evaluate snap (Cl_Subject claims) (Route_PermissionKey route)
               (foldl (bind_target claims (fst (pathMatch (Route_PathPattern route) path))) [] (Route_ScopeBindings route)) clock2))))"
proof -
  from assms obtain snap path route params where s: "snaps (Rq_Tenant req) = (Some snap, True)"
    and n: "NormalizePath (Rq_Path req) = Inr path"
    and m: "Match (De_equal_fold d) (Data_Routes snap) (Rq_Host req) (Rq_Method req) path = Some (route, params)"
    and a: "Route_Effect route = ''public'' \<or>
     (Route_Effect route \<noteq> ''deny'' \<and> (\<exists>claims. verify d (Rq_Token req) snap clock1 = Some claims \<and>
        ''link'' \<notin> set (Cl_AMR claims) \<and>
        (Route_Effect route = ''require_permission'' \<longrightarrow>
           Evaluate snap (Cl_Subject claims) (Route_PermissionKey route)
             (foldl (bind_target claims params) [] (Route_ScopeBindings route)) clock2)))"
    by (rule Decide_allow)
  have c: "canonical_path path" using normalize_shape [OF n] by (simp add: canonical_path_def)
  from m obtain i where i: "i < length (Data_Routes snap)" "Data_Routes snap ! i = route"
    "route_accepts (De_equal_fold d) route (Rq_Host req) (Rq_Method req) path"
    "\<forall>j<i. \<not> route_accepts (De_equal_fold d) (Data_Routes snap ! j) (Rq_Host req) (Rq_Method req) path"
    and p: "params = fst (pathMatch (Route_PathPattern route) path)"
    unfolding Match_find by (auto simp: find_Some_first)
  have "Route_Effect route = ''public'' \<or>
       Route_Effect route \<noteq> ''deny'' \<and>
       (\<exists>claims. token_good d snap (Rq_Token req) clock1 claims \<and> ''link'' \<notin> set (Cl_AMR claims) \<and>
          (Route_Effect route = ''require_permission'' \<longrightarrow>
             Evaluate snap (Cl_Subject claims) (Route_PermissionKey route)
               (foldl (bind_target claims (fst (pathMatch (Route_PathPattern route) path))) [] (Route_ScopeBindings route)) clock2))"
    using a verify_good unfolding p by blast
  with s n c i show ?thesis unfolding Let_def by blast
qed

definition demo_gate_data :: Data where
  "demo_gate_data = demo_data\<lparr>Data_Routes := [demo_route]\<rparr>"

definition demo_decider :: Decider where
  "demo_decider = \<lparr>De_issuer = ''anubis'', De_ring = demo_ring, De_equal_fold = (=), De_ed = toy_ed, De_json = toy_json\<rparr>"

definition demo_request :: "string \<Rightarrow> Request" where
  "demo_request path = \<lparr>Rq_Tenant = ''acme'', Rq_Method = ''GET'', Rq_Path = path, Rq_Host = ''h'', Rq_Token = demo_jws\<rparr>"

lemma demo_verify: "verify demo_decider demo_jws demo_gate_data 10 = Some demo_claims"
proof -
  have "demo_jws \<noteq> []" by (simp add: demo_jws_def)
  moreover have "SessionAlive demo_gate_data ''s1'' 0 ''alice''" "Data_TenantSlug demo_gate_data = ''acme''" by code_simp+
  moreover have "Lookup demo_ring ''ak_1'' = Inr demo_key" by (simp add: Lookup_def demo_ring_def)
  ultimately show ?thesis
    using demo_jws_ok(2,4)
    by (simp add: verify_def demo_decider_def demo_key_def toy_json_def [THEN arg_cong, of js_claims] demo_claims_def Unix_def)
qed

lemma demo_gate:
  "Dc_Outcome (Decide demo_decider (\<lambda>_. (Some demo_gate_data, True)) (demo_request ''/shops/shop/till'') 10 10) = Allow"
proof -
  have n: "NormalizePath ''/shops/shop/till'' = Inr ''/shops/shop/till''" by code_simp
  have m: "Match (=) (Data_Routes demo_gate_data) ''h'' ''GET'' ''/shops/shop/till'' = Some (demo_route, [(''id'', ''shop'')])"
    by code_simp
  have e: "Evaluate demo_gate_data ''alice'' ''sale''
      (foldl (bind_target demo_claims [(''id'', ''shop'')]) [] (Route_ScopeBindings demo_route)) 10" by code_simp
  show ?thesis
    using n m e demo_verify
    by (simp add: Decide_def demo_request_def demo_decider_def demo_route_def demo_claims_def)
qed

theorem gate_allows_only_witness:
  "\<exists>path. NormalizePath (Rq_Path (demo_request ''/shops/shop/till'')) = Inr path \<and> canonical_path path"
  using gate_allows_only [OF demo_gate] by blast

end
