(* ===== verification/Sdk_Verifier.thy ===== *)
theory Sdk_Verifier
  imports Access_Token
begin

text \<open>
  \<^verbatim>\<open>pkg/anubis/verifier.go\<close>, \<^verbatim>\<open>middleware.go\<close> and \<^verbatim>\<open>keys/\<close>: offline verification in a consuming
  service. The keys document is fetched over HTTP, so a fetch is the parameter \<open>http\<close>: the parsed
  document, or nothing when any part of the fetch failed.
\<close>

section \<open>keys\<close>

record Entry =
  En_Kid :: string
  En_Alg :: string
  En_PublicKey :: string
  En_NotBefore :: int
  En_NotAfter :: int

record Document =
  Doc_Issuer :: string
  Doc_Keys :: "Entry list"

type_synonym key_set = "(string, string) gomap"

fun parse_entries :: "Entry list \<Rightarrow> key_set \<Rightarrow> key_set option" where
  "parse_entries [] ks = Some ks"
| "parse_entries (k # rest) ks =
     (if En_Alg k \<noteq> ''Ed25519'' then parse_entries rest ks
      else (case DecodeString False (En_PublicKey k) of
              None \<Rightarrow> None
            | Some raw \<Rightarrow> if length raw \<noteq> PublicKeySize then None
                          else parse_entries rest (map_put (En_Kid k) raw ks)))"

definition ParseDocument :: "Document option \<Rightarrow> key_set option" where
  "ParseDocument doc =
     (case doc of None \<Rightarrow> None
      | Some d \<Rightarrow> if length (Doc_Keys d) > maxKeys then None else parse_entries (Doc_Keys d) [])"

record Cache =
  Ca_MinRefetch :: duration
  Ca_set :: "key_set option"
  Ca_lastFetch :: time

definition NewCache :: Cache where
  "NewCache = \<lparr>Ca_MinRefetch = 30 * Second, Ca_set = None, Ca_lastFetch = zero_time\<rparr>"

text \<open>\<^verbatim>\<open>fetchLocked\<close>: the time of the attempt is recorded whatever comes of it.\<close>

definition fetchLocked :: "Cache \<Rightarrow> Document option \<Rightarrow> time \<Rightarrow> Cache \<times> bool" where
  "fetchLocked kc http now =
     (let kc1 = kc\<lparr>Ca_lastFetch := now\<rparr> in
      case ParseDocument http of
        None \<Rightarrow> (kc1, False)
      | Some ks \<Rightarrow> (kc1\<lparr>Ca_set := Some ks\<rparr>, True))"

text \<open>The cache after the call, the key or error, and whether a request went out.\<close>

definition cache_Get :: "Cache \<Rightarrow> string \<Rightarrow> Document option \<Rightarrow> time \<Rightarrow> Cache \<times> (sdk_err + string) \<times> bool" where
  "cache_Get kc kid http now =
     (case (case Ca_set kc of None \<Rightarrow> None | Some ks \<Rightarrow> map_of ks kid) of
        Some pk \<Rightarrow> (kc, Inr pk, False)
      | None \<Rightarrow>
          if Ca_set kc = None \<or> time_sub now (Ca_lastFetch kc) \<ge> Ca_MinRefetch kc then
            (case fetchLocked kc http now of
               (kc1, ok) \<Rightarrow>
                 if \<not> ok \<and> Ca_set kc1 = None then (kc1, Inl ErrFetch, True)
                 else (case Ca_set kc1 of
                         None \<Rightarrow> (kc1, Inl ErrUnknownKid, True)
                       | Some ks \<Rightarrow> (case map_of ks kid of
                                       None \<Rightarrow> (kc1, Inl ErrUnknownKid, True)
                                     | Some pk \<Rightarrow> (kc1, Inr pk, True))))
          else (kc, Inl ErrUnknownKid, False))"

section \<open>verifier.go\<close>

record Config =
  Cfg_Issuer :: string
  Cfg_Audience :: string
  Cfg_KeysURL :: string
  Cfg_StaticKeys :: "key_set option"
  Cfg_Leeway :: duration

record Verifier =
  Vf_cfg :: Config
  Vf_cache :: "Cache option"

definition NewVerifier :: "Config \<Rightarrow> sdk_err + Verifier" where
  "NewVerifier cfg =
     (if Cfg_Audience cfg = [] then Inl ErrNoAudience
      else if Cfg_KeysURL cfg = [] \<and> Cfg_StaticKeys cfg = None then Inl ErrNoKeys
      else Inr \<lparr>Vf_cfg = (if Cfg_Leeway cfg = 0 then cfg\<lparr>Cfg_Leeway := 60 * Second\<rparr> else cfg),
                Vf_cache = (if Cfg_KeysURL cfg \<noteq> [] then Some NewCache else None)\<rparr>)"

definition verifier_key :: "Verifier \<Rightarrow> string \<Rightarrow> Document option \<Rightarrow> time \<Rightarrow> Verifier \<times> (sdk_err + string)" where
  "verifier_key v kid http now =
     (case (case Cfg_StaticKeys (Vf_cfg v) of None \<Rightarrow> None | Some ks \<Rightarrow> map_of ks kid) of
        Some pk \<Rightarrow> (v, Inr pk)
      | None \<Rightarrow>
          (case Vf_cache v of
             None \<Rightarrow> (v, Inl ErrUnknownKid)
           | Some kc \<Rightarrow> (case cache_Get kc kid http now of (kc1, r, _) \<Rightarrow> (v\<lparr>Vf_cache := Some kc1\<rparr>, r))))"

text \<open>The kid and the claims bytes under the key it selects.\<close>

definition sdk_message :: "ed25519 \<Rightarrow> json \<Rightarrow> Verifier \<Rightarrow> string \<Rightarrow> Document option \<Rightarrow> time \<Rightarrow> Verifier \<times> (sdk_err + string)" where
  "sdk_message ed js v token http now =
     (case (if HasPrefix token headerV4Public then
              (case Parse token of
                 Inl e \<Rightarrow> Inl ErrToken
               | Inr (m, sig, footer) \<Rightarrow>
                   if length footer > 0 then (case js_kid js footer of None \<Rightarrow> Inl ErrDecode | Some k \<Rightarrow> Inr k)
                   else Inr [])
            else (case jws_Parse js token of Inl e \<Rightarrow> Inl ErrToken | Inr (h, p, s) \<Rightarrow> Inr (Hd_Kid h))) of
        Inl e \<Rightarrow> (v, Inl e)
      | Inr kid \<Rightarrow>
          (case verifier_key v kid http now of
             (v1, Inl e) \<Rightarrow> (v1, Inl e)
           | (v1, Inr pk) \<Rightarrow> (v1, (case VerifyToken ed js pk token of Inl e \<Rightarrow> Inl ErrToken | Inr m \<Rightarrow> Inr m))))"

definition sdk_Verify :: "ed25519 \<Rightarrow> json \<Rightarrow> Verifier \<Rightarrow> string \<Rightarrow> Document option \<Rightarrow> time \<Rightarrow> Verifier \<times> (sdk_err + Claims)" where
  "sdk_Verify ed js v token http now =
     (case sdk_message ed js v token http now of
        (v1, Inl e) \<Rightarrow> (v1, Inl e)
      | (v1, Inr msg) \<Rightarrow>
          (v1, (case js_claims js msg of
                  None \<Rightarrow> Inl ErrDecode
                | Some claims \<Rightarrow>
                    if Cl_Version claims \<noteq> 0 \<and> Cl_Version claims \<noteq> 1 then Inl ErrTokenVersion
                    else (case Validate claims now (Cfg_Issuer (Vf_cfg v1)) (Cfg_Audience (Vf_cfg v1)) (Cfg_Leeway (Vf_cfg v1)) of
                            Some e \<Rightarrow> Inl e
                          | None \<Rightarrow> Inr claims))))"

section \<open>middleware.go\<close>

definition BearerToken :: "(string \<Rightarrow> string \<Rightarrow> bool) \<Rightarrow> string \<Rightarrow> string option" where
  "BearerToken equal_fold h =
     (let prefix = ''Bearer '' in
      if length h \<le> length prefix \<or> \<not> equal_fold (take (length prefix) h) prefix then None
      else Some (drop (length prefix) h))"

definition Middleware ::
  "(string \<Rightarrow> string \<Rightarrow> bool) \<Rightarrow> ed25519 \<Rightarrow> json \<Rightarrow> Verifier \<Rightarrow> string \<Rightarrow> Document option \<Rightarrow> time \<Rightarrow> Verifier \<times> (Claims \<times> string) option" where
  "Middleware equal_fold ed js v authorization http now =
     (case BearerToken equal_fold authorization of
        None \<Rightarrow> (v, None)
      | Some token \<Rightarrow>
          (case sdk_Verify ed js v token http now of
             (v1, Inl e) \<Rightarrow> (v1, None)
           | (v1, Inr claims) \<Rightarrow> (v1, Some (claims, token))))"

definition RequireAMR :: "string list \<Rightarrow> (Claims \<times> string) option \<Rightarrow> bool" where
  "RequireAMR methods p =
     (case p of None \<Rightarrow> False
      | Some (claims, _) \<Rightarrow>
          let have_amr = foldl (\<lambda>m a. map_put a True m) [] (Cl_AMR claims) in list_all (flag have_amr) methods)"

section \<open>What a verified request carries\<close>

definition in_time :: "Claims \<Rightarrow> time \<Rightarrow> duration \<Rightarrow> bool" where
  "in_time c now leeway \<longleftrightarrow>
     (Cl_Expires c = 0 \<or> Unix now \<le> int64 (Cl_Expires c + go_quot leeway Second)) \<and>
     (Cl_NotBefore c = 0 \<or> int64 (Cl_NotBefore c - go_quot leeway Second) \<le> Unix now)"

lemma Validate_None:
  "Validate c now issuer audience leeway = None \<longleftrightarrow>
     in_time c now leeway \<and> (issuer = [] \<or> Cl_Issuer c = issuer) \<and> audience \<noteq> [] \<and> audience \<in> set (Cl_Audience c)"
  by (auto simp: Validate_def in_time_def Let_def)

lemma cache_Get_set:
  "cache_Get kc kid http now = (kc1, Inr pk, f) \<Longrightarrow> \<exists>ks. Ca_set kc1 = Some ks \<and> map_of ks kid = Some pk"
  by (auto simp: cache_Get_def split: option.splits if_splits prod.splits)

lemma verifier_key_cfg: "verifier_key v kid http now = (v1, r) \<Longrightarrow> Vf_cfg v1 = Vf_cfg v"
  by (auto simp: verifier_key_def split: option.splits prod.splits)

lemma verifier_key_held:
  "verifier_key v kid http now = (v1, Inr pk) \<Longrightarrow>
     (\<exists>ks. Cfg_StaticKeys (Vf_cfg v) = Some ks \<and> map_of ks kid = Some pk) \<or>
     (\<exists>kc ks. Vf_cache v1 = Some kc \<and> Ca_set kc = Some ks \<and> map_of ks kid = Some pk)"
  by (auto simp: verifier_key_def dest: cache_Get_set split: option.splits prod.splits)

definition holds_key :: "Verifier \<Rightarrow> string \<Rightarrow> bool" where
  "holds_key v pk \<longleftrightarrow>
     (\<exists>ks kid. Cfg_StaticKeys (Vf_cfg v) = Some ks \<and> map_of ks kid = Some pk) \<or>
     (\<exists>kc ks kid. Vf_cache v = Some kc \<and> Ca_set kc = Some ks \<and> map_of ks kid = Some pk)"

lemma sdk_message_ok:
  assumes "sdk_message ed js v token http now = (v1, Inr msg)"
  shows "Vf_cfg v1 = Vf_cfg v \<and> (\<exists>pk. holds_key v1 pk \<and> VerifyToken ed js pk token = Inr msg)"
proof -
  from assms obtain kid pk where k: "verifier_key v kid http now = (v1, Inr pk)" and m: "VerifyToken ed js pk token = Inr msg"
    unfolding sdk_message_def by (auto split: sum.splits prod.splits if_splits option.splits)
  from verifier_key_held [OF k] verifier_key_cfg [OF k] have "holds_key v1 pk"
    unfolding holds_key_def by metis
  with verifier_key_cfg [OF k] m show ?thesis by blast
qed

text \<open>C40. What a consuming service accepts: a verifier that could be built accepts a token only when a
  key it holds verifies the token's signature over the claims, the service's own audience, which cannot be empty, is among
  the token's audiences, the token is inside its validity window up to the leeway (a minute unless configured; a claim of 0
  sets no bound), and its version is known. Where an issuer is configured it is the token's issuer, exactly; a verifier
  built without one checks no issuer and accepts any (recorded as a finding).\<close>

theorem sdk_accepts_only:
  assumes "NewVerifier cfg = Inr v0" and "Vf_cfg v = Vf_cfg v0"
    and "sdk_Verify ed js v token http now = (v1, Inr c)"
  shows "(\<exists>pk msg. holds_key v1 pk \<and> VerifyToken ed js pk token = Inr msg \<and> js_claims js msg = Some c) \<and>
     Cfg_Audience cfg \<noteq> [] \<and> Cfg_Audience cfg \<in> set (Cl_Audience c) \<and>
     (Cfg_Issuer cfg = [] \<or> Cl_Issuer c = Cfg_Issuer cfg) \<and> Cl_Version c \<in> {0, 1} \<and>
     in_time c now (if Cfg_Leeway cfg = 0 then 60 * Second else Cfg_Leeway cfg)"
proof -
  from assms(3) obtain msg where m: "sdk_message ed js v token http now = (v1, Inr msg)" and c: "js_claims js msg = Some c"
    and ver: "Cl_Version c \<in> {0, 1}"
    and val: "Validate c now (Cfg_Issuer (Vf_cfg v1)) (Cfg_Audience (Vf_cfg v1)) (Cfg_Leeway (Vf_cfg v1)) = None"
    unfolding sdk_Verify_def by (auto split: prod.splits sum.splits option.splits if_splits)
  have "Vf_cfg v1 = (if Cfg_Leeway cfg = 0 then cfg\<lparr>Cfg_Leeway := 60 * Second\<rparr> else cfg)"
    using sdk_message_ok [OF m] assms(1,2) by (auto simp: NewVerifier_def split: if_splits)
  then have "Cfg_Issuer (Vf_cfg v1) = Cfg_Issuer cfg" "Cfg_Audience (Vf_cfg v1) = Cfg_Audience cfg"
    "Cfg_Leeway (Vf_cfg v1) = (if Cfg_Leeway cfg = 0 then 60 * Second else Cfg_Leeway cfg)" by simp_all
  with val have "Validate c now (Cfg_Issuer cfg) (Cfg_Audience cfg)
      (if Cfg_Leeway cfg = 0 then 60 * Second else Cfg_Leeway cfg) = None" by metis
  with c ver sdk_message_ok [OF m] show ?thesis unfolding Validate_None by blast
qed

text \<open>Without a configured issuer a verifier is built all the same, and the token's issuer makes no difference to the check.\<close>

lemma unset_issuer_unchecked:
  assumes "Cfg_Issuer cfg = []"
  shows "isl (NewVerifier cfg) = isl (NewVerifier (cfg\<lparr>Cfg_Issuer := iss\<rparr>))"
    and "Validate (c\<lparr>Cl_Issuer := iss\<rparr>) now (Cfg_Issuer cfg) audience leeway = Validate c now (Cfg_Issuer cfg) audience leeway"
  using assms by (simp_all add: NewVerifier_def Validate_def Let_def)

definition demo_cfg :: Config where
  "demo_cfg = \<lparr>Cfg_Issuer = ''anubis'', Cfg_Audience = ''shop'', Cfg_KeysURL = [],
     Cfg_StaticKeys = Some [(''ak_1'', replicate 32 CHR ''p'')], Cfg_Leeway = 0\<rparr>"

definition demo_verifier :: Verifier where
  "demo_verifier = \<lparr>Vf_cfg = demo_cfg\<lparr>Cfg_Leeway := 60 * Second\<rparr>, Vf_cache = None\<rparr>"

theorem sdk_accepts_only_witness:
  "sdk_Verify toy_ed toy_json demo_verifier demo_jws None (150 * Second) = (demo_verifier, Inr demo_claims) \<and>
   in_time demo_claims (150 * Second) (60 * Second)"
proof -
  have n: "NewVerifier demo_cfg = Inr demo_verifier" by (simp add: NewVerifier_def demo_cfg_def demo_verifier_def)
  obtain h sig where "jws_Parse toy_json demo_jws = Inr (h, ''claims'', sig)" "Hd_Kid h = ''ak_1''"
    using demo_jws_ok by (auto simp: ClaimsUnverified_def Kid_def split: sum.splits)
  then have m: "sdk_message toy_ed toy_json demo_verifier demo_jws None (150 * Second) = (demo_verifier, Inr ''claims'')"
    using demo_jws_ok by (simp add: sdk_message_def verifier_key_def demo_verifier_def demo_cfg_def)
  have v: "sdk_Verify toy_ed toy_json demo_verifier demo_jws None (150 * Second) = (demo_verifier, Inr demo_claims)"
    unfolding sdk_Verify_def m
    by (simp add: toy_json_def Validate_def demo_claims_def demo_verifier_def demo_cfg_def Unix_def go_simps)
  show ?thesis using sdk_accepts_only [OF n refl v] v by (simp add: demo_cfg_def)
qed

section \<open>How often keys are fetched\<close>

fun cache_run :: "Cache \<Rightarrow> (string \<times> Document option \<times> time) list \<Rightarrow> Cache \<times> nat" where
  "cache_run kc [] = (kc, 0)"
| "cache_run kc ((kid, http, now) # reqs) =
     (case cache_Get kc kid http now of
        (kc1, r, fetched) \<Rightarrow> (case cache_run kc1 reqs of (kc2, n) \<Rightarrow> (kc2, n + (if fetched then 1 else 0))))"

lemma cache_Get_step:
  assumes "cache_Get kc kid http now = (kc1, r, fetched)" and "Ca_set kc \<noteq> None"
  shows "Ca_set kc1 \<noteq> None \<and> Ca_MinRefetch kc1 = Ca_MinRefetch kc \<and>
     (if fetched then Ca_lastFetch kc1 = now \<and> Ca_MinRefetch kc \<le> time_sub now (Ca_lastFetch kc)
      else kc1 = kc)"
  using assms by (auto simp: cache_Get_def fetchLocked_def Let_def split: option.splits if_splits)

lemma cache_quiet:
  assumes "Ca_set kc \<noteq> None" and "Ca_MinRefetch kc = 30 * Second"
    and "\<forall>(kid, http, now)\<in>set reqs. now - Ca_lastFetch kc < 30 * Second"
  shows "snd (cache_run kc reqs) = 0"
  using assms
proof (induction reqs arbitrary: kc)
  case (Cons q reqs)
  obtain kid http now where q: "q = (kid, http, now)" by (cases q) auto
  obtain kc1 r f where g: "cache_Get kc kid http now = (kc1, r, f)" by (cases "cache_Get kc kid http now") auto
  have "now - Ca_lastFetch kc < 30 * Second" using Cons.prems(3) q by auto
  then have "time_sub now (Ca_lastFetch kc) < 30 * Second" by (simp add: time_sub_def)
  with cache_Get_step [OF g Cons.prems(1)] Cons.prems(2) have "\<not> f" and "kc1 = kc" by (auto split: if_splits)
  with Cons.IH [of kc] Cons.prems g show ?case by (simp add: q split_beta)
qed simp

text \<open>Garbage key ids do not become a stream of requests: once the keys document has been fetched,
  any number of tokens naming any key ids within half a minute cause at most one outbound
  request.\<close>

theorem warm_cache_rate_limited:
  assumes "Ca_set kc \<noteq> None" and "Ca_MinRefetch kc = Ca_MinRefetch NewCache"
    and "\<forall>(kid, http, now)\<in>set reqs. t \<le> now \<and> now < t + 30 * Second"
  shows "snd (cache_run kc reqs) \<le> 1"
  using assms
proof (induction reqs arbitrary: kc)
  case (Cons q reqs)
  obtain kid http now where q: "q = (kid, http, now)" by (cases q) auto
  obtain kc1 r f where g: "cache_Get kc kid http now = (kc1, r, f)" by (cases "cache_Get kc kid http now") auto
  note step = cache_Get_step [OF g Cons.prems(1)]
  have refetch: "Ca_MinRefetch kc1 = 30 * Second" using step Cons.prems(2) by (simp add: NewCache_def)
  show ?case
  proof (cases f)
    case True
    then have "Ca_lastFetch kc1 = now" using step by simp
    moreover have "t \<le> now" using Cons.prems(3) q by auto
    ultimately have "\<forall>(kid, http, u)\<in>set reqs. u - Ca_lastFetch kc1 < 30 * Second"
      using Cons.prems(3) by fastforce
    with cache_quiet [OF _ refetch] step have "snd (cache_run kc1 reqs) = 0" by blast
    with g show ?thesis by (simp add: q split_beta)
  next
    case False
    with step Cons.IH [of kc] Cons.prems g show ?thesis by (simp add: q split_beta)
  qed
qed simp

theorem warm_cache_rate_limited_witness:
  "snd (cache_run \<lparr>Ca_MinRefetch = 30 * Second, Ca_set = Some [], Ca_lastFetch = 0\<rparr>
     [(''a'', None, 40 * Second), (''b'', None, 41 * Second), (''c'', None, 42 * Second)]) \<le> 1"
  by (rule warm_cache_rate_limited [where t = "40 * Second"]) (simp_all add: NewCache_def)

text \<open>The limit does not hold before the first successful fetch: while the keys document cannot be
  fetched, every single lookup goes out again, however close together they are.\<close>

theorem cold_cache_unlimited:
  "snd (cache_run NewCache (replicate n (kid, None, now))) = n"
proof -
  have "Ca_set kc = None \<Longrightarrow> snd (cache_run kc (replicate n (kid, None, now))) = n" for kc
    by (induction n arbitrary: kc) (simp_all add: cache_Get_def fetchLocked_def ParseDocument_def Let_def split_beta)
  then show ?thesis by (simp add: NewCache_def)
qed

text \<open>A published key's validity window is not read: two keys documents that differ only in the
  windows of their keys give a consuming service the same key set.\<close>

theorem key_window_ignored:
  "ParseDocument (Some (d\<lparr>Doc_Keys := map (\<lambda>k. k\<lparr>En_NotBefore := nb k, En_NotAfter := na k\<rparr>) (Doc_Keys d)\<rparr>)) =
     ParseDocument (Some d)"
proof -
  have "parse_entries (map (\<lambda>k. k\<lparr>En_NotBefore := nb k, En_NotAfter := na k\<rparr>) es) ks = parse_entries es ks" for es ks
    by (induction es ks rule: parse_entries.induct) (auto split: option.splits)
  then show ?thesis by (simp add: ParseDocument_def)
qed

end
