(* ===== verification/Grant_Change.thy ===== *)
theory Grant_Change
  imports Scope_Index "HOL-Library.Char_ord" "HOL-Library.List_Lexorder" "HOL-Library.Product_Lexorder"
begin

text \<open>
  The planner of bulk changes to grants, \<^verbatim>\<open>internal/authz/domain/grantchange\<close>: what a change
  asks for (\<open>Spec\<close>), what it can alter about one grant (\<open>State\<close>), and \<open>Build\<close>, which works out from
  the grants as they stand which are altered, to what, and which are left alone and why.

  The lemmas relate a plan to the rule by which the picks of a grant are read
  (\<open>Scope_Index.covers\<close> and \<open>Scope_Index.admits\<close>: some include covers the place and no exclude
  does; no picks on a kind of place means every place, or none where the default is deny): adding and
  growing never take a place away, removing never gives one, and no change touches the picks of
  another kind of place.
\<close>

section \<open>Data\<close>

definition AddPlace :: string where "AddPlace = ''add_place''"
definition RemovePlace :: string where "RemovePlace = ''remove_place''"
definition SwapPlace :: string where "SwapPlace = ''swap_place''"
definition Grow :: string where "Grow = ''grow''"
definition SetUntil :: string where "SetUntil = ''set_until''"
definition Revoke :: string where "Revoke = ''revoke''"

lemmas kind_defs = AddPlace_def RemovePlace_def SwapPlace_def Grow_def SetUntil_def Revoke_def

definition MaxGrants :: nat where "MaxGrants = 10000"

record Spec =
  Spec_RoleID :: string
  Spec_Covers :: "string list"
  Spec_SiblingsOf :: string
  Spec_Kind :: string
  Spec_Axis :: string
  Spec_NodeID :: string
  Spec_ToNodeID :: string
  Spec_Inherit :: bool
  Spec_Until :: "time option"
  Spec_Reason :: string

record Pin =
  Pin_Axis :: string
  Pin_NodeID :: string
  Pin_Inherit :: bool
  Pin_Exclude :: bool

record State =
  St_Pins :: "Pin list"
  St_Until :: "time option"
  St_Revoked :: bool

record AxisFacts =
  AF_Deny :: bool
  AF_RootID :: string
  AF_Siblings :: "string list"
  AF_Below :: "(string, bool) gomap"

record Candidate =
  Cand_GrantID :: string
  Cand_IdentityID :: string
  Cand_Username :: string
  Cand_SelfScoped :: bool
  Cand_FromGroup :: bool
  Cand_State :: State

record Item =
  Item_GrantID :: string
  Item_IdentityID :: string
  Item_Username :: string
  Item_Before :: State
  Item_After :: State

datatype Skip =
    SkipFromGroup | SkipSelf | SkipHasAll | SkipHasPlace | SkipNoPlace | SkipLastPlace
  | SkipAlreadyUntil | SkipCovered | UnknownChange

record Plan =
  Plan_Matched :: nat
  Plan_Items :: "Item list"
  Plan_Skipped :: "(Skip, nat) gomap"

definition NeedsAxis :: "Spec \<Rightarrow> bool" where
  "NeedsAxis s \<longleftrightarrow> Spec_Kind s = AddPlace \<or> Spec_Kind s = RemovePlace \<or> Spec_Kind s = SwapPlace \<or> Spec_Kind s = Grow"

section \<open>States\<close>

text \<open>\<^verbatim>\<open>slices.SortFunc\<close> on (axis, place). The sort is not stable, which only shows on two picks of
  one place, and the primary key of \<^verbatim>\<open>grant_scopes\<close> has no such pair.\<close>

definition pin_key :: "Pin \<Rightarrow> string \<times> string" where
  "pin_key p = (Pin_Axis p, Pin_NodeID p)"

definition sortedPins :: "State \<Rightarrow> Pin list" where
  "sortedPins s = sort_key pin_key (St_Pins s)"

definition SamePins :: "State \<Rightarrow> State \<Rightarrow> bool" where
  "SamePins s o' \<longleftrightarrow> sortedPins s = sortedPins o'"

definition Same :: "State \<Rightarrow> State \<Rightarrow> bool" where
  "Same s o' =
     (if St_Revoked s \<noteq> St_Revoked o' then False
      else (case (St_Until s, St_Until o') of
          (None, None) \<Rightarrow> sortedPins s = sortedPins o'
        | (Some u, Some v) \<Rightarrow> (if Unix u \<noteq> Unix v then False else sortedPins s = sortedPins o')
        | _ \<Rightarrow> False))"

definition includes_on :: "State \<Rightarrow> string \<Rightarrow> string list" where
  "includes_on s axis = map Pin_NodeID (filter (\<lambda>p. Pin_Axis p = axis \<and> \<not> Pin_Exclude p) (St_Pins s))"

definition hasExcludes :: "State \<Rightarrow> string \<Rightarrow> bool" where
  "hasExcludes s axis = list_ex (\<lambda>p. Pin_Axis p = axis \<and> Pin_Exclude p) (St_Pins s)"

definition pin :: "State \<Rightarrow> string \<Rightarrow> string \<Rightarrow> Pin option" where
  "pin s axis node = find (\<lambda>p. Pin_Axis p = axis \<and> Pin_NodeID p = node) (St_Pins s)"

definition without :: "State \<Rightarrow> string \<Rightarrow> (Pin \<Rightarrow> bool) \<Rightarrow> State" where
  "without s axis d = s\<lparr>St_Pins := filter (\<lambda>p. \<not> (Pin_Axis p = axis \<and> d p)) (St_Pins s)\<rparr>"

definition with_pin :: "State \<Rightarrow> Pin \<Rightarrow> State" where
  "with_pin s p = s\<lparr>St_Pins := St_Pins s @ [p]\<rparr>"

section \<open>Planning\<close>

definition matches :: "Spec \<Rightarrow> Candidate \<Rightarrow> AxisFacts \<Rightarrow> bool" where
  "matches s c f =
     (let have = includes_on (Cand_State c) (Spec_Axis s) in
      if Spec_Covers s \<noteq> [] \<and> list_ex (\<lambda>n. n \<notin> set have) (Spec_Covers s) then False
      else if Spec_SiblingsOf s \<noteq> [] then
        (if AF_Siblings f = [] then False
         else if Spec_SiblingsOf s \<in> set have then False
         else list_all (\<lambda>n. n \<in> set have) (AF_Siblings f))
      else True)"

definition grow :: "Spec \<Rightarrow> State \<Rightarrow> AxisFacts \<Rightarrow> Skip + State" where
  "grow s st f =
     (let ax = Spec_Axis s; inc = includes_on st ax in
      if Spec_NodeID s = [] then
        (if AF_Deny f \<or> hasExcludes st ax then
           (if (case pin st ax (AF_RootID f) of
                  None \<Rightarrow> False | Some root \<Rightarrow> Pin_Inherit root \<and> \<not> Pin_Exclude root \<and> length inc = 1)
            then Inl SkipHasAll
            else Inr (with_pin (without st ax (\<lambda>p. \<not> Pin_Exclude p))
                   \<lparr>Pin_Axis = ax, Pin_NodeID = AF_RootID f, Pin_Inherit = True, Pin_Exclude = False\<rparr>))
         else if inc = [] then Inl SkipHasAll
         else Inr (without st ax (\<lambda>p. True)))
      else if inc = [] \<and> \<not> AF_Deny f then Inl SkipHasAll
      else if (case pin st ax (Spec_NodeID s) of None \<Rightarrow> False | Some p \<Rightarrow> Pin_Inherit p \<and> \<not> Pin_Exclude p)
      then Inl SkipCovered
      else Inr (with_pin
             (without st ax (\<lambda>p. \<not> Pin_Exclude p \<and> (Pin_NodeID p = Spec_NodeID s \<or> flag (AF_Below f) (Pin_NodeID p))))
             \<lparr>Pin_Axis = ax, Pin_NodeID = Spec_NodeID s, Pin_Inherit = True, Pin_Exclude = False\<rparr>))"

definition apply_change :: "Spec \<Rightarrow> State \<Rightarrow> AxisFacts \<Rightarrow> Skip + State" where
  "apply_change s st f =
     (let ax = Spec_Axis s; inc = includes_on st ax in
      if Spec_Kind s = AddPlace then
        (if inc = [] \<and> \<not> AF_Deny f then Inl SkipHasAll
         else if (case pin st ax (Spec_NodeID s) of None \<Rightarrow> False | Some p \<Rightarrow> \<not> Pin_Exclude p)
         then Inl SkipHasPlace
         else Inr (with_pin (without st ax (\<lambda>p. Pin_NodeID p = Spec_NodeID s))
                \<lparr>Pin_Axis = ax, Pin_NodeID = Spec_NodeID s, Pin_Inherit = Spec_Inherit s, Pin_Exclude = False\<rparr>))
      else if Spec_Kind s = RemovePlace then
        (if Spec_NodeID s \<notin> set inc then Inl SkipNoPlace
         else if length inc = 1 then Inl SkipLastPlace
         else Inr (without st ax (\<lambda>p. Pin_NodeID p = Spec_NodeID s \<and> \<not> Pin_Exclude p)))
      else if Spec_Kind s = SwapPlace then
        (if Spec_NodeID s \<notin> set inc then Inl SkipNoPlace
         else Inr (with_pin
                (without st ax (\<lambda>p. Pin_NodeID p = Spec_NodeID s \<and> \<not> Pin_Exclude p \<or> Pin_NodeID p = Spec_ToNodeID s))
                \<lparr>Pin_Axis = ax, Pin_NodeID = Spec_ToNodeID s, Pin_Inherit = Spec_Inherit s, Pin_Exclude = False\<rparr>))
      else if Spec_Kind s = Grow then grow s st f
      else if Spec_Kind s = SetUntil then
        (if (case (St_Until st, Spec_Until s) of
               (None, None) \<Rightarrow> True | (Some u, Some v) \<Rightarrow> Unix u = Unix v | _ \<Rightarrow> False)
         then Inl SkipAlreadyUntil
         else Inr (st\<lparr>St_Until := Spec_Until s\<rparr>))
      else if Spec_Kind s = Revoke then Inr (st\<lparr>St_Revoked := True\<rparr>)
      else Inl UnknownChange)"

text \<open>\<^verbatim>\<open>out.Skipped[why]++\<close>, and the loop over the candidates.\<close>

definition skip_count :: "Skip \<Rightarrow> (Skip, nat) gomap \<Rightarrow> nat" where
  "skip_count k m = (case map_of m k of None \<Rightarrow> 0 | Some n \<Rightarrow> n)"

definition skipped :: "Skip \<Rightarrow> Plan \<Rightarrow> Plan" where
  "skipped k p = p\<lparr>Plan_Skipped := map_put k (skip_count k (Plan_Skipped p) + 1) (Plan_Skipped p)\<rparr>"

fun build_loop :: "Spec \<Rightarrow> AxisFacts \<Rightarrow> Candidate list \<Rightarrow> Plan \<Rightarrow> Plan" where
  "build_loop s f [] out = out"
| "build_loop s f (c # cs) out =
     (if \<not> matches s c f then build_loop s f cs out
      else let out1 = out\<lparr>Plan_Matched := Plan_Matched out + 1\<rparr> in
        if Cand_FromGroup c then build_loop s f cs (skipped SkipFromGroup out1)
        else if Cand_SelfScoped c \<and> NeedsAxis s then build_loop s f cs (skipped SkipSelf out1)
        else (case apply_change s (Cand_State c) f of
            Inl skip \<Rightarrow> build_loop s f cs (skipped skip out1)
          | Inr after \<Rightarrow> build_loop s f cs
              (out1\<lparr>Plan_Items := Plan_Items out1 @
                 [\<lparr>Item_GrantID = Cand_GrantID c, Item_IdentityID = Cand_IdentityID c,
                   Item_Username = Cand_Username c, Item_Before = Cand_State c, Item_After = after\<rparr>]\<rparr>)))"

datatype build_err = ErrTooMany

definition Build :: "Spec \<Rightarrow> Candidate list \<Rightarrow> AxisFacts \<Rightarrow> build_err + Plan" where
  "Build s cands f =
     (if length cands > MaxGrants then Inl ErrTooMany
      else Inr (build_loop s f cands \<lparr>Plan_Matched = 0, Plan_Items = [], Plan_Skipped = []\<rparr>))"

definition People :: "Plan \<Rightarrow> nat" where
  "People p = length (foldl (\<lambda>seen it. map_put (Item_IdentityID it) True seen) [] (Plan_Items p))"

section \<open>The numbers of a plan add up\<close>

text \<open>What the preview promises of one candidate: not matched, left alone for a reason, or altered.\<close>

definition verdict :: "Spec \<Rightarrow> AxisFacts \<Rightarrow> Candidate \<Rightarrow> (Skip + Item) option" where
  "verdict s f c =
     (if \<not> matches s c f then None
      else Some (if Cand_FromGroup c then Inl SkipFromGroup
        else if Cand_SelfScoped c \<and> NeedsAxis s then Inl SkipSelf
        else map_sum id (\<lambda>after. \<lparr>Item_GrantID = Cand_GrantID c, Item_IdentityID = Cand_IdentityID c,
               Item_Username = Cand_Username c, Item_Before = Cand_State c, Item_After = after\<rparr>)
             (apply_change s (Cand_State c) f)))"

definition altered :: "(Skip + Item) option \<Rightarrow> Item list" where
  "altered v = (case v of Some (Inr it) \<Rightarrow> [it] | _ \<Rightarrow> [])"

lemma altered_simps [simp]:
  "altered None = []" "altered (Some (Inl k)) = []" "altered (Some (Inr it)) = [it]"
  by (simp_all add: altered_def)

lemma skip_count_skipped [simp]:
  "skip_count k (Plan_Skipped (skipped j p)) = skip_count k (Plan_Skipped p) + (if k = j then 1 else 0)"
  "Plan_Matched (skipped j p) = Plan_Matched p"
  "Plan_Items (skipped j p) = Plan_Items p"
  by (auto simp: skipped_def skip_count_def go_simps)

lemma build_loop_verdicts:
  "Plan_Matched (build_loop s f cs out) = Plan_Matched out + length (filter (\<lambda>c. verdict s f c \<noteq> None) cs)"
  "Plan_Items (build_loop s f cs out) = Plan_Items out @ concat (map (altered \<circ> verdict s f) cs)"
  "skip_count k (Plan_Skipped (build_loop s f cs out)) =
     skip_count k (Plan_Skipped out) + length (filter (\<lambda>c. verdict s f c = Some (Inl k)) cs)"
  by (induction s f cs out rule: build_loop.induct)
     (auto simp: verdict_def Let_def split: sum.splits)

lemma gomap_wf_skipped: "gomap_wf (Plan_Skipped p) \<Longrightarrow> gomap_wf (Plan_Skipped (skipped k p))"
  by (simp add: skipped_def gomap_wf_put)

lemma sum_put:
  "gomap_wf m \<Longrightarrow> sum_list (map snd (map_put k (skip_count k m + 1) m)) = sum_list (map snd m) + 1"
proof (induction m)
  case Nil
  then show ?case by (simp add: map_put_def skip_count_def)
next
  case (Cons e m)
  then have m: "gomap_wf m" and e: "fst e \<notin> fst ` set m" by (auto simp: gomap_wf_def)
  show ?case
  proof (cases "fst e = k")
    case True
    with e have "filter (\<lambda>x. fst x \<noteq> k) m = m" by (auto simp: filter_id_conv image_iff)
    with True show ?thesis by (cases e) (simp add: map_put_def skip_count_def)
  next
    case False
    with Cons.IH [OF m] show ?thesis by (cases e) (simp add: map_put_def skip_count_def)
  qed
qed

lemma skipped_total:
  "gomap_wf (Plan_Skipped p) \<Longrightarrow>
   sum_list (map snd (Plan_Skipped (skipped k p))) = sum_list (map snd (Plan_Skipped p)) + 1"
  using sum_put [of "Plan_Skipped p" k] by (simp add: skipped_def)

lemma build_loop_total:
  "gomap_wf (Plan_Skipped out) \<Longrightarrow>
   length (Plan_Items out) + sum_list (map snd (Plan_Skipped out)) = Plan_Matched out \<Longrightarrow>
   length (Plan_Items (build_loop s f cs out)) + sum_list (map snd (Plan_Skipped (build_loop s f cs out))) =
     Plan_Matched (build_loop s f cs out)"
  by (induction s f cs out rule: build_loop.induct)
     (auto simp: Let_def skipped_total gomap_wf_skipped split: sum.splits)

lemma set_map_put_keys: "fst ` set (map_put k v m) = insert k (fst ` set m)"
  by (auto simp: map_put_def image_iff)

lemma seen_keys: "length m = card (fst ` set m)" if "gomap_wf m"
  using that distinct_card [of "map fst m"] by (simp add: gomap_wf_def)

lemma People_card: "People p = card (Item_IdentityID ` set (Plan_Items p))"
proof -
  let ?m = "foldl (\<lambda>seen it. map_put (Item_IdentityID it) True seen) [] (Plan_Items p)"
  have "gomap_wf ?m" by (rule gomap_wf_foldl) (auto intro: gomap_wf_put)
  from seen_keys [OF this] show ?thesis by (simp add: People_def keys_foldl_put)
qed

section \<open>How picks are read\<close>

text \<open>The places a grant's picks reach on one kind of place, as the decision reads them
  (\<open>Scope_Index.admits\<close>; no pick at all reaches every place, or none on a deny axis).\<close>

definition pin_covers :: "ScopeNode list \<Rightarrow> string \<Rightarrow> Pin \<Rightarrow> bool" where
  "pin_covers nodes t p =
     covers nodes \<lparr>SC_NodeID = Pin_NodeID p, SC_Inherit = Pin_Inherit p, SC_Exclude = Pin_Exclude p, SC_node = 0\<rparr> t"

definition picks_reach :: "ScopeNode list \<Rightarrow> bool \<Rightarrow> State \<Rightarrow> string \<Rightarrow> string \<Rightarrow> bool" where
  "picks_reach nodes deny st axis t =
     (let ps = filter (\<lambda>p. Pin_Axis p = axis) (St_Pins st)
      in if ps = [] then \<not> deny else admits Pin_Exclude (pin_covers nodes t) ps)"

text \<open>The guards of \<^verbatim>\<open>grant_scopes\<close>: one row per place, and no exclude without an include.\<close>

definition state_ok :: "State \<Rightarrow> bool" where
  "state_ok st \<longleftrightarrow> distinct (map pin_key (St_Pins st)) \<and>
     (\<forall>p\<in>set (St_Pins st). Pin_Exclude p \<longrightarrow> includes_on st (Pin_Axis p) \<noteq> [])"

lemma pin_covers_iff:
  "pin_covers nodes t p \<longleftrightarrow>
     t \<in> Node_ID ` set nodes \<and> (Pin_NodeID p = t \<or> Pin_Inherit p \<and> ancestor nodes (Pin_NodeID p) t)"
  by (simp add: pin_covers_def covers_def)

lemma pins_of_edits [simp]:
  "St_Pins (without st ax d) = filter (\<lambda>p. \<not> (Pin_Axis p = ax \<and> d p)) (St_Pins st)"
  "St_Pins (with_pin st p) = St_Pins st @ [p]"
  "St_Until (without st ax d) = St_Until st" "St_Until (with_pin st p) = St_Until st"
  "St_Revoked (without st ax d) = St_Revoked st" "St_Revoked (with_pin st p) = St_Revoked st"
  by (simp_all add: without_def with_pin_def)

lemma set_includes_on [simp]:
  "set (includes_on st ax) = Pin_NodeID ` {p \<in> set (St_Pins st). Pin_Axis p = ax \<and> \<not> Pin_Exclude p}"
  by (auto simp: includes_on_def)

lemma includes_on_Nil: "includes_on st ax = [] \<longleftrightarrow> (\<forall>p\<in>set (St_Pins st). Pin_Axis p = ax \<longrightarrow> Pin_Exclude p)"
  by (auto simp: includes_on_def filter_empty_conv)

lemma pin_Some:
  assumes "pin st ax n = Some p"
  shows "p \<in> set (St_Pins st)" and "Pin_Axis p = ax" and "Pin_NodeID p = n"
  using assms by (auto simp: pin_def find_Some_iff)

lemma pin_unique:
  assumes "distinct (map pin_key (St_Pins st))" and "p \<in> set (St_Pins st)"
  shows "pin st (Pin_Axis p) (Pin_NodeID p) = Some p"
proof -
  have "find (\<lambda>q. Pin_Axis q = Pin_Axis p \<and> Pin_NodeID q = Pin_NodeID p) ps = Some p"
    if "distinct (map pin_key ps)" "p \<in> set ps" for ps
    using that by (induction ps) (auto simp: pin_key_def)
  with assms show ?thesis by (simp add: pin_def)
qed

lemma pin_None: "pin st ax n = None \<longleftrightarrow> (\<forall>p\<in>set (St_Pins st). \<not> (Pin_Axis p = ax \<and> Pin_NodeID p = n))"
  by (auto simp: pin_def find_None_iff)

section \<open>What a change does to the picks\<close>

text \<open>The facts a plan is built from, when they are those of the place tree \<open>nodes\<close>.\<close>

definition facts_ok :: "ScopeNode list \<Rightarrow> Spec \<Rightarrow> AxisFacts \<Rightarrow> bool" where
  "facts_ok nodes s f \<longleftrightarrow>
     (\<forall>n\<in>Node_ID ` set nodes. flag (AF_Below f) n \<longleftrightarrow> ancestor nodes (Spec_NodeID s) n) \<and>
     (\<forall>n\<in>Node_ID ` set nodes. n = AF_RootID f \<or> ancestor nodes (AF_RootID f) n)"

lemma ancestor_trans: "ancestor nodes a b \<Longrightarrow> ancestor nodes b c \<Longrightarrow> ancestor nodes a c"
  by (auto simp: ancestor_def)

lemma ancestor_in_rows: "ancestor nodes a b \<Longrightarrow> a \<in> Node_ID ` set nodes"
  unfolding ancestor_def by (induction rule: tranclp_induct) (auto simp: row_parent_def)

text \<open>Replacing picks by one that covers what the dropped includes covered, and dropping no include
  uncovered, only widens.\<close>

lemma picks_widen:
  assumes ok: "state_ok st" and reach: "picks_reach nodes deny st ax t" and t: "t \<in> Node_ID ` set nodes"
    and some: "includes_on st ax \<noteq> [] \<or> deny"
    and new: "Pin_Axis q = ax" "\<not> Pin_Exclude q"
    and drop: "\<And>p. p \<in> set (St_Pins st) \<Longrightarrow> Pin_Axis p = ax \<Longrightarrow> d p \<Longrightarrow> \<not> Pin_Exclude p \<Longrightarrow>
       pin_covers nodes t p \<Longrightarrow> pin_covers nodes t q"
  shows "picks_reach nodes deny (with_pin (without st ax d) q) ax t"
proof -
  have ne: "filter (\<lambda>p. Pin_Axis p = ax) (St_Pins st) \<noteq> []"
    using reach some by (auto simp: picks_reach_def includes_on_Nil filter_empty_conv split: if_splits)
  with reach have adm: "admits Pin_Exclude (pin_covers nodes t) (filter (\<lambda>p. Pin_Axis p = ax) (St_Pins st))"
    by (simp add: picks_reach_def)
  then show ?thesis
    using new drop by (auto simp: picks_reach_def admits_def)
qed

lemma apply_widens:
  assumes ok: "state_ok st" and facts: "facts_ok nodes s f" and t: "t \<in> Node_ID ` set nodes"
    and kind: "Spec_Kind s = AddPlace \<or> Spec_Kind s = Grow"
    and app: "apply_change s st f = Inr st'"
    and reach: "picks_reach nodes (AF_Deny f) st (Spec_Axis s) t"
  shows "picks_reach nodes (AF_Deny f) st' (Spec_Axis s) t"
proof (cases "Spec_Kind s = AddPlace")
  case True
  let ?q = "\<lparr>Pin_Axis = Spec_Axis s, Pin_NodeID = Spec_NodeID s, Pin_Inherit = Spec_Inherit s, Pin_Exclude = False\<rparr>"
  from True app have st': "st' = with_pin (without st (Spec_Axis s) (\<lambda>p. Pin_NodeID p = Spec_NodeID s)) ?q"
    and some: "includes_on st (Spec_Axis s) \<noteq> [] \<or> AF_Deny f"
    and nopin: "\<not> (case pin st (Spec_Axis s) (Spec_NodeID s) of None \<Rightarrow> False | Some p \<Rightarrow> \<not> Pin_Exclude p)"
    by (auto simp: apply_change_def Let_def split: if_splits)
  have "Pin_Exclude p" if "p \<in> set (St_Pins st)" "Pin_Axis p = Spec_Axis s" "Pin_NodeID p = Spec_NodeID s" for p
    using pin_unique [of st p] that nopin ok by (simp add: state_ok_def)
  then show ?thesis unfolding st' by (intro picks_widen [OF ok reach t some]) auto
next
  case False
  with kind have g: "grow s st f = Inr st'" using app by (simp add: apply_change_def kind_defs)
  let ?top = "\<lparr>Pin_Axis = Spec_Axis s, Pin_NodeID = AF_RootID f, Pin_Inherit = True, Pin_Exclude = False\<rparr>"
  let ?q = "\<lparr>Pin_Axis = Spec_Axis s, Pin_NodeID = Spec_NodeID s, Pin_Inherit = True, Pin_Exclude = False\<rparr>"
  from g consider
      (top) "st' = with_pin (without st (Spec_Axis s) (\<lambda>p. \<not> Pin_Exclude p)) ?top"
        "AF_Deny f \<or> hasExcludes st (Spec_Axis s)"
    | (all) "st' = without st (Spec_Axis s) (\<lambda>p. True)" "\<not> AF_Deny f"
    | (branch) "st' = with_pin (without st (Spec_Axis s)
          (\<lambda>p. \<not> Pin_Exclude p \<and> (Pin_NodeID p = Spec_NodeID s \<or> flag (AF_Below f) (Pin_NodeID p)))) ?q"
        "includes_on st (Spec_Axis s) \<noteq> [] \<or> AF_Deny f"
    unfolding grow_def Let_def by (auto split: if_splits)
  then show ?thesis
  proof cases
    case top
    have "includes_on st (Spec_Axis s) \<noteq> [] \<or> AF_Deny f"
      using top(2) ok by (auto simp: hasExcludes_def list_ex_iff state_ok_def)
    moreover have "pin_covers nodes t ?top" using facts t by (auto simp: pin_covers_iff facts_ok_def)
    ultimately show ?thesis unfolding top(1) by (intro picks_widen [OF ok reach t]) auto
  next
    case all
    then show ?thesis by (simp add: picks_reach_def)
  next
    case branch
    have "pin_covers nodes t ?q" if "Pin_NodeID p = Spec_NodeID s \<or> flag (AF_Below f) (Pin_NodeID p)"
      and "pin_covers nodes t p" for p
      using that facts t ancestor_in_rows [of nodes "Pin_NodeID p" t]
        ancestor_trans [of nodes "Spec_NodeID s" "Pin_NodeID p" t]
      by (auto simp: pin_covers_iff facts_ok_def)
    then show ?thesis unfolding branch(1) by (intro picks_widen [OF ok reach t branch(2)]) auto
  qed
qed

lemma remove_narrows:
  assumes "Spec_Kind s = RemovePlace" and "state_ok st" and "apply_change s st f = Inr st'"
  shows "includes_on st' (Spec_Axis s) \<noteq> []"
    and "picks_reach nodes deny st' (Spec_Axis s) t \<Longrightarrow> picks_reach nodes deny st (Spec_Axis s) t"
proof -
  let ?ax = "Spec_Axis s" and ?d = "\<lambda>p. Pin_NodeID p = Spec_NodeID s \<and> \<not> Pin_Exclude p"
  from assms(1,3) have st': "st' = without st ?ax ?d" and len: "length (includes_on st ?ax) \<noteq> 1"
    and mem: "Spec_NodeID s \<in> set (includes_on st ?ax)"
    by (auto simp: apply_change_def Let_def kind_defs split: if_splits)
  have dist: "distinct (includes_on st ?ax)"
  proof -
    have "distinct (map pin_key (filter (\<lambda>p. Pin_Axis p = ?ax \<and> \<not> Pin_Exclude p) (St_Pins st)))"
      using assms(2) by (auto simp: state_ok_def distinct_map_filter)
    then show ?thesis by (auto simp: includes_on_def distinct_map inj_on_def pin_key_def)
  qed
  obtain n where n: "n \<in> set (includes_on st ?ax)" "n \<noteq> Spec_NodeID s"
  proof (rule ccontr)
    assume "\<not> thesis"
    with that have "set (includes_on st ?ax) = {Spec_NodeID s}" using mem by auto
    with distinct_card [OF dist] len show False by simp
  qed
  then show inc: "includes_on st' ?ax \<noteq> []" by (auto simp: st' includes_on_Nil)
  assume "picks_reach nodes deny st' ?ax t"
  with inc show "picks_reach nodes deny st ?ax t"
    by (auto simp: picks_reach_def st' includes_on_Nil filter_empty_conv admits_def split: if_splits)
qed

text \<open>The place a change pins, where it pins one: growing to everything pins the top place.\<close>

definition pinned_place :: "Spec \<Rightarrow> AxisFacts \<Rightarrow> string" where
  "pinned_place s f = (if Spec_NodeID s = [] then AF_RootID f else Spec_NodeID s)"

definition grows_over_exclude :: "Spec \<Rightarrow> AxisFacts \<Rightarrow> State \<Rightarrow> bool" where
  "grows_over_exclude s f st \<longleftrightarrow> Spec_Kind s = Grow \<and>
     (\<exists>p\<in>set (St_Pins st). Pin_Axis p = Spec_Axis s \<and> Pin_NodeID p = pinned_place s f \<and> Pin_Exclude p)"

lemma filter_other_axes [simp]:
  "ax \<noteq> a \<Longrightarrow> filter (\<lambda>p. Pin_Axis p = ax) (filter (\<lambda>p. \<not> (Pin_Axis p = a \<and> d p)) ps) = filter (\<lambda>p. Pin_Axis p = ax) ps"
  by (induction ps) auto

lemma includes_on_filter:
  "includes_on st ax = map Pin_NodeID (filter (\<lambda>p. \<not> Pin_Exclude p) (filter (\<lambda>p. Pin_Axis p = ax) (St_Pins st)))"
  by (simp add: includes_on_def)

lemma apply_change_cases:
  assumes "apply_change s st f = Inr st'"
  obtains (pins) d q where "st' = with_pin (without st (Spec_Axis s) d) q" "Pin_Axis q = Spec_Axis s"
      "\<not> Pin_Exclude q" "NeedsAxis s"
      "state_ok st \<Longrightarrow> \<not> grows_over_exclude s f st \<Longrightarrow>
        \<forall>p\<in>set (St_Pins st). Pin_Axis p = Spec_Axis s \<longrightarrow> Pin_NodeID p = Pin_NodeID q \<longrightarrow> d p"
    | (drops) d where "st' = without st (Spec_Axis s) d" "NeedsAxis s"
      "state_ok st \<Longrightarrow> includes_on st' (Spec_Axis s) \<noteq> [] \<or> (\<forall>p. d p)"
    | (until) "st' = st\<lparr>St_Until := Spec_Until s\<rparr>" "Spec_Kind s = SetUntil"
    | (revoke) "st' = st\<lparr>St_Revoked := True\<rparr>" "Spec_Kind s = Revoke"
proof -
  consider (add) "Spec_Kind s = AddPlace" | (remove) "Spec_Kind s = RemovePlace" | (swap) "Spec_Kind s = SwapPlace"
    | (grw) "Spec_Kind s = Grow" | (unt) "Spec_Kind s = SetUntil" | (rev) "Spec_Kind s = Revoke"
    using assms by (auto simp: apply_change_def Let_def split: if_splits)
  then show thesis
  proof cases
    case add
    with assms show thesis
      by (intro pins) (auto simp: apply_change_def Let_def NeedsAxis_def split: if_splits)
  next
    case remove
    then have "st' = without st (Spec_Axis s) (\<lambda>p. Pin_NodeID p = Spec_NodeID s \<and> \<not> Pin_Exclude p)"
      using assms by (auto simp: apply_change_def Let_def kind_defs split: if_splits)
    with remove assms show thesis using remove_narrows(1) [OF remove _ assms]
      by (intro drops) (auto simp: NeedsAxis_def)
  next
    case swap
    with assms show thesis
      by (intro pins) (auto simp: apply_change_def Let_def NeedsAxis_def kind_defs split: if_splits)
  next
    case grw
    then have g: "grow s st f = Inr st'" using assms by (simp add: apply_change_def kind_defs)
    show thesis
    proof (cases "Spec_NodeID s = []")
      case True
      show thesis
      proof (cases "AF_Deny f \<or> hasExcludes st (Spec_Axis s)")
        case True
        with g \<open>Spec_NodeID s = []\<close> grw show thesis
          by (intro pins) (auto simp: grow_def Let_def NeedsAxis_def grows_over_exclude_def pinned_place_def split: if_splits)
      next
        case False
        with g \<open>Spec_NodeID s = []\<close> grw show thesis
          by (intro drops [of "\<lambda>p. True"]) (auto simp: grow_def Let_def NeedsAxis_def split: if_splits)
      qed
    next
      case False
      with g grw show thesis
        by (intro pins) (auto simp: grow_def Let_def NeedsAxis_def grows_over_exclude_def pinned_place_def split: if_splits)
    qed
  next
    case unt
    with assms show thesis by (intro until) (auto simp: apply_change_def Let_def kind_defs split: if_splits)
  next
    case rev
    with assms show thesis by (intro revoke) (auto simp: apply_change_def Let_def kind_defs)
  qed
qed

lemma apply_change_frame:
  assumes "apply_change s st f = Inr st'"
  shows "ax \<noteq> Spec_Axis s \<or> \<not> NeedsAxis s \<Longrightarrow>
      filter (\<lambda>p. Pin_Axis p = ax) (St_Pins st') = filter (\<lambda>p. Pin_Axis p = ax) (St_Pins st)"
    and "Spec_Kind s \<noteq> SetUntil \<Longrightarrow> St_Until st' = St_Until st"
    and "Spec_Kind s \<noteq> Revoke \<Longrightarrow> St_Revoked st' = St_Revoked st"
  using assms by (auto elim!: apply_change_cases simp: filter_other_axes [simplified])

lemma exclusions_kept:
  assumes ok: "state_ok st"
    and sub: "set (filter Pin_Exclude (St_Pins st')) \<subseteq> set (St_Pins st)"
    and other: "\<And>a. a \<noteq> ax \<Longrightarrow> filter (\<lambda>p. Pin_Axis p = a) (St_Pins st') = filter (\<lambda>p. Pin_Axis p = a) (St_Pins st)"
    and inc: "includes_on st' ax \<noteq> [] \<or> (\<forall>p\<in>set (St_Pins st'). Pin_Axis p \<noteq> ax)"
  shows "\<forall>p\<in>set (St_Pins st'). Pin_Exclude p \<longrightarrow> includes_on st' (Pin_Axis p) \<noteq> []"
proof (intro ballI impI)
  fix p assume p: "p \<in> set (St_Pins st')" "Pin_Exclude p"
  show "includes_on st' (Pin_Axis p) \<noteq> []"
  proof (cases "Pin_Axis p = ax")
    case True
    with inc p show ?thesis by auto
  next
    case False
    from p sub have "p \<in> set (St_Pins st)" by auto
    with p ok have "includes_on st (Pin_Axis p) \<noteq> []" by (simp add: state_ok_def)
    with other [OF False] show ?thesis by (simp only: includes_on_filter) simp
  qed
qed

lemma apply_change_ok:
  assumes ok: "state_ok st" and app: "apply_change s st f = Inr st'" and clash: "\<not> grows_over_exclude s f st"
  shows "state_ok st'"
proof -
  have frame: "a \<noteq> Spec_Axis s \<Longrightarrow> filter (\<lambda>p. Pin_Axis p = a) (St_Pins st') = filter (\<lambda>p. Pin_Axis p = a) (St_Pins st)" for a
    using apply_change_frame(1) [OF app, of a] by blast
  from app show ?thesis
  proof (cases rule: apply_change_cases)
    case (pins d q)
    from pins(5) [OF ok clash] pins(2) have "pin_key q \<notin> pin_key ` set (St_Pins (without st (Spec_Axis s) d))"
      by (auto simp: pin_key_def)
    moreover have "includes_on st' (Spec_Axis s) \<noteq> []" using pins by (auto simp: includes_on_Nil)
    moreover have "set (filter Pin_Exclude (St_Pins st')) \<subseteq> set (St_Pins st)" using pins by auto
    ultimately show ?thesis using exclusions_kept [OF ok _ frame] ok pins(1)
      by (simp add: state_ok_def distinct_map_filter)
  next
    case (drops d)
    have "set (filter Pin_Exclude (St_Pins st')) \<subseteq> set (St_Pins st)" using drops by auto
    moreover have "includes_on st' (Spec_Axis s) \<noteq> [] \<or> (\<forall>p\<in>set (St_Pins st'). Pin_Axis p \<noteq> Spec_Axis s)"
      using drops(3) [OF ok] drops(1) by auto
    ultimately show ?thesis using exclusions_kept [OF ok _ frame] ok drops(1)
      by (simp add: state_ok_def distinct_map_filter)
  qed (use ok in \<open>simp_all add: state_ok_def includes_on_def\<close>)
qed

lemma grow_over_exclude_clashes:
  assumes "state_ok st" and "grows_over_exclude s f st"
  shows "\<exists>st'. apply_change s st f = Inr st' \<and> \<not> distinct (map pin_key (St_Pins st'))"
proof -
  from assms(2) obtain p where k: "Spec_Kind s = Grow" and p: "p \<in> set (St_Pins st)" "Pin_Axis p = Spec_Axis s"
    "Pin_NodeID p = pinned_place s f" "Pin_Exclude p"
    by (auto simp: grows_over_exclude_def)
  have pin: "pin st (Spec_Axis s) (pinned_place s f) = Some p"
    using pin_unique [of st p] assms(1) p by (simp add: state_ok_def)
  have inc: "includes_on st (Spec_Axis s) \<noteq> []" using assms(1) p by (auto simp: state_ok_def)
  have he: "hasExcludes st (Spec_Axis s)" using p by (auto simp: hasExcludes_def list_ex_iff)
  have clash: "\<not> distinct (map pin_key (St_Pins (with_pin (without st (Spec_Axis s) d)
      \<lparr>Pin_Axis = Spec_Axis s, Pin_NodeID = pinned_place s f, Pin_Inherit = True, Pin_Exclude = False\<rparr>)))"
    if "\<not> d p" for d
    using p that by (force simp: pin_key_def image_iff)
  show ?thesis
    using k pin p inc he clash [of "\<lambda>p. \<not> Pin_Exclude p"]
      clash [of "\<lambda>p. \<not> Pin_Exclude p \<and> (Pin_NodeID p = Spec_NodeID s \<or> flag (AF_Below f) (Pin_NodeID p))"]
    by (cases "Spec_NodeID s = []") (auto simp: apply_change_def grow_def Let_def kind_defs pinned_place_def)
qed

section \<open>Properties\<close>

text \<open>A plan covers every candidate once: it is refused exactly when there are more than 10,000 of
  them; otherwise the altered grants are those, in order, that match, do not come from a group, are not
  limited to the person's own records while the change is about places, and whose new state the change
  gives; every other matching grant is counted under the reason it is left alone; the grants altered and
  the grants skipped add up to the grants matched; and the number of people is the number of distinct
  identities among the altered grants.\<close>

theorem plan_accounts:
  "case Build s cands f of
     Inl e \<Rightarrow> length cands > 10000
   | Inr p \<Rightarrow> length cands \<le> 10000 \<and>
       Plan_Items p = concat (map (altered \<circ> verdict s f) cands) \<and>
       Plan_Matched p = length (filter (\<lambda>c. matches s c f) cands) \<and>
       (\<forall>k. skip_count k (Plan_Skipped p) = length (filter (\<lambda>c. verdict s f c = Some (Inl k)) cands)) \<and>
       length (Plan_Items p) + sum_list (map snd (Plan_Skipped p)) = Plan_Matched p \<and>
       People p = card (Item_IdentityID ` set (Plan_Items p))"
proof -
  let ?start = "\<lparr>Plan_Matched = 0, Plan_Items = [], Plan_Skipped = []\<rparr>"
  have "(verdict s f c \<noteq> None) = matches s c f" for c by (simp add: verdict_def)
  then show ?thesis
    using build_loop_total [of ?start s f cands]
    by (simp add: Build_def MaxGrants_def build_loop_verdicts People_card skip_count_def)
       (simp add: build_loop_verdicts(3) [unfolded skip_count_def])
qed

text \<open>The direction of a change. Adding a place and growing never take a place away from a grant:
  a place its picks reach before, read by the decision's own rule, they reach after. Removing a place
  never gives one, and in particular never leaves the list empty, which would mean every place.\<close>

theorem change_direction:
  assumes "state_ok st" and "facts_ok nodes s f" and "t \<in> Node_ID ` set nodes"
    and "apply_change s st f = Inr st'"
  shows "(Spec_Kind s = AddPlace \<or> Spec_Kind s = Grow \<longrightarrow>
            picks_reach nodes (AF_Deny f) st (Spec_Axis s) t \<longrightarrow> picks_reach nodes (AF_Deny f) st' (Spec_Axis s) t) \<and>
         (Spec_Kind s = RemovePlace \<longrightarrow> includes_on st' (Spec_Axis s) \<noteq> [] \<and>
            (picks_reach nodes (AF_Deny f) st' (Spec_Axis s) t \<longrightarrow> picks_reach nodes (AF_Deny f) st (Spec_Axis s) t))"
  using apply_widens [OF assms(1-3) _ assms(4)] remove_narrows [OF _ assms(1,4)] by blast

definition demo_places :: "ScopeNode list" where
  "demo_places = [\<lparr>Node_ID = ''top'', Node_Parent = []\<rparr>, \<lparr>Node_ID = ''east'', Node_Parent = ''top''\<rparr>]"

definition demo_grow :: Spec where
  "demo_grow = \<lparr>Spec_RoleID = ''clerk'', Spec_Covers = [], Spec_SiblingsOf = [], Spec_Kind = Grow,
     Spec_Axis = ''org'', Spec_NodeID = ''top'', Spec_ToNodeID = [], Spec_Inherit = True, Spec_Until = None,
     Spec_Reason = []\<rparr>"

definition demo_facts :: AxisFacts where
  "demo_facts = \<lparr>AF_Deny = True, AF_RootID = ''top'', AF_Siblings = [], AF_Below = [(''east'', True)]\<rparr>"

definition demo_state :: "bool \<Rightarrow> State" where
  "demo_state excl = \<lparr>St_Pins = \<lparr>Pin_Axis = ''org'', Pin_NodeID = ''east'', Pin_Inherit = False, Pin_Exclude = False\<rparr> #
       (if excl then [\<lparr>Pin_Axis = ''org'', Pin_NodeID = ''top'', Pin_Inherit = False, Pin_Exclude = True\<rparr>] else []),
     St_Until = None, St_Revoked = False\<rparr>"

lemma demo_ancestor: "ancestor demo_places a b \<longleftrightarrow> a = ''top'' \<and> b = ''east''"
proof -
  have p: "row_parent demo_places x y \<longleftrightarrow> x = ''east'' \<and> y = ''top''" for x y
    by (auto simp: row_parent_def demo_places_def)
  have "(row_parent demo_places)\<^sup>+\<^sup>+ b a \<Longrightarrow> a = ''top'' \<and> b = ''east''"
    by (induction rule: tranclp_induct) (auto simp: p)
  with p show ?thesis unfolding ancestor_def by (auto intro: tranclp.r_into_trancl)
qed

lemma demo_facts_ok: "facts_ok demo_places demo_grow demo_facts"
  unfolding facts_ok_def demo_ancestor by (auto simp: demo_places_def demo_facts_def demo_grow_def flag_def)

theorem change_direction_witness:
  "\<exists>st'. apply_change demo_grow (demo_state False) demo_facts = Inr st' \<and>
     picks_reach demo_places True st' ''org'' ''east''"
proof -
  have app: "apply_change demo_grow (demo_state False) demo_facts =
      Inr \<lparr>St_Pins = [\<lparr>Pin_Axis = ''org'', Pin_NodeID = ''top'', Pin_Inherit = True, Pin_Exclude = False\<rparr>],
        St_Until = None, St_Revoked = False\<rparr>" (is "_ = Inr ?st'")
    by (simp add: apply_change_def grow_def demo_grow_def demo_state_def demo_facts_def kind_defs
        includes_on_def pin_def without_def with_pin_def flag_def)
  have ok: "state_ok (demo_state False)" by (simp add: state_ok_def demo_state_def)
  have t: "''east'' \<in> Node_ID ` set demo_places" by (simp add: demo_places_def)
  have before: "picks_reach demo_places True (demo_state False) ''org'' ''east''"
    by (simp add: picks_reach_def admits_def pin_covers_iff demo_state_def) (simp add: demo_places_def)
  from change_direction [OF ok demo_facts_ok t app] before app show ?thesis
    by (simp add: demo_grow_def demo_facts_def)
qed

text \<open>The guards of the table of picks (one row per place; no exclude without an include on its
  kind of place) survive every change but one: growing into a place, or to the top place, that the grant
  leaves out by name. There the plan keeps the exclude beside the new include of the same place, two
  rows with one primary key, so the change that the preview showed cannot be written.\<close>

theorem change_keeps_guards:
  assumes "state_ok st" and "apply_change s st f = Inr st'"
  shows "state_ok st' \<longleftrightarrow> \<not> grows_over_exclude s f st"
proof (cases "grows_over_exclude s f st")
  case True
  with grow_over_exclude_clashes [OF assms(1) True] assms(2) show ?thesis by (auto simp: state_ok_def)
next
  case False
  with apply_change_ok [OF assms False] show ?thesis by simp
qed

theorem change_keeps_guards_witness:
  "\<exists>st'. apply_change demo_grow (demo_state True) demo_facts = Inr st' \<and>
     \<not> distinct (map pin_key (St_Pins st')) \<and> \<not> state_ok st'"
proof -
  have ok: "state_ok (demo_state True)" by (auto simp: state_ok_def demo_state_def pin_key_def includes_on_def)
  have g: "grows_over_exclude demo_grow demo_facts (demo_state True)"
    by (simp add: grows_over_exclude_def demo_grow_def demo_state_def pinned_place_def)
  obtain st' where app: "apply_change demo_grow (demo_state True) demo_facts = Inr st'"
    and "\<not> distinct (map pin_key (St_Pins st'))"
    using grow_over_exclude_clashes [OF ok g] by blast
  with change_keeps_guards [OF ok app] g show ?thesis by blast
qed

end
