(* ===== verification/Grant_Change_Store.thy ===== *)
theory Grant_Change_Store
  imports Grant_Change Principal
begin

text \<open>
  Previewing, applying and undoing a bulk change:
  \<^verbatim>\<open>internal/authz/app/admin/grant_change_interactor.go\<close> over
  \<^verbatim>\<open>internal/authz/adapter/postgres/grant_bulk_repository.go\<close>.

  The database of a tenant is the rows its statements read and write: \<^verbatim>\<open>grants\<close>, \<^verbatim>\<open>grant_scopes\<close>
  (with its primary key: inserting a second row for a place of a grant is a conflict), the recorded
  changes with their items, and the audit events. \<^verbatim>\<open>WithinTx\<close> is the identity on success and leaves
  the tables as they were on an error. What other tables say about kinds of place and places is the
  parameter \<open>Places\<close>; the permission check in front of each operation is the parameter \<open>guard\<close>. Left out: the check
  that a grant ends after it starts and the guards deferred to the commit (overlapping grants, places of the role's
  own axis), under which a transaction that succeeds here would roll back.
\<close>

section \<open>Tables\<close>

record GrantTuple =
  GT_ID :: string
  GT_IdentityID :: string
  GT_Username :: string
  GT_RoleID :: string
  GT_SelfScoped :: bool
  GT_ViaMembership :: bool
  GT_ValidUntil :: "time option"
  GT_Revoked :: bool

record ChangeTuple =
  CT_Kind :: string
  CT_Reason :: string
  CT_Grants :: nat
  CT_ActorID :: string
  CT_Undone :: bool
  CT_Items :: "Item list"

record AuditTuple =
  AT_Actor :: string
  AT_Action :: string
  AT_Target :: string
  AT_Detail :: "(string, string) gomap"

record GrantStore =
  DB_grants :: "GrantTuple list"
  DB_scopes :: "(string \<times> Pin) list"
  DB_changes :: "(string, ChangeTuple) gomap"
  DB_audit :: "AuditTuple list"

record Places =
  PL_AxisFacts :: "string \<Rightarrow> (bool \<times> string) result"
  PL_NodeFamily :: "string \<Rightarrow> (string \<times> string list \<times> string list) result"

section \<open>The repository\<close>

text \<open>The pins of one grant among the rows of \<^verbatim>\<open>grant_scopes\<close>.\<close>

definition pins_of :: "(string \<times> Pin) list \<Rightarrow> string \<Rightarrow> Pin list" where
  "pins_of rows gid = map snd (filter (\<lambda>r. fst r = gid) rows)"

definition live_grant :: "time \<Rightarrow> GrantTuple \<Rightarrow> bool" where
  "live_grant now g \<longleftrightarrow> \<not> GT_Revoked g \<and> (case GT_ValidUntil g of None \<Rightarrow> True | Some u \<Rightarrow> u > now)"

definition candidate_of :: "GrantStore \<Rightarrow> GrantTuple \<Rightarrow> Candidate" where
  "candidate_of db g =
     \<lparr>Cand_GrantID = GT_ID g, Cand_IdentityID = GT_IdentityID g, Cand_Username = GT_Username g,
      Cand_SelfScoped = GT_SelfScoped g, Cand_FromGroup = GT_ViaMembership g,
      Cand_State = \<lparr>St_Pins = pins_of (DB_scopes db) (GT_ID g), St_Until = GT_ValidUntil g, St_Revoked = False\<rparr>\<rparr>"

definition ChangeCandidates :: "GrantStore \<Rightarrow> time \<Rightarrow> string \<Rightarrow> nat \<Rightarrow> Candidate list" where
  "ChangeCandidates db now roleID limit =
     map (candidate_of db)
       (take limit (sort_key (\<lambda>g. (GT_Username g, GT_ID g))
         (filter (\<lambda>g. GT_RoleID g = roleID \<and> live_grant now g) (DB_grants db))))"

text \<open>\<^verbatim>\<open>writeStates\<close>: the picks of the grants whose picks differ are deleted and inserted again, and the
  end date (to the second) and the revoked stamp of every item is set.\<close>

definition rewritten :: "(Item \<Rightarrow> State \<times> State) \<Rightarrow> Item list \<Rightarrow> Item list" where
  "rewritten to items = filter (\<lambda>it. \<not> SamePins (fst (to it)) (snd (to it))) items"

definition set_life :: "(Item \<Rightarrow> State \<times> State) \<Rightarrow> Item list \<Rightarrow> GrantTuple \<Rightarrow> GrantTuple" where
  "set_life to items g =
     (case find (\<lambda>it. Item_GrantID it = GT_ID g) items of
        None \<Rightarrow> g
      | Some it \<Rightarrow> g\<lparr>GT_ValidUntil := map_option (\<lambda>u. Unix u * Second) (St_Until (snd (to it))),
                     GT_Revoked := St_Revoked (snd (to it))\<rparr>)"

definition scope_key :: "string \<times> Pin \<Rightarrow> string \<times> string \<times> string" where
  "scope_key r = (fst r, pin_key (snd r))"

definition writeStates :: "(Item \<Rightarrow> State \<times> State) \<Rightarrow> Item list \<Rightarrow> GrantStore \<Rightarrow> GrantStore result" where
  "writeStates to items db =
     (let rw = rewritten to items;
          kept = filter (\<lambda>r. fst r \<notin> Item_GrantID ` set rw) (DB_scopes db);
          pins = concat (map (\<lambda>it. map (Pair (Item_GrantID it)) (St_Pins (snd (to it)))) rw)
      in if \<not> distinct (map scope_key (kept @ pins)) then Inl ErrConflict
         else Inr (db\<lparr>DB_scopes := kept @ pins, DB_grants := map (set_life to items) (DB_grants db)\<rparr>))"

text \<open>\<^verbatim>\<open>RecordGrantChange\<close>. The items are stored as JSON, which leaves out the identity and the username.
  The id of the new row is \<^verbatim>\<open>gen_random_uuid()\<close>, an argument.\<close>

definition json_item :: "Item \<Rightarrow> Item" where
  "json_item it = it\<lparr>Item_IdentityID := [], Item_Username := []\<rparr>"

definition RecordGrantChange :: "string \<Rightarrow> string \<Rightarrow> Spec \<Rightarrow> Item list \<Rightarrow> GrantStore \<Rightarrow> GrantStore result" where
  "RecordGrantChange newid actorID spec items db =
     (if map_of (DB_changes db) newid \<noteq> None then Inl ErrConflict
      else and_then (writeStates (\<lambda>it. (Item_Before it, Item_After it)) items db)
        (\<lambda>db. Inr (db\<lparr>DB_changes := map_put newid
           \<lparr>CT_Kind = Spec_Kind spec, CT_Reason = Spec_Reason spec, CT_Grants = length items, CT_ActorID = actorID,
             CT_Undone = False, CT_Items = map json_item items\<rparr> (DB_changes db)\<rparr>)))"

definition GrantChange :: "string \<Rightarrow> GrantStore \<Rightarrow> ChangeTuple result" where
  "GrantChange cid db = (case map_of (DB_changes db) cid of None \<Rightarrow> Inl ErrNotFound | Some c \<Rightarrow> Inr c)"

definition tuple_state :: "GrantStore \<Rightarrow> GrantTuple \<Rightarrow> State" where
  "tuple_state db g = \<lparr>St_Pins = pins_of (DB_scopes db) (GT_ID g), St_Until = GT_ValidUntil g, St_Revoked = GT_Revoked g\<rparr>"

definition CurrentStates :: "string list \<Rightarrow> GrantStore \<Rightarrow> (string, State) gomap" where
  "CurrentStates ids db = map (\<lambda>g. (GT_ID g, tuple_state db g)) (filter (\<lambda>g. GT_ID g \<in> set ids) (DB_grants db))"

definition RestoreGrantChange :: "string \<Rightarrow> Item list \<Rightarrow> GrantStore \<Rightarrow> GrantStore result" where
  "RestoreGrantChange cid items db =
     and_then (writeStates (\<lambda>it. (Item_After it, Item_Before it)) items db)
       (\<lambda>db. Inr (db\<lparr>DB_changes := map (\<lambda>(i, c). (i, if i = cid then c\<lparr>CT_Undone := True\<rparr> else c)) (DB_changes db)\<rparr>))"

section \<open>The interactor\<close>

definition checkSpec :: "time \<Rightarrow> Spec \<Rightarrow> unit result" where
  "checkSpec now s =
     (if Spec_RoleID s = [] then Inl ErrInvalidArgument
      else if (Spec_Kind s = AddPlace \<or> Spec_Kind s = RemovePlace) \<and> Spec_NodeID s = [] then Inl ErrInvalidArgument
      else if Spec_Kind s = SwapPlace \<and> (Spec_NodeID s = [] \<or> Spec_ToNodeID s = [] \<or> Spec_NodeID s = Spec_ToNodeID s)
      then Inl ErrInvalidArgument
      else if Spec_Kind s = SetUntil \<and> (case Spec_Until s of None \<Rightarrow> False | Some u \<Rightarrow> \<not> After u now)
      then Inl ErrInvalidArgument
      else if Spec_Kind s = Revoke \<and> TrimSpace (Spec_Reason s) = [] then Inl ErrInvalidArgument
      else if Spec_Kind s \<notin> {AddPlace, RemovePlace, SwapPlace, Grow, SetUntil, Revoke} then Inl ErrInvalidArgument
      else if (NeedsAxis s \<or> Spec_Covers s \<noteq> [] \<or> Spec_SiblingsOf s \<noteq> []) \<and> Spec_Axis s = [] then Inl ErrInvalidArgument
      else Inr ())"

fun families_loop :: "Places \<Rightarrow> Spec \<Rightarrow> string list \<Rightarrow> AxisFacts \<Rightarrow> AxisFacts result" where
  "families_loop pl s [] f = Inr f"
| "families_loop pl s (n # ns) f =
     (if n = [] then families_loop pl s ns f
      else (case PL_NodeFamily pl n of
          Inl e \<Rightarrow> Inl ErrInvalidArgument
        | Inr (axis, siblings, below) \<Rightarrow>
            if axis \<noteq> Spec_Axis s then Inl ErrInvalidArgument
            else let f1 = (if n = Spec_SiblingsOf s then f\<lparr>AF_Siblings := siblings\<rparr> else f);
                     f2 = (if n = Spec_NodeID s \<and> Spec_Kind s = Grow
                           then f1\<lparr>AF_Below := foldl (\<lambda>m b. map_put b True m) [] below\<rparr> else f1)
                 in families_loop pl s ns f2))"

definition plan :: "Places \<Rightarrow> time \<Rightarrow> GrantStore \<Rightarrow> Spec \<Rightarrow> Plan result" where
  "plan pl now db s =
     and_then (checkSpec now s) (\<lambda>_.
     and_then (if Spec_Axis s = [] then Inr \<lparr>AF_Deny = False, AF_RootID = [], AF_Siblings = [], AF_Below = []\<rparr>
               else (case PL_AxisFacts pl (Spec_Axis s) of
                   Inl e \<Rightarrow> Inl ErrInvalidArgument
                 | Inr (deny, root) \<Rightarrow> Inr \<lparr>AF_Deny = deny, AF_RootID = root, AF_Siblings = [], AF_Below = []\<rparr>)) (\<lambda>f.
     and_then (families_loop pl s [Spec_NodeID s, Spec_ToNodeID s, Spec_SiblingsOf s] f) (\<lambda>f.
       case Build s (ChangeCandidates db now (Spec_RoleID s) (MaxGrants + 1)) f of
         Inl e \<Rightarrow> Inl ErrInvalidArgument
       | Inr p \<Rightarrow> Inr p)))"

definition emit :: "Principal \<Rightarrow> string \<Rightarrow> string \<Rightarrow> (string, string) gomap \<Rightarrow> GrantStore \<Rightarrow> GrantStore" where
  "emit p action target detail db =
     db\<lparr>DB_audit := DB_audit db @ [\<lparr>AT_Actor = Pr_IdentityID p, AT_Action = action, AT_Target = target, AT_Detail = detail\<rparr>]\<rparr>"

definition PreviewGrantChange ::
  "(string \<Rightarrow> Principal result) \<Rightarrow> Places \<Rightarrow> time \<Rightarrow> GrantStore \<Rightarrow> Spec \<Rightarrow> Plan result" where
  "PreviewGrantChange guard pl now db s = and_then (guard ''anubis:grant:admin'') (\<lambda>p. plan pl now db s)"

definition ApplyGrantChange ::
  "(string \<Rightarrow> Principal result) \<Rightarrow> Places \<Rightarrow> time \<Rightarrow> string \<Rightarrow> GrantStore \<Rightarrow> Spec \<Rightarrow> (GrantStore \<times> Plan) result" where
  "ApplyGrantChange guard pl now newid db s =
     and_then (guard ''anubis:grant:admin'') (\<lambda>p.
     and_then (plan pl now db s) (\<lambda>pln.
       if Plan_Items pln = [] then Inl ErrInvalidArgument
       else and_then (RecordGrantChange newid (Pr_IdentityID p) s (Plan_Items pln) db) (\<lambda>db'.
         Inr (emit p ''grant.change.apply'' newid
           [(''kind'', Spec_Kind s), (''role_id'', Spec_RoleID s), (''grants'', itoa (int (length (Plan_Items pln)))),
            (''reason'', Spec_Reason s)] db', pln))))"

definition moved :: "(string, State) gomap \<Rightarrow> Item \<Rightarrow> bool" where
  "moved now it = (case map_of now (Item_GrantID it) of None \<Rightarrow> True | Some cur \<Rightarrow> \<not> Same cur (Item_After it))"

definition UndoGrantChange ::
  "(string \<Rightarrow> Principal result) \<Rightarrow> GrantStore \<Rightarrow> string \<Rightarrow> string \<Rightarrow> (GrantStore \<times> nat) result" where
  "UndoGrantChange guard db changeID reason =
     and_then (guard ''anubis:grant:admin'') (\<lambda>p.
     and_then (GrantChange changeID db) (\<lambda>rec.
       if CT_Undone rec then Inl ErrConflict
       else let items = CT_Items rec; now = CurrentStates (map Item_GrantID items) db in
         if length (filter (moved now) items) > 0 then Inl ErrConflict
         else and_then (RestoreGrantChange changeID items db) (\<lambda>db'.
           Inr (emit p ''grant.change.undo'' changeID
             [(''grants'', itoa (int (length items))), (''reason'', reason)] db', length items))))"

section \<open>What a write leaves\<close>

lemma pins_of_simps [simp]:
  "pins_of [] g = []" "pins_of (xs @ ys) g = pins_of xs g @ pins_of ys g"
  "pins_of (map (Pair h) ps) g = (if h = g then ps else [])"
  "pins_of (filter (\<lambda>r. fst r \<notin> S) rows) g = (if g \<in> S then [] else pins_of rows g)"
  by (auto simp: pins_of_def comp_def filter_empty_conv intro: filter_cong) (induction rows; auto)

lemma scope_keys_distinct:
  "distinct (map scope_key rows) \<longleftrightarrow> (\<forall>g. distinct (map pin_key (pins_of rows g)))"
proof (induction rows)
  case (Cons r rows)
  have "scope_key r \<in> scope_key ` set rows \<longleftrightarrow> pin_key (snd r) \<in> pin_key ` set (pins_of rows (fst r))"
    by (auto simp: scope_key_def pins_of_def image_iff Bex_def eq_commute [of "pin_key (snd r)"]
        eq_commute [of "fst r"])
  with Cons show ?case by (auto simp: pins_of_def)
qed simp

lemma find_key_None: "find (\<lambda>x. k x = g) xs = None \<longleftrightarrow> g \<notin> k ` set xs"
  by (induction xs) auto

lemma find_in_set: "find P xs = Some x \<Longrightarrow> x \<in> set xs \<and> P x"
  by (induction xs) (auto split: if_splits)

lemma find_distinct:
  "distinct (map k xs) \<Longrightarrow> x \<in> set xs \<Longrightarrow> find (\<lambda>y. k y = k x) xs = Some x"
  by (induction xs) auto

definition new_rows :: "(Item \<Rightarrow> State \<times> State) \<Rightarrow> Item list \<Rightarrow> (string \<times> Pin) list \<Rightarrow> (string \<times> Pin) list" where
  "new_rows to items rows =
     filter (\<lambda>r. fst r \<notin> Item_GrantID ` set (rewritten to items)) rows @
     concat (map (\<lambda>it. map (Pair (Item_GrantID it)) (St_Pins (snd (to it)))) (rewritten to items))"

lemma writeStates_alt:
  "writeStates to items db =
     (if distinct (map scope_key (new_rows to items (DB_scopes db)))
      then Inr (db\<lparr>DB_scopes := new_rows to items (DB_scopes db), DB_grants := map (set_life to items) (DB_grants db)\<rparr>)
      else Inl ErrConflict)"
  by (simp add: writeStates_def new_rows_def Let_def)

lemma pins_of_concat:
  "distinct (map Item_GrantID rw) \<Longrightarrow>
   pins_of (concat (map (\<lambda>it. map (Pair (Item_GrantID it)) (h it)) rw)) g =
     (case find (\<lambda>it. Item_GrantID it = g) rw of None \<Rightarrow> [] | Some it \<Rightarrow> h it)"
proof (induction rw)
  case (Cons it rw)
  then have "Item_GrantID it = g \<Longrightarrow> find (\<lambda>it. Item_GrantID it = g) rw = None"
    by (simp add: find_key_None)
  with Cons show ?case by auto
qed simp

lemma distinct_rewritten: "distinct (map Item_GrantID items) \<Longrightarrow> distinct (map Item_GrantID (rewritten to items))"
  by (simp add: rewritten_def distinct_map_filter)

lemma pins_of_new_rows:
  assumes "distinct (map Item_GrantID items)"
  shows "pins_of (new_rows to items rows) g =
     (case find (\<lambda>it. Item_GrantID it = g) (rewritten to items) of None \<Rightarrow> pins_of rows g | Some it \<Rightarrow> St_Pins (snd (to it)))"
proof (cases "find (\<lambda>it. Item_GrantID it = g) (rewritten to items)")
  case None
  then have "g \<notin> Item_GrantID ` set (rewritten to items)" by (simp add: find_key_None)
  with None show ?thesis
    by (simp only: new_rows_def pins_of_simps pins_of_concat [OF distinct_rewritten [OF assms]]) simp
next
  case (Some it)
  with find_in_set [OF Some] have "g \<in> Item_GrantID ` set (rewritten to items)" by auto
  with Some show ?thesis
    by (simp only: new_rows_def pins_of_simps pins_of_concat [OF distinct_rewritten [OF assms]]) simp
qed

lemma pins_of_new_rows_in:
  assumes "distinct (map Item_GrantID items)" and "it \<in> set items"
  shows "pins_of (new_rows to items rows) (Item_GrantID it) =
     (if SamePins (fst (to it)) (snd (to it)) then pins_of rows (Item_GrantID it) else St_Pins (snd (to it)))"
proof (cases "SamePins (fst (to it)) (snd (to it))")
  case True
  then have "find (\<lambda>x. Item_GrantID x = Item_GrantID it) (rewritten to items) = None"
    using find_distinct [OF assms] assms(2) assms(1)
    by (auto simp: find_None_iff rewritten_def distinct_map inj_on_def)
  with True show ?thesis by (simp add: pins_of_new_rows [OF assms(1)])
next
  case False
  then have "it \<in> set (rewritten to items)" using assms(2) by (simp add: rewritten_def)
  from find_distinct [OF distinct_rewritten [OF assms(1)] this] False show ?thesis
    by (simp add: pins_of_new_rows [OF assms(1)])
qed

lemma pins_of_new_rows_out:
  assumes "distinct (map Item_GrantID items)" and "g \<notin> Item_GrantID ` set items"
  shows "pins_of (new_rows to items rows) g = pins_of rows g"
proof -
  have "find (\<lambda>x. Item_GrantID x = g) (rewritten to items) = None"
    using assms(2) by (auto simp: find_None_iff rewritten_def)
  then show ?thesis by (simp add: pins_of_new_rows [OF assms(1)])
qed

section \<open>Sameness\<close>

lemma Same_iff:
  "Same s u \<longleftrightarrow> St_Revoked s = St_Revoked u \<and> map_option Unix (St_Until s) = map_option Unix (St_Until u) \<and>
     sortedPins s = sortedPins u"
  by (auto simp: Same_def split: option.splits)

lemma SamePins_sym: "SamePins s u \<longleftrightarrow> SamePins u s"
  by (auto simp: SamePins_def)

lemma Unix_whole [simp]: "Unix (Unix u * Second) = Unix u"
  by (simp add: Unix_def)

lemma map_option_Unix_whole [simp]:
  "map_option Unix (map_option (\<lambda>u. Unix u * Second) x) = map_option Unix x"
  by (cases x) simp_all

text \<open>One write moves the state of an item to its target, as \<open>Same\<close> sees it, when the grant is where the
  write starts from; every other grant keeps its state.\<close>

lemma GT_ID_set_life [simp]: "GT_ID (set_life to items g) = GT_ID g"
  by (simp add: set_life_def split: option.split)

lemma written_state:
  assumes "writeStates to items db = Inr db'" and "distinct (map Item_GrantID items)" and "it \<in> set items"
    and "GT_ID g = Item_GrantID it" and "sortedPins (tuple_state db g) = sortedPins (fst (to it))"
  shows "Same (tuple_state db' (set_life to items g)) (snd (to it))"
proof -
  have find: "find (\<lambda>x. Item_GrantID x = GT_ID g) items = Some it"
    using find_distinct [OF assms(2,3)] assms(4) by simp
  from assms(1) have db': "DB_scopes db' = new_rows to items (DB_scopes db)"
    by (auto simp: writeStates_alt split: if_splits)
  have "sortedPins (tuple_state db' (set_life to items g)) = sortedPins (snd (to it))"
    using assms(5) pins_of_new_rows_in [OF assms(2,3), of to "DB_scopes db"]
    by (auto simp: tuple_state_def db' assms(4) sortedPins_def SamePins_def)
  then show ?thesis by (simp add: Same_iff tuple_state_def set_life_def find)
qed

lemma unwritten_state:
  assumes "writeStates to items db = Inr db'" and "distinct (map Item_GrantID items)"
    and "GT_ID g \<notin> Item_GrantID ` set items"
  shows "set_life to items g = g" and "tuple_state db' g = tuple_state db g"
proof -
  from assms(3) show "set_life to items g = g"
    using find_key_None [of Item_GrantID "GT_ID g" items] by (simp add: set_life_def)
  from assms(1) have "DB_scopes db' = new_rows to items (DB_scopes db)"
    by (auto simp: writeStates_alt split: if_splits)
  then show "tuple_state db' g = tuple_state db g"
    using pins_of_new_rows_out [OF assms(2,3)] by (simp add: tuple_state_def)
qed

section \<open>What a plan starts from\<close>

definition store_ok :: "GrantStore \<Rightarrow> bool" where
  "store_ok db \<longleftrightarrow> distinct (map GT_ID (DB_grants db)) \<and> distinct (map scope_key (DB_scopes db))"

definition starts_at :: "GrantStore \<Rightarrow> Item list \<Rightarrow> bool" where
  "starts_at db items \<longleftrightarrow> distinct (map Item_GrantID items) \<and>
     (\<forall>it\<in>set items. \<exists>g\<in>set (DB_grants db). GT_ID g = Item_GrantID it \<and> Item_Before it = tuple_state db g)"

lemma altered_verdict:
  "altered (verdict s f c) = [] \<or>
   (\<exists>it. altered (verdict s f c) = [it] \<and> Item_GrantID it = Cand_GrantID c \<and> Item_Before it = Cand_State c)"
  by (cases "apply_change s (Cand_State c) f") (auto simp: verdict_def)

lemma altered_ids:
  "map Item_GrantID (concat (map (altered \<circ> verdict s f) cs)) =
   map Cand_GrantID (filter (\<lambda>c. altered (verdict s f c) \<noteq> []) cs)"
proof (induction cs)
  case (Cons c cs)
  with altered_verdict [of s f c] show ?case by auto
qed simp

lemma plan_starts_at:
  assumes "store_ok db" and "plan pl now db s = Inr p"
  shows "starts_at db (Plan_Items p)"
proof -
  let ?cs = "ChangeCandidates db now (Spec_RoleID s) (MaxGrants + 1)"
  from assms(2) obtain f where "(case Build s ?cs f of Inl e \<Rightarrow> Inl ErrInvalidArgument | Inr p \<Rightarrow> Inr p) = Inr p"
    unfolding plan_def and_then_Inr by blast
  then have items: "Plan_Items p = concat (map (altered \<circ> verdict s f) ?cs)"
    by (auto simp: Build_def build_loop_verdicts split: if_splits)
  have dist: "distinct (map GT_ID (filter P (DB_grants db)))" for P
    using assms(1) by (simp add: store_ok_def distinct_map_filter)
  have "map Cand_GrantID ?cs = take (MaxGrants + 1) (map GT_ID (sort_key (\<lambda>g. (GT_Username g, GT_ID g))
      (filter (\<lambda>g. GT_RoleID g = Spec_RoleID s \<and> live_grant now g) (DB_grants db))))"
    by (simp add: ChangeCandidates_def candidate_of_def take_map comp_def)
  then have ids: "distinct (map Cand_GrantID ?cs)"
    using dist by (simp only:) (intro distinct_take, simp add: distinct_map)
  have cand: "\<exists>g\<in>set (DB_grants db). GT_ID g = Cand_GrantID c \<and> Cand_State c = tuple_state db g"
    if "c \<in> set ?cs" for c
    using that by (auto simp: ChangeCandidates_def candidate_of_def tuple_state_def live_grant_def dest!: in_set_takeD)
  have "\<exists>g\<in>set (DB_grants db). GT_ID g = Item_GrantID it \<and> Item_Before it = tuple_state db g"
    if "it \<in> set (Plan_Items p)" for it
  proof -
    from that obtain c where c: "c \<in> set ?cs" "it \<in> set (altered (verdict s f c))" by (auto simp: items)
    with altered_verdict [of s f c] cand [OF c(1)] show ?thesis by auto
  qed
  moreover have "distinct (map Item_GrantID (Plan_Items p))"
    unfolding items altered_ids using ids by (simp add: distinct_map_filter)
  ultimately show ?thesis by (simp add: starts_at_def)
qed

lemma tuple_state_cong: "DB_scopes a = DB_scopes b \<Longrightarrow> tuple_state a g = tuple_state b g"
  by (simp add: tuple_state_def)

text \<open>The same items, written forwards and backwards.\<close>

abbreviation forwards :: "Item \<Rightarrow> State \<times> State" where "forwards it \<equiv> (Item_Before it, Item_After it)"
abbreviation backwards :: "Item \<Rightarrow> State \<times> State" where "backwards it \<equiv> (Item_After it, Item_Before it)"

lemma after_write:
  assumes ok: "store_ok db" and st: "starts_at db items" and w: "writeStates forwards items db = Inr db1"
    and it: "it \<in> set items"
  shows "\<exists>st. map_of (CurrentStates (map Item_GrantID items) db1) (Item_GrantID it) = Some st \<and> Same st (Item_After it)"
proof -
  from st it obtain g where g: "g \<in> set (DB_grants db)" "GT_ID g = Item_GrantID it" "Item_Before it = tuple_state db g"
    by (auto simp: starts_at_def)
  have db1: "DB_grants db1 = map (set_life forwards items) (DB_grants db)"
    using w by (auto simp: writeStates_alt split: if_splits)
  have "distinct (map fst (CurrentStates (map Item_GrantID items) db1))"
    using ok by (simp add: CurrentStates_def db1 store_ok_def comp_def distinct_map_filter)
  moreover have "(Item_GrantID it, tuple_state db1 (set_life forwards items g)) \<in> set (CurrentStates (map Item_GrantID items) db1)"
    using g it unfolding CurrentStates_def db1 set_map
    by (intro image_eqI [where x = "set_life forwards items g"]) auto
  ultimately show ?thesis
    using written_state [OF w _ it g(2)] st g(3) map_of_is_SomeI by (fastforce simp: starts_at_def)
qed

lemma pins_distinct: "store_ok db \<Longrightarrow> distinct (map pin_key (pins_of (DB_scopes db) g))"
  by (simp add: store_ok_def scope_keys_distinct)

lemma restore_writes:
  assumes ok: "store_ok db" and st: "starts_at db items" and w: "writeStates forwards items db = Inr db1"
  shows "\<exists>db2. writeStates backwards items db1 = Inr db2"
proof -
  from w have d1: "distinct (map pin_key (pins_of (DB_scopes db1) g))" for g
    by (auto simp: writeStates_alt scope_keys_distinct split: if_splits)
  have ids: "distinct (map Item_GrantID items)" using st by (simp add: starts_at_def)
  have "distinct (map pin_key (pins_of (new_rows backwards items (DB_scopes db1)) g))" for g
  proof (cases "find (\<lambda>it. Item_GrantID it = g) (rewritten backwards items)")
    case None
    then show ?thesis using d1 by (simp add: pins_of_new_rows [OF ids])
  next
    case (Some it)
    then have "it \<in> set items" using find_in_set [OF Some] by (simp add: rewritten_def)
    with st obtain h where "Item_Before it = tuple_state db h" by (auto simp: starts_at_def)
    with Some pins_distinct [OF ok] show ?thesis by (simp add: pins_of_new_rows [OF ids] tuple_state_def)
  qed
  then show ?thesis by (simp add: writeStates_alt scope_keys_distinct)
qed

lemma restored_state:
  assumes ok: "store_ok db" and st: "starts_at db items" and w: "writeStates forwards items db = Inr db1"
    and b: "writeStates backwards items db1 = Inr db2" and g: "g \<in> set (DB_grants db)"
  shows "Same (tuple_state db2 (set_life backwards items (set_life forwards items g))) (tuple_state db g)"
proof (cases "GT_ID g \<in> Item_GrantID ` set items")
  case False
  have ids: "distinct (map Item_GrantID items)" using st by (simp add: starts_at_def)
  from unwritten_state [OF w ids False] unwritten_state [OF b ids False] show ?thesis by (simp add: Same_iff)
next
  case True
  then obtain it where it: "it \<in> set items" "GT_ID g = Item_GrantID it" by auto
  have ids: "distinct (map Item_GrantID items)" using st by (simp add: starts_at_def)
  from st it obtain h where h: "h \<in> set (DB_grants db)" "GT_ID h = Item_GrantID it" "Item_Before it = tuple_state db h"
    by (auto simp: starts_at_def)
  with ok g it have hg: "h = g" by (auto simp: store_ok_def distinct_map inj_on_def)
  have "Same (tuple_state db1 (set_life forwards items g)) (Item_After it)"
    using written_state [OF w ids it(1), of g] it h hg by simp
  then have "Same (tuple_state db2 (set_life backwards items (set_life forwards items g))) (Item_Before it)"
    using written_state [OF b ids it(1), of "set_life forwards items g"] it by (simp add: Same_iff)
  with h hg show ?thesis by simp
qed

lemma rewritten_json:
  assumes "\<And>it. to (json_item it) = to it"
  shows "rewritten to (map json_item items) = map json_item (rewritten to items)"
  using assms by (induction items) (auto simp: rewritten_def)

lemma Item_json [simp]:
  "Item_GrantID (json_item it) = Item_GrantID it" "Item_Before (json_item it) = Item_Before it"
  "Item_After (json_item it) = Item_After it"
  by (simp_all add: json_item_def)

lemma starts_at_json: "starts_at db items \<Longrightarrow> starts_at db (map json_item items)"
  by (auto simp: starts_at_def comp_def)

lemma new_rows_json:
  "new_rows forwards (map json_item items) rows = new_rows forwards items rows"
  by (simp add: new_rows_def rewritten_json [where to = forwards] comp_def image_image)

lemma find_json: "find (\<lambda>it. Item_GrantID it = g) (map json_item items) = map_option json_item (find (\<lambda>it. Item_GrantID it = g) items)"
  by (induction items) auto

lemma writeStates_json: "writeStates forwards (map json_item items) db = writeStates forwards items db"
proof -
  have "set_life forwards (map json_item items) g = set_life forwards items g" for g
    by (cases "find (\<lambda>it. Item_GrantID it = GT_ID g) items") (simp_all add: set_life_def find_json)
  then show ?thesis by (simp add: writeStates_alt new_rows_json)
qed

section \<open>Undo\<close>

text \<open>The grants of two stores are the same grants, in states that decide the same.\<close>

definition same_grants :: "GrantStore \<Rightarrow> GrantStore \<Rightarrow> bool" where
  "same_grants db db' \<longleftrightarrow>
     list_all2 (\<lambda>g g'. GT_ID g = GT_ID g' \<and> Same (tuple_state db' g') (tuple_state db g)) (DB_grants db) (DB_grants db')"

lemma writeStates_cong:
  assumes "DB_scopes a = DB_scopes b" and "DB_grants a = DB_grants b"
  shows "writeStates to items b = Inr b' \<Longrightarrow>
    \<exists>a'. writeStates to items a = Inr a' \<and> DB_scopes a' = DB_scopes b' \<and> DB_grants a' = DB_grants b' \<and>
      DB_changes a' = DB_changes a"
  using assms by (auto simp: writeStates_alt split: if_splits)

lemma undo_after_apply:
  assumes ok: "store_ok db" and app: "ApplyGrantChange guard pl now newid db s = Inr (db1, p)"
  shows "\<exists>db2. UndoGrantChange guard db1 newid reason = Inr (db2, length (Plan_Items p)) \<and>
     same_grants db db2 \<and> UndoGrantChange guard db2 newid reason' = Inl ErrConflict"
proof -
  let ?items = "map json_item (Plan_Items p)"
  from app obtain pr w where pr: "guard ''anubis:grant:admin'' = Inr pr" and pl: "plan pl now db s = Inr p"
    and w: "writeStates forwards (Plan_Items p) db = Inr w"
    and db1: "DB_scopes db1 = DB_scopes w" "DB_grants db1 = DB_grants w"
      "map_of (DB_changes db1) newid = Some \<lparr>CT_Kind = Spec_Kind s, CT_Reason = Spec_Reason s,
         CT_Grants = length (Plan_Items p), CT_ActorID = Pr_IdentityID pr, CT_Undone = False, CT_Items = ?items\<rparr>"
    by (auto simp: ApplyGrantChange_def RecordGrantChange_def emit_def and_then_Inr go_simps split: if_splits)
  have st: "starts_at db ?items" by (rule starts_at_json [OF plan_starts_at [OF ok pl]])
  have w': "writeStates forwards ?items db = Inr w" using w by (simp add: writeStates_json)
  have cur: "CurrentStates ids db1 = CurrentStates ids w" for ids
    using db1 by (simp add: CurrentStates_def tuple_state_def)
  have unmoved: "filter (moved (CurrentStates (map Item_GrantID ?items) db1)) ?items = []"
  proof -
    have "\<not> moved (CurrentStates (map Item_GrantID ?items) w) it" if "it \<in> set ?items" for it
      using after_write [OF ok st w' that] by (auto simp: moved_def)
    then show ?thesis by (simp only: filter_empty_conv cur) blast
  qed
  obtain b where b: "writeStates backwards ?items w = Inr b" using restore_writes [OF ok st w'] by blast
  from writeStates_cong [OF db1(1,2) b] obtain b1 where b1: "writeStates backwards ?items db1 = Inr b1"
    "DB_scopes b1 = DB_scopes b" "DB_grants b1 = DB_grants b" "DB_changes b1 = DB_changes db1" by blast
  define db2 where "db2 = emit pr ''grant.change.undo'' newid
    [(''grants'', itoa (int (length (Plan_Items p)))), (''reason'', reason)]
    (b1\<lparr>DB_changes := map (\<lambda>(i, c). (i, if i = newid then c\<lparr>CT_Undone := True\<rparr> else c)) (DB_changes db1)\<rparr>)"
  have "UndoGrantChange guard db1 newid reason = Inr (db2, length (Plan_Items p))"
    using pr db1(3) unmoved b1(1,4) by (simp add: UndoGrantChange_def GrantChange_def RestoreGrantChange_def db2_def)
  moreover have "same_grants db db2"
  proof -
    have "DB_grants db2 = map (set_life backwards ?items \<circ> set_life forwards ?items) (DB_grants db)"
      using b1(3) b w' by (auto simp: db2_def emit_def writeStates_alt split: if_splits)
    moreover have "tuple_state db2 = tuple_state b" using b1(2) by (simp add: fun_eq_iff tuple_state_def db2_def emit_def)
    ultimately show ?thesis using restored_state [OF ok st w' b]
      by (simp add: same_grants_def list_all2_conv_all_nth)
  qed
  moreover have "UndoGrantChange guard db2 newid reason' = Inl ErrConflict"
  proof -
    have "map_of (map (\<lambda>(i, c). (i, if i = newid then c\<lparr>CT_Undone := True\<rparr> else c)) m) newid =
        map_option (\<lambda>c. c\<lparr>CT_Undone := True\<rparr>) (map_of m newid)" for m :: "(string, ChangeTuple) gomap"
      by (induction m) auto
    then show ?thesis using pr db1(3) by (simp add: UndoGrantChange_def GrantChange_def db2_def emit_def)
  qed
  ultimately show ?thesis by blast
qed

text \<open>C36. The preview is the change, and undo is its inverse. When a change is applied, the preview of the
  same request on the same tables showed exactly its plan; undoing it at once succeeds, reports as many grants as
  the plan altered, and puts every grant of the tenant back into a state that decides the same (the same picks, the
  same end date to the second, the same revoked flag); undoing it once more is refused as a conflict. The tables
  are only assumed to keep their primary keys.\<close>

theorem undo_restores:
  assumes "store_ok db" and "ApplyGrantChange guard pl now newid db s = Inr (db1, p)"
  shows "PreviewGrantChange guard pl now db s = Inr p \<and>
    (\<exists>db2. UndoGrantChange guard db1 newid reason = Inr (db2, length (Plan_Items p)) \<and> same_grants db db2 \<and>
       UndoGrantChange guard db2 newid reason' = Inl ErrConflict)"
  using undo_after_apply [OF assms] assms(2)
  by (auto simp: ApplyGrantChange_def PreviewGrantChange_def and_then_Inr split: if_splits)

definition demo_store :: GrantStore where
  "demo_store = \<lparr>DB_grants = [\<lparr>GT_ID = ''g1'', GT_IdentityID = ''ann'', GT_Username = ''ann'', GT_RoleID = ''clerk'',
       GT_SelfScoped = False, GT_ViaMembership = False, GT_ValidUntil = Some 1500000000, GT_Revoked = False\<rparr>],
     DB_scopes = [(''g1'', \<lparr>Pin_Axis = ''org'', Pin_NodeID = ''east'', Pin_Inherit = False, Pin_Exclude = False\<rparr>)],
     DB_changes = [], DB_audit = []\<rparr>"

definition demo_pl :: Places where
  "demo_pl = \<lparr>PL_AxisFacts = (\<lambda>ax. Inr (True, ''top'')), PL_NodeFamily = (\<lambda>n. Inr (''org'', [], [''east'']))\<rparr>"

definition demo_admin :: "string \<Rightarrow> Principal result" where
  "demo_admin perm = Inr \<lparr>Pr_IdentityID = ''root'', Pr_TenantID = ''t'', Pr_TenantSlug = ''t'', Pr_SessionID = ''s'',
     Pr_Realm = ''workforce'', Pr_Roles = [], Pr_Scopes = [], Pr_AMR = [], Pr_AuthTime = 0, Pr_IAL = 1, Pr_Epoch = 1,
     Pr_Audience = [], Pr_Service = False, Pr_Platform = False, Pr_Token = []\<rparr>"

theorem undo_restores_witness:
  "\<exists>db1 p db2. ApplyGrantChange demo_admin demo_pl 1 ''c1'' demo_store demo_grow = Inr (db1, p) \<and>
     length (Plan_Items p) = 1 \<and> UndoGrantChange demo_admin db1 ''c1'' [] = Inr (db2, 1) \<and> same_grants demo_store db2"
proof -
  have "case ApplyGrantChange demo_admin demo_pl 1 ''c1'' demo_store demo_grow of
      Inl e \<Rightarrow> False | Inr (db1, p) \<Rightarrow> length (Plan_Items p) = 1"
    by code_simp
  then obtain db1 p where app: "ApplyGrantChange demo_admin demo_pl 1 ''c1'' demo_store demo_grow = Inr (db1, p)"
    and len: "length (Plan_Items p) = 1"
    by (auto split: sum.splits prod.splits)
  have "store_ok demo_store" by (simp add: store_ok_def demo_store_def)
  from undo_restores [OF this app, of "[]" "[]"] app len show ?thesis by auto
qed

end
