(* ===== verification/Authorize.thy ===== *)
theory Authorize
  imports Principal
begin

text \<open>
  The decision endpoint: \<^verbatim>\<open>internal/authz/app/authorize_interactor.go\<close> and
  \<^verbatim>\<open>explain_interactor.go\<close> with the step-up rule of
  \<^verbatim>\<open>internal/authz/domain/step_up_decision.go\<close>.

  The engine itself is the SQL function \<^verbatim>\<open>authorize()\<close> behind the repository port, a parameter
  here (\<open>Engine\<close>); what is modelled is everything the endpoint adds to it: who may ask about whom, what a
  token minted from an access link may ask, the step-up gate after an allow, the explanation of a denial, and
  the audit trail with its sampled allows. Durations are kept as numbers; their rendering as text
  for the answer is not modelled, and neither is the wrap of \<^verbatim>\<open>time.Unix\<close> for a sign-in time within 62135596800 seconds of
  2^63: there the code sees a time long past and asks for step-up.
\<close>

section \<open>Step-up\<close>

record PermissionRequirements =
  Req_AMR :: "string list"
  Req_MaxAuthAge :: duration

record StepUpDecision =
  SU_RequiredAMR :: "string list"
  SU_MaxAuthAge :: duration
  SU_CurrentAMR :: "string list"
  SU_AuthAge :: duration

definition EvaluateStepUp ::
  "PermissionRequirements \<Rightarrow> string list \<Rightarrow> time \<Rightarrow> time \<Rightarrow> StepUpDecision option" where
  "EvaluateStepUp req amr authTime now =
     (let have_amr = foldl (\<lambda>m a. map_put (TrimSpace a) True m) [] amr;
          missing = list_ex (\<lambda>m. \<not> flag have_amr m) (Req_AMR req);
          (tooOld, age) =
            (if Req_MaxAuthAge req > 0
             then if IsZero authTime then (True, 0)
                  else (time_sub now authTime > Req_MaxAuthAge req, time_sub now authTime)
             else (False, 0))
      in if \<not> missing \<and> \<not> tooOld then None
         else Some \<lparr>SU_RequiredAMR = Req_AMR req, SU_MaxAuthAge = Req_MaxAuthAge req, SU_CurrentAMR = amr, SU_AuthAge = age\<rparr>)"

section \<open>Authorize\<close>

record AuthorizeInput =
  AI_Subject :: string
  AI_Permission :: string
  AI_Scopes :: "(string, string) gomap"
  AI_AMR :: "string list"
  AI_AuthTime :: int

record AuthzDecision =
  AD_Allow :: bool
  AD_Reason :: string
  AD_FailingAxis :: string
  AD_Message :: string
  AD_RequiredAMR :: "string list"
  AD_MaxAuthAge :: "duration option"
  AD_CurrentAMR :: "string list"
  AD_AuthAge :: "duration option"

record AuditEvent =
  Ev_TenantID :: string
  Ev_ActorID :: string
  Ev_ActorKind :: string
  Ev_TargetID :: string
  Ev_Action :: string
  Ev_Result :: string
  Ev_Permission :: string
  Ev_Scopes :: "(string, string) gomap"
  Ev_Reason :: string

text \<open>What \<^verbatim>\<open>authorize_explain()\<close> returned, when it parses: the verdict, the reason and the failing axis.\<close>

record Explained =
  Ex_Allow :: bool
  Ex_Reason :: "string option"
  Ex_FailingAxis :: "string option"

record Engine =
  AuthorizeGated :: "string \<Rightarrow> string \<Rightarrow> string \<Rightarrow> (string, string) gomap \<Rightarrow> (bool \<times> PermissionRequirements) result"
  AuthorizeExplain :: "string \<Rightarrow> string \<Rightarrow> string \<Rightarrow> (string, string) gomap \<Rightarrow> string result"
  UnmarshalExplained :: "string \<Rightarrow> Explained option"

record AuthorizeState =
  AS_counter :: nat
  AS_audit :: "AuditEvent list"

definition allowAuditSampleRate :: nat where "allowAuditSampleRate = 16"

definition denied :: "string \<Rightarrow> string \<Rightarrow> AuthzDecision" where
  "denied reason message = \<lparr>AD_Allow = False, AD_Reason = reason, AD_FailingAxis = [], AD_Message = message,
     AD_RequiredAMR = [], AD_MaxAuthAge = None, AD_CurrentAMR = [], AD_AuthAge = None\<rparr>"

definition allowed :: AuthzDecision where
  "allowed = (denied [] [])\<lparr>AD_Allow := True\<rparr>"

definition stepUp :: "time \<Rightarrow> PermissionRequirements \<Rightarrow> AuthorizeInput \<Rightarrow> AuthzDecision option" where
  "stepUp now req i =
     (let authTime = (if AI_AuthTime i > 0 then AI_AuthTime i * Second else zero_time)
      in case EvaluateStepUp req (AI_AMR i) authTime now of
           None \<Rightarrow> None
         | Some st \<Rightarrow> Some ((denied ''step_up_required'' ''Permission requires stronger or fresher authentication'')
             \<lparr>AD_RequiredAMR := SU_RequiredAMR st, AD_MaxAuthAge := Some (SU_MaxAuthAge st),
              AD_CurrentAMR := SU_CurrentAMR st, AD_AuthAge := Some (SU_AuthAge st)\<rparr>))"

definition explainDenial :: "Engine \<Rightarrow> string \<Rightarrow> AuthorizeInput \<Rightarrow> AuthzDecision" where
  "explainDenial en tenantID i =
     (let d = denied ''permission_denied'' ''Denied'' in
      case AuthorizeExplain en (AI_Subject i) tenantID (AI_Permission i) (AI_Scopes i) of
        Inl e \<Rightarrow> d
      | Inr detail \<Rightarrow>
          (case UnmarshalExplained en detail of
             None \<Rightarrow> d
           | Some x \<Rightarrow>
               let d1 = (case Ex_Reason x of None \<Rightarrow> d | Some r \<Rightarrow> d\<lparr>AD_Reason := r\<rparr>) in
               (case Ex_FailingAxis x of
                  None \<Rightarrow> d1
                | Some a \<Rightarrow> d1\<lparr>AD_FailingAxis := a,
                    AD_Message := (if AD_Reason d1 = ''scope_excluded''
                      then ''a grant covers the requested '' @ a @ '' node and excludes it''
                      else ''no grant at or above the requested '' @ a @ '' node'')\<rparr>)))"

text \<open>\<^verbatim>\<open>auditDecision\<close>: the counter is an atomic \<^verbatim>\<open>uint64\<close>.\<close>

definition auditDecision :: "Principal \<Rightarrow> AuthorizeInput \<Rightarrow> AuthzDecision \<Rightarrow> AuthorizeState \<Rightarrow> AuthorizeState" where
  "auditDecision p i d s =
     (let ev = \<lparr>Ev_TenantID = Pr_TenantID p, Ev_ActorID = Pr_IdentityID p, Ev_ActorKind = ''service'',
                Ev_TargetID = AI_Subject i, Ev_Action = ''authorize'',
                Ev_Result = (if AD_Allow d then ''allow'' else ''deny''),
                Ev_Permission = AI_Permission i, Ev_Scopes = AI_Scopes i, Ev_Reason = AD_Reason d\<rparr>
      in if AD_Allow d
         then let n = (AS_counter s + 1) mod 2 ^ 64; s1 = s\<lparr>AS_counter := n\<rparr>
              in if n mod allowAuditSampleRate \<noteq> 0 then s1 else s1\<lparr>AS_audit := AS_audit s1 @ [ev]\<rparr>
         else s\<lparr>AS_audit := AS_audit s @ [ev]\<rparr>)"

definition scope_at :: "AuthorizeInput \<Rightarrow> string \<Rightarrow> string" where
  "scope_at i k = (case map_of (AI_Scopes i) k of None \<Rightarrow> [] | Some v \<Rightarrow> v)"

definition link_refused :: "Principal \<Rightarrow> AuthorizeInput \<Rightarrow> bool" where
  "link_refused p i \<longleftrightarrow> LinkBound p \<and>
     (AI_Subject i \<noteq> Pr_IdentityID p \<or> scope_at i ''_record'' = [] \<or> scope_at i ''_record'' \<noteq> LinkRecord p)"

definition Authorize_Execute ::
  "Engine \<Rightarrow> time \<Rightarrow> Principal option \<Rightarrow> AuthorizeInput \<Rightarrow> AuthorizeState \<Rightarrow> AuthorizeState \<times> AuthzDecision result" where
  "Authorize_Execute en now ctx i s =
     (case ctx of
        None \<Rightarrow> (s, Inl ErrUnauthenticated)
      | Some p \<Rightarrow>
          if AI_Subject i = [] \<or> AI_Permission i = [] then (s, Inl ErrInvalidArgument)
          else if link_refused p i
          then let d = denied ''link_bound'' ''This token opens one record and decides nothing else''
               in (auditDecision p i d s, Inr d)
          else if \<not> MayAskAbout p (AI_Subject i)
          then let d = denied ''subject_not_caller''
                 ''A person's sign-in can ask only about that person; ask about others with the tenant's API key''
               in (auditDecision p i d s, Inr d)
          else (case AuthorizeGated en (AI_Subject i) (Pr_TenantID p) (AI_Permission i) (AI_Scopes i) of
              Inl e \<Rightarrow> (s, Inl ErrInternal)
            | Inr (allow, req) \<Rightarrow>
                let d = (if allow then (case stepUp now req i of None \<Rightarrow> allowed | Some st \<Rightarrow> st)
                         else explainDenial en (Pr_TenantID p) i)
                in (auditDecision p i d s, Inr d)))"

section \<open>Explain\<close>

record Explanation =
  Xp_Allow :: bool
  Xp_Reason :: string
  Xp_FailingAxis :: string
  Xp_DetailJSON :: string

definition Explain_Execute :: "Engine \<Rightarrow> Principal option \<Rightarrow> AuthorizeInput \<Rightarrow> Explanation result" where
  "Explain_Execute en ctx i =
     (case ctx of
        None \<Rightarrow> Inl ErrUnauthenticated
      | Some p \<Rightarrow>
          if AI_Subject i = [] \<or> AI_Permission i = [] then Inl ErrInvalidArgument
          else if \<not> MayAskAbout p (AI_Subject i) then Inl ErrPermissionDenied
          else (case AuthorizeExplain en (AI_Subject i) (Pr_TenantID p) (AI_Permission i) (AI_Scopes i) of
              Inl e \<Rightarrow> Inl ErrInternal
            | Inr detail \<Rightarrow> Inr (case UnmarshalExplained en detail of
                None \<Rightarrow> \<lparr>Xp_Allow = False, Xp_Reason = [], Xp_FailingAxis = [], Xp_DetailJSON = detail\<rparr>
              | Some x \<Rightarrow> \<lparr>Xp_Allow = Ex_Allow x,
                           Xp_Reason = (case Ex_Reason x of None \<Rightarrow> [] | Some r \<Rightarrow> r),
                           Xp_FailingAxis = (case Ex_FailingAxis x of None \<Rightarrow> [] | Some a \<Rightarrow> a),
                           Xp_DetailJSON = detail\<rparr>)))"

section \<open>The gate is exact\<close>

text \<open>The authentication a permission asks for, as its requirements say it.\<close>

definition strong_enough :: "PermissionRequirements \<Rightarrow> time \<Rightarrow> AuthorizeInput \<Rightarrow> bool" where
  "strong_enough req now i \<longleftrightarrow>
     set (Req_AMR req) \<subseteq> TrimSpace ` set (AI_AMR i) \<and>
     (Req_MaxAuthAge req \<le> 0 \<or> AI_AuthTime i > 0 \<and> time_sub now (AI_AuthTime i * Second) \<le> Req_MaxAuthAge req)"

lemma EvaluateStepUp_None:
  "EvaluateStepUp req amr t now = None \<longleftrightarrow>
     set (Req_AMR req) \<subseteq> TrimSpace ` set amr \<and>
     (Req_MaxAuthAge req \<le> 0 \<or> \<not> IsZero t \<and> time_sub now t \<le> Req_MaxAuthAge req)"
  by (auto simp: EvaluateStepUp_def Let_def flag_foldl_put list_ex_iff image_iff subset_iff split: if_splits)

lemma stepUp_None: "stepUp now req i = None \<longleftrightarrow> strong_enough req now i"
proof -
  have "stepUp now req i = None \<longleftrightarrow>
      EvaluateStepUp req (AI_AMR i) (if AI_AuthTime i > 0 then AI_AuthTime i * Second else zero_time) now = None"
    by (simp add: stepUp_def Let_def split: option.split)
  then show ?thesis
    by (auto simp: EvaluateStepUp_None strong_enough_def IsZero_def) (simp_all add: zero_time_def)
qed

lemma denials [simp]:
  "\<not> AD_Allow (denied r m)" "AD_Allow allowed" "stepUp now req i = Some d \<Longrightarrow> \<not> AD_Allow d"
  "\<not> AD_Allow (explainDenial en t i)"
  by (auto simp: denied_def allowed_def stepUp_def Let_def explainDenial_def split: option.splits sum.splits)

text \<open>Who may ask: a link's token about its own subject and record only; a person's session only about that
  person; services, platform operators and sessionless principals about anyone of the tenant.\<close>

definition may_ask :: "Principal \<Rightarrow> AuthorizeInput \<Rightarrow> bool" where
  "may_ask p i \<longleftrightarrow>
     (''link'' \<in> set (Pr_AMR p) \<longrightarrow>
        AI_Subject i = Pr_IdentityID p \<and> map_of (AI_Scopes i) ''_record'' = map_of (Pr_Scopes p) ''_record'' \<and>
        map_of (AI_Scopes i) ''_record'' \<notin> {None, Some []}) \<and>
     (Pr_Service p \<or> Pr_Platform p \<or> Pr_SessionID p = [] \<or> AI_Subject i = Pr_IdentityID p)"

lemma link_rule:
  "link_refused p i \<longleftrightarrow> \<not> (''link'' \<in> set (Pr_AMR p) \<longrightarrow>
        AI_Subject i = Pr_IdentityID p \<and> map_of (AI_Scopes i) ''_record'' = map_of (Pr_Scopes p) ''_record'' \<and>
        map_of (AI_Scopes i) ''_record'' \<notin> {None, Some []})"
  by (auto simp: link_refused_def LinkBound_def list_ex_iff scope_at_def LinkRecord_def split: option.splits)

lemma may_ask_iff: "may_ask p i \<longleftrightarrow> \<not> link_refused p i \<and> MayAskAbout p (AI_Subject i)"
  unfolding may_ask_def link_rule MayAskAbout_def by (simp only: not_not) (auto split: if_splits)

lemma Authorize_passes:
  assumes "AI_Subject i \<noteq> []" and "AI_Permission i \<noteq> []" and "may_ask p i"
  shows "snd (Authorize_Execute en now (Some p) i s) =
    (case AuthorizeGated en (AI_Subject i) (Pr_TenantID p) (AI_Permission i) (AI_Scopes i) of
       Inl e \<Rightarrow> Inl ErrInternal
     | Inr (allow, req) \<Rightarrow> Inr (if allow then (case stepUp now req i of None \<Rightarrow> allowed | Some st \<Rightarrow> st)
                              else explainDenial en (Pr_TenantID p) i))"
  using assms by (simp add: may_ask_iff Authorize_Execute_def Let_def split: sum.split prod.split)

lemma Authorize_refuses:
  assumes "\<not> (AI_Subject i \<noteq> [] \<and> AI_Permission i \<noteq> [] \<and> may_ask p i)"
  shows "snd (Authorize_Execute en now (Some p) i s) \<noteq> Inr d \<or> \<not> AD_Allow d"
  using assms by (auto simp: may_ask_iff Authorize_Execute_def Let_def)

lemma Authorize_allow:
  "(\<exists>d. snd (Authorize_Execute en now (Some p) i s) = Inr d \<and> AD_Allow d) \<longleftrightarrow>
     AI_Subject i \<noteq> [] \<and> AI_Permission i \<noteq> [] \<and> may_ask p i \<and>
     (\<exists>req. AuthorizeGated en (AI_Subject i) (Pr_TenantID p) (AI_Permission i) (AI_Scopes i) = Inr (True, req) \<and>
        strong_enough req now i)"
proof (cases "AI_Subject i \<noteq> [] \<and> AI_Permission i \<noteq> [] \<and> may_ask p i")
  case True
  then show ?thesis
    by (auto simp: Authorize_passes stepUp_None [symmetric] split: sum.splits prod.splits if_splits option.splits)
next
  case False
  from Authorize_refuses [OF False] False show ?thesis by blast
qed

section \<open>Properties\<close>

text \<open>C35. The decision endpoint allows exactly when it should. An answer that allows is given to an
  authenticated caller, for a named subject and permission, when the caller may ask about that subject (a token minted
  from an access link only about its own subject and its own record), the engine allows, and the authentication presented
  has every required method and is fresh enough: with a recency requirement an unknown sign-in time is never
  fresh. Whenever one of these fails, the answer is a denial or an error.\<close>

theorem authorize_exact:
  "(\<exists>d. snd (Authorize_Execute en now ctx i s) = Inr d \<and> AD_Allow d) \<longleftrightarrow>
   (\<exists>p req. ctx = Some p \<and> AI_Subject i \<noteq> [] \<and> AI_Permission i \<noteq> [] \<and> may_ask p i \<and>
      AuthorizeGated en (AI_Subject i) (Pr_TenantID p) (AI_Permission i) (AI_Scopes i) = Inr (True, req) \<and>
      strong_enough req now i)"
proof (cases ctx)
  case None
  then show ?thesis by (simp add: Authorize_Execute_def)
next
  case (Some p)
  then show ?thesis using Authorize_allow [of en now p i s] by auto
qed

section \<open>The audit trail\<close>

record Ask =
  Ask_Engine :: Engine
  Ask_Now :: time
  Ask_Caller :: "Principal option"
  Ask_Input :: AuthorizeInput

definition ask_step :: "AuthorizeState \<Rightarrow> Ask \<Rightarrow> AuthorizeState" where
  "ask_step s a = fst (Authorize_Execute (Ask_Engine a) (Ask_Now a) (Ask_Caller a) (Ask_Input a) s)"

text \<open>What a sequence of questions decides: the verdicts do not depend on the audit state.\<close>

definition verdict_of :: "Ask \<Rightarrow> AuthzDecision result" where
  "verdict_of a = snd (Authorize_Execute (Ask_Engine a) (Ask_Now a) (Ask_Caller a) (Ask_Input a) \<lparr>AS_counter = 0, AS_audit = []\<rparr>)"

definition asked :: "bool \<Rightarrow> Ask \<Rightarrow> bool" where
  "asked allow a = (case verdict_of a of Inl e \<Rightarrow> False | Inr d \<Rightarrow> AD_Allow d = allow)"

definition events :: "string \<Rightarrow> AuthorizeState \<Rightarrow> nat" where
  "events r s = length (filter (\<lambda>e. Ev_Result e = r) (AS_audit s))"

lemma Execute_split:
  "Authorize_Execute en now ctx i s =
     (case snd (Authorize_Execute en now ctx i \<lparr>AS_counter = 0, AS_audit = []\<rparr>) of
        Inl e \<Rightarrow> (s, Inl e)
      | Inr d \<Rightarrow> (auditDecision (the ctx) i d s, Inr d))"
proof (cases ctx)
  case (Some p)
  then show ?thesis
    by (cases "AI_Subject i = [] \<or> AI_Permission i = []"; cases "link_refused p i"; cases "MayAskAbout p (AI_Subject i)";
        cases "AuthorizeGated en (AI_Subject i) (Pr_TenantID p) (AI_Permission i) (AI_Scopes i)")
       (simp_all add: Authorize_Execute_def Let_def split: prod.split)
qed (simp add: Authorize_Execute_def)

lemma ask_step_alt:
  "ask_step s a = (case verdict_of a of Inl e \<Rightarrow> s | Inr d \<Rightarrow> auditDecision (the (Ask_Caller a)) (Ask_Input a) d s)"
  by (subst ask_step_def, subst Execute_split) (simp add: verdict_of_def split: sum.split)

lemma div16_Suc: "Suc n div 16 = n div 16 + (if Suc n mod 16 = 0 then 1 else 0)" for n :: nat
  by (simp add: div_Suc mod_Suc)

lemma mod_wrap: "Suc (n mod 18446744073709551616) mod 18446744073709551616 mod 16 = Suc n mod 16" for n :: nat
proof -
  have "Suc (n mod 18446744073709551616) mod 18446744073709551616 = Suc n mod 18446744073709551616"
    by (simp add: mod_simps)
  also have "\<dots> mod 16 = Suc n mod 16" by (rule mod_mod_cancel) simp
  finally show ?thesis .
qed

lemma ask_run:
  assumes "AS_counter s = n mod 2 ^ 64" and "events ''allow'' s = n div 16" and "events ''deny'' s = m"
  shows "events ''deny'' (foldl ask_step s as) = m + length (filter (asked False) as) \<and>
    events ''allow'' (foldl ask_step s as) = (n + length (filter (asked True) as)) div 16"
  using assms
proof (induction as arbitrary: s n m)
  case Nil
  then show ?case by simp
next
  case (Cons a as)
  consider (err) e where "verdict_of a = Inl e" | (allow) d where "verdict_of a = Inr d" "AD_Allow d"
    | (deny) d where "verdict_of a = Inr d" "\<not> AD_Allow d"
    by (cases "verdict_of a") blast+
  then show ?case
  proof cases
    case err
    then have "asked b a = False" for b by (simp add: asked_def)
    with err Cons show ?thesis by (simp add: ask_step_alt)
  next
    case allow
    let ?s = "ask_step s a"
    have c: "AS_counter ?s = Suc n mod 2 ^ 64"
      using allow Cons.prems(1) by (simp add: ask_step_alt auditDecision_def Let_def mod_simps)
    have e: "events ''allow'' ?s = Suc n div 16" "events ''deny'' ?s = m"
      using allow Cons.prems mod_wrap [of n]
      by (simp_all add: ask_step_alt auditDecision_def Let_def events_def allowAuditSampleRate_def div16_Suc)
    from Cons.IH [OF c e] allow show ?thesis by (simp add: asked_def)
  next
    case deny
    let ?s = "ask_step s a"
    have c: "AS_counter ?s = n mod 2 ^ 64" "events ''allow'' ?s = n div 16" "events ''deny'' ?s = Suc m"
      using deny Cons.prems by (simp_all add: ask_step_alt auditDecision_def Let_def events_def)
    from Cons.IH [OF c] deny show ?thesis by (simp add: asked_def)
  qed
qed

text \<open>The audit trail of the decision endpoint. From its start, after any sequence of questions, the
  trail holds one event for every denial and one for every sixteenth allow, also once the
  64-bit counter of allows has wrapped around.\<close>

theorem decisions_audited:
  "events ''deny'' (foldl ask_step \<lparr>AS_counter = 0, AS_audit = []\<rparr> as) = length (filter (asked False) as) \<and>
   events ''allow'' (foldl ask_step \<lparr>AS_counter = 0, AS_audit = []\<rparr> as) = length (filter (asked True) as) div 16"
  using ask_run [of "\<lparr>AS_counter = 0, AS_audit = []\<rparr>" 0 0 as] by (simp add: events_def)

end
