(* ===== verification/Identity_Domain.thy ===== *)
theory Identity_Domain
  imports Principal
begin

text \<open>
  \<^verbatim>\<open>internal/identity/domain\<close>, \<^verbatim>\<open>internal/identity/domain/credential\<close>, \<^verbatim>\<open>internal/tenancy/domain\<close> and
  \<^verbatim>\<open>internal/shared/validate\<close>: the people, the population policy they sign in under, the
  applications and tenants they sign in to, and the rules those types carry themselves. Columns
  that no modelled operation reads (display names, logout addresses) are left out.
\<close>

section \<open>identity.go\<close>

record DomainIdentity =
  Id_ID :: string
  Id_TenantID :: string
  Id_RealmID :: string
  Id_RealmCode :: string
  Id_RealmKind :: string
  Id_Username :: string
  Id_Email :: string
  Id_Status :: string
  Id_AssuranceLevel :: int
  Id_TokenEpoch :: int
  Id_Disabled :: bool
  Id_Anonymized :: bool

definition CanAuthenticate :: "DomainIdentity \<Rightarrow> unit result" where
  "CanAuthenticate i =
     (if Id_Anonymized i \<or> Id_Disabled i \<or> Id_Status i = ''disabled'' then Inl ErrIdentityDisabled
      else if Id_Status i = ''locked'' then Inl ErrIdentityLocked
      else if Id_Status i \<noteq> ''active'' then Inl ErrInvalidCredentials
      else Inr ())"

lemma CanAuthenticate_iff:
  "CanAuthenticate i = Inr () \<longleftrightarrow> \<not> Id_Anonymized i \<and> \<not> Id_Disabled i \<and> Id_Status i = ''active''"
  by (simp add: CanAuthenticate_def)

section \<open>password\_policy.go and realm.go\<close>

record PasswordPolicy =
  PP_MinLength :: int

text \<open>\<open>decode\<close> is what \<^verbatim>\<open>json.Unmarshal\<close> leaves in the zeroed struct, whatever its error.\<close>

definition ParsePasswordPolicy :: "(string \<Rightarrow> PasswordPolicy) \<Rightarrow> string \<Rightarrow> PasswordPolicy" where
  "ParsePasswordPolicy decode raw =
     (let p = decode raw in if PP_MinLength p \<le> 0 then p\<lparr>PP_MinLength := 12\<rparr> else p)"

definition PasswordPolicy_Check :: "PasswordPolicy \<Rightarrow> string \<Rightarrow> unit result" where
  "PasswordPolicy_Check p password =
     (if int (length password) < PP_MinLength p then Inl ErrPasswordPolicy
      else if length password > 512 then Inl ErrPasswordPolicy
      else Inr ())"

record Realm =
  Rm_ID :: string
  Rm_TenantID :: string
  Rm_Code :: string
  Rm_Kind :: string
  Rm_DisplayName :: string
  Rm_MinAssurance :: int
  Rm_SelfRegistration :: bool
  Rm_EmailVerification :: bool
  Rm_AllowedFactors :: "string list"
  Rm_RequiredFactors :: "string list"
  Rm_SessionTTL :: duration
  Rm_AccessTokenTTL :: duration
  Rm_RefreshTokenTTL :: duration
  Rm_PasswordPolicy :: PasswordPolicy
  Rm_FactorEnrolmentDeadline :: time

datatype EnrolmentStance = EnrolmentNotEnforced | EnrolmentDue | EnrolmentOverdue

definition AllowsFactor :: "Realm \<Rightarrow> string \<Rightarrow> bool" where
  "AllowsFactor r factor = list_ex (\<lambda>f. f = factor) (Rm_AllowedFactors r)"

definition RequiresFactor :: "Realm \<Rightarrow> string \<Rightarrow> bool" where
  "RequiresFactor r factor = list_ex (\<lambda>f. f = factor) (Rm_RequiredFactors r)"

fun missing_loop :: "Realm \<Rightarrow> string list \<Rightarrow> string list \<Rightarrow> string list" where
  "missing_loop r enrolled [] = []"
| "missing_loop r enrolled (want # wants) =
     (if want = ''password'' \<or> \<not> AllowsFactor r want then missing_loop r enrolled wants
      else if want \<notin> set enrolled then want # missing_loop r enrolled wants
      else missing_loop r enrolled wants)"

definition EnrolmentStanceFor :: "Realm \<Rightarrow> string list \<Rightarrow> time \<Rightarrow> EnrolmentStance \<times> string list" where
  "EnrolmentStanceFor r enrolled now =
     (if IsZero (Rm_FactorEnrolmentDeadline r) then (EnrolmentNotEnforced, [])
      else let missing = missing_loop r enrolled (Rm_RequiredFactors r) in
        if missing = [] then (EnrolmentNotEnforced, [])
        else if Before now (Rm_FactorEnrolmentDeadline r) then (EnrolmentDue, missing)
        else (EnrolmentOverdue, missing))"

lemma AllowsFactor_iff [simp]: "AllowsFactor r f \<longleftrightarrow> f \<in> set (Rm_AllowedFactors r)"
  by (auto simp: AllowsFactor_def list_ex_iff)

lemma set_missing_loop:
  "set (missing_loop r enrolled wants) =
     {w \<in> set wants. w \<noteq> ''password'' \<and> w \<in> set (Rm_AllowedFactors r) \<and> w \<notin> set enrolled}"
  by (induction wants) auto

section \<open>credential.go\<close>

text \<open>The \<^verbatim>\<open>params\<close> column is a JSON object; its members are numbers or anything else.\<close>

datatype jsonval = JNumber int | JOther string

record Credential =
  Cr_ID :: string
  Cr_IdentityID :: string
  Cr_TenantID :: string
  Cr_Kind :: string
  Cr_Secret :: string
  Cr_SecretKid :: string
  Cr_Params :: "(string, jsonval) gomap"
  Cr_SignCounter :: int
  Cr_ExpiresAt :: "time option"

definition Cred_Expired :: "Credential \<Rightarrow> time \<Rightarrow> bool" where
  "Cred_Expired c now = (case Cr_ExpiresAt c of None \<Rightarrow> False | Some e \<Rightarrow> \<not> After e now)"

section \<open>tenant\_ref.go and application\_record.go\<close>

record TenantRef =
  Tn_ID :: string
  Tn_Slug :: string
  Tn_Status :: string

definition Serving :: "TenantRef option \<Rightarrow> bool" where
  "Serving t = (case t of None \<Rightarrow> False | Some t \<Rightarrow> Tn_Status t = ''active'')"

record ApplicationRecord =
  Ap_ID :: string
  Ap_Slug :: string
  Ap_Kind :: string
  Ap_Status :: string
  Ap_RedirectURIs :: "string list"
  Ap_AllowedAudiences :: "string list"
  Ap_SignIn :: string
  Ap_TokenFormat :: string
  Ap_AccessTokenTTLSecs :: int
  Ap_RefreshTokenTTLSecs :: int
  Ap_IsSystem :: bool
  Ap_ClientSecretHash :: string

section \<open>validate.go\<close>

text \<open>\<^verbatim>\<open>[^\s]{2,128}\<close>: between 2 and 128 runes, none an ASCII space. The expression reads a byte
  that starts no valid sequence as one rune.\<close>

fun rune_count :: "nat list \<Rightarrow> nat" where
  "rune_count [] = 0"
| "rune_count (a # bs) =
     (if a < 128 then 1 + rune_count bs
      else case bs of
        [] \<Rightarrow> 1
      | b # cs \<Rightarrow>
          if utf8_2 a b then 1 + rune_count cs
          else (case cs of
            [] \<Rightarrow> 1 + rune_count bs
          | c # ds \<Rightarrow>
              if utf8_3 a b c then 1 + rune_count ds
              else (case ds of
                [] \<Rightarrow> 1 + rune_count bs
              | d # es \<Rightarrow> if utf8_4 a b c d then 1 + rune_count es else 1 + rune_count bs)))"

definition re_space :: "char \<Rightarrow> bool" where
  "re_space c \<longleftrightarrow> byte_of c \<in> {9, 10, 12, 13, 32}"

definition ValidUsername :: "string \<Rightarrow> bool" where
  "ValidUsername s \<longleftrightarrow> list_all (\<lambda>c. \<not> re_space c) s \<and> 2 \<le> rune_count (map byte_of s) \<and>
     rune_count (map byte_of s) \<le> 128"

end
