(* ===== verification/Record_Share.thy ===== *)
theory Record_Share
  imports Identity_Domain
begin

text \<open>
  One person opening one record to another for a while: \<^verbatim>\<open>internal/authz/domain/share\<close>,
  \<^verbatim>\<open>internal/authz/app/share/share_interactor.go\<close> and
  \<^verbatim>\<open>internal/authz/adapter/postgres/share_repository.go\<close>.

  The table \<^verbatim>\<open>record_shares\<close> is a list of rows with the checks its migration declares; the
  operations return the table and the audit events they leave. Parameters (\<open>ShareEnv\<close>) stand for the decision engine
  (asked through grants only), the permission catalogue, the identities of the tenant, the random
  generator of link secrets and the hash they are stored under. Ids are compared as the text they are given as, and the
  application's clock stands for the database's in the check that a share ends after it starts.
\<close>

section \<open>Records\<close>

definition kind_ok :: "string \<Rightarrow> bool" where
  "kind_ok s = (case s of [] \<Rightarrow> False
     | c # cs \<Rightarrow> lower c \<and> 1 \<le> length cs \<and> length cs \<le> 40 \<and> list_all (\<lambda>x. lower x \<or> digit x \<or> x = CHR ''_'') cs)"

datatype record_err = ErrBadKind | ErrBadRef

definition RecordKey :: "string \<Rightarrow> string \<Rightarrow> record_err + string" where
  "RecordKey kind ref =
     (let kind = TrimSpace kind; ref = TrimSpace ref in
      if \<not> kind_ok kind then Inl ErrBadKind
      else if ref = [] \<or> length ref > 200 \<or>
              list_ex (\<lambda>c. c = CHR 0x0A \<or> c = CHR 0x0D \<or> c = CHR 0x09) ref then Inl ErrBadRef
      else Inr (kind @ CHR ''/'' # ref))"

definition SplitRecordKey :: "string \<Rightarrow> string \<times> string" where
  "SplitRecordKey key = (case cut_at (CHR ''/'') key of None \<Rightarrow> (key, []) | Some kr \<Rightarrow> kr)"

record RecordShare =
  RS_ID :: string
  RS_TenantID :: string
  RS_From :: string
  RS_To :: string
  RS_Record :: string
  RS_Scopes :: "(string, string) gomap"
  RS_Permissions :: "string list"
  RS_Note :: string
  RS_ValidUntil :: time
  RS_RevokedAt :: "time option"
  RS_RevokeReason :: string
  RS_LinkHash :: "string option"
  RS_LinkOpened :: nat

definition Live :: "RecordShare \<Rightarrow> time \<Rightarrow> bool" where
  "Live s now \<longleftrightarrow> RS_RevokedAt s = None \<and> After (RS_ValidUntil s) now"

definition Confers :: "RecordShare \<Rightarrow> string \<Rightarrow> bool" where
  "Confers s permission = list_ex (\<lambda>p. p = permission) (RS_Permissions s)"

definition MaxLife :: duration where "MaxLife = 90 * 24 * 3600 * Second"
definition MaxPermissions :: nat where "MaxPermissions = 32"
definition maxNote :: nat where "maxNote = 500"

section \<open>The repository\<close>

record ShareEvent =
  SE_Actor :: string
  SE_Action :: string
  SE_Target :: string
  SE_Result :: string

record ShareStore =
  SS_rows :: "RecordShare list"
  SS_audit :: "ShareEvent list"

text \<open>\<^verbatim>\<open>CreateShare\<close> with the table's checks: it ends after it starts, it is not to oneself, the record is
  named. The new id is the database's.\<close>

definition CreateShare :: "time \<Rightarrow> RecordShare \<Rightarrow> ShareStore \<Rightarrow> (ShareStore \<times> RecordShare) result" where
  "CreateShare now row st =
     (if RS_ID row \<in> RS_ID ` set (SS_rows st) then Inl ErrConflict
      else if \<not> RS_ValidUntil row > now \<or> RS_From row = RS_To row \<or> RS_Record row = [] then Inl ErrInvalidArgument
      else Inr (st\<lparr>SS_rows := SS_rows st @ [row]\<rparr>, row))"

definition GetShare :: "string \<Rightarrow> string \<Rightarrow> ShareStore \<Rightarrow> RecordShare result" where
  "GetShare tenantID sid st =
     (case find (\<lambda>r. RS_ID r = sid \<and> RS_TenantID r = tenantID) (SS_rows st) of
        None \<Rightarrow> Inl ErrNotFound | Some r \<Rightarrow> Inr r)"

definition RevokeShare :: "time \<Rightarrow> string \<Rightarrow> string \<Rightarrow> string \<Rightarrow> ShareStore \<Rightarrow> ShareStore" where
  "RevokeShare now tenantID sid reason st =
     st\<lparr>SS_rows := map (\<lambda>r. if RS_ID r = sid \<and> RS_TenantID r = tenantID \<and> RS_RevokedAt r = None
                            then r\<lparr>RS_RevokedAt := Some now, RS_RevokeReason := reason\<rparr> else r) (SS_rows st)\<rparr>"

definition live_row :: "time \<Rightarrow> string \<Rightarrow> string \<Rightarrow> RecordShare \<Rightarrow> bool" where
  "live_row now tenantID sid r \<longleftrightarrow>
     RS_ID r = sid \<and> RS_TenantID r = tenantID \<and> RS_RevokedAt r = None \<and> RS_ValidUntil r > now"

definition SetShareLink :: "time \<Rightarrow> string \<Rightarrow> string \<Rightarrow> string \<Rightarrow> ShareStore \<Rightarrow> ShareStore \<times> bool" where
  "SetShareLink now tenantID sid hash st =
     (st\<lparr>SS_rows := map (\<lambda>r. if live_row now tenantID sid r
                             then r\<lparr>RS_LinkHash := Some hash, RS_LinkOpened := 0\<rparr> else r) (SS_rows st)\<rparr>,
      list_ex (live_row now tenantID sid) (SS_rows st))"

definition ShareByLinkHash :: "time \<Rightarrow> string \<Rightarrow> ShareStore \<Rightarrow> RecordShare result" where
  "ShareByLinkHash now hash st =
     (case find (\<lambda>r. RS_LinkHash r = Some hash \<and> RS_RevokedAt r = None \<and> RS_ValidUntil r > now) (SS_rows st) of
        None \<Rightarrow> Inl ErrNotFound | Some r \<Rightarrow> Inr r)"

section \<open>The interactor\<close>

record ShareEnv =
  SV_Authorize :: "string \<Rightarrow> string \<Rightarrow> string \<Rightarrow> (string, string) gomap \<Rightarrow> bool result"
  SV_PermissionKnown :: "string \<Rightarrow> string \<Rightarrow> bool"
  SV_Identity :: "string \<Rightarrow> string \<Rightarrow> DomainIdentity option"
  SV_Hash :: "string \<Rightarrow> string"

record ShareInput =
  SI_RecordKind :: string
  SI_RecordRef :: string
  SI_RecordScopes :: "(string, string) gomap"
  SI_To :: string
  SI_Permissions :: "string list"
  SI_ValidUntil :: time
  SI_Note :: string

definition person :: "Principal option \<Rightarrow> Principal result" where
  "person ctx = (case ctx of None \<Rightarrow> Inl ErrUnauthenticated
     | Some p \<Rightarrow> if Pr_IdentityID p = [] \<or> Pr_Platform p \<or> Pr_Service p then Inl ErrUnauthenticated else Inr p)"

fun scopes_loop :: "(string, string) gomap \<Rightarrow> (string, string) gomap \<Rightarrow> (string, string) gomap result" where
  "scopes_loop [] out = Inr out"
| "scopes_loop ((axis, node) # rest) out =
     (if axis = ''_record'' then scopes_loop rest out
      else if axis \<noteq> ''_owner'' \<and> \<not> ValidCode axis then Inl ErrInvalidArgument
      else if node = [] then Inl ErrInvalidArgument
      else scopes_loop rest (map_put axis node out))"

definition recordScopes :: "(string, string) gomap \<Rightarrow> (string, string) gomap result" where
  "recordScopes m = (if length m > 16 then Inl ErrInvalidArgument else scopes_loop m [])"

fun dedupe_loop :: "string list \<Rightarrow> (string, bool) gomap \<Rightarrow> string list" where
  "dedupe_loop [] seen = []"
| "dedupe_loop (k # ks) seen =
     (let k = TrimSpace k in
      if k = [] \<or> flag seen k then dedupe_loop ks seen
      else k # dedupe_loop ks (map_put k True seen))"

definition dedupe :: "string list \<Rightarrow> string list" where
  "dedupe keys = dedupe_loop keys []"

definition share_event :: "Principal \<Rightarrow> string \<Rightarrow> string \<Rightarrow> string \<Rightarrow> ShareStore \<Rightarrow> ShareStore" where
  "share_event p action target res st =
     st\<lparr>SS_audit := SS_audit st @ [\<lparr>SE_Actor = Pr_IdentityID p, SE_Action = action, SE_Target = target, SE_Result = res\<rparr>]\<rparr>"

text \<open>The loop that authorises the sharer for every permission; a refusal is audited.\<close>

fun perms_loop :: "ShareEnv \<Rightarrow> Principal \<Rightarrow> (string, string) gomap \<Rightarrow> string list \<Rightarrow> apperr option" where
  "perms_loop ev p targets [] = None"
| "perms_loop ev p targets (key # keys) =
     (if \<not> SV_PermissionKnown ev (Pr_TenantID p) key then Some ErrInvalidArgument
      else (case SV_Authorize ev (Pr_IdentityID p) (Pr_TenantID p) key targets of
          Inl e \<Rightarrow> Some ErrInternal
        | Inr ok \<Rightarrow> if \<not> ok then Some ErrPermissionDenied else perms_loop ev p targets keys))"

definition Share_Create ::
  "ShareEnv \<Rightarrow> time \<Rightarrow> string \<Rightarrow> Principal option \<Rightarrow> ShareInput \<Rightarrow> ShareStore \<Rightarrow> ShareStore \<times> RecordShare result" where
  "Share_Create ev now newid ctx i st =
     (case person ctx of Inl e \<Rightarrow> (st, Inl e) | Inr p \<Rightarrow>
      case RecordKey (SI_RecordKind i) (SI_RecordRef i) of Inl e \<Rightarrow> (st, Inl ErrInvalidArgument) | Inr record \<Rightarrow>
      if SI_To i = [] \<or> SI_To i = Pr_IdentityID p then (st, Inl ErrInvalidArgument)
      else if SI_Permissions i = [] \<or> length (SI_Permissions i) > MaxPermissions then (st, Inl ErrInvalidArgument)
      else if IsZero (SI_ValidUntil i) \<or> \<not> After (SI_ValidUntil i) now then (st, Inl ErrInvalidArgument)
      else if After (SI_ValidUntil i) (now + MaxLife) then (st, Inl ErrInvalidArgument)
      else if length (SI_Note i) > maxNote then (st, Inl ErrInvalidArgument)
      else case recordScopes (SI_RecordScopes i) of Inl e \<Rightarrow> (st, Inl e) | Inr scopes \<Rightarrow>
      case SV_Identity ev (Pr_TenantID p) (SI_To i) of None \<Rightarrow> (st, Inl ErrNotFound) | Some to \<Rightarrow>
      case CanAuthenticate to of Inl e \<Rightarrow> (st, Inl ErrInvalidArgument) | Inr _ \<Rightarrow>
      let perms = dedupe (SI_Permissions i) in
      case perms_loop ev p scopes perms of
        Some e \<Rightarrow> (if e = ErrPermissionDenied then share_event p ''share.create'' (SI_To i) ''deny'' st else st, Inl e)
      | None \<Rightarrow>
      case CreateShare now \<lparr>RS_ID = newid, RS_TenantID = Pr_TenantID p, RS_From = Pr_IdentityID p, RS_To = SI_To i,
          RS_Record = record, RS_Scopes = scopes, RS_Permissions = perms, RS_Note = TrimSpace (SI_Note i),
          RS_ValidUntil = SI_ValidUntil i, RS_RevokedAt = None, RS_RevokeReason = [], RS_LinkHash = None,
          RS_LinkOpened = 0\<rparr> st of
        Inl e \<Rightarrow> (st, Inl e)
      | Inr (st', sh) \<Rightarrow> (share_event p ''share.create'' (SI_To i) ''allow'' st', Inr sh))"

fun holds_loop :: "ShareEnv \<Rightarrow> Principal \<Rightarrow> (string, string) gomap \<Rightarrow> string list \<Rightarrow> bool result" where
  "holds_loop ev p targets [] = Inr True"
| "holds_loop ev p targets (key # keys) =
     (case SV_Authorize ev (Pr_IdentityID p) (Pr_TenantID p) key targets of
        Inl e \<Rightarrow> Inl ErrInternal
      | Inr ok \<Rightarrow> if \<not> ok then Inr False else holds_loop ev p targets keys)"

definition holdsAll :: "ShareEnv \<Rightarrow> Principal \<Rightarrow> RecordShare \<Rightarrow> bool result" where
  "holdsAll ev p sh = holds_loop ev p (RS_Scopes sh) (RS_Permissions sh)"

text \<open>Only the sharer, or somebody who holds everything the share gives, may end it or make a link of it.\<close>

definition may_manage :: "ShareEnv \<Rightarrow> Principal \<Rightarrow> RecordShare \<Rightarrow> unit result" where
  "may_manage ev p sh =
     (if RS_From sh \<noteq> Pr_IdentityID p
      then (case holdsAll ev p sh of Inl e \<Rightarrow> Inl e | Inr ok \<Rightarrow> if ok then Inr () else Inl ErrPermissionDenied)
      else Inr ())"

definition Unshare ::
  "ShareEnv \<Rightarrow> time \<Rightarrow> Principal option \<Rightarrow> string \<Rightarrow> string \<Rightarrow> ShareStore \<Rightarrow> ShareStore \<times> unit result" where
  "Unshare ev now ctx sid reason st =
     (case person ctx of Inl e \<Rightarrow> (st, Inl e) | Inr p \<Rightarrow>
      case GetShare (Pr_TenantID p) sid st of Inl e \<Rightarrow> (st, Inl ErrNotFound) | Inr sh \<Rightarrow>
      case may_manage ev p sh of Inl e \<Rightarrow> (st, Inl e) | Inr _ \<Rightarrow>
        (share_event p ''share.revoke'' (RS_To sh) ''allow'' (RevokeShare now (Pr_TenantID p) sid (TrimSpace reason) st), Inr ()))"

definition LinkPrefix :: string where "LinkPrefix = ''anb_lk_''"

text \<open>\<^verbatim>\<open>raw\<close> is what \<^verbatim>\<open>secret.New(32)\<close> returned.\<close>

definition CreateAccessLink ::
  "ShareEnv \<Rightarrow> time \<Rightarrow> string result \<Rightarrow> Principal option \<Rightarrow> string \<Rightarrow> ShareStore \<Rightarrow> ShareStore \<times> string result" where
  "CreateAccessLink ev now raw ctx sid st =
     (case person ctx of Inl e \<Rightarrow> (st, Inl e) | Inr p \<Rightarrow>
      case GetShare (Pr_TenantID p) sid st of Inl e \<Rightarrow> (st, Inl ErrNotFound) | Inr sh \<Rightarrow>
      if \<not> Live sh now then (st, Inl ErrInvalidArgument)
      else case may_manage ev p sh of Inl e \<Rightarrow> (st, Inl e) | Inr _ \<Rightarrow>
      case raw of Inl e \<Rightarrow> (st, Inl ErrInternal) | Inr r \<Rightarrow>
      let token = LinkPrefix @ r; (st', ok) = SetShareLink now (Pr_TenantID p) (RS_ID sh) (SV_Hash ev token) st in
      if \<not> ok then (st', Inl ErrInvalidArgument)
      else (share_event p ''share.link_create'' (RS_To sh) ''allow'' st', Inr token))"

fun visible_loop ::
  "ShareEnv \<Rightarrow> Principal \<Rightarrow> (string, string) gomap \<Rightarrow> RecordShare list \<Rightarrow> RecordShare list result" where
  "visible_loop ev p scopes [] = Inr []"
| "visible_loop ev p scopes (sh # rest) =
     (if RS_From sh = Pr_IdentityID p \<or> RS_To sh = Pr_IdentityID p
      then and_then (visible_loop ev p scopes rest) (\<lambda>out. Inr (sh # out))
      else let probe = (if scopes \<noteq> []
             then (case recordScopes scopes of Inl e \<Rightarrow> sh | Inr clean \<Rightarrow> sh\<lparr>RS_Scopes := clean\<rparr>) else sh) in
        (case holdsAll ev p probe of Inl e \<Rightarrow> Inl e
         | Inr ok \<Rightarrow> and_then (visible_loop ev p scopes rest) (\<lambda>out. Inr (if ok then sh # out else out))))"

definition SharesOnRecord ::
  "ShareEnv \<Rightarrow> time \<Rightarrow> Principal option \<Rightarrow> string \<Rightarrow> string \<Rightarrow> (string, string) gomap \<Rightarrow> ShareStore \<Rightarrow> RecordShare list result" where
  "SharesOnRecord ev now ctx kind ref scopes st =
     and_then (person ctx) (\<lambda>p.
       case RecordKey kind ref of Inl e \<Rightarrow> Inl ErrInvalidArgument
       | Inr record \<Rightarrow> visible_loop ev p scopes
           (rev (filter (\<lambda>r. RS_TenantID r = Pr_TenantID p \<and> RS_Record r = record \<and> RS_RevokedAt r = None \<and>
                             RS_ValidUntil r > now) (SS_rows st))))"

definition SharedWithMe :: "time \<Rightarrow> Principal option \<Rightarrow> ShareStore \<Rightarrow> RecordShare list result" where
  "SharedWithMe now ctx st =
     and_then (person ctx) (\<lambda>p. Inr
       (rev (filter (\<lambda>r. RS_TenantID r = Pr_TenantID p \<and> RS_To r = Pr_IdentityID p \<and> RS_RevokedAt r = None \<and>
                         RS_ValidUntil r > now) (SS_rows st))))"

section \<open>What the loops compute\<close>

lemma kind_ok_no_slash: "kind_ok s \<Longrightarrow> CHR ''/'' \<notin> set s"
  by (auto simp: kind_ok_def lower_def digit_def byte_of_def list_all_iff split: list.splits)

lemma cut_at_first: "c \<notin> set a \<Longrightarrow> cut_at c (a @ c # b) = Some (a, b)"
proof -
  assume a: "c \<notin> set a"
  then have "takeWhile (\<lambda>x. x \<noteq> c) (a @ c # b) = a" by (subst takeWhile_append2) auto
  moreover have "dropWhile (\<lambda>x. x \<noteq> c) (a @ c # b) = c # b" using a by (subst dropWhile_append2) auto
  ultimately show ?thesis by (simp add: cut_at_def)
qed

lemma scopes_loop_keys:
  "scopes_loop m out = Inr r \<Longrightarrow> ''_record'' \<notin> fst ` set out \<Longrightarrow> ''_record'' \<notin> fst ` set r"
  by (induction m out rule: scopes_loop.induct) (auto simp: map_put_def split: if_splits)

lemma recordScopes_no_record: "recordScopes m = Inr r \<Longrightarrow> map_of r ''_record'' = None"
  using scopes_loop_keys [of m "[]" r] by (auto simp: recordScopes_def map_of_eq_None_iff split: if_splits)

lemma dedupe_loop_set:
  "set (dedupe_loop ks seen) = {k \<in> TrimSpace ` set ks. k \<noteq> [] \<and> \<not> flag seen k}"
  by (induction ks seen rule: dedupe_loop.induct) (auto simp: Let_def go_simps)

lemma dedupe_loop_distinct: "distinct (dedupe_loop ks seen)"
  by (induction ks seen rule: dedupe_loop.induct) (auto simp: Let_def dedupe_loop_set go_simps)

lemma set_dedupe: "set (dedupe ks) = TrimSpace ` set ks - {[]}"
  by (auto simp: dedupe_def dedupe_loop_set)

lemma perms_loop_None:
  "perms_loop ev p targets keys = None \<longleftrightarrow>
     (\<forall>k\<in>set keys. SV_PermissionKnown ev (Pr_TenantID p) k \<and>
        SV_Authorize ev (Pr_IdentityID p) (Pr_TenantID p) k targets = Inr True)"
  by (induction ev p targets keys rule: perms_loop.induct) (auto split: sum.splits)

lemma holds_loop_True:
  "holds_loop ev p targets keys = Inr True \<longleftrightarrow>
     (\<forall>k\<in>set keys. SV_Authorize ev (Pr_IdentityID p) (Pr_TenantID p) k targets = Inr True)"
  by (induction ev p targets keys rule: holds_loop.induct) (auto split: sum.splits)

lemma may_manage_iff:
  "may_manage ev p sh = Inr () \<longleftrightarrow> RS_From sh = Pr_IdentityID p \<or>
     (\<forall>k\<in>set (RS_Permissions sh). SV_Authorize ev (Pr_IdentityID p) (Pr_TenantID p) k (RS_Scopes sh) = Inr True)"
  by (auto simp: may_manage_def holdsAll_def holds_loop_True [symmetric] split: sum.splits if_splits)

section \<open>Properties\<close>

text \<open>The name of a record is unambiguous: the kind and the reference a key was made of, white space
  trimmed, are what the key splits into, whatever the reference contains.\<close>

theorem record_key_round_trip:
  assumes "RecordKey kind ref = Inr key"
  shows "SplitRecordKey key = (TrimSpace kind, TrimSpace ref)"
  using assms kind_ok_no_slash [of "TrimSpace kind"]
  by (auto simp: RecordKey_def SplitRecordKey_def Let_def cut_at_first split: if_splits)

theorem record_key_round_trip_witness:
  "RecordKey '' job '' ''a/7'' = Inr ''job/a/7'' \<and> SplitRecordKey ''job/a/7'' = (''job'', ''a/7'')"
proof -
  have k: "RecordKey '' job '' ''a/7'' = Inr ''job/a/7''" by code_simp
  have "TrimSpace '' job '' = ''job''" "TrimSpace ''a/7'' = ''a/7''" by code_simp+
  with record_key_round_trip [OF k] k show ?thesis by simp
qed

lemma person_Inr: "person ctx = Inr p \<longleftrightarrow> ctx = Some p \<and> Pr_IdentityID p \<noteq> [] \<and> \<not> Pr_Platform p \<and> \<not> Pr_Service p"
  by (auto simp: person_def split: option.splits)

lemma Share_Create_Inr:
  assumes "Share_Create ev now newid ctx i st = (st', Inr sh)"
  obtains p rk scopes who where "person ctx = Inr p" "RecordKey (SI_RecordKind i) (SI_RecordRef i) = Inr rk"
    "SI_To i \<noteq> []" "SI_To i \<noteq> Pr_IdentityID p" "SI_Permissions i \<noteq> []" "length (SI_Permissions i) \<le> MaxPermissions"
    "SI_ValidUntil i > now" "SI_ValidUntil i \<le> now + MaxLife" "recordScopes (SI_RecordScopes i) = Inr scopes"
    "SV_Identity ev (Pr_TenantID p) (SI_To i) = Some who" "CanAuthenticate who = Inr ()"
    "perms_loop ev p scopes (dedupe (SI_Permissions i)) = None"
    "sh = \<lparr>RS_ID = newid, RS_TenantID = Pr_TenantID p, RS_From = Pr_IdentityID p, RS_To = SI_To i,
          RS_Record = rk, RS_Scopes = scopes, RS_Permissions = dedupe (SI_Permissions i), RS_Note = TrimSpace (SI_Note i),
          RS_ValidUntil = SI_ValidUntil i, RS_RevokedAt = None, RS_RevokeReason = [], RS_LinkHash = None, RS_LinkOpened = 0\<rparr>"
    "SS_rows st' = SS_rows st @ [sh]" "newid \<notin> RS_ID ` set (SS_rows st)"
  using assms unfolding Share_Create_def Let_def
  by (auto simp: After_def CreateShare_def share_event_def split: sum.splits option.splits if_splits)

text \<open>C37. You can only share what you can do. A share that is created is made by a signed-in person (never by a
  service or an operator) to somebody else of the tenant who can sign in; it ends after now and within ninety days; every
  permission it gives is one the sharer asked for and, at the record's own places, the engine grants to the sharer; and those
  places never include another record, so access held through a share cannot be shared again.\<close>

theorem share_within_sharer:
  assumes "Share_Create ev now newid ctx i st = (st', Inr sh)"
  shows "\<exists>p. ctx = Some p \<and> \<not> Pr_Platform p \<and> \<not> Pr_Service p \<and> RS_From sh = Pr_IdentityID p \<and>
      RS_To sh = SI_To i \<and> RS_To sh \<noteq> RS_From sh \<and>
      (\<exists>to. SV_Identity ev (Pr_TenantID p) (RS_To sh) = Some to \<and> \<not> Id_Disabled to \<and> \<not> Id_Anonymized to \<and> Id_Status to = ''active'') \<and>
      Live sh now \<and> RS_ValidUntil sh \<le> now + MaxLife \<and> map_of (RS_Scopes sh) ''_record'' = None \<and>
      distinct (RS_Permissions sh) \<and> set (RS_Permissions sh) = TrimSpace ` set (SI_Permissions i) - {[]} \<and>
      list_all (\<lambda>k. SV_Authorize ev (RS_From sh) (Pr_TenantID p) k (RS_Scopes sh) = Inr True) (RS_Permissions sh) \<and>
      SS_rows st' = SS_rows st @ [sh]"
  using assms
proof (rule Share_Create_Inr)
  fix p rk scopes who
  assume a: "person ctx = Inr p" "SI_To i \<noteq> Pr_IdentityID p" "SI_ValidUntil i > now" "SI_ValidUntil i \<le> now + MaxLife"
    "recordScopes (SI_RecordScopes i) = Inr scopes" "SV_Identity ev (Pr_TenantID p) (SI_To i) = Some who"
    "CanAuthenticate who = Inr ()" "perms_loop ev p scopes (dedupe (SI_Permissions i)) = None"
    "sh = \<lparr>RS_ID = newid, RS_TenantID = Pr_TenantID p, RS_From = Pr_IdentityID p, RS_To = SI_To i,
          RS_Record = rk, RS_Scopes = scopes, RS_Permissions = dedupe (SI_Permissions i), RS_Note = TrimSpace (SI_Note i),
          RS_ValidUntil = SI_ValidUntil i, RS_RevokedAt = None, RS_RevokeReason = [], RS_LinkHash = None, RS_LinkOpened = 0\<rparr>"
    "SS_rows st' = SS_rows st @ [sh]"
  have "distinct (dedupe (SI_Permissions i))" by (simp add: dedupe_def dedupe_loop_distinct)
  with a show ?thesis
    by (intro exI [of _ p])
       (simp add: person_Inr CanAuthenticate_iff Live_def After_def perms_loop_None set_dedupe recordScopes_no_record list_all_iff)
qed

definition demo_sharer :: Principal where
  "demo_sharer = \<lparr>Pr_IdentityID = ''ann'', Pr_TenantID = ''t'', Pr_TenantSlug = ''t'', Pr_SessionID = ''s'',
     Pr_Realm = ''workforce'', Pr_Roles = [], Pr_Scopes = [], Pr_AMR = [], Pr_AuthTime = 0, Pr_IAL = 1, Pr_Epoch = 1,
     Pr_Audience = [], Pr_Service = False, Pr_Platform = False, Pr_Token = []\<rparr>"

text \<open>An engine that allows \<open>ann\<close> to read and nothing else to anybody.\<close>

definition demo_person :: "string \<Rightarrow> DomainIdentity" where
  "demo_person who = \<lparr>Id_ID = who, Id_TenantID = ''t1'', Id_RealmID = ''r1'', Id_RealmCode = ''internal'',
     Id_RealmKind = ''internal'', Id_Username = who, Id_Email = [], Id_Status = ''active'', Id_AssuranceLevel = 1,
     Id_TokenEpoch = 0, Id_Disabled = False, Id_Anonymized = False\<rparr>"

definition demo_env :: ShareEnv where
  "demo_env = \<lparr>SV_Authorize = (\<lambda>who tenant key targets. Inr (who = ''ann'' \<and> key = ''hr:job:read'')),
     SV_PermissionKnown = (\<lambda>tenant key. key = ''hr:job:read''),
     SV_Identity = (\<lambda>tenant who. Some (demo_person who)),
     SV_Hash = (\<lambda>s. s)\<rparr>"

definition demo_share_input :: "string \<Rightarrow> ShareInput" where
  "demo_share_input perm = \<lparr>SI_RecordKind = ''job'', SI_RecordRef = ''7'', SI_RecordScopes = [(''org'', ''east'')],
     SI_To = ''bob'', SI_Permissions = [perm], SI_ValidUntil = 200, SI_Note = []\<rparr>"

theorem share_within_sharer_witness:
  "\<exists>st' sh. Share_Create demo_env 100 ''s1'' (Some demo_sharer) (demo_share_input ''hr:job:read'') \<lparr>SS_rows = [], SS_audit = []\<rparr>
       = (st', Inr sh) \<and> RS_Permissions sh = [''hr:job:read''] \<and> RS_From sh = ''ann''"
proof -
  have "case Share_Create demo_env 100 ''s1'' (Some demo_sharer) (demo_share_input ''hr:job:read'') \<lparr>SS_rows = [], SS_audit = []\<rparr>
      of (st', r) \<Rightarrow> (case r of Inl e \<Rightarrow> False | Inr sh \<Rightarrow> RS_Permissions sh = [''hr:job:read''])"
    by code_simp
  then obtain st' sh where c: "Share_Create demo_env 100 ''s1'' (Some demo_sharer) (demo_share_input ''hr:job:read'')
      \<lparr>SS_rows = [], SS_audit = []\<rparr> = (st', Inr sh)" and ps: "RS_Permissions sh = [''hr:job:read'']"
    by (auto split: prod.splits sum.splits)
  from share_within_sharer [OF c] have "RS_From sh = ''ann''" by (auto simp: demo_sharer_def)
  with c ps show ?thesis by blast
qed

text \<open>The number of permissions is checked before blank names are dropped, so a share whose permission
  names are all white space is created all the same: it confers nothing, no permission of the sharer was ever checked for it,
  and every person of the tenant is taken to hold everything it gives and may end it.\<close>

theorem blank_share:
  assumes "Share_Create ev now newid ctx i st = (st', Inr sh)"
    and "list_all (\<lambda>k. TrimSpace k = []) (SI_Permissions i)"
    and "person (Some q) = Inr q" and "Pr_TenantID q = RS_TenantID sh"
  shows "RS_Permissions sh = [] \<and> snd (Unshare ev later (Some q) newid reason st') = Inr ()"
  using assms(1)
proof (rule Share_Create_Inr)
  fix p rk scopes who
  assume a: "sh = \<lparr>RS_ID = newid, RS_TenantID = Pr_TenantID p, RS_From = Pr_IdentityID p, RS_To = SI_To i,
          RS_Record = rk, RS_Scopes = scopes, RS_Permissions = dedupe (SI_Permissions i), RS_Note = TrimSpace (SI_Note i),
          RS_ValidUntil = SI_ValidUntil i, RS_RevokedAt = None, RS_RevokeReason = [], RS_LinkHash = None, RS_LinkOpened = 0\<rparr>"
    "SS_rows st' = SS_rows st @ [sh]" "newid \<notin> RS_ID ` set (SS_rows st)"
  have "set (dedupe (SI_Permissions i)) = {}" unfolding set_dedupe using assms(2) by (auto simp: list_all_iff)
  with a have none: "RS_Permissions sh = []" by simp
  have "find (\<lambda>r. RS_ID r = newid \<and> RS_TenantID r = Pr_TenantID q) (xs @ [sh]) = Some sh"
    if "newid \<notin> RS_ID ` set xs" for xs
    using that assms(4) a(1) by (induction xs) auto
  then have "GetShare (Pr_TenantID q) newid st' = Inr sh" using a(2,3) by (simp add: GetShare_def)
  moreover have "may_manage ev q sh = Inr ()" using none by (simp add: may_manage_iff)
  ultimately show ?thesis using none assms(3) by (simp add: Unshare_def)
qed

definition demo_eve :: Principal where "demo_eve = demo_sharer\<lparr>Pr_IdentityID := ''eve''\<rparr>"

theorem blank_share_witness:
  "\<exists>st' sh. Share_Create demo_env 100 ''s1'' (Some demo_sharer) (demo_share_input ''  '') \<lparr>SS_rows = [], SS_audit = []\<rparr>
       = (st', Inr sh) \<and> RS_Permissions sh = [] \<and> snd (Unshare demo_env 150 (Some demo_eve) ''s1'' [] st') = Inr ()"
proof -
  have "case Share_Create demo_env 100 ''s1'' (Some demo_sharer) (demo_share_input ''  '') \<lparr>SS_rows = [], SS_audit = []\<rparr>
      of (st', r) \<Rightarrow> (case r of Inl e \<Rightarrow> False | Inr sh \<Rightarrow> RS_TenantID sh = ''t'')"
    by code_simp
  then obtain st' sh where c: "Share_Create demo_env 100 ''s1'' (Some demo_sharer) (demo_share_input ''  '')
      \<lparr>SS_rows = [], SS_audit = []\<rparr> = (st', Inr sh)" and t: "RS_TenantID sh = ''t''"
    by (auto split: prod.splits sum.splits)
  have b: "list_all (\<lambda>k. TrimSpace k = []) (SI_Permissions (demo_share_input ''  ''))" by code_simp
  have q: "person (Some demo_eve) = Inr demo_eve" by (simp add: person_def demo_eve_def demo_sharer_def)
  have "Pr_TenantID demo_eve = RS_TenantID sh" using t by (simp add: demo_eve_def demo_sharer_def)
  from blank_share [OF c b q this] c show ?thesis by blast
qed

text \<open>An ended share stays ended. When a person of the tenant ends a share, it was theirs, or the engine
  grants them everything it gives at its own places; from then on no row of it is live, no link presented opens it, and
  nobody of the tenant can make a link of it.\<close>

theorem unshare_final:
  assumes "Unshare ev now (Some p) sid reason st = (st', Inr ())"
  shows "(\<exists>sh. GetShare (Pr_TenantID p) sid st = Inr sh \<and> (RS_From sh = Pr_IdentityID p \<or>
        list_all (\<lambda>k. SV_Authorize ev (Pr_IdentityID p) (Pr_TenantID p) k (RS_Scopes sh) = Inr True) (RS_Permissions sh))) \<and>
    (\<forall>later. list_all (\<lambda>r. RS_ID r = sid \<and> RS_TenantID r = Pr_TenantID p \<longrightarrow> \<not> Live r later) (SS_rows st')) \<and>
    (\<forall>later hash r. ShareByLinkHash later hash st' = Inr r \<longrightarrow> RS_ID r \<noteq> sid \<or> RS_TenantID r \<noteq> Pr_TenantID p) \<and>
    (\<forall>later raw q token. Pr_TenantID q = Pr_TenantID p \<longrightarrow> snd (CreateAccessLink ev later raw (Some q) sid st') \<noteq> Inr token)"
proof -
  from assms obtain sh where sh: "GetShare (Pr_TenantID p) sid st = Inr sh" "may_manage ev p sh = Inr ()"
    and rows: "SS_rows st' = SS_rows (RevokeShare now (Pr_TenantID p) sid (TrimSpace reason) st)"
    by (auto simp: Unshare_def person_def share_event_def split: sum.splits if_splits)
  have dead: "RS_RevokedAt r \<noteq> None" if "r \<in> set (SS_rows st')" "RS_ID r = sid" "RS_TenantID r = Pr_TenantID p" for r
  proof -
    let ?hit = "\<lambda>x. RS_ID x = sid \<and> RS_TenantID x = Pr_TenantID p \<and> RS_RevokedAt x = None"
    have "SS_rows st' = map (\<lambda>r. if ?hit r then r\<lparr>RS_RevokedAt := Some now, RS_RevokeReason := TrimSpace reason\<rparr> else r) (SS_rows st)"
      by (simp add: rows RevokeShare_def)
    with that(1) have "r \<in> (\<lambda>r. if ?hit r then r\<lparr>RS_RevokedAt := Some now, RS_RevokeReason := TrimSpace reason\<rparr> else r) ` set (SS_rows st)"
      by (simp only: set_map)
    then obtain r0 where "r = (if ?hit r0 then r0\<lparr>RS_RevokedAt := Some now, RS_RevokeReason := TrimSpace reason\<rparr> else r0)"
      by (elim imageE)
    with that(2,3) show ?thesis by (cases "?hit r0") auto
  qed
  have get: "GetShare (Pr_TenantID p) sid st' = Inr r \<Longrightarrow> r \<in> set (SS_rows st') \<and> RS_ID r = sid \<and> RS_TenantID r = Pr_TenantID p" for r
    by (auto simp: GetShare_def find_Some_iff split: option.splits)
  have link: "snd (CreateAccessLink ev later raw (Some q) sid st') \<noteq> Inr token"
    if "Pr_TenantID q = Pr_TenantID p" for later raw q token
    using get dead that by (auto simp: CreateAccessLink_def person_def Live_def split: sum.splits if_splits)
  have hash: "RS_ID r \<noteq> sid \<or> RS_TenantID r \<noteq> Pr_TenantID p" if "ShareByLinkHash later hash st' = Inr r" for later hash r
  proof -
    from that have "r \<in> set (SS_rows st') \<and> RS_RevokedAt r = None"
      by (auto simp: ShareByLinkHash_def find_Some_iff split: option.splits)
    with dead show ?thesis by blast
  qed
  show ?thesis using sh dead link hash by (auto simp: may_manage_iff list_all_iff Live_def)
qed

theorem unshare_final_witness:
  "\<exists>st'. Unshare demo_env 150 (Some demo_sharer) ''s1'' []
       (fst (Share_Create demo_env 100 ''s1'' (Some demo_sharer) (demo_share_input ''hr:job:read'') \<lparr>SS_rows = [], SS_audit = []\<rparr>))
       = (st', Inr ()) \<and> SS_rows st' \<noteq> [] \<and> list_all (\<lambda>r. RS_ID r = ''s1'' \<longrightarrow> \<not> Live r 160) (SS_rows st')"
proof -
  let ?st = "fst (Share_Create demo_env 100 ''s1'' (Some demo_sharer) (demo_share_input ''hr:job:read'') \<lparr>SS_rows = [], SS_audit = []\<rparr>)"
  have "case Unshare demo_env 150 (Some demo_sharer) ''s1'' [] ?st of (st', r) \<Rightarrow>
      r = Inr () \<and> map RS_TenantID (SS_rows st') = [''t'']"
    by code_simp
  then obtain st' where u: "Unshare demo_env 150 (Some demo_sharer) ''s1'' [] ?st = (st', Inr ())"
    and rows: "map RS_TenantID (SS_rows st') = [''t'']"
    by (auto split: prod.splits)
  from unshare_final [OF u] have "list_all (\<lambda>r. RS_ID r = ''s1'' \<and> RS_TenantID r = ''t'' \<longrightarrow> \<not> Live r 160) (SS_rows st')"
    by (simp add: demo_sharer_def)
  then have "list_all (\<lambda>r. RS_ID r = ''s1'' \<longrightarrow> \<not> Live r 160) (SS_rows st')" using rows by (auto simp: Cons_eq_map_conv)
  moreover have "SS_rows st' \<noteq> []" using rows by auto
  ultimately show ?thesis using u by blast
qed

end
