(* ===== verification/Session_Store.thy ===== *)
theory Session_Store
  imports Identity_Domain
begin

text \<open>
  \<^verbatim>\<open>internal/auth/adapter/postgres\<close>: the sessions and refresh tokens tables, the identity columns
  they are read beside, and the repository methods over them, each with the statement it runs
  (\<^verbatim>\<open>rquery/refresh.go\<close>, \<^verbatim>\<open>rquery/session.go\<close>, \<^verbatim>\<open>rquery/identity.go\<close>). Ids are the canonical text of
  their uuid. \<open>DbEnv\<close> is what one call meets at the database: the server's clock, the ids its
  defaults generate, and which statements fail (a lost connection, a timeout) rather than run. A
  table is the list of its rows.
\<close>

section \<open>Rows\<close>

record SessionRow =
  SS_id :: string
  SS_identity_id :: string
  SS_tenant_id :: string
  SS_application_id :: "string option"
  SS_amr :: "string list"
  SS_created_at :: time
  SS_last_seen_at :: time
  SS_auth_time :: time
  SS_expires_at :: time
  SS_revoked_at :: "time option"
  SS_revoke_reason :: "string option"
  SS_device_fp :: "string option"
  SS_ip :: "string option"
  SS_user_agent :: "string option"
  SS_active_scopes :: string
  SS_cookie_hash :: "string option"

record RefreshRow =
  RT_id :: string
  RT_session_id :: string
  RT_tenant_id :: string
  RT_family_id :: string
  RT_generation :: int
  RT_token_hash :: string
  RT_status :: string
  RT_expires_at :: time
  RT_consumed_at :: "time option"
  RT_revoked_at :: "time option"
  RT_successor_id :: "string option"
  RT_bound_key :: "string option"
  RT_client_id :: "string option"

record AccountRow =
  ID_id :: string
  ID_tenant_id :: string
  ID_realm_id :: "string option"
  ID_realm_code :: "string option"
  ID_realm_kind :: "string option"
  ID_username :: string
  ID_email :: "string option"
  ID_status :: string
  ID_assurance_level :: int
  ID_token_epoch :: int
  ID_disabled_at :: "time option"
  ID_anonymized_at :: "time option"
  ID_last_login_at :: "time option"

record AuthEvent =
  AE_TenantID :: string
  AE_ActorID :: string
  AE_ActorKind :: string
  AE_SessionID :: string
  AE_TargetID :: string
  AE_Action :: string
  AE_Result :: string
  AE_IP :: string
  AE_Detail :: "(string, string) gomap"

record AuthDB =
  AB_sessions :: "SessionRow list"
  AB_refresh :: "RefreshRow list"
  AB_identities :: "AccountRow list"
  AB_events :: "AuthEvent list"

datatype stmt =
    CreateRefreshTokenS | ClaimRefreshTokenS | SetRefreshSuccessorS | GetRefreshTokenByHashS
  | RevokeRefreshFamilyS | RevokeRefreshBySessionsS | CreateSessionS | GetSessionLiveS
  | GetSessionStateS | ListSessionsByIdentityS | RevokeSessionS | RevokeAllSessionsS
  | TouchSessionS | UpdateSessionScopesS | UpgradeSessionAmrS | SetSessionCookieHashS
  | GetSessionByCookieHashS | BumpTokenEpochS | DisableIdentityS | EnableIdentityS
  | TouchLastLoginS | BeginS | CommitS
  | GetIdentityForLoginS | GetIdentityS | GetPasswordCredentialS | CreateCredentialS nat | RevokeCredentialS
  | RevokeCredentialsOfKindS | UpdateCredentialSecretS | GetActiveCredentialOfKindS
  | ListActiveCredentialKindsS | TouchCredentialUsedS | ListCredentialsS | CredentialOwnerS | CountCredentialsS
  | ConsumeRecoveryCodeS | AdvanceCredentialStepS | CreateOneTimeS | ConsumeOneTimeS
  | LockAuditChainS | LastAuditEntryS | InsertAuditS | AuditChainRangeS | InsertAuditAnchorS | AuditAnchorsFromS
  | AuditEntryHashAtS

record DbEnv =
  Db_now :: time
  Db_newid :: "stmt \<Rightarrow> string"
  Db_fails :: "stmt \<Rightarrow> bool"

text \<open>\<^verbatim>\<open>nullif(x, '')\<close> and, read back through \<open>nstr\<close>, the identity.\<close>

definition nullif :: "string \<Rightarrow> string option" where
  "nullif s = (if s = [] then None else Some s)"

lemma nstr_nullif [simp]: "nstr (nullif s) = s"
  by (simp add: nstr_def nullif_def)

text \<open>\<^verbatim>\<open>MapErr\<close> of a statement that failed to run.\<close>

definition run_stmt :: "DbEnv \<Rightarrow> stmt \<Rightarrow> 'a result \<Rightarrow> 'a result" where
  "run_stmt ev s r = (if Db_fails ev s then Inl ErrInternal else r)"

lemma run_stmt_Inr: "run_stmt ev s r = Inr x \<longleftrightarrow> \<not> Db_fails ev s \<and> r = Inr x"
  by (auto simp: run_stmt_def)

text \<open>\<^verbatim>\<open>apperr.ErrInternal.Wrap(err)\<close>.\<close>

definition wrap_internal :: "'a result \<Rightarrow> 'a result" where
  "wrap_internal r = (case r of Inl e \<Rightarrow> Inl ErrInternal | Inr x \<Rightarrow> Inr x)"

lemma wrap_internal_Inr [simp]: "wrap_internal r = Inr x \<longleftrightarrow> r = Inr x"
  by (simp add: wrap_internal_def split: sum.split)

text \<open>\<^verbatim>\<open>WithinTx\<close>: the writes of a body that returns an error, or whose commit fails, are rolled back.\<close>

definition WithinTx :: "DbEnv \<Rightarrow> ('db \<Rightarrow> 'e + 'a \<times> 'db) \<Rightarrow> 'e \<Rightarrow> 'db \<Rightarrow> 'db \<times> ('e + 'a)" where
  "WithinTx ev fn internal db =
     (if Db_fails ev BeginS then (db, Inl internal)
      else case fn db of
        Inl e \<Rightarrow> (db, Inl e)
      | Inr (x, db') \<Rightarrow> if Db_fails ev CommitS then (db, Inl internal) else (db', Inr x))"

lemma WithinTx_cases:
  obtains (rolled) e where "WithinTx ev fn internal db = (db, Inl e)"
  | (committed) x db' where "fn db = Inr (x, db')" "WithinTx ev fn internal db = (db', Inr x)"
proof (cases "snd (WithinTx ev fn internal db)")
  case (Inl e)
  then have "WithinTx ev fn internal db = (db, Inl e)"
    by (auto simp: WithinTx_def split: sum.splits if_splits)
  then show thesis by (rule rolled)
next
  case (Inr x)
  then obtain db' where "fn db = Inr (x, db')" "WithinTx ev fn internal db = (db', Inr x)"
    by (auto simp: WithinTx_def split: sum.splits if_splits)
  then show thesis by (rule committed)
qed

lemma WithinTx_Inr:
  "WithinTx ev fn internal db = (db', Inr x) \<longleftrightarrow>
     \<not> Db_fails ev BeginS \<and> \<not> Db_fails ev CommitS \<and> fn db = Inr (x, db')"
  by (auto simp: WithinTx_def split: sum.splits)

lemma WithinTx_Inl: "WithinTx ev fn internal db = (db', Inl e) \<Longrightarrow> db' = db"
  by (auto simp: WithinTx_def split: sum.splits if_splits)

section \<open>refresh\_repository.go\<close>

record RefreshInput =
  RI_SessionID :: string
  RI_TenantID :: string
  RI_FamilyID :: string
  RI_Generation :: int
  RI_TokenHash :: string
  RI_ExpiresAt :: time
  RI_BoundKey :: string
  RI_ClientID :: string

record RefreshClaim =
  RC_ID :: string
  RC_SessionID :: string
  RC_TenantID :: string
  RC_FamilyID :: string
  RC_Generation :: int
  RC_ExpiresAt :: time
  RC_ClientID :: string

record RefreshInfo =
  RF_ID :: string
  RF_SessionID :: string
  RF_TenantID :: string
  RF_FamilyID :: string
  RF_Status :: string
  RF_ExpiresAt :: time

definition CreateRefresh :: "DbEnv \<Rightarrow> RefreshInput \<Rightarrow> AuthDB \<Rightarrow> (string \<times> AuthDB) result" where
  "CreateRefresh ev i db = run_stmt ev CreateRefreshTokenS
     (if list_ex (\<lambda>r. RT_token_hash r = RI_TokenHash i \<and> RT_expires_at r = RI_ExpiresAt i) (AB_refresh db)
      then Inl ErrConflict
      else Inr (Db_newid ev CreateRefreshTokenS, db\<lparr>AB_refresh := AB_refresh db @
        [\<lparr>RT_id = Db_newid ev CreateRefreshTokenS, RT_session_id = RI_SessionID i, RT_tenant_id = RI_TenantID i,
          RT_family_id = RI_FamilyID i, RT_generation = RI_Generation i, RT_token_hash = RI_TokenHash i,
          RT_status = ''active'', RT_expires_at = RI_ExpiresAt i, RT_consumed_at = None, RT_revoked_at = None,
          RT_successor_id = None, RT_bound_key = nullif (RI_BoundKey i), RT_client_id = nullif (RI_ClientID i)\<rparr>]\<rparr>))"

definition claimable :: "time \<Rightarrow> string \<Rightarrow> RefreshRow \<Rightarrow> bool" where
  "claimable now hash r \<longleftrightarrow> RT_token_hash r = hash \<and> RT_status r = ''active'' \<and> RT_expires_at r > now \<and>
     RT_bound_key r = None"

definition consume :: "time \<Rightarrow> RefreshRow \<Rightarrow> RefreshRow" where
  "consume now r = r\<lparr>RT_status := ''consumed'', RT_consumed_at := Some now\<rparr>"

definition ClaimRefresh :: "DbEnv \<Rightarrow> string \<Rightarrow> AuthDB \<Rightarrow> (RefreshClaim \<times> AuthDB) result" where
  "ClaimRefresh ev hash db = run_stmt ev ClaimRefreshTokenS
     (case find (claimable (Db_now ev) hash) (AB_refresh db) of
        None \<Rightarrow> Inl ErrNotFound
      | Some r \<Rightarrow> Inr (\<lparr>RC_ID = RT_id r, RC_SessionID = RT_session_id r, RC_TenantID = RT_tenant_id r,
            RC_FamilyID = RT_family_id r, RC_Generation = RT_generation r, RC_ExpiresAt = RT_expires_at r,
            RC_ClientID = nstr (RT_client_id r)\<rparr>,
          db\<lparr>AB_refresh := map (\<lambda>r. if claimable (Db_now ev) hash r then consume (Db_now ev) r else r)
            (AB_refresh db)\<rparr>))"

text \<open>\<^verbatim>\<open>(nil, nil)\<close> when there is no such row.\<close>

definition RefreshByHash :: "DbEnv \<Rightarrow> string \<Rightarrow> AuthDB \<Rightarrow> RefreshInfo option result" where
  "RefreshByHash ev hash db = run_stmt ev GetRefreshTokenByHashS
     (Inr (map_option (\<lambda>r. \<lparr>RF_ID = RT_id r, RF_SessionID = RT_session_id r, RF_TenantID = RT_tenant_id r,
          RF_FamilyID = RT_family_id r, RF_Status = RT_status r, RF_ExpiresAt = RT_expires_at r\<rparr>)
        (find (\<lambda>r. RT_token_hash r = hash) (AB_refresh db))))"

definition SetRefreshSuccessor :: "DbEnv \<Rightarrow> string \<Rightarrow> time \<Rightarrow> string \<Rightarrow> AuthDB \<Rightarrow> AuthDB result" where
  "SetRefreshSuccessor ev ident expiresAt successorID db = run_stmt ev SetRefreshSuccessorS
     (Inr (db\<lparr>AB_refresh := map (\<lambda>r. if RT_id r = ident \<and> RT_expires_at r = expiresAt
        then r\<lparr>RT_successor_id := Some successorID\<rparr> else r) (AB_refresh db)\<rparr>))"

text \<open>\<^verbatim>\<open>SET status = 'revoked', revoked_at = now() WHERE ... AND status = 'active'\<close>.\<close>

definition revoke_where :: "time \<Rightarrow> (RefreshRow \<Rightarrow> bool) \<Rightarrow> AuthDB \<Rightarrow> AuthDB" where
  "revoke_where now P db = db\<lparr>AB_refresh := map (\<lambda>r. if P r \<and> RT_status r = ''active''
     then r\<lparr>RT_status := ''revoked'', RT_revoked_at := Some now\<rparr> else r) (AB_refresh db)\<rparr>"

definition RevokeRefreshFamily :: "DbEnv \<Rightarrow> string \<Rightarrow> AuthDB \<Rightarrow> AuthDB result" where
  "RevokeRefreshFamily ev familyID db = run_stmt ev RevokeRefreshFamilyS
     (Inr (revoke_where (Db_now ev) (\<lambda>r. RT_family_id r = familyID) db))"

definition RevokeRefreshBySessions :: "DbEnv \<Rightarrow> string list \<Rightarrow> AuthDB \<Rightarrow> AuthDB result" where
  "RevokeRefreshBySessions ev sessionIDs db =
     (if sessionIDs = [] then Inr db
      else run_stmt ev RevokeRefreshBySessionsS
        (Inr (revoke_where (Db_now ev) (\<lambda>r. RT_session_id r \<in> set sessionIDs) db)))"


section \<open>session\_repository.go\<close>

record SessionInput =
  SN_IdentityID :: string
  SN_TenantID :: string
  SN_ApplicationID :: string
  SN_AMR :: "string list"
  SN_DeviceFP :: string
  SN_IP :: string
  SN_UserAgent :: string
  SN_ActiveScopes :: string
  SN_ExpiresAt :: time

record SessionView =
  SV_ID :: string
  SV_IdentityID :: string
  SV_TenantID :: string
  SV_ApplicationID :: string
  SV_AMR :: "string list"
  SV_CreatedAt :: time
  SV_LastSeenAt :: time
  SV_AuthTime :: time
  SV_ExpiresAt :: time
  SV_ActiveScopes :: string
  SV_DeviceFP :: string
  SV_TokenEpoch :: int
  SV_IdentityStatus :: string
  SV_AssuranceLevel :: int
  SV_Username :: string
  SV_Email :: string
  SV_RealmID :: string
  SV_RealmCode :: string

record RevokedSession =
  RV_ID :: string
  RV_IdentityID :: string
  RV_ApplicationID :: string

record SessionInfo =
  SF_ID :: string
  SF_CreatedAt :: time
  SF_LastSeenAt :: time
  SF_ExpiresAt :: time
  SF_AMR :: "string list"
  SF_IP :: string
  SF_UserAgent :: string

text \<open>The composite foreign key: a session is opened for an identity of its own tenant.\<close>

definition identity_of :: "AuthDB \<Rightarrow> string \<Rightarrow> string \<Rightarrow> AccountRow option" where
  "identity_of db tenantID ident = find (\<lambda>i. ID_id i = ident \<and> ID_tenant_id i = tenantID) (AB_identities db)"

definition OrEmptyJSON :: "string \<Rightarrow> string" where
  "OrEmptyJSON s = (if s = [] then ''{}'' else s)"

definition CreateSession :: "DbEnv \<Rightarrow> SessionInput \<Rightarrow> AuthDB \<Rightarrow> (string \<times> AuthDB) result" where
  "CreateSession ev i db = run_stmt ev CreateSessionS
     (if identity_of db (SN_TenantID i) (SN_IdentityID i) = None then Inl ErrInvalidArgument
      else if list_ex (\<lambda>s. SS_id s = Db_newid ev CreateSessionS) (AB_sessions db) then Inl ErrConflict
      else Inr (Db_newid ev CreateSessionS, db\<lparr>AB_sessions := AB_sessions db @
        [\<lparr>SS_id = Db_newid ev CreateSessionS, SS_identity_id = SN_IdentityID i, SS_tenant_id = SN_TenantID i,
          SS_application_id = nullif (SN_ApplicationID i), SS_amr = SN_AMR i, SS_created_at = Db_now ev,
          SS_last_seen_at = Db_now ev, SS_auth_time = Db_now ev, SS_expires_at = SN_ExpiresAt i,
          SS_revoked_at = None, SS_revoke_reason = None, SS_device_fp = nullif (SN_DeviceFP i),
          SS_ip = nullif (SN_IP i), SS_user_agent = nullif (SN_UserAgent i),
          SS_active_scopes = OrEmptyJSON (SN_ActiveScopes i), SS_cookie_hash = None\<rparr>]\<rparr>))"

definition session_live :: "time \<Rightarrow> SessionRow \<Rightarrow> bool" where
  "session_live now s \<longleftrightarrow> SS_revoked_at s = None \<and> SS_expires_at s > now"

definition session_view :: "SessionRow \<Rightarrow> AccountRow \<Rightarrow> SessionView" where
  "session_view s i = \<lparr>SV_ID = SS_id s, SV_IdentityID = SS_identity_id s, SV_TenantID = SS_tenant_id s,
     SV_ApplicationID = nstr (SS_application_id s), SV_AMR = SS_amr s, SV_CreatedAt = SS_created_at s,
     SV_LastSeenAt = SS_last_seen_at s, SV_AuthTime = SS_auth_time s, SV_ExpiresAt = SS_expires_at s,
     SV_ActiveScopes = SS_active_scopes s, SV_DeviceFP = nstr (SS_device_fp s),
     SV_TokenEpoch = ID_token_epoch i, SV_IdentityStatus = ID_status i,
     SV_AssuranceLevel = ID_assurance_level i, SV_Username = ID_username i, SV_Email = nstr (ID_email i),
     SV_RealmID = nstr (ID_realm_id i), SV_RealmCode = nstr (ID_realm_code i)\<rparr>"

text \<open>The join of a session with its identity, first row of the result.\<close>

definition join_session :: "AuthDB \<Rightarrow> (SessionRow \<Rightarrow> bool) \<Rightarrow> (SessionRow \<times> AccountRow) option" where
  "join_session db P =
     (case find (\<lambda>s. P s \<and> identity_of db (SS_tenant_id s) (SS_identity_id s) \<noteq> None) (AB_sessions db) of
        None \<Rightarrow> None
      | Some s \<Rightarrow> map_option (Pair s) (identity_of db (SS_tenant_id s) (SS_identity_id s)))"

definition SessionLive :: "DbEnv \<Rightarrow> string \<Rightarrow> AuthDB \<Rightarrow> SessionView result" where
  "SessionLive ev ident db = run_stmt ev GetSessionLiveS
     (case join_session db (\<lambda>s. SS_id s = ident \<and> session_live (Db_now ev) s) of
        None \<Rightarrow> Inl ErrNotFound
      | Some (s, i) \<Rightarrow> Inr (session_view s i))"

text \<open>revoked, expired, the identity's epoch, blocked; \<open>wall\<close> is the process's own clock.\<close>

definition SessionState ::
  "DbEnv \<Rightarrow> time \<Rightarrow> string \<Rightarrow> string \<Rightarrow> AuthDB \<Rightarrow> (bool \<times> bool \<times> int \<times> bool) result" where
  "SessionState ev wall tenantID ident db = run_stmt ev GetSessionStateS
     (case join_session db (\<lambda>s. SS_id s = ident \<and> SS_tenant_id s = tenantID) of
        None \<Rightarrow> Inl ErrNotFound
      | Some (s, i) \<Rightarrow> Inr (SS_revoked_at s \<noteq> None, \<not> After (SS_expires_at s) wall, ID_token_epoch i,
          ID_status i \<noteq> ''active'' \<or> ID_disabled_at i \<noteq> None \<or> ID_anonymized_at i \<noteq> None))"

definition SessionsByIdentity :: "DbEnv \<Rightarrow> string \<Rightarrow> AuthDB \<Rightarrow> SessionInfo list result" where
  "SessionsByIdentity ev identityID db = run_stmt ev ListSessionsByIdentityS
     (Inr (map (\<lambda>s. \<lparr>SF_ID = SS_id s, SF_CreatedAt = SS_created_at s, SF_LastSeenAt = SS_last_seen_at s,
          SF_ExpiresAt = SS_expires_at s, SF_AMR = SS_amr s, SF_IP = nstr (SS_ip s),
          SF_UserAgent = nstr (SS_user_agent s)\<rparr>)
        (sort_key (\<lambda>s. - SS_created_at s)
          (filter (\<lambda>s. SS_identity_id s = identityID \<and> session_live (Db_now ev) s) (AB_sessions db)))))"

definition end_session :: "time \<Rightarrow> string \<Rightarrow> SessionRow \<Rightarrow> SessionRow" where
  "end_session now reason s =
     s\<lparr>SS_revoked_at := Some now, SS_revoke_reason := Some reason, SS_cookie_hash := None\<rparr>"

definition end_where :: "time \<Rightarrow> string \<Rightarrow> (SessionRow \<Rightarrow> bool) \<Rightarrow> AuthDB \<Rightarrow> AuthDB" where
  "end_where now reason P db =
     db\<lparr>AB_sessions := map (\<lambda>s. if P s then end_session now reason s else s) (AB_sessions db)\<rparr>"

definition revocable :: "string \<Rightarrow> string \<Rightarrow> SessionRow \<Rightarrow> bool" where
  "revocable tenantID ident s \<longleftrightarrow> SS_id s = ident \<and> SS_tenant_id s = tenantID \<and> SS_revoked_at s = None"

definition RevokeSession ::
  "DbEnv \<Rightarrow> string \<Rightarrow> string \<Rightarrow> string \<Rightarrow> AuthDB \<Rightarrow> (RevokedSession \<times> AuthDB) result" where
  "RevokeSession ev tenantID ident reason db = run_stmt ev RevokeSessionS
     (case find (revocable tenantID ident) (AB_sessions db) of
        None \<Rightarrow> Inl ErrNotFound
      | Some s \<Rightarrow> Inr (\<lparr>RV_ID = SS_id s, RV_IdentityID = SS_identity_id s,
            RV_ApplicationID = nstr (SS_application_id s)\<rparr>,
          end_where (Db_now ev) reason (revocable tenantID ident) db))"

definition revocable_all :: "string \<Rightarrow> string \<Rightarrow> SessionRow \<Rightarrow> bool" where
  "revocable_all tenantID identityID s \<longleftrightarrow>
     SS_identity_id s = identityID \<and> SS_tenant_id s = tenantID \<and> SS_revoked_at s = None"

definition RevokeAllSessions ::
  "DbEnv \<Rightarrow> string \<Rightarrow> string \<Rightarrow> string \<Rightarrow> AuthDB \<Rightarrow> (RevokedSession list \<times> AuthDB) result" where
  "RevokeAllSessions ev tenantID identityID reason db = run_stmt ev RevokeAllSessionsS
     (Inr (map (\<lambda>s. \<lparr>RV_ID = SS_id s, RV_IdentityID = identityID,
            RV_ApplicationID = nstr (SS_application_id s)\<rparr>)
          (filter (revocable_all tenantID identityID) (AB_sessions db)),
        end_where (Db_now ev) reason (revocable_all tenantID identityID) db))"

text \<open>Best effort: a failed statement leaves the row as it was.\<close>

definition update_sessions :: "(SessionRow \<Rightarrow> bool) \<Rightarrow> (SessionRow \<Rightarrow> SessionRow) \<Rightarrow> AuthDB \<Rightarrow> AuthDB" where
  "update_sessions P f db = db\<lparr>AB_sessions := map (\<lambda>s. if P s then f s else s) (AB_sessions db)\<rparr>"

definition TouchSession :: "DbEnv \<Rightarrow> string \<Rightarrow> AuthDB \<Rightarrow> AuthDB" where
  "TouchSession ev ident db =
     (if Db_fails ev TouchSessionS then db
      else update_sessions (\<lambda>s. SS_id s = ident) (\<lambda>s. s\<lparr>SS_last_seen_at := Db_now ev\<rparr>) db)"

definition UpdateSessionScopes :: "DbEnv \<Rightarrow> string \<Rightarrow> string \<Rightarrow> AuthDB \<Rightarrow> AuthDB result" where
  "UpdateSessionScopes ev ident scopes db = run_stmt ev UpdateSessionScopesS
     (Inr (update_sessions (\<lambda>s. SS_id s = ident) (\<lambda>s. s\<lparr>SS_active_scopes := OrEmptyJSON scopes\<rparr>) db))"

definition UpgradeSessionAMR :: "DbEnv \<Rightarrow> string \<Rightarrow> string list \<Rightarrow> AuthDB \<Rightarrow> (time \<times> AuthDB) result" where
  "UpgradeSessionAMR ev ident amr db = run_stmt ev UpgradeSessionAmrS
     (if list_ex (\<lambda>s. SS_id s = ident \<and> SS_revoked_at s = None) (AB_sessions db)
      then Inr (Db_now ev, update_sessions (\<lambda>s. SS_id s = ident \<and> SS_revoked_at s = None)
        (\<lambda>s. s\<lparr>SS_amr := amr, SS_auth_time := Db_now ev\<rparr>) db)
      else Inl ErrNotFound)"

definition SetSessionCookieHash :: "DbEnv \<Rightarrow> string \<Rightarrow> string \<Rightarrow> AuthDB \<Rightarrow> AuthDB result" where
  "SetSessionCookieHash ev ident hash db = run_stmt ev SetSessionCookieHashS
     (if list_ex (\<lambda>s. SS_id s \<noteq> ident \<and> SS_cookie_hash s = Some hash \<and> SS_revoked_at s = None) (AB_sessions db) \<and>
         list_ex (\<lambda>s. SS_id s = ident \<and> SS_revoked_at s = None) (AB_sessions db)
      then Inl ErrConflict
      else Inr (update_sessions (\<lambda>s. SS_id s = ident) (\<lambda>s. s\<lparr>SS_cookie_hash := Some hash\<rparr>) db))"

text \<open>The columns the cookie query does not select are the zero values.\<close>

definition SessionByCookieHash :: "DbEnv \<Rightarrow> string \<Rightarrow> AuthDB \<Rightarrow> SessionView result" where
  "SessionByCookieHash ev hash db = run_stmt ev GetSessionByCookieHashS
     (case join_session db (\<lambda>s. SS_cookie_hash s = Some hash \<and> session_live (Db_now ev) s) of
        None \<Rightarrow> Inl ErrNotFound
      | Some (s, i) \<Rightarrow> Inr ((session_view s i)\<lparr>SV_ApplicationID := [], SV_CreatedAt := zero_time,
          SV_LastSeenAt := zero_time, SV_DeviceFP := [], SV_TokenEpoch := 0, SV_IdentityStatus := [],
          SV_AssuranceLevel := 0, SV_Email := []\<rparr>))"

section \<open>identity\_repository.go\<close>

definition update_identities ::
  "(AccountRow \<Rightarrow> bool) \<Rightarrow> (AccountRow \<Rightarrow> AccountRow) \<Rightarrow> AuthDB \<Rightarrow> AuthDB" where
  "update_identities P f db = db\<lparr>AB_identities := map (\<lambda>i. if P i then f i else i) (AB_identities db)\<rparr>"

definition is_identity :: "string \<Rightarrow> string \<Rightarrow> AccountRow \<Rightarrow> bool" where
  "is_identity tenantID ident i \<longleftrightarrow> ID_id i = ident \<and> ID_tenant_id i = tenantID"

text \<open>The column is a 32-bit integer: at its maximum the update fails rather than wraps.\<close>

definition BumpTokenEpoch :: "DbEnv \<Rightarrow> string \<Rightarrow> string \<Rightarrow> AuthDB \<Rightarrow> (int \<times> AuthDB) result" where
  "BumpTokenEpoch ev tenantID ident db = run_stmt ev BumpTokenEpochS
     (case identity_of db tenantID ident of
        None \<Rightarrow> Inl ErrNotFound
      | Some i \<Rightarrow> if ID_token_epoch i \<ge> 2 ^ 31 - 1 then Inl ErrInternal
          else Inr (ID_token_epoch i + 1,
            update_identities (is_identity tenantID ident) (\<lambda>i. i\<lparr>ID_token_epoch := ID_token_epoch i + 1\<rparr>) db))"

definition DisableIdentity :: "DbEnv \<Rightarrow> string \<Rightarrow> string \<Rightarrow> AuthDB \<Rightarrow> AuthDB result" where
  "DisableIdentity ev tenantID ident db = run_stmt ev DisableIdentityS
     (if list_ex (\<lambda>i. is_identity tenantID ident i \<and> ID_disabled_at i = None) (AB_identities db)
      then Inr (update_identities (\<lambda>i. is_identity tenantID ident i \<and> ID_disabled_at i = None)
        (\<lambda>i. i\<lparr>ID_status := ''disabled'', ID_disabled_at := Some (Db_now ev)\<rparr>) db)
      else Inl ErrNotFound)"

definition EnableIdentity :: "DbEnv \<Rightarrow> string \<Rightarrow> string \<Rightarrow> AuthDB \<Rightarrow> AuthDB result" where
  "EnableIdentity ev tenantID ident db = run_stmt ev EnableIdentityS
     (if list_ex (is_identity tenantID ident) (AB_identities db)
      then Inr (update_identities (is_identity tenantID ident) (\<lambda>i. i\<lparr>ID_status := ''active'', ID_disabled_at := None\<rparr>) db)
      else Inl ErrNotFound)"

definition TouchLastLogin :: "DbEnv \<Rightarrow> string \<Rightarrow> AuthDB \<Rightarrow> AuthDB" where
  "TouchLastLogin ev ident db =
     (if Db_fails ev TouchLastLoginS then db
      else update_identities (\<lambda>i. ID_id i = ident) (\<lambda>i. i\<lparr>ID_last_login_at := Some (Db_now ev)\<rparr>) db)"

end
