(* ===== verification/Token_Issuer.thy ===== *)
theory Token_Issuer
  imports Session_Store Access_Token "HOL-Library.Word"
begin

text \<open>
  \<^verbatim>\<open>internal/auth/app/paseto_token_issuer.go\<close> and \<^verbatim>\<open>session_establisher.go\<close>: the one place every token
  pair comes from, and the opening of a session around it. What the issuer asks of other contexts
  (the tenant, its applications and populations, the roles a person holds) are the answers in
  \<open>IssuerEnv\<close>; \<open>Is_rand k n\<close> are the n bytes the k-th read of the random source returns, or its
  failure.
\<close>

unbundle bit_operations_syntax

section \<open>State\<close>

record IssuerEnv =
  Is_issuer :: string
  Is_ring :: Ring
  Is_ed :: ed25519
  Is_json :: json
  Is_hash :: "string \<Rightarrow> string"
  Is_clock :: time
  Is_rand :: "nat \<Rightarrow> nat \<Rightarrow> string option"
  Is_TenantByID :: "string \<Rightarrow> TenantRef result"
  Is_TenantBySlug :: "string \<Rightarrow> TenantRef option result"
  Is_RealmByID :: "string \<Rightarrow> Realm option result"
  Is_ApplicationBySlug :: "string \<Rightarrow> string \<Rightarrow> ApplicationRecord result"
  Is_HoldsRoleInApp :: "string \<Rightarrow> string \<Rightarrow> string \<Rightarrow> bool result"
  Is_RolesForIdentity :: "string \<Rightarrow> string \<Rightarrow> string list result"
  Is_RolesForIdentityInApp :: "string \<Rightarrow> string \<Rightarrow> string \<Rightarrow> string list result"
  Is_scopes :: "string \<Rightarrow> (string, string) gomap option"
  Is_db :: DbEnv
  Is_ip :: string
  Is_userAgent :: string

record IssueInput =
  II_Session :: SessionView
  II_TenantSlug :: string
  II_ClientID :: string
  II_RotateFrom :: "RefreshClaim option"
  II_AccessOnly :: bool

record TokenPair =
  TP_AccessToken :: string
  TP_RefreshToken :: string
  TP_TokenType :: string
  TP_ExpiresIn :: int
  TP_SessionID :: string

definition maxRolesInToken :: nat where "maxRolesInToken = 32"
definition pasetoFormat :: string where "pasetoFormat = ''v4.public''"
definition jwsFormat :: string where "jwsFormat = ''jws.eddsa''"

text \<open>\<^verbatim>\<open>secret.New\<close>.\<close>

definition secret_New :: "IssuerEnv \<Rightarrow> nat \<Rightarrow> nat \<Rightarrow> string option" where
  "secret_New ev k n = map_option EncodeToString (Is_rand ev k n)"

section \<open>ttls\<close>

record Ttls =
  Tt_access :: duration
  Tt_refresh :: duration
  Tt_aud :: "string list"
  Tt_appID :: string
  Tt_format :: string
  Tt_signIn :: string

definition realm_ttls :: "IssuerEnv \<Rightarrow> SessionView \<Rightarrow> duration \<times> duration" where
  "realm_ttls ev s =
     (let access = 10 * 60 * Second; refresh = 30 * 24 * 3600 * Second in
      if SV_RealmID s \<noteq> [] then
        (case Is_RealmByID ev (SV_RealmID s) of
           Inr (Some realm) \<Rightarrow>
             (if Rm_AccessTokenTTL realm > 0 then Rm_AccessTokenTTL realm else access,
              if Rm_RefreshTokenTTL realm > 0 then Rm_RefreshTokenTTL realm else refresh)
         | _ \<Rightarrow> (access, refresh))
      else (access, refresh))"

definition stricter :: "int \<Rightarrow> duration \<Rightarrow> duration" where
  "stricter secs ttl = (let d = int64 (secs * Second) in if d > 0 \<and> d < ttl then d else ttl)"

definition ttls :: "IssuerEnv \<Rightarrow> SessionView \<Rightarrow> string \<Rightarrow> Ttls result" where
  "ttls ev s clientID =
     (case realm_ttls ev s of (access, refresh) \<Rightarrow>
      if clientID \<noteq> [] then
        (case Is_ApplicationBySlug ev (SV_TenantID s) clientID of
           Inl e \<Rightarrow> Inl ErrInvalidArgument
         | Inr app \<Rightarrow> Inr \<lparr>Tt_access = stricter (Ap_AccessTokenTTLSecs app) access,
             Tt_refresh = stricter (Ap_RefreshTokenTTLSecs app) refresh, Tt_aud = [Ap_Slug app],
             Tt_appID = Ap_ID app,
             Tt_format = (if Ap_TokenFormat app = jwsFormat then jwsFormat else pasetoFormat),
             Tt_signIn = Ap_SignIn app\<rparr>)
      else Inr \<lparr>Tt_access = access, Tt_refresh = refresh, Tt_aud = [''anubis''], Tt_appID = [],
        Tt_format = pasetoFormat, Tt_signIn = []\<rparr>)"

section \<open>newUUIDv7ish\<close>

definition hex_digit :: "8 word \<Rightarrow> char" where
  "hex_digit n = ''0123456789abcdef'' ! unat n"

definition stamp_uuid :: "64 word \<Rightarrow> 8 word list \<Rightarrow> 8 word list" where
  "stamp_uuid ms b = b[0 := ucast (drop_bit 40 ms), 1 := ucast (drop_bit 32 ms), 2 := ucast (drop_bit 24 ms),
     3 := ucast (drop_bit 16 ms), 4 := ucast (drop_bit 8 ms), 5 := ucast ms,
     6 := (b ! 6 AND 0x0f) OR 0x70, 8 := (b ! 8 AND 0x3f) OR 0x80]"

fun uuid_loop :: "nat \<Rightarrow> 8 word list \<Rightarrow> string" where
  "uuid_loop i [] = []"
| "uuid_loop i (c # b) =
     (if i \<in> {4, 6, 8, 10} then ''-'' else []) @ [hex_digit (drop_bit 4 c), hex_digit (c AND 0xf)] @
     uuid_loop (Suc i) b"

text \<open>The decoded random text is sixteen bytes; a shorter one would index out of range.\<close>

definition newUUIDv7ish :: "IssuerEnv \<Rightarrow> nat \<Rightarrow> time \<Rightarrow> string option" where
  "newUUIDv7ish ev k now =
     (case secret_New ev k 16 of
        None \<Rightarrow> None
      | Some raw \<Rightarrow>
          let b = (case DecodeString False raw of None \<Rightarrow> [] | Some s \<Rightarrow> map (\<lambda>c. of_nat (byte_of c)) s);
              ms = word_of_int (now div 1000000)
          in Some (uuid_loop 0 (take 16 (stamp_uuid ms b))))"


section \<open>Issue\<close>

text \<open>The checks every way to a token passes: the person, the tenant, the application.\<close>

definition issue_gate :: "IssuerEnv \<Rightarrow> SessionView \<Rightarrow> string \<Rightarrow> Ttls result" where
  "issue_gate ev s clientID =
     (if SV_IdentityStatus s = ''locked'' then Inl ErrIdentityLocked
      else if SV_IdentityStatus s \<noteq> ''active'' then Inl ErrIdentityDisabled
      else case Is_TenantByID ev (SV_TenantID s) of
        Inl e \<Rightarrow> Inl ErrInternal
      | Inr tenant \<Rightarrow>
          if \<not> Serving (Some tenant) then Inl ErrPermissionDenied
          else and_then (ttls ev s clientID) (\<lambda>t.
            if Tt_signIn t = ''role_holders'' then
              (case Is_HoldsRoleInApp ev (SV_TenantID s) (SV_IdentityID s) (Tt_appID t) of
                 Inl e \<Rightarrow> Inl ErrInternal
               | Inr holds \<Rightarrow> if \<not> holds then Inl ErrPermissionDenied else Inr t)
            else Inr t))"

definition token_roles :: "IssuerEnv \<Rightarrow> SessionView \<Rightarrow> string \<Rightarrow> string list result" where
  "token_roles ev s appID =
     (case (if appID \<noteq> [] then Is_RolesForIdentityInApp ev (SV_TenantID s) (SV_IdentityID s) appID
            else Is_RolesForIdentity ev (SV_TenantID s) (SV_IdentityID s)) of
        Inl e \<Rightarrow> Inl ErrInternal
      | Inr roles \<Rightarrow> Inr (if length roles > maxRolesInToken then take maxRolesInToken roles else roles))"

definition token_scopes :: "IssuerEnv \<Rightarrow> SessionView \<Rightarrow> (string, string) gomap result" where
  "token_scopes ev s =
     (if length (SV_ActiveScopes s) > 0 then
        (case Is_scopes ev (SV_ActiveScopes s) of None \<Rightarrow> Inl ErrInternal | Some m \<Rightarrow> Inr m)
      else Inr [])"

definition token_claims ::
  "IssuerEnv \<Rightarrow> IssueInput \<Rightarrow> Ttls \<Rightarrow> string list \<Rightarrow> (string, string) gomap \<Rightarrow> string \<Rightarrow> Claims" where
  "token_claims ev i t roles scopes jti =
     (let s = II_Session i; now = Is_clock ev in
      \<lparr>Cl_Issuer = Is_issuer ev, Cl_Subject = SV_IdentityID s, Cl_Audience = Tt_aud t,
       Cl_Expires = Unix (now + Tt_access t), Cl_IssuedAt = Unix now, Cl_NotBefore = Unix now, Cl_TokenID = jti,
       Cl_Session = SV_ID s, Cl_Tenant = II_TenantSlug i, Cl_Roles = roles, Cl_Scope = [], Cl_Scopes = scopes,
       Cl_Realm = SV_RealmCode s, Cl_IAL = SV_AssuranceLevel s, Cl_AMR = SV_AMR s,
       Cl_AuthTime = Unix (SV_AuthTime s), Cl_Epoch = SV_TokenEpoch s, Cl_Version = 1\<rparr>)"

text \<open>The access token: one active key, the encoding the application asked for.\<close>

definition sign_access :: "IssuerEnv \<Rightarrow> Ttls \<Rightarrow> Claims \<Rightarrow> string result" where
  "sign_access ev t claims =
     (case ActiveAccessAt (Is_ring ev) (Is_clock ev) of
        Inl e \<Rightarrow> Inl ErrInternal
      | Inr key \<Rightarrow>
          (case issue_token (Is_ed ev) (Is_json ev) (Tt_format t = jwsFormat)
                  (case Key_Private key of None \<Rightarrow> [] | Some sk \<Rightarrow> sk) (Key_Kid key)
                  (js_marshal_claims (Is_json ev) claims) of
             None \<Rightarrow> Inl ErrInternal
           | Some access \<Rightarrow> Inr access))"

definition refresh_family :: "IssuerEnv \<Rightarrow> RefreshClaim option \<Rightarrow> (string \<times> int) result" where
  "refresh_family ev from =
     (case from of
        Some c \<Rightarrow> Inr (RC_FamilyID c, RC_Generation c + 1)
      | None \<Rightarrow> (case newUUIDv7ish ev 2 (Is_clock ev) of None \<Rightarrow> Inl ErrInternal | Some fid \<Rightarrow> Inr (fid, 0)))"

text \<open>The refresh half: a row of the family, and the claimed row pointing at it.\<close>

definition refresh_prefix :: string where "refresh_prefix = ''anb_rt_''"

definition refresh_input :: "IssuerEnv \<Rightarrow> IssueInput \<Rightarrow> Ttls \<Rightarrow> string \<Rightarrow> string \<Rightarrow> int \<Rightarrow> RefreshInput" where
  "refresh_input ev i t refreshToken familyID generation =
     \<lparr>RI_SessionID = SV_ID (II_Session i), RI_TenantID = SV_TenantID (II_Session i), RI_FamilyID = familyID,
      RI_Generation = generation, RI_TokenHash = Is_hash ev refreshToken,
      RI_ExpiresAt = Is_clock ev + Tt_refresh t, RI_BoundKey = [], RI_ClientID = II_ClientID i\<rparr>"

definition link_successor :: "IssuerEnv \<Rightarrow> RefreshClaim option \<Rightarrow> string \<Rightarrow> AuthDB \<Rightarrow> AuthDB result" where
  "link_successor ev from newID db =
     (case from of None \<Rightarrow> Inr db | Some c \<Rightarrow> SetRefreshSuccessor (Is_db ev) (RC_ID c) (RC_ExpiresAt c) newID db)"

definition issue_refresh :: "IssuerEnv \<Rightarrow> IssueInput \<Rightarrow> Ttls \<Rightarrow> AuthDB \<Rightarrow> (string \<times> AuthDB) result" where
  "issue_refresh ev i t db =
     (case secret_New ev 1 32 of None \<Rightarrow> Inl ErrInternal | Some raw \<Rightarrow>
      let refreshToken = refresh_prefix @ raw in
      and_then (refresh_family ev (II_RotateFrom i)) (\<lambda>(familyID, generation).
      and_then (wrap_internal (CreateRefresh (Is_db ev) (refresh_input ev i t refreshToken familyID generation) db)) (\<lambda>(newID, db1).
      and_then (wrap_internal (link_successor ev (II_RotateFrom i) newID db1)) (\<lambda>db2.
        Inr (refreshToken, db2)))))"

definition Issue :: "IssuerEnv \<Rightarrow> IssueInput \<Rightarrow> AuthDB \<Rightarrow> (TokenPair \<times> AuthDB) result" where
  "Issue ev i0 db =
     (let s = II_Session i0;
          i = (case II_RotateFrom i0 of None \<Rightarrow> i0 | Some c \<Rightarrow> i0\<lparr>II_ClientID := RC_ClientID c\<rparr>)
      in
      and_then (issue_gate ev s (II_ClientID i)) (\<lambda>t.
      and_then (token_roles ev s (Tt_appID t)) (\<lambda>roles.
      and_then (token_scopes ev s) (\<lambda>scopes.
      case secret_New ev 0 16 of None \<Rightarrow> Inl ErrInternal | Some jti \<Rightarrow>
      and_then (sign_access ev t (token_claims ev i t roles scopes jti)) (\<lambda>access.
      let pair = \<lparr>TP_AccessToken = access, TP_RefreshToken = [], TP_TokenType = ''Bearer'',
            TP_ExpiresIn = go_quot (Tt_access t) Second, TP_SessionID = SV_ID s\<rparr> in
      if II_AccessOnly i then Inr (pair, db)
      else and_then (issue_refresh ev i t db) (\<lambda>(refreshToken, db').
        Inr (pair\<lparr>TP_RefreshToken := refreshToken\<rparr>, db')))))))"

section \<open>session\_establisher.go\<close>

definition Establish_tx ::
  "IssuerEnv \<Rightarrow> TenantRef \<Rightarrow> Realm \<Rightarrow> string \<Rightarrow> string \<Rightarrow> string \<Rightarrow> string list \<Rightarrow> AuthDB \<Rightarrow> (TokenPair \<times> AuthDB) result" where
  "Establish_tx ev tenant realm identityID clientID deviceFP amr db =
     (case CreateSession (Is_db ev) \<lparr>SN_IdentityID = identityID, SN_TenantID = Tn_ID tenant, SN_ApplicationID = [],
          SN_AMR = amr, SN_DeviceFP = deviceFP, SN_IP = Is_ip ev, SN_UserAgent = Is_userAgent ev,
          SN_ActiveScopes = ''{}'', SN_ExpiresAt = Is_clock ev + Rm_SessionTTL realm\<rparr> db of
        Inl e \<Rightarrow> Inl ErrInternal
      | Inr (sessID, db1) \<Rightarrow>
          (case SessionLive (Is_db ev) sessID db1 of
             Inl e \<Rightarrow> Inl ErrInternal
           | Inr view \<Rightarrow> Issue ev \<lparr>II_Session = view, II_TenantSlug = Tn_Slug tenant, II_ClientID = clientID,
               II_RotateFrom = None, II_AccessOnly = False\<rparr> db1))"

definition Establish ::
  "IssuerEnv \<Rightarrow> TenantRef \<Rightarrow> Realm \<Rightarrow> string \<Rightarrow> string \<Rightarrow> string \<Rightarrow> string list \<Rightarrow> AuthDB \<Rightarrow> AuthDB \<times> TokenPair result" where
  "Establish ev tenant realm identityID clientID deviceFP amr db =
     (case WithinTx (Is_db ev) (Establish_tx ev tenant realm identityID clientID deviceFP amr) ErrInternal db of
        (db', Inl e) \<Rightarrow> (db', Inl e)
      | (db', Inr pair) \<Rightarrow> (TouchLastLogin (Is_db ev) identityID db', Inr pair))"

end
