(* ===== verification/Token_Lifecycle.thy ===== *)
theory Token_Lifecycle
  imports Token_Issuer
begin

text \<open>
  What happens to a session and its refresh tokens after sign-in: \<^verbatim>\<open>internal/auth/app/token\<close> (rotation,
  revocation, introspection), \<^verbatim>\<open>internal/auth/app/session\<close> (sign-out in its three shapes, the list of
  one's sessions) and the deprovisioning of \<^verbatim>\<open>identity_admin_interactor.go\<close>. Each is a function of the
  database and what the call meets, \<open>IssuerEnv\<close>; audit events are appended to \<open>AB_events\<close>.
\<close>

definition Emit :: "AuthEvent \<Rightarrow> AuthDB \<Rightarrow> AuthDB" where
  "Emit e db = db\<lparr>AB_events := AB_events db @ [e]\<rparr>"

section \<open>refresh\_interactor.go\<close>

datatype refresh_err = errClaimFailed | errSessionDead RefreshClaim | RefreshErr apperr

definition rotate_tx :: "IssuerEnv \<Rightarrow> string \<Rightarrow> AuthDB \<Rightarrow> refresh_err + TokenPair \<times> AuthDB" where
  "rotate_tx ev hash db =
     (case ClaimRefresh (Is_db ev) hash db of Inl e \<Rightarrow> Inl errClaimFailed | Inr (claim, db1) \<Rightarrow>
      case SessionLive (Is_db ev) (RC_SessionID claim) db1 of Inl e \<Rightarrow> Inl (errSessionDead claim) | Inr view \<Rightarrow>
      case Is_TenantByID ev (RC_TenantID claim) of
        Inl e \<Rightarrow> Inl (RefreshErr ErrInternal)
      | Inr tenant \<Rightarrow>
      case Issue ev \<lparr>II_Session = view, II_TenantSlug = Tn_Slug tenant, II_ClientID = [],
          II_RotateFrom = Some claim, II_AccessOnly = False\<rparr> db1 of
        Inl e \<Rightarrow> Inl (RefreshErr e)
      | Inr (pair, db2) \<Rightarrow> Inr (pair, TouchSession (Is_db ev) (SV_ID view) db2))"

definition reuse_event :: "IssuerEnv \<Rightarrow> RefreshInfo \<Rightarrow> bool \<Rightarrow> AuthEvent" where
  "reuse_event ev info was_contained = \<lparr>AE_TenantID = RF_TenantID info, AE_ActorID = [], AE_ActorKind = ''identity'',
     AE_SessionID = RF_SessionID info, AE_TargetID = [], AE_Action = ''token.reuse_detected'', AE_Result = ''deny'',
     AE_IP = Is_ip ev, AE_Detail = [(''family_id'', RF_FamilyID info),
       (''contained'', if was_contained then ''true'' else ''false'')]\<rparr>"

text \<open>The three containment writes, each tried whatever became of the one before, except that the
  session's tokens are revoked only after the session was.\<close>

definition contain :: "DbEnv \<Rightarrow> RefreshInfo \<Rightarrow> AuthDB \<Rightarrow> bool \<times> AuthDB" where
  "contain ev info db =
     (let (ok1, db1) = (case RevokeRefreshFamily ev (RF_FamilyID info) db of
            Inl e \<Rightarrow> (False, db) | Inr db' \<Rightarrow> (True, db'))
      in case RevokeSession ev (RF_TenantID info) (RF_SessionID info) ''refresh_reuse_detected'' db1 of
           Inl e \<Rightarrow> (False, db1)
         | Inr (_, db2) \<Rightarrow>
             (case RevokeRefreshBySessions ev [RF_SessionID info] db2 of
                Inl e \<Rightarrow> (False, db2) | Inr db3 \<Rightarrow> (ok1, db3)))"

definition respondToFailedClaim :: "IssuerEnv \<Rightarrow> string \<Rightarrow> AuthDB \<Rightarrow> AuthDB \<times> apperr" where
  "respondToFailedClaim ev hash db =
     (case RefreshByHash (Is_db ev) hash db of
        Inr (Some info) \<Rightarrow>
          if RF_Status info = ''consumed'' \<or> RF_Status info = ''revoked'' then
            (case contain (Is_db ev) info db of
               (was_contained, db') \<Rightarrow> (Emit (reuse_event ev info was_contained) db', ErrRefreshReuse))
          else (db, ErrRefreshInvalid)
      | _ \<Rightarrow> (db, ErrRefreshInvalid))"

definition Refresh_Execute :: "IssuerEnv \<Rightarrow> string \<Rightarrow> AuthDB \<Rightarrow> AuthDB \<times> TokenPair result" where
  "Refresh_Execute ev refreshToken db =
     (let token = TrimSpace refreshToken in
      if \<not> HasPrefix token refresh_prefix \<or> length token > 256 then (db, Inl ErrRefreshInvalid)
      else let hash = Is_hash ev token in
        case WithinTx (Is_db ev) (rotate_tx ev hash) (RefreshErr ErrInternal) db of
          (db', Inr pair) \<Rightarrow> (db', Inr pair)
        | (db', Inl errClaimFailed) \<Rightarrow> (case respondToFailedClaim ev hash db' of (db'', e) \<Rightarrow> (db'', Inl e))
        | (db', Inl (errSessionDead claim)) \<Rightarrow>
            (case RevokeRefreshFamily (Is_db ev) (RC_FamilyID claim) db' of
               Inl e \<Rightarrow> (db', Inl ErrSessionRevoked) | Inr db'' \<Rightarrow> (db'', Inl ErrSessionRevoked))
        | (db', Inl (RefreshErr e)) \<Rightarrow> (db', Inl e))"

section \<open>revoke\_interactor.go\<close>

definition revoke_event :: "IssuerEnv \<Rightarrow> RefreshInfo \<Rightarrow> string \<Rightarrow> (string, string) gomap \<Rightarrow> AuthEvent" where
  "revoke_event ev info res detail = \<lparr>AE_TenantID = RF_TenantID info, AE_ActorID = [], AE_ActorKind = ''service'',
     AE_SessionID = RF_SessionID info, AE_TargetID = [], AE_Action = ''token.revoke'', AE_Result = res, AE_IP = Is_ip ev,
     AE_Detail = detail\<rparr>"

definition auditRevokeFailed :: "IssuerEnv \<Rightarrow> RefreshInfo \<Rightarrow> string \<Rightarrow> AuthDB \<Rightarrow> AuthDB" where
  "auditRevokeFailed ev info stage = Emit (revoke_event ev info ''error'' [(''type'', ''refresh''), (''failed_at'', stage)])"

definition revoke_refresh :: "IssuerEnv \<Rightarrow> RefreshInfo \<Rightarrow> AuthDB \<Rightarrow> AuthDB \<times> unit result" where
  "revoke_refresh ev info db =
     (case RevokeRefreshFamily (Is_db ev) (RF_FamilyID info) db of
        Inl e \<Rightarrow> (auditRevokeFailed ev info ''family'' db, Inl ErrInternal)
      | Inr db1 \<Rightarrow>
     (case RevokeSession (Is_db ev) (RF_TenantID info) (RF_SessionID info) ''token_revoked'' db1 of
        Inl e \<Rightarrow> (auditRevokeFailed ev info ''session'' db1, Inl ErrInternal)
      | Inr (_, db2) \<Rightarrow>
     (case RevokeRefreshBySessions (Is_db ev) [RF_SessionID info] db2 of
        Inl e \<Rightarrow> (auditRevokeFailed ev info ''session_tokens'' db2, Inl ErrInternal)
      | Inr db3 \<Rightarrow> (Emit (revoke_event ev info ''allow'' [(''type'', ''refresh'')]) db3, Inr ()))))"

text \<open>The two claims the revocation reads, \<^verbatim>\<open>sid\<close> and \<^verbatim>\<open>tid\<close>, off an unverified token.\<close>

definition revoke_access :: "IssuerEnv \<Rightarrow> (string \<Rightarrow> (string \<times> string) option) \<Rightarrow> string \<Rightarrow> AuthDB \<Rightarrow> AuthDB" where
  "revoke_access ev sid_tid token db =
     (case ClaimsUnverified (Is_json ev) token of Inl e \<Rightarrow> db | Inr msg \<Rightarrow>
      case sid_tid msg of None \<Rightarrow> db | Some (sid, tid) \<Rightarrow>
      if sid = [] then db
      else case Is_TenantBySlug ev tid of
        Inr (Some tenant) \<Rightarrow>
          (case RevokeSession (Is_db ev) (Tn_ID tenant) sid ''token_revoked'' db of
             Inl e \<Rightarrow> db
           | Inr (_, db1) \<Rightarrow> (case RevokeRefreshBySessions (Is_db ev) [sid] db1 of Inl e \<Rightarrow> db1 | Inr db2 \<Rightarrow> db2))
      | _ \<Rightarrow> db)"

definition Revoke_Execute ::
  "IssuerEnv \<Rightarrow> (string \<Rightarrow> (string \<times> string) option) \<Rightarrow> string \<Rightarrow> AuthDB \<Rightarrow> AuthDB \<times> unit result" where
  "Revoke_Execute ev sid_tid presented db =
     (let token = TrimSpace presented in
      if HasPrefix token refresh_prefix then
        (case RefreshByHash (Is_db ev) (Is_hash ev token) db of
           Inr (Some info) \<Rightarrow> revoke_refresh ev info db
         | _ \<Rightarrow> (db, Inr ()))
      else if IsAccessToken (Is_json ev) token then (revoke_access ev sid_tid token db, Inr ())
      else (db, Inr ()))"

section \<open>introspect\_interactor.go\<close>

definition introspect_verify :: "IssuerEnv \<Rightarrow> string \<Rightarrow> Claims option" where
  "introspect_verify ev token =
     (case Kid (Is_json ev) token of Inl e \<Rightarrow> None | Inr kid \<Rightarrow>
      case Lookup (Is_ring ev) kid of Inl e \<Rightarrow> None | Inr key \<Rightarrow>
      if Key_Purpose key \<noteq> PurposeAccess then None
      else case VerifyToken (Is_ed ev) (Is_json ev) (Key_Public key) token of Inl e \<Rightarrow> None | Inr msg \<Rightarrow>
      case js_claims (Is_json ev) msg of None \<Rightarrow> None | Some claims \<Rightarrow>
      let now = Unix (Is_clock ev) in
      if Cl_Issuer claims \<noteq> Is_issuer ev \<or> (Cl_Expires claims \<noteq> 0 \<and> now > Cl_Expires claims) \<or>
         (Cl_NotBefore claims \<noteq> 0 \<and> now < int64 (Cl_NotBefore claims - 60)) then None
      else Some claims)"

text \<open>The active result repeats the claims it answers for; the inactive one carries nothing.\<close>

definition Introspect_Execute :: "IssuerEnv \<Rightarrow> string \<Rightarrow> AuthDB \<Rightarrow> Claims option" where
  "Introspect_Execute ev token db =
     (case introspect_verify ev token of None \<Rightarrow> None | Some claims \<Rightarrow>
      case Is_TenantBySlug ev (Cl_Tenant claims) of
        Inr (Some tenant) \<Rightarrow>
          (case SessionState (Is_db ev) (Is_clock ev) (Tn_ID tenant) (Cl_Session claims) db of
             Inl e \<Rightarrow> None
           | Inr (revoked, expired, epoch, blocked) \<Rightarrow>
               if revoked \<or> expired \<or> blocked \<or> epoch \<noteq> Cl_Epoch claims then None else Some claims)
      | _ \<Rightarrow> None)"

section \<open>logout\_interactor.go\<close>

definition signout_event :: "IssuerEnv \<Rightarrow> Principal \<Rightarrow> string \<Rightarrow> string \<Rightarrow> (string, string) gomap \<Rightarrow> AuthEvent" where
  "signout_event ev p sessionID action detail = \<lparr>AE_TenantID = Pr_TenantID p, AE_ActorID = Pr_IdentityID p,
     AE_ActorKind = ''identity'', AE_SessionID = sessionID, AE_TargetID = [], AE_Action = action, AE_Result = ''allow'',
     AE_IP = Is_ip ev, AE_Detail = detail\<rparr>"

definition revokeOne_tx :: "DbEnv \<Rightarrow> Principal \<Rightarrow> string \<Rightarrow> string \<Rightarrow> AuthDB \<Rightarrow> (unit \<times> AuthDB) result" where
  "revokeOne_tx ev p sessionID reason db =
     (case RevokeSession ev (Pr_TenantID p) sessionID reason db of
        Inl e \<Rightarrow> Inl ErrNotFound
      | Inr (rs, db1) \<Rightarrow>
          if RV_IdentityID rs \<noteq> Pr_IdentityID p then Inl ErrPermissionDenied
          else (case RevokeRefreshBySessions ev [sessionID] db1 of Inl e \<Rightarrow> Inl e | Inr db2 \<Rightarrow> Inr ((), db2)))"

definition revokeOne :: "IssuerEnv \<Rightarrow> Principal \<Rightarrow> string \<Rightarrow> string \<Rightarrow> AuthDB \<Rightarrow> AuthDB \<times> unit result" where
  "revokeOne ev p sessionID reason db =
     (case WithinTx (Is_db ev) (revokeOne_tx (Is_db ev) p sessionID reason) ErrInternal db of
        (db', Inl e) \<Rightarrow> (db', Inl e)
      | (db', Inr _) \<Rightarrow> (Emit (signout_event ev p sessionID (''auth.'' @ reason) []) db', Inr ()))"

definition Logout_Execute :: "IssuerEnv \<Rightarrow> Principal option \<Rightarrow> AuthDB \<Rightarrow> AuthDB \<times> unit result" where
  "Logout_Execute ev ctx db =
     (case ctx of None \<Rightarrow> (db, Inl ErrUnauthenticated) | Some p \<Rightarrow>
      if Pr_SessionID p = [] then (db, Inl ErrUnauthenticated)
      else revokeOne ev p (Pr_SessionID p) ''logout'' db)"

definition LogoutSession_Execute :: "IssuerEnv \<Rightarrow> Principal option \<Rightarrow> string \<Rightarrow> AuthDB \<Rightarrow> AuthDB \<times> unit result" where
  "LogoutSession_Execute ev ctx sessionID db =
     (case ctx of None \<Rightarrow> (db, Inl ErrUnauthenticated) | Some p \<Rightarrow>
      if sessionID \<noteq> Pr_SessionID p \<and> \<not> FirstParty p then (db, Inl ErrPermissionDenied)
      else revokeOne ev p sessionID ''logout_session'' db)"

definition revoke_everywhere ::
  "DbEnv \<Rightarrow> string \<Rightarrow> string \<Rightarrow> string \<Rightarrow> AuthDB \<Rightarrow> (RevokedSession list \<times> AuthDB) result" where
  "revoke_everywhere ev tenantID identityID reason db =
     and_then (RevokeAllSessions ev tenantID identityID reason db) (\<lambda>(revoked, db1).
     and_then (if revoked \<noteq> [] then RevokeRefreshBySessions ev (map RV_ID revoked) db1 else Inr db1) (\<lambda>db2.
     and_then (BumpTokenEpoch ev tenantID identityID db2) (\<lambda>(_, db3). Inr (revoked, db3))))"

definition logout_all_commit ::
  "IssuerEnv \<Rightarrow> Principal option \<Rightarrow> AuthDB \<Rightarrow> AuthDB \<times> (RevokedSession list) result" where
  "logout_all_commit ev ctx db =
     (case ctx of None \<Rightarrow> (db, Inl ErrUnauthenticated) | Some p \<Rightarrow>
      if \<not> FirstParty p then (db, Inl ErrPermissionDenied)
      else case WithinTx (Is_db ev) (\<lambda>db. wrap_internal
             (revoke_everywhere (Is_db ev) (Pr_TenantID p) (Pr_IdentityID p) ''logout_all'' db)) ErrInternal db of
        (db', Inl e) \<Rightarrow> (db', Inl e)
      | (db', Inr revoked) \<Rightarrow>
          (Emit (signout_event ev p (Pr_SessionID p) ''auth.logout_all''
            [(''sessions_revoked'', itoa (int (length revoked)))]) db', Inr revoked))"

text \<open>\<^verbatim>\<open>backchannel_logout.go\<close>: after the commit, every application that registered an address is sent a
  signed notice. \<open>Bc_apps\<close> answers the directory (slug and address), \<open>Bc_marshal\<close> encodes the notice's
  claims; the k-th notice takes the k-th secret.\<close>

record LogoutNotice =
  Ln_iss :: string
  Ln_aud :: "string list"
  Ln_iat :: int
  Ln_exp :: int
  Ln_jti :: string
  Ln_sub :: string
  Ln_sid :: string

record Backchannel =
  Bc_apps :: "string \<Rightarrow> (string \<times> string) list result"
  Bc_marshal :: "LogoutNotice \<Rightarrow> string"

definition mint_logout :: "IssuerEnv \<Rightarrow> Backchannel \<Rightarrow> nat \<Rightarrow> string \<Rightarrow> string \<Rightarrow> string \<Rightarrow> string option" where
  "mint_logout ev bc k audience sub sid =
     (case ActiveAccessAt (Is_ring ev) (Is_clock ev) of Inl e \<Rightarrow> None | Inr key \<Rightarrow>
      case secret_New ev k 16 of None \<Rightarrow> None | Some jti \<Rightarrow>
      let now = Is_clock ev;
          body = Bc_marshal bc \<lparr>Ln_iss = Is_issuer ev, Ln_aud = [audience], Ln_iat = Unix now,
            Ln_exp = Unix (now + 2 * 60 * Second), Ln_jti = jti, Ln_sub = sub, Ln_sid = sid\<rparr>
      in case Sign (Is_ed ev) (case Key_Private key of None \<Rightarrow> [] | Some sk \<Rightarrow> sk) body
              (js_marshal_kid (Is_json ev) (Key_Kid key)) [] of
           Inl e \<Rightarrow> None | Inr token \<Rightarrow> Some token)"

fun notify_loop ::
  "IssuerEnv \<Rightarrow> Backchannel \<Rightarrow> nat \<Rightarrow> string \<Rightarrow> string \<Rightarrow> (string \<times> string) list \<Rightarrow> (string \<times> string) list" where
  "notify_loop ev bc k who sid [] = []"
| "notify_loop ev bc k who sid ((slug, uri) # apps) =
     (case mint_logout ev bc k slug who sid of
        None \<Rightarrow> notify_loop ev bc (Suc k) who sid apps
      | Some token \<Rightarrow> (uri, token) # notify_loop ev bc (Suc k) who sid apps)"

definition NotifyAll ::
  "IssuerEnv \<Rightarrow> Backchannel \<Rightarrow> string \<Rightarrow> string \<Rightarrow> RevokedSession list \<Rightarrow> (string \<times> string) list" where
  "NotifyAll ev bc tenantID identityID sessions =
     (case Bc_apps bc tenantID of
        Inl e \<Rightarrow> []
      | Inr apps \<Rightarrow> notify_loop ev bc 0 identityID (case sessions of [] \<Rightarrow> [] | s # _ \<Rightarrow> RV_ID s) apps)"

definition LogoutAll_Execute ::
  "IssuerEnv \<Rightarrow> Backchannel \<Rightarrow> Principal option \<Rightarrow> AuthDB \<Rightarrow> AuthDB \<times> (string \<times> string) list \<times> nat result" where
  "LogoutAll_Execute ev bc ctx db =
     (case logout_all_commit ev ctx db of
        (db', Inl e) \<Rightarrow> (db', [], Inl e)
      | (db', Inr revoked) \<Rightarrow>
          (db', (case ctx of None \<Rightarrow> [] | Some p \<Rightarrow> NotifyAll ev bc (Pr_TenantID p) (Pr_IdentityID p) revoked),
           Inr (length revoked)))"

definition ListSessions_Execute ::
  "IssuerEnv \<Rightarrow> Principal option \<Rightarrow> AuthDB \<Rightarrow> (SessionInfo list \<times> string) result" where
  "ListSessions_Execute ev ctx db =
     (case ctx of None \<Rightarrow> Inl ErrUnauthenticated | Some p \<Rightarrow>
      if \<not> FirstParty p then Inl ErrPermissionDenied
      else (case SessionsByIdentity (Is_db ev) (Pr_IdentityID p) db of
              Inl e \<Rightarrow> Inl ErrInternal | Inr l \<Rightarrow> Inr (l, Pr_SessionID p)))"

section \<open>switch\_scope\_interactor.go\<close>

text \<open>What the switch asks elsewhere: the node of an id, whether the caller's grants reach it, and the
  encoding of the chosen scopes.\<close>

record SwitchEnv =
  Sw_node :: "string \<Rightarrow> string \<Rightarrow> (string \<times> string) option result"
  Sw_reach :: "string \<Rightarrow> string \<Rightarrow> string \<Rightarrow> string \<Rightarrow> bool result"
  Sw_marshal :: "(string, string) gomap \<Rightarrow> string"

definition switch_event :: "IssuerEnv \<Rightarrow> Principal \<Rightarrow> string \<Rightarrow> (string, string) gomap \<Rightarrow> AuthEvent" where
  "switch_event ev p res detail = (signout_event ev p (Pr_SessionID p) ''auth.scope_switch'' detail)\<lparr>AE_Result := res\<rparr>"

fun switch_loop ::
  "IssuerEnv \<Rightarrow> SwitchEnv \<Rightarrow> Principal \<Rightarrow> (string, string) gomap \<Rightarrow> AuthDB \<Rightarrow> AuthDB \<times> unit result" where
  "switch_loop ev sw p [] db = (db, Inr ())"
| "switch_loop ev sw p ((axis, nodeID) # scopes) db =
     (if \<not> ValidCode axis then (db, Inl ErrInvalidArgument)
      else case Sw_node sw (Pr_TenantID p) nodeID of
        Inr (Some (node_axis, status)) \<Rightarrow>
          if node_axis \<noteq> axis \<or> status \<noteq> ''active'' then (db, Inl ErrInvalidArgument)
          else (case Sw_reach sw (Pr_TenantSlug p) (Pr_IdentityID p) axis nodeID of
            Inl e \<Rightarrow> (db, Inl e)
          | Inr ok \<Rightarrow>
              if \<not> ok then (Emit (switch_event ev p ''deny''
                  [(''axis'', axis), (''node'', nodeID), (''reason'', ''not_entitled'')]) db, Inl ErrPermissionDenied)
              else switch_loop ev sw p scopes db)
      | _ \<Rightarrow> (db, Inl ErrInvalidArgument))"

definition switch_tx :: "IssuerEnv \<Rightarrow> Principal \<Rightarrow> string \<Rightarrow> AuthDB \<Rightarrow> (TokenPair \<times> AuthDB) result" where
  "switch_tx ev p raw db =
     and_then (wrap_internal (UpdateSessionScopes (Is_db ev) (Pr_SessionID p) raw db)) (\<lambda>db1.
     case SessionLive (Is_db ev) (Pr_SessionID p) db1 of
       Inl e \<Rightarrow> Inl ErrSessionRevoked
     | Inr view \<Rightarrow> Issue ev \<lparr>II_Session = view, II_TenantSlug = Pr_TenantSlug p, II_ClientID = [],
         II_RotateFrom = None, II_AccessOnly = True\<rparr> db1)"

definition SwitchScope_Execute ::
  "IssuerEnv \<Rightarrow> SwitchEnv \<Rightarrow> Principal option \<Rightarrow> (string, string) gomap \<Rightarrow> AuthDB \<Rightarrow> AuthDB \<times> TokenPair result" where
  "SwitchScope_Execute ev sw ctx scopes db =
     (case ctx of None \<Rightarrow> (db, Inl ErrUnauthenticated) | Some p \<Rightarrow>
      if Pr_SessionID p = [] then (db, Inl ErrUnauthenticated)
      else if length scopes > 16 then (db, Inl ErrInvalidArgument)
      else case switch_loop ev sw p scopes db of
        (db1, Inl e) \<Rightarrow> (db1, Inl e)
      | (db1, Inr _) \<Rightarrow>
          (case WithinTx (Is_db ev) (switch_tx ev p (Sw_marshal sw scopes)) ErrInternal db1 of
             (db2, Inl e) \<Rightarrow> (db2, Inl e)
           | (db2, Inr pair) \<Rightarrow> (Emit (switch_event ev p ''allow'' scopes) db2, Inr pair)))"

section \<open>identity\_admin\_interactor.go\<close>

text \<open>\<open>guard\<close> is the permission check of \<^verbatim>\<open>anubis:identity:write\<close>, answering the caller.\<close>

definition identity_event :: "IssuerEnv \<Rightarrow> Principal \<Rightarrow> string \<Rightarrow> string \<Rightarrow> (string, string) gomap \<Rightarrow> AuthEvent" where
  "identity_event ev p action target detail = (signout_event ev p (Pr_SessionID p) action detail)\<lparr>AE_TargetID := target\<rparr>"

definition AdminDisableIdentity ::
  "IssuerEnv \<Rightarrow> Principal result \<Rightarrow> string \<Rightarrow> string \<Rightarrow> AuthDB \<Rightarrow> AuthDB \<times> unit result" where
  "AdminDisableIdentity ev guard who reason db =
     (case guard of Inl e \<Rightarrow> (db, Inl e) | Inr p \<Rightarrow>
      case WithinTx (Is_db ev) (\<lambda>db. and_then (DisableIdentity (Is_db ev) (Pr_TenantID p) who db)
             (revoke_everywhere (Is_db ev) (Pr_TenantID p) who ''identity_disabled'')) ErrInternal db of
        (db', Inl e) \<Rightarrow> (db', Inl e)
      | (db', Inr _) \<Rightarrow> (Emit (identity_event ev p ''identity.disable'' who [(''reason'', reason)]) db', Inr ()))"

definition AdminEnableIdentity :: "IssuerEnv \<Rightarrow> Principal result \<Rightarrow> string \<Rightarrow> AuthDB \<Rightarrow> AuthDB \<times> unit result" where
  "AdminEnableIdentity ev guard who db =
     (case guard of Inl e \<Rightarrow> (db, Inl e) | Inr p \<Rightarrow>
      case EnableIdentity (Is_db ev) (Pr_TenantID p) who db of
        Inl e \<Rightarrow> (db, Inl e)
      | Inr db' \<Rightarrow> (Emit (identity_event ev p ''identity.enable'' who []) db', Inr ()))"

definition AdminBumpTokenEpoch :: "IssuerEnv \<Rightarrow> Principal result \<Rightarrow> string \<Rightarrow> AuthDB \<Rightarrow> AuthDB \<times> int result" where
  "AdminBumpTokenEpoch ev guard who db =
     (case guard of Inl e \<Rightarrow> (db, Inl e) | Inr p \<Rightarrow>
      case BumpTokenEpoch (Is_db ev) (Pr_TenantID p) who db of
        Inl e \<Rightarrow> (db, Inl e)
      | Inr (epoch, db') \<Rightarrow> (Emit (identity_event ev p ''identity.epoch_bump'' who []) db', Inr epoch))"

end
