(* ===== verification/Session_Machine.thy ===== *)
theory Session_Machine
  imports Token_Lifecycle
begin

text \<open>
  The contract of sessions and refresh families as an abstract state machine, and the proof that
  every operation of \<^verbatim>\<open>internal/auth\<close> that writes them implements it, whatever statements fail on the
  way. What the contract promises (a family has one live token, a token is spent once, what was
  ended stays ended) is proved on the abstract machine and carried over to the operations.
\<close>

section \<open>The contract\<close>

record Tok =
  Tk_hash :: string
  Tk_family :: string
  Tk_session :: string
  Tk_tenant :: string
  Tk_client :: string
  Tk_status :: string

record Sess =
  Se_id :: string
  Se_identity :: string
  Se_tenant :: string
  Se_ended :: bool

record Life =
  Lf_toks :: "Tok list"
  Lf_sess :: "Sess list"
  Lf_epochs :: "(string \<times> string \<times> int) list"

definition restate :: "(Tok \<Rightarrow> bool) \<Rightarrow> string \<Rightarrow> Tok \<Rightarrow> Tok" where
  "restate P st t = (if P t \<and> Tk_status t = ''active'' then t\<lparr>Tk_status := st\<rparr> else t)"

definition set_status :: "(Tok \<Rightarrow> bool) \<Rightarrow> string \<Rightarrow> Life \<Rightarrow> Life" where
  "set_status P st L = L\<lparr>Lf_toks := map (restate P st) (Lf_toks L)\<rparr>"

definition finish :: "(Sess \<Rightarrow> bool) \<Rightarrow> Sess \<Rightarrow> Sess" where
  "finish P s = (if P s then s\<lparr>Se_ended := True\<rparr> else s)"

definition set_ended :: "(Sess \<Rightarrow> bool) \<Rightarrow> Life \<Rightarrow> Life" where
  "set_ended P L = L\<lparr>Lf_sess := map (finish P) (Lf_sess L)\<rparr>"

definition bump :: "(string \<times> string \<Rightarrow> bool) \<Rightarrow> Life \<Rightarrow> Life" where
  "bump P L = L\<lparr>Lf_epochs := map (\<lambda>(i, t, n). if P (i, t) then (i, t, n + 1) else (i, t, n)) (Lf_epochs L)\<rparr>"

definition add_tok :: "Tok \<Rightarrow> Life \<Rightarrow> Life" where
  "add_tok t L = L\<lparr>Lf_toks := Lf_toks L @ [t]\<rparr>"

definition add_sess :: "Sess \<Rightarrow> Life \<Rightarrow> Life" where
  "add_sess s L = L\<lparr>Lf_sess := Lf_sess L @ [s]\<rparr>"

text \<open>A live token of a live session is exchanged for its successor; a live session starts a family;
  a session is opened; tokens are revoked; sessions are ended; an identity's epoch moves on.\<close>

inductive life_step :: "Life \<Rightarrow> Life \<Rightarrow> bool" where
  exchange: "\<lbrakk>t \<in> set (Lf_toks L); Tk_status t = ''active''; s \<in> set (Lf_sess L); Se_id s = Tk_session t;
      \<not> Se_ended s; h \<notin> Tk_hash ` set (Lf_toks L)\<rbrakk> \<Longrightarrow>
    life_step L (add_tok (t\<lparr>Tk_hash := h, Tk_tenant := Se_tenant s\<rparr>) (set_status (\<lambda>u. Tk_hash u = Tk_hash t) ''consumed'' L))"
| family: "\<lbrakk>s \<in> set (Lf_sess L); \<not> Se_ended s; h \<notin> Tk_hash ` set (Lf_toks L); f \<notin> Tk_family ` set (Lf_toks L)\<rbrakk> \<Longrightarrow>
    life_step L (add_tok \<lparr>Tk_hash = h, Tk_family = f, Tk_session = Se_id s, Tk_tenant = Se_tenant s,
      Tk_client = c, Tk_status = ''active''\<rparr> L)"
| opened: "s \<notin> Se_id ` set (Lf_sess L) \<Longrightarrow>
    life_step L (add_sess \<lparr>Se_id = s, Se_identity = i, Se_tenant = t, Se_ended = False\<rparr> L)"
| revoked: "life_step L (set_status P ''revoked'' L)"
| ended: "life_step L (set_ended P L)"
| bumped: "life_step L (bump P L)"

abbreviation life_steps :: "Life \<Rightarrow> Life \<Rightarrow> bool" where
  "life_steps \<equiv> life_step\<^sup>*\<^sup>*"

section \<open>What the contract keeps\<close>

text \<open>Hashes name tokens, ids name sessions; a family has at most one live token and belongs to one
  session and one application; a token's session exists, in the token's tenant.\<close>

definition kin :: "Tok \<Rightarrow> Tok \<Rightarrow> bool" where
  "kin t u \<longleftrightarrow> (Tk_family t = Tk_family u \<longrightarrow> Tk_session t = Tk_session u \<and> Tk_client t = Tk_client u \<and>
     (Tk_status t = ''active'' \<and> Tk_status u = ''active'' \<longrightarrow> t = u))"

definition housed :: "Sess set \<Rightarrow> Tok \<Rightarrow> bool" where
  "housed S t \<longleftrightarrow> (\<exists>s\<in>S. Se_id s = Tk_session t \<and> Se_tenant s = Tk_tenant t)"

definition life_ok :: "Life \<Rightarrow> bool" where
  "life_ok L \<longleftrightarrow> distinct (map Tk_hash (Lf_toks L)) \<and> distinct (map Se_id (Lf_sess L)) \<and>
     (\<forall>t\<in>set (Lf_toks L). \<forall>u\<in>set (Lf_toks L). kin t u) \<and>
     (\<forall>t\<in>set (Lf_toks L). Tk_status t \<in> {''active'', ''consumed'', ''revoked''} \<and> housed (set (Lf_sess L)) t)"

definition spent :: "string \<Rightarrow> Life \<Rightarrow> bool" where
  "spent h L \<longleftrightarrow> h \<in> Tk_hash ` set (Lf_toks L) \<and> (\<forall>t\<in>set (Lf_toks L). Tk_hash t = h \<longrightarrow> Tk_status t \<noteq> ''active'')"

definition family_dead :: "string \<Rightarrow> Life \<Rightarrow> bool" where
  "family_dead f L \<longleftrightarrow> f \<in> Tk_family ` set (Lf_toks L) \<and> (\<forall>t\<in>set (Lf_toks L). Tk_family t = f \<longrightarrow> Tk_status t \<noteq> ''active'')"

definition session_dead :: "string \<Rightarrow> Life \<Rightarrow> bool" where
  "session_dead s L \<longleftrightarrow> s \<in> Se_id ` set (Lf_sess L) \<and> (\<forall>x\<in>set (Lf_sess L). Se_id x = s \<longrightarrow> Se_ended x)"

definition epoch_past :: "string \<Rightarrow> string \<Rightarrow> int \<Rightarrow> Life \<Rightarrow> bool" where
  "epoch_past i t n L \<longleftrightarrow> (\<forall>m. (i, t, m) \<in> set (Lf_epochs L) \<longrightarrow> n < m)"

lemma toks_simps [simp]:
  "Lf_toks (set_ended P L) = Lf_toks L" "Lf_toks (bump Q L) = Lf_toks L" "Lf_toks (add_sess s L) = Lf_toks L"
  "Lf_toks (add_tok t L) = Lf_toks L @ [t]"
  "Lf_toks (set_status R st L) = map (restate R st) (Lf_toks L)"
  by (simp_all add: set_ended_def bump_def add_sess_def add_tok_def set_status_def)

lemma sess_simps [simp]:
  "Lf_sess (set_status R st L) = Lf_sess L" "Lf_sess (bump Q L) = Lf_sess L" "Lf_sess (add_tok t L) = Lf_sess L"
  "Lf_sess (add_sess s L) = Lf_sess L @ [s]"
  "Lf_sess (set_ended P L) = map (finish P) (Lf_sess L)"
  by (simp_all add: set_ended_def bump_def add_sess_def add_tok_def set_status_def)

lemma epochs_simps [simp]:
  "Lf_epochs (set_status R st L) = Lf_epochs L" "Lf_epochs (set_ended P L) = Lf_epochs L"
  "Lf_epochs (add_tok t L) = Lf_epochs L" "Lf_epochs (add_sess s L) = Lf_epochs L"
  "Lf_epochs (bump Q L) = map (\<lambda>(i, t, n). if Q (i, t) then (i, t, n + 1) else (i, t, n)) (Lf_epochs L)"
  by (simp_all add: set_ended_def bump_def add_sess_def add_tok_def set_status_def)

lemma restate_simps [simp]:
  "Tk_hash (restate P st t) = Tk_hash t" "Tk_family (restate P st t) = Tk_family t"
  "Tk_session (restate P st t) = Tk_session t" "Tk_tenant (restate P st t) = Tk_tenant t"
  "Tk_client (restate P st t) = Tk_client t"
  "Tk_status (restate P st t) = (if P t \<and> Tk_status t = ''active'' then st else Tk_status t)"
  by (simp_all add: restate_def)

lemma restate_active: "st \<noteq> ''active'' \<Longrightarrow> Tk_status (restate P st t) = ''active'' \<Longrightarrow> restate P st t = t"
  by (simp add: restate_def split: if_splits)

lemma finish_simps [simp]:
  "Se_id (finish P s) = Se_id s" "Se_identity (finish P s) = Se_identity s" "Se_tenant (finish P s) = Se_tenant s"
  "Se_ended (finish P s) \<longleftrightarrow> Se_ended s \<or> P s"
  by (simp_all add: finish_def)

lemma map_restate_hash [simp]: "map (Tk_hash \<circ> restate P st) ts = map Tk_hash ts"
  by simp

lemma map_finish_id [simp]: "map (Se_id \<circ> finish P) ss = map Se_id ss"
  by simp

lemma kin_sym: "kin t u \<Longrightarrow> kin u t"
  by (auto simp: kin_def)

lemma kin_restate: "kin t u \<Longrightarrow> st \<noteq> ''active'' \<Longrightarrow> kin (restate P st t) (restate P st u)"
  unfolding kin_def restate_def by simp

lemma housed_finish: "housed (set (map (finish P) ss)) t \<longleftrightarrow> housed (set ss) t"
  by (auto simp: housed_def)

lemma housed_restate [simp]: "housed S (restate P st t) \<longleftrightarrow> housed S t"
  by (simp add: housed_def)

lemma life_ok_status:
  assumes "life_ok L" and "st \<in> {''consumed'', ''revoked''}"
  shows "life_ok (set_status P st L)"
proof -
  have "kin (restate P st t) (restate P st u)" if "t \<in> set (Lf_toks L)" "u \<in> set (Lf_toks L)" for t u
    using that assms by (intro kin_restate) (auto simp: life_ok_def)
  with assms show ?thesis by (auto simp: life_ok_def)
qed

lemma life_ok_add_tok:
  assumes ok: "life_ok L" and new: "Tk_hash t \<notin> Tk_hash ` set (Lf_toks L)" "Tk_status t = ''active''"
    and kin: "\<And>u. u \<in> set (Lf_toks L) \<Longrightarrow> kin u t" and home: "housed (set (Lf_sess L)) t"
  shows "life_ok (add_tok t L)"
proof -
  have "kin t t" by (simp add: kin_def)
  with assms show ?thesis by (auto simp: life_ok_def dest: kin_sym)
qed

lemma life_ok_ended: "life_ok L \<Longrightarrow> life_ok (set_ended P L)"
  unfolding life_ok_def toks_simps sess_simps housed_finish map_map map_finish_id .

lemma life_ok_add_sess: "life_ok L \<Longrightarrow> Se_id s \<notin> Se_id ` set (Lf_sess L) \<Longrightarrow> life_ok (add_sess s L)"
  by (auto simp: life_ok_def housed_def)

lemma life_ok_bump: "life_ok L \<Longrightarrow> life_ok (bump P L)"
  by (simp add: life_ok_def)

lemma life_ok_step: "life_step L L' \<Longrightarrow> life_ok L \<Longrightarrow> life_ok L'"
proof (induction rule: life_step.induct)
  case (exchange t L s h)
  let ?L = "set_status (\<lambda>u. Tk_hash u = Tk_hash t) ''consumed'' L"
  let ?new = "t\<lparr>Tk_hash := h, Tk_tenant := Se_tenant s\<rparr>"
  have kin: "kin u' ?new" if new: "u' \<in> set (Lf_toks ?L)" for u'
  proof -
    from new obtain u where u: "u \<in> set (Lf_toks L)" "u' = restate (\<lambda>u. Tk_hash u = Tk_hash t) ''consumed'' u"
      by auto
    with exchange.prems exchange.hyps(1) have k: "kin u t" by (simp add: life_ok_def)
    have "u = t" if "Tk_status u = ''active''" "Tk_family u = Tk_family t"
      using k that exchange.hyps(2) by (simp add: kin_def)
    with k u(2) show ?thesis by (auto simp: kin_def)
  qed
  have "housed (set (Lf_sess ?L)) ?new" using exchange.hyps by (auto simp: housed_def)
  moreover have "h \<notin> Tk_hash ` set (Lf_toks ?L)" using exchange.hyps(6) by (auto split: if_splits)
  ultimately show ?case
    using kin exchange.hyps(2) by (intro life_ok_add_tok life_ok_status exchange.prems) simp_all
next
  case (family s L h f c)
  then show ?case
    by (intro life_ok_add_tok) (auto simp: kin_def housed_def)
next
  case (opened s L i t)
  then show ?case by (simp add: life_ok_add_sess)
qed (simp_all add: life_ok_status life_ok_ended life_ok_bump)

text \<open>What is over stays over.\<close>

lemma spent_step: "life_step L L' \<Longrightarrow> spent h L \<Longrightarrow> spent h L'"
  by (induction rule: life_step.induct) (auto simp: spent_def image_iff split: if_splits)

lemma family_dead_step: "life_step L L' \<Longrightarrow> family_dead f L \<Longrightarrow> family_dead f L'"
  by (induction rule: life_step.induct) (auto simp: family_dead_def image_iff split: if_splits)

lemma session_dead_step: "life_step L L' \<Longrightarrow> session_dead s L \<Longrightarrow> session_dead s L'"
  by (induction rule: life_step.induct) (auto simp: session_dead_def image_iff split: if_splits)

lemma epoch_past_step: "life_step L L' \<Longrightarrow> epoch_past i t n L \<Longrightarrow> epoch_past i t n L'"
  by (induction rule: life_step.induct) (fastforce simp: epoch_past_def split: if_splits)+


section \<open>The database as a state of the contract\<close>

definition tok :: "RefreshRow \<Rightarrow> Tok" where
  "tok r = \<lparr>Tk_hash = RT_token_hash r, Tk_family = RT_family_id r, Tk_session = RT_session_id r,
     Tk_tenant = RT_tenant_id r, Tk_client = nstr (RT_client_id r), Tk_status = RT_status r\<rparr>"

definition sess :: "SessionRow \<Rightarrow> Sess" where
  "sess s = \<lparr>Se_id = SS_id s, Se_identity = SS_identity_id s, Se_tenant = SS_tenant_id s,
     Se_ended = (SS_revoked_at s \<noteq> None)\<rparr>"

definition life :: "AuthDB \<Rightarrow> Life" where
  "life db = \<lparr>Lf_toks = map tok (AB_refresh db), Lf_sess = map sess (AB_sessions db),
     Lf_epochs = map (\<lambda>i. (ID_id i, ID_tenant_id i, ID_token_epoch i)) (AB_identities db)\<rparr>"

lemma tok_simps [simp]:
  "Tk_hash (tok r) = RT_token_hash r" "Tk_family (tok r) = RT_family_id r" "Tk_session (tok r) = RT_session_id r"
  "Tk_tenant (tok r) = RT_tenant_id r" "Tk_client (tok r) = nstr (RT_client_id r)" "Tk_status (tok r) = RT_status r"
  by (simp_all add: tok_def)

lemma sess_fields [simp]:
  "Se_id (sess s) = SS_id s" "Se_identity (sess s) = SS_identity_id s" "Se_tenant (sess s) = SS_tenant_id s"
  "Se_ended (sess s) \<longleftrightarrow> SS_revoked_at s \<noteq> None"
  by (simp_all add: sess_def)

lemma life_fields [simp]:
  "Lf_toks (life db) = map tok (AB_refresh db)" "Lf_sess (life db) = map sess (AB_sessions db)"
  "Lf_epochs (life db) = map (\<lambda>i. (ID_id i, ID_tenant_id i, ID_token_epoch i)) (AB_identities db)"
  by (simp_all add: life_def)

lemma life_Emit [simp]: "life (Emit e db) = life db"
  by (simp add: life_def Emit_def)

lemma tok_updates [simp]:
  "tok (r\<lparr>RT_status := a, RT_revoked_at := b\<rparr>) = (tok r)\<lparr>Tk_status := a\<rparr>"
  "tok (consume now r) = (tok r)\<lparr>Tk_status := ''consumed''\<rparr>"
  "tok (r\<lparr>RT_successor_id := c\<rparr>) = tok r"
  by (simp_all add: tok_def consume_def)

lemma life_revoke_where:
  assumes "\<And>r. P r \<longleftrightarrow> Q (tok r)"
  shows "life (revoke_where now P db) = set_status Q ''revoked'' (life db)"
  by (simp add: life_def revoke_where_def set_status_def restate_def assms)

lemma life_end_where:
  assumes "\<And>s. P s \<longleftrightarrow> Q (sess s)"
  shows "life (end_where now reason P db) = set_ended Q (life db)"
  by (simp add: life_def end_where_def set_ended_def finish_def end_session_def assms sess_def)

lemma life_update_sessions [simp]:
  "(\<And>s. sess (f s) = sess s) \<Longrightarrow> life (update_sessions P f db) = life db"
  by (simp add: life_def update_sessions_def)

lemma life_update_identities:
  "(\<And>i. (ID_id (f i), ID_tenant_id (f i), ID_token_epoch (f i)) = (ID_id i, ID_tenant_id i, ID_token_epoch i)) \<Longrightarrow>
     life (update_identities P f db) = life db"
  by (simp add: life_def update_identities_def)

lemma life_touches [simp]:
  "life (TouchSession ev s db) = life db" "life (TouchLastLogin ev i db) = life db"
  by (simp_all add: TouchSession_def TouchLastLogin_def life_update_identities sess_def)

lemma life_RevokeRefreshFamily:
  "RevokeRefreshFamily ev f db = Inr db' \<Longrightarrow> life db' = set_status (\<lambda>t. Tk_family t = f) ''revoked'' (life db)"
  by (auto simp: RevokeRefreshFamily_def run_stmt_Inr intro: life_revoke_where)

lemma life_RevokeRefreshBySessions:
  assumes "RevokeRefreshBySessions ev ids db = Inr db'"
  shows "life db' = set_status (\<lambda>t. Tk_session t \<in> set ids) ''revoked'' (life db)"
proof (cases "ids = []")
  case True
  with assms show ?thesis by (simp add: RevokeRefreshBySessions_def set_status_def restate_def life_def)
next
  case False
  with assms show ?thesis by (auto simp: RevokeRefreshBySessions_def run_stmt_Inr intro: life_revoke_where)
qed

lemma life_RevokeSession:
  "RevokeSession ev tenant s reason db = Inr (rs, db') \<Longrightarrow>
     life db' = set_ended (\<lambda>x. Se_id x = s \<and> Se_tenant x = tenant \<and> \<not> Se_ended x) (life db)"
  by (auto simp: RevokeSession_def run_stmt_Inr revocable_def intro!: life_end_where split: option.splits)

lemma life_RevokeAllSessions:
  "RevokeAllSessions ev tenant who reason db = Inr (rs, db') \<Longrightarrow>
     life db' = set_ended (\<lambda>x. Se_identity x = who \<and> Se_tenant x = tenant \<and> \<not> Se_ended x) (life db)"
  by (auto simp: RevokeAllSessions_def run_stmt_Inr revocable_all_def intro!: life_end_where)

lemma life_BumpTokenEpoch:
  "BumpTokenEpoch ev tenant who db = Inr (n, db') \<Longrightarrow> life db' = bump (\<lambda>(i, t). i = who \<and> t = tenant) (life db)"
  by (auto simp: BumpTokenEpoch_def run_stmt_Inr life_def update_identities_def bump_def is_identity_def
      split: option.splits if_splits)

lemma life_EnableDisable:
  "DisableIdentity ev tenant who db = Inr db' \<Longrightarrow> life db' = life db"
  "EnableIdentity ev tenant who db = Inr db' \<Longrightarrow> life db' = life db"
  by (auto simp: DisableIdentity_def EnableIdentity_def run_stmt_Inr life_update_identities split: if_splits)

lemma life_session_columns:
  "UpdateSessionScopes ev s scopes db = Inr db' \<Longrightarrow> life db' = life db"
  "UpgradeSessionAMR ev s amr db = Inr (t, db') \<Longrightarrow> life db' = life db"
  "SetSessionCookieHash ev s h db = Inr db' \<Longrightarrow> life db' = life db"
  by (auto simp: UpdateSessionScopes_def UpgradeSessionAMR_def SetSessionCookieHash_def run_stmt_Inr sess_def
      split: if_splits)


section \<open>Every operation keeps the contract\<close>

text \<open>A fresh 256-bit token collides with no stored hash, a fresh family id with no stored family.\<close>

definition fresh_env :: "IssuerEnv \<Rightarrow> AuthDB \<Rightarrow> bool" where
  "fresh_env ev db \<longleftrightarrow>
     (case secret_New ev 1 32 of None \<Rightarrow> True
      | Some raw \<Rightarrow> Is_hash ev (refresh_prefix @ raw) \<notin> RT_token_hash ` set (AB_refresh db)) \<and>
     (case newUUIDv7ish ev 2 (Is_clock ev) of None \<Rightarrow> True | Some f \<Rightarrow> f \<notin> RT_family_id ` set (AB_refresh db))"

lemma life_CreateRefresh:
  "CreateRefresh ev i db = Inr (n, db') \<Longrightarrow>
     life db' = add_tok \<lparr>Tk_hash = RI_TokenHash i, Tk_family = RI_FamilyID i, Tk_session = RI_SessionID i,
       Tk_tenant = RI_TenantID i, Tk_client = RI_ClientID i, Tk_status = ''active''\<rparr> (life db)"
  by (auto simp: CreateRefresh_def run_stmt_Inr life_def add_tok_def tok_def split: if_splits)

lemma life_SetRefreshSuccessor: "SetRefreshSuccessor ev a b c db = Inr db' \<Longrightarrow> life db' = life db"
  by (auto simp: SetRefreshSuccessor_def run_stmt_Inr life_def)

lemma life_link_successor: "link_successor ev from n db = Inr db' \<Longrightarrow> life db' = life db"
  by (auto simp: link_successor_def life_SetRefreshSuccessor split: option.splits)

lemma issue_refresh_Inr:
  assumes "issue_refresh ev i t db = Inr (rt, db')"
  obtains raw f g where "secret_New ev 1 32 = Some raw" "rt = refresh_prefix @ raw"
    "refresh_family ev (II_RotateFrom i) = Inr (f, g)"
    "life db' = add_tok \<lparr>Tk_hash = Is_hash ev rt, Tk_family = f, Tk_session = SV_ID (II_Session i),
       Tk_tenant = SV_TenantID (II_Session i), Tk_client = II_ClientID i, Tk_status = ''active''\<rparr> (life db)"
proof -
  from assms obtain raw f g n db1 where r: "secret_New ev 1 32 = Some raw"
    and g: "refresh_family ev (II_RotateFrom i) = Inr (f, g)"
    and c: "CreateRefresh (Is_db ev) (refresh_input ev i t (refresh_prefix @ raw) f g) db = Inr (n, db1)"
    and rt: "rt = refresh_prefix @ raw" and db': "link_successor ev (II_RotateFrom i) n db1 = Inr db'"
    by (auto simp: issue_refresh_def Let_def and_then_Inr split: option.splits)
  from that [OF r rt g] life_CreateRefresh [OF c] life_link_successor [OF db'] rt show thesis
    by (simp add: refresh_input_def)
qed

lemma Issue_Inr:
  assumes "Issue ev i db = Inr (pair, db')"
  obtains t roles scopes jti i' where
    "i' = (case II_RotateFrom i of None \<Rightarrow> i | Some c \<Rightarrow> i\<lparr>II_ClientID := RC_ClientID c\<rparr>)"
    "issue_gate ev (II_Session i) (II_ClientID i') = Inr t" "secret_New ev 0 16 = Some jti"
    "token_roles ev (II_Session i) (Tt_appID t) = Inr roles" "token_scopes ev (II_Session i) = Inr scopes"
    "sign_access ev t (token_claims ev i' t roles scopes jti) = Inr (TP_AccessToken pair)"
    "TP_ExpiresIn pair = go_quot (Tt_access t) Second"
    "if II_AccessOnly i then db' = db else issue_refresh ev i' t db = Inr (TP_RefreshToken pair, db')"
proof -
  let ?i = "case II_RotateFrom i of None \<Rightarrow> i | Some c \<Rightarrow> i\<lparr>II_ClientID := RC_ClientID c\<rparr>"
  have only: "II_AccessOnly ?i = II_AccessOnly i" by (simp split: option.split)
  from assms obtain t roles scopes jti access where
    "issue_gate ev (II_Session i) (II_ClientID ?i) = Inr t" "secret_New ev 0 16 = Some jti"
    "token_roles ev (II_Session i) (Tt_appID t) = Inr roles" "token_scopes ev (II_Session i) = Inr scopes"
    "sign_access ev t (token_claims ev ?i t roles scopes jti) = Inr access"
    "if II_AccessOnly i then db' = db \<and> TP_AccessToken pair = access \<and> TP_ExpiresIn pair = go_quot (Tt_access t) Second
     else issue_refresh ev ?i t db = Inr (TP_RefreshToken pair, db') \<and> TP_AccessToken pair = access \<and>
       TP_ExpiresIn pair = go_quot (Tt_access t) Second"
    unfolding Issue_def Let_def only
    by (auto simp: and_then_Inr split: option.splits if_splits)
  then show thesis by (intro that [OF refl]) (auto split: if_splits)
qed


lemma find_SomeD: "find P xs = Some x \<Longrightarrow> x \<in> set xs \<and> P x"
  by (auto simp: find_Some_iff in_set_conv_nth)

lemma identity_of_Some: "identity_of db t i = Some x \<Longrightarrow> x \<in> set (AB_identities db) \<and> ID_id x = i \<and> ID_tenant_id x = t"
  by (auto simp: identity_of_def dest: find_SomeD)

lemma join_session_Some:
  "join_session db P = Some (s, i) \<Longrightarrow>
     s \<in> set (AB_sessions db) \<and> P s \<and> identity_of db (SS_tenant_id s) (SS_identity_id s) = Some i"
  by (auto simp: join_session_def dest!: find_SomeD split: option.splits)

lemma SessionLive_Inr:
  assumes "SessionLive ev sid db = Inr view"
  obtains s i where "s \<in> set (AB_sessions db)" "SS_id s = sid" "session_live (Db_now ev) s"
    "identity_of db (SS_tenant_id s) (SS_identity_id s) = Some i" "view = session_view s i"
  using assms by (auto simp: SessionLive_def run_stmt_Inr dest!: join_session_Some split: option.splits)

lemma session_view_fields [simp]:
  "SV_ID (session_view s i) = SS_id s" "SV_TenantID (session_view s i) = SS_tenant_id s"
  "SV_IdentityID (session_view s i) = SS_identity_id s" "SV_TokenEpoch (session_view s i) = ID_token_epoch i"
  "SV_IdentityStatus (session_view s i) = ID_status i"
  by (simp_all add: session_view_def)

lemma distinct_hash_inj:
  "distinct (map RT_token_hash rs) \<Longrightarrow> r \<in> set rs \<Longrightarrow> r' \<in> set rs \<Longrightarrow> RT_token_hash r = RT_token_hash r' \<Longrightarrow> r = r'"
  by (metis distinct_map inj_onD)

lemma ClaimRefresh_Inr:
  assumes "ClaimRefresh ev h db = Inr (claim, db1)" and "life_ok (life db)"
  obtains r where "r \<in> set (AB_refresh db)" "claimable (Db_now ev) h r" "RC_SessionID claim = RT_session_id r"
    "RC_FamilyID claim = RT_family_id r" "RC_ClientID claim = nstr (RT_client_id r)"
    "RC_TenantID claim = RT_tenant_id r" "life db1 = set_status (\<lambda>t. Tk_hash t = h) ''consumed'' (life db)"
    "AB_sessions db1 = AB_sessions db" "AB_identities db1 = AB_identities db"
proof -
  from assms(1) obtain r where r: "r \<in> set (AB_refresh db)" "claimable (Db_now ev) h r"
    and c: "RC_SessionID claim = RT_session_id r" "RC_FamilyID claim = RT_family_id r"
      "RC_ClientID claim = nstr (RT_client_id r)" "RC_TenantID claim = RT_tenant_id r"
    and db1: "db1 = db\<lparr>AB_refresh := map (\<lambda>r. if claimable (Db_now ev) h r then consume (Db_now ev) r else r) (AB_refresh db)\<rparr>"
    by (auto simp: ClaimRefresh_def run_stmt_Inr dest!: find_SomeD split: option.splits)
  have "distinct (map RT_token_hash (AB_refresh db))" using assms(2) by (simp add: life_ok_def o_def)
  then have "r' = r" if "r' \<in> set (AB_refresh db)" "RT_token_hash r' = h" for r'
    using that r distinct_hash_inj [of "AB_refresh db" r' r] by (simp add: claimable_def)
  with r(2) have only: "claimable (Db_now ev) h r' \<longleftrightarrow> RT_token_hash r' = h \<and> RT_status r' = ''active''"
    if "r' \<in> set (AB_refresh db)" for r'
    using that by (metis claimable_def)
  then have "tok (if claimable (Db_now ev) h r' then consume (Db_now ev) r' else r') = restate (\<lambda>t. Tk_hash t = h) ''consumed'' (tok r')"
    if "r' \<in> set (AB_refresh db)" for r'
    using that by (simp add: restate_def)
  then have "life db1 = set_status (\<lambda>t. Tk_hash t = h) ''consumed'' (life db)"
    unfolding db1 by (simp add: life_def set_status_def)
  with that [OF r c] db1 show thesis by simp
qed

lemma rotate_exchange:
  assumes "rotate_tx ev h db = Inr (pair, db')" and ok: "life_ok (life db)" and fresh: "fresh_env ev db"
  shows "life_step (life db) (life db') \<and> spent h (life db') \<and> Is_hash ev (TP_RefreshToken pair) \<in> Tk_hash ` set (Lf_toks (life db'))"
proof -
  from assms(1) obtain claim db1 view db2 and tenant :: TenantRef where
    c: "ClaimRefresh (Is_db ev) h db = Inr (claim, db1)"
    and v: "SessionLive (Is_db ev) (RC_SessionID claim) db1 = Inr view"
    and i: "Issue ev \<lparr>II_Session = view, II_TenantSlug = Tn_Slug tenant, II_ClientID = [],
      II_RotateFrom = Some claim, II_AccessOnly = False\<rparr> db1 = Inr (pair, db2)"
    and "db' = TouchSession (Is_db ev) (SV_ID view) db2"
    by (auto simp: rotate_tx_def split: sum.splits)
  then have db': "life db' = life db2" by simp
  from c ok obtain r where r: "r \<in> set (AB_refresh db)" "claimable (Db_now (Is_db ev)) h r"
      "RC_SessionID claim = RT_session_id r" "RC_FamilyID claim = RT_family_id r" "RC_ClientID claim = nstr (RT_client_id r)"
    and l1: "life db1 = set_status (\<lambda>t. Tk_hash t = h) ''consumed'' (life db)" "AB_sessions db1 = AB_sessions db"
    by (rule ClaimRefresh_Inr)
  from v obtain s id where s: "s \<in> set (AB_sessions db1)" "SS_id s = RC_SessionID claim"
      "session_live (Db_now (Is_db ev)) s" "view = session_view s id"
    by (rule SessionLive_Inr)
  from i obtain t where t: "issue_refresh ev \<lparr>II_Session = view, II_TenantSlug = Tn_Slug tenant,
      II_ClientID = RC_ClientID claim, II_RotateFrom = Some claim, II_AccessOnly = False\<rparr> t db1
      = Inr (TP_RefreshToken pair, db2)"
    by (elim Issue_Inr) simp
  then obtain raw where raw: "secret_New ev 1 32 = Some raw" "TP_RefreshToken pair = refresh_prefix @ raw"
    and l2: "life db2 = add_tok ((tok r)\<lparr>Tk_hash := Is_hash ev (TP_RefreshToken pair), Tk_tenant := Se_tenant (sess s)\<rparr>) (life db1)"
    using r s by (elim issue_refresh_Inr) (auto simp: refresh_family_def tok_def claimable_def)
  have tr: "Tk_hash (tok r) = h" "Tk_status (tok r) = ''active''" using r by (simp_all add: claimable_def)
  have "life_step (life db) (add_tok ((tok r)\<lparr>Tk_hash := Is_hash ev (TP_RefreshToken pair), Tk_tenant := Se_tenant (sess s)\<rparr>)
      (set_status (\<lambda>u. Tk_hash u = Tk_hash (tok r)) ''consumed'' (life db)))"
    using r s l1 tr fresh raw
    by (intro life_step.exchange) (auto simp: session_live_def fresh_env_def image_image)
  moreover have "spent h (life db')"
  proof -
    from fresh raw r tr have "Is_hash ev (TP_RefreshToken pair) \<noteq> h" by (auto simp: fresh_env_def)
    with r(1) tr show ?thesis unfolding db' l2 l1(1) by (auto simp: spent_def image_iff)
  qed
  ultimately show ?thesis unfolding db' l2 l1(1) tr(1) by simp
qed


text \<open>The operations that write sessions and tokens, each with whatever it meets.\<close>

inductive auth_trans :: "AuthDB \<Rightarrow> AuthDB \<Rightarrow> bool" where
  sign_in: "fresh_env ev db \<Longrightarrow> auth_trans db (fst (Establish ev tenant realm who client fp amr db))"
| refresh: "fresh_env ev db \<Longrightarrow> auth_trans db (fst (Refresh_Execute ev token db))"
| revoke: "auth_trans db (fst (Revoke_Execute ev sid_tid token db))"
| logout: "auth_trans db (fst (Logout_Execute ev ctx db))"
| logout_session: "auth_trans db (fst (LogoutSession_Execute ev ctx sid db))"
| logout_all: "auth_trans db (fst (LogoutAll_Execute ev bc ctx db))"
| disable: "auth_trans db (fst (AdminDisableIdentity ev guard who reason db))"
| enable: "auth_trans db (fst (AdminEnableIdentity ev guard who db))"
| bump_epoch: "auth_trans db (fst (AdminBumpTokenEpoch ev guard who db))"
| switch_scope: "auth_trans db (fst (SwitchScope_Execute ev sw ctx new_scopes db))"
| step_up: "UpgradeSessionAMR dbenv sid amr db = Inr (at, db') \<Longrightarrow> auth_trans db db'"
| cookie: "SetSessionCookieHash dbenv sid hash db = Inr db' \<Longrightarrow> auth_trans db db'"

lemmas life_writes =
  life_RevokeRefreshFamily life_RevokeRefreshBySessions life_RevokeSession life_RevokeAllSessions life_BumpTokenEpoch
  life_EnableDisable life_session_columns

lemma one_step: "life_step L L' \<Longrightarrow> life_steps L L'"
  by blast

lemma steps_Family: "RevokeRefreshFamily ev f db = Inr db' \<Longrightarrow> life_steps (life db) (life db')"
  by (drule life_RevokeRefreshFamily) (simp add: one_step life_step.revoked)

lemma steps_BySessions: "RevokeRefreshBySessions ev ids db = Inr db' \<Longrightarrow> life_steps (life db) (life db')"
  by (drule life_RevokeRefreshBySessions) (simp add: one_step life_step.revoked)

lemma steps_Session: "RevokeSession ev tenant s reason db = Inr (rs, db') \<Longrightarrow> life_steps (life db) (life db')"
  by (drule life_RevokeSession) (simp add: one_step life_step.ended)

lemma steps_AllSessions: "RevokeAllSessions ev tenant s reason db = Inr (rs, db') \<Longrightarrow> life_steps (life db) (life db')"
  by (drule life_RevokeAllSessions) (simp add: one_step life_step.ended)

lemma steps_Bump: "BumpTokenEpoch ev tenant who db = Inr (n, db') \<Longrightarrow> life_steps (life db) (life db')"
  by (drule life_BumpTokenEpoch) (simp add: one_step life_step.bumped)

lemma steps_everywhere:
  assumes "revoke_everywhere ev tenant who reason db = Inr (rs, db')"
  shows "life_steps (life db) (life db')"
proof -
  from assms obtain db1 db2 n where a: "RevokeAllSessions ev tenant who reason db = Inr (rs, db1)"
    and b: "(if rs \<noteq> [] then RevokeRefreshBySessions ev (map RV_ID rs) db1 else Inr db1) = Inr db2"
    and c: "BumpTokenEpoch ev tenant who db2 = Inr (n, db')"
    by (auto simp: revoke_everywhere_def and_then_Inr)
  from b have "life_steps (life db1) (life db2)" by (cases "rs = []") (auto dest: steps_BySessions)
  with steps_AllSessions [OF a] steps_Bump [OF c] show ?thesis by (meson rtranclp_trans)
qed

lemma steps_contain:
  assumes "contain ev info db = (c, db')"
  shows "life_steps (life db) (life db')"
proof -
  let ?f = "case RevokeRefreshFamily ev (RF_FamilyID info) db of Inl e \<Rightarrow> (False, db) | Inr db' \<Rightarrow> (True, db')"
  have f: "life_steps (life db) (life (snd ?f))" by (auto dest: steps_Family split: sum.split)
  moreover from assms have "life_steps (life (snd ?f)) (life db')"
    by (cases ?f) (auto simp: contain_def dest!: steps_Session steps_BySessions split: sum.splits intro: rtranclp_trans)
  ultimately show ?thesis by (rule rtranclp_trans)
qed

lemma steps_Establish:
  assumes "Establish_tx ev tenant realm who client fp amr db = Inr (pair, db')" and fresh: "fresh_env ev db"
  shows "life_steps (life db) (life db')"
proof -
  let ?in = "\<lparr>SN_IdentityID = who, SN_TenantID = Tn_ID tenant, SN_ApplicationID = [], SN_AMR = amr, SN_DeviceFP = fp,
    SN_IP = Is_ip ev, SN_UserAgent = Is_userAgent ev, SN_ActiveScopes = ''{}'',
    SN_ExpiresAt = Is_clock ev + Rm_SessionTTL realm\<rparr>"
  from assms(1) obtain sid db1 view where c: "CreateSession (Is_db ev) ?in db = Inr (sid, db1)"
    and v: "SessionLive (Is_db ev) sid db1 = Inr view"
    and i: "Issue ev \<lparr>II_Session = view, II_TenantSlug = Tn_Slug tenant, II_ClientID = client,
      II_RotateFrom = None, II_AccessOnly = False\<rparr> db1 = Inr (pair, db')"
    by (auto simp: Establish_tx_def split: sum.splits)
  from c have l1: "life db1 = add_sess \<lparr>Se_id = sid, Se_identity = who, Se_tenant = Tn_ID tenant, Se_ended = False\<rparr> (life db)"
    and sid: "sid \<notin> SS_id ` set (AB_sessions db)" and r1: "AB_refresh db1 = AB_refresh db"
    by (auto simp: CreateSession_def run_stmt_Inr life_def add_sess_def sess_def list_ex_iff split: if_splits)
  have "life_step (life db) (life db1)"
    unfolding l1 using sid by (intro life_step.opened) (simp add: image_image)
  moreover from v obtain s i where s: "s \<in> set (AB_sessions db1)" "session_live (Db_now (Is_db ev)) s" "view = session_view s i"
    by (rule SessionLive_Inr)
  from i obtain t where "issue_refresh ev \<lparr>II_Session = view, II_TenantSlug = Tn_Slug tenant, II_ClientID = client,
      II_RotateFrom = None, II_AccessOnly = False\<rparr> t db1 = Inr (TP_RefreshToken pair, db')"
    by (elim Issue_Inr) simp
  then obtain raw f g where "secret_New ev 1 32 = Some raw" "refresh_family ev None = Inr (f, g)"
    and l2: "life db' = add_tok \<lparr>Tk_hash = Is_hash ev (refresh_prefix @ raw), Tk_family = f, Tk_session = Se_id (sess s),
       Tk_tenant = Se_tenant (sess s), Tk_client = client, Tk_status = ''active''\<rparr> (life db1)"
    using s by (elim issue_refresh_Inr) simp
  with fresh have "Is_hash ev (refresh_prefix @ raw) \<notin> RT_token_hash ` set (AB_refresh db1)" "f \<notin> RT_family_id ` set (AB_refresh db1)"
    by (auto simp: fresh_env_def refresh_family_def r1 split: option.splits)
  with s have "life_step (life db1) (life db')"
    unfolding l2 by (intro life_step.family) (auto simp: session_live_def)
  ultimately show ?thesis by (meson rtranclp.rtrancl_into_rtrancl r_into_rtranclp)
qed


lemma steps_respond: "respondToFailedClaim ev h db = (db', e) \<Longrightarrow> life_steps (life db) (life db')"
  by (auto simp: respondToFailedClaim_def dest: steps_contain split: sum.splits option.splits if_splits prod.splits)

lemma steps_Refresh:
  assumes ok: "life_ok (life db)" and fresh: "fresh_env ev db"
  shows "life_steps (life db) (life (fst (Refresh_Execute ev token db)))"
proof (cases rule: WithinTx_cases [of "Is_db ev" "rotate_tx ev (Is_hash ev (TrimSpace token))" "RefreshErr ErrInternal" db])
  case (rolled e)
  then show ?thesis
    by (auto simp: Refresh_Execute_def Let_def dest: steps_respond steps_Family
        split: refresh_err.split sum.split prod.split)
next
  case (committed pair db')
  with rotate_exchange [OF committed(1) ok fresh] show ?thesis by (auto simp: Refresh_Execute_def Let_def one_step)
qed

lemma steps_revoke_refresh: "life_steps (life db) (life (fst (revoke_refresh ev info db)))"
  by (auto simp: revoke_refresh_def auditRevokeFailed_def dest!: steps_Family steps_Session steps_BySessions
      split: sum.splits intro: rtranclp_trans)

lemma steps_revoke_access: "life_steps (life db) (life (revoke_access ev sid_tid token db))"
  by (auto simp: revoke_access_def dest!: steps_Session steps_BySessions
      split: sum.splits option.splits prod.splits intro: rtranclp_trans)

lemma steps_Revoke: "life_steps (life db) (life (fst (Revoke_Execute ev sid_tid token db)))"
  by (simp add: Revoke_Execute_def Let_def steps_revoke_refresh steps_revoke_access split: sum.split option.split)

text \<open>A transaction moves the contract exactly when its body does.\<close>

lemma steps_WithinTx:
  assumes "\<And>x db'. fn db = Inr (x, db') \<Longrightarrow> life_steps (life db) (life db')"
  shows "life_steps (life db) (life (fst (WithinTx ev fn e db)))"
  by (cases rule: WithinTx_cases [of ev fn e db]) (auto dest: assms)

lemma life_fst_commit:
  "(\<And>db x. life (fst (f (db, x))) = life db) \<Longrightarrow> life (fst (f r)) = life (fst r)"
  by (cases r) simp

lemma steps_revokeOne_tx: "revokeOne_tx ev p sid reason db = Inr (u, db') \<Longrightarrow> life_steps (life db) (life db')"
  by (auto simp: revokeOne_tx_def dest!: steps_Session steps_BySessions split: sum.splits if_splits elim: rtranclp_trans)

lemma steps_revokeOne: "life_steps (life db) (life (fst (revokeOne ev p sid reason db)))"
proof -
  have "life (fst (revokeOne ev p sid reason db)) =
      life (fst (WithinTx (Is_db ev) (revokeOne_tx (Is_db ev) p sid reason) ErrInternal db))"
    unfolding revokeOne_def by (rule life_fst_commit) (simp split: sum.split)
  then show ?thesis by (auto intro!: steps_WithinTx dest: steps_revokeOne_tx)
qed

lemma steps_LogoutAll: "life_steps (life db) (life (fst (LogoutAll_Execute ev bc ctx db)))"
proof (cases ctx)
  case (Some p)
  let ?body = "\<lambda>db. wrap_internal (revoke_everywhere (Is_db ev) (Pr_TenantID p) (Pr_IdentityID p) ''logout_all'' db)"
  have "life_steps (life db) (life (fst (WithinTx (Is_db ev) ?body ErrInternal db)))"
    by (auto intro!: steps_WithinTx dest: steps_everywhere)
  with Some show ?thesis
    by (cases "WithinTx (Is_db ev) ?body ErrInternal db")
      (auto simp: LogoutAll_Execute_def logout_all_commit_def split: sum.split)
qed (simp add: LogoutAll_Execute_def logout_all_commit_def)

lemma steps_Disable: "life_steps (life db) (life (fst (AdminDisableIdentity ev guard who reason db)))"
proof (cases guard)
  case (Inr p)
  let ?body = "\<lambda>db. and_then (DisableIdentity (Is_db ev) (Pr_TenantID p) who db)
             (revoke_everywhere (Is_db ev) (Pr_TenantID p) who ''identity_disabled'')"
  have "life_steps (life db) (life (fst (WithinTx (Is_db ev) ?body ErrInternal db)))"
    by (rule steps_WithinTx) (auto simp: and_then_Inr life_EnableDisable(1) [symmetric] dest: steps_everywhere)
  with Inr show ?thesis
    by (cases "WithinTx (Is_db ev) ?body ErrInternal db") (auto simp: AdminDisableIdentity_def split: sum.split)
qed (simp add: AdminDisableIdentity_def)

lemma steps_Sign_in:
  assumes "fresh_env ev db"
  shows "life_steps (life db) (life (fst (Establish ev tenant realm who client fp amr db)))"
proof -
  have "life (fst (Establish ev tenant realm who client fp amr db)) =
      life (fst (WithinTx (Is_db ev) (Establish_tx ev tenant realm who client fp amr) ErrInternal db))"
    unfolding Establish_def by (rule life_fst_commit) (simp split: sum.split)
  with assms show ?thesis by (auto intro!: steps_WithinTx dest: steps_Establish)
qed

lemma life_switch_loop: "life (fst (switch_loop ev sw p scopes db)) = life db"
  by (induction ev sw p scopes db rule: switch_loop.induct) (auto split: sum.split option.split)

lemma life_switch_tx:
  assumes "switch_tx ev p raw db = Inr (pair, db')"
  shows "life db' = life db"
proof -
  from assms obtain db1 where u: "UpdateSessionScopes (Is_db ev) (Pr_SessionID p) raw db = Inr db1"
    and c: "(case SessionLive (Is_db ev) (Pr_SessionID p) db1 of Inl e \<Rightarrow> Inl ErrSessionRevoked
       | Inr view \<Rightarrow> Issue ev \<lparr>II_Session = view, II_TenantSlug = Pr_TenantSlug p, II_ClientID = [],
           II_RotateFrom = None, II_AccessOnly = True\<rparr> db1) = Inr (pair, db')"
    by (auto simp: switch_tx_def and_then_Inr)
  from c obtain view where i: "Issue ev \<lparr>II_Session = view, II_TenantSlug = Pr_TenantSlug p, II_ClientID = [],
      II_RotateFrom = None, II_AccessOnly = True\<rparr> db1 = Inr (pair, db')"
    by (cases "SessionLive (Is_db ev) (Pr_SessionID p) db1") auto
  from i have "db' = db1" by (elim Issue_Inr) simp
  with u show ?thesis by (simp add: life_session_columns(1))
qed

lemma steps_Switch: "life_steps (life db) (life (fst (SwitchScope_Execute ev sw ctx scopes db)))"
proof (cases ctx)
  case (Some p)
  obtain db1 r where l: "switch_loop ev sw p scopes db = (db1, r)" by fastforce
  then have "life db1 = life db" by (metis life_switch_loop fst_conv)
  moreover have "life (fst (WithinTx (Is_db ev) (switch_tx ev p (Sw_marshal sw scopes)) ErrInternal db1)) = life db1"
    by (cases rule: WithinTx_cases [of "Is_db ev" "switch_tx ev p (Sw_marshal sw scopes)" ErrInternal db1])
      (auto dest: life_switch_tx)
  ultimately show ?thesis
    using Some l
    by (cases "WithinTx (Is_db ev) (switch_tx ev p (Sw_marshal sw scopes)) ErrInternal db1")
      (auto simp: SwitchScope_Execute_def split: sum.split)
qed (simp add: SwitchScope_Execute_def)

lemma auth_refines_steps:
  "auth_trans db db' \<Longrightarrow> life_ok (life db) \<Longrightarrow> life_steps (life db) (life db')"
proof (induction rule: auth_trans.induct)
  case (enable ev guard who db)
  then show ?case by (auto simp: AdminEnableIdentity_def life_EnableDisable(2) split: sum.split)
next
  case (bump_epoch ev guard who db)
  then show ?case by (auto simp: AdminBumpTokenEpoch_def dest: steps_Bump split: sum.split)
next
  case (logout ev ctx db)
  then show ?case by (auto simp: Logout_Execute_def steps_revokeOne split: option.split)
next
  case (logout_session ev ctx sid db)
  then show ?case by (auto simp: LogoutSession_Execute_def steps_revokeOne split: option.split)
qed (simp_all add: steps_Sign_in steps_Refresh steps_Revoke steps_LogoutAll steps_Disable steps_Switch life_session_columns)

lemma life_ok_steps: "life_steps L L' \<Longrightarrow> life_ok L \<Longrightarrow> life_ok L'"
  by (induction rule: rtranclp_induct) (auto intro: life_ok_step)

lemma auth_run:
  "auth_trans\<^sup>*\<^sup>* db db' \<Longrightarrow> life_ok (life db) \<Longrightarrow> life_ok (life db') \<and> life_steps (life db) (life db')"
proof (induction rule: rtranclp_induct)
  case (step db1 db2)
  then have "life_steps (life db1) (life db2)" by (simp add: auth_refines_steps)
  with step show ?case by (auto intro: life_ok_steps)
qed simp

end
