(* ===== verification/Session_Examples.thy ===== *)
theory Session_Examples
  imports Session_Machine
begin

text \<open>
  A concrete world for the statements about sessions: a claims codec that can be computed and
  decodes what it encodes, a key, a tenant with one person, and the databases that one sign-in,
  one rotation and one sign-out leave.
\<close>

section \<open>A claims codec\<close>

definition nib :: "nat \<Rightarrow> char" where "nib n = char_of (97 + n)"
definition unnib :: "char \<Rightarrow> nat" where "unnib c = of_char c - 97"

definition hexenc :: "string \<Rightarrow> string" where
  "hexenc s = concat (map (\<lambda>c. [nib (of_char c div 16), nib (of_char c mod 16)]) s)"

fun unhexenc :: "string \<Rightarrow> string" where
  "unhexenc (a # b # s) = char_of (unnib a * 16 + unnib b) # unhexenc s"
| "unhexenc s = []"

lemma unnib_nib: "n < 16 \<Longrightarrow> unnib (nib n) = n"
  by (simp add: nib_def unnib_def)

lemma unhexenc_hexenc: "unhexenc (hexenc s) = s"
proof (induction s)
  case (Cons c s)
  have c: "(of_char c :: nat) < 256" by simp
  then have "(of_char c :: nat) div 16 < 16" by (simp only: less_mult_imp_div_less)
  then have "char_of (unnib (nib (of_char c div 16)) * 16 + unnib (nib (of_char c mod 16))) = c"
    by (simp only: unnib_nib mod_less_divisor zero_less_numeral div_mult_mod_eq char_of_char)
  with Cons show ?case by (simp add: hexenc_def)
qed (simp add: hexenc_def)

lemma nib_plain: "n < 16 \<Longrightarrow> 97 \<le> (of_char (nib n) :: nat) \<and> (of_char (nib n) :: nat) < 113"
  by (simp add: nib_def)

lemma hexenc_plain: "x \<in> set (hexenc s) \<Longrightarrow> 97 \<le> (of_char x :: nat) \<and> (of_char x :: nat) < 113"
proof -
  have "(of_char c :: nat) div 16 < 16" for c :: char
    by (rule less_mult_imp_div_less) simp
  then show "x \<in> set (hexenc s) \<Longrightarrow> ?thesis" unfolding hexenc_def by (auto intro!: nib_plain)
qed

definition enc_list :: "string list \<Rightarrow> string" where
  "enc_list xs = join_with CHR '','' (''.'' # map hexenc xs)"

definition dec_list :: "string \<Rightarrow> string list" where
  "dec_list s = map unhexenc (tl (split_on CHR '','' s))"

lemma dec_enc_list: "dec_list (enc_list xs) = xs"
proof -
  have "CHR '','' \<notin> set (hexenc x)" for x using hexenc_plain [of "CHR '',''" x] by auto
  then have "split_on CHR '','' (enc_list xs) = ''.'' # map hexenc xs"
    unfolding enc_list_def by (intro split_on_join) auto
  then show ?thesis by (simp add: dec_list_def unhexenc_hexenc o_def)
qed

lemma enc_list_plain: "CHR '';'' \<notin> set (enc_list xs)"
proof -
  have "CHR '';'' \<notin> set (hexenc x)" for x using hexenc_plain [of "CHR '';''" x] by auto
  then show ?thesis using set_join_with [of "CHR '',''" "''.'' # map hexenc xs"] by (auto simp: enc_list_def)
qed

definition enc_int :: "int \<Rightarrow> string" where
  "enc_int i = (if i < 0 then CHR ''-'' # replicate (nat (- i)) CHR ''x'' else replicate (nat i) CHR ''x'')"

definition dec_int :: "string \<Rightarrow> int" where
  "dec_int s = (if s \<noteq> [] \<and> hd s = CHR ''-'' then - int (length (tl s)) else int (length s))"

lemma dec_enc_int: "dec_int (enc_int i) = i"
  by (cases "nat i") (auto simp: dec_int_def enc_int_def)

definition enc_claims :: "Claims \<Rightarrow> string" where
  "enc_claims c = join_with CHR '';'' (map enc_list
     [[Cl_Issuer c, Cl_Subject c, enc_int (Cl_Expires c), enc_int (Cl_IssuedAt c), enc_int (Cl_NotBefore c), Cl_TokenID c,
       Cl_Session c, Cl_Tenant c, Cl_Scope c, Cl_Realm c, enc_int (Cl_IAL c), enc_int (Cl_AuthTime c),
       enc_int (Cl_Epoch c), enc_int (Cl_Version c)],
      Cl_Audience c, Cl_Roles c, map fst (Cl_Scopes c), map snd (Cl_Scopes c), Cl_AMR c])"

definition dec_claims :: "string \<Rightarrow> Claims option" where
  "dec_claims s = (case map dec_list (split_on CHR '';'' s) of
     [[iss, sub, ex, iat, nbf, jti, sid, tid, scp, rlm, ial, at, ep, ver], aud, roles, ks, vs, amr] \<Rightarrow>
       Some \<lparr>Cl_Issuer = iss, Cl_Subject = sub, Cl_Audience = aud, Cl_Expires = dec_int ex, Cl_IssuedAt = dec_int iat,
         Cl_NotBefore = dec_int nbf, Cl_TokenID = jti, Cl_Session = sid, Cl_Tenant = tid, Cl_Roles = roles,
         Cl_Scope = scp, Cl_Scopes = zip ks vs, Cl_Realm = rlm, Cl_IAL = dec_int ial, Cl_AMR = amr,
         Cl_AuthTime = dec_int at, Cl_Epoch = dec_int ep, Cl_Version = dec_int ver\<rparr>
   | _ \<Rightarrow> None)"

lemma dec_enc_claims: "dec_claims (enc_claims c) = Some c"
proof -
  have "map dec_list (split_on CHR '';'' (enc_claims c)) =
     [[Cl_Issuer c, Cl_Subject c, enc_int (Cl_Expires c), enc_int (Cl_IssuedAt c), enc_int (Cl_NotBefore c), Cl_TokenID c,
       Cl_Session c, Cl_Tenant c, Cl_Scope c, Cl_Realm c, enc_int (Cl_IAL c), enc_int (Cl_AuthTime c),
       enc_int (Cl_Epoch c), enc_int (Cl_Version c)],
      Cl_Audience c, Cl_Roles c, map fst (Cl_Scopes c), map snd (Cl_Scopes c), Cl_AMR c]"
    unfolding enc_claims_def by (subst split_on_join) (auto simp: enc_list_plain dec_enc_list)
  then show ?thesis by (simp add: dec_claims_def dec_enc_int zip_map_fst_snd)
qed

definition demo_json :: json where
  "demo_json = toy_json\<lparr>js_claims := dec_claims, js_marshal_claims := enc_claims\<rparr>"

section \<open>A person signs in\<close>

definition demo_db_env :: "time \<Rightarrow> string \<Rightarrow> DbEnv" where
  "demo_db_env now n = \<lparr>Db_now = now, Db_newid = (\<lambda>s. n), Db_fails = (\<lambda>s. False)\<rparr>"

definition demo_tenant :: TenantRef where
  "demo_tenant = \<lparr>Tn_ID = ''t1'', Tn_Slug = ''acme'', Tn_Status = ''active''\<rparr>"

definition demo_realm :: Realm where
  "demo_realm = \<lparr>Rm_ID = ''r1'', Rm_TenantID = ''t1'', Rm_Code = ''internal'', Rm_Kind = ''internal'',
     Rm_DisplayName = ''Staff'', Rm_MinAssurance = 0, Rm_SelfRegistration = False, Rm_EmailVerification = False,
     Rm_AllowedFactors = [''password'', ''totp'', ''device_key''], Rm_RequiredFactors = [''totp''], Rm_SessionTTL = 60 * Second,
     Rm_AccessTokenTTL = 5 * Second, Rm_RefreshTokenTTL = 30 * Second, Rm_PasswordPolicy = \<lparr>PP_MinLength = 3\<rparr>,
     Rm_FactorEnrolmentDeadline = zero_time\<rparr>"

definition demo_app :: ApplicationRecord where
  "demo_app = \<lparr>Ap_ID = ''a1'', Ap_Slug = ''shop'', Ap_Kind = ''web'', Ap_Status = ''active'', Ap_RedirectURIs = [],
     Ap_AllowedAudiences = [], Ap_SignIn = ''anyone'', Ap_TokenFormat = ''v4.public'', Ap_AccessTokenTTLSecs = 3,
     Ap_RefreshTokenTTLSecs = 20, Ap_IsSystem = False, Ap_ClientSecretHash = []\<rparr>"

text \<open>The random bytes of a call are all the letter \<open>c\<close>; the hash is the text itself.\<close>

definition demo_issuer :: "time \<Rightarrow> char \<Rightarrow> string \<Rightarrow> IssuerEnv" where
  "demo_issuer now c n = \<lparr>Is_issuer = ''anubis'', Is_ring = demo_ring, Is_ed = toy_ed, Is_json = demo_json,
     Is_hash = (\<lambda>s. s), Is_clock = now, Is_rand = (\<lambda>k m. Some (replicate m c)),
     Is_TenantByID = (\<lambda>t. Inr demo_tenant), Is_TenantBySlug = (\<lambda>t. Inr (Some demo_tenant)),
     Is_RealmByID = (\<lambda>r. Inr (Some demo_realm)), Is_ApplicationBySlug = (\<lambda>t a. Inr demo_app),
     Is_HoldsRoleInApp = (\<lambda>t i a. Inr True), Is_RolesForIdentity = (\<lambda>t i. Inr [''clerk'']),
     Is_RolesForIdentityInApp = (\<lambda>t i a. Inr [''clerk'']), Is_scopes = (\<lambda>s. Some []),
     Is_db = demo_db_env now n, Is_ip = ''10.0.0.1'', Is_userAgent = ''ua''\<rparr>"

definition demo_identity :: AccountRow where
  "demo_identity = \<lparr>ID_id = ''alice'', ID_tenant_id = ''t1'', ID_realm_id = Some ''r1'', ID_realm_code = Some ''internal'', ID_realm_kind = Some ''workforce'',
     ID_username = ''alice'', ID_email = None, ID_status = ''active'', ID_assurance_level = 1, ID_token_epoch = 0,
     ID_disabled_at = None, ID_anonymized_at = None, ID_last_login_at = None\<rparr>"

definition demo_db0 :: AuthDB where
  "demo_db0 = \<lparr>AB_sessions = [], AB_refresh = [], AB_identities = [demo_identity], AB_events = []\<rparr>"

text \<open>Alice has signed in to the shop at 1 and holds one live refresh token.\<close>

definition demo_session :: SessionRow where
  "demo_session = \<lparr>SS_id = ''s1'', SS_identity_id = ''alice'', SS_tenant_id = ''t1'', SS_application_id = None,
     SS_amr = [''pwd''], SS_created_at = 1, SS_last_seen_at = 1, SS_auth_time = 1, SS_expires_at = 60 * Second + 1,
     SS_revoked_at = None, SS_revoke_reason = None, SS_device_fp = None, SS_ip = None, SS_user_agent = None,
     SS_active_scopes = ''{}'', SS_cookie_hash = None\<rparr>"

definition demo_token :: RefreshRow where
  "demo_token = \<lparr>RT_id = ''k1'', RT_session_id = ''s1'', RT_tenant_id = ''t1'', RT_family_id = ''f1'', RT_generation = 0,
     RT_token_hash = ''anb_rt_one'', RT_status = ''active'', RT_expires_at = 20 * Second + 1, RT_consumed_at = None,
     RT_revoked_at = None, RT_successor_id = None, RT_bound_key = None, RT_client_id = Some ''shop''\<rparr>"

definition demo_db :: AuthDB where
  "demo_db = \<lparr>AB_sessions = [demo_session], AB_refresh = [demo_token], AB_identities = [demo_identity], AB_events = []\<rparr>"

lemma demo_db_ok: "life_ok (life demo_db)"
  by (simp add: life_ok_def demo_db_def demo_session_def demo_token_def housed_def kin_def)

lemma demo_key_pair: "key_pair toy_ed (replicate 64 CHR ''k'') (replicate 32 CHR ''p'')"
  by (simp add: key_pair_def toy_ed_def PrivateKeySize_def PublicKeySize_def SignatureSize_def)

lemma demo_json_ok: "json_ok demo_json ''ak_1''"
  by (simp add: json_ok_def demo_json_def toy_json_def Let_def maxHeaderBytes_def) code_simp

lemma demo_sign:
  assumes "0 \<le> now" and "now < 100"
  shows "\<exists>tok. sign_access (demo_issuer now c n) t cl = Inr tok"
proof -
  have "ActiveAccessAt demo_ring now = Inr demo_key"
    using assms
    by (simp add: ActiveAccessAt_def ActiveAccessPresent_def demo_ring_def demo_key_def InWindow_def Before_def IsZero_def zero_time_def)
  then show ?thesis
    using formats_agree [OF demo_key_pair demo_json_ok, of "Tt_format t = jwsFormat" "enc_claims cl"]
    by (auto simp: sign_access_def demo_issuer_def demo_key_def demo_json_def)
qed

text \<open>At 2 she exchanges it.\<close>

abbreviation demo_ev :: IssuerEnv where
  "demo_ev \<equiv> demo_issuer 2 CHR ''b'' ''k2''"

lemma demo_fresh: "fresh_env demo_ev demo_db"
  by code_simp

lemma demo_trim: "TrimSpace ''anb_rt_one'' = ''anb_rt_one''" "HasPrefix ''anb_rt_one'' refresh_prefix"
  by code_simp+

lemma demo_hash: "Is_hash (demo_issuer now c n) = (\<lambda>s. s)"
  by (simp add: demo_issuer_def)

lemma demo_ev_runs: "\<not> Db_fails (Is_db (demo_issuer now c n)) s"
  by (simp add: demo_issuer_def demo_db_env_def)

lemma demo_tenant_ev: "Is_TenantByID demo_ev x = Inr demo_tenant"
  by (simp add: demo_issuer_def)

lemma Inr_of: "\<not> isl r \<Longrightarrow> \<exists>x. r = Inr x"
  by (cases r) simp_all

lemma Issue_ok:
  assumes i': "i' = (case II_RotateFrom i of None \<Rightarrow> i | Some c \<Rightarrow> i\<lparr>II_ClientID := RC_ClientID c\<rparr>)"
    and gate: "\<not> isl (issue_gate ev (II_Session i) (II_ClientID i'))"
    and roles: "\<And>t :: Ttls. \<not> isl (token_roles ev (II_Session i) (Tt_appID t))"
    and scopes: "\<not> isl (token_scopes ev (II_Session i))" and jti: "secret_New ev 0 16 \<noteq> None"
    and sign: "\<And>t cl. \<exists>tok. sign_access ev t cl = Inr tok"
    and row: "\<And>t. issue_gate ev (II_Session i) (II_ClientID i') = Inr t \<Longrightarrow> \<not> isl (issue_refresh ev i' t db)"
    and pair: "\<not> II_AccessOnly i"
  shows "\<exists>pair db'. Issue ev i db = Inr (pair, db')"
proof -
  have only: "\<not> II_AccessOnly i'" using i' pair by (simp split: option.split)
  obtain t where t: "issue_gate ev (II_Session i) (II_ClientID i') = Inr t" using Inr_of [OF gate] by blast
  obtain x where x: "issue_refresh ev i' t db = Inr x" using Inr_of [OF row [OF t]] by blast
  obtain roles' where r: "token_roles ev (II_Session i) (Tt_appID t) = Inr roles'" using Inr_of [OF roles [of t]] by blast
  obtain sc where s: "token_scopes ev (II_Session i) = Inr sc" using Inr_of [OF scopes] by blast
  obtain j where j: "secret_New ev 0 16 = Some j" using jti by blast
  obtain tok where k: "sign_access ev t (token_claims ev i' t roles' sc j) = Inr tok" using sign by blast
  obtain rt db' where "x = (rt, db')" by (cases x)
  then show ?thesis by (simp add: Issue_def Let_def i' [symmetric] only t x r s j k)
qed

definition demo_claim :: RefreshClaim where
  "demo_claim = \<lparr>RC_ID = ''k1'', RC_SessionID = ''s1'', RC_TenantID = ''t1'', RC_FamilyID = ''f1'', RC_Generation = 0,
     RC_ExpiresAt = 20 * Second + 1, RC_ClientID = ''shop''\<rparr>"

definition demo_claimed :: AuthDB where
  "demo_claimed = demo_db\<lparr>AB_refresh := [consume 2 demo_token]\<rparr>"

definition demo_issue :: IssueInput where
  "demo_issue = \<lparr>II_Session = session_view demo_session demo_identity, II_TenantSlug = Tn_Slug demo_tenant, II_ClientID = [],
     II_RotateFrom = Some demo_claim, II_AccessOnly = False\<rparr>"

lemma demo_secrets: "secret_New (demo_issuer now c n) k m = Some (EncodeToString (replicate m c))"
  by (simp add: secret_New_def demo_issuer_def)

lemma demo_roles: "\<not> isl (token_roles (demo_issuer now c n) s a)"
  by (simp add: token_roles_def demo_issuer_def)

lemma demo_scopes: "\<not> isl (token_scopes (demo_issuer now c n) s)"
  by (simp add: token_scopes_def demo_issuer_def)

lemma demo_issue_ok: "\<exists>pair db'. Issue demo_ev demo_issue demo_claimed = Inr (pair, db')"
proof (rule Issue_ok [OF refl])
  let ?i = "case II_RotateFrom demo_issue of None \<Rightarrow> demo_issue | Some c \<Rightarrow> demo_issue\<lparr>II_ClientID := RC_ClientID c\<rparr>"
  show "\<not> isl (issue_gate demo_ev (II_Session demo_issue) (II_ClientID ?i))" by code_simp
  show "\<not> isl (issue_refresh demo_ev ?i t demo_claimed)" for t
  proof -
    have "refresh_prefix @ EncodeToString (replicate 32 CHR ''b'') \<noteq> ''anb_rt_one''" by code_simp
    then show ?thesis
      by (simp add: issue_refresh_def Let_def refresh_family_def CreateRefresh_def run_stmt_def demo_ev_runs refresh_input_def
          link_successor_def SetRefreshSuccessor_def demo_claimed_def demo_db_def consume_def demo_token_def demo_issue_def
          wrap_internal_def demo_secrets demo_hash)
  qed
qed (simp_all add: demo_roles demo_scopes demo_secrets demo_sign, simp add: demo_issue_def)

text \<open>Her own sign-in, on the empty tables.\<close>

abbreviation demo_ev0 :: IssuerEnv where
  "demo_ev0 \<equiv> demo_issuer 1 CHR ''a'' ''s1''"

definition demo_issue0 :: "string list \<Rightarrow> IssueInput" where
  "demo_issue0 amr = \<lparr>II_Session = session_view (demo_session\<lparr>SS_amr := amr, SS_ip := Some ''10.0.0.1'', SS_user_agent := Some ''ua''\<rparr>) demo_identity,
     II_TenantSlug = ''acme'', II_ClientID = ''shop'', II_RotateFrom = None, II_AccessOnly = False\<rparr>"

definition demo_opened :: "string list \<Rightarrow> AuthDB" where
  "demo_opened amr = demo_db0\<lparr>AB_sessions := [demo_session\<lparr>SS_amr := amr, SS_ip := Some ''10.0.0.1'', SS_user_agent := Some ''ua''\<rparr>]\<rparr>"

lemma demo_issue0_ok: "\<exists>pair db'. Issue demo_ev0 (demo_issue0 amr) (demo_opened amr) = Inr (pair, db')"
proof (rule Issue_ok [OF refl])
  let ?i = "case II_RotateFrom (demo_issue0 amr) of None \<Rightarrow> demo_issue0 amr | Some c \<Rightarrow> (demo_issue0 amr)\<lparr>II_ClientID := RC_ClientID c\<rparr>"
  show "\<not> isl (issue_gate demo_ev0 (II_Session (demo_issue0 amr)) (II_ClientID ?i))" by code_simp
  show "\<not> isl (issue_refresh demo_ev0 ?i t (demo_opened amr))" for t
  proof -
    have "newUUIDv7ish demo_ev0 2 (Is_clock demo_ev0) \<noteq> None" by (simp add: newUUIDv7ish_def demo_secrets Let_def)
    then show ?thesis
      by (auto simp: issue_refresh_def Let_def refresh_family_def CreateRefresh_def run_stmt_def demo_ev_runs
          link_successor_def demo_opened_def demo_db0_def wrap_internal_def demo_secrets demo_issue0_def)
  qed
qed (simp_all add: demo_roles demo_scopes demo_secrets demo_sign, simp add: demo_issue0_def)

lemma demo_establish:
  "\<exists>db1 pair. Establish demo_ev0 demo_tenant demo_realm ''alice'' ''shop'' [] amr demo_db0 = (db1, Inr pair)"
proof -
  let ?in = "\<lparr>SN_IdentityID = ''alice'', SN_TenantID = Tn_ID demo_tenant, SN_ApplicationID = [], SN_AMR = amr, SN_DeviceFP = [],
    SN_IP = Is_ip demo_ev0, SN_UserAgent = Is_userAgent demo_ev0, SN_ActiveScopes = ''{}'',
    SN_ExpiresAt = Is_clock demo_ev0 + Rm_SessionTTL demo_realm\<rparr>"
  have "CreateSession (Is_db demo_ev0) ?in demo_db0 = Inr (''s1'', demo_opened amr)" by code_simp
  moreover have "SessionLive (Is_db demo_ev0) ''s1'' (demo_opened amr) = Inr (II_Session (demo_issue0 amr))" by code_simp
  ultimately have "\<exists>pair db1. Establish_tx demo_ev0 demo_tenant demo_realm ''alice'' ''shop'' [] amr demo_db0 = Inr (pair, db1)"
    using demo_issue0_ok by (simp add: Establish_tx_def demo_issue0_def demo_tenant_def)
  then show ?thesis using demo_ev_runs by (auto simp: Establish_def WithinTx_def)
qed

text \<open>The rotation.\<close>

lemma demo_refresh: "\<exists>pair db1. Refresh_Execute demo_ev ''anb_rt_one'' demo_db = (db1, Inr pair)"
proof -
  have c: "ClaimRefresh (Is_db demo_ev) ''anb_rt_one'' demo_db = Inr (demo_claim, demo_claimed)"
    by code_simp
  have v: "SessionLive (Is_db demo_ev) (RC_SessionID demo_claim) demo_claimed = Inr (session_view demo_session demo_identity)"
    by code_simp
  from demo_issue_ok have "\<exists>pair db1. rotate_tx demo_ev ''anb_rt_one'' demo_db = Inr (pair, db1)"
    using v demo_tenant_ev by (auto simp: rotate_tx_def c demo_issue_def)
  moreover have "Is_hash demo_ev x = x" for x by (simp add: demo_issuer_def)
  ultimately show ?thesis
    using demo_ev_runs demo_trim by (auto simp: Refresh_Execute_def Let_def WithinTx_def)
qed


text \<open>A token she holds, and herself as a caller.\<close>

lemma demo_introspect: "\<exists>token. introspect_verify (demo_issuer 2 c n) token = Some demo_claims"
proof -
  obtain token where t: "Kid demo_json token = Inr ''ak_1''"
      "VerifyToken toy_ed demo_json (replicate 32 CHR ''p'') token = Inr (enc_claims demo_claims)"
    using formats_agree [OF demo_key_pair demo_json_ok, of False "enc_claims demo_claims"] by blast
  have "Lookup demo_ring ''ak_1'' = Inr demo_key" by (simp add: Lookup_def demo_ring_def demo_key_def)
  with t have "introspect_verify (demo_issuer 2 c n) token = Some demo_claims"
    by (simp add: introspect_verify_def demo_issuer_def demo_key_def demo_json_def dec_enc_claims demo_claims_def Unix_def)
  then show ?thesis ..
qed

definition demo_alice :: Principal where
  "demo_alice = \<lparr>Pr_IdentityID = ''alice'', Pr_TenantID = ''t1'', Pr_TenantSlug = ''acme'', Pr_SessionID = ''s1'',
     Pr_Realm = ''internal'', Pr_Roles = [], Pr_Scopes = [], Pr_AMR = [''pwd''], Pr_AuthTime = 1, Pr_IAL = 1, Pr_Epoch = 0,
     Pr_Audience = [''anubis''], Pr_Service = False, Pr_Platform = False, Pr_Token = []\<rparr>"

end
