(* ===== verification/Session_Safety.thy ===== *)
theory Session_Safety
  imports Session_Examples
begin

text \<open>
  What the contract of \<open>Session_Machine\<close> means for the people who hold tokens: a refresh token is
  exchanged once and a second presentation ends its family and session for good, signing out ends
  what it says it ends, the alert says truly whether a theft was contained, and what introspection
  calls active is.
\<close>

section \<open>Ended is final\<close>

lemma steps_spent: "life_steps L L' \<Longrightarrow> spent h L \<Longrightarrow> spent h L'"
  by (induction rule: rtranclp_induct) (auto intro: spent_step)

lemma steps_family_dead: "life_steps L L' \<Longrightarrow> family_dead f L \<Longrightarrow> family_dead f L'"
  by (induction rule: rtranclp_induct) (auto intro: family_dead_step)

lemma steps_session_dead: "life_steps L L' \<Longrightarrow> session_dead s L \<Longrightarrow> session_dead s L'"
  by (induction rule: rtranclp_induct) (auto intro: session_dead_step)

lemma steps_epoch_past: "life_steps L L' \<Longrightarrow> epoch_past i t n L \<Longrightarrow> epoch_past i t n L'"
  by (induction rule: rtranclp_induct) (auto intro: epoch_past_step)

text \<open>Rows are named by their hash and id.\<close>

lemma life_ok_row: "life_ok (life db) \<Longrightarrow> r \<in> set (AB_refresh db) \<Longrightarrow> r' \<in> set (AB_refresh db) \<Longrightarrow>
    RT_token_hash r = RT_token_hash r' \<Longrightarrow> r = r'"
  by (rule distinct_hash_inj) (simp_all add: life_ok_def o_def)

lemma life_ok_session: "life_ok (life db) \<Longrightarrow> s \<in> set (AB_sessions db) \<Longrightarrow> s' \<in> set (AB_sessions db) \<Longrightarrow>
    SS_id s = SS_id s' \<Longrightarrow> s = s'"
  unfolding life_ok_def by (simp add: o_def distinct_map) (meson inj_onD)

text \<open>A claim needs a live row of its hash.\<close>

lemma claim_active:
  "ClaimRefresh ev h db = Inr (claim, db1) \<Longrightarrow>
     \<exists>r\<in>set (AB_refresh db). RT_token_hash r = h \<and> RT_status r = ''active'' \<and> RC_SessionID claim = RT_session_id r \<and>
       AB_sessions db1 = AB_sessions db \<and> AB_identities db1 = AB_identities db"
  by (auto simp: ClaimRefresh_def run_stmt_Inr claimable_def dest!: find_SomeD split: option.splits)

lemma dead_session_not_live:
  "session_dead sid (life db) \<Longrightarrow> AB_sessions db1 = AB_sessions db \<Longrightarrow> SessionLive ev sid db1 \<noteq> Inr view"
  by (auto simp: session_dead_def session_live_def elim!: SessionLive_Inr)

lemma rotate_needs:
  assumes "rotate_tx ev h db = Inr (pair, db')"
  obtains r where "r \<in> set (AB_refresh db)" "RT_token_hash r = h" "RT_status r = ''active''"
    "\<not> session_dead (RT_session_id r) (life db)"
  using assms dead_session_not_live
  by (fastforce simp: rotate_tx_def dest!: claim_active split: sum.splits)

lemma Refresh_Inr:
  assumes "Refresh_Execute ev token db = (db', Inr pair)"
  shows "rotate_tx ev (Is_hash ev (TrimSpace token)) db = Inr (pair, db') \<and>
    HasPrefix (TrimSpace token) refresh_prefix \<and> length (TrimSpace token) \<le> 256 \<and> \<not> Db_fails (Is_db ev) BeginS"
  using assms
  by (auto simp: Refresh_Execute_def Let_def WithinTx_def split: if_splits sum.splits refresh_err.splits prod.splits)

lemma Refresh_refused:
  assumes "\<And>r. r \<in> set (AB_refresh db) \<Longrightarrow> RT_token_hash r = Is_hash ev (TrimSpace token) \<Longrightarrow>
      RT_status r \<noteq> ''active'' \<or> session_dead (RT_session_id r) (life db)"
  shows "\<exists>e. snd (Refresh_Execute ev token db) = Inl e"
proof (cases "Refresh_Execute ev token db")
  case (Pair db' res)
  show ?thesis
  proof (cases res)
    case (Inr pair)
    with Pair Refresh_Inr have "rotate_tx ev (Is_hash ev (TrimSpace token)) db = Inr (pair, db')" by blast
    with assms show ?thesis by (metis rotate_needs)
  qed (simp add: Pair)
qed

text \<open>A token that was exchanged is recognised as stolen whenever its row can be read.\<close>

lemma spent_claim_fails: "spent h (life db) \<Longrightarrow> \<exists>e. ClaimRefresh ev h db = Inl e"
  by (cases "ClaimRefresh ev h db") (auto simp: spent_def dest: claim_active)

lemma spent_found:
  assumes "spent h (life db)" and "life_ok (life db)"
  shows "\<exists>r\<in>set (AB_refresh db). find (\<lambda>r. RT_token_hash r = h) (AB_refresh db) = Some r \<and> RT_token_hash r = h \<and>
    (RT_status r = ''consumed'' \<or> RT_status r = ''revoked'')"
proof (cases "find (\<lambda>r. RT_token_hash r = h) (AB_refresh db)")
  case None
  with assms(1) show ?thesis by (auto simp: spent_def find_None_iff)
next
  case (Some r)
  then have r: "r \<in> set (AB_refresh db)" "RT_token_hash r = h" by (auto dest: find_SomeD)
  with assms have "RT_status r \<noteq> ''active''" "RT_status r \<in> {''active'', ''consumed'', ''revoked''}"
    by (auto simp: spent_def life_ok_def)
  with r Some show ?thesis by auto
qed

lemma spent_reuse:
  assumes "spent (Is_hash ev (TrimSpace token)) (life db)" and "life_ok (life db)"
    and "HasPrefix (TrimSpace token) refresh_prefix" and "length (TrimSpace token) \<le> 256"
    and "\<not> Db_fails (Is_db ev) BeginS" and "\<not> Db_fails (Is_db ev) GetRefreshTokenByHashS"
  shows "snd (Refresh_Execute ev token db) = Inl ErrRefreshReuse"
proof -
  from spent_claim_fails [OF assms(1)] obtain e where "ClaimRefresh (Is_db ev) (Is_hash ev (TrimSpace token)) db = Inl e" ..
  then have "WithinTx (Is_db ev) (rotate_tx ev (Is_hash ev (TrimSpace token))) (RefreshErr ErrInternal) db = (db, Inl errClaimFailed)"
    using assms(5) by (simp add: WithinTx_def rotate_tx_def)
  moreover from spent_found [OF assms(1,2)] assms(6)
  have "snd (respondToFailedClaim ev (Is_hash ev (TrimSpace token)) db) = ErrRefreshReuse"
    by (auto simp: respondToFailedClaim_def RefreshByHash_def run_stmt_def split: prod.split)
  ultimately show ?thesis
    using assms(3,4) by (auto simp: Refresh_Execute_def Let_def split: prod.split)
qed

text \<open>C8. A refresh token buys one pair, ever: once it has been exchanged, after any further sign-ins,
  rotations, revocations and sign-outs by anybody, presenting it again is refused, and refused as
  reuse whenever the database can be asked about it.\<close>

theorem refresh_single_use:
  assumes "life_ok (life db)" and "fresh_env ev db" and "Refresh_Execute ev token db = (db1, Inr pair)"
    and "auth_trans\<^sup>*\<^sup>* db1 db2" and "Is_hash ev2 = Is_hash ev"
  shows "(\<exists>e. snd (Refresh_Execute ev2 token db2) = Inl e) \<and>
    (\<not> Db_fails (Is_db ev2) BeginS \<and> \<not> Db_fails (Is_db ev2) GetRefreshTokenByHashS \<longrightarrow>
       snd (Refresh_Execute ev2 token db2) = Inl ErrRefreshReuse)"
proof -
  let ?h = "Is_hash ev (TrimSpace token)"
  from Refresh_Inr [OF assms(3)] have r: "rotate_tx ev ?h db = Inr (pair, db1)"
    and shape: "HasPrefix (TrimSpace token) refresh_prefix" "length (TrimSpace token) \<le> 256" by blast+
  from rotate_exchange [OF r assms(1,2)] have s: "life_step (life db) (life db1)" "spent ?h (life db1)" by blast+
  with assms(1) have "life_ok (life db1)" by (blast intro: life_ok_step)
  from auth_run [OF assms(4) this] s(2) have ok: "life_ok (life db2)" "spent ?h (life db2)"
    by (auto intro: steps_spent)
  with assms(5) have "\<exists>e. snd (Refresh_Execute ev2 token db2) = Inl e"
    by (intro Refresh_refused) (auto simp: spent_def)
  with spent_reuse [of ev2 token db2] ok shape assms(5) show ?thesis by simp
qed


theorem refresh_single_use_witness:
  "\<exists>db1 pair. Refresh_Execute demo_ev ''anb_rt_one'' demo_db = (db1, Inr pair) \<and>
     snd (Refresh_Execute demo_ev ''anb_rt_one'' db1) = Inl ErrRefreshReuse"
proof -
  obtain db1 pair where r: "Refresh_Execute demo_ev ''anb_rt_one'' demo_db = (db1, Inr pair)" using demo_refresh by blast
  from refresh_single_use [OF demo_db_ok demo_fresh r rtranclp.rtrancl_refl refl] r demo_ev_runs show ?thesis by auto
qed

section \<open>Theft\<close>

lemma family_dead_status: "f \<in> Tk_family ` set (Lf_toks L) \<Longrightarrow> family_dead f (set_status (\<lambda>t. Tk_family t = f) ''revoked'' L)"
  by (auto simp: family_dead_def image_iff)

lemma session_dead_ended:
  "life_ok L \<Longrightarrow> x \<in> set (Lf_sess L) \<Longrightarrow> Se_id x = s \<Longrightarrow> Se_tenant x = t \<Longrightarrow>
     session_dead s (set_ended (\<lambda>x. Se_id x = s \<and> Se_tenant x = t \<and> \<not> Se_ended x) L)"
  by (auto simp: session_dead_def life_ok_def image_iff distinct_map dest: inj_onD)

lemma session_dead_already:
  "life_ok L \<Longrightarrow> x \<in> set (Lf_sess L) \<Longrightarrow> Se_id x = s \<Longrightarrow> Se_ended x \<Longrightarrow> session_dead s L"
  by (auto simp: session_dead_def life_ok_def distinct_map dest: inj_onD)

lemma RevokeSession_dead:
  assumes "life_ok (life db)" and "x \<in> set (AB_sessions db)" and "SS_id x = s" and "SS_tenant_id x = t"
    and "\<not> Db_fails ev RevokeSessionS"
  shows "case RevokeSession ev t s reason db of Inl e \<Rightarrow> session_dead s (life db) | Inr (_, db') \<Rightarrow> session_dead s (life db')"
proof (cases "RevokeSession ev t s reason db")
  case (Inl e)
  with assms have "\<not> revocable t s x"
    by (auto simp: RevokeSession_def run_stmt_def find_None_iff split: option.splits)
  with assms have "Se_ended (sess x)" by (simp add: revocable_def)
  with assms Inl show ?thesis by (auto intro: session_dead_already [of _ "sess x"])
next
  case (Inr p)
  then obtain rs db' where p: "RevokeSession ev t s reason db = Inr (rs, db')" by (cases p) simp
  with life_RevokeSession [OF p] assms session_dead_ended [of "life db" "sess x" s t] show ?thesis by simp
qed

lemma contain_ends:
  assumes ok: "life_ok (life db)" and r: "r \<in> set (AB_refresh db)" "RF_FamilyID info = RT_family_id r"
      "RF_SessionID info = RT_session_id r" "RF_TenantID info = RT_tenant_id r"
    and runs: "\<And>s. \<not> Db_fails ev s" and c: "contain ev info db = (c, db')"
  shows "family_dead (RT_family_id r) (life db') \<and> session_dead (RT_session_id r) (life db')"
proof -
  from runs obtain db1 where f: "RevokeRefreshFamily ev (RT_family_id r) db = Inr db1"
    by (auto simp: RevokeRefreshFamily_def run_stmt_def)
  have fd: "family_dead (RT_family_id r) (life db1)"
    unfolding life_RevokeRefreshFamily [OF f] using r(1) by (intro family_dead_status) (simp add: image_image)
  have ok1: "life_ok (life db1)" using steps_Family [OF f] ok by (rule life_ok_steps)
  from ok r(1) obtain x where x: "x \<in> set (AB_sessions db)" "SS_id x = RT_session_id r" "SS_tenant_id x = RT_tenant_id r"
    by (auto simp: life_ok_def housed_def)
  moreover have "AB_sessions db1 = AB_sessions db"
    using f by (auto simp: RevokeRefreshFamily_def run_stmt_Inr revoke_where_def)
  ultimately have dead: "case RevokeSession ev (RT_tenant_id r) (RT_session_id r) ''refresh_reuse_detected'' db1 of
      Inl e \<Rightarrow> session_dead (RT_session_id r) (life db1) | Inr (_, db') \<Rightarrow> session_dead (RT_session_id r) (life db')"
    using RevokeSession_dead [OF ok1, of x] runs by simp
  have "life_steps (life db1) (life db') \<and> session_dead (RT_session_id r) (life db')"
  proof (cases "RevokeSession ev (RT_tenant_id r) (RT_session_id r) ''refresh_reuse_detected'' db1")
    case (Inl e)
    with c r f dead show ?thesis by (simp add: contain_def)
  next
    case (Inr p)
    then obtain rs db2 where p: "RevokeSession ev (RT_tenant_id r) (RT_session_id r) ''refresh_reuse_detected'' db1 = Inr (rs, db2)"
      by (cases p) simp
    from runs obtain db3 where b: "RevokeRefreshBySessions ev [RT_session_id r] db2 = Inr db3"
      by (simp add: RevokeRefreshBySessions_def run_stmt_def)
    with c r f p have "db' = db3" by (simp add: contain_def)
    moreover have "session_dead (RT_session_id r) (life db2)" using dead p by simp
    ultimately show ?thesis
      using steps_Session [OF p] steps_BySessions [OF b] by (auto intro: steps_session_dead rtranclp_trans)
  qed
  with fd show ?thesis by (blast intro: steps_family_dead)
qed

definition info_of :: "RefreshRow \<Rightarrow> RefreshInfo" where
  "info_of r = \<lparr>RF_ID = RT_id r, RF_SessionID = RT_session_id r, RF_TenantID = RT_tenant_id r,
    RF_FamilyID = RT_family_id r, RF_Status = RT_status r, RF_ExpiresAt = RT_expires_at r\<rparr>"

lemma reuse_run:
  assumes ok: "life_ok (life db)" and r: "r \<in> set (AB_refresh db)" "RT_token_hash r = Is_hash ev (TrimSpace token)"
      "RT_status r \<noteq> ''active''"
    and shape: "HasPrefix (TrimSpace token) refresh_prefix" "length (TrimSpace token) \<le> 256"
    and runs: "\<And>s. \<not> Db_fails (Is_db ev) s"
  shows "Refresh_Execute ev token db =
    (Emit (reuse_event ev (info_of r) (fst (contain (Is_db ev) (info_of r) db))) (snd (contain (Is_db ev) (info_of r) db)),
     Inl ErrRefreshReuse)"
proof -
  let ?h = "Is_hash ev (TrimSpace token)"
  have only: "r' = r" if "r' \<in> set (AB_refresh db)" "RT_token_hash r' = ?h" for r'
    using that r life_ok_row [OF ok, of r' r] by simp
  have sp: "spent ?h (life db)"
    unfolding spent_def life_fields
  proof
    show "?h \<in> Tk_hash ` set (map tok (AB_refresh db))" using r(1) by (simp add: r(2) [symmetric] image_image)
    show "\<forall>t\<in>set (map tok (AB_refresh db)). Tk_hash t = ?h \<longrightarrow> Tk_status t \<noteq> ''active''" using only r(3) by auto
  qed
  from spent_found [OF sp ok] obtain r' where "r' \<in> set (AB_refresh db)" "RT_token_hash r' = ?h"
    and r': "find (\<lambda>r. RT_token_hash r = ?h) (AB_refresh db) = Some r'"
      "RT_status r' = ''consumed'' \<or> RT_status r' = ''revoked''" by blast
  then have "r' = r" by (intro only)
  with r' have f: "find (\<lambda>r. RT_token_hash r = ?h) (AB_refresh db) = Some r"
    and st: "RT_status r = ''consumed'' \<or> RT_status r = ''revoked''" by simp_all
  from spent_claim_fails [OF sp] obtain e where "ClaimRefresh (Is_db ev) ?h db = Inl e" ..
  then have tx: "WithinTx (Is_db ev) (rotate_tx ev ?h) (RefreshErr ErrInternal) db = (db, Inl errClaimFailed)"
    using runs by (simp add: WithinTx_def rotate_tx_def)
  show ?thesis
    using tx shape f st runs
    by (simp add: Refresh_Execute_def Let_def respondToFailedClaim_def RefreshByHash_def run_stmt_def info_of_def split: prod.split)
qed

lemma reuse_ends:
  assumes ok: "life_ok (life db)" and r: "r \<in> set (AB_refresh db)" "RT_token_hash r = Is_hash ev (TrimSpace token)"
      "RT_status r \<noteq> ''active''"
    and shape: "HasPrefix (TrimSpace token) refresh_prefix" "length (TrimSpace token) \<le> 256"
    and runs: "\<And>s. \<not> Db_fails (Is_db ev) s"
  shows "snd (Refresh_Execute ev token db) = Inl ErrRefreshReuse \<and>
    family_dead (RT_family_id r) (life (fst (Refresh_Execute ev token db))) \<and>
    session_dead (RT_session_id r) (life (fst (Refresh_Execute ev token db))) \<and>
    life_steps (life db) (life (fst (Refresh_Execute ev token db)))"
proof -
  obtain c db' where c: "contain (Is_db ev) (info_of r) db = (c, db')" by fastforce
  with contain_ends [OF ok r(1) _ _ _ runs c] steps_contain [OF c] reuse_run [OF assms]
  show ?thesis by (simp add: info_of_def)
qed

text \<open>C9. Theft is contained for good: when a refresh token that is no longer live is presented (and the
  database answers), the answer is reuse, and from then on, whatever anybody does next, no token of
  its family and no token of its session is ever exchanged again.\<close>

theorem reuse_contained:
  assumes "life_ok (life db)" and "r \<in> set (AB_refresh db)" and "RT_token_hash r = Is_hash ev (TrimSpace token)"
    and "RT_status r \<noteq> ''active''" and "HasPrefix (TrimSpace token) refresh_prefix" and "length (TrimSpace token) \<le> 256"
    and "\<And>s. \<not> Db_fails (Is_db ev) s"
    and "Refresh_Execute ev token db = (db1, res)" and "auth_trans\<^sup>*\<^sup>* db1 db2"
    and "r2 \<in> set (AB_refresh db2)" and "RT_family_id r2 = RT_family_id r \<or> RT_session_id r2 = RT_session_id r"
    and "RT_token_hash r2 = Is_hash ev2 (TrimSpace token2)"
  shows "res = Inl ErrRefreshReuse \<and> (\<exists>e. snd (Refresh_Execute ev2 token2 db2) = Inl e)"
proof -
  from reuse_ends [OF assms(1-7)] assms(8) have res: "res = Inl ErrRefreshReuse"
    and dead: "family_dead (RT_family_id r) (life db1)" "session_dead (RT_session_id r) (life db1)"
    and "life_steps (life db) (life db1)" by simp_all
  from life_ok_steps [OF this(4) assms(1)] have "life_ok (life db1)" .
  from auth_run [OF assms(9) this] have ok2: "life_ok (life db2)" and "life_steps (life db1) (life db2)" by simp_all
  with dead have dead2: "family_dead (RT_family_id r) (life db2)" "session_dead (RT_session_id r) (life db2)"
    by (auto intro: steps_family_dead steps_session_dead)
  have "r' = r2" if "r' \<in> set (AB_refresh db2)" "RT_token_hash r' = Is_hash ev2 (TrimSpace token2)" for r'
    using that assms(10,12) life_ok_row [OF ok2, of r' r2] by simp
  with dead2 assms(10,11) have "\<exists>e. snd (Refresh_Execute ev2 token2 db2) = Inl e"
    by (intro Refresh_refused) (auto simp: family_dead_def)
  with res show ?thesis ..
qed


definition demo_stolen :: AuthDB where
  "demo_stolen = demo_db\<lparr>AB_refresh := [demo_token\<lparr>RT_status := ''consumed'', RT_consumed_at := Some 1\<rparr>,
     demo_token\<lparr>RT_id := ''k2'', RT_token_hash := ''anb_rt_two'', RT_generation := 1\<rparr>]\<rparr>"

lemma demo_stolen_ok: "life_ok (life demo_stolen)"
  by (simp add: life_ok_def demo_stolen_def demo_db_def demo_session_def demo_token_def housed_def kin_def)

theorem reuse_contained_witness:
  "case Refresh_Execute demo_ev ''anb_rt_one'' demo_stolen of (db1, res) \<Rightarrow>
     res = Inl ErrRefreshReuse \<and> (\<exists>e. snd (Refresh_Execute demo_ev ''anb_rt_two'' db1) = Inl e)"
proof -
  obtain db1 res where r: "Refresh_Execute demo_ev ''anb_rt_one'' demo_stolen = (db1, res)" by fastforce
  have two: "db1 = fst (Refresh_Execute demo_ev ''anb_rt_one'' demo_stolen)" using r by simp
  have "list_ex (\<lambda>r. RT_token_hash r = ''anb_rt_two'' \<and> RT_family_id r = ''f1'') (AB_refresh db1)"
    unfolding two by code_simp
  then obtain r2 where r2: "r2 \<in> set (AB_refresh db1)" "RT_token_hash r2 = ''anb_rt_two''" "RT_family_id r2 = ''f1''"
    by (auto simp: list_ex_iff)
  have "TrimSpace ''anb_rt_two'' = ''anb_rt_two''" by code_simp
  with reuse_contained [OF demo_stolen_ok _ _ _ _ _ demo_ev_runs r rtranclp.rtrancl_refl r2(1),
      of "demo_token\<lparr>RT_status := ''consumed'', RT_consumed_at := Some 1\<rparr>" demo_ev "''anb_rt_two''"] r r2 demo_trim
  show ?thesis by (simp add: demo_stolen_def demo_token_def demo_hash)
qed

text \<open>With every statement running, the flag of the alert is whether the session was still live.\<close>

lemma contain_flag:
  assumes ok: "life_ok (life db)" and r: "r \<in> set (AB_refresh db)" and runs: "\<And>s. \<not> Db_fails ev s"
  shows "fst (contain ev (info_of r) db) \<longleftrightarrow> \<not> session_dead (RT_session_id r) (life db)"
proof -
  let ?P = "revocable (RT_tenant_id r) (RT_session_id r)"
  have "find ?P (AB_sessions db) = None \<longleftrightarrow> session_dead (RT_session_id r) (life db)"
  proof -
    from ok r obtain x where x: "x \<in> set (AB_sessions db)" "SS_id x = RT_session_id r" "SS_tenant_id x = RT_tenant_id r"
      by (auto simp: life_ok_def housed_def)
    have uniq: "y = x" if "y \<in> set (AB_sessions db)" "SS_id y = RT_session_id r" for y
      using that x life_ok_session [OF ok, of y x] by simp
    have "find ?P (AB_sessions db) = None \<longleftrightarrow> SS_revoked_at x \<noteq> None"
      using x unfolding find_None_iff revocable_def by (metis uniq)
    also have "\<dots> \<longleftrightarrow> session_dead (RT_session_id r) (life db)"
      using x unfolding session_dead_def life_fields by (auto simp: image_image dest: uniq intro: rev_image_eqI)
    finally show ?thesis .
  qed
  then show ?thesis
    using runs
    by (auto simp: contain_def info_of_def RevokeRefreshFamily_def RevokeSession_def RevokeRefreshBySessions_def
        run_stmt_def revoke_where_def split: option.split sum.split)
qed

text \<open>What the alert says of a reused token: with the database answering, the \<^verbatim>\<open>contained\<close> flag of the
  \<^verbatim>\<open>token.reuse_detected\<close> event is true exactly when the session was still live when the token came in,
  although the family and the session are over in either case. A token presented after its owner
  signed out raises the alert that asks somebody to act, with nothing left to contain.\<close>

theorem reuse_alert_exact:
  assumes "life_ok (life db)" and "r \<in> set (AB_refresh db)" and "RT_token_hash r = Is_hash ev (TrimSpace token)"
    and "RT_status r \<noteq> ''active''" and "HasPrefix (TrimSpace token) refresh_prefix" and "length (TrimSpace token) \<le> 256"
    and "\<And>s. \<not> Db_fails (Is_db ev) s"
  shows "last (AB_events (fst (Refresh_Execute ev token db))) =
      reuse_event ev (info_of r) (\<not> session_dead (RT_session_id r) (life db)) \<and>
    family_dead (RT_family_id r) (life (fst (Refresh_Execute ev token db))) \<and>
    session_dead (RT_session_id r) (life (fst (Refresh_Execute ev token db)))"
  using reuse_ends [OF assms] contain_flag [OF assms(1,2,7)] by (simp add: reuse_run [OF assms] Emit_def)

theorem reuse_alert_exact_witness:
  "last (AB_events (fst (Refresh_Execute demo_ev ''anb_rt_one'' (demo_stolen\<lparr>AB_sessions := [end_session 1 ''logout'' demo_session]\<rparr>)))) =
     reuse_event demo_ev (info_of (demo_token\<lparr>RT_status := ''consumed'', RT_consumed_at := Some 1\<rparr>)) False"
proof -
  let ?db = "demo_stolen\<lparr>AB_sessions := [end_session 1 ''logout'' demo_session]\<rparr>"
  let ?r = "demo_token\<lparr>RT_status := ''consumed'', RT_consumed_at := Some 1\<rparr>"
  have "life_ok (life ?db)"
    by (simp add: life_ok_def demo_stolen_def demo_db_def demo_session_def demo_token_def end_session_def housed_def kin_def)
  moreover have "session_dead (RT_session_id ?r) (life ?db)"
    by (simp add: session_dead_def demo_token_def demo_session_def end_session_def)
  ultimately show ?thesis
    using reuse_alert_exact [of ?db ?r demo_ev "''anb_rt_one''"] demo_trim demo_ev_runs
    by (simp add: demo_stolen_def demo_token_def demo_hash)
qed

section \<open>Signing out\<close>

lemma everywhere_Inr:
  assumes "revoke_everywhere ev tenant who reason db = Inr (rs, db')"
  obtains db1 db2 n where "RevokeAllSessions ev tenant who reason db = Inr (rs, db1)"
    "life db2 = set_status (\<lambda>t. Tk_session t \<in> set (map RV_ID rs)) ''revoked'' (life db1)"
    "BumpTokenEpoch ev tenant who db2 = Inr (n, db')"
proof -
  from assms obtain db1 db2 n where a: "RevokeAllSessions ev tenant who reason db = Inr (rs, db1)"
    and b: "(if rs \<noteq> [] then RevokeRefreshBySessions ev (map RV_ID rs) db1 else Inr db1) = Inr db2"
    and c: "BumpTokenEpoch ev tenant who db2 = Inr (n, db')"
    by (auto simp: revoke_everywhere_def and_then_Inr)
  from b have "RevokeRefreshBySessions ev (map RV_ID rs) db1 = Inr db2"
    by (cases "rs = []") (simp_all add: RevokeRefreshBySessions_def)
  from that [OF a life_RevokeRefreshBySessions [OF this] c] show thesis .
qed

lemma everywhere_life:
  assumes "revoke_everywhere ev tenant who reason db = Inr (rs, db')"
  obtains P where "life db' = bump (\<lambda>(i, t). i = who \<and> t = tenant) (set_status P ''revoked''
    (set_ended (\<lambda>x. Se_identity x = who \<and> Se_tenant x = tenant \<and> \<not> Se_ended x) (life db)))"
proof -
  from assms obtain db1 db2 n where a: "RevokeAllSessions ev tenant who reason db = Inr (rs, db1)"
    and b: "life db2 = set_status (\<lambda>t. Tk_session t \<in> set (map RV_ID rs)) ''revoked'' (life db1)"
    and c: "BumpTokenEpoch ev tenant who db2 = Inr (n, db')"
    by (rule everywhere_Inr)
  from life_BumpTokenEpoch [OF c] b life_RevokeAllSessions [OF a] show thesis by (intro that) simp
qed

lemma everywhere_ends:
  assumes ok: "life_ok (life db)" and e: "revoke_everywhere ev tenant who reason db = Inr (rs, db')"
    and s: "s \<in> set (AB_sessions db)" "SS_identity_id s = who" "SS_tenant_id s = tenant"
  shows "session_dead (SS_id s) (life db')"
proof -
  from e obtain P where l: "life db' = bump (\<lambda>(i, t). i = who \<and> t = tenant) (set_status P ''revoked''
    (set_ended (\<lambda>x. Se_identity x = who \<and> Se_tenant x = tenant \<and> \<not> Se_ended x) (life db)))"
    by (rule everywhere_life)
  have "SS_revoked_at x \<noteq> None \<or> SS_identity_id x = who \<and> SS_tenant_id x = tenant"
    if "x \<in> set (AB_sessions db)" "SS_id x = SS_id s" for x
    using life_ok_session [OF ok that(1) s(1) that(2)] s by simp
  with s(1) show ?thesis unfolding l session_dead_def by (auto simp: image_image)
qed

lemma everywhere_epoch:
  assumes e: "revoke_everywhere ev tenant who reason db = Inr (rs, db')"
    and n: "\<forall>i\<in>set (AB_identities db). is_identity tenant who i \<longrightarrow> n \<le> ID_token_epoch i"
  shows "epoch_past who tenant n (life db')"
proof -
  from e obtain P where l: "life db' = bump (\<lambda>(i, t). i = who \<and> t = tenant) (set_status P ''revoked''
    (set_ended (\<lambda>x. Se_identity x = who \<and> Se_tenant x = tenant \<and> \<not> Se_ended x) (life db)))"
    by (rule everywhere_life)
  show ?thesis unfolding l epoch_past_def using n by (force simp: is_identity_def split: if_splits)
qed


lemma join_session_iff:
  assumes "life_ok (life db)"
  shows "join_session db (\<lambda>s. SS_id s = sid \<and> P s) = Some (s, i) \<longleftrightarrow>
    s \<in> set (AB_sessions db) \<and> SS_id s = sid \<and> P s \<and> identity_of db (SS_tenant_id s) (SS_identity_id s) = Some i"
    (is "?l \<longleftrightarrow> ?r")
proof
  show "?l \<Longrightarrow> ?r" by (drule join_session_Some) simp
  assume r: ?r
  let ?Q = "\<lambda>s. (SS_id s = sid \<and> P s) \<and> identity_of db (SS_tenant_id s) (SS_identity_id s) \<noteq> None"
  from r obtain s' where s': "find ?Q (AB_sessions db) = Some s'"
    by (cases "find ?Q (AB_sessions db)") (auto simp: find_None_iff)
  with r have "s' = s" using life_ok_session [OF assms, of s' s] by (auto dest: find_SomeD)
  with s' r show ?l by (simp add: join_session_def)
qed

text \<open>C34. Introspection calls a token active exactly when its signature, issuer and times verify, its tenant
  exists, and the database (answering) holds its session in that tenant: not revoked, not expired,
  of a person who is active, not disabled and not erased, and whose epoch is still the token's.\<close>

theorem introspect_exact:
  assumes "life_ok (life db)"
  shows "Introspect_Execute ev token db = Some claims \<longleftrightarrow>
    introspect_verify ev token = Some claims \<and> \<not> Db_fails (Is_db ev) GetSessionStateS \<and>
    (\<exists>tenant s i. Is_TenantBySlug ev (Cl_Tenant claims) = Inr (Some tenant) \<and>
       s \<in> set (AB_sessions db) \<and> SS_id s = Cl_Session claims \<and> SS_tenant_id s = Tn_ID tenant \<and>
       identity_of db (SS_tenant_id s) (SS_identity_id s) = Some i \<and>
       SS_revoked_at s = None \<and> Is_clock ev < SS_expires_at s \<and>
       ID_status i = ''active'' \<and> ID_disabled_at i = None \<and> ID_anonymized_at i = None \<and>
       ID_token_epoch i = Cl_Epoch claims)"
proof -
  have "Introspect_Execute ev token db = Some claims \<longleftrightarrow>
    introspect_verify ev token = Some claims \<and> \<not> Db_fails (Is_db ev) GetSessionStateS \<and>
    (\<exists>tenant s i. Is_TenantBySlug ev (Cl_Tenant claims) = Inr (Some tenant) \<and>
       join_session db (\<lambda>s. SS_id s = Cl_Session claims \<and> SS_tenant_id s = Tn_ID tenant) = Some (s, i) \<and>
       SS_revoked_at s = None \<and> After (SS_expires_at s) (Is_clock ev) \<and>
       ID_status i = ''active'' \<and> ID_disabled_at i = None \<and> ID_anonymized_at i = None \<and>
       ID_token_epoch i = Cl_Epoch claims)"
    by (auto simp: Introspect_Execute_def SessionState_def run_stmt_def split: option.splits sum.splits if_splits)
  then show ?thesis unfolding join_session_iff [OF assms] After_def by blast
qed

theorem introspect_exact_witness: "\<exists>token. Introspect_Execute demo_ev token demo_db = Some demo_claims"
proof -
  obtain token where "introspect_verify demo_ev token = Some demo_claims" using demo_introspect by blast
  with introspect_exact [OF demo_db_ok, of demo_ev token demo_claims] demo_ev_runs
  have "Introspect_Execute demo_ev token demo_db = Some demo_claims"
    by (simp add: demo_issuer_def demo_db_def demo_session_def demo_claims_def demo_tenant_def identity_of_def demo_identity_def)
  then show ?thesis ..
qed

lemma introspect_session:
  assumes "Introspect_Execute ev token db = Some claims"
  obtains s i where "s \<in> set (AB_sessions db)" "SS_id s = Cl_Session claims" "SS_revoked_at s = None"
    "i \<in> set (AB_identities db)" "ID_id i = SS_identity_id s" "ID_tenant_id i = SS_tenant_id s"
    "ID_token_epoch i = Cl_Epoch claims"
  using assms
  by (auto simp: Introspect_Execute_def SessionState_def run_stmt_def dest!: join_session_Some identity_of_Some
      split: option.splits sum.splits if_splits prod.splits)

lemma ended_for_good:
  assumes ok: "life_ok (life db1)" and run: "auth_trans\<^sup>*\<^sup>* db1 db2" and dead: "session_dead sid (life db1)"
  shows "Introspect_Execute ev token db2 = Some claims \<Longrightarrow> Cl_Session claims \<noteq> sid"
    and "r \<in> set (AB_refresh db2) \<Longrightarrow> RT_session_id r = sid \<Longrightarrow> RT_token_hash r = Is_hash ev (TrimSpace rt) \<Longrightarrow>
      \<exists>e. snd (Refresh_Execute ev rt db2) = Inl e"
proof -
  from auth_run [OF run ok] have ok2: "life_ok (life db2)" and steps: "life_steps (life db1) (life db2)" by simp_all
  from steps dead have dead2: "session_dead sid (life db2)" by (rule steps_session_dead)
  show "Introspect_Execute ev token db2 = Some claims \<Longrightarrow> Cl_Session claims \<noteq> sid"
    using dead2 by (elim introspect_session) (auto simp: session_dead_def)
  assume r: "r \<in> set (AB_refresh db2)" "RT_session_id r = sid" "RT_token_hash r = Is_hash ev (TrimSpace rt)"
  have "session_dead (RT_session_id r') (life db2)"
    if "r' \<in> set (AB_refresh db2)" "RT_token_hash r' = Is_hash ev (TrimSpace rt)" for r'
    using life_ok_row [OF ok2 that(1) r(1)] that(2) r dead2 by simp
  then show "\<exists>e. snd (Refresh_Execute ev rt db2) = Inl e" by (intro Refresh_refused) blast
qed

lemma LogoutAll_Inr:
  assumes "LogoutAll_Execute ev bc (Some p) db = (db1, notices, Inr n)"
  obtains db' revoked where "FirstParty p"
    "revoke_everywhere (Is_db ev) (Pr_TenantID p) (Pr_IdentityID p) ''logout_all'' db = Inr (revoked, db')" "life db1 = life db'"
  using assms by (auto simp: LogoutAll_Execute_def logout_all_commit_def WithinTx_Inr split: if_splits prod.splits sum.splits)

text \<open>C11. Signing out everywhere is final: after it succeeds, whatever anybody does next, no session the
  person had is called active by introspection, no refresh token of those sessions is exchanged, and
  a token of any session of theirs that introspection accepts carries a later epoch than theirs was.\<close>

theorem logout_all_final:
  assumes "life_ok (life db)" and "LogoutAll_Execute ev bc (Some p) db = (db1, notices, Inr k)" and "auth_trans\<^sup>*\<^sup>* db1 db2"
    and "s \<in> set (AB_sessions db)" and "SS_identity_id s = Pr_IdentityID p" and "SS_tenant_id s = Pr_TenantID p"
    and "\<forall>i\<in>set (AB_identities db). is_identity (Pr_TenantID p) (Pr_IdentityID p) i \<longrightarrow> n \<le> ID_token_epoch i"
  shows "(\<forall>claims. Introspect_Execute ev2 token db2 = Some claims \<longrightarrow> Cl_Session claims \<noteq> SS_id s \<and>
       (\<forall>x\<in>set (AB_sessions db2). SS_id x = Cl_Session claims \<and> SS_identity_id x = Pr_IdentityID p \<and>
          SS_tenant_id x = Pr_TenantID p \<longrightarrow> n < Cl_Epoch claims)) \<and>
    (\<forall>r\<in>set (AB_refresh db2). RT_session_id r = SS_id s \<and> RT_token_hash r = Is_hash ev2 (TrimSpace rt) \<longrightarrow>
       (\<exists>e. snd (Refresh_Execute ev2 rt db2) = Inl e))"
proof -
  from assms(2) obtain db' revoked where e: "revoke_everywhere (Is_db ev) (Pr_TenantID p) (Pr_IdentityID p) ''logout_all'' db = Inr (revoked, db')"
    and l: "life db1 = life db'" by (rule LogoutAll_Inr)
  have dead: "session_dead (SS_id s) (life db1)" using everywhere_ends [OF assms(1) e assms(4-6)] l by simp
  have past: "epoch_past (Pr_IdentityID p) (Pr_TenantID p) n (life db1)" using everywhere_epoch [OF e assms(7)] l by simp
  have ok1: "life_ok (life db1)" using life_ok_steps [OF steps_everywhere [OF e] assms(1)] l by simp
  from auth_run [OF assms(3) ok1] have ok2: "life_ok (life db2)" and steps: "life_steps (life db1) (life db2)" by simp_all
  from steps past have past2: "epoch_past (Pr_IdentityID p) (Pr_TenantID p) n (life db2)" by (rule steps_epoch_past)
  have "n < Cl_Epoch claims"
    if i: "Introspect_Execute ev2 token db2 = Some claims" and x: "x \<in> set (AB_sessions db2)" "SS_id x = Cl_Session claims"
      "SS_identity_id x = Pr_IdentityID p" "SS_tenant_id x = Pr_TenantID p" for claims x
  proof -
    from i obtain s2 i2 where s2: "s2 \<in> set (AB_sessions db2)" "SS_id s2 = Cl_Session claims"
      and i2: "i2 \<in> set (AB_identities db2)" "ID_id i2 = SS_identity_id s2" "ID_tenant_id i2 = SS_tenant_id s2"
      "ID_token_epoch i2 = Cl_Epoch claims" by (rule introspect_session)
    with x have "s2 = x" using life_ok_session [OF ok2, of s2 x] by simp
    with i2 x have "(Pr_IdentityID p, Pr_TenantID p, Cl_Epoch claims) \<in> set (Lf_epochs (life db2))"
      by (force simp: image_iff)
    with past2 show ?thesis by (simp add: epoch_past_def)
  qed
  with ended_for_good [OF ok1 assms(3) dead] show ?thesis by blast
qed


definition demo_backchannel :: Backchannel where
  "demo_backchannel = \<lparr>Bc_apps = (\<lambda>t. Inr []), Bc_marshal = (\<lambda>n. Ln_sub n)\<rparr>"

theorem logout_all_final_witness:
  "case LogoutAll_Execute demo_ev demo_backchannel (Some demo_alice) demo_db of (db1, notices, res) \<Rightarrow>
     (\<exists>n. res = Inr n) \<and> (\<exists>e. snd (Refresh_Execute demo_ev ''anb_rt_one'' db1) = Inl e)"
proof -
  let ?out = "LogoutAll_Execute demo_ev demo_backchannel (Some demo_alice) demo_db"
  obtain db1 notices res where r: "?out = (db1, notices, res)" by (cases ?out) auto
  have "\<not> isl (snd (snd ?out))" by code_simp
  with r obtain k where res: "res = Inr k" by (cases res) auto
  have "list_ex (\<lambda>r. RT_token_hash r = ''anb_rt_one'' \<and> RT_session_id r = ''s1'') (AB_refresh (fst ?out))" by code_simp
  then obtain r1 where "r1 \<in> set (AB_refresh db1)" "RT_token_hash r1 = ''anb_rt_one''" "RT_session_id r1 = ''s1''"
    using r by (auto simp: list_ex_iff)
  moreover have "\<forall>r\<in>set (AB_refresh db1). RT_session_id r = SS_id demo_session \<and>
      RT_token_hash r = Is_hash demo_ev (TrimSpace ''anb_rt_one'') \<longrightarrow> (\<exists>e. snd (Refresh_Execute demo_ev ''anb_rt_one'' db1) = Inl e)"
    using logout_all_final [OF demo_db_ok r [unfolded res] rtranclp.rtrancl_refl, of demo_session 0 demo_ev "[]" "''anb_rt_one''"]
    by (simp add: demo_db_def demo_session_def demo_alice_def demo_identity_def)
  ultimately show ?thesis using r res demo_trim by (auto simp: demo_hash demo_session_def)
qed

lemma no_live_tokens: "t \<in> set (Lf_toks (set_status P ''revoked'' L)) \<Longrightarrow> P t \<Longrightarrow> (\<And>u. P (restate P ''revoked'' u) \<longleftrightarrow> P u) \<Longrightarrow>
    Tk_status t \<noteq> ''active''"
  by (auto split: if_splits)

text \<open>One signs out one's own sessions: a sign-out of a named session that succeeds has ended a live
  session of the caller, in the caller's tenant, and every refresh token of it; one that is refused
  (somebody else's session, one already ended, a failing statement) has changed nothing at all.\<close>

theorem logout_session_own:
  assumes "life_ok (life db)" and "LogoutSession_Execute ev (Some p) sid db = (db', res)"
  shows "case res of
      Inl e \<Rightarrow> db' = db
    | Inr _ \<Rightarrow> (\<exists>s\<in>set (AB_sessions db). SS_id s = sid \<and> SS_identity_id s = Pr_IdentityID p \<and>
          SS_tenant_id s = Pr_TenantID p \<and> SS_revoked_at s = None) \<and>
        (sid = Pr_SessionID p \<or> FirstParty p) \<and> session_dead sid (life db') \<and>
        (\<forall>r\<in>set (AB_refresh db'). RT_session_id r = sid \<longrightarrow> RT_status r \<noteq> ''active'')"
proof (cases res)
  case (Inl e)
  with assms(2) show ?thesis
    by (auto simp: LogoutSession_Execute_def revokeOne_def dest: WithinTx_Inl split: if_splits prod.splits sum.splits)
next
  case (Inr u)
  with assms(2) obtain db2 where tx: "revokeOne_tx (Is_db ev) p sid ''logout_session'' db = Inr ((), db2)"
    and db': "db' = Emit (signout_event ev p sid (''auth.'' @ ''logout_session'') []) db2"
    and may: "sid = Pr_SessionID p \<or> FirstParty p"
    by (auto simp: LogoutSession_Execute_def revokeOne_def WithinTx_Inr split: if_splits prod.splits sum.splits)
  from tx obtain rs db1 where a: "RevokeSession (Is_db ev) (Pr_TenantID p) sid ''logout_session'' db = Inr (rs, db1)"
    and own: "RV_IdentityID rs = Pr_IdentityID p" and b: "RevokeRefreshBySessions (Is_db ev) [sid] db1 = Inr db2"
    by (auto simp: revokeOne_tx_def split: sum.splits if_splits)
  from a own obtain s where s: "s \<in> set (AB_sessions db)" "SS_id s = sid" "SS_identity_id s = Pr_IdentityID p"
      "SS_tenant_id s = Pr_TenantID p" "SS_revoked_at s = None"
    by (auto simp: RevokeSession_def run_stmt_Inr revocable_def dest!: find_SomeD split: option.splits)
  have "session_dead sid (life db1)"
    unfolding life_RevokeSession [OF a] using session_dead_ended [OF assms(1), of "sess s" sid "Pr_TenantID p"] s by simp
  with steps_BySessions [OF b] have "session_dead sid (life db')" unfolding db' by (simp add: steps_session_dead)
  moreover have "RT_status r \<noteq> ''active''" if "r \<in> set (AB_refresh db')" "RT_session_id r = sid" for r
    using no_live_tokens [of "tok r" "\<lambda>t. Tk_session t \<in> set [sid]" "life db1"] that
    unfolding life_RevokeRefreshBySessions [OF b, symmetric] db' by (simp add: Emit_def)
  ultimately show ?thesis using Inr s may by auto
qed

theorem logout_session_own_witness:
  "case LogoutSession_Execute demo_ev (Some (demo_alice\<lparr>Pr_IdentityID := ''eve''\<rparr>)) ''s1'' demo_db of (db1, res) \<Rightarrow>
     isl res \<and> db1 = demo_db"
proof -
  let ?eve = "demo_alice\<lparr>Pr_IdentityID := ''eve''\<rparr>"
  obtain db1 res where r: "LogoutSession_Execute demo_ev (Some ?eve) ''s1'' demo_db = (db1, res)" by fastforce
  have "isl (snd (LogoutSession_Execute demo_ev (Some ?eve) ''s1'' demo_db))" by code_simp
  with r logout_session_own [OF demo_db_ok r] show ?thesis by (cases res) auto
qed

lemma find_map_same: "(\<And>x. P (f x) \<longleftrightarrow> P x) \<Longrightarrow> find P (map f xs) = map_option f (find P xs)"
  by (induction xs) auto

lemma find_hash_revoke:
  "find (\<lambda>r. RT_token_hash r = h) (AB_refresh (revoke_where now P db)) =
     map_option (\<lambda>r. if P r \<and> RT_status r = ''active'' then r\<lparr>RT_status := ''revoked'', RT_revoked_at := Some now\<rparr> else r)
       (find (\<lambda>r. RT_token_hash r = h) (AB_refresh db))"
  unfolding revoke_where_def by (simp add: find_map_same)

lemma revoke_refresh_Inr:
  assumes ok: "life_ok (life db)" and r: "find (\<lambda>r. RT_token_hash r = h) (AB_refresh db) = Some r"
    and e: "revoke_refresh ev (info_of r) db = (db1, Inr ())"
  obtains r1 where "find (\<lambda>r. RT_token_hash r = h) (AB_refresh db1) = Some r1" "RT_session_id r1 = RT_session_id r"
    "RT_tenant_id r1 = RT_tenant_id r" "session_dead (RT_session_id r) (life db1)"
proof -
  from e obtain dba rs dbb dbc where a: "RevokeRefreshFamily (Is_db ev) (RT_family_id r) db = Inr dba"
    and b: "RevokeSession (Is_db ev) (RT_tenant_id r) (RT_session_id r) ''token_revoked'' dba = Inr (rs, dbb)"
    and c: "RevokeRefreshBySessions (Is_db ev) [RT_session_id r] dbb = Inr dbc"
    and db1: "AB_refresh db1 = AB_refresh dbc" "life db1 = life dbc"
    by (auto simp: revoke_refresh_def info_of_def Emit_def life_def split: sum.splits prod.splits)
  from a r obtain ra where ra: "find (\<lambda>r. RT_token_hash r = h) (AB_refresh dba) = Some ra"
      "RT_session_id ra = RT_session_id r" "RT_tenant_id ra = RT_tenant_id r"
    by (auto simp: RevokeRefreshFamily_def run_stmt_Inr find_hash_revoke)
  have "AB_refresh dbb = AB_refresh dba"
    using b by (auto simp: RevokeSession_def run_stmt_Inr end_where_def split: option.splits)
  with c ra obtain r1 where r1: "find (\<lambda>r. RT_token_hash r = h) (AB_refresh db1) = Some r1"
      "RT_session_id r1 = RT_session_id r" "RT_tenant_id r1 = RT_tenant_id r"
    by (auto simp: RevokeRefreshBySessions_def run_stmt_Inr find_hash_revoke db1)
  from b obtain s where s: "s \<in> set (AB_sessions dba)" "SS_id s = RT_session_id r" "SS_tenant_id s = RT_tenant_id r"
    by (auto simp: RevokeSession_def run_stmt_Inr revocable_def dest!: find_SomeD split: option.splits)
  have "session_dead (RT_session_id r) (life dbb)"
    unfolding life_RevokeSession [OF b]
    using session_dead_ended [OF life_ok_steps [OF steps_Family [OF a] ok], of "sess s"] s by simp
  with steps_BySessions [OF c] db1 have "session_dead (RT_session_id r) (life db1)" by (simp add: steps_session_dead)
  with r1 show thesis by (rule that)
qed

text \<open>Revoking a refresh token is not idempotent: after a revocation that succeeded, revoking the same
  token again (the database answering) fails with an internal error and records a failed attempt,
  because the session it ends is already ended.\<close>

theorem revoke_twice_fails:
  assumes "life_ok (life db)" and "HasPrefix (TrimSpace token) refresh_prefix"
    and "r \<in> set (AB_refresh db)" and "RT_token_hash r = Is_hash ev (TrimSpace token)"
    and "\<And>s. \<not> Db_fails (Is_db ev) s" and "Revoke_Execute ev sid_tid token db = (db1, Inr ())"
  shows "snd (Revoke_Execute ev sid_tid token db1) = Inl ErrInternal"
proof -
  let ?P = "\<lambda>r. RT_token_hash r = Is_hash ev (TrimSpace token)"
  from assms(3,4) obtain r0 where r0: "find ?P (AB_refresh db) = Some r0"
    by (cases "find ?P (AB_refresh db)") (auto simp: find_None_iff)
  with assms have "revoke_refresh ev (info_of r0) db = (db1, Inr ())"
    by (simp add: Revoke_Execute_def Let_def RefreshByHash_def run_stmt_def info_of_def)
  from revoke_refresh_Inr [OF assms(1) r0 this] obtain r1 where r1: "find ?P (AB_refresh db1) = Some r1"
    and dead: "session_dead (RT_session_id r1) (life db1)" by metis
  have "find (revocable (RT_tenant_id r1) (RT_session_id r1)) (AB_sessions db1) = None"
    using dead by (auto simp: find_None_iff revocable_def session_dead_def)
  then have "snd (revoke_refresh ev (info_of r1) db1) = Inl ErrInternal"
    using assms(5)
    by (simp add: revoke_refresh_def info_of_def RevokeRefreshFamily_def RevokeSession_def run_stmt_def revoke_where_def)
  with assms(2,5) r1 show ?thesis
    by (simp add: Revoke_Execute_def Let_def RefreshByHash_def run_stmt_def info_of_def)
qed

theorem revoke_twice_fails_witness:
  "case Revoke_Execute demo_ev (\<lambda>m. None) ''anb_rt_one'' demo_db of (db1, res) \<Rightarrow>
     res = Inr () \<and> snd (Revoke_Execute demo_ev (\<lambda>m. None) ''anb_rt_one'' db1) = Inl ErrInternal"
proof -
  obtain db1 res where r: "Revoke_Execute demo_ev (\<lambda>m. None) ''anb_rt_one'' demo_db = (db1, res)" by fastforce
  have "\<not> isl (snd (Revoke_Execute demo_ev (\<lambda>m. None) ''anb_rt_one'' demo_db))" by code_simp
  with r have res: "res = Inr ()" by (cases res) auto
  have "demo_token \<in> set (AB_refresh demo_db)" "RT_token_hash demo_token = Is_hash demo_ev (TrimSpace ''anb_rt_one'')"
    using demo_trim by (simp_all add: demo_db_def demo_token_def demo_hash)
  with revoke_twice_fails [OF demo_db_ok _ _ _ demo_ev_runs r [unfolded res]] r res demo_trim show ?thesis by simp
qed


section \<open>The whole life of a session\<close>

text \<open>C10. The operations implement the contract: from a database with no session and no token, after any
  sequence of sign-ins, rotations, revocations, sign-outs, step-ups, scope switches and
  deprovisionings, with any statements failing on the way, the database is a state of the contract
  reached by its steps: a family has at most one live token and stays with one session and one
  application, and every token's session is there, in its tenant.\<close>

theorem sessions_refine_contract:
  assumes "AB_refresh db0 = []" and "AB_sessions db0 = []" and "auth_trans\<^sup>*\<^sup>* db0 db"
  shows "life_steps (life db0) (life db) \<and> life_ok (life db)"
proof -
  from assms(1,2) have "life_ok (life db0)" by (simp add: life_ok_def)
  with auth_run [OF assms(3)] show ?thesis by simp
qed

theorem sessions_refine_contract_witness:
  "life_ok (life (fst (Establish (demo_issuer 1 CHR ''a'' ''s1'') demo_tenant demo_realm ''alice'' ''shop'' [] [''pwd''] demo_db0)))"
proof -
  have "fresh_env (demo_issuer 1 CHR ''a'' ''s1'') demo_db0"
    by (simp add: fresh_env_def demo_db0_def split: option.split)
  from auth_trans.sign_in [OF this] have "auth_trans\<^sup>*\<^sup>* demo_db0
      (fst (Establish (demo_issuer 1 CHR ''a'' ''s1'') demo_tenant demo_realm ''alice'' ''shop'' [] [''pwd''] demo_db0))" by blast
  from sessions_refine_contract [OF _ _ this] show ?thesis by (simp add: demo_db0_def)
qed

lemma stricter_le: "stricter secs ttl \<le> ttl"
  by (simp add: stricter_def Let_def)

lemma stricter_secs: "0 < secs \<Longrightarrow> secs * Second < 2 ^ 63 \<Longrightarrow> stricter secs ttl \<le> secs * Second"
  by (simp add: stricter_def Let_def int64_def)

lemma stricter_pos: "0 < ttl \<Longrightarrow> 0 < stricter secs ttl"
  by (simp add: stricter_def Let_def)

lemma realm_ttls_pos: "0 < fst (realm_ttls ev s) \<and> 0 < snd (realm_ttls ev s)"
  by (simp add: realm_ttls_def Let_def split: sum.split option.split)

lemma issue_gate_Inr:
  "issue_gate ev s client = Inr t \<Longrightarrow> ttls ev s client = Inr t \<and> SV_IdentityStatus s = ''active'' \<and>
     (\<exists>tenant. Is_TenantByID ev (SV_TenantID s) = Inr tenant \<and> Tn_Status tenant = ''active'')"
  by (auto simp: issue_gate_def and_then_Inr Serving_def split: if_splits sum.splits)

lemma quot_le: "0 < a \<Longrightarrow> a \<le> b * Second \<Longrightarrow> go_quot a Second \<le> b"
  by (simp add: go_quot_def)


lemma link_successor_row:
  assumes "link_successor ev from n db = Inr db'" and "r \<in> set (AB_refresh db)"
  shows "\<exists>r'\<in>set (AB_refresh db'). RT_token_hash r' = RT_token_hash r \<and> RT_expires_at r' = RT_expires_at r \<and>
    RT_client_id r' = RT_client_id r \<and> RT_session_id r' = RT_session_id r"
proof (cases "from")
  case None
  with assms show ?thesis by (auto simp: link_successor_def)
next
  case (Some c)
  let ?f = "\<lambda>r. if RT_id r = RC_ID c \<and> RT_expires_at r = RC_ExpiresAt c then r\<lparr>RT_successor_id := Some n\<rparr> else r"
  from assms Some have "?f r \<in> set (AB_refresh db')"
    by (auto simp: link_successor_def SetRefreshSuccessor_def run_stmt_Inr)
  then show ?thesis by (rule rev_bexI) simp
qed

lemma issue_refresh_row:
  assumes "issue_refresh ev i t db = Inr (rt, db')"
  obtains r where "r \<in> set (AB_refresh db')" "RT_token_hash r = Is_hash ev rt" "RT_expires_at r = Is_clock ev + Tt_refresh t"
    "nstr (RT_client_id r) = II_ClientID i" "RT_session_id r = SV_ID (II_Session i)"
proof -
  from assms obtain raw f g n db1 where
    c: "CreateRefresh (Is_db ev) (refresh_input ev i t (refresh_prefix @ raw) f g) db = Inr (n, db1)"
    and rt: "rt = refresh_prefix @ raw" and l: "link_successor ev (II_RotateFrom i) n db1 = Inr db'"
    by (auto simp: issue_refresh_def Let_def and_then_Inr split: option.splits)
  let ?r = "last (AB_refresh db1)"
  from c rt have r: "?r \<in> set (AB_refresh db1)" "RT_token_hash ?r = Is_hash ev rt" "RT_expires_at ?r = Is_clock ev + Tt_refresh t"
    "nstr (RT_client_id ?r) = II_ClientID i" "RT_session_id ?r = SV_ID (II_Session i)"
    by (auto simp: CreateRefresh_def run_stmt_Inr refresh_input_def split: if_splits)
  from link_successor_row [OF l r(1)] r that show thesis by auto
qed

text \<open>A lifetime an application sets, in seconds, that fits a Go duration.\<close>

definition set_secs :: "int \<Rightarrow> bool" where
  "set_secs secs \<longleftrightarrow> 0 < secs \<and> secs * Second < 2 ^ 63"

lemma Unix_mono: "t \<le> u \<Longrightarrow> Unix t \<le> Unix u"
  by (simp add: Unix_def zdiv_mono1)

lemma Unix_secs: "t \<le> now + secs * Second \<Longrightarrow> Unix t \<le> Unix now + secs"
  using Unix_mono [of t "now + secs * Second"] by (simp add: Unix_def)

text \<open>C39. Lifetimes hold, on the first issue and on every rotation. The pair is for the application the family belongs to, whoever
  the caller named. The access token is the signature of claims whose expiry, like the lifetime the answer names, lies
  no further from the clock than the population's access lifetime (or the ten-minute default), and, where the pair is for
  an application, is for that application's audience and lies no further than its access lifetime, if it sets one. Unless
  only an access token was asked for, the refresh token's row belongs to the session and the application and expires within the
  population's refresh lifetime and, if it sets one, the application's. An application sets a
  lifetime with a positive number of seconds below 2^63 nanoseconds.\<close>

theorem token_lifetimes:
  assumes "Issue ev i db = Inr (pair, db')"
    and "client = (case II_RotateFrom i of None \<Rightarrow> II_ClientID i | Some c \<Rightarrow> RC_ClientID c)"
    and "realm_ttls ev (II_Session i) = (access, refresh)" and "now = Is_clock ev"
    and "app = Is_ApplicationBySlug ev (SV_TenantID (II_Session i)) client"
  shows "(client \<noteq> [] \<longrightarrow> \<not> isl app) \<and>
    (\<exists>t claims. sign_access ev t claims = Inr (TP_AccessToken pair) \<and> Cl_IssuedAt claims = Unix now \<and>
       Cl_Session claims = SV_ID (II_Session i) \<and> Cl_Expires claims \<le> Unix (now + access) \<and> TP_ExpiresIn pair * Second \<le> access \<and>
       (\<forall>a. client \<noteq> [] \<and> app = Inr a \<longrightarrow> Cl_Audience claims = [Ap_Slug a] \<and>
          (set_secs (Ap_AccessTokenTTLSecs a) \<longrightarrow>
             Cl_Expires claims \<le> Unix now + Ap_AccessTokenTTLSecs a \<and> TP_ExpiresIn pair \<le> Ap_AccessTokenTTLSecs a))) \<and>
    (\<not> II_AccessOnly i \<longrightarrow>
      (\<exists>r\<in>set (AB_refresh db'). RT_token_hash r = Is_hash ev (TP_RefreshToken pair) \<and> nstr (RT_client_id r) = client \<and>
        RT_session_id r = SV_ID (II_Session i) \<and> RT_expires_at r \<le> now + refresh \<and>
        (\<forall>a. client \<noteq> [] \<and> app = Inr a \<and> set_secs (Ap_RefreshTokenTTLSecs a) \<longrightarrow>
           RT_expires_at r \<le> now + Ap_RefreshTokenTTLSecs a * Second)))"
proof -
  from assms(1) obtain t roles scopes jti i' where
    i': "i' = (case II_RotateFrom i of None \<Rightarrow> i | Some c \<Rightarrow> i\<lparr>II_ClientID := RC_ClientID c\<rparr>)"
    and g: "issue_gate ev (II_Session i) (II_ClientID i') = Inr t" and x: "TP_ExpiresIn pair = go_quot (Tt_access t) Second"
    and sg: "sign_access ev t (token_claims ev i' t roles scopes jti) = Inr (TP_AccessToken pair)"
    and r: "if II_AccessOnly i then db' = db else issue_refresh ev i' t db = Inr (TP_RefreshToken pair, db')"
    by (rule Issue_Inr) blast
  have cl: "II_ClientID i' = client" "II_Session i' = II_Session i"
    using assms(2) i' by (simp_all split: option.split)
  have pos: "0 < access" "0 < refresh" using realm_ttls_pos [of ev "II_Session i"] assms(3) by simp_all
  from issue_gate_Inr [OF g] cl have tt: "ttls ev (II_Session i) client = Inr t" by simp
  then have looked: "client \<noteq> [] \<longrightarrow> \<not> isl app" using assms(3,5) by (auto simp: ttls_def split: sum.splits if_splits)
  have t: "Tt_access t = stricter (Ap_AccessTokenTTLSecs a) access \<and> Tt_refresh t = stricter (Ap_RefreshTokenTTLSecs a) refresh \<and> Tt_aud t = [Ap_Slug a]"
    if "client \<noteq> []" "app = Inr a" for a
    using tt that assms(3,5) by (auto simp: ttls_def)
  have le: "0 < Tt_access t" "Tt_access t \<le> access" "Tt_refresh t \<le> refresh"
    using tt assms(3) pos stricter_le stricter_pos by (auto simp: ttls_def split: if_splits sum.splits)
  have secs: "Tt_access t \<le> Ap_AccessTokenTTLSecs a * Second" if "client \<noteq> []" "app = Inr a" "set_secs (Ap_AccessTokenTTLSecs a)" for a
    using t [OF that(1,2)] that(3) stricter_secs by (simp add: set_secs_def)
  have claims: "Cl_Expires (token_claims ev i' t roles scopes jti) = Unix (now + Tt_access t)" "Cl_IssuedAt (token_claims ev i' t roles scopes jti) = Unix now"
    "Cl_Session (token_claims ev i' t roles scopes jti) = SV_ID (II_Session i)" "Cl_Audience (token_claims ev i' t roles scopes jti) = Tt_aud t"
    by (simp_all add: token_claims_def Let_def cl assms(4))
  have "Cl_Expires (token_claims ev i' t roles scopes jti) \<le> Unix (now + access)" "TP_ExpiresIn pair * Second \<le> access"
    using le(1,2) by (simp_all add: claims(1) x Unix_mono go_quot_nonneg)
  moreover have "Cl_Audience (token_claims ev i' t roles scopes jti) = [Ap_Slug a] \<and> (set_secs (Ap_AccessTokenTTLSecs a) \<longrightarrow>
      Cl_Expires (token_claims ev i' t roles scopes jti) \<le> Unix now + Ap_AccessTokenTTLSecs a \<and> TP_ExpiresIn pair \<le> Ap_AccessTokenTTLSecs a)"
    if "client \<noteq> [] \<and> app = Inr a" for a
    using t secs that le(1) by (auto simp: claims x intro: Unix_secs quot_le)
  moreover have "\<exists>r\<in>set (AB_refresh db'). RT_token_hash r = Is_hash ev (TP_RefreshToken pair) \<and> nstr (RT_client_id r) = client \<and>
      RT_session_id r = SV_ID (II_Session i) \<and> RT_expires_at r \<le> now + refresh \<and>
      (\<forall>a. client \<noteq> [] \<and> app = Inr a \<and> set_secs (Ap_RefreshTokenTTLSecs a) \<longrightarrow> RT_expires_at r \<le> now + Ap_RefreshTokenTTLSecs a * Second)"
    if "\<not> II_AccessOnly i"
  proof -
    from r that cl assms(4) obtain row where row: "row \<in> set (AB_refresh db')" "RT_token_hash row = Is_hash ev (TP_RefreshToken pair)"
      "RT_expires_at row = now + Tt_refresh t" "nstr (RT_client_id row) = client" "RT_session_id row = SV_ID (II_Session i)"
      by (auto elim: issue_refresh_row)
    have "Tt_refresh t \<le> Ap_RefreshTokenTTLSecs a * Second" if "client \<noteq> []" "app = Inr a" "set_secs (Ap_RefreshTokenTTLSecs a)" for a
      using t [OF that(1,2)] that(3) stricter_secs by (simp add: set_secs_def)
    with row le(3) show ?thesis by (intro bexI [of _ row]) auto
  qed
  ultimately show ?thesis using looked sg claims(2,3) by blast
qed

theorem token_lifetimes_witness:
  "\<exists>pair db' t claims. Issue demo_ev demo_issue demo_claimed = Inr (pair, db') \<and> TP_ExpiresIn pair \<le> 3 \<and>
     sign_access demo_ev t claims = Inr (TP_AccessToken pair) \<and> Cl_Expires claims \<le> Unix (Is_clock demo_ev) + 3"
proof -
  obtain pair db' where i: "Issue demo_ev demo_issue demo_claimed = Inr (pair, db')" using demo_issue_ok by blast
  let ?ttls = "realm_ttls demo_ev (II_Session demo_issue)"
  have l: "Is_ApplicationBySlug demo_ev (SV_TenantID (II_Session demo_issue)) ''shop'' = Inr demo_app" by (simp add: demo_issuer_def)
  have c: "(case II_RotateFrom demo_issue of None \<Rightarrow> II_ClientID demo_issue | Some c \<Rightarrow> RC_ClientID c) = ''shop''"
    by (simp add: demo_issue_def demo_claim_def)
  have s: "set_secs (Ap_AccessTokenTTLSecs demo_app)" "Ap_AccessTokenTTLSecs demo_app = 3" by (simp_all add: set_secs_def demo_app_def)
  from token_lifetimes [OF i refl prod.collapse [symmetric, of ?ttls] refl refl, unfolded c] i l s show ?thesis by auto
qed


section \<open>Signing in, and being recognised\<close>

lemma issue_refresh_frame:
  "issue_refresh ev i t db = Inr (rt, db') \<Longrightarrow> AB_sessions db' = AB_sessions db \<and> AB_identities db' = AB_identities db"
  by (auto simp: issue_refresh_def Let_def and_then_Inr CreateRefresh_def link_successor_def SetRefreshSuccessor_def
      run_stmt_Inr split: option.splits if_splits)

text \<open>What the issuer signs with the ring's active key verifies there.\<close>

lemma signed_verifies:
  assumes "Ring_activeAccess (Is_ring ev) = Some key" and "Lookup (Is_ring ev) (Key_Kid key) = Inr key"
    and "Key_Purpose key = PurposeAccess" and "Key_Private key = Some sk"
    and "key_pair (Is_ed ev) sk (Key_Public key)" and "json_ok (Is_json ev) (Key_Kid key)"
    and "js_claims (Is_json ev) (js_marshal_claims (Is_json ev) claims) = Some claims"
    and "sign_access ev t claims = Inr access" and "Cl_Issuer claims = Is_issuer ev"
    and "Unix (Is_clock ev) \<le> Cl_Expires claims" and "Cl_NotBefore claims = Unix (Is_clock ev)"
    and "0 \<le> Is_clock ev" and "Is_clock ev < 2 ^ 62"
  shows "introspect_verify ev access = Some claims"
proof -
  let ?msg = "js_marshal_claims (Is_json ev) claims"
  from assms(1,4,8) have "issue_token (Is_ed ev) (Is_json ev) (Tt_format t = jwsFormat) sk (Key_Kid key) ?msg = Some access"
    by (auto simp: sign_access_def ActiveAccessAt_def ActiveAccessPresent_def and_then_Inr split: sum.splits option.splits if_splits)
  with formats_agree [OF assms(5,6), of "Tt_format t = jwsFormat" ?msg]
  have "Kid (Is_json ev) access = Inr (Key_Kid key)"
    "VerifyToken (Is_ed ev) (Is_json ev) (Key_Public key) access = Inr ?msg" by auto
  moreover have "int64 (Unix (Is_clock ev) - 60) = Unix (Is_clock ev) - 60"
    using assms(12,13) by (intro int64_id) (simp_all add: Unix_def)
  ultimately show ?thesis
    using assms(2,3,7,9,10,11) by (simp add: introspect_verify_def Let_def)
qed

lemma Establish_Inr:
  assumes "Establish ev tenant realm who client fp amr db = (db1, Inr pair)"
  obtains db2 where "Establish_tx ev tenant realm who client fp amr db = Inr (pair, db2)"
    "db1 = TouchLastLogin (Is_db ev) who db2"
  using assms by (auto simp: Establish_def WithinTx_Inr split: prod.splits sum.splits)

lemma CreateSession_Inr:
  assumes "CreateSession ev i db = Inr (sid, db')"
  obtains s where "AB_sessions db' = AB_sessions db @ [s]" "sid \<notin> SS_id ` set (AB_sessions db)" "SS_id s = sid"
    "SS_identity_id s = SN_IdentityID i" "SS_tenant_id s = SN_TenantID i" "SS_amr s = SN_AMR i" "SS_revoked_at s = None"
    "SS_expires_at s = SN_ExpiresAt i" "AB_identities db' = AB_identities db"
  using assms by (auto simp: CreateSession_def run_stmt_Inr list_ex_iff image_iff split: if_splits) metis

lemma Establish_tx_Inr:
  assumes "Establish_tx ev tenant realm who client fp amr db = Inr (pair, db2)"
  obtains s i t roles scopes jti where "s \<in> set (AB_sessions db2)" "SS_identity_id s = who" "SS_tenant_id s = Tn_ID tenant"
    "SS_amr s = amr" "SS_revoked_at s = None" "SS_expires_at s = Is_clock ev + Rm_SessionTTL realm"
    "identity_of db (Tn_ID tenant) who = Some i" "AB_identities db2 = AB_identities db"
    "issue_gate ev (session_view s i) client = Inr t"
    "sign_access ev t (token_claims ev \<lparr>II_Session = session_view s i, II_TenantSlug = Tn_Slug tenant, II_ClientID = client,
       II_RotateFrom = None, II_AccessOnly = False\<rparr> t roles scopes jti) = Inr (TP_AccessToken pair)"
proof -
  let ?in = "\<lparr>SN_IdentityID = who, SN_TenantID = Tn_ID tenant, SN_ApplicationID = [], SN_AMR = amr, SN_DeviceFP = fp,
    SN_IP = Is_ip ev, SN_UserAgent = Is_userAgent ev, SN_ActiveScopes = ''{}'',
    SN_ExpiresAt = Is_clock ev + Rm_SessionTTL realm\<rparr>"
  from assms obtain sid dba view where c: "CreateSession (Is_db ev) ?in db = Inr (sid, dba)"
    and v: "SessionLive (Is_db ev) sid dba = Inr view"
    and iss: "Issue ev \<lparr>II_Session = view, II_TenantSlug = Tn_Slug tenant, II_ClientID = client,
      II_RotateFrom = None, II_AccessOnly = False\<rparr> dba = Inr (pair, db2)"
    by (auto simp: Establish_tx_def split: sum.splits)
  from v obtain s i where s: "s \<in> set (AB_sessions dba)" "SS_id s = sid"
    and i: "identity_of dba (SS_tenant_id s) (SS_identity_id s) = Some i" and view: "view = session_view s i"
    by (rule SessionLive_Inr)
  from c obtain s0 where s0: "AB_sessions dba = AB_sessions db @ [s0]" "sid \<notin> SS_id ` set (AB_sessions db)"
    and row0: "SS_identity_id s0 = who" "SS_tenant_id s0 = Tn_ID tenant" "SS_amr s0 = amr" "SS_revoked_at s0 = None"
    "SS_expires_at s0 = Is_clock ev + Rm_SessionTTL realm" and ids: "AB_identities dba = AB_identities db"
    by (rule CreateSession_Inr) simp
  from s s0 have "s = s0" by auto
  with row0 have row: "SS_identity_id s = who" "SS_tenant_id s = Tn_ID tenant" "SS_amr s = amr" "SS_revoked_at s = None"
    "SS_expires_at s = Is_clock ev + Rm_SessionTTL realm" by simp_all
  from iss obtain t roles scopes jti where
    g: "issue_gate ev view client = Inr t" and r: "\<exists>i' rt. issue_refresh ev i' t dba = Inr (rt, db2)"
    and k: "sign_access ev t (token_claims ev \<lparr>II_Session = view, II_TenantSlug = Tn_Slug tenant, II_ClientID = client,
       II_RotateFrom = None, II_AccessOnly = False\<rparr> t roles scopes jti) = Inr (TP_AccessToken pair)"
    by (elim Issue_Inr) (simp, blast)
  from r have "AB_sessions db2 = AB_sessions dba" "AB_identities db2 = AB_identities dba" by (auto dest: issue_refresh_frame)
  with s row i ids g k view that show thesis by (simp add: identity_of_def)
qed

lemma identity_of_touch:
  "identity_of db t w = Some i \<Longrightarrow> \<exists>i'. identity_of (TouchLastLogin ev who db) t w = Some i' \<and> ID_status i' = ID_status i \<and>
     ID_disabled_at i' = ID_disabled_at i \<and> ID_anonymized_at i' = ID_anonymized_at i \<and> ID_token_epoch i' = ID_token_epoch i"
  by (auto simp: identity_of_def TouchLastLogin_def update_identities_def find_map_same)


text \<open>C12. Whoever has just signed in is recognised: if a sign-in succeeds for a person who is neither
  disabled nor erased, with a key pair whose active half the ring holds and a claims encoding that
  decodes, then introspecting the access token it returned (the database answering) says active,
  and names that person, that tenant and those authentication methods.\<close>

theorem sign_in_introspects:
  assumes "Ring_activeAccess (Is_ring ev) = Some key" and "Lookup (Is_ring ev) (Key_Kid key) = Inr key"
    and "Key_Purpose key = PurposeAccess" and "Key_Private key = Some sk"
    and "key_pair (Is_ed ev) sk (Key_Public key)" and "json_ok (Is_json ev) (Key_Kid key)"
    and "\<forall>c. js_claims (Is_json ev) (js_marshal_claims (Is_json ev) c) = Some c"
    and "0 \<le> Is_clock ev" and "Is_clock ev < 2 ^ 62" and "0 < Rm_SessionTTL realm"
    and "Is_TenantBySlug ev (Tn_Slug tenant) = Inr (Some tenant)" and "\<not> Db_fails (Is_db ev) GetSessionStateS"
    and "identity_of db (Tn_ID tenant) who = Some i0" and "ID_disabled_at i0 = None" and "ID_anonymized_at i0 = None"
    and "life_ok (life db)" and "fresh_env ev db"
    and "Establish ev tenant realm who client fp amr db = (db1, Inr pair)"
  shows "\<exists>claims. Introspect_Execute ev (TP_AccessToken pair) db1 = Some claims \<and> Cl_Subject claims = who \<and>
    Cl_Tenant claims = Tn_Slug tenant \<and> Cl_AMR claims = amr"
proof -
  from assms(18) obtain db2 where tx: "Establish_tx ev tenant realm who client fp amr db = Inr (pair, db2)"
    and db1: "db1 = TouchLastLogin (Is_db ev) who db2" by (rule Establish_Inr)
  from tx obtain s i t roles scopes jti where s: "s \<in> set (AB_sessions db2)" "SS_identity_id s = who"
      "SS_tenant_id s = Tn_ID tenant" "SS_amr s = amr" "SS_revoked_at s = None" "SS_expires_at s = Is_clock ev + Rm_SessionTTL realm"
    and i: "identity_of db (Tn_ID tenant) who = Some i" and ids: "AB_identities db2 = AB_identities db"
    and g: "issue_gate ev (session_view s i) client = Inr t"
    and k: "sign_access ev t (token_claims ev \<lparr>II_Session = session_view s i, II_TenantSlug = Tn_Slug tenant,
       II_ClientID = client, II_RotateFrom = None, II_AccessOnly = False\<rparr> t roles scopes jti) = Inr (TP_AccessToken pair)"
    by (rule Establish_tx_Inr)
  define claims where "claims = token_claims ev \<lparr>II_Session = session_view s i, II_TenantSlug = Tn_Slug tenant,
       II_ClientID = client, II_RotateFrom = None, II_AccessOnly = False\<rparr> t roles scopes jti"
  have ttl: "0 < Tt_access t"
    using issue_gate_Inr [OF g] realm_ttls_pos [of ev "session_view s i"]
    by (auto simp: ttls_def stricter_pos split: prod.splits if_splits sum.splits)
  have "introspect_verify ev (TP_AccessToken pair) = Some claims"
    using assms(7) k ttl
    by (intro signed_verifies [OF assms(1-6) _ _ _ _ _ assms(8,9)])
      (auto simp: claims_def token_claims_def Let_def Unix_def intro: zdiv_mono1)
  moreover have "ID_status i = ''active''" using issue_gate_Inr [OF g] by simp
  moreover obtain i1 where i1: "identity_of db1 (Tn_ID tenant) who = Some i1" "ID_status i1 = ID_status i"
      "ID_disabled_at i1 = ID_disabled_at i" "ID_anonymized_at i1 = ID_anonymized_at i" "ID_token_epoch i1 = ID_token_epoch i"
    using identity_of_touch [of db2 "Tn_ID tenant" who i "Is_db ev" who] i ids unfolding db1 by (auto simp: identity_of_def)
  moreover have "i = i0" using i assms(13) by simp
  moreover have "AB_sessions db1 = AB_sessions db2" unfolding db1 by (simp add: TouchLastLogin_def update_identities_def)
  moreover have "life_ok (life db1)"
    unfolding db1 using life_ok_steps [OF steps_Establish [OF tx assms(17)] assms(16)] by simp
  ultimately have "Introspect_Execute ev (TP_AccessToken pair) db1 = Some claims"
    using s assms(10-12,14,15) by (subst introspect_exact) (auto simp: claims_def token_claims_def Let_def)
  then show ?thesis using s by (auto simp: claims_def token_claims_def Let_def session_view_def)
qed

theorem sign_in_introspects_witness:
  "\<exists>db1 pair claims. Establish demo_ev0 demo_tenant demo_realm ''alice'' ''shop'' [] [''pwd''] demo_db0 = (db1, Inr pair) \<and>
     Introspect_Execute demo_ev0 (TP_AccessToken pair) db1 = Some claims \<and> Cl_Subject claims = ''alice''"
proof -
  obtain db1 pair where e: "Establish demo_ev0 demo_tenant demo_realm ''alice'' ''shop'' [] [''pwd''] demo_db0 = (db1, Inr pair)"
    using demo_establish by blast
  have d0: "life_ok (life demo_db0)" "fresh_env demo_ev0 demo_db0"
    by (simp_all add: life_ok_def fresh_env_def demo_db0_def split: option.split)
  have ring: "Ring_activeAccess (Is_ring demo_ev0) = Some demo_key" "Lookup (Is_ring demo_ev0) (Key_Kid demo_key) = Inr demo_key"
    "Key_Purpose demo_key = PurposeAccess" "Key_Private demo_key = Some (replicate 64 CHR ''k'')"
    "key_pair (Is_ed demo_ev0) (replicate 64 CHR ''k'') (Key_Public demo_key)" "json_ok (Is_json demo_ev0) (Key_Kid demo_key)"
    "\<forall>c. js_claims (Is_json demo_ev0) (js_marshal_claims (Is_json demo_ev0) c) = Some c"
    using demo_key_pair demo_json_ok
    by (simp_all add: demo_issuer_def demo_ring_def demo_key_def Lookup_def dec_enc_claims, simp add: demo_json_def dec_enc_claims)
  have rest: "0 \<le> Is_clock demo_ev0" "Is_clock demo_ev0 < 2 ^ 62" "0 < Rm_SessionTTL demo_realm"
    "Is_TenantBySlug demo_ev0 (Tn_Slug demo_tenant) = Inr (Some demo_tenant)"
    by (simp_all add: demo_issuer_def demo_realm_def)
  have who: "identity_of demo_db0 (Tn_ID demo_tenant) ''alice'' = Some demo_identity" "ID_disabled_at demo_identity = None"
    "ID_anonymized_at demo_identity = None"
    by (simp_all add: demo_db0_def identity_of_def demo_identity_def demo_tenant_def)
  from sign_in_introspects [OF ring rest demo_ev_runs who d0 e] e show ?thesis by blast
qed

end
