(* ===== verification/Credential_Store.thy ===== *)
theory Credential_Store
  imports Session_Store "HOL-Library.Word"
begin

text \<open>
  The tables sign-in reads beside sessions: \<^verbatim>\<open>credentials\<close> (passwords, authenticators, device keys, recovery codes) and
  \<^verbatim>\<open>one_time_tokens\<close>, with every statement of \<^verbatim>\<open>internal/identity/adapter/postgres/credential_repository.go\<close> and
  \<^verbatim>\<open>internal/auth/adapter/postgres/one_time_repository.go\<close> on them, and the two identity lookups. The unique indexes of
  the migrations answer a conflict: one live password per identity, one live credential per lookup key, one row per
  token hash. \<^verbatim>\<open>params\<close> is a JSON object.
\<close>

section \<open>Rows\<close>

record CredentialRow =
  CR_id :: string
  CR_identity_id :: string
  CR_tenant_id :: string
  CR_kind :: string
  CR_secret :: "string option"
  CR_secret_kid :: "string option"
  CR_lookup_key :: "string option"
  CR_label :: "string option"
  CR_params :: "(string, jsonval) gomap"
  CR_sign_counter :: int
  CR_created_at :: time
  CR_last_used_at :: "time option"
  CR_expires_at :: "time option"
  CR_revoked_at :: "time option"

record OneTimeRow =
  OT_id :: string
  OT_tenant_id :: string
  OT_kind :: string
  OT_token_hash :: string
  OT_payload :: string
  OT_expires_at :: time

record SignDB =
  SD_auth :: AuthDB
  SD_creds :: "CredentialRow list"
  SD_onetime :: "OneTimeRow list"

definition update_creds :: "(CredentialRow \<Rightarrow> bool) \<Rightarrow> (CredentialRow \<Rightarrow> CredentialRow) \<Rightarrow> SignDB \<Rightarrow> SignDB" where
  "update_creds p f db = db\<lparr>SD_creds := map (\<lambda>r. if p r then f r else r) (SD_creds db)\<rparr>"

section \<open>identity\_repository.go: the lookups of sign-in\<close>

text \<open>\<open>sqllower\<close> is PostgreSQL's \<^verbatim>\<open>lower()\<close>.\<close>

definition identity_view :: "AccountRow \<Rightarrow> DomainIdentity" where
  "identity_view i = \<lparr>Id_ID = ID_id i, Id_TenantID = ID_tenant_id i, Id_RealmID = nstr (ID_realm_id i),
     Id_RealmCode = nstr (ID_realm_code i), Id_RealmKind = nstr (ID_realm_kind i), Id_Username = ID_username i,
     Id_Email = nstr (ID_email i), Id_Status = ID_status i, Id_AssuranceLevel = ID_assurance_level i,
     Id_TokenEpoch = ID_token_epoch i, Id_Disabled = (ID_disabled_at i \<noteq> None),
     Id_Anonymized = (ID_anonymized_at i \<noteq> None)\<rparr>"

definition IdentityForLogin ::
  "(string \<Rightarrow> string) \<Rightarrow> DbEnv \<Rightarrow> string \<Rightarrow> string \<Rightarrow> string \<Rightarrow> SignDB \<Rightarrow> DomainIdentity result" where
  "IdentityForLogin sqllower ev tenantID realmID username db =
     run_stmt ev GetIdentityForLoginS
       (case find (\<lambda>i. ID_tenant_id i = tenantID \<and> realmID \<noteq> [] \<and> ID_realm_id i = Some realmID \<and>
            sqllower (ID_username i) = sqllower username) (AB_identities (SD_auth db)) of
          None \<Rightarrow> Inl ErrNotFound | Some i \<Rightarrow> Inr (identity_view i))"

definition IdentityByID :: "DbEnv \<Rightarrow> string \<Rightarrow> string \<Rightarrow> SignDB \<Rightarrow> DomainIdentity result" where
  "IdentityByID ev tenantID who db =
     run_stmt ev GetIdentityS
       (case find (is_identity tenantID who) (AB_identities (SD_auth db)) of
          None \<Rightarrow> Inl ErrNotFound | Some i \<Rightarrow> Inr (identity_view i))"

section \<open>credential\_repository.go\<close>

definition live_cred :: "CredentialRow \<Rightarrow> bool" where
  "live_cred r \<longleftrightarrow> CR_revoked_at r = None"

definition unexpired_cred :: "time \<Rightarrow> CredentialRow \<Rightarrow> bool" where
  "unexpired_cred now r \<longleftrightarrow> live_cred r \<and> (case CR_expires_at r of None \<Rightarrow> True | Some e \<Rightarrow> e > now)"

definition password_of :: "string \<Rightarrow> CredentialRow \<Rightarrow> bool" where
  "password_of who r \<longleftrightarrow> CR_identity_id r = who \<and> CR_kind r = ''password'' \<and> live_cred r"

definition PasswordCredential :: "DbEnv \<Rightarrow> string \<Rightarrow> SignDB \<Rightarrow> Credential result" where
  "PasswordCredential ev who db =
     run_stmt ev GetPasswordCredentialS
       (case find (password_of who) (SD_creds db) of
          None \<Rightarrow> Inl ErrNotFound
        | Some r \<Rightarrow> Inr \<lparr>Cr_ID = CR_id r, Cr_IdentityID = CR_identity_id r, Cr_TenantID = CR_tenant_id r,
            Cr_Kind = ''password'', Cr_Secret = nstr (CR_secret r), Cr_SecretKid = [], Cr_Params = CR_params r,
            Cr_SignCounter = 0, Cr_ExpiresAt = CR_expires_at r\<rparr>)"

record CredentialInput =
  CI_IdentityID :: string
  CI_TenantID :: string
  CI_Kind :: string
  CI_Secret :: string
  CI_LookupKey :: string
  CI_Label :: string
  CI_Params :: "(string, jsonval) gomap"
  CI_ExpiresAt :: "time option"

definition credential_kinds :: "string list" where
  "credential_kinds = [''password'', ''device_key'', ''totp'', ''recovery_code'', ''oidc_link'']"

definition cred_conflict :: "CredentialInput \<Rightarrow> CredentialRow \<Rightarrow> bool" where
  "cred_conflict i r \<longleftrightarrow> live_cred r \<and>
     (CI_Kind i = ''password'' \<and> password_of (CI_IdentityID i) r \<or>
      CI_LookupKey i \<noteq> [] \<and> CR_lookup_key r = Some (CI_LookupKey i))"

definition new_credential :: "DbEnv \<Rightarrow> nat \<Rightarrow> CredentialInput \<Rightarrow> CredentialRow" where
  "new_credential ev k i =
     \<lparr>CR_id = Db_newid ev (CreateCredentialS k), CR_identity_id = CI_IdentityID i, CR_tenant_id = CI_TenantID i, CR_kind = CI_Kind i,
      CR_secret = nullif (CI_Secret i), CR_secret_kid = None, CR_lookup_key = nullif (CI_LookupKey i),
      CR_label = nullif (CI_Label i), CR_params = CI_Params i, CR_sign_counter = 0, CR_created_at = Db_now ev,
      CR_last_used_at = None, CR_expires_at = CI_ExpiresAt i, CR_revoked_at = None\<rparr>"

text \<open>The \<open>k\<close>-th insert of a request.\<close>

definition CreateCredential :: "DbEnv \<Rightarrow> nat \<Rightarrow> CredentialInput \<Rightarrow> SignDB \<Rightarrow> (string \<times> SignDB) result" where
  "CreateCredential ev k i db =
     run_stmt ev (CreateCredentialS k)
       (if CI_Kind i \<notin> set credential_kinds then Inl ErrInvalidArgument
        else if list_ex (cred_conflict i) (SD_creds db) then Inl ErrConflict
        else if \<not> list_ex (is_identity (CI_TenantID i) (CI_IdentityID i)) (AB_identities (SD_auth db)) then Inl ErrInvalidArgument
        else Inr (Db_newid ev (CreateCredentialS k), db\<lparr>SD_creds := SD_creds db @ [new_credential ev k i]\<rparr>))"

definition revoke_cred :: "time \<Rightarrow> CredentialRow \<Rightarrow> CredentialRow" where
  "revoke_cred now r = r\<lparr>CR_revoked_at := Some now\<rparr>"

definition RevokeCredential :: "DbEnv \<Rightarrow> string \<Rightarrow> string \<Rightarrow> SignDB \<Rightarrow> SignDB result" where
  "RevokeCredential ev tenantID cid db =
     run_stmt ev RevokeCredentialS
       (let hit = (\<lambda>r. CR_id r = cid \<and> CR_tenant_id r = tenantID \<and> live_cred r) in
        if list_ex hit (SD_creds db) then Inr (update_creds hit (revoke_cred (Db_now ev)) db) else Inl ErrNotFound)"

definition RevokeCredentialsOfKind :: "DbEnv \<Rightarrow> string \<Rightarrow> string \<Rightarrow> SignDB \<Rightarrow> SignDB result" where
  "RevokeCredentialsOfKind ev who kind db =
     run_stmt ev RevokeCredentialsOfKindS
       (Inr (update_creds (\<lambda>r. CR_identity_id r = who \<and> CR_kind r = kind \<and> live_cred r) (revoke_cred (Db_now ev)) db))"

definition UpdateCredentialSecret :: "DbEnv \<Rightarrow> string \<Rightarrow> string \<Rightarrow> string \<Rightarrow> SignDB \<Rightarrow> SignDB result" where
  "UpdateCredentialSecret ev cid secret kid db =
     run_stmt ev UpdateCredentialSecretS
       (Inr (update_creds (\<lambda>r. CR_id r = cid) (\<lambda>r. r\<lparr>CR_secret := nullif secret, CR_secret_kid := nullif kid\<rparr>) db))"

text \<open>\<^verbatim>\<open>ORDER BY created_at DESC LIMIT 1\<close>: a newest row; \<open>newest\<close> keeps the first of those as new.\<close>

fun newest :: "CredentialRow list \<Rightarrow> CredentialRow option" where
  "newest [] = None"
| "newest (r # rs) = (case newest rs of None \<Rightarrow> Some r | Some s \<Rightarrow> if CR_created_at s > CR_created_at r then Some s else Some r)"

definition ActiveCredentialOfKind :: "DbEnv \<Rightarrow> string \<Rightarrow> string \<Rightarrow> SignDB \<Rightarrow> Credential result" where
  "ActiveCredentialOfKind ev who kind db =
     run_stmt ev GetActiveCredentialOfKindS
       (case newest (filter (\<lambda>r. CR_identity_id r = who \<and> CR_kind r = kind \<and> unexpired_cred (Db_now ev) r) (SD_creds db)) of
          None \<Rightarrow> Inl ErrNotFound
        | Some r \<Rightarrow> Inr \<lparr>Cr_ID = CR_id r, Cr_IdentityID = CR_identity_id r, Cr_TenantID = CR_tenant_id r, Cr_Kind = CR_kind r,
            Cr_Secret = nstr (CR_secret r), Cr_SecretKid = nstr (CR_secret_kid r), Cr_Params = CR_params r,
            Cr_SignCounter = CR_sign_counter r, Cr_ExpiresAt = None\<rparr>)"

definition ActiveCredentialKinds :: "DbEnv \<Rightarrow> string \<Rightarrow> SignDB \<Rightarrow> string list result" where
  "ActiveCredentialKinds ev who db =
     run_stmt ev ListActiveCredentialKindsS
       (Inr (remdups (map CR_kind (filter (\<lambda>r. CR_identity_id r = who \<and> unexpired_cred (Db_now ev) r) (SD_creds db)))))"

text \<open>The usage stamp is best effort: its failure is dropped.\<close>

definition TouchCredentialUsed :: "DbEnv \<Rightarrow> string \<Rightarrow> int \<Rightarrow> SignDB \<Rightarrow> SignDB" where
  "TouchCredentialUsed ev cid counter db =
     (if Db_fails ev TouchCredentialUsedS then db
      else update_creds (\<lambda>r. CR_id r = cid)
        (\<lambda>r. r\<lparr>CR_last_used_at := Some (Db_now ev), CR_sign_counter := max (CR_sign_counter r) counter\<rparr>) db)"

definition CredentialOwner :: "DbEnv \<Rightarrow> string \<Rightarrow> SignDB \<Rightarrow> (string \<times> string \<times> string) result" where
  "CredentialOwner ev cid db =
     run_stmt ev CredentialOwnerS
       (case find (\<lambda>r. CR_id r = cid) (SD_creds db) of
          None \<Rightarrow> Inl ErrNotFound
        | Some r \<Rightarrow> if CR_revoked_at r \<noteq> None then Inl ErrNotFound else Inr (CR_identity_id r, CR_tenant_id r, CR_kind r))"

definition ConsumeRecoveryCode :: "DbEnv \<Rightarrow> string \<Rightarrow> string \<Rightarrow> SignDB \<Rightarrow> (string \<times> SignDB) result" where
  "ConsumeRecoveryCode ev who codeHash db =
     run_stmt ev ConsumeRecoveryCodeS
       (case find (\<lambda>r. CR_identity_id r = who \<and> CR_kind r = ''recovery_code'' \<and> live_cred r \<and> CR_secret r = Some codeHash) (SD_creds db) of
          None \<Rightarrow> Inl ErrNotFound
        | Some r \<Rightarrow> Inr (CR_id r, update_creds (\<lambda>x. CR_id x = CR_id r)
            (\<lambda>x. x\<lparr>CR_revoked_at := Some (Db_now ev), CR_last_used_at := Some (Db_now ev)\<rparr>) db))"

text \<open>The replay guard: the last accepted step, a missing or non-numeric one counting as zero. The step is written as
  a signed 64-bit integer.\<close>

definition last_step :: "CredentialRow \<Rightarrow> int" where
  "last_step r = (case map_of (CR_params r) ''last_step'' of Some (JNumber n) \<Rightarrow> n | _ \<Rightarrow> 0)"

definition AdvanceCredentialStep :: "DbEnv \<Rightarrow> string \<Rightarrow> 64 word \<Rightarrow> SignDB \<Rightarrow> (bool \<times> SignDB) result" where
  "AdvanceCredentialStep ev cid step db =
     run_stmt ev AdvanceCredentialStepS
       (let hit = (\<lambda>r. CR_id r = cid \<and> last_step r < sint step) in
        Inr (list_ex hit (SD_creds db),
             update_creds hit (\<lambda>r. r\<lparr>CR_params := map_put ''last_step'' (JNumber (sint step)) (CR_params r)\<rparr>) db))"

section \<open>one\_time\_repository.go\<close>

definition one_time_kinds :: "string list" where
  "one_time_kinds = [''mfa'', ''browser_mfa'', ''browser_enrol'', ''auth_code'', ''device_challenge'', ''email_verify'', ''password_reset'', ''email_login'']"

definition CreateOneTime ::
  "DbEnv \<Rightarrow> string \<Rightarrow> string \<Rightarrow> string \<Rightarrow> string \<Rightarrow> time \<Rightarrow> SignDB \<Rightarrow> (string \<times> SignDB) result" where
  "CreateOneTime ev tenantID kind hash payload expiresAt db =
     run_stmt ev CreateOneTimeS
       (if kind \<notin> set one_time_kinds then Inl ErrInvalidArgument
        else if hash \<in> OT_token_hash ` set (SD_onetime db) then Inl ErrConflict
        else Inr (Db_newid ev CreateOneTimeS, db\<lparr>SD_onetime := SD_onetime db @
          [\<lparr>OT_id = Db_newid ev CreateOneTimeS, OT_tenant_id = tenantID, OT_kind = kind, OT_token_hash = hash,
            OT_payload = OrEmptyJSON payload, OT_expires_at = expiresAt\<rparr>]\<rparr>))"

definition redeemable :: "time \<Rightarrow> string \<Rightarrow> string \<Rightarrow> OneTimeRow \<Rightarrow> bool" where
  "redeemable now kind hash r \<longleftrightarrow> OT_token_hash r = hash \<and> OT_kind r = kind \<and> OT_expires_at r > now"

definition ConsumeOneTime :: "DbEnv \<Rightarrow> string \<Rightarrow> string \<Rightarrow> SignDB \<Rightarrow> ((string \<times> string) \<times> SignDB) result" where
  "ConsumeOneTime ev kind hash db =
     run_stmt ev ConsumeOneTimeS
       (case find (redeemable (Db_now ev) kind hash) (SD_onetime db) of
          None \<Rightarrow> Inl ErrNotFound
        | Some r \<Rightarrow> Inr ((OT_tenant_id r, OT_payload r),
            db\<lparr>SD_onetime := filter (\<lambda>x. \<not> redeemable (Db_now ev) kind hash x) (SD_onetime db)\<rparr>))"

end
