(* ===== verification/Go_Format.thy ===== *)
theory Go_Format
  imports Principal Base64_Url
begin

text \<open>
  Text formats of Go's standard library the credential code writes and reads: decimal integers
  (\<^verbatim>\<open>fmt\<close>'s \<^verbatim>\<open>%d\<close> and \<^verbatim>\<open>%0*d\<close>, \<^verbatim>\<open>strconv.Atoi\<close> on a 64-bit \<^verbatim>\<open>int\<close>) and \<^verbatim>\<open>base64.RawStdEncoding\<close>, which is the
  URL encoding over the alphabet with plus and slash.
\<close>

section \<open>Decimal integers\<close>

definition fmt_d :: "nat \<Rightarrow> string" where
  "fmt_d n = (if n = 0 then ''0'' else itoa_digits n)"

text \<open>\<^verbatim>\<open>%0*d\<close>: padded with zeros on the left to the width, never cut.\<close>

definition fmt_0d :: "nat \<Rightarrow> nat \<Rightarrow> string" where
  "fmt_0d width n = replicate (width - length (fmt_d n)) CHR ''0'' @ fmt_d n"

fun digits_val :: "nat \<Rightarrow> string \<Rightarrow> nat option" where
  "digits_val acc [] = Some acc"
| "digits_val acc (c # cs) =
     (if 48 \<le> byte_of c \<and> byte_of c \<le> 57 then digits_val (acc * 10 + (byte_of c - 48)) cs else None)"

definition in_int64 :: "int \<Rightarrow> int option" where
  "in_int64 v = (if - (2 ^ 63) \<le> v \<and> v < 2 ^ 63 then Some v else None)"

definition Atoi :: "string \<Rightarrow> int option" where
  "Atoi s =
     (case s of [] \<Rightarrow> None | c # cs \<Rightarrow>
      if (c = CHR ''-'' \<or> c = CHR ''+'') \<and> cs = [] then None
      else if c = CHR ''-'' then Option.bind (digits_val 0 cs) (\<lambda>v. in_int64 (- int v))
      else if c = CHR ''+'' then Option.bind (digits_val 0 cs) (\<lambda>v. in_int64 (int v))
      else Option.bind (digits_val 0 s) (\<lambda>v. in_int64 (int v)))"

lemma digits_val_append:
  "digits_val acc (xs @ ys) = Option.bind (digits_val acc xs) (\<lambda>a. digits_val a ys)"
  by (induction acc xs rule: digits_val.induct) auto

lemma itoa_digits_val:
  "digits_val 0 (itoa_digits n) = Some n \<and> (\<forall>c\<in>set (itoa_digits n). digit c) \<and> (itoa_digits n = [] \<longleftrightarrow> n = 0)"
proof (induction n rule: itoa_digits.induct)
  case (1 n)
  show ?case
  proof (cases "n = 0")
    case False
    then have i: "itoa_digits n = itoa_digits (n div 10) @ [char_of (48 + n mod 10)]" by (subst itoa_digits.simps) simp
    have "digit (char_of (48 + n mod 10))" "byte_of (char_of (48 + n mod 10)) = 48 + n mod 10"
      by (auto simp: digit_def)
    then show ?thesis using 1 [OF False] False by (auto simp: i digits_val_append digit_def)
  qed (simp add: itoa_digits.simps)
qed

lemma fmt_d_digits [simp]: "digits_val 0 (fmt_d n) = Some n" "fmt_d n \<noteq> []" "c \<in> set (fmt_d n) \<Longrightarrow> digit c"
  using itoa_digits_val [of n] by (auto simp: fmt_d_def digit_def byte_of_def)

lemma Atoi_fmt_d: "n < 2 ^ 63 \<Longrightarrow> Atoi (fmt_d n) = Some (int n)"
proof -
  assume n: "n < 2 ^ 63"
  obtain c cs where f: "fmt_d n = c # cs" by (cases "fmt_d n") auto
  then have "digit c" using fmt_d_digits(3) [of c n] by simp
  then have "c \<noteq> CHR ''-''" "c \<noteq> CHR ''+''" by (auto simp: digit_def byte_of_def)
  moreover have "int n < 2 ^ 63" using n by (metis of_nat_less_iff of_nat_numeral of_nat_power)
  ultimately show ?thesis
    using fmt_d_digits(1) [of n] unfolding f by (simp add: Atoi_def in_int64_def del: digits_val.simps)
qed

section \<open>base64.RawStdEncoding\<close>

definition std_char :: "char \<Rightarrow> char" where
  "std_char c = (if c = CHR ''-'' then CHR ''+'' else if c = CHR ''_'' then CHR ''/'' else c)"

definition url_char :: "char \<Rightarrow> char" where
  "url_char c = (if c = CHR ''+'' then CHR ''-'' else if c = CHR ''/'' then CHR ''_'' else c)"

definition std_EncodeToString :: "string \<Rightarrow> string" where
  "std_EncodeToString s = map std_char (EncodeToString s)"

definition std_DecodeString :: "string \<Rightarrow> string option" where
  "std_DecodeString s = (if CHR ''-'' \<in> set s \<or> CHR ''_'' \<in> set s then None else DecodeString False (map url_char s))"

lemma encode_chars: "c \<in> set (EncodeToString s) \<Longrightarrow> b64_val c \<noteq> None"
  using enc_sextets_range [of "map byte_of s"] by (auto simp: EncodeToString_def)

lemma b64_val_other [simp]: "b64_val CHR ''+'' = None" "b64_val CHR ''/'' = None" "b64_val CHR ''$'' = None"
  by (simp_all add: b64_val_def byte_of_def)

lemma encode_plain: "c \<in> set (EncodeToString s) \<Longrightarrow> c \<noteq> CHR ''+'' \<and> c \<noteq> CHR ''/'' \<and> c \<noteq> CHR ''$''"
  using encode_chars [of c s] by auto

lemma std_encode_plain: "c \<in> set (std_EncodeToString s) \<Longrightarrow> c \<noteq> CHR ''-'' \<and> c \<noteq> CHR ''_'' \<and> c \<noteq> CHR ''$''"
  by (auto simp: std_EncodeToString_def std_char_def dest: encode_plain)

lemma std_decode_encode [simp]: "std_DecodeString (std_EncodeToString s) = Some s"
proof -
  have "map (url_char \<circ> std_char) (EncodeToString s) = EncodeToString s"
    by (rule map_idI) (auto simp: url_char_def std_char_def dest: encode_plain)
  then show ?thesis
    by (auto simp: std_DecodeString_def std_EncodeToString_def std_char_def dest: encode_plain)
qed

end
