(* ===== verification/Password_Hash.thy ===== *)
theory Password_Hash
  imports Go_Format
begin

text \<open>
  \<^verbatim>\<open>internal/platform/crypto/kdf\<close> and \<^verbatim>\<open>legacyhash\<close>: how a password is stored and checked. The derivation
  (\<^verbatim>\<open>crypto/pbkdf2\<close>) and \<^verbatim>\<open>golang.org/x/crypto/bcrypt\<close> are the record \<open>kdf\<close>; the burns against the dummy hash
  cost time and answer nothing, so they have no counterpart.
\<close>

section \<open>legacyhash.go\<close>

text \<open>\<open>bc_Compare\<close> answers \<^verbatim>\<open>CompareHashAndPassword\<close>: a match, a mismatch, or an unusable hash; \<open>bc_Cost\<close> whether
  \<^verbatim>\<open>bcrypt.Cost\<close> can read the string; \<open>pb_Key\<close> is \<^verbatim>\<open>pbkdf2.Key\<close> over SHA-256.\<close>

datatype bcrypt_answer = Matched | Mismatched | Unusable

record kdf =
  bc_Compare :: "string \<Rightarrow> string \<Rightarrow> bcrypt_answer"
  bc_Cost :: "string \<Rightarrow> bool"
  pb_Key :: "string \<Rightarrow> string \<Rightarrow> nat \<Rightarrow> nat \<Rightarrow> string option"

datatype kdf_err = ErrFormat | ErrNotLegacy | ErrKdfLibrary

definition isBcrypt :: "string \<Rightarrow> bool" where
  "isBcrypt encoded \<longleftrightarrow>
     length encoded = 60 \<and> HasPrefix encoded ''$2'' \<and>
     (encoded ! 2 = CHR ''$'' \<or>
      (encoded ! 2 = CHR ''a'' \<or> encoded ! 2 = CHR ''b'' \<or> encoded ! 2 = CHR ''x'' \<or> encoded ! 2 = CHR ''y'') \<and>
      encoded ! 3 = CHR ''$'')"

definition IsLegacy :: "string \<Rightarrow> bool" where
  "IsLegacy encoded = isBcrypt encoded"

definition legacy_Describe :: "kdf \<Rightarrow> string \<Rightarrow> kdf_err + string" where
  "legacy_Describe k encoded =
     (if isBcrypt encoded then (if bc_Cost k encoded then Inr ''bcrypt'' else Inl ErrNotLegacy) else Inl ErrNotLegacy)"

definition legacy_Verify :: "kdf \<Rightarrow> string \<Rightarrow> string \<Rightarrow> kdf_err + bool" where
  "legacy_Verify k password encoded =
     (if \<not> isBcrypt encoded then Inl ErrNotLegacy
      else case bc_Compare k encoded password of
        Matched \<Rightarrow> Inr True | Mismatched \<Rightarrow> Inr False | Unusable \<Rightarrow> Inl ErrKdfLibrary)"

section \<open>kdf.go\<close>

definition algID :: string where "algID = ''pbkdf2-sha256''"
definition DefaultIterations :: nat where "DefaultIterations = 600000"
definition saltLen :: nat where "saltLen = 16"
definition keyLen :: nat where "keyLen = 32"

text \<open>\<open>salt\<close> is what \<^verbatim>\<open>rand.Read\<close> put into the sixteen bytes, or its failure.\<close>

definition hashWith :: "kdf \<Rightarrow> string option \<Rightarrow> string \<Rightarrow> nat \<Rightarrow> string option" where
  "hashWith k salt password iterations =
     (case salt of None \<Rightarrow> None | Some salt \<Rightarrow>
      case pb_Key k password salt iterations keyLen of None \<Rightarrow> None | Some dk \<Rightarrow>
      Some (''$'' @ algID @ ''$i='' @ fmt_d iterations @ ''$'' @ std_EncodeToString salt @ ''$'' @ std_EncodeToString dk))"

definition kdf_Hash :: "kdf \<Rightarrow> string option \<Rightarrow> string \<Rightarrow> string option" where
  "kdf_Hash k salt password = hashWith k salt password DefaultIterations"

definition kdf_parse :: "string \<Rightarrow> (string \<times> nat \<times> string \<times> string) option" where
  "kdf_parse encoded =
     (case split_on CHR ''$'' encoded of
        [p0, alg, iter, s, d] \<Rightarrow>
          if p0 \<noteq> [] then None
          else if \<not> HasPrefix iter ''i='' then None
          else (case Atoi (drop 2 iter) of None \<Rightarrow> None | Some iterations \<Rightarrow>
            if iterations < 1 \<or> iterations > 10000000 then None
            else case std_DecodeString s of None \<Rightarrow> None | Some salt \<Rightarrow>
              case std_DecodeString d of None \<Rightarrow> None | Some dk \<Rightarrow>
              if length dk = 0 \<or> length dk > 64 then None else Some (alg, nat iterations, salt, dk))
      | _ \<Rightarrow> None)"

definition kdf_Verify :: "kdf \<Rightarrow> string \<Rightarrow> string \<Rightarrow> kdf_err + (bool \<times> bool)" where
  "kdf_Verify k password encoded =
     (if IsLegacy encoded then
        (case legacy_Verify k password encoded of Inl e \<Rightarrow> Inl e | Inr ok \<Rightarrow> Inr (ok, ok))
      else case kdf_parse encoded of
        None \<Rightarrow> Inl ErrFormat
      | Some (alg, iterations, salt, want) \<Rightarrow>
          if alg \<noteq> algID then Inl ErrFormat
          else (case pb_Key k password salt iterations (length want) of
                  None \<Rightarrow> Inl ErrKdfLibrary
                | Some got \<Rightarrow> let ok = (got = want) in Inr (ok, ok \<and> iterations < DefaultIterations)))"

definition kdf_Describe :: "kdf \<Rightarrow> string \<Rightarrow> kdf_err + (string \<times> bool)" where
  "kdf_Describe k encoded =
     (if IsLegacy encoded then (case legacy_Describe k encoded of Inl e \<Rightarrow> Inl e | Inr alg \<Rightarrow> Inr (alg, True))
      else case kdf_parse encoded of
        None \<Rightarrow> Inl ErrFormat
      | Some (alg, _, _, _) \<Rightarrow> if alg \<noteq> algID then Inl ErrFormat else Inr (alg, False))"

section \<open>What is stored verifies\<close>

lemma hash_not_legacy: "hashWith k salt password n = Some h \<Longrightarrow> \<not> IsLegacy h"
  by (auto simp: hashWith_def IsLegacy_def isBcrypt_def algID_def split: option.splits)

lemma fmt_d_no_dollar: "CHR ''$'' \<notin> set (fmt_d n)"
  using fmt_d_digits(3) by (fastforce simp: digit_def byte_of_def)

lemma kdf_parse_hash:
  assumes "hashWith k (Some salt) password n = Some h" and "1 \<le> n" "n \<le> 10000000"
    and dk: "pb_Key k password salt n keyLen = Some dk" and "length dk = keyLen"
  shows "kdf_parse h = Some (algID, n, salt, dk)"
proof -
  have split: "split_on CHR ''$'' h = [[], algID, ''i='' @ fmt_d n, std_EncodeToString salt, std_EncodeToString dk]"
  proof -
    let ?d = "CHR ''$''"
    have h: "h = [] @ ?d # (algID @ ?d # ((''i='' @ fmt_d n) @ ?d # (std_EncodeToString salt @ ?d # std_EncodeToString dk)))"
      using assms by (simp add: hashWith_def)
    have "?d \<notin> set algID" "?d \<notin> set (''i='' @ fmt_d n)" "?d \<notin> set (std_EncodeToString s)" for s
      using fmt_d_no_dollar std_encode_plain by (auto simp: algID_def)
    then show ?thesis
      unfolding h split_on_append_sep by (simp add: split_on_single)
  qed
  have "n < 2 ^ 63" using assms by simp
  then show ?thesis
    using assms by (simp add: kdf_parse_def split Atoi_fmt_d keyLen_def)
qed

text \<open>\<^verbatim>\<open>pbkdf2.Key\<close> returns as many bytes as it is asked for.\<close>

definition key_lengths :: "kdf \<Rightarrow> bool" where
  "key_lengths k \<longleftrightarrow> (\<forall>password salt n len dk. pb_Key k password salt n len = Some dk \<longrightarrow> length dk = len)"

lemma hashWith_Some:
  "hashWith k salt password n = Some h \<Longrightarrow> \<exists>s dk. salt = Some s \<and> pb_Key k password s n keyLen = Some dk"
  by (auto simp: hashWith_def split: option.splits)

lemma hash_verifies:
  assumes "key_lengths k" and "hashWith k salt password n = Some h" and "1 \<le> n" "n \<le> 10000000"
  shows "\<exists>s. salt = Some s \<and> kdf_Verify k password h = Inr (True, n < DefaultIterations) \<and>
    (\<forall>other dk. pb_Key k other s n keyLen = Some dk \<longrightarrow>
       kdf_Verify k other h = Inr (pb_Key k other s n keyLen = pb_Key k password s n keyLen,
         pb_Key k other s n keyLen = pb_Key k password s n keyLen \<and> n < DefaultIterations))"
proof -
  from hashWith_Some [OF assms(2)] obtain s dk where s: "salt = Some s" and dk: "pb_Key k password s n keyLen = Some dk"
    by blast
  with assms(1) have len: "length dk = keyLen" by (auto simp: key_lengths_def)
  with kdf_parse_hash [of k s password n h dk] assms s dk have p: "kdf_parse h = Some (algID, n, s, dk)" by simp
  show ?thesis using hash_not_legacy [OF assms(2)] s dk len p by (auto simp: kdf_Verify_def Let_def)
qed

text \<open>A stored password verifies. What \<^verbatim>\<open>Hash\<close> (or an older, cheaper installation of it) stores for a password is
  accepted for that password, is refused for every password the derivation tells apart from it, never answers an
  error while the derivation works, and asks to be replaced exactly when it was made with fewer iterations
  than the policy of today.\<close>

theorem stored_password_verifies:
  assumes "key_lengths k" and "hashWith k salt password n = Some h" and "1 \<le> n" "n \<le> 10000000"
  shows "\<exists>s. salt = Some s \<and> kdf_Verify k password h = Inr (True, n < DefaultIterations) \<and>
    (\<forall>other dk. pb_Key k other s n keyLen = Some dk \<longrightarrow>
       kdf_Verify k other h = Inr (pb_Key k other s n keyLen = pb_Key k password s n keyLen,
         pb_Key k other s n keyLen = pb_Key k password s n keyLen \<and> n < DefaultIterations))"
  using assms by (rule hash_verifies)

definition demo_kdf :: kdf where
  "demo_kdf = \<lparr>bc_Compare = (\<lambda>h p. if p = ''allmine'' then Matched else Mismatched), bc_Cost = (\<lambda>h. True),
     pb_Key = (\<lambda>p s n len. Some (take len (p @ replicate len CHR ''.'')))\<rparr>"

lemma demo_kdf_lengths: "key_lengths demo_kdf"
  by (auto simp: key_lengths_def demo_kdf_def)

theorem stored_password_verifies_witness:
  "\<exists>h. kdf_Hash demo_kdf (Some ''0123456789abcdef'') ''correct horse'' = Some h \<and>
     kdf_Verify demo_kdf ''correct horse'' h = Inr (True, False) \<and>
     kdf_Verify demo_kdf ''battery staple'' h = Inr (False, False)"
proof -
  obtain h where h: "hashWith demo_kdf (Some ''0123456789abcdef'') ''correct horse'' 600000 = Some h"
    by (simp add: hashWith_def demo_kdf_def)
  have dk: "pb_Key demo_kdf ''battery staple'' s n keyLen = Some (''battery staple'' @ replicate 18 CHR ''.'')"
    "pb_Key demo_kdf ''correct horse'' s n keyLen = Some (''correct horse'' @ replicate 19 CHR ''.'')" for s n
    by (simp_all add: demo_kdf_def keyLen_def numeral_eq_Suc)
  from stored_password_verifies [OF demo_kdf_lengths h] show ?thesis
    using h dk by (auto simp: kdf_Hash_def DefaultIterations_def)
qed

end
