(* ===== verification/Local_Token.thy ===== *)
theory Local_Token
  imports Access_Token Go_Format
begin

text \<open>
  \<^verbatim>\<open>internal/platform/crypto/localtoken\<close> and \<^verbatim>\<open>internal/platform/crypto/keyring/seal.go\<close>: state the service hands out sealed
  and takes back (challenges, enrolment grants), and secrets it keeps sealed at rest. HKDF, AES-256-GCM and the
  encoding of the envelope are the record \<open>aead\<close>; what a theorem needs of them is a hypothesis there.
\<close>

section \<open>The primitives\<close>

record Envelope =
  Env_Purpose :: string
  Env_Expires :: int
  Env_TokenID :: string
  Env_Data :: string

text \<open>\<open>hkdf_Key\<close> derives 32 bytes from a secret and an info string; the rest are AES-GCM under such a key
  (key, nonce, text, additional data) and \<^verbatim>\<open>encoding/json\<close> on the envelope.\<close>

record aead =
  hkdf_Key :: "string \<Rightarrow> string \<Rightarrow> string option"
  gcm_Seal :: "string \<Rightarrow> string \<Rightarrow> string \<Rightarrow> string \<Rightarrow> string"
  gcm_Open :: "string \<Rightarrow> string \<Rightarrow> string \<Rightarrow> string \<Rightarrow> string option"
  env_Marshal :: "Envelope \<Rightarrow> string option"
  env_Unmarshal :: "string \<Rightarrow> Envelope option"

section \<open>localtoken.go\<close>

datatype local_err = LtErrMalformed | LtErrPurpose | LtErrExpired | LtErrOpen | LtErrKey

definition local_prefix :: string where "local_prefix = ''anb.local.v1.''"
definition nonceSize :: nat where "nonceSize = 12"

definition deriveKey :: "aead \<Rightarrow> string \<Rightarrow> string option" where
  "deriveKey A secret = hkdf_Key A secret ''anubis/local/v1''"

text \<open>\<open>raw\<close> is \<^verbatim>\<open>json.Marshal\<close> of the state, \<open>nonce\<close> the twelve random bytes.\<close>

definition local_Seal ::
  "aead \<Rightarrow> string option \<Rightarrow> string \<Rightarrow> string \<Rightarrow> string \<Rightarrow> string \<Rightarrow> string option \<Rightarrow> duration \<Rightarrow> time \<Rightarrow> string option" where
  "local_Seal A nonce secret kid purpose jti raw ttl now =
     (case raw of None \<Rightarrow> None | Some raw \<Rightarrow>
      case env_Marshal A \<lparr>Env_Purpose = purpose, Env_Expires = Unix (now + ttl), Env_TokenID = jti, Env_Data = raw\<rparr> of
        None \<Rightarrow> None | Some env \<Rightarrow>
      case deriveKey A secret of None \<Rightarrow> None | Some key \<Rightarrow>
      case nonce of None \<Rightarrow> None | Some nonce \<Rightarrow>
      let ct = gcm_Seal A key nonce env (local_prefix @ purpose)
      in Some (local_prefix @ EncodeToString kid @ ''.'' @ EncodeToString (nonce @ ct)))"

definition local_Kid :: "string \<Rightarrow> local_err + string" where
  "local_Kid token =
     (if \<not> HasPrefix token local_prefix then Inl LtErrMalformed
      else case cut_at CHR ''.'' (drop (length local_prefix) token) of
        None \<Rightarrow> Inl LtErrMalformed
      | Some (k, _) \<Rightarrow>
          if k = [] then Inl LtErrMalformed
          else (case DecodeString True k of None \<Rightarrow> Inl LtErrMalformed | Some kid \<Rightarrow> Inr kid))"

definition local_Open :: "aead \<Rightarrow> string \<Rightarrow> string \<Rightarrow> string \<Rightarrow> time \<Rightarrow> local_err + (string \<times> string)" where
  "local_Open A secret token purpose now =
     (if \<not> HasPrefix token local_prefix then Inl LtErrMalformed
      else case cut_at CHR ''.'' (drop (length local_prefix) token) of
        None \<Rightarrow> Inl LtErrMalformed
      | Some (k, b) \<Rightarrow>
          if k = [] \<or> CHR ''.'' \<in> set b then Inl LtErrMalformed
          else (case DecodeString True b of None \<Rightarrow> Inl LtErrMalformed | Some body \<Rightarrow>
            if length body \<le> nonceSize then Inl LtErrMalformed
            else case deriveKey A secret of None \<Rightarrow> Inl LtErrKey | Some key \<Rightarrow>
              case gcm_Open A key (take nonceSize body) (drop nonceSize body) (local_prefix @ purpose) of
                None \<Rightarrow> Inl LtErrOpen
              | Some plain \<Rightarrow>
                  (case env_Unmarshal A plain of None \<Rightarrow> Inl LtErrMalformed | Some env \<Rightarrow>
                   if Env_Purpose env \<noteq> purpose then Inl LtErrPurpose
                   else if Unix now > Env_Expires env then Inl LtErrExpired
                   else Inr (Env_TokenID env, Env_Data env))))"

section \<open>seal.go\<close>

datatype seal_err = ErrTooShort | ErrUnseal | ErrSealKey | ErrSealingKeyGone | SealRing ring_err

definition sealAEAD :: "aead \<Rightarrow> string \<Rightarrow> string option" where
  "sealAEAD A master = hkdf_Key A master ''anubis/keyseal/v1''"

definition SealSecret :: "aead \<Rightarrow> string option \<Rightarrow> string \<Rightarrow> string \<Rightarrow> string \<Rightarrow> string option" where
  "SealSecret A nonce master kid material =
     (case sealAEAD A master of None \<Rightarrow> None | Some key \<Rightarrow>
      case nonce of None \<Rightarrow> None | Some nonce \<Rightarrow> Some (nonce @ gcm_Seal A key nonce material kid))"

definition OpenSecret :: "aead \<Rightarrow> string \<Rightarrow> string \<Rightarrow> string \<Rightarrow> seal_err + string" where
  "OpenSecret A master kid sealed =
     (if length sealed \<le> 12 then Inl ErrTooShort
      else case sealAEAD A master of None \<Rightarrow> Inl ErrSealKey | Some key \<Rightarrow>
        case gcm_Open A key (take 12 sealed) (drop 12 sealed) kid of None \<Rightarrow> Inl ErrUnseal | Some material \<Rightarrow> Inr material)"

definition OpenNamedSecret :: "aead \<Rightarrow> Ring \<Rightarrow> string \<Rightarrow> string \<Rightarrow> string \<Rightarrow> seal_err + (string \<times> string)" where
  "OpenNamedSecret A r kid aad sealed =
     (if kid = [] then
        (case ActiveLocal r of Inl e \<Rightarrow> Inl (SealRing e) | Inr k \<Rightarrow>
         case OpenSecret A (Key_Secret k) aad sealed of Inl e \<Rightarrow> Inl e | Inr m \<Rightarrow> Inr (m, Key_Kid k))
      else (case Lookup r kid of Inl e \<Rightarrow> Inl ErrSealingKeyGone | Inr k \<Rightarrow>
            case OpenSecret A (Key_Secret k) aad sealed of Inl e \<Rightarrow> Inl e | Inr m \<Rightarrow> Inr (m, kid)))"

section \<open>What is sealed opens, and nothing else does\<close>

text \<open>AES-GCM opens what it sealed, with the same nonce and additional data, and its ciphertext is not shorter than
  its tag; \<^verbatim>\<open>encoding/json\<close> reads back the envelope it wrote.\<close>

definition gcm_correct :: "aead \<Rightarrow> bool" where
  "gcm_correct A \<longleftrightarrow> (\<forall>key nonce text aad. gcm_Open A key nonce (gcm_Seal A key nonce text aad) aad = Some text \<and>
     length (gcm_Seal A key nonce text aad) \<ge> 16)"

definition env_faithful :: "aead \<Rightarrow> bool" where
  "env_faithful A \<longleftrightarrow> (\<forall>e s. env_Marshal A e = Some s \<longrightarrow> env_Unmarshal A s = Some e)"

lemma local_Seal_Some:
  assumes "local_Seal A nonce secret kid purpose jti raw ttl now = Some token"
  obtains d env key n where "raw = Some d" "nonce = Some n" "deriveKey A secret = Some key"
    "env_Marshal A \<lparr>Env_Purpose = purpose, Env_Expires = Unix (now + ttl), Env_TokenID = jti, Env_Data = d\<rparr> = Some env"
    "token = local_prefix @ EncodeToString kid @ ''.'' @ EncodeToString (n @ gcm_Seal A key n env (local_prefix @ purpose))"
  using assms by (auto simp: local_Seal_def Let_def split: option.splits)

lemma cut_token: "cut_at CHR ''.'' (EncodeToString a @ CHR ''.'' # b) = Some (EncodeToString a, b)"
proof -
  have "\<forall>x\<in>set (EncodeToString a). x \<noteq> CHR ''.''" using encode_no_dot by metis
  then show ?thesis by (simp add: cut_at_def takeWhile_append2 dropWhile_append2)
qed

lemma local_Open_framed:
  assumes "kid \<noteq> []" "length n = nonceSize" "ct \<noteq> []" "deriveKey A secret = Some key"
  shows "local_Open A secret (local_prefix @ EncodeToString kid @ ''.'' @ EncodeToString (n @ ct)) purpose t =
    (case gcm_Open A key n ct (local_prefix @ purpose) of None \<Rightarrow> Inl LtErrOpen
     | Some plain \<Rightarrow> (case env_Unmarshal A plain of None \<Rightarrow> Inl LtErrMalformed | Some env \<Rightarrow>
         if Env_Purpose env \<noteq> purpose then Inl LtErrPurpose
         else if Unix t > Env_Expires env then Inl LtErrExpired else Inr (Env_TokenID env, Env_Data env)))"
  using assms by (simp add: local_Open_def cut_token encode_Nil encode_no_dot)

lemma sealed_opens:
  assumes "gcm_correct A" "env_faithful A" "kid \<noteq> []" "length n = nonceSize"
    and "local_Seal A (Some n) secret kid purpose jti (Some d) ttl now = Some token"
  shows "local_Kid token = Inr kid \<and>
    local_Open A secret token purpose t =
      (if Unix t \<le> Unix (now + ttl) then Inr (jti, d) else Inl LtErrExpired)"
proof -
  from assms(5) obtain env key where key: "deriveKey A secret = Some key"
    and env: "env_Marshal A \<lparr>Env_Purpose = purpose, Env_Expires = Unix (now + ttl), Env_TokenID = jti, Env_Data = d\<rparr> = Some env"
    and tok: "token = local_prefix @ EncodeToString kid @ ''.'' @ EncodeToString (n @ gcm_Seal A key n env (local_prefix @ purpose))"
    by (elim local_Seal_Some) auto
  let ?ct = "gcm_Seal A key n env (local_prefix @ purpose)"
  have "length ?ct \<ge> 16" "gcm_Open A key n ?ct (local_prefix @ purpose) = Some env"
    using assms(1) by (simp_all add: gcm_correct_def)
  moreover have "env_Unmarshal A env = Some \<lparr>Env_Purpose = purpose, Env_Expires = Unix (now + ttl), Env_TokenID = jti, Env_Data = d\<rparr>"
    using assms(2) env by (simp add: env_faithful_def)
  moreover have "local_Kid token = Inr kid" using assms(3) by (simp add: tok local_Kid_def cut_token encode_Nil)
  moreover have "?ct \<noteq> []" using calculation(1) by auto
  moreover note local_Open_framed [OF assms(3,4) calculation(5) key, of purpose t, folded tok]
  ultimately show ?thesis by simp
qed

text \<open>A sealed token comes back. A token sealed for a purpose names its key, opens under that key's secret and
  purpose to exactly the identifier and state that went in, until its lifetime ends, and is refused as expired from the
  next second on.\<close>

theorem local_token_round_trip:
  assumes "gcm_correct A" "env_faithful A" "kid \<noteq> []" "length n = nonceSize"
    and "local_Seal A (Some n) secret kid purpose jti (Some d) ttl now = Some token"
  shows "local_Kid token = Inr kid \<and>
    local_Open A secret token purpose t =
      (if Unix t \<le> Unix (now + ttl) then Inr (jti, d) else Inl LtErrExpired)"
  using assms by (rule sealed_opens)

text \<open>Unforgeability of AES-GCM, for a key and the messages sealed under it: nothing else opens. \<open>sealed_state\<close>
  are the messages of the tokens issued: purpose, identifier, state and expiry.\<close>

definition only_sealed :: "aead \<Rightarrow> string \<Rightarrow> (string \<times> string) set \<Rightarrow> bool" where
  "only_sealed A key S \<longleftrightarrow> (\<forall>nonce ct aad text. gcm_Open A key nonce ct aad = Some text \<longrightarrow> (text, aad) \<in> S)"

definition sealed_state :: "aead \<Rightarrow> (string \<times> string \<times> string \<times> int) set \<Rightarrow> (string \<times> string) set" where
  "sealed_state A issued = {(env, local_prefix @ p) | env p jti d e. (p, jti, d, e) \<in> issued \<and>
     env_Marshal A \<lparr>Env_Purpose = p, Env_Expires = e, Env_TokenID = jti, Env_Data = d\<rparr> = Some env}"

text \<open>A token is good for one purpose. Whatever string is presented, opening it for a purpose succeeds only with an
  identifier and a state that were sealed for that very purpose and have not expired: a challenge presented as an
  enrolment grant, or a token somebody made up, opens nowhere.\<close>

theorem local_token_authentic:
  assumes "env_faithful A" "deriveKey A secret = Some key" "only_sealed A key (sealed_state A issued)"
    and "local_Open A secret token purpose t = Inr (jti, d)"
  shows "\<exists>e. (purpose, jti, d, e) \<in> issued \<and> Unix t \<le> e"
proof -
  from assms(2,4) obtain nonce ct plain env where o: "gcm_Open A key nonce ct (local_prefix @ purpose) = Some plain"
    and u: "env_Unmarshal A plain = Some env" and e: "\<not> Unix t > Env_Expires env" "jti = Env_TokenID env" "d = Env_Data env"
    by (auto simp: local_Open_def split: if_splits option.splits)
  from assms(3) o have "(plain, local_prefix @ purpose) \<in> sealed_state A issued"
    by (simp add: only_sealed_def)
  then obtain jti' d' e' where i: "(purpose, jti', d', e') \<in> issued"
    and m: "env_Marshal A \<lparr>Env_Purpose = purpose, Env_Expires = e', Env_TokenID = jti', Env_Data = d'\<rparr> = Some plain"
    by (auto simp: sealed_state_def)
  with assms(1) u e have "jti' = jti" "d' = d" "Unix t \<le> e'" by (auto simp: env_faithful_def)
  with i show ?thesis by auto
qed

lemma sealed_secret_opens:
  assumes "gcm_correct A" "length n = 12" "SealSecret A (Some n) master aad m = Some sealed"
  shows "OpenSecret A master aad sealed = Inr m"
proof -
  from assms(3) obtain key where key: "sealAEAD A master = Some key" and s: "sealed = n @ gcm_Seal A key n m aad"
    by (auto simp: SealSecret_def split: option.splits)
  have "length (gcm_Seal A key n m aad) \<ge> 16" "gcm_Open A key n (gcm_Seal A key n m aad) aad = Some m"
    using assms(1) by (simp_all add: gcm_correct_def)
  with assms(2) key s show ?thesis by (auto simp: OpenSecret_def)
qed

text \<open>Rotating a sealing key loses no secret. A secret sealed under a local key opens through the key's name for as
  long as the ring still holds that key, whichever key is active by then; a record from before names were kept opens
  under the active key and reports the name to write down; and once the key has left the ring the answer says so,
  rather than blaming the code that was typed.\<close>

theorem named_secret_survives_rotation:
  assumes "gcm_correct A" "length n = 12" "Lookup r kid = Inr k" "kid \<noteq> []"
    and "SealSecret A (Some n) (Key_Secret k) aad m = Some sealed"
  shows "OpenNamedSecret A r kid aad sealed = Inr (m, kid) \<and>
    (ActiveLocal r = Inr k \<longrightarrow> OpenNamedSecret A r [] aad sealed = Inr (m, Key_Kid k)) \<and>
    (\<forall>r'. Lookup r' kid = Inl RingUnknownKid \<longrightarrow> OpenNamedSecret A r' kid aad sealed = Inl ErrSealingKeyGone)"
  using sealed_secret_opens [OF assms(1,2,5)] assms(3,4) by (simp add: OpenNamedSecret_def)

section \<open>A concrete instance\<close>

definition toy_mark :: "string \<Rightarrow> string \<Rightarrow> string" where
  "toy_mark key aad = replicate 16 CHR ''T'' @ EncodeToString key @ ''.'' @ EncodeToString aad @ ''.''"

definition toy_marshal :: "Envelope \<Rightarrow> string option" where
  "toy_marshal e = (if Env_Expires e < 0 then None else
     Some (EncodeToString (Env_Purpose e) @ CHR ''.'' # fmt_d (nat (Env_Expires e)) @ CHR ''.'' #
       EncodeToString (Env_TokenID e) @ CHR ''.'' # EncodeToString (Env_Data e)))"

definition toy_unmarshal :: "string \<Rightarrow> Envelope option" where
  "toy_unmarshal s =
     (case split_on CHR ''.'' s of
        [p, e, j, d] \<Rightarrow>
          (case (DecodeString True p, digits_val 0 e, DecodeString True j, DecodeString True d) of
             (Some p, Some e, Some j, Some d) \<Rightarrow> Some \<lparr>Env_Purpose = p, Env_Expires = int e, Env_TokenID = j, Env_Data = d\<rparr>
           | _ \<Rightarrow> None)
      | _ \<Rightarrow> None)"

definition toy_aead :: aead where
  "toy_aead = \<lparr>hkdf_Key = (\<lambda>secret info. Some (info @ ''/'' @ secret)),
     gcm_Seal = (\<lambda>key nonce text aad. toy_mark key aad @ text),
     gcm_Open = (\<lambda>key nonce ct aad. if HasPrefix ct (toy_mark key aad) then Some (drop (length (toy_mark key aad)) ct) else None),
     env_Marshal = toy_marshal, env_Unmarshal = toy_unmarshal\<rparr>"

lemma toy_aead_correct: "gcm_correct toy_aead"
proof -
  have "16 \<le> length (toy_mark key aad)" for key aad by (simp add: toy_mark_def)
  then show ?thesis by (auto simp: gcm_correct_def toy_aead_def intro: trans_le_add1)
qed

lemma fmt_d_no_dot: "CHR ''.'' \<notin> set (fmt_d n)"
  using fmt_d_digits(3) by (fastforce simp: digit_def byte_of_def)

lemma toy_env_faithful: "env_faithful toy_aead"
  by (auto simp: env_faithful_def toy_aead_def toy_marshal_def toy_unmarshal_def split_on_append_sep split_on_single
      encode_no_dot fmt_d_no_dot split: if_splits)

definition demo_nonce :: string where "demo_nonce = ''nonce-nonce.''"

definition demo_sealed :: string where
  "demo_sealed = the (local_Seal toy_aead (Some demo_nonce) ''s'' ''k1'' ''mfa'' ''j1'' (Some ''{}'') (60 * Second) (100 * Second))"

theorem local_token_round_trip_witness:
  "local_Kid demo_sealed = Inr ''k1'' \<and> local_Open toy_aead ''s'' demo_sealed ''mfa'' (160 * Second) = Inr (''j1'', ''{}'') \<and>
   local_Open toy_aead ''s'' demo_sealed ''mfa'' (161 * Second) = Inl LtErrExpired"
proof -
  have s: "local_Seal toy_aead (Some demo_nonce) ''s'' ''k1'' ''mfa'' ''j1'' (Some ''{}'') (60 * Second) (100 * Second) = Some demo_sealed"
    by (simp add: demo_sealed_def local_Seal_def toy_aead_def toy_marshal_def deriveKey_def Unix_def Let_def)
  have n: "length demo_nonce = nonceSize" by (simp add: demo_nonce_def nonceSize_def)
  show ?thesis
    using local_token_round_trip [OF toy_aead_correct toy_env_faithful _ n s, of "160 * Second"]
      local_token_round_trip [OF toy_aead_correct toy_env_faithful _ n s, of "161 * Second"]
    by (simp add: Unix_def)
qed

text \<open>An instance nobody can forge against: it opens the one message it sealed.\<close>

definition demo_env :: string where
  "demo_env = the (toy_marshal \<lparr>Env_Purpose = ''mfa'', Env_Expires = 160, Env_TokenID = ''j1'', Env_Data = ''{}''\<rparr>)"

definition strict_aead :: aead where
  "strict_aead = toy_aead\<lparr>gcm_Open := (\<lambda>key nonce ct aad.
     if ct = toy_mark key aad @ demo_env \<and> aad = local_prefix @ ''mfa'' then Some demo_env else None)\<rparr>"

lemma strict_aead_facts:
  "env_faithful strict_aead"
  "only_sealed strict_aead key (sealed_state strict_aead {(''mfa'', ''j1'', ''{}'', 160)})"
  "deriveKey strict_aead ''s'' = Some ''anubis/local/v1/s''"
  using toy_env_faithful
  by (auto simp: env_faithful_def only_sealed_def sealed_state_def strict_aead_def toy_aead_def demo_env_def toy_marshal_def
      deriveKey_def split: if_splits)

theorem local_token_authentic_witness:
  "local_Open strict_aead ''s'' demo_sealed ''mfa'' (150 * Second) = Inr (''j1'', ''{}'') \<and>
   (\<exists>e. (''mfa'', ''j1'', ''{}'', e) \<in> {(''mfa'', ''j1'', ''{}'', 160)} \<and> Unix (150 * Second) \<le> e) \<and>
   local_Open strict_aead ''s'' demo_sealed ''enrol_grant'' (150 * Second) = Inl LtErrOpen"
proof -
  let ?c = "toy_mark ''anubis/local/v1/s'' (local_prefix @ ''mfa'') @ demo_env"
  have t: "demo_sealed = local_prefix @ EncodeToString ''k1'' @ ''.'' @ EncodeToString (demo_nonce @ ?c)"
    by (simp add: demo_sealed_def demo_env_def local_Seal_def toy_aead_def toy_marshal_def deriveKey_def Unix_def Let_def)
  have o: "local_Open strict_aead ''s'' demo_sealed purpose now =
      (case gcm_Open strict_aead ''anubis/local/v1/s'' demo_nonce ?c (local_prefix @ purpose) of None \<Rightarrow> Inl LtErrOpen
       | Some plain \<Rightarrow> (case env_Unmarshal strict_aead plain of None \<Rightarrow> Inl LtErrMalformed | Some env \<Rightarrow>
           if Env_Purpose env \<noteq> purpose then Inl LtErrPurpose
           else if Unix now > Env_Expires env then Inl LtErrExpired else Inr (Env_TokenID env, Env_Data env)))" for purpose now
    unfolding t using strict_aead_facts(3)
    by (intro local_Open_framed) (simp_all add: demo_nonce_def nonceSize_def toy_mark_def)
  have e: "env_Unmarshal strict_aead demo_env = Some \<lparr>Env_Purpose = ''mfa'', Env_Expires = 160, Env_TokenID = ''j1'', Env_Data = ''{}''\<rparr>"
    using strict_aead_facts(1) by (simp add: env_faithful_def strict_aead_def toy_aead_def demo_env_def toy_marshal_def)
  have g: "gcm_Open strict_aead ''anubis/local/v1/s'' demo_nonce ?c (local_prefix @ ''mfa'') = Some demo_env"
    "gcm_Open strict_aead ''anubis/local/v1/s'' demo_nonce ?c (local_prefix @ ''enrol_grant'') = None"
    by (simp_all add: strict_aead_def)
  have "local_Open strict_aead ''s'' demo_sealed ''mfa'' (150 * Second) = Inr (''j1'', ''{}'')"
    "local_Open strict_aead ''s'' demo_sealed ''enrol_grant'' (150 * Second) = Inl LtErrOpen"
    using e g by (simp_all add: o Unix_def)
  with local_token_authentic [OF strict_aead_facts(1,3,2) this(1)] show ?thesis by simp
qed

definition demo_local_key :: Key where
  "demo_local_key = \<lparr>Key_Kid = ''k1'', Key_Purpose = PurposeLocal, Key_Alg = [], Key_Status = StatusRetiring, Key_Public = [],
     Key_Private = None, Key_Secret = ''s'', Key_NotBefore = zero_time, Key_NotAfter = zero_time\<rparr>"

definition demo_local_ring :: Ring where
  "demo_local_ring = \<lparr>Ring_byKid = [(''k2'', demo_local_key\<lparr>Key_Kid := ''k2'', Key_Secret := ''s2'', Key_Status := StatusActive\<rparr>), (''k1'', demo_local_key)],
     Ring_activeAccess = None, Ring_activeLocal = Some (demo_local_key\<lparr>Key_Kid := ''k2'', Key_Secret := ''s2'', Key_Status := StatusActive\<rparr>)\<rparr>"

theorem named_secret_survives_rotation_witness:
  "\<exists>sealed. SealSecret toy_aead (Some demo_nonce) ''s'' ''totp:c1'' ''shared'' = Some sealed \<and>
     OpenNamedSecret toy_aead demo_local_ring ''k1'' ''totp:c1'' sealed = Inr (''shared'', ''k1'')"
proof -
  obtain sealed where s: "SealSecret toy_aead (Some demo_nonce) (Key_Secret demo_local_key) ''totp:c1'' ''shared'' = Some sealed"
    by (simp add: SealSecret_def sealAEAD_def toy_aead_def)
  have l: "Lookup demo_local_ring ''k1'' = Inr demo_local_key" by (simp add: Lookup_def demo_local_ring_def)
  from named_secret_survives_rotation [OF toy_aead_correct _ l _ s] s show ?thesis
    by (simp add: demo_nonce_def demo_local_key_def)
qed

end
