(* ===== verification/Totp.thy ===== *)
theory Totp
  imports Go_Format "HOL-Library.Word"
begin

text \<open>
  \<^verbatim>\<open>internal/platform/crypto/totp\<close>: time-based one-time codes (RFC 6238 over RFC 4226), at the widths the code has: a
  64-bit counter, a 31-bit truncation, a 32-bit modulus. HMAC-SHA-1 is the parameter \<open>mac\<close>; its 20 bytes are a
  hypothesis where one is needed. A slice out of range panics: \<open>hotp\<close> is \<open>None\<close> then.
\<close>

unbundle bit_operations_syntax

section \<open>hotp\<close>

type_synonym mac = "string \<Rightarrow> string \<Rightarrow> string"

definition DefaultDigits :: nat where "DefaultDigits = 6"
definition DefaultStep :: duration where "DefaultStep = 30 * Second"

definition PutUint64 :: "64 word \<Rightarrow> string" where
  "PutUint64 n = map (\<lambda>i. char_of (unat (drop_bit (8 * i) n AND 255))) [7, 6, 5, 4, 3, 2, 1, 0]"

definition Uint32 :: "string \<Rightarrow> 32 word" where
  "Uint32 s = foldl (\<lambda>a c. push_bit 8 a OR word_of_nat (byte_of c)) 0 s"

fun pow10 :: "nat \<Rightarrow> 32 word" where
  "pow10 0 = 1"
| "pow10 (Suc i) = pow10 i * 10"

definition hotp :: "mac \<Rightarrow> string \<Rightarrow> 64 word \<Rightarrow> nat \<Rightarrow> string option" where
  "hotp mac secret counter digits =
     (let sum = mac secret (PutUint64 counter) in
      if sum = [] then None
      else
        let offset = byte_of (last sum) mod 16 in
        if length sum < offset + 4 then None
        else
          let code = Uint32 (take 4 (drop offset sum)) AND 0x7fffffff; m = pow10 digits in
          if m = 0 then None else Some (fmt_0d digits (unat (code mod m))))"

definition Step :: "time \<Rightarrow> duration \<Rightarrow> 64 word" where
  "Step t step = word_of_int (Unix t) div word_of_int (go_quot step Second)"

definition Generate :: "mac \<Rightarrow> string \<Rightarrow> time \<Rightarrow> duration \<Rightarrow> nat \<Rightarrow> string option" where
  "Generate mac secret t step digits = hotp mac secret (Step t step) digits"

fun verify_loop :: "mac \<Rightarrow> string \<Rightarrow> string \<Rightarrow> 64 word \<Rightarrow> nat \<Rightarrow> int list \<Rightarrow> (64 word \<times> bool) option" where
  "verify_loop mac secret code base digits [] = Some (0, False)"
| "verify_loop mac secret code base digits (d # ds) =
     (let s = int64 (sint base + d) in
      if s < 0 then verify_loop mac secret code base digits ds
      else case hotp mac secret (word_of_int s) digits of
        None \<Rightarrow> None
      | Some want \<Rightarrow> if want = code then Some (word_of_int s, True) else verify_loop mac secret code base digits ds)"

definition totp_Verify ::
  "mac \<Rightarrow> string \<Rightarrow> string \<Rightarrow> time \<Rightarrow> duration \<Rightarrow> nat \<Rightarrow> int \<Rightarrow> (64 word \<times> bool) option" where
  "totp_Verify mac secret code t step digits skew =
     (if length code \<noteq> digits then Some (0, False)
      else verify_loop mac secret code (Step t step) digits [- skew..skew])"

section \<open>A code is digits, and always computed\<close>

definition mac20 :: "mac \<Rightarrow> bool" where
  "mac20 mac \<longleftrightarrow> (\<forall>secret msg. length (mac secret msg) = 20)"

text \<open>What a code is: the RFC's dynamic truncation of the keyed hash of the counter, reduced to its last digits.\<close>

definition code_at :: "mac \<Rightarrow> string \<Rightarrow> nat \<Rightarrow> nat \<Rightarrow> string" where
  "code_at mac secret counter digits =
     (let sum = mac secret (PutUint64 (word_of_nat counter))
      in fmt_0d digits (unat (Uint32 (take 4 (drop (byte_of (last sum) mod 16) sum)) AND 0x7fffffff) mod 10 ^ digits))"

lemma pow10_6: "pow10 6 = 1000000"
  by (simp add: numeral_eq_Suc)

lemma hotp_total:
  assumes "mac20 mac"
  shows "hotp mac secret (word_of_nat n) 6 = Some (code_at mac secret n 6)"
proof -
  let ?sum = "mac secret (PutUint64 (word_of_nat n))"
  have l: "length ?sum = 20" using assms by (simp add: mac20_def)
  moreover have "byte_of (last ?sum) mod 16 \<le> 15" by simp
  ultimately have "\<not> length ?sum < byte_of (last ?sum) mod 16 + 4" "?sum \<noteq> []" by auto
  then show ?thesis
    by (simp add: hotp_def code_at_def Let_def pow10_6 unat_mod unat_numeral)
qed

lemma length_itoa_digits: "n < 10 ^ k \<Longrightarrow> length (itoa_digits n) \<le> k"
proof (induction k arbitrary: n)
  case (Suc k)
  then have "length (itoa_digits (n div 10)) \<le> k" by (simp add: less_mult_imp_div_less mult.commute)
  then show ?case by (subst itoa_digits.simps) simp
qed (simp add: itoa_digits.simps)

lemma fmt_0d_shape:
  assumes "n < 10 ^ k" "0 < k"
  shows "length (fmt_0d k n) = k" "\<forall>c\<in>set (fmt_0d k n). digit c"
  using length_itoa_digits [OF assms(1)] assms(2) fmt_d_digits(3) [of _ n]
  by (auto simp: fmt_0d_def fmt_d_def digit_def byte_of_def split: if_splits)

lemma code_at_shape: "length (code_at mac secret n 6) = 6" "\<forall>c\<in>set (code_at mac secret n 6). digit c"
  unfolding code_at_def Let_def by (rule fmt_0d_shape; simp)+

section \<open>Which codes are accepted\<close>

definition step_of :: "time \<Rightarrow> nat" where
  "step_of t = nat (Unix t div 30)"

definition window :: "nat \<Rightarrow> nat list" where
  "window b = (if b = 0 then [0, 1] else [b - 1, b, b + 1])"

lemma Step_default:
  assumes "0 \<le> Unix t" "Unix t < 2 ^ 63"
  shows "Step t DefaultStep = word_of_nat (step_of t)" "step_of t < 2 ^ 63 div 30 + 1"
proof -
  have w: "uint (word_of_int (Unix t) :: 64 word) = Unix t"
    using assms by (simp add: uint_word_of_int)
  have q: "go_quot DefaultStep Second = 30" by (simp add: go_quot_def DefaultStep_def)
  have d: "uint (word_of_int (Unix t) div (30 :: 64 word)) = Unix t div 30"
    unfolding uint_div w by simp
  show "Step t DefaultStep = word_of_nat (step_of t)"
    unfolding Step_def q step_of_def using d assms(1)
    by (metis pos_imp_zdiv_nonneg_iff of_int_numeral of_nat_nat word_of_int_uint word_of_nat_eq_iff zero_less_numeral)
  have "Unix t div 30 < 2 ^ 63 div 30 + 1" using assms(2) by simp
  then show "step_of t < 2 ^ 63 div 30 + 1" by (simp add: step_of_def)
qed

lemma sint_small:
  assumes "n < 2 ^ 63"
  shows "sint (word_of_nat n :: 64 word) = int n"
proof -
  have "uint (word_of_nat n :: 64 word) = int n"
    using assms by (simp add: unsigned_of_nat take_bit_nat_eq_self)
  moreover have "int n < 2 ^ 63" using assms by (metis of_nat_less_iff of_nat_numeral of_nat_power)
  ultimately show ?thesis by (simp add: sint_uint signed_take_bit_int_eq_self)
qed

lemma int64_small: "- (2 ^ 63) \<le> x \<Longrightarrow> x < 2 ^ 63 \<Longrightarrow> int64 x = x"
  by (simp add: int64_def)

lemma verify_loop_window:
  assumes "mac20 mac" "b < 2 ^ 62"
  shows "verify_loop mac secret code (word_of_nat b) 6 [- 1..1] =
    Some (case find (\<lambda>s. code_at mac secret s 6 = code) (window b) of None \<Rightarrow> (0, False) | Some s \<Rightarrow> (word_of_nat s, True))"
proof -
  have l: "[- 1..1] = [-1, 0, 1 :: int]" by (simp add: upto.simps)
  have s: "sint (word_of_nat b :: 64 word) = int b" using assms(2) by (simp add: sint_small)
  have b: "int b < 2 ^ 62" using assms(2) by (metis of_nat_less_iff of_nat_numeral of_nat_power)
  have i: "int64 (int b + d) = int b + d" if "d \<in> {-1, 0, 1}" for d
    using b that by (intro int64_small) auto
  have w: "word_of_int (int b + 1) = (word_of_nat (Suc b) :: 64 word)" "word_of_int (int b) = (word_of_nat b :: 64 word)"
    "word_of_int (int (Suc c) - 1) = (word_of_nat c :: 64 word)" for c
    by (simp_all add: add.commute)
  have h: "hotp mac secret (word_of_nat c) 6 = Some (code_at mac secret c 6)" for c by (rule hotp_total [OF assms(1)])
  show ?thesis
  proof (cases b)
    case 0
    then show ?thesis using i [of 1] h [of 0] h [of 1] unfolding l verify_loop.simps s
      by (simp add: Let_def window_def int64_def)
  next
    case (Suc c)
    then show ?thesis using i [of "-1"] i [of 0] i [of 1] w(1) w(2) w(3) [of c] h [of c] h [of b] h [of "Suc b"]
      unfolding l verify_loop.simps s
      by (simp add: Let_def window_def del: of_nat_Suc)
  qed
qed

lemma totp_exact:
  assumes "mac20 mac" "0 \<le> Unix t" "Unix t < 2 ^ 62"
  shows "totp_Verify mac secret code t DefaultStep DefaultDigits 1 =
      Some (case find (\<lambda>s. code_at mac secret s 6 = code) (window (step_of t)) of
        None \<Rightarrow> (0, False) | Some s \<Rightarrow> (word_of_nat s, True))"
proof -
  have b: "step_of t < 2 ^ 62" using assms(2,3) by (auto simp: step_of_def nat_less_iff)
  show ?thesis
  proof (cases "length code = 6")
    case True
    then show ?thesis
      using verify_loop_window [OF assms(1) b] Step_default(1) [of t] assms(2,3)
      by (simp add: totp_Verify_def DefaultDigits_def)
  next
    case False
    then have "find (\<lambda>s. code_at mac secret s 6 = code) ns = None" for ns
      using code_at_shape(1) by (auto simp: find_None_iff)
    with False show ?thesis by (simp add: totp_Verify_def DefaultDigits_def)
  qed
qed

text \<open>Which one-time codes pass. At any time of this era a code is accepted exactly when it is the code of the current
  half-minute or of one of its neighbours, and the step answered is the earliest of them it belongs to; anything
  else is refused, no length of input and no counter makes the computation fail, and a code generated at most half a
  minute away is always among the accepted.\<close>

theorem totp_accepts_exactly:
  assumes "mac20 mac" "0 \<le> Unix t" "Unix t < 2 ^ 62"
  shows "totp_Verify mac secret code t DefaultStep DefaultDigits 1 =
      Some (case find (\<lambda>s. code_at mac secret s 6 = code) (window (step_of t)) of
        None \<Rightarrow> (0, False) | Some s \<Rightarrow> (word_of_nat s, True)) \<and>
    (0 \<le> Unix t' \<and> \<bar>Unix t - Unix t'\<bar> \<le> 30 \<longrightarrow>
      (\<exists>c s. Generate mac secret t' DefaultStep DefaultDigits = Some c \<and>
         totp_Verify mac secret c t DefaultStep DefaultDigits 1 = Some (s, True)))"
proof -
  note exact = totp_exact [OF assms]
  have near: "\<exists>c s. Generate mac secret t' DefaultStep DefaultDigits = Some c \<and>
      totp_Verify mac secret c t DefaultStep DefaultDigits 1 = Some (s, True)"
    if "0 \<le> Unix t'" "\<bar>Unix t - Unix t'\<bar> \<le> 30"
  proof -
    have g: "Generate mac secret t' DefaultStep DefaultDigits = Some (code_at mac secret (step_of t') 6)"
      using that assms(2,3) Step_default(1) [of t'] hotp_total [OF assms(1)]
      by (simp add: Generate_def DefaultDigits_def)
    have "step_of t' \<in> set (window (step_of t))"
    proof -
      have "Unix t' div 30 \<in> {Unix t div 30 - 1, Unix t div 30, Unix t div 30 + 1}" "0 \<le> Unix t' div 30" "0 \<le> Unix t div 30"
        using that assms(2) by auto
      then show ?thesis unfolding step_of_def window_def by (auto simp: nat_diff_distrib nat_add_distrib)
    qed
    then have "find (\<lambda>s. code_at mac secret s 6 = code_at mac secret (step_of t') 6) (window (step_of t)) \<noteq> None"
      by (auto simp: find_None_iff)
    with g show ?thesis by (auto simp: exact)
  qed
  from exact near show ?thesis by blast
qed

text \<open>The truncation example of RFC 4226, section 5.4.\<close>

definition rfc4226_sum :: string where
  "rfc4226_sum = map char_of [0x1f, 0x86, 0x98, 0x69, 0x0e, 0x02, 0xca, 0x16, 0x61, 0x85, 0x50, 0xef, 0x7f, 0x19, 0xda,
     0x8e, 0x94, 0x5b, 0x55, 0x5a :: nat]"

lemma rfc4226_code: "code_at (\<lambda>secret msg. rfc4226_sum) secret n 6 = ''872921''"
proof -
  have "Uint32 (take 4 (drop (byte_of (last rfc4226_sum) mod 16) rfc4226_sum)) = 0x50ef7f19"
    by (simp add: Uint32_def rfc4226_sum_def)
  moreover have "unat (0x50ef7f19 AND 0x7fffffff :: 32 word) = 1357872921" by simp
  moreover have "itoa_digits 0 = []" by (simp add: itoa_digits.simps)
  then have "itoa_digits 872921 = ''872921''" by (simp add: itoa_digits.simps [of "numeral k" for k] char_of_eq_iff)
  ultimately show ?thesis by (simp add: code_at_def Let_def fmt_0d_def fmt_d_def)
qed

theorem totp_accepts_exactly_witness:
  "totp_Verify (\<lambda>secret msg. rfc4226_sum) ''key'' ''872921'' (59 * Second) DefaultStep DefaultDigits 1 = Some (0, True) \<and>
   totp_Verify (\<lambda>secret msg. rfc4226_sum) ''key'' ''872922'' (59 * Second) DefaultStep DefaultDigits 1 = Some (0, False)"
proof -
  have m: "mac20 (\<lambda>secret msg. rfc4226_sum)" by (simp add: mac20_def rfc4226_sum_def)
  show ?thesis
    using totp_accepts_exactly [OF m, of "59 * Second" "''key''" "''872921''"]
      totp_accepts_exactly [OF m, of "59 * Second" "''key''" "''872922''"]
    by (simp add: rfc4226_code Unix_def window_def step_of_def)
qed

end
