(* ===== verification/Sign_In.thy ===== *)
theory Sign_In
  imports Token_Lifecycle Credential_Store Password_Hash Local_Token Totp
begin

text \<open>
  \<^verbatim>\<open>internal/auth/app/signin\<close> and \<^verbatim>\<open>internal/auth/app/mfa\<close>: what a password is worth. \<open>Authenticate\<close> resolves tenant, population,
  person and credential, verifies once and applies the population's factor policy; the API door turns its decision into
  tokens, a second-factor challenge or an enrolment grant; \<open>VerifyMfa_Execute\<close> redeems a challenge with a one-time code.

  \<open>SignEnv\<close> holds what sign-in asks elsewhere: the hash of the dummy password, PostgreSQL's \<^verbatim>\<open>lower()\<close>, the population of a
  code, and the JSON codecs of the sealed states. Each read of the random source has its own index; 0 to 2 are the
  issuer's. A panic of the code computation is an internal error of the request.
\<close>

section \<open>Values\<close>

record MFAState =
  MS_TenantID :: string
  MS_TenantSlug :: string
  MS_IdentityID :: string
  MS_RealmID :: string
  MS_ClientID :: string
  MS_DeviceFP :: string
  MS_Methods :: "string list"
  MS_IP :: string
  MS_UserAgent :: string

record EnrolmentGrant =
  EG_TenantID :: string
  EG_TenantSlug :: string
  EG_IdentityID :: string
  EG_RealmID :: string
  EG_Factors :: "string list"

record EnrollmentState =
  ES_IdentityID :: string
  ES_TenantID :: string
  ES_Secret :: string
  ES_Issuer :: string
  ES_Account :: string

record MFAChallenge =
  MC_MFAToken :: string
  MC_Methods :: "string list"
  MC_ExpiresIn :: int

record EnrolmentChallenge =
  EC_Factors :: "string list"
  EC_Deadline :: time
  EC_GrantToken :: string
  EC_ExpiresIn :: int

datatype SignStep = StepDeny | StepFactor | StepEnrol | StepAllow

record LoginDecision =
  LD_Step :: SignStep
  LD_Tenant :: "TenantRef option"
  LD_Realm :: "Realm option"
  LD_Identity :: "DomainIdentity option"
  LD_Methods :: "string list"
  LD_Missing :: "string list"
  LD_Deadline :: time
  LD_Due :: bool
  LD_Err :: "apperr option"

record LoginInput =
  LI_Tenant :: string
  LI_Realm :: string
  LI_Username :: string
  LI_Password :: string
  LI_ClientID :: string
  LI_DeviceFP :: string

record LoginOutput =
  LO_Tokens :: "TokenPair option"
  LO_MFA :: "MFAChallenge option"
  LO_Enrolment :: "EnrolmentChallenge option"

record SignEnv =
  Sg_issuer :: IssuerEnv
  Sg_kdf :: kdf
  Sg_dummy :: string
  Sg_lower :: "string \<Rightarrow> string"
  Sg_RealmByCode :: "string \<Rightarrow> string \<Rightarrow> Realm option result"
  Sg_aead :: aead
  Sg_mac :: mac
  Sg_mfa_Marshal :: "MFAState \<Rightarrow> string option"
  Sg_mfa_Unmarshal :: "string \<Rightarrow> MFAState option"
  Sg_grant_Marshal :: "EnrolmentGrant \<Rightarrow> string option"
  Sg_grant_Unmarshal :: "string \<Rightarrow> EnrolmentGrant option"
  Sg_enrol_Marshal :: "EnrollmentState \<Rightarrow> string option"
  Sg_enrol_Unmarshal :: "string \<Rightarrow> EnrollmentState option"
  Sg_device_Marshal :: "string \<Rightarrow> string \<Rightarrow> string"
  Sg_device_Unmarshal :: "string \<Rightarrow> (string \<times> string) option"
  Sg_ProvisioningURI :: "string \<Rightarrow> string \<Rightarrow> string"
  Sg_RFC3339 :: "time \<Rightarrow> string"

definition AMRPassword :: string where "AMRPassword = ''pwd''"
definition AMROTP :: string where "AMROTP = ''otp''"
definition AMRDevice :: string where "AMRDevice = ''device_key''"

definition SurfaceAPI :: string where "SurfaceAPI = ''api''"
definition SurfaceBrowser :: string where "SurfaceBrowser = ''browser''"

definition deny :: "TenantRef option \<Rightarrow> Realm option \<Rightarrow> DomainIdentity option \<Rightarrow> apperr \<Rightarrow> LoginDecision" where
  "deny tenant realm identity e =
     \<lparr>LD_Step = StepDeny, LD_Tenant = tenant, LD_Realm = realm, LD_Identity = identity, LD_Methods = [], LD_Missing = [],
      LD_Deadline = zero_time, LD_Due = False, LD_Err = Some e\<rparr>"

definition sign_emit :: "AuthEvent \<Rightarrow> SignDB \<Rightarrow> SignDB" where
  "sign_emit e db = db\<lparr>SD_auth := Emit e (SD_auth db)\<rparr>"

section \<open>password\_authenticator.go\<close>

definition AuditLogin ::
  "SignEnv \<Rightarrow> TenantRef option \<Rightarrow> DomainIdentity option \<Rightarrow> string \<Rightarrow> string \<Rightarrow> string \<Rightarrow> string \<Rightarrow> SignDB \<Rightarrow> SignDB" where
  "AuditLogin ev tenant identity surface res detail sessionID db =
     (case tenant of None \<Rightarrow> db | Some t \<Rightarrow>
      sign_emit \<lparr>AE_TenantID = Tn_ID t, AE_ActorID = (case identity of None \<Rightarrow> [] | Some i \<Rightarrow> Id_ID i), AE_ActorKind = ''identity'',
        AE_SessionID = sessionID, AE_TargetID = [], AE_Action = ''auth.login'', AE_Result = res, AE_IP = Is_ip (Sg_issuer ev),
        AE_Detail = [(''detail'', detail), (''surface'', surface)]\<rparr> db)"

definition enrolledFactorKinds :: "SignEnv \<Rightarrow> string \<Rightarrow> SignDB \<Rightarrow> string list result" where
  "enrolledFactorKinds ev who db =
     (case ActiveCredentialKinds (Is_db (Sg_issuer ev)) who db of
        Inl e \<Rightarrow> Inl ErrInternal
      | Inr kinds \<Rightarrow> Inr (filter (\<lambda>k. k = ''totp'' \<or> k = ''device_key'') kinds))"

definition allowedOf :: "Realm \<Rightarrow> string list \<Rightarrow> string list" where
  "allowedOf realm kinds = filter (AllowsFactor realm) kinds"

definition FactorPolicy ::
  "SignEnv \<Rightarrow> TenantRef \<Rightarrow> Realm \<Rightarrow> DomainIdentity \<Rightarrow> string \<Rightarrow> SignDB \<Rightarrow> SignDB \<times> LoginDecision" where
  "FactorPolicy ev tenant realm identity surface db =
     (let d = \<lparr>LD_Step = StepDeny, LD_Tenant = Some tenant, LD_Realm = Some realm, LD_Identity = Some identity, LD_Methods = [],
          LD_Missing = [], LD_Deadline = Rm_FactorEnrolmentDeadline realm, LD_Due = False, LD_Err = None\<rparr>;
          log = (\<lambda>res detail. AuditLogin ev (Some tenant) (Some identity) surface res detail [] db)
      in case enrolledFactorKinds ev (Id_ID identity) db of
        Inl e \<Rightarrow> (log ''deny'' ''factor_lookup_failed'', d\<lparr>LD_Err := Some e\<rparr>)
      | Inr enrolled \<Rightarrow>
          let methods = allowedOf realm enrolled in
          if methods \<noteq> [] then (log ''allow'' ''mfa_challenge'', d\<lparr>LD_Step := StepFactor, LD_Methods := methods\<rparr>)
          else (case EnrolmentStanceFor realm enrolled (Is_clock (Sg_issuer ev)) of (stance, missing) \<Rightarrow>
            if stance = EnrolmentOverdue then (log ''deny'' ''enrolment_required'', d\<lparr>LD_Step := StepEnrol, LD_Missing := missing\<rparr>)
            else (db, d\<lparr>LD_Step := StepAllow, LD_Missing := missing, LD_Due := (stance = EnrolmentDue)\<rparr>)))"

definition replaceHash :: "SignEnv \<Rightarrow> string \<Rightarrow> Credential \<Rightarrow> string \<Rightarrow> SignDB \<Rightarrow> SignDB" where
  "replaceHash ev tenantID cred newHash db =
     (let dev = Is_db (Sg_issuer ev) in
      case Cr_ExpiresAt cred of
        None \<Rightarrow> (case UpdateCredentialSecret dev (Cr_ID cred) newHash [] db of Inl e \<Rightarrow> db | Inr db' \<Rightarrow> db')
      | Some _ \<Rightarrow>
          (case CreateCredential dev 0 \<lparr>CI_IdentityID = Cr_IdentityID cred, CI_TenantID = tenantID, CI_Kind = ''password'',
                  CI_Secret = newHash, CI_LookupKey = [], CI_Label = [], CI_Params = [], CI_ExpiresAt = None\<rparr> db of
             Inl e \<Rightarrow> db
           | Inr (_, db1) \<Rightarrow> (case RevokeCredential dev tenantID (Cr_ID cred) db1 of Inl e \<Rightarrow> db1 | Inr db2 \<Rightarrow> db2)))"

text \<open>The resolution before the one verify call: nothing is refused yet, whatever is missing stays absent.\<close>

definition resolve ::
  "SignEnv \<Rightarrow> LoginInput \<Rightarrow> SignDB \<Rightarrow> TenantRef option \<times> Realm option \<times> DomainIdentity option \<times> Credential option" where
  "resolve ev i db =
     (let dev = Is_db (Sg_issuer ev) in
      case Is_TenantBySlug (Sg_issuer ev) (LI_Tenant i) of
        Inr (Some tenant) \<Rightarrow>
          (case Sg_RealmByCode ev (Tn_ID tenant) (LI_Realm i) of
             Inr (Some realm) \<Rightarrow>
               if AllowsFactor realm ''password'' then
                 (case IdentityForLogin (Sg_lower ev) dev (Tn_ID tenant) (Rm_ID realm) (LI_Username i) db of
                    Inl e \<Rightarrow> (Some tenant, Some realm, None, None)
                  | Inr identity \<Rightarrow> (Some tenant, Some realm, Some identity,
                      (case PasswordCredential dev (Id_ID identity) db of Inl e \<Rightarrow> None | Inr c \<Rightarrow> Some c)))
               else (Some tenant, Some realm, None, None)
           | _ \<Rightarrow> (Some tenant, None, None, None))
      | _ \<Rightarrow> (None, None, None, None))"

text \<open>The codes \<^verbatim>\<open>apperr\<close> gives the refusals of \<open>CanAuthenticate\<close>.\<close>

definition refusal_code :: "apperr \<Rightarrow> string" where
  "refusal_code e =
     (if e = ErrIdentityDisabled then ''account_disabled'' else if e = ErrIdentityLocked then ''account_locked''
      else ''invalid_credentials'')"

definition rehash :: "SignEnv \<Rightarrow> bool \<Rightarrow> TenantRef \<Rightarrow> Credential \<Rightarrow> string \<Rightarrow> SignDB \<Rightarrow> SignDB" where
  "rehash ev needsRehash tenant cred password db =
     (if needsRehash then
        (case kdf_Hash (Sg_kdf ev) (Is_rand (Sg_issuer ev) 3 saltLen) password of
           None \<Rightarrow> db | Some newHash \<Rightarrow> replaceHash ev (Tn_ID tenant) cred newHash db)
      else db)"

definition Authenticate :: "SignEnv \<Rightarrow> LoginInput \<Rightarrow> string \<Rightarrow> SignDB \<Rightarrow> SignDB \<times> LoginDecision" where
  "Authenticate ev i0 surface db =
     (let i = (if LI_Realm i0 = [] then i0\<lparr>LI_Realm := ''internal''\<rparr> else i0) in
      if \<not> ValidSlug (LI_Tenant i) \<or> \<not> ValidUsername (LI_Username i) \<or> LI_Password i = [] \<or> length (LI_Password i) > 512
      then (db, deny None None None ErrInvalidCredentials)
      else case resolve ev i db of (tenant, realm, identity, cred) \<Rightarrow>
        let hash = (case cred of None \<Rightarrow> Sg_dummy ev | Some c \<Rightarrow> if Cr_Secret c \<noteq> [] then Cr_Secret c else Sg_dummy ev) in
        (case (kdf_Verify (Sg_kdf ev) (LI_Password i) hash, cred, identity, realm, tenant) of
           (Inr (True, needsRehash), Some c, Some ident, Some rl, Some tn) \<Rightarrow>
             (case CanAuthenticate ident of
                Inl e \<Rightarrow> (AuditLogin ev tenant identity surface ''deny'' (refusal_code e) [] db, deny tenant realm identity e)
              | Inr _ \<Rightarrow>
                  if Cred_Expired c (Is_clock (Sg_issuer ev)) then
                    (AuditLogin ev tenant identity surface ''deny'' ''credential_expired'' [] db, deny tenant realm identity ErrInvalidCredentials)
                  else FactorPolicy ev tn rl ident surface (rehash ev needsRehash tn c (LI_Password i) db))
         | _ \<Rightarrow> (AuditLogin ev tenant identity surface ''deny'' ''invalid_credentials'' [] db,
                 deny tenant realm None ErrInvalidCredentials)))"

definition MissingFactors :: "SignEnv \<Rightarrow> Realm \<Rightarrow> string \<Rightarrow> SignDB \<Rightarrow> string list result" where
  "MissingFactors ev realm who db =
     (case enrolledFactorKinds ev who db of Inl e \<Rightarrow> Inl e
      | Inr enrolled \<Rightarrow> Inr (snd (EnrolmentStanceFor realm enrolled (Is_clock (Sg_issuer ev)))))"

section \<open>enrolment\_granter.go\<close>

definition enrolGrantTTL :: duration where "enrolGrantTTL = 15 * 60 * Second"
definition mfaTokenTTL :: duration where "mfaTokenTTL = 60 * Second"

text \<open>\<^verbatim>\<open>localtoken.Seal\<close> under the active local key: the key, then a fresh identifier, then a nonce.\<close>

definition seal_state :: "SignEnv \<Rightarrow> nat \<Rightarrow> string \<Rightarrow> string option \<Rightarrow> duration \<Rightarrow> (string \<times> string) option" where
  "seal_state ev k purpose raw ttl =
     (case ActiveLocal (Is_ring (Sg_issuer ev)) of Inl e \<Rightarrow> None | Inr key \<Rightarrow>
      case secret_New (Sg_issuer ev) k 16 of None \<Rightarrow> None | Some jti \<Rightarrow>
      case local_Seal (Sg_aead ev) (Is_rand (Sg_issuer ev) (Suc k) nonceSize) (Key_Secret key) (Key_Kid key) purpose jti raw ttl
             (Is_clock (Sg_issuer ev)) of
        None \<Rightarrow> None | Some token \<Rightarrow> Some (jti, token))"

definition Granter_Grant :: "SignEnv \<Rightarrow> TenantRef \<Rightarrow> Realm \<Rightarrow> DomainIdentity \<Rightarrow> string list \<Rightarrow> EnrolmentChallenge result" where
  "Granter_Grant ev tenant realm identity missing =
     (case seal_state ev 6 ''enrol_grant'' (Sg_grant_Marshal ev \<lparr>EG_TenantID = Tn_ID tenant, EG_TenantSlug = Tn_Slug tenant,
             EG_IdentityID = Id_ID identity, EG_RealmID = Rm_ID realm, EG_Factors = missing\<rparr>) enrolGrantTTL of
        None \<Rightarrow> Inl ErrInternal
      | Some (_, token) \<Rightarrow> Inr \<lparr>EC_Factors = missing, EC_Deadline = Rm_FactorEnrolmentDeadline realm, EC_GrantToken = token,
          EC_ExpiresIn = go_quot enrolGrantTTL Second\<rparr>)"

section \<open>login\_interactor.go\<close>

definition mintMFAChallenge ::
  "SignEnv \<Rightarrow> TenantRef \<Rightarrow> Realm \<Rightarrow> DomainIdentity \<Rightarrow> LoginInput \<Rightarrow> string list \<Rightarrow> SignDB \<Rightarrow> (MFAChallenge \<times> SignDB) result" where
  "mintMFAChallenge ev tenant realm identity i methods db =
     (case seal_state ev 4 ''mfa'' (Sg_mfa_Marshal ev \<lparr>MS_TenantID = Tn_ID tenant, MS_TenantSlug = Tn_Slug tenant,
             MS_IdentityID = Id_ID identity, MS_RealmID = Rm_ID realm, MS_ClientID = LI_ClientID i, MS_DeviceFP = LI_DeviceFP i,
             MS_Methods = methods, MS_IP = Is_ip (Sg_issuer ev), MS_UserAgent = Is_userAgent (Sg_issuer ev)\<rparr>) mfaTokenTTL of
        None \<Rightarrow> Inl ErrInternal
      | Some (jti, token) \<Rightarrow>
          (case CreateOneTime (Is_db (Sg_issuer ev)) (Tn_ID tenant) ''mfa'' (Is_hash (Sg_issuer ev) jti) ''{}''
                  (Is_clock (Sg_issuer ev) + mfaTokenTTL) db of
             Inl e \<Rightarrow> Inl ErrInternal
           | Inr (_, db') \<Rightarrow> Inr (\<lparr>MC_MFAToken = token, MC_Methods = methods, MC_ExpiresIn = go_quot mfaTokenTTL Second\<rparr>, db')))"

text \<open>\<^verbatim>\<open>establishSession\<close> repeats the body of \<open>Establish\<close>, statement by statement.\<close>

definition establishSession ::
  "SignEnv \<Rightarrow> TenantRef \<Rightarrow> Realm \<Rightarrow> string \<Rightarrow> string \<Rightarrow> string \<Rightarrow> string list \<Rightarrow> SignDB \<Rightarrow> SignDB \<times> TokenPair result" where
  "establishSession ev tenant realm who client fp amr db =
     (case Establish (Sg_issuer ev) tenant realm who client fp amr (SD_auth db) of (a, r) \<Rightarrow> (db\<lparr>SD_auth := a\<rparr>, r))"

definition Login_Execute :: "SignEnv \<Rightarrow> LoginInput \<Rightarrow> SignDB \<Rightarrow> SignDB \<times> LoginOutput result" where
  "Login_Execute ev i db =
     (case Authenticate ev i SurfaceAPI db of (db1, d) \<Rightarrow>
      case (LD_Step d, LD_Tenant d, LD_Realm d, LD_Identity d) of
        (StepFactor, Some tenant, Some realm, Some identity) \<Rightarrow>
          (case mintMFAChallenge ev tenant realm identity i (LD_Methods d) db1 of
             Inl e \<Rightarrow> (db1, Inl e)
           | Inr (c, db2) \<Rightarrow> (db2, Inr \<lparr>LO_Tokens = None, LO_MFA = Some c, LO_Enrolment = None\<rparr>))
      | (StepEnrol, Some tenant, Some realm, Some identity) \<Rightarrow>
          (case Granter_Grant ev tenant realm identity (LD_Missing d) of
             Inl e \<Rightarrow> (db1, Inl e)
           | Inr c \<Rightarrow> (db1, Inr \<lparr>LO_Tokens = None, LO_MFA = None, LO_Enrolment = Some c\<rparr>))
      | (StepAllow, Some tenant, Some realm, Some identity) \<Rightarrow>
          (case establishSession ev tenant realm (Id_ID identity) (LI_ClientID i) (LI_DeviceFP i) [AMRPassword] db1 of
             (db2, Inl e) \<Rightarrow> (db2, Inl e)
           | (db2, Inr pair) \<Rightarrow>
               (AuditLogin ev (Some tenant) (Some identity) SurfaceAPI ''allow'' ''password'' [] db2,
                Inr \<lparr>LO_Tokens = Some pair, LO_MFA = None,
                  LO_Enrolment = (if LD_Due d then Some \<lparr>EC_Factors = LD_Missing d, EC_Deadline = LD_Deadline d,
                    EC_GrantToken = [], EC_ExpiresIn = 0\<rparr> else None)\<rparr>))
      | _ \<Rightarrow> (db1, Inl (case LD_Err d of None \<Rightarrow> ErrInternal | Some e \<Rightarrow> e)))"

section \<open>verify\_mfa\_interactor.go\<close>

record VerifyMfaInput =
  VM_MFAToken :: string
  VM_Method :: string
  VM_Code :: string

text \<open>Opening a sealed state: the key it names, its purpose and its lifetime.\<close>

definition open_local :: "SignEnv \<Rightarrow> string \<Rightarrow> string \<Rightarrow> (string \<times> string) option" where
  "open_local ev purpose token =
     (case local_Kid token of Inl e \<Rightarrow> None | Inr kid \<Rightarrow>
      case Lookup (Is_ring (Sg_issuer ev)) kid of Inl e \<Rightarrow> None | Inr key \<Rightarrow>
      if length (Key_Secret key) = 0 then None
      else case local_Open (Sg_aead ev) (Key_Secret key) token purpose (Is_clock (Sg_issuer ev)) of Inl e \<Rightarrow> None | Inr x \<Rightarrow> Some x)"

definition openState :: "SignEnv \<Rightarrow> string \<Rightarrow> SignDB \<Rightarrow> SignDB \<times> MFAState result" where
  "openState ev token db =
     (case open_local ev ''mfa'' token of None \<Rightarrow> (db, Inl ErrMfaInvalid) | Some (jti, raw) \<Rightarrow>
      case ConsumeOneTime (Is_db (Sg_issuer ev)) ''mfa'' (Is_hash (Sg_issuer ev) jti) db of
        Inl e \<Rightarrow> (db, Inl ErrMfaInvalid)
      | Inr (_, db') \<Rightarrow>
          (case Sg_mfa_Unmarshal ev raw of None \<Rightarrow> (db', Inl ErrMfaInvalid) | Some state \<Rightarrow> (db', Inr state)))"

definition mfa_event :: "MFAState \<Rightarrow> string \<Rightarrow> AuthEvent" where
  "mfa_event state res =
     \<lparr>AE_TenantID = MS_TenantID state, AE_ActorID = MS_IdentityID state, AE_ActorKind = ''identity'', AE_SessionID = [],
      AE_TargetID = [], AE_Action = ''auth.mfa'', AE_Result = res, AE_IP = MS_IP state, AE_Detail = [(''method'', ''totp'')]\<rparr>"

text \<open>The shared secret of an authenticator, opened under the key it was sealed with; a row from before names were
  kept is written back with the name.\<close>

definition shared_secret :: "SignEnv \<Rightarrow> Credential \<Rightarrow> SignDB \<Rightarrow> (string \<times> SignDB) result" where
  "shared_secret ev cred db =
     (case std_DecodeString (Cr_Secret cred) of None \<Rightarrow> Inl ErrInternal | Some sealed \<Rightarrow>
      case OpenNamedSecret (Sg_aead ev) (Is_ring (Sg_issuer ev)) (Cr_SecretKid cred) (''totp:'' @ Cr_ID cred) sealed of
        Inl e \<Rightarrow> Inl ErrInternal
      | Inr (s, usedKid) \<Rightarrow>
          if Cr_SecretKid cred = [] then
            (case UpdateCredentialSecret (Is_db (Sg_issuer ev)) (Cr_ID cred) (Cr_Secret cred) usedKid db of
               Inl e \<Rightarrow> Inl ErrInternal | Inr db' \<Rightarrow> Inr (s, db'))
          else Inr (s, db))"

text \<open>The verdict on a code: the step it matched, if no caller before used that step or a newer one.\<close>

definition accept_code :: "SignEnv \<Rightarrow> Credential \<Rightarrow> string \<Rightarrow> string \<Rightarrow> SignDB \<Rightarrow> (bool \<times> SignDB) result" where
  "accept_code ev cred secret code db =
     (case totp_Verify (Sg_mac ev) secret code (Is_clock (Sg_issuer ev)) DefaultStep DefaultDigits 1 of
        None \<Rightarrow> Inl ErrInternal
      | Some (step, False) \<Rightarrow> Inr (False, db)
      | Some (step, True) \<Rightarrow>
          (case AdvanceCredentialStep (Is_db (Sg_issuer ev)) (Cr_ID cred) step db of Inl e \<Rightarrow> Inl ErrInternal | Inr x \<Rightarrow> Inr x))"

definition finish_mfa :: "SignEnv \<Rightarrow> MFAState \<Rightarrow> SignDB \<Rightarrow> SignDB \<times> TokenPair result" where
  "finish_mfa ev state db =
     (case Is_TenantByID (Sg_issuer ev) (MS_TenantID state) of Inl e \<Rightarrow> (db, Inl ErrInternal) | Inr tenant \<Rightarrow>
      case IdentityByID (Is_db (Sg_issuer ev)) (MS_TenantID state) (MS_IdentityID state) db of Inl e \<Rightarrow> (db, Inl ErrMfaInvalid) | Inr identity \<Rightarrow>
      case CanAuthenticate identity of Inl e \<Rightarrow> (db, Inl e) | Inr _ \<Rightarrow>
      case Is_RealmByID (Sg_issuer ev) (MS_RealmID state) of
        Inr (Some realm) \<Rightarrow>
          (case establishSession ev tenant realm (Id_ID identity) (MS_ClientID state) (MS_DeviceFP state) [AMRPassword, AMROTP] db of
             (db', Inl e) \<Rightarrow> (db', Inl e)
           | (db', Inr pair) \<Rightarrow> (sign_emit (mfa_event state ''allow'') db', Inr pair))
      | _ \<Rightarrow> (db, Inl ErrMfaInvalid))"

definition VerifyMfa_Execute :: "SignEnv \<Rightarrow> VerifyMfaInput \<Rightarrow> SignDB \<Rightarrow> SignDB \<times> TokenPair result" where
  "VerifyMfa_Execute ev i db =
     (case openState ev (VM_MFAToken i) db of
        (db1, Inl e) \<Rightarrow> (db1, Inl e)
      | (db1, Inr state) \<Rightarrow>
          if VM_Method i \<noteq> ''totp'' then (db1, Inl ErrMfaInvalid)
          else case ActiveCredentialOfKind (Is_db (Sg_issuer ev)) (MS_IdentityID state) ''totp'' db1 of
            Inl e \<Rightarrow> (db1, Inl ErrMfaInvalid)
          | Inr cred \<Rightarrow>
              (case shared_secret ev cred db1 of Inl e \<Rightarrow> (db1, Inl e) | Inr (secret, db2) \<Rightarrow>
               case accept_code ev cred secret (VM_Code i) db2 of Inl e \<Rightarrow> (db2, Inl e) | Inr (fresh, db3) \<Rightarrow>
               if \<not> fresh then (sign_emit (mfa_event state ''deny'') db3, Inl ErrMfaInvalid)
               else finish_mfa ev state db3))"

end
