(* ===== verification/Factors.thy ===== *)
theory Factors
  imports Sign_In
begin

text \<open>
  How ways of signing in come and go: \<^verbatim>\<open>internal/auth/app/enroll\<close> (authenticators and device keys a person adds),
  \<^verbatim>\<open>internal/auth/app/device\<close> (signing in with a device key), and the credential administration of
  \<^verbatim>\<open>internal/identity/app/identity_admin_interactor.go\<close>. Rendering the provisioning address and a date are parameters.
\<close>

unbundle bit_operations_syntax

section \<open>enrollment\_interactor.go\<close>

definition enrollTTL :: duration where "enrollTTL = 10 * 60 * Second"
definition recoveryCodeCount :: nat where "recoveryCodeCount = 10"
definition maxDeviceKeys :: nat where "maxDeviceKeys = 10"
definition bindingWindow :: duration where "bindingWindow = 10 * 60 * Second"

definition mayBindAuthenticator :: "Principal \<Rightarrow> time \<Rightarrow> unit result" where
  "mayBindAuthenticator p now =
     (if \<not> FirstParty p then Inl ErrPermissionDenied
      else if time_sub now (Pr_AuthTime p) > bindingWindow then Inl ErrStepUpRequired
      else Inr ())"

definition grant_principal :: "EnrolmentGrant \<Rightarrow> Principal" where
  "grant_principal g = \<lparr>Pr_IdentityID = EG_IdentityID g, Pr_TenantID = EG_TenantID g, Pr_TenantSlug = [], Pr_SessionID = [],
     Pr_Realm = [], Pr_Roles = [], Pr_Scopes = [], Pr_AMR = [], Pr_AuthTime = zero_time, Pr_IAL = 0, Pr_Epoch = 0,
     Pr_Audience = [], Pr_Service = False, Pr_Platform = False, Pr_Token = []\<rparr>"

definition enrol_caller :: "SignEnv \<Rightarrow> Principal option \<Rightarrow> string \<Rightarrow> SignDB \<Rightarrow> Principal result" where
  "enrol_caller ev ctx grantToken db =
     (if grantToken = [] then
        (case ctx of None \<Rightarrow> Inl ErrUnauthenticated | Some p \<Rightarrow>
         if Pr_Service p then Inl ErrUnauthenticated
         else (case mayBindAuthenticator p (Is_clock (Sg_issuer ev)) of Inl e \<Rightarrow> Inl e | Inr _ \<Rightarrow> Inr p))
      else case open_local ev ''enrol_grant'' grantToken of None \<Rightarrow> Inl ErrUnauthenticated | Some (_, raw) \<Rightarrow>
        case Sg_grant_Unmarshal ev raw of None \<Rightarrow> Inl ErrUnauthenticated | Some grant \<Rightarrow>
        case ActiveCredentialKinds (Is_db (Sg_issuer ev)) (EG_IdentityID grant) db of Inl e \<Rightarrow> Inl ErrInternal | Inr kinds \<Rightarrow>
        if list_ex (\<lambda>k. k = ''totp'') kinds then Inl ErrConflict else Inr (grant_principal grant))"

text \<open>\<^verbatim>\<open>base32Secret\<close>: the accumulator is a 64-bit \<^verbatim>\<open>uint\<close>, so its high bits fall off.\<close>

definition base32_alpha :: string where "base32_alpha = ''ABCDEFGHIJKLMNOPQRSTUVWXYZ234567''"

function base32_emit :: "64 word \<Rightarrow> nat \<Rightarrow> string \<Rightarrow> string \<times> nat" where
  "base32_emit buf bits out =
     (if bits \<ge> 5 then base32_emit buf (bits - 5) (out @ [base32_alpha ! unat (drop_bit (bits - 5) buf AND 31)]) else (out, bits))"
  by pat_completeness auto
termination by (relation "measure (\<lambda>(buf, bits, out). bits)") auto

declare base32_emit.simps [simp del]

fun base32_loop :: "64 word \<Rightarrow> nat \<Rightarrow> string \<Rightarrow> string \<Rightarrow> string" where
  "base32_loop buf bits out [] =
     (if bits > 0 then out @ [base32_alpha ! unat (push_bit (5 - bits) buf AND 31)] else out)"
| "base32_loop buf bits out (c # cs) =
     (let buf1 = push_bit 8 buf OR word_of_nat (byte_of c) in
      case base32_emit buf1 (bits + 8) out of (out1, bits1) \<Rightarrow> base32_loop buf1 bits1 out1 cs)"

definition base32Secret :: "string \<Rightarrow> string" where
  "base32Secret b = base32_loop 0 0 [] b"

record TOTPEnrollment =
  TE_ProvisioningURI :: string
  TE_Secret :: string
  TE_EnrollmentToken :: string
  TE_ExpiresIn :: int

definition BeginTOTP :: "SignEnv \<Rightarrow> Principal option \<Rightarrow> string \<Rightarrow> SignDB \<Rightarrow> (TOTPEnrollment \<times> SignDB) result" where
  "BeginTOTP ev ctx grantToken db =
     (case enrol_caller ev ctx grantToken db of Inl e \<Rightarrow> Inl e | Inr p \<Rightarrow>
      case IdentityByID (Is_db (Sg_issuer ev)) (Pr_TenantID p) (Pr_IdentityID p) db of Inl e \<Rightarrow> Inl ErrNotFound | Inr identity \<Rightarrow>
      case Is_rand (Sg_issuer ev) 8 20 of None \<Rightarrow> Inl ErrInternal | Some sharedSecret \<Rightarrow>
      case seal_state ev 9 ''totp_enroll'' (Sg_enrol_Marshal ev \<lparr>ES_IdentityID = Pr_IdentityID p, ES_TenantID = Pr_TenantID p,
             ES_Secret = sharedSecret, ES_Issuer = ''Anubis'', ES_Account = Id_Username identity\<rparr>) enrollTTL of
        None \<Rightarrow> Inl ErrInternal
      | Some (jti, token) \<Rightarrow>
          (case CreateOneTime (Is_db (Sg_issuer ev)) (Pr_TenantID p) ''mfa'' (Is_hash (Sg_issuer ev) jti)
                  ''{\"purpose\":\"totp_enroll\"}'' (Is_clock (Sg_issuer ev) + enrollTTL) db of
             Inl e \<Rightarrow> Inl ErrInternal
           | Inr (_, db') \<Rightarrow> Inr (\<lparr>TE_ProvisioningURI = Sg_ProvisioningURI ev sharedSecret (Id_Username identity),
               TE_Secret = base32Secret sharedSecret, TE_EnrollmentToken = token, TE_ExpiresIn = go_quot enrollTTL Second\<rparr>, db')))"

text \<open>\<^verbatim>\<open>secret.Hex\<close>.\<close>

definition secret_Hex :: "string \<Rightarrow> string" where
  "secret_Hex b = concat (map (\<lambda>c. let w = word_of_nat (byte_of c) :: 8 word in [hex_digit (drop_bit 4 w), hex_digit (w AND 0xf)]) b)"

text \<open>Ten fresh recovery codes, of which only the hashes are stored; the \<open>k\<close>-th takes the \<open>k\<close>-th secret and id.\<close>

fun recovery_loop :: "SignEnv \<Rightarrow> Principal \<Rightarrow> nat \<Rightarrow> nat \<Rightarrow> string list \<Rightarrow> SignDB \<Rightarrow> (string list \<times> SignDB) result" where
  "recovery_loop ev p k 0 codes db = Inr (codes, db)"
| "recovery_loop ev p k (Suc n) codes db =
     (case secret_New (Sg_issuer ev) (20 + k) 10 of None \<Rightarrow> Inl ErrInternal | Some plain \<Rightarrow>
      case CreateCredential (Is_db (Sg_issuer ev)) (Suc k) \<lparr>CI_IdentityID = Pr_IdentityID p, CI_TenantID = Pr_TenantID p,
             CI_Kind = ''recovery_code'', CI_Secret = secret_Hex (Is_hash (Sg_issuer ev) plain), CI_LookupKey = [],
             CI_Label = ''recovery'', CI_Params = [], CI_ExpiresAt = None\<rparr> db of
        Inl e \<Rightarrow> Inl e
      | Inr (_, db') \<Rightarrow> recovery_loop ev p (Suc k) n (codes @ [plain]) db')"

definition confirm_tx ::
  "SignEnv \<Rightarrow> Principal \<Rightarrow> EnrollmentState \<Rightarrow> 64 word \<Rightarrow> Key \<Rightarrow> SignDB \<Rightarrow> ((string \<times> string list) \<times> SignDB) result" where
  "confirm_tx ev p state step master db =
     (let dev = Is_db (Sg_issuer ev) in
      and_then (RevokeCredentialsOfKind dev (Pr_IdentityID p) ''totp'' db) (\<lambda>db1.
      and_then (CreateCredential dev 0 \<lparr>CI_IdentityID = Pr_IdentityID p, CI_TenantID = Pr_TenantID p, CI_Kind = ''totp'', CI_Secret = [],
          CI_LookupKey = [], CI_Label = ''authenticator'', CI_Params = [(''last_step'', JNumber (uint step))], CI_ExpiresAt = None\<rparr> db1) (\<lambda>(credID, db2).
      case SealSecret (Sg_aead ev) (Is_rand (Sg_issuer ev) 11 12) (Key_Secret master) (''totp:'' @ credID) (ES_Secret state) of
        None \<Rightarrow> Inl ErrInternal
      | Some sealed \<Rightarrow>
          and_then (UpdateCredentialSecret dev credID (std_EncodeToString sealed) (Key_Kid master) db2) (\<lambda>db3.
          and_then (RevokeCredentialsOfKind dev (Pr_IdentityID p) ''recovery_code'' db3) (\<lambda>db4.
          and_then (recovery_loop ev p 0 recoveryCodeCount [] db4) (\<lambda>(codes, db5). Inr ((credID, codes), db5)))))))"

definition enrol_event :: "SignEnv \<Rightarrow> Principal \<Rightarrow> string \<Rightarrow> string \<Rightarrow> (string, string) gomap \<Rightarrow> AuthEvent" where
  "enrol_event ev p action target detail = identity_event (Sg_issuer ev) p action target detail"

definition ConfirmTOTP ::
  "SignEnv \<Rightarrow> Principal option \<Rightarrow> string \<Rightarrow> string \<Rightarrow> string \<Rightarrow> SignDB \<Rightarrow> SignDB \<times> (string \<times> string list) result" where
  "ConfirmTOTP ev ctx enrollmentToken code grantToken db =
     (case enrol_caller ev ctx grantToken db of Inl e \<Rightarrow> (db, Inl e) | Inr p \<Rightarrow>
      case open_local ev ''totp_enroll'' enrollmentToken of None \<Rightarrow> (db, Inl ErrMfaInvalid) | Some (jti, raw) \<Rightarrow>
      case Sg_enrol_Unmarshal ev raw of None \<Rightarrow> (db, Inl ErrMfaInvalid) | Some state \<Rightarrow>
      if ES_IdentityID state \<noteq> Pr_IdentityID p \<or> ES_TenantID state \<noteq> Pr_TenantID p then (db, Inl ErrMfaInvalid)
      else case ConsumeOneTime (Is_db (Sg_issuer ev)) ''mfa'' (Is_hash (Sg_issuer ev) jti) db of
        Inl e \<Rightarrow> (db, Inl ErrMfaInvalid)
      | Inr (_, db1) \<Rightarrow>
          (case totp_Verify (Sg_mac ev) (ES_Secret state) code (Is_clock (Sg_issuer ev)) DefaultStep DefaultDigits 1 of
             Some (step, True) \<Rightarrow>
               (case ActiveLocal (Is_ring (Sg_issuer ev)) of Inl e \<Rightarrow> (db1, Inl ErrInternal) | Inr master \<Rightarrow>
                case WithinTx (Is_db (Sg_issuer ev)) (confirm_tx ev p state step master) ErrInternal db1 of
                  (db2, Inl e) \<Rightarrow> (db2, Inl e)
                | (db2, Inr out) \<Rightarrow> (sign_emit (enrol_event ev p ''credential.totp_enrolled'' [] []) db2, Inr out))
           | Some (step, False) \<Rightarrow> (db1, Inl ErrMfaInvalid)
           | None \<Rightarrow> (db1, Inl ErrInternal)))"

text \<open>\<^verbatim>\<open>ListCredentials\<close> of one kind, as far as its caller reads it: the revocation of each row.\<close>

definition device_rows :: "DbEnv \<Rightarrow> string \<Rightarrow> string \<Rightarrow> SignDB \<Rightarrow> CredentialRow list result" where
  "device_rows ev tenantID who db =
     run_stmt ev ListCredentialsS (Inr (filter (\<lambda>r. CR_identity_id r = who \<and> CR_tenant_id r = tenantID \<and> CR_kind r = ''device_key'') (SD_creds db)))"

definition EnrollDeviceKey :: "SignEnv \<Rightarrow> Principal option \<Rightarrow> string \<Rightarrow> string \<Rightarrow> SignDB \<Rightarrow> SignDB \<times> string result" where
  "EnrollDeviceKey ev ctx publicKey label db =
     (case enrol_caller ev ctx [] db of Inl e \<Rightarrow> (db, Inl e) | Inr p \<Rightarrow>
      case DecodeString False publicKey of None \<Rightarrow> (db, Inl ErrInvalidArgument) | Some raw \<Rightarrow>
      if length raw \<noteq> PublicKeySize then (db, Inl ErrInvalidArgument)
      else case device_rows (Is_db (Sg_issuer ev)) (Pr_TenantID p) (Pr_IdentityID p) db of Inl e \<Rightarrow> (db, Inl e) | Inr rows \<Rightarrow>
        if length (filter (\<lambda>r. CR_revoked_at r = None) rows) \<ge> maxDeviceKeys then (db, Inl ErrInvalidArgument)
        else (case CreateCredential (Is_db (Sg_issuer ev)) 0 \<lparr>CI_IdentityID = Pr_IdentityID p, CI_TenantID = Pr_TenantID p,
                CI_Kind = ''device_key'', CI_Secret = publicKey, CI_LookupKey = [], CI_Label = label, CI_Params = [], CI_ExpiresAt = None\<rparr> db of
                Inl e \<Rightarrow> (db, Inl e)
              | Inr (credID, db1) \<Rightarrow>
                  (sign_emit (enrol_event ev p ''credential.device_key_enrolled'' credID [(''label'', label)]) db1, Inr credID)))"

section \<open>device\_interactor.go\<close>

definition deviceNonceTTL :: duration where "deviceNonceTTL = 60 * Second"

definition DeviceChallenge_Execute :: "SignEnv \<Rightarrow> string \<Rightarrow> string \<Rightarrow> string \<Rightarrow> SignDB \<Rightarrow> ((string \<times> int) \<times> SignDB) result" where
  "DeviceChallenge_Execute ev tenantSlug realm deviceID db =
     (case Is_TenantBySlug (Sg_issuer ev) tenantSlug of
        Inr (Some tenant) \<Rightarrow>
          (case secret_New (Sg_issuer ev) 12 32 of None \<Rightarrow> Inl ErrInternal | Some nonce \<Rightarrow>
           case CreateOneTime (Is_db (Sg_issuer ev)) (Tn_ID tenant) ''device_challenge'' (Is_hash (Sg_issuer ev) nonce)
                  (Sg_device_Marshal ev deviceID realm) (Is_clock (Sg_issuer ev) + deviceNonceTTL) db of
             Inl e \<Rightarrow> Inl ErrInternal
           | Inr (_, db') \<Rightarrow> Inr ((nonce, go_quot deviceNonceTTL Second), db'))
      | _ \<Rightarrow> Inl ErrDeviceChallenge)"

record DeviceVerifyInput =
  DV_Tenant :: string
  DV_Nonce :: string
  DV_KeyID :: string
  DV_Signature :: string
  DV_ClientID :: string
  DV_DeviceFP :: string

definition device_credential :: "SignEnv \<Rightarrow> string \<Rightarrow> SignDB \<Rightarrow> Credential result" where
  "device_credential ev cid db =
     (case CredentialOwner (Is_db (Sg_issuer ev)) cid db of Inl e \<Rightarrow> Inl ErrDeviceChallenge | Inr (who, tenantID, kind) \<Rightarrow>
      if kind \<noteq> ''device_key'' then Inl ErrDeviceChallenge
      else case ActiveCredentialOfKind (Is_db (Sg_issuer ev)) who ''device_key'' db of
        Inl e \<Rightarrow> Inl ErrDeviceChallenge
      | Inr c \<Rightarrow> if Cr_ID c \<noteq> cid then Inl ErrDeviceChallenge else Inr c)"

definition device_event :: "TenantRef \<Rightarrow> string \<Rightarrow> string \<Rightarrow> (string, string) gomap \<Rightarrow> AuthEvent" where
  "device_event tenant actor res detail =
     \<lparr>AE_TenantID = Tn_ID tenant, AE_ActorID = actor, AE_ActorKind = ''identity'', AE_SessionID = [], AE_TargetID = [],
      AE_Action = ''auth.device'', AE_Result = res, AE_IP = [], AE_Detail = detail\<rparr>"

text \<open>The person and the population a proven device key signs in to.\<close>

definition device_finish :: "SignEnv \<Rightarrow> TenantRef \<Rightarrow> string \<Rightarrow> Credential \<Rightarrow> DeviceVerifyInput \<Rightarrow> SignDB \<Rightarrow> SignDB \<times> TokenPair result" where
  "device_finish ev tenant named c i db =
     (case IdentityByID (Is_db (Sg_issuer ev)) (Tn_ID tenant) (Cr_IdentityID c) db of Inl e \<Rightarrow> (db, Inl ErrDeviceChallenge) | Inr identity \<Rightarrow>
      case CanAuthenticate identity of Inl e \<Rightarrow> (db, Inl e) | Inr _ \<Rightarrow>
      case Sg_RealmByCode ev (Tn_ID tenant) (if named = [] then Id_RealmCode identity else named) of
        Inr (Some realm) \<Rightarrow>
          if \<not> AllowsFactor realm ''device_key'' then (db, Inl ErrDeviceChallenge)
          else
            let db1 = TouchCredentialUsed (Is_db (Sg_issuer ev)) (Cr_ID c) (Cr_SignCounter c + 1) db in
            (case establishSession ev tenant realm (Id_ID identity) (DV_ClientID i) (DV_DeviceFP i) [AMRDevice] db1 of
               (db2, Inl e) \<Rightarrow> (db2, Inl e)
             | (db2, Inr pair) \<Rightarrow> (sign_emit (device_event tenant (Id_ID identity) ''allow'' []) db2, Inr pair))
      | _ \<Rightarrow> (db, Inl ErrDeviceChallenge))"

definition DeviceVerify_Execute :: "SignEnv \<Rightarrow> DeviceVerifyInput \<Rightarrow> SignDB \<Rightarrow> SignDB \<times> TokenPair result" where
  "DeviceVerify_Execute ev i db =
     (case Is_TenantBySlug (Sg_issuer ev) (DV_Tenant i) of
        Inr (Some tenant) \<Rightarrow>
          (case ConsumeOneTime (Is_db (Sg_issuer ev)) ''device_challenge'' (Is_hash (Sg_issuer ev) (DV_Nonce i)) db of
             Inl e \<Rightarrow> (db, Inl ErrDeviceChallenge)
           | Inr ((_, payload), db1) \<Rightarrow>
               (case Sg_device_Unmarshal ev payload of None \<Rightarrow> (db1, Inl ErrDeviceChallenge) | Some (deviceID, named) \<Rightarrow>
                if deviceID \<noteq> DV_KeyID i then (db1, Inl ErrDeviceChallenge)
                else case device_credential ev (DV_KeyID i) db1 of Inl e \<Rightarrow> (db1, Inl ErrDeviceChallenge) | Inr c \<Rightarrow>
                case DecodeString False (Cr_Secret c) of None \<Rightarrow> (db1, Inl ErrDeviceChallenge) | Some pub \<Rightarrow>
                if length pub \<noteq> PublicKeySize then (db1, Inl ErrDeviceChallenge)
                else case DecodeString False (DV_Signature i) of
                  Some sig \<Rightarrow>
                    if ed_verify (Is_ed (Sg_issuer ev)) pub (DV_Nonce i) sig then device_finish ev tenant named c i db1
                    else (sign_emit (device_event tenant [] ''deny'' [(''reason'', ''bad_signature'')]) db1, Inl ErrDeviceChallenge)
                | None \<Rightarrow> (sign_emit (device_event tenant [] ''deny'' [(''reason'', ''bad_signature'')]) db1, Inl ErrDeviceChallenge)))
      | _ \<Rightarrow> (db, Inl ErrDeviceChallenge))"

section \<open>identity\_admin\_interactor.go: credentials\<close>

text \<open>\<open>guard\<close> is the permission check of \<^verbatim>\<open>anubis:credential:write\<close>, answering the caller. A new password replaces the
  live one in one transaction.\<close>

definition legacyHashMaxLife :: duration where "legacyHashMaxLife = 90 * 24 * 3600 * Second"

definition replace_password_tx ::
  "SignEnv \<Rightarrow> Principal \<Rightarrow> string \<Rightarrow> string \<Rightarrow> time option \<Rightarrow> SignDB \<Rightarrow> (string \<times> SignDB) result" where
  "replace_password_tx ev p who hash expires db =
     and_then (RevokeCredentialsOfKind (Is_db (Sg_issuer ev)) who ''password'' db)
       (CreateCredential (Is_db (Sg_issuer ev)) 0 \<lparr>CI_IdentityID = who, CI_TenantID = Pr_TenantID p, CI_Kind = ''password'',
          CI_Secret = hash, CI_LookupKey = [], CI_Label = [], CI_Params = [], CI_ExpiresAt = expires\<rparr>)"

definition AdminSetPassword :: "SignEnv \<Rightarrow> Principal result \<Rightarrow> string \<Rightarrow> string \<Rightarrow> SignDB \<Rightarrow> SignDB \<times> unit result" where
  "AdminSetPassword ev guard who password db =
     (case guard of Inl e \<Rightarrow> (db, Inl e) | Inr p \<Rightarrow>
      case IdentityByID (Is_db (Sg_issuer ev)) (Pr_TenantID p) who db of Inl e \<Rightarrow> (db, Inl ErrNotFound) | Inr identity \<Rightarrow>
      case Is_RealmByID (Sg_issuer ev) (Id_RealmID identity) of
        Inr (Some realm) \<Rightarrow>
          (case PasswordPolicy_Check (Rm_PasswordPolicy realm) password of Inl e \<Rightarrow> (db, Inl e) | Inr _ \<Rightarrow>
           case kdf_Hash (Sg_kdf ev) (Is_rand (Sg_issuer ev) 3 saltLen) password of None \<Rightarrow> (db, Inl ErrInternal) | Some hash \<Rightarrow>
           case WithinTx (Is_db (Sg_issuer ev)) (replace_password_tx ev p who hash None) ErrInternal db of
             (db1, Inl e) \<Rightarrow> (db1, Inl e)
           | (db1, Inr _) \<Rightarrow> (sign_emit (identity_event (Sg_issuer ev) p ''credential.password_set'' who []) db1, Inr ()))
      | _ \<Rightarrow> (db, Inl ErrInternal))"

text \<open>How long an imported hash may live: a legacy one needs an end, at most ninety days away.\<close>

definition import_expiry :: "bool \<Rightarrow> time \<Rightarrow> time \<Rightarrow> time option result" where
  "import_expiry legacy expiresAt now =
     (if legacy \<and> IsZero expiresAt then Inl ErrInvalidArgument
      else if \<not> IsZero expiresAt \<and> \<not> After expiresAt now then Inl ErrInvalidArgument
      else if legacy \<and> After expiresAt (now + legacyHashMaxLife) then Inl ErrInvalidArgument
      else if \<not> IsZero expiresAt then Inr (Some expiresAt)
      else Inr None)"

definition AdminImportPasswordHash ::
  "SignEnv \<Rightarrow> Principal result \<Rightarrow> string \<Rightarrow> string \<Rightarrow> time \<Rightarrow> SignDB \<Rightarrow> SignDB \<times> unit result" where
  "AdminImportPasswordHash ev guard who hash expiresAt db =
     (case guard of Inl e \<Rightarrow> (db, Inl e) | Inr p \<Rightarrow>
      case kdf_Describe (Sg_kdf ev) hash of Inl e \<Rightarrow> (db, Inl ErrInvalidArgument) | Inr (alg, legacy) \<Rightarrow>
      case import_expiry legacy expiresAt (Is_clock (Sg_issuer ev)) of Inl e \<Rightarrow> (db, Inl e) | Inr expires \<Rightarrow>
      case IdentityByID (Is_db (Sg_issuer ev)) (Pr_TenantID p) who db of Inl e \<Rightarrow> (db, Inl ErrNotFound) | Inr identity \<Rightarrow>
      case WithinTx (Is_db (Sg_issuer ev)) (replace_password_tx ev p (Id_ID identity) hash expires) ErrInternal db of
        (db1, Inl e) \<Rightarrow> (db1, Inl e)
      | (db1, Inr _) \<Rightarrow>
          (sign_emit (identity_event (Sg_issuer ev) p ''credential.password_imported'' who
             ((''algorithm'', alg) # (case expires of None \<Rightarrow> [] | Some e \<Rightarrow> [(''expires_at'', Sg_RFC3339 ev e)]))) db1, Inr ()))"

definition AdminRevokeCredential :: "SignEnv \<Rightarrow> Principal result \<Rightarrow> string \<Rightarrow> SignDB \<Rightarrow> SignDB \<times> unit result" where
  "AdminRevokeCredential ev guard cid db =
     (case guard of Inl e \<Rightarrow> (db, Inl e) | Inr p \<Rightarrow>
      case RevokeCredential (Is_db (Sg_issuer ev)) (Pr_TenantID p) cid db of Inl e \<Rightarrow> (db, Inl e)
      | Inr db1 \<Rightarrow> (sign_emit (identity_event (Sg_issuer ev) p ''credential.revoke'' cid []) db1, Inr ()))"

end
