(* ===== verification/Sign_In_Examples.thy ===== *)
theory Sign_In_Examples
  imports Sign_In Session_Examples
begin

text \<open>
  A concrete installation for the sign-in theorems: the person and tables of \<^verbatim>\<open>Session_Examples\<close>, the toy password
  derivation, sealing and code function of the components, and JSON codecs that read back what they wrote.
\<close>

section \<open>The codecs\<close>

definition enc_mfa :: "MFAState \<Rightarrow> string option" where
  "enc_mfa s = Some (enc_list ([MS_TenantID s, MS_TenantSlug s, MS_IdentityID s, MS_RealmID s, MS_ClientID s, MS_DeviceFP s,
     MS_IP s, MS_UserAgent s] @ MS_Methods s))"

definition dec_mfa :: "string \<Rightarrow> MFAState option" where
  "dec_mfa t = (case dec_list t of
     a # b # c # d # e # f # g # h # ms \<Rightarrow> Some \<lparr>MS_TenantID = a, MS_TenantSlug = b, MS_IdentityID = c, MS_RealmID = d, MS_ClientID = e,
       MS_DeviceFP = f, MS_Methods = ms, MS_IP = g, MS_UserAgent = h\<rparr>
   | _ \<Rightarrow> None)"

lemma dec_enc_mfa: "enc_mfa s = Some t \<Longrightarrow> dec_mfa t = Some s"
  by (auto simp: enc_mfa_def dec_mfa_def dec_enc_list)

definition enc_grant :: "EnrolmentGrant \<Rightarrow> string option" where
  "enc_grant g = Some (enc_list ([EG_TenantID g, EG_TenantSlug g, EG_IdentityID g, EG_RealmID g] @ EG_Factors g))"

definition dec_grant :: "string \<Rightarrow> EnrolmentGrant option" where
  "dec_grant t = (case dec_list t of
     a # b # c # d # fs \<Rightarrow> Some \<lparr>EG_TenantID = a, EG_TenantSlug = b, EG_IdentityID = c, EG_RealmID = d, EG_Factors = fs\<rparr>
   | _ \<Rightarrow> None)"

definition enc_enrol :: "EnrollmentState \<Rightarrow> string option" where
  "enc_enrol s = Some (enc_list [ES_IdentityID s, ES_TenantID s, ES_Secret s, ES_Issuer s, ES_Account s])"

definition dec_enrol :: "string \<Rightarrow> EnrollmentState option" where
  "dec_enrol t = (case dec_list t of
     [a, b, c, d, e] \<Rightarrow> Some \<lparr>ES_IdentityID = a, ES_TenantID = b, ES_Secret = c, ES_Issuer = d, ES_Account = e\<rparr>
   | _ \<Rightarrow> None)"

definition dec_pair :: "string \<Rightarrow> (string \<times> string) option" where
  "dec_pair t = (case dec_list t of [a, b] \<Rightarrow> Some (a, b) | _ \<Rightarrow> None)"

section \<open>The installation\<close>

definition demo_sign_env :: "IssuerEnv \<Rightarrow> SignEnv" where
  "demo_sign_env is = \<lparr>Sg_issuer = is, Sg_kdf = demo_kdf, Sg_dummy = ''dummy'', Sg_lower = (\<lambda>s. s),
     Sg_RealmByCode = (\<lambda>t c. Inr (Some demo_realm)), Sg_aead = toy_aead, Sg_mac = (\<lambda>secret msg. rfc4226_sum),
     Sg_mfa_Marshal = enc_mfa, Sg_mfa_Unmarshal = dec_mfa, Sg_grant_Marshal = enc_grant, Sg_grant_Unmarshal = dec_grant,
     Sg_enrol_Marshal = enc_enrol, Sg_enrol_Unmarshal = dec_enrol, Sg_device_Marshal = (\<lambda>a b. enc_list [a, b]),
     Sg_device_Unmarshal = dec_pair, Sg_ProvisioningURI = (\<lambda>s a. a), Sg_RFC3339 = (\<lambda>t. [])\<rparr>"

lemma demo_env_fields [simp]:
  "Sg_issuer (demo_sign_env is) = is" "Sg_kdf (demo_sign_env is) = demo_kdf" "Sg_lower (demo_sign_env is) = (\<lambda>s. s)"
  "Sg_RealmByCode (demo_sign_env is) = (\<lambda>t c. Inr (Some demo_realm))" "Sg_aead (demo_sign_env is) = toy_aead"
  "Sg_mac (demo_sign_env is) = (\<lambda>secret msg. rfc4226_sum)" "Sg_mfa_Marshal (demo_sign_env is) = enc_mfa"
  "Sg_mfa_Unmarshal (demo_sign_env is) = dec_mfa" "Sg_enrol_Unmarshal (demo_sign_env is) = dec_enrol"
  "Sg_enrol_Marshal (demo_sign_env is) = enc_enrol"
  "Sg_device_Unmarshal (demo_sign_env is) = dec_pair"
  by (simp_all add: demo_sign_env_def)

lemma demo_issuer_fields [simp]:
  "Is_clock (demo_issuer now c n) = now" "Is_hash (demo_issuer now c n) = (\<lambda>s. s)"
  "Is_TenantBySlug (demo_issuer now c n) = (\<lambda>t. Inr (Some demo_tenant))"
  "Is_TenantByID (demo_issuer now c n) = (\<lambda>t. Inr demo_tenant)" "Is_db (demo_issuer now c n) = demo_db_env now n"
  "Is_rand (demo_issuer now c n) = (\<lambda>k m. Some (replicate m c))" "Is_ed (demo_issuer now c n) = toy_ed"
  by (simp_all add: demo_issuer_def)

lemma demo_runs [simp]: "\<not> Db_fails (demo_db_env now n) s" "Db_now (demo_db_env now n) = now" "Db_newid (demo_db_env now n) s = n"
  by (simp_all add: demo_db_env_def)

lemma demo_names [simp]:
  "Tn_ID demo_tenant = ''t1''" "Tn_Slug demo_tenant = ''acme''" "Rm_ID demo_realm = ''r1''"
  "Rm_FactorEnrolmentDeadline demo_realm = zero_time"
  "Id_ID (identity_view demo_identity) = ''alice''"
  by (simp_all add: demo_tenant_def demo_realm_def identity_view_def demo_identity_def)

definition demo_hash_of :: string where
  "demo_hash_of = the (kdf_Hash demo_kdf (Some ''0123456789abcdef'') ''correct horse'')"

definition demo_password :: CredentialRow where
  "demo_password = \<lparr>CR_id = ''c1'', CR_identity_id = ''alice'', CR_tenant_id = ''t1'', CR_kind = ''password'',
     CR_secret = Some demo_hash_of, CR_secret_kid = None, CR_lookup_key = None, CR_label = None, CR_params = [],
     CR_sign_counter = 0, CR_created_at = 0, CR_last_used_at = None, CR_expires_at = None, CR_revoked_at = None\<rparr>"

definition demo_sign_db :: SignDB where
  "demo_sign_db = \<lparr>SD_auth = demo_db0, SD_creds = [demo_password], SD_onetime = []\<rparr>"

definition demo_login :: LoginInput where
  "demo_login = \<lparr>LI_Tenant = ''acme'', LI_Realm = [], LI_Username = ''alice'', LI_Password = ''correct horse'', LI_ClientID = ''shop'',
     LI_DeviceFP = []\<rparr>"

lemma demo_hash_verifies: "kdf_Verify demo_kdf ''correct horse'' demo_hash_of = Inr (True, False)" "demo_hash_of \<noteq> []"
proof -
  have h: "hashWith demo_kdf (Some ''0123456789abcdef'') ''correct horse'' DefaultIterations = Some demo_hash_of"
    by (simp add: demo_hash_of_def kdf_Hash_def hashWith_def demo_kdf_def)
  from hash_verifies [OF demo_kdf_lengths h] show "kdf_Verify demo_kdf ''correct horse'' demo_hash_of = Inr (True, False)"
    by (simp add: DefaultIterations_def)
  from h show "demo_hash_of \<noteq> []" by (auto simp: hashWith_def split: option.splits)
qed

lemma demo_login_valid: "ValidSlug ''acme'' \<and> ValidUsername ''alice''"
  by code_simp

text \<open>Alice proves her password, and has no other factor.\<close>

definition demo_decision :: "string list \<Rightarrow> bool \<Rightarrow> LoginDecision" where
  "demo_decision missing due = \<lparr>LD_Step = StepAllow, LD_Tenant = Some demo_tenant, LD_Realm = Some demo_realm,
     LD_Identity = Some (identity_view demo_identity), LD_Methods = [], LD_Missing = missing, LD_Deadline = zero_time, LD_Due = due, LD_Err = None\<rparr>"

lemma demo_authenticates:
  assumes env: "Is_TenantBySlug is = (\<lambda>t. Inr (Some demo_tenant))" "Is_db is = demo_db_env 1 n" "Is_clock is = 1"
    and login: "LI_Tenant i = ''acme''" "LI_Realm i \<in> {[], ''internal''}" "LI_Username i = ''alice''" "LI_Password i = ''correct horse''"
  shows "\<exists>missing due. Authenticate (demo_sign_env is) i su demo_sign_db = (demo_sign_db, demo_decision missing due)"
proof -
  let ?ev = "demo_sign_env is"
  have ident: "IdentityForLogin (\<lambda>s. s) (Is_db is) ''t1'' ''r1'' ''alice'' demo_sign_db = Inr (identity_view demo_identity)"
    by (simp add: IdentityForLogin_def run_stmt_def demo_sign_db_def demo_db0_def demo_identity_def env)
  have pw: "PasswordCredential (Is_db is) ''alice'' demo_sign_db = Inr \<lparr>Cr_ID = ''c1'', Cr_IdentityID = ''alice'', Cr_TenantID = ''t1'',
      Cr_Kind = ''password'', Cr_Secret = demo_hash_of, Cr_SecretKid = [], Cr_Params = [], Cr_SignCounter = 0, Cr_ExpiresAt = None\<rparr>"
    by (simp add: PasswordCredential_def run_stmt_def demo_sign_db_def demo_password_def password_of_def live_cred_def nstr_def env)
  obtain stance missing where st: "EnrolmentStanceFor demo_realm [] 1 = (stance, missing)" by fastforce
  moreover have "fst (EnrolmentStanceFor demo_realm [] 1) \<noteq> EnrolmentOverdue" by code_simp
  ultimately have due: "stance \<noteq> EnrolmentOverdue" by simp
  have "enrolledFactorKinds ?ev ''alice'' demo_sign_db = Inr []"
    by (simp add: enrolledFactorKinds_def ActiveCredentialKinds_def run_stmt_def demo_sign_db_def demo_password_def
        unexpired_cred_def live_cred_def env)
  with st due have pol: "FactorPolicy ?ev demo_tenant demo_realm (identity_view demo_identity) su demo_sign_db =
      (demo_sign_db, demo_decision missing (stance = EnrolmentDue))"
    by (simp add: FactorPolicy_def Let_def allowedOf_def demo_decision_def env)
  have can: "CanAuthenticate (identity_view demo_identity) = Inr ()" by code_simp
  have "AllowsFactor demo_realm ''password''" by code_simp
  with ident pw login have res: "resolve ?ev (if LI_Realm i = [] then i\<lparr>LI_Realm := ''internal''\<rparr> else i) demo_sign_db = (Some demo_tenant, Some demo_realm,
      Some (identity_view demo_identity), Some \<lparr>Cr_ID = ''c1'', Cr_IdentityID = ''alice'', Cr_TenantID = ''t1'', Cr_Kind = ''password'',
        Cr_Secret = demo_hash_of, Cr_SecretKid = [], Cr_Params = [], Cr_SignCounter = 0, Cr_ExpiresAt = None\<rparr>)"
    by (simp add: resolve_def Let_def env)
  have "Authenticate ?ev i su demo_sign_db = FactorPolicy ?ev demo_tenant demo_realm (identity_view demo_identity) su demo_sign_db"
    using demo_hash_verifies demo_login_valid login can by (simp add: Authenticate_def Let_def res Cred_Expired_def rehash_def)
  with pol show ?thesis by auto
qed

text \<open>She signs in.\<close>

lemma demo_login_opens:
  "\<exists>db' out pair. Login_Execute (demo_sign_env demo_ev0) demo_login demo_sign_db = (db', Inr out) \<and> LO_Tokens out = Some pair"
proof -
  obtain a pair where est: "Establish demo_ev0 demo_tenant demo_realm ''alice'' ''shop'' [] [''pwd''] demo_db0 = (a, Inr pair)"
    using demo_establish by blast
  obtain missing due where "Authenticate (demo_sign_env demo_ev0) demo_login SurfaceAPI demo_sign_db = (demo_sign_db, demo_decision missing due)"
    using demo_authenticates [of demo_ev0 "''s1''" demo_login SurfaceAPI] by (auto simp: demo_login_def)
  with est show ?thesis
    by (simp add: Login_Execute_def establishSession_def demo_sign_db_def demo_login_def AMRPassword_def demo_decision_def)
qed

end
