(* ===== verification/Sign_In_Safety.thy ===== *)
theory Sign_In_Safety
  imports Sign_In_Examples
begin

text \<open>
  What sign-in promises: a door answers anything but a wrong password only to somebody who proved it, a password alone
  opens a session only where no second factor stands, a sealed challenge opens as it was sealed, and what becomes of an
  imported hash.
\<close>

section \<open>What a password was proved against\<close>

definition login_realm :: "LoginInput \<Rightarrow> string" where
  "login_realm i = (if LI_Realm i = [] then ''internal'' else LI_Realm i)"

text \<open>The person \<open>a\<close> of the population \<open>rl\<close> holds the live password row \<open>r\<close>, and the password presented verifies.\<close>

definition password_proven ::
  "SignEnv \<Rightarrow> LoginInput \<Rightarrow> SignDB \<Rightarrow> TenantRef \<Rightarrow> Realm \<Rightarrow> AccountRow \<Rightarrow> CredentialRow \<Rightarrow> bool" where
  "password_proven ev i db tn rl a r \<longleftrightarrow>
     Is_TenantBySlug (Sg_issuer ev) (LI_Tenant i) = Inr (Some tn) \<and>
     Sg_RealmByCode ev (Tn_ID tn) (login_realm i) = Inr (Some rl) \<and> ''password'' \<in> set (Rm_AllowedFactors rl) \<and>
     a \<in> set (AB_identities (SD_auth db)) \<and> ID_tenant_id a = Tn_ID tn \<and> ID_realm_id a = Some (Rm_ID rl) \<and>
     Sg_lower ev (ID_username a) = Sg_lower ev (LI_Username i) \<and>
     r \<in> set (SD_creds db) \<and> password_of (ID_id a) r \<and>
     (\<exists>b. kdf_Verify (Sg_kdf ev) (LI_Password i) (if CR_secret r = None \<or> CR_secret r = Some [] then Sg_dummy ev else the (CR_secret r)) = Inr (True, b))"

lemma find_append: "find P (xs @ ys) = (case find P xs of None \<Rightarrow> find P ys | Some x \<Rightarrow> Some x)"
  by (induction xs) auto

lemma IdentityForLogin_Inr:
  assumes "IdentityForLogin sl ev t r u db = Inr ident"
  obtains a where "a \<in> set (AB_identities (SD_auth db))" "ID_tenant_id a = t" "ID_realm_id a = Some r" "sl (ID_username a) = sl u"
    "ident = identity_view a"
  using assms by (auto simp: IdentityForLogin_def run_stmt_Inr split: option.splits dest: find_SomeD)

lemma PasswordCredential_Inr:
  assumes "PasswordCredential ev who db = Inr c"
  obtains r where "r \<in> set (SD_creds db)" "password_of who r" "Cr_ID c = CR_id r" "Cr_IdentityID c = who"
    "Cr_Secret c = nstr (CR_secret r)" "Cr_ExpiresAt c = CR_expires_at r"
  using assms by (auto simp: PasswordCredential_def run_stmt_Inr password_of_def split: option.splits dest!: find_SomeD)

text \<open>Past the verify call, all four were resolved from the tables.\<close>

lemma resolve_full:
  assumes "resolve ev i db = (Some tn, Some rl, Some ident, Some c)"
  shows "Is_TenantBySlug (Sg_issuer ev) (LI_Tenant i) = Inr (Some tn)" "Sg_RealmByCode ev (Tn_ID tn) (LI_Realm i) = Inr (Some rl)"
    "AllowsFactor rl ''password''" "IdentityForLogin (Sg_lower ev) (Is_db (Sg_issuer ev)) (Tn_ID tn) (Rm_ID rl) (LI_Username i) db = Inr ident"
    "PasswordCredential (Is_db (Sg_issuer ev)) (Id_ID ident) db = Inr c"
  using assms by (auto simp: resolve_def Let_def split: sum.splits option.splits if_splits)

text \<open>How \<open>Authenticate\<close> ends: refused with the one answer, or past the password.\<close>

lemma Authenticate_cases:
  obtains (refused) db1 t r where "Authenticate ev i surface db = (db1, deny t r None ErrInvalidCredentials)"
      "SD_creds db1 = SD_creds db" "SD_onetime db1 = SD_onetime db"
      "AB_sessions (SD_auth db1) = AB_sessions (SD_auth db)" "AB_refresh (SD_auth db1) = AB_refresh (SD_auth db)"
  | (past) tn rl a r ident c b where "password_proven ev i db tn rl a r" "ident = identity_view a"
      "PasswordCredential (Is_db (Sg_issuer ev)) (ID_id a) db = Inr c"
      "Cr_ID c = CR_id r" "Cr_IdentityID c = ID_id a" "Cr_ExpiresAt c = CR_expires_at r"
      "Authenticate ev i surface db =
        (case CanAuthenticate ident of
           Inl e \<Rightarrow> (AuditLogin ev (Some tn) (Some ident) surface ''deny'' (refusal_code e) [] db, deny (Some tn) (Some rl) (Some ident) e)
         | Inr _ \<Rightarrow>
             if Cred_Expired c (Is_clock (Sg_issuer ev)) then
               (AuditLogin ev (Some tn) (Some ident) surface ''deny'' ''credential_expired'' [] db,
                deny (Some tn) (Some rl) (Some ident) ErrInvalidCredentials)
             else FactorPolicy ev tn rl ident surface (rehash ev b tn c (LI_Password i) db))"
proof -
  define i1 where "i1 = (if LI_Realm i = [] then i\<lparr>LI_Realm := ''internal''\<rparr> else i)"
  have i1: "LI_Tenant i1 = LI_Tenant i" "LI_Username i1 = LI_Username i" "LI_Password i1 = LI_Password i" "LI_Realm i1 = login_realm i"
    by (simp_all add: i1_def login_realm_def)
  obtain tenant realm identity cred where res: "resolve ev i1 db = (tenant, realm, identity, cred)" by (cases "resolve ev i1 db")
  define h where "h = (case cred of None \<Rightarrow> Sg_dummy ev | Some c \<Rightarrow> if Cr_Secret c \<noteq> [] then Cr_Secret c else Sg_dummy ev)"
  define bad where "bad \<longleftrightarrow> \<not> ValidSlug (LI_Tenant i) \<or> \<not> ValidUsername (LI_Username i) \<or> LI_Password i = [] \<or> length (LI_Password i) > 512"
  let ?fail = "(AuditLogin ev tenant identity surface ''deny'' ''invalid_credentials'' [] db, deny tenant realm None ErrInvalidCredentials)"
  have A: "Authenticate ev i surface db = (if bad then (db, deny None None None ErrInvalidCredentials) else
      (case (kdf_Verify (Sg_kdf ev) (LI_Password i) h, cred, identity, realm, tenant) of
         (Inr (True, needsRehash), Some c, Some ident, Some rl, Some tn) \<Rightarrow>
           (case CanAuthenticate ident of
              Inl e \<Rightarrow> (AuditLogin ev tenant identity surface ''deny'' (refusal_code e) [] db, deny tenant realm identity e)
            | Inr _ \<Rightarrow>
                if Cred_Expired c (Is_clock (Sg_issuer ev)) then
                  (AuditLogin ev tenant identity surface ''deny'' ''credential_expired'' [] db, deny tenant realm identity ErrInvalidCredentials)
                else FactorPolicy ev tn rl ident surface (rehash ev needsRehash tn c (LI_Password i) db))
       | _ \<Rightarrow> ?fail))"
    unfolding Authenticate_def i1_def [symmetric] i1 Let_def res bad_def h_def by simp
  have frame: "SD_creds (AuditLogin ev tenant identity surface x y z db) = SD_creds db"
    "SD_onetime (AuditLogin ev tenant identity surface x y z db) = SD_onetime db"
    "AB_sessions (SD_auth (AuditLogin ev tenant identity surface x y z db)) = AB_sessions (SD_auth db)"
    "AB_refresh (SD_auth (AuditLogin ev tenant identity surface x y z db)) = AB_refresh (SD_auth db)" for x y z
    by (simp_all add: AuditLogin_def sign_emit_def Emit_def split: option.split)
  show thesis
  proof (cases "\<not> bad \<and> (\<exists>b c ident rl tn. kdf_Verify (Sg_kdf ev) (LI_Password i) h = Inr (True, b) \<and> cred = Some c \<and> identity = Some ident \<and>
      realm = Some rl \<and> tenant = Some tn)")
    case False
    show ?thesis
    proof (cases bad)
      case True
      then have "Authenticate ev i surface db = (db, deny None None None ErrInvalidCredentials)" by (simp add: A)
      then show ?thesis by (rule refused) simp_all
    next
      case False
      with \<open>\<not> (\<not> bad \<and> _)\<close> have "Authenticate ev i surface db = ?fail"
        unfolding A by (auto split: sum.split prod.split bool.split option.split)
      then show ?thesis by (rule refused) (simp_all add: frame)
    qed
  next
    case True
    then obtain b c ident rl tn where v: "kdf_Verify (Sg_kdf ev) (LI_Password i) h = Inr (True, b)" and c: "cred = Some c"
      and ident: "identity = Some ident" and rl: "realm = Some rl" and tn: "tenant = Some tn" and ok: "\<not> bad" by blast
    note f = resolve_full [OF res [unfolded c ident rl tn]]
    obtain a where a: "a \<in> set (AB_identities (SD_auth db))" "ID_tenant_id a = Tn_ID tn" "ID_realm_id a = Some (Rm_ID rl)"
      "Sg_lower ev (ID_username a) = Sg_lower ev (LI_Username i)" "ident = identity_view a"
      using f(4) by (elim IdentityForLogin_Inr) (simp add: i1)
    then have who: "Id_ID ident = ID_id a" by (simp add: identity_view_def)
    obtain r where r: "r \<in> set (SD_creds db)" "password_of (ID_id a) r" "Cr_ID c = CR_id r" "Cr_IdentityID c = ID_id a"
      "Cr_Secret c = nstr (CR_secret r)" "Cr_ExpiresAt c = CR_expires_at r"
      using f(5) who by (elim PasswordCredential_Inr) simp
    have h: "h = (if CR_secret r = None \<or> CR_secret r = Some [] then Sg_dummy ev else the (CR_secret r))"
      using r(5) by (auto simp: h_def c nstr_def split: option.split)
    have "password_proven ev i db tn rl a r"
      using f(1-3) a r(1,2) v unfolding password_proven_def h i1 by (auto simp: i1)
    moreover have "PasswordCredential (Is_db (Sg_issuer ev)) (ID_id a) db = Inr c" using f(5) who by simp
    moreover note A [unfolded v c ident rl tn, simplified ok if_False, simplified]
    ultimately show ?thesis using past [OF _ a(5) _ r(3,4,6)] by blast
  qed
qed

text \<open>C16. A door says nothing to a stranger. Whatever a sign-in answers other than \<^emph>\<open>invalid credentials\<close> -- tokens, a
  challenge, an enrolment grant, a locked or disabled account, an internal failure -- it answers only to somebody
  who named a person of that population and presented that person's password: an unknown tenant, population
  or user, a population without passwords and a wrong password are one answer.\<close>

theorem login_tells_only_the_owner:
  assumes "snd (Login_Execute ev i db) \<noteq> Inl ErrInvalidCredentials"
  shows "\<exists>tn rl a r. password_proven ev i db tn rl a r"
proof (cases rule: Authenticate_cases [of ev i SurfaceAPI db])
  case (refused db1 t r)
  with assms show ?thesis by (simp add: Login_Execute_def deny_def)
qed blast

theorem login_tells_only_the_owner_witness:
  "\<exists>tn rl a r. password_proven (demo_sign_env demo_ev0) demo_login demo_sign_db tn rl a r"
  by (rule login_tells_only_the_owner) (use demo_login_opens in auto)

section \<open>An imported hash\<close>

lemma replaceHash_imported:
  assumes "PasswordCredential (Is_db (Sg_issuer ev)) who db = Inr c" "Cr_ExpiresAt c \<noteq> None"
  shows "replaceHash ev tid c h db = db"
proof -
  from assms(1) obtain r where "r \<in> set (SD_creds db)" "password_of who r" "Cr_IdentityID c = who"
    by (rule PasswordCredential_Inr)
  then have "list_ex (cred_conflict \<lparr>CI_IdentityID = Cr_IdentityID c, CI_TenantID = tid, CI_Kind = ''password'', CI_Secret = h,
      CI_LookupKey = [], CI_Label = [], CI_Params = [], CI_ExpiresAt = None\<rparr>) (SD_creds db)"
    by (auto simp: list_ex_iff cred_conflict_def password_of_def)
  then have "\<exists>e. CreateCredential (Is_db (Sg_issuer ev)) 0 \<lparr>CI_IdentityID = Cr_IdentityID c, CI_TenantID = tid, CI_Kind = ''password'',
      CI_Secret = h, CI_LookupKey = [], CI_Label = [], CI_Params = [], CI_ExpiresAt = None\<rparr> db = Inl e"
    by (auto simp: CreateCredential_def run_stmt_def)
  then show ?thesis using assms(2) by (auto simp: replaceHash_def Let_def)
qed

text \<open>The columns sign-in may rewrite on a password row are the secret and the name of its key.\<close>

definition bare :: "CredentialRow \<Rightarrow> CredentialRow" where
  "bare r = r\<lparr>CR_secret := None, CR_secret_kid := None\<rparr>"

lemma bare_update: "map bare (SD_creds (update_creds p (\<lambda>r. r\<lparr>CR_secret := s, CR_secret_kid := k\<rparr>) db)) = map bare (SD_creds db)"
  by (simp add: update_creds_def bare_def)

lemma rehash_frame:
  assumes "PasswordCredential (Is_db (Sg_issuer ev)) who db = Inr c"
  shows "SD_auth (rehash ev b tn c pw db) = SD_auth db" "SD_onetime (rehash ev b tn c pw db) = SD_onetime db"
    "map bare (SD_creds (rehash ev b tn c pw db)) = map bare (SD_creds db)"
    "Cr_ExpiresAt c \<noteq> None \<Longrightarrow> rehash ev b tn c pw db = db"
proof -
  have "replaceHash ev tid c h db = db \<or>
      (Cr_ExpiresAt c = None \<and> (\<exists>p s k. replaceHash ev tid c h db = update_creds p (\<lambda>r. r\<lparr>CR_secret := s, CR_secret_kid := k\<rparr>) db))" for tid h
  proof (cases "Cr_ExpiresAt c = None")
    case True
    then show ?thesis by (auto simp: replaceHash_def Let_def UpdateCredentialSecret_def run_stmt_def)
  qed (simp add: replaceHash_imported [OF assms])
  then have "rehash ev b tn c pw db = db \<or>
      (Cr_ExpiresAt c = None \<and> (\<exists>p s k. rehash ev b tn c pw db = update_creds p (\<lambda>r. r\<lparr>CR_secret := s, CR_secret_kid := k\<rparr>) db))"
    unfolding rehash_def by (auto split: option.split)
  then show "SD_auth (rehash ev b tn c pw db) = SD_auth db" "SD_onetime (rehash ev b tn c pw db) = SD_onetime db"
    "map bare (SD_creds (rehash ev b tn c pw db)) = map bare (SD_creds db)"
    "Cr_ExpiresAt c \<noteq> None \<Longrightarrow> rehash ev b tn c pw db = db"
    by (auto simp: bare_update) (simp_all add: update_creds_def)
qed

section \<open>The factor policy\<close>

definition account_active :: "AccountRow \<Rightarrow> bool" where
  "account_active a \<longleftrightarrow> ID_status a = ''active'' \<and> ID_disabled_at a = None \<and> ID_anonymized_at a = None"

definition unlapsed :: "time \<Rightarrow> CredentialRow \<Rightarrow> bool" where
  "unlapsed now r \<longleftrightarrow> (case CR_expires_at r of None \<Rightarrow> True | Some e \<Rightarrow> now < e)"

text \<open>No authenticator or device key of the person is one the population accepts.\<close>

definition no_second_factor :: "SignEnv \<Rightarrow> Realm \<Rightarrow> string \<Rightarrow> SignDB \<Rightarrow> bool" where
  "no_second_factor ev rl who db \<longleftrightarrow>
     (\<forall>c\<in>set (SD_creds db). CR_identity_id c = who \<and> unexpired_cred (Db_now (Is_db (Sg_issuer ev))) c \<and>
        CR_kind c \<in> {''totp'', ''device_key''} \<longrightarrow> CR_kind c \<notin> set (Rm_AllowedFactors rl))"

text \<open>The population demands no factor of somebody without one: no deadline, one still ahead, or nothing required that
  it accepts.\<close>

definition enrolment_open :: "Realm \<Rightarrow> time \<Rightarrow> bool" where
  "enrolment_open rl now \<longleftrightarrow>
     IsZero (Rm_FactorEnrolmentDeadline rl) \<or> Before now (Rm_FactorEnrolmentDeadline rl) \<or>
     (\<forall>f\<in>set (Rm_RequiredFactors rl). f = ''password'' \<or> f \<notin> set (Rm_AllowedFactors rl))"

lemma kinds_bare:
  assumes "map bare (SD_creds db1) = map bare (SD_creds db)"
  shows "ActiveCredentialKinds ev who db1 = ActiveCredentialKinds ev who db"
proof -
  have f: "map CR_kind (filter (\<lambda>r. CR_identity_id r = who \<and> unexpired_cred now r) xs) =
      map CR_kind (filter (\<lambda>r. CR_identity_id r = who \<and> unexpired_cred now r) (map bare xs))" for xs now
    by (induction xs) (auto simp: bare_def unexpired_cred_def live_cred_def)
  show ?thesis unfolding ActiveCredentialKinds_def f [where xs = "SD_creds db1"] f [where xs = "SD_creds db"] assms ..
qed

lemma enrolled_Inr:
  "enrolledFactorKinds ev who db = Inr ks \<Longrightarrow> \<not> Db_fails (Is_db (Sg_issuer ev)) ListActiveCredentialKindsS \<and>
     set ks = {k \<in> {''totp'', ''device_key''}. \<exists>c\<in>set (SD_creds db). CR_identity_id c = who \<and>
       unexpired_cred (Db_now (Is_db (Sg_issuer ev))) c \<and> CR_kind c = k}"
  by (force simp: enrolledFactorKinds_def ActiveCredentialKinds_def run_stmt_Inr split: sum.splits)

lemma FactorPolicy_allow:
  assumes "FactorPolicy ev tn rl ident surface db = (db1, d)" "LD_Step d = StepAllow"
  shows "no_second_factor ev rl (Id_ID ident) db \<and> enrolment_open rl (Is_clock (Sg_issuer ev)) \<and> db1 = db \<and>
    \<not> Db_fails (Is_db (Sg_issuer ev)) ListActiveCredentialKindsS \<and>
    LD_Tenant d = Some tn \<and> LD_Realm d = Some rl \<and> LD_Identity d = Some ident"
proof -
  from assms obtain ks stance missing where ks: "enrolledFactorKinds ev (Id_ID ident) db = Inr ks" and none: "allowedOf rl ks = []"
    and st: "EnrolmentStanceFor rl ks (Is_clock (Sg_issuer ev)) = (stance, missing)" "stance \<noteq> EnrolmentOverdue"
    and d: "db1 = db" "LD_Tenant d = Some tn" "LD_Realm d = Some rl" "LD_Identity d = Some ident"
  proof (cases "enrolledFactorKinds ev (Id_ID ident) db")
    case (Inr ks)
    obtain stance missing where "EnrolmentStanceFor rl ks (Is_clock (Sg_issuer ev)) = (stance, missing)" by fastforce
    with Inr assms that show thesis by (auto simp: FactorPolicy_def Let_def split: if_splits)
  qed (use assms in \<open>auto simp: FactorPolicy_def Let_def\<close>)
  from none have n: "\<forall>k\<in>set ks. k \<notin> set (Rm_AllowedFactors rl)" by (auto simp: allowedOf_def filter_empty_conv)
  moreover from st have "enrolment_open rl (Is_clock (Sg_issuer ev))"
    using n set_missing_loop [of rl ks "Rm_RequiredFactors rl"]
    by (auto simp: EnrolmentStanceFor_def enrolment_open_def Let_def split: if_splits)
  moreover have "no_second_factor ev rl (Id_ID ident) db"
    unfolding no_second_factor_def
  proof (intro ballI impI)
    fix c assume "c \<in> set (SD_creds db)" "CR_identity_id c = Id_ID ident \<and> unexpired_cred (Db_now (Is_db (Sg_issuer ev))) c \<and>
      CR_kind c \<in> {''totp'', ''device_key''}"
    then have "CR_kind c \<in> set ks" using enrolled_Inr [OF ks] by blast
    with n show "CR_kind c \<notin> set (Rm_AllowedFactors rl)" by blast
  qed
  ultimately show ?thesis using enrolled_Inr [OF ks] d by blast
qed

lemma no_second_factor_bare:
  assumes "map bare (SD_creds db1) = map bare (SD_creds db)" "no_second_factor ev rl who db1"
  shows "no_second_factor ev rl who db"
proof -
  have "no_second_factor ev rl who x \<longleftrightarrow> (\<forall>c\<in>set (map bare (SD_creds x)). CR_identity_id c = who \<and>
      unexpired_cred (Db_now (Is_db (Sg_issuer ev))) c \<and> CR_kind c \<in> {''totp'', ''device_key''} \<longrightarrow> CR_kind c \<notin> set (Rm_AllowedFactors rl))" for x
    by (auto simp: no_second_factor_def bare_def unexpired_cred_def live_cred_def)
  with assms show ?thesis by metis
qed

lemma Authenticate_allow:
  assumes A: "Authenticate ev i surface db = (db1, d)" and step: "LD_Step d = StepAllow"
  obtains tn rl a r where "password_proven ev i db tn rl a r" "account_active a" "unlapsed (Is_clock (Sg_issuer ev)) r"
    "\<not> Db_fails (Is_db (Sg_issuer ev)) ListActiveCredentialKindsS" "no_second_factor ev rl (ID_id a) db" "enrolment_open rl (Is_clock (Sg_issuer ev))"
    "LD_Tenant d = Some tn" "LD_Realm d = Some rl" "LD_Identity d = Some (identity_view a)"
    "SD_auth db1 = SD_auth db" "SD_onetime db1 = SD_onetime db"
proof (cases rule: Authenticate_cases [of ev i surface db])
  case (refused db1 t r)
  with A step show ?thesis by (auto simp: deny_def)
next
  case (past tn rl a r ident c b)
  with A step have "CanAuthenticate ident = Inr ()" "\<not> Cred_Expired c (Is_clock (Sg_issuer ev))"
    and F: "FactorPolicy ev tn rl ident surface (rehash ev b tn c (LI_Password i) db) = (db1, d)"
    by (auto simp: deny_def split: sum.splits if_splits)
  then have act: "account_active a" and live: "unlapsed (Is_clock (Sg_issuer ev)) r"
    using past(2,6) by (auto simp: CanAuthenticate_iff identity_view_def account_active_def Cred_Expired_def unlapsed_def After_def split: option.splits)
  from FactorPolicy_allow [OF F step] past(2) no_second_factor_bare [OF rehash_frame(3) [OF past(3)]]
  have pol: "no_second_factor ev rl (ID_id a) db" "enrolment_open rl (Is_clock (Sg_issuer ev))"
    "\<not> Db_fails (Is_db (Sg_issuer ev)) ListActiveCredentialKindsS"
    and d: "LD_Tenant d = Some tn" "LD_Realm d = Some rl" "LD_Identity d = Some ident" and db1: "db1 = rehash ev b tn c (LI_Password i) db"
    by (auto simp: identity_view_def)
  then show ?thesis using that [OF past(1) act live pol(3,1,2)] past(2) rehash_frame(1,2) [OF past(3)] by simp
qed

text \<open>C13. When a password is enough. A sign-in answers tokens only when the password was proved for a live account and a
  credential that has not lapsed, the person's factors could be looked up and none of them is one the population
  accepts, and the population does not by now demand one; the tokens are those of a session of that very person,
  marked as opened by password alone.\<close>

theorem password_alone_opens:
  assumes "Login_Execute ev i db = (db', Inr out)" "LO_Tokens out = Some pair"
  shows "\<exists>tn rl a r db1 db2. password_proven ev i db tn rl a r \<and> account_active a \<and> unlapsed (Is_clock (Sg_issuer ev)) r \<and>
    \<not> Db_fails (Is_db (Sg_issuer ev)) ListActiveCredentialKindsS \<and> no_second_factor ev rl (ID_id a) db \<and>
    enrolment_open rl (Is_clock (Sg_issuer ev)) \<and>
    establishSession ev tn rl (ID_id a) (LI_ClientID i) (LI_DeviceFP i) [AMRPassword] db1 = (db2, Inr pair)"
proof -
  obtain db1 d where A: "Authenticate ev i SurfaceAPI db = (db1, d)" by fastforce
  from assms A have step: "LD_Step d = StepAllow"
    by (auto simp: Login_Execute_def split: SignStep.splits option.splits sum.splits prod.splits)
  from Authenticate_allow [OF A step] obtain tn rl a r where
    p: "password_proven ev i db tn rl a r" "account_active a" "unlapsed (Is_clock (Sg_issuer ev)) r"
      "\<not> Db_fails (Is_db (Sg_issuer ev)) ListActiveCredentialKindsS" "no_second_factor ev rl (ID_id a) db"
      "enrolment_open rl (Is_clock (Sg_issuer ev))"
    and d: "LD_Tenant d = Some tn" "LD_Realm d = Some rl" "LD_Identity d = Some (identity_view a)" .
  from assms A step d obtain db2 where "establishSession ev tn rl (ID_id a) (LI_ClientID i) (LI_DeviceFP i) [AMRPassword] db1 = (db2, Inr pair)"
    by (auto simp: Login_Execute_def identity_view_def split: prod.splits sum.splits)
  with p show ?thesis by blast
qed

theorem password_alone_opens_witness:
  "\<exists>tn rl a r. password_proven (demo_sign_env demo_ev0) demo_login demo_sign_db tn rl a r \<and> account_active a \<and> unlapsed 1 r"
  using demo_login_opens password_alone_opens by fastforce

section \<open>A challenge\<close>

lemma open_seal_state:
  assumes "gcm_correct (Sg_aead ev)" "env_faithful (Sg_aead ev)" and "ActiveLocal (Is_ring (Sg_issuer ev)) = Inr key" "Key_Kid key \<noteq> []"
    and "\<And>n. Is_rand (Sg_issuer ev) (Suc k) nonceSize = Some n \<Longrightarrow> length n = nonceSize"
    and "seal_state ev k purpose (Some raw) ttl = Some (jti, token)"
    and "Sg_aead ev' = Sg_aead ev" "Lookup (Is_ring (Sg_issuer ev')) (Key_Kid key) = Inr key" "Key_Secret key \<noteq> []"
  shows "open_local ev' purpose token = (if Unix (Is_clock (Sg_issuer ev')) \<le> Unix (Is_clock (Sg_issuer ev) + ttl) then Some (jti, raw) else None)"
proof -
  from assms(3,6) obtain n where n: "Is_rand (Sg_issuer ev) (Suc k) nonceSize = Some n"
    and s: "local_Seal (Sg_aead ev) (Some n) (Key_Secret key) (Key_Kid key) purpose jti (Some raw) ttl (Is_clock (Sg_issuer ev)) = Some token"
    by (auto simp: seal_state_def local_Seal_def Let_def split: option.splits)
  from sealed_opens [OF assms(1,2,4) assms(5) [OF n] s, of "Is_clock (Sg_issuer ev')"] assms(7,8,9)
  show ?thesis by (simp add: open_local_def)
qed

text \<open>The codec of the challenge state reads back what it wrote.\<close>

definition mfa_codec :: "SignEnv \<Rightarrow> bool" where
  "mfa_codec ev \<longleftrightarrow> (\<forall>s raw. Sg_mfa_Marshal ev s = Some raw \<longrightarrow> Sg_mfa_Unmarshal ev raw = Some s)"

text \<open>The part of the installation a challenge outlives: keys and codecs stay, clock and random source move on.\<close>

definition same_installation :: "SignEnv \<Rightarrow> SignEnv \<Rightarrow> Key \<Rightarrow> bool" where
  "same_installation ev ev' key \<longleftrightarrow> Sg_aead ev' = Sg_aead ev \<and> Sg_mfa_Unmarshal ev' = Sg_mfa_Unmarshal ev \<and>
     Is_hash (Sg_issuer ev') = Is_hash (Sg_issuer ev) \<and> Lookup (Is_ring (Sg_issuer ev')) (Key_Kid key) = Inr key \<and> Key_Secret key \<noteq> []"

lemma openState_consumed:
  assumes "open_local ev ''mfa'' token = Some (jti, raw) \<Longrightarrow> Is_hash (Sg_issuer ev) jti \<notin> OT_token_hash ` set (SD_onetime db)"
  shows "openState ev token db = (db, Inl ErrMfaInvalid) \<or> open_local ev ''mfa'' token \<noteq> Some (jti, raw)"
proof (cases "open_local ev ''mfa'' token = Some (jti, raw)")
  case True
  with assms have "find (redeemable now k (Is_hash (Sg_issuer ev) jti)) (SD_onetime db) = None" for now k
    by (force simp: find_None_iff redeemable_def)
  with True show ?thesis by (simp add: openState_def ConsumeOneTime_def run_stmt_def)
qed simp

definition demo_sealing_env :: "time \<Rightarrow> SignEnv" where
  "demo_sealing_env now = demo_sign_env (demo_issuer now CHR ''a'' ''x''\<lparr>Is_ring := demo_local_ring\<rparr>)"

lemma demo_sealing_fields [simp]:
  "Sg_issuer (demo_sealing_env now) = demo_issuer now CHR ''a'' ''x''\<lparr>Is_ring := demo_local_ring\<rparr>"
  "Sg_aead (demo_sealing_env now) = toy_aead" "Sg_mfa_Marshal (demo_sealing_env now) = enc_mfa"
  "Sg_mfa_Unmarshal (demo_sealing_env now) = dec_mfa"
  by (simp_all add: demo_sealing_env_def)

lemma demo_sealing_key:
  "ActiveLocal demo_local_ring = Inr (demo_local_key\<lparr>Key_Kid := ''k2'', Key_Secret := ''s2'', Key_Status := StatusActive\<rparr>)"
  "Lookup demo_local_ring ''k2'' = Inr (demo_local_key\<lparr>Key_Kid := ''k2'', Key_Secret := ''s2'', Key_Status := StatusActive\<rparr>)"
  by (simp_all add: ActiveLocal_def Lookup_def demo_local_ring_def)

lemma demo_seals: "0 \<le> now \<Longrightarrow> 0 \<le> ttl \<Longrightarrow> \<exists>token. seal_state (demo_sealing_env now) k purpose (Some raw) ttl = Some (EncodeToString (replicate 16 CHR ''a''), token)"
  by (simp add: seal_state_def demo_sealing_key secret_New_def local_Seal_def toy_aead_def toy_marshal_def deriveKey_def Let_def Unix_def)

end
