(* ===== verification/Credential_Machine.thy ===== *)
theory Credential_Machine
  imports Factors Sign_In_Safety
begin

text \<open>
  The contract of the credential table, as a step relation on its rows, and that every operation of sign-in, enrolment,
  device keys and administration -- failing statements and rolled-back transactions included -- is a sequence of its
  steps. From it: ids stay unique, a person has at most one live password, a revoked credential stays revoked, and
  the replay guard of an authenticator never goes back.
\<close>

section \<open>The contract\<close>

definition keeps :: "(CredentialRow \<Rightarrow> CredentialRow) \<Rightarrow> bool" where
  "keeps f \<longleftrightarrow> (\<forall>r. CR_id (f r) = CR_id r \<and> CR_identity_id (f r) = CR_identity_id r \<and> CR_kind (f r) = CR_kind r \<and>
     CR_created_at (f r) = CR_created_at r \<and> (live_cred (f r) \<longrightarrow> live_cred r) \<and> last_step r \<le> last_step (f r))"

inductive cred_step :: "CredentialRow list \<Rightarrow> CredentialRow list \<Rightarrow> bool" where
  edit: "keeps f \<Longrightarrow> cred_step C (map f C)"
| add: "CR_id r \<notin> CR_id ` set C \<Longrightarrow> (CR_kind r = ''password'' \<longrightarrow> (\<forall>x\<in>set C. \<not> password_of (CR_identity_id r) x)) \<Longrightarrow>
     cred_step C (C @ [r])"

abbreviation cred_steps :: "CredentialRow list \<Rightarrow> CredentialRow list \<Rightarrow> bool" where
  "cred_steps \<equiv> cred_step\<^sup>*\<^sup>*"

text \<open>Unique ids, and one live password per person.\<close>

definition cred_ok :: "CredentialRow list \<Rightarrow> bool" where
  "cred_ok C \<longleftrightarrow> distinct (map CR_id C) \<and>
     (\<forall>r\<in>set C. \<forall>s\<in>set C. \<forall>who. password_of who r \<and> password_of who s \<longrightarrow> CR_id r = CR_id s)"

text \<open>A later table still has the credential, no more alive and no less guarded.\<close>

definition carried :: "CredentialRow list \<Rightarrow> CredentialRow list \<Rightarrow> bool" where
  "carried C C' \<longleftrightarrow> (\<forall>r\<in>set C. \<exists>r'\<in>set C'. CR_id r' = CR_id r \<and> CR_identity_id r' = CR_identity_id r \<and> CR_kind r' = CR_kind r \<and>
     (live_cred r' \<longrightarrow> live_cred r) \<and> last_step r \<le> last_step r')"

lemma cred_ok_step: "cred_step C C' \<Longrightarrow> cred_ok C \<Longrightarrow> cred_ok C'"
proof (induction rule: cred_step.induct)
  case (edit f C)
  then have ids: "map CR_id (map f C) = map CR_id C" by (simp add: keeps_def)
  moreover have "CR_id x = CR_id y" if "x \<in> set (map f C)" "y \<in> set (map f C)" "password_of who x" "password_of who y" for who x y
  proof -
    from that obtain r s where "r \<in> set C" "s \<in> set C" "x = f r" "y = f s" by auto
    moreover from this that edit(1) have "password_of who r" "password_of who s" by (auto simp: keeps_def password_of_def)
    ultimately show ?thesis using edit by (auto simp: cred_ok_def keeps_def)
  qed
  ultimately show ?case using edit(2) unfolding cred_ok_def by metis
next
  case (add r C)
  have "\<not> password_of who x" if "password_of who r" "x \<in> set C" for who x
    using that add(2) by (auto simp: password_of_def)
  with add show ?case unfolding cred_ok_def by auto
qed

lemma cred_ok_steps: "cred_steps C C' \<Longrightarrow> cred_ok C \<Longrightarrow> cred_ok C'"
  by (induction rule: rtranclp_induct) (auto intro: cred_ok_step)

lemma carried_step: "cred_step C C' \<Longrightarrow> carried C C'"
  by (induction rule: cred_step.induct) (auto simp: carried_def keeps_def)

lemma carried_trans: "carried C D \<Longrightarrow> carried D E \<Longrightarrow> carried C E"
  unfolding carried_def by (metis order_trans)

lemma carried_steps: "cred_steps C C' \<Longrightarrow> carried C C'"
proof (induction rule: rtranclp_induct)
  case base
  show ?case by (auto simp: carried_def)
next
  case (step D E)
  then show ?case by (meson carried_step carried_trans)
qed

section \<open>The statements\<close>

text \<open>The ids the database will draw, from the \<open>k\<close>-th on, are new and differ from each other.\<close>

definition fresh_from :: "nat \<Rightarrow> DbEnv \<Rightarrow> CredentialRow list \<Rightarrow> bool" where
  "fresh_from k ev C \<longleftrightarrow> inj (\<lambda>j. Db_newid ev (CreateCredentialS j)) \<and>
     (\<forall>j\<ge>k. Db_newid ev (CreateCredentialS j) \<notin> CR_id ` set C)"

lemma keeps_if: "(\<And>r. p r \<Longrightarrow> CR_id (f r) = CR_id r \<and> CR_identity_id (f r) = CR_identity_id r \<and> CR_kind (f r) = CR_kind r \<and>
     CR_created_at (f r) = CR_created_at r \<and> (live_cred (f r) \<longrightarrow> live_cred r) \<and> last_step r \<le> last_step (f r)) \<Longrightarrow>
   keeps (\<lambda>r. if p r then f r else r)"
  by (auto simp: keeps_def)

lemma fresh_edit: "keeps f \<Longrightarrow> fresh_from k ev (map f C) = fresh_from k ev C"
  by (simp add: fresh_from_def keeps_def image_image)

lemma update_step:
  assumes "keeps (\<lambda>r. if p r then f r else r)"
  shows "cred_steps (SD_creds db) (SD_creds (update_creds p f db)) \<and>
    (fresh_from k ev (SD_creds db) \<longrightarrow> fresh_from k ev (SD_creds (update_creds p f db)))"
  using cred_step.edit [OF assms, of "SD_creds db"] fresh_edit [OF assms] by (auto simp: update_creds_def)

lemma revoke_keeps: "keeps (\<lambda>r. if p r then revoke_cred now r else r)"
  by (rule keeps_if) (simp add: revoke_cred_def live_cred_def last_step_def)

lemma advance_keeps: "keeps (\<lambda>r. if CR_id r = cid \<and> last_step r < n then r\<lparr>CR_params := map_put ''last_step'' (JNumber n) (CR_params r)\<rparr> else r)"
  by (rule keeps_if) (simp add: live_cred_def last_step_def go_simps)

lemma secret_keeps: "keeps (\<lambda>r. if p r then r\<lparr>CR_secret := s, CR_secret_kid := k\<rparr> else r)"
  by (rule keeps_if) (simp add: live_cred_def last_step_def)

lemma touch_keeps: "keeps (\<lambda>r. if p r then r\<lparr>CR_last_used_at := x, CR_sign_counter := n r\<rparr> else r)"
  by (rule keeps_if) (simp add: live_cred_def last_step_def)

lemmas stmt_steps = update_step [OF revoke_keeps] update_step [OF advance_keeps] update_step [OF secret_keeps] update_step [OF touch_keeps]

lemma steps_RevokeCredential:
  "RevokeCredential ev t cid db = Inr db' \<Longrightarrow> cred_steps (SD_creds db) (SD_creds db')"
  using stmt_steps(1) by (auto simp: RevokeCredential_def run_stmt_Inr Let_def split: if_splits)

lemma steps_OfKind:
  "RevokeCredentialsOfKind ev who kind db = Inr db' \<Longrightarrow> cred_steps (SD_creds db) (SD_creds db') \<and>
     (fresh_from k ev' (SD_creds db) \<longrightarrow> fresh_from k ev' (SD_creds db'))"
  using stmt_steps(1) by (auto simp: RevokeCredentialsOfKind_def run_stmt_Inr)

lemma steps_Secret:
  "UpdateCredentialSecret ev cid s k db = Inr db' \<Longrightarrow> cred_steps (SD_creds db) (SD_creds db') \<and>
     (fresh_from j ev' (SD_creds db) \<longrightarrow> fresh_from j ev' (SD_creds db'))"
  using stmt_steps(3) by (auto simp: UpdateCredentialSecret_def run_stmt_Inr)

lemma steps_Advance:
  "AdvanceCredentialStep ev cid step db = Inr (ok, db') \<Longrightarrow> cred_steps (SD_creds db) (SD_creds db')"
  using stmt_steps(2) by (auto simp: AdvanceCredentialStep_def run_stmt_Inr Let_def)

lemma steps_Touch: "cred_steps (SD_creds db) (SD_creds (TouchCredentialUsed ev cid n db))"
  using stmt_steps(4) by (auto simp: TouchCredentialUsed_def)

lemma steps_Create:
  assumes "CreateCredential ev k i db = Inr (cid, db')" "fresh_from k ev (SD_creds db)"
  shows "cred_steps (SD_creds db) (SD_creds db')" "fresh_from (Suc k) ev (SD_creds db')"
proof -
  from assms(1) have c: "\<not> list_ex (cred_conflict i) (SD_creds db)" and d: "SD_creds db' = SD_creds db @ [new_credential ev k i]"
    by (auto simp: CreateCredential_def run_stmt_Inr split: if_splits)
  have "cred_step (SD_creds db) (SD_creds db @ [new_credential ev k i])"
    using assms(2) c by (intro cred_step.add) (auto simp: new_credential_def fresh_from_def list_ex_iff cred_conflict_def password_of_def)
  then show "cred_steps (SD_creds db) (SD_creds db')" unfolding d by (rule r_into_rtranclp)
  show "fresh_from (Suc k) ev (SD_creds db')"
    using assms(2) unfolding d fresh_from_def by (auto simp: new_credential_def dest: injD [where f = "\<lambda>j. Db_newid ev (CreateCredentialS j)"])
qed

section \<open>Every operation keeps the contract\<close>

lemma creds_auth [simp]:
  "SD_creds (sign_emit e db) = SD_creds db" "SD_onetime (sign_emit e db) = SD_onetime db"
  "SD_creds (AuditLogin ev t i su re de si db) = SD_creds db" "SD_onetime (AuditLogin ev t i su re de si db) = SD_onetime db"
  by (simp_all add: sign_emit_def AuditLogin_def split: option.split)

lemma creds_establish [simp]:
  "SD_creds (fst (establishSession ev t r w c f a db)) = SD_creds db" "SD_onetime (fst (establishSession ev t r w c f a db)) = SD_onetime db"
  by (simp_all add: establishSession_def split: prod.split)

lemma establish_creds:
  "establishSession ev t r w c f a db = (db', x) \<Longrightarrow> SD_creds db' = SD_creds db \<and> SD_onetime db' = SD_onetime db"
  using creds_establish [of ev t r w c f a db] by simp

lemma creds_FactorPolicy: "SD_creds (fst (FactorPolicy ev tn rl ident su db)) = SD_creds db"
  by (simp add: FactorPolicy_def Let_def split: sum.split prod.split)

lemma creds_OneTime:
  "CreateOneTime ev t k h p e db = Inr (x, db') \<Longrightarrow> SD_creds db' = SD_creds db"
  "ConsumeOneTime ev k h db = Inr (y, db') \<Longrightarrow> SD_creds db' = SD_creds db"
  by (auto simp: CreateOneTime_def ConsumeOneTime_def run_stmt_Inr split: if_splits option.splits)

text \<open>Sign-in rewrites at most the secret of a row: what happens after the password only reads credentials.\<close>

lemma Authenticate_creds:
  assumes "Authenticate ev i su db = (db1, d)"
  shows "SD_creds db1 = SD_creds db \<or> (\<exists>who c b tn. PasswordCredential (Is_db (Sg_issuer ev)) who db = Inr c \<and>
     SD_creds db1 = SD_creds (rehash ev b tn c (LI_Password i) db))"
proof (cases rule: Authenticate_cases [of ev i su db])
  case (past tn rl a r ident c b)
  show ?thesis
  proof (cases "(\<exists>e. CanAuthenticate ident = Inl e) \<or> Cred_Expired c (Is_clock (Sg_issuer ev))")
    case True
    with past(7) assms show ?thesis by (auto split: sum.splits)
  next
    case False
    then have "Authenticate ev i su db = FactorPolicy ev tn rl ident su (rehash ev b tn c (LI_Password i) db)"
      using past(7) by (auto split: sum.splits)
    then have "SD_creds db1 = SD_creds (rehash ev b tn c (LI_Password i) db)"
      using assms creds_FactorPolicy by (metis fst_conv)
    with past(3) show ?thesis by blast
  qed
qed (use assms in auto)

lemma Login_creds:
  "SD_creds (fst (Login_Execute ev i db)) = SD_creds db \<or>
   (\<exists>who c b tn. PasswordCredential (Is_db (Sg_issuer ev)) who db = Inr c \<and>
     SD_creds (fst (Login_Execute ev i db)) = SD_creds (rehash ev b tn c (LI_Password i) db))"
proof -
  obtain db1 d where A: "Authenticate ev i SurfaceAPI db = (db1, d)" by fastforce
  have "SD_creds (fst (Login_Execute ev i db)) = SD_creds db1"
    by (auto simp: Login_Execute_def A mintMFAChallenge_def dest: creds_OneTime establish_creds
        split: SignStep.split option.split sum.split prod.split)
  with Authenticate_creds [OF A] show ?thesis by metis
qed

lemma rehash_steps:
  assumes "PasswordCredential (Is_db (Sg_issuer ev)) who db = Inr c"
  shows "cred_steps (SD_creds db) (SD_creds (rehash ev b tn c pw db))"
proof (cases "Cr_ExpiresAt c")
  case None
  then show ?thesis by (auto simp: rehash_def replaceHash_def Let_def dest: steps_Secret split: option.split sum.split)
next
  case (Some e)
  then show ?thesis by (simp add: rehash_frame(4) [OF assms])
qed

lemma steps_Login: "cred_steps (SD_creds db) (SD_creds (fst (Login_Execute ev i db)))"
  using Login_creds [of ev i db] by (auto dest: rehash_steps)

lemma openState_creds: "openState ev token db = (db', x) \<Longrightarrow> SD_creds db' = SD_creds db"
  by (auto simp: openState_def dest: creds_OneTime split: option.splits sum.splits prod.splits)

lemma shared_secret_steps: "shared_secret ev cred db = Inr (s, db') \<Longrightarrow> cred_steps (SD_creds db) (SD_creds db')"
  by (auto simp: shared_secret_def dest: steps_Secret split: option.splits sum.splits if_splits prod.splits)

lemma accept_code_steps: "accept_code ev cred s code db = Inr (ok, db') \<Longrightarrow> cred_steps (SD_creds db) (SD_creds db')"
  by (auto simp: accept_code_def dest: steps_Advance split: option.splits sum.splits bool.splits prod.splits)

lemma finish_mfa_creds: "SD_creds (fst (finish_mfa ev state db)) = SD_creds db"
  by (auto simp: finish_mfa_def dest: establish_creds split: sum.split option.split prod.split)

lemma steps_Verify: "cred_steps (SD_creds db) (SD_creds (fst (VerifyMfa_Execute ev i db)))"
proof -
  obtain db1 x where o: "openState ev (VM_MFAToken i) db = (db1, x)" by fastforce
  note c = openState_creds [OF o]
  show ?thesis
  proof (cases x)
    case (Inr state)
    show ?thesis
    proof (cases "VM_Method i = ''totp'' \<and> (\<exists>cred s db2. ActiveCredentialOfKind (Is_db (Sg_issuer ev)) (MS_IdentityID state) ''totp'' db1 = Inr cred \<and>
        shared_secret ev cred db1 = Inr (s, db2))")
      case True
      then obtain cred s db2 where a: "ActiveCredentialOfKind (Is_db (Sg_issuer ev)) (MS_IdentityID state) ''totp'' db1 = Inr cred"
        "shared_secret ev cred db1 = Inr (s, db2)" "VM_Method i = ''totp''" by blast
      note s1 = shared_secret_steps [OF a(2)]
      show ?thesis
      proof (cases "accept_code ev cred s (VM_Code i) db2")
        case (Inr y)
        then obtain ok db3 where y: "accept_code ev cred s (VM_Code i) db2 = Inr (ok, db3)" by (cases y) auto
        have "cred_steps (SD_creds db1) (SD_creds db3)" using accept_code_steps [OF y] s1 by (rule rtranclp_trans [rotated])
        with c show ?thesis
          by (simp add: VerifyMfa_Execute_def o \<open>x = Inr state\<close> a y finish_mfa_creds)
      qed (use s1 c in \<open>simp add: VerifyMfa_Execute_def o \<open>x = Inr state\<close> a\<close>)
    next
      case False
      then have "fst (VerifyMfa_Execute ev i db) = db1"
        by (auto simp: VerifyMfa_Execute_def o Inr split: sum.split prod.split)
      with c show ?thesis by simp
    qed
  qed (simp add: VerifyMfa_Execute_def o c)
qed

lemma steps_recovery:
  "recovery_loop ev p k n codes db = Inr (out, db') \<Longrightarrow> fresh_from (Suc k) (Is_db (Sg_issuer ev)) (SD_creds db) \<Longrightarrow>
     cred_steps (SD_creds db) (SD_creds db')"
proof (induction ev p k n codes db rule: recovery_loop.induct)
  case (2 ev p k n codes db)
  then show ?case
    by (auto split: option.splits sum.splits prod.splits dest: steps_Create) (meson rtranclp_trans steps_Create)
qed simp

lemma steps_confirm_tx:
  assumes "confirm_tx ev p state step master db = Inr (out, db')" "fresh_from 0 (Is_db (Sg_issuer ev)) (SD_creds db)"
  shows "cred_steps (SD_creds db) (SD_creds db')"
proof -
  let ?dev = "Is_db (Sg_issuer ev)"
  from assms(1) obtain db1 credID db2 sealed db3 db4 codes where
    r1: "RevokeCredentialsOfKind ?dev (Pr_IdentityID p) ''totp'' db = Inr db1" and
    c2: "CreateCredential ?dev 0 \<lparr>CI_IdentityID = Pr_IdentityID p, CI_TenantID = Pr_TenantID p, CI_Kind = ''totp'', CI_Secret = [],
          CI_LookupKey = [], CI_Label = ''authenticator'', CI_Params = [(''last_step'', JNumber (uint step))], CI_ExpiresAt = None\<rparr> db1 = Inr (credID, db2)" and
    u3: "UpdateCredentialSecret ?dev credID (std_EncodeToString sealed) (Key_Kid master) db2 = Inr db3" and
    r4: "RevokeCredentialsOfKind ?dev (Pr_IdentityID p) ''recovery_code'' db3 = Inr db4" and
    l5: "recovery_loop ev p 0 recoveryCodeCount [] db4 = Inr (codes, db')"
    by (auto simp: confirm_tx_def Let_def and_then_Inr split: option.splits)
  have f1: "fresh_from 0 ?dev (SD_creds db1)" using steps_OfKind [OF r1] assms(2) by blast
  note s2 = steps_Create [OF c2 f1]
  have "fresh_from (Suc 0) ?dev (SD_creds db4)" using s2(2) steps_Secret [OF u3] steps_OfKind [OF r4] by blast
  from steps_recovery [OF l5 this] s2(1) steps_OfKind [OF r1] steps_Secret [OF u3] steps_OfKind [OF r4]
  show ?thesis by (meson rtranclp_trans)
qed

lemma steps_WithinTx_creds:
  assumes "WithinTx ev fn e db = (db', x)" and "\<And>y db1. fn db = Inr (y, db1) \<Longrightarrow> cred_steps (SD_creds db) (SD_creds db1)"
  shows "cred_steps (SD_creds db) (SD_creds db')"
  by (cases rule: WithinTx_cases [of ev fn e db]) (use assms in auto)

lemma steps_Confirm:
  assumes "fresh_from 0 (Is_db (Sg_issuer ev)) (SD_creds db)"
  shows "cred_steps (SD_creds db) (SD_creds (fst (ConfirmTOTP ev ctx token code grant db)))"
proof -
  have tx: "cred_steps (SD_creds db) (SD_creds db2)"
    if "WithinTx (Is_db (Sg_issuer ev)) (confirm_tx ev p state step master) ErrInternal db1 = (db2, x)" "SD_creds db1 = SD_creds db"
    for p state step master db1 db2 x
    using steps_WithinTx_creds [OF that(1)] steps_confirm_tx assms that(2) by (metis surj_pair)
  show ?thesis
    unfolding ConfirmTOTP_def
    by (auto dest!: creds_OneTime(2) intro: tx split: sum.split option.split prod.split bool.split)
qed

lemma steps_Device:
  assumes "fresh_from 0 (Is_db (Sg_issuer ev)) (SD_creds db)"
  shows "cred_steps (SD_creds db) (SD_creds (fst (EnrollDeviceKey ev ctx pk label db)))"
  using assms by (auto simp: EnrollDeviceKey_def dest: steps_Create split: sum.split option.split prod.split)

lemma device_finish_steps: "cred_steps (SD_creds db) (SD_creds (fst (device_finish ev tenant named c i db)))"
  by (auto simp: device_finish_def Let_def steps_Touch dest: establish_creds split: sum.split option.split prod.split)

lemma steps_DeviceVerify: "cred_steps (SD_creds db) (SD_creds (fst (DeviceVerify_Execute ev i db)))"
proof -
  have f: "cred_steps (SD_creds db) (SD_creds (fst (device_finish ev tenant named c i db1)))" if "SD_creds db1 = SD_creds db" for tenant named c db1
    using device_finish_steps [of db1] that by simp
  show ?thesis
    by (auto simp: DeviceVerify_Execute_def dest!: creds_OneTime(2) intro: f split: sum.split option.split prod.split)
qed

lemma steps_replace_password:
  assumes "fresh_from 0 (Is_db (Sg_issuer ev)) (SD_creds db)"
    and "WithinTx (Is_db (Sg_issuer ev)) (replace_password_tx ev p who h e) ErrInternal db = (db', x)"
  shows "cred_steps (SD_creds db) (SD_creds db')"
proof (rule steps_WithinTx_creds [OF assms(2)])
  fix y db2 assume "replace_password_tx ev p who h e db = Inr (y, db2)"
  then obtain db1 i where r: "RevokeCredentialsOfKind (Is_db (Sg_issuer ev)) who ''password'' db = Inr db1"
    and c: "CreateCredential (Is_db (Sg_issuer ev)) 0 i db1 = Inr (y, db2)"
    by (auto simp: replace_password_tx_def and_then_Inr)
  have "fresh_from 0 (Is_db (Sg_issuer ev)) (SD_creds db1)" using steps_OfKind [OF r] assms(1) by blast
  with steps_Create(1) [OF c] steps_OfKind [OF r] show "cred_steps (SD_creds db) (SD_creds db2)" by (auto intro: rtranclp_trans)
qed

lemma steps_SetPassword:
  "fresh_from 0 (Is_db (Sg_issuer ev)) (SD_creds db) \<Longrightarrow> cred_steps (SD_creds db) (SD_creds (fst (AdminSetPassword ev guard who pw db)))"
  unfolding AdminSetPassword_def by (auto dest: steps_replace_password split: sum.split option.split prod.split)

lemma steps_Import:
  "fresh_from 0 (Is_db (Sg_issuer ev)) (SD_creds db) \<Longrightarrow> cred_steps (SD_creds db) (SD_creds (fst (AdminImportPasswordHash ev guard who h t db)))"
  unfolding AdminImportPasswordHash_def by (auto dest: steps_replace_password split: sum.split option.split prod.split)

lemma steps_AdminRevoke: "cred_steps (SD_creds db) (SD_creds (fst (AdminRevokeCredential ev guard cid db)))"
  by (auto simp: AdminRevokeCredential_def dest: steps_RevokeCredential split: sum.split)

section \<open>Runs\<close>

text \<open>Anything may happen to sessions and identities in between; the ids of new credentials are new.\<close>

inductive sign_trans :: "SignDB \<Rightarrow> SignDB \<Rightarrow> bool" where
  login: "sign_trans db (fst (Login_Execute ev i db))"
| verify_mfa: "sign_trans db (fst (VerifyMfa_Execute ev j db))"
| begin_totp: "BeginTOTP ev ctx g db = Inr (x, db') \<Longrightarrow> sign_trans db db'"
| confirm_totp: "fresh_from 0 (Is_db (Sg_issuer ev)) (SD_creds db) \<Longrightarrow> sign_trans db (fst (ConfirmTOTP ev ctx token code g db))"
| enrol_device: "fresh_from 0 (Is_db (Sg_issuer ev)) (SD_creds db) \<Longrightarrow> sign_trans db (fst (EnrollDeviceKey ev ctx pk label db))"
| device_challenge: "DeviceChallenge_Execute ev t r d db = Inr (y, db') \<Longrightarrow> sign_trans db db'"
| device_verify: "sign_trans db (fst (DeviceVerify_Execute ev v db))"
| set_password: "fresh_from 0 (Is_db (Sg_issuer ev)) (SD_creds db) \<Longrightarrow> sign_trans db (fst (AdminSetPassword ev guard who pw db))"
| import_hash: "fresh_from 0 (Is_db (Sg_issuer ev)) (SD_creds db) \<Longrightarrow> sign_trans db (fst (AdminImportPasswordHash ev guard who h e db))"
| revoke: "sign_trans db (fst (AdminRevokeCredential ev guard cid db))"
| elsewhere: "sign_trans db (db\<lparr>SD_auth := a\<rparr>)"

lemma trans_steps: "sign_trans db db' \<Longrightarrow> cred_steps (SD_creds db) (SD_creds db')"
proof (induction rule: sign_trans.induct)
  case (begin_totp ev ctx g db x db')
  then show ?case by (auto simp: BeginTOTP_def dest: creds_OneTime split: sum.splits option.splits prod.splits)
next
  case (device_challenge ev t r d db y db')
  then show ?case by (auto simp: DeviceChallenge_Execute_def dest: creds_OneTime split: sum.splits option.splits prod.splits)
qed (simp_all add: steps_Login steps_Verify steps_Confirm steps_Device steps_DeviceVerify steps_SetPassword steps_Import steps_AdminRevoke)

lemma run_steps: "sign_trans\<^sup>*\<^sup>* db db' \<Longrightarrow> cred_steps (SD_creds db) (SD_creds db')"
  by (induction rule: rtranclp_induct) (auto dest: trans_steps)

text \<open>C15. The credential table keeps its contract. Along any run of sign-ins, second factors, enrolments, device keys
  and password administration -- refusals, failed statements and rolled-back transactions included -- credential
  ids stay unique, nobody has two live passwords, a credential keeps its owner and kind, one that was
  revoked never comes back, and the replay guard of an authenticator never moves backwards.\<close>

theorem credentials_refine_contract:
  assumes "sign_trans\<^sup>*\<^sup>* db db'" "cred_ok (SD_creds db)"
  shows "cred_steps (SD_creds db) (SD_creds db') \<and> cred_ok (SD_creds db') \<and> carried (SD_creds db) (SD_creds db')"
  using run_steps [OF assms(1)] assms(2) by (simp add: carried_steps cred_ok_steps)

theorem credentials_refine_contract_witness:
  "let db' = fst (AdminRevokeCredential (demo_sign_env demo_ev0) (Inr demo_alice) ''c1'' demo_sign_db) in
   cred_steps (SD_creds demo_sign_db) (SD_creds db') \<and> cred_ok (SD_creds db') \<and> carried (SD_creds demo_sign_db) (SD_creds db')"
proof -
  have "sign_trans\<^sup>*\<^sup>* demo_sign_db (fst (AdminRevokeCredential (demo_sign_env demo_ev0) (Inr demo_alice) ''c1'' demo_sign_db))"
    by (intro r_into_rtranclp sign_trans.revoke)
  moreover have "cred_ok (SD_creds demo_sign_db)" by (simp add: cred_ok_def demo_sign_db_def)
  ultimately show ?thesis unfolding Let_def by (rule credentials_refine_contract)
qed

section \<open>An imported hash stays\<close>

text \<open>While every live password carries an end date, signing in leaves the credential table as it is: the unique index on
  live passwords refuses the row that was to replace the imported hash.\<close>

lemma imported_hash_stays:
  assumes "\<forall>r\<in>set (SD_creds db). \<forall>who. password_of who r \<longrightarrow> CR_expires_at r \<noteq> None"
  shows "SD_creds (fst (Login_Execute ev i db)) = SD_creds db"
proof -
  have "SD_creds (rehash ev b tn c (LI_Password i) db) = SD_creds db" if c: "PasswordCredential (Is_db (Sg_issuer ev)) who db = Inr c" for who c b tn
  proof -
    from c obtain r where "r \<in> set (SD_creds db)" "password_of who r" "Cr_ExpiresAt c = CR_expires_at r" by (rule PasswordCredential_Inr)
    with assms have "Cr_ExpiresAt c \<noteq> None" by metis
    then show ?thesis by (simp add: rehash_frame(4) [OF c])
  qed
  then show ?thesis using Login_creds [of ev i db] by auto
qed

section \<open>A code is good once\<close>

text \<open>The authenticator and step a request with a correct, unused code was accepted for.\<close>

definition mfa_used :: "SignEnv \<Rightarrow> VerifyMfaInput \<Rightarrow> SignDB \<Rightarrow> (string \<times> 64 word) option" where
  "mfa_used ev i db =
     (case openState ev (VM_MFAToken i) db of (db1, Inl e) \<Rightarrow> None | (db1, Inr state) \<Rightarrow>
      if VM_Method i \<noteq> ''totp'' then None
      else case ActiveCredentialOfKind (Is_db (Sg_issuer ev)) (MS_IdentityID state) ''totp'' db1 of Inl e \<Rightarrow> None | Inr cred \<Rightarrow>
        case shared_secret ev cred db1 of Inl e \<Rightarrow> None | Inr (s, db2) \<Rightarrow>
        case totp_Verify (Sg_mac ev) s (VM_Code i) (Is_clock (Sg_issuer ev)) DefaultStep DefaultDigits 1 of
          Some (step, True) \<Rightarrow>
            (case AdvanceCredentialStep (Is_db (Sg_issuer ev)) (Cr_ID cred) step db2 of Inr (True, db3) \<Rightarrow> Some (Cr_ID cred, step) | _ \<Rightarrow> None)
        | _ \<Rightarrow> None)"

lemma mfa_used_SomeE:
  assumes "mfa_used ev i db = Some (cid, step)"
  obtains db1 state cred s db2 db3 where "openState ev (VM_MFAToken i) db = (db1, Inr state)" "VM_Method i = ''totp''"
    "ActiveCredentialOfKind (Is_db (Sg_issuer ev)) (MS_IdentityID state) ''totp'' db1 = Inr cred" "cid = Cr_ID cred"
    "shared_secret ev cred db1 = Inr (s, db2)"
    "totp_Verify (Sg_mac ev) s (VM_Code i) (Is_clock (Sg_issuer ev)) DefaultStep DefaultDigits 1 = Some (step, True)"
    "AdvanceCredentialStep (Is_db (Sg_issuer ev)) (Cr_ID cred) step db2 = Inr (True, db3)"
    "VerifyMfa_Execute ev i db = finish_mfa ev state db3"
proof -
  from assms obtain db1 state cred s db2 db3 where *: "openState ev (VM_MFAToken i) db = (db1, Inr state)" "VM_Method i = ''totp''"
    "ActiveCredentialOfKind (Is_db (Sg_issuer ev)) (MS_IdentityID state) ''totp'' db1 = Inr cred" "cid = Cr_ID cred"
    "shared_secret ev cred db1 = Inr (s, db2)"
    "totp_Verify (Sg_mac ev) s (VM_Code i) (Is_clock (Sg_issuer ev)) DefaultStep DefaultDigits 1 = Some (step, True)"
    "AdvanceCredentialStep (Is_db (Sg_issuer ev)) (Cr_ID cred) step db2 = Inr (True, db3)"
    by (auto simp: mfa_used_def split: prod.splits sum.splits if_splits option.splits bool.splits)
  moreover have "VerifyMfa_Execute ev i db = finish_mfa ev state db3" using * by (simp add: VerifyMfa_Execute_def accept_code_def)
  ultimately show thesis by (rule that)
qed

lemma accept_code_True:
  assumes "accept_code ev cred s code db = Inr (True, db')"
  obtains step where "totp_Verify (Sg_mac ev) s code (Is_clock (Sg_issuer ev)) DefaultStep DefaultDigits 1 = Some (step, True)"
    "AdvanceCredentialStep (Is_db (Sg_issuer ev)) (Cr_ID cred) step db = Inr (True, db')"
  using assms unfolding accept_code_def by (auto split: option.splits bool.splits sum.splits)

lemma accepted_used:
  assumes "VerifyMfa_Execute ev i db = (db', Inr p)"
  shows "mfa_used ev i db \<noteq> None"
proof -
  from assms obtain db1 state cred s db2 db3 where *: "openState ev (VM_MFAToken i) db = (db1, Inr state)" "VM_Method i = ''totp''"
    "ActiveCredentialOfKind (Is_db (Sg_issuer ev)) (MS_IdentityID state) ''totp'' db1 = Inr cred"
    "shared_secret ev cred db1 = Inr (s, db2)" "accept_code ev cred s (VM_Code i) db2 = Inr (True, db3)"
    unfolding VerifyMfa_Execute_def by (auto split: prod.splits sum.splits if_splits)
  from this(5) show ?thesis by (rule accept_code_True) (simp add: mfa_used_def *)
qed

text \<open>An accepted step is above the guard before, and is the guard after.\<close>

lemma advance_hit:
  assumes "AdvanceCredentialStep ev cid step db = Inr (True, db')"
  shows "\<exists>r\<in>set (SD_creds db). CR_id r = cid \<and> last_step r < sint step" "\<exists>r\<in>set (SD_creds db'). CR_id r = cid \<and> last_step r = sint step"
proof -
  from assms show ex: "\<exists>r\<in>set (SD_creds db). CR_id r = cid \<and> last_step r < sint step"
    by (auto simp: AdvanceCredentialStep_def run_stmt_Inr Let_def list_ex_iff)
  then obtain r where r: "r \<in> set (SD_creds db)" "CR_id r = cid \<and> last_step r < sint step" by blast
  let ?f = "\<lambda>r. if CR_id r = cid \<and> last_step r < sint step then r\<lparr>CR_params := map_put ''last_step'' (JNumber (sint step)) (CR_params r)\<rparr> else r"
  have "SD_creds db' = map ?f (SD_creds db)"
    using assms by (auto simp: AdvanceCredentialStep_def run_stmt_Inr Let_def update_creds_def)
  then have "?f r \<in> set (SD_creds db')" using r(1) unfolding set_map by (simp only: set_map) (rule imageI)
  moreover have "CR_id (?f r) = cid" "last_step (?f r) = sint step" using r(2) by (simp_all add: last_step_def go_simps)
  ultimately show "\<exists>r\<in>set (SD_creds db'). CR_id r = cid \<and> last_step r = sint step" by blast
qed

lemma carriedD:
  assumes "carried C C'" "r \<in> set C" "distinct (map CR_id C')" "s \<in> set C'" "CR_id s = CR_id r"
  shows "last_step r \<le> last_step s"
proof -
  from assms(1,2) obtain r' where r': "r' \<in> set C'" "CR_id r' = CR_id r" "last_step r \<le> last_step r'" unfolding carried_def by blast
  then have "r' = s" using assms(3-5) by (auto simp: distinct_map inj_on_def)
  with r' show ?thesis by simp
qed

lemma later_step:
  assumes ok: "cred_ok (SD_creds db)"
    and run: "sign_trans\<^sup>*\<^sup>* (fst (VerifyMfa_Execute ev i db)) db'"
    and one: "mfa_used ev i db = Some (cid, step)" and two: "mfa_used ev' j db' = Some (cid, step')"
  shows "sint step < sint step'"
proof -
  from one obtain state db3 db2 where adv: "AdvanceCredentialStep (Is_db (Sg_issuer ev)) cid step db2 = Inr (True, db3)"
    and fin: "VerifyMfa_Execute ev i db = finish_mfa ev state db3" by (elim mfa_used_SomeE) auto
  then have end1: "SD_creds (fst (VerifyMfa_Execute ev i db)) = SD_creds db3" by (simp add: finish_mfa_creds)
  from advance_hit(2) [OF adv] obtain r where r: "r \<in> set (SD_creds db3)" "CR_id r = cid" "last_step r = sint step" by blast
  from two obtain db4 state' cred s db5 db6 where o: "openState ev' (VM_MFAToken j) db' = (db4, Inr state')"
    and sh: "shared_secret ev' cred db4 = Inr (s, db5)"
    and adv': "AdvanceCredentialStep (Is_db (Sg_issuer ev')) cid step' db5 = Inr (True, db6)" by (elim mfa_used_SomeE) auto
  from advance_hit(1) [OF adv'] obtain q where q: "q \<in> set (SD_creds db5)" "CR_id q = cid" "last_step q < sint step'" by blast
  have "cred_steps (SD_creds db3) (SD_creds db5)"
    using run_steps [OF run] shared_secret_steps [OF sh] by (simp add: end1 openState_creds [OF o])
  moreover have "cred_steps (SD_creds db) (SD_creds db3)" using steps_Verify [of db ev i] by (simp add: end1)
  ultimately have "carried (SD_creds db3) (SD_creds db5)" "cred_ok (SD_creds db5)"
    using ok by (auto intro: carried_steps dest: cred_ok_steps)
  with carriedD [OF _ r(1) _ q(1)] r q show ?thesis by (auto simp: cred_ok_def)
qed

text \<open>C14. A one-time code is good once. Tokens for a second factor are issued only for a correct code of a time step no
  earlier request of that authenticator used: when two requests -- with anything in between, and whether or not a
  session followed -- are accepted for one authenticator, the second one's step is strictly later. So a code
  seen over a shoulder, replayed within its window, or an older one, is refused.\<close>

theorem totp_code_once:
  assumes "cred_ok (SD_creds db)" and "sign_trans\<^sup>*\<^sup>* (fst (VerifyMfa_Execute ev i db)) db'"
    and "mfa_used ev i db = Some (cid, step)" "mfa_used ev' j db' = Some (cid, step')"
  shows "sint step < sint step' \<and> (\<forall>e k d d' p. VerifyMfa_Execute e k d = (d', Inr p) \<longrightarrow> mfa_used e k d \<noteq> None)"
  using later_step [OF assms] accepted_used by blast

section \<open>Two codes of one authenticator\<close>

lemma finish_onetime: "SD_onetime (fst (finish_mfa ev state db)) = SD_onetime db"
  by (auto simp: finish_mfa_def dest: establish_creds split: sum.split option.split prod.split)

definition demo_totp_secret :: string where
  "demo_totp_secret = the (SealSecret toy_aead (Some demo_nonce) ''s2'' ''totp:a1'' ''shared'')"

definition demo_totp :: "int \<Rightarrow> CredentialRow" where
  "demo_totp n = demo_password\<lparr>CR_id := ''a1'', CR_kind := ''totp'', CR_secret := Some (std_EncodeToString demo_totp_secret),
     CR_secret_kid := Some ''k2'', CR_params := [(''last_step'', JNumber n)]\<rparr>"

definition demo_state :: MFAState where
  "demo_state = \<lparr>MS_TenantID = ''t1'', MS_TenantSlug = ''acme'', MS_IdentityID = ''alice'', MS_RealmID = ''r1'', MS_ClientID = ''shop'',
     MS_DeviceFP = [], MS_Methods = [''totp''], MS_IP = [], MS_UserAgent = []\<rparr>"

definition demo_mfa_token :: "string \<Rightarrow> time \<Rightarrow> string" where
  "demo_mfa_token jti t = the (local_Seal toy_aead (Some demo_nonce) ''s2'' ''k2'' ''mfa'' jti (enc_mfa demo_state) mfaTokenTTL t)"

definition demo_onetime :: "string \<Rightarrow> time \<Rightarrow> OneTimeRow" where
  "demo_onetime jti t = \<lparr>OT_id = jti, OT_tenant_id = ''t1'', OT_kind = ''mfa'', OT_token_hash = jti, OT_payload = ''{}'', OT_expires_at = t + mfaTokenTTL\<rparr>"

definition demo_verify :: "string \<Rightarrow> time \<Rightarrow> VerifyMfaInput" where
  "demo_verify jti t = \<lparr>VM_MFAToken = demo_mfa_token jti t, VM_Method = ''totp'', VM_Code = ''872921''\<rparr>"

lemma demo_token_opens:
  assumes "0 \<le> t" "t \<le> now" "Unix now \<le> Unix (t + mfaTokenTTL)"
  shows "open_local (demo_sealing_env now) ''mfa'' (demo_mfa_token jti t) = Some (jti, the (enc_mfa demo_state))"
proof -
  have s: "local_Seal toy_aead (Some demo_nonce) ''s2'' ''k2'' ''mfa'' jti (Some (the (enc_mfa demo_state))) mfaTokenTTL t = Some (demo_mfa_token jti t)"
    using assms(1) by (simp add: demo_mfa_token_def local_Seal_def toy_aead_def toy_marshal_def deriveKey_def Unix_def Let_def enc_mfa_def mfaTokenTTL_def)
  from sealed_opens [OF toy_aead_correct toy_env_faithful _ _ s, of now] assms(3) show ?thesis
    by (simp add: demo_nonce_def nonceSize_def open_local_def demo_sealing_key)
qed

lemma demo_code_used:
  assumes t: "0 \<le> t" "t \<le> now" "now < t + mfaTokenTTL" "Unix now = 30 * int (Suc n)" "n < 2 ^ 32" and old: "l0 < int n"
    and db: "SD_creds db = [demo_totp l0]" "find (redeemable now ''mfa'' jti) (SD_onetime db) = Some row"
  shows "mfa_used (demo_sealing_env now) (demo_verify jti t) db = Some (''a1'', word_of_nat n) \<and>
    SD_creds (fst (VerifyMfa_Execute (demo_sealing_env now) (demo_verify jti t) db)) = [demo_totp (int n)] \<and>
    SD_onetime (fst (VerifyMfa_Execute (demo_sealing_env now) (demo_verify jti t) db)) = filter (\<lambda>x. \<not> redeemable now ''mfa'' jti x) (SD_onetime db)"
proof -
  let ?ev = "demo_sealing_env now" and ?i = "demo_verify jti t"
  let ?db1 = "db\<lparr>SD_onetime := filter (\<lambda>x. \<not> redeemable now ''mfa'' jti x) (SD_onetime db)\<rparr>"
  have "open_local ?ev ''mfa'' (demo_mfa_token jti t) = Some (jti, the (enc_mfa demo_state))"
    using t by (intro demo_token_opens) (auto simp: Unix_def intro: zdiv_mono1)
  then have o: "openState ?ev (VM_MFAToken ?i) db = (?db1, Inr demo_state)"
    using db(2) dec_enc_mfa [of demo_state] by (simp add: openState_def demo_verify_def ConsumeOneTime_def run_stmt_def enc_mfa_def)
  define cred where "cred = \<lparr>Cr_ID = ''a1'', Cr_IdentityID = ''alice'', Cr_TenantID = ''t1'', Cr_Kind = ''totp'',
      Cr_Secret = std_EncodeToString demo_totp_secret, Cr_SecretKid = ''k2'', Cr_Params = [(''last_step'', JNumber l0)],
      Cr_SignCounter = 0, Cr_ExpiresAt = None\<rparr>"
  have a: "ActiveCredentialOfKind (Is_db (Sg_issuer ?ev)) (MS_IdentityID demo_state) ''totp'' ?db1 = Inr cred"
    by (simp add: ActiveCredentialOfKind_def run_stmt_def db demo_totp_def demo_password_def demo_state_def unexpired_cred_def live_cred_def nstr_def cred_def)
  have "OpenNamedSecret toy_aead demo_local_ring ''k2'' ''totp:a1'' demo_totp_secret = Inr (''shared'', ''k2'')"
    using sealed_secret_opens [OF toy_aead_correct, of demo_nonce "''s2''" "''totp:a1''" "''shared''" demo_totp_secret]
    by (simp add: demo_totp_secret_def SealSecret_def sealAEAD_def toy_aead_def demo_nonce_def OpenNamedSecret_def demo_sealing_key)
  then have s: "shared_secret ?ev cred ?db1 = Inr (''shared'', ?db1)" by (simp add: shared_secret_def cred_def)
  have m: "mac20 (\<lambda>secret msg. rfc4226_sum)" by (simp add: mac20_def rfc4226_sum_def)
  have step: "step_of now = Suc n" using t(4) by (simp add: step_of_def)
  have v: "totp_Verify (Sg_mac ?ev) ''shared'' (VM_Code ?i) (Is_clock (Sg_issuer ?ev)) DefaultStep DefaultDigits 1 = Some (word_of_nat n, True)"
    using totp_exact [OF m, of now "''shared''" "''872921''"] t(4,5) by (simp add: demo_sealing_env_def demo_verify_def step window_def rfc4226_code)
  let ?db3 = "?db1\<lparr>SD_creds := [demo_totp (int n)]\<rparr>"
  have w: "sint (word_of_nat n :: 64 word) = int n" using t(5) by (simp add: signed_of_nat signed_take_bit_int_eq_self)
  have adv: "AdvanceCredentialStep (Is_db (Sg_issuer ?ev)) (Cr_ID cred) (word_of_nat n) ?db1 = Inr (True, ?db3)"
    using old db by (simp add: AdvanceCredentialStep_def run_stmt_def cred_def demo_totp_def last_step_def w update_creds_def map_put_def)
  have "VerifyMfa_Execute ?ev ?i db = finish_mfa ?ev demo_state ?db3"
    using o a s v adv by (simp add: VerifyMfa_Execute_def accept_code_def demo_verify_def)
  moreover have "mfa_used ?ev ?i db = Some (''a1'', word_of_nat n)"
    using o a s v adv by (simp add: mfa_used_def demo_verify_def cred_def)
  ultimately show ?thesis by (simp add: finish_mfa_creds finish_onetime)
qed

definition demo_mfa_db :: SignDB where
  "demo_mfa_db = \<lparr>SD_auth = demo_db0, SD_creds = [demo_totp 0], SD_onetime = [demo_onetime ''j1'' (100 * Second), demo_onetime ''j2'' (280 * Second)]\<rparr>"

theorem totp_code_once_witness:
  "\<exists>db'. mfa_used (demo_sealing_env (120 * Second)) (demo_verify ''j1'' (100 * Second)) demo_mfa_db = Some (''a1'', 3) \<and>
     mfa_used (demo_sealing_env (300 * Second)) (demo_verify ''j2'' (280 * Second)) db' = Some (''a1'', 9) \<and> sint (3 :: 64 word) < sint (9 :: 64 word)"
proof -
  let ?ev = "demo_sealing_env (120 * Second)" and ?i = "demo_verify ''j1'' (100 * Second)"
  let ?db = "fst (VerifyMfa_Execute ?ev ?i demo_mfa_db)"
  have one: "mfa_used ?ev ?i demo_mfa_db = Some (''a1'', word_of_nat 3) \<and> SD_creds ?db = [demo_totp 3] \<and> SD_onetime ?db = [demo_onetime ''j2'' (280 * Second)]"
    using demo_code_used [of "100 * Second" "120 * Second" 3 0 demo_mfa_db "''j1''" "demo_onetime ''j1'' (100 * Second)"]
    by (simp add: mfaTokenTTL_def Unix_def demo_mfa_db_def demo_onetime_def redeemable_def)
  then have two: "mfa_used (demo_sealing_env (300 * Second)) (demo_verify ''j2'' (280 * Second)) ?db = Some (''a1'', word_of_nat 9)"
    using demo_code_used [of "280 * Second" "300 * Second" 9 3 ?db "''j2''" "demo_onetime ''j2'' (280 * Second)"]
    by (simp add: mfaTokenTTL_def Unix_def demo_onetime_def redeemable_def)
  have "cred_ok (SD_creds demo_mfa_db)" by (simp add: cred_ok_def demo_mfa_db_def)
  from totp_code_once [OF this rtranclp.rtrancl_refl conjunct1 [OF one] two] one two show ?thesis by auto
qed

end
