(* ===== verification/Factor_Safety.thy ===== *)
theory Factor_Safety
  imports Credential_Machine
begin

text \<open>
  What enrolling and using a second factor promises: who may bind an authenticator and exactly what binding one does to
  the credential table, what a device sign-in proves, and that the secret shown to a person is its base 32 encoding.
\<close>

section \<open>Binding an authenticator\<close>

text \<open>The person and tenant an enrolment acts for: the caller, signed in themselves and recently; or the person a grant
  was sealed for, while they have no authenticator.\<close>

definition entitled :: "SignEnv \<Rightarrow> Principal option \<Rightarrow> string \<Rightarrow> SignDB \<Rightarrow> string \<Rightarrow> string \<Rightarrow> bool" where
  "entitled ev ctx grantToken db who tenantID \<longleftrightarrow>
     (if grantToken = [] then
        \<exists>p. ctx = Some p \<and> who = Pr_IdentityID p \<and> tenantID = Pr_TenantID p \<and> \<not> Pr_Service p \<and> FirstParty p \<and>
          time_sub (Is_clock (Sg_issuer ev)) (Pr_AuthTime p) \<le> 600 * Second
      else \<exists>jti raw g. open_local ev ''enrol_grant'' grantToken = Some (jti, raw) \<and> Sg_grant_Unmarshal ev raw = Some g \<and>
        who = EG_IdentityID g \<and> tenantID = EG_TenantID g \<and>
        (\<forall>c\<in>set (SD_creds db). \<not> (CR_identity_id c = who \<and> CR_kind c = ''totp'' \<and> unexpired_cred (Db_now (Is_db (Sg_issuer ev))) c)))"

lemma enrol_caller_entitled:
  "enrol_caller ev ctx g db = Inr p \<Longrightarrow> entitled ev ctx g db (Pr_IdentityID p) (Pr_TenantID p)"
  by (auto simp: enrol_caller_def entitled_def mayBindAuthenticator_def bindingWindow_def grant_principal_def ActiveCredentialKinds_def
      run_stmt_Inr list_ex_iff image_iff split: if_splits option.splits sum.splits) metis

definition superseded :: "string \<Rightarrow> time \<Rightarrow> CredentialRow \<Rightarrow> CredentialRow" where
  "superseded who now r =
     (if CR_identity_id r = who \<and> CR_kind r \<in> {''totp'', ''recovery_code''} \<and> live_cred r then revoke_cred now r else r)"

definition recovery_row :: "SignEnv \<Rightarrow> string \<Rightarrow> string \<Rightarrow> CredentialRow \<Rightarrow> bool" where
  "recovery_row ev who plain r \<longleftrightarrow> CR_identity_id r = who \<and> CR_kind r = ''recovery_code'' \<and> live_cred r \<and>
     CR_secret r = nullif (secret_Hex (Is_hash (Sg_issuer ev) plain))"

lemma onetime_stmts:
  "RevokeCredentialsOfKind ev who kind db = Inr db' \<Longrightarrow> SD_onetime db' = SD_onetime db"
  "UpdateCredentialSecret ev cid sec kid db = Inr db' \<Longrightarrow> SD_onetime db' = SD_onetime db"
  "CreateCredential ev k i db = Inr (x, db') \<Longrightarrow> SD_onetime db' = SD_onetime db"
  by (auto simp: RevokeCredentialsOfKind_def UpdateCredentialSecret_def CreateCredential_def update_creds_def run_stmt_Inr split: if_splits)

lemma recovery_onetime: "recovery_loop ev p k n codes db = Inr (out, db') \<Longrightarrow> SD_onetime db' = SD_onetime db"
  by (induction ev p k n codes db rule: recovery_loop.induct) (auto dest: onetime_stmts(3) split: option.splits sum.splits)

lemma recovery_loop_effect:
  "recovery_loop ev p k n codes db = Inr (out, db') \<Longrightarrow>
     \<exists>new recs. out = codes @ new \<and> length new = n \<and> SD_creds db' = SD_creds db @ recs \<and> list_all2 (recovery_row ev (Pr_IdentityID p)) new recs"
proof (induction ev p k n codes db rule: recovery_loop.induct)
  case (2 ev p k n codes db)
  then obtain plain cid db1 where c: "CreateCredential (Is_db (Sg_issuer ev)) (Suc k) \<lparr>CI_IdentityID = Pr_IdentityID p, CI_TenantID = Pr_TenantID p,
        CI_Kind = ''recovery_code'', CI_Secret = secret_Hex (Is_hash (Sg_issuer ev) plain), CI_LookupKey = [],
        CI_Label = ''recovery'', CI_Params = [], CI_ExpiresAt = None\<rparr> db = Inr (cid, db1)" (is "CreateCredential _ _ ?i _ = _")
    and l: "secret_New (Sg_issuer ev) (20 + k) 10 = Some plain" "recovery_loop ev p (Suc k) n (codes @ [plain]) db1 = Inr (out, db')"
    by (auto split: option.splits sum.splits prod.splits)
  from c have d: "SD_creds db1 = SD_creds db @ [new_credential (Is_db (Sg_issuer ev)) (Suc k) ?i]"
    by (auto simp: CreateCredential_def run_stmt_Inr split: if_splits)
  from "2.IH" [OF l(1) c refl] l(2) obtain new recs where "out = (codes @ [plain]) @ new" "length new = n" "SD_creds db' = SD_creds db1 @ recs"
    "list_all2 (recovery_row ev (Pr_IdentityID p)) new recs" by blast
  moreover have "recovery_row ev (Pr_IdentityID p) plain (new_credential (Is_db (Sg_issuer ev)) (Suc k) ?i)"
    by (simp add: recovery_row_def new_credential_def live_cred_def)
  ultimately have "out = codes @ (plain # new)" "length (plain # new) = Suc n"
    "SD_creds db' = SD_creds db @ (new_credential (Is_db (Sg_issuer ev)) (Suc k) ?i # recs)"
    "list_all2 (recovery_row ev (Pr_IdentityID p)) (plain # new) (new_credential (Is_db (Sg_issuer ev)) (Suc k) ?i # recs)" using d by simp_all
  then show ?case by blast
qed simp

text \<open>The row of the new authenticator: its secret sealed, the step that proved it already used up.\<close>

definition authenticator_row :: "SignEnv \<Rightarrow> string \<Rightarrow> string \<Rightarrow> 64 word \<Rightarrow> string \<Rightarrow> CredentialRow \<Rightarrow> bool" where
  "authenticator_row ev who secret step cid r \<longleftrightarrow> CR_id r = cid \<and> CR_identity_id r = who \<and> CR_kind r = ''totp'' \<and> live_cred r \<and>
     CR_expires_at r = None \<and> last_step r = uint step \<and>
     (\<exists>key sealed. ActiveLocal (Is_ring (Sg_issuer ev)) = Inr key \<and> CR_secret r = nullif (std_EncodeToString sealed) \<and> CR_secret_kid r = nullif (Key_Kid key) \<and>
        SealSecret (Sg_aead ev) (Is_rand (Sg_issuer ev) 11 12) (Key_Secret key) (''totp:'' @ cid) secret = Some sealed)"

lemma confirm_tx_effect:
  assumes "confirm_tx ev p state step key db = Inr ((cid, codes), db')" "fresh_from 0 (Is_db (Sg_issuer ev)) (SD_creds db)"
    and "ActiveLocal (Is_ring (Sg_issuer ev)) = Inr key"
  shows "\<exists>r recs. authenticator_row ev (Pr_IdentityID p) (ES_Secret state) step cid r \<and> length codes = 10 \<and>
    list_all2 (recovery_row ev (Pr_IdentityID p)) codes recs \<and>
    SD_creds db' = map (superseded (Pr_IdentityID p) (Db_now (Is_db (Sg_issuer ev)))) (SD_creds db) @ r # recs" "SD_onetime db' = SD_onetime db"
proof -
  let ?dev = "Is_db (Sg_issuer ev)" and ?who = "Pr_IdentityID p"
  let ?i = "\<lparr>CI_IdentityID = ?who, CI_TenantID = Pr_TenantID p, CI_Kind = ''totp'', CI_Secret = [],
          CI_LookupKey = [], CI_Label = ''authenticator'', CI_Params = [(''last_step'', JNumber (uint step))], CI_ExpiresAt = None\<rparr>"
  from assms(1) obtain db1 db2 sealed db3 db4 where
    r1: "RevokeCredentialsOfKind ?dev ?who ''totp'' db = Inr db1" and
    c2: "CreateCredential ?dev 0 ?i db1 = Inr (cid, db2)" and
    s: "SealSecret (Sg_aead ev) (Is_rand (Sg_issuer ev) 11 12) (Key_Secret key) (''totp:'' @ cid) (ES_Secret state) = Some sealed" and
    u3: "UpdateCredentialSecret ?dev cid (std_EncodeToString sealed) (Key_Kid key) db2 = Inr db3" and
    r4: "RevokeCredentialsOfKind ?dev ?who ''recovery_code'' db3 = Inr db4" and
    l5: "recovery_loop ev p 0 recoveryCodeCount [] db4 = Inr (codes, db')"
    by (auto simp: confirm_tx_def Let_def and_then_Inr split: option.splits)
  show "SD_onetime db' = SD_onetime db"
    using onetime_stmts(1) [OF r1] onetime_stmts(3) [OF c2] onetime_stmts(2) [OF u3] onetime_stmts(1) [OF r4] recovery_onetime [OF l5] by simp
  define C where "C = SD_creds db"
  define rv where "rv kind r = (if CR_identity_id r = ?who \<and> CR_kind r = kind \<and> live_cred r then revoke_cred (Db_now ?dev) r else r)" for kind and r :: CredentialRow
  define up where "up r = (if CR_id r = cid then r\<lparr>CR_secret := nullif (std_EncodeToString sealed), CR_secret_kid := nullif (Key_Kid key)\<rparr> else r)" for r :: CredentialRow
  let ?r = "up (new_credential ?dev 0 ?i)"
  have d1: "SD_creds db1 = map (rv ''totp'') C" using r1 by (auto simp: RevokeCredentialsOfKind_def run_stmt_Inr update_creds_def C_def rv_def)
  have d2: "SD_creds db2 = map (rv ''totp'') C @ [new_credential ?dev 0 ?i]" and cid: "cid = Db_newid ?dev (CreateCredentialS 0)"
    using c2 by (auto simp: CreateCredential_def run_stmt_Inr d1 split: if_splits)
  have d3: "SD_creds db3 = map up (SD_creds db2)" using u3 by (auto simp: UpdateCredentialSecret_def run_stmt_Inr update_creds_def up_def)
  have d4: "SD_creds db4 = map (rv ''recovery_code'') (SD_creds db3)"
    using r4 by (auto simp: RevokeCredentialsOfKind_def run_stmt_Inr update_creds_def rv_def)
  have old: "CR_id r \<noteq> cid" if "r \<in> set C" for r using assms(2) that unfolding fresh_from_def cid C_def by (metis imageI le0)
  have "rv ''recovery_code'' (rv ''totp'' r) = superseded ?who (Db_now ?dev) r" for r
    by (cases "CR_kind r = ''totp''"; cases "CR_kind r = ''recovery_code''") (simp_all add: rv_def superseded_def revoke_cred_def)
  moreover have "CR_id (rv ''totp'' r) = CR_id r" for r by (simp add: rv_def revoke_cred_def)
  ultimately have row: "rv ''recovery_code'' (up (rv ''totp'' r)) = superseded ?who (Db_now ?dev) r" if "r \<in> set C" for r
    using old [OF that] by (simp add: up_def)
  have "rv ''recovery_code'' ?r = ?r" by (simp add: new_credential_def rv_def up_def)
  then have "SD_creds db4 = map (superseded ?who (Db_now ?dev)) C @ [?r]" unfolding d4 d3 d2 using row by simp
  moreover from recovery_loop_effect [OF l5] obtain recs where "length codes = recoveryCodeCount" "SD_creds db' = SD_creds db4 @ recs"
    "list_all2 (recovery_row ev ?who) codes recs" by auto
  moreover have "authenticator_row ev ?who (ES_Secret state) step cid ?r"
    using s assms(3) by (auto simp: authenticator_row_def new_credential_def cid live_cred_def last_step_def up_def)
  ultimately show "\<exists>r recs. authenticator_row ev ?who (ES_Secret state) step cid r \<and> length codes = 10 \<and> list_all2 (recovery_row ev ?who) codes recs \<and>
      SD_creds db' = map (superseded ?who (Db_now ?dev)) (SD_creds db) @ r # recs"
    unfolding C_def by (auto simp: recoveryCodeCount_def)
qed

text \<open>C18. Who may bind an authenticator, and what it does. Enrolment succeeds only for the person themselves -- signed in
  directly, within the last ten minutes -- or, on an enrolment grant, for somebody who has no authenticator yet; only with a code that
  proves the secret sealed for that very person and tenant; and only once per enrolment. It then retires
  that person's old authenticators and recovery codes, adds one authenticator whose proving code is already
  spent, and ten recovery codes of which hashes are kept; no other credential changes.\<close>

theorem authenticator_bound_by_owner:
  assumes "ConfirmTOTP ev ctx token code grant db = (db', Inr (cid, codes))" "fresh_from 0 (Is_db (Sg_issuer ev)) (SD_creds db)"
  shows "\<exists>who tenantID jti raw state step row r recs. entitled ev ctx grant db who tenantID \<and>
    open_local ev ''totp_enroll'' token = Some (jti, raw) \<and> Sg_enrol_Unmarshal ev raw = Some state \<and> ES_IdentityID state = who \<and> ES_TenantID state = tenantID \<and>
    totp_Verify (Sg_mac ev) (ES_Secret state) code (Is_clock (Sg_issuer ev)) DefaultStep DefaultDigits 1 = Some (step, True) \<and>
    row \<in> set (SD_onetime db) - set (SD_onetime db') \<and> OT_token_hash row = Is_hash (Sg_issuer ev) jti \<and>
    authenticator_row ev who (ES_Secret state) step cid r \<and> length codes = 10 \<and> list_all2 (recovery_row ev who) codes recs \<and>
    SD_creds db' = map (superseded who (Db_now (Is_db (Sg_issuer ev)))) (SD_creds db) @ r # recs"
proof -
  let ?dev = "Is_db (Sg_issuer ev)"
  from assms(1) obtain p jti raw state x db1 step key db2 where p: "enrol_caller ev ctx grant db = Inr p"
    and o: "open_local ev ''totp_enroll'' token = Some (jti, raw)" "Sg_enrol_Unmarshal ev raw = Some state"
      "ES_IdentityID state = Pr_IdentityID p" "ES_TenantID state = Pr_TenantID p"
    and c: "ConsumeOneTime ?dev ''mfa'' (Is_hash (Sg_issuer ev) jti) db = Inr (x, db1)"
    and v: "totp_Verify (Sg_mac ev) (ES_Secret state) code (Is_clock (Sg_issuer ev)) DefaultStep DefaultDigits 1 = Some (step, True)"
    and k: "ActiveLocal (Is_ring (Sg_issuer ev)) = Inr key"
    and tx: "WithinTx ?dev (confirm_tx ev p state step key) ErrInternal db1 = (db2, Inr (cid, codes))"
    and e: "db' = sign_emit (enrol_event ev p ''credential.totp_enrolled'' [] []) db2"
    unfolding ConfirmTOTP_def by (auto split: sum.splits option.splits if_splits prod.splits bool.splits)
  from c obtain row where row: "row \<in> set (SD_onetime db)" "redeemable (Db_now ?dev) ''mfa'' (Is_hash (Sg_issuer ev) jti) row"
    and db1: "db1 = db\<lparr>SD_onetime := filter (\<lambda>y. \<not> redeemable (Db_now ?dev) ''mfa'' (Is_hash (Sg_issuer ev) jti) y) (SD_onetime db)\<rparr>"
    by (auto simp: ConsumeOneTime_def run_stmt_Inr split: option.splits dest: find_SomeD)
  have f: "confirm_tx ev p state step key db1 = Inr ((cid, codes), db2)"
    using tx by (auto simp: WithinTx_def split: if_splits sum.splits)
  have "fresh_from 0 ?dev (SD_creds db1)" using assms(2) db1 by simp
  note effect = confirm_tx_effect [OF f this k]
  from effect(1) obtain r recs where r: "authenticator_row ev (Pr_IdentityID p) (ES_Secret state) step cid r" "length codes = 10"
    "list_all2 (recovery_row ev (Pr_IdentityID p)) codes recs"
    "SD_creds db2 = map (superseded (Pr_IdentityID p) (Db_now ?dev)) (SD_creds db) @ r # recs" using db1 by auto
  have "row \<notin> set (SD_onetime db')" using row e db1 effect(2) by simp
  with enrol_caller_entitled [OF p] o v row r e show ?thesis
    by (intro exI [of _ "Pr_IdentityID p"] exI [of _ "Pr_TenantID p"] exI [of _ jti] exI [of _ raw] exI [of _ state] exI [of _ step]
        exI [of _ row] exI [of _ r] exI [of _ recs]) (simp add: redeemable_def)
qed

section \<open>Alice binds an authenticator\<close>

definition demo_ids :: "stmt \<Rightarrow> string" where
  "demo_ids s = (case s of CreateCredentialS j \<Rightarrow> replicate j CHR ''n'' | _ \<Rightarrow> ''x'')"

definition demo_enrol_env :: SignEnv where
  "demo_enrol_env = demo_sign_env (demo_issuer (120 * Second) CHR ''a'' ''x''\<lparr>Is_ring := demo_local_ring,
     Is_db := \<lparr>Db_now = 120 * Second, Db_newid = demo_ids, Db_fails = (\<lambda>s. False)\<rparr>\<rparr>)"

definition demo_enrolment :: EnrollmentState where
  "demo_enrolment = \<lparr>ES_IdentityID = ''alice'', ES_TenantID = ''t1'', ES_Secret = ''shared'', ES_Issuer = ''Anubis'', ES_Account = ''alice''\<rparr>"

definition demo_enrol_token :: string where
  "demo_enrol_token = the (local_Seal toy_aead (Some demo_nonce) ''s2'' ''k2'' ''totp_enroll'' ''j1'' (enc_enrol demo_enrolment) enrollTTL 0)"

definition demo_enrol_db :: SignDB where
  "demo_enrol_db = demo_sign_db\<lparr>SD_onetime := [demo_onetime ''j1'' (100 * Second)]\<rparr>"

lemma demo_enrol_fields [simp]:
  "Sg_issuer demo_enrol_env = demo_issuer (120 * Second) CHR ''a'' ''x''\<lparr>Is_ring := demo_local_ring,
     Is_db := \<lparr>Db_now = 120 * Second, Db_newid = demo_ids, Db_fails = (\<lambda>s. False)\<rparr>\<rparr>"
  "Sg_aead demo_enrol_env = toy_aead" "Sg_enrol_Unmarshal demo_enrol_env = dec_enrol" "Sg_mac demo_enrol_env = (\<lambda>secret msg. rfc4226_sum)"
  by (simp_all add: demo_enrol_env_def)

lemma demo_recovery:
  assumes "AB_identities (SD_auth db) = [demo_identity]"
  shows "\<exists>out db'. recovery_loop demo_enrol_env demo_alice k n codes db = Inr (out, db')"
  using assms
proof (induction n arbitrary: k codes db)
  case (Suc n)
  then show ?case
    by (simp add: secret_New_def CreateCredential_def run_stmt_def credential_kinds_def cred_conflict_def list_ex_iff is_identity_def demo_identity_def demo_alice_def)
qed simp

lemma demo_confirm_tx:
  "\<exists>out db'. confirm_tx demo_enrol_env demo_alice demo_enrolment step (demo_local_key\<lparr>Key_Kid := ''k2'', Key_Secret := ''s2'', Key_Status := StatusActive\<rparr>) (demo_enrol_db\<lparr>SD_onetime := []\<rparr>) = Inr (out, db')"
  (is "\<exists>out db'. confirm_tx _ _ _ _ ?key ?db = _")
proof -
  let ?dev = "Is_db (Sg_issuer demo_enrol_env)"
  obtain db1 where r1: "RevokeCredentialsOfKind ?dev ''alice'' ''totp'' ?db = Inr db1" and a1: "SD_auth db1 = demo_db0"
    by (simp add: RevokeCredentialsOfKind_def run_stmt_def update_creds_def demo_enrol_db_def demo_sign_db_def)
  obtain cid db2 where c2: "CreateCredential ?dev 0 \<lparr>CI_IdentityID = ''alice'', CI_TenantID = ''t1'', CI_Kind = ''totp'', CI_Secret = [],
          CI_LookupKey = [], CI_Label = ''authenticator'', CI_Params = [(''last_step'', JNumber (uint step))], CI_ExpiresAt = None\<rparr> db1 = Inr (cid, db2)"
    and a2: "SD_auth db2 = demo_db0"
    using a1 by (simp add: CreateCredential_def run_stmt_def credential_kinds_def cred_conflict_def list_ex_iff is_identity_def demo_db0_def demo_identity_def)
  obtain sealed where s: "SealSecret toy_aead (Is_rand (Sg_issuer demo_enrol_env) 11 12) ''s2'' (''totp:'' @ cid) ''shared'' = Some sealed"
    by (simp add: SealSecret_def sealAEAD_def toy_aead_def)
  obtain db3 where u3: "UpdateCredentialSecret ?dev cid (std_EncodeToString sealed) ''k2'' db2 = Inr db3" and a3: "SD_auth db3 = demo_db0"
    using a2 by (simp add: UpdateCredentialSecret_def run_stmt_def update_creds_def)
  obtain db4 where r4: "RevokeCredentialsOfKind ?dev ''alice'' ''recovery_code'' db3 = Inr db4" and a4: "SD_auth db4 = demo_db0"
    using a3 by (simp add: RevokeCredentialsOfKind_def run_stmt_def update_creds_def)
  obtain codes db5 where l5: "recovery_loop demo_enrol_env demo_alice 0 recoveryCodeCount [] db4 = Inr (codes, db5)"
    using demo_recovery [of db4 0 recoveryCodeCount "[]"] a4 by (auto simp: demo_db0_def)
  have p: "Pr_IdentityID demo_alice = ''alice''" "Pr_TenantID demo_alice = ''t1''" by (simp_all add: demo_alice_def)
  have "confirm_tx demo_enrol_env demo_alice demo_enrolment step ?key ?db = Inr ((cid, codes), db5)"
    unfolding confirm_tx_def Let_def p r1 using c2 s u3 r4 l5 by (simp add: demo_enrolment_def)
  then show ?thesis by blast
qed

lemma demo_confirms:
  "\<exists>db' cid codes. ConfirmTOTP demo_enrol_env (Some demo_alice) demo_enrol_token ''872921'' [] demo_enrol_db = (db', Inr (cid, codes))"
proof -
  have s: "local_Seal toy_aead (Some demo_nonce) ''s2'' ''k2'' ''totp_enroll'' ''j1'' (Some (the (enc_enrol demo_enrolment))) enrollTTL 0 = Some demo_enrol_token"
    by (simp add: demo_enrol_token_def local_Seal_def toy_aead_def toy_marshal_def deriveKey_def Unix_def Let_def enc_enrol_def enrollTTL_def)
  have o: "open_local demo_enrol_env ''totp_enroll'' demo_enrol_token = Some (''j1'', the (enc_enrol demo_enrolment))"
    using sealed_opens [OF toy_aead_correct toy_env_faithful _ _ s, of "120 * Second"]
    by (simp add: demo_nonce_def nonceSize_def open_local_def demo_sealing_key Unix_def enrollTTL_def)
  have d: "dec_enrol (the (enc_enrol demo_enrolment)) = Some demo_enrolment" by (simp add: dec_enrol_def enc_enrol_def dec_enc_list demo_enrolment_def)
  have p: "enrol_caller demo_enrol_env (Some demo_alice) [] demo_enrol_db = Inr demo_alice"
    by (simp add: enrol_caller_def demo_alice_def mayBindAuthenticator_def FirstParty_def FirstPartyAudience_def time_sub_def bindingWindow_def)
  have c: "ConsumeOneTime (Is_db (Sg_issuer demo_enrol_env)) ''mfa'' ''j1'' demo_enrol_db = Inr ((''t1'', ''{}''), demo_enrol_db\<lparr>SD_onetime := []\<rparr>)"
    by (simp add: ConsumeOneTime_def run_stmt_def demo_enrol_db_def demo_onetime_def redeemable_def mfaTokenTTL_def)
  have m: "mac20 (\<lambda>secret msg. rfc4226_sum)" by (simp add: mac20_def rfc4226_sum_def)
  have v: "totp_Verify (Sg_mac demo_enrol_env) ''shared'' ''872921'' (120 * Second) DefaultStep DefaultDigits 1 = Some (3, True)"
    using totp_exact [OF m, of "120 * Second" "''shared''" "''872921''"] by (simp add: Unix_def window_def step_of_def rfc4226_code)
  have ids: "ES_IdentityID demo_enrolment = Pr_IdentityID demo_alice" "ES_TenantID demo_enrolment = Pr_TenantID demo_alice" "ES_Secret demo_enrolment = ''shared''"
    by (simp_all add: demo_enrolment_def demo_alice_def)
  from demo_confirm_tx [of 3] show ?thesis
    using o d p c v ids by (auto simp: ConfirmTOTP_def demo_sealing_key WithinTx_def)
qed

theorem authenticator_bound_by_owner_witness:
  "\<exists>db' cid codes. ConfirmTOTP demo_enrol_env (Some demo_alice) demo_enrol_token ''872921'' [] demo_enrol_db = (db', Inr (cid, codes)) \<and>
     length codes = 10 \<and> length (SD_creds db') = 12"
proof -
  obtain db' cid codes where c: "ConfirmTOTP demo_enrol_env (Some demo_alice) demo_enrol_token ''872921'' [] demo_enrol_db = (db', Inr (cid, codes))"
    using demo_confirms by blast
  have "fresh_from 0 (Is_db (Sg_issuer demo_enrol_env)) (SD_creds demo_enrol_db)"
  proof -
    have "inj (\<lambda>j. replicate j CHR ''n'')" by (auto simp: inj_def)
    moreover have "replicate j CHR ''n'' \<noteq> ''c1''" for j by (cases j) auto
    ultimately show ?thesis by (simp add: fresh_from_def demo_ids_def demo_enrol_db_def demo_sign_db_def demo_password_def)
  qed
  from authenticator_bound_by_owner [OF c this] obtain recs :: "CredentialRow list" where "length codes = 10"
    "length (SD_creds db') = Suc (length (SD_creds demo_enrol_db) + length recs)" "length codes = length recs"
    by (auto dest: list_all2_lengthD)
  with c show ?thesis by (simp add: demo_enrol_db_def demo_sign_db_def)
qed

section \<open>Signing in with a device\<close>

lemma newest_None: "newest rs = None \<longleftrightarrow> rs = []"
  by (cases rs) (auto split: option.splits)

lemma newest_mem: "newest rs = Some r \<Longrightarrow> r \<in> set rs \<and> (\<forall>s\<in>set rs. CR_created_at s \<le> CR_created_at r)"
proof (induction rs arbitrary: r)
  case (Cons x rs)
  show ?case
  proof (cases "newest rs")
    case None
    with Cons.prems newest_None show ?thesis by simp
  next
    case (Some s)
    with Cons show ?thesis by (fastforce split: if_splits)
  qed
qed simp

lemma device_credentialE:
  assumes "device_credential ev cid db = Inr c"
  obtains r where "r \<in> set (SD_creds db)" "CR_id r = cid" "CR_kind r = ''device_key''" "unexpired_cred (Db_now (Is_db (Sg_issuer ev))) r"
    "Cr_ID c = cid" "Cr_IdentityID c = CR_identity_id r" "Cr_Secret c = nstr (CR_secret r)"
    "\<forall>s\<in>set (SD_creds db). CR_identity_id s = CR_identity_id r \<and> CR_kind s = ''device_key'' \<and> unexpired_cred (Db_now (Is_db (Sg_issuer ev))) s \<longrightarrow>
       CR_created_at s \<le> CR_created_at r"
proof -
  from assms obtain who where a: "ActiveCredentialOfKind (Is_db (Sg_issuer ev)) who ''device_key'' db = Inr c" "Cr_ID c = cid"
    by (auto simp: device_credential_def split: sum.splits if_splits)
  then obtain r where n: "newest (filter (\<lambda>r. CR_identity_id r = who \<and> CR_kind r = ''device_key'' \<and>
      unexpired_cred (Db_now (Is_db (Sg_issuer ev))) r) (SD_creds db)) = Some r"
    and c: "Cr_ID c = CR_id r" "Cr_IdentityID c = CR_identity_id r" "Cr_Secret c = nstr (CR_secret r)"
    by (auto simp: ActiveCredentialOfKind_def run_stmt_Inr split: option.splits)
  from newest_mem [OF n] c a(2) show thesis by (intro that [of r]) auto
qed

lemma DeviceVerifyE:
  assumes "DeviceVerify_Execute ev i db = (db', Inr pair)"
  obtains tenant t payload db1 named c pub sig where "Is_TenantBySlug (Sg_issuer ev) (DV_Tenant i) = Inr (Some tenant)"
    "ConsumeOneTime (Is_db (Sg_issuer ev)) ''device_challenge'' (Is_hash (Sg_issuer ev) (DV_Nonce i)) db = Inr ((t, payload), db1)"
    "Sg_device_Unmarshal ev payload = Some (DV_KeyID i, named)" "device_credential ev (DV_KeyID i) db1 = Inr c"
    "DecodeString False (Cr_Secret c) = Some pub" "length pub = PublicKeySize" "DecodeString False (DV_Signature i) = Some sig"
    "ed_verify (Is_ed (Sg_issuer ev)) pub (DV_Nonce i) sig" "device_finish ev tenant named c i db1 = (db', Inr pair)"
proof -
  from assms obtain tenant t payload db1 deviceID named c pub where *: "Is_TenantBySlug (Sg_issuer ev) (DV_Tenant i) = Inr (Some tenant)"
    "ConsumeOneTime (Is_db (Sg_issuer ev)) ''device_challenge'' (Is_hash (Sg_issuer ev) (DV_Nonce i)) db = Inr ((t, payload), db1)"
    "Sg_device_Unmarshal ev payload = Some (deviceID, named)" "deviceID = DV_KeyID i" "device_credential ev (DV_KeyID i) db1 = Inr c"
    "DecodeString False (Cr_Secret c) = Some pub" "length pub = PublicKeySize"
    unfolding DeviceVerify_Execute_def by (auto split: sum.splits option.splits if_splits)
  with assms show thesis
    by (cases "DecodeString False (DV_Signature i)") (auto simp: DeviceVerify_Execute_def split: if_splits intro: that)
qed

lemma device_finishE:
  assumes "device_finish ev tenant named c i db = (db', Inr pair)"
  obtains a rl db1 db2 where "a \<in> set (AB_identities (SD_auth db))" "is_identity (Tn_ID tenant) (Cr_IdentityID c) a" "account_active a"
    "Sg_RealmByCode ev (Tn_ID tenant) (if named = [] then nstr (ID_realm_code a) else named) = Inr (Some rl)"
    "''device_key'' \<in> set (Rm_AllowedFactors rl)" "SD_onetime db' = SD_onetime db"
    "establishSession ev tenant rl (ID_id a) (DV_ClientID i) (DV_DeviceFP i) [AMRDevice] db1 = (db2, Inr pair)"
proof -
  let ?db1 = "TouchCredentialUsed (Is_db (Sg_issuer ev)) (Cr_ID c) (Cr_SignCounter c + 1) db"
  from assms obtain ident rl db2 where 1: "IdentityByID (Is_db (Sg_issuer ev)) (Tn_ID tenant) (Cr_IdentityID c) db = Inr ident"
    "CanAuthenticate ident = Inr ()" "Sg_RealmByCode ev (Tn_ID tenant) (if named = [] then Id_RealmCode ident else named) = Inr (Some rl)"
    "AllowsFactor rl ''device_key''"
    and e: "establishSession ev tenant rl (Id_ID ident) (DV_ClientID i) (DV_DeviceFP i) [AMRDevice] ?db1 = (db2, Inr pair)"
    and d: "db' = sign_emit (device_event tenant (Id_ID ident) ''allow'' []) db2"
    unfolding device_finish_def Let_def by (auto split: sum.splits option.splits if_splits prod.splits)
  from 1(1) obtain a where a: "a \<in> set (AB_identities (SD_auth db))" "is_identity (Tn_ID tenant) (Cr_IdentityID c) a" "ident = identity_view a"
    by (auto simp: IdentityByID_def run_stmt_Inr split: option.splits dest: find_SomeD)
  moreover have view: "Id_RealmCode ident = nstr (ID_realm_code a)" "Id_ID ident = ID_id a" by (simp_all add: a(3) identity_view_def)
  moreover have "account_active a" using 1(2) a(3) by (auto simp: CanAuthenticate_iff identity_view_def account_active_def)
  moreover have "SD_onetime db' = SD_onetime db" using establish_creds [OF e] d by (simp add: TouchCredentialUsed_def update_creds_def)
  ultimately show thesis using 1(3) [unfolded view] 1(4) e view by (intro that [of a rl ?db1 db2]) simp_all
qed

text \<open>What a device sign-in proves. Tokens are issued only when the nonce was waiting for exactly that key, the key is a
  live device key of a live person of that tenant and signed exactly that nonce, and the population allows device keys;
  they are the tokens of a session of that person, and the nonce is gone, so that the same answer never works again.\<close>

theorem device_sign_in_only:
  assumes "DeviceVerify_Execute ev i db = (db', Inr pair)"
  shows "\<exists>tenant row named r pub sig a rl db1 db2. Is_TenantBySlug (Sg_issuer ev) (DV_Tenant i) = Inr (Some tenant) \<and>
    row \<in> set (SD_onetime db) \<and> redeemable (Db_now (Is_db (Sg_issuer ev))) ''device_challenge'' (Is_hash (Sg_issuer ev) (DV_Nonce i)) row \<and>
    Sg_device_Unmarshal ev (OT_payload row) = Some (DV_KeyID i, named) \<and>
    r \<in> set (SD_creds db) \<and> CR_id r = DV_KeyID i \<and> CR_kind r = ''device_key'' \<and> unexpired_cred (Db_now (Is_db (Sg_issuer ev))) r \<and>
    DecodeString False (nstr (CR_secret r)) = Some pub \<and> DecodeString False (DV_Signature i) = Some sig \<and>
    ed_verify (Is_ed (Sg_issuer ev)) pub (DV_Nonce i) sig \<and>
    a \<in> set (AB_identities (SD_auth db)) \<and> is_identity (Tn_ID tenant) (CR_identity_id r) a \<and> account_active a \<and>
    Sg_RealmByCode ev (Tn_ID tenant) (if named = [] then nstr (ID_realm_code a) else named) = Inr (Some rl) \<and> ''device_key'' \<in> set (Rm_AllowedFactors rl) \<and>
    establishSession ev tenant rl (ID_id a) (DV_ClientID i) (DV_DeviceFP i) [AMRDevice] db1 = (db2, Inr pair) \<and>
    (\<forall>x\<in>set (SD_onetime db'). \<forall>t\<ge>Db_now (Is_db (Sg_issuer ev)). \<not> redeemable t ''device_challenge'' (Is_hash (Sg_issuer ev) (DV_Nonce i)) x)"
proof -
  let ?now = "Db_now (Is_db (Sg_issuer ev))" and ?h = "Is_hash (Sg_issuer ev) (DV_Nonce i)"
  from assms obtain tenant t payload db1 named c pub sig where v: "Is_TenantBySlug (Sg_issuer ev) (DV_Tenant i) = Inr (Some tenant)"
    "ConsumeOneTime (Is_db (Sg_issuer ev)) ''device_challenge'' ?h db = Inr ((t, payload), db1)"
    "Sg_device_Unmarshal ev payload = Some (DV_KeyID i, named)" "device_credential ev (DV_KeyID i) db1 = Inr c"
    "DecodeString False (Cr_Secret c) = Some pub" "DecodeString False (DV_Signature i) = Some sig"
    "ed_verify (Is_ed (Sg_issuer ev)) pub (DV_Nonce i) sig" and f: "device_finish ev tenant named c i db1 = (db', Inr pair)"
    by (rule DeviceVerifyE)
  from v(2) obtain row where row: "row \<in> set (SD_onetime db)" "redeemable ?now ''device_challenge'' ?h row" "payload = OT_payload row"
    and db1: "db1 = db\<lparr>SD_onetime := filter (\<lambda>x. \<not> redeemable ?now ''device_challenge'' ?h x) (SD_onetime db)\<rparr>"
    by (auto simp: ConsumeOneTime_def run_stmt_Inr split: option.splits dest: find_SomeD)
  from v(4) obtain r where r: "r \<in> set (SD_creds db)" "CR_id r = DV_KeyID i" "CR_kind r = ''device_key''" "unexpired_cred ?now r"
    "Cr_IdentityID c = CR_identity_id r" "Cr_Secret c = nstr (CR_secret r)"
    by (rule device_credentialE) (use db1 in auto)
  from f obtain a rl db3 db4 where a: "a \<in> set (AB_identities (SD_auth db))" "is_identity (Tn_ID tenant) (CR_identity_id r) a" "account_active a"
    "Sg_RealmByCode ev (Tn_ID tenant) (if named = [] then nstr (ID_realm_code a) else named) = Inr (Some rl)"
    "''device_key'' \<in> set (Rm_AllowedFactors rl)" "SD_onetime db' = SD_onetime db1"
    "establishSession ev tenant rl (ID_id a) (DV_ClientID i) (DV_DeviceFP i) [AMRDevice] db3 = (db4, Inr pair)"
    by (rule device_finishE) (use db1 r(5) in auto)
  have gone: "\<forall>x\<in>set (SD_onetime db'). \<forall>t\<ge>?now. \<not> redeemable t ''device_challenge'' ?h x"
    unfolding a(6) db1 by (auto simp: redeemable_def)
  show ?thesis
    using v(1,3,5-7) row r a gone
    by (intro exI [of _ tenant] exI [of _ row] exI [of _ named] exI [of _ r] exI [of _ pub] exI [of _ sig] exI [of _ a] exI [of _ rl]
        exI [of _ db3] exI [of _ db4]) simp
qed

text \<open>Alice's phone answers a nonce.\<close>

definition demo_device :: CredentialRow where
  "demo_device = demo_password\<lparr>CR_id := ''d1'', CR_kind := ''device_key'', CR_secret := Some (EncodeToString (replicate 32 CHR ''p''))\<rparr>"

definition demo_device_db :: SignDB where
  "demo_device_db = \<lparr>SD_auth = demo_db0, SD_creds = [demo_device], SD_onetime = [\<lparr>OT_id = ''o1'', OT_tenant_id = ''t1'', OT_kind = ''device_challenge'',
     OT_token_hash = ''n1'', OT_payload = enc_list [''d1'', []], OT_expires_at = 60 * Second\<rparr>]\<rparr>"

definition demo_answer :: DeviceVerifyInput where
  "demo_answer = \<lparr>DV_Tenant = ''acme'', DV_Nonce = ''n1'', DV_KeyID = ''d1'', DV_Signature = EncodeToString (replicate 64 CHR ''s''), DV_ClientID = ''shop'', DV_DeviceFP = []\<rparr>"

lemma demo_device_signs_in: "\<exists>db' pair. DeviceVerify_Execute (demo_sign_env demo_ev0) demo_answer demo_device_db = (db', Inr pair)"
proof -
  let ?ev = "demo_sign_env demo_ev0" and ?db1 = "demo_device_db\<lparr>SD_onetime := []\<rparr>"
  obtain a pair where est: "Establish demo_ev0 demo_tenant demo_realm ''alice'' ''shop'' [] [''device_key''] demo_db0 = (a, Inr pair)"
    using demo_establish by blast
  define c where "c = \<lparr>Cr_ID = ''d1'', Cr_IdentityID = ''alice'', Cr_TenantID = ''t1'', Cr_Kind = ''device_key'',
      Cr_Secret = EncodeToString (replicate 32 CHR ''p''), Cr_SecretKid = [], Cr_Params = [], Cr_SignCounter = 0, Cr_ExpiresAt = None\<rparr>"
  have one: "ConsumeOneTime (Is_db (Sg_issuer ?ev)) ''device_challenge'' ''n1'' demo_device_db = Inr ((''t1'', enc_list [''d1'', []]), ?db1)"
    by (simp add: ConsumeOneTime_def run_stmt_def demo_device_db_def redeemable_def)
  have cred: "device_credential ?ev ''d1'' ?db1 = Inr c"
    by (simp add: device_credential_def CredentialOwner_def ActiveCredentialOfKind_def run_stmt_def demo_device_db_def demo_device_def demo_password_def
        unexpired_cred_def live_cred_def nstr_def c_def)
  have ident: "IdentityByID (Is_db (Sg_issuer ?ev)) ''t1'' ''alice'' ?db1 = Inr (identity_view demo_identity)"
    by (simp add: IdentityByID_def run_stmt_def demo_device_db_def demo_db0_def demo_identity_def is_identity_def)
  have can: "CanAuthenticate (identity_view demo_identity) = Inr ()" "AllowsFactor demo_realm ''device_key''" by code_simp+
  have "SD_auth (TouchCredentialUsed (demo_db_env 1 ''s1'') x n ?db1) = demo_db0" for x n
    by (simp add: TouchCredentialUsed_def update_creds_def demo_device_db_def)
  then have "\<exists>db'. device_finish ?ev demo_tenant [] c demo_answer ?db1 = (db', Inr pair)"
    using ident can est by (simp add: device_finish_def Let_def c_def establishSession_def demo_answer_def AMRDevice_def)
  moreover have "DeviceVerify_Execute ?ev demo_answer demo_device_db = device_finish ?ev demo_tenant [] c demo_answer ?db1"
    using one cred by (simp add: DeviceVerify_Execute_def demo_answer_def dec_pair_def dec_enc_list c_def PublicKeySize_def toy_ed_def)
  ultimately show ?thesis by auto
qed

theorem device_sign_in_only_witness:
  "\<exists>r a. CR_id r = ''d1'' \<and> r \<in> set (SD_creds demo_device_db) \<and> a \<in> set (AB_identities (SD_auth demo_device_db)) \<and> account_active a"
proof -
  obtain db' pair where "DeviceVerify_Execute (demo_sign_env demo_ev0) demo_answer demo_device_db = (db', Inr pair)" using demo_device_signs_in by blast
  from device_sign_in_only [OF this] show ?thesis by (auto simp: demo_answer_def)
qed

text \<open>A person's older device keys: while a newer one is live, every sign-in with an older one is refused.\<close>

lemma older_device_locked_out:
  assumes "r \<in> set (SD_creds db)" "s \<in> set (SD_creds db)" "CR_identity_id s = CR_identity_id r" "CR_created_at r < CR_created_at s"
    and "CR_kind s = ''device_key''" "unexpired_cred (Db_now (Is_db (Sg_issuer ev))) s" "distinct (map CR_id (SD_creds db))"
    and "DV_KeyID i = CR_id r"
  shows "snd (DeviceVerify_Execute ev i db) \<noteq> Inr pair"
proof
  assume a: "snd (DeviceVerify_Execute ev i db) = Inr pair"
  obtain db' where "DeviceVerify_Execute ev i db = (db', Inr pair)" using a by (metis prod.collapse)
  then obtain t payload db1 c where c: "ConsumeOneTime (Is_db (Sg_issuer ev)) ''device_challenge'' (Is_hash (Sg_issuer ev) (DV_Nonce i)) db = Inr ((t, payload), db1)"
    and d: "device_credential ev (DV_KeyID i) db1 = Inr c" by (rule DeviceVerifyE)
  from c have same: "SD_creds db1 = SD_creds db" by (rule creds_OneTime(2))
  from d obtain q where q: "q \<in> set (SD_creds db)" "CR_id q = CR_id r"
    "\<forall>s\<in>set (SD_creds db). CR_identity_id s = CR_identity_id q \<and> CR_kind s = ''device_key'' \<and> unexpired_cred (Db_now (Is_db (Sg_issuer ev))) s \<longrightarrow>
       CR_created_at s \<le> CR_created_at q"
    by (rule device_credentialE) (use same assms(8) in auto)
  then have "q = r" using assms(1,7) by (auto simp: distinct_map inj_on_def)
  with q(3) assms show False by fastforce
qed

section \<open>The secret a person types\<close>

text \<open>Base 32 as RFC 4648 defines it, without padding: the bits of the bytes, most significant first, in groups of five, the
  last one filled up with zeros.\<close>

definition bits8 :: "char \<Rightarrow> bool list" where
  "bits8 c = map (\<lambda>j. bit (byte_of c) (7 - j)) [0..<8]"

definition value5 :: "bool list \<Rightarrow> nat" where
  "value5 bs = foldl (\<lambda>n b. 2 * n + of_bool b) 0 bs"

function base32_groups :: "bool list \<Rightarrow> string" where
  "base32_groups bs = (if bs = [] then [] else
     base32_alpha ! value5 (take 5 (bs @ replicate 4 False)) # base32_groups (drop 5 bs))"
  by pat_completeness auto
termination by (relation "measure length") auto

declare base32_groups.simps [simp del]

definition base32_spec :: "string \<Rightarrow> string" where
  "base32_spec b = base32_groups (concat (map bits8 b))"

text \<open>The low \<open>length P\<close> bits of the accumulator are the pending bits, the newest lowest.\<close>

definition pending :: "64 word \<Rightarrow> bool list \<Rightarrow> bool" where
  "pending buf P \<longleftrightarrow> (\<forall>j<length P. bit buf j = P ! (length P - 1 - j))"

lemma value5_bits: "length bs = n \<Longrightarrow> value5 bs = (\<Sum>j<n. of_bool (bs ! (n - 1 - j)) * 2 ^ j)"
proof (induction bs arbitrary: n rule: rev_induct)
  case (snoc b bs)
  then have n: "n = Suc (length bs)" by simp
  have "(\<Sum>j<n. of_bool ((bs @ [b]) ! (n - 1 - j)) * 2 ^ j) = (of_bool b :: nat) + (\<Sum>j<length bs. of_bool ((bs @ [b]) ! (length bs - 1 - j)) * 2 ^ Suc j)"
    unfolding n by (subst sum.lessThan_Suc_shift) (simp add: nth_append)
  also have "\<dots> = of_bool b + 2 * (\<Sum>j<length bs. of_bool (bs ! (length bs - 1 - j)) * 2 ^ j)"
    unfolding sum_distrib_left by (intro arg_cong2 [where f = "(+)"] refl sum.cong) (auto simp: nth_append)
  also have "\<dots> = value5 (bs @ [b])" using snoc.IH [OF refl] by (simp add: value5_def)
  finally show ?case by simp
qed (simp add: value5_def)

lemma group_value:
  fixes w :: "64 word"
  assumes "length bs = 5" "\<And>j. j < 5 \<Longrightarrow> bit w j = bs ! (4 - j)"
  shows "unat (w AND 31) = value5 bs"
proof -
  have "w AND 31 = take_bit 5 w" by (simp add: take_bit_eq_mask mask_numeral)
  then have "unat (w AND 31) = take_bit 5 (unat w)" by (simp add: unsigned_take_bit_eq)
  also have "\<dots> = (\<Sum>j<5. of_bool (bit w j) * 2 ^ j)"
    by (simp add: take_bit_sum push_bit_eq_mult atLeast0LessThan bit_unsigned_iff cong: sum.cong)
  also have "\<dots> = (\<Sum>j<5. of_bool (bs ! (5 - 1 - j)) * 2 ^ j)" using assms(2) by (intro sum.cong) auto
  finally show ?thesis by (simp add: value5_bits [OF assms(1)])
qed

lemma groups_nth: "length bs = 5 \<Longrightarrow> base32_groups (bs @ X) = base32_alpha ! value5 bs # base32_groups X"
  by (subst base32_groups.simps) auto

lemma emit_pending:
  "pending buf P \<Longrightarrow> length P \<le> 64 \<Longrightarrow> \<exists>G R. P = G @ R \<and> length R < 5 \<and> pending buf R \<and>
     (\<exists>enc. base32_emit buf (length P) out = (out @ enc, length R) \<and> (\<forall>X. base32_groups (G @ X) = enc @ base32_groups X))"
proof (induction "length P" arbitrary: P out rule: less_induct)
  case less
  show ?case
  proof (cases "length P < 5")
    case True
    then show ?thesis using less.prems by (intro exI [of _ "[]"] exI [of _ P]) (simp add: base32_emit.simps)
  next
    case False
    let ?Q = "take 5 P" and ?P = "drop 5 P"
    have bit: "bit (drop_bit (length P - 5) buf) j = ?Q ! (4 - j)" if "j < 5" for j
    proof -
      have "length P - 5 + j < length P" "length P - 1 - (length P - 5 + j) = 4 - j" using that False by auto
      then show ?thesis using less.prems(1) that unfolding pending_def by (simp add: bit_drop_bit_eq)
    qed
    have v: "unat (drop_bit (length P - 5) buf AND 31) = value5 ?Q" using False bit by (intro group_value) auto
    have "pending buf ?P"
      unfolding pending_def
    proof (intro allI impI)
      fix j assume j: "j < length ?P"
      then have "5 + (length ?P - 1 - j) = length P - 1 - j" by simp
      with j less.prems(1) show "bit buf j = ?P ! (length ?P - 1 - j)" unfolding pending_def by simp
    qed
    moreover have "length ?P < length P" "length ?P \<le> 64" using False less.prems(2) by auto
    ultimately obtain G R enc where g: "?P = G @ R" "length R < 5" "pending buf R"
      "base32_emit buf (length ?P) (out @ [base32_alpha ! value5 ?Q]) = ((out @ [base32_alpha ! value5 ?Q]) @ enc, length R)"
      "\<forall>X. base32_groups (G @ X) = enc @ base32_groups X" using less.hyps [of ?P "out @ [base32_alpha ! value5 ?Q]"] by blast
    have "base32_emit buf (length P) out = (out @ (base32_alpha ! value5 ?Q # enc), length R)"
      using False g(4) by (subst base32_emit.simps) (simp add: v)
    moreover have "base32_groups ((?Q @ G) @ X) = (base32_alpha ! value5 ?Q # enc) @ base32_groups X" for X
      using False g(5) groups_nth [of ?Q "G @ X"] by simp
    moreover have "P = (?Q @ G) @ R" using g(1) by (metis append.assoc append_take_drop_id)
    ultimately show ?thesis using g(2,3) by blast
  qed
qed

lemma pending_byte:
  assumes "pending buf R" "length R < 5"
  shows "pending (push_bit 8 buf OR word_of_nat (byte_of c)) (R @ bits8 c)"
  unfolding pending_def
proof (intro allI impI)
  fix j assume j: "j < length (R @ bits8 c)"
  have "take_bit 8 (byte_of c) = byte_of c" by (simp add: take_bit_nat_eq_self)
  then have b: "bit (byte_of c) j \<Longrightarrow> j < 8" by (metis bit_take_bit_iff)
  have bit_word_of_nat: "bit (word_of_nat n :: 64 word) k = (k < 64 \<and> bit n k)" for n k by (simp add: bit_simps)
  show "bit (push_bit 8 buf OR word_of_nat (byte_of c)) j = (R @ bits8 c) ! (length (R @ bits8 c) - 1 - j)"
  proof (cases "j < 8")
    case True
    then have "[0..<8] ! (7 - j) = 7 - j" "\<not> 7 + length R - j < length R" by (simp_all add: nth_upt)
    with True show ?thesis by (simp add: bit_or_iff bit_push_bit_iff bit_word_of_nat bits8_def nth_append)
  next
    case False
    then have "j - 8 < length R" "length (R @ bits8 c) - 1 - j = length R - 1 - (j - 8)" "length R - 1 - (j - 8) < length R"
      using j by (auto simp: bits8_def)
    with False b assms j show ?thesis
      by (auto simp: bit_or_iff bit_push_bit_iff bit_word_of_nat nth_append pending_def bits8_def)
  qed
qed

lemma loop_groups:
  "pending buf R \<Longrightarrow> length R < 5 \<Longrightarrow> base32_loop buf (length R) out cs = out @ base32_groups (R @ concat (map bits8 cs))"
proof (induction cs arbitrary: buf R out)
  case Nil
  show ?case
  proof (cases "R = []")
    case True
    then show ?thesis by (simp add: base32_groups.simps)
  next
    case False
    let ?Q = "take 5 (R @ replicate 4 False)"
    have "bit (push_bit (5 - length R) buf) j = ?Q ! (4 - j)" if "j < 5" for j
    proof (cases "5 - length R \<le> j")
      case True
      then have "j - (5 - length R) < length R" "length R - 1 - (j - (5 - length R)) = 4 - j" "4 - j < length R" using that Nil.prems(2) by auto
      with True that Nil.prems show ?thesis by (simp add: bit_push_bit_iff pending_def nth_append)
    next
      case False
      have "0 < length R" using \<open>R \<noteq> []\<close> by simp
      with False that have "4 - j < length (R @ replicate 4 False)" "\<not> 4 - j < length R" "4 - j - length R < 4"
        unfolding length_append length_replicate by linarith+
      with that False show ?thesis by (simp add: bit_push_bit_iff nth_append del: length_append)
    qed
    moreover have "length ?Q = 5" using False by (cases R) auto
    ultimately have "unat (push_bit (5 - length R) buf AND 31) = value5 ?Q" by (intro group_value) auto
    moreover have "base32_groups R = [base32_alpha ! value5 ?Q]"
      using False Nil.prems(2) by (subst base32_groups.simps, subst base32_groups.simps) simp
    ultimately show ?thesis using False by simp
  qed
next
  case (Cons c cs)
  let ?buf = "push_bit 8 buf OR word_of_nat (byte_of c)"
  have len: "length (R @ bits8 c) = length R + 8" by (simp add: bits8_def)
  from emit_pending [OF pending_byte [OF Cons.prems], of c out] Cons.prems(2) len
  obtain G S enc where e: "R @ bits8 c = G @ S" "length S < 5" "pending ?buf S" "base32_emit ?buf (length R + 8) out = (out @ enc, length S)"
    "\<forall>X. base32_groups (G @ X) = enc @ base32_groups X" by fastforce
  have "base32_groups (R @ bits8 c @ X) = enc @ base32_groups (S @ X)" for X
    using e(1,5) by (metis append.assoc)
  with e Cons.IH [OF e(3,2)] show ?case by (simp add: Let_def)
qed

text \<open>The secret a person types into an authenticator is the base 32 encoding of the shared secret: the shifting
  accumulator of the encoder, whose high bits fall off its 64-bit word, never loses a pending bit, and the
  encoder ends for every input.\<close>

theorem base32_encodes: "base32Secret b = base32_spec b"
proof -
  have "pending 0 []" by (simp add: pending_def)
  from loop_groups [OF this, of "[]" b] show ?thesis by (simp add: base32Secret_def base32_spec_def)
qed

end
