(* ===== verification/Challenge_Safety.thy ===== *)
theory Challenge_Safety
  imports Factor_Safety
begin

text \<open>
  A second-factor challenge along runs of the service: which one-time rows each operation of sign-in and of the factors
  may write, and that a challenge opens once, as it was minted, whatever happens between minting and presenting it.
\<close>

section \<open>The one-time rows an operation writes\<close>

text \<open>The hashes of the values a call may draw from its random source.\<close>

definition sign_draws :: "SignEnv \<Rightarrow> string set" where
  "sign_draws ev = {Is_hash (Sg_issuer ev) x | x k n. secret_New (Sg_issuer ev) k n = Some x}"

text \<open>Every row that was not there before carries a hash of \<open>H\<close>.\<close>

definition onetime_adds :: "string set \<Rightarrow> SignDB \<Rightarrow> SignDB \<Rightarrow> bool" where
  "onetime_adds H db db' \<longleftrightarrow> (\<forall>x\<in>set (SD_onetime db'). x \<in> set (SD_onetime db) \<or> OT_token_hash x \<in> H)"

lemma onetime_same: "SD_onetime db' = SD_onetime db \<Longrightarrow> onetime_adds H db db'"
  by (simp add: onetime_adds_def)

lemma onetime_trans: "onetime_adds H db db1 \<Longrightarrow> onetime_adds H db1 db2 \<Longrightarrow> onetime_adds H db db2"
  unfolding onetime_adds_def by blast

lemma onetime_mono: "onetime_adds H db db' \<Longrightarrow> H \<subseteq> H' \<Longrightarrow> onetime_adds H' db db'"
  unfolding onetime_adds_def by blast

lemma onetime_Create: "CreateOneTime ev t k h p e db = Inr (x, db') \<Longrightarrow> onetime_adds {h} db db'"
  by (auto simp: CreateOneTime_def run_stmt_Inr onetime_adds_def split: if_splits)

lemma onetime_Consume: "ConsumeOneTime ev k h db = Inr (y, db') \<Longrightarrow> onetime_adds {} db db'"
  by (auto simp: ConsumeOneTime_def run_stmt_Inr onetime_adds_def split: option.splits)

lemma seal_state_draws: "seal_state ev k purpose raw ttl = Some (jti, token) \<Longrightarrow> Is_hash (Sg_issuer ev) jti \<in> sign_draws ev"
  by (auto simp: seal_state_def sign_draws_def split: sum.splits option.splits)

lemma seal_state_new: "seal_state ev k purpose raw ttl = Some (jti, token) \<Longrightarrow> secret_New (Sg_issuer ev) k 16 = Some jti"
  by (auto simp: seal_state_def split: sum.splits option.splits)

text \<open>The statements on credentials leave the other tables alone.\<close>

lemma creds_stmt_frame:
  "RevokeCredentialsOfKind dev who kind d = Inr d' \<Longrightarrow> SD_auth d' = SD_auth d \<and> SD_onetime d' = SD_onetime d"
  "UpdateCredentialSecret dev cid sec kid d = Inr d' \<Longrightarrow> SD_auth d' = SD_auth d \<and> SD_onetime d' = SD_onetime d"
  "CreateCredential dev k i d = Inr (x, d') \<Longrightarrow> SD_auth d' = SD_auth d \<and> SD_onetime d' = SD_onetime d"
  "RevokeCredential dev t cid d = Inr d' \<Longrightarrow> SD_auth d' = SD_auth d \<and> SD_onetime d' = SD_onetime d"
  "AdvanceCredentialStep dev cid step d = Inr (b, d') \<Longrightarrow> SD_auth d' = SD_auth d \<and> SD_onetime d' = SD_onetime d"
  by (auto simp: RevokeCredentialsOfKind_def UpdateCredentialSecret_def CreateCredential_def RevokeCredential_def AdvanceCredentialStep_def
      update_creds_def run_stmt_Inr Let_def split: if_splits)

lemma Touch_onetime: "SD_onetime (TouchCredentialUsed dev cid n d) = SD_onetime d"
  by (simp add: TouchCredentialUsed_def update_creds_def)

lemma recovery_loop_frame:
  "recovery_loop ev p k n codes d = Inr (out, d') \<Longrightarrow> SD_auth d' = SD_auth d \<and> SD_onetime d' = SD_onetime d"
  by (induction ev p k n codes d rule: recovery_loop.induct) (auto dest: creds_stmt_frame(3) split: option.splits sum.splits)

lemma confirm_tx_frame: "confirm_tx ev p state step master db = Inr (out, db') \<Longrightarrow> SD_auth db' = SD_auth db \<and> SD_onetime db' = SD_onetime db"
  by (auto simp: confirm_tx_def Let_def and_then_Inr dest!: creds_stmt_frame recovery_loop_frame split: option.splits)

lemma replace_password_frame: "replace_password_tx ev p who h e db = Inr (y, db') \<Longrightarrow> SD_onetime db' = SD_onetime db"
  by (auto simp: replace_password_tx_def and_then_Inr dest!: creds_stmt_frame)

lemma WithinTx_onetime:
  assumes "WithinTx dev fn e db = (db', x)" and "\<And>y db1. fn db = Inr (y, db1) \<Longrightarrow> SD_onetime db1 = SD_onetime db"
  shows "SD_onetime db' = SD_onetime db"
  by (cases rule: WithinTx_cases [of dev fn e db]) (use assms in auto)

lemma rehash_tables: "SD_auth (rehash se b tn c pw db) = SD_auth db" "SD_onetime (rehash se b tn c pw db) = SD_onetime db"
  by (auto simp: rehash_def replaceHash_def Let_def UpdateCredentialSecret_def CreateCredential_def RevokeCredential_def update_creds_def run_stmt_def
      split: option.split sum.split if_split)

section \<open>Operation by operation\<close>

lemma Authenticate_onetime:
  assumes "Authenticate ev i su db = (db1, d)"
  shows "SD_onetime db1 = SD_onetime db"
proof (cases rule: Authenticate_cases [of ev i su db])
  case (past tn rl a r ident c b)
  have "SD_onetime (fst (FactorPolicy ev tn rl ident su d')) = SD_onetime d'" for d'
    by (simp add: FactorPolicy_def Let_def split: sum.split prod.split)
  then have "(d1, x) = FactorPolicy ev tn rl ident su d' \<Longrightarrow> SD_onetime d1 = SD_onetime d'" for d' d1 x by (metis fst_conv)
  then have "(d1, x) = FactorPolicy ev tn rl ident su d' \<Longrightarrow> SD_onetime d1 = SD_onetime d'" for d' d1 x by metis
  with past(7) assms show ?thesis by (auto simp: rehash_tables split: sum.splits if_splits)
qed (use assms in auto)

lemma onetime_mint: "mintMFAChallenge ev tenant realm identity i methods db = Inr (c, db') \<Longrightarrow> onetime_adds (sign_draws ev) db db'"
  by (auto simp: mintMFAChallenge_def split: option.splits sum.splits dest!: onetime_Create seal_state_draws elim: onetime_mono)

lemma onetime_Login: "onetime_adds (sign_draws ev) db (fst (Login_Execute ev i db))"
proof -
  obtain db1 d where A: "Authenticate ev i SurfaceAPI db = (db1, d)" by fastforce
  have "onetime_adds (sign_draws ev) db1 (fst (Login_Execute ev i db))"
    by (cases "LD_Step d"; cases "LD_Tenant d"; cases "LD_Realm d"; cases "LD_Identity d")
       (auto simp: Login_Execute_def A onetime_adds_def dest!: onetime_mint establish_creds split: option.split sum.split prod.split)
  with Authenticate_onetime [OF A] show ?thesis by (simp add: onetime_adds_def)
qed

lemma openState_onetime: "openState ev token db = (db', x) \<Longrightarrow> onetime_adds {} db db'"
  by (auto simp: openState_def dest: onetime_Consume intro: onetime_same split: option.splits sum.splits prod.splits)

text \<open>After the challenge is opened, verifying its code touches no one-time row.\<close>

lemma Verify_onetime:
  assumes "openState ev (VM_MFAToken v) db = (db1, x)"
  shows "SD_onetime (fst (VerifyMfa_Execute ev v db)) = SD_onetime db1"
proof -
  have s: "shared_secret ev cred d = Inr (y, d') \<Longrightarrow> SD_onetime d' = SD_onetime d" for cred d y d'
    by (auto simp: shared_secret_def dest: creds_stmt_frame split: option.splits sum.splits if_splits prod.splits)
  have a: "accept_code ev cred y code d = Inr (ok, d') \<Longrightarrow> SD_onetime d' = SD_onetime d" for cred y code d ok d'
    by (auto simp: accept_code_def dest: creds_stmt_frame split: option.splits sum.splits bool.splits prod.splits)
  show ?thesis
    by (auto simp: VerifyMfa_Execute_def assms finish_onetime dest!: s a split: sum.split prod.split)
qed

lemma onetime_Begin: "BeginTOTP ev ctx g db = Inr (x, db') \<Longrightarrow> onetime_adds (sign_draws ev) db db'"
  by (auto simp: BeginTOTP_def split: option.splits sum.splits dest!: onetime_Create seal_state_draws elim: onetime_mono)

lemma onetime_Confirm: "onetime_adds {} db (fst (ConfirmTOTP ev ctx token code g db))"
proof -
  have tx: "SD_onetime d' = SD_onetime d" if "WithinTx dev (confirm_tx ev p state step master) e d = (d', y)" for dev p state step master e d d' y
    using that by (rule WithinTx_onetime) (use confirm_tx_frame in fastforce)
  show ?thesis
    by (auto simp: ConfirmTOTP_def onetime_adds_def dest!: tx onetime_Consume split: sum.split option.split prod.split bool.split)
qed

lemma onetime_EnrollDevice: "SD_onetime (fst (EnrollDeviceKey ev ctx pk label db)) = SD_onetime db"
  by (auto simp: EnrollDeviceKey_def dest: creds_stmt_frame split: sum.split option.split prod.split)

lemma onetime_DeviceChallenge: "DeviceChallenge_Execute ev t r d db = Inr (y, db') \<Longrightarrow> onetime_adds (sign_draws ev) db db'"
  by (auto simp: DeviceChallenge_Execute_def sign_draws_def split: option.splits sum.splits dest!: onetime_Create elim!: onetime_mono)

lemma onetime_DeviceVerify: "onetime_adds {} db (fst (DeviceVerify_Execute ev v db))"
proof -
  have f: "SD_onetime (fst (device_finish ev tenant named c i d)) = SD_onetime d" for tenant named c i d
    by (auto simp: device_finish_def Let_def Touch_onetime dest: establish_creds split: sum.split option.split prod.split)
  show ?thesis
    by (auto simp: DeviceVerify_Execute_def onetime_adds_def f dest!: onetime_Consume split: sum.split option.split prod.split)
qed

lemma onetime_password:
  "SD_onetime (fst (AdminSetPassword ev guard who pw db)) = SD_onetime db"
  "SD_onetime (fst (AdminImportPasswordHash ev guard who h t db)) = SD_onetime db"
  "SD_onetime (fst (AdminRevokeCredential ev guard cid db)) = SD_onetime db"
proof -
  have tx: "SD_onetime d' = SD_onetime d" if "WithinTx dev (replace_password_tx ev p w h e) x d = (d', y)" for dev p w h e x d d' y
    using that by (rule WithinTx_onetime) (rule replace_password_frame)
  show "SD_onetime (fst (AdminSetPassword ev guard who pw db)) = SD_onetime db"
    by (auto simp: AdminSetPassword_def dest: tx split: sum.split option.split prod.split)
  show "SD_onetime (fst (AdminImportPasswordHash ev guard who h t db)) = SD_onetime db"
    by (auto simp: AdminImportPasswordHash_def dest: tx split: sum.split option.split prod.split)
  show "SD_onetime (fst (AdminRevokeCredential ev guard cid db)) = SD_onetime db"
    by (auto simp: AdminRevokeCredential_def dest: creds_stmt_frame split: sum.split)
qed

section \<open>Runs that draw no value twice\<close>

text \<open>The challenge rows stored under a hash.\<close>

definition challenge_rows :: "string \<Rightarrow> SignDB \<Rightarrow> OneTimeRow set" where
  "challenge_rows h db = {x \<in> set (SD_onetime db). OT_kind x = ''mfa'' \<and> OT_token_hash x = h}"

text \<open>Any operation of sign-in, of the factors and of credential administration, by anybody and with any arguments, the
  challenge itself included, as long as a call that stores a one-time row draws no value hashing to \<open>h\<close>; the rest of
  the service does anything but write a challenge row under \<open>h\<close>.\<close>

inductive apart_trans :: "string \<Rightarrow> SignDB \<Rightarrow> SignDB \<Rightarrow> bool" for h where
  login: "h \<notin> sign_draws ev \<Longrightarrow> apart_trans h db (fst (Login_Execute ev i db))"
| verify_mfa: "apart_trans h db (fst (VerifyMfa_Execute ev v db))"
| begin_totp: "h \<notin> sign_draws ev \<Longrightarrow> BeginTOTP ev ctx g db = Inr (x, db') \<Longrightarrow> apart_trans h db db'"
| confirm_totp: "apart_trans h db (fst (ConfirmTOTP ev ctx token code g db))"
| enrol_device: "apart_trans h db (fst (EnrollDeviceKey ev ctx pk label db))"
| device_challenge: "h \<notin> sign_draws ev \<Longrightarrow> DeviceChallenge_Execute ev t r d db = Inr (y, db') \<Longrightarrow> apart_trans h db db'"
| device_verify: "apart_trans h db (fst (DeviceVerify_Execute ev w db))"
| set_password: "apart_trans h db (fst (AdminSetPassword ev guard who pw db))"
| import_hash: "apart_trans h db (fst (AdminImportPasswordHash ev guard who hash e db))"
| revoke: "apart_trans h db (fst (AdminRevokeCredential ev guard cid db))"
| elsewhere: "challenge_rows h db' \<subseteq> challenge_rows h db \<Longrightarrow> apart_trans h db db'"

lemma adds_challenge_rows: "onetime_adds H db db' \<Longrightarrow> h \<notin> H \<Longrightarrow> challenge_rows h db' \<subseteq> challenge_rows h db"
  unfolding onetime_adds_def challenge_rows_def by blast

lemmas rows_ops = adds_challenge_rows [OF onetime_Login] adds_challenge_rows [OF onetime_Confirm] adds_challenge_rows [OF onetime_DeviceVerify]
  adds_challenge_rows [OF onetime_same [OF onetime_EnrollDevice]] adds_challenge_rows [OF onetime_same [OF onetime_password(1)]]
  adds_challenge_rows [OF onetime_same [OF onetime_password(2)]] adds_challenge_rows [OF onetime_same [OF onetime_password(3)]]

lemma apart_rows: "apart_trans h db db' \<Longrightarrow> challenge_rows h db' \<subseteq> challenge_rows h db"
proof (induction rule: apart_trans.induct)
  case (verify_mfa db ev v)
  obtain db1 x where o: "openState ev (VM_MFAToken v) db = (db1, x)" by fastforce
  from adds_challenge_rows [OF openState_onetime [OF o], of h] Verify_onetime [OF o] show ?case by (simp add: challenge_rows_def)
next
  case (begin_totp ev ctx g db x db')
  then show ?case by (intro adds_challenge_rows [OF onetime_Begin])
next
  case (device_challenge ev t r d db y db')
  then show ?case by (intro adds_challenge_rows [OF onetime_DeviceChallenge])
qed (insert rows_ops(1), simp_all add: rows_ops(2-3) rows_ops(4-7) [where H = "{}"])

lemma run_rows: "(apart_trans h)\<^sup>*\<^sup>* db db' \<Longrightarrow> challenge_rows h db' \<subseteq> challenge_rows h db"
  by (induction rule: rtranclp_induct) (auto dest: apart_rows)

section \<open>A challenge\<close>

text \<open>What a challenge is minted for.\<close>

definition minted_state :: "SignEnv \<Rightarrow> TenantRef \<Rightarrow> Realm \<Rightarrow> DomainIdentity \<Rightarrow> LoginInput \<Rightarrow> string list \<Rightarrow> MFAState" where
  "minted_state ev tenant realm identity i methods =
     \<lparr>MS_TenantID = Tn_ID tenant, MS_TenantSlug = Tn_Slug tenant, MS_IdentityID = Id_ID identity, MS_RealmID = Rm_ID realm,
      MS_ClientID = LI_ClientID i, MS_DeviceFP = LI_DeviceFP i, MS_Methods = methods,
      MS_IP = Is_ip (Sg_issuer ev), MS_UserAgent = Is_userAgent (Sg_issuer ev)\<rparr>"

text \<open>The sealed challenge opens, for its lifetime, to its identifier and its state; one row is stored for it.\<close>

lemma minted_challenge:
  assumes "gcm_correct (Sg_aead ev)" "env_faithful (Sg_aead ev)" "mfa_codec ev"
    and "ActiveLocal (Is_ring (Sg_issuer ev)) = Inr key" "Key_Kid key \<noteq> []"
    and "\<forall>n. Is_rand (Sg_issuer ev) 5 nonceSize = Some n \<longrightarrow> length n = nonceSize"
    and "mintMFAChallenge ev tenant realm identity i methods db = Inr (c, db1)" "secret_New (Sg_issuer ev) 4 16 = Some jti"
  obtains raw row where "\<And>e. same_installation ev e key \<Longrightarrow> open_local e ''mfa'' (MC_MFAToken c) =
        (if Unix (Is_clock (Sg_issuer e)) \<le> Unix (Is_clock (Sg_issuer ev) + mfaTokenTTL) then Some (jti, raw) else None)"
    "Sg_mfa_Unmarshal ev raw = Some (minted_state ev tenant realm identity i methods)"
    "challenge_rows (Is_hash (Sg_issuer ev) jti) db1 = {row}" "OT_expires_at row = Is_clock (Sg_issuer ev) + mfaTokenTTL"
proof -
  let ?st = "minted_state ev tenant realm identity i methods" and ?until = "Is_clock (Sg_issuer ev) + mfaTokenTTL"
  from assms(7) obtain j x where seal: "seal_state ev 4 ''mfa'' (Sg_mfa_Marshal ev ?st) mfaTokenTTL = Some (j, MC_MFAToken c)"
    and create: "CreateOneTime (Is_db (Sg_issuer ev)) (Tn_ID tenant) ''mfa'' (Is_hash (Sg_issuer ev) j) ''{}'' ?until db = Inr (x, db1)"
    by (auto simp: mintMFAChallenge_def minted_state_def split: option.splits sum.splits)
  from seal_state_new [OF seal] assms(8) have j: "j = jti" by simp
  from seal obtain raw where raw: "Sg_mfa_Marshal ev ?st = Some raw"
    by (cases "Sg_mfa_Marshal ev ?st") (auto simp: seal_state_def local_Seal_def split: option.splits sum.splits)
  show thesis
  proof (rule that)
    show "open_local e ''mfa'' (MC_MFAToken c) = (if Unix (Is_clock (Sg_issuer e)) \<le> Unix ?until then Some (jti, raw) else None)"
      if "same_installation ev e key" for e
      using that assms(6) seal raw j by (intro open_seal_state [OF assms(1,2,4,5), where k = 4]) (auto simp: same_installation_def eval_nat_numeral)
    show "Sg_mfa_Unmarshal ev raw = Some ?st" using assms(3) raw by (simp add: mfa_codec_def)
    from create j obtain row where "SD_onetime db1 = SD_onetime db @ [row]" "OT_token_hash row = Is_hash (Sg_issuer ev) jti" "OT_kind row = ''mfa''"
      "OT_expires_at row = ?until" "Is_hash (Sg_issuer ev) jti \<notin> OT_token_hash ` set (SD_onetime db)"
      by (auto simp: CreateOneTime_def run_stmt_Inr split: if_splits)
    then show "challenge_rows (Is_hash (Sg_issuer ev) jti) db1 = {last (SD_onetime db1)}" "OT_expires_at (last (SD_onetime db1)) = ?until"
      by (auto simp: challenge_rows_def image_iff)
  qed
qed

text \<open>Opening a challenge consumes its rows; without one it is refused and nothing changes.\<close>

lemma openState_rows:
  assumes "openState ev token db = (d, Inr s)"
  obtains jti raw where "open_local ev ''mfa'' token = Some (jti, raw)" "Sg_mfa_Unmarshal ev raw = Some s"
    "\<exists>x\<in>challenge_rows (Is_hash (Sg_issuer ev) jti) db. OT_expires_at x > Db_now (Is_db (Sg_issuer ev))"
    "challenge_rows (Is_hash (Sg_issuer ev) jti) d = {x \<in> challenge_rows (Is_hash (Sg_issuer ev) jti) db. OT_expires_at x \<le> Db_now (Is_db (Sg_issuer ev))}"
proof -
  from assms obtain jti raw y where o: "open_local ev ''mfa'' token = Some (jti, raw)" "Sg_mfa_Unmarshal ev raw = Some s"
    and c: "ConsumeOneTime (Is_db (Sg_issuer ev)) ''mfa'' (Is_hash (Sg_issuer ev) jti) db = Inr (y, d)"
    by (auto simp: openState_def split: option.splits sum.splits)
  let ?p = "redeemable (Db_now (Is_db (Sg_issuer ev))) ''mfa'' (Is_hash (Sg_issuer ev) jti)"
  from c obtain x where x: "find ?p (SD_onetime db) = Some x" and d: "SD_onetime d = filter (\<lambda>x. \<not> ?p x) (SD_onetime db)"
    by (auto simp: ConsumeOneTime_def run_stmt_Inr split: option.splits)
  from x have "x \<in> set (SD_onetime db)" "?p x" by (auto simp: find_Some_iff)
  then have "x \<in> challenge_rows (Is_hash (Sg_issuer ev) jti) db" "OT_expires_at x > Db_now (Is_db (Sg_issuer ev))"
    by (simp_all add: challenge_rows_def redeemable_def)
  moreover have "challenge_rows (Is_hash (Sg_issuer ev) jti) d =
      {x \<in> challenge_rows (Is_hash (Sg_issuer ev) jti) db. OT_expires_at x \<le> Db_now (Is_db (Sg_issuer ev))}"
    unfolding challenge_rows_def d by (auto simp: redeemable_def)
  ultimately show thesis using that [OF o] by blast
qed

lemma openState_no_row:
  assumes "open_local ev ''mfa'' token = Some (jti, raw)" "challenge_rows (Is_hash (Sg_issuer ev) jti) db = {}"
  shows "openState ev token db = (db, Inl ErrMfaInvalid)"
proof -
  have "find (redeemable (Db_now (Is_db (Sg_issuer ev))) ''mfa'' (Is_hash (Sg_issuer ev) jti)) (SD_onetime db) = None"
    using assms(2) by (auto simp: find_None_iff redeemable_def challenge_rows_def)
  with assms(1) show ?thesis by (simp add: openState_def ConsumeOneTime_def run_stmt_def)
qed

text \<open>C17. A second-factor challenge is good once, over every run. Take the challenge sign-in mints, any run of sign-ins, second
  factors, enrolments, device keys and credential administration after it -- by anybody, this challenge included --
  and an attempt to open it. It opens only inside its minute, and only to the tenant, person, population, client, device and
  methods it was minted for; while its row is stored, the minute has not passed and the database answers, it does open.
  Once an attempt has opened it, whether its code was right or wrong, every later attempt,
  after any further run, is refused and changes nothing. Past its minute it is refused.
  Conditions: the cipher and the JSON codecs read back what they wrote and nonces have their length; the sealing key
  has a name and a secret and stays on the ring, and the hash stays the same; a later call that stores a one-time row
  draws no value with the challenge's hash, and the rest of the service writes no challenge row under it.\<close>

theorem mfa_challenge_once:
  assumes "gcm_correct (Sg_aead ev)" "env_faithful (Sg_aead ev)" "mfa_codec ev"
    and "ActiveLocal (Is_ring (Sg_issuer ev)) = Inr key" "Key_Kid key \<noteq> []"
    and "\<forall>n. Is_rand (Sg_issuer ev) 5 nonceSize = Some n \<longrightarrow> length n = nonceSize"
    and "mintMFAChallenge ev tenant realm identity i methods db = Inr (c, db1)"
    and "secret_New (Sg_issuer ev) 4 16 = Some jti" "h = Is_hash (Sg_issuer ev) jti"
    and "(apart_trans h)\<^sup>*\<^sup>* db1 db2" and "same_installation ev ev' key"
    and "until = Is_clock (Sg_issuer ev) + mfaTokenTTL"
  shows "(\<not> Db_fails (Is_db (Sg_issuer ev')) ConsumeOneTimeS \<and> challenge_rows h db2 \<noteq> {} \<and>
        Db_now (Is_db (Sg_issuer ev')) < until \<and> Unix (Is_clock (Sg_issuer ev')) \<le> Unix until \<longrightarrow>
      (\<exists>d. openState ev' (MC_MFAToken c) db2 = (d, Inr (minted_state ev tenant realm identity i methods)))) \<and>
    (\<forall>d s. openState ev' (MC_MFAToken c) db2 = (d, Inr s) \<longrightarrow>
      s = minted_state ev tenant realm identity i methods \<and>
      Db_now (Is_db (Sg_issuer ev')) < until \<and> Unix (Is_clock (Sg_issuer ev')) \<le> Unix until \<and>
      (\<forall>v w ev'' db4. VM_MFAToken v = MC_MFAToken c \<and> VM_MFAToken w = MC_MFAToken c \<and> same_installation ev ev'' key \<and>
          (apart_trans h)\<^sup>*\<^sup>* (fst (VerifyMfa_Execute ev' v db2)) db4 \<longrightarrow>
        VerifyMfa_Execute ev'' w db4 = (db4, Inl ErrMfaInvalid))) \<and>
    (\<forall>v. VM_MFAToken v = MC_MFAToken c \<and> Unix until < Unix (Is_clock (Sg_issuer ev')) \<longrightarrow>
      VerifyMfa_Execute ev' v db2 = (db2, Inl ErrMfaInvalid))"
proof -
  let ?st = "minted_state ev tenant realm identity i methods" and ?tok = "MC_MFAToken c"
  obtain raw row where opens: "\<And>e. same_installation ev e key \<Longrightarrow>
      open_local e ''mfa'' ?tok = (if Unix (Is_clock (Sg_issuer e)) \<le> Unix until then Some (jti, raw) else None)"
    and raw: "Sg_mfa_Unmarshal ev raw = Some ?st" and row: "challenge_rows h db1 = {row}" "OT_expires_at row = until"
    using minted_challenge [OF assms(1-8)] assms(9,12) by metis
  have hash: "same_installation ev e key \<Longrightarrow> Is_hash (Sg_issuer e) jti = h \<and> Sg_mfa_Unmarshal e raw = Some ?st" for e
    using raw assms(9) by (simp add: same_installation_def)
  have rows: "challenge_rows h db2 \<subseteq> {row}" using run_rows [OF assms(10)] row by simp
  have live: "\<exists>d. openState ev' ?tok db2 = (d, Inr ?st)"
    if "\<not> Db_fails (Is_db (Sg_issuer ev')) ConsumeOneTimeS" "challenge_rows h db2 \<noteq> {}"
      "Db_now (Is_db (Sg_issuer ev')) < until" "Unix (Is_clock (Sg_issuer ev')) \<le> Unix until"
  proof -
    have "row \<in> challenge_rows h db2" using that(2) rows by auto
    then have "find (redeemable (Db_now (Is_db (Sg_issuer ev'))) ''mfa'' h) (SD_onetime db2) \<noteq> None"
      using row(2) that(3) by (auto simp: find_None_iff challenge_rows_def redeemable_def)
    then show ?thesis using opens [OF assms(11)] hash [OF assms(11)] that(1,4) by (auto simp: openState_def ConsumeOneTime_def run_stmt_def)
  qed
  have first: "s = ?st \<and> Db_now (Is_db (Sg_issuer ev')) < until \<and> Unix (Is_clock (Sg_issuer ev')) \<le> Unix until \<and> challenge_rows h d = {}"
    if "openState ev' ?tok db2 = (d, Inr s)" for d s
    using that
  proof (rule openState_rows)
    fix j r assume o: "open_local ev' ''mfa'' ?tok = Some (j, r)" "Sg_mfa_Unmarshal ev' r = Some s"
      and x: "\<exists>x\<in>challenge_rows (Is_hash (Sg_issuer ev') j) db2. OT_expires_at x > Db_now (Is_db (Sg_issuer ev'))"
      and d: "challenge_rows (Is_hash (Sg_issuer ev') j) d = {x \<in> challenge_rows (Is_hash (Sg_issuer ev') j) db2. OT_expires_at x \<le> Db_now (Is_db (Sg_issuer ev'))}"
    have j: "j = jti" "r = raw" "Unix (Is_clock (Sg_issuer ev')) \<le> Unix until" using o(1) opens [OF assms(11)] by (auto split: if_splits)
    with hash [OF assms(11)] have h: "Is_hash (Sg_issuer ev') j = h" and s: "s = ?st" using o(2) by simp_all
    have only: "x = row" if "x \<in> challenge_rows h db2" for x using that rows by auto
    then have t: "Db_now (Is_db (Sg_issuer ev')) < until" using x row(2) unfolding h by auto
    then have "challenge_rows h d = {}" using d only row(2) unfolding h by auto
    with s t j(3) show ?thesis by simp
  qed
  have refused: "VerifyMfa_Execute e w d = (d, Inl ErrMfaInvalid)"
    if "same_installation ev e key" "VM_MFAToken w = ?tok" "challenge_rows h d = {} \<or> Unix until < Unix (Is_clock (Sg_issuer e))" for e w d
  proof -
    have "openState e ?tok d = (d, Inl ErrMfaInvalid)"
    proof (cases "Unix (Is_clock (Sg_issuer e)) \<le> Unix until")
      case True
      with that openState_no_row [of e ?tok jti raw d] opens [OF that(1)] hash [OF that(1)] show ?thesis by simp
    qed (simp add: openState_def opens [OF that(1)])
    with that(2) show ?thesis by (simp add: VerifyMfa_Execute_def)
  qed
  have later: "VerifyMfa_Execute e w db4 = (db4, Inl ErrMfaInvalid)"
    if "openState ev' ?tok db2 = (d, Inr s)" "VM_MFAToken v = ?tok" "VM_MFAToken w = ?tok" "same_installation ev e key"
      "(apart_trans h)\<^sup>*\<^sup>* (fst (VerifyMfa_Execute ev' v db2)) db4" for d s v w e db4
  proof (rule refused [OF that(4,3)])
    have "SD_onetime (fst (VerifyMfa_Execute ev' v db2)) = SD_onetime d" using that(1,2) Verify_onetime by metis
    then show "challenge_rows h db4 = {} \<or> Unix until < Unix (Is_clock (Sg_issuer e))"
      using run_rows [OF that(5)] first [OF that(1)] by (auto simp: challenge_rows_def)
  qed
  show ?thesis using live first later refused [OF assms(11)] by blast
qed

text \<open>Minted at 100 s, opened at 130 s with a wrong code, refused at 131 s.\<close>

theorem mfa_challenge_once_witness:
  "\<exists>c db1 d s. mintMFAChallenge (demo_sealing_env (100 * Second)) demo_tenant demo_realm (identity_view demo_identity) demo_login [''totp''] demo_sign_db = Inr (c, db1) \<and>
     openState (demo_sealing_env (130 * Second)) (MC_MFAToken c) db1 = (d, Inr s) \<and> MS_IdentityID s = ''alice'' \<and>
     (let v = \<lparr>VM_MFAToken = MC_MFAToken c, VM_Method = ''totp'', VM_Code = ''000000''\<rparr>;
          db2 = fst (VerifyMfa_Execute (demo_sealing_env (130 * Second)) v db1)
      in VerifyMfa_Execute (demo_sealing_env (131 * Second)) v db2 = (db2, Inl ErrMfaInvalid))"
proof -
  let ?key = "demo_local_key\<lparr>Key_Kid := ''k2'', Key_Secret := ''s2'', Key_Status := StatusActive\<rparr>"
  let ?ev = "demo_sealing_env (100 * Second)" and ?jti = "EncodeToString (replicate 16 CHR ''a'')"
  have "0 \<le> mfaTokenTTL" "(0 :: int) \<le> 100 * Second" by (simp_all add: mfaTokenTTL_def)
  then have "\<exists>token. seal_state ?ev 4 ''mfa'' (Some raw) mfaTokenTTL = Some (?jti, token)" for raw by (intro demo_seals)
  then have "\<exists>token. seal_state ?ev 4 ''mfa'' (enc_mfa st) mfaTokenTTL = Some (?jti, token)" for st by (simp add: enc_mfa_def)
  then have "\<exists>c db1. mintMFAChallenge ?ev demo_tenant demo_realm (identity_view demo_identity) demo_login [''totp''] demo_sign_db = Inr (c, db1)"
    unfolding mintMFAChallenge_def demo_sealing_fields
    by (auto split: option.split simp: CreateOneTime_def run_stmt_def one_time_kinds_def demo_sign_db_def) (metis option.distinct(1))+
  then obtain c db1 where m: "mintMFAChallenge ?ev demo_tenant demo_realm (identity_view demo_identity) demo_login [''totp''] demo_sign_db = Inr (c, db1)"
    by blast
  have i: "same_installation ?ev (demo_sealing_env t) ?key" for t by (simp add: same_installation_def demo_sealing_key)
  have f: "mfa_codec ?ev" "ActiveLocal (Is_ring (Sg_issuer ?ev)) = Inr ?key" "Key_Kid ?key \<noteq> []"
    "\<forall>n. Is_rand (Sg_issuer ?ev) 5 nonceSize = Some n \<longrightarrow> length n = nonceSize" "gcm_correct (Sg_aead ?ev)" "env_faithful (Sg_aead ?ev)"
    "secret_New (Sg_issuer ?ev) 4 16 = Some ?jti"
    by (auto simp: mfa_codec_def dec_enc_mfa demo_sealing_key toy_aead_correct toy_env_faithful secret_New_def)
  have r: "challenge_rows (Is_hash (Sg_issuer ?ev) ?jti) db1 \<noteq> {}"
    using minted_challenge [OF f(5,6,1-4) m f(7)] by (metis insert_not_empty)
  note once = mfa_challenge_once [OF f(5,6,1-4) m f(7) refl rtranclp.rtrancl_refl i [of "130 * Second"] refl]
  have "\<not> Db_fails (Is_db (Sg_issuer (demo_sealing_env (130 * Second)))) ConsumeOneTimeS \<and> challenge_rows (Is_hash (Sg_issuer ?ev) ?jti) db1 \<noteq> {} \<and>
      Db_now (Is_db (Sg_issuer (demo_sealing_env (130 * Second)))) < Is_clock (Sg_issuer ?ev) + mfaTokenTTL \<and>
      Unix (Is_clock (Sg_issuer (demo_sealing_env (130 * Second)))) \<le> Unix (Is_clock (Sg_issuer ?ev) + mfaTokenTTL)"
    using r by (simp add: mfaTokenTTL_def Unix_def)
  with conjunct1 [OF once] obtain d where d: "openState (demo_sealing_env (130 * Second)) (MC_MFAToken c) db1 =
      (d, Inr (minted_state ?ev demo_tenant demo_realm (identity_view demo_identity) demo_login [''totp'']))" by blast
  moreover have "MS_IdentityID (minted_state ?ev demo_tenant demo_realm (identity_view demo_identity) demo_login [''totp'']) = ''alice''"
    by (simp add: minted_state_def)
  moreover have "VerifyMfa_Execute (demo_sealing_env (131 * Second)) v (fst (VerifyMfa_Execute (demo_sealing_env (130 * Second)) v db1)) =
      (fst (VerifyMfa_Execute (demo_sealing_env (130 * Second)) v db1), Inl ErrMfaInvalid)" if "VM_MFAToken v = MC_MFAToken c" for v
    using conjunct1 [OF conjunct2 [OF once]] d i that by blast
  ultimately show ?thesis using m unfolding Let_def by (metis VerifyMfaInput.select_convs(1))
qed

end
