(* ===== verification/Browser_Flow.thy ===== *)
theory Browser_Flow
  imports Factors
begin

text \<open>
  \<^verbatim>\<open>internal/auth/adapter/http/oidc_handler.go\<close>, \<^verbatim>\<open>cookies.go\<close> and \<^verbatim>\<open>internal/auth/app/emaillink\<close>: signing in with a browser. The authorisation
  endpoint bounces a signed-in browser back with a code; the hosted page takes a password, a second factor, an enrolment or a
  mailed link; the token endpoint exchanges a code under PKCE and rotates refresh tokens.

  A request is its form, query and cookies; a handler answers with the tables, the cookies it sets and a response. Page
  configuration and rendering are left out: a page is the fields it carries back. The rate limiter's verdict, the JSON of
  the one-time payloads and whether an address parses are parameters. Random reads 30 to 35 are this component's.
\<close>

section \<open>Requests, responses, cookies\<close>

record HttpReq =
  Rq_formOK :: bool
  Rq_form :: "(string, string) gomap"
  Rq_query :: "(string, string) gomap"
  Rq_cookies :: "(string, string) gomap"
  Rq_tls :: bool

record SetCookie =
  SC_Name :: string
  SC_Value :: string
  SC_Secure :: bool
  SC_MaxAge :: int

record loginPageData =
  LP_Tenant :: string
  LP_Realm :: string
  LP_ClientID :: string
  LP_RedirectURI :: string
  LP_State :: string
  LP_Challenge :: string
  LP_Method :: string
  LP_Nonce :: string
  LP_Error :: string
  LP_MFAToken :: string
  LP_EnrolToken :: string
  LP_EnrolKey :: string
  LP_EnrolURI :: string
  LP_RecoveryCodes :: "string list"
  LP_WarnFactors :: string
  LP_WarnDeadline :: "time option"
  LP_ContinueURL :: "(string \<times> string) list"
  LP_CSRF :: string

text \<open>\<open>RedirectTo\<close> adds query parameters to an address; \<open>Aborted\<close> is a panic of the handler.\<close>

datatype http_resp =
    WriteError apperr
  | RedirectTo string "(string \<times> string) list"
  | LoginPage loginPageData
  | TokenJSON TokenPair
  | LinkPage string string
  | SentPage
  | UnavailablePage
  | ExpiredPage
  | SeeOther string string
  | Aborted

definition PostFormValue :: "HttpReq \<Rightarrow> string \<Rightarrow> string" where
  "PostFormValue r k = (case map_of (Rq_form r) k of None \<Rightarrow> [] | Some v \<Rightarrow> v)"

definition Query_Get :: "HttpReq \<Rightarrow> string \<Rightarrow> string" where
  "Query_Get r k = (case map_of (Rq_query r) k of None \<Rightarrow> [] | Some v \<Rightarrow> v)"

definition cookie_hardened :: "bool \<Rightarrow> HttpReq \<Rightarrow> bool" where
  "cookie_hardened inprod r \<longleftrightarrow> inprod \<or> Rq_tls r"

definition cookie_name :: "bool \<Rightarrow> HttpReq \<Rightarrow> string \<Rightarrow> string" where
  "cookie_name inprod r base = (if cookie_hardened inprod r then ''__Host-'' @ base else base)"

definition cookie_set :: "bool \<Rightarrow> HttpReq \<Rightarrow> string \<Rightarrow> string \<Rightarrow> int \<Rightarrow> SetCookie" where
  "cookie_set inprod r base val maxAge =
     \<lparr>SC_Name = cookie_name inprod r base, SC_Value = val, SC_Secure = cookie_hardened inprod r, SC_MaxAge = maxAge\<rparr>"

definition cookie_get :: "bool \<Rightarrow> HttpReq \<Rightarrow> string \<Rightarrow> string" where
  "cookie_get inprod r base =
     (case map_of (Rq_cookies r) (cookie_name inprod r base) of
        Some v \<Rightarrow> if v \<noteq> [] then v
          else (case map_of (Rq_cookies r) base of Some w \<Rightarrow> if w \<noteq> [] then w else nstr (map_of (Rq_cookies r) (''__Host-'' @ base))
                | None \<Rightarrow> nstr (map_of (Rq_cookies r) (''__Host-'' @ base)))
      | None \<Rightarrow> (case map_of (Rq_cookies r) base of Some w \<Rightarrow> if w \<noteq> [] then w else nstr (map_of (Rq_cookies r) (''__Host-'' @ base))
                | None \<Rightarrow> nstr (map_of (Rq_cookies r) (''__Host-'' @ base))))"

definition ssoCookieBase :: string where "ssoCookieBase = ''anubis_sso''"
definition loginCSRFBase :: string where "loginCSRFBase = ''anubis_login''"
definition loginCSRFTTL :: duration where "loginCSRFTTL = 30 * 60 * Second"
definition authCodeTTL :: duration where "authCodeTTL = 60 * Second"
definition browserFactorTTL :: duration where "browserFactorTTL = 5 * 60 * Second"
definition browserEnrolTTL :: duration where "browserEnrolTTL = 15 * 60 * Second"
definition primaryPassword :: string where "primaryPassword = ''pwd''"

section \<open>Payloads and environment\<close>

record authCodePayload =
  AC_TenantID :: string
  AC_TenantSlug :: string
  AC_IdentityID :: string
  AC_SessionID :: string
  AC_ClientID :: string
  AC_RedirectURI :: string
  AC_CodeChallenge :: string
  AC_CodeChallengeMethod :: string
  AC_Nonce :: string

record EnrolClaim =
  EN_IdentityID :: string
  EN_Grant :: string
  EN_EnrollmentToken :: string
  EN_ContinueURL :: "(string \<times> string) list"

record LinkPayload =
  LK_IdentityID :: string
  LK_TenantID :: string
  LK_RealmID :: string
  LK_Flow :: "(string, string) gomap"

record BrowserEnv =
  Bw_sign :: SignEnv
  Bw_prod :: bool
  Bw_limited :: bool
  Bw_mail :: bool
  Bw_url_Parse :: "string \<Rightarrow> bool"
  Bw_code_Marshal :: "authCodePayload \<Rightarrow> string"
  Bw_code_Unmarshal :: "string \<Rightarrow> authCodePayload option"
  Bw_factor_Marshal :: "string \<Rightarrow> string \<Rightarrow> string"
  Bw_factor_Unmarshal :: "string \<Rightarrow> (string \<times> string) option"
  Bw_enrol_Marshal :: "EnrolClaim \<Rightarrow> string"
  Bw_enrol_Unmarshal :: "string \<Rightarrow> EnrolClaim option"
  Bw_link_Marshal :: "LinkPayload \<Rightarrow> string"
  Bw_link_Unmarshal :: "string \<Rightarrow> LinkPayload option"

abbreviation bw_is :: "BrowserEnv \<Rightarrow> IssuerEnv" where "bw_is ev \<equiv> Sg_issuer (Bw_sign ev)"
abbreviation bw_db :: "BrowserEnv \<Rightarrow> DbEnv" where "bw_db ev \<equiv> Is_db (bw_is ev)"

type_synonym browser_answer = "SignDB \<times> SetCookie list \<times> http_resp"

section \<open>The page and its forgery check\<close>

definition checkLoginCSRF :: "BrowserEnv \<Rightarrow> HttpReq \<Rightarrow> string \<Rightarrow> bool" where
  "checkLoginCSRF ev r submitted =
     (let stored = cookie_get (Bw_prod ev) r loginCSRFBase in
      if stored = [] \<or> submitted = [] then False else stored = submitted)"

definition renderLogin :: "BrowserEnv \<Rightarrow> HttpReq \<Rightarrow> loginPageData \<Rightarrow> SetCookie list \<times> http_resp" where
  "renderLogin ev r data =
     (case secret_New (bw_is ev) 32 16 of None \<Rightarrow> ([], WriteError ErrInternal) | Some csrf \<Rightarrow>
      ([cookie_set (Bw_prod ev) r loginCSRFBase csrf (go_quot loginCSRFTTL Second)], LoginPage (data\<lparr>LP_CSRF := csrf\<rparr>)))"

definition resubmit :: "HttpReq \<Rightarrow> string \<Rightarrow> string \<Rightarrow> string \<Rightarrow> loginPageData" where
  "resubmit r tenantSlug realmCode msg =
     \<lparr>LP_Tenant = tenantSlug, LP_Realm = realmCode, LP_ClientID = PostFormValue r ''client_id'',
      LP_RedirectURI = PostFormValue r ''redirect_uri'', LP_State = PostFormValue r ''state'',
      LP_Challenge = PostFormValue r ''code_challenge'', LP_Method = PostFormValue r ''code_challenge_method'',
      LP_Nonce = PostFormValue r ''nonce'', LP_Error = msg, LP_MFAToken = [], LP_EnrolToken = [], LP_EnrolKey = [],
      LP_EnrolURI = [], LP_RecoveryCodes = [], LP_WarnFactors = [], LP_WarnDeadline = None, LP_ContinueURL = [], LP_CSRF = []\<rparr>"

text \<open>\<^verbatim>\<open>h.renderLogin(w, r, ..., h.resubmit(...))\<close>.\<close>

definition start_over :: "BrowserEnv \<Rightarrow> HttpReq \<Rightarrow> string \<Rightarrow> string \<Rightarrow> string \<Rightarrow> SignDB \<Rightarrow> browser_answer" where
  "start_over ev r tenantSlug realmCode msg db = (db, renderLogin ev r (resubmit r tenantSlug realmCode msg))"

definition firstNonEmpty :: "string \<Rightarrow> string \<Rightarrow> string" where
  "firstNonEmpty a b = (if a \<noteq> [] then a else b)"

definition exactMatch :: "string list \<Rightarrow> string \<Rightarrow> bool" where
  "exactMatch allow uri \<longleftrightarrow> (if uri = [] then False else list_ex (\<lambda>a. a = uri) allow)"

definition factorName :: "string \<Rightarrow> string" where
  "factorName kind = (if kind = ''totp'' then ''an authenticator app'' else if kind = ''device_key'' then ''a device passkey'' else kind)"

fun join_and :: "string list \<Rightarrow> string" where
  "join_and [] = []"
| "join_and [x] = x"
| "join_and (x # xs) = x @ '' and '' @ join_and xs"

definition factorNames :: "string list \<Rightarrow> string" where
  "factorNames missing = (let names = map factorName missing in if names = [] then ''a second factor'' else join_and names)"

definition enrolmentMessage :: "string list \<Rightarrow> string" where
  "enrolmentMessage missing =
     (if missing = [] then ''This realm requires a second factor that this account does not have.''
      else ''This realm requires '' @ factorNames missing @ '', which this account has not set up. Enrol one, then sign in again.'')"

section \<open>Codes\<close>

definition redirectError :: "BrowserEnv \<Rightarrow> string \<Rightarrow> string \<Rightarrow> string \<Rightarrow> http_resp" where
  "redirectError ev redirectURI state code =
     (if \<not> Bw_url_Parse ev redirectURI then WriteError ErrRedirectURI else RedirectTo redirectURI ((''error'', code) # (if state \<noteq> [] then [(''state'', state)] else [])))"

definition issueCode ::
  "BrowserEnv \<Rightarrow> TenantRef \<Rightarrow> string \<Rightarrow> string \<Rightarrow> string \<Rightarrow> string \<Rightarrow> string \<Rightarrow> string \<Rightarrow> string \<Rightarrow> string \<Rightarrow> SignDB \<Rightarrow> browser_answer" where
  "issueCode ev tenant identityID sessionID clientID redirectURI state challenge method nonce db =
     (case Is_ApplicationBySlug (bw_is ev) (Tn_ID tenant) clientID of Inl e \<Rightarrow> (db, [], WriteError ErrRedirectURI) | Inr app \<Rightarrow>
      if \<not> exactMatch (Ap_RedirectURIs app) redirectURI then (db, [], WriteError ErrRedirectURI)
      else case secret_New (bw_is ev) 30 32 of None \<Rightarrow> (db, [], WriteError ErrInternal) | Some code \<Rightarrow>
      case CreateOneTime (bw_db ev) (Tn_ID tenant) ''auth_code'' (Is_hash (bw_is ev) code)
             (Bw_code_Marshal ev \<lparr>AC_TenantID = Tn_ID tenant, AC_TenantSlug = Tn_Slug tenant, AC_IdentityID = identityID, AC_SessionID = sessionID,
                AC_ClientID = clientID, AC_RedirectURI = redirectURI, AC_CodeChallenge = challenge, AC_CodeChallengeMethod = method, AC_Nonce = nonce\<rparr>)
             (Is_clock (bw_is ev) + authCodeTTL) db of
        Inl e \<Rightarrow> (db, [], WriteError ErrInternal)
      | Inr (_, db') \<Rightarrow> (db', [], if \<not> Bw_url_Parse ev redirectURI then Aborted
            else RedirectTo redirectURI ((''code'', code) # (if state \<noteq> [] then [(''state'', state)] else []))))"

definition AuthorizeEndpoint :: "BrowserEnv \<Rightarrow> HttpReq \<Rightarrow> SignDB \<Rightarrow> browser_answer" where
  "AuthorizeEndpoint ev r db =
     (let tenantSlug = (if Query_Get r ''tenant'' = [] then ''impack'' else Query_Get r ''tenant'');
          clientID = Query_Get r ''client_id''; redirectURI = Query_Get r ''redirect_uri''; state = Query_Get r ''state'';
          challenge = Query_Get r ''code_challenge''; method = Query_Get r ''code_challenge_method'' in
      case Is_TenantBySlug (bw_is ev) tenantSlug of Inl e \<Rightarrow> (db, [], WriteError ErrNotFound) | Inr None \<Rightarrow> (db, [], Aborted) | Inr (Some tenant) \<Rightarrow>
      case Is_ApplicationBySlug (bw_is ev) (Tn_ID tenant) clientID of Inl e \<Rightarrow> (db, [], WriteError ErrInvalidArgument) | Inr app \<Rightarrow>
      if \<not> exactMatch (Ap_RedirectURIs app) redirectURI then (db, [], WriteError ErrRedirectURI)
      else if Query_Get r ''response_type'' \<noteq> ''code'' \<or> challenge = [] \<or> method \<noteq> ''S256'' then (db, [], redirectError ev redirectURI state ''invalid_request'')
      else
        let raw = cookie_get (Bw_prod ev) r ssoCookieBase;
            login = (db, renderLogin ev r ((resubmit r tenantSlug (firstNonEmpty (Query_Get r ''realm'') ''internal'') [])
              \<lparr>LP_ClientID := clientID, LP_RedirectURI := redirectURI, LP_State := state, LP_Challenge := challenge, LP_Method := method,
               LP_Nonce := Query_Get r ''nonce''\<rparr>)) in
        if raw = [] then login
        else case SessionByCookieHash (bw_db ev) (Is_hash (bw_is ev) raw) (SD_auth db) of
          Inl e \<Rightarrow> login
        | Inr view \<Rightarrow>
            if SV_TenantID view = Tn_ID tenant
            then issueCode ev tenant (SV_IdentityID view) (SV_ID view) (Ap_Slug app) redirectURI state challenge method (Query_Get r ''nonce'') db
            else login)"

section \<open>Sessions of a browser\<close>

text \<open>\<open>None\<close> when an error response was already written.\<close>

definition openBrowserSession ::
  "BrowserEnv \<Rightarrow> HttpReq \<Rightarrow> TenantRef \<Rightarrow> Realm \<Rightarrow> DomainIdentity \<Rightarrow> string list \<Rightarrow> string \<Rightarrow> SignDB \<Rightarrow> SignDB \<times> SetCookie list \<times> string option" where
  "openBrowserSession ev r tenant realm identity amr detail db =
     (case CreateSession (bw_db ev) \<lparr>SN_IdentityID = Id_ID identity, SN_TenantID = Tn_ID tenant, SN_ApplicationID = [], SN_AMR = amr,
             SN_DeviceFP = [], SN_IP = Is_ip (bw_is ev), SN_UserAgent = Is_userAgent (bw_is ev), SN_ActiveScopes = ''{}'',
             SN_ExpiresAt = Is_clock (bw_is ev) + Rm_SessionTTL realm\<rparr> (SD_auth db) of
        Inl e \<Rightarrow> (db, [], None)
      | Inr (sid, a1) \<Rightarrow>
          let db1 = db\<lparr>SD_auth := a1\<rparr> in
          (case secret_New (bw_is ev) 31 32 of None \<Rightarrow> (db1, [], None) | Some cookieSecret \<Rightarrow>
           case SetSessionCookieHash (bw_db ev) sid (Is_hash (bw_is ev) cookieSecret) a1 of Inl e \<Rightarrow> (db1, [], None) | Inr a2 \<Rightarrow>
           (AuditLogin (Bw_sign ev) (Some tenant) (Some identity) SurfaceBrowser ''allow'' detail sid (db\<lparr>SD_auth := a2\<rparr>),
            [cookie_set (Bw_prod ev) r ssoCookieBase cookieSecret (go_quot (Rm_SessionTTL realm) Second)], Some sid)))"

definition establishBrowserSession ::
  "BrowserEnv \<Rightarrow> HttpReq \<Rightarrow> TenantRef \<Rightarrow> Realm \<Rightarrow> DomainIdentity \<Rightarrow> string list \<Rightarrow> string \<Rightarrow> SignDB \<Rightarrow> browser_answer" where
  "establishBrowserSession ev r tenant realm identity amr detail db =
     (case openBrowserSession ev r tenant realm identity amr detail db of
        (db1, cs, None) \<Rightarrow> (db1, cs, WriteError ErrInternal)
      | (db1, cs, Some sid) \<Rightarrow>
          (case issueCode ev tenant (Id_ID identity) sid (PostFormValue r ''client_id'') (PostFormValue r ''redirect_uri'') (PostFormValue r ''state'')
                  (PostFormValue r ''code_challenge'') (PostFormValue r ''code_challenge_method'') (PostFormValue r ''nonce'') db1 of
             (db2, cs', resp) \<Rightarrow> (db2, cs @ cs', resp)))"

section \<open>The second factor\<close>

definition promptForFactor ::
  "BrowserEnv \<Rightarrow> HttpReq \<Rightarrow> TenantRef \<Rightarrow> DomainIdentity \<Rightarrow> Realm option \<Rightarrow> string \<Rightarrow> string \<Rightarrow> SignDB \<Rightarrow> browser_answer" where
  "promptForFactor ev r tenant identity realm primary msg db =
     (case secret_New (bw_is ev) 33 32 of None \<Rightarrow> (db, [], WriteError ErrInternal) | Some raw \<Rightarrow>
      case CreateOneTime (bw_db ev) (Tn_ID tenant) ''browser_mfa'' (Is_hash (bw_is ev) raw)
             (Bw_factor_Marshal ev (Id_ID identity) primary) (Is_clock (bw_is ev) + browserFactorTTL) db of
        Inl e \<Rightarrow> (db, [], WriteError ErrInternal)
      | Inr (_, db') \<Rightarrow> (db', renderLogin ev r ((resubmit r (PostFormValue r ''tenant'') (case realm of None \<Rightarrow> [] | Some rl \<Rightarrow> Rm_Code rl) msg)
          \<lparr>LP_MFAToken := raw\<rparr>)))"

definition consumeFactorToken :: "BrowserEnv \<Rightarrow> string \<Rightarrow> SignDB \<Rightarrow> SignDB \<times> (string \<times> string) result" where
  "consumeFactorToken ev token db =
     (case ConsumeOneTime (bw_db ev) ''browser_mfa'' (Is_hash (bw_is ev) token) db of
        Inl e \<Rightarrow> (db, Inl ErrMfaInvalid)
      | Inr ((_, payload), db') \<Rightarrow>
          (case Bw_factor_Unmarshal ev payload of None \<Rightarrow> (db', Inl ErrMfaInvalid) | Some (who, primary) \<Rightarrow>
           if who = [] then (db', Inl ErrMfaInvalid)
           else (db', Inr (who, if primary = [] then primaryPassword else primary))))"

text \<open>\<open>None\<close> is the panic of computing a code.\<close>

definition verifyFactorCode :: "BrowserEnv \<Rightarrow> DomainIdentity \<Rightarrow> string \<Rightarrow> SignDB \<Rightarrow> (bool \<times> SignDB) option" where
  "verifyFactorCode ev identity code db =
     (case ActiveCredentialOfKind (bw_db ev) (Id_ID identity) ''totp'' db of Inl e \<Rightarrow> Some (False, db) | Inr cred \<Rightarrow>
      case std_DecodeString (Cr_Secret cred) of None \<Rightarrow> Some (False, db) | Some sealed \<Rightarrow>
      case OpenNamedSecret (Sg_aead (Bw_sign ev)) (Is_ring (bw_is ev)) (Cr_SecretKid cred) (''totp:'' @ Cr_ID cred) sealed of
        Inl e \<Rightarrow> Some (False, db)
      | Inr (shared, _) \<Rightarrow>
          (case totp_Verify (Sg_mac (Bw_sign ev)) shared code (Is_clock (bw_is ev)) DefaultStep DefaultDigits 1 of
             None \<Rightarrow> None
           | Some (step, False) \<Rightarrow> Some (False, db)
           | Some (step, True) \<Rightarrow>
               (case AdvanceCredentialStep (bw_db ev) (Cr_ID cred) step db of Inl e \<Rightarrow> Some (False, db) | Inr (fresh, db') \<Rightarrow> Some (fresh, db'))))"

definition factor_event :: "BrowserEnv \<Rightarrow> TenantRef \<Rightarrow> DomainIdentity \<Rightarrow> AuthEvent" where
  "factor_event ev tenant identity =
     \<lparr>AE_TenantID = Tn_ID tenant, AE_ActorID = Id_ID identity, AE_ActorKind = ''identity'', AE_SessionID = [], AE_TargetID = [],
      AE_Action = ''auth.mfa'', AE_Result = ''deny'', AE_IP = Is_ip (bw_is ev), AE_Detail = [(''surface'', ''browser''), (''method'', ''totp'')]\<rparr>"

definition completeSecondFactor :: "BrowserEnv \<Rightarrow> HttpReq \<Rightarrow> string \<Rightarrow> string \<Rightarrow> string \<Rightarrow> string \<Rightarrow> SignDB \<Rightarrow> browser_answer" where
  "completeSecondFactor ev r tenantSlug realmCode token code db =
     (let again = start_over ev r tenantSlug realmCode in
      case Is_TenantBySlug (bw_is ev) tenantSlug of
        Inr (Some tenant) \<Rightarrow>
          (case Sg_RealmByCode (Bw_sign ev) (Tn_ID tenant) realmCode of
             Inr (Some realm) \<Rightarrow>
               (case consumeFactorToken ev token db of
                  (db1, Inl e) \<Rightarrow> again ''That took too long. Please sign in again.'' db1
                | (db1, Inr (who, primary)) \<Rightarrow>
                    (case IdentityByID (bw_db ev) (Tn_ID tenant) who db1 of
                       Inl e \<Rightarrow> again ''Please sign in again.'' db1
                     | Inr identity \<Rightarrow>
                         (case CanAuthenticate identity of
                            Inl e \<Rightarrow> again ''Please sign in again.''
                              (AuditLogin (Bw_sign ev) (Some tenant) (Some identity) SurfaceBrowser ''deny'' ''identity_cannot_authenticate'' [] db1)
                          | Inr _ \<Rightarrow>
                              (case verifyFactorCode ev identity code db1 of
                                 None \<Rightarrow> (db1, [], Aborted)
                               | Some (False, db2) \<Rightarrow>
                                   promptForFactor ev r tenant identity (Some realm) primary ''That code was not accepted.'' (sign_emit (factor_event ev tenant identity) db2)
                               | Some (True, db2) \<Rightarrow>
                                   establishBrowserSession ev r tenant realm identity [primary, AMROTP] ''mfa'' db2))))
           | _ \<Rightarrow> again ''Please sign in again.'' db)
      | _ \<Rightarrow> again ''Please sign in again.'' db)"

section \<open>Enrolment on the page\<close>

text \<open>The parameters \<open>continueURL\<close> puts on \<^verbatim>\<open>/v1/authorize\<close>.\<close>

definition continueURL :: "HttpReq \<Rightarrow> string \<Rightarrow> (string \<times> string) list" where
  "continueURL r tenantSlug =
     [(''tenant'', tenantSlug), (''client_id'', PostFormValue r ''client_id''), (''redirect_uri'', PostFormValue r ''redirect_uri''), (''response_type'', ''code''),
      (''code_challenge'', PostFormValue r ''code_challenge''), (''code_challenge_method'', PostFormValue r ''code_challenge_method'')] @
     (if PostFormValue r ''state'' \<noteq> [] then [(''state'', PostFormValue r ''state'')] else []) @
     (if PostFormValue r ''nonce'' \<noteq> [] then [(''nonce'', PostFormValue r ''nonce'')] else [])"

definition promptForEnrolment ::
  "BrowserEnv \<Rightarrow> HttpReq \<Rightarrow> string \<Rightarrow> string \<Rightarrow> TenantRef \<Rightarrow> Realm \<Rightarrow> DomainIdentity \<Rightarrow> string list \<Rightarrow> string \<Rightarrow> (string \<times> string) list \<Rightarrow> SignDB \<Rightarrow> browser_answer" where
  "promptForEnrolment ev r tenantSlug realmCode tenant realm identity missing msg cont db =
     (case Granter_Grant (Bw_sign ev) tenant realm identity missing of Inl e \<Rightarrow> (db, [], WriteError ErrInternal) | Inr challenge \<Rightarrow>
      case BeginTOTP (Bw_sign ev) None (EC_GrantToken challenge) db of
        Inl e \<Rightarrow> start_over ev r tenantSlug realmCode ''Your account has changed. Please sign in again.'' db
      | Inr (pending, db1) \<Rightarrow>
          (case secret_New (bw_is ev) 34 32 of None \<Rightarrow> (db1, [], WriteError ErrInternal) | Some handle \<Rightarrow>
           case CreateOneTime (bw_db ev) (Tn_ID tenant) ''browser_enrol'' (Is_hash (bw_is ev) handle)
                  (Bw_enrol_Marshal ev \<lparr>EN_IdentityID = Id_ID identity, EN_Grant = EC_GrantToken challenge,
                     EN_EnrollmentToken = TE_EnrollmentToken pending, EN_ContinueURL = cont\<rparr>)
                  (Is_clock (bw_is ev) + browserEnrolTTL) db1 of
             Inl e \<Rightarrow> (db1, [], WriteError ErrInternal)
           | Inr (_, db2) \<Rightarrow> (db2, renderLogin ev r ((resubmit r tenantSlug realmCode msg)
               \<lparr>LP_EnrolToken := handle, LP_EnrolKey := TE_Secret pending, LP_EnrolURI := TE_ProvisioningURI pending\<rparr>))))"

text \<open>The denial of an enrolment names no tenant (\<^verbatim>\<open>tenantID(nil)\<close>).\<close>

definition enrol_deny_event :: "BrowserEnv \<Rightarrow> EnrolClaim \<Rightarrow> AuthEvent" where
  "enrol_deny_event ev claim =
     \<lparr>AE_TenantID = [], AE_ActorID = EN_IdentityID claim, AE_ActorKind = ''identity'', AE_SessionID = [], AE_TargetID = [],
      AE_Action = ''auth.mfa.enrol'', AE_Result = ''deny'', AE_IP = Is_ip (bw_is ev), AE_Detail = [(''surface'', ''browser''), (''method'', ''totp'')]\<rparr>"

definition completeEnrolment :: "BrowserEnv \<Rightarrow> HttpReq \<Rightarrow> string \<Rightarrow> string \<Rightarrow> string \<Rightarrow> string \<Rightarrow> SignDB \<Rightarrow> browser_answer" where
  "completeEnrolment ev r tenantSlug realmCode token code db =
     (case ConsumeOneTime (bw_db ev) ''browser_enrol'' (Is_hash (bw_is ev) token) db of
        Inl e \<Rightarrow> start_over ev r tenantSlug realmCode ''That took too long. Please sign in again.'' db
      | Inr ((_, payload), db1) \<Rightarrow>
          (case Bw_enrol_Unmarshal ev payload of
             None \<Rightarrow> start_over ev r tenantSlug realmCode ''Please sign in again.'' db1
           | Some claim \<Rightarrow>
               if EN_Grant claim = [] then start_over ev r tenantSlug realmCode ''Please sign in again.'' db1
               else (case ConfirmTOTP (Bw_sign ev) None (EN_EnrollmentToken claim) code (EN_Grant claim) db1 of
                  (db2, Inl e) \<Rightarrow> start_over ev r tenantSlug realmCode
                    ''That code was not accepted, and the key it was for has been discarded. Sign in again to start over with a new one.''
                    (sign_emit (enrol_deny_event ev claim) db2)
                | (db2, Inr (_, codes)) \<Rightarrow>
                    (db2, renderLogin ev r ((resubmit r tenantSlug realmCode [])\<lparr>LP_RecoveryCodes := codes, LP_ContinueURL := EN_ContinueURL claim\<rparr>)))))"

definition warnEnrolmentDue ::
  "BrowserEnv \<Rightarrow> HttpReq \<Rightarrow> string \<Rightarrow> string \<Rightarrow> TenantRef \<Rightarrow> Realm \<Rightarrow> DomainIdentity \<Rightarrow> LoginDecision \<Rightarrow> string list \<Rightarrow> string \<Rightarrow> SignDB \<Rightarrow> browser_answer" where
  "warnEnrolmentDue ev r tenantSlug realmCode tenant realm identity d amr detail db =
     (case openBrowserSession ev r tenant realm identity amr detail db of
        (db1, cs, None) \<Rightarrow> (db1, cs, WriteError ErrInternal)
      | (db1, cs, Some sid) \<Rightarrow>
          (case renderLogin ev r ((resubmit r tenantSlug realmCode [])\<lparr>LP_WarnFactors := factorNames (LD_Missing d),
                  LP_WarnDeadline := Some (LD_Deadline d), LP_ContinueURL := continueURL r tenantSlug\<rparr>) of
             (cs', resp) \<Rightarrow> (db1, cs @ cs', resp)))"

definition enrolFromSession :: "BrowserEnv \<Rightarrow> HttpReq \<Rightarrow> string \<Rightarrow> string \<Rightarrow> SignDB \<Rightarrow> browser_answer" where
  "enrolFromSession ev r tenantSlug realmCode db =
     (let raw = cookie_get (Bw_prod ev) r ssoCookieBase; again = start_over ev r tenantSlug realmCode ''Please sign in again.'' db in
      if raw = [] then again
      else case SessionByCookieHash (bw_db ev) (Is_hash (bw_is ev) raw) (SD_auth db) of Inl e \<Rightarrow> again | Inr view \<Rightarrow>
      case Is_TenantBySlug (bw_is ev) tenantSlug of
        Inr (Some tenant) \<Rightarrow>
          if Tn_ID tenant \<noteq> SV_TenantID view then again
          else (case Sg_RealmByCode (Bw_sign ev) (Tn_ID tenant) realmCode of
            Inr (Some realm) \<Rightarrow>
              (case IdentityByID (bw_db ev) (Tn_ID tenant) (SV_IdentityID view) db of Inl e \<Rightarrow> again | Inr identity \<Rightarrow>
               case MissingFactors (Bw_sign ev) realm (Id_ID identity) db of Inl e \<Rightarrow> (db, [], WriteError ErrInternal) | Inr missing \<Rightarrow>
               promptForEnrolment ev r tenantSlug realmCode tenant realm identity missing [] (continueURL r tenantSlug) db)
          | _ \<Rightarrow> again)
      | _ \<Rightarrow> again)"

section \<open>The hosted form\<close>

text \<open>What the page does with a decision of the authenticator; a password and a mailed link share it.\<close>

definition after_decision ::
  "BrowserEnv \<Rightarrow> HttpReq \<Rightarrow> string \<Rightarrow> string \<Rightarrow> string \<Rightarrow> string \<Rightarrow> string \<Rightarrow> LoginDecision \<Rightarrow> SignDB \<Rightarrow> browser_answer" where
  "after_decision ev r tenantSlug realmCode primary detail denial d db =
     (case (LD_Step d, LD_Tenant d, LD_Realm d, LD_Identity d) of
        (StepEnrol, Some tenant, Some realm, Some identity) \<Rightarrow>
          promptForEnrolment ev r tenantSlug realmCode tenant realm identity (LD_Missing d) (enrolmentMessage (LD_Missing d)) [] db
      | (StepFactor, Some tenant, Some realm, Some identity) \<Rightarrow> promptForFactor ev r tenant identity (Some realm) primary [] db
      | (StepAllow, Some tenant, Some realm, Some identity) \<Rightarrow>
          if LD_Due d then warnEnrolmentDue ev r tenantSlug realmCode tenant realm identity d [primary] detail db
          else establishBrowserSession ev r tenant realm identity [primary] detail db
      | _ \<Rightarrow> start_over ev r tenantSlug realmCode denial db)"

definition LoginForm :: "BrowserEnv \<Rightarrow> HttpReq \<Rightarrow> SignDB \<Rightarrow> browser_answer" where
  "LoginForm ev r db =
     (if \<not> Rq_formOK r then (db, [], WriteError ErrInvalidArgument)
      else
        let tenantSlug = PostFormValue r ''tenant'';
            realmCode = (if PostFormValue r ''realm'' = [] then ''internal'' else PostFormValue r ''realm'') in
        if \<not> checkLoginCSRF ev r (PostFormValue r ''csrf'') then
          (db, renderLogin ev r (resubmit (r\<lparr>Rq_form := []\<rparr>) tenantSlug realmCode ''That form expired. Please try again.''))
        else if Bw_limited ev then (db, [], WriteError ErrRateLimited)
        else if PostFormValue r ''mfa_token'' \<noteq> [] then
          completeSecondFactor ev r tenantSlug realmCode (PostFormValue r ''mfa_token'') (PostFormValue r ''code'') db
        else if PostFormValue r ''enrol_token'' \<noteq> [] then
          completeEnrolment ev r tenantSlug realmCode (PostFormValue r ''enrol_token'') (PostFormValue r ''code'') db
        else if PostFormValue r ''enrol_now'' \<noteq> [] then enrolFromSession ev r tenantSlug realmCode db
        else (case Authenticate (Bw_sign ev) \<lparr>LI_Tenant = tenantSlug, LI_Realm = realmCode, LI_Username = PostFormValue r ''username'',
                     LI_Password = PostFormValue r ''password'', LI_ClientID = PostFormValue r ''client_id'', LI_DeviceFP = []\<rparr> SurfaceBrowser db of
          (db1, d) \<Rightarrow>
            after_decision ev r tenantSlug realmCode primaryPassword ''password''
              (if LD_Err d = Some ErrInternal then ''Sign-in is temporarily unavailable. Please try again.'' else ''Invalid username or password'') d db1))"

section \<open>The token endpoint\<close>

definition tokenRefresh :: "BrowserEnv \<Rightarrow> HttpReq \<Rightarrow> SignDB \<Rightarrow> browser_answer" where
  "tokenRefresh ev r db =
     (let token = PostFormValue r ''refresh_token'' in
      if token = [] then (db, [], WriteError ErrInvalidArgument)
      else case Refresh_Execute (bw_is ev) token (SD_auth db) of
        (a, Inl e) \<Rightarrow> (db\<lparr>SD_auth := a\<rparr>, [], WriteError e)
      | (a, Inr pair) \<Rightarrow> (db\<lparr>SD_auth := a\<rparr>, [], TokenJSON pair))"

definition tokenAuthCode :: "BrowserEnv \<Rightarrow> HttpReq \<Rightarrow> SignDB \<Rightarrow> browser_answer" where
  "tokenAuthCode ev r db =
     (let code = PostFormValue r ''code''; verifier = PostFormValue r ''code_verifier'' in
      if code = [] \<or> verifier = [] then (db, [], WriteError ErrPKCE)
      else case ConsumeOneTime (bw_db ev) ''auth_code'' (Is_hash (bw_is ev) code) db of Inl e \<Rightarrow> (db, [], WriteError ErrPKCE) | Inr ((_, raw), db1) \<Rightarrow>
      case Bw_code_Unmarshal ev raw of None \<Rightarrow> (db1, [], WriteError ErrPKCE) | Some p \<Rightarrow>
      if EncodeToString (Is_hash (bw_is ev) verifier) \<noteq> AC_CodeChallenge p then (db1, [], WriteError ErrPKCE)
      else if PostFormValue r ''redirect_uri'' \<noteq> AC_RedirectURI p \<or> PostFormValue r ''client_id'' \<noteq> AC_ClientID p then (db1, [], WriteError ErrPKCE)
      else case SessionLive (bw_db ev) (AC_SessionID p) (SD_auth db1) of Inl e \<Rightarrow> (db1, [], WriteError ErrSessionRevoked) | Inr view \<Rightarrow>
      case Issue (bw_is ev) \<lparr>II_Session = view, II_TenantSlug = AC_TenantSlug p, II_ClientID = AC_ClientID p, II_RotateFrom = None, II_AccessOnly = False\<rparr> (SD_auth db1) of
        Inl e \<Rightarrow> (db1, [], WriteError e)
      | Inr (pair, a) \<Rightarrow> (db1\<lparr>SD_auth := a\<rparr>, [], TokenJSON pair))"

definition TokenEndpoint :: "BrowserEnv \<Rightarrow> HttpReq \<Rightarrow> SignDB \<Rightarrow> browser_answer" where
  "TokenEndpoint ev r db =
     (if \<not> Rq_formOK r then (db, [], WriteError ErrInvalidArgument)
      else if PostFormValue r ''grant_type'' = ''authorization_code'' then tokenAuthCode ev r db
      else if PostFormValue r ''grant_type'' = ''refresh_token'' then tokenRefresh ev r db
      else (db, [], WriteError ErrInvalidArgument))"

section \<open>Mailed links\<close>

definition email_factor :: string where "email_factor = ''email_link''"
definition LinkTTL :: duration where "LinkTTL = 15 * 60 * Second"

record LinkRequest =
  LR_Tenant :: string
  LR_Realm :: string
  LR_Username :: string
  LR_Flow :: "(string, string) gomap"

record OutboundMail =
  OM_To :: string
  OM_TenantID :: string
  OM_IdentityID :: string
  OM_Username :: string
  OM_Token :: string

record LinkCompleted =
  LC_Tenant :: TenantRef
  LC_Realm :: Realm
  LC_Identity :: DomainIdentity
  LC_Flow :: "(string, string) gomap"

definition link_emit :: "BrowserEnv \<Rightarrow> string \<Rightarrow> string \<Rightarrow> string \<Rightarrow> string \<Rightarrow> SignDB \<Rightarrow> SignDB" where
  "link_emit ev tenantID identityID res detail db =
     sign_emit \<lparr>AE_TenantID = tenantID, AE_ActorID = identityID, AE_ActorKind = ''identity'', AE_SessionID = [], AE_TargetID = [],
       AE_Action = ''auth.email_link'', AE_Result = res, AE_IP = Is_ip (bw_is ev), AE_Detail = [(''detail'', detail)]\<rparr> db"

text \<open>The answer, and the mail that leaves after it.\<close>

definition Link_Request :: "BrowserEnv \<Rightarrow> LinkRequest \<Rightarrow> SignDB \<Rightarrow> SignDB \<times> OutboundMail option result" where
  "Link_Request ev i db =
     (if \<not> Bw_mail ev then (db, Inl ErrMailNotConfigured)
      else
        let realmCode = (if LR_Realm i = [] then ''internal'' else LR_Realm i) in
        if \<not> ValidSlug (LR_Tenant i) \<or> \<not> ValidUsername (LR_Username i) then (db, Inr None)
        else case Is_TenantBySlug (bw_is ev) (LR_Tenant i) of
          Inr (Some tenant) \<Rightarrow>
            (case Sg_RealmByCode (Bw_sign ev) (Tn_ID tenant) realmCode of
               Inr (Some realm) \<Rightarrow>
                 if \<not> AllowsFactor realm email_factor then (db, Inr None)
                 else (case IdentityForLogin (Sg_lower (Bw_sign ev)) (bw_db ev) (Tn_ID tenant) (Rm_ID realm) (LR_Username i) db of
                   Inl e \<Rightarrow> (db, Inr None)
                 | Inr identity \<Rightarrow>
                     (case CanAuthenticate identity of
                        Inl e \<Rightarrow> (link_emit ev (Tn_ID tenant) (Id_ID identity) ''deny'' (refusal_code e) db, Inr None)
                      | Inr _ \<Rightarrow>
                          if Id_Email identity = [] then (link_emit ev (Tn_ID tenant) (Id_ID identity) ''deny'' ''no_email'' db, Inr None)
                          else (case secret_New (bw_is ev) 35 32 of None \<Rightarrow> (db, Inl ErrInternal) | Some token \<Rightarrow>
                            case CreateOneTime (bw_db ev) (Tn_ID tenant) ''email_login'' (Is_hash (bw_is ev) token)
                                   (Bw_link_Marshal ev \<lparr>LK_IdentityID = Id_ID identity, LK_TenantID = Tn_ID tenant, LK_RealmID = Rm_ID realm, LK_Flow = LR_Flow i\<rparr>)
                                   (Is_clock (bw_is ev) + LinkTTL) db of
                              Inl e \<Rightarrow> (db, Inl ErrInternal)
                            | Inr (_, db1) \<Rightarrow> (link_emit ev (Tn_ID tenant) (Id_ID identity) ''allow'' ''link_requested'' db1,
                                Inr (Some \<lparr>OM_To = Id_Email identity, OM_TenantID = Tn_ID tenant, OM_IdentityID = Id_ID identity,
                                  OM_Username = Id_Username identity, OM_Token = token\<rparr>)))))
             | _ \<Rightarrow> (db, Inr None))
        | _ \<Rightarrow> (db, Inr None))"

definition Link_deliver :: "BrowserEnv \<Rightarrow> bool \<Rightarrow> OutboundMail \<Rightarrow> SignDB \<Rightarrow> SignDB" where
  "Link_deliver ev sent m db =
     (if \<not> sent then link_emit ev (OM_TenantID m) (OM_IdentityID m) ''deny'' ''delivery_failed'' db
      else link_emit ev (OM_TenantID m) (OM_IdentityID m) ''allow'' ''link_sent'' db)"

definition Link_Complete :: "BrowserEnv \<Rightarrow> string \<Rightarrow> SignDB \<Rightarrow> SignDB \<times> LinkCompleted result" where
  "Link_Complete ev token db =
     (if token = [] \<or> length token > 128 then (db, Inl ErrTokenInvalid)
      else case ConsumeOneTime (bw_db ev) ''email_login'' (Is_hash (bw_is ev) token) db of Inl e \<Rightarrow> (db, Inl ErrTokenInvalid) | Inr ((tenantID, raw), db1) \<Rightarrow>
      case Bw_link_Unmarshal ev raw of None \<Rightarrow> (db1, Inl ErrTokenInvalid) | Some p \<Rightarrow>
      if LK_IdentityID p = [] \<or> LK_TenantID p \<noteq> tenantID then (db1, Inl ErrTokenInvalid)
      else case IdentityByID (bw_db ev) tenantID (LK_IdentityID p) db1 of Inl e \<Rightarrow> (db1, Inl ErrTokenInvalid) | Inr identity \<Rightarrow>
      case CanAuthenticate identity of Inl e \<Rightarrow> (link_emit ev tenantID (Id_ID identity) ''deny'' (refusal_code e) db1, Inl ErrTokenInvalid) | Inr _ \<Rightarrow>
      case Is_RealmByID (bw_is ev) (LK_RealmID p) of
        Inr (Some realm) \<Rightarrow>
          if \<not> AllowsFactor realm email_factor then (link_emit ev tenantID (Id_ID identity) ''deny'' ''factor_not_allowed'' db1, Inl ErrTokenInvalid)
          else (case Is_TenantByID (bw_is ev) tenantID of Inl e \<Rightarrow> (db1, Inl ErrTokenInvalid)
            | Inr tenant \<Rightarrow> (db1, Inr \<lparr>LC_Tenant = tenant, LC_Realm = realm, LC_Identity = identity, LC_Flow = LK_Flow p\<rparr>))
      | _ \<Rightarrow> (link_emit ev tenantID (Id_ID identity) ''deny'' ''factor_not_allowed'' db1, Inl ErrTokenInvalid))"

definition flow_keys :: "string list" where
  "flow_keys = [''client_id'', ''redirect_uri'', ''state'', ''code_challenge'', ''code_challenge_method'', ''nonce'']"

definition EmailLinkRequest :: "BrowserEnv \<Rightarrow> HttpReq \<Rightarrow> SignDB \<Rightarrow> OutboundMail option \<times> browser_answer" where
  "EmailLinkRequest ev r db =
     (if \<not> Rq_formOK r then (None, db, [], WriteError ErrInvalidArgument)
      else
        let tenantSlug = PostFormValue r ''tenant'';
            realmCode = (if PostFormValue r ''realm'' = [] then ''internal'' else PostFormValue r ''realm'');
            flow = map (\<lambda>k. (k, PostFormValue r k)) (filter (\<lambda>k. PostFormValue r k \<noteq> []) flow_keys) in
        if \<not> checkLoginCSRF ev r (PostFormValue r ''csrf'') then (None, start_over ev r tenantSlug realmCode ''That form expired. Please try again.'' db)
        else if Bw_limited ev then (None, db, [], WriteError ErrRateLimited)
        else case Link_Request ev \<lparr>LR_Tenant = tenantSlug, LR_Realm = realmCode, LR_Username = PostFormValue r ''username'', LR_Flow = flow\<rparr> db of
          (db1, Inl e) \<Rightarrow> (None, db1, [], UnavailablePage)
        | (db1, Inr m) \<Rightarrow> (m, db1, [], SentPage))"

definition renderEmailLinkConfirm :: "BrowserEnv \<Rightarrow> HttpReq \<Rightarrow> string \<Rightarrow> string \<Rightarrow> SetCookie list \<times> http_resp" where
  "renderEmailLinkConfirm ev r tenantSlug token =
     (if token = [] \<or> length token > 128 then ([], ExpiredPage)
      else case secret_New (bw_is ev) 32 16 of None \<Rightarrow> ([], WriteError ErrInternal) | Some csrf \<Rightarrow>
        ([cookie_set (Bw_prod ev) r loginCSRFBase csrf (go_quot loginCSRFTTL Second)], LinkPage token csrf))"

definition EmailLinkOpen :: "BrowserEnv \<Rightarrow> HttpReq \<Rightarrow> SignDB \<Rightarrow> browser_answer" where
  "EmailLinkOpen ev r db = (db, renderEmailLinkConfirm ev r (Query_Get r ''tenant'') (Query_Get r ''token''))"

text \<open>The form as \<open>EmailLinkConfirm\<close> leaves it for the steps that read it.\<close>

definition flow_form :: "HttpReq \<Rightarrow> LinkCompleted \<Rightarrow> HttpReq" where
  "flow_form r c = r\<lparr>Rq_form := fold (\<lambda>(k, v) m. map_put k v m) (LC_Flow c)
     (map_put ''realm'' (Rm_Code (LC_Realm c)) (map_put ''tenant'' (Tn_Slug (LC_Tenant c)) (Rq_form r)))\<rparr>"

definition EmailLinkConfirm :: "BrowserEnv \<Rightarrow> HttpReq \<Rightarrow> SignDB \<Rightarrow> browser_answer" where
  "EmailLinkConfirm ev r db =
     (if \<not> Rq_formOK r then (db, [], WriteError ErrInvalidArgument)
      else if \<not> checkLoginCSRF ev r (PostFormValue r ''csrf'') then
        (db, renderEmailLinkConfirm ev r (PostFormValue r ''tenant'') (PostFormValue r ''token''))
      else case Link_Complete ev (PostFormValue r ''token'') db of
        (db1, Inl e) \<Rightarrow> (db1, [], ExpiredPage)
      | (db1, Inr c) \<Rightarrow>
          let r1 = flow_form r c; tenantSlug = Tn_Slug (LC_Tenant c); realmCode = Rm_Code (LC_Realm c) in
          (case FactorPolicy (Bw_sign ev) (LC_Tenant c) (LC_Realm c) (LC_Identity c) SurfaceBrowser db1 of
             (db2, d) \<Rightarrow>
               if LD_Step d = StepAllow \<and> \<not> LD_Due d \<and> nstr (map_of (LC_Flow c) ''client_id'') = [] then
                 (case openBrowserSession ev r1 (LC_Tenant c) (LC_Realm c) (LC_Identity c) [email_factor] email_factor db2 of
                    (db3, cs, None) \<Rightarrow> (db3, cs, WriteError ErrInternal)
                  | (db3, cs, Some sid) \<Rightarrow> (db3, cs, SeeOther tenantSlug realmCode))
               else after_decision ev r1 tenantSlug realmCode email_factor email_factor
                 ''Sign-in is temporarily unavailable. Please try again.'' d db2))"

end
