(* ===== verification/Browser_Runs.thy ===== *)
theory Browser_Runs
  imports Browser_Flow Challenge_Safety
begin

text \<open>
  Runs of the browser's endpoints: requests in any order, under any clock and random source, interleaved with whatever the rest
  of the service does to the tables. What each handler may write to the sessions and the one-time rows, and the invariant of
  those rows, as an instance of \<open>machine\<close>.
\<close>

section \<open>Requests and runs\<close>

datatype BrowserCall =
    GetAuthorize HttpReq
  | PostLogin HttpReq
  | PostToken HttpReq
  | PostLinkRequest HttpReq
  | GetLinkOpen HttpReq
  | PostLinkConfirm HttpReq

fun serve :: "BrowserEnv \<Rightarrow> BrowserCall \<Rightarrow> SignDB \<Rightarrow> browser_answer" where
  "serve ev (GetAuthorize r) db = AuthorizeEndpoint ev r db"
| "serve ev (PostLogin r) db = LoginForm ev r db"
| "serve ev (PostToken r) db = TokenEndpoint ev r db"
| "serve ev (PostLinkRequest r) db = snd (EmailLinkRequest ev r db)"
| "serve ev (GetLinkOpen r) db = EmailLinkOpen ev r db"
| "serve ev (PostLinkConfirm r) db = EmailLinkConfirm ev r db"

text \<open>A run remembers what it served, in which state. \<open>Elsewhere\<close> is any other part of the service at work.\<close>

type_synonym browser_log = "(BrowserEnv \<times> BrowserCall \<times> SignDB) list"

datatype browser_act = Serve BrowserEnv BrowserCall | Elsewhere "SignDB \<Rightarrow> SignDB"

fun browse :: "SignDB \<times> browser_log \<Rightarrow> browser_act \<Rightarrow> SignDB \<times> browser_log" where
  "browse (db, L) (Serve ev c) = (fst (serve ev c db), L @ [(ev, c, db)])"
| "browse (db, L) (Elsewhere f) = (f db, L)"

text \<open>Who a session belongs to, and how it was opened.\<close>

definition session_owner :: "SessionRow \<Rightarrow> string \<times> string \<times> string" where
  "session_owner s = (SS_id s, SS_identity_id s, SS_tenant_id s)"

definition session_key :: "SessionRow \<Rightarrow> string \<times> string \<times> string \<times> string list" where
  "session_key s = (SS_id s, SS_identity_id s, SS_tenant_id s, SS_amr s)"

definition owners_grow :: "SignDB \<Rightarrow> SignDB \<Rightarrow> bool" where
  "owners_grow db db' \<longleftrightarrow> (\<exists>new. map session_owner (AB_sessions (SD_auth db')) = map session_owner (AB_sessions (SD_auth db)) @ new) \<and>
     (distinct (map SS_id (AB_sessions (SD_auth db))) \<longrightarrow> distinct (map SS_id (AB_sessions (SD_auth db'))))"

text \<open>The rest of the service opens and ends sessions but never reassigns one, and writes no row of the browser's kinds.\<close>

definition browser_kinds :: "string set" where
  "browser_kinds = {''auth_code'', ''browser_mfa'', ''email_login''}"

definition elsewhere :: "SignDB \<Rightarrow> SignDB \<Rightarrow> bool" where
  "elsewhere db db' \<longleftrightarrow> owners_grow db db' \<and> (\<forall>x\<in>set (SD_onetime db'). x \<in> set (SD_onetime db) \<or> OT_kind x \<notin> browser_kinds)"

text \<open>The installation: one hash and one codec for each payload, which reads back what it wrote; clock, random source,
  database answers and registrations move.\<close>

definition same_browser :: "BrowserEnv \<Rightarrow> BrowserEnv \<Rightarrow> bool" where
  "same_browser ev0 ev \<longleftrightarrow> Is_hash (bw_is ev) = Is_hash (bw_is ev0) \<and>
     Bw_code_Marshal ev = Bw_code_Marshal ev0 \<and> Bw_code_Unmarshal ev = Bw_code_Unmarshal ev0 \<and>
     Bw_factor_Marshal ev = Bw_factor_Marshal ev0 \<and> Bw_factor_Unmarshal ev = Bw_factor_Unmarshal ev0 \<and>
     Bw_link_Marshal ev = Bw_link_Marshal ev0 \<and> Bw_link_Unmarshal ev = Bw_link_Unmarshal ev0"

definition browser_codecs :: "BrowserEnv \<Rightarrow> bool" where
  "browser_codecs ev \<longleftrightarrow>
     (\<forall>p. Bw_code_Marshal ev p \<noteq> [] \<and> Bw_code_Unmarshal ev (Bw_code_Marshal ev p) = Some p) \<and>
     (\<forall>who primary. Bw_factor_Marshal ev who primary \<noteq> [] \<and> Bw_factor_Unmarshal ev (Bw_factor_Marshal ev who primary) = Some (who, primary)) \<and>
     (\<forall>p. Bw_link_Marshal ev p \<noteq> [] \<and> (\<exists>q. Bw_link_Unmarshal ev (Bw_link_Marshal ev p) = Some q \<and> LK_IdentityID q = LK_IdentityID p))"

text \<open>A tenant looked up by its id has that id.\<close>

definition tenants_named :: "BrowserEnv \<Rightarrow> bool" where
  "tenants_named ev \<longleftrightarrow> (\<forall>t tn. Is_TenantByID (bw_is ev) t = Inr tn \<longrightarrow> Tn_ID tn = t)"

fun browser_act_ok :: "BrowserEnv \<Rightarrow> browser_act \<Rightarrow> bool" where
  "browser_act_ok ev0 (Serve ev c) \<longleftrightarrow> browser_codecs ev0 \<and> same_browser ev0 ev \<and> tenants_named ev"
| "browser_act_ok ev0 (Elsewhere f) \<longleftrightarrow> (\<forall>db. elsewhere db (f db))"

section \<open>What a request may write\<close>

text \<open>The sessions a step opens satisfy \<open>S\<close>, the one-time rows it writes satisfy \<open>R\<close>, and no session is reassigned.\<close>

definition moves :: "(string \<times> string \<times> string \<times> string list \<Rightarrow> bool) \<Rightarrow> (OneTimeRow \<Rightarrow> bool) \<Rightarrow> SignDB \<Rightarrow> SignDB \<Rightarrow> bool" where
  "moves S R db db' \<longleftrightarrow>
     (\<exists>new. map session_key (AB_sessions (SD_auth db')) = map session_key (AB_sessions (SD_auth db)) @ new \<and> (\<forall>k\<in>set new. S k)) \<and>
     (distinct (map SS_id (AB_sessions (SD_auth db))) \<longrightarrow> distinct (map SS_id (AB_sessions (SD_auth db')))) \<and>
     (\<forall>x\<in>set (SD_onetime db'). x \<in> set (SD_onetime db) \<or> R x)"

lemma moves_refl [simp]: "moves S R db db"
  by (simp add: moves_def)

lemma moves_trans [trans]: "moves S R db db1 \<Longrightarrow> moves S R db1 db2 \<Longrightarrow> moves S R db db2"
  unfolding moves_def by (elim exE conjE) (simp, blast)

lemma moves_mono: "moves S R db db' \<Longrightarrow> (\<And>k. S k \<Longrightarrow> S' k) \<Longrightarrow> (\<And>x. R x \<Longrightarrow> R' x) \<Longrightarrow> moves S' R' db db'"
  unfolding moves_def by blast

lemma map_key_owner: "map session_key xs = map session_key ys @ new \<Longrightarrow>
  map session_owner xs = map session_owner ys @ map (\<lambda>(i, w, t, a). (i, w, t)) new"
proof -
  assume "map session_key xs = map session_key ys @ new"
  then have "map (\<lambda>(i, w, t, a). (i, w, t)) (map session_key xs) = map (\<lambda>(i, w, t, a). (i, w, t)) (map session_key ys @ new)" by simp
  then show ?thesis by (simp add: session_key_def session_owner_def [abs_def] o_def)
qed

lemma moves_owners: "moves S R db db' \<Longrightarrow> owners_grow db db'"
  unfolding moves_def owners_grow_def by (blast dest: map_key_owner)

text \<open>A step that leaves the columns \<open>session_key\<close> and the one-time rows alone is no move at all.\<close>

lemma moves_same:
  "map session_key (AB_sessions (SD_auth db')) = map session_key (AB_sessions (SD_auth db)) \<Longrightarrow> set (SD_onetime db') \<subseteq> set (SD_onetime db) \<Longrightarrow>
     moves S R db db'"
proof -
  assume k: "map session_key (AB_sessions (SD_auth db')) = map session_key (AB_sessions (SD_auth db))"
    and o: "set (SD_onetime db') \<subseteq> set (SD_onetime db)"
  from k have "map fst (map session_key (AB_sessions (SD_auth db'))) = map fst (map session_key (AB_sessions (SD_auth db)))" by simp
  then have "map SS_id (AB_sessions (SD_auth db')) = map SS_id (AB_sessions (SD_auth db))" by (simp add: session_key_def o_def)
  with k o show ?thesis by (auto simp: moves_def)
qed

lemma keys_updates:
  "(\<And>s. session_key (f s) = session_key s) \<Longrightarrow> map session_key (AB_sessions (update_sessions P f A)) = map session_key (AB_sessions A)"
  "map session_key (AB_sessions (end_where now reason P A)) = map session_key (AB_sessions A)"
  "AB_sessions (revoke_where now Q A) = AB_sessions A" "AB_sessions (Emit e A) = AB_sessions A"
  by (simp_all add: update_sessions_def end_where_def revoke_where_def Emit_def end_session_def session_key_def)

lemma keys_Issue: "Issue ev i A = Inr (pair, A') \<Longrightarrow> AB_sessions A' = AB_sessions A"
proof (elim Issue_Inr)
  fix t i' assume "if II_AccessOnly i then A' = A else issue_refresh ev i' t A = Inr (TP_RefreshToken pair, A')"
  then show ?thesis
    by (auto simp: issue_refresh_def Let_def and_then_Inr link_successor_def SetRefreshSuccessor_def CreateRefresh_def run_stmt_Inr
        split: if_splits option.splits)
qed

lemma keys_stmts:
  "RevokeRefreshFamily ev f A = Inr A' \<Longrightarrow> AB_sessions A' = AB_sessions A"
  "RevokeRefreshBySessions ev ids A = Inr A' \<Longrightarrow> AB_sessions A' = AB_sessions A"
  "RevokeSession ev t s reason A = Inr (rs, A') \<Longrightarrow> map session_key (AB_sessions A') = map session_key (AB_sessions A)"
  "ClaimRefresh ev h A = Inr (c, A') \<Longrightarrow> AB_sessions A' = AB_sessions A"
  "map session_key (AB_sessions (TouchSession ev sid A)) = map session_key (AB_sessions A)"
  "SetSessionCookieHash ev sid h A = Inr A' \<Longrightarrow> map session_key (AB_sessions A') = map session_key (AB_sessions A)"
  by (auto simp: RevokeRefreshFamily_def RevokeRefreshBySessions_def RevokeSession_def ClaimRefresh_def TouchSession_def SetSessionCookieHash_def
      keys_updates run_stmt_Inr session_key_def split: if_splits option.splits)

lemma keys_rotate: "rotate_tx ev h A = Inr (pair, A') \<Longrightarrow> map session_key (AB_sessions A') = map session_key (AB_sessions A)"
  by (auto simp: rotate_tx_def keys_stmts(5) dest!: keys_stmts(4) keys_Issue split: sum.splits)

lemma keys_contain: "contain ev info A = (b, A') \<Longrightarrow> map session_key (AB_sessions A') = map session_key (AB_sessions A)"
  by (auto simp: contain_def dest!: keys_stmts(1-3) split: sum.splits)

lemma keys_Refresh: "map session_key (AB_sessions (fst (Refresh_Execute ev token A))) = map session_key (AB_sessions A)"
proof (cases rule: WithinTx_cases [of "Is_db ev" "rotate_tx ev (Is_hash ev (TrimSpace token))" "RefreshErr ErrInternal" A])
  case (rolled e)
  have "map session_key (AB_sessions (fst (respondToFailedClaim ev h A))) = map session_key (AB_sessions A)" for h
    by (auto simp: respondToFailedClaim_def keys_updates(4) dest: keys_contain split: sum.splits option.splits prod.splits)
  with rolled show ?thesis
    by (auto simp: Refresh_Execute_def Let_def dest: keys_stmts(1) split: refresh_err.split sum.split prod.split) (metis fst_conv)+
next
  case (committed pair A')
  with keys_rotate [OF committed(1)] show ?thesis by (simp add: Refresh_Execute_def Let_def)
qed

section \<open>What a row and a session stand for\<close>

text \<open>At some moment the run served a request, the address was registered with the client.\<close>

definition registered :: "browser_log \<Rightarrow> string \<Rightarrow> string \<Rightarrow> string \<Rightarrow> bool" where
  "registered L t client uri \<longleftrightarrow> (\<exists>(ev, c, db)\<in>set L. \<exists>app. Is_ApplicationBySlug (bw_is ev) t client = Inr app \<and> uri \<in> set (Ap_RedirectURIs app))"

text \<open>The link whose token hashes to \<open>h\<close> was mailed to the address on file of the person \<open>who\<close>.\<close>

definition mailed :: "browser_log \<Rightarrow> string \<Rightarrow> string \<Rightarrow> bool" where
  "mailed L h who \<longleftrightarrow> (\<exists>(ev, c, db)\<in>set L. \<exists>r m. c = PostLinkRequest r \<and> fst (EmailLinkRequest ev r db) = Some m \<and>
     Is_hash (bw_is ev) (OM_Token m) = h \<and> OM_IdentityID m = who \<and>
     (\<exists>a\<in>set (AB_identities (SD_auth db)). ID_id a = who \<and> ID_email a = Some (OM_To m)))"

definition form_login :: "HttpReq \<Rightarrow> LoginInput" where
  "form_login r = \<lparr>LI_Tenant = PostFormValue r ''tenant'',
     LI_Realm = (if PostFormValue r ''realm'' = [] then ''internal'' else PostFormValue r ''realm''),
     LI_Username = PostFormValue r ''username'', LI_Password = PostFormValue r ''password'', LI_ClientID = PostFormValue r ''client_id'', LI_DeviceFP = []\<rparr>"

text \<open>A first factor of \<open>who\<close>, a member of the population \<open>rl\<close>: the password was proved, or a link mailed to them came back.\<close>

fun first_factor :: "browser_log \<Rightarrow> BrowserEnv \<times> BrowserCall \<times> SignDB \<Rightarrow> string \<Rightarrow> string \<Rightarrow> Realm \<Rightarrow> bool" where
  "first_factor L (ev, PostLogin r, db) who primary rl \<longleftrightarrow> primary = primaryPassword \<and>
     (\<exists>tn a row. password_proven (Bw_sign ev) (form_login r) db tn rl a row \<and> ID_id a = who)"
| "first_factor L (ev, PostLinkConfirm r, db) who primary rl \<longleftrightarrow> primary = email_factor \<and>
     mailed L (Is_hash (bw_is ev) (PostFormValue r ''token'')) who \<and> AllowsFactor rl email_factor \<and>
     (\<exists>x\<in>set (SD_onetime db). redeemable (Db_now (bw_db ev)) ''email_login'' (Is_hash (bw_is ev) (PostFormValue r ''token'')) x \<and>
       (\<exists>p. Bw_link_Unmarshal ev (OT_payload x) = Some p \<and> LK_IdentityID p = who \<and> Is_RealmByID (bw_is ev) (LK_RealmID p) = Inr (Some rl)))"
| "first_factor L e who primary rl \<longleftrightarrow> False"

definition proved :: "browser_log \<Rightarrow> string \<Rightarrow> string \<Rightarrow> bool" where
  "proved L who primary \<longleftrightarrow> (\<exists>e\<in>set L. \<exists>rl. first_factor L e who primary rl)"

definition code_row :: "BrowserEnv \<Rightarrow> browser_log \<Rightarrow> SignDB \<Rightarrow> OneTimeRow \<Rightarrow> authCodePayload \<Rightarrow> bool" where
  "code_row ev0 L db x p \<longleftrightarrow> OT_payload x = Bw_code_Marshal ev0 p \<and> AC_TenantID p = OT_tenant_id x \<and>
     registered L (AC_TenantID p) (AC_ClientID p) (AC_RedirectURI p) \<and>
     (AC_SessionID p, AC_IdentityID p, AC_TenantID p) \<in> session_owner ` set (AB_sessions (SD_auth db))"

definition row_ok :: "BrowserEnv \<Rightarrow> browser_log \<Rightarrow> SignDB \<Rightarrow> OneTimeRow \<Rightarrow> bool" where
  "row_ok ev0 L db x \<longleftrightarrow>
     (OT_kind x = ''auth_code'' \<longrightarrow> (\<exists>p. code_row ev0 L db x p)) \<and>
     (OT_kind x = ''browser_mfa'' \<longrightarrow> (\<exists>who primary. OT_payload x = Bw_factor_Marshal ev0 who primary \<and> proved L who primary)) \<and>
     (OT_kind x = ''email_login'' \<longrightarrow> (\<exists>p. OT_payload x = Bw_link_Marshal ev0 p \<and> mailed L (OT_token_hash x) (LK_IdentityID p)))"

definition browser_inv :: "BrowserEnv \<Rightarrow> SignDB \<times> browser_log \<Rightarrow> bool" where
  "browser_inv ev0 st \<longleftrightarrow> distinct (map SS_id (AB_sessions (SD_auth (fst st)))) \<and> (\<forall>x\<in>set (SD_onetime (fst st)). row_ok ev0 (snd st) (fst st) x)"

text \<open>A code of the person's authenticator, not used before.\<close>

definition totp_accepted :: "BrowserEnv \<Rightarrow> string \<Rightarrow> string \<Rightarrow> SignDB \<Rightarrow> bool" where
  "totp_accepted ev who code db \<longleftrightarrow>
     (\<exists>c\<in>set (SD_creds db). CR_identity_id c = who \<and> CR_kind c = ''totp'' \<and> unexpired_cred (Db_now (bw_db ev)) c \<and>
       (\<exists>sealed shared b step. std_DecodeString (nstr (CR_secret c)) = Some sealed \<and>
          OpenNamedSecret (Sg_aead (Bw_sign ev)) (Is_ring (bw_is ev)) (nstr (CR_secret_kid c)) (''totp:'' @ CR_id c) sealed = Inr (shared, b) \<and>
          totp_Verify (Sg_mac (Bw_sign ev)) shared code (Is_clock (bw_is ev)) DefaultStep DefaultDigits 1 = Some (step, True) \<and>
          (\<exists>c'\<in>set (SD_creds db). CR_id c' = CR_id c \<and> last_step c' < sint step)))"

text \<open>What a request must have proved to open a session: a first factor where no second one stands and none is demanded by now, or
  the second factor of somebody who proved the first earlier in the run; either way of a live account.\<close>

definition session_earned :: "browser_log \<Rightarrow> BrowserEnv \<times> BrowserCall \<times> SignDB \<Rightarrow> string \<times> string \<times> string \<times> string list \<Rightarrow> bool" where
  "session_earned L e k = (case (e, k) of ((ev, c, db), (sid, who, t, amr)) \<Rightarrow>
     (\<exists>a\<in>set (AB_identities (SD_auth db)). ID_id a = who \<and> ID_tenant_id a = t \<and> account_active a) \<and>
     ((\<exists>primary rl. amr = [primary] \<and> first_factor L e who primary rl \<and> no_second_factor (Bw_sign ev) rl who db \<and>
         enrolment_open rl (Is_clock (bw_is ev))) \<or>
      (\<exists>primary r. amr = [primary, AMROTP] \<and> proved L who primary \<and> c = PostLogin r \<and> totp_accepted ev who (PostFormValue r ''code'') db)))"

lemma mailed_mono: "mailed L h who \<Longrightarrow> set L \<subseteq> set L' \<Longrightarrow> mailed L' h who"
  unfolding mailed_def by blast

lemma first_factor_mono: "first_factor L e who primary rl \<Longrightarrow> set L \<subseteq> set L' \<Longrightarrow> first_factor L' e who primary rl"
  by (induction L e who primary rl rule: first_factor.induct) (auto intro: mailed_mono)

lemma proved_mono: "proved L who primary \<Longrightarrow> set L \<subseteq> set L' \<Longrightarrow> proved L' who primary"
  unfolding proved_def by (meson first_factor_mono subsetD)

lemma owners_mono: "owners_grow db db' \<Longrightarrow> k \<in> session_owner ` set (AB_sessions (SD_auth db)) \<Longrightarrow> k \<in> session_owner ` set (AB_sessions (SD_auth db'))"
  unfolding owners_grow_def by (metis Un_iff image_set set_append)

lemma row_ok_mono:
  assumes "row_ok ev0 L db x" "set L \<subseteq> set L'" "owners_grow db db'"
  shows "row_ok ev0 L' db' x"
proof -
  have "registered L t c u \<Longrightarrow> registered L' t c u" for t c u using assms(2) unfolding registered_def by blast
  then have "code_row ev0 L db x p \<Longrightarrow> code_row ev0 L' db' x p" for p
    using owners_mono [OF assms(3)] unfolding code_row_def by blast
  with assms(1) mailed_mono [OF _ assms(2)] proved_mono [OF _ assms(2)] show ?thesis unfolding row_ok_def by meson
qed

section \<open>Each handler writes what its request earned\<close>

text \<open>A row as a step may write it; a code's hash is one of \<open>H\<close>.\<close>

definition row_new :: "BrowserEnv \<Rightarrow> browser_log \<Rightarrow> string set \<Rightarrow> SignDB \<Rightarrow> OneTimeRow \<Rightarrow> bool" where
  "row_new ev0 L H db x \<longleftrightarrow> row_ok ev0 L db x \<and> (OT_kind x = ''auth_code'' \<longrightarrow> OT_token_hash x \<in> H)"

text \<open>The hashes of the codes a request may draw.\<close>

definition draws :: "BrowserEnv \<Rightarrow> string set" where
  "draws ev = {Is_hash (bw_is ev) code | code. secret_New (bw_is ev) 30 32 = Some code}"

definition writes :: "BrowserEnv \<Rightarrow> browser_log \<Rightarrow> (string \<times> string \<times> string \<times> string list \<Rightarrow> bool) \<Rightarrow> string set \<Rightarrow>
    SignDB \<Rightarrow> SignDB \<Rightarrow> bool" where
  "writes ev0 L S H db db' \<longleftrightarrow> moves S (row_new ev0 L H db') db db'"

lemma writes_refl [simp]: "writes ev0 L S H db db"
  by (simp add: writes_def)

lemma writes_trans [trans]:
  assumes "writes ev0 L S H db db1" "writes ev0 L S H db1 db2"
  shows "writes ev0 L S H db db2"
proof -
  from assms(2) have g: "owners_grow db1 db2" by (auto simp: writes_def dest: moves_owners)
  have "moves S (row_new ev0 L H db2) db db1"
    using assms(1) row_ok_mono [OF _ subset_refl g] unfolding writes_def row_new_def by (blast intro: moves_mono)
  with assms(2) show ?thesis unfolding writes_def by (rule moves_trans [rotated])
qed

lemma writes_same:
  "map session_key (AB_sessions (SD_auth db')) = map session_key (AB_sessions (SD_auth db)) \<Longrightarrow> set (SD_onetime db') \<subseteq> set (SD_onetime db) \<Longrightarrow>
     writes ev0 L S H db db'"
  unfolding writes_def by (rule moves_same)

lemma writes_emit [simp]: "writes ev0 L S H db (sign_emit e db)" "writes ev0 L S H db (AuditLogin se t i su re de si db)"
  by (auto intro!: writes_same simp: sign_emit_def AuditLogin_def Emit_def split: option.split)

lemma writes_Consume: "ConsumeOneTime ev kind h db = Inr (x, db') \<Longrightarrow> writes ev0 L S H db db'"
  by (rule writes_same) (auto simp: ConsumeOneTime_def run_stmt_Inr split: option.splits)

lemma writes_Create:
  assumes "CreateOneTime ev t kind h payload e db = Inr (i, db')"
    and "\<And>i. row_new ev0 L H db \<lparr>OT_id = i, OT_tenant_id = t, OT_kind = kind, OT_token_hash = h, OT_payload = OrEmptyJSON payload, OT_expires_at = e\<rparr>"
  shows "writes ev0 L S H db db'"
proof -
  from assms(1) have a: "SD_auth db' = SD_auth db" "SD_onetime db' = SD_onetime db @
      [\<lparr>OT_id = Db_newid ev CreateOneTimeS, OT_tenant_id = t, OT_kind = kind, OT_token_hash = h, OT_payload = OrEmptyJSON payload, OT_expires_at = e\<rparr>]"
    by (auto simp: CreateOneTime_def run_stmt_Inr split: if_splits)
  then have "row_new ev0 L H db' y = row_new ev0 L H db y" for y by (simp add: row_new_def row_ok_def code_row_def)
  with a assms(2) show ?thesis by (simp add: writes_def moves_def)
qed

lemma row_new_other: "OT_kind x \<notin> browser_kinds \<Longrightarrow> row_new ev0 L H db x"
  by (auto simp: row_new_def row_ok_def browser_kinds_def)

lemma Marshal_nonempty:
  assumes "browser_codecs ev0" "same_browser ev0 ev"
  shows "OrEmptyJSON (Bw_code_Marshal ev p) = Bw_code_Marshal ev0 p"
    "OrEmptyJSON (Bw_factor_Marshal ev who primary) = Bw_factor_Marshal ev0 who primary"
    "OrEmptyJSON (Bw_link_Marshal ev q) = Bw_link_Marshal ev0 q"
  using assms by (simp_all add: browser_codecs_def same_browser_def OrEmptyJSON_def)

lemma exactMatch_iff: "exactMatch allow uri \<longleftrightarrow> uri \<noteq> [] \<and> uri \<in> set allow"
  by (auto simp: exactMatch_def list_ex_iff)

lemma writes_issueCode:
  assumes "browser_codecs ev0" "same_browser ev0 ev" "(ev, c, db0) \<in> set L"
    and "(sid, who, Tn_ID tenant) \<in> session_owner ` set (AB_sessions (SD_auth db))"
    and "draws ev \<subseteq> H"
  shows "writes ev0 L S H db (fst (issueCode ev tenant who sid client uri state challenge method nonce db))"
proof (cases "fst (issueCode ev tenant who sid client uri state challenge method nonce db) = db")
  case False
  then obtain app code i db' where app: "Is_ApplicationBySlug (bw_is ev) (Tn_ID tenant) client = Inr app" "uri \<in> set (Ap_RedirectURIs app)"
    and code: "secret_New (bw_is ev) 30 32 = Some code"
    and c: "CreateOneTime (bw_db ev) (Tn_ID tenant) ''auth_code'' (Is_hash (bw_is ev) code)
             (Bw_code_Marshal ev \<lparr>AC_TenantID = Tn_ID tenant, AC_TenantSlug = Tn_Slug tenant, AC_IdentityID = who, AC_SessionID = sid,
                AC_ClientID = client, AC_RedirectURI = uri, AC_CodeChallenge = challenge, AC_CodeChallengeMethod = method, AC_Nonce = nonce\<rparr>)
             (Is_clock (bw_is ev) + authCodeTTL) db = Inr (i, db')"
    and db': "fst (issueCode ev tenant who sid client uri state challenge method nonce db) = db'"
    by (auto simp: issueCode_def exactMatch_iff split: sum.splits if_splits option.splits prod.splits)
  from app assms(3) have "registered L (Tn_ID tenant) client uri" unfolding registered_def by blast
  moreover from code assms(5) have "Is_hash (bw_is ev) code \<in> H" by (auto simp: draws_def)
  ultimately show ?thesis
    using assms(4) unfolding db' by (intro writes_Create [OF c]) (auto simp: row_new_def row_ok_def code_row_def Marshal_nonempty [OF assms(1,2)])
qed simp

lemma writes_open:
  assumes "openBrowserSession ev r tenant realm identity amr detail db = (db', cs, out)"
    and "\<And>sid. S (sid, Id_ID identity, Tn_ID tenant, amr)"
  shows "writes ev0 L S H db db'"
    and "\<And>sid. out = Some sid \<Longrightarrow> (sid, Id_ID identity, Tn_ID tenant) \<in> session_owner ` set (AB_sessions (SD_auth db'))"
proof -
  let ?in = "\<lparr>SN_IdentityID = Id_ID identity, SN_TenantID = Tn_ID tenant, SN_ApplicationID = [], SN_AMR = amr,
             SN_DeviceFP = [], SN_IP = Is_ip (bw_is ev), SN_UserAgent = Is_userAgent (bw_is ev), SN_ActiveScopes = ''{}'',
             SN_ExpiresAt = Is_clock (bw_is ev) + Rm_SessionTTL realm\<rparr>"
  have "writes ev0 L S H db db' \<and> (\<forall>sid. out = Some sid \<longrightarrow> (sid, Id_ID identity, Tn_ID tenant) \<in> session_owner ` set (AB_sessions (SD_auth db')))"
  proof (cases "CreateSession (bw_db ev) ?in (SD_auth db)")
    case (Inl e)
    with assms(1) show ?thesis by (simp add: openBrowserSession_def)
  next
    case (Inr y)
    then obtain sid a1 where y: "CreateSession (bw_db ev) ?in (SD_auth db) = Inr (sid, a1)" by (cases y) auto
    then obtain s where s: "AB_sessions a1 = AB_sessions (SD_auth db) @ [s]" "session_key s = (sid, Id_ID identity, Tn_ID tenant, amr)"
      "sid \<notin> SS_id ` set (AB_sessions (SD_auth db))"
      by (fastforce simp: CreateSession_def run_stmt_Inr session_key_def list_ex_iff split: if_splits)
    from assms(1) y have db': "SD_onetime db' = SD_onetime db" "map session_key (AB_sessions (SD_auth db')) = map session_key (AB_sessions a1)"
      and out: "out = None \<or> out = Some sid"
      by (auto simp: openBrowserSession_def Let_def AuditLogin_def sign_emit_def Emit_def dest!: keys_stmts(6) split: option.splits sum.splits)
    from db'(2) have "map fst (map session_key (AB_sessions (SD_auth db'))) = map fst (map session_key (AB_sessions a1))" by simp
    then have "map SS_id (AB_sessions (SD_auth db')) = map SS_id (AB_sessions (SD_auth db)) @ [sid]"
      using s(1,2) by (simp add: session_key_def o_def)
    then have "distinct (map SS_id (AB_sessions (SD_auth db')))" if "distinct (map SS_id (AB_sessions (SD_auth db)))"
      using that s(3) by simp
    with s db' assms(2) have "writes ev0 L S H db db'" by (simp add: writes_def moves_def)
    moreover have "(sid, Id_ID identity, Tn_ID tenant) \<in> session_owner ` set (AB_sessions (SD_auth db'))"
    proof -
      have "session_key s \<in> set (map session_key (AB_sessions (SD_auth db')))" unfolding db'(2) s(1) by simp
      with s(2) show ?thesis by (auto simp: session_key_def session_owner_def image_iff)
    qed
    ultimately show ?thesis using out by auto
  qed
  then show "writes ev0 L S H db db'"
    "\<And>sid. out = Some sid \<Longrightarrow> (sid, Id_ID identity, Tn_ID tenant) \<in> session_owner ` set (AB_sessions (SD_auth db'))" by blast+
qed

lemma writes_establish:
  assumes "browser_codecs ev0" "same_browser ev0 ev" "(ev, c, db0) \<in> set L" and S: "\<And>sid. S (sid, Id_ID identity, Tn_ID tenant, amr)"
  shows "writes ev0 L S (draws ev) db (fst (establishBrowserSession ev r tenant realm identity amr detail db))"
proof -
  obtain db1 cs out where o: "openBrowserSession ev r tenant realm identity amr detail db = (db1, cs, out)"
    using prod_cases3 by blast
  note w = writes_open(1) [where S = S, OF o S]
  show ?thesis
  proof (cases out)
    case (Some sid)
    from writes_trans [OF w writes_issueCode [OF assms(1-3) writes_open(2) [where S = S, OF o S Some] subset_refl]] Some o
    show ?thesis by (simp add: establishBrowserSession_def split: prod.split) (metis fst_conv)
  qed (use w o in \<open>simp add: establishBrowserSession_def\<close>)
qed

lemma writes_page [simp]: "fst (start_over ev r t rc msg db) = db"
  by (simp add: start_over_def)

lemma writes_promptForFactor:
  assumes "browser_codecs ev0" "same_browser ev0 ev" "proved L (Id_ID identity) primary"
  shows "writes ev0 L S H db (fst (promptForFactor ev r tenant identity realm primary msg db))"
proof -
  have "writes ev0 L S H db db'" if "CreateOneTime (bw_db ev) (Tn_ID tenant) ''browser_mfa'' h (Bw_factor_Marshal ev (Id_ID identity) primary) e db = Inr (i, db')" for h e i db'
    using assms by (intro writes_Create [OF that]) (auto simp: row_new_def row_ok_def Marshal_nonempty)
  then show ?thesis by (auto simp: promptForFactor_def split: option.split sum.split)
qed

lemma writes_BeginTOTP: "BeginTOTP ev ctx g db = Inr (out, db') \<Longrightarrow> writes ev0 L S H db db'"
  by (auto simp: BeginTOTP_def intro!: row_new_other simp: browser_kinds_def elim!: writes_Create split: sum.splits option.splits)

lemma writes_promptForEnrolment: "writes ev0 L S H db (fst (promptForEnrolment ev r ts rc tenant realm identity missing msg cont db))"
proof -
  have "writes ev0 L S H db db'" if "CreateOneTime (bw_db ev) t ''browser_enrol'' h p e db = Inr (i, db')" for t h p e i db db'
    by (intro writes_Create [OF that] row_new_other) (simp add: browser_kinds_def)
  then show ?thesis
    by (auto simp: promptForEnrolment_def dest!: writes_BeginTOTP intro: writes_trans split: sum.split option.split)
qed

lemma writes_Confirm: "writes ev0 L S H db (fst (ConfirmTOTP ev ctx etoken code g db))"
proof -
  have tx: "writes ev0 L S H d (fst (WithinTx dev (confirm_tx ev p state step master) x d))" for dev p state step master x d
    by (cases rule: WithinTx_cases [of dev "confirm_tx ev p state step master" x d]) (auto dest: confirm_tx_frame intro!: writes_same)
  have "writes ev0 L S H d d'" if "WithinTx dev (confirm_tx ev p state step master) x d = (d', y)" for dev p state step master x d d' y
    using tx [of d dev p state step master x] that by simp
  moreover have "writes ev0 L S H d d' \<Longrightarrow> writes ev0 L S H d (sign_emit e d')" for d d' e by (rule writes_trans [OF _ writes_emit(1)])
  ultimately show ?thesis
    by (auto simp: ConfirmTOTP_def dest!: writes_Consume [where ?ev0.0 = ev0 and L = L and S = S and H = H] intro: writes_trans split: sum.split option.split bool.split prod.split)
qed

lemma writes_completeEnrolment: "writes ev0 L S H db (fst (completeEnrolment ev r ts rc token code db))"
proof -
  have e: "writes ev0 L S H d d' \<Longrightarrow> writes ev0 L S H d (sign_emit e d')" for d d' e by (rule writes_trans [OF _ writes_emit(1)])
  have c: "writes ev0 L S H d d'" if "ConfirmTOTP se ctx et code g d = (d', y)" for se ctx et code g d d' y
    using writes_Confirm [of ev0 L S H d se ctx et code g] that by simp
  show ?thesis
    by (auto simp: completeEnrolment_def dest!: writes_Consume [where ?ev0.0 = ev0 and L = L and S = S and H = H] intro: e c writes_trans
        split: sum.split option.split prod.split)
qed

lemma writes_enrolFromSession: "writes ev0 L S H db (fst (enrolFromSession ev r ts rc db))"
  by (auto simp: enrolFromSession_def Let_def writes_promptForEnrolment split: sum.split option.split)

lemma writes_warn:
  assumes "\<And>sid. S (sid, Id_ID identity, Tn_ID tenant, amr)"
  shows "writes ev0 L S H db (fst (warnEnrolmentDue ev r ts rc tenant realm identity d amr detail db))"
  using writes_open(1) [where S = S, OF _ assms]
  by (auto simp: warnEnrolmentDue_def split: prod.split option.split)

lemma writes_after_decision:
  assumes "browser_codecs ev0" "same_browser ev0 ev" "(ev, c, db0) \<in> set L"
    and "\<And>identity. LD_Step d = StepFactor \<Longrightarrow> LD_Identity d = Some identity \<Longrightarrow> proved L (Id_ID identity) primary"
    and "\<And>tenant realm identity sid. LD_Step d = StepAllow \<Longrightarrow> LD_Tenant d = Some tenant \<Longrightarrow> LD_Realm d = Some realm \<Longrightarrow> LD_Identity d = Some identity \<Longrightarrow>
      S (sid, Id_ID identity, Tn_ID tenant, [primary])"
  shows "writes ev0 L S (draws ev) db (fst (after_decision ev r ts rc primary detail denial d db))"
  using assms(4,5) unfolding after_decision_def
  by (auto simp: writes_promptForEnrolment intro!: writes_promptForFactor writes_warn writes_establish assms(1-3)
      split: SignStep.split option.split)

text \<open>Proving a password writes nothing but the hash of a credential.\<close>

lemma FactorPolicy_writes: "FactorPolicy se tn rl ident su db = (db1, d) \<Longrightarrow> writes ev0 L S H db db1"
  by (auto simp: FactorPolicy_def Let_def split: sum.splits prod.splits if_splits)

lemma Authenticate_writes:
  assumes "Authenticate se i su db = (db1, d)"
  shows "writes ev0 L S H db db1"
proof -
  have r: "writes ev0 L S H db (rehash se b tn c pw db)" for b tn c pw by (rule writes_same) (simp_all add: rehash_tables)
  have f: "writes ev0 L S H db d1" if "FactorPolicy se tn rl ident su (rehash se b tn' c pw db) = (d1, x)" for tn rl ident b tn' c pw d1 x
    using r FactorPolicy_writes [OF that] by (rule writes_trans)
  from assms show ?thesis
    by (auto simp: Authenticate_def Let_def dest: f split: if_splits prod.splits sum.splits option.splits bool.splits)
qed

lemma FactorPolicy_names:
  "LD_Tenant (snd (FactorPolicy se tn rl ident su db)) = Some tn" "LD_Realm (snd (FactorPolicy se tn rl ident su db)) = Some rl"
  "LD_Identity (snd (FactorPolicy se tn rl ident su db)) = Some ident"
  by (simp_all add: FactorPolicy_def Let_def split: sum.split prod.split)

text \<open>Past a password there is somebody who proved it.\<close>

lemma Authenticate_past:
  assumes "Authenticate se i su db = (db1, d)" "LD_Step d \<noteq> StepDeny"
  obtains tn rl a row where "password_proven se i db tn rl a row" "LD_Tenant d = Some tn" "LD_Realm d = Some rl" "LD_Identity d = Some (identity_view a)"
proof (cases rule: Authenticate_cases [of se i su db])
  case (refused db1 t r)
  with assms show ?thesis by (auto simp: deny_def)
next
  case (past tn rl a r ident c b)
  with assms have "\<exists>d0. FactorPolicy se tn rl ident su d0 = (db1, d)" by (auto simp: deny_def split: sum.splits if_splits)
  then have "LD_Tenant d = Some tn" "LD_Realm d = Some rl" "LD_Identity d = Some ident"
    using FactorPolicy_names by (metis snd_conv)+
  with past that show ?thesis by blast
qed

lemma Consume_row:
  assumes "ConsumeOneTime ev kind h db = Inr ((t, payload), db')"
  obtains x where "x \<in> set (SD_onetime db)" "redeemable (Db_now ev) kind h x" "OT_tenant_id x = t" "OT_payload x = payload"
    "SD_auth db' = SD_auth db" "SD_creds db' = SD_creds db" "SD_onetime db' = filter (\<lambda>x. \<not> redeemable (Db_now ev) kind h x) (SD_onetime db)"
  using assms by (auto simp: ConsumeOneTime_def run_stmt_Inr dest!: find_SomeD split: option.splits)

lemma first_factor_primary: "first_factor L e who primary rl \<Longrightarrow> primary \<noteq> []"
  by (induction L e who primary rl rule: first_factor.induct) (simp_all add: primaryPassword_def email_factor_def)

lemma proved_primary: "proved L who primary \<Longrightarrow> primary \<noteq> []"
  unfolding proved_def by (blast dest: first_factor_primary)

lemma consumeFactor_proved:
  assumes "browser_codecs ev0" "same_browser ev0 ev" "\<forall>x\<in>set (SD_onetime db). row_ok ev0 L db x"
    and "consumeFactorToken ev token db = (db1, out)"
  shows "writes ev0 L S H db db1" "SD_auth db1 = SD_auth db" "SD_creds db1 = SD_creds db"
    "\<And>who primary. out = Inr (who, primary) \<Longrightarrow> proved L who primary"
proof -
  have "writes ev0 L S H db db1 \<and> SD_auth db1 = SD_auth db \<and> SD_creds db1 = SD_creds db \<and> (\<forall>who primary. out = Inr (who, primary) \<longrightarrow> proved L who primary)"
  proof (cases "ConsumeOneTime (bw_db ev) ''browser_mfa'' (Is_hash (bw_is ev) token) db")
    case (Inr y)
    then obtain t payload db' where c: "ConsumeOneTime (bw_db ev) ''browser_mfa'' (Is_hash (bw_is ev) token) db = Inr ((t, payload), db')" by (cases y) auto
    then obtain x where x: "x \<in> set (SD_onetime db)" "OT_kind x = ''browser_mfa''" "OT_payload x = payload" "SD_auth db' = SD_auth db" "SD_creds db' = SD_creds db"
      by (rule Consume_row) (simp add: redeemable_def)
    with assms(3) obtain w q where w: "payload = Bw_factor_Marshal ev0 w q" "proved L w q" by (auto simp: row_ok_def)
    then have "Bw_factor_Unmarshal ev payload = Some (w, q)" using assms(1,2) by (simp add: browser_codecs_def same_browser_def)
    with assms(4) c w(2) proved_primary [OF w(2)] have "db1 = db'" "\<forall>who primary. out = Inr (who, primary) \<longrightarrow> who = w \<and> primary = q"
      by (auto simp: consumeFactorToken_def split: if_splits)
    with w(2) x writes_Consume [OF c] show ?thesis by blast
  qed (use assms(4) in \<open>auto simp: consumeFactorToken_def\<close>)
  then show "writes ev0 L S H db db1" "SD_auth db1 = SD_auth db" "SD_creds db1 = SD_creds db"
    "\<And>who primary. out = Inr (who, primary) \<Longrightarrow> proved L who primary" by blast+
qed

lemma verifyFactor_frame:
  assumes "verifyFactorCode ev identity code db = Some (b, db')"
  shows "SD_auth db' = SD_auth db" "SD_onetime db' = SD_onetime db" "b \<Longrightarrow> totp_accepted ev (Id_ID identity) code db"
proof -
  have a: "AdvanceCredentialStep dev cid step db = Inr (fresh, d) \<Longrightarrow> SD_auth d = SD_auth db \<and> SD_onetime d = SD_onetime db \<and>
      (fresh \<longrightarrow> (\<exists>c\<in>set (SD_creds db). CR_id c = cid \<and> last_step c < sint step))" for dev cid step fresh d
    by (auto simp: AdvanceCredentialStep_def run_stmt_Inr Let_def update_creds_def list_ex_iff)
  then show "SD_auth db' = SD_auth db" "SD_onetime db' = SD_onetime db"
    using assms by (auto simp: verifyFactorCode_def split: sum.splits option.splits prod.splits bool.splits)
  assume b
  with assms obtain cred sealed shared x step fresh where
    c: "ActiveCredentialOfKind (bw_db ev) (Id_ID identity) ''totp'' db = Inr cred" "std_DecodeString (Cr_Secret cred) = Some sealed"
      "OpenNamedSecret (Sg_aead (Bw_sign ev)) (Is_ring (bw_is ev)) (Cr_SecretKid cred) (''totp:'' @ Cr_ID cred) sealed = Inr (shared, x)"
      "totp_Verify (Sg_mac (Bw_sign ev)) shared code (Is_clock (bw_is ev)) DefaultStep DefaultDigits 1 = Some (step, True)"
    and s: "AdvanceCredentialStep (bw_db ev) (Cr_ID cred) step db = Inr (True, db')"
    by (auto simp: verifyFactorCode_def split: sum.splits option.splits prod.splits bool.splits)
  from c(1) obtain r where r: "r \<in> set (SD_creds db)" "CR_identity_id r = Id_ID identity" "CR_kind r = ''totp''" "unexpired_cred (Db_now (bw_db ev)) r"
      "Cr_ID cred = CR_id r" "Cr_Secret cred = nstr (CR_secret r)" "Cr_SecretKid cred = nstr (CR_secret_kid r)"
    by (auto simp: ActiveCredentialOfKind_def run_stmt_Inr dest!: newest_mem split: option.splits)
  with a [OF s, unfolded r(5)] c(2-4) [unfolded r(5-7)] show "totp_accepted ev (Id_ID identity) code db" unfolding totp_accepted_def by blast
qed

lemma IdentityByID_Inr:
  assumes "IdentityByID dev t who db = Inr identity" "CanAuthenticate identity = Inr u"
  obtains a where "a \<in> set (AB_identities (SD_auth db))" "ID_id a = who" "ID_tenant_id a = t" "account_active a" "identity = identity_view a" "Id_ID identity = who"
proof -
  from assms(1) obtain a where "a \<in> set (AB_identities (SD_auth db))" "is_identity t who a" "identity = identity_view a"
    by (auto simp: IdentityByID_def run_stmt_Inr dest!: find_SomeD split: option.splits)
  moreover from this assms(2) have "account_active a" by (cases u) (auto simp: CanAuthenticate_iff identity_view_def account_active_def)
  ultimately show thesis using that by (auto simp: is_identity_def identity_view_def)
qed

lemma totp_accepted_creds: "SD_creds db' = SD_creds db \<Longrightarrow> totp_accepted ev who code db' = totp_accepted ev who code db"
  by (simp add: totp_accepted_def)

lemma writes_secondFactor:
  assumes "browser_codecs ev0" "same_browser ev0 ev" "\<forall>x\<in>set (SD_onetime db). row_ok ev0 L db x" "(ev, PostLogin r, db) \<in> set L"
    and "code = PostFormValue r ''code''"
  shows "writes ev0 L (session_earned L (ev, PostLogin r, db)) (draws ev) db (fst (completeSecondFactor ev r ts rc token code db))"
proof -
  let ?S = "session_earned L (ev, PostLogin r, db)"
  obtain db1 out where c: "consumeFactorToken ev token db = (db1, out)" by fastforce
  note f = consumeFactor_proved [OF assms(1-3) c]
  note w1 = f(1) [of ?S "draws ev"]
  show ?thesis
  proof (cases "\<exists>tenant realm who primary identity u. Is_TenantBySlug (bw_is ev) ts = Inr (Some tenant) \<and> Sg_RealmByCode (Bw_sign ev) (Tn_ID tenant) rc = Inr (Some realm) \<and>
      out = Inr (who, primary) \<and> IdentityByID (bw_db ev) (Tn_ID tenant) who db1 = Inr identity \<and> CanAuthenticate identity = Inr u")
    case False
    have "writes ev0 L ?S (draws ev) db (AuditLogin se t i su re de si db1)" for se t i su re de si by (rule writes_trans [OF w1 writes_emit(2)])
    with False w1 show ?thesis
      by (auto simp: completeSecondFactor_def c Let_def split: sum.split option.split prod.split)
  next
    case True
    then obtain tenant realm who primary identity u where t: "Is_TenantBySlug (bw_is ev) ts = Inr (Some tenant)"
        "Sg_RealmByCode (Bw_sign ev) (Tn_ID tenant) rc = Inr (Some realm)" "out = Inr (who, primary)"
      and i: "IdentityByID (bw_db ev) (Tn_ID tenant) who db1 = Inr identity" "CanAuthenticate identity = Inr u" by blast
    from i obtain a where a: "a \<in> set (AB_identities (SD_auth db1))" "ID_id a = who" "ID_tenant_id a = Tn_ID tenant" "account_active a" "Id_ID identity = who"
      by (rule IdentityByID_Inr)
    have pr: "proved L (Id_ID identity) primary" using f(4) t(3) a(5) by simp
    note eq = completeSecondFactor_def c t i
    show ?thesis
    proof (cases "verifyFactorCode ev identity code db1")
      case None
      with w1 show ?thesis by (simp add: eq Let_def)
    next
      case (Some y)
      then obtain b db2 where v: "verifyFactorCode ev identity code db1 = Some (b, db2)" by (cases y) auto
      note vf = verifyFactor_frame [OF v]
      have w2: "writes ev0 L ?S (draws ev) db db2" using w1 by (rule writes_trans) (rule writes_same, simp_all add: vf)
      show ?thesis
      proof (cases b)
        case False
        have "writes ev0 L ?S (draws ev) db (sign_emit (factor_event ev tenant identity) db2)" by (rule writes_trans [OF w2 writes_emit(1)])
        then show ?thesis using False v writes_promptForFactor [OF assms(1,2) pr]
          by (simp add: eq Let_def) (blast intro: writes_trans)
      next
        case True
        have "?S (sid, Id_ID identity, Tn_ID tenant, [primary, AMROTP])" for sid
          using a f(2,3) pr vf(3) [OF True] assms(5) unfolding session_earned_def by (auto simp: totp_accepted_creds [OF f(3)])
        then show ?thesis using True v
          by (simp add: eq Let_def) (intro writes_trans [OF w2] writes_establish [OF assms(1,2,4)])
      qed
    qed
  qed
qed

lemma writes_LoginForm:
  assumes "browser_codecs ev0" "same_browser ev0 ev" "\<forall>x\<in>set (SD_onetime db). row_ok ev0 L db x" "(ev, PostLogin r, db) \<in> set L"
  shows "writes ev0 L (session_earned L (ev, PostLogin r, db)) (draws ev) db (fst (LoginForm ev r db))"
proof -
  let ?S = "session_earned L (ev, PostLogin r, db)"
  obtain db1 d where A: "Authenticate (Bw_sign ev) (form_login r) SurfaceBrowser db = (db1, d)" by fastforce
  have factor: "proved L (Id_ID identity) primaryPassword" if "LD_Step d = StepFactor" "LD_Identity d = Some identity" for identity
  proof -
    from that(1) have "LD_Step d \<noteq> StepDeny" by simp
    then obtain tn rl a row where "password_proven (Bw_sign ev) (form_login r) db tn rl a row" "LD_Identity d = Some (identity_view a)"
      by (rule Authenticate_past [OF A])
    moreover from this that(2) have "Id_ID identity = ID_id a" by (simp add: identity_view_def)
    ultimately have "first_factor L (ev, PostLogin r, db) (Id_ID identity) primaryPassword rl" by auto
    with assms(4) show ?thesis unfolding proved_def by blast
  qed
  have allow: "?S (sid, Id_ID identity, Tn_ID tenant, [primaryPassword])"
    if step: "LD_Step d = StepAllow" "LD_Tenant d = Some tenant" "LD_Realm d = Some realm" "LD_Identity d = Some identity" for tenant realm identity sid
  proof -
    obtain tn rl a row where q: "password_proven (Bw_sign ev) (form_login r) db tn rl a row" "account_active a"
      "no_second_factor (Bw_sign ev) rl (ID_id a) db" "enrolment_open rl (Is_clock (bw_is ev))"
      "LD_Tenant d = Some tn" "LD_Realm d = Some rl" "LD_Identity d = Some (identity_view a)"
      by (rule Authenticate_allow [OF A step(1)])
    from q(5-7) step(2-4) have "tn = tenant" "rl = realm" "identity = identity_view a" by simp_all
    note p = q(1-4) [unfolded this(1,2)] this(3)
    then have "a \<in> set (AB_identities (SD_auth db))" "ID_tenant_id a = Tn_ID tenant" by (auto simp: password_proven_def)
    with p show ?thesis by (auto simp: session_earned_def identity_view_def)
  qed
  have "writes ev0 L ?S (draws ev) db (fst (after_decision ev r ts rc primaryPassword detail denial d db1))" for ts rc detail denial
    using Authenticate_writes [OF A] by (rule writes_trans) (rule writes_after_decision [where S = ?S, OF assms(1,2,4) factor allow])
  then show ?thesis
    using A writes_secondFactor [OF assms refl] writes_completeEnrolment writes_enrolFromSession
    by (simp add: LoginForm_def Let_def form_login_def)
qed

lemma CookieHash_Inr:
  assumes "SessionByCookieHash dev h A = Inr view"
  shows "(SV_ID view, SV_IdentityID view, SV_TenantID view) \<in> session_owner ` set (AB_sessions A)"
  using assms by (force simp: SessionByCookieHash_def run_stmt_Inr session_view_def session_owner_def dest!: join_session_Some split: option.splits)

lemma writes_Authorize:
  assumes "browser_codecs ev0" "same_browser ev0 ev" "(ev, c, db0) \<in> set L"
  shows "writes ev0 L S (draws ev) db (fst (AuthorizeEndpoint ev r db))"
proof -
  have "writes ev0 L S (draws ev) db (fst (issueCode ev tenant (SV_IdentityID view) (SV_ID view) client uri st ch me no db))"
    if "SessionByCookieHash (bw_db ev) h (SD_auth db) = Inr view" "SV_TenantID view = Tn_ID tenant" for tenant view client uri st ch me no h
    using CookieHash_Inr [OF that(1)] that(2) by (intro writes_issueCode [OF assms]) simp_all
  then show ?thesis by (auto simp: AuthorizeEndpoint_def Let_def split: sum.split option.split)
qed

lemma writes_Token: "writes ev0 L S H db (fst (TokenEndpoint ev r db))"
proof -
  have "writes ev0 L S H db (fst (tokenRefresh ev r db))"
  proof -
    obtain a x where "Refresh_Execute (bw_is ev) (PostFormValue r ''refresh_token'') (SD_auth db) = (a, x)" by fastforce
    with keys_Refresh [of "bw_is ev" "PostFormValue r ''refresh_token''" "SD_auth db"] show ?thesis
      by (cases x) (auto simp: tokenRefresh_def Let_def intro!: writes_same)
  qed
  moreover have "writes ev0 L S H db (fst (tokenAuthCode ev r db))"
  proof -
    have "writes ev0 L S H d (d\<lparr>SD_auth := a\<rparr>)" if "Issue (bw_is ev) i (SD_auth d) = Inr (pair, a)" for d i pair a
      using keys_Issue [OF that] by (intro writes_same) simp_all
    then show ?thesis
      by (auto simp: tokenAuthCode_def Let_def dest!: writes_Consume [where ?ev0.0 = ev0 and L = L and S = S and H = H] intro: writes_trans
          split: sum.split option.split)
  qed
  ultimately show ?thesis by (simp add: TokenEndpoint_def)
qed

lemma writes_LinkRequest:
  assumes "browser_codecs ev0" "same_browser ev0 ev" "(ev, PostLinkRequest r, db) \<in> set L"
  shows "writes ev0 L S H db (fst (snd (EmailLinkRequest ev r db)))"
proof (cases "fst (EmailLinkRequest ev r db)")
  case None
  have "writes ev0 L S H db d" if "Link_Request ev i db = (d, x)" "x = Inl e \<or> x = Inr None" for i d x e
    using that by (auto simp: Link_Request_def Let_def link_emit_def split: if_splits sum.splits option.splits)
  with None show ?thesis by (auto simp: EmailLinkRequest_def Let_def split: if_splits prod.splits sum.splits)
next
  case (Some m)
  then obtain i db1 where l: "Link_Request ev i db = (db1, Inr (Some m))" and db1: "fst (snd (EmailLinkRequest ev r db)) = db1"
    by (auto simp: EmailLinkRequest_def Let_def split: if_splits prod.splits sum.splits)
  from l obtain token j db2 and tenant :: TenantRef and realm :: Realm and identity :: DomainIdentity where
    i: "IdentityForLogin (Sg_lower (Bw_sign ev)) (bw_db ev) (Tn_ID tenant) (Rm_ID realm) (LR_Username i) db = Inr identity"
    and e: "Id_Email identity \<noteq> []" and m: "OM_To m = Id_Email identity" "OM_IdentityID m = Id_ID identity" "OM_Token m = token"
    and c: "CreateOneTime (bw_db ev) (Tn_ID tenant) ''email_login'' (Is_hash (bw_is ev) token)
        (Bw_link_Marshal ev \<lparr>LK_IdentityID = Id_ID identity, LK_TenantID = Tn_ID tenant, LK_RealmID = Rm_ID realm, LK_Flow = LR_Flow i\<rparr>)
        (Is_clock (bw_is ev) + LinkTTL) db = Inr (j, db2)"
    and d: "db1 = link_emit ev (Tn_ID tenant) (Id_ID identity) ''allow'' ''link_requested'' db2"
    by (auto simp: Link_Request_def Let_def split: if_splits sum.splits option.splits)
  from i obtain a where "a \<in> set (AB_identities (SD_auth db))" "identity = identity_view a" by (elim IdentityForLogin_Inr)
  with e m Some assms(3) have "mailed L (Is_hash (bw_is ev) token) (Id_ID identity)"
    unfolding mailed_def by (force simp: identity_view_def nstr_def split: option.splits)
  then have "writes ev0 L S H db db2" by (intro writes_Create [OF c]) (auto simp: row_new_def row_ok_def Marshal_nonempty [OF assms(1,2)])
  then show ?thesis unfolding db1 d link_emit_def by (rule writes_trans [OF _ writes_emit(1)])
qed

lemma Link_CompleteE:
  assumes "Link_Complete ev token db = (db1, Inr c)"
  obtains x p a where "x \<in> set (SD_onetime db)" "redeemable (Db_now (bw_db ev)) ''email_login'' (Is_hash (bw_is ev) token) x"
    "Bw_link_Unmarshal ev (OT_payload x) = Some p" "Is_RealmByID (bw_is ev) (LK_RealmID p) = Inr (Some (LC_Realm c))" "AllowsFactor (LC_Realm c) email_factor"
    "a \<in> set (AB_identities (SD_auth db))" "ID_id a = LK_IdentityID p" "account_active a" "LC_Identity c = identity_view a" "ID_tenant_id a = OT_tenant_id x"
    "Is_TenantByID (bw_is ev) (OT_tenant_id x) = Inr (LC_Tenant c)" "SD_auth db1 = SD_auth db" "SD_creds db1 = SD_creds db"
proof -
  from assms obtain t raw p identity u where
    c: "ConsumeOneTime (bw_db ev) ''email_login'' (Is_hash (bw_is ev) token) db = Inr ((t, raw), db1)" "Bw_link_Unmarshal ev raw = Some p"
    and i: "IdentityByID (bw_db ev) t (LK_IdentityID p) db1 = Inr identity" "CanAuthenticate identity = Inr u"
    and r: "Is_RealmByID (bw_is ev) (LK_RealmID p) = Inr (Some (LC_Realm c))" "AllowsFactor (LC_Realm c) email_factor"
      "Is_TenantByID (bw_is ev) t = Inr (LC_Tenant c)" "LC_Identity c = identity"
    by (auto simp: Link_Complete_def split: if_splits sum.splits option.splits)
  from c(1) obtain x where x: "x \<in> set (SD_onetime db)" "redeemable (Db_now (bw_db ev)) ''email_login'' (Is_hash (bw_is ev) token) x"
    "OT_tenant_id x = t" "OT_payload x = raw" "SD_auth db1 = SD_auth db" "SD_creds db1 = SD_creds db" by (rule Consume_row)
  from i obtain a where "a \<in> set (AB_identities (SD_auth db1))" "ID_id a = LK_IdentityID p" "ID_tenant_id a = t" "account_active a" "identity = identity_view a"
    by (rule IdentityByID_Inr)
  with x c r that show thesis by auto
qed

lemma Link_Complete_writes: "Link_Complete ev token db = (db1, y) \<Longrightarrow> writes ev0 L S H db db1"
proof -
  have "writes ev0 L S H db (link_emit ev t i re de d)" if "writes ev0 L S H db d" for t i re de d
    using that unfolding link_emit_def by (rule writes_trans [OF _ writes_emit(1)])
  then show "Link_Complete ev token db = (db1, y) \<Longrightarrow> ?thesis"
    by (auto simp: Link_Complete_def dest!: writes_Consume [where ?ev0.0 = ev0 and L = L and S = S and H = H] split: if_splits sum.splits option.splits)
qed

lemma no_second_factor_creds: "SD_creds db' = SD_creds db \<Longrightarrow> no_second_factor se rl who db' = no_second_factor se rl who db"
  by (simp add: no_second_factor_def)

lemma writes_LinkConfirm:
  assumes "browser_codecs ev0" "same_browser ev0 ev" "tenants_named ev" "\<forall>x\<in>set (SD_onetime db). row_ok ev0 L db x" "(ev, PostLinkConfirm r, db) \<in> set L"
  shows "writes ev0 L (session_earned L (ev, PostLinkConfirm r, db)) (draws ev) db (fst (EmailLinkConfirm ev r db))"
proof -
  let ?e = "(ev, PostLinkConfirm r, db)"
  let ?S = "session_earned L ?e"
  obtain db1 y where c: "Link_Complete ev (PostFormValue r ''token'') db = (db1, y)" by fastforce
  note w1 = Link_Complete_writes [OF c, of ev0 L ?S "draws ev"]
  show ?thesis
  proof (cases y)
    case (Inl e)
    with w1 c show ?thesis by (simp add: EmailLinkConfirm_def)
  next
    case (Inr k)
    note c = c [unfolded Inr]
    from c obtain x p a where x: "x \<in> set (SD_onetime db)" "redeemable (Db_now (bw_db ev)) ''email_login'' (Is_hash (bw_is ev) (PostFormValue r ''token'')) x"
        "Bw_link_Unmarshal ev (OT_payload x) = Some p" "Is_RealmByID (bw_is ev) (LK_RealmID p) = Inr (Some (LC_Realm k))" "AllowsFactor (LC_Realm k) email_factor"
      and a: "a \<in> set (AB_identities (SD_auth db))" "ID_id a = LK_IdentityID p" "account_active a" "LC_Identity k = identity_view a" "ID_tenant_id a = OT_tenant_id x"
      and t: "Is_TenantByID (bw_is ev) (OT_tenant_id x) = Inr (LC_Tenant k)" "SD_creds db1 = SD_creds db" by (rule Link_CompleteE)
    from x(1,2) assms(4) obtain q where q: "OT_payload x = Bw_link_Marshal ev0 q" "mailed L (OT_token_hash x) (LK_IdentityID q)"
      by (auto simp: row_ok_def redeemable_def)
    with x(3) assms(1,2) have "LK_IdentityID q = LK_IdentityID p" unfolding browser_codecs_def same_browser_def by (metis option.inject)
    with q(2) x(2) have m: "mailed L (Is_hash (bw_is ev) (PostFormValue r ''token'')) (ID_id a)" by (simp add: redeemable_def a(2))
    have who: "Id_ID (LC_Identity k) = ID_id a" "Tn_ID (LC_Tenant k) = ID_tenant_id a"
      using a(4,5) t(1) assms(3) by (auto simp: identity_view_def tenants_named_def)
    have ff: "first_factor L ?e (Id_ID (LC_Identity k)) email_factor (LC_Realm k)"
      using m x a(2) unfolding who by auto
    then have pr: "proved L (Id_ID (LC_Identity k)) email_factor" using assms(5) unfolding proved_def by blast
    obtain db2 d where F: "FactorPolicy (Bw_sign ev) (LC_Tenant k) (LC_Realm k) (LC_Identity k) SurfaceBrowser db1 = (db2, d)" by fastforce
    note n = FactorPolicy_names [of "Bw_sign ev" "LC_Tenant k" "LC_Realm k" "LC_Identity k" SurfaceBrowser db1, unfolded F snd_conv]
    note w2 = writes_trans [OF w1 FactorPolicy_writes [OF F]]
    have allow: "?S (sid, Id_ID (LC_Identity k), Tn_ID (LC_Tenant k), [email_factor])" if "LD_Step d = StepAllow" for sid
      using FactorPolicy_allow [OF F that] ff a(1,3) who by (auto simp: session_earned_def no_second_factor_creds [OF t(2)])
    have after: "writes ev0 L ?S (draws ev) db (fst (after_decision ev r1 ts rc email_factor de dn d db2))" for r1 ts rc de dn
      using w2 by (rule writes_trans) (use pr n allow in \<open>auto intro!: writes_after_decision [where S = ?S, OF assms(1,2,5)]\<close>)
    have opn: "writes ev0 L ?S (draws ev) db db3" if "LD_Step d = StepAllow"
        "openBrowserSession ev r1 (LC_Tenant k) (LC_Realm k) (LC_Identity k) [email_factor] de db2 = (db3, cs, o')" for r1 de db3 cs o'
      using w2 by (rule writes_trans) (rule writes_open(1) [where S = ?S, OF that(2) allow [OF that(1)]])
    show ?thesis
      using c F w1 after opn by (auto simp: EmailLinkConfirm_def Let_def split: prod.split option.split)
  qed
qed

section \<open>Runs\<close>

lemma serve_writes:
  assumes "browser_act_ok ev0 (Serve ev c)" "\<forall>x\<in>set (SD_onetime db). row_ok ev0 L db x" "(ev, c, db) \<in> set L"
  shows "writes ev0 L (session_earned L (ev, c, db)) (draws ev) db (fst (serve ev c db))"
  using assms by (cases c) (auto simp: EmailLinkOpen_def intro: writes_Authorize writes_LoginForm writes_Token writes_LinkRequest writes_LinkConfirm)

text \<open>A service in which nobody has begun to sign in with a browser.\<close>

definition browser_start :: "SignDB \<times> browser_log \<Rightarrow> bool" where
  "browser_start st \<longleftrightarrow> snd st = [] \<and> distinct (map SS_id (AB_sessions (SD_auth (fst st)))) \<and> (\<forall>x\<in>set (SD_onetime (fst st)). OT_kind x \<notin> browser_kinds)"

lemma row_ok_log:
  assumes "browser_inv ev0 (db, L)"
  shows "\<forall>x\<in>set (SD_onetime db). row_ok ev0 (L @ [e]) db x"
  using assms row_ok_mono [of ev0 L db _ "L @ [e]" db] by (auto simp: browser_inv_def owners_grow_def)

lemma browser_inv_step:
  assumes "browser_inv ev0 st" "browser_act_ok ev0 a"
  shows "browser_inv ev0 (browse st a)"
proof -
  obtain db L where st: "st = (db, L)" by fastforce
  note inv = assms(1) [unfolded st]
  show ?thesis
  proof (cases a)
    case (Serve ev c)
    let ?L = "L @ [(ev, c, db)]"
    have w: "writes ev0 ?L (session_earned ?L (ev, c, db)) (draws ev) db (fst (serve ev c db))"
      using assms(2) row_ok_log [OF inv] unfolding Serve by (rule serve_writes) simp
    then have g: "owners_grow db (fst (serve ev c db))" by (auto simp: writes_def dest: moves_owners)
    have "row_ok ev0 ?L (fst (serve ev c db)) x" if "x \<in> set (SD_onetime (fst (serve ev c db)))" for x
      using w that row_ok_mono [OF _ subset_refl g] row_ok_log [OF inv] unfolding writes_def moves_def row_new_def by blast
    moreover have "distinct (map SS_id (AB_sessions (SD_auth (fst (serve ev c db)))))" using g inv by (simp add: owners_grow_def browser_inv_def)
    ultimately show ?thesis unfolding st Serve by (simp add: browser_inv_def)
  next
    case (Elsewhere f)
    with assms(2) have e: "elsewhere db (f db)" by simp
    have "row_ok ev0 L (f db) x" if "x \<in> set (SD_onetime (f db))" for x
    proof (cases "x \<in> set (SD_onetime db)")
      case True
      with inv have "row_ok ev0 L db x" by (simp add: browser_inv_def)
      then show ?thesis using e by (auto simp: elsewhere_def elim: row_ok_mono)
    next
      case False
      with e that have "OT_kind x \<notin> browser_kinds" by (auto simp: elsewhere_def)
      then show ?thesis by (auto simp: row_ok_def browser_kinds_def)
    qed
    with e inv show ?thesis unfolding st Elsewhere by (simp add: browser_inv_def elsewhere_def owners_grow_def)
  qed
qed

interpretation browser: machine browser_start "browser_act_ok ev0" browse "browser_inv ev0" for ev0
proof
  fix st assume "browser_start st"
  then show "browser_inv ev0 st" by (auto simp: browser_start_def browser_inv_def row_ok_def browser_kinds_def)
qed (rule browser_inv_step)

end
