(* ===== verification/Browser_Examples.thy ===== *)
theory Browser_Examples
  imports Browser_Flow Factor_Safety
begin

text \<open>
  An installation with a shop that takes part in browser sign-in, and the requests the examples send it. Payloads are encoded as
  lists; the hash is the text itself.
\<close>

definition enc_code :: "authCodePayload \<Rightarrow> string" where
  "enc_code p = enc_list [AC_TenantID p, AC_TenantSlug p, AC_IdentityID p, AC_SessionID p, AC_ClientID p, AC_RedirectURI p,
     AC_CodeChallenge p, AC_CodeChallengeMethod p, AC_Nonce p]"

definition dec_code :: "string \<Rightarrow> authCodePayload option" where
  "dec_code t = (case dec_list t of
     [a, b, c, d, e, f, g, h, i] \<Rightarrow> Some \<lparr>AC_TenantID = a, AC_TenantSlug = b, AC_IdentityID = c, AC_SessionID = d, AC_ClientID = e, AC_RedirectURI = f,
        AC_CodeChallenge = g, AC_CodeChallengeMethod = h, AC_Nonce = i\<rparr>
   | _ \<Rightarrow> None)"

definition enc_link :: "LinkPayload \<Rightarrow> string" where
  "enc_link p = enc_list [LK_IdentityID p, LK_TenantID p, LK_RealmID p, enc_list (map fst (LK_Flow p)), enc_list (map snd (LK_Flow p))]"

definition dec_link :: "string \<Rightarrow> LinkPayload option" where
  "dec_link t = (case dec_list t of
     [a, b, c, k, v] \<Rightarrow> Some \<lparr>LK_IdentityID = a, LK_TenantID = b, LK_RealmID = c, LK_Flow = zip (dec_list k) (dec_list v)\<rparr>
   | _ \<Rightarrow> None)"

definition shop_uri :: string where "shop_uri = ''https://shop/cb''"

definition shop_issuer :: "time \<Rightarrow> char \<Rightarrow> string \<Rightarrow> IssuerEnv" where
  "shop_issuer now c n = demo_issuer now c n\<lparr>Is_ApplicationBySlug := (\<lambda>t a. Inr (demo_app\<lparr>Ap_RedirectURIs := [shop_uri]\<rparr>)),
     Is_TenantByID := (\<lambda>t. if t = ''t1'' then Inr demo_tenant else Inl ErrNotFound)\<rparr>"

definition shop_env :: "time \<Rightarrow> char \<Rightarrow> string \<Rightarrow> BrowserEnv" where
  "shop_env now c n = \<lparr>Bw_sign = demo_sign_env (shop_issuer now c n), Bw_prod = True, Bw_limited = False, Bw_mail = True, Bw_url_Parse = (\<lambda>u. True),
     Bw_code_Marshal = enc_code, Bw_code_Unmarshal = dec_code, Bw_factor_Marshal = (\<lambda>a b. enc_list [a, b]), Bw_factor_Unmarshal = dec_pair,
     Bw_enrol_Marshal = (\<lambda>c. []), Bw_enrol_Unmarshal = (\<lambda>s. None), Bw_link_Marshal = enc_link, Bw_link_Unmarshal = dec_link\<rparr>"

lemma enc_list_nonempty [simp]: "enc_list xs \<noteq> []"
  by (cases xs) (simp_all add: enc_list_def)

lemma dec_enc_code [simp]: "dec_code (enc_code p) = Some p"
  by (simp add: dec_code_def enc_code_def dec_enc_list)

lemma dec_enc_link [simp]: "dec_link (enc_link p) = Some p"
  by (simp add: dec_link_def enc_link_def dec_enc_list zip_map_fst_snd)

lemma shop_fields [simp]:
  "Bw_sign (shop_env now c n) = demo_sign_env (shop_issuer now c n)" "Bw_prod (shop_env now c n)" "\<not> Bw_limited (shop_env now c n)" "Bw_mail (shop_env now c n)"
  "Bw_url_Parse (shop_env now c n) u" "Bw_code_Marshal (shop_env now c n) = enc_code" "Bw_code_Unmarshal (shop_env now c n) = dec_code"
  "Bw_factor_Marshal (shop_env now c n) = (\<lambda>a b. enc_list [a, b])" "Bw_factor_Unmarshal (shop_env now c n) = dec_pair"
  "Bw_link_Marshal (shop_env now c n) = enc_link" "Bw_link_Unmarshal (shop_env now c n) = dec_link"
  by (simp_all add: shop_env_def)

lemma shop_issuer_fields [simp]:
  "Is_clock (shop_issuer now c n) = now" "Is_hash (shop_issuer now c n) = (\<lambda>s. s)" "Is_TenantBySlug (shop_issuer now c n) = (\<lambda>t. Inr (Some demo_tenant))"
  "Is_TenantByID (shop_issuer now c n) = (\<lambda>t. if t = ''t1'' then Inr demo_tenant else Inl ErrNotFound)" "Is_db (shop_issuer now c n) = demo_db_env now n"
  "Is_ApplicationBySlug (shop_issuer now c n) = (\<lambda>t a. Inr (demo_app\<lparr>Ap_RedirectURIs := [shop_uri]\<rparr>))"
  by (simp_all add: shop_issuer_def)

lemma shop_secrets [simp]: "secret_New (shop_issuer now c n) k m = Some (EncodeToString (replicate m c))"
  by (simp add: secret_New_def shop_issuer_def)

section \<open>Alice's browser and the shop\<close>

text \<open>Alice's session has a cookie.\<close>

definition shop_session :: SessionRow where "shop_session = demo_session\<lparr>SS_cookie_hash := Some ''ck''\<rparr>"

definition shop_db :: SignDB where
  "shop_db = \<lparr>SD_auth = demo_db0\<lparr>AB_sessions := [shop_session]\<rparr>, SD_creds = [demo_password], SD_onetime = []\<rparr>"

definition shop_authorize :: HttpReq where
  "shop_authorize = \<lparr>Rq_formOK = True, Rq_form = [], Rq_query = [(''tenant'', ''acme''), (''client_id'', ''shop''), (''redirect_uri'', shop_uri),
     (''response_type'', ''code''), (''code_challenge'', EncodeToString ''v''), (''code_challenge_method'', ''S256'')],
     Rq_cookies = [(''__Host-anubis_sso'', ''ck'')], Rq_tls = True\<rparr>"

definition shop_code :: string where "shop_code = EncodeToString (replicate 32 CHR ''b'')"

definition shop_payload :: authCodePayload where
  "shop_payload = \<lparr>AC_TenantID = ''t1'', AC_TenantSlug = ''acme'', AC_IdentityID = ''alice'', AC_SessionID = ''s1'', AC_ClientID = ''shop'', AC_RedirectURI = shop_uri,
     AC_CodeChallenge = EncodeToString ''v'', AC_CodeChallengeMethod = ''S256'', AC_Nonce = []\<rparr>"

definition shop_row :: OneTimeRow where
  "shop_row = \<lparr>OT_id = ''k2'', OT_tenant_id = ''t1'', OT_kind = ''auth_code'', OT_token_hash = shop_code, OT_payload = enc_code shop_payload,
     OT_expires_at = 2 + authCodeTTL\<rparr>"

definition shop_token :: HttpReq where
  "shop_token = \<lparr>Rq_formOK = True, Rq_form = [(''grant_type'', ''authorization_code''), (''code'', shop_code), (''code_verifier'', ''v''), (''redirect_uri'', shop_uri),
     (''client_id'', ''shop'')], Rq_query = [], Rq_cookies = [], Rq_tls = True\<rparr>"

abbreviation shop2 :: BrowserEnv where "shop2 \<equiv> shop_env 2 CHR ''b'' ''k2''"
abbreviation shop3 :: BrowserEnv where "shop3 \<equiv> shop_env 3 CHR ''c'' ''k3''"

lemma shop_code_nonempty: "shop_code \<noteq> []"
  by code_simp

lemma shop_issues:
  "issueCode shop2 demo_tenant ''alice'' ''s1'' ''shop'' shop_uri [] (EncodeToString ''v'') ''S256'' [] shop_db =
     (shop_db\<lparr>SD_onetime := [shop_row]\<rparr>, [], RedirectTo shop_uri [(''code'', shop_code)])"
  by (simp add: issueCode_def exactMatch_def shop_uri_def CreateOneTime_def run_stmt_def one_time_kinds_def shop_db_def shop_row_def shop_payload_def
      shop_code_def OrEmptyJSON_def enc_code_def)

lemma shop_cookie: "SessionByCookieHash (demo_db_env 2 ''k2'') ''ck'' (SD_auth shop_db) = Inr ((session_view shop_session demo_identity)\<lparr>SV_ApplicationID := [], SV_CreatedAt := zero_time,
          SV_LastSeenAt := zero_time, SV_DeviceFP := [], SV_TokenEpoch := 0, SV_IdentityStatus := [],
          SV_AssuranceLevel := 0, SV_Email := []\<rparr>)"
  by (simp add: SessionByCookieHash_def run_stmt_def join_session_def shop_db_def shop_session_def demo_session_def session_live_def identity_of_def
      demo_db0_def demo_identity_def session_view_def)

lemma shop_authorizes:
  "AuthorizeEndpoint shop2 shop_authorize shop_db = (shop_db\<lparr>SD_onetime := [shop_row]\<rparr>, [], RedirectTo shop_uri [(''code'', shop_code)])"
proof -
  have q: "Query_Get shop_authorize ''tenant'' = ''acme''" "Query_Get shop_authorize ''client_id'' = ''shop''" "Query_Get shop_authorize ''redirect_uri'' = shop_uri"
    "Query_Get shop_authorize ''state'' = []" "Query_Get shop_authorize ''code_challenge'' = EncodeToString ''v''" "Query_Get shop_authorize ''code_challenge_method'' = ''S256''"
    "Query_Get shop_authorize ''response_type'' = ''code''" "Query_Get shop_authorize ''nonce'' = []" "cookie_get True shop_authorize ssoCookieBase = ''ck''"
    by (simp_all add: Query_Get_def shop_authorize_def cookie_get_def cookie_name_def cookie_hardened_def ssoCookieBase_def)
  have "EncodeToString ''v'' \<noteq> []" by code_simp
  moreover have "exactMatch [shop_uri] shop_uri" by (simp add: exactMatch_def shop_uri_def)
  moreover have "SV_IdentityID (session_view shop_session demo_identity) = ''alice''" "SV_ID (session_view shop_session demo_identity) = ''s1''"
    "SV_TenantID (session_view shop_session demo_identity) = ''t1''" "Ap_Slug demo_app = ''shop''"
    by (simp_all add: shop_session_def demo_session_def demo_app_def)
  ultimately show ?thesis
    using shop_issues by (simp add: AuthorizeEndpoint_def q shop_cookie Let_def)
qed

definition shop_view :: SessionView where "shop_view = session_view shop_session demo_identity"

lemma shop_live: "SessionLive (demo_db_env now n) ''s1'' (SD_auth shop_db) = (if now < 60 * Second + 1 then Inr shop_view else Inl ErrNotFound)"
  by (simp add: SessionLive_def run_stmt_def join_session_def shop_db_def shop_session_def demo_session_def session_live_def identity_of_def
      demo_db0_def demo_identity_def shop_view_def)

lemma shop_issue_ok:
  "\<exists>pair A. Issue (shop_issuer 3 CHR ''c'' ''k3'') \<lparr>II_Session = shop_view, II_TenantSlug = ''acme'', II_ClientID = ''shop'', II_RotateFrom = None, II_AccessOnly = False\<rparr>
     (SD_auth shop_db) = Inr (pair, A)"
proof (rule Issue_ok [OF refl])
  let ?i = "\<lparr>II_Session = shop_view, II_TenantSlug = ''acme'', II_ClientID = ''shop'', II_RotateFrom = None, II_AccessOnly = False\<rparr>"
  let ?ev = "shop_issuer 3 CHR ''c'' ''k3''"
  show "\<not> isl (issue_gate ?ev (II_Session ?i) (II_ClientID (case II_RotateFrom ?i of None \<Rightarrow> ?i | Some c \<Rightarrow> ?i\<lparr>II_ClientID := RC_ClientID c\<rparr>)))" by code_simp
  show "\<not> isl (token_roles ?ev (II_Session ?i) (Tt_appID t))" for t :: Ttls by (simp add: token_roles_def shop_issuer_def demo_issuer_def)
  show "\<not> isl (token_scopes ?ev (II_Session ?i))" by (simp add: token_scopes_def shop_issuer_def demo_issuer_def)
  have same: "Is_ring ?ev = Is_ring (demo_issuer 3 CHR ''c'' ''k3'')" "Is_ed ?ev = Is_ed (demo_issuer 3 CHR ''c'' ''k3'')"
    "Is_json ?ev = Is_json (demo_issuer 3 CHR ''c'' ''k3'')" "Is_clock ?ev = Is_clock (demo_issuer 3 CHR ''c'' ''k3'')" by (simp_all add: shop_issuer_def)
  have "sign_access ?ev t cl = sign_access (demo_issuer 3 CHR ''c'' ''k3'') t cl" for t cl unfolding sign_access_def same ..
  then show "\<exists>tok. sign_access ?ev t cl = Inr tok" for t cl using demo_sign [of 3] by simp
  show "\<not> isl (issue_refresh ?ev (case II_RotateFrom ?i of None \<Rightarrow> ?i | Some c \<Rightarrow> ?i\<lparr>II_ClientID := RC_ClientID c\<rparr>) t (SD_auth shop_db))" for t
  proof -
    have "newUUIDv7ish ?ev 2 (Is_clock ?ev) \<noteq> None" by (simp add: newUUIDv7ish_def Let_def)
    then show ?thesis
      by (auto simp: issue_refresh_def Let_def refresh_family_def CreateRefresh_def run_stmt_def link_successor_def shop_db_def demo_db0_def wrap_internal_def)
  qed
qed simp_all

lemma shop_exchanges:
  "\<exists>A pair. tokenAuthCode shop3 shop_token (shop_db\<lparr>SD_onetime := [shop_row]\<rparr>) = (shop_db\<lparr>SD_auth := A\<rparr>, [], TokenJSON pair)"
proof -
  have f: "PostFormValue shop_token ''code'' = shop_code" "PostFormValue shop_token ''code_verifier'' = ''v''" "PostFormValue shop_token ''redirect_uri'' = shop_uri"
    "PostFormValue shop_token ''client_id'' = ''shop''" by (simp_all add: PostFormValue_def shop_token_def)
  have "ConsumeOneTime (demo_db_env 3 ''k3'') ''auth_code'' shop_code (shop_db\<lparr>SD_onetime := [shop_row]\<rparr>) = Inr ((''t1'', enc_code shop_payload), shop_db)"
    by (simp add: ConsumeOneTime_def run_stmt_def redeemable_def shop_row_def authCodeTTL_def shop_db_def)
  moreover obtain pair A where "Issue (shop_issuer 3 CHR ''c'' ''k3'') \<lparr>II_Session = shop_view, II_TenantSlug = ''acme'', II_ClientID = ''shop'', II_RotateFrom = None,
      II_AccessOnly = False\<rparr> (SD_auth shop_db) = Inr (pair, A)" using shop_issue_ok by blast
  moreover have "AC_CodeChallenge shop_payload = EncodeToString ''v''" "AC_RedirectURI shop_payload = shop_uri" "AC_ClientID shop_payload = ''shop''"
    "AC_SessionID shop_payload = ''s1''" "AC_TenantSlug shop_payload = ''acme''" by (simp_all add: shop_payload_def)
  ultimately show ?thesis
    using shop_code_nonempty by (simp add: tokenAuthCode_def Let_def f shop_live) blast
qed

section \<open>Alice signs in on the page\<close>

definition shop_login :: HttpReq where
  "shop_login = \<lparr>Rq_formOK = True, Rq_form = [(''tenant'', ''acme''), (''realm'', ''internal''), (''username'', ''alice''), (''password'', ''correct horse''),
     (''csrf'', ''x''), (''client_id'', ''shop''), (''redirect_uri'', shop_uri), (''code_challenge'', EncodeToString ''v''), (''code_challenge_method'', ''S256'')],
     Rq_query = [], Rq_cookies = [(''__Host-anubis_login'', ''x'')], Rq_tls = True\<rparr>"

abbreviation shop1 :: BrowserEnv where "shop1 \<equiv> shop_env 1 CHR ''a'' ''s1''"

lemma shop_login_form:
  "PostFormValue shop_login ''tenant'' = ''acme''" "PostFormValue shop_login ''realm'' = ''internal''" "PostFormValue shop_login ''username'' = ''alice''"
  "PostFormValue shop_login ''password'' = ''correct horse''" "PostFormValue shop_login ''mfa_token'' = []" "PostFormValue shop_login ''enrol_token'' = []"
  "PostFormValue shop_login ''enrol_now'' = []" "PostFormValue shop_login ''client_id'' = ''shop''" "checkLoginCSRF shop1 shop_login (PostFormValue shop_login ''csrf'')"
  by (simp_all add: PostFormValue_def shop_login_def checkLoginCSRF_def cookie_get_def cookie_name_def cookie_hardened_def loginCSRFBase_def)

lemma shop_opens:
  "\<exists>db' cs s. openBrowserSession shop1 r demo_tenant demo_realm (identity_view demo_identity) amr detail demo_sign_db = (db', cs, Some ''s1'') \<and>
     AB_sessions (SD_auth db') = [s] \<and> SS_amr s = amr \<and> SS_identity_id s = ''alice''"
proof -
  let ?in = "\<lparr>SN_IdentityID = ''alice'', SN_TenantID = ''t1'', SN_ApplicationID = [], SN_AMR = amr, SN_DeviceFP = [], SN_IP = Is_ip (shop_issuer 1 CHR ''a'' ''s1''),
    SN_UserAgent = Is_userAgent (shop_issuer 1 CHR ''a'' ''s1''), SN_ActiveScopes = ''{}'', SN_ExpiresAt = 1 + Rm_SessionTTL demo_realm\<rparr>"
  obtain s where s: "CreateSession (demo_db_env 1 ''s1'') ?in (SD_auth demo_sign_db) = Inr (''s1'', demo_db0\<lparr>AB_sessions := [s]\<rparr>)"
      "SS_id s = ''s1''" "SS_amr s = amr" "SS_identity_id s = ''alice''"
    by (simp add: CreateSession_def run_stmt_def demo_sign_db_def demo_db0_def identity_of_def demo_identity_def)
  have "SetSessionCookieHash (demo_db_env 1 ''s1'') ''s1'' h (demo_db0\<lparr>AB_sessions := [s]\<rparr>) = Inr (demo_db0\<lparr>AB_sessions := [s\<lparr>SS_cookie_hash := Some h\<rparr>]\<rparr>)" for h
    using s(2) by (simp add: SetSessionCookieHash_def run_stmt_def update_sessions_def)
  with s show ?thesis by (simp add: openBrowserSession_def Let_def AuditLogin_def sign_emit_def Emit_def)
qed

lemma shop_signs_in:
  "\<exists>db' cs resp s. LoginForm shop1 shop_login demo_sign_db = (db', cs, resp) \<and> AB_sessions (SD_auth db') = [s] \<and> SS_identity_id s = ''alice'' \<and> SS_amr s = [''pwd'']"
proof -
  let ?i = "\<lparr>LI_Tenant = ''acme'', LI_Realm = ''internal'', LI_Username = ''alice'', LI_Password = ''correct horse'', LI_ClientID = ''shop'', LI_DeviceFP = []\<rparr>"
  obtain missing due where A: "Authenticate (demo_sign_env (shop_issuer 1 CHR ''a'' ''s1'')) ?i SurfaceBrowser demo_sign_db = (demo_sign_db, demo_decision missing due)"
    using demo_authenticates [of "shop_issuer 1 CHR ''a'' ''s1''" "''s1''" ?i SurfaceBrowser] by auto
  obtain db' cs s where o: "openBrowserSession shop1 shop_login demo_tenant demo_realm (identity_view demo_identity) [''pwd''] ''password'' demo_sign_db = (db', cs, Some ''s1'')"
    "AB_sessions (SD_auth db') = [s]" "SS_amr s = [''pwd'']" "SS_identity_id s = ''alice''" using shop_opens [of shop_login "[''pwd'']" "''password''"] by blast
  have i: "AB_sessions (SD_auth (fst (issueCode ev t w sid c u st ch me no db))) = AB_sessions (SD_auth db)" for ev t w sid c u st ch me no db
    by (auto simp: issueCode_def CreateOneTime_def run_stmt_def split: sum.split option.split)
  have "fst (LoginForm shop1 shop_login demo_sign_db) = (if due then db' else fst (issueCode shop1 demo_tenant ''alice'' ''s1'' ''shop'' (PostFormValue shop_login ''redirect_uri'')
      (PostFormValue shop_login ''state'') (PostFormValue shop_login ''code_challenge'') (PostFormValue shop_login ''code_challenge_method'') (PostFormValue shop_login ''nonce'') db'))"
    using A o(1) by (simp add: LoginForm_def shop_login_form Let_def after_decision_def demo_decision_def primaryPassword_def warnEnrolmentDue_def
        establishBrowserSession_def split: prod.split) (simp add: shop_login_def)
  then have "AB_sessions (SD_auth (fst (LoginForm shop1 shop_login demo_sign_db))) = [s]" using i o(2) by simp
  with o(3,4) show ?thesis by (metis prod.collapse)
qed

end
