(* ===== verification/Browser_Safety.thy ===== *)
theory Browser_Safety
  imports Browser_Runs Browser_Examples
begin

text \<open>
  What signing in with a browser promises over whole runs: every code was issued for a registered address and a session of the
  person it names; exchanging one proves possession of its verifier and spends it; every session the page
  opens rests on a first factor proved in the run, and on the second one where the person has it.
\<close>

section \<open>What is on file\<close>

lemma shop_run: "foldl browse (shop_db, []) [Serve shop2 (GetAuthorize shop_authorize)] =
    (shop_db\<lparr>SD_onetime := [shop_row]\<rparr>, [(shop2, GetAuthorize shop_authorize, shop_db)])"
  by (simp add: shop_authorizes)

lemma shop_run_ok: "browser_start (shop_db, [])" "browser_act_ok shop1 (Serve (shop_env now c n) x)" "same_browser shop1 (shop_env now c n)"
  by (simp_all add: browser_start_def shop_db_def browser_codecs_def same_browser_def tenants_named_def dec_pair_def dec_enc_list)
    (simp_all add: enc_code_def enc_link_def)

text \<open>C22. What a one-time row stands for. However requests are interleaved with each other and with the rest of the service: an
  authorisation code belongs to a client, an address registered with it when the code was issued, and an existing
  session of the person and tenant it names; a second-factor token belongs to somebody who proved a first factor in
  the run; a sign-in link was mailed to the address on file of the person it signs in.\<close>

theorem one_time_rows_typed:
  assumes "browser_start (db0, [])" "\<forall>a\<in>set acts. browser_act_ok ev0 a" "foldl browse (db0, []) acts = (db, L)" "x \<in> set (SD_onetime db)"
  shows "row_ok ev0 L db x"
  using browser.inv_reachable [OF assms(1,2)] assms(3,4) by (simp add: browser_inv_def)

theorem one_time_rows_typed_witness:
  "row_ok shop1 [(shop2, GetAuthorize shop_authorize, shop_db)] (shop_db\<lparr>SD_onetime := [shop_row]\<rparr>) shop_row \<and> OT_kind shop_row = ''auth_code''"
  using one_time_rows_typed [OF shop_run_ok(1) _ shop_run, of shop1 shop_row] shop_run_ok(2) by (simp add: shop_row_def)

text \<open>The token endpoint, past every check.\<close>

lemma tokenAuthCodeE:
  assumes "tokenAuthCode ev r db = (db', cs, TokenJSON pair)"
  obtains x db1 p view a where "x \<in> set (SD_onetime db)" "redeemable (Db_now (bw_db ev)) ''auth_code'' (Is_hash (bw_is ev) (PostFormValue r ''code'')) x"
    "Bw_code_Unmarshal ev (OT_payload x) = Some p" "EncodeToString (Is_hash (bw_is ev) (PostFormValue r ''code_verifier'')) = AC_CodeChallenge p"
    "PostFormValue r ''redirect_uri'' = AC_RedirectURI p" "PostFormValue r ''client_id'' = AC_ClientID p"
    "SessionLive (bw_db ev) (AC_SessionID p) (SD_auth db) = Inr view"
    "Issue (bw_is ev) \<lparr>II_Session = view, II_TenantSlug = AC_TenantSlug p, II_ClientID = AC_ClientID p, II_RotateFrom = None, II_AccessOnly = False\<rparr> (SD_auth db) = Inr (pair, a)"
    "SD_onetime db' = filter (\<lambda>x. \<not> redeemable (Db_now (bw_db ev)) ''auth_code'' (Is_hash (bw_is ev) (PostFormValue r ''code'')) x) (SD_onetime db)"
proof -
  from assms obtain t raw db1 p view a where c: "ConsumeOneTime (bw_db ev) ''auth_code'' (Is_hash (bw_is ev) (PostFormValue r ''code'')) db = Inr ((t, raw), db1)"
    and p: "Bw_code_Unmarshal ev raw = Some p" "EncodeToString (Is_hash (bw_is ev) (PostFormValue r ''code_verifier'')) = AC_CodeChallenge p"
      "PostFormValue r ''redirect_uri'' = AC_RedirectURI p" "PostFormValue r ''client_id'' = AC_ClientID p"
    and s: "SessionLive (bw_db ev) (AC_SessionID p) (SD_auth db1) = Inr view"
      "Issue (bw_is ev) \<lparr>II_Session = view, II_TenantSlug = AC_TenantSlug p, II_ClientID = AC_ClientID p, II_RotateFrom = None, II_AccessOnly = False\<rparr> (SD_auth db1) = Inr (pair, a)"
    and db': "db' = db1\<lparr>SD_auth := a\<rparr>"
    by (auto simp: tokenAuthCode_def Let_def split: if_splits sum.splits option.splits)
  from c obtain x where x: "x \<in> set (SD_onetime db)" "redeemable (Db_now (bw_db ev)) ''auth_code'' (Is_hash (bw_is ev) (PostFormValue r ''code'')) x"
    "OT_payload x = raw" "SD_auth db1 = SD_auth db" "SD_onetime db1 = filter (\<lambda>x. \<not> redeemable (Db_now (bw_db ev)) ''auth_code'' (Is_hash (bw_is ev) (PostFormValue r ''code'')) x) (SD_onetime db)"
    by (rule Consume_row)
  show thesis using that [of x p view a] x p s db' by simp
qed

text \<open>C20. Exchanging a code. In any run, the token endpoint answers tokens for a code only if an unexpired code with that hash is on
  file, the verifier hashes to its challenge, and client and address repeat those it was issued for -- an address
  registered with that client -- and its session is live and belongs to the very person and tenant the code names; the
  tokens are those of that session for that client, and the code is gone.\<close>

theorem code_exchange_sound:
  assumes "browser_start (db0, [])" "\<forall>a\<in>set acts. browser_act_ok ev0 a" "foldl browse (db0, []) acts = (db, L)"
    and "browser_act_ok ev0 (Serve ev (PostToken r))" "tokenAuthCode ev r db = (db', cs, TokenJSON pair)"
  shows "\<exists>x\<in>set (SD_onetime db). \<exists>p. redeemable (Db_now (bw_db ev)) ''auth_code'' (Is_hash (bw_is ev) (PostFormValue r ''code'')) x \<and> code_row ev0 L db x p \<and>
    EncodeToString (Is_hash (bw_is ev) (PostFormValue r ''code_verifier'')) = AC_CodeChallenge p \<and>
    PostFormValue r ''redirect_uri'' = AC_RedirectURI p \<and> PostFormValue r ''client_id'' = AC_ClientID p \<and>
    (\<exists>s\<in>set (AB_sessions (SD_auth db)). \<exists>i A. session_owner s = (AC_SessionID p, AC_IdentityID p, AC_TenantID p) \<and> session_live (Db_now (bw_db ev)) s \<and>
      identity_of (SD_auth db) (AC_TenantID p) (AC_IdentityID p) = Some i \<and>
      Issue (bw_is ev) \<lparr>II_Session = session_view s i, II_TenantSlug = AC_TenantSlug p, II_ClientID = AC_ClientID p, II_RotateFrom = None, II_AccessOnly = False\<rparr>
        (SD_auth db) = Inr (pair, A)) \<and>
    (\<forall>y\<in>set (SD_onetime db'). \<not> redeemable (Db_now (bw_db ev)) ''auth_code'' (Is_hash (bw_is ev) (PostFormValue r ''code'')) y)"
proof -
  from browser.inv_reachable [OF assms(1,2)] assms(3) have inv: "browser_inv ev0 (db, L)" by simp
  from assms(5) obtain x p view a where x: "x \<in> set (SD_onetime db)" "redeemable (Db_now (bw_db ev)) ''auth_code'' (Is_hash (bw_is ev) (PostFormValue r ''code'')) x"
    and p: "Bw_code_Unmarshal ev (OT_payload x) = Some p" "EncodeToString (Is_hash (bw_is ev) (PostFormValue r ''code_verifier'')) = AC_CodeChallenge p"
      "PostFormValue r ''redirect_uri'' = AC_RedirectURI p" "PostFormValue r ''client_id'' = AC_ClientID p"
    and s: "SessionLive (bw_db ev) (AC_SessionID p) (SD_auth db) = Inr view"
      "Issue (bw_is ev) \<lparr>II_Session = view, II_TenantSlug = AC_TenantSlug p, II_ClientID = AC_ClientID p, II_RotateFrom = None, II_AccessOnly = False\<rparr> (SD_auth db) = Inr (pair, a)"
    and gone: "SD_onetime db' = filter (\<lambda>x. \<not> redeemable (Db_now (bw_db ev)) ''auth_code'' (Is_hash (bw_is ev) (PostFormValue r ''code'')) x) (SD_onetime db)"
    by (rule tokenAuthCodeE)
  from inv x obtain q where q: "code_row ev0 L db x q" by (auto simp: browser_inv_def row_ok_def redeemable_def)
  with p(1) assms(4) have "q = p" by (simp add: code_row_def browser_codecs_def same_browser_def)
  note q = q [unfolded this]
  from s(1) obtain t i where t: "t \<in> set (AB_sessions (SD_auth db))" "SS_id t = AC_SessionID p" "session_live (Db_now (bw_db ev)) t"
    "identity_of (SD_auth db) (SS_tenant_id t) (SS_identity_id t) = Some i" "view = session_view t i" by (rule SessionLive_Inr)
  from q obtain t' where t': "t' \<in> set (AB_sessions (SD_auth db))" "session_owner t' = (AC_SessionID p, AC_IdentityID p, AC_TenantID p)" by (auto simp: code_row_def)
  then have "SS_id t' = SS_id t" using t(2) by (simp add: session_owner_def)
  with t(1) t'(1) inv have "t' = t" by (auto simp: browser_inv_def distinct_map dest: inj_onD)
  then have own: "session_owner t = (AC_SessionID p, AC_IdentityID p, AC_TenantID p)" "SS_tenant_id t = AC_TenantID p" "SS_identity_id t = AC_IdentityID p"
    using t'(2) by (simp_all add: session_owner_def)
  have "\<forall>y\<in>set (SD_onetime db'). \<not> redeemable (Db_now (bw_db ev)) ''auth_code'' (Is_hash (bw_is ev) (PostFormValue r ''code'')) y" by (simp add: gone)
  with x q p(2-4) t(1,3) own(1) t(4) [unfolded own] s(2) [unfolded t(5)] show ?thesis by blast
qed

theorem code_exchange_sound_witness:
  "\<exists>x\<in>set (SD_onetime (shop_db\<lparr>SD_onetime := [shop_row]\<rparr>)). \<exists>p. code_row shop1 [(shop2, GetAuthorize shop_authorize, shop_db)] (shop_db\<lparr>SD_onetime := [shop_row]\<rparr>) x p \<and>
     EncodeToString ''v'' = AC_CodeChallenge p"
proof -
  obtain A pair where t: "tokenAuthCode shop3 shop_token (shop_db\<lparr>SD_onetime := [shop_row]\<rparr>) = (shop_db\<lparr>SD_auth := A\<rparr>, [], TokenJSON pair)"
    using shop_exchanges by blast
  have "\<forall>a\<in>set [Serve shop2 (GetAuthorize shop_authorize)]. browser_act_ok shop1 a" using shop_run_ok(2) by simp
  from code_exchange_sound [OF shop_run_ok(1) this shop_run shop_run_ok(2) t] obtain x p where
    "x \<in> set (SD_onetime (shop_db\<lparr>SD_onetime := [shop_row]\<rparr>))" "code_row shop1 [(shop2, GetAuthorize shop_authorize, shop_db)] (shop_db\<lparr>SD_onetime := [shop_row]\<rparr>) x p"
    "EncodeToString (Is_hash (bw_is shop3) (PostFormValue shop_token ''code_verifier'')) = AC_CodeChallenge p" by blast
  moreover have "Is_hash (bw_is shop3) (PostFormValue shop_token ''code_verifier'') = ''v''" by (simp add: PostFormValue_def shop_token_def)
  ultimately show ?thesis by auto
qed

section \<open>A code is good once\<close>

text \<open>No code with the hash \<open>h\<close> will be redeemable from \<open>now\<close> on.\<close>

definition code_spent :: "string \<Rightarrow> time \<Rightarrow> SignDB \<Rightarrow> bool" where
  "code_spent h now db \<longleftrightarrow> (\<forall>x\<in>set (SD_onetime db). OT_kind x = ''auth_code'' \<and> OT_token_hash x = h \<longrightarrow> OT_expires_at x \<le> now)"

lemma code_spent_run:
  assumes "browser_inv ev0 (db, L)" "code_spent h now db" "\<forall>a\<in>set acts. browser_act_ok ev0 a" "\<forall>ev c. Serve ev c \<in> set acts \<longrightarrow> h \<notin> draws ev"
  shows "code_spent h now (fst (foldl browse (db, L) acts))"
  using assms
proof (induction acts arbitrary: db L)
  case (Cons a acts)
  note inv = browser_inv_step [OF Cons.prems(1), of a]
  have "code_spent h now (fst (browse (db, L) a))"
  proof (cases a)
    case (Serve ev c)
    let ?L = "L @ [(ev, c, db)]"
    have "writes ev0 ?L (session_earned ?L (ev, c, db)) (draws ev) db (fst (serve ev c db))"
      using Cons.prems(3) row_ok_log [OF Cons.prems(1)] unfolding Serve by (intro serve_writes) auto
    moreover have "h \<notin> draws ev" using Cons.prems(4) Serve by auto
    ultimately show ?thesis using Cons.prems(2) unfolding Serve by (auto simp: writes_def moves_def row_new_def code_spent_def)
  next
    case (Elsewhere f)
    with Cons.prems(2,3) show ?thesis by (auto simp: elsewhere_def code_spent_def browser_kinds_def)
  qed
  with inv Cons.prems Cons.IH [of "fst (browse (db, L) a)" "snd (browse (db, L) a)"] show ?case by simp
qed simp

text \<open>C21. A code is good once. Once a code has been presented to the token endpoint and found -- whether the answer was tokens or
  a refusal for a wrong verifier, address or client -- every later exchange of it is refused and changes nothing,
  whatever the service does in between, as long as no code with the same hash is drawn again and the
  database's clock does not go back.\<close>

theorem code_once:
  assumes "browser_start (db0, [])" "\<forall>a\<in>set (acts @ Serve ev (PostToken r) # later). browser_act_ok ev0 a"
    and "db = fst (foldl browse (db0, []) acts)" "db2 = fst (foldl browse (db0, []) (acts @ Serve ev (PostToken r) # later))"
    and "Rq_formOK r" "PostFormValue r ''grant_type'' = ''authorization_code''" "PostFormValue r ''code'' = code" "code \<noteq> []" "PostFormValue r ''code_verifier'' \<noteq> []"
    and "ConsumeOneTime (bw_db ev) ''auth_code'' (Is_hash (bw_is ev) code) db = Inr (y, db1)"
    and "\<forall>ev' c. Serve ev' c \<in> set later \<longrightarrow> Is_hash (bw_is ev) code \<notin> draws ev'"
    and "same_browser ev0 ev2" "Db_now (bw_db ev) \<le> Db_now (bw_db ev2)" "PostFormValue r2 ''code'' = code"
  shows "tokenAuthCode ev2 r2 db2 = (db2, [], WriteError ErrPKCE)"
proof -
  let ?h = "Is_hash (bw_is ev) code"
  obtain L where run: "foldl browse (db0, []) acts = (db, L)" using assms(3) by (metis prod.collapse)
  from browser.inv_reachable [OF assms(1), of acts ev0] assms(2) run have inv: "browser_inv ev0 (db, L)" by auto
  have ok: "browser_act_ok ev0 (Serve ev (PostToken r))" "\<forall>a\<in>set later. browser_act_ok ev0 a" using assms(2) by auto
  obtain t raw where y: "y = (t, raw)" by fastforce
  define db' where "db' = fst (serve ev (PostToken r) db)"
  from assms(10) [unfolded y] have "SD_onetime db1 = filter (\<lambda>x. \<not> redeemable (Db_now (bw_db ev)) ''auth_code'' ?h x) (SD_onetime db)" by (rule Consume_row)
  moreover have "SD_onetime db' = SD_onetime db1"
    using assms(5-10) by (auto simp: db'_def TokenEndpoint_def tokenAuthCode_def Let_def y split: option.split sum.split)
  ultimately have "code_spent ?h (Db_now (bw_db ev)) db'" by (auto simp: code_spent_def redeemable_def)
  moreover have "browser_inv ev0 (db', L @ [(ev, PostToken r, db)])" using browser_inv_step [OF inv ok(1)] by (simp add: db'_def)
  ultimately have "code_spent ?h (Db_now (bw_db ev)) db2"
    using code_spent_run [of ev0 db' "L @ [(ev, PostToken r, db)]" ?h "Db_now (bw_db ev)" later] ok(2) assms(4,11) run by (simp add: db'_def)
  moreover have "Is_hash (bw_is ev2) code = ?h" using assms(12) ok(1) by (simp add: same_browser_def)
  ultimately have "find (redeemable (Db_now (bw_db ev2)) ''auth_code'' (Is_hash (bw_is ev2) code)) (SD_onetime db2) = None"
    using assms(13) by (force simp: find_None_iff code_spent_def redeemable_def)
  then show ?thesis using assms(14) by (simp add: tokenAuthCode_def Let_def ConsumeOneTime_def run_stmt_def)
qed

theorem code_once_witness:
  "tokenAuthCode shop3 shop_token (fst (foldl browse (shop_db, []) ([Serve shop2 (GetAuthorize shop_authorize)] @ Serve shop3 (PostToken shop_token) # []))) =
     (fst (foldl browse (shop_db, []) ([Serve shop2 (GetAuthorize shop_authorize)] @ Serve shop3 (PostToken shop_token) # [])), [], WriteError ErrPKCE)"
proof (rule code_once [where db = "shop_db\<lparr>SD_onetime := [shop_row]\<rparr>" and ev = shop3 and ?ev0.0 = shop1 and r = shop_token and code = shop_code and
      acts = "[Serve shop2 (GetAuthorize shop_authorize)]" and later = "[]" and ?db0.0 = shop_db])
  show "browser_start (shop_db, [])" by (rule shop_run_ok(1))
  show "\<forall>a\<in>set ([Serve shop2 (GetAuthorize shop_authorize)] @ [Serve shop3 (PostToken shop_token)]). browser_act_ok shop1 a"
    using shop_run_ok(2) by (auto simp del: browser_act_ok.simps)
  show "shop_db\<lparr>SD_onetime := [shop_row]\<rparr> = fst (foldl browse (shop_db, []) [Serve shop2 (GetAuthorize shop_authorize)])" by (simp add: shop_authorizes)
  show "ConsumeOneTime (bw_db shop3) ''auth_code'' (Is_hash (bw_is shop3) shop_code) (shop_db\<lparr>SD_onetime := [shop_row]\<rparr>) = Inr ((''t1'', enc_code shop_payload), shop_db)"
    by (simp add: ConsumeOneTime_def run_stmt_def redeemable_def shop_row_def authCodeTTL_def shop_db_def)
qed (simp_all add: shop_run_ok(3) shop_code_nonempty PostFormValue_def shop_token_def del: browse.simps)

section \<open>What opens a session\<close>

text \<open>C19. A browser's session is earned. In any run, a request that opens a session opens it for a live account, and either the request
  itself proved a first factor -- the password, or a link mailed to that person -- where the person holds no second
  factor the population accepts and none is demanded by now, and the session says so; or the person proved a first
  factor earlier in the run and the request carries an unused code of their authenticator, and the session names both.\<close>

theorem browser_session_earned:
  assumes "browser_start (db0, [])" "\<forall>a\<in>set acts. browser_act_ok ev0 a" "foldl browse (db0, []) acts = (db, L)"
    and "browser_act_ok ev0 (Serve ev c)" "serve ev c db = (db', cs, resp)"
    and "s \<in> set (AB_sessions (SD_auth db'))" "SS_id s \<notin> SS_id ` set (AB_sessions (SD_auth db))"
  shows "session_earned (L @ [(ev, c, db)]) (ev, c, db) (session_key s)"
proof -
  from browser.inv_reachable [OF assms(1,2)] assms(3) have "browser_inv ev0 (db, L)" by simp
  from serve_writes [OF assms(4) row_ok_log [OF this, of "(ev, c, db)"]]
  obtain new where new: "map session_key (AB_sessions (SD_auth db')) = map session_key (AB_sessions (SD_auth db)) @ new"
      "\<forall>k\<in>set new. session_earned (L @ [(ev, c, db)]) (ev, c, db) k"
    using assms(5) by (auto simp: writes_def moves_def)
  from assms(6) have "session_key s \<in> set (map session_key (AB_sessions (SD_auth db)) @ new)" unfolding new(1) [symmetric] by simp
  moreover have "session_key s \<notin> set (map session_key (AB_sessions (SD_auth db)))" using assms(7) by (auto simp: session_key_def)
  ultimately show ?thesis using new(2) by auto
qed

theorem browser_session_earned_witness:
  "\<exists>s. session_earned [(shop1, PostLogin shop_login, demo_sign_db)] (shop1, PostLogin shop_login, demo_sign_db) (session_key s) \<and> SS_identity_id s = ''alice'' \<and> SS_amr s = [''pwd'']"
proof -
  obtain db' cs resp s where l: "serve shop1 (PostLogin shop_login) demo_sign_db = (db', cs, resp)" "AB_sessions (SD_auth db') = [s]" "SS_identity_id s = ''alice''" "SS_amr s = [''pwd'']"
    using shop_signs_in by auto
  have "browser_start (demo_sign_db, [])" by (simp add: browser_start_def demo_sign_db_def demo_db0_def)
  from browser_session_earned [OF this _ _ shop_run_ok(2) l(1), of "[]" "[]"] l(2-4) show ?thesis by (force simp: demo_sign_db_def demo_db0_def)
qed

section \<open>What a code brings\<close>

text \<open>C23. A code works. The code put on the redirect, presented within its minute with the verifier its challenge was made from, the
  same address and the same client, is spent and the answer is what the issuer makes of the session it was issued
  for: its tokens, or its refusal. A minute later it is refused.\<close>

theorem code_redeems:
  assumes "browser_codecs ev" "same_browser ev ev'"
    and "issueCode ev tenant who sid client uri state challenge method nonce db = (db1, cs, RedirectTo uri' qs)" "map_of qs ''code'' = Some code" "code \<noteq> []"
    and "SD_onetime db2 = SD_onetime db1" "\<not> Db_fails (bw_db ev') ConsumeOneTimeS"
    and "PostFormValue r ''code'' = code" "EncodeToString (Is_hash (bw_is ev) (PostFormValue r ''code_verifier'')) = challenge" "PostFormValue r ''code_verifier'' \<noteq> []"
    and "PostFormValue r ''redirect_uri'' = uri" "PostFormValue r ''client_id'' = client" "SessionLive (bw_db ev') sid (SD_auth db2) = Inr view"
  shows "tokenAuthCode ev' r db2 =
    (if Db_now (bw_db ev') < Is_clock (bw_is ev) + authCodeTTL then
      (case Issue (bw_is ev') \<lparr>II_Session = view, II_TenantSlug = Tn_Slug tenant, II_ClientID = client, II_RotateFrom = None, II_AccessOnly = False\<rparr> (SD_auth db2) of
         Inl e \<Rightarrow> (db2\<lparr>SD_onetime := SD_onetime db\<rparr>, [], WriteError e)
       | Inr (pair, A) \<Rightarrow> (db2\<lparr>SD_onetime := SD_onetime db, SD_auth := A\<rparr>, [], TokenJSON pair))
     else (db2, [], WriteError ErrPKCE))"
proof -
  let ?p = "\<lparr>AC_TenantID = Tn_ID tenant, AC_TenantSlug = Tn_Slug tenant, AC_IdentityID = who, AC_SessionID = sid,
      AC_ClientID = client, AC_RedirectURI = uri, AC_CodeChallenge = challenge, AC_CodeChallengeMethod = method, AC_Nonce = nonce\<rparr>"
  let ?h = "Is_hash (bw_is ev) code"
  from assms(3,4) obtain i where c: "CreateOneTime (bw_db ev) (Tn_ID tenant) ''auth_code'' ?h (Bw_code_Marshal ev ?p) (Is_clock (bw_is ev) + authCodeTTL) db = Inr (i, db1)"
    by (auto simp: issueCode_def split: sum.splits if_splits option.splits)
  then obtain row where row: "SD_onetime db1 = SD_onetime db @ [row]" "OT_token_hash row = ?h" "OT_kind row = ''auth_code''"
      "OT_expires_at row = Is_clock (bw_is ev) + authCodeTTL" "OT_payload row = OrEmptyJSON (Bw_code_Marshal ev ?p)"
    and new: "?h \<notin> OT_token_hash ` set (SD_onetime db)" by (auto simp: CreateOneTime_def run_stmt_Inr split: if_splits)
  have h: "Is_hash (bw_is ev') = Is_hash (bw_is ev)" using assms(2) by (simp add: same_browser_def)
  have none: "\<not> redeemable now k ?h y" if "y \<in> set (SD_onetime db)" for now k y using new that by (auto simp: redeemable_def image_iff)
  then have f: "find (redeemable now k ?h) (SD_onetime db) = None" "filter (\<lambda>x. \<not> redeemable now k ?h x) (SD_onetime db) = SD_onetime db" for now k
    by (simp_all add: find_None_iff)
  have un: "Bw_code_Unmarshal ev' (OT_payload row) = Some ?p"
    using assms(1,2) row(5) by (simp add: browser_codecs_def same_browser_def OrEmptyJSON_def)
  show ?thesis
  proof (cases "Db_now (bw_db ev') < Is_clock (bw_is ev) + authCodeTTL")
    case True
    then have "redeemable (Db_now (bw_db ev')) ''auth_code'' ?h row" using row by (simp add: redeemable_def)
    then have "ConsumeOneTime (bw_db ev') ''auth_code'' (Is_hash (bw_is ev') code) db2 = Inr ((OT_tenant_id row, OT_payload row), db2\<lparr>SD_onetime := SD_onetime db\<rparr>)"
      using assms(6,7) f by (simp add: ConsumeOneTime_def run_stmt_def h row(1) find_append)
    with True un assms(5,8-13) show ?thesis by (simp add: tokenAuthCode_def Let_def h split: sum.split)
  next
    case False
    then have "\<not> redeemable (Db_now (bw_db ev')) ''auth_code'' ?h row" using row by (simp add: redeemable_def)
    then have "ConsumeOneTime (bw_db ev') ''auth_code'' (Is_hash (bw_is ev') code) db2 = Inl ErrNotFound"
      using assms(6,7) f by (simp add: ConsumeOneTime_def run_stmt_def h row(1) find_append)
    with False assms(8) show ?thesis by (simp add: tokenAuthCode_def Let_def)
  qed
qed

theorem code_redeems_witness:
  "\<exists>pair db'. tokenAuthCode shop3 shop_token (shop_db\<lparr>SD_onetime := [shop_row]\<rparr>) = (db', [], TokenJSON pair)"
proof -
  have f: "PostFormValue shop_token ''code'' = shop_code" "EncodeToString (Is_hash (bw_is shop2) (PostFormValue shop_token ''code_verifier'')) = EncodeToString ''v''"
    "PostFormValue shop_token ''code_verifier'' \<noteq> []" "PostFormValue shop_token ''redirect_uri'' = shop_uri" "PostFormValue shop_token ''client_id'' = ''shop''"
    by (simp_all add: PostFormValue_def shop_token_def)
  have e: "browser_codecs shop2" "same_browser shop2 shop3" "\<not> Db_fails (bw_db shop3) ConsumeOneTimeS" using shop_run_ok(2) [of 2] by (simp_all add: browser_codecs_def same_browser_def)
  have v: "SessionLive (bw_db shop3) ''s1'' (SD_auth (shop_db\<lparr>SD_onetime := [shop_row]\<rparr>)) = Inr shop_view" by (simp add: shop_live)
  obtain pair A where i: "Issue (bw_is shop3) \<lparr>II_Session = shop_view, II_TenantSlug = Tn_Slug demo_tenant, II_ClientID = ''shop'', II_RotateFrom = None, II_AccessOnly = False\<rparr>
      (SD_auth (shop_db\<lparr>SD_onetime := [shop_row]\<rparr>)) = Inr (pair, A)" using shop_issue_ok by auto
  have "Db_now (bw_db shop3) < Is_clock (bw_is shop2) + authCodeTTL" by (simp add: authCodeTTL_def)
  with code_redeems [OF e(1,2) shop_issues _ shop_code_nonempty refl e(3) f v] i show ?thesis by simp
qed

text \<open>Asking for a link tells nothing. While mail is configured, the page answers \<^emph>\<open>check your e-mail\<close> to every request with a valid form,
  whoever it names and whatever the tables hold, and sets no cookie.\<close>

theorem email_link_silent:
  assumes "Rq_formOK r" "checkLoginCSRF ev r (PostFormValue r ''csrf'')" "\<not> Bw_limited ev" "Bw_mail ev"
    and "secret_New (bw_is ev) 35 32 = Some token" "\<not> Db_fails (bw_db ev) CreateOneTimeS" "Is_hash (bw_is ev) token \<notin> OT_token_hash ` set (SD_onetime db)"
  shows "snd (snd (EmailLinkRequest ev r db)) = ([], SentPage)"
proof -
  have "CreateOneTime (bw_db ev) t ''email_login'' (Is_hash (bw_is ev) token) p e db \<noteq> Inl x" for t p e x
    using assms(6,7) by (simp add: CreateOneTime_def run_stmt_def one_time_kinds_def)
  then have "\<exists>d m. Link_Request ev i db = (d, Inr m)" for i
    using assms(4,5) by (auto simp: Link_Request_def Let_def split: sum.split option.split)
  then obtain d m where "Link_Request ev \<lparr>LR_Tenant = PostFormValue r ''tenant'',
      LR_Realm = (if PostFormValue r ''realm'' = [] then ''internal'' else PostFormValue r ''realm''), LR_Username = PostFormValue r ''username'',
      LR_Flow = map (\<lambda>k. (k, PostFormValue r k)) (filter (\<lambda>k. PostFormValue r k \<noteq> []) flow_keys)\<rparr> db = (d, Inr m)" by blast
  then show ?thesis using assms(1-3) by (simp add: EmailLinkRequest_def Let_def)
qed

theorem email_link_silent_witness:
  "snd (snd (EmailLinkRequest shop1 shop_login shop_db)) = ([], SentPage)"
  by (rule email_link_silent [where token = "EncodeToString (replicate 32 CHR ''a'')"]) (simp_all add: shop_login_form, simp_all add: shop_login_def shop_db_def)

section \<open>The other doors\<close>

text \<open>What the rest of the service does is \<open>elsewhere\<close> to the browser: everything that follows the contract of sessions, the API's
  password and second-factor doors, and enrolment.\<close>

definition sess_owner :: "Sess \<Rightarrow> string \<times> string \<times> string" where
  "sess_owner s = (Se_id s, Se_identity s, Se_tenant s)"

lemma owner_finish: "sess_owner \<circ> finish P = sess_owner"
  by (rule ext) (simp add: sess_owner_def)

lemma owners_life_step:
  "life_step M M' \<Longrightarrow> (\<exists>new. map sess_owner (Lf_sess M') = map sess_owner (Lf_sess M) @ new) \<and>
     (distinct (map Se_id (Lf_sess M)) \<longrightarrow> distinct (map Se_id (Lf_sess M')))"
  by (induction rule: life_step.induct) (auto simp: owner_finish)

lemma owners_life_steps:
  "life_steps M M' \<Longrightarrow> (\<exists>new. map sess_owner (Lf_sess M') = map sess_owner (Lf_sess M) @ new) \<and>
     (distinct (map Se_id (Lf_sess M)) \<longrightarrow> distinct (map Se_id (Lf_sess M')))"
proof (induction rule: rtranclp_induct)
  case (step M1 M2)
  from owners_life_step [OF step(2)] step(3) show ?case by (metis append.assoc)
qed simp

lemma owners_life:
  assumes "life_steps (life (SD_auth db)) (life (SD_auth db'))"
  shows "owners_grow db db'"
proof -
  have "map sess_owner (Lf_sess (life A)) = map session_owner (AB_sessions A)" "map Se_id (Lf_sess (life A)) = map SS_id (AB_sessions A)" for A
    by (simp_all add: session_owner_def sess_owner_def)
  with owners_life_steps [OF assms] show ?thesis unfolding owners_grow_def by (simp del: map_map)
qed

lemma session_contract_elsewhere:
  "auth_trans (SD_auth db) A \<Longrightarrow> life_ok (life (SD_auth db)) \<Longrightarrow> elsewhere db (db\<lparr>SD_auth := A\<rparr>)"
  by (auto simp: elsewhere_def intro!: owners_life auth_refines_steps)

lemma establish_elsewhere:
  assumes "establishSession se tn rl who client fp amr db = (db', x)" "fresh_env (Sg_issuer se) (SD_auth db)"
  shows "elsewhere db db'"
proof -
  from assms(1) have "SD_auth db' = fst (Establish (Sg_issuer se) tn rl who client fp amr (SD_auth db))" "SD_onetime db' = SD_onetime db"
    by (auto simp: establishSession_def split: prod.splits)
  with steps_Sign_in [OF assms(2)] show ?thesis by (auto simp: elsewhere_def intro!: owners_life)
qed

lemma elsewhere_Create:
  "CreateOneTime ev t kind h p e db = Inr (i, db') \<Longrightarrow> kind \<notin> browser_kinds \<Longrightarrow> elsewhere db db'"
  by (auto simp: CreateOneTime_def run_stmt_Inr elsewhere_def owners_grow_def split: if_splits)

lemma elsewhere_mfa: "CreateOneTime ev t ''mfa'' h p e db = Inr (i, db') \<Longrightarrow> elsewhere db db'"
  by (erule elsewhere_Create) (simp add: browser_kinds_def)

lemma elsewhere_same:
  "AB_sessions (SD_auth db1) = AB_sessions (SD_auth db) \<Longrightarrow> SD_onetime db1 = SD_onetime db \<Longrightarrow> elsewhere db1 db2 = elsewhere db db2"
  by (simp add: elsewhere_def owners_grow_def)

text \<open>The API's password door.\<close>

definition session_tables :: "SignDB \<Rightarrow> SessionRow list \<times> RefreshRow list \<times> OneTimeRow list" where
  "session_tables db = (AB_sessions (SD_auth db), AB_refresh (SD_auth db), SD_onetime db)"

lemma AuditLogin_tables: "session_tables (AuditLogin se t w su re de si db) = session_tables db"
  by (simp add: session_tables_def AuditLogin_def sign_emit_def Emit_def split: option.split)

lemma Authenticate_tables: "session_tables (fst (Authenticate se i su db)) = session_tables db"
proof -
  have "session_tables (fst (FactorPolicy se tn rl ident su d)) = session_tables d" for tn rl ident d
    by (simp add: FactorPolicy_def Let_def AuditLogin_tables split: sum.split prod.split)
  note f = this
  have g: "session_tables (rehash se b tn c pw db) = session_tables db" for b tn c pw by (simp add: session_tables_def rehash_tables)
  show ?thesis
  proof (cases rule: Authenticate_cases [of se i su db])
    case (refused db1 t r)
    then show ?thesis by (simp add: session_tables_def)
  next
    case (past tn rl x r ident c b)
    then show ?thesis by (simp add: AuditLogin_tables f g split: sum.split)
  qed
qed

lemma login_elsewhere:
  assumes "fresh_env (Sg_issuer se) (SD_auth db)"
  shows "elsewhere db (fst (Login_Execute se i db))"
proof -
  obtain db1 d where A: "Authenticate se i SurfaceAPI db = (db1, d)" by fastforce
  have same: "AB_sessions (SD_auth db1) = AB_sessions (SD_auth db)" "AB_refresh (SD_auth db1) = AB_refresh (SD_auth db)" "SD_onetime db1 = SD_onetime db"
    using Authenticate_tables [of se i SurfaceAPI db] A by (simp_all add: session_tables_def)
  have "elsewhere db1 (fst (Login_Execute se i db))"
  proof -
    have "fresh_env (Sg_issuer se) (SD_auth db1)" using assms unfolding fresh_env_def same(2) .
    then have "elsewhere db1 db2" if "establishSession se tn rl who client fp amr db1 = (db2, x)" for tn rl who client fp amr db2 x
      using that by (intro establish_elsewhere)
    moreover have "elsewhere db1 (AuditLogin se t w su re de si d') = elsewhere db1 d'" for t w su re de si d'
      by (simp add: elsewhere_def owners_grow_def AuditLogin_def sign_emit_def Emit_def split: option.split)
    moreover have "elsewhere db1 db1" by (simp add: elsewhere_def owners_grow_def)
    moreover have "elsewhere db1 db2" if "mintMFAChallenge se tn rl ident i m db1 = Inr (c, db2)" for tn rl ident m c db2
      using that by (auto simp: mintMFAChallenge_def browser_kinds_def dest: elsewhere_mfa split: option.splits sum.splits)
    ultimately show ?thesis by (auto simp: Login_Execute_def A split: SignStep.split option.split sum.split prod.split)
  qed
  then show ?thesis using elsewhere_same [OF same(1,3)] by simp
qed

lemma enrolment_elsewhere:
  "BeginTOTP se ctx g db = Inr (out, db') \<Longrightarrow> elsewhere db db'" "elsewhere db (fst (ConfirmTOTP se ctx etoken code g db))"
proof -
  show "BeginTOTP se ctx g db = Inr (out, db') \<Longrightarrow> elsewhere db db'"
    by (auto simp: BeginTOTP_def browser_kinds_def dest: elsewhere_mfa split: sum.splits option.splits)
  have "writes undefined [] (\<lambda>k. False) {} db (fst (ConfirmTOTP se ctx etoken code g db))" by (rule writes_Confirm)
  moreover have "set (SD_onetime (fst (ConfirmTOTP se ctx etoken code g db))) \<subseteq> set (SD_onetime db)"
  proof -
    have "WithinTx dev (confirm_tx se p st step m) x d = (d', y) \<Longrightarrow> SD_onetime d' = SD_onetime d" for dev p st step m x d d' y
      by (cases rule: WithinTx_cases [of dev "confirm_tx se p st step m" x d]) (auto dest: confirm_tx_frame)
    then show ?thesis
      by (auto simp: ConfirmTOTP_def sign_emit_def ConsumeOneTime_def run_stmt_def split: sum.splits option.splits bool.splits prod.splits if_splits)
  qed
  ultimately show "elsewhere db (fst (ConfirmTOTP se ctx etoken code g db))" by (auto simp: elsewhere_def writes_def dest: moves_owners)
qed

section \<open>Cookies a subdomain can plant\<close>

text \<open>In production a cookie without the \<^verbatim>\<open>__Host-\<close> prefix, which any subdomain can set for the whole domain, is accepted
  where the prefixed one is missing: whoever plants the forgery token of the login form passes its check.\<close>

lemma planted_cookie_accepted:
  assumes "map_of (Rq_cookies r) (''__Host-'' @ base) = None" "map_of (Rq_cookies r) base = Some v" "v \<noteq> []"
  shows "cookie_get True r base = v"
  using assms by (simp add: cookie_get_def cookie_name_def cookie_hardened_def)

lemma planted_form_accepted:
  assumes "Bw_prod ev" "map_of (Rq_cookies r) ''__Host-anubis_login'' = None" "map_of (Rq_cookies r) ''anubis_login'' = Some v" "v \<noteq> []" "PostFormValue r ''csrf'' = v"
  shows "checkLoginCSRF ev r (PostFormValue r ''csrf'')"
  using assms planted_cookie_accepted [of r loginCSRFBase v] by (simp add: checkLoginCSRF_def Let_def loginCSRFBase_def)

end
