(* ===== verification/Scope_Feed.thy ===== *)
theory Scope_Feed
  imports Go_Prelude "HOL-Library.Multiset"
begin

text \<open>
  \<^verbatim>\<open>internal/scope/domain/sync_feed_sort.go\<close>: a feed of places is put in an order in which every parent comes before its
  children, by an iterative depth-first walk up the parents. The walk is a loop with no bound of its own, so it is a
  partial function whose value is absent where the loop would not end; that it always ends is part of the theorem.
\<close>

section \<open>The sort\<close>

record SyncFeedRow =
  SF_Ref :: string
  SF_ParentRef :: string
  SF_Name :: string
  SF_NodeType :: string

datatype feed_state = unvisited | inStack | finished

text \<open>The first row of each reference.\<close>

fun feed_index :: "nat \<Rightarrow> (string, nat) gomap \<Rightarrow> SyncFeedRow list \<Rightarrow> (string, nat) gomap" where
  "feed_index i index [] = index"
| "feed_index i index (r # rs) =
     feed_index (Suc i) (case map_of index (SF_Ref r) of None \<Rightarrow> map_put (SF_Ref r) i index | Some _ \<Rightarrow> index) rs"

definition feed_parent :: "SyncFeedRow list \<Rightarrow> (string, nat) gomap \<Rightarrow> nat \<Rightarrow> nat option" where
  "feed_parent rows index i =
     (case map_of index (SF_ParentRef (rows ! i)) of
        None \<Rightarrow> None
      | Some parent \<Rightarrow> if SF_ParentRef (rows ! i) = [] \<or> parent = i then None else Some parent)"

text \<open>The inner loop; the top of the stack is its head.\<close>

partial_function (option) feed_walk ::
  "SyncFeedRow list \<Rightarrow> (string, nat) gomap \<Rightarrow> nat \<Rightarrow> nat list \<Rightarrow> feed_state list \<Rightarrow> SyncFeedRow list \<Rightarrow>
    (feed_state list \<times> SyncFeedRow list) option" where
  "feed_walk rows index i stack state out =
     (if state ! i = finished then Some (state, out)
      else if (case feed_parent rows index i of None \<Rightarrow> False | Some parent \<Rightarrow> state ! parent = unvisited)
      then feed_walk rows index (the (feed_parent rows index i)) (i # stack) (state[i := inStack]) out
      else case stack of
        [] \<Rightarrow> Some (state[i := finished], out @ [rows ! i])
      | j # rest \<Rightarrow> feed_walk rows index j rest (state[i := finished]) (out @ [rows ! i]))"

fun feed_starts ::
  "SyncFeedRow list \<Rightarrow> (string, nat) gomap \<Rightarrow> nat list \<Rightarrow> feed_state list \<Rightarrow> SyncFeedRow list \<Rightarrow> (feed_state list \<times> SyncFeedRow list) option" where
  "feed_starts rows index [] state out = Some (state, out)"
| "feed_starts rows index (start # starts) state out =
     (if state ! start \<noteq> unvisited then feed_starts rows index starts state out
      else case feed_walk rows index start [] state out of
        None \<Rightarrow> None | Some (state', out') \<Rightarrow> feed_starts rows index starts state' out')"

definition SortFeedParentsFirst :: "SyncFeedRow list \<Rightarrow> SyncFeedRow list option" where
  "SortFeedParentsFirst rows =
     (if length rows < 2 then Some rows
      else case feed_starts rows (feed_index 0 [] rows) [0..<length rows] (replicate (length rows) unvisited) [] of
        None \<Rightarrow> None
      | Some (state, out) \<Rightarrow> Some (out @ map ((!) rows) (filter (\<lambda>i. state ! i \<noteq> finished) [0..<length rows])))"

section \<open>Whose parent is whose\<close>

text \<open>Row \<open>p\<close> is the parent of row \<open>i\<close>: the first row with the reference \<open>i\<close> names.\<close>

definition parent_row :: "SyncFeedRow list \<Rightarrow> nat \<Rightarrow> nat \<Rightarrow> bool" where
  "parent_row rows i p \<longleftrightarrow> SF_ParentRef (rows ! i) \<noteq> [] \<and> p \<noteq> i \<and> p < length rows \<and>
     SF_Ref (rows ! p) = SF_ParentRef (rows ! i) \<and> (\<forall>q<p. SF_Ref (rows ! q) \<noteq> SF_ParentRef (rows ! i))"

lemma feed_index_map_of:
  "map_of (feed_index i index rs) r =
     (case map_of index r of Some p \<Rightarrow> Some p
      | None \<Rightarrow> map_option ((+) i) (if \<exists>k<length rs. SF_Ref (rs ! k) = r then Some (LEAST k. k < length rs \<and> SF_Ref (rs ! k) = r) else None))"
proof (induction rs arbitrary: i index)
  case (Cons x rs)
  let ?index = "case map_of index (SF_Ref x) of None \<Rightarrow> map_put (SF_Ref x) i index | Some _ \<Rightarrow> index"
  show ?case
  proof (cases "map_of index r")
    case None
    show ?thesis
    proof (cases "SF_Ref x = r")
      case True
      then have "(LEAST k. k < length (x # rs) \<and> SF_Ref ((x # rs) ! k) = r) = 0" by (intro Least_equality) auto
      moreover have "map_of ?index r = Some i" using True None by (simp add: go_simps)
      moreover have "\<exists>k<length (x # rs). SF_Ref ((x # rs) ! k) = r" using True by (intro exI [of _ 0]) simp
      ultimately show ?thesis using None Cons by simp
    next
      case False
      then have old: "map_of ?index r = None" using None by (simp add: go_simps split: option.split)
      have ex: "(\<exists>k<length (x # rs). SF_Ref ((x # rs) ! k) = r) \<longleftrightarrow> (\<exists>k<length rs. SF_Ref (rs ! k) = r)"
        using False by (auto simp: less_Suc_eq_0_disj)
      have "(LEAST k. k < length (x # rs) \<and> SF_Ref ((x # rs) ! k) = r) = Suc (LEAST k. k < length rs \<and> SF_Ref (rs ! k) = r)"
        if "\<exists>k<length rs. SF_Ref (rs ! k) = r"
      proof -
        from that obtain k where "k < length rs \<and> SF_Ref (rs ! k) = r" by blast
        then have "Suc k < length (x # rs) \<and> SF_Ref ((x # rs) ! Suc k) = r" by simp
        from Least_Suc [of "\<lambda>k. k < length (x # rs) \<and> SF_Ref ((x # rs) ! k) = r", OF this] False show ?thesis by simp
      qed
      with Cons [of "Suc i" ?index] old None ex show ?thesis by simp
    qed
  qed (auto simp: Cons go_simps split: option.split)
qed (simp split: option.split)

lemma feed_parent_row: "feed_parent rows (feed_index 0 [] rows) i = Some p \<longleftrightarrow> parent_row rows i p"
proof -
  let ?r = "SF_ParentRef (rows ! i)" and ?P = "\<lambda>k. k < length rows \<and> SF_Ref (rows ! k) = SF_ParentRef (rows ! i)"
  have "map_of (feed_index 0 [] rows) ?r = Some q \<longleftrightarrow> q < length rows \<and> SF_Ref (rows ! q) = ?r \<and> (\<forall>k<q. SF_Ref (rows ! k) \<noteq> ?r)" for q
  proof
    assume "map_of (feed_index 0 [] rows) ?r = Some q"
    then have ex: "\<exists>k. ?P k" and q: "q = (LEAST k. ?P k)" by (auto simp: feed_index_map_of split: if_splits)
    have "?P q" unfolding q using ex by (rule LeastI_ex)
    moreover have "\<not> ?P k" if "k < q" for k using that unfolding q by (rule not_less_Least)
    ultimately show "q < length rows \<and> SF_Ref (rows ! q) = ?r \<and> (\<forall>k<q. SF_Ref (rows ! k) \<noteq> ?r)" by fastforce
  next
    assume q: "q < length rows \<and> SF_Ref (rows ! q) = ?r \<and> (\<forall>k<q. SF_Ref (rows ! k) \<noteq> ?r)"
    then have "(LEAST k. ?P k) = q" by (intro Least_equality) (auto simp: not_less [symmetric])
    with q show "map_of (feed_index 0 [] rows) ?r = Some q" by (auto simp: feed_index_map_of)
  qed
  note first = this
  show ?thesis
  proof (cases "map_of (feed_index 0 [] rows) ?r")
    case None
    with first [of p] show ?thesis by (auto simp: feed_parent_def parent_row_def)
  next
    case (Some q)
    with first [of q] first [of p] show ?thesis by (auto simp: feed_parent_def parent_row_def)
  qed
qed

section \<open>The walk\<close>

definition climbs :: "SyncFeedRow list \<Rightarrow> (nat \<times> nat) set" where
  "climbs rows = {(i, p). parent_row rows i p}"

text \<open>Row \<open>i\<close> is its own ancestor.\<close>

definition on_cycle :: "SyncFeedRow list \<Rightarrow> nat \<Rightarrow> bool" where
  "on_cycle rows i \<longleftrightarrow> (i, i) \<in> (climbs rows)\<^sup>+"

text \<open>In the order \<open>E\<close> of row numbers every parent stands before its child, but for rows on a cycle.\<close>

definition parents_first :: "SyncFeedRow list \<Rightarrow> nat list \<Rightarrow> bool" where
  "parents_first rows E \<longleftrightarrow> (\<forall>xs i ys p. E = xs @ i # ys \<and> parent_row rows i p \<longrightarrow> on_cycle rows i \<or> p \<in> set xs)"

text \<open>The rows walked down from, each the child of the one above it.\<close>

fun descends :: "SyncFeedRow list \<Rightarrow> nat list \<Rightarrow> bool" where
  "descends rows (a # b # rest) \<longleftrightarrow> parent_row rows b a \<and> descends rows (b # rest)"
| "descends rows _ \<longleftrightarrow> True"

definition placed :: "SyncFeedRow list \<Rightarrow> feed_state list \<Rightarrow> nat list \<Rightarrow> bool" where
  "placed rows state E \<longleftrightarrow> length state = length rows \<and> distinct E \<and> set E = {k. k < length rows \<and> state ! k = finished} \<and> parents_first rows E"

definition walking :: "SyncFeedRow list \<Rightarrow> nat \<Rightarrow> nat list \<Rightarrow> feed_state list \<Rightarrow> nat list \<Rightarrow> bool" where
  "walking rows i stack state E \<longleftrightarrow> placed rows state E \<and> set (i # stack) \<subseteq> {..<length rows} \<and> distinct (i # stack) \<and> descends rows (i # stack) \<and>
     {k. k < length rows \<and> state ! k = inStack} = set stack \<union> (if state ! i = inStack then {i} else {}) \<and> state ! i \<noteq> finished \<and>
     (state ! i = inStack \<longrightarrow> (\<forall>p. parent_row rows i p \<longrightarrow> state ! p = finished))"

definition weight :: "feed_state \<Rightarrow> nat" where
  "weight s = (case s of unvisited \<Rightarrow> 2 | inStack \<Rightarrow> 1 | finished \<Rightarrow> 0)"

lemma weight_less:
  assumes "i < length state" "weight s < weight (state ! i)"
  shows "sum_list (map weight (state[i := s])) < sum_list (map weight state)"
proof -
  have "map weight state ! i \<le> sum_list (map weight state)" using assms(1) by (intro elem_le_sum_list) simp
  moreover have "sum_list (map weight (state[i := s])) = sum_list (map weight state) + weight s - map weight state ! i"
    using assms(1) by (simp add: map_update sum_list_update)
  ultimately show ?thesis using assms by simp
qed

lemma descends_reach: "descends rows (i # stack) \<Longrightarrow> q \<in> set stack \<Longrightarrow> (q, i) \<in> (climbs rows)\<^sup>+"
proof (induction stack arbitrary: i)
  case (Cons b stack)
  then have e: "(b, i) \<in> climbs rows" by (simp add: climbs_def)
  show ?case
  proof (cases "q = b")
    case True
    with e show ?thesis by blast
  next
    case False
    with Cons have "(q, b) \<in> (climbs rows)\<^sup>+" by simp
    then show ?thesis using e by (rule trancl_into_trancl)
  qed
qed simp

lemma parent_unique: "parent_row rows i p \<Longrightarrow> parent_row rows i q \<Longrightarrow> p = q"
  unfolding parent_row_def by (metis linorder_neqE_nat)

lemma parents_first_snoc:
  assumes "parents_first rows E" "\<And>p. parent_row rows i p \<Longrightarrow> on_cycle rows i \<or> p \<in> set E"
  shows "parents_first rows (E @ [i])"
  unfolding parents_first_def
proof (intro allI impI)
  fix xs j ys p assume a: "E @ [i] = xs @ j # ys \<and> parent_row rows j p"
  show "on_cycle rows j \<or> p \<in> set xs"
  proof (cases ys rule: rev_cases)
    case Nil
    with a assms(2) show ?thesis by auto
  next
    case (snoc zs z)
    with a have "E = xs @ j # zs" by simp
    with a assms(1) show ?thesis unfolding parents_first_def by blast
  qed
qed

text \<open>Emitting row \<open>i\<close> when its parent, if it has one, is placed already or is waiting below it on the stack.\<close>

lemma placed_emit:
  assumes w: "walking rows i stack state E" and p: "\<And>p. parent_row rows i p \<Longrightarrow> state ! p \<noteq> unvisited"
  shows "placed rows (state[i := finished]) (E @ [i])"
proof -
  note d = w [unfolded walking_def placed_def]
  have i: "i < length rows" "i \<notin> set E" using d by auto
  have "on_cycle rows i \<or> p \<in> set E" if "parent_row rows i p" for p
  proof (cases "state ! p")
    case inStack
    with that d have "p \<in> set stack" by (auto simp: parent_row_def split: if_splits)
    with d have "(p, i) \<in> (climbs rows)\<^sup>+" by (intro descends_reach) auto
    moreover have "(i, p) \<in> climbs rows" using that by (simp add: climbs_def)
    ultimately show ?thesis by (auto simp: on_cycle_def intro: trancl_into_trancl2)
  qed (use d that p in \<open>auto simp: parent_row_def\<close>)
  then have "parents_first rows (E @ [i])" using d by (intro parents_first_snoc) auto
  moreover have "set (E @ [i]) = {k. k < length rows \<and> state[i := finished] ! k = finished}"
    using d i by (auto simp: nth_list_update)
  ultimately show ?thesis using d i by (simp add: placed_def)
qed

lemma walk_pop:
  assumes w: "walking rows i (j # stack) state E" and p: "\<And>p. parent_row rows i p \<Longrightarrow> state ! p \<noteq> unvisited"
  shows "walking rows j stack (state[i := finished]) (E @ [i])"
proof -
  note d = w [unfolded walking_def]
  have ij: "i < length rows" "j < length rows" "i \<noteq> j" "length state = length rows" using d by (auto simp: placed_def)
  have j: "state ! j = inStack" using d by auto
  have "state[i := finished] ! p = finished" if "parent_row rows j p" for p
    using that d parent_unique [of rows j p i] ij by simp
  moreover have "{k. k < length rows \<and> state[i := finished] ! k = inStack} = set stack \<union> {j}"
    using d ij by (auto simp: nth_list_update split: if_splits)
  moreover have "descends rows (j # stack)" using d by (cases stack) auto
  ultimately show ?thesis
    using placed_emit [OF w p] d ij j unfolding walking_def by simp
qed

lemma walk_push:
  assumes w: "walking rows i stack state E" and p: "parent_row rows i p" "state ! p = unvisited"
  shows "walking rows p (i # stack) (state[i := inStack]) E" "state ! i = unvisited"
proof -
  note d = w [unfolded walking_def]
  have i: "i < length rows" "p < length rows" "p \<noteq> i" "length state = length rows" using d p(1) by (auto simp: placed_def parent_row_def)
  have np: "state ! i \<noteq> inStack" using d p by auto
  then show u: "state ! i = unvisited" using d by (cases "state ! i") auto
  have "\<forall>k\<in>set stack. state ! k = inStack" using d by blast
  then have "p \<notin> set stack" using p(2) by auto
  moreover have "placed rows (state[i := inStack]) E" using d i u unfolding placed_def by (auto simp: nth_list_update)
  moreover have "{k. k < length rows \<and> state[i := inStack] ! k = inStack} = set (i # stack)"
    using d i np by (auto simp: nth_list_update split: if_splits)
  ultimately show "walking rows p (i # stack) (state[i := inStack]) E"
    using d i p unfolding walking_def by simp
qed

lemma walk_ends:
  "walking rows i stack state E \<Longrightarrow> \<exists>state' E'. feed_walk rows (feed_index 0 [] rows) i stack state (map ((!) rows) E) = Some (state', map ((!) rows) E') \<and>
     placed rows state' E' \<and> (\<forall>k<length rows. state' ! k \<noteq> inStack) \<and> (\<forall>k<length rows. state ! k = finished \<longrightarrow> state' ! k = finished) \<and> (\<forall>k\<in>set (i # stack). state' ! k = finished)"
proof (induction "sum_list (map weight state)" arbitrary: i stack state E rule: less_induct)
  case less
  note w = less.prems
  note d = w [unfolded walking_def placed_def]
  have i: "i < length state" "i < length rows" using d by auto
  let ?x = "feed_index 0 [] rows"
  show ?case
  proof (cases "\<exists>p. parent_row rows i p \<and> state ! p = unvisited")
    case True
    then obtain p where p: "parent_row rows i p" "state ! p = unvisited" by blast
    note push = walk_push [OF w p]
    have "sum_list (map weight (state[i := inStack])) < sum_list (map weight state)" using i push(2) by (intro weight_less) (auto simp: weight_def)
    from less.hyps [OF this push(1)] obtain state' E' where r:
      "feed_walk rows ?x p (i # stack) (state[i := inStack]) (map ((!) rows) E) = Some (state', map ((!) rows) E')"
      "placed rows state' E'" "\<forall>k<length rows. state' ! k \<noteq> inStack" "\<forall>k<length rows. state[i := inStack] ! k = finished \<longrightarrow> state' ! k = finished"
      "\<forall>k\<in>set (p # i # stack). state' ! k = finished" by blast
    have "feed_walk rows ?x i stack state (map ((!) rows) E) = Some (state', map ((!) rows) E')"
      using p d r(1) feed_parent_row [of rows i p] by (subst feed_walk.simps) simp
    moreover have "\<forall>k<length rows. state ! k = finished \<longrightarrow> state' ! k = finished" using r(4) push(2) by (metis feed_state.distinct(4) nth_list_update_neq)
    ultimately show ?thesis using r by auto
  next
    case False
    then have p: "\<And>p. parent_row rows i p \<Longrightarrow> state ! p \<noteq> unvisited" by blast
    have "sum_list (map weight (state[i := finished])) < sum_list (map weight state)"
      using i d by (intro weight_less) (auto simp: weight_def split: feed_state.split)
    note ih = less.hyps [OF this]
    have step: "feed_walk rows ?x i stack state (map ((!) rows) E) = (case stack of
        [] \<Rightarrow> Some (state[i := finished], map ((!) rows) (E @ [i]))
      | j # rest \<Rightarrow> feed_walk rows ?x j rest (state[i := finished]) (map ((!) rows) (E @ [i])))"
      using p d feed_parent_row [of rows i] by (subst feed_walk.simps) (auto split: option.split list.split)
    show ?thesis
    proof (cases stack)
      case Nil
      have "\<forall>k<length rows. state[i := finished] ! k \<noteq> inStack" "state[i := finished] ! i = finished"
        "\<forall>k<length rows. state ! k = finished \<longrightarrow> state[i := finished] ! k = finished"
        using d i Nil by (auto simp: nth_list_update split: if_splits)
      moreover have "feed_walk rows ?x i stack state (map ((!) rows) E) = Some (state[i := finished], map ((!) rows) (E @ [i]))" using step Nil by simp
      ultimately show ?thesis using placed_emit [OF w p] Nil by (intro exI [of _ "state[i := finished]"] exI [of _ "E @ [i]"]) simp
    next
      case (Cons j rest)
      from ih [OF walk_pop [OF w [unfolded Cons] p]] obtain state' E' where
        r: "feed_walk rows ?x j rest (state[i := finished]) (map ((!) rows) (E @ [i])) = Some (state', map ((!) rows) E')" "placed rows state' E'"
        "\<forall>k<length rows. state' ! k \<noteq> inStack" "\<forall>k<length rows. state[i := finished] ! k = finished \<longrightarrow> state' ! k = finished" "\<forall>k\<in>set (j # rest). state' ! k = finished" by blast
      have "state' ! i = finished" "\<forall>k<length rows. state ! k = finished \<longrightarrow> state' ! k = finished" using r(4) i by (auto simp: nth_list_update)
      with step Cons r show ?thesis by auto
    qed
  qed
qed

lemma starts_end:
  "placed rows state E \<Longrightarrow> \<forall>k<length rows. state ! k \<noteq> inStack \<Longrightarrow> set starts \<subseteq> {..<length rows} \<Longrightarrow>
   \<exists>state' E'. feed_starts rows (feed_index 0 [] rows) starts state (map ((!) rows) E) = Some (state', map ((!) rows) E') \<and> placed rows state' E' \<and>
     (\<forall>k<length rows. state ! k = finished \<or> k \<in> set starts \<longrightarrow> state' ! k = finished)"
proof (induction starts arbitrary: state E)
  case (Cons start starts)
  show ?case
  proof (cases "state ! start = unvisited")
    case False
    with Cons.prems have f: "state ! start = finished" by (cases "state ! start") auto
    from Cons.IH [of state E] Cons.prems obtain state' E' where
      "feed_starts rows (feed_index 0 [] rows) starts state (map ((!) rows) E) = Some (state', map ((!) rows) E')" "placed rows state' E'"
      "\<forall>k<length rows. state ! k = finished \<or> k \<in> set starts \<longrightarrow> state' ! k = finished" by auto
    with False f show ?thesis by auto
  next
    case True
    have "walking rows start [] state E" using Cons.prems True by (auto simp: walking_def)
    from walk_ends [OF this] obtain state1 E1 where
      w: "feed_walk rows (feed_index 0 [] rows) start [] state (map ((!) rows) E) = Some (state1, map ((!) rows) E1)" "placed rows state1 E1"
      "\<forall>k<length rows. state1 ! k \<noteq> inStack" "\<forall>k<length rows. state ! k = finished \<longrightarrow> state1 ! k = finished" "state1 ! start = finished" by auto
    from Cons.IH [OF w(2,3)] Cons.prems(3) obtain state' E' where
      "feed_starts rows (feed_index 0 [] rows) starts state1 (map ((!) rows) E1) = Some (state', map ((!) rows) E')" "placed rows state' E'"
      "\<forall>k<length rows. state1 ! k = finished \<or> k \<in> set starts \<longrightarrow> state' ! k = finished" by auto
    with True w show ?thesis by auto
  qed
qed auto

lemma feed_sorted:
  "\<exists>E. SortFeedParentsFirst rows = Some (map ((!) rows) E) \<and> distinct E \<and> set E = {..<length rows} \<and> parents_first rows E"
proof (cases "length rows < 2")
  case True
  have "\<not> parent_row rows i p" if "i < length rows" for i p using True that by (auto simp: parent_row_def)
  then have "parents_first rows [0..<length rows]"
    unfolding parents_first_def by (metis atLeast0LessThan atLeast_upt in_set_conv_decomp lessThan_iff)
  with True show ?thesis by (intro exI [of _ "[0..<length rows]"]) (auto simp: SortFeedParentsFirst_def map_nth)
next
  case False
  let ?s = "replicate (length rows) unvisited"
  have "placed rows ?s []" by (auto simp: placed_def parents_first_def)
  from starts_end [OF this, of "[0..<length rows]"] obtain state E where
    e: "feed_starts rows (feed_index 0 [] rows) [0..<length rows] ?s [] = Some (state, map ((!) rows) E)" "placed rows state E"
    "\<forall>k<length rows. state ! k = finished" by (auto simp: atLeast0LessThan)
  moreover have "filter (\<lambda>i. state ! i \<noteq> finished) [0..<length rows] = []" using e(3) by (simp add: filter_empty_conv)
  ultimately have "SortFeedParentsFirst rows = Some (map ((!) rows) E)" using False by (simp add: SortFeedParentsFirst_def)
  moreover have "distinct E" "set E = {..<length rows}" "parents_first rows E" using e(2,3) by (auto simp: placed_def)
  ultimately show ?thesis by blast
qed

text \<open>C32. Feeds are put in order. For every feed -- with repeated references, unknown parents or cycles -- the sort ends and answers
  a reordering of exactly its rows, in which a row's parent (the first row with the reference it names) stands before
  the row, for every row that is not its own ancestor; no row is dropped or repeated.\<close>

theorem feed_parents_first:
  "\<exists>E. SortFeedParentsFirst rows = Some (map ((!) rows) E) \<and> mset (map ((!) rows) E) = mset rows \<and> distinct E \<and> set E = {..<length rows} \<and>
     parents_first rows E"
proof -
  obtain E where e: "SortFeedParentsFirst rows = Some (map ((!) rows) E)" "distinct E" "set E = {..<length rows}" "parents_first rows E"
    using feed_sorted by blast
  have "mset E = mset [0..<length rows]" using set_eq_iff_mset_eq_distinct [of E "[0..<length rows]"] e(2,3) by (simp add: atLeast0LessThan)
  then have "mset (map ((!) rows) E) = mset (map ((!) rows) [0..<length rows])" by simp
  with e show ?thesis by (auto simp: map_nth)
qed

end
