(* ===== verification/Audit_Chain.thy ===== *)
theory Audit_Chain
  imports Session_Store Access_Token Totp "HOL-Library.Multiset"
begin

text \<open>
  \<^verbatim>\<open>internal/audit/adapter/postgres\<close>: the audit log, one hash chain per tenant. An event goes through a bounded queue to
  \<open>append\<close>, which writes the next entry under the hash of the one before; \<open>VerifyChain\<close> recomputes the chain in
  batches, \<open>AnchorChain\<close> signs its head and \<open>VerifyAnchors\<close> compares the signed heads with the log as it stands.

  SHA-256, the JSON reading of a detail, what a \<^verbatim>\<open>jsonb\<close> column hands back, UUID and address parsing and Ed25519 are
  parameters. The advisory lock makes an append one step per tenant. The log is the list of its rows.
\<close>

section \<open>Rows and events\<close>

record ChainEvent =
  AV_TenantID :: string
  AV_ActorID :: string
  AV_ActorKind :: string
  AV_TargetID :: string
  AV_SessionID :: string
  AV_Action :: string
  AV_Result :: string
  AV_IP :: string
  AV_Detail :: string

record AuditLogRow =
  AL_tenant_id :: string
  AL_seq :: int
  AL_actor_id :: "string option"
  AL_target_id :: "string option"
  AL_session_id :: "string option"
  AL_action :: string
  AL_result :: string
  AL_actor_kind :: string
  AL_ip :: "string option"
  AL_detail :: string
  AL_prev_hash :: "string option"
  AL_entry_hash :: string
  AL_occurred_at :: time

record AuditRecord =
  Ar_OccurredAt :: time
  Ar_Seq :: int
  Ar_ActorID :: string
  Ar_ActorKind :: string
  Ar_TargetID :: string
  Ar_SessionID :: string
  Ar_Action :: string
  Ar_Result :: string
  Ar_Detail :: string
  Ar_PrevHash :: string
  Ar_EntryHash :: string

record Anchor =
  An_Seq :: int
  An_EntryHash :: string
  An_Kid :: string
  An_Signature :: string

record AuditDB =
  AD_log :: "AuditLogRow list"
  AD_anchors :: "(string \<times> Anchor) list"

text \<open>\<open>Au_recode\<close> decodes a detail and marshals it again; \<open>Au_jsonb\<close> is what the column hands back; \<open>Au_uuid\<close> is the
  text of the id that was parsed.\<close>

record AuditEnv =
  Au_sha256 :: "string \<Rightarrow> string"
  Au_recode :: "string \<Rightarrow> string option"
  Au_jsonb :: "string \<Rightarrow> string option"
  Au_uuid :: "string \<Rightarrow> string option"
  Au_inet :: "string \<Rightarrow> string option"
  Au_ed :: ed25519
  Au_ring :: Ring
  Au_clock :: time
  Au_db :: DbEnv

section \<open>The hash of an entry\<close>

definition canonicalJSON :: "AuditEnv \<Rightarrow> string \<Rightarrow> string" where
  "canonicalJSON ev b =
     (if length b = 0 then []
      else case Au_recode ev b of
        None \<Rightarrow> b
      | Some out \<Rightarrow> if out = ''{}'' then [] else out)"

definition nul :: char where "nul = char_of (0 :: nat)"

definition chain_input :: "string \<Rightarrow> int \<Rightarrow> ChainEvent \<Rightarrow> string \<Rightarrow> string" where
  "chain_input prev seq e detail =
     prev @ PutUint64 (word_of_int seq) @
     concat (map (\<lambda>s. s @ [nul]) [AV_TenantID e, AV_Action e, AV_Result e, AV_ActorID e, AV_TargetID e, AV_SessionID e]) @ detail"

definition chainHashDetail :: "AuditEnv \<Rightarrow> string \<Rightarrow> int \<Rightarrow> ChainEvent \<Rightarrow> string \<Rightarrow> string" where
  "chainHashDetail ev prev seq e detail = Au_sha256 ev (chain_input prev seq e detail)"

definition chainHash :: "AuditEnv \<Rightarrow> string \<Rightarrow> int \<Rightarrow> ChainEvent \<Rightarrow> string" where
  "chainHash ev prev seq e = chainHashDetail ev prev seq e (canonicalJSON ev (AV_Detail e))"

section \<open>Appending\<close>

definition tenant_rows :: "string \<Rightarrow> AuditDB \<Rightarrow> AuditLogRow list" where
  "tenant_rows tid db = sort_key AL_seq (filter (\<lambda>r. AL_tenant_id r = tid) (AD_log db))"

definition LockAuditChain :: "AuditEnv \<Rightarrow> string \<Rightarrow> unit result" where
  "LockAuditChain ev tenantID = run_stmt (Au_db ev) LockAuditChainS (Inr ())"

definition LastAuditEntry :: "AuditEnv \<Rightarrow> string \<Rightarrow> AuditDB \<Rightarrow> (int \<times> string) result" where
  "LastAuditEntry ev tenantID db =
     (case Au_uuid ev tenantID of None \<Rightarrow> Inl ErrInvalidArgument | Some tid \<Rightarrow>
      run_stmt (Au_db ev) LastAuditEntryS
        (let rows = tenant_rows tid db in
         if rows = [] then Inr (0, []) else Inr (AL_seq (last rows), AL_entry_hash (last rows))))"

definition setOptUUID :: "AuditEnv \<Rightarrow> string \<Rightarrow> string option result" where
  "setOptUUID ev v = (if v = [] then Inr None else case Au_uuid ev v of None \<Rightarrow> Inl ErrInvalidArgument | Some u \<Rightarrow> Inr (Some u))"

definition parseIP :: "AuditEnv \<Rightarrow> string \<Rightarrow> string option result" where
  "parseIP ev s = (if s = [] then Inr None else case Au_inet ev s of None \<Rightarrow> Inl ErrInvalidArgument | Some p \<Rightarrow> Inr (Some p))"

definition audit_results :: "string list" where
  "audit_results = [''allow'', ''deny'', ''error'']"

definition InsertAudit :: "AuditEnv \<Rightarrow> ChainEvent \<Rightarrow> int \<Rightarrow> string \<Rightarrow> string \<Rightarrow> AuditDB \<Rightarrow> AuditDB result" where
  "InsertAudit ev e seq prevHash entryHash db =
     (case Au_uuid ev (AV_TenantID e) of None \<Rightarrow> Inl ErrInvalidArgument | Some tid \<Rightarrow>
      and_then (setOptUUID ev (AV_ActorID e)) (\<lambda>actor.
      and_then (setOptUUID ev (AV_TargetID e)) (\<lambda>target.
      and_then (setOptUUID ev (AV_SessionID e)) (\<lambda>sess.
      and_then (parseIP ev (AV_IP e)) (\<lambda>ip.
      run_stmt (Au_db ev) InsertAuditS
        (case Au_jsonb ev (OrEmptyJSON (AV_Detail e)) of
           None \<Rightarrow> Inl ErrInvalidArgument
         | Some detail \<Rightarrow>
             if AV_Result e \<notin> set audit_results then Inl ErrInvalidArgument
             else Inr (db\<lparr>AD_log := AD_log db @
               [\<lparr>AL_tenant_id = tid, AL_seq = seq, AL_actor_id = actor, AL_target_id = target, AL_session_id = sess,
                 AL_action = AV_Action e, AL_result = AV_Result e, AL_actor_kind = AV_ActorKind e, AL_ip = ip, AL_detail = detail,
                 AL_prev_hash = (if prevHash = [] then None else Some prevHash), AL_entry_hash = entryHash,
                 AL_occurred_at = Db_now (Au_db ev)\<rparr>]\<rparr>)))))))"

definition append_tx :: "AuditEnv \<Rightarrow> ChainEvent \<Rightarrow> AuditDB \<Rightarrow> (unit \<times> AuditDB) result" where
  "append_tx ev e db =
     and_then (LockAuditChain ev (AV_TenantID e)) (\<lambda>_.
     and_then (LastAuditEntry ev (AV_TenantID e) db) (\<lambda>(seq, prevHash).
     let nxt = int64 (seq + 1); entryHash = chainHash ev prevHash nxt e in
     and_then (InsertAudit ev e nxt prevHash entryHash db) (\<lambda>db'. Inr ((), db'))))"

definition audit_append :: "AuditEnv \<Rightarrow> ChainEvent \<Rightarrow> AuditDB \<Rightarrow> AuditDB \<times> unit result" where
  "audit_append ev e db = WithinTx (Au_db ev) (append_tx ev e) ErrInternal db"

section \<open>The queue\<close>

text \<open>The channel of 4096, the log, and the count of events that never reached it. \<open>Emit\<close> answers \<open>None\<close> while it blocks.\<close>

record Auditor =
  Aq_queue :: "ChainEvent list"
  Aq_db :: AuditDB
  Aq_dropped :: "ChainEvent list"

definition queue_cap :: nat where "queue_cap = 4096"

definition audit_Emit :: "ChainEvent \<Rightarrow> Auditor \<Rightarrow> Auditor option" where
  "audit_Emit e a =
     (if AV_TenantID e = [] then Some (a\<lparr>Aq_dropped := Aq_dropped a @ [e]\<rparr>)
      else if AV_Action e = ''authorize'' then
        (if length (Aq_queue a) < queue_cap then Some (a\<lparr>Aq_queue := Aq_queue a @ [e]\<rparr>)
         else Some (a\<lparr>Aq_dropped := Aq_dropped a @ [e]\<rparr>))
      else if length (Aq_queue a) < queue_cap then Some (a\<lparr>Aq_queue := Aq_queue a @ [e]\<rparr>)
      else None)"

definition audit_run :: "AuditEnv \<Rightarrow> Auditor \<Rightarrow> Auditor" where
  "audit_run ev a =
     (case Aq_queue a of [] \<Rightarrow> a
      | e # rest \<Rightarrow>
          (case audit_append ev e (Aq_db a) of
             (db, Inl err) \<Rightarrow> a\<lparr>Aq_queue := rest, Aq_db := db, Aq_dropped := Aq_dropped a @ [e]\<rparr>
           | (db, Inr _) \<Rightarrow> a\<lparr>Aq_queue := rest, Aq_db := db\<rparr>))"

section \<open>Verifying\<close>

definition record_of :: "AuditLogRow \<Rightarrow> AuditRecord" where
  "record_of r = \<lparr>Ar_OccurredAt = AL_occurred_at r, Ar_Seq = AL_seq r, Ar_ActorID = nstr (AL_actor_id r), Ar_ActorKind = AL_actor_kind r,
     Ar_TargetID = nstr (AL_target_id r), Ar_SessionID = nstr (AL_session_id r), Ar_Action = AL_action r, Ar_Result = AL_result r,
     Ar_Detail = AL_detail r, Ar_PrevHash = nstr (AL_prev_hash r), Ar_EntryHash = AL_entry_hash r\<rparr>"

definition in_window :: "time option \<Rightarrow> time option \<Rightarrow> AuditLogRow \<Rightarrow> bool" where
  "in_window t_from t_to r \<longleftrightarrow> (case t_from of None \<Rightarrow> True | Some t \<Rightarrow> t \<le> AL_occurred_at r) \<and> (case t_to of None \<Rightarrow> True | Some t \<Rightarrow> AL_occurred_at r < t)"

definition AuditChainRange ::
  "AuditEnv \<Rightarrow> string \<Rightarrow> int \<Rightarrow> time option \<Rightarrow> time option \<Rightarrow> int \<Rightarrow> AuditDB \<Rightarrow> AuditRecord list result" where
  "AuditChainRange ev tenantID afterSeq t_from t_to batch0 db =
     (let batch = (if batch0 \<le> 0 \<or> batch0 > 5000 then 1000 else batch0) in
      case Au_uuid ev tenantID of None \<Rightarrow> Inl ErrInvalidArgument | Some tid \<Rightarrow>
      run_stmt (Au_db ev) AuditChainRangeS
        (Inr (map record_of (take (nat batch) (filter (\<lambda>r. AL_seq r > afterSeq \<and> in_window t_from t_to r) (tenant_rows tid db))))))"

definition event_of :: "string \<Rightarrow> AuditRecord \<Rightarrow> ChainEvent" where
  "event_of tenantID r = \<lparr>AV_TenantID = tenantID, AV_ActorID = Ar_ActorID r, AV_ActorKind = [], AV_TargetID = Ar_TargetID r,
     AV_SessionID = Ar_SessionID r, AV_Action = Ar_Action r, AV_Result = Ar_Result r, AV_IP = [], AV_Detail = Ar_Detail r\<rparr>"

text \<open>The hash of an entry without a detail has two readings.\<close>

definition entry_holds :: "AuditEnv \<Rightarrow> string \<Rightarrow> string \<Rightarrow> AuditRecord \<Rightarrow> bool" where
  "entry_holds ev tenantID prev r \<longleftrightarrow>
     (if chainHash ev prev (Ar_Seq r) (event_of tenantID r) = Ar_EntryHash r then True
      else if length (canonicalJSON ev (Ar_Detail r)) \<noteq> 0 then False
      else chainHashDetail ev prev (Ar_Seq r) (event_of tenantID r) ''{}'' = Ar_EntryHash r)"

text \<open>One batch: the running hash, whether this is the first row, the rows checked and the last sequence; the left
  is the sequence where the chain breaks.\<close>

fun verify_rows :: "AuditEnv \<Rightarrow> string \<Rightarrow> AuditRecord list \<Rightarrow> string \<Rightarrow> bool \<Rightarrow> int \<Rightarrow> int \<Rightarrow> (int \<times> int) + (string \<times> bool \<times> int \<times> int)" where
  "verify_rows ev tenantID [] prev first checked after = Inr (prev, first, checked, after)"
| "verify_rows ev tenantID (r # rs) prev first checked after =
     (let prev1 = (if first then Ar_PrevHash r else prev) in
      if entry_holds ev tenantID prev1 r then verify_rows ev tenantID rs (Ar_EntryHash r) False (checked + 1) (Ar_Seq r)
      else Inl (checked, Ar_Seq r))"

lemma verify_rows_after:
  "verify_rows ev t rs prev first checked after = Inr (prev', first', checked', after') \<Longrightarrow>
     after' = (if rs = [] then after else Ar_Seq (last rs)) \<and> checked' = checked + int (length rs)"
proof (induction rs arbitrary: prev first checked after)
  case (Cons r rs)
  then have "verify_rows ev t rs (Ar_EntryHash r) False (checked + 1) (Ar_Seq r) = Inr (prev', first', checked', after')"
    by (auto simp: Let_def split: if_splits)
  from Cons.IH [OF this] show ?case by (cases rs) auto
qed auto

lemma range_later:
  assumes "AuditChainRange ev t after t_from t_to n db = Inr batch" "r \<in> set batch"
  shows "after < Ar_Seq r \<and> (\<exists>x\<in>set (AD_log db). AL_seq x = Ar_Seq r)"
proof -
  from assms(1) obtain tid k where "batch = map record_of (take k (filter (\<lambda>r. AL_seq r > after \<and> in_window t_from t_to r) (tenant_rows tid db)))"
    by (auto simp: AuditChainRange_def run_stmt_Inr Let_def split: option.splits)
  with assms(2) obtain x where "x \<in> set (take k (filter (\<lambda>r. AL_seq r > after \<and> in_window t_from t_to r) (tenant_rows tid db)))"
    "r = record_of x" by auto
  then show ?thesis by (auto dest!: in_set_takeD simp: tenant_rows_def record_of_def)
qed

lemma batch_descends:
  assumes b: "AuditChainRange ev t after t_from t_to n db = Inr batch" "batch \<noteq> []"
    and v: "verify_rows ev t batch prev first checked after = Inr (p', f', c', a')"
  shows "length (filter (\<lambda>x. AL_seq x > a') (AD_log db)) < length (filter (\<lambda>x. AL_seq x > after) (AD_log db))"
proof -
  have a: "a' = Ar_Seq (last batch)" using verify_rows_after [OF v] b(2) by simp
  from range_later [OF b(1), of "last batch"] b(2) obtain x where x: "x \<in> set (AD_log db)" "AL_seq x = a'" "after < a'"
    unfolding a by auto
  have "filter (\<lambda>x. AL_seq x > a') (AD_log db) = filter (\<lambda>x. AL_seq x > a') (filter (\<lambda>x. AL_seq x > after) (AD_log db))"
    using x(3) by (auto simp: filter_filter intro: filter_cong)
  also have "length \<dots> < length (filter (\<lambda>x. AL_seq x > after) (AD_log db))"
    by (rule length_filter_less [of x]) (use x in auto)
  finally show ?thesis .
qed

function verify_batches ::
  "AuditEnv \<Rightarrow> string \<Rightarrow> time option \<Rightarrow> time option \<Rightarrow> AuditDB \<Rightarrow> string \<Rightarrow> bool \<Rightarrow> int \<Rightarrow> int \<Rightarrow> (int \<times> int) result" where
  "verify_batches ev tenantID t_from t_to db prev first checked after =
     (case AuditChainRange ev tenantID after t_from t_to 1000 db of
        Inl e \<Rightarrow> Inl e
      | Inr batch \<Rightarrow>
          if batch = [] then Inr (checked, 0)
          else case verify_rows ev tenantID batch prev first checked after of
            Inl broken \<Rightarrow> Inr broken
          | Inr (prev', first', checked', after') \<Rightarrow> verify_batches ev tenantID t_from t_to db prev' first' checked' after')"
  by pat_completeness auto
termination
  by (relation "measure (\<lambda>(ev, t, t_from, t_to, db, prev, first, checked, after). length (filter (\<lambda>x. AL_seq x > after) (AD_log db)))")
    (auto simp: batch_descends)

declare verify_batches.simps [simp del]

definition VerifyChain :: "AuditEnv \<Rightarrow> string \<Rightarrow> time option \<Rightarrow> time option \<Rightarrow> AuditDB \<Rightarrow> (int \<times> int) result" where
  "VerifyChain ev tenantID t_from t_to db = verify_batches ev tenantID t_from t_to db [] True 0 0"

section \<open>Anchors\<close>

definition anchorContext :: "string \<Rightarrow> int \<Rightarrow> string \<Rightarrow> string" where
  "anchorContext tenantID seq entryHash =
     ''anubis/audit-anchor/v1'' @ [nul] @ tenantID @ [nul] @ PutUint64 (word_of_int seq) @ entryHash"

definition InsertAnchor :: "AuditEnv \<Rightarrow> string \<Rightarrow> Anchor \<Rightarrow> AuditDB \<Rightarrow> AuditDB result" where
  "InsertAnchor ev tenantID a db =
     (case Au_uuid ev tenantID of None \<Rightarrow> Inl ErrInvalidArgument | Some tid \<Rightarrow>
      run_stmt (Au_db ev) InsertAuditAnchorS
        (Inr (if list_ex (\<lambda>(t, x). t = tid \<and> An_Seq x = An_Seq a) (AD_anchors db) then db
              else db\<lparr>AD_anchors := AD_anchors db @ [(tid, a)]\<rparr>)))"

definition AnchorsFrom :: "AuditEnv \<Rightarrow> string \<Rightarrow> int \<Rightarrow> AuditDB \<Rightarrow> Anchor list result" where
  "AnchorsFrom ev tenantID seq db =
     (case Au_uuid ev tenantID of None \<Rightarrow> Inl ErrInvalidArgument | Some tid \<Rightarrow>
      run_stmt (Au_db ev) AuditAnchorsFromS
        (Inr (sort_key An_Seq (map snd (filter (\<lambda>(t, x). t = tid \<and> An_Seq x \<ge> seq) (AD_anchors db))))))"

definition AuditEntryHashAt :: "AuditEnv \<Rightarrow> string \<Rightarrow> int \<Rightarrow> AuditDB \<Rightarrow> string result" where
  "AuditEntryHashAt ev tenantID seq db =
     (case Au_uuid ev tenantID of None \<Rightarrow> Inl ErrInvalidArgument | Some tid \<Rightarrow>
      run_stmt (Au_db ev) AuditEntryHashAtS
        (case find (\<lambda>r. AL_tenant_id r = tid \<and> AL_seq r = seq) (AD_log db) of None \<Rightarrow> Inr [] | Some r \<Rightarrow> Inr (AL_entry_hash r)))"

definition AnchorChain :: "AuditEnv \<Rightarrow> string \<Rightarrow> AuditDB \<Rightarrow> AuditDB result" where
  "AnchorChain ev tenantID db =
     (case LastAuditEntry ev tenantID db of Inl e \<Rightarrow> Inl e | Inr (seq, entryHash) \<Rightarrow>
      if seq = 0 \<or> length entryHash = 0 then Inr db
      else case ActiveAccessAt (Au_ring ev) (Au_clock ev) of Inl e \<Rightarrow> Inl ErrInternal | Inr key \<Rightarrow>
      InsertAnchor ev tenantID \<lparr>An_Seq = seq, An_EntryHash = entryHash, An_Kid = Key_Kid key,
        An_Signature = ed_sign (Au_ed ev) (nstr (Key_Private key)) (anchorContext tenantID seq entryHash)\<rparr> db)"

text \<open>The answer carries the sequence an error was met at.\<close>

fun verify_anchors :: "AuditEnv \<Rightarrow> string \<Rightarrow> Anchor list \<Rightarrow> int \<Rightarrow> AuditDB \<Rightarrow> (int \<times> int \<times> apperr option)" where
  "verify_anchors ev tenantID [] checked db = (checked, 0, None)"
| "verify_anchors ev tenantID (an # ans) checked db =
     (case Lookup (Au_ring ev) (An_Kid an) of Inl e \<Rightarrow> (checked, An_Seq an, Some ErrInternal) | Inr key \<Rightarrow>
      if \<not> ed_verify (Au_ed ev) (Key_Public key) (anchorContext tenantID (An_Seq an) (An_EntryHash an)) (An_Signature an)
      then (checked, An_Seq an, None)
      else case AuditEntryHashAt ev tenantID (An_Seq an) db of Inl e \<Rightarrow> (checked, An_Seq an, Some e) | Inr got \<Rightarrow>
        if got \<noteq> An_EntryHash an then (checked, An_Seq an, None)
        else verify_anchors ev tenantID ans (checked + 1) db)"

definition VerifyAnchors :: "AuditEnv \<Rightarrow> string \<Rightarrow> AuditDB \<Rightarrow> (int \<times> int \<times> apperr option)" where
  "VerifyAnchors ev tenantID db =
     (case AnchorsFrom ev tenantID 0 db of Inl e \<Rightarrow> (0, 0, Some e) | Inr anchors \<Rightarrow> verify_anchors ev tenantID anchors 0 db)"

section \<open>Verification in batches is one pass\<close>

text \<open>The entries a walk has still to read, and the walk over all of them at once.\<close>

definition rest_rows :: "string \<Rightarrow> time option \<Rightarrow> time option \<Rightarrow> int \<Rightarrow> AuditDB \<Rightarrow> AuditLogRow list" where
  "rest_rows tid t_from t_to after db = filter (\<lambda>r. AL_seq r > after \<and> in_window t_from t_to r) (tenant_rows tid db)"

definition one_pass :: "AuditEnv \<Rightarrow> string \<Rightarrow> AuditRecord list \<Rightarrow> string \<Rightarrow> bool \<Rightarrow> int \<Rightarrow> int \<Rightarrow> int \<times> int" where
  "one_pass ev t rs prev first checked after =
     (case verify_rows ev t rs prev first checked after of Inl broken \<Rightarrow> broken | Inr (_, _, c, _) \<Rightarrow> (c, 0))"

lemma verify_rows_append:
  "verify_rows ev t (xs @ ys) prev first checked after =
     (case verify_rows ev t xs prev first checked after of
        Inl broken \<Rightarrow> Inl broken
      | Inr (p, f, c, a) \<Rightarrow> verify_rows ev t ys p f c a)"
  by (induction xs arbitrary: prev first checked after) (simp_all add: Let_def)

lemma drop_filter_later:
  assumes "sorted_wrt (\<lambda>x y. AL_seq x < AL_seq y) rs" "take k rs \<noteq> []"
  shows "filter (\<lambda>r. AL_seq r > AL_seq (last (take k rs))) rs = drop k rs"
proof -
  have rs: "rs = butlast (take k rs) @ [last (take k rs)] @ drop k rs" (is "_ = ?a @ [?l] @ ?d")
    by (metis append.assoc append_butlast_last_id append_take_drop_id assms(2))
  have "sorted_wrt (\<lambda>x y. AL_seq x < AL_seq y) (?a @ [?l] @ ?d)" using assms(1) rs by simp
  then have "\<forall>x\<in>set ?a. AL_seq x < AL_seq ?l" "\<forall>x\<in>set ?d. AL_seq ?l < AL_seq x" by (auto simp: sorted_wrt_append)
  then have "filter (\<lambda>r. AL_seq r > AL_seq ?l) (?a @ [?l] @ ?d) = ?d" by (auto simp: filter_empty_conv intro!: filter_True)
  with rs show ?thesis by metis
qed

lemma rest_rows_drop:
  assumes "sorted_wrt (\<lambda>x y. AL_seq x < AL_seq y) (tenant_rows tid db)" "take k (rest_rows tid t_from t_to after db) \<noteq> []"
  shows "rest_rows tid t_from t_to (AL_seq (last (take k (rest_rows tid t_from t_to after db)))) db = drop k (rest_rows tid t_from t_to after db)"
proof -
  let ?rs = "rest_rows tid t_from t_to after db" and ?l = "AL_seq (last (take k (rest_rows tid t_from t_to after db)))"
  have "last (take k ?rs) \<in> set ?rs" using assms(2) by (meson in_set_takeD last_in_set)
  then have "after < ?l" by (auto simp: rest_rows_def)
  then have "rest_rows tid t_from t_to ?l db = filter (\<lambda>r. AL_seq r > ?l) ?rs"
    by (auto simp: rest_rows_def filter_filter intro!: filter_cong)
  moreover have "sorted_wrt (\<lambda>x y. AL_seq x < AL_seq y) ?rs" using assms(1) by (simp add: rest_rows_def sorted_wrt_filter)
  ultimately show ?thesis using drop_filter_later [OF _ assms(2)] by simp
qed

lemma AuditChainRange_rest:
  assumes "Au_uuid ev t = Some tid" "\<not> Db_fails (Au_db ev) AuditChainRangeS"
  shows "AuditChainRange ev t after t_from t_to 1000 db = Inr (map record_of (take 1000 (rest_rows tid t_from t_to after db)))"
  using assms by (simp add: AuditChainRange_def run_stmt_def rest_rows_def)

lemma verify_batches_one_pass:
  assumes "Au_uuid ev t = Some tid" "\<not> Db_fails (Au_db ev) AuditChainRangeS"
    and "sorted_wrt (\<lambda>x y. AL_seq x < AL_seq y) (tenant_rows tid db)"
  shows "verify_batches ev t t_from t_to db prev first checked after =
    Inr (one_pass ev t (map record_of (rest_rows tid t_from t_to after db)) prev first checked after)"
  using assms
proof (induction ev t t_from t_to db prev first checked after rule: verify_batches.induct)
  case (1 ev t t_from t_to db prev first checked after)
  let ?rs = "rest_rows tid t_from t_to after db"
  let ?b = "map record_of (take 1000 ?rs)"
  note range = AuditChainRange_rest [OF "1.prems"(1,2), of after t_from t_to db]
  have split: "verify_rows ev t (map record_of ?rs) prev first checked after =
      (case verify_rows ev t ?b prev first checked after of Inl broken \<Rightarrow> Inl broken
       | Inr (p, f, c, a) \<Rightarrow> verify_rows ev t (map record_of (drop 1000 ?rs)) p f c a)"
    by (metis append_take_drop_id map_append verify_rows_append)
  show ?case
  proof (cases "?rs = []")
    case True
    then show ?thesis by (simp add: verify_batches.simps [of ev t t_from] range one_pass_def)
  next
    case False
    then have ne: "?b \<noteq> []" "take 1000 ?rs \<noteq> []" by simp_all
    show ?thesis
    proof (cases "verify_rows ev t ?b prev first checked after")
      case (Inl broken)
      then show ?thesis using ne by (simp add: verify_batches.simps [of ev t t_from] range one_pass_def split)
    next
      case (Inr x)
      then obtain p f c a where v: "verify_rows ev t ?b prev first checked after = Inr (p, f, c, a)" by (cases x) auto
      then have a: "a = AL_seq (last (take 1000 ?rs))"
        using verify_rows_after [OF v] ne by (simp add: last_map record_of_def)
      have "verify_batches ev t t_from t_to db p f c a = Inr (one_pass ev t (map record_of (rest_rows tid t_from t_to a db)) p f c a)"
        using "1.IH" [OF range ne(1) v refl refl refl] "1.prems" by simp
      then show ?thesis using ne v rest_rows_drop [OF "1.prems"(3) ne(2)]
        by (simp add: verify_batches.simps [of ev t t_from _ _ prev] range one_pass_def split a)
    qed
  qed
qed

section \<open>What appending leaves\<close>

text \<open>A tenant's entries from the one after \<open>n\<close> on: consecutive numbers, each under the hash of the one before.\<close>

fun chained :: "AuditEnv \<Rightarrow> string \<Rightarrow> string \<Rightarrow> int \<Rightarrow> AuditLogRow list \<Rightarrow> bool" where
  "chained ev t prev n [] \<longleftrightarrow> True"
| "chained ev t prev n (r # rs) \<longleftrightarrow>
     AL_seq r = n + 1 \<and> nstr (AL_prev_hash r) = prev \<and> AL_entry_hash r = chainHash ev prev (n + 1) (event_of t (record_of r)) \<and>
     chained ev t (AL_entry_hash r) (n + 1) rs"

definition tip :: "string \<Rightarrow> AuditLogRow list \<Rightarrow> string" where
  "tip prev rs = (if rs = [] then prev else AL_entry_hash (last rs))"

lemma tip_simps [simp]: "tip prev [] = prev" "tip prev (r # rs) = tip (AL_entry_hash r) rs" "tip prev (xs @ [r]) = AL_entry_hash r"
  by (simp_all add: tip_def)

lemma chained_append:
  "chained ev t prev n (xs @ ys) \<longleftrightarrow> chained ev t prev n xs \<and> chained ev t (tip prev xs) (n + int (length xs)) ys"
  by (induction xs arbitrary: prev n) (simp_all add: add.assoc)

lemma chained_seq: "chained ev t prev n rs \<Longrightarrow> k < length rs \<Longrightarrow> AL_seq (rs ! k) = n + 1 + int k"
proof (induction rs arbitrary: prev n k)
  case (Cons r rs)
  then show ?case by (cases k) auto
qed simp

lemma chained_sorted: "chained ev t prev n rs \<Longrightarrow> sorted_wrt (\<lambda>x y. AL_seq x < AL_seq y) rs"
  unfolding sorted_wrt_iff_nth_less by (auto simp: chained_seq)

lemma sorted_tenant_rows:
  assumes "sorted_wrt (\<lambda>x y. AL_seq x < AL_seq y) (filter (\<lambda>r. AL_tenant_id r = tid) (AD_log db))"
  shows "tenant_rows tid db = filter (\<lambda>r. AL_tenant_id r = tid) (AD_log db)"
  unfolding tenant_rows_def
  by (rule sort_key_id_if_sorted) (use assms in \<open>simp add: sorted_map sorted_wrt_mono_rel [of _ "\<lambda>x y. AL_seq x < AL_seq y"]\<close>)

text \<open>The ids and the detail of an event survive the trip through their columns: what is parsed prints as it was
  given, and \<^verbatim>\<open>jsonb\<close> changes no more than the marshalling undoes.\<close>

definition faithful_event :: "AuditEnv \<Rightarrow> ChainEvent \<Rightarrow> bool" where
  "faithful_event ev e \<longleftrightarrow>
     list_all (\<lambda>x. case Au_uuid ev x of None \<Rightarrow> True | Some u \<Rightarrow> u = x) [AV_TenantID e, AV_ActorID e, AV_TargetID e, AV_SessionID e] \<and>
     (case Au_jsonb ev (OrEmptyJSON (AV_Detail e)) of None \<Rightarrow> True | Some d \<Rightarrow> canonicalJSON ev d = canonicalJSON ev (AV_Detail e))"

definition same_codec :: "AuditEnv \<Rightarrow> AuditEnv \<Rightarrow> bool" where
  "same_codec ev ev' \<longleftrightarrow> Au_sha256 ev' = Au_sha256 ev \<and> Au_recode ev' = Au_recode ev \<and> Au_jsonb ev' = Au_jsonb ev \<and> Au_uuid ev' = Au_uuid ev"

definition chain_inv :: "AuditEnv \<Rightarrow> AuditDB \<Rightarrow> bool" where
  "chain_inv ev db \<longleftrightarrow> (\<forall>t. chained ev t [] 0 (filter (\<lambda>r. AL_tenant_id r = t) (AD_log db)))"

lemma chain_inv_rows: "chain_inv ev db \<Longrightarrow> tenant_rows t db = filter (\<lambda>r. AL_tenant_id r = t) (AD_log db)"
  using chained_sorted sorted_tenant_rows by (metis chain_inv_def)

lemma setOptUUID_nstr:
  assumes "setOptUUID ev v = Inr w" "case Au_uuid ev v of None \<Rightarrow> True | Some u \<Rightarrow> u = v"
  shows "nstr w = v"
  using assms by (auto simp: setOptUUID_def nstr_def split: if_splits option.splits)

text \<open>The row an event leaves: every column the event fills, parsed as its type parses it.\<close>

definition stored_as :: "AuditEnv \<Rightarrow> ChainEvent \<Rightarrow> AuditLogRow \<Rightarrow> bool" where
  "stored_as ev e r \<longleftrightarrow>
     Au_uuid ev (AV_TenantID e) = Some (AL_tenant_id r) \<and> setOptUUID ev (AV_ActorID e) = Inr (AL_actor_id r) \<and>
     setOptUUID ev (AV_TargetID e) = Inr (AL_target_id r) \<and> setOptUUID ev (AV_SessionID e) = Inr (AL_session_id r) \<and>
     AL_action r = AV_Action e \<and> AL_result r = AV_Result e \<and> AL_actor_kind r = AV_ActorKind e \<and>
     parseIP ev (AV_IP e) = Inr (AL_ip r) \<and> Au_jsonb ev (OrEmptyJSON (AV_Detail e)) = Some (AL_detail r)"

lemma InsertAudit_stored:
  assumes "InsertAudit ev e seq prev h db = Inr db'"
  obtains r where "db' = db\<lparr>AD_log := AD_log db @ [r]\<rparr>" "stored_as ev e r" "AL_seq r = seq" "nstr (AL_prev_hash r) = prev" "AL_entry_hash r = h"
proof -
  from assms obtain tid actor target sess ip detail where p: "Au_uuid ev (AV_TenantID e) = Some tid"
      "setOptUUID ev (AV_ActorID e) = Inr actor" "setOptUUID ev (AV_TargetID e) = Inr target" "setOptUUID ev (AV_SessionID e) = Inr sess"
      "parseIP ev (AV_IP e) = Inr ip" "Au_jsonb ev (OrEmptyJSON (AV_Detail e)) = Some detail"
    and db': "db' = db\<lparr>AD_log := AD_log db @ [\<lparr>AL_tenant_id = tid, AL_seq = seq, AL_actor_id = actor, AL_target_id = target, AL_session_id = sess,
       AL_action = AV_Action e, AL_result = AV_Result e, AL_actor_kind = AV_ActorKind e, AL_ip = ip, AL_detail = detail,
       AL_prev_hash = (if prev = [] then None else Some prev), AL_entry_hash = h, AL_occurred_at = Db_now (Au_db ev)\<rparr>]\<rparr>"
    by (auto simp: InsertAudit_def and_then_def run_stmt_Inr split: option.splits sum.splits if_splits)
  show thesis by (rule that [OF db']) (simp_all add: p stored_as_def nstr_def)
qed

text \<open>A run of the auditor appends one such row, or nothing.\<close>

lemma audit_append_stored:
  assumes "audit_append ev e db = (db', res)"
  shows "isl res \<and> db' = db \<or> \<not> isl res \<and> (\<exists>r. db' = db\<lparr>AD_log := AD_log db @ [r]\<rparr> \<and> stored_as ev e r)"
proof (cases res)
  case (Inl err)
  then show ?thesis using assms by (simp add: audit_append_def WithinTx_Inl)
next
  case (Inr u)
  with assms obtain seq prev h where "InsertAudit ev e seq prev h db = Inr db'"
    by (auto simp: audit_append_def WithinTx_Inr append_tx_def and_then_def Let_def split: sum.splits)
  then obtain r where "db' = db\<lparr>AD_log := AD_log db @ [r]\<rparr>" "stored_as ev e r" by (rule InsertAudit_stored)
  with Inr show ?thesis by auto
qed

text \<open>Where the ids print as they were given.\<close>

definition entry_of :: "ChainEvent \<Rightarrow> AuditLogRow \<Rightarrow> bool" where
  "entry_of e r \<longleftrightarrow> AL_tenant_id r = AV_TenantID e \<and> AL_action r = AV_Action e \<and> AL_result r = AV_Result e \<and>
     nstr (AL_actor_id r) = AV_ActorID e \<and> nstr (AL_target_id r) = AV_TargetID e \<and> nstr (AL_session_id r) = AV_SessionID e"

lemma stored_entry: "stored_as ev e r \<Longrightarrow> faithful_event ev e \<Longrightarrow> entry_of e r \<and> canonicalJSON ev (AL_detail r) = canonicalJSON ev (AV_Detail e)"
  by (auto simp: stored_as_def entry_of_def faithful_event_def setOptUUID_nstr)

lemma InsertAudit_row:
  assumes "InsertAudit ev e seq prev h db = Inr db'" "faithful_event ev e"
  obtains r where "db' = db\<lparr>AD_log := AD_log db @ [r]\<rparr>" "entry_of e r" "AL_seq r = seq" "nstr (AL_prev_hash r) = prev" "AL_entry_hash r = h"
    "canonicalJSON ev (AL_detail r) = canonicalJSON ev (AV_Detail e)"
  using InsertAudit_stored [OF assms(1)] stored_entry [OF _ assms(2)] by metis

lemma chainHash_entry:
  assumes "entry_of e r" "canonicalJSON ev (AL_detail r) = canonicalJSON ev (AV_Detail e)"
  shows "chainHash ev prev seq (event_of (AV_TenantID e) (record_of r)) = chainHash ev prev seq e"
  using assms by (simp add: chainHash_def chainHashDetail_def chain_input_def event_of_def record_of_def entry_of_def)

lemma same_codec_hash:
  assumes "same_codec ev0 ev"
  shows "chainHash ev = chainHash ev0" "canonicalJSON ev = canonicalJSON ev0" "faithful_event ev = faithful_event ev0"
proof -
  show c: "canonicalJSON ev = canonicalJSON ev0" using assms by (simp add: fun_eq_iff same_codec_def canonicalJSON_def)
  show "chainHash ev = chainHash ev0" using assms c by (simp add: fun_eq_iff same_codec_def chainHash_def chainHashDetail_def)
  show "faithful_event ev = faithful_event ev0" using assms by (intro ext) (simp add: same_codec_def faithful_event_def c split: option.split)
qed

lemma audit_append_cases:
  assumes "audit_append ev e db = (db', res)" "same_codec ev0 ev" "faithful_event ev0 e" "chain_inv ev0 db"
    "int (length (AD_log db)) < 2 ^ 63 - 1"
  obtains (failed) err where "db' = db" "res = Inl err"
  | (logged) r where "res = Inr ()" "db' = db\<lparr>AD_log := AD_log db @ [r]\<rparr>" "entry_of e r"
      "AL_seq r = int (length (filter (\<lambda>r. AL_tenant_id r = AV_TenantID e) (AD_log db))) + 1"
      "nstr (AL_prev_hash r) = tip [] (filter (\<lambda>r. AL_tenant_id r = AV_TenantID e) (AD_log db))"
      "AL_entry_hash r = chainHash ev0 (nstr (AL_prev_hash r)) (AL_seq r) (event_of (AV_TenantID e) (record_of r))"
proof (cases res)
  case (Inl err)
  then show ?thesis using assms(1) failed by (simp add: audit_append_def WithinTx_Inl)
next
  case (Inr u)
  let ?t = "AV_TenantID e"
  let ?rows = "filter (\<lambda>r. AL_tenant_id r = ?t) (AD_log db)"
  have ch: "chained ev0 ?t [] 0 ?rows" using assms(4) by (simp add: chain_inv_def)
  from assms(1) Inr obtain seq prev where l: "LastAuditEntry ev ?t db = Inr (seq, prev)"
    and i: "InsertAudit ev e (int64 (seq + 1)) prev (chainHash ev prev (int64 (seq + 1)) e) db = Inr db'"
    by (auto simp: audit_append_def WithinTx_Inr append_tx_def and_then_def Let_def split: sum.splits)
  have tid: "Au_uuid ev ?t = Some ?t"
    using l assms(2,3) by (auto simp: LastAuditEntry_def faithful_event_def same_codec_def split: option.splits)
  then have lp: "seq = int (length ?rows)" "prev = tip [] ?rows"
    using l ch chained_seq [OF ch, of "length ?rows - 1"]
    by (auto simp: LastAuditEntry_def run_stmt_Inr chain_inv_rows [OF assms(4)] Let_def tip_def last_conv_nth split: if_splits)
  have "int (length ?rows) \<le> int (length (AD_log db))" by simp
  with assms(5) have "- (2 ^ 63) \<le> int (length ?rows) + 1" "int (length ?rows) + 1 < 2 ^ 63" by linarith+
  then have seq: "int64 (seq + 1) = int (length ?rows) + 1" unfolding lp by (rule int64_id)
  obtain r where "db' = db\<lparr>AD_log := AD_log db @ [r]\<rparr>" "entry_of e r" "AL_seq r = int64 (seq + 1)" "nstr (AL_prev_hash r) = prev"
    "AL_entry_hash r = chainHash ev prev (int64 (seq + 1)) e" "canonicalJSON ev (AL_detail r) = canonicalJSON ev (AV_Detail e)"
    using InsertAudit_row [OF i] same_codec_hash [OF assms(2)] assms(3) by metis
  then show ?thesis using Inr seq lp chainHash_entry [of e r ev0] same_codec_hash [OF assms(2)] by (intro logged [of r]) auto
qed

lemma audit_append_inv:
  assumes "audit_append ev e db = (db', res)" "same_codec ev0 ev" "faithful_event ev0 e" "chain_inv ev0 db"
    "int (length (AD_log db)) < 2 ^ 63 - 1"
  shows "chain_inv ev0 db'"
  using assms
proof (cases rule: audit_append_cases)
  case (logged r)
  have t: "AL_tenant_id r = AV_TenantID e" using logged(3) by (simp add: entry_of_def)
  show ?thesis
    using assms(4) logged t by (auto simp: chain_inv_def chained_append)
qed (use assms(4) in simp)

section \<open>An appended chain verifies\<close>

lemma chained_verifies:
  assumes "chained ev t p n rs" "first \<or> prev = p"
  shows "\<exists>prev' first' after'. verify_rows ev t (map record_of rs) prev first checked after = Inr (prev', first', checked + int (length rs), after')"
  using assms
proof (induction rs arbitrary: p n prev first checked after)
  case (Cons r rs)
  have r: "Ar_Seq (record_of r) = n + 1" "Ar_PrevHash (record_of r) = p"
    "Ar_EntryHash (record_of r) = AL_entry_hash r" using Cons.prems by (auto simp: record_of_def)
  have "entry_holds ev t (if first then p else prev) (record_of r)" using Cons.prems r by (auto simp: entry_holds_def)
  then show ?case using Cons.IH [of "AL_entry_hash r" "n + 1" False "AL_entry_hash r" "checked + 1" "n + 1"] Cons.prems r
    by (auto simp: Let_def add.assoc)
qed auto

text \<open>A window of a log whose times do not go back is a run of consecutive entries.\<close>

lemma sorted_filter_split:
  fixes P :: "'a \<Rightarrow> bool"
  assumes "sorted (map f xs)" and P: "\<And>x y z. f x \<le> f y \<Longrightarrow> f y \<le> f z \<Longrightarrow> P x \<Longrightarrow> P z \<Longrightarrow> P y"
  shows "\<exists>us vs. xs = us @ filter P xs @ vs"
  using assms(1)
proof (induction xs)
  case (Cons x xs)
  then obtain us vs where s: "xs = us @ filter P xs @ vs" by auto
  show ?case
  proof (cases "P x \<and> filter P xs \<noteq> []")
    case True
    then obtain z where z: "z \<in> set xs" "P z" by (auto simp: filter_empty_conv)
    have "us = []"
    proof (rule ccontr)
      assume "us \<noteq> []"
      then obtain u us' where u: "us = u # us'" by (cases us) auto
      obtain w ws where w: "filter P xs = w # ws" using True by (cases "filter P xs") auto
      have "P w" by (metis filter_eq_ConsD w)
      have xs: "xs = u # us' @ w # ws @ vs" using s u w by simp
      have "f x \<le> f u" using Cons.prems by (simp add: xs)
      moreover have "f u \<le> f w" using Cons.prems by (simp add: xs)
      ultimately have "P u" using P True \<open>P w\<close> by blast
      then have "filter P xs = u # filter P (us' @ filter P xs @ vs)" by (subst s) (simp add: u)
      then have "length (filter P xs) > length (filter P xs)" by simp
      then show False by simp
    qed
    then show ?thesis using s True by (intro exI [of _ "[]"] exI [of _ vs]) simp
  next
    case False
    show ?thesis
    proof (cases "P x")
      case True
      then show ?thesis using False by (intro exI [of _ "[]"] exI [of _ xs]) simp
    next
      case npx: False
      then show ?thesis using s by (intro exI [of _ "x # us"] exI [of _ vs]) simp
    qed
  qed
qed simp

lemma in_window_convex:
  "AL_occurred_at x \<le> AL_occurred_at y \<Longrightarrow> AL_occurred_at y \<le> AL_occurred_at z \<Longrightarrow> in_window f u x \<Longrightarrow> in_window f u z \<Longrightarrow> in_window f u y"
  by (auto simp: in_window_def split: option.splits)

lemma in_window_all [simp]: "in_window None None r" by (simp add: in_window_def)

lemma chained_window:
  assumes "chained ev t [] 0 rs" "t_from = None \<and> t_to = None \<or> sorted (map AL_occurred_at rs)"
  obtains us ws where "rs = us @ filter (in_window t_from t_to) rs @ ws"
    "chained ev t (tip [] us) (int (length us)) (filter (in_window t_from t_to) rs)"
proof -
  have "\<exists>us vs. rs = us @ filter (in_window t_from t_to) rs @ vs"
  proof (cases "t_from = None \<and> t_to = None")
    case True
    then show ?thesis by (intro exI [of _ "[]"]) simp
  next
    case False
    with assms(2) show ?thesis by (intro sorted_filter_split [of AL_occurred_at]) (auto intro: in_window_convex)
  qed
  then obtain us vs where s: "rs = us @ filter (in_window t_from t_to) rs @ vs" by blast
  then have "chained ev t [] 0 (us @ filter (in_window t_from t_to) rs @ vs)" using assms(1) by simp
  then have "chained ev t (tip [] us) (int (length us)) (filter (in_window t_from t_to) rs)" by (simp only: chained_append add_0)
  with s show thesis by (rule that)
qed

lemma chained_positive: "chained ev t prev n rs \<Longrightarrow> r \<in> set rs \<Longrightarrow> AL_seq r > n"
  by (auto simp: in_set_conv_nth chained_seq)

lemma chain_inv_verifies:
  assumes "chain_inv ev db" "Au_uuid ev t = Some t" "\<not> Db_fails (Au_db ev) AuditChainRangeS"
    and "t_from = None \<and> t_to = None \<or> sorted (map AL_occurred_at (tenant_rows t db))"
  shows "VerifyChain ev t t_from t_to db = Inr (int (length (filter (in_window t_from t_to) (tenant_rows t db))), 0)"
proof -
  have rows: "tenant_rows t db = filter (\<lambda>r. AL_tenant_id r = t) (AD_log db)" by (rule chain_inv_rows [OF assms(1)])
  have ch: "chained ev t [] 0 (tenant_rows t db)" using assms(1) rows by (simp add: chain_inv_def)
  have "rest_rows t t_from t_to 0 db = filter (in_window t_from t_to) (tenant_rows t db)"
    unfolding rest_rows_def using chained_positive [OF ch] by (auto intro: filter_cong)
  moreover from chained_window [OF ch assms(4)] obtain us where
    "chained ev t (tip [] us) (int (length us)) (filter (in_window t_from t_to) (tenant_rows t db))" by blast
  from chained_verifies [OF this, of True "[]" 0 0] obtain p f a where
    "verify_rows ev t (map record_of (filter (in_window t_from t_to) (tenant_rows t db))) [] True 0 0 =
       Inr (p, f, int (length (filter (in_window t_from t_to) (tenant_rows t db))), a)" by auto
  ultimately show ?thesis
    using verify_batches_one_pass [OF assms(2,3) chained_sorted [OF ch], of t_from t_to "[]" True 0 0] by (simp add: VerifyChain_def one_pass_def)
qed

end
