(* ===== verification/Audit_Safety.thy ===== *)
theory Audit_Safety
  imports Audit_Chain "HOL-Library.Sublist"
begin

unbundle bit_operations_syntax

text \<open>
  What the audit chain promises. The runs of an auditor are an inductive relation: events emitted, appended (or lost to a
  failing database) and heads anchored, in any order and for any tenants. Every event is accounted for, the log a run
  leaves verifies over any window, and a log that was rewritten but still passes both verifications tells the same
  history up to every signed head.
\<close>

section \<open>Runs\<close>

definition fresh_auditor :: Auditor where
  "fresh_auditor = \<lparr>Aq_queue = [], Aq_db = \<lparr>AD_log = [], AD_anchors = []\<rparr>, Aq_dropped = []\<rparr>"

text \<open>The events emitted so far, those whose append failed, and the auditor. The environments of the steps satisfy \<open>S\<close>.\<close>

inductive audited_by :: "(AuditEnv \<Rightarrow> bool) \<Rightarrow> ChainEvent list \<Rightarrow> ChainEvent list \<Rightarrow> Auditor \<Rightarrow> bool" for S :: "AuditEnv \<Rightarrow> bool" where
  start: "audited_by S [] [] fresh_auditor"
| emitted: "audited_by S es fs a \<Longrightarrow> audit_Emit e a = Some a' \<Longrightarrow> audited_by S (es @ [e]) fs a'"
| appended: "audited_by S es fs a \<Longrightarrow> S ev' \<Longrightarrow> Aq_queue a = e # rest \<Longrightarrow> audit_append ev' e (Aq_db a) = (db, res) \<Longrightarrow>
    audited_by S es (if isl res then fs @ [e] else fs) (audit_run ev' a)"
| anchored: "audited_by S es fs a \<Longrightarrow> AnchorChain ev' t (Aq_db a) = Inr db \<Longrightarrow> audited_by S es fs (a\<lparr>Aq_db := db\<rparr>)"

text \<open>The runs whose environments differ in time, in what the database does and in the ring, not in how a hash is computed; and
  those whose environments parse ids, addresses and details alike.\<close>

abbreviation audited :: "AuditEnv \<Rightarrow> ChainEvent list \<Rightarrow> ChainEvent list \<Rightarrow> Auditor \<Rightarrow> bool" where
  "audited ev \<equiv> audited_by (same_codec ev)"

definition same_parsers :: "AuditEnv \<Rightarrow> AuditEnv \<Rightarrow> bool" where
  "same_parsers ev ev' \<longleftrightarrow> Au_uuid ev' = Au_uuid ev \<and> Au_inet ev' = Au_inet ev \<and> Au_jsonb ev' = Au_jsonb ev"

lemma same_parsers_stored: "same_parsers ev ev' \<Longrightarrow> stored_as ev' = stored_as ev"
  by (intro ext) (simp add: same_parsers_def stored_as_def setOptUUID_def parseIP_def)

definition at_the_door :: "ChainEvent \<Rightarrow> bool" where
  "at_the_door e \<longleftrightarrow> AV_TenantID e = [] \<or> AV_Action e = ''authorize''"

text \<open>Every event is somewhere once, in order, and the entries are what \<open>R\<close> makes of the logged ones.\<close>

definition accounted ::
  "(ChainEvent \<Rightarrow> AuditLogRow \<Rightarrow> bool) \<Rightarrow> ChainEvent list \<Rightarrow> ChainEvent list \<Rightarrow> ChainEvent list \<Rightarrow> Auditor \<Rightarrow> bool" where
  "accounted R es fs logged a \<longleftrightarrow>
     mset es = mset logged + mset (Aq_queue a) + mset (Aq_dropped a) \<and> subseq (logged @ Aq_queue a) es \<and>
     list_all2 R logged (AD_log (Aq_db a)) \<and> list_all (\<lambda>e. at_the_door e \<or> e \<in> set fs) (Aq_dropped a)"

lemma accounted_log_length:
  assumes "accounted R es fs logged a"
  shows "length es = length (AD_log (Aq_db a)) + length (Aq_queue a) + length (Aq_dropped a)"
proof -
  have "size (mset es) = size (mset logged + mset (Aq_queue a) + mset (Aq_dropped a))" using assms by (simp add: accounted_def)
  moreover have "length logged = length (AD_log (Aq_db a))" using assms by (auto simp: accounted_def dest: list_all2_lengthD)
  ultimately show ?thesis by simp
qed

lemma AnchorChain_log: "AnchorChain ev t db = Inr db' \<Longrightarrow> AD_log db' = AD_log db"
  by (auto simp: AnchorChain_def InsertAnchor_def run_stmt_Inr split: sum.splits option.splits if_splits)

lemma chain_inv_log: "AD_log db' = AD_log db \<Longrightarrow> chain_inv ev db' = chain_inv ev db"
  by (simp add: chain_inv_def)

lemma emit_accounted:
  assumes "audit_Emit e a = Some a'" "accounted R es fs logged a"
  shows "accounted R (es @ [e]) fs logged a' \<and> Aq_db a' = Aq_db a"
proof -
  from assms(1) consider "Aq_queue a' = Aq_queue a @ [e]" "Aq_db a' = Aq_db a" "Aq_dropped a' = Aq_dropped a"
    | "Aq_queue a' = Aq_queue a" "Aq_db a' = Aq_db a" "Aq_dropped a' = Aq_dropped a @ [e]" "at_the_door e"
    by (auto simp: audit_Emit_def at_the_door_def split: if_splits)
  then show ?thesis
  proof cases
    case 1
    have "subseq ((logged @ Aq_queue a) @ [e]) (es @ [e])"
      using assms(2) by (subst subseq_append) (simp add: accounted_def)
    with 1 assms(2) show ?thesis by (simp add: accounted_def)
  next
    case 2
    have "subseq (logged @ Aq_queue a) (es @ [e])"
      using assms(2) by (intro list_emb_prefix) (simp add: accounted_def)
    with 2 assms(2) show ?thesis by (simp add: accounted_def)
  qed
qed

text \<open>A run of the auditor takes the oldest event from the queue into the log, or drops it as failed.\<close>

lemma run_accounted:
  assumes "Aq_queue a = e # rest" "audit_append ev' e (Aq_db a) = (db, res)" "accounted R es fs logged a"
    and "isl res \<and> AD_log db = AD_log (Aq_db a) \<or> \<not> isl res \<and> (\<exists>r. AD_log db = AD_log (Aq_db a) @ [r] \<and> R e r)"
  shows "\<exists>logged'. accounted R es (if isl res then fs @ [e] else fs) logged' (audit_run ev' a)"
proof -
  have seq: "subseq (logged @ e # rest) es" using assms(1,3) by (simp add: accounted_def)
  show ?thesis
  proof (cases res)
    case (Inl err)
    have "subseq (logged @ rest) (logged @ e # rest)" by (simp add: subseq_append', rule list_emb_Cons, simp)
    with seq have "subseq (logged @ rest) es" using subseq_order.order_trans by blast
    with Inl assms have "accounted R es (fs @ [e]) logged (audit_run ev' a)"
      by (auto simp: accounted_def audit_run_def list_all_iff)
    with Inl show ?thesis by auto
  next
    case (Inr u)
    then have "accounted R es fs (logged @ [e]) (audit_run ev' a)" using assms seq
      by (auto simp: accounted_def audit_run_def list_all2_appendI)
    with Inr show ?thesis by auto
  qed
qed

lemma run_chain_inv:
  assumes "Aq_queue a = e # rest" "audit_append ev' e (Aq_db a) = (db, res)" "same_codec ev ev'"
    and "accounted entry_of es fs logged a" "chain_inv ev (Aq_db a)" "list_all (faithful_event ev) es" "int (length es) < 2 ^ 63"
  shows "\<exists>logged'. accounted entry_of es (if isl res then fs @ [e] else fs) logged' (audit_run ev' a) \<and> chain_inv ev (Aq_db (audit_run ev' a))"
proof -
  have "e \<in># mset es" using assms(1,4) by (simp add: accounted_def)
  then have f: "faithful_event ev e" using assms(6) by (simp add: list_all_iff)
  have n: "int (length (AD_log (Aq_db a))) < 2 ^ 63 - 1"
    using accounted_log_length [OF assms(4)] assms(1,7) by simp
  have "chain_inv ev db" by (rule audit_append_inv [OF assms(2,3) f assms(5) n])
  then have "chain_inv ev (Aq_db (audit_run ev' a))" using assms(1,2) by (cases res) (auto simp: audit_run_def)
  moreover from assms(2,3) f assms(5) n
  have "isl res \<and> AD_log db = AD_log (Aq_db a) \<or> \<not> isl res \<and> (\<exists>r. AD_log db = AD_log (Aq_db a) @ [r] \<and> entry_of e r)"
    by (cases rule: audit_append_cases) auto
  ultimately show ?thesis using run_accounted [OF assms(1,2,4)] by blast
qed

lemma audited_inv:
  assumes "audited ev es fs a" "list_all (faithful_event ev) es" "int (length es) < 2 ^ 63"
  shows "\<exists>logged. accounted entry_of es fs logged a \<and> chain_inv ev (Aq_db a)"
  using assms
proof (induction rule: audited_by.induct)
  case start
  show ?case by (intro exI [of _ "[]"]) (simp add: accounted_def fresh_auditor_def chain_inv_def)
next
  case (emitted es fs a e a')
  then obtain logged where "accounted entry_of es fs logged a" "chain_inv ev (Aq_db a)" by auto
  with emit_accounted [OF emitted.hyps(2)] show ?case by metis
next
  case (appended es fs a ev' e rest db res)
  then show ?case using run_chain_inv by blast
next
  case (anchored es fs a ev' t db)
  then obtain logged where "accounted entry_of es fs logged a" "chain_inv ev (Aq_db a)" by auto
  then show ?case using AnchorChain_log [OF anchored.hyps(2)] chain_inv_log [of db "Aq_db a"]
    by (intro exI [of _ logged]) (simp add: accounted_def)
qed

text \<open>Where the auditor's runs parse columns alike, every event is accounted for, whatever its ids and its detail look like.\<close>

lemma audited_stored:
  assumes "audited_by (same_parsers ev) es fs a"
  shows "\<exists>logged. accounted (stored_as ev) es fs logged a"
  using assms
proof (induction rule: audited_by.induct)
  case start
  show ?case by (intro exI [of _ "[]"]) (simp add: accounted_def fresh_auditor_def)
next
  case (emitted es fs a e a')
  then show ?case using emit_accounted by blast
next
  case (appended es fs a ev' e rest db res)
  then obtain logged where acc: "accounted (stored_as ev) es fs logged a" by blast
  from audit_append_stored [OF appended.hyps(4)]
  have "isl res \<and> AD_log db = AD_log (Aq_db a) \<or> \<not> isl res \<and> (\<exists>r. AD_log db = AD_log (Aq_db a) @ [r] \<and> stored_as ev e r)"
    unfolding same_parsers_stored [OF appended.hyps(2)] by auto
  then show ?case by (rule run_accounted [OF appended.hyps(3,4) acc])
next
  case (anchored es fs a ev' t db)
  then show ?case using AnchorChain_log [OF anchored.hyps(2)] by (auto simp: accounted_def)
qed

section \<open>What a hash covers\<close>

lemma PutUint64_inj:
  assumes "PutUint64 x = PutUint64 y"
  shows "x = y"
proof (rule bit_word_eqI)
  fix n assume n: "n < LENGTH(64)"
  have byte: "drop_bit (8 * i) x AND 255 = drop_bit (8 * i) y AND 255" if "i \<in> set [7, 6, 5, 4, 3, 2, 1, 0]" for i
  proof -
    have "char_of (unat (drop_bit (8 * i) x AND 255)) = (char_of (unat (drop_bit (8 * i) y AND 255)) :: char)"
      using assms that unfolding PutUint64_def by (auto simp only: map_eq_conv)
    moreover have "unat (drop_bit (8 * i) z AND 255) < 256" for z :: "64 word"
      using word_and_le1 [of "drop_bit (8 * i) z" 255] by (simp add: word_le_nat_alt)
    ultimately have "unat (drop_bit (8 * i) x AND 255) = unat (drop_bit (8 * i) y AND 255)"
      by (metis of_char_of mod_less)
    then show ?thesis by (simp only: word_unat_eq_iff)
  qed
  have "n div 8 \<in> set [7, 6, 5, 4, 3, 2, 1, 0]" using n by auto
  from byte [OF this] have "bit (drop_bit (8 * (n div 8)) x AND 255) (n mod 8) = bit (drop_bit (8 * (n div 8)) y AND 255) (n mod 8)" by simp
  moreover have "bit (255 :: 64 word) (n mod 8)"
  proof -
    have "bit (mask 8 :: 64 word) (n mod 8)" by (simp add: bit_mask_iff)
    then show ?thesis by (simp add: mask_eq_exp_minus_1)
  qed
  ultimately show "bit x n = bit y n" by (simp add: bit_and_iff bit_drop_bit_eq)
qed

lemma PutUint64_length [simp]: "length (PutUint64 x) = 8" by (simp add: PutUint64_def)

lemma seq_bytes_inj:
  assumes "PutUint64 (word_of_int s) = PutUint64 (word_of_int s')" "- (2 ^ 63) \<le> s" "s < 2 ^ 63" "- (2 ^ 63) \<le> s'" "s' < 2 ^ 63"
  shows "s = s'"
proof -
  have "(word_of_int s :: 64 word) = word_of_int s'" using assms(1) by (rule PutUint64_inj)
  then have "s mod 2 ^ 64 = s' mod 2 ^ 64" by (simp add: word_of_int_eq_iff take_bit_eq_mod)
  then have "int64 s = int64 s'" unfolding int64_def by (metis mod_add_left_eq)
  then show ?thesis using assms(2-) by (simp only: int64_id)
qed

lemma last_nul_split:
  assumes "xs @ nul # ys = xs' @ nul # ys'" "nul \<notin> set ys" "nul \<notin> set ys'"
  shows "xs = xs' \<and> ys = ys'"
proof -
  have tw: "takeWhile (\<lambda>c. c \<noteq> nul) (rev zs @ nul # us) = rev zs" if "nul \<notin> set zs" for zs us
    using that by (auto simp: takeWhile_append)
  have "rev ys @ nul # rev xs = rev ys' @ nul # rev xs'" using arg_cong [OF assms(1), of rev] by simp
  then have "rev ys = rev ys'" using tw [OF assms(2)] tw [OF assms(3)] by metis
  with assms(1) show ?thesis by simp
qed

text \<open>What an entry says: its place and its fields. A \<^verbatim>\<open>text\<close> or \<^verbatim>\<open>jsonb\<close> column holds no NUL, and a
  \<^verbatim>\<open>bigint\<close> is 64 bits wide.\<close>

definition content :: "AuditEnv \<Rightarrow> AuditRecord \<Rightarrow> int \<times> string \<times> string \<times> string \<times> string \<times> string \<times> string" where
  "content ev r = (Ar_Seq r, Ar_Action r, Ar_Result r, Ar_ActorID r, Ar_TargetID r, Ar_SessionID r, canonicalJSON ev (Ar_Detail r))"

definition storable :: "AuditEnv \<Rightarrow> AuditRecord \<Rightarrow> bool" where
  "storable ev r \<longleftrightarrow> - (2 ^ 63) \<le> Ar_Seq r \<and> Ar_Seq r < 2 ^ 63 \<and>
     list_all (\<lambda>x. nul \<notin> set x) [Ar_Action r, Ar_Result r, Ar_ActorID r, Ar_TargetID r, Ar_SessionID r, canonicalJSON ev (Ar_Detail r)]"

lemma chain_input_inj:
  assumes "chain_input p (Ar_Seq r) (event_of t r) d = chain_input p' (Ar_Seq r') (event_of t r') d'"
    and "storable ev r" "storable ev r'" "nul \<notin> set d" "nul \<notin> set d'"
  shows "p = p' \<and> Ar_Seq r = Ar_Seq r' \<and> Ar_Action r = Ar_Action r' \<and> Ar_Result r = Ar_Result r' \<and> Ar_ActorID r = Ar_ActorID r' \<and>
    Ar_TargetID r = Ar_TargetID r' \<and> Ar_SessionID r = Ar_SessionID r' \<and> d = d'"
proof -
  define f where "f = (\<lambda>p (r :: AuditRecord). p @ PutUint64 (word_of_int (Ar_Seq r)) @ t)"
  note [simp] = storable_def
  have m: "chain_input p (Ar_Seq r) (event_of t r) d =
      (((((f p r @ nul # Ar_Action r) @ nul # Ar_Result r) @ nul # Ar_ActorID r) @ nul # Ar_TargetID r) @ nul # Ar_SessionID r) @ nul # d" for p r d
    by (simp add: chain_input_def event_of_def f_def)
  note e0 = assms(1) [unfolded m]
  note s1 = last_nul_split [OF e0 assms(4,5)]
  note s2 = last_nul_split [OF s1 [THEN conjunct1]]
  have e2: "Ar_SessionID r = Ar_SessionID r'"
    "((((f p r @ nul # Ar_Action r) @ nul # Ar_Result r) @ nul # Ar_ActorID r) @ nul # Ar_TargetID r) =
     ((((f p' r' @ nul # Ar_Action r') @ nul # Ar_Result r') @ nul # Ar_ActorID r') @ nul # Ar_TargetID r')"
    using s2 assms(2,3) by auto
  have e3: "Ar_TargetID r = Ar_TargetID r'"
    "(((f p r @ nul # Ar_Action r) @ nul # Ar_Result r) @ nul # Ar_ActorID r) = (((f p' r' @ nul # Ar_Action r') @ nul # Ar_Result r') @ nul # Ar_ActorID r')"
    using last_nul_split [OF e2(2)] assms(2,3) by auto
  have e4: "Ar_ActorID r = Ar_ActorID r'" "((f p r @ nul # Ar_Action r) @ nul # Ar_Result r) = ((f p' r' @ nul # Ar_Action r') @ nul # Ar_Result r')"
    using last_nul_split [OF e3(2)] assms(2,3) by auto
  have e5: "Ar_Result r = Ar_Result r'" "f p r @ nul # Ar_Action r = f p' r' @ nul # Ar_Action r'"
    using last_nul_split [OF e4(2)] assms(2,3) by auto
  have e6: "Ar_Action r = Ar_Action r'" "f p r = f p' r'" using last_nul_split [OF e5(2)] assms(2,3) by auto
  then have "p @ PutUint64 (word_of_int (Ar_Seq r)) = p' @ PutUint64 (word_of_int (Ar_Seq r'))" by (simp add: f_def)
  then have e7: "p = p'" "PutUint64 (word_of_int (Ar_Seq r)) = PutUint64 (word_of_int (Ar_Seq r'))" by simp_all
  then have "Ar_Seq r = Ar_Seq r'" using assms(2,3) by (intro seq_bytes_inj) auto
  then show ?thesis using s1 e2(1) e3(1) e4(1) e5(1) e6(1) e7(1) by auto
qed

section \<open>Two logs under one head\<close>

text \<open>A walk from the hash \<open>p\<close>, the hash it arrives at, and the messages whose hashes it compares.\<close>

fun walks :: "AuditEnv \<Rightarrow> string \<Rightarrow> string \<Rightarrow> AuditRecord list \<Rightarrow> bool" where
  "walks ev t p [] \<longleftrightarrow> True"
| "walks ev t p (r # rs) \<longleftrightarrow> entry_holds ev t p r \<and> walks ev t (Ar_EntryHash r) rs"

definition arrives :: "string \<Rightarrow> AuditRecord list \<Rightarrow> string" where
  "arrives p rs = (if rs = [] then p else Ar_EntryHash (last rs))"

definition readings :: "AuditEnv \<Rightarrow> string \<Rightarrow> string \<Rightarrow> AuditRecord \<Rightarrow> string list" where
  "readings ev t p r = [chain_input p (Ar_Seq r) (event_of t r) (canonicalJSON ev (Ar_Detail r)), chain_input p (Ar_Seq r) (event_of t r) ''{}'']"

fun messages :: "AuditEnv \<Rightarrow> string \<Rightarrow> string \<Rightarrow> AuditRecord list \<Rightarrow> string list" where
  "messages ev t p [] = []"
| "messages ev t p (r # rs) = readings ev t p r @ messages ev t (Ar_EntryHash r) rs"

lemma arrives_simps [simp]:
  "arrives p [] = p" "arrives p (r # rs) = arrives (Ar_EntryHash r) rs" "arrives p (xs @ [r]) = Ar_EntryHash r"
  by (simp_all add: arrives_def)

lemma walks_snoc: "walks ev t p (xs @ [r]) \<longleftrightarrow> walks ev t p xs \<and> entry_holds ev t (arrives p xs) r"
  by (induction xs arbitrary: p) auto

lemma messages_snoc: "messages ev t p (xs @ [r]) = messages ev t p xs @ readings ev t (arrives p xs) r"
  by (induction xs arbitrary: p) auto

lemma verify_rows_walks:
  "verify_rows ev t rs p False c a = Inr x \<Longrightarrow> walks ev t p rs"
  by (induction rs arbitrary: p c a) (auto simp: Let_def split: if_splits)

lemma verify_first_walks:
  assumes "verify_rows ev t rs p True c a = Inr x" "rs \<noteq> []"
  shows "walks ev t (Ar_PrevHash (hd rs)) rs"
  using assms by (cases rs) (auto simp: Let_def verify_rows_walks split: if_splits)

lemma verify_rows_broken: "verify_rows ev t rs p first c a = Inl (c', s) \<Longrightarrow> s \<in> Ar_Seq ` set rs"
  by (induction rs arbitrary: p first c a) (auto simp: Let_def split: if_splits)

lemma chained_walks: "chained ev t p n rs \<Longrightarrow> walks ev t p (map record_of rs)"
  by (induction rs arbitrary: p n) (auto simp: entry_holds_def record_of_def)

lemma canonicalJSON_not_empty_object: "Au_recode ev ''{}'' = Some ''{}'' \<Longrightarrow> canonicalJSON ev b \<noteq> ''{}''"
  by (auto simp: canonicalJSON_def split: option.splits)

text \<open>An entry that holds is one reading of its fields under the hash before it.\<close>

lemma entry_holds_reading:
  assumes "entry_holds ev t p r"
  obtains d where "Ar_EntryHash r = Au_sha256 ev (chain_input p (Ar_Seq r) (event_of t r) d)"
    "chain_input p (Ar_Seq r) (event_of t r) d \<in> set (readings ev t p r)"
    "d = canonicalJSON ev (Ar_Detail r) \<or> d = ''{}'' \<and> canonicalJSON ev (Ar_Detail r) = []"
proof (cases "chainHash ev p (Ar_Seq r) (event_of t r) = Ar_EntryHash r")
  case True
  then show ?thesis
    by (intro that [of "canonicalJSON ev (Ar_Detail r)"]) (auto simp: chainHash_def chainHashDetail_def event_of_def readings_def)
next
  case False
  then show ?thesis using assms
    by (intro that [of "''{}''"]) (auto simp: entry_holds_def chainHashDetail_def readings_def split: if_splits)
qed

lemma nul_braces: "nul \<notin> set ''{}''"
  by (simp add: nul_def char_of_def)

lemma entries_agree:
  assumes "entry_holds ev t p x" "entry_holds ev t q y" "Ar_EntryHash x = Ar_EntryHash y" "storable ev x" "storable ev y"
    and inj: "inj_on (Au_sha256 ev) (set (readings ev t p x) \<union> set (readings ev t q y))" and json: "Au_recode ev ''{}'' = Some ''{}''"
  shows "p = q \<and> content ev x = content ev y"
proof -
  from entry_holds_reading [OF assms(1)] obtain d where d: "Ar_EntryHash x = Au_sha256 ev (chain_input p (Ar_Seq x) (event_of t x) d)"
    "chain_input p (Ar_Seq x) (event_of t x) d \<in> set (readings ev t p x)"
    "d = canonicalJSON ev (Ar_Detail x) \<or> d = ''{}'' \<and> canonicalJSON ev (Ar_Detail x) = []" .
  from entry_holds_reading [OF assms(2)] obtain d' where d': "Ar_EntryHash y = Au_sha256 ev (chain_input q (Ar_Seq y) (event_of t y) d')"
    "chain_input q (Ar_Seq y) (event_of t y) d' \<in> set (readings ev t q y)"
    "d' = canonicalJSON ev (Ar_Detail y) \<or> d' = ''{}'' \<and> canonicalJSON ev (Ar_Detail y) = []" .
  have m: "chain_input p (Ar_Seq x) (event_of t x) d = chain_input q (Ar_Seq y) (event_of t y) d'"
    by (rule inj_onD [OF inj]) (use assms(3) d d' in auto)
  have "nul \<notin> set (canonicalJSON ev (Ar_Detail x))" "nul \<notin> set (canonicalJSON ev (Ar_Detail y))" using assms(4,5) by (simp_all add: storable_def)
  then have n: "nul \<notin> set d" "nul \<notin> set d'" using d(3) d'(3) nul_braces by metis+
  have "d = d'" "p = q" "Ar_Seq x = Ar_Seq y" "Ar_Action x = Ar_Action y" "Ar_Result x = Ar_Result y" "Ar_ActorID x = Ar_ActorID y"
    "Ar_TargetID x = Ar_TargetID y" "Ar_SessionID x = Ar_SessionID y"
    using chain_input_inj [OF m assms(4,5) n] by simp_all
  moreover from this have "canonicalJSON ev (Ar_Detail x) = canonicalJSON ev (Ar_Detail y)"
    using d(3) d'(3) canonicalJSON_not_empty_object [OF json, of "Ar_Detail x"] canonicalJSON_not_empty_object [OF json, of "Ar_Detail y"] by auto
  ultimately show ?thesis by (simp add: content_def)
qed

lemma walks_agree:
  assumes "walks ev t p xs" "walks ev t [] ys" "arrives p xs = arrives [] ys"
    and "list_all (storable ev) xs" "list_all (storable ev) ys"
    and "inj_on (Au_sha256 ev) (set (messages ev t p xs) \<union> set (messages ev t [] ys))"
    and sha: "\<And>m. Au_sha256 ev m \<noteq> []" and json: "Au_recode ev ''{}'' = Some ''{}''"
  shows "\<exists>k \<le> length ys. map (content ev) xs = map (content ev) (drop k ys) \<and> p = arrives [] (take k ys)"
  using assms(1-6)
proof (induction xs arbitrary: ys rule: rev_induct)
  case Nil
  then show ?case by (intro exI [of _ "length ys"]) simp
next
  case (snoc x xs)
  have x: "walks ev t p xs" "entry_holds ev t (arrives p xs) x" "storable ev x" "list_all (storable ev) xs"
    using snoc.prems by (simp_all add: walks_snoc)
  have "Ar_EntryHash x \<noteq> []" by (rule entry_holds_reading [OF x(2)]) (use sha in simp)
  then have "ys \<noteq> []" using snoc.prems(3) by auto
  then obtain ys' y where ys: "ys = ys' @ [y]" using rev_exhaust by blast
  have y: "walks ev t [] ys'" "entry_holds ev t (arrives [] ys') y" "storable ev y" "list_all (storable ev) ys'" "Ar_EntryHash x = Ar_EntryHash y"
    using snoc.prems by (simp_all add: walks_snoc ys)
  have inj: "inj_on (Au_sha256 ev) (set (messages ev t p xs @ readings ev t (arrives p xs) x) \<union> set (messages ev t [] ys' @ readings ev t (arrives [] ys') y))"
    using snoc.prems(6) by (simp add: messages_snoc ys)
  have i: "inj_on (Au_sha256 ev) (set (readings ev t (arrives p xs) x) \<union> set (readings ev t (arrives [] ys') y))"
    "inj_on (Au_sha256 ev) (set (messages ev t p xs) \<union> set (messages ev t [] ys'))"
    by (rule inj_on_subset [OF inj], simp, blast)+
  have a: "arrives p xs = arrives [] ys'" "content ev x = content ev y"
    using entries_agree [OF x(2) y(2,5) x(3) y(3) i(1) json] by simp_all
  obtain k where "k \<le> length ys'" "map (content ev) xs = map (content ev) (drop k ys')" "p = arrives [] (take k ys')"
    using snoc.IH [OF x(1) y(1) a(1) x(4) y(4) i(2)] by blast
  then show ?case using a(2) by (intro exI [of _ k]) (simp add: ys)
qed

lemma arrives_nonempty:
  assumes "walks ev t p xs" "xs \<noteq> []" "\<And>m. Au_sha256 ev m \<noteq> []"
  shows "arrives p xs \<noteq> []"
proof -
  obtain ys y where xs: "xs = ys @ [y]" using assms(2) rev_exhaust by blast
  then have "entry_holds ev t (arrives p ys) y" using assms(1) by (simp add: walks_snoc)
  from entry_holds_reading [OF this] show ?thesis using assms(3) xs by (metis arrives_simps(3))
qed

section \<open>Signed heads\<close>

abbreviation by_seq :: "AuditLogRow list \<Rightarrow> bool" where
  "by_seq \<equiv> sorted_wrt (\<lambda>x y. AL_seq x < AL_seq y)"

text \<open>The entries up to a sequence.\<close>

definition upto_seq :: "int \<Rightarrow> AuditLogRow list \<Rightarrow> AuditLogRow list" where
  "upto_seq s rs = filter (\<lambda>r. 0 < AL_seq r \<and> AL_seq r \<le> s) rs"

lemma by_seq_split: "by_seq rs \<Longrightarrow> filter (\<lambda>r. 0 < AL_seq r) rs = upto_seq s rs @ filter (\<lambda>r. 0 < AL_seq r \<and> s < AL_seq r) rs"
proof (induction rs)
  case (Cons r rs)
  have "filter (\<lambda>x. 0 < AL_seq x \<and> AL_seq x \<le> s) rs = []" if "s < AL_seq r" using that Cons.prems by (auto simp: filter_empty_conv)
  then show ?case using Cons by (cases "AL_seq r \<le> s") (auto simp: upto_seq_def)
qed (simp add: upto_seq_def)

lemma upto_seq_last:
  assumes "by_seq rs" "x \<in> set rs" "0 < AL_seq x"
  shows "upto_seq (AL_seq x) rs \<noteq> []" "last (upto_seq (AL_seq x) rs) = x"
proof -
  from split_list [OF assms(2)] obtain us vs where rs: "rs = us @ x # vs" by blast
  have "filter (\<lambda>r. 0 < AL_seq r \<and> AL_seq r \<le> AL_seq x) vs = []"
    using assms(1) rs by (auto simp: filter_empty_conv sorted_wrt_append)
  then have "upto_seq (AL_seq x) rs = filter (\<lambda>r. 0 < AL_seq r \<and> AL_seq r \<le> AL_seq x) us @ [x]"
    using assms(3) by (simp add: upto_seq_def rs)
  then show "upto_seq (AL_seq x) rs \<noteq> []" "last (upto_seq (AL_seq x) rs) = x" by simp_all
qed

lemma walks_append: "walks ev t p (xs @ ys) \<longleftrightarrow> walks ev t p xs \<and> walks ev t (arrives p xs) ys"
  by (induction xs arbitrary: p) auto

lemma distinct_by_seq:
  assumes "distinct (map AL_seq (tenant_rows t db))"
  shows "by_seq (tenant_rows t db)"
proof -
  have "sorted (map AL_seq (tenant_rows t db))" unfolding tenant_rows_def by (rule sorted_sort_key)
  with assms have "sorted_wrt (<) (map AL_seq (tenant_rows t db))" by (simp only: strict_sorted_iff)
  then show ?thesis by (simp only: sorted_wrt_map)
qed

lemma VerifyChain_walks:
  assumes "VerifyChain ev t None None db = Inr (n, 0)" "Au_uuid ev t = Some t" "by_seq (tenant_rows t db)" "upto_seq s (tenant_rows t db) \<noteq> []"
  shows "walks ev t (Ar_PrevHash (hd (map record_of (upto_seq s (tenant_rows t db))))) (map record_of (upto_seq s (tenant_rows t db)))"
proof -
  let ?u = "upto_seq s (tenant_rows t db)" and ?all = "rest_rows t None None 0 db"
  have up: "\<not> Db_fails (Au_db ev) AuditChainRangeS"
    using assms(1) by (auto simp: VerifyChain_def verify_batches.simps [of ev t None None db "[]"] AuditChainRange_def run_stmt_def
        split: option.splits)
  have "one_pass ev t (map record_of ?all) [] True 0 0 = (n, 0)"
    using assms(1) verify_batches_one_pass [OF assms(2) up assms(3), of None None "[]" True 0 0] by (simp add: VerifyChain_def)
  moreover have "0 \<notin> Ar_Seq ` set (map record_of ?all)" by (auto simp: rest_rows_def record_of_def)
  ultimately obtain x where v: "verify_rows ev t (map record_of ?all) [] True 0 0 = Inr x"
    by (cases "verify_rows ev t (map record_of ?all) [] True 0 0") (auto simp: one_pass_def dest!: verify_rows_broken)
  obtain later where all: "?all = ?u @ later" using by_seq_split [OF assms(3), of s] by (auto simp: rest_rows_def)
  with assms(4) have "?all \<noteq> []" "hd (map record_of ?all) = hd (map record_of ?u)" by (simp_all add: hd_append)
  with verify_first_walks [OF v] have "walks ev t (Ar_PrevHash (hd (map record_of ?u))) (map record_of ?all)" by simp
  then show ?thesis by (simp add: all walks_append)
qed

lemma verify_anchors_holds:
  assumes "verify_anchors ev t ans c db = (m, 0, None)" "\<forall>an\<in>set ans. An_Seq an \<noteq> 0" "an \<in> set ans"
  obtains key where "Lookup (Au_ring ev) (An_Kid an) = Inr key"
    "ed_verify (Au_ed ev) (Key_Public key) (anchorContext t (An_Seq an) (An_EntryHash an)) (An_Signature an)"
    "AuditEntryHashAt ev t (An_Seq an) db = Inr (An_EntryHash an)"
  using assms by (induction ans arbitrary: c) (auto split: sum.splits if_splits)

lemma AnchorsFrom_set:
  assumes "AnchorsFrom ev t s db = Inr ans" "Au_uuid ev t = Some tid"
  shows "set ans = {z. (tid, z) \<in> set (AD_anchors db) \<and> An_Seq z \<ge> s}"
proof -
  have "ans = sort_key An_Seq (map snd (filter (\<lambda>(t, x). t = tid \<and> An_Seq x \<ge> s) (AD_anchors db)))"
    using assms by (simp add: AnchorsFrom_def run_stmt_Inr)
  then show ?thesis by force
qed

lemma anchorContext_inj:
  assumes "anchorContext t s h = anchorContext t s' h'" "- (2 ^ 63) \<le> s" "s < 2 ^ 63" "- (2 ^ 63) \<le> s'" "s' < 2 ^ 63"
  shows "s = s' \<and> h = h'"
  using assms seq_bytes_inj [of s s'] by (auto simp: anchorContext_def)

lemma AuditEntryHashAt_row:
  assumes "AuditEntryHashAt ev t s db = Inr h" "Au_uuid ev t = Some t" "h \<noteq> []"
  obtains x where "x \<in> set (tenant_rows t db)" "AL_seq x = s" "AL_entry_hash x = h"
proof -
  from assms obtain x where x: "find (\<lambda>r. AL_tenant_id r = t \<and> AL_seq r = s) (AD_log db) = Some x" "AL_entry_hash x = h"
    by (auto simp: AuditEntryHashAt_def run_stmt_Inr split: option.splits)
  then have "x \<in> set (AD_log db) \<and> AL_tenant_id x = t \<and> AL_seq x = s" by (auto simp: find_Some_iff)
  with x(2) show thesis by (intro that [of x]) (auto simp: tenant_rows_def)
qed

lemma anchored_heads_agree:
  assumes inv: "chain_inv ev gen" and tid: "Au_uuid ev t = Some t" and sha: "\<And>m. Au_sha256 ev m \<noteq> []"
    and chain: "VerifyChain ev t None None db = Inr (n, 0)" and seqs: "by_seq (tenant_rows t db)"
    and r: "r \<in> set (tenant_rows t gen)" and x: "AuditEntryHashAt ev t (AL_seq r) db = Inr (AL_entry_hash r)"
  shows "upto_seq (AL_seq r) (tenant_rows t db) \<noteq> []"
    "walks ev t (Ar_PrevHash (hd (map record_of (upto_seq (AL_seq r) (tenant_rows t db))))) (map record_of (upto_seq (AL_seq r) (tenant_rows t db)))"
    "walks ev t [] (map record_of (upto_seq (AL_seq r) (tenant_rows t gen)))"
    "arrives p (map record_of (upto_seq (AL_seq r) (tenant_rows t db))) = arrives [] (map record_of (upto_seq (AL_seq r) (tenant_rows t gen)))"
proof -
  let ?now = "upto_seq (AL_seq r) (tenant_rows t db)" and ?was = "upto_seq (AL_seq r) (tenant_rows t gen)"
  have ch: "chained ev t [] 0 (tenant_rows t gen)" using inv chain_inv_rows [OF inv] by (simp add: chain_inv_def)
  have rpos: "0 < AL_seq r" using chained_positive [OF ch r] .
  have "filter (\<lambda>r. 0 < AL_seq r) (tenant_rows t gen) = tenant_rows t gen" using chained_positive [OF ch] by (simp add: filter_id_conv)
  with by_seq_split [OF chained_sorted [OF ch], of "AL_seq r"] obtain later where "tenant_rows t gen = ?was @ later" by metis
  then show was: "walks ev t [] (map record_of ?was)" using chained_walks [OF ch] by (metis map_append walks_append)
  note lw = upto_seq_last [OF chained_sorted [OF ch] r rpos]
  have aw: "arrives [] (map record_of ?was) = AL_entry_hash r" using lw by (simp add: arrives_def last_map record_of_def)
  then have "AL_entry_hash r \<noteq> []" using arrives_nonempty [OF was _ sha] lw(1) by simp
  then obtain y where y: "y \<in> set (tenant_rows t db)" "AL_seq y = AL_seq r" "AL_entry_hash y = AL_entry_hash r"
    using AuditEntryHashAt_row [OF x tid] by metis
  note ln = upto_seq_last [OF seqs y(1), unfolded y(2), OF rpos]
  show "?now \<noteq> []" by (rule ln(1))
  show "walks ev t (Ar_PrevHash (hd (map record_of ?now))) (map record_of ?now)" by (rule VerifyChain_walks [OF chain tid seqs ln(1)])
  show "arrives p (map record_of ?now) = arrives [] (map record_of ?was)"
    unfolding aw using ln y(3) by (simp add: arrives_def last_map record_of_def)
qed

section \<open>The properties\<close>

text \<open>C29. History under a signed head is fixed. \<open>gen\<close> is the log a run of the auditor wrote; \<open>db\<close> is whatever the tables
  hold now. If both verifications pass over \<open>db\<close>, then for every anchor whose signature was made over an entry of the
  genuine log, the entry is still there and the entries up to it say, word for word, what the last ones of the genuine
  log up to it said: number, action, result, actor, target, session and detail. Nothing was changed, inserted or taken
  out between them; all that can be missing is the oldest part, and nothing is when the first entry claims no
  predecessor. No two of the messages compared share a SHA-256, columns hold no NUL, numbers do not repeat and no
  anchor is filed under number 0.\<close>

theorem anchored_history_fixed:
  assumes genuine: "audited ev es fs a" "list_all (faithful_event ev) es" "int (length es) < 2 ^ 63" and gen: "gen = Aq_db a"
    and tid: "Au_uuid ev t = Some t"
    and chain: "VerifyChain ev t None None db = Inr (n, 0)" and anchors: "VerifyAnchors ev t db = (m, 0, None)"
    and an: "(t, an) \<in> set (AD_anchors db)" "0 < An_Seq an" "An_Seq an < 2 ^ 63"
    and signed: "\<And>key. Lookup (Au_ring ev) (An_Kid an) = Inr key \<Longrightarrow>
      ed_verify (Au_ed ev) (Key_Public key) (anchorContext t (An_Seq an) (An_EntryHash an)) (An_Signature an) \<Longrightarrow>
      \<exists>r\<in>set (tenant_rows t gen). anchorContext t (AL_seq r) (AL_entry_hash r) = anchorContext t (An_Seq an) (An_EntryHash an)"
    and seqs: "distinct (map AL_seq (tenant_rows t db))" "\<forall>(u, z)\<in>set (AD_anchors db). An_Seq z \<noteq> 0"
    and now: "now = map record_of (upto_seq (An_Seq an) (tenant_rows t db))"
    and was: "was = map record_of (upto_seq (An_Seq an) (tenant_rows t gen))"
    and columns: "list_all (storable ev) now" "list_all (storable ev) (map record_of (tenant_rows t gen))"
    and no_collision: "inj_on (Au_sha256 ev) (set (messages ev t (Ar_PrevHash (hd now)) now) \<union> set (messages ev t [] was))"
    and sha: "\<And>x. length (Au_sha256 ev x) = 32" and json: "Au_recode ev ''{}'' = Some ''{}''"
  shows "now \<noteq> [] \<and> (\<exists>k. map (content ev) now = map (content ev) (drop k was) \<and> (Ar_PrevHash (hd now) = [] \<longrightarrow> k = 0))"
proof -
  have ne: "Au_sha256 ev x \<noteq> []" for x using sha [of x] by auto
  have inv: "chain_inv ev gen" using audited_inv [OF genuine] gen by blast
  from anchors obtain ans where ans: "AnchorsFrom ev t 0 db = Inr ans" "verify_anchors ev t ans 0 db = (m, 0, None)"
    by (auto simp: VerifyAnchors_def split: sum.splits)
  have in_ans: "set ans = {z. (t, z) \<in> set (AD_anchors db) \<and> An_Seq z \<ge> 0}" by (rule AnchorsFrom_set [OF ans(1) tid])
  have "an \<in> set ans" "\<forall>z\<in>set ans. An_Seq z \<noteq> 0" unfolding in_ans using an seqs(2) by auto
  then obtain key where k: "Lookup (Au_ring ev) (An_Kid an) = Inr key"
    "ed_verify (Au_ed ev) (Key_Public key) (anchorContext t (An_Seq an) (An_EntryHash an)) (An_Signature an)"
    and at: "AuditEntryHashAt ev t (An_Seq an) db = Inr (An_EntryHash an)"
    using verify_anchors_holds [OF ans(2)] by metis
  from signed [OF k] obtain r where r: "r \<in> set (tenant_rows t gen)"
    and ctx: "anchorContext t (AL_seq r) (AL_entry_hash r) = anchorContext t (An_Seq an) (An_EntryHash an)" by blast
  have "storable ev (record_of r)" using columns(2) r by (simp add: list_all_iff)
  with anchorContext_inj [OF ctx] an(2,3) have e: "AL_seq r = An_Seq an" "AL_entry_hash r = An_EntryHash an"
    by (auto simp: storable_def record_of_def)
  note h = anchored_heads_agree [OF inv tid ne chain distinct_by_seq [OF seqs(1)] r at [folded e], unfolded e(1), folded now was]
  have "list_all (storable ev) was" using columns(2) by (auto simp: was list_all_iff upto_seq_def)
  from walks_agree [OF h(2,3) h(4) columns(1) this no_collision ne json] obtain k where
    k: "k \<le> length was" "map (content ev) now = map (content ev) (drop k was)" "Ar_PrevHash (hd now) = arrives [] (take k was)" by blast
  have "k = 0" if "Ar_PrevHash (hd now) = []"
  proof (rule ccontr)
    assume "k \<noteq> 0"
    have "now \<noteq> []" using h(1) now by simp
    then have "take k was \<noteq> []" using k(2) \<open>k \<noteq> 0\<close> by auto
    moreover have "walks ev t [] (take k was)" using h(3) by (metis append_take_drop_id walks_append)
    ultimately show False using arrives_nonempty [OF _ _ ne] k(3) that by metis
  qed
  with k(2) h(1) now show ?thesis by auto
qed

text \<open>C30. What is appended verifies, where events read back as they were given. Take any run of the auditor (events of all
  tenants, appends the database refused, heads anchored in between) of fewer than 2^63 events, in each of which every id
  that parses as a UUID prints as it was given (an upper-case id does not: that case is the property on ids that read as
  tampered) and the detail stored as jsonb has the canonical form of the detail given. Then the chain of every tenant
  whose id prints as it was given verifies, over the whole log and over any window of a log whose times do not go back,
  and the number of entries checked is the number in the window, as long as the database answers the reads.\<close>

theorem appended_chain_verifies:
  assumes "audited ev es fs a" "list_all (faithful_event ev) es" "int (length es) < 2 ^ 63"
    and "Au_uuid ev t = Some t" "\<not> Db_fails (Au_db ev) AuditChainRangeS"
    and "t_from = None \<and> t_to = None \<or> sorted (map AL_occurred_at (tenant_rows t (Aq_db a)))"
  shows "VerifyChain ev t t_from t_to (Aq_db a) = Inr (int (length (filter (in_window t_from t_to) (tenant_rows t (Aq_db a)))), 0)"
  using audited_inv [OF assms(1-3)] chain_inv_verifies [OF _ assms(4-6)] by blast

text \<open>C31. Every event is accounted for, in every run of the auditor whose database parses ids, addresses and details the same
  throughout: what was emitted is in the log, in the queue or counted as dropped, each once; the log and then the queue keep
  the order of emission; each entry carries its event's tenant, actor, target and session as the UUIDs they
  parse to, its action, result and actor kind, its address and its detail as the database parses them; and what was dropped
  had no tenant, was a sampled authorisation, or met a failing append.\<close>

theorem audit_accounts:
  assumes "audited_by (same_parsers ev) es fs a"
  shows "\<exists>logged. mset es = mset logged + mset (Aq_queue a) + mset (Aq_dropped a) \<and> subseq (logged @ Aq_queue a) es \<and>
    list_all2 (stored_as ev) logged (AD_log (Aq_db a)) \<and> list_all (\<lambda>e. at_the_door e \<or> e \<in> set fs) (Aq_dropped a)"
  using audited_stored [OF assms] unfolding accounted_def .

text \<open>An anchor filed under number 0 silences the verification of all others. \<open>VerifyAnchors\<close> reads the anchors from 0 on,
  oldest first, and reports the first that does not hold by its number; the number 0 also says that every anchor holds.
  One row with number 0, a known key and a signature nobody made therefore makes the answer \<open>intact\<close>, whatever became of the
  log and of the other anchors.\<close>

theorem zero_anchor_masks:
  assumes tid: "Au_uuid ev t = Some tid" and up: "\<not> Db_fails (Au_db ev) AuditAnchorsFromS"
    and an: "(tid, an) \<in> set (AD_anchors db)" "An_Seq an = 0"
    and bad: "Lookup (Au_ring ev) (An_Kid an) = Inr key" "\<not> ed_verify (Au_ed ev) (Key_Public key) (anchorContext t 0 (An_EntryHash an)) (An_Signature an)"
    and unique: "distinct (map (\<lambda>(u, z). (u, An_Seq z)) (AD_anchors db))"
  shows "VerifyAnchors ev t db = (0, 0, None)"
proof -
  let ?ms = "map snd (filter (\<lambda>(u, z). u = tid \<and> An_Seq z \<ge> 0) (AD_anchors db))"
  have r: "AnchorsFrom ev t 0 db = Inr (sort_key An_Seq ?ms)" using tid up by (simp add: AnchorsFrom_def run_stmt_def)
  have "an \<in> set (sort_key An_Seq ?ms)" using an by force
  then obtain z zs where z: "sort_key An_Seq ?ms = z # zs" by (cases "sort_key An_Seq ?ms") auto
  have zin: "z \<in> set ?ms" by (metis list.set_intros(1) set_sort z)
  have "sorted (map An_Seq (z # zs))" by (metis sorted_sort_key z)
  then have "An_Seq z \<le> An_Seq an" using \<open>an \<in> set (sort_key An_Seq ?ms)\<close> z by auto
  then have "An_Seq z = 0" "(tid, z) \<in> set (AD_anchors db)" using zin an(2) by auto
  then have "z = an" using an unique inj_onD [of "\<lambda>(u, z). (u, An_Seq z)" "set (AD_anchors db)" "(tid, z)" "(tid, an)"]
    by (simp add: distinct_map)
  then show ?thesis using bad an(2) by (simp add: VerifyAnchors_def r z)
qed

section \<open>Ids that print otherwise than they were given\<close>

lemma verify_rows_tip:
  "verify_rows ev t (map record_of rs) p0 f0 c a = Inr (p, f, c', a') \<Longrightarrow> p = (if rs = [] then p0 else AL_entry_hash (last rs)) \<and> f = (f0 \<and> rs = [])"
  by (induction rs arbitrary: p0 f0 c a) (auto simp: Let_def record_of_def split: if_splits)

lemma InsertAudit_target:
  assumes "Au_uuid ev (AV_TargetID e) = Some u" "Au_uuid ev u = Some u" "AV_TargetID e \<noteq> []" "u \<noteq> []"
  shows "InsertAudit ev e seq prev h db = InsertAudit ev (e\<lparr>AV_TargetID := u\<rparr>) seq prev h db"
proof -
  have "setOptUUID ev (AV_TargetID e) = setOptUUID ev u" using assms by (simp add: setOptUUID_def)
  then show ?thesis by (simp add: InsertAudit_def cong: option.case_cong if_cong)
qed

lemma noncanonical_row:
  assumes app: "audit_append ev e db = (db', Inr ())" and inv: "chain_inv ev db" and n: "int (length (AD_log db)) < 2 ^ 63 - 1"
    and e': "e' = e\<lparr>AV_TargetID := u\<rparr>" "faithful_event ev e'"
    and u: "Au_uuid ev (AV_TargetID e) = Some u" "Au_uuid ev u = Some u" "AV_TargetID e \<noteq> []" "u \<noteq> []"
  obtains r where "tenant_rows (AV_TenantID e) db' = tenant_rows (AV_TenantID e) db @ [r]" "entry_of e' r"
    "AL_seq r = int (length (tenant_rows (AV_TenantID e) db)) + 1"
    "AL_entry_hash r = chainHash ev (tip [] (tenant_rows (AV_TenantID e) db)) (AL_seq r) e"
    "nstr (AL_prev_hash r) = tip [] (tenant_rows (AV_TenantID e) db)"
    "canonicalJSON ev (AL_detail r) = canonicalJSON ev (AV_Detail e)"
proof -
  let ?t = "AV_TenantID e"
  let ?rows = "tenant_rows ?t db"
  have rows: "?rows = filter (\<lambda>r. AL_tenant_id r = ?t) (AD_log db)" by (rule chain_inv_rows [OF inv])
  have ch: "chained ev ?t [] 0 ?rows" using inv rows by (simp add: chain_inv_def)
  from app obtain seq prev where l: "LastAuditEntry ev ?t db = Inr (seq, prev)"
    and i: "InsertAudit ev e (int64 (seq + 1)) prev (chainHash ev prev (int64 (seq + 1)) e) db = Inr db'"
    by (auto simp: audit_append_def WithinTx_Inr append_tx_def and_then_def Let_def split: sum.splits)
  have tid: "Au_uuid ev ?t = Some ?t" using l e' by (auto simp: LastAuditEntry_def faithful_event_def split: option.splits)
  then have lp: "seq = int (length ?rows)" "prev = tip [] ?rows"
    using l chained_seq [OF ch, of "length ?rows - 1"]
    by (auto simp: LastAuditEntry_def run_stmt_Inr Let_def tip_def last_conv_nth split: if_splits)
  have "int (length ?rows) \<le> int (length (AD_log db))" by (simp add: rows)
  with n have "- (2 ^ 63) \<le> int (length ?rows) + 1" "int (length ?rows) + 1 < 2 ^ 63" by linarith+
  then have seq: "int64 (seq + 1) = int (length ?rows) + 1" unfolding lp by (rule int64_id)
  from InsertAudit_row [OF i [unfolded InsertAudit_target [OF u], folded e'(1)] e'(2)] obtain r where
    r: "db' = db\<lparr>AD_log := AD_log db @ [r]\<rparr>" "entry_of e' r" "AL_seq r = int64 (seq + 1)" "nstr (AL_prev_hash r) = prev"
      "AL_entry_hash r = chainHash ev prev (int64 (seq + 1)) e" "canonicalJSON ev (AL_detail r) = canonicalJSON ev (AV_Detail e')" by metis
  have t: "AL_tenant_id r = ?t" using r(2) e'(1) by (simp add: entry_of_def)
  have "by_seq (?rows @ [r])" using chained_sorted [OF ch] r(3) seq chained_seq [OF ch]
    by (auto simp: sorted_wrt_append in_set_conv_nth)
  then have "tenant_rows ?t db' = ?rows @ [r]" using sorted_tenant_rows [of ?t db'] rows t by (simp add: r(1))
  then show thesis using that r lp seq e'(1) by simp
qed

text \<open>C33. An id written otherwise than its column prints it reads as tampering. The hash covers the target as the caller gave
  it, the row keeps the parsed id: when the two differ (an upper-case UUID parses), the append succeeds and the chain,
  with nothing changed since, is reported broken at that very entry.\<close>

theorem noncanonical_id_reads_as_tampered:
  assumes run: "audited ev es fs a" "list_all (faithful_event ev) es" "int (length es) < 2 ^ 63 - 1"
    and app: "audit_append ev e (Aq_db a) = (db', Inr ())" and up: "\<not> Db_fails (Au_db ev) AuditChainRangeS"
    and e': "e' = e\<lparr>AV_TargetID := u\<rparr>" "faithful_event ev e'" "t = AV_TenantID e" "Au_uuid ev t = Some t"
    and u: "Au_uuid ev (AV_TargetID e) = Some u" "Au_uuid ev u = Some u" "AV_TargetID e \<noteq> []" "u \<noteq> []" "u \<noteq> AV_TargetID e"
    and seq: "seq = int (length (tenant_rows t (Aq_db a))) + 1" and prev: "prev = tip [] (tenant_rows t (Aq_db a))"
    and no_collision: "inj_on (Au_sha256 ev) {chain_input prev seq e (canonicalJSON ev (AV_Detail e)),
      chain_input prev seq e' (canonicalJSON ev (AV_Detail e)), chain_input prev seq e' ''{}''}"
  shows "VerifyChain ev t None None db' = Inr (seq - 1, seq)"
proof -
  obtain logged where acc: "accounted entry_of es fs logged a" and inv: "chain_inv ev (Aq_db a)" using audited_inv [OF run(1,2)] run(3) by auto
  have n: "int (length (AD_log (Aq_db a))) < 2 ^ 63 - 1" using accounted_log_length [OF acc] run(3) by simp
  let ?rows = "tenant_rows t (Aq_db a)" and ?c = "canonicalJSON ev (AV_Detail e)"
  from noncanonical_row [OF app inv n e'(1,2) u(1-4), folded e'(3)] obtain r where r: "tenant_rows t db' = ?rows @ [r]" "entry_of e' r"
    "AL_seq r = seq" "AL_entry_hash r = chainHash ev prev (AL_seq r) e" "nstr (AL_prev_hash r) = prev" "canonicalJSON ev (AL_detail r) = ?c"
    by (metis prev seq)
  have ch: "chained ev t [] 0 ?rows" using inv chain_inv_rows [OF inv] by (simp add: chain_inv_def)
  have m: "chain_input prev seq (event_of t (record_of r)) d = chain_input prev seq e' d" for d
    using r(2) e' by (simp add: chain_input_def event_of_def record_of_def entry_of_def)
  have d1: "chain_input prev seq e ?c \<noteq> chain_input prev seq e' ?c" using u(5) by (auto simp: chain_input_def e'(1))
  have d2: "chain_input prev seq e [] \<noteq> chain_input prev seq e' ''{}''"
  proof
    assume "chain_input prev seq e [] = chain_input prev seq e' ''{}''"
    then have "last (chain_input prev seq e []) = last (chain_input prev seq e' ''{}'')" by simp
    then show False by (simp add: chain_input_def nul_def char_of_def)
  qed
  have bad: "\<not> entry_holds ev t prev (record_of r)"
  proof -
    have h: "AL_entry_hash r = Au_sha256 ev (chain_input prev seq e ?c)" using r(3,4) by (simp add: chainHash_def chainHashDetail_def)
    have "Au_sha256 ev (chain_input prev seq e' ?c) \<noteq> AL_entry_hash r" unfolding h using no_collision d1 by (simp add: inj_on_def)
    moreover have "Au_sha256 ev (chain_input prev seq e' ''{}'') \<noteq> AL_entry_hash r" if "?c = []"
      unfolding h using no_collision d2 that by (auto simp: inj_on_def)
    moreover have "Ar_Seq (record_of r) = seq" "Ar_Detail (record_of r) = AL_detail r" "Ar_EntryHash (record_of r) = AL_entry_hash r"
      "AV_Detail (event_of t (record_of r)) = AL_detail r" using r(3) by (simp_all add: record_of_def event_of_def)
    ultimately show ?thesis using r(6) by (simp add: entry_holds_def chainHash_def chainHashDetail_def m)
  qed
  have sorted: "by_seq (tenant_rows t db')" using chained_sorted [OF ch] chained_seq [OF ch] r(3) seq
    by (auto simp: r(1) sorted_wrt_append in_set_conv_nth)
  have "rest_rows t None None 0 db' = ?rows @ [r]"
    using chained_positive [OF ch] r(3) seq by (auto simp: rest_rows_def r(1) filter_id_conv)
  moreover from chained_verifies [OF ch, of True "[]" 0 0] obtain p f s where
    v: "verify_rows ev t (map record_of ?rows) [] True 0 0 = Inr (p, f, int (length ?rows), s)" by auto
  moreover have "verify_rows ev t [record_of r] p f (int (length ?rows)) s = Inl (seq - 1, seq)"
    using bad verify_rows_tip [OF v] r(3,5) seq prev by (auto simp: record_of_def Let_def tip_def)
  ultimately show ?thesis
    using verify_batches_one_pass [OF e'(4) up sorted, of None None "[]" True 0 0]
    by (simp add: VerifyChain_def one_pass_def verify_rows_append)
qed

section \<open>A run, and a log that was cut\<close>

lemma audited_append_next:
  assumes "audited_by S es fs a" "S ev'" "Aq_queue a \<noteq> []" "\<not> isl (snd (audit_append ev' (hd (Aq_queue a)) (Aq_db a)))"
  shows "audited_by S es fs (audit_run ev' a)"
proof -
  have "Aq_queue a = hd (Aq_queue a) # tl (Aq_queue a)" using assms(3) by simp
  from appended [OF assms(1,2) this, of "fst (audit_append ev' (hd (Aq_queue a)) (Aq_db a))" "snd (audit_append ev' (hd (Aq_queue a)) (Aq_db a))"]
  show ?thesis using assms(4) by simp
qed

lemma inj_on_remdups: "distinct (map f (remdups xs)) \<Longrightarrow> inj_on f (set xs)"
  by (simp add: distinct_map)

definition toy_hash :: "string \<Rightarrow> string" where
  "toy_hash m = take 32 (rev m @ replicate 32 CHR ''h'')"

definition echo_ed :: ed25519 where
  "echo_ed = \<lparr>ed_sign = (\<lambda>sk m. m), ed_verify = (\<lambda>pk m sig. sig = m)\<rparr>"

definition audit_env :: AuditEnv where
  "audit_env = \<lparr>Au_sha256 = toy_hash, Au_recode = Some, Au_jsonb = Some, Au_uuid = (\<lambda>s. if s = [] then None else Some s), Au_inet = Some,
     Au_ed = echo_ed, Au_ring = demo_ring, Au_clock = 50, Au_db = \<lparr>Db_now = 100 * Second, Db_newid = (\<lambda>s. ''id''), Db_fails = (\<lambda>s. False)\<rparr>\<rparr>"

definition audit_event :: "string \<Rightarrow> string \<Rightarrow> ChainEvent" where
  "audit_event t act = \<lparr>AV_TenantID = t, AV_ActorID = ''a1'', AV_ActorKind = ''identity'', AV_TargetID = [], AV_SessionID = ''s1'', AV_Action = act,
     AV_Result = ''allow'', AV_IP = [], AV_Detail = []\<rparr>"

definition audit_demo :: Auditor where
  "audit_demo =
     (let emit = (\<lambda>e a. the (audit_Emit e a)); run = audit_run audit_env in
      run (run (run (emit (audit_event ''t1'' ''auth.logout'') (emit (audit_event ''t2'' ''auth.login'') (emit (audit_event ''t1'' ''auth.login'') fresh_auditor))))))"

definition audit_demo_events :: "ChainEvent list" where
  "audit_demo_events = [audit_event ''t1'' ''auth.login'', audit_event ''t2'' ''auth.login'', audit_event ''t1'' ''auth.logout'']"

lemma audit_demo_by:
  assumes sc: "S audit_env"
  shows "audited_by S audit_demo_events [] audit_demo"
proof -
  let ?a1 = "the (audit_Emit (audit_event ''t1'' ''auth.login'') fresh_auditor)"
  let ?a2 = "the (audit_Emit (audit_event ''t2'' ''auth.login'') ?a1)"
  let ?a3 = "the (audit_Emit (audit_event ''t1'' ''auth.logout'') ?a2)"
  have "audited_by S ([] @ [audit_event ''t1'' ''auth.login'']) [] ?a1" by (rule emitted [OF start]) code_simp
  then have "audited_by S (([] @ [audit_event ''t1'' ''auth.login'']) @ [audit_event ''t2'' ''auth.login'']) [] ?a2" by (rule emitted) code_simp
  then have "audited_by S ((([] @ [audit_event ''t1'' ''auth.login'']) @ [audit_event ''t2'' ''auth.login'']) @ [audit_event ''t1'' ''auth.logout'']) [] ?a3"
    by (rule emitted) code_simp
  then have a3: "audited_by S audit_demo_events [] ?a3" by (simp add: audit_demo_events_def)
  have "audited_by S audit_demo_events [] (audit_run audit_env (audit_run audit_env (audit_run audit_env ?a3)))"
    by (rule audited_append_next [OF audited_append_next [OF audited_append_next [OF a3 sc] sc] sc]) code_simp+
  then show ?thesis by (simp only: audit_demo_def Let_def)
qed

lemma audit_demo_run: "audited audit_env audit_demo_events [] audit_demo"
  by (rule audit_demo_by) (simp add: same_codec_def)

lemma audit_demo_faithful: "list_all (faithful_event audit_env) audit_demo_events"
  by code_simp

text \<open>The rows the run leaves; then the head of \<open>t1\<close> anchored and its first entry removed.\<close>

definition demo_row :: "string \<Rightarrow> int \<Rightarrow> string \<Rightarrow> string option \<Rightarrow> string \<Rightarrow> AuditLogRow" where
  "demo_row t n act prev h = \<lparr>AL_tenant_id = t, AL_seq = n, AL_actor_id = Some ''a1'', AL_target_id = None, AL_session_id = Some ''s1'', AL_action = act,
     AL_result = ''allow'', AL_actor_kind = ''identity'', AL_ip = None, AL_detail = ''{}'', AL_prev_hash = prev, AL_entry_hash = h,
     AL_occurred_at = 100 * Second\<rparr>"

definition demo_hash :: "char \<Rightarrow> string \<Rightarrow> char \<Rightarrow> string" where
  "demo_hash t act n = take 32 ([nul] @ ''1s'' @ [nul, nul] @ ''1a'' @ [nul] @ ''wolla'' @ [nul] @ rev act @ [nul, t] @ ''t'' @ [n, nul, nul, nul, nul, nul, nul, nul])"

definition audit_log_db :: AuditDB where
  "audit_log_db = \<lparr>AD_log = [demo_row ''t1'' 1 ''auth.login'' None (demo_hash CHR ''1'' ''auth.login'' CHR 0x01),
       demo_row ''t2'' 1 ''auth.login'' None (demo_hash CHR ''2'' ''auth.login'' CHR 0x01),
       demo_row ''t1'' 2 ''auth.logout'' (Some (demo_hash CHR ''1'' ''auth.login'' CHR 0x01)) (demo_hash CHR ''1'' ''auth.logout'' CHR 0x02)],
     AD_anchors = []\<rparr>"

definition audit_cut :: AuditDB where
  "audit_cut = \<lparr>AD_log = tl (AD_log audit_log_db),
     AD_anchors = [(''t1'', \<lparr>An_Seq = 2, An_EntryHash = demo_hash CHR ''1'' ''auth.logout'' CHR 0x02, An_Kid = ''ak_1'',
       An_Signature = anchorContext ''t1'' 2 (demo_hash CHR ''1'' ''auth.logout'' CHR 0x02)\<rparr>)]\<rparr>"

lemma audit_demo_db: "Aq_db audit_demo = audit_log_db"
  by code_simp

lemma audit_cut_anchor: "AnchorChain audit_env ''t1'' audit_log_db = Inr (audit_log_db\<lparr>AD_anchors := AD_anchors audit_cut\<rparr>)"
  by code_simp

theorem anchored_history_fixed_witness:
  "\<exists>k. map (content audit_env) (map record_of (upto_seq 2 (tenant_rows ''t1'' audit_cut))) =
     map (content audit_env) (drop k (map record_of (upto_seq 2 (tenant_rows ''t1'' audit_log_db))))"
proof -
  let ?now = "map record_of (upto_seq 2 (tenant_rows ''t1'' audit_cut))"
  let ?was = "map record_of (upto_seq 2 (tenant_rows ''t1'' audit_log_db))"
  let ?an = "snd (hd (AD_anchors audit_cut))"
  have seq: "An_Seq ?an = 2" by code_simp
  have "?now \<noteq> [] \<and> (\<exists>k. map (content audit_env) ?now = map (content audit_env) (drop k ?was) \<and> (Ar_PrevHash (hd ?now) = [] \<longrightarrow> k = 0))"
  proof (rule anchored_history_fixed [where db = audit_cut and an = ?an and t = "''t1''" and n = 1 and m = 1, OF audit_demo_run audit_demo_faithful _ audit_demo_db [symmetric], unfolded seq, OF _ _ _ _ _ _ _ _ _ _ refl refl])
    show "inj_on (Au_sha256 audit_env) (set (messages audit_env ''t1'' (Ar_PrevHash (hd ?now)) ?now) \<union> set (messages audit_env ''t1'' [] ?was))"
      unfolding set_append [symmetric] by (rule inj_on_remdups) code_simp
    show "\<And>x. length (Au_sha256 audit_env x) = 32" by (simp add: audit_env_def toy_hash_def)
    show "\<exists>r\<in>set (tenant_rows ''t1'' audit_log_db). anchorContext ''t1'' (AL_seq r) (AL_entry_hash r) = anchorContext ''t1'' 2 (An_EntryHash ?an)"
      by code_simp
    show "int (length audit_demo_events) < 2 ^ 63" by code_simp
    show "Au_uuid audit_env ''t1'' = Some ''t1''" by code_simp
    show "VerifyChain audit_env ''t1'' None None audit_cut = Inr (1, 0)" by code_simp
    show "VerifyAnchors audit_env ''t1'' audit_cut = (1, 0, None)" by code_simp
    show "(''t1'', ?an) \<in> set (AD_anchors audit_cut)" by code_simp
    show "distinct (map AL_seq (tenant_rows ''t1'' audit_cut))" by code_simp
    show "\<forall>(u, z)\<in>set (AD_anchors audit_cut). An_Seq z \<noteq> 0" by code_simp
    show "list_all (storable audit_env) ?now" by code_simp
    show "list_all (storable audit_env) (map record_of (tenant_rows ''t1'' audit_log_db))" by code_simp
    show "Au_recode audit_env ''{}'' = Some ''{}''" by code_simp
  qed simp_all
  then show ?thesis by blast
qed

theorem appended_chain_verifies_witness:
  "VerifyChain audit_env ''t1'' (Some (100 * Second)) None (Aq_db audit_demo) =
     Inr (int (length (filter (in_window (Some (100 * Second)) None) (tenant_rows ''t1'' (Aq_db audit_demo)))), 0)"
  by (rule appended_chain_verifies [OF audit_demo_run audit_demo_faithful], unfold audit_demo_db) code_simp+

theorem audit_accounts_witness:
  "\<exists>logged. mset audit_demo_events = mset logged + mset (Aq_queue audit_demo) + mset (Aq_dropped audit_demo) \<and>
     subseq (logged @ Aq_queue audit_demo) audit_demo_events \<and> list_all2 (stored_as audit_env) logged (AD_log (Aq_db audit_demo)) \<and>
     list_all (\<lambda>e. at_the_door e \<or> e \<in> set []) (Aq_dropped audit_demo)"
  by (rule audit_accounts [OF audit_demo_by]) (simp add: same_parsers_def)

definition forged_anchor :: Anchor where
  "forged_anchor = \<lparr>An_Seq = 0, An_EntryHash = ''x'', An_Kid = ''ak_1'', An_Signature = ''forged''\<rparr>"

theorem zero_anchor_masks_witness:
  "VerifyAnchors audit_env ''t1'' (audit_cut\<lparr>AD_anchors := AD_anchors audit_cut @ [(''t1'', forged_anchor)]\<rparr>) = (0, 0, None)"
  by (rule zero_anchor_masks [where tid = "''t1''" and an = forged_anchor and key = demo_key]) code_simp+

text \<open>A tenant whose ids are lower case, and a caller that writes the target in capitals.\<close>

definition folding_env :: AuditEnv where
  "folding_env = audit_env\<lparr>Au_uuid := (\<lambda>s. if s = [] then None else if s = ''X9'' then Some ''x9'' else Some s)\<rparr>"

definition folding_event :: ChainEvent where
  "folding_event = (audit_event ''t1'' ''identity.update'')\<lparr>AV_TargetID := ''X9''\<rparr>"

theorem noncanonical_id_reads_as_tampered_witness:
  "VerifyChain folding_env ''t1'' None None (fst (audit_append folding_env folding_event (Aq_db fresh_auditor))) = Inr (0, 1)"
proof -
  have app: "audit_append folding_env folding_event (Aq_db fresh_auditor) =
      (fst (audit_append folding_env folding_event (Aq_db fresh_auditor)), Inr ())" by code_simp
  have len: "int (length (tenant_rows ''t1'' (Aq_db fresh_auditor))) + 1 = 1" by code_simp
  have "VerifyChain folding_env ''t1'' None None (fst (audit_append folding_env folding_event (Aq_db fresh_auditor))) = Inr (1 - 1, 1)"
  proof (rule noncanonical_id_reads_as_tampered [OF start _ _ app _ refl, where u = "''x9''" and t = "''t1''" and prev = "[]"])
    show "inj_on (Au_sha256 folding_env)
      {chain_input [] 1 folding_event (canonicalJSON folding_env (AV_Detail folding_event)),
       chain_input [] 1 (folding_event\<lparr>AV_TargetID := ''x9''\<rparr>) (canonicalJSON folding_env (AV_Detail folding_event)),
       chain_input [] 1 (folding_event\<lparr>AV_TargetID := ''x9''\<rparr>) ''{}''}"
      by (rule inj_on_remdups [of _ "[chain_input [] 1 folding_event (canonicalJSON folding_env (AV_Detail folding_event)),
       chain_input [] 1 (folding_event\<lparr>AV_TargetID := ''x9''\<rparr>) (canonicalJSON folding_env (AV_Detail folding_event)),
       chain_input [] 1 (folding_event\<lparr>AV_TargetID := ''x9''\<rparr>) ''{}'']", unfolded list.set]) code_simp
  qed (simp | code_simp)+
  then show ?thesis by simp
qed

end
