(* ===== verification/Operator_Store.thy ===== *)
theory Operator_Store
  imports Factors
begin

text \<open>
  The people who operate the installation, as data: \<^verbatim>\<open>internal/control/domain\<close> (roles and what they carry, assignments,
  operators, refresh links, machine credentials) and the repository methods of \<^verbatim>\<open>internal/control/adapter/postgres\<close> over
  their four tables, each with the statement it runs (\<^verbatim>\<open>rquery/assignment.go\<close>, \<^verbatim>\<open>user.go\<close>, \<^verbatim>\<open>refresh.go\<close>, \<^verbatim>\<open>api_key.go\<close>)
  and the checks of migrations 0026, 0027, 0031 and 0033.

  \<open>PlatformEnv\<close> is what one call meets: the primitives of sign-in, the database's clock, the ids its defaults generate and
  the statements that fail, the driver's reading of a text argument for a uuid column, the tenants, the comparison and order of
  text under the database's collation, and two codecs. A hash is 32 bytes, so the check on its length never refuses one.
\<close>

section \<open>operator\_role.go\<close>

definition RoleSupport :: string where "RoleSupport = ''support''"
definition RoleAdmin :: string where "RoleAdmin = ''admin''"
definition RoleOwner :: string where "RoleOwner = ''owner''"

definition PermAssignOperators :: string where "PermAssignOperators = ''anubis:platform:assign''"
definition PermManageTenants :: string where "PermManageTenants = ''anubis:platform:tenants''"

definition operatorPermissions :: "string list" where
  "operatorPermissions = [''anubis:identity:read'', ''anubis:identity:write'', ''anubis:credential:write'', ''anubis:signin:admin'']"

definition supportPermissions :: "string list" where
  "supportPermissions = [''anubis:identity:read'', ''anubis:identity:write'', ''anubis:credential:write'']"

definition adminPermissions :: "string list" where
  "adminPermissions = [''anubis:audit:read'', ''anubis:consent:write'', ''anubis:grant:admin'', ''anubis:membership:admin'',
     ''anubis:realm:admin'', ''anubis:role:admin'', ''anubis:scope:admin'', ''anubis:sync:admin'', ''anubis:application:admin'',
     ''anubis:apikey:admin'', ''anubis:manifest:apply''] @ operatorPermissions"

definition installationPermissions :: "string list" where
  "installationPermissions = [PermAssignOperators, PermManageTenants, ''anubis:tenant:admin'', ''anubis:key:admin'', ''anubis:audit:read'']"

definition InstallationScoped :: "string \<Rightarrow> bool" where
  "InstallationScoped permission = list_ex (\<lambda>p. p = permission) installationPermissions"

definition ownerPermissions :: "string list" where
  "ownerPermissions = installationPermissions @ adminPermissions"

definition Role_Valid :: "string \<Rightarrow> bool" where
  "Role_Valid r \<longleftrightarrow> r = RoleSupport \<or> r = RoleAdmin \<or> r = RoleOwner"

definition role_permissions :: "string \<Rightarrow> string list" where
  "role_permissions r =
     (if r = RoleSupport then supportPermissions else if r = RoleAdmin then adminPermissions
      else if r = RoleOwner then ownerPermissions else [])"

definition Role_Allows :: "string \<Rightarrow> string \<Rightarrow> bool" where
  "Role_Allows r permission = list_ex (\<lambda>p. p = permission) (role_permissions r)"

section \<open>assignment\_record.go, platform\_user.go, refresh\_record.go, api\_key\_record.go\<close>

record AssignmentRecord =
  AR_ID :: string
  AR_OperatorID :: string
  AR_TenantID :: string
  AR_TenantSlug :: string
  AR_Role :: string
  AR_GrantedBy :: string
  AR_Reason :: string
  AR_ValidUntil :: "time option"
  AR_RevokedAt :: "time option"
  AR_CreatedAt :: time
  AR_Below :: "string list"

definition Assignment_Global :: "AssignmentRecord \<Rightarrow> bool" where
  "Assignment_Global a \<longleftrightarrow> AR_TenantID a = []"

definition Assignment_Live :: "AssignmentRecord \<Rightarrow> time \<Rightarrow> bool" where
  "Assignment_Live a now =
     (if AR_RevokedAt a \<noteq> None then False
      else case AR_ValidUntil a of None \<Rightarrow> True | Some u \<Rightarrow> After u now)"

definition Assignment_Covers :: "AssignmentRecord \<Rightarrow> string \<Rightarrow> time \<Rightarrow> bool" where
  "Assignment_Covers a tenantID now =
     (if \<not> Assignment_Live a now then False
      else Assignment_Global a \<or> AR_TenantID a = tenantID \<or> list_ex (\<lambda>t. t = tenantID) (AR_Below a))"

record PlatformUser =
  PU_ID :: string
  PU_Username :: string
  PU_Email :: string
  PU_Status :: string
  PU_TokenEpoch :: int
  PU_CreatedAt :: time
  PU_LastLoginAt :: "time option"
  PU_DisabledAt :: "time option"
  PU_Assignments :: "AssignmentRecord list"
  PU_TOTPEnrolledAt :: "time option"
  PU_TOTPLastStep :: "64 word"

definition User_MFAEnrolled :: "PlatformUser \<Rightarrow> bool" where
  "User_MFAEnrolled u \<longleftrightarrow> PU_TOTPEnrolledAt u \<noteq> None"

definition User_Active :: "PlatformUser \<Rightarrow> bool" where
  "User_Active u \<longleftrightarrow> PU_Status u = ''active''"

definition User_Owner :: "PlatformUser \<Rightarrow> time \<Rightarrow> bool" where
  "User_Owner u now = list_ex (\<lambda>a. Assignment_Global a \<and> AR_Role a = RoleOwner \<and> Assignment_Live a now) (PU_Assignments u)"

record PlatformRefresh =
  PF_ID :: string
  PF_PlatformUserID :: string
  PF_FamilyID :: string
  PF_ExpiresAt :: time
  PF_UsedAt :: "time option"
  PF_RevokedAt :: "time option"

definition Refresh_Spent :: "PlatformRefresh \<Rightarrow> bool" where
  "Refresh_Spent r \<longleftrightarrow> PF_UsedAt r \<noteq> None \<or> PF_RevokedAt r \<noteq> None"

record PlatformAPIKey =
  PY_ID :: string
  PY_PlatformUserID :: string
  PY_Username :: string
  PY_Label :: string
  PY_Lookup :: string
  PY_CreatedAt :: time
  PY_LastUsedAt :: "time option"
  PY_ExpiresAt :: time
  PY_RevokedAt :: "time option"

record PlatformAPIKeyAuth =
  PQ_ID :: string
  PQ_PlatformUserID :: string
  PQ_Username :: string
  PQ_SecretHash :: string
  PQ_ExpiresAt :: time
  PQ_OwnerStatus :: string
  PQ_TokenEpoch :: int
  PQ_LastUsedAt :: "time option"

section \<open>Tables\<close>

record OperatorRow =
  OU_id :: string
  OU_username :: string
  OU_email :: "string option"
  OU_password_hash :: string
  OU_status :: string
  OU_token_epoch :: int
  OU_created_at :: time
  OU_last_login_at :: "time option"
  OU_disabled_at :: "time option"
  OU_totp_secret_enc :: "string option"
  OU_totp_enrolled_at :: "time option"
  OU_totp_last_step :: int

record AssignmentRow =
  OA_id :: string
  OA_operator_id :: string
  OA_tenant_id :: "string option"
  OA_role :: string
  OA_granted_by :: "string option"
  OA_reason :: string
  OA_valid_until :: "time option"
  OA_revoked_at :: "time option"
  OA_created_at :: time

record OpRefreshRow =
  OR_id :: string
  OR_platform_user_id :: string
  OR_family_id :: string
  OR_token_hash :: string
  OR_expires_at :: time
  OR_used_at :: "time option"
  OR_revoked_at :: "time option"

record OpKeyRow =
  OK_id :: string
  OK_platform_user_id :: string
  OK_label :: string
  OK_lookup :: string
  OK_secret_hash :: string
  OK_created_at :: time
  OK_created_by :: "string option"
  OK_last_used_at :: "time option"
  OK_expires_at :: time
  OK_revoked_at :: "time option"

record PlatformDB =
  PD_users :: "OperatorRow list"
  PD_assignments :: "AssignmentRow list"
  PD_refresh :: "OpRefreshRow list"
  PD_keys :: "OpKeyRow list"
  PD_events :: "AuthEvent list"

record TenantNode =
  TW_id :: string
  TW_slug :: string
  TW_name :: string
  TW_parent :: "string option"

datatype pstmt =
    CreatePlatformUserS | PlatformUserByUsernameS | PlatformUserByIDS | ListPlatformUsersS | CountPlatformUsersS | TouchLoginS
  | SetStatusS | RehashPasswordS | SetPasswordS | TOTPSecretS | StageTOTPSecretS | ConfirmTOTPS | AdvanceTOTPStepS | ClearTOTPS
  | CreateAssignmentS | AssignmentsForOperatorS | AssignmentsS | HasOwnerS | RevokeAssignmentS
  | CreateRefreshFamilyS | AppendRefreshS | RefreshByHashS | ConsumeRefreshS | RevokeRefreshFamilyPS | SweepExpiredS
  | CreatePlatformAPIKeyS | PlatformAPIKeyByLookupS | ListPlatformAPIKeysS | TouchPlatformAPIKeyUsedS | RevokePlatformAPIKeyS
  | ListTenantsS | PBeginS | PCommitS

record PlatformEnv =
  Pe_sign :: SignEnv
  Pe_dbnow :: time
  Pe_newid :: "pstmt \<Rightarrow> string"
  Pe_fails :: "pstmt \<Rightarrow> bool"
  Pe_uuid :: "string \<Rightarrow> string option"
  Pe_master :: string
  Pe_tenants :: "TenantNode list"
  Pe_ILIKE :: "string \<Rightarrow> string \<Rightarrow> bool"
  Pe_greater :: "string \<Rightarrow> string \<Rightarrow> bool"
  Pe_by_username :: "OperatorRow list \<Rightarrow> OperatorRow list"
  Pe_mfa_Marshal :: "string \<Rightarrow> string option"
  Pe_mfa_Unmarshal :: "string \<Rightarrow> string option"
  Pe_ProvisioningURI :: "string \<Rightarrow> string \<Rightarrow> string"

abbreviation pe_is :: "PlatformEnv \<Rightarrow> IssuerEnv" where "pe_is ev \<equiv> Sg_issuer (Pe_sign ev)"
abbreviation pe_now :: "PlatformEnv \<Rightarrow> time" where "pe_now ev \<equiv> Is_clock (Sg_issuer (Pe_sign ev))"

definition prun :: "PlatformEnv \<Rightarrow> pstmt \<Rightarrow> 'a result \<Rightarrow> 'a result" where
  "prun ev s r = (if Pe_fails ev s then Inl ErrInternal else r)"

lemma prun_Inr: "prun ev s r = Inr x \<longleftrightarrow> \<not> Pe_fails ev s \<and> r = Inr x"
  by (simp add: prun_def)

text \<open>\<^verbatim>\<open>database.ParseUUID\<close>: the canonical text only; the answer is the text \<^verbatim>\<open>UUIDStr\<close> renders the bytes back as.\<close>

definition hex_lower :: "char \<Rightarrow> char option" where
  "hex_lower c =
     (if digit c \<or> (97 \<le> byte_of c \<and> byte_of c \<le> 102) then Some c
      else if 65 \<le> byte_of c \<and> byte_of c \<le> 70 then Some (char_of (byte_of c + 32)) else None)"

fun uuid_chars :: "nat \<Rightarrow> string \<Rightarrow> string option" where
  "uuid_chars i [] = Some []"
| "uuid_chars i (c # cs) =
     (case uuid_chars (Suc i) cs of None \<Rightarrow> None | Some out \<Rightarrow>
      if i \<in> {8, 13, 18, 23} then Some (CHR ''-'' # out)
      else (case hex_lower c of None \<Rightarrow> None | Some d \<Rightarrow> Some (d # out)))"

definition ParseUUID :: "string \<Rightarrow> string option" where
  "ParseUUID s =
     (if length s \<noteq> 36 \<or> s ! 8 \<noteq> CHR ''-'' \<or> s ! 13 \<noteq> CHR ''-'' \<or> s ! 18 \<noteq> CHR ''-'' \<or> s ! 23 \<noteq> CHR ''-'' then None
      else uuid_chars 0 s)"

definition by_uuid :: "string option \<Rightarrow> (string \<Rightarrow> 'a result) \<Rightarrow> 'a result" where
  "by_uuid u f = (case u of None \<Rightarrow> Inl ErrInternal | Some x \<Rightarrow> f x)"

lemma by_uuid_Inr: "by_uuid u f = Inr x \<longleftrightarrow> (\<exists>v. u = Some v \<and> f v = Inr x)"
  by (simp add: by_uuid_def split: option.split)

definition plat_emit :: "AuthEvent \<Rightarrow> PlatformDB \<Rightarrow> PlatformDB" where
  "plat_emit e db = db\<lparr>PD_events := PD_events db @ [e]\<rparr>"

section \<open>platform\_user\_repository.go\<close>

definition userOf :: "OperatorRow \<Rightarrow> PlatformUser" where
  "userOf r = \<lparr>PU_ID = OU_id r, PU_Username = OU_username r, PU_Email = nstr (OU_email r), PU_Status = OU_status r,
     PU_TokenEpoch = OU_token_epoch r, PU_CreatedAt = OU_created_at r, PU_LastLoginAt = OU_last_login_at r,
     PU_DisabledAt = OU_disabled_at r, PU_Assignments = [], PU_TOTPEnrolledAt = OU_totp_enrolled_at r,
     PU_TOTPLastStep = word_of_int (OU_totp_last_step r)\<rparr>"

text \<open>The check on \<^verbatim>\<open>platform_users.username\<close>: \<^verbatim>\<open>^[a-zA-Z0-9][a-zA-Z0-9._-]{1,62}$\<close>.\<close>

definition upper :: "char \<Rightarrow> bool" where
  "upper c \<longleftrightarrow> 65 \<le> byte_of c \<and> byte_of c \<le> 90"

definition operator_name_ok :: "string \<Rightarrow> bool" where
  "operator_name_ok s \<longleftrightarrow> (case s of [] \<Rightarrow> False | c # cs \<Rightarrow>
     (lower c \<or> upper c \<or> digit c) \<and> 1 \<le> length cs \<and> length cs \<le> 62 \<and>
     list_all (\<lambda>d. lower d \<or> upper d \<or> digit d \<or> d = CHR ''.'' \<or> d = CHR ''_'' \<or> d = CHR ''-'') cs)"

definition CreatePlatformUser :: "PlatformEnv \<Rightarrow> string \<Rightarrow> string \<Rightarrow> string \<Rightarrow> PlatformDB \<Rightarrow> (string \<times> PlatformDB) result" where
  "CreatePlatformUser ev username email passwordHash db =
     (let low = Sg_lower (Pe_sign ev);
          row = \<lparr>OU_id = Pe_newid ev CreatePlatformUserS, OU_username = username, OU_email = nullif email, OU_password_hash = passwordHash,
            OU_status = ''active'', OU_token_epoch = 0, OU_created_at = Pe_dbnow ev, OU_last_login_at = None, OU_disabled_at = None,
            OU_totp_secret_enc = None, OU_totp_enrolled_at = None, OU_totp_last_step = 0\<rparr>
      in prun ev CreatePlatformUserS
        (if \<not> operator_name_ok username then Inl ErrInvalidArgument
         else if list_ex (\<lambda>u. OU_id u = OU_id row \<or> low (OU_username u) = low username \<or>
                   (email \<noteq> [] \<and> (case OU_email u of None \<Rightarrow> False | Some m \<Rightarrow> low m = low email))) (PD_users db) then Inl ErrConflict
         else Inr (OU_id row, db\<lparr>PD_users := PD_users db @ [row]\<rparr>)))"

definition PlatformUserByUsername :: "PlatformEnv \<Rightarrow> string \<Rightarrow> PlatformDB \<Rightarrow> (PlatformUser \<times> string) option result" where
  "PlatformUserByUsername ev username db =
     (let low = Sg_lower (Pe_sign ev) in
      prun ev PlatformUserByUsernameS
        (Inr (map_option (\<lambda>r. (userOf r, OU_password_hash r)) (find (\<lambda>r. low (OU_username r) = low username) (PD_users db)))))"

definition PlatformUserByID :: "PlatformEnv \<Rightarrow> string \<Rightarrow> PlatformDB \<Rightarrow> (PlatformUser \<times> string) option result" where
  "PlatformUserByID ev oid db =
     by_uuid (ParseUUID oid) (\<lambda>uid. prun ev PlatformUserByIDS
       (Inr (map_option (\<lambda>r. (userOf r, OU_password_hash r)) (find (\<lambda>r. OU_id r = uid) (PD_users db)))))"

definition OperatorStanding :: "PlatformEnv \<Rightarrow> string \<Rightarrow> PlatformDB \<Rightarrow> (bool \<times> int) result" where
  "OperatorStanding ev operatorID db =
     (case PlatformUserByID ev operatorID db of
        Inl e \<Rightarrow> Inl e
      | Inr None \<Rightarrow> Inr (False, 0)
      | Inr (Some (who, _)) \<Rightarrow> Inr (User_Active who, PU_TokenEpoch who))"

definition ListPlatformUsers :: "PlatformEnv \<Rightarrow> string \<Rightarrow> string \<Rightarrow> nat \<Rightarrow> PlatformDB \<Rightarrow> PlatformUser list result" where
  "ListPlatformUsers ev query after pageSize db =
     prun ev ListPlatformUsersS (Inr (map (\<lambda>r. (userOf r)\<lparr>PU_TOTPLastStep := 0\<rparr>) (take pageSize (Pe_by_username ev
       (filter (\<lambda>r. (query = [] \<or> Pe_ILIKE ev (OU_username r) query) \<and> (after = [] \<or> Pe_greater ev (OU_username r) after))
          (PD_users db))))))"

definition CountPlatformUsers :: "PlatformEnv \<Rightarrow> PlatformDB \<Rightarrow> nat result" where
  "CountPlatformUsers ev db = prun ev CountPlatformUsersS (Inr (length (PD_users db)))"

text \<open>An update of the row of one operator; its count says whether there was one. The epoch is an \<^verbatim>\<open>integer\<close> column: past
  its end the statement fails.\<close>

definition on_user :: "string \<Rightarrow> (OperatorRow \<Rightarrow> OperatorRow) \<Rightarrow> PlatformDB \<Rightarrow> PlatformDB" where
  "on_user uid f db = db\<lparr>PD_users := map (\<lambda>r. if OU_id r = uid then f r else r) (PD_users db)\<rparr>"

definition has_user :: "string \<Rightarrow> PlatformDB \<Rightarrow> bool" where
  "has_user uid db = list_ex (\<lambda>r. OU_id r = uid) (PD_users db)"

definition epoch_at_end :: "string \<Rightarrow> PlatformDB \<Rightarrow> bool" where
  "epoch_at_end uid db = list_ex (\<lambda>r. OU_id r = uid \<and> OU_token_epoch r + 1 \<ge> 2 ^ 31) (PD_users db)"

definition TouchLogin :: "PlatformEnv \<Rightarrow> string \<Rightarrow> PlatformDB \<Rightarrow> PlatformDB" where
  "TouchLogin ev oid db =
     (case Pe_uuid ev oid of None \<Rightarrow> db | Some uid \<Rightarrow>
      if Pe_fails ev TouchLoginS then db else on_user uid (\<lambda>r. r\<lparr>OU_last_login_at := Some (Pe_dbnow ev)\<rparr>) db)"

definition SetStatus :: "PlatformEnv \<Rightarrow> string \<Rightarrow> string \<Rightarrow> PlatformDB \<Rightarrow> PlatformDB result" where
  "SetStatus ev oid status db =
     by_uuid (Pe_uuid ev oid) (\<lambda>uid. prun ev SetStatusS
       (if \<not> has_user uid db then Inl ErrNotFound
        else if status \<noteq> ''active'' \<and> status \<noteq> ''disabled'' then Inl ErrInvalidArgument
        else if status = ''disabled'' \<and> epoch_at_end uid db then Inl ErrInternal
        else Inr (on_user uid (\<lambda>r. r\<lparr>OU_status := status,
               OU_disabled_at := (if status = ''disabled'' then Some (Pe_dbnow ev) else None),
               OU_token_epoch := OU_token_epoch r + (if status = ''disabled'' then 1 else 0)\<rparr>) db)))"

definition RehashPassword :: "PlatformEnv \<Rightarrow> string \<Rightarrow> string \<Rightarrow> string \<Rightarrow> PlatformDB \<Rightarrow> PlatformDB result" where
  "RehashPassword ev oid oldHash newHash db =
     by_uuid (Pe_uuid ev oid) (\<lambda>uid. prun ev RehashPasswordS
       (Inr (on_user uid (\<lambda>r. if OU_password_hash r = oldHash then r\<lparr>OU_password_hash := newHash\<rparr> else r) db)))"

definition SetPassword :: "PlatformEnv \<Rightarrow> string \<Rightarrow> string \<Rightarrow> PlatformDB \<Rightarrow> PlatformDB result" where
  "SetPassword ev oid newHash db =
     by_uuid (Pe_uuid ev oid) (\<lambda>uid. prun ev SetPasswordS
       (if \<not> has_user uid db then Inl ErrNotFound
        else if epoch_at_end uid db then Inl ErrInternal
        else Inr (on_user uid (\<lambda>r. r\<lparr>OU_password_hash := newHash, OU_token_epoch := OU_token_epoch r + 1\<rparr>) db)))"

definition TOTPSecret :: "PlatformEnv \<Rightarrow> string \<Rightarrow> PlatformDB \<Rightarrow> string result" where
  "TOTPSecret ev oid db =
     by_uuid (ParseUUID oid) (\<lambda>uid. prun ev TOTPSecretS
       (case find (\<lambda>r. OU_id r = uid) (PD_users db) of None \<Rightarrow> Inr [] | Some r \<Rightarrow>
        if nstr (OU_totp_secret_enc r) = [] then Inr []
        else (case OpenSecret (Sg_aead (Pe_sign ev)) (Pe_master ev) oid (nstr (OU_totp_secret_enc r)) of
                Inl e \<Rightarrow> Inl ErrInternal | Inr s \<Rightarrow> Inr s)))"

definition StageTOTPSecret :: "PlatformEnv \<Rightarrow> string \<Rightarrow> string \<Rightarrow> PlatformDB \<Rightarrow> PlatformDB result" where
  "StageTOTPSecret ev oid secret db =
     (case SealSecret (Sg_aead (Pe_sign ev)) (Is_rand (pe_is ev) 5 12) (Pe_master ev) oid secret of
        None \<Rightarrow> Inl ErrInternal
      | Some sealed \<Rightarrow> by_uuid (Pe_uuid ev oid) (\<lambda>uid. prun ev StageTOTPSecretS
          (Inr (on_user uid (\<lambda>r. r\<lparr>OU_totp_secret_enc := Some sealed\<rparr>) db))))"

definition ConfirmEnrolment :: "PlatformEnv \<Rightarrow> string \<Rightarrow> 64 word \<Rightarrow> PlatformDB \<Rightarrow> PlatformDB result" where
  "ConfirmEnrolment ev oid step db =
     by_uuid (Pe_uuid ev oid) (\<lambda>uid. prun ev ConfirmTOTPS
       (if \<not> list_ex (\<lambda>r. OU_id r = uid \<and> OU_totp_secret_enc r \<noteq> None) (PD_users db) then Inl ErrInvalidArgument
        else Inr (on_user uid (\<lambda>r. if OU_totp_secret_enc r \<noteq> None
               then r\<lparr>OU_totp_enrolled_at := Some (Pe_dbnow ev), OU_totp_last_step := sint step\<rparr> else r) db)))"

definition AdvanceTOTPStep :: "PlatformEnv \<Rightarrow> string \<Rightarrow> 64 word \<Rightarrow> PlatformDB \<Rightarrow> (bool \<times> PlatformDB) result" where
  "AdvanceTOTPStep ev oid step db =
     by_uuid (Pe_uuid ev oid) (\<lambda>uid. prun ev AdvanceTOTPStepS
       (Inr (list_ex (\<lambda>r. OU_id r = uid \<and> OU_totp_last_step r < sint step) (PD_users db),
             on_user uid (\<lambda>r. if OU_totp_last_step r < sint step then r\<lparr>OU_totp_last_step := sint step\<rparr> else r) db)))"

section \<open>assignment\_repository.go\<close>

text \<open>\<open>belowCol\<close>: the companies under one, all levels down. The tree guard of migration 0057 keeps it at most six deep.\<close>

fun below_walk :: "nat \<Rightarrow> TenantNode list \<Rightarrow> string \<Rightarrow> string list" where
  "below_walk 0 ts t = []"
| "below_walk (Suc n) ts t =
     concat (map (\<lambda>c. TW_id c # below_walk n ts (TW_id c)) (filter (\<lambda>c. TW_parent c = Some t) ts))"

definition max_depth :: nat where "max_depth = 6"

definition below :: "PlatformEnv \<Rightarrow> string option \<Rightarrow> string list" where
  "below ev t = (case t of None \<Rightarrow> [] | Some tid \<Rightarrow> below_walk max_depth (Pe_tenants ev) tid)"

definition slug_of :: "PlatformEnv \<Rightarrow> string option \<Rightarrow> string" where
  "slug_of ev t = (case t of None \<Rightarrow> [] | Some tid \<Rightarrow>
     (case find (\<lambda>n. TW_id n = tid) (Pe_tenants ev) of None \<Rightarrow> [] | Some n \<Rightarrow> TW_slug n))"

definition assignment_of :: "PlatformEnv \<Rightarrow> bool \<Rightarrow> AssignmentRow \<Rightarrow> AssignmentRecord" where
  "assignment_of ev named r = \<lparr>AR_ID = OA_id r, AR_OperatorID = OA_operator_id r, AR_TenantID = nstr (OA_tenant_id r),
     AR_TenantSlug = (if named then slug_of ev (OA_tenant_id r) else []), AR_Role = OA_role r, AR_GrantedBy = nstr (OA_granted_by r),
     AR_Reason = OA_reason r, AR_ValidUntil = OA_valid_until r, AR_RevokedAt = OA_revoked_at r, AR_CreatedAt = OA_created_at r,
     AR_Below = below ev (OA_tenant_id r)\<rparr>"

text \<open>The order of an answer is the operator's and the tenant's; nothing reads it, so it is the table's.\<close>

definition Assignments :: "PlatformEnv \<Rightarrow> PlatformDB \<Rightarrow> AssignmentRecord list result" where
  "Assignments ev db =
     prun ev AssignmentsS (Inr (map (assignment_of ev True) (filter (\<lambda>r. OA_revoked_at r = None) (PD_assignments db))))"

definition AssignmentsForOperator :: "PlatformEnv \<Rightarrow> string \<Rightarrow> PlatformDB \<Rightarrow> AssignmentRecord list result" where
  "AssignmentsForOperator ev operatorID db =
     by_uuid (Pe_uuid ev operatorID) (\<lambda>uid. prun ev AssignmentsForOperatorS
       (Inr (map (assignment_of ev False)
         (filter (\<lambda>r. OA_operator_id r = uid \<and> OA_revoked_at r = None \<and>
                   list_ex (\<lambda>u. OU_id u = uid \<and> OU_status u = ''active'') (PD_users db)) (PD_assignments db)))))"

definition opt_uuid :: "string \<Rightarrow> string option result" where
  "opt_uuid s = (if s = [] then Inr None else case ParseUUID s of None \<Rightarrow> Inl ErrInternal | Some u \<Rightarrow> Inr (Some u))"

definition CreateAssignment :: "PlatformEnv \<Rightarrow> AssignmentRecord \<Rightarrow> PlatformDB \<Rightarrow> (string \<times> PlatformDB) result" where
  "CreateAssignment ev a db =
     by_uuid (ParseUUID (AR_OperatorID a)) (\<lambda>operator.
     and_then (opt_uuid (AR_TenantID a)) (\<lambda>tenant.
     and_then (opt_uuid (AR_GrantedBy a)) (\<lambda>by_whom.
       let row = \<lparr>OA_id = Pe_newid ev CreateAssignmentS, OA_operator_id = operator, OA_tenant_id = tenant, OA_role = AR_Role a,
             OA_granted_by = by_whom, OA_reason = AR_Reason a, OA_valid_until = AR_ValidUntil a, OA_revoked_at = None,
             OA_created_at = Pe_dbnow ev\<rparr>
       in prun ev CreateAssignmentS
         (if \<not> Role_Valid (AR_Role a) then Inl ErrInvalidArgument
          else if list_ex (\<lambda>r. OA_id r = OA_id row \<or> (OA_operator_id r = operator \<and> OA_tenant_id r = tenant \<and> OA_revoked_at r = None))
                    (PD_assignments db) then Inl ErrConflict
          else if \<not> has_user operator db \<or> (case tenant of None \<Rightarrow> False | Some t \<Rightarrow> \<not> list_ex (\<lambda>n. TW_id n = t) (Pe_tenants ev)) \<or>
                    (case by_whom of None \<Rightarrow> False | Some g \<Rightarrow> \<not> has_user g db) then Inl ErrInvalidArgument
          else Inr (OA_id row, db\<lparr>PD_assignments := PD_assignments db @ [row]\<rparr>)))))"

definition HasOwner :: "PlatformEnv \<Rightarrow> PlatformDB \<Rightarrow> bool result" where
  "HasOwner ev db =
     prun ev HasOwnerS (Inr (list_ex (\<lambda>r. OA_tenant_id r = None \<and> OA_role r = ''owner'' \<and> OA_revoked_at r = None) (PD_assignments db)))"

definition Store_RevokeAssignment :: "PlatformEnv \<Rightarrow> string \<Rightarrow> PlatformDB \<Rightarrow> PlatformDB result" where
  "Store_RevokeAssignment ev oid db =
     by_uuid (Pe_uuid ev oid) (\<lambda>aid. prun ev RevokeAssignmentS
       (if \<not> list_ex (\<lambda>r. OA_id r = aid \<and> OA_revoked_at r = None) (PD_assignments db) then Inl ErrNotFound
        else Inr (db\<lparr>PD_assignments := map (\<lambda>r. if OA_id r = aid \<and> OA_revoked_at r = None
               then r\<lparr>OA_revoked_at := Some (Pe_dbnow ev)\<rparr> else r) (PD_assignments db)\<rparr>)))"

section \<open>refresh\_repository.go\<close>

definition insert_refresh :: "PlatformEnv \<Rightarrow> pstmt \<Rightarrow> OpRefreshRow \<Rightarrow> PlatformDB \<Rightarrow> PlatformDB result" where
  "insert_refresh ev s row db =
     prun ev s
       (if list_ex (\<lambda>r. OR_id r = OR_id row \<or> OR_token_hash r = OR_token_hash row) (PD_refresh db) then Inl ErrConflict
        else if \<not> has_user (OR_platform_user_id row) db then Inl ErrInvalidArgument
        else Inr (db\<lparr>PD_refresh := PD_refresh db @ [row]\<rparr>))"

definition CreateRefreshFamily :: "PlatformEnv \<Rightarrow> string \<Rightarrow> string \<Rightarrow> time \<Rightarrow> PlatformDB \<Rightarrow> PlatformDB result" where
  "CreateRefreshFamily ev platformUserID tokenHash expiresAt db =
     by_uuid (Pe_uuid ev platformUserID) (\<lambda>uid. let u = Pe_newid ev CreateRefreshFamilyS in
       insert_refresh ev CreateRefreshFamilyS \<lparr>OR_id = u, OR_platform_user_id = uid, OR_family_id = u, OR_token_hash = tokenHash,
         OR_expires_at = expiresAt, OR_used_at = None, OR_revoked_at = None\<rparr> db)"

definition AppendRefresh :: "PlatformEnv \<Rightarrow> string \<Rightarrow> string \<Rightarrow> string \<Rightarrow> time \<Rightarrow> PlatformDB \<Rightarrow> PlatformDB result" where
  "AppendRefresh ev platformUserID familyID tokenHash expiresAt db =
     by_uuid (ParseUUID platformUserID) (\<lambda>owner. by_uuid (ParseUUID familyID) (\<lambda>family.
       insert_refresh ev AppendRefreshS \<lparr>OR_id = Pe_newid ev AppendRefreshS, OR_platform_user_id = owner, OR_family_id = family,
         OR_token_hash = tokenHash, OR_expires_at = expiresAt, OR_used_at = None, OR_revoked_at = None\<rparr> db))"

definition refresh_of :: "OpRefreshRow \<Rightarrow> PlatformRefresh" where
  "refresh_of r = \<lparr>PF_ID = OR_id r, PF_PlatformUserID = OR_platform_user_id r, PF_FamilyID = OR_family_id r,
     PF_ExpiresAt = OR_expires_at r, PF_UsedAt = OR_used_at r, PF_RevokedAt = OR_revoked_at r\<rparr>"

definition Store_RefreshByHash :: "PlatformEnv \<Rightarrow> string \<Rightarrow> PlatformDB \<Rightarrow> PlatformRefresh option result" where
  "Store_RefreshByHash ev tokenHash db =
     prun ev RefreshByHashS (Inr (map_option refresh_of (find (\<lambda>r. OR_token_hash r = tokenHash) (PD_refresh db))))"

definition unspent :: "OpRefreshRow \<Rightarrow> bool" where
  "unspent r \<longleftrightarrow> OR_used_at r = None \<and> OR_revoked_at r = None"

definition ConsumeRefresh :: "PlatformEnv \<Rightarrow> string \<Rightarrow> PlatformDB \<Rightarrow> (bool \<times> PlatformDB) result" where
  "ConsumeRefresh ev oid db =
     by_uuid (Pe_uuid ev oid) (\<lambda>rid. prun ev ConsumeRefreshS
       (Inr (list_ex (\<lambda>r. OR_id r = rid \<and> unspent r) (PD_refresh db),
             db\<lparr>PD_refresh := map (\<lambda>r. if OR_id r = rid \<and> unspent r then r\<lparr>OR_used_at := Some (Pe_dbnow ev)\<rparr> else r) (PD_refresh db)\<rparr>)))"

definition Store_RevokeRefreshFamily :: "PlatformEnv \<Rightarrow> string \<Rightarrow> PlatformDB \<Rightarrow> PlatformDB result" where
  "Store_RevokeRefreshFamily ev familyID db =
     by_uuid (Pe_uuid ev familyID) (\<lambda>f. prun ev RevokeRefreshFamilyPS
       (Inr (db\<lparr>PD_refresh := map (\<lambda>r. if OR_family_id r = f \<and> OR_revoked_at r = None
               then r\<lparr>OR_revoked_at := Some (Pe_dbnow ev)\<rparr> else r) (PD_refresh db)\<rparr>)))"

definition SweepExpired :: "PlatformEnv \<Rightarrow> PlatformDB \<Rightarrow> PlatformDB result" where
  "SweepExpired ev db =
     prun ev SweepExpiredS (Inr (db\<lparr>PD_refresh := filter (\<lambda>r. \<not> OR_expires_at r < Pe_dbnow ev - 24 * 3600 * Second) (PD_refresh db)\<rparr>))"

section \<open>api\_key\_repository.go\<close>

definition CreatePlatformAPIKey ::
  "PlatformEnv \<Rightarrow> string \<Rightarrow> string \<Rightarrow> string \<Rightarrow> string \<Rightarrow> string \<Rightarrow> time \<Rightarrow> PlatformDB \<Rightarrow> (string \<times> PlatformDB) result" where
  "CreatePlatformAPIKey ev ownerID label lookup secretHash createdBy expiresAt db =
     by_uuid (ParseUUID ownerID) (\<lambda>owner. and_then (opt_uuid createdBy) (\<lambda>by_whom.
       let row = \<lparr>OK_id = Pe_newid ev CreatePlatformAPIKeyS, OK_platform_user_id = owner, OK_label = label, OK_lookup = lookup,
             OK_secret_hash = secretHash, OK_created_at = Pe_dbnow ev, OK_created_by = by_whom, OK_last_used_at = None,
             OK_expires_at = expiresAt, OK_revoked_at = None\<rparr>
       in prun ev CreatePlatformAPIKeyS
         (if list_ex (\<lambda>k. OK_id k = OK_id row \<or> (OK_lookup k = lookup \<and> OK_revoked_at k = None)) (PD_keys db) then Inl ErrConflict
          else if \<not> has_user owner db \<or> (case by_whom of None \<Rightarrow> False | Some g \<Rightarrow> \<not> has_user g db) then Inl ErrInvalidArgument
          else Inr (OK_id row, db\<lparr>PD_keys := PD_keys db @ [row]\<rparr>))))"

definition key_auth_of :: "OpKeyRow \<Rightarrow> OperatorRow \<Rightarrow> PlatformAPIKeyAuth" where
  "key_auth_of k u = \<lparr>PQ_ID = OK_id k, PQ_PlatformUserID = OK_platform_user_id k, PQ_Username = OU_username u,
     PQ_SecretHash = OK_secret_hash k, PQ_ExpiresAt = OK_expires_at k, PQ_OwnerStatus = OU_status u,
     PQ_TokenEpoch = OU_token_epoch u, PQ_LastUsedAt = OK_last_used_at k\<rparr>"

definition PlatformAPIKeyByLookup :: "PlatformEnv \<Rightarrow> string \<Rightarrow> PlatformDB \<Rightarrow> PlatformAPIKeyAuth option result" where
  "PlatformAPIKeyByLookup ev lookup db =
     prun ev PlatformAPIKeyByLookupS (Inr
       (case find (\<lambda>k. OK_lookup k = lookup \<and> OK_revoked_at k = None \<and> has_user (OK_platform_user_id k) db) (PD_keys db) of
          None \<Rightarrow> None
        | Some k \<Rightarrow> map_option (key_auth_of k) (find (\<lambda>u. OU_id u = OK_platform_user_id k) (PD_users db))))"

definition ListPlatformAPIKeys :: "PlatformEnv \<Rightarrow> PlatformDB \<Rightarrow> PlatformAPIKey list result" where
  "ListPlatformAPIKeys ev db =
     prun ev ListPlatformAPIKeysS (Inr (concat (map (\<lambda>k.
       case find (\<lambda>u. OU_id u = OK_platform_user_id k) (PD_users db) of None \<Rightarrow> []
       | Some u \<Rightarrow> [\<lparr>PY_ID = OK_id k, PY_PlatformUserID = OK_platform_user_id k, PY_Username = OU_username u, PY_Label = OK_label k,
           PY_Lookup = OK_lookup k, PY_CreatedAt = OK_created_at k, PY_LastUsedAt = OK_last_used_at k, PY_ExpiresAt = OK_expires_at k,
           PY_RevokedAt = OK_revoked_at k\<rparr>]) (sort_key (\<lambda>k. - OK_created_at k) (PD_keys db)))))"

definition TouchPlatformAPIKeyUsed :: "PlatformEnv \<Rightarrow> string \<Rightarrow> PlatformDB \<Rightarrow> PlatformDB" where
  "TouchPlatformAPIKeyUsed ev oid db =
     (case Pe_uuid ev oid of None \<Rightarrow> db | Some kid \<Rightarrow>
      if Pe_fails ev TouchPlatformAPIKeyUsedS then db
      else db\<lparr>PD_keys := map (\<lambda>k. if OK_id k = kid then k\<lparr>OK_last_used_at := Some (Pe_dbnow ev)\<rparr> else k) (PD_keys db)\<rparr>)"

definition RevokePlatformAPIKey :: "PlatformEnv \<Rightarrow> string \<Rightarrow> PlatformDB \<Rightarrow> PlatformDB result" where
  "RevokePlatformAPIKey ev oid db =
     by_uuid (Pe_uuid ev oid) (\<lambda>kid. prun ev RevokePlatformAPIKeyS
       (Inr (db\<lparr>PD_keys := map (\<lambda>k. if OK_id k = kid \<and> OK_revoked_at k = None
               then k\<lparr>OK_revoked_at := Some (Pe_dbnow ev)\<rparr> else k) (PD_keys db)\<rparr>)))"

end
