(* ===== verification/Operator_Plane.thy ===== *)
theory Operator_Plane
  imports Operator_Store
begin

text \<open>
  What operators may do and how they sign in: \<^verbatim>\<open>internal/control/app\<close> (\<^verbatim>\<open>platform_guard.go\<close>, \<^verbatim>\<open>platform_auth_interactor.go\<close>,
  \<^verbatim>\<open>operator_admin_interactor.go\<close>, the owner of \<^verbatim>\<open>provision.go\<close>) and the guard of the administration plane,
  \<^verbatim>\<open>internal/authz/guard/admin_guard.go\<close>. Every operation takes the tables and returns them with its answer. The reads of the
  random source are numbered: 0 a refresh token, 1 and 2 a challenge, 3 a salt, 4 and 5 an authenticator secret, 6 a
  temporary password. Both guards are the wired ones: an unwired guard refuses everybody.
\<close>

unbundle bit_operations_syntax

section \<open>platform\_guard.go\<close>

definition stillValid :: "PlatformEnv \<Rightarrow> Principal \<Rightarrow> PlatformDB \<Rightarrow> unit result" where
  "stillValid ev p db =
     (case PlatformUserByID ev (Pr_IdentityID p) db of
        Inr (Some (who, _)) \<Rightarrow>
          if \<not> User_Active who then Inl ErrUnauthenticated
          else if Pr_Epoch p \<noteq> PU_TokenEpoch who then Inl ErrUnauthenticated else Inr ()
      | _ \<Rightarrow> Inl ErrUnauthenticated)"

definition live_of :: "string \<Rightarrow> time \<Rightarrow> AssignmentRecord list \<Rightarrow> AssignmentRecord list" where
  "live_of operatorID now all = filter (\<lambda>a. AR_OperatorID a = operatorID \<and> Assignment_Live a now) all"

definition guard_require :: "PlatformEnv \<Rightarrow> Principal option \<Rightarrow> string \<Rightarrow> PlatformDB \<Rightarrow> (Principal \<times> AssignmentRecord list) result" where
  "guard_require ev ctx permission db =
     (case ctx of None \<Rightarrow> Inl ErrUnauthenticated | Some p \<Rightarrow>
      if \<not> Pr_Platform p then Inl ErrPermissionDenied
      else and_then (stillValid ev p db) (\<lambda>_.
           and_then (Assignments ev db) (\<lambda>all.
             let mine = live_of (Pr_IdentityID p) (pe_now ev) all;
                 allowed = list_ex (\<lambda>a. Role_Allows (AR_Role a) permission) mine
             in if length mine = 0 then Inl ErrPermissionDenied
                else if \<not> allowed then Inl ErrPermissionDenied else Inr (p, mine))))"

definition guard_requireAny :: "PlatformEnv \<Rightarrow> Principal option \<Rightarrow> PlatformDB \<Rightarrow> Principal result" where
  "guard_requireAny ev ctx db =
     (case ctx of None \<Rightarrow> Inl ErrUnauthenticated | Some p \<Rightarrow>
      if \<not> Pr_Platform p then Inl ErrPermissionDenied
      else and_then (Assignments ev db) (\<lambda>all.
        if live_of (Pr_IdentityID p) (pe_now ev) all \<noteq> [] then Inr p else Inl ErrPermissionDenied))"

section \<open>admin\_guard.go\<close>

definition requirePlatform :: "PlatformEnv \<Rightarrow> Principal \<Rightarrow> string \<Rightarrow> PlatformDB \<Rightarrow> Principal result" where
  "requirePlatform ev p permission db =
     (case OperatorStanding ev (Pr_IdentityID p) db of Inl e \<Rightarrow> Inl ErrInternal | Inr (active, epoch) \<Rightarrow>
      if \<not> active \<or> epoch \<noteq> Pr_Epoch p then Inl ErrUnauthenticated
      else case AssignmentsForOperator ev (Pr_IdentityID p) db of Inl e \<Rightarrow> Inl ErrInternal | Inr mine \<Rightarrow>
        let now = pe_now ev in
        if list_ex (\<lambda>a. Assignment_Global a \<and> Assignment_Live a now \<and> Role_Allows (AR_Role a) permission) mine
        then (if Pr_TenantID p = [] \<and> \<not> InstallationScoped permission then Inl ErrNoTenantSelected else Inr p)
        else if Pr_TenantID p = [] then Inl ErrPermissionDenied
        else if list_ex (\<lambda>a. Assignment_Covers a (Pr_TenantID p) now \<and> Role_Allows (AR_Role a) permission) mine
        then Inr p else Inl ErrPermissionDenied)"

definition guard_Require :: "PlatformEnv \<Rightarrow> Principal option \<Rightarrow> string \<Rightarrow> PlatformDB \<Rightarrow> Principal result" where
  "guard_Require ev ctx permission db =
     (case ctx of None \<Rightarrow> Inl ErrUnauthenticated | Some p \<Rightarrow>
      if \<not> Pr_Platform p then Inl ErrPermissionDenied else requirePlatform ev p permission db)"

section \<open>platform\_auth\_interactor.go: sign-in\<close>

definition PlatformAudience :: string where "PlatformAudience = ''anubis-platform''"
definition platformTokenTTL :: duration where "platformTokenTTL = 3600 * Second"
definition platformMfaTTL :: duration where "platformMfaTTL = 3 * 60 * Second"
definition platformRefreshFamilyTTL :: duration where "platformRefreshFamilyTTL = 12 * 3600 * Second"
definition purposePlatformMFA :: string where "purposePlatformMFA = ''platform_mfa''"
definition InstallationTenant :: string where "InstallationTenant = ''00000000-0000-0000-0000-000000000000''"

record PlatformSession =
  PS_AccessToken :: string
  PS_RefreshToken :: string
  PS_ExpiresIn :: int
  PS_Username :: string
  PS_Owner :: bool
  PS_MFAToken :: string

definition platform_event ::
  "PlatformEnv \<Rightarrow> string \<Rightarrow> string \<Rightarrow> string \<Rightarrow> string \<Rightarrow> (string, string) gomap \<Rightarrow> AuthEvent" where
  "platform_event ev actor target action res detail =
     \<lparr>AE_TenantID = InstallationTenant, AE_ActorID = actor, AE_ActorKind = ''platform_user'', AE_SessionID = [],
      AE_TargetID = target, AE_Action = action, AE_Result = res, AE_IP = Is_ip (pe_is ev), AE_Detail = detail\<rparr>"

definition platform_deny :: "PlatformEnv \<Rightarrow> string \<Rightarrow> string \<Rightarrow> PlatformDB \<Rightarrow> PlatformDB" where
  "platform_deny ev username reason db =
     plat_emit (platform_event ev [] [] ''platform.login'' ''deny'' [(''username'', username), (''reason'', reason)]) db"

definition signClaims :: "PlatformEnv \<Rightarrow> Claims \<Rightarrow> string result" where
  "signClaims ev claims =
     (case ActiveAccessAt (Is_ring (pe_is ev)) (pe_now ev) of
        Inl e \<Rightarrow> Inl ErrInternal
      | Inr key \<Rightarrow>
          (case issue_token (Is_ed (pe_is ev)) (Is_json (pe_is ev)) False (case Key_Private key of None \<Rightarrow> [] | Some sk \<Rightarrow> sk) (Key_Kid key)
                  (js_marshal_claims (Is_json (pe_is ev)) claims) of
             None \<Rightarrow> Inl ErrInternal | Some token \<Rightarrow> Inr token))"

definition operator_claims :: "PlatformEnv \<Rightarrow> string \<Rightarrow> string list \<Rightarrow> int \<Rightarrow> time \<Rightarrow> Claims" where
  "operator_claims ev subject roles epoch now =
     \<lparr>Cl_Issuer = Is_issuer (pe_is ev), Cl_Subject = subject, Cl_Audience = [PlatformAudience],
      Cl_Expires = Unix (now + platformTokenTTL), Cl_IssuedAt = Unix now, Cl_NotBefore = Unix now, Cl_TokenID = [],
      Cl_Session = [], Cl_Tenant = [], Cl_Roles = roles, Cl_Scope = [], Cl_Scopes = [], Cl_Realm = [], Cl_IAL = 0, Cl_AMR = [],
      Cl_AuthTime = 0, Cl_Epoch = epoch, Cl_Version = 1\<rparr>"

definition mint :: "PlatformEnv \<Rightarrow> string \<Rightarrow> string list \<Rightarrow> int \<Rightarrow> time \<Rightarrow> string result" where
  "mint ev subject roles epoch now = signClaims ev (operator_claims ev subject roles epoch now)"

definition opened :: "string \<Rightarrow> string \<Rightarrow> PlatformUser \<Rightarrow> time \<Rightarrow> PlatformSession" where
  "opened token rt who now =
     \<lparr>PS_AccessToken = token, PS_RefreshToken = rt, PS_ExpiresIn = go_quot platformTokenTTL Second, PS_Username = PU_Username who,
      PS_Owner = User_Owner who now, PS_MFAToken = []\<rparr>"

definition beginSession ::
  "PlatformEnv \<Rightarrow> PlatformUser \<Rightarrow> string list \<Rightarrow> time \<Rightarrow> PlatformDB \<Rightarrow> (PlatformSession \<times> PlatformDB) result" where
  "beginSession ev who roles now db =
     and_then (mint ev (PU_ID who) roles (PU_TokenEpoch who) now) (\<lambda>token.
     case secret_New (pe_is ev) 0 32 of None \<Rightarrow> Inl ErrInternal | Some rt \<Rightarrow>
     and_then (CreateRefreshFamily ev (PU_ID who) (Is_hash (pe_is ev) rt) (now + platformRefreshFamilyTTL) db) (\<lambda>db'.
       Inr (opened token rt who now, db')))"

definition challenge :: "PlatformEnv \<Rightarrow> string \<Rightarrow> time \<Rightarrow> string result" where
  "challenge ev operatorID now =
     (case ActiveLocal (Is_ring (pe_is ev)) of Inl e \<Rightarrow> Inl ErrInternal | Inr key \<Rightarrow>
      case secret_New (pe_is ev) 1 16 of None \<Rightarrow> Inl ErrInternal | Some jti \<Rightarrow>
      case local_Seal (Sg_aead (Pe_sign ev)) (Is_rand (pe_is ev) 2 nonceSize) (Key_Secret key) (Key_Kid key) purposePlatformMFA jti
             (Pe_mfa_Marshal ev operatorID) platformMfaTTL now of
        None \<Rightarrow> Inl ErrInternal | Some token \<Rightarrow> Inr token)"

definition mustRehash :: "PlatformEnv \<Rightarrow> string \<Rightarrow> string" where
  "mustRehash ev password = (case kdf_Hash (Sg_kdf (Pe_sign ev)) (Is_rand (pe_is ev) 3 saltLen) password of None \<Rightarrow> [] | Some h \<Rightarrow> h)"

text \<open>What \<^verbatim>\<open>kdf.Verify\<close> leaves when its error is dropped, as every caller here does.\<close>

definition verified :: "PlatformEnv \<Rightarrow> string \<Rightarrow> string \<Rightarrow> bool \<times> bool" where
  "verified ev password hash = (case kdf_Verify (Sg_kdf (Pe_sign ev)) password hash of Inl e \<Rightarrow> (False, False) | Inr x \<Rightarrow> x)"

definition login_event :: "PlatformEnv \<Rightarrow> PlatformUser \<Rightarrow> (string, string) gomap \<Rightarrow> AuthEvent" where
  "login_event ev who detail = platform_event ev (PU_ID who) (PU_ID who) ''platform.login'' ''allow'' detail"

definition login_session :: "PlatformEnv \<Rightarrow> PlatformUser \<Rightarrow> string \<Rightarrow> time \<Rightarrow> PlatformDB \<Rightarrow> PlatformDB \<times> PlatformSession result" where
  "login_session ev who username now db =
     (case Assignments ev db of Inl e \<Rightarrow> (db, Inl e) | Inr all \<Rightarrow>
      let mine = live_of (PU_ID who) now all; roles = map AR_Role mine;
          who1 = who\<lparr>PU_Assignments := PU_Assignments who @ filter (\<lambda>a. Assignment_Global a \<and> AR_Role a = ''owner'') mine\<rparr>
      in if mine = [] then (platform_deny ev username ''no_assignment'' db, Inl ErrPermissionDenied)
         else if User_MFAEnrolled who1 then
           (case challenge ev (PU_ID who1) now of Inl e \<Rightarrow> (db, Inl e)
            | Inr token \<Rightarrow> (db, Inr \<lparr>PS_AccessToken = [], PS_RefreshToken = [], PS_ExpiresIn = 0, PS_Username = PU_Username who1,
                PS_Owner = False, PS_MFAToken = token\<rparr>))
         else (case beginSession ev who1 roles now db of Inl e \<Rightarrow> (db, Inl e)
               | Inr (sess, db') \<Rightarrow> (plat_emit (login_event ev who1 []) (TouchLogin ev (PU_ID who1) db'), Inr sess)))"

definition Platform_Login :: "PlatformEnv \<Rightarrow> string \<Rightarrow> string \<Rightarrow> PlatformDB \<Rightarrow> PlatformDB \<times> PlatformSession result" where
  "Platform_Login ev name password db =
     (let username = TrimSpace name in
      case PlatformUserByUsername ev username db of Inl e \<Rightarrow> (db, Inl e)
      | Inr None \<Rightarrow> (platform_deny ev username ''invalid_credentials'' db, Inl ErrInvalidCredentials)
      | Inr (Some (who, hash)) \<Rightarrow>
          (case verified ev password hash of (ok, needsRehash) \<Rightarrow>
           if \<not> ok then (platform_deny ev username ''invalid_credentials'' db, Inl ErrInvalidCredentials)
           else if \<not> User_Active who then (platform_deny ev username ''disabled'' db, Inl ErrIdentityDisabled)
           else
             let db1 = (if needsRehash then
                          (case RehashPassword ev (PU_ID who) hash (mustRehash ev password) db of Inl e \<Rightarrow> db | Inr db' \<Rightarrow> db')
                        else db)
             in login_session ev who username (pe_now ev) db1))"

definition liveRoles :: "PlatformEnv \<Rightarrow> string \<Rightarrow> time \<Rightarrow> PlatformDB \<Rightarrow> (string list \<times> bool) result" where
  "liveRoles ev operatorID now db =
     and_then (Assignments ev db) (\<lambda>all. let roles = map AR_Role (live_of operatorID now all) in Inr (roles, length roles > 0))"

definition mfa_session :: "PlatformEnv \<Rightarrow> PlatformUser \<Rightarrow> time \<Rightarrow> PlatformDB \<Rightarrow> PlatformDB \<times> PlatformSession result" where
  "mfa_session ev who now db =
     (case liveRoles ev (PU_ID who) now db of Inl e \<Rightarrow> (db, Inl e) | Inr (roles, live) \<Rightarrow>
      if \<not> live then (db, Inl ErrPermissionDenied)
      else (case beginSession ev who roles now db of Inl e \<Rightarrow> (db, Inl e)
            | Inr (sess, db') \<Rightarrow> (plat_emit (login_event ev who [(''amr'', ''totp'')]) (TouchLogin ev (PU_ID who) db'), Inr sess)))"

text \<open>A panic of the code computation is an internal error of the request.\<close>

definition VerifyMFA :: "PlatformEnv \<Rightarrow> string \<Rightarrow> string \<Rightarrow> PlatformDB \<Rightarrow> PlatformDB \<times> PlatformSession result" where
  "VerifyMFA ev mfaToken code db =
     (case ActiveLocal (Is_ring (pe_is ev)) of Inl e \<Rightarrow> (db, Inl ErrInternal) | Inr key \<Rightarrow>
      case local_Open (Sg_aead (Pe_sign ev)) (Key_Secret key) mfaToken purposePlatformMFA (pe_now ev) of
        Inl e \<Rightarrow> (db, Inl ErrInvalidCredentials)
      | Inr (_, raw) \<Rightarrow>
      case Pe_mfa_Unmarshal ev raw of None \<Rightarrow> (db, Inl ErrInvalidCredentials) | Some operatorID \<Rightarrow>
      if operatorID = [] then (db, Inl ErrInvalidCredentials)
      else case PlatformUserByID ev operatorID db of
        Inr (Some (who, _)) \<Rightarrow>
          if \<not> User_Active who \<or> \<not> User_MFAEnrolled who then (db, Inl ErrInvalidCredentials)
          else (case TOTPSecret ev (PU_ID who) db of Inl e \<Rightarrow> (db, Inl ErrInvalidCredentials) | Inr sec \<Rightarrow>
            if length sec = 0 then (db, Inl ErrInvalidCredentials)
            else let now = pe_now ev in
              case totp_Verify (Sg_mac (Pe_sign ev)) sec code now (30 * Second) 6 1 of
                None \<Rightarrow> (db, Inl ErrInternal)
              | Some (step, ok) \<Rightarrow>
                  if \<not> ok then (platform_deny ev (PU_Username who) ''bad_totp'' db, Inl ErrInvalidCredentials)
                  else (case AdvanceTOTPStep ev (PU_ID who) step db of Inl e \<Rightarrow> (db, Inl e) | Inr (fresh, db1) \<Rightarrow>
                    if \<not> fresh then (platform_deny ev (PU_Username who) ''totp_replay'' db1, Inl ErrInvalidCredentials)
                    else mfa_session ev who now db1))
      | _ \<Rightarrow> (db, Inl ErrInvalidCredentials))"

section \<open>platform\_auth\_interactor.go: the refresh chain\<close>

definition revoke_family :: "PlatformEnv \<Rightarrow> string \<Rightarrow> PlatformDB \<Rightarrow> PlatformDB" where
  "revoke_family ev familyID db = (case Store_RevokeRefreshFamily ev familyID db of Inl e \<Rightarrow> db | Inr db' \<Rightarrow> db')"

definition refreshReuse :: "PlatformEnv \<Rightarrow> PlatformRefresh \<Rightarrow> PlatformDB \<Rightarrow> PlatformDB" where
  "refreshReuse ev rec db =
     plat_emit (platform_event ev (PF_PlatformUserID rec) (PF_FamilyID rec) ''token.reuse_detected'' ''deny'' [(''plane'', ''platform'')])
       (revoke_family ev (PF_FamilyID rec) db)"

definition rotate :: "PlatformEnv \<Rightarrow> PlatformRefresh \<Rightarrow> time \<Rightarrow> PlatformDB \<Rightarrow> (PlatformSession \<times> PlatformDB) result" where
  "rotate ev rec now db =
     (case PlatformUserByID ev (PF_PlatformUserID rec) db of Inl e \<Rightarrow> Inl e | Inr None \<Rightarrow> Inl ErrIdentityDisabled
      | Inr (Some (who, _)) \<Rightarrow>
          if \<not> User_Active who then Inl ErrIdentityDisabled
          else and_then (liveRoles ev (PU_ID who) now db) (\<lambda>(roles, live).
            if \<not> live then Inl ErrPermissionDenied
            else and_then (mint ev (PU_ID who) roles (PU_TokenEpoch who) now) (\<lambda>token.
              case secret_New (pe_is ev) 0 32 of None \<Rightarrow> Inl ErrInternal | Some next \<Rightarrow>
              and_then (AppendRefresh ev (PU_ID who) (PF_FamilyID rec) (Is_hash (pe_is ev) next) (PF_ExpiresAt rec) db) (\<lambda>db'.
                Inr (opened token next who now, db')))))"

definition Platform_Refresh :: "PlatformEnv \<Rightarrow> string \<Rightarrow> PlatformDB \<Rightarrow> PlatformDB \<times> PlatformSession result" where
  "Platform_Refresh ev refreshToken db =
     (if refreshToken = [] then (db, Inl ErrRefreshInvalid)
      else case Store_RefreshByHash ev (Is_hash (pe_is ev) refreshToken) db of Inl e \<Rightarrow> (db, Inl e)
      | Inr None \<Rightarrow> (db, Inl ErrRefreshInvalid)
      | Inr (Some rec) \<Rightarrow>
          let now = pe_now ev in
          if After now (PF_ExpiresAt rec) then (db, Inl ErrRefreshInvalid)
          else if Refresh_Spent rec then (refreshReuse ev rec db, Inl ErrRefreshReuse)
          else (case ConsumeRefresh ev (PF_ID rec) db of Inl e \<Rightarrow> (db, Inl e) | Inr (ok, db1) \<Rightarrow>
            if \<not> ok then (refreshReuse ev rec db1, Inl ErrRefreshReuse)
            else (case rotate ev rec now db1 of Inl e \<Rightarrow> (db1, Inl e) | Inr (sess, db2) \<Rightarrow> (db2, Inr sess))))"

definition Platform_Logout :: "PlatformEnv \<Rightarrow> string \<Rightarrow> PlatformDB \<Rightarrow> PlatformDB" where
  "Platform_Logout ev refreshToken db =
     (if refreshToken = [] then db
      else case Store_RefreshByHash ev (Is_hash (pe_is ev) refreshToken) db of
        Inr (Some rec) \<Rightarrow>
          plat_emit (platform_event ev (PF_PlatformUserID rec) (PF_FamilyID rec) ''platform.logout'' ''allow'' [])
            (revoke_family ev (PF_FamilyID rec) db)
      | _ \<Rightarrow> db)"

section \<open>platform\_auth\_interactor.go: the operator's own account\<close>

definition live_caller :: "PlatformEnv \<Rightarrow> Principal option \<Rightarrow> PlatformDB \<Rightarrow> (Principal \<times> AssignmentRecord list) result" where
  "live_caller ev ctx db =
     (case ctx of None \<Rightarrow> Inl ErrUnauthenticated | Some p \<Rightarrow>
      if \<not> Pr_Platform p then Inl ErrUnauthenticated
      else and_then (stillValid ev p db) (\<lambda>_.
           and_then (Assignments ev db) (\<lambda>all. Inr (p, live_of (Pr_IdentityID p) (pe_now ev) all))))"

record TenantChoice =
  TC_Slug :: string
  TC_Name :: string
  TC_Role :: string
  TC_All :: bool
  TC_ID :: string
  TC_ParentID :: string
  TC_Inherited :: bool

definition ListTenants :: "PlatformEnv \<Rightarrow> TenantNode list result" where
  "ListTenants ev = prun ev ListTenantsS (Inr (Pe_tenants ev))"

definition reached_direct :: "AssignmentRecord list \<Rightarrow> (string, string \<times> bool) gomap" where
  "reached_direct mine = foldl (\<lambda>m a. map_put (AR_TenantID a) (AR_Role a, False) m) [] mine"

definition reached_below :: "AssignmentRecord \<Rightarrow> (string, string \<times> bool) gomap \<Rightarrow> (string, string \<times> bool) gomap" where
  "reached_below a m = foldl (\<lambda>m t. if map_of m t = None then map_put t (AR_Role a, True) m else m) m (AR_Below a)"

definition MyTenants :: "PlatformEnv \<Rightarrow> Principal option \<Rightarrow> PlatformDB \<Rightarrow> TenantChoice list result" where
  "MyTenants ev ctx db =
     and_then (live_caller ev ctx db) (\<lambda>(_, mine).
       case find Assignment_Global mine of
         Some a \<Rightarrow> and_then (ListTenants ev) (\<lambda>all. Inr (map (\<lambda>t. \<lparr>TC_Slug = TW_slug t, TC_Name = TW_name t, TC_Role = AR_Role a,
             TC_All = True, TC_ID = TW_id t, TC_ParentID = nstr (TW_parent t), TC_Inherited = False\<rparr>) all))
       | None \<Rightarrow>
           let reached = foldl (\<lambda>m a. reached_below a m) (reached_direct mine) mine in
           if length reached = 0 then Inr []
           else and_then (ListTenants ev) (\<lambda>all. Inr (concat (map (\<lambda>t.
             case map_of reached (TW_id t) of None \<Rightarrow> []
             | Some (role, inherited) \<Rightarrow> [\<lparr>TC_Slug = TW_slug t, TC_Name = TW_name t, TC_Role = role, TC_All = False, TC_ID = TW_id t,
                 TC_ParentID = nstr (TW_parent t), TC_Inherited = inherited\<rparr>]) all))))"

text \<open>\<^verbatim>\<open>base32.StdEncoding\<close> without padding: five bits a letter, the last group filled with zeros.\<close>

definition byte_bits :: "char \<Rightarrow> bool list" where
  "byte_bits c = map (\<lambda>i. odd (byte_of c div 2 ^ i)) [7, 6, 5, 4, 3, 2, 1, 0]"

definition b32_letter :: "bool list \<Rightarrow> char" where
  "b32_letter bs = base32_alpha ! foldl (\<lambda>n b. 2 * n + (if b then 1 else 0)) 0 bs"

fun b32_bits :: "bool list \<Rightarrow> string" where
  "b32_bits [] = []"
| "b32_bits (a # b # c # d # e # bs) = b32_letter [a, b, c, d, e] # b32_bits bs"
| "b32_bits bs = [b32_letter (take 5 (bs @ [False, False, False, False]))]"

definition base32_Encode :: "string \<Rightarrow> string" where
  "base32_Encode s = b32_bits (concat (map byte_bits s))"

definition BeginTOTPEnrolment :: "PlatformEnv \<Rightarrow> Principal option \<Rightarrow> PlatformDB \<Rightarrow> PlatformDB \<times> (string \<times> string) result" where
  "BeginTOTPEnrolment ev ctx db =
     (case ctx of None \<Rightarrow> (db, Inl ErrUnauthenticated) | Some p \<Rightarrow>
      if \<not> Pr_Platform p then (db, Inl ErrUnauthenticated)
      else case PlatformUserByID ev (Pr_IdentityID p) db of
        Inr (Some (who, _)) \<Rightarrow>
          (case Is_rand (pe_is ev) 4 20 of None \<Rightarrow> (db, Inl ErrInternal) | Some sec \<Rightarrow>
           case StageTOTPSecret ev (PU_ID who) sec db of Inl e \<Rightarrow> (db, Inl e)
           | Inr db' \<Rightarrow> (db', Inr (base32_Encode sec, Pe_ProvisioningURI ev sec (PU_Username who))))
      | _ \<Rightarrow> (db, Inl ErrNotFound))"

definition ConfirmTOTPEnrolment :: "PlatformEnv \<Rightarrow> Principal option \<Rightarrow> string \<Rightarrow> PlatformDB \<Rightarrow> PlatformDB \<times> unit result" where
  "ConfirmTOTPEnrolment ev ctx code db =
     (case ctx of None \<Rightarrow> (db, Inl ErrUnauthenticated) | Some p \<Rightarrow>
      if \<not> Pr_Platform p then (db, Inl ErrUnauthenticated)
      else case TOTPSecret ev (Pr_IdentityID p) db of Inl e \<Rightarrow> (db, Inl e) | Inr sec \<Rightarrow>
        if length sec = 0 then (db, Inl ErrInvalidArgument)
        else case totp_Verify (Sg_mac (Pe_sign ev)) sec code (pe_now ev) (30 * Second) 6 1 of
          None \<Rightarrow> (db, Inl ErrInternal)
        | Some (step, ok) \<Rightarrow>
            if \<not> ok then (db, Inl ErrInvalidCredentials)
            else (case ConfirmEnrolment ev (Pr_IdentityID p) step db of Inl e \<Rightarrow> (db, Inl e)
                  | Inr db' \<Rightarrow> (plat_emit (platform_event ev (Pr_IdentityID p) (Pr_IdentityID p) ''platform.mfa_enrol'' ''allow'' []) db', Inr ())))"

definition MinOwnerPassword :: nat where "MinOwnerPassword = 12"

definition runes :: "string \<Rightarrow> nat" where
  "runes s = rune_count (map byte_of s)"

definition ChangePassword :: "PlatformEnv \<Rightarrow> Principal option \<Rightarrow> string \<Rightarrow> string \<Rightarrow> PlatformDB \<Rightarrow> PlatformDB \<times> unit result" where
  "ChangePassword ev ctx current new db =
     (case live_caller ev ctx db of Inl e \<Rightarrow> (db, Inl e) | Inr (p, _) \<Rightarrow>
      case PlatformUserByID ev (Pr_IdentityID p) db of
        Inr (Some (who, hash)) \<Rightarrow>
          if \<not> fst (verified ev current hash)
          then (platform_deny ev (PU_Username who) ''invalid_credentials'' db, Inl ErrInvalidCredentials)
          else if runes new < MinOwnerPassword then (db, Inl ErrInvalidArgument)
          else if new = current then (db, Inl ErrInvalidArgument)
          else (case kdf_Hash (Sg_kdf (Pe_sign ev)) (Is_rand (pe_is ev) 3 saltLen) new of None \<Rightarrow> (db, Inl ErrInternal) | Some fresh \<Rightarrow>
                case SetPassword ev (PU_ID who) fresh db of Inl e \<Rightarrow> (db, Inl e)
                | Inr db' \<Rightarrow> (plat_emit (platform_event ev (PU_ID who) (PU_ID who) ''platform.password_change'' ''allow'' []) db', Inr ()))
      | _ \<Rightarrow> (db, Inl ErrUnauthenticated))"

section \<open>operator\_admin\_interactor.go\<close>

definition defaultPageSize :: int where "defaultPageSize = 50"
definition maxPageSize :: int where "maxPageSize = 200"

record OperatorPage =
  OP_Users :: "PlatformUser list"
  OP_NextCursor :: string
  OP_Total :: nat

definition page_size :: "int \<Rightarrow> nat" where
  "page_size asked = (let size = (if asked \<le> 0 then defaultPageSize else asked) in nat (if size > maxPageSize then maxPageSize else size))"

definition ListOperators :: "PlatformEnv \<Rightarrow> Principal option \<Rightarrow> string \<Rightarrow> string \<Rightarrow> int \<Rightarrow> PlatformDB \<Rightarrow> OperatorPage result" where
  "ListOperators ev ctx query cursor asked db =
     and_then (guard_requireAny ev ctx db) (\<lambda>_.
       let size = page_size asked in
       and_then (ListPlatformUsers ev (TrimSpace query) cursor (size + 1) db) (\<lambda>users.
         let total = (case CountPlatformUsers ev db of Inl e \<Rightarrow> 0 | Inr n \<Rightarrow> n);
             cut = (if length users > size then PU_Username (users ! (size - 1)) else []);
             shown = take size users
         in and_then (Assignments ev db) (\<lambda>all.
              let byOperator = foldl (\<lambda>m a. append_at (AR_OperatorID a) a m) [] all in
              Inr \<lparr>OP_Users = map (\<lambda>u. u\<lparr>PU_Assignments := lookup_list byOperator (PU_ID u)\<rparr>) shown, OP_NextCursor = cut,
                   OP_Total = total\<rparr>)))"

record CreateOperatorInput =
  CO_Username :: string
  CO_Email :: string
  CO_Password :: string
  CO_TenantSlug :: string
  CO_Role :: string
  CO_Reason :: string

record AssignOperatorInput =
  AO_OperatorID :: string
  AO_OperatorUsername :: string
  AO_TenantSlug :: string
  AO_Role :: string
  AO_Reason :: string
  AO_ValidUntil :: "time option"

definition TenantOrInstallation :: "string \<Rightarrow> string" where
  "TenantOrInstallation tenantID = (if tenantID = [] then InstallationTenant else tenantID)"

definition operator_event :: "PlatformEnv \<Rightarrow> Principal \<Rightarrow> string \<Rightarrow> string \<Rightarrow> (string, string) gomap \<Rightarrow> AuthEvent" where
  "operator_event ev p action target detail =
     (platform_event ev (Pr_IdentityID p) target action ''allow'' detail)\<lparr>AE_TenantID := TenantOrInstallation (Pr_TenantID p),
       AE_SessionID := Pr_SessionID p\<rparr>"

definition resolveTenant :: "PlatformEnv \<Rightarrow> string \<Rightarrow> (string \<times> string) result" where
  "resolveTenant ev slug0 =
     (let slug = TrimSpace slug0 in
      if slug = [] then Inr ([], ''*'')
      else case Is_TenantBySlug (pe_is ev) slug of Inr (Some t) \<Rightarrow> Inr (Tn_ID t, Tn_Slug t) | _ \<Rightarrow> Inl ErrNotFound)"

definition new_assignment :: "string \<Rightarrow> string \<Rightarrow> string \<Rightarrow> string \<Rightarrow> string \<Rightarrow> time option \<Rightarrow> AssignmentRecord" where
  "new_assignment operatorID tenantID role grantedBy reason until =
     \<lparr>AR_ID = [], AR_OperatorID = operatorID, AR_TenantID = tenantID, AR_TenantSlug = [], AR_Role = role, AR_GrantedBy = grantedBy,
      AR_Reason = reason, AR_ValidUntil = until, AR_RevokedAt = None, AR_CreatedAt = zero_time, AR_Below = []\<rparr>"

definition tx_env :: "PlatformEnv \<Rightarrow> DbEnv" where
  "tx_env ev = \<lparr>Db_now = Pe_dbnow ev, Db_newid = (\<lambda>s. []), Db_fails = (\<lambda>s. if s = BeginS then Pe_fails ev PBeginS
     else if s = CommitS then Pe_fails ev PCommitS else False)\<rparr>"

definition create_operator_tx ::
  "PlatformEnv \<Rightarrow> Principal \<Rightarrow> CreateOperatorInput \<Rightarrow> string \<Rightarrow> string \<Rightarrow> PlatformDB \<Rightarrow> ((string \<times> string) \<times> PlatformDB) result" where
  "create_operator_tx ev p i username tenantID db =
     (case kdf_Hash (Sg_kdf (Pe_sign ev)) (Is_rand (pe_is ev) 3 saltLen) (CO_Password i) of None \<Rightarrow> Inl ErrInternal | Some hash \<Rightarrow>
      and_then (CreatePlatformUser ev username (TrimSpace (CO_Email i)) hash db) (\<lambda>(uid, db1).
      and_then (CreateAssignment ev (new_assignment uid tenantID (CO_Role i) (Pr_IdentityID p) (CO_Reason i) None) db1) (\<lambda>(aid, db2).
        Inr ((uid, aid), db2))))"

definition CreateOperator ::
  "PlatformEnv \<Rightarrow> Principal option \<Rightarrow> CreateOperatorInput \<Rightarrow> PlatformDB \<Rightarrow> PlatformDB \<times> (string \<times> string) result" where
  "CreateOperator ev ctx i db =
     (case guard_require ev ctx PermAssignOperators db of Inl e \<Rightarrow> (db, Inl e) | Inr (p, _) \<Rightarrow>
      let username = TrimSpace (CO_Username i) in
      if \<not> Role_Valid (CO_Role i) then (db, Inl ErrInvalidArgument)
      else if \<not> ValidUsername username then (db, Inl ErrInvalidArgument)
      else if runes (CO_Password i) < MinOwnerPassword then (db, Inl ErrInvalidArgument)
      else if (case PlatformUserByUsername ev username db of Inr (Some _) \<Rightarrow> True | _ \<Rightarrow> False) then (db, Inl ErrInvalidArgument)
      else case resolveTenant ev (CO_TenantSlug i) of Inl e \<Rightarrow> (db, Inl e) | Inr (tenantID, target) \<Rightarrow>
        (case WithinTx (tx_env ev) (create_operator_tx ev p i username tenantID) ErrInternal db of
           (db', Inl e) \<Rightarrow> (db', Inl e)
         | (db', Inr (oid, aid)) \<Rightarrow>
             (plat_emit (operator_event ev p ''platform.operator_create'' oid
                [(''username'', username), (''tenant'', target), (''role'', CO_Role i)]) db', Inr (oid, aid))))"

definition AssignOperator :: "PlatformEnv \<Rightarrow> Principal option \<Rightarrow> AssignOperatorInput \<Rightarrow> PlatformDB \<Rightarrow> PlatformDB \<times> string result" where
  "AssignOperator ev ctx i db =
     (case guard_require ev ctx PermAssignOperators db of Inl e \<Rightarrow> (db, Inl e) | Inr (p, _) \<Rightarrow>
      if \<not> Role_Valid (AO_Role i) then (db, Inl ErrInvalidArgument)
      else case (if AO_OperatorID i = [] then
                   (case PlatformUserByUsername ev (TrimSpace (AO_OperatorUsername i)) db of Inl e \<Rightarrow> Inl e
                    | Inr None \<Rightarrow> Inl ErrInvalidArgument | Inr (Some (who, _)) \<Rightarrow> Inr (PU_ID who))
                 else Inr (AO_OperatorID i)) of Inl e \<Rightarrow> (db, Inl e) | Inr operatorID \<Rightarrow>
        case resolveTenant ev (AO_TenantSlug i) of Inl e \<Rightarrow> (db, Inl e) | Inr (tenantID, target) \<Rightarrow>
          case CreateAssignment ev (new_assignment operatorID tenantID (AO_Role i) (Pr_IdentityID p) (AO_Reason i) (AO_ValidUntil i)) db of
            Inl e \<Rightarrow> (db, Inl e)
          | Inr (aid, db') \<Rightarrow> (plat_emit (operator_event ev p ''platform.operator_assign'' operatorID
              [(''assignment_id'', aid), (''tenant'', target), (''role'', AO_Role i)]) db', Inr aid))"

definition lastOwnerCheck :: "PlatformEnv \<Rightarrow> string \<Rightarrow> PlatformDB \<Rightarrow> unit result" where
  "lastOwnerCheck ev assignmentID db =
     and_then (Assignments ev db) (\<lambda>all.
       let owning = filter (\<lambda>a. Assignment_Global a \<and> AR_Role a = RoleOwner \<and> Assignment_Live a (pe_now ev)) all
       in if list_ex (\<lambda>a. AR_ID a = assignmentID) owning \<and> length owning \<le> 1 then Inl ErrInvalidArgument else Inr ())"

definition RevokeAssignment :: "PlatformEnv \<Rightarrow> Principal option \<Rightarrow> string \<Rightarrow> PlatformDB \<Rightarrow> PlatformDB \<times> unit result" where
  "RevokeAssignment ev ctx assignmentID db =
     (case guard_require ev ctx PermAssignOperators db of Inl e \<Rightarrow> (db, Inl e) | Inr (p, _) \<Rightarrow>
      case lastOwnerCheck ev assignmentID db of Inl e \<Rightarrow> (db, Inl e) | Inr _ \<Rightarrow>
      case Store_RevokeAssignment ev assignmentID db of Inl e \<Rightarrow> (db, Inl e)
      | Inr db' \<Rightarrow> (plat_emit (operator_event ev p ''platform.operator_revoke'' assignmentID []) db', Inr ()))"

definition SetOperatorStatus :: "PlatformEnv \<Rightarrow> Principal option \<Rightarrow> string \<Rightarrow> string \<Rightarrow> PlatformDB \<Rightarrow> PlatformDB \<times> unit result" where
  "SetOperatorStatus ev ctx operatorID status db =
     (case guard_require ev ctx PermAssignOperators db of Inl e \<Rightarrow> (db, Inl e) | Inr (p, _) \<Rightarrow>
      if status \<noteq> ''active'' \<and> status \<noteq> ''disabled'' then (db, Inl ErrInvalidArgument)
      else if status = ''disabled'' \<and> operatorID = Pr_IdentityID p then (db, Inl ErrInvalidArgument)
      else case SetStatus ev operatorID status db of Inl e \<Rightarrow> (db, Inl e)
        | Inr db' \<Rightarrow> (plat_emit (operator_event ev p ''platform.operator_status'' operatorID [(''status'', status)]) db', Inr ()))"

definition ResetOperatorPassword :: "PlatformEnv \<Rightarrow> Principal option \<Rightarrow> string \<Rightarrow> PlatformDB \<Rightarrow> PlatformDB \<times> string result" where
  "ResetOperatorPassword ev ctx operatorID db =
     (case guard_require ev ctx PermAssignOperators db of Inl e \<Rightarrow> (db, Inl e) | Inr (p, _) \<Rightarrow>
      if operatorID = Pr_IdentityID p then (db, Inl ErrInvalidArgument)
      else case PlatformUserByID ev operatorID db of Inl e \<Rightarrow> (db, Inl e) | Inr None \<Rightarrow> (db, Inl ErrNotFound)
        | Inr (Some (who, _)) \<Rightarrow>
            (case secret_New (pe_is ev) 6 24 of None \<Rightarrow> (db, Inl ErrInternal) | Some temporary \<Rightarrow>
             case kdf_Hash (Sg_kdf (Pe_sign ev)) (Is_rand (pe_is ev) 3 saltLen) temporary of None \<Rightarrow> (db, Inl ErrInternal) | Some hash \<Rightarrow>
             case SetPassword ev (PU_ID who) hash db of Inl e \<Rightarrow> (db, Inl e)
             | Inr db' \<Rightarrow> (plat_emit (operator_event ev p ''platform.operator_password_reset'' (PU_ID who) [(''username'', PU_Username who)]) db',
                 Inr temporary)))"

section \<open>provision.go: the owner of an installation\<close>

text \<open>Both callers, the installer and the bootstrap command, run it inside one transaction.\<close>

definition owner_tx :: "PlatformEnv \<Rightarrow> string \<Rightarrow> string \<Rightarrow> string \<Rightarrow> PlatformDB \<Rightarrow> (string \<times> PlatformDB) result" where
  "owner_tx ev username email password db =
     and_then (HasOwner ev db) (\<lambda>has.
       if has then Inr ([], db)
       else case kdf_Hash (Sg_kdf (Pe_sign ev)) (Is_rand (pe_is ev) 3 saltLen) password of None \<Rightarrow> Inl ErrInternal | Some hash \<Rightarrow>
         and_then (CreatePlatformUser ev username email hash db) (\<lambda>(uid, db1).
         and_then (CreateAssignment ev (new_assignment uid [] RoleOwner uid ''installation setup'' None) db1) (\<lambda>(_, db2). Inr (uid, db2))))"

definition CreatePlatformOwner :: "PlatformEnv \<Rightarrow> string \<Rightarrow> string \<Rightarrow> string \<Rightarrow> PlatformDB \<Rightarrow> PlatformDB \<times> string result" where
  "CreatePlatformOwner ev username email password db = WithinTx (tx_env ev) (owner_tx ev username email password) ErrInternal db"

section \<open>secret.go and api\_key\_interactor.go: machine credentials\<close>

definition api_key_marker :: string where "api_key_marker = ''anb_live_''"
definition apiKeyPrefixLen :: nat where "apiKeyPrefixLen = 8"

text \<open>\<^verbatim>\<open>NewAPIKey\<close>: the whole key, what it is looked up by, and the hash of its secret half.\<close>

definition NewAPIKey :: "IssuerEnv \<Rightarrow> (string \<times> string \<times> string) option" where
  "NewAPIKey is =
     (case secret_New is 7 6 of None \<Rightarrow> None | Some p \<Rightarrow>
      let prefix = take apiKeyPrefixLen p in
      case secret_New is 8 32 of None \<Rightarrow> None | Some sec \<Rightarrow>
      Some (api_key_marker @ prefix @ ''_'' @ sec, api_key_marker @ prefix, Is_hash is sec))"

definition SplitAPIKey :: "string \<Rightarrow> (string \<times> string) option" where
  "SplitAPIKey key =
     (if \<not> HasPrefix key api_key_marker then None
      else let rest = drop (length api_key_marker) key in
        if length rest \<le> apiKeyPrefixLen + 1 \<or> rest ! apiKeyPrefixLen \<noteq> CHR ''_'' then None
        else Some (api_key_marker @ take apiKeyPrefixLen rest, drop (apiKeyPrefixLen + 1) rest))"

record CreateAPIKeyInput =
  CK_OwnerID :: string
  CK_Label :: string
  CK_ExpiresIn :: duration

definition maxAPIKeyLife :: duration where "maxAPIKeyLife = 90 * 24 * 3600 * Second"

definition Platform_CreateAPIKey ::
  "PlatformEnv \<Rightarrow> Principal option \<Rightarrow> CreateAPIKeyInput \<Rightarrow> PlatformDB \<Rightarrow> PlatformDB \<times> (string \<times> PlatformAPIKey) result" where
  "Platform_CreateAPIKey ev ctx i db =
     (case guard_require ev ctx PermAssignOperators db of Inl e \<Rightarrow> (db, Inl e) | Inr (p, _) \<Rightarrow>
      let trimmed = TrimSpace (CK_OwnerID i); owner = (if trimmed = [] then Pr_IdentityID p else trimmed) in
      case PlatformUserByID ev owner db of Inl e \<Rightarrow> (db, Inl e) | Inr None \<Rightarrow> (db, Inl ErrInvalidArgument)
      | Inr (Some (who, _)) \<Rightarrow>
          if \<not> User_Active who then (db, Inl ErrInvalidArgument)
          else let life = (if CK_ExpiresIn i \<le> 0 \<or> CK_ExpiresIn i > maxAPIKeyLife then maxAPIKeyLife else CK_ExpiresIn i) in
            case NewAPIKey (pe_is ev) of None \<Rightarrow> (db, Inl ErrInternal) | Some (full, lookup, hash) \<Rightarrow>
            let expires = pe_now ev + life in
            case CreatePlatformAPIKey ev (PU_ID who) (TrimSpace (CK_Label i)) lookup (secret_Hex hash) (Pr_IdentityID p) expires db of
              Inl e \<Rightarrow> (db, Inl e)
            | Inr (kid, db') \<Rightarrow>
                (plat_emit (platform_event ev (Pr_IdentityID p) kid ''platform.apikey.create'' ''allow'' []) db',
                 Inr (full, \<lparr>PY_ID = kid, PY_PlatformUserID = PU_ID who, PY_Username = PU_Username who, PY_Label = CK_Label i,
                   PY_Lookup = lookup, PY_CreatedAt = pe_now ev, PY_LastUsedAt = None, PY_ExpiresAt = expires, PY_RevokedAt = None\<rparr>)))"

definition Platform_ListAPIKeys :: "PlatformEnv \<Rightarrow> Principal option \<Rightarrow> PlatformDB \<Rightarrow> PlatformAPIKey list result" where
  "Platform_ListAPIKeys ev ctx db = and_then (guard_require ev ctx PermAssignOperators db) (\<lambda>_. ListPlatformAPIKeys ev db)"

definition Platform_RevokeAPIKey :: "PlatformEnv \<Rightarrow> Principal option \<Rightarrow> string \<Rightarrow> PlatformDB \<Rightarrow> PlatformDB \<times> unit result" where
  "Platform_RevokeAPIKey ev ctx kid db =
     (case guard_require ev ctx PermAssignOperators db of Inl e \<Rightarrow> (db, Inl e) | Inr (p, _) \<Rightarrow>
      case RevokePlatformAPIKey ev kid db of Inl e \<Rightarrow> (db, Inl e)
      | Inr db' \<Rightarrow> (plat_emit (platform_event ev (Pr_IdentityID p) kid ''platform.apikey.revoke'' ''allow'' []) db', Inr ()))"

end
