(* ===== verification/Operator_Runs.thy ===== *)
theory Operator_Runs
  imports Operator_Plane
begin

text \<open>
  Runs of the control plane. \<open>plat_step\<close> is one call of any of its operations, and \<open>plat_moves\<close> the writes such a call can
  make, each with what the code checked first; the properties of runs are proved by induction over them.
\<close>

section \<open>Calls\<close>

datatype plat_call =
    LoginC string string
  | MfaC string string
  | RefreshC string
  | LogoutC string
  | PasswordC "Principal option" string string
  | StageC "Principal option"
  | ConfirmC "Principal option" string
  | CreateC "Principal option" CreateOperatorInput
  | AssignC "Principal option" AssignOperatorInput
  | RevokeC "Principal option" string
  | StatusC "Principal option" string string
  | ResetC "Principal option" string
  | OwnerC string string string
  | KeyC "Principal option" CreateAPIKeyInput
  | RevokeKeyC "Principal option" string
  | UseKeyC string
  | SweepC

definition plat_step :: "PlatformDB \<Rightarrow> PlatformEnv \<times> plat_call \<Rightarrow> PlatformDB" where
  "plat_step db a = (case a of (ev, c) \<Rightarrow> (case c of
     LoginC u w \<Rightarrow> fst (Platform_Login ev u w db)
   | MfaC t w \<Rightarrow> fst (VerifyMFA ev t w db)
   | RefreshC t \<Rightarrow> fst (Platform_Refresh ev t db)
   | LogoutC t \<Rightarrow> Platform_Logout ev t db
   | PasswordC ctx old new \<Rightarrow> fst (ChangePassword ev ctx old new db)
   | StageC ctx \<Rightarrow> fst (BeginTOTPEnrolment ev ctx db)
   | ConfirmC ctx w \<Rightarrow> fst (ConfirmTOTPEnrolment ev ctx w db)
   | CreateC ctx i \<Rightarrow> fst (CreateOperator ev ctx i db)
   | AssignC ctx i \<Rightarrow> fst (AssignOperator ev ctx i db)
   | RevokeC ctx a \<Rightarrow> fst (RevokeAssignment ev ctx a db)
   | StatusC ctx u s \<Rightarrow> fst (SetOperatorStatus ev ctx u s db)
   | ResetC ctx u \<Rightarrow> fst (ResetOperatorPassword ev ctx u db)
   | OwnerC u m w \<Rightarrow> fst (CreatePlatformOwner ev u m w db)
   | KeyC ctx i \<Rightarrow> fst (Platform_CreateAPIKey ev ctx i db)
   | RevokeKeyC ctx k \<Rightarrow> fst (Platform_RevokeAPIKey ev ctx k db)
   | UseKeyC k \<Rightarrow> TouchPlatformAPIKeyUsed ev k db
   | SweepC \<Rightarrow> (case SweepExpired ev db of Inl e \<Rightarrow> db | Inr db' \<Rightarrow> db')))"

definition plat_run :: "PlatformDB \<Rightarrow> (PlatformEnv \<times> plat_call) list \<Rightarrow> PlatformDB" where
  "plat_run db as = foldl plat_step db as"

lemma plat_run_simps [simp]: "plat_run db [] = db" "plat_run db (a # as) = plat_run (plat_step db a) as"
  "plat_run db (as @ bs) = plat_run (plat_run db as) bs"
  by (simp_all add: plat_run_def)

section \<open>Writes\<close>

text \<open>Who asked for a change of operators: an operator who may assign operators.\<close>

definition by_assigner :: "PlatformEnv \<Rightarrow> PlatformDB \<Rightarrow> Principal option \<Rightarrow> string \<Rightarrow> bool" where
  "by_assigner ev db ctx who \<longleftrightarrow>
     (\<exists>p mine. guard_require ev ctx PermAssignOperators db = Inr (p, mine) \<and> Pr_IdentityID p = who)"

inductive plat_moves :: "PlatformEnv \<Rightarrow> plat_call \<Rightarrow> PlatformDB \<Rightarrow> PlatformDB \<Rightarrow> bool" for ev c db0 where
  start: "plat_moves ev c db0 db0"
| emit: "plat_moves ev c db0 db \<Longrightarrow> plat_moves ev c db0 (plat_emit e db)"
| touch: "plat_moves ev c db0 db \<Longrightarrow> plat_moves ev c db0 (TouchLogin ev u db)"
| use: "plat_moves ev c db0 db \<Longrightarrow> plat_moves ev c db0 (TouchPlatformAPIKeyUsed ev k db)"
| rehash: "plat_moves ev c db0 db \<Longrightarrow> RehashPassword ev u old new db = Inr db' \<Longrightarrow> plat_moves ev c db0 db'"
| status: "plat_moves ev c db0 db \<Longrightarrow> c = StatusC ctx u s \<Longrightarrow> by_assigner ev db0 ctx w \<Longrightarrow> SetStatus ev u s db = Inr db' \<Longrightarrow>
    plat_moves ev c db0 db'"
| password: "plat_moves ev c db0 db \<Longrightarrow> (\<exists>ctx x y. c = PasswordC ctx x y) \<or> (\<exists>ctx x w. c = ResetC ctx x \<and> by_assigner ev db0 ctx w) \<Longrightarrow>
    SetPassword ev u h db = Inr db' \<Longrightarrow> plat_moves ev c db0 db'"
| stage: "plat_moves ev c db0 db \<Longrightarrow> StageTOTPSecret ev u s db = Inr db' \<Longrightarrow> plat_moves ev c db0 db'"
| confirm: "plat_moves ev c db0 db \<Longrightarrow> ConfirmEnrolment ev u n db = Inr db' \<Longrightarrow> plat_moves ev c db0 db'"
| advance: "plat_moves ev c db0 db \<Longrightarrow> AdvanceTOTPStep ev u n db = Inr (b, db') \<Longrightarrow> plat_moves ev c db0 db'"
| user: "plat_moves ev c db0 db \<Longrightarrow> (\<exists>ctx i w. c = CreateC ctx i \<and> by_assigner ev db0 ctx w) \<or> (\<exists>x y z. c = OwnerC x y z \<and> HasOwner ev db0 = Inr False) \<Longrightarrow>
    CreatePlatformUser ev n m h db = Inr (u, db') \<Longrightarrow> plat_moves ev c db0 db'"
| assign: "plat_moves ev c db0 db \<Longrightarrow>
    (\<exists>ctx. (\<exists>i. c = CreateC ctx i \<or> (\<exists>j. c = AssignC ctx j)) \<and> by_assigner ev db0 ctx (AR_GrantedBy a)) \<or>
    (\<exists>x y z. c = OwnerC x y z \<and> HasOwner ev db0 = Inr False) \<Longrightarrow>
    CreateAssignment ev a db = Inr (aid, db') \<Longrightarrow> plat_moves ev c db0 db'"
| unassign: "plat_moves ev c db0 db \<Longrightarrow> c = RevokeC ctx x \<Longrightarrow> by_assigner ev db0 ctx w \<Longrightarrow> Store_RevokeAssignment ev x db = Inr db' \<Longrightarrow>
    plat_moves ev c db0 db'"
| family: "plat_moves ev c db0 db \<Longrightarrow> secret_New (pe_is ev) 0 32 = Some rt \<Longrightarrow>
    CreateRefreshFamily ev u (Is_hash (pe_is ev) rt) (pe_now ev + platformRefreshFamilyTTL) db = Inr db' \<Longrightarrow> plat_moves ev c db0 db'"
| chain: "plat_moves ev c db0 db \<Longrightarrow> c = RefreshC t \<Longrightarrow> Store_RefreshByHash ev (Is_hash (pe_is ev) t) db0 = Inr (Some rec) \<Longrightarrow>
    \<not> Refresh_Spent rec \<Longrightarrow> secret_New (pe_is ev) 0 32 = Some rt \<Longrightarrow>
    AppendRefresh ev u (PF_FamilyID rec) (Is_hash (pe_is ev) rt) (PF_ExpiresAt rec) db = Inr db' \<Longrightarrow>
    plat_moves ev c db0 db'"
| consume: "plat_moves ev c db0 db \<Longrightarrow> ConsumeRefresh ev r db = Inr (b, db') \<Longrightarrow> plat_moves ev c db0 db'"
| disown: "plat_moves ev c db0 db \<Longrightarrow> Store_RevokeRefreshFamily ev f db = Inr db' \<Longrightarrow> plat_moves ev c db0 db'"
| sweep: "plat_moves ev c db0 db \<Longrightarrow> SweepExpired ev db = Inr db' \<Longrightarrow> plat_moves ev c db0 db'"
| mint_key: "plat_moves ev c db0 db \<Longrightarrow> c = KeyC ctx i \<Longrightarrow> by_assigner ev db0 ctx w \<Longrightarrow>
    CreatePlatformAPIKey ev u l k h w x db = Inr (kid, db') \<Longrightarrow> plat_moves ev c db0 db'"
| drop_key: "plat_moves ev c db0 db \<Longrightarrow> c = RevokeKeyC ctx k \<Longrightarrow> by_assigner ev db0 ctx w \<Longrightarrow> RevokePlatformAPIKey ev k db = Inr db' \<Longrightarrow>
    plat_moves ev c db0 db'"

lemmas plat_move = plat_moves.intros

section \<open>Every operation makes only these writes\<close>

lemma by_assignerI: "guard_require ev ctx PermAssignOperators db = Inr (p, mine) \<Longrightarrow> by_assigner ev db ctx (Pr_IdentityID p)"
  by (auto simp: by_assigner_def)

lemma beginSession_moves:
  assumes "plat_moves ev c db0 db" and "beginSession ev who roles (pe_now ev) db = Inr (s, db')"
  shows "plat_moves ev c db0 db'"
  using assms(2) plat_moves.family [OF assms(1)]
  by (auto simp: beginSession_def and_then_Inr split: option.splits)

lemma rotate_moves:
  assumes "plat_moves ev (RefreshC t) db0 db" and "Store_RefreshByHash ev (Is_hash (pe_is ev) t) db0 = Inr (Some rec)" "\<not> Refresh_Spent rec"
    and "rotate ev rec (pe_now ev) db = Inr (s, db')"
  shows "plat_moves ev (RefreshC t) db0 db'"
  using assms(4) plat_moves.chain [OF assms(1) refl assms(2,3)]
  by (auto simp: rotate_def and_then_Inr split: sum.splits option.splits if_splits prod.splits)

lemma deny_moves: "plat_moves ev c db0 db \<Longrightarrow> plat_moves ev c db0 (platform_deny ev u r db)"
  by (simp add: platform_deny_def plat_moves.emit)

lemma login_session_moves: "plat_moves ev c db0 db \<Longrightarrow> plat_moves ev c db0 (fst (login_session ev who u (pe_now ev) db))"
  by (auto simp: login_session_def Let_def intro!: plat_moves.emit plat_moves.touch deny_moves intro: beginSession_moves split: sum.split)

lemma Login_moves: "plat_moves ev c db (fst (Platform_Login ev u w db))"
  by (auto simp: Platform_Login_def Let_def intro!: plat_moves.start deny_moves login_session_moves
      intro: plat_moves.rehash [OF plat_moves.start] split: sum.split option.split prod.split)

lemma mfa_session_moves: "plat_moves ev c db0 db \<Longrightarrow> plat_moves ev c db0 (fst (mfa_session ev who (pe_now ev) db))"
  by (auto simp: mfa_session_def intro!: plat_moves.emit plat_moves.touch intro: beginSession_moves split: sum.split)

lemma MFA_moves: "plat_moves ev c db (fst (VerifyMFA ev t w db))"
proof -
  have a: "AdvanceTOTPStep ev x n db = Inr (b, db') \<Longrightarrow> plat_moves ev c db db'" for x n b db'
    by (rule plat_moves.advance [OF plat_moves.start])
  show ?thesis
    by (auto simp: VerifyMFA_def Let_def intro!: plat_moves.start deny_moves mfa_session_moves intro: a
        split: sum.split option.split)
qed

lemma revoke_family_moves: "plat_moves ev c db0 db \<Longrightarrow> plat_moves ev c db0 (revoke_family ev f db)"
  by (auto simp: revoke_family_def intro: plat_moves.disown split: sum.split)

lemma Refresh_moves: "plat_moves ev (RefreshC t) db (fst (Platform_Refresh ev t db))"
proof -
  have a: "ConsumeRefresh ev x db = Inr (b, db') \<Longrightarrow> plat_moves ev (RefreshC t) db db'" for x b db'
    by (rule plat_moves.consume [OF plat_moves.start])
  show ?thesis
    by (auto simp: Platform_Refresh_def Let_def refreshReuse_def intro!: plat_moves.start plat_moves.emit revoke_family_moves
        intro: a rotate_moves [OF a] split: sum.split option.split prod.split)
qed

lemma Logout_moves: "plat_moves ev c db (Platform_Logout ev t db)"
  by (auto simp: Platform_Logout_def intro!: plat_moves.start plat_moves.emit revoke_family_moves split: sum.split option.split)

lemma ChangePassword_moves: "plat_moves ev (PasswordC ctx x y) db (fst (ChangePassword ev ctx x y db))"
  by (auto simp: ChangePassword_def intro!: plat_moves.start plat_moves.emit deny_moves intro: plat_moves.password [OF plat_moves.start]
      split: sum.split option.split prod.split)

lemma Stage_moves: "plat_moves ev c db (fst (BeginTOTPEnrolment ev ctx db))"
  by (auto simp: BeginTOTPEnrolment_def intro!: plat_moves.start intro: plat_moves.stage [OF plat_moves.start]
      split: sum.split option.split prod.split)

lemma Confirm_moves: "plat_moves ev c db (fst (ConfirmTOTPEnrolment ev ctx w db))"
  by (auto simp: ConfirmTOTPEnrolment_def intro!: plat_moves.start plat_moves.emit intro: plat_moves.confirm [OF plat_moves.start]
      split: sum.split option.split prod.split)

lemma create_tx_moves:
  assumes g: "by_assigner ev db ctx (Pr_IdentityID p)" and "create_operator_tx ev p i n t db = Inr (x, db')"
  shows "plat_moves ev (CreateC ctx i) db db'"
proof -
  obtain h u db1 a where u: "CreatePlatformUser ev n (TrimSpace (CO_Email i)) h db = Inr (u, db1)"
      and a: "CreateAssignment ev (new_assignment u t (CO_Role i) (Pr_IdentityID p) (CO_Reason i) None) db1 = Inr (a, db')"
    using assms(2) by (auto simp: create_operator_tx_def and_then_Inr split: option.splits)
  from g have "plat_moves ev (CreateC ctx i) db db1" by (intro plat_moves.user [OF plat_moves.start _ u]) blast
  then show ?thesis using g by (intro plat_moves.assign [OF _ _ a]) (auto simp: new_assignment_def)
qed

lemma Create_moves: "plat_moves ev (CreateC ctx i) db (fst (CreateOperator ev ctx i db))"
proof (cases "guard_require ev ctx PermAssignOperators db")
  case (Inr x)
  obtain p mine where x: "x = (p, mine)" by fastforce
  let ?tx = "\<lambda>t. WithinTx (tx_env ev) (create_operator_tx ev p i (TrimSpace (CO_Username i)) t) ErrInternal db"
  have "plat_moves ev (CreateC ctx i) db (fst (?tx t))" for t
    by (rule WithinTx_cases [of "tx_env ev" "create_operator_tx ev p i (TrimSpace (CO_Username i)) t" ErrInternal db])
       (auto intro: plat_moves.start create_tx_moves [OF by_assignerI [OF Inr [unfolded x]]])
  then have tx: "?tx t = (d, r) \<Longrightarrow> plat_moves ev (CreateC ctx i) db d" for t d r by (metis fst_conv)
  with Inr x show ?thesis
    by (auto simp: CreateOperator_def Let_def intro!: plat_moves.start plat_moves.emit intro: tx split: sum.split option.split prod.split)
qed (simp add: CreateOperator_def plat_moves.start)

lemma Assign_moves: "plat_moves ev (AssignC ctx i) db (fst (AssignOperator ev ctx i db))"
proof -
  have "guard_require ev ctx PermAssignOperators db = Inr (p, mine) \<Longrightarrow>
      CreateAssignment ev (new_assignment u t r (Pr_IdentityID p) s v) db = Inr (a, db') \<Longrightarrow> plat_moves ev (AssignC ctx i) db db'"
    for p mine u t r s v a db'
    by (rule plat_moves.assign [OF plat_moves.start]) (auto simp: new_assignment_def dest: by_assignerI)
  then show ?thesis
    by (auto simp: AssignOperator_def intro!: plat_moves.start plat_moves.emit split: sum.split option.split prod.split)
qed

lemma Revoke_moves: "plat_moves ev (RevokeC ctx x) db (fst (RevokeAssignment ev ctx x db))"
  by (auto simp: RevokeAssignment_def intro!: plat_moves.start plat_moves.emit
      intro: plat_moves.unassign [OF plat_moves.start refl by_assignerI] split: sum.split prod.split)

lemma Status_moves: "plat_moves ev (StatusC ctx u s) db (fst (SetOperatorStatus ev ctx u s db))"
  by (auto simp: SetOperatorStatus_def intro!: plat_moves.start plat_moves.emit
      intro: plat_moves.status [OF plat_moves.start refl by_assignerI] split: sum.split prod.split)

lemma Reset_moves: "plat_moves ev (ResetC ctx u) db (fst (ResetOperatorPassword ev ctx u db))"
proof -
  have "guard_require ev ctx PermAssignOperators db = Inr (p, mine) \<Longrightarrow> SetPassword ev x h db = Inr db' \<Longrightarrow> plat_moves ev (ResetC ctx u) db db'"
    for p mine x h db'
    by (rule plat_moves.password [OF plat_moves.start]) (auto dest: by_assignerI)
  then show ?thesis
    by (auto simp: ResetOperatorPassword_def intro!: plat_moves.start plat_moves.emit split: sum.split prod.split option.split)
qed

lemma Owner_moves: "plat_moves ev (OwnerC u m w) db (fst (CreatePlatformOwner ev u m w db))"
proof -
  have "owner_tx ev u m w db = Inr (x, db') \<Longrightarrow> plat_moves ev (OwnerC u m w) db db'" for x db'
  proof -
    assume tx: "owner_tx ev u m w db = Inr (x, db')"
    show ?thesis
    proof (cases "HasOwner ev db = Inr False")
      case True
      with tx obtain h n db1 a where "CreatePlatformUser ev u m h db = Inr (n, db1)"
          and a: "CreateAssignment ev (new_assignment n [] RoleOwner n ''installation setup'' None) db1 = Inr (a, db')"
        by (auto simp: owner_tx_def and_then_Inr split: option.splits)
      then have "plat_moves ev (OwnerC u m w) db db1" using True by (intro plat_moves.user [OF plat_moves.start]) auto
      then show ?thesis using True by (intro plat_moves.assign [OF _ _ a]) auto
    next
      case False
      with tx have "db' = db" by (auto simp: owner_tx_def and_then_Inr split: if_splits)
      then show ?thesis by (simp add: plat_moves.start)
    qed
  qed
  then show ?thesis unfolding CreatePlatformOwner_def
    by (rule_tac WithinTx_cases [of "tx_env ev" "owner_tx ev u m w" ErrInternal db]) (auto intro: plat_moves.start)
qed

lemma Key_moves: "plat_moves ev (KeyC ctx i) db (fst (Platform_CreateAPIKey ev ctx i db))"
  by (auto simp: Platform_CreateAPIKey_def Let_def intro!: plat_moves.start plat_moves.emit
      intro: plat_moves.mint_key [OF plat_moves.start refl by_assignerI] split: sum.split prod.split option.split)

lemma RevokeKey_moves: "plat_moves ev (RevokeKeyC ctx k) db (fst (Platform_RevokeAPIKey ev ctx k db))"
  by (auto simp: Platform_RevokeAPIKey_def intro!: plat_moves.start plat_moves.emit
      intro: plat_moves.drop_key [OF plat_moves.start refl by_assignerI] split: sum.split prod.split)

theorem plat_step_moves: "plat_moves ev c db (plat_step db (ev, c))"
  by (cases c) (auto simp: plat_step_def Login_moves MFA_moves Refresh_moves Logout_moves ChangePassword_moves Stage_moves Confirm_moves
      Create_moves Assign_moves Revoke_moves Status_moves Reset_moves Owner_moves Key_moves RevokeKey_moves
      intro: plat_moves.start plat_moves.use plat_moves.sweep split: sum.split)

end
