(* ===== verification/Operator_Invariants.thy ===== *)
theory Operator_Invariants
  imports Operator_Runs
begin

text \<open>
  What holds of the control plane's tables over its runs: how each write changes the operators, their assignments and their refresh
  chains, the invariant every call keeps (\<open>plat\<close>, an instance of the machine of the prelude), that the epoch of an
  operator never goes back, and where an assignment reaches in the tree of companies.
\<close>

section \<open>Identifiers\<close>

lemma hex_lower_idem: "hex_lower c = Some d \<Longrightarrow> hex_lower d = Some d"
proof -
  assume a: "hex_lower c = Some d"
  show ?thesis
  proof (cases "65 \<le> byte_of c \<and> byte_of c \<le> 70")
    case True
    then have n: "\<not> (digit c \<or> 97 \<le> byte_of c \<and> byte_of c \<le> 102)" by (auto simp: digit_def)
    with a True have "d = char_of (byte_of c + 32)" by (simp add: hex_lower_def)
    with True have "byte_of d = byte_of c + 32" by (simp add: byte_of_def)
    with True show ?thesis by (simp add: hex_lower_def)
  next
    case False
    with a have "digit c \<or> 97 \<le> byte_of c \<and> byte_of c \<le> 102" "d = c" by (auto simp: hex_lower_def split: if_splits)
    then show ?thesis by (simp add: hex_lower_def)
  qed
qed

lemma uuid_chars_props:
  "uuid_chars i s = Some u \<Longrightarrow> uuid_chars i u = Some u \<and> length u = length s \<and> (\<forall>k<length s. i + k \<in> {8, 13, 18, 23} \<longrightarrow> u ! k = CHR ''-'')"
proof (induction s arbitrary: i u)
  case (Cons c cs)
  then obtain out where o: "uuid_chars (Suc i) cs = Some out" by (auto split: option.splits)
  with Cons.IH have ih: "uuid_chars (Suc i) out = Some out" "length out = length cs"
      "\<forall>k<length cs. Suc i + k \<in> {8, 13, 18, 23} \<longrightarrow> out ! k = CHR ''-''" by blast+
  have sh: "(\<forall>k<length (c # cs). i + k \<in> {8, 13, 18, 23} \<longrightarrow> (d # out) ! k = CHR ''-'')" if "i \<in> {8, 13, 18, 23} \<longrightarrow> d = CHR ''-''" for d
    using ih(3) that by (auto simp: nth_Cons split: nat.split)
  show ?case
  proof (cases "i \<in> {8, 13, 18, 23}")
    case True
    with Cons.prems o have "u = CHR ''-'' # out" by auto
    with True ih sh show ?thesis by auto
  next
    case False
    with Cons.prems o obtain d where "hex_lower c = Some d" "u = d # out" by (auto split: option.splits)
    moreover from this have "hex_lower d = Some d" by (simp add: hex_lower_idem)
    ultimately show ?thesis using False ih sh by auto
  qed
qed simp

lemma ParseUUID_canonical: "ParseUUID s = Some u \<Longrightarrow> ParseUUID u = Some u \<and> u \<noteq> []"
proof -
  assume "ParseUUID s = Some u"
  then have u: "uuid_chars 0 s = Some u" "length s = 36" by (auto simp: ParseUUID_def split: if_splits)
  from uuid_chars_props [OF u(1)] u(2) have "uuid_chars 0 u = Some u" "length u = 36"
      "k < 36 \<Longrightarrow> k \<in> {8, 13, 18, 23} \<Longrightarrow> u ! k = CHR ''-''" for k by auto
  from this(1,2) this(3) [of 8] this(3) [of 13] this(3) [of 18] this(3) [of 23] show ?thesis by (auto simp: ParseUUID_def)
qed

text \<open>What is relied on of the database: a generated id is the canonical text of a uuid, and the driver reads a canonical text as the
  uuid it names.\<close>

definition env_ok :: "PlatformEnv \<Rightarrow> bool" where
  "env_ok ev \<longleftrightarrow> (\<forall>s. ParseUUID (Pe_newid ev s) = Some (Pe_newid ev s)) \<and> (\<forall>s u. ParseUUID s = Some u \<longrightarrow> Pe_uuid ev s = Some u)"

lemma env_okD: "env_ok ev \<Longrightarrow> ParseUUID (Pe_newid ev s) = Some (Pe_newid ev s)" "env_ok ev \<Longrightarrow> ParseUUID x = Some u \<Longrightarrow> Pe_uuid ev x = Some u"
  by (auto simp: env_ok_def)

section \<open>What a write changes\<close>

lemmas store_Inr = by_uuid_Inr prun_Inr and_then_Inr

lemma plat_emit_fields [simp]:
  "PD_users (plat_emit e db) = PD_users db" "PD_assignments (plat_emit e db) = PD_assignments db"
  "PD_refresh (plat_emit e db) = PD_refresh db" "PD_keys (plat_emit e db) = PD_keys db"
  by (simp_all add: plat_emit_def)

lemma on_user_fields [simp]:
  "PD_users (on_user u f db) = map (\<lambda>r. if OU_id r = u then f r else r) (PD_users db)" "PD_assignments (on_user u f db) = PD_assignments db"
  "PD_refresh (on_user u f db) = PD_refresh db" "PD_keys (on_user u f db) = PD_keys db"
  by (simp_all add: on_user_def)

text \<open>A change of the operators table: rows keep their identity, their epoch never goes back, and a new row has a new id.\<close>

definition users_step :: "PlatformDB \<Rightarrow> PlatformDB \<Rightarrow> bool" where
  "users_step db db' \<longleftrightarrow>
     (\<exists>new. map OU_id (PD_users db') = map OU_id (PD_users db) @ new \<and> distinct new \<and> set new \<inter> OU_id ` set (PD_users db) = {}) \<and>
     (\<forall>u\<in>set (PD_users db). \<exists>u'\<in>set (PD_users db'). OU_id u' = OU_id u \<and> OU_token_epoch u \<le> OU_token_epoch u')"

lemma users_step_refl: "users_step db db"
  unfolding users_step_def by (auto intro: exI [of _ "[]"])

lemma users_step_map:
  assumes "PD_users db' = map f (PD_users db)" "\<And>r. OU_id (f r) = OU_id r \<and> OU_token_epoch r \<le> OU_token_epoch (f r)"
  shows "users_step db db'"
  unfolding users_step_def using assms by (auto intro: exI [of _ "[]"])

lemma users_step_trans:
  assumes a: "users_step db db'" and b: "users_step db' db''"
  shows "users_step db db''"
proof -
  obtain m n where m: "map OU_id (PD_users db') = map OU_id (PD_users db) @ m" "distinct m" "set m \<inter> OU_id ` set (PD_users db) = {}"
      and n: "map OU_id (PD_users db'') = map OU_id (PD_users db') @ n" "distinct n" "set n \<inter> OU_id ` set (PD_users db') = {}"
    using a b by (auto simp: users_step_def)
  have "OU_id ` set (PD_users db') = OU_id ` set (PD_users db) \<union> set m" using arg_cong [OF m(1), of set] by simp
  with m n have "map OU_id (PD_users db'') = map OU_id (PD_users db) @ (m @ n)" "distinct (m @ n)"
      "set (m @ n) \<inter> OU_id ` set (PD_users db) = {}" by auto
  moreover have "\<exists>u'\<in>set (PD_users db''). OU_id u' = OU_id u \<and> OU_token_epoch u \<le> OU_token_epoch u'" if u: "u \<in> set (PD_users db)" for u
  proof -
    obtain v where v: "v \<in> set (PD_users db')" "OU_id v = OU_id u" "OU_token_epoch u \<le> OU_token_epoch v"
      using a u by (auto simp: users_step_def)
    with b obtain w where "w \<in> set (PD_users db'')" "OU_id w = OU_id v" "OU_token_epoch v \<le> OU_token_epoch w"
      unfolding users_step_def by blast
    with v show ?thesis by (auto intro!: bexI [of _ w])
  qed
  ultimately show ?thesis unfolding users_step_def by blast
qed

lemma users_step_on_user:
  "(\<And>r. OU_id (f r) = OU_id r \<and> OU_token_epoch r \<le> OU_token_epoch (f r)) \<Longrightarrow> users_step db (on_user u f db)"
  by (rule users_step_map [where f = "\<lambda>r. if OU_id r = u then f r else r"]) simp_all

lemma user_writes:
  "users_step db (TouchLogin ev u db)"
  "RehashPassword ev u old new db = Inr db' \<Longrightarrow> users_step db db'"
  "SetStatus ev u s db = Inr db' \<Longrightarrow> users_step db db'"
  "SetPassword ev u h db = Inr db' \<Longrightarrow> users_step db db'"
  "StageTOTPSecret ev u s db = Inr db' \<Longrightarrow> users_step db db'"
  "ConfirmEnrolment ev u n db = Inr db' \<Longrightarrow> users_step db db'"
  "AdvanceTOTPStep ev u n db = Inr (b, db') \<Longrightarrow> users_step db db'"
  by (auto simp: TouchLogin_def RehashPassword_def SetStatus_def SetPassword_def StageTOTPSecret_def ConfirmEnrolment_def AdvanceTOTPStep_def
      store_Inr intro!: users_step_on_user users_step_refl split: if_splits option.splits)

lemma CreatePlatformUser_step: "CreatePlatformUser ev n m h db = Inr (u, db') \<Longrightarrow> users_step db db'"
  unfolding users_step_def
  by (intro conjI exI [of _ "[u]"]) (auto simp: CreatePlatformUser_def Let_def prun_Inr list_ex_iff split: if_splits)

lemma other_writes:
  "PD_users (TouchPlatformAPIKeyUsed ev k db) = PD_users db"
  "CreateAssignment ev a db = Inr (aid, db') \<Longrightarrow> PD_users db' = PD_users db"
  "Store_RevokeAssignment ev x db = Inr db' \<Longrightarrow> PD_users db' = PD_users db"
  "CreateRefreshFamily ev u h t db = Inr db' \<Longrightarrow> PD_users db' = PD_users db"
  "AppendRefresh ev u f h t db = Inr db' \<Longrightarrow> PD_users db' = PD_users db"
  "ConsumeRefresh ev r db = Inr (b, db') \<Longrightarrow> PD_users db' = PD_users db"
  "Store_RevokeRefreshFamily ev f db = Inr db' \<Longrightarrow> PD_users db' = PD_users db"
  "SweepExpired ev db = Inr db' \<Longrightarrow> PD_users db' = PD_users db"
  "CreatePlatformAPIKey ev u l k h w t db = Inr (kid, db') \<Longrightarrow> PD_users db' = PD_users db"
  "RevokePlatformAPIKey ev k db = Inr db' \<Longrightarrow> PD_users db' = PD_users db"
  by (auto simp: TouchPlatformAPIKeyUsed_def CreateAssignment_def Store_RevokeAssignment_def CreateRefreshFamily_def AppendRefresh_def
      insert_refresh_def ConsumeRefresh_def Store_RevokeRefreshFamily_def SweepExpired_def CreatePlatformAPIKey_def RevokePlatformAPIKey_def
      Let_def store_Inr split: if_splits option.splits)

lemmas users_steps = users_step_trans [OF _ user_writes(1)] users_step_trans [OF _ user_writes(2)] users_step_trans [OF _ user_writes(3)]
  users_step_trans [OF _ user_writes(4)] users_step_trans [OF _ user_writes(5)] users_step_trans [OF _ user_writes(6)]
  users_step_trans [OF _ user_writes(7)] users_step_trans [OF _ CreatePlatformUser_step]

lemma users_unchanged: "users_step db0 db \<Longrightarrow> PD_users db' = PD_users db \<Longrightarrow> users_step db0 db'"
  by (simp add: users_step_def)

lemma moves_users: "plat_moves ev c db0 db \<Longrightarrow> users_step db0 db"
  by (induction rule: plat_moves.induct) (blast intro: users_step_refl users_steps users_unchanged other_writes plat_emit_fields(1))+

text \<open>An assignment changes only by being revoked; a new one was granted.\<close>

definition same_grant :: "AssignmentRow \<Rightarrow> AssignmentRow \<Rightarrow> bool" where
  "same_grant a0 a \<longleftrightarrow> a\<lparr>OA_revoked_at := OA_revoked_at a0\<rparr> = a0 \<and> (OA_revoked_at a0 \<noteq> None \<longrightarrow> OA_revoked_at a = OA_revoked_at a0)"

lemma same_grant_refl: "same_grant a a"
  by (simp add: same_grant_def)

lemma same_grant_trans: "same_grant a b \<Longrightarrow> same_grant b c \<Longrightarrow> same_grant a c"
  unfolding same_grant_def by (cases a, cases b, cases c) auto

lemma same_grant_fields: "same_grant a0 a \<Longrightarrow> OA_id a = OA_id a0 \<and> OA_operator_id a = OA_operator_id a0 \<and> OA_tenant_id a = OA_tenant_id a0 \<and>
    OA_role a = OA_role a0 \<and> OA_granted_by a = OA_granted_by a0 \<and> OA_valid_until a = OA_valid_until a0"
  unfolding same_grant_def by (cases a, cases a0) auto

definition granted :: "PlatformEnv \<Rightarrow> plat_call \<Rightarrow> PlatformDB \<Rightarrow> AssignmentRow \<Rightarrow> bool" where
  "granted ev c db a \<longleftrightarrow> OA_id a \<notin> OA_id ` set (PD_assignments db) \<and> OA_tenant_id a \<noteq> Some [] \<and> ParseUUID (OA_operator_id a) = Some (OA_operator_id a) \<and>
     ((\<exists>ctx w. (\<exists>i. c = CreateC ctx i \<or> (\<exists>j. c = AssignC ctx j)) \<and> by_assigner ev db ctx w \<and> OA_granted_by a = ParseUUID w) \<or>
      (\<exists>x y z. c = OwnerC x y z \<and> HasOwner ev db = Inr False))"

lemma opt_uuid_Inr: "opt_uuid s = Inr u \<Longrightarrow> u = ParseUUID s \<and> u \<noteq> Some []"
  using ParseUUID_canonical [of s] by (auto simp: opt_uuid_def ParseUUID_def split: if_splits option.splits)

lemma CreateAssignment_rows:
  assumes "CreateAssignment ev a db = Inr (aid, db')"
  shows "\<exists>r. PD_assignments db' = PD_assignments db @ [r] \<and> OA_tenant_id r \<noteq> Some [] \<and> ParseUUID (OA_operator_id r) = Some (OA_operator_id r) \<and>
    OA_granted_by r = ParseUUID (AR_GrantedBy a) \<and> OA_id r \<notin> OA_id ` set (PD_assignments db)"
  using assms opt_uuid_Inr [of "AR_TenantID a"] opt_uuid_Inr [of "AR_GrantedBy a"] ParseUUID_canonical [of "AR_OperatorID a"]
  by (auto simp: CreateAssignment_def Let_def store_Inr list_ex_iff split: if_splits) blast

lemma assignment_writes:
  "PD_assignments (TouchLogin ev u db) = PD_assignments db"
  "PD_assignments (TouchPlatformAPIKeyUsed ev k db) = PD_assignments db"
  "RehashPassword ev u old new db = Inr db' \<Longrightarrow> PD_assignments db' = PD_assignments db"
  "SetStatus ev u s db = Inr db' \<Longrightarrow> PD_assignments db' = PD_assignments db"
  "SetPassword ev u h db = Inr db' \<Longrightarrow> PD_assignments db' = PD_assignments db"
  "StageTOTPSecret ev u s db = Inr db' \<Longrightarrow> PD_assignments db' = PD_assignments db"
  "ConfirmEnrolment ev u n db = Inr db' \<Longrightarrow> PD_assignments db' = PD_assignments db"
  "AdvanceTOTPStep ev u n db = Inr (b, db') \<Longrightarrow> PD_assignments db' = PD_assignments db"
  "CreatePlatformUser ev name m h db = Inr (u, db') \<Longrightarrow> PD_assignments db' = PD_assignments db"
  "CreateRefreshFamily ev u h t db = Inr db' \<Longrightarrow> PD_assignments db' = PD_assignments db"
  "AppendRefresh ev u f h t db = Inr db' \<Longrightarrow> PD_assignments db' = PD_assignments db"
  "ConsumeRefresh ev r db = Inr (b, db') \<Longrightarrow> PD_assignments db' = PD_assignments db"
  "Store_RevokeRefreshFamily ev f db = Inr db' \<Longrightarrow> PD_assignments db' = PD_assignments db"
  "SweepExpired ev db = Inr db' \<Longrightarrow> PD_assignments db' = PD_assignments db"
  "CreatePlatformAPIKey ev u l k h w t db = Inr (kid, db') \<Longrightarrow> PD_assignments db' = PD_assignments db"
  "RevokePlatformAPIKey ev k db = Inr db' \<Longrightarrow> PD_assignments db' = PD_assignments db"
  by (auto simp: TouchLogin_def RehashPassword_def SetStatus_def SetPassword_def StageTOTPSecret_def ConfirmEnrolment_def AdvanceTOTPStep_def
      TouchPlatformAPIKeyUsed_def CreatePlatformUser_def CreateRefreshFamily_def AppendRefresh_def
      insert_refresh_def ConsumeRefresh_def Store_RevokeRefreshFamily_def SweepExpired_def CreatePlatformAPIKey_def RevokePlatformAPIKey_def
      Let_def store_Inr split: if_splits option.splits)

text \<open>Assignments keep their ids, and a new one has a new id.\<close>

definition ids_step :: "PlatformDB \<Rightarrow> PlatformDB \<Rightarrow> bool" where
  "ids_step db db' \<longleftrightarrow> OA_id ` set (PD_assignments db) \<subseteq> OA_id ` set (PD_assignments db') \<and>
     (distinct (map OA_id (PD_assignments db)) \<longrightarrow> distinct (map OA_id (PD_assignments db')))"

lemma ids_unchanged: "ids_step db0 db \<Longrightarrow> map OA_id (PD_assignments db') = map OA_id (PD_assignments db) \<Longrightarrow> ids_step db0 db'"
  unfolding ids_step_def by (metis list.set_map)

lemma RevokeAssignment_ids: "Store_RevokeAssignment ev x db = Inr db' \<Longrightarrow> map OA_id (PD_assignments db') = map OA_id (PD_assignments db)"
  by (auto simp: Store_RevokeAssignment_def store_Inr split: if_splits)

lemma moves_assignment_ids: "plat_moves ev c db0 db \<Longrightarrow> ids_step db0 db"
proof (induction rule: plat_moves.induct)
  case (assign db a aid db')
  from CreateAssignment_rows [OF assign.hyps(3)] assign.IH show ?case by (auto simp: ids_step_def)
next
  case (unassign db ctx x w db')
  show ?case by (rule ids_unchanged [OF unassign.IH RevokeAssignment_ids [OF unassign.hyps(4)]])
qed ((drule assignment_writes(3-16), simp add: ids_step_def) | simp add: ids_step_def assignment_writes(1,2))+

lemma moves_assignments:
  "plat_moves ev c db0 db \<Longrightarrow> a \<in> set (PD_assignments db) \<Longrightarrow> (\<exists>a0\<in>set (PD_assignments db0). same_grant a0 a) \<or> granted ev c db0 a"
proof (induction arbitrary: a rule: plat_moves.induct)
  case start
  then show ?case using same_grant_refl by blast
next
  case (assign db x aid db')
  obtain r where r: "PD_assignments db' = PD_assignments db @ [r]" "OA_tenant_id r \<noteq> Some []" "OA_granted_by r = ParseUUID (AR_GrantedBy x)"
      "ParseUUID (OA_operator_id r) = Some (OA_operator_id r)" "OA_id r \<notin> OA_id ` set (PD_assignments db)"
    using CreateAssignment_rows [OF assign.hyps(3)] by blast
  moreover from moves_assignment_ids [OF assign.hyps(1)] have "OA_id ` set (PD_assignments db0) \<subseteq> OA_id ` set (PD_assignments db)"
    by (simp add: ids_step_def)
  ultimately have "OA_id r \<notin> OA_id ` set (PD_assignments db0)" by blast
  with r assign.hyps(2) have "granted ev c db0 r" unfolding granted_def by blast
  with r(1) assign show ?case by auto
next
  case (unassign db ctx x w db')
  obtain b where b: "b \<in> set (PD_assignments db)" "same_grant b a"
    using unassign.hyps(4) unassign.prems by (auto simp: Store_RevokeAssignment_def store_Inr same_grant_def split: if_splits)
  from unassign.IH [OF b(1)] show ?case
  proof
    assume "granted ev c db0 b"
    with same_grant_fields [OF b(2)] show ?thesis by (simp add: granted_def)
  qed (use b(2) same_grant_trans in blast)
qed ((drule assignment_writes(3-16), simp) | simp add: assignment_writes(1,2))+

text \<open>A refresh link changes only by being spent; a new one opens a family or continues one from a link that was not spent.\<close>

definition same_link :: "OpRefreshRow \<Rightarrow> OpRefreshRow \<Rightarrow> bool" where
  "same_link r0 r \<longleftrightarrow> OR_id r = OR_id r0 \<and> OR_family_id r = OR_family_id r0 \<and> OR_token_hash r = OR_token_hash r0 \<and>
     OR_expires_at r = OR_expires_at r0 \<and> OR_platform_user_id r = OR_platform_user_id r0 \<and> (unspent r \<longrightarrow> unspent r0)"

definition new_link :: "PlatformEnv \<Rightarrow> PlatformDB \<Rightarrow> OpRefreshRow \<Rightarrow> bool" where
  "new_link ev db r \<longleftrightarrow> (\<exists>rt. secret_New (pe_is ev) 0 32 = Some rt \<and> OR_token_hash r = Is_hash (pe_is ev) rt) \<and>
     (OR_family_id r = Pe_newid ev CreateRefreshFamilyS \<and> OR_expires_at r = pe_now ev + platformRefreshFamilyTTL \<or>
      (\<exists>r0\<in>set (PD_refresh db). unspent r0 \<and> ParseUUID (OR_family_id r0) = Some (OR_family_id r) \<and> OR_expires_at r = OR_expires_at r0))"

lemma refresh_writes:
  "PD_refresh (TouchLogin ev u db) = PD_refresh db"
  "PD_refresh (TouchPlatformAPIKeyUsed ev k db) = PD_refresh db"
  "RehashPassword ev u old new db = Inr db' \<Longrightarrow> PD_refresh db' = PD_refresh db"
  "SetStatus ev u s db = Inr db' \<Longrightarrow> PD_refresh db' = PD_refresh db"
  "SetPassword ev u h db = Inr db' \<Longrightarrow> PD_refresh db' = PD_refresh db"
  "StageTOTPSecret ev u s db = Inr db' \<Longrightarrow> PD_refresh db' = PD_refresh db"
  "ConfirmEnrolment ev u n db = Inr db' \<Longrightarrow> PD_refresh db' = PD_refresh db"
  "AdvanceTOTPStep ev u n db = Inr (b, db') \<Longrightarrow> PD_refresh db' = PD_refresh db"
  "CreatePlatformUser ev name m h db = Inr (u, db') \<Longrightarrow> PD_refresh db' = PD_refresh db"
  "CreateAssignment ev a db = Inr (aid, db') \<Longrightarrow> PD_refresh db' = PD_refresh db"
  "Store_RevokeAssignment ev x db = Inr db' \<Longrightarrow> PD_refresh db' = PD_refresh db"
  "CreatePlatformAPIKey ev u l k h w t db = Inr (kid, db') \<Longrightarrow> PD_refresh db' = PD_refresh db"
  "RevokePlatformAPIKey ev k db = Inr db' \<Longrightarrow> PD_refresh db' = PD_refresh db"
  by (auto simp: TouchLogin_def RehashPassword_def SetStatus_def SetPassword_def StageTOTPSecret_def ConfirmEnrolment_def AdvanceTOTPStep_def
      TouchPlatformAPIKeyUsed_def CreatePlatformUser_def CreateAssignment_def Store_RevokeAssignment_def CreatePlatformAPIKey_def RevokePlatformAPIKey_def
      Let_def store_Inr split: if_splits option.splits)

lemma same_link_refl: "same_link r r"
  by (simp add: same_link_def)

lemma same_link_trans: "same_link a b \<Longrightarrow> same_link b c \<Longrightarrow> same_link a c"
  by (simp add: same_link_def)

lemma same_link_spent: "same_link r (r\<lparr>OR_used_at := Some t\<rparr>)" "same_link r (r\<lparr>OR_revoked_at := Some t\<rparr>)"
  by (simp_all add: same_link_def unspent_def)

lemma refresh_spends:
  "ConsumeRefresh ev x db = Inr (b, db') \<Longrightarrow> r \<in> set (PD_refresh db') \<Longrightarrow> \<exists>r0\<in>set (PD_refresh db). same_link r0 r"
  "Store_RevokeRefreshFamily ev f db = Inr db' \<Longrightarrow> r \<in> set (PD_refresh db') \<Longrightarrow> \<exists>r0\<in>set (PD_refresh db). same_link r0 r"
  "SweepExpired ev db = Inr db' \<Longrightarrow> r \<in> set (PD_refresh db') \<Longrightarrow> \<exists>r0\<in>set (PD_refresh db). same_link r0 r"
  by (auto simp: ConsumeRefresh_def Store_RevokeRefreshFamily_def SweepExpired_def store_Inr split: if_splits)
     (blast intro: same_link_refl same_link_spent)+

lemma refresh_adds:
  "CreateRefreshFamily ev u h t db = Inr db' \<Longrightarrow> \<exists>x. PD_refresh db' = PD_refresh db @ [x] \<and> OR_token_hash x = h \<and> OR_expires_at x = t \<and>
     OR_family_id x = Pe_newid ev CreateRefreshFamilyS \<and> OR_id x \<in> range (Pe_newid ev) \<and> h \<notin> OR_token_hash ` set (PD_refresh db)"
  "AppendRefresh ev u f h t db = Inr db' \<Longrightarrow> \<exists>x. PD_refresh db' = PD_refresh db @ [x] \<and> OR_token_hash x = h \<and> OR_expires_at x = t \<and>
     ParseUUID f = Some (OR_family_id x) \<and> OR_id x \<in> range (Pe_newid ev) \<and> h \<notin> OR_token_hash ` set (PD_refresh db)"
  by (auto simp: CreateRefreshFamily_def AppendRefresh_def insert_refresh_def Let_def store_Inr list_ex_iff split: if_splits)

lemma Store_RefreshByHash_row:
  "Store_RefreshByHash ev h db = Inr (Some rec) \<Longrightarrow> \<exists>r\<in>set (PD_refresh db). OR_token_hash r = h \<and> rec = refresh_of r"
  by (auto simp: Store_RefreshByHash_def prun_Inr find_Some_iff)

text \<open>No two links have one hash, and ids are canonical.\<close>

definition links_ok :: "PlatformDB \<Rightarrow> bool" where
  "links_ok db \<longleftrightarrow> distinct (map OR_token_hash (PD_refresh db)) \<and> (\<forall>r\<in>set (PD_refresh db). ParseUUID (OR_id r) = Some (OR_id r))"

lemma links_ok_map:
  assumes "links_ok db" "PD_refresh db' = map f (PD_refresh db)" "\<And>r. OR_token_hash (f r) = OR_token_hash r \<and> OR_id (f r) = OR_id r"
  shows "links_ok db'"
proof -
  have "map OR_token_hash (PD_refresh db') = map OR_token_hash (PD_refresh db)" using assms(2,3) by simp
  moreover have "ParseUUID (OR_id r) = Some (OR_id r)" if "r \<in> set (PD_refresh db')" for r using assms that by (auto simp: links_ok_def)
  ultimately show ?thesis using assms(1) unfolding links_ok_def by metis
qed

lemma links_ok_add:
  "links_ok db \<Longrightarrow> env_ok ev \<Longrightarrow> PD_refresh db' = PD_refresh db @ [x] \<Longrightarrow> OR_id x \<in> range (Pe_newid ev) \<Longrightarrow>
     OR_token_hash x \<notin> OR_token_hash ` set (PD_refresh db) \<Longrightarrow> links_ok db'"
  by (auto simp: links_ok_def env_okD(1))

lemma moves_links: "plat_moves ev c db0 db \<Longrightarrow> env_ok ev \<Longrightarrow> links_ok db0 \<Longrightarrow> links_ok db"
proof (induction rule: plat_moves.induct)
  case (family db rt u db')
  from refresh_adds(1) [OF family.hyps(3)] links_ok_add [OF family.IH [OF family.prems] family.prems(1)] show ?case by metis
next
  case (chain db t rec rt u db')
  from refresh_adds(2) [OF chain.hyps(6)] links_ok_add [OF chain.IH [OF chain.prems] chain.prems(1)] show ?case by metis
next
  case (consume db x b db')
  from consume.hyps(2) obtain v where "db' = db\<lparr>PD_refresh := map (\<lambda>r. if OR_id r = v \<and> unspent r then r\<lparr>OR_used_at := Some (Pe_dbnow ev)\<rparr> else r) (PD_refresh db)\<rparr>"
    unfolding ConsumeRefresh_def store_Inr by blast
  then have "PD_refresh db' = map (\<lambda>r. if OR_id r = v \<and> unspent r then r\<lparr>OR_used_at := Some (Pe_dbnow ev)\<rparr> else r) (PD_refresh db)" by simp
  then show ?case by (rule links_ok_map [OF consume.IH [OF consume.prems]]) simp
next
  case (disown db f db')
  from disown.hyps(2) obtain v where "db' = db\<lparr>PD_refresh := map (\<lambda>r. if OR_family_id r = v \<and> OR_revoked_at r = None
      then r\<lparr>OR_revoked_at := Some (Pe_dbnow ev)\<rparr> else r) (PD_refresh db)\<rparr>"
    unfolding Store_RevokeRefreshFamily_def store_Inr by blast
  then have "PD_refresh db' = map (\<lambda>r. if OR_family_id r = v \<and> OR_revoked_at r = None then r\<lparr>OR_revoked_at := Some (Pe_dbnow ev)\<rparr> else r)
      (PD_refresh db)" by simp
  then show ?case by (rule links_ok_map [OF disown.IH [OF disown.prems]]) simp
next
  case (sweep db db')
  from sweep.hyps(2) sweep.IH [OF sweep.prems] show ?case by (auto simp: SweepExpired_def store_Inr links_ok_def intro: distinct_map_filter)
qed ((drule refresh_writes(3-13), simp add: links_ok_def) | simp add: links_ok_def refresh_writes(1,2))+

lemma link_old:
  assumes "\<And>r. r \<in> set (PD_refresh db) \<Longrightarrow> (\<exists>r0\<in>set (PD_refresh db0). same_link r0 r) \<or> new_link ev db0 r" "\<exists>r1\<in>set (PD_refresh db). same_link r1 r"
  shows "(\<exists>r0\<in>set (PD_refresh db0). same_link r0 r) \<or> new_link ev db0 r"
proof -
  from assms obtain r1 where r1: "same_link r1 r" "(\<exists>r0\<in>set (PD_refresh db0). same_link r0 r1) \<or> new_link ev db0 r1" by blast
  from r1(2) show ?thesis
  proof
    assume "new_link ev db0 r1"
    with r1(1) show ?thesis by (auto simp: new_link_def same_link_def)
  qed (use r1(1) same_link_trans in blast)
qed

lemma moves_refresh:
  "plat_moves ev c db0 db \<Longrightarrow> r \<in> set (PD_refresh db) \<Longrightarrow> (\<exists>r0\<in>set (PD_refresh db0). same_link r0 r) \<or> new_link ev db0 r"
proof (induction arbitrary: r rule: plat_moves.induct)
  case start
  then show ?case using same_link_refl by blast
next
  case (family db rt u db')
  obtain x where x: "PD_refresh db' = PD_refresh db @ [x]" "new_link ev db0 x"
    using refresh_adds(1) [OF family.hyps(3)] family.hyps(2) by (auto simp: new_link_def)
  from family.prems consider "r \<in> set (PD_refresh db)" | "r = x" by (auto simp: x(1))
  then show ?case by cases (use family.IH x(2) in auto)
next
  case (chain db t rec rt u db')
  obtain r0 where r0: "r0 \<in> set (PD_refresh db0)" "rec = refresh_of r0" using Store_RefreshByHash_row [OF chain.hyps(3)] by blast
  with chain.hyps(4) have "unspent r0" by (simp add: refresh_of_def Refresh_Spent_def unspent_def)
  with r0 obtain x where x: "PD_refresh db' = PD_refresh db @ [x]" "new_link ev db0 x"
    using refresh_adds(2) [OF chain.hyps(6)] chain.hyps(5) by (auto simp: new_link_def refresh_of_def)
  from chain.prems consider "r \<in> set (PD_refresh db)" | "r = x" by (auto simp: x(1))
  then show ?case by cases (use chain.IH x(2) in auto)
next
  case (consume db x b db')
  show ?case by (rule link_old [OF consume.IH refresh_spends(1) [OF consume.hyps(2) consume.prems]])
next
  case (disown db f db')
  show ?case by (rule link_old [OF disown.IH refresh_spends(2) [OF disown.hyps(2) disown.prems]])
next
  case (sweep db db')
  show ?case by (rule link_old [OF sweep.IH refresh_spends(3) [OF sweep.hyps(2) sweep.prems]])
qed ((drule refresh_writes(3-13), simp) | simp add: refresh_writes(1,2))+

section \<open>The invariant\<close>

definition plat_wf :: "PlatformDB \<Rightarrow> bool" where
  "plat_wf db \<longleftrightarrow> distinct (map OU_id (PD_users db)) \<and> distinct (map OA_id (PD_assignments db)) \<and>
     (\<forall>a\<in>set (PD_assignments db). OA_tenant_id a \<noteq> Some [] \<and> ParseUUID (OA_operator_id a) = Some (OA_operator_id a)) \<and>
     (\<forall>r\<in>set (PD_refresh db). ParseUUID (OR_family_id r) = Some (OR_family_id r)) \<and> links_ok db"

definition empty_plat :: PlatformDB where
  "empty_plat = \<lparr>PD_users = [], PD_assignments = [], PD_refresh = [], PD_keys = [], PD_events = []\<rparr>"

lemma users_step_distinct: "users_step db db' \<Longrightarrow> distinct (map OU_id (PD_users db)) \<Longrightarrow> distinct (map OU_id (PD_users db'))"
proof -
  assume "users_step db db'" and d: "distinct (map OU_id (PD_users db))"
  then obtain new where "map OU_id (PD_users db') = map OU_id (PD_users db) @ new" "distinct new" "set new \<inter> OU_id ` set (PD_users db) = {}"
    by (auto simp: users_step_def)
  with d show ?thesis by (simp only: distinct_append) (simp add: Int_commute)
qed

lemma plat_wf_empty: "plat_wf empty_plat"
  by (simp add: plat_wf_def empty_plat_def links_ok_def)

lemma plat_wf_step:
  assumes wf: "plat_wf db" and ok: "env_ok ev"
  shows "plat_wf (plat_step db (ev, c))"
proof -
  let ?db' = "plat_step db (ev, c)"
  have m: "plat_moves ev c db ?db'" by (rule plat_step_moves)
  have "distinct (map OU_id (PD_users ?db'))" using users_step_distinct [OF moves_users [OF m]] wf by (simp add: plat_wf_def)
  moreover have "distinct (map OA_id (PD_assignments ?db'))" using moves_assignment_ids [OF m] wf by (simp add: ids_step_def plat_wf_def)
  moreover have "OA_tenant_id a \<noteq> Some [] \<and> ParseUUID (OA_operator_id a) = Some (OA_operator_id a)" if "a \<in> set (PD_assignments ?db')" for a
    using moves_assignments [OF m that] wf same_grant_fields by (fastforce simp: plat_wf_def granted_def)
  moreover have "ParseUUID (OR_family_id r) = Some (OR_family_id r)" if "r \<in> set (PD_refresh ?db')" for r
    using moves_refresh [OF m that] wf env_okD(1) [OF ok, of CreateRefreshFamilyS] ParseUUID_canonical
    by (fastforce simp: plat_wf_def same_link_def new_link_def)
  moreover have "links_ok ?db'" using moves_links [OF m ok] wf by (simp add: plat_wf_def)
  ultimately show ?thesis by (simp add: plat_wf_def)
qed

interpretation plat: machine "\<lambda>db. db = empty_plat" "\<lambda>a. env_ok (fst a)" plat_step plat_wf
  by unfold_locales (auto simp: plat_wf_empty intro: plat_wf_step)

section \<open>Superseded tokens\<close>

definition moved_past :: "string \<Rightarrow> int \<Rightarrow> PlatformDB \<Rightarrow> bool" where
  "moved_past u e db \<longleftrightarrow> (\<exists>r\<in>set (PD_users db). OU_id r = u \<and> e < OU_token_epoch r)"

lemma moved_past_step: "moved_past u e db \<Longrightarrow> moved_past u e (plat_step db (ev, c))"
  using moves_users [OF plat_step_moves, of db ev c] unfolding users_step_def moved_past_def by (metis order_less_le_trans)

lemma moved_past_run: "moved_past u e db \<Longrightarrow> moved_past u e (plat_run db as)"
  by (induction as arbitrary: db) (auto simp: moved_past_step)

lemma plat_wf_run: "plat_wf db \<Longrightarrow> \<forall>a\<in>set as. env_ok (fst a) \<Longrightarrow> plat_wf (plat_run db as)"
  using plat.inv_run [of db as] by (simp add: plat_run_def)

lemma find_user: "plat_wf db \<Longrightarrow> r \<in> set (PD_users db) \<Longrightarrow> find (\<lambda>r'. OU_id r' = OU_id r) (PD_users db) = Some r"
  unfolding plat_wf_def by (induction "PD_users db" arbitrary: db) (auto simp: find_Some_iff distinct_conv_nth in_set_conv_nth nth_eq_iff_index_eq)

lemma user_row:
  assumes "plat_wf db" "PlatformUserByID ev x db = Inr (Some (who, h))"
  shows "\<exists>r\<in>set (PD_users db). ParseUUID x = Some (OU_id r) \<and> who = userOf r \<and> h = OU_password_hash r"
  using assms(2) by (auto simp: PlatformUserByID_def store_Inr find_Some_iff)

lemma user_by_id:
  assumes "plat_wf db" "ParseUUID x = Some (OU_id r)" "r \<in> set (PD_users db)"
  shows "PlatformUserByID ev x db = prun ev PlatformUserByIDS (Inr (Some (userOf r, OU_password_hash r)))"
  using find_user [OF assms(1,3)] assms(2) by (simp add: PlatformUserByID_def by_uuid_def)

lemma stillValid_iff:
  assumes "plat_wf db"
  shows "stillValid ev p db = Inr () \<longleftrightarrow> \<not> Pe_fails ev PlatformUserByIDS \<and>
    (\<exists>r\<in>set (PD_users db). ParseUUID (Pr_IdentityID p) = Some (OU_id r) \<and> OU_status r = ''active'' \<and> OU_token_epoch r = Pr_Epoch p)"
    (is "_ \<longleftrightarrow> ?R")
proof
  assume a: "stillValid ev p db = Inr ()"
  then obtain who h where w: "PlatformUserByID ev (Pr_IdentityID p) db = Inr (Some (who, h))" "User_Active who" "Pr_Epoch p = PU_TokenEpoch who"
    by (auto simp: stillValid_def split: sum.splits option.splits if_splits)
  then have "\<not> Pe_fails ev PlatformUserByIDS" by (auto simp: PlatformUserByID_def store_Inr)
  with user_row [OF assms w(1)] w(2,3) show ?R by (auto simp: userOf_def User_Active_def)
next
  assume ?R
  then obtain r where "\<not> Pe_fails ev PlatformUserByIDS" "r \<in> set (PD_users db)" "ParseUUID (Pr_IdentityID p) = Some (OU_id r)"
      "OU_status r = ''active''" "OU_token_epoch r = Pr_Epoch p" by blast
  with user_by_id [OF assms] show "stillValid ev p db = Inr ()"
    by (simp add: stillValid_def prun_def userOf_def User_Active_def)
qed

lemma one_row: "plat_wf db \<Longrightarrow> r \<in> set (PD_users db) \<Longrightarrow> r' \<in> set (PD_users db) \<Longrightarrow> OU_id r = OU_id r' \<Longrightarrow> r = r'"
  by (metis find_user option.inject)

lemma moved_past_refused:
  assumes "plat_wf db" "moved_past u (Pr_Epoch p) db" "ParseUUID (Pr_IdentityID p) = Some u"
  shows "stillValid ev p db = Inl ErrUnauthenticated" "\<exists>e. requirePlatform ev p permission db = Inl e"
proof -
  from assms(2) obtain r where r: "r \<in> set (PD_users db)" "OU_id r = u" "Pr_Epoch p < OU_token_epoch r" by (auto simp: moved_past_def)
  with assms(3) have by_id: "PlatformUserByID ev (Pr_IdentityID p) db = prun ev PlatformUserByIDS (Inr (Some (userOf r, OU_password_hash r)))"
    by (intro user_by_id [OF assms(1)]) auto
  with r show "stillValid ev p db = Inl ErrUnauthenticated" by (simp add: stillValid_def prun_def userOf_def)
  from by_id r show "\<exists>e. requirePlatform ev p permission db = Inl e"
    by (simp add: requirePlatform_def OperatorStanding_def prun_def userOf_def)
qed

section \<open>Where an assignment reaches\<close>

inductive company_below :: "TenantNode list \<Rightarrow> nat \<Rightarrow> string \<Rightarrow> string \<Rightarrow> bool" for ts where
  child: "c \<in> set ts \<Longrightarrow> TW_parent c = Some a \<Longrightarrow> company_below ts 1 a (TW_id c)"
| deeper: "c \<in> set ts \<Longrightarrow> TW_parent c = Some a \<Longrightarrow> company_below ts n (TW_id c) t \<Longrightarrow> company_below ts (Suc n) a t"

inductive_cases company_belowE: "company_below ts n a t"

lemma below_walk_iff: "t \<in> set (below_walk n ts a) \<longleftrightarrow> (\<exists>k\<le>n. company_below ts k a t)"
proof (induction n arbitrary: a)
  case 0
  then show ?case by (auto elim: company_belowE)
next
  case (Suc n)
  have "t \<in> set (below_walk (Suc n) ts a) \<longleftrightarrow> (\<exists>c\<in>set ts. TW_parent c = Some a \<and> (t = TW_id c \<or> (\<exists>k\<le>n. company_below ts k (TW_id c) t)))"
    using Suc by auto
  also have "\<dots> \<longleftrightarrow> (\<exists>k\<le>Suc n. company_below ts k a t)" (is "?L \<longleftrightarrow> ?R")
  proof
    assume ?L
    then obtain c where c: "c \<in> set ts" "TW_parent c = Some a" "t = TW_id c \<or> (\<exists>k\<le>n. company_below ts k (TW_id c) t)" by blast
    from c(3) show ?R
    proof
      assume "t = TW_id c"
      with c company_below.child [OF c(1,2)] show ?R by (intro exI [of _ 1]) simp
    next
      assume "\<exists>k\<le>n. company_below ts k (TW_id c) t"
      then obtain k where "k \<le> n" "company_below ts k (TW_id c) t" by blast
      with company_below.deeper [OF c(1,2)] show ?R by (intro exI [of _ "Suc k"]) simp
    qed
  next
    assume ?R
    then obtain k where k: "k \<le> Suc n" "company_below ts k a t" by blast
    from k(2) show ?L by cases (use k(1) in auto)
  qed
  finally show ?case .
qed

definition in_force :: "AssignmentRow \<Rightarrow> time \<Rightarrow> bool" where
  "in_force a now \<longleftrightarrow> OA_revoked_at a = None \<and> (case OA_valid_until a of None \<Rightarrow> True | Some u \<Rightarrow> now < u)"

definition reaches :: "TenantNode list \<Rightarrow> AssignmentRow \<Rightarrow> string \<Rightarrow> bool" where
  "reaches ts a t \<longleftrightarrow> (case OA_tenant_id a of None \<Rightarrow> True | Some o' \<Rightarrow> o' = t \<or> (\<exists>n. company_below ts n o' t))"

lemma assignment_of_iffs:
  "OA_tenant_id a \<noteq> Some [] \<Longrightarrow> Assignment_Global (assignment_of ev b a) \<longleftrightarrow> OA_tenant_id a = None"
  "Assignment_Live (assignment_of ev b a) now \<longleftrightarrow> in_force a now"
  "AR_Role (assignment_of ev b a) = OA_role a" "AR_OperatorID (assignment_of ev b a) = OA_operator_id a"
  by (auto simp: Assignment_Global_def Assignment_Live_def assignment_of_def in_force_def nstr_def After_def split: option.split)

lemma covers_iff:
  assumes "OA_tenant_id a \<noteq> Some []" "t \<noteq> []" "\<And>x n y. company_below (Pe_tenants ev) n x y \<Longrightarrow> n \<le> max_depth"
  shows "Assignment_Covers (assignment_of ev b a) t now \<longleftrightarrow> in_force a now \<and> reaches (Pe_tenants ev) a t"
  using assms by (auto simp: Assignment_Covers_def assignment_of_iffs reaches_def)
    (auto simp: assignment_of_def below_def below_walk_iff nstr_def list_ex_iff split: option.splits)

end
