(* ===== verification/Operator_Examples.thy ===== *)
theory Operator_Examples
  imports Operator_Invariants Sign_In_Examples
begin

text \<open>
  A small installation: Ada owns all of it, Bob owns the company \<^verbatim>\<open>acme\<close>, which has one company below it, and Bob is signed
  in. It makes the statements about the control plane concrete, and shows calls where the code does less than its comments say.
\<close>

section \<open>The installation\<close>

definition demo_uuid :: "char \<Rightarrow> string" where
  "demo_uuid k = ''00000000-0000-0000-0000-00000000000'' @ [k]"

definition demo_tree :: "TenantNode list" where
  "demo_tree = [\<lparr>TW_id = demo_uuid CHR ''1'', TW_slug = ''acme'', TW_name = ''Acme'', TW_parent = None\<rparr>,
     \<lparr>TW_id = demo_uuid CHR ''2'', TW_slug = ''acme-labs'', TW_name = ''Labs'', TW_parent = Some (demo_uuid CHR ''1'')\<rparr>]"

text \<open>A call at \<open>now\<close>: the random bytes are all the letter \<open>c\<close>, a new row gets the id that ends in \<open>k\<close>.\<close>

definition demo_plat :: "time \<Rightarrow> char \<Rightarrow> char \<Rightarrow> PlatformEnv" where
  "demo_plat now c k = \<lparr>Pe_sign = demo_sign_env (demo_issuer now c []), Pe_dbnow = now, Pe_newid = (\<lambda>s. demo_uuid k), Pe_fails = (\<lambda>s. False),
     Pe_uuid = ParseUUID, Pe_master = ''master'', Pe_tenants = demo_tree, Pe_ILIKE = (=), Pe_greater = (\<lambda>a b. False), Pe_by_username = (\<lambda>rs. rs),
     Pe_mfa_Marshal = (\<lambda>s. Some s), Pe_mfa_Unmarshal = (\<lambda>s. Some s), Pe_ProvisioningURI = (\<lambda>s a. a)\<rparr>"

lemma demo_plat_fields [simp]:
  "Pe_sign (demo_plat now c k) = demo_sign_env (demo_issuer now c [])" "Pe_dbnow (demo_plat now c k) = now"
  "Pe_newid (demo_plat now c k) s = demo_uuid k" "Pe_fails (demo_plat now c k) s = False" "Pe_uuid (demo_plat now c k) = ParseUUID"
  "Pe_tenants (demo_plat now c k) = demo_tree" "Pe_master (demo_plat now c k) = ''master''"
  by (simp_all add: demo_plat_def)

lemma demo_uuid_simps [simp]: "demo_uuid k = demo_uuid j \<longleftrightarrow> k = j" "demo_uuid k \<noteq> []" "[] \<noteq> demo_uuid k"
  by (simp_all add: demo_uuid_def)

lemma demo_uuid_parses [simp]: "k \<in> set ''0123456789abcdef'' \<Longrightarrow> ParseUUID (demo_uuid k) = Some (demo_uuid k)"
proof -
  have "list_all (\<lambda>k. ParseUUID (demo_uuid k) = Some (demo_uuid k)) ''0123456789abcdef''" by code_simp
  then show "k \<in> set ''0123456789abcdef'' \<Longrightarrow> ?thesis" by (simp only: list_all_iff)
qed

lemma demo_env_ok: "k \<in> set ''0123456789abcdef'' \<Longrightarrow> env_ok (demo_plat now c k)"
  using demo_uuid_parses by (simp add: env_ok_def)

lemma demo_tree_shallow: "company_below demo_tree n x y \<Longrightarrow> n \<le> max_depth"
proof -
  have no: "\<not> company_below demo_tree m (demo_uuid CHR ''2'') y" for m y
  proof
    assume "company_below demo_tree m (demo_uuid CHR ''2'') y"
    then show False by cases (auto simp: demo_tree_def)
  qed
  assume "company_below demo_tree n x y"
  then show ?thesis by cases (use no in \<open>auto simp: demo_tree_def max_depth_def\<close>)
qed

definition demo_operator :: "char \<Rightarrow> string \<Rightarrow> OperatorRow" where
  "demo_operator k n = \<lparr>OU_id = demo_uuid k, OU_username = n, OU_email = None, OU_password_hash = demo_hash_of, OU_status = ''active'',
     OU_token_epoch = 0, OU_created_at = 0, OU_last_login_at = None, OU_disabled_at = None, OU_totp_secret_enc = None,
     OU_totp_enrolled_at = None, OU_totp_last_step = 0\<rparr>"

definition demo_assignment :: "char \<Rightarrow> char \<Rightarrow> string option \<Rightarrow> AssignmentRow" where
  "demo_assignment k o' t = \<lparr>OA_id = demo_uuid k, OA_operator_id = demo_uuid o', OA_tenant_id = t, OA_role = ''owner'',
     OA_granted_by = Some (demo_uuid CHR ''a''), OA_reason = [], OA_valid_until = None, OA_revoked_at = None, OA_created_at = 0\<rparr>"

definition demo_link :: OpRefreshRow where
  "demo_link = \<lparr>OR_id = demo_uuid CHR ''7'', OR_platform_user_id = demo_uuid CHR ''b'', OR_family_id = demo_uuid CHR ''7'', OR_token_hash = ''bob-token'',
     OR_expires_at = platformRefreshFamilyTTL, OR_used_at = None, OR_revoked_at = None\<rparr>"

definition demo_installation :: PlatformDB where
  "demo_installation = \<lparr>PD_users = [demo_operator CHR ''a'' ''ada'', demo_operator CHR ''b'' ''bob''],
     PD_assignments = [demo_assignment CHR ''3'' CHR ''a'' None, demo_assignment CHR ''4'' CHR ''b'' (Some (demo_uuid CHR ''1''))],
     PD_refresh = [demo_link], PD_keys = [], PD_events = []\<rparr>"

lemma demo_installation_ok: "plat_wf demo_installation"
  by (simp add: plat_wf_def links_ok_def demo_installation_def demo_operator_def demo_assignment_def demo_link_def)

definition demo_caller :: "char \<Rightarrow> string \<Rightarrow> Principal" where
  "demo_caller k t = \<lparr>Pr_IdentityID = demo_uuid k, Pr_TenantID = t, Pr_TenantSlug = [], Pr_SessionID = [], Pr_Realm = [], Pr_Roles = [''owner''],
     Pr_Scopes = [], Pr_AMR = [], Pr_AuthTime = 0, Pr_IAL = 0, Pr_Epoch = 0, Pr_Audience = [PlatformAudience], Pr_Service = False,
     Pr_Platform = True, Pr_Token = []\<rparr>"

abbreviation ada :: Principal where "ada \<equiv> demo_caller CHR ''a'' []"
abbreviation bob :: Principal where "bob \<equiv> demo_caller CHR ''b'' []"

lemma demo_mint:
  assumes "0 \<le> now" and "now < 100"
  shows "\<exists>tok. mint (demo_plat now c k) u roles e now = Inr tok"
proof -
  have "ActiveAccessAt demo_ring now = Inr demo_key"
    using assms
    by (simp add: ActiveAccessAt_def ActiveAccessPresent_def demo_ring_def demo_key_def InWindow_def Before_def IsZero_def zero_time_def)
  then show ?thesis
    using formats_agree [OF demo_key_pair demo_json_ok, of False "enc_claims (operator_claims (demo_plat now c k) u roles e now)"]
    by (auto simp: mint_def signClaims_def demo_issuer_def demo_key_def demo_json_def)
qed

lemma demo_row_fields [simp]:
  "OU_id (demo_operator k n) = demo_uuid k" "OU_status (demo_operator k n) = ''active''" "OU_token_epoch (demo_operator k n) = 0"
  "OU_username (demo_operator k n) = n" "OA_id (demo_assignment k o' t) = demo_uuid k" "OA_operator_id (demo_assignment k o' t) = demo_uuid o'"
  "OA_tenant_id (demo_assignment k o' t) = t" "OA_role (demo_assignment k o' t) = ''owner''" "OA_revoked_at (demo_assignment k o' t) = None"
  "OA_valid_until (demo_assignment k o' t) = None" "Pr_IdentityID (demo_caller k x) = demo_uuid k" "Pr_TenantID (demo_caller k x) = x"
  "Pr_Epoch (demo_caller k x) = 0" "Pr_Platform (demo_caller k x)" "PD_refresh demo_installation = [demo_link]"
  "PD_users demo_installation = [demo_operator CHR ''a'' ''ada'', demo_operator CHR ''b'' ''bob'']"
  "PD_assignments demo_installation = [demo_assignment CHR ''3'' CHR ''a'' None, demo_assignment CHR ''4'' CHR ''b'' (Some (demo_uuid CHR ''1''))]"
  by (simp_all add: demo_operator_def demo_assignment_def demo_caller_def demo_installation_def)

lemma demo_store [simp]:
  "by_uuid (Some u) f = f u" "prun (demo_plat now c k) s r = r"
  by (simp_all add: by_uuid_def prun_def)

lemma demo_ids [simp]:
  "PlatformUserByID (demo_plat now c k) (demo_uuid j) db = (case ParseUUID (demo_uuid j) of None \<Rightarrow> Inl ErrInternal
     | Some u \<Rightarrow> Inr (map_option (\<lambda>r. (userOf r, OU_password_hash r)) (find (\<lambda>r. OU_id r = u) (PD_users db))))"
  by (simp add: PlatformUserByID_def by_uuid_def prun_def split: option.split)

section \<open>Ada and Bob at work\<close>

lemma demo_owner_passes:
  "guard_require (demo_plat now c k) (Some ada) PermAssignOperators demo_installation =
     Inr (ada, [assignment_of (demo_plat now c k) True (demo_assignment CHR ''3'' CHR ''a'' None)])"
  by (simp add: guard_require_def stillValid_def Assignments_def live_of_def userOf_def User_Active_def assignment_of_def
      Assignment_Live_def Role_Allows_def role_permissions_def RoleSupport_def RoleAdmin_def RoleOwner_def ownerPermissions_def
      installationPermissions_def)

lemma demo_kdf_hashes: "\<exists>h. kdf_Hash demo_kdf (Some (replicate saltLen c)) w = Some h"
  by (simp add: kdf_Hash_def hashWith_def demo_kdf_def)

lemmas demo_sessions = Platform_Refresh_def Store_RefreshByHash_def ConsumeRefresh_def refresh_of_def Refresh_Spent_def unspent_def After_def
  rotate_def liveRoles_def live_of_def Assignments_def AppendRefresh_def insert_refresh_def has_user_def secret_New_def Let_def

text \<open>Bob's token, whatever his account has been through since, as long as it is active.\<close>

lemma demo_bob_refreshes:
  assumes "PD_users db = [demo_operator CHR ''a'' ''ada'', b]" "OU_id b = demo_uuid CHR ''b''" "OU_status b = ''active''"
    and "PD_assignments db = PD_assignments demo_installation" "PD_refresh db = [demo_link]"
  shows "\<exists>s. snd (Platform_Refresh (demo_plat 2 CHR ''x'' CHR ''9'') ''bob-token'' db) = Inr s \<and>
    mint (demo_plat 2 CHR ''x'' CHR ''9'') (demo_uuid CHR ''b'') [''owner''] (OU_token_epoch b) 2 = Inr (PS_AccessToken s)"
proof -
  let ?ev = "demo_plat 2 CHR ''x'' CHR ''9''"
  obtain tok where tok: "mint ?ev (demo_uuid CHR ''b'') [''owner''] (OU_token_epoch b) 2 = Inr tok" 
    using demo_mint [of 2 "CHR ''x''" "CHR ''9''"] by fastforce
  have "EncodeToString (replicate 32 CHR ''x'') \<noteq> ''bob-token''" by code_simp
  with assms tok show ?thesis
    by (simp add: demo_sessions demo_link_def userOf_def User_Active_def platformRefreshFamilyTTL_def
        assignment_of_def Assignment_Live_def opened_def)
qed

section \<open>Where the code does less than it says\<close>

text \<open>Resetting Bob's password moves his epoch on, and his access tokens are dead; his refresh token is not: it still opens a
  session, at the new epoch. The same holds of a change of password.\<close>

lemma reset_leaves_refresh_token:
  "\<exists>temporary s. let ev = demo_plat 1 CHR ''r'' CHR ''8''; db = plat_step demo_installation (ev, ResetC (Some ada) (demo_uuid CHR ''b'')) in
     snd (ResetOperatorPassword ev (Some ada) (demo_uuid CHR ''b'') demo_installation) = Inr temporary \<and>
     stillValid ev bob db = Inl ErrUnauthenticated \<and>
     snd (Platform_Refresh (demo_plat 2 CHR ''x'' CHR ''9'') ''bob-token'' db) = Inr s \<and>
     mint (demo_plat 2 CHR ''x'' CHR ''9'') (demo_uuid CHR ''b'') [''owner''] 1 2 = Inr (PS_AccessToken s)"
proof -
  let ?ev = "demo_plat 1 CHR ''r'' CHR ''8''"
  obtain h where h: "kdf_Hash demo_kdf (Some (replicate saltLen CHR ''r'')) (EncodeToString (replicate 24 CHR ''r'')) = Some h" using demo_kdf_hashes by blast
  let ?b = "(demo_operator CHR ''b'' ''bob'')\<lparr>OU_password_hash := h, OU_token_epoch := 1\<rparr>"
  obtain e where r: "ResetOperatorPassword ?ev (Some ada) (demo_uuid CHR ''b'') demo_installation =
      (plat_emit e (demo_installation\<lparr>PD_users := [demo_operator CHR ''a'' ''ada'', ?b]\<rparr>), Inr (EncodeToString (replicate 24 CHR ''r'')))"
    using h by (auto simp: ResetOperatorPassword_def demo_owner_passes secret_New_def SetPassword_def has_user_def epoch_at_end_def on_user_def userOf_def)
  let ?db = "plat_step demo_installation (?ev, ResetC (Some ada) (demo_uuid CHR ''b''))"
  have db: "?db = plat_emit e (demo_installation\<lparr>PD_users := [demo_operator CHR ''a'' ''ada'', ?b]\<rparr>)" by (simp add: plat_step_def r)
  have "stillValid ?ev bob ?db = Inl ErrUnauthenticated" by (simp add: db stillValid_def userOf_def User_Active_def)
  moreover have "PD_users ?db = [demo_operator CHR ''a'' ''ada'', ?b]" "PD_assignments ?db = PD_assignments demo_installation" "PD_refresh ?db = [demo_link]"
    unfolding db by simp_all
  ultimately show ?thesis using demo_bob_refreshes [of ?db ?b] r by (simp add: Let_def demo_operator_def)
qed

text \<open>A reset refuses one's own account, since it does not ask for the current password; spelled in capitals, the id passes.\<close>

lemma capitals_reset_oneself:
  "\<exists>temporary. snd (ResetOperatorPassword (demo_plat 1 CHR ''r'' CHR ''8'') (Some ada) (demo_uuid CHR ''A'') demo_installation) = Inr temporary"
  "snd (ResetOperatorPassword (demo_plat 1 CHR ''r'' CHR ''8'') (Some ada) (demo_uuid CHR ''a'') demo_installation) = Inl ErrInvalidArgument"
proof -
  obtain h where h: "kdf_Hash demo_kdf (Some (replicate saltLen CHR ''r'')) (EncodeToString (replicate 24 CHR ''r'')) = Some h" using demo_kdf_hashes by blast
  have "ParseUUID (demo_uuid CHR ''A'') = Some (demo_uuid CHR ''a'')" by code_simp
  with h show "\<exists>temporary. snd (ResetOperatorPassword (demo_plat 1 CHR ''r'' CHR ''8'') (Some ada) (demo_uuid CHR ''A'') demo_installation) = Inr temporary"
    by (simp add: ResetOperatorPassword_def demo_owner_passes secret_New_def SetPassword_def has_user_def epoch_at_end_def on_user_def userOf_def)
qed (simp add: ResetOperatorPassword_def demo_owner_passes)

text \<open>The last owner cannot be removed, unless the assignment's id is spelled in capitals.\<close>

definition one_owner :: PlatformDB where
  "one_owner = demo_installation\<lparr>PD_assignments := [demo_assignment CHR ''c'' CHR ''a'' None]\<rparr>"

lemma one_owner_fields [simp]: "PD_assignments one_owner = [demo_assignment CHR ''c'' CHR ''a'' None]" "PD_users one_owner = PD_users demo_installation"
  by (simp_all add: one_owner_def)

lemma capitals_revoke_last_owner:
  "snd (RevokeAssignment (demo_plat 1 CHR ''r'' CHR ''8'') (Some ada) (demo_uuid CHR ''c'') one_owner) = Inl ErrInvalidArgument"
  "snd (RevokeAssignment (demo_plat 1 CHR ''r'' CHR ''8'') (Some ada) (demo_uuid CHR ''C'') one_owner) = Inr ()"
  "HasOwner (demo_plat 1 CHR ''r'' CHR ''8'') (fst (RevokeAssignment (demo_plat 1 CHR ''r'' CHR ''8'') (Some ada) (demo_uuid CHR ''C'') one_owner)) = Inr False"
proof -
  let ?ev = "demo_plat 1 CHR ''r'' CHR ''8''"
  have g: "guard_require ?ev (Some ada) PermAssignOperators one_owner = Inr (ada, [assignment_of ?ev True (demo_assignment CHR ''c'' CHR ''a'' None)])"
    by (simp add: guard_require_def stillValid_def Assignments_def live_of_def userOf_def User_Active_def assignment_of_def
      Assignment_Live_def Role_Allows_def role_permissions_def RoleSupport_def RoleAdmin_def RoleOwner_def ownerPermissions_def
      installationPermissions_def)
  have C: "ParseUUID (demo_uuid CHR ''C'') = Some (demo_uuid CHR ''c'')" by code_simp
  note d = RevokeAssignment_def g lastOwnerCheck_def Assignments_def Assignment_Global_def Assignment_Live_def
    assignment_of_def RoleOwner_def Store_RevokeAssignment_def HasOwner_def C nstr_def plat_emit_def
  show "snd (RevokeAssignment ?ev (Some ada) (demo_uuid CHR ''c'') one_owner) = Inl ErrInvalidArgument" by (simp add: d)
  show "snd (RevokeAssignment ?ev (Some ada) (demo_uuid CHR ''C'') one_owner) = Inr ()" by (simp add: d)
  show "HasOwner ?ev (fst (RevokeAssignment ?ev (Some ada) (demo_uuid CHR ''C'') one_owner)) = Inr False" by (simp add: d)
qed

text \<open>An owner of one company passes the same check as an owner of everything, and can appoint an owner of everything.\<close>

lemma demo_bob_passes:
  "guard_require (demo_plat now c k) (Some bob) PermAssignOperators demo_installation =
     Inr (bob, [assignment_of (demo_plat now c k) True (demo_assignment CHR ''4'' CHR ''b'' (Some (demo_uuid CHR ''1'')))])"
  by (simp add: guard_require_def stillValid_def Assignments_def live_of_def userOf_def User_Active_def assignment_of_def
      Assignment_Live_def Role_Allows_def role_permissions_def RoleSupport_def RoleAdmin_def RoleOwner_def ownerPermissions_def
      installationPermissions_def)

lemma company_owner_appoints_installation_owner:
  "\<exists>a db. AssignOperator (demo_plat 1 CHR ''r'' CHR ''8'') (Some bob) \<lparr>AO_OperatorID = demo_uuid CHR ''b'', AO_OperatorUsername = [],
     AO_TenantSlug = [], AO_Role = ''owner'', AO_Reason = [], AO_ValidUntil = None\<rparr> demo_installation = (db, Inr a) \<and>
     (\<exists>r\<in>set (PD_assignments db). OA_operator_id r = demo_uuid CHR ''b'' \<and> OA_tenant_id r = None \<and> OA_role r = ''owner'')"
proof -
  have "TrimSpace [] = []" by code_simp
  then show ?thesis
    by (simp add: AssignOperator_def demo_bob_passes Role_Valid_def RoleOwner_def resolveTenant_def CreateAssignment_def new_assignment_def opt_uuid_def
        has_user_def plat_emit_def)
qed

text \<open>A disabled operator is refused by the other guards at once, but still lists every operator, and can still put an authenticator
  of theirs in place of the one they have.\<close>

definition bob_disabled :: PlatformDB where
  "bob_disabled = demo_installation\<lparr>PD_users := [demo_operator CHR ''a'' ''ada'',
     (demo_operator CHR ''b'' ''bob'')\<lparr>OU_status := ''disabled'', OU_token_epoch := 1, OU_totp_secret_enc := Some ''sealed'',
       OU_totp_enrolled_at := Some 0\<rparr>]\<rparr>"

lemma disabled_operator_lists: "guard_requireAny (demo_plat 1 CHR ''r'' CHR ''8'') (Some bob) bob_disabled = Inr bob"
  "live_caller (demo_plat 1 CHR ''r'' CHR ''8'') (Some bob) bob_disabled = Inl ErrUnauthenticated"
  by (simp_all add: guard_requireAny_def Assignments_def live_of_def bob_disabled_def assignment_of_def Assignment_Live_def live_caller_def
      stillValid_def userOf_def User_Active_def)

lemma disabled_operator_replaces_authenticator:
  "\<exists>db x s. BeginTOTPEnrolment (demo_plat 1 CHR ''r'' CHR ''8'') (Some bob) bob_disabled = (db, Inr x) \<and>
     map OU_totp_secret_enc (PD_users db) = [None, Some s] \<and> s \<noteq> ''sealed''"
proof -
  let ?ev = "demo_plat 1 CHR ''r'' CHR ''8''"
  have "(case SealSecret toy_aead (Some (replicate 12 CHR ''r'')) ''master'' (demo_uuid CHR ''b'') (replicate 20 CHR ''r'') of
      None \<Rightarrow> False | Some s \<Rightarrow> s \<noteq> ''sealed'')" by code_simp
  then obtain s where "SealSecret toy_aead (Some (replicate 12 CHR ''r'')) ''master'' (demo_uuid CHR ''b'') (replicate 20 CHR ''r'') = Some s" "s \<noteq> ''sealed''"
    by (auto split: option.splits)
  then show ?thesis
    by (simp add: BeginTOTPEnrolment_def bob_disabled_def StageTOTPSecret_def on_user_def userOf_def demo_operator_def)
qed

text \<open>An owner whose account is disabled counts as one who is left: the only owner able to act can be removed.\<close>

definition owner_and_disabled_owner :: PlatformDB where
  "owner_and_disabled_owner = bob_disabled\<lparr>PD_assignments := [demo_assignment CHR ''3'' CHR ''a'' None, demo_assignment CHR ''4'' CHR ''b'' None]\<rparr>"

lemma last_able_owner_removed:
  "lastOwnerCheck (demo_plat 1 CHR ''r'' CHR ''8'') (demo_uuid CHR ''3'') owner_and_disabled_owner = Inr ()"
  by (simp add: lastOwnerCheck_def Assignments_def owner_and_disabled_owner_def Assignment_Global_def Assignment_Live_def assignment_of_def
      RoleOwner_def nstr_def)

text \<open>Revoking a credential nobody has is answered and recorded as a success.\<close>

lemma revoking_no_key_succeeds:
  "snd (Platform_RevokeAPIKey (demo_plat 1 CHR ''r'' CHR ''8'') (Some ada) (demo_uuid CHR ''0'') demo_installation) = Inr ()"
  "PD_keys demo_installation = []"
  by (simp add: Platform_RevokeAPIKey_def demo_owner_passes RevokePlatformAPIKey_def) (simp add: demo_installation_def)

end
