(* ===== verification/Operator_Safety.thy ===== *)
theory Operator_Safety
  imports Operator_Examples
begin

text \<open>
  What the control plane guarantees: what the administration guard lets through, that a token superseded by a disabled
  account or a new password is dead on every guarded call, that authority comes only from those who hold it, and that an
  operator's refresh chain is single-use; then, on a small installation, where the code does less than it says.
\<close>

section \<open>What the guards let through\<close>

lemma OperatorStanding_iff:
  assumes "plat_wf db"
  shows "(\<exists>e. OperatorStanding ev x db = Inr (True, e) \<and> e = n) \<longleftrightarrow> \<not> Pe_fails ev PlatformUserByIDS \<and>
    (\<exists>r\<in>set (PD_users db). ParseUUID x = Some (OU_id r) \<and> OU_status r = ''active'' \<and> OU_token_epoch r = n)" (is "?L \<longleftrightarrow> ?R")
proof
  assume ?L
  then obtain who h where w: "PlatformUserByID ev x db = Inr (Some (who, h))" "User_Active who" "PU_TokenEpoch who = n"
    by (auto simp: OperatorStanding_def split: sum.splits option.splits)
  then have "\<not> Pe_fails ev PlatformUserByIDS" by (auto simp: PlatformUserByID_def store_Inr)
  with user_row [OF assms w(1)] w(2,3) show ?R by (auto simp: userOf_def User_Active_def)
next
  assume ?R
  with user_by_id [OF assms] show ?L by (auto simp: OperatorStanding_def prun_def userOf_def User_Active_def)
qed

lemma admin_guard_rows:
  assumes wf: "plat_wf db" and ok: "env_ok ev" and tree: "\<And>x n y. company_below (Pe_tenants ev) n x y \<Longrightarrow> n \<le> max_depth"
  shows "requirePlatform ev p permission db = Inr q \<longleftrightarrow> q = p \<and> \<not> Pe_fails ev PlatformUserByIDS \<and> \<not> Pe_fails ev AssignmentsForOperatorS \<and>
    (\<exists>u\<in>set (PD_users db). ParseUUID (Pr_IdentityID p) = Some (OU_id u) \<and> OU_status u = ''active'' \<and> OU_token_epoch u = Pr_Epoch p \<and>
      (\<exists>a\<in>set (PD_assignments db). OA_operator_id a = OU_id u \<and> in_force a (pe_now ev) \<and> Role_Allows (OA_role a) permission \<and>
        (if Pr_TenantID p = [] then OA_tenant_id a = None \<and> InstallationScoped permission else reaches (Pe_tenants ev) a (Pr_TenantID p))))"
    (is "?L \<longleftrightarrow> ?R")
proof (cases "\<not> Pe_fails ev PlatformUserByIDS \<and>
    (\<exists>r\<in>set (PD_users db). ParseUUID (Pr_IdentityID p) = Some (OU_id r) \<and> OU_status r = ''active'' \<and> OU_token_epoch r = Pr_Epoch p)")
  case False
  with OperatorStanding_iff [OF wf] have "\<not> ?L"
    by (auto simp: requirePlatform_def split: sum.splits prod.splits if_splits)
  with False show ?thesis by blast
next
  case True
  then obtain u where u: "u \<in> set (PD_users db)" "ParseUUID (Pr_IdentityID p) = Some (OU_id u)" "OU_status u = ''active''"
      "OU_token_epoch u = Pr_Epoch p" and f: "\<not> Pe_fails ev PlatformUserByIDS" by blast
  have st: "OperatorStanding ev (Pr_IdentityID p) db = Inr (True, Pr_Epoch p)" using OperatorStanding_iff [OF wf] True by blast
  have one: "v = u" if "v \<in> set (PD_users db)" "ParseUUID (Pr_IdentityID p) = Some (OU_id v)" for v
    using one_row [OF wf that(1) u(1)] that(2) u(2) by simp
  let ?M = "filter (\<lambda>r. OA_operator_id r = OU_id u \<and> OA_revoked_at r = None) (PD_assignments db)"
  have act: "list_ex (\<lambda>w. OU_id w = OU_id u \<and> OU_status w = ''active'') (PD_users db)" using u by (auto simp: list_ex_iff)
  have mine: "AssignmentsForOperator ev (Pr_IdentityID p) db = prun ev AssignmentsForOperatorS (Inr (map (assignment_of ev False) ?M))"
    using env_okD(2) [OF ok u(2)] act by (simp add: AssignmentsForOperator_def by_uuid_def)
  have ne: "OA_tenant_id a \<noteq> Some []" if "a \<in> set (PD_assignments db)" for a using wf that by (simp add: plat_wf_def)
  have rev: "in_force a now \<Longrightarrow> OA_revoked_at a = None" for a now by (simp add: in_force_def)
  have glob: "list_ex (\<lambda>a. Assignment_Global a \<and> Assignment_Live a now \<and> Role_Allows (AR_Role a) permission) (map (assignment_of ev False) ?M) \<longleftrightarrow>
      (\<exists>a\<in>set (PD_assignments db). OA_operator_id a = OU_id u \<and> in_force a now \<and> Role_Allows (OA_role a) permission \<and> OA_tenant_id a = None)" for now
    using ne rev by (auto simp: list_ex_iff assignment_of_iffs)
  have cov: "list_ex (\<lambda>a. Assignment_Covers a t now \<and> Role_Allows (AR_Role a) permission) (map (assignment_of ev False) ?M) \<longleftrightarrow>
      (\<exists>a\<in>set (PD_assignments db). OA_operator_id a = OU_id u \<and> in_force a now \<and> Role_Allows (OA_role a) permission \<and> reaches (Pe_tenants ev) a t)"
    if "t \<noteq> []" for now t
    using ne rev covers_iff [OF _ that tree] by (auto simp: list_ex_iff assignment_of_iffs)
  have wide: "OA_tenant_id a = None \<Longrightarrow> reaches ts a t" for a ts t by (simp add: reaches_def)
  show ?thesis
  proof (cases "Pe_fails ev AssignmentsForOperatorS")
    case True
    then show ?thesis by (simp add: requirePlatform_def st mine prun_def)
  next
    case False
    then have L: "?L \<longleftrightarrow> q = p \<and> (\<exists>a\<in>set (PD_assignments db). OA_operator_id a = OU_id u \<and> in_force a (pe_now ev) \<and> Role_Allows (OA_role a) permission \<and>
        (if Pr_TenantID p = [] then OA_tenant_id a = None \<and> InstallationScoped permission else reaches (Pe_tenants ev) a (Pr_TenantID p)))"
      using wide by (auto simp: requirePlatform_def st mine prun_def Let_def glob cov)
    show ?thesis unfolding L using f False u one by blast
  qed
qed

text \<open>C24. The administration guard lets through exactly whom it should. A call passes when the caller is an operator, the account is active
  and on the epoch its token was minted in, and the operator holds an assignment, neither revoked nor expired, whose role
  carries the permission and which reaches the tenant being worked in: every tenant, that tenant, or a company above it in the
  tree. With no tenant selected only an assignment over the whole installation passes, and only for what belongs to the installation.
  A caller who is not an operator never passes. When the database fails to answer, nobody does.\<close>

theorem admin_guard_exact:
  assumes "plat_wf db" and "env_ok ev" and "\<And>x n y. company_below (Pe_tenants ev) n x y \<Longrightarrow> n \<le> max_depth"
  shows "guard_Require ev ctx permission db = Inr p \<longleftrightarrow>
    ctx = Some p \<and> Pr_Platform p \<and> \<not> Pe_fails ev PlatformUserByIDS \<and> \<not> Pe_fails ev AssignmentsForOperatorS \<and>
    (\<exists>u\<in>set (PD_users db). ParseUUID (Pr_IdentityID p) = Some (OU_id u) \<and> OU_status u = ''active'' \<and> OU_token_epoch u = Pr_Epoch p \<and>
      (\<exists>a\<in>set (PD_assignments db). OA_operator_id a = OU_id u \<and> in_force a (pe_now ev) \<and> Role_Allows (OA_role a) permission \<and>
        (if Pr_TenantID p = [] then OA_tenant_id a = None \<and> InstallationScoped permission else reaches (Pe_tenants ev) a (Pr_TenantID p))))"
proof (cases ctx)
  case None
  then show ?thesis by (simp add: guard_Require_def)
next
  case (Some q)
  show ?thesis
  proof (cases "Pr_Platform q")
    case True
    with Some show ?thesis
      using admin_guard_rows [where p = q and q = p and permission = permission, OF assms] by (auto simp: guard_Require_def)
  next
    case False
    with Some show ?thesis by (auto simp: guard_Require_def)
  qed
qed

text \<open>Bob, who owns \<^verbatim>\<open>acme\<close>, administers the company below it.\<close>

theorem admin_guard_exact_witness:
  "guard_Require (demo_plat 1 CHR ''r'' CHR ''8'') (Some (demo_caller CHR ''b'' (demo_uuid CHR ''2''))) ''anubis:role:admin'' demo_installation =
     Inr (demo_caller CHR ''b'' (demo_uuid CHR ''2''))"
proof -
  let ?ev = "demo_plat 1 CHR ''r'' CHR ''8''"
  have ok: "env_ok ?ev" by (rule demo_env_ok) simp
  have tree: "company_below (Pe_tenants ?ev) n x y \<Longrightarrow> n \<le> max_depth" for n x y by (simp add: demo_tree_shallow)
  have "company_below demo_tree 1 (demo_uuid CHR ''1'') (demo_uuid CHR ''2'')"
    using company_below.child [of "demo_tree ! 1" demo_tree "demo_uuid CHR ''1''"] by (simp add: demo_tree_def)
  then have below: "\<exists>n. company_below demo_tree n (demo_uuid CHR ''1'') (demo_uuid CHR ''2'')" by blast
  have "Role_Allows ''owner'' ''anubis:role:admin''" by code_simp
  with below show ?thesis
    by (subst admin_guard_exact [OF demo_installation_ok ok tree]) (simp_all add: in_force_def reaches_def)
qed

section \<open>Superseded tokens are dead\<close>

text \<open>A call that ends what an operator had open: their account is disabled, or their password reset or changed.\<close>

definition superseding :: "PlatformEnv \<Rightarrow> plat_call \<Rightarrow> PlatformDB \<Rightarrow> string \<Rightarrow> bool" where
  "superseding ev c db u \<longleftrightarrow>
     (\<exists>ctx x. c = StatusC ctx x ''disabled'' \<and> Pe_uuid ev x = Some u \<and> snd (SetOperatorStatus ev ctx x ''disabled'' db) = Inr ()) \<or>
     (\<exists>ctx x t. c = ResetC ctx x \<and> ParseUUID x = Some u \<and> snd (ResetOperatorPassword ev ctx x db) = Inr t) \<or>
     (\<exists>q x y. c = PasswordC (Some q) x y \<and> ParseUUID (Pr_IdentityID q) = Some u \<and> snd (ChangePassword ev (Some q) x y db) = Inr ())"

lemma bump_moves_past:
  assumes "r \<in> set (PD_users db)" "OU_id r = u" "e \<le> OU_token_epoch r"
  shows "SetStatus ev x ''disabled'' db = Inr db' \<Longrightarrow> Pe_uuid ev x = Some u \<Longrightarrow> moved_past u e db'"
    and "SetPassword ev x h db = Inr db' \<Longrightarrow> Pe_uuid ev x = Some u \<Longrightarrow> moved_past u e db'"
proof -
  have m: "moved_past u e (on_user u f db)" if "OU_id (f r) = u" "e < OU_token_epoch (f r)" for f
    unfolding moved_past_def using that assms(1,2) by (intro bexI [of _ "f r"]) (auto simp: image_iff)
  show "SetStatus ev x ''disabled'' db = Inr db' \<Longrightarrow> Pe_uuid ev x = Some u \<Longrightarrow> moved_past u e db'"
    using assms(2,3) by (auto simp: SetStatus_def store_Inr split: if_splits intro!: m [unfolded assms(2) [symmetric]])
  show "SetPassword ev x h db = Inr db' \<Longrightarrow> Pe_uuid ev x = Some u \<Longrightarrow> moved_past u e db'"
    using assms(2,3) by (auto simp: SetPassword_def store_Inr split: if_splits intro!: m [unfolded assms(2) [symmetric]])
qed

lemma moved_past_emit [simp]: "moved_past u e (plat_emit x db) \<longleftrightarrow> moved_past u e db"
  by (simp add: moved_past_def)

lemma superseding_moves_past:
  assumes wf: "plat_wf db" and ok: "env_ok ev" and r: "r \<in> set (PD_users db)" "OU_id r = u" "e \<le> OU_token_epoch r"
    and s: "superseding ev c db u"
  shows "moved_past u e (plat_step db (ev, c))"
proof -
  note b = bump_moves_past [OF r]
  have uu: "PU_ID who = u \<and> Pe_uuid ev u = Some u" if "PlatformUserByID ev x db = Inr (Some (who, h))" "ParseUUID x = Some u" for x who h
    using user_row [OF wf that(1)] that(2) ParseUUID_canonical [OF that(2)] env_okD(2) [OF ok] by (auto simp: userOf_def)
  from s consider ctx x where "c = StatusC ctx x ''disabled''" "Pe_uuid ev x = Some u" "snd (SetOperatorStatus ev ctx x ''disabled'' db) = Inr ()"
    | ctx x t where "c = ResetC ctx x" "ParseUUID x = Some u" "snd (ResetOperatorPassword ev ctx x db) = Inr t"
    | q x y where "c = PasswordC (Some q) x y" "ParseUUID (Pr_IdentityID q) = Some u" "snd (ChangePassword ev (Some q) x y db) = Inr ()"
    unfolding superseding_def by blast
  then show ?thesis
  proof cases
    case 1
    then obtain db' y where "SetStatus ev x ''disabled'' db = Inr db'" "plat_step db (ev, c) = plat_emit y db'"
      by (auto simp: plat_step_def SetOperatorStatus_def split: sum.splits prod.splits if_splits)
    with b(1) 1(2) show ?thesis by simp
  next
    case 2
    then obtain who h h' db' y where "PlatformUserByID ev x db = Inr (Some (who, h))" "SetPassword ev (PU_ID who) h' db = Inr db'"
        "plat_step db (ev, c) = plat_emit y db'"
      by (auto simp: plat_step_def ResetOperatorPassword_def split: sum.splits prod.splits if_splits option.splits)
    with b(2) uu 2(2) show ?thesis by fastforce
  next
    case 3
    then obtain z who h h' db' w where "live_caller ev (Some q) db = Inr z" "PlatformUserByID ev (Pr_IdentityID (fst z)) db = Inr (Some (who, h))"
        "SetPassword ev (PU_ID who) h' db = Inr db'" "plat_step db (ev, c) = plat_emit w db'"
      by (auto simp: plat_step_def ChangePassword_def split: sum.splits prod.splits if_splits option.splits)
    moreover from this(1) have "fst z = q" by (auto simp: live_caller_def and_then_Inr split: if_splits)
    ultimately show ?thesis using b(2) uu 3(2) by fastforce
  qed
qed

text \<open>C25. Disabling an operator, resetting or changing a password takes effect at once, and for good, wherever the account is checked. A
  token minted for that operator before the call, at the epoch the account was on or an older one, fails three guards
  from then on, whatever else happens afterwards, re-enabling the account included: \<open>Require\<close>, which
  administration calls inside a tenant ask; \<open>require\<close>, before creating, appointing, disabling and resetting operators, revoking
  assignments and handling platform API keys; and the check before changing one's own password and before
  listing the tenants one may enter. Not covered, because the code does not check there: listing operators and the two steps of
  enrolling one's own authenticator, which still accept such a token, and refreshing, which goes by the refresh token
  (recorded as findings). Calls in between run with working environments on a well-formed store.\<close>

theorem superseded_tokens_dead:
  assumes "plat_wf db" and "env_ok ev" and "\<forall>a\<in>set as. env_ok (fst a)"
    and "superseding ev c db u" and "ParseUUID (Pr_IdentityID p) = Some u"
    and "\<exists>r\<in>set (PD_users db). OU_id r = u \<and> Pr_Epoch p \<le> OU_token_epoch r"
  shows "(\<forall>x. guard_Require ev' (Some p) permission (plat_run (plat_step db (ev, c)) as) \<noteq> Inr x) \<and>
    (\<forall>x. guard_require ev' (Some p) permission (plat_run (plat_step db (ev, c)) as) \<noteq> Inr x) \<and>
    (\<forall>x. live_caller ev' (Some p) (plat_run (plat_step db (ev, c)) as) \<noteq> Inr x)"
proof -
  let ?db = "plat_run (plat_step db (ev, c)) as"
  from assms(6) obtain r where "r \<in> set (PD_users db)" "OU_id r = u" "Pr_Epoch p \<le> OU_token_epoch r" by blast
  from superseding_moves_past [OF assms(1,2) this assms(4)] have m: "moved_past u (Pr_Epoch p) ?db" by (rule moved_past_run)
  have wf: "plat_wf ?db" using plat_wf_run [OF plat_wf_step [OF assms(1,2)] assms(3)] .
  note d = moved_past_refused [OF wf m assms(5)]
  obtain e where "requirePlatform ev' p permission ?db = Inl e" using d(2) by blast
  then show ?thesis by (auto simp: guard_Require_def guard_require_def live_caller_def d(1))
qed

theorem superseded_tokens_dead_witness:
  "\<forall>x. guard_Require (demo_plat 3 CHR ''r'' CHR ''8'') (Some bob) PermManageTenants
     (plat_run (plat_step demo_installation (demo_plat 1 CHR ''r'' CHR ''8'', StatusC (Some ada) (demo_uuid CHR ''b'') ''disabled''))
       [(demo_plat 2 CHR ''r'' CHR ''8'', StatusC (Some ada) (demo_uuid CHR ''b'') ''active'')]) \<noteq> Inr x"
proof -
  have ok: "env_ok (demo_plat now CHR ''r'' CHR ''8'')" for now by (rule demo_env_ok) simp
  have "snd (SetOperatorStatus (demo_plat 1 CHR ''r'' CHR ''8'') (Some ada) (demo_uuid CHR ''b'') ''disabled'' demo_installation) = Inr ()"
    by (simp add: SetOperatorStatus_def demo_owner_passes SetStatus_def has_user_def epoch_at_end_def)
  then have "superseding (demo_plat 1 CHR ''r'' CHR ''8'') (StatusC (Some ada) (demo_uuid CHR ''b'') ''disabled'') demo_installation (demo_uuid CHR ''b'')"
    by (simp add: superseding_def)
  from superseded_tokens_dead [OF demo_installation_ok ok _ this, of "[(demo_plat 2 CHR ''r'' CHR ''8'', StatusC (Some ada) (demo_uuid CHR ''b'') ''active'')]"
      bob "demo_plat 3 CHR ''r'' CHR ''8''" PermManageTenants]
  show ?thesis by (simp add: ok)
qed

section \<open>Where authority comes from\<close>

lemma assigner_role: "Role_Allows r PermAssignOperators \<longleftrightarrow> r = ''owner''"
  by (auto simp: Role_Allows_def role_permissions_def RoleSupport_def RoleAdmin_def RoleOwner_def supportPermissions_def adminPermissions_def
      operatorPermissions_def ownerPermissions_def installationPermissions_def PermAssignOperators_def)

lemma in_live_of:
  assumes "Assignments ev db = Inr all"
  shows "a \<in> set (live_of x now all) \<longleftrightarrow> (\<exists>r\<in>set (PD_assignments db). a = assignment_of ev True r \<and> OA_operator_id r = x \<and> in_force r now)"
  using assms by (auto simp: Assignments_def prun_Inr live_of_def assignment_of_iffs in_force_def) blast

text \<open>Who may pass the guard of the operators' administration.\<close>

lemma assigner_rows:
  assumes wf: "plat_wf db" and g: "guard_require ev ctx PermAssignOperators db = Inr (p, mine)"
  shows "ctx = Some p" "Pr_Platform p" "ParseUUID (Pr_IdentityID p) = Some (Pr_IdentityID p)"
    "\<exists>u\<in>set (PD_users db). OU_id u = Pr_IdentityID p \<and> OU_status u = ''active'' \<and> OU_token_epoch u = Pr_Epoch p"
    "\<exists>b\<in>set (PD_assignments db). OA_operator_id b = Pr_IdentityID p \<and> OA_role b = ''owner'' \<and> in_force b (pe_now ev)"
proof -
  from g obtain all where c: "ctx = Some p" "Pr_Platform p" "stillValid ev p db = Inr ()" "Assignments ev db = Inr all"
      and a: "list_ex (\<lambda>a. Role_Allows (AR_Role a) PermAssignOperators) (live_of (Pr_IdentityID p) (pe_now ev) all)"
    by (auto simp: guard_require_def and_then_Inr Let_def split: option.splits if_splits)
  from a show b: "\<exists>b\<in>set (PD_assignments db). OA_operator_id b = Pr_IdentityID p \<and> OA_role b = ''owner'' \<and> in_force b (pe_now ev)"
    by (auto simp: list_ex_iff in_live_of [OF c(4)] assignment_of_iffs assigner_role) blast
  then show i: "ParseUUID (Pr_IdentityID p) = Some (Pr_IdentityID p)" using wf by (auto simp: plat_wf_def)
  from c(3) i show "\<exists>u\<in>set (PD_users db). OU_id u = Pr_IdentityID p \<and> OU_status u = ''active'' \<and> OU_token_epoch u = Pr_Epoch p"
    unfolding stillValid_iff [OF wf] by auto
  show "ctx = Some p" "Pr_Platform p" using c by simp_all
qed

text \<open>The call that wrote an assignment: the first owner's, or one by an operator who was then an owner.\<close>

definition appoints :: "PlatformEnv \<Rightarrow> plat_call \<Rightarrow> PlatformDB \<Rightarrow> AssignmentRow \<Rightarrow> bool" where
  "appoints ev c db a \<longleftrightarrow>
     (\<exists>x y z. c = OwnerC x y z) \<and> (\<forall>b\<in>set (PD_assignments db). \<not> (OA_tenant_id b = None \<and> OA_role b = ''owner'' \<and> OA_revoked_at b = None)) \<or>
     (\<exists>p. ((\<exists>i. c = CreateC (Some p) i) \<or> (\<exists>j. c = AssignC (Some p) j)) \<and> Pr_Platform p \<and> OA_granted_by a = Some (Pr_IdentityID p) \<and>
       (\<exists>u\<in>set (PD_users db). OU_id u = Pr_IdentityID p \<and> OU_status u = ''active'' \<and> OU_token_epoch u = Pr_Epoch p) \<and>
       (\<exists>b\<in>set (PD_assignments db). OA_operator_id b = Pr_IdentityID p \<and> OA_role b = ''owner'' \<and> in_force b (pe_now ev)))"

lemma granted_appoints:
  assumes wf: "plat_wf db" and g: "granted ev c db a"
  shows "appoints ev c db a"
proof -
  from g consider ctx p mine where "(\<exists>i. c = CreateC ctx i) \<or> (\<exists>j. c = AssignC ctx j)" "guard_require ev ctx PermAssignOperators db = Inr (p, mine)"
      "OA_granted_by a = ParseUUID (Pr_IdentityID p)"
    | x y z where "c = OwnerC x y z" "HasOwner ev db = Inr False"
    unfolding granted_def by_assigner_def by blast
  then show ?thesis
  proof cases
    case 1
    note r = assigner_rows [OF wf 1(2)]
    show ?thesis unfolding appoints_def using 1(1,3) r by (intro disjI2 exI [of _ p]) auto
  next
    case 2
    then show ?thesis by (auto simp: appoints_def HasOwner_def prun_Inr list_ex_iff)
  qed
qed

lemma same_grant_appoints: "same_grant a0 a \<Longrightarrow> appoints ev c db a0 \<Longrightarrow> appoints ev c db a"
  using same_grant_fields [of a0 a] by (simp add: appoints_def)

text \<open>C26. Authority over operators comes only from those who hold it. However an installation has been used since it was empty, every
  assignment in it was written by one call: the creation of the first owner, at a moment when nobody was owner of the installation,
  or a request of the operator it names as its granter, who at that moment had an active account, a token of its
  current epoch and an assignment as owner in force. Nothing else ever writes one.\<close>

theorem authority_chain:
  assumes "\<forall>x\<in>set as. env_ok (fst x)" and "a \<in> set (PD_assignments (plat_run empty_plat as))"
  shows "\<exists>bs ev c cs. as = bs @ (ev, c) # cs \<and> appoints ev c (plat_run empty_plat bs) a \<and>
    OA_id a \<notin> OA_id ` set (PD_assignments (plat_run empty_plat bs)) \<and>
    OA_id a \<in> OA_id ` set (PD_assignments (plat_step (plat_run empty_plat bs) (ev, c)))"
  using assms
proof (induction as arbitrary: a rule: rev_induct)
  case Nil
  then show ?case by (simp add: empty_plat_def)
next
  case (snoc x as)
  obtain ev c where x: "x = (ev, c)" by fastforce
  let ?db = "plat_run empty_plat as"
  have wf: "plat_wf ?db" using plat_wf_run [OF plat_wf_empty] snoc.prems(1) by simp
  have now: "a \<in> set (PD_assignments (plat_step ?db (ev, c)))" using snoc.prems(2) x by simp
  from moves_assignments [OF plat_step_moves now] consider a0 where "a0 \<in> set (PD_assignments ?db)" "same_grant a0 a" | "granted ev c ?db a" by blast
  then show ?case
  proof cases
    case 1
    from snoc.prems(1) have "\<forall>x\<in>set as. env_ok (fst x)" by simp
    from snoc.IH [OF this 1(1)] obtain bs ev' c' cs where "as = bs @ (ev', c') # cs" "appoints ev' c' (plat_run empty_plat bs) a0"
        "OA_id a0 \<notin> OA_id ` set (PD_assignments (plat_run empty_plat bs))"
        "OA_id a0 \<in> OA_id ` set (PD_assignments (plat_step (plat_run empty_plat bs) (ev', c')))" by blast
    with same_grant_appoints [OF 1(2)] same_grant_fields [OF 1(2)] show ?thesis
      by (intro exI [of _ bs] exI [of _ ev'] exI [of _ c'] exI [of _ "cs @ [x]"]) simp
  next
    case 2
    then have "OA_id a \<notin> OA_id ` set (PD_assignments ?db)" by (simp add: granted_def)
    with granted_appoints [OF wf 2] now show ?thesis
      by (intro exI [of _ as] exI [of _ ev] exI [of _ c] exI [of _ "[]"]) (simp add: x)
  qed
qed

theorem authority_chain_witness:
  "\<exists>a bs ev c cs. [(demo_plat 1 CHR ''r'' CHR ''a'', OwnerC ''ada'' [] ''correct horse'')] = bs @ (ev, c) # cs \<and>
     appoints ev c (plat_run empty_plat bs) a"
proof -
  let ?ev = "demo_plat 1 CHR ''r'' CHR ''a''"
  let ?as = "[(?ev, OwnerC ''ada'' [] ''correct horse'')]"
  obtain h where h: "kdf_Hash demo_kdf (Some (replicate saltLen CHR ''r'')) ''correct horse'' = Some h" using demo_kdf_hashes by blast
  have "operator_name_ok ''ada''" by code_simp
  with h obtain a where a: "a \<in> set (PD_assignments (plat_run empty_plat ?as))"
    by (auto simp: plat_step_def CreatePlatformOwner_def WithinTx_def tx_env_def owner_tx_def HasOwner_def CreatePlatformUser_def CreateAssignment_def
        new_assignment_def opt_uuid_def Role_Valid_def has_user_def empty_plat_def)
  have "\<forall>x\<in>set ?as. env_ok (fst x)" by (simp add: demo_env_ok)
  from authority_chain [OF this a] show ?thesis by blast
qed

section \<open>The last owner\<close>

definition owner_in_force :: "time \<Rightarrow> PlatformDB \<Rightarrow> bool" where
  "owner_in_force now db \<longleftrightarrow> (\<exists>a\<in>set (PD_assignments db). OA_tenant_id a = None \<and> OA_role a = ''owner'' \<and> in_force a now)"

lemma moves_keep_assignments:
  "plat_moves ev c db0 db \<Longrightarrow> \<forall>ctx x. c \<noteq> RevokeC ctx x \<Longrightarrow> set (PD_assignments db0) \<subseteq> set (PD_assignments db)"
proof (induction rule: plat_moves.induct)
  case (assign db a aid db')
  from CreateAssignment_rows [OF assign.hyps(3)] assign.IH [OF assign.prems] show ?case by auto
qed ((drule assignment_writes(3-16), simp) | simp add: assignment_writes(1,2))+

lemma another_of_two:
  assumes "distinct (map f xs)" "a \<in> set xs" "1 < length xs"
  shows "\<exists>b\<in>set xs. f b \<noteq> f a"
proof (rule ccontr)
  assume "\<not> ?thesis"
  then have "set (map f xs) \<subseteq> {f a}" by auto
  then have "card (set (map f xs)) \<le> 1" using card_mono [of "{f a}" "set (map f xs)"] by simp
  with distinct_card [OF assms(1)] assms(3) show False by simp
qed

lemma revoking_leaves_an_owner:
  assumes wf: "plat_wf db" and u: "Pe_uuid ev x = Some x" and o: "owner_in_force (pe_now ev) db"
  shows "owner_in_force (pe_now ev) (fst (RevokeAssignment ev ctx x db))"
proof (cases "\<exists>db'. lastOwnerCheck ev x db = Inr () \<and> Store_RevokeAssignment ev x db = Inr db' \<and>
    PD_assignments (fst (RevokeAssignment ev ctx x db)) = PD_assignments db'")
  case False
  then have "fst (RevokeAssignment ev ctx x db) = db" by (auto simp: RevokeAssignment_def split: sum.split prod.split)
  with o show ?thesis by simp
next
  case True
  then obtain db' where c: "lastOwnerCheck ev x db = Inr ()" "Store_RevokeAssignment ev x db = Inr db'"
      and p: "PD_assignments (fst (RevokeAssignment ev ctx x db)) = PD_assignments db'" by blast
  let ?P = "\<lambda>a. OA_tenant_id a = None \<and> OA_role a = ''owner'' \<and> in_force a (pe_now ev)"
  let ?L = "filter ?P (PD_assignments db)"
  have kept: "a \<in> set (PD_assignments db')" if "a \<in> set (PD_assignments db)" "OA_id a \<noteq> x" for a
    using c(2) that u by (auto simp: Store_RevokeAssignment_def store_Inr image_iff intro!: bexI [of _ a] split: if_splits)
  have ne: "OA_tenant_id a \<noteq> Some []" if "a \<in> set (PD_assignments db)" for a using wf that by (simp add: plat_wf_def)
  have owning: "filter (\<lambda>a. Assignment_Global a \<and> AR_Role a = RoleOwner \<and> Assignment_Live a (pe_now ev)) (map (assignment_of ev True)
      (filter (\<lambda>r. OA_revoked_at r = None) (PD_assignments db))) = map (assignment_of ev True) ?L"
    unfolding filter_map filter_filter o_def
    by (rule arg_cong [where f = "map _"], rule filter_cong) (auto simp: assignment_of_iffs ne RoleOwner_def in_force_def)
  have two: "1 < length ?L" if "a \<in> set ?L" "OA_id a = x" for a
  proof -
    have "AR_ID (assignment_of ev True a) = x" using that(2) by (simp add: assignment_of_def)
    with that(1) have "list_ex (\<lambda>a. AR_ID a = x) (map (assignment_of ev True) ?L)" unfolding list_ex_iff by auto
    with c(1) show ?thesis by (auto simp: lastOwnerCheck_def Assignments_def and_then_Inr prun_Inr Let_def owning split: if_splits)
  qed
  from o obtain a where a: "a \<in> set ?L" by (auto simp: owner_in_force_def)
  obtain b where "b \<in> set ?L" "OA_id b \<noteq> x"
  proof (cases "OA_id a = x")
    case True
    have "distinct (map OA_id ?L)" using wf by (simp add: plat_wf_def distinct_map_filter)
    from another_of_two [OF this a two [OF a True]] True that show ?thesis by auto
  qed (use a that in blast)
  with kept p show ?thesis by (auto simp: owner_in_force_def)
qed

text \<open>C27. No call takes the installation's last owner away. Where an owner of the whole installation is in force when a call comes,
  one still is after it, whatever the call and whoever makes it; for the revocation of an assignment this holds when the
  assignment is named by the canonical text of its id.\<close>

theorem last_owner_kept:
  assumes "plat_wf db" and "\<And>ctx x. c = RevokeC ctx x \<Longrightarrow> Pe_uuid ev x = Some x" and "owner_in_force (pe_now ev) db"
  shows "owner_in_force (pe_now ev) (plat_step db (ev, c))"
proof (cases "\<exists>ctx x. c = RevokeC ctx x")
  case True
  then show ?thesis using revoking_leaves_an_owner [OF assms(1) _ assms(3)] assms(2) by (auto simp: plat_step_def)
next
  case False
  with moves_keep_assignments [OF plat_step_moves] assms(3) show ?thesis unfolding owner_in_force_def by blast
qed

theorem last_owner_kept_witness:
  "owner_in_force 1 (plat_step demo_installation (demo_plat 1 CHR ''r'' CHR ''8'', RevokeC (Some ada) (demo_uuid CHR ''3'')))"
proof -
  have "owner_in_force 1 demo_installation" by (simp add: owner_in_force_def in_force_def)
  then show ?thesis using last_owner_kept [OF demo_installation_ok, of "RevokeC (Some ada) (demo_uuid CHR ''3'')" "demo_plat 1 CHR ''r'' CHR ''8''"] by auto
qed

section \<open>An operator's refresh chain\<close>

definition used_up :: "string \<Rightarrow> PlatformDB \<Rightarrow> bool" where
  "used_up h db \<longleftrightarrow> (\<forall>r\<in>set (PD_refresh db). OR_token_hash r = h \<longrightarrow> \<not> unspent r)"

definition ended :: "string \<Rightarrow> PlatformDB \<Rightarrow> bool" where
  "ended f db \<longleftrightarrow> (\<forall>r\<in>set (PD_refresh db). OR_family_id r = f \<longrightarrow> \<not> unspent r)"

text \<open>The random source draws another token than the one with this hash.\<close>

definition draws_apart :: "string \<Rightarrow> PlatformEnv \<Rightarrow> bool" where
  "draws_apart h ev \<longleftrightarrow> (case secret_New (pe_is ev) 0 32 of None \<Rightarrow> True | Some rt \<Rightarrow> Is_hash (pe_is ev) rt \<noteq> h)"

lemma used_up_step:
  assumes "used_up h db" "draws_apart h ev"
  shows "used_up h (plat_step db (ev, c))"
  unfolding used_up_def
proof (intro ballI impI notI)
  fix r assume r: "r \<in> set (PD_refresh (plat_step db (ev, c)))" "OR_token_hash r = h" "unspent r"
  from moves_refresh [OF plat_step_moves r(1)] show False
  proof
    assume "\<exists>r0\<in>set (PD_refresh db). same_link r0 r"
    with assms(1) r(2,3) show False by (auto simp: used_up_def same_link_def)
  next
    assume "new_link ev db r"
    with assms(2) r(2) show False by (auto simp: new_link_def draws_apart_def)
  qed
qed

lemma used_up_run: "used_up h db \<Longrightarrow> \<forall>a\<in>set as. draws_apart h (fst a) \<Longrightarrow> used_up h (plat_run db as)"
  by (induction as arbitrary: db) (simp, metis list.set_intros plat_run_simps(2) prod.collapse used_up_step)

lemma ended_step:
  assumes "plat_wf db" "ended f db" "Pe_newid ev CreateRefreshFamilyS \<noteq> f"
  shows "ended f (plat_step db (ev, c))"
  unfolding ended_def
proof (intro ballI impI notI)
  fix r assume r: "r \<in> set (PD_refresh (plat_step db (ev, c)))" "OR_family_id r = f" "unspent r"
  have wf: "ParseUUID (OR_family_id r0) = Some (OR_family_id r0)" if "r0 \<in> set (PD_refresh db)" for r0
    using assms(1) that by (simp add: plat_wf_def)
  from moves_refresh [OF plat_step_moves r(1)] show False
  proof
    assume "\<exists>r0\<in>set (PD_refresh db). same_link r0 r"
    with assms(2) r(2,3) show False by (auto simp: ended_def same_link_def)
  next
    assume "new_link ev db r"
    with assms(3) r(2) obtain r0 where "r0 \<in> set (PD_refresh db)" "unspent r0" "ParseUUID (OR_family_id r0) = Some f"
      by (auto simp: new_link_def)
    with wf assms(2) show False by (auto simp: ended_def)
  qed
qed

lemma ended_run:
  "plat_wf db \<Longrightarrow> ended f db \<Longrightarrow> \<forall>a\<in>set as. env_ok (fst a) \<and> Pe_newid (fst a) CreateRefreshFamilyS \<noteq> f \<Longrightarrow> ended f (plat_run db as)"
proof (induction as arbitrary: db)
  case (Cons a as)
  obtain ev c where a: "a = (ev, c)" by fastforce
  with Cons.prems have "plat_wf (plat_step db a)" "ended f (plat_step db a)" by (auto intro: plat_wf_step ended_step)
  with Cons show ?case by simp
qed simp

lemma link_by_hash:
  assumes "plat_wf db" "r \<in> set (PD_refresh db)" "r' \<in> set (PD_refresh db)" "OR_token_hash r = OR_token_hash r'"
  shows "r = r'"
  using assms by (auto simp: plat_wf_def links_ok_def distinct_map inj_on_def)

lemma Refresh_opens:
  assumes "Platform_Refresh ev t db = (db', Inr s)"
  obtains r db1 where "r \<in> set (PD_refresh db)" "OR_token_hash r = Is_hash (pe_is ev) t" "unspent r" "\<not> After (pe_now ev) (OR_expires_at r)"
    "ConsumeRefresh ev (OR_id r) db = Inr (True, db1)" "rotate ev (refresh_of r) (pe_now ev) db1 = Inr (s, db')"
proof -
  from assms obtain rec db1 where a: "Store_RefreshByHash ev (Is_hash (pe_is ev) t) db = Inr (Some rec)" "\<not> After (pe_now ev) (PF_ExpiresAt rec)"
      "\<not> Refresh_Spent rec" "ConsumeRefresh ev (PF_ID rec) db = Inr (True, db1)" "rotate ev rec (pe_now ev) db1 = Inr (s, db')"
    by (auto simp: Platform_Refresh_def Let_def split: sum.splits option.splits prod.splits if_splits)
  from Store_RefreshByHash_row [OF a(1)] obtain r where "r \<in> set (PD_refresh db)" "OR_token_hash r = Is_hash (pe_is ev) t" "rec = refresh_of r" by blast
  with a that [of r db1] show thesis by (auto simp: refresh_of_def Refresh_Spent_def unspent_def)
qed

lemma rotate_adds:
  assumes "rotate ev rec now db = Inr (s, db')"
  shows "\<exists>x. PD_refresh db' = PD_refresh db @ [x] \<and> OR_token_hash x \<notin> OR_token_hash ` set (PD_refresh db)"
  using assms refresh_adds(2) by (fastforce simp: rotate_def and_then_Inr split: sum.splits option.splits if_splits)

lemma Refresh_uses_up:
  assumes wf: "plat_wf db" and ok: "env_ok ev" and s: "Platform_Refresh ev t db = (db', Inr s)"
  shows "used_up (Is_hash (pe_is ev) t) db'"
proof -
  let ?h = "Is_hash (pe_is ev) t"
  from s obtain r db1 where r: "r \<in> set (PD_refresh db)" "OR_token_hash r = ?h" and c: "ConsumeRefresh ev (OR_id r) db = Inr (True, db1)"
      and ro: "rotate ev (refresh_of r) (pe_now ev) db1 = Inr (s, db')" by (rule Refresh_opens)
  have "Pe_uuid ev (OR_id r) = Some (OR_id r)" using wf r(1) env_okD(2) [OF ok] by (auto simp: plat_wf_def links_ok_def)
  with c have d1: "PD_refresh db1 = map (\<lambda>q. if OR_id q = OR_id r \<and> unspent q then q\<lparr>OR_used_at := Some (Pe_dbnow ev)\<rparr> else q) (PD_refresh db)"
    by (auto simp: ConsumeRefresh_def store_Inr)
  have one: "q = r" if "q \<in> set (PD_refresh db)" "OR_token_hash q = ?h" for q using link_by_hash [OF wf that(1) r(1)] that(2) r(2) by simp
  have u: "\<not> unspent q" if q: "q \<in> set (PD_refresh db1)" "OR_token_hash q = ?h" for q
  proof -
    from q(1) obtain q0 where q0: "q0 \<in> set (PD_refresh db)"
        "q = (if OR_id q0 = OR_id r \<and> unspent q0 then q0\<lparr>OR_used_at := Some (Pe_dbnow ev)\<rparr> else q0)" unfolding d1 by auto
    with q(2) have "OR_token_hash q0 = ?h" by (simp split: if_splits)
    with one q0(1) have "q0 = r" by blast
    with q0(2) show ?thesis by (simp add: unspent_def split: if_splits)
  qed
  have "map OR_token_hash (PD_refresh db1) = map OR_token_hash (PD_refresh db)" unfolding d1 by simp
  then have "OR_token_hash ` set (PD_refresh db1) = OR_token_hash ` set (PD_refresh db)" by (metis list.set_map)
  with r have "?h \<in> OR_token_hash ` set (PD_refresh db1)" by (metis imageI)
  with rotate_adds [OF ro] u show ?thesis by (auto simp: used_up_def)
qed

lemma used_up_refused: "used_up (Is_hash (pe_is ev) t) db \<Longrightarrow> snd (Platform_Refresh ev t db) \<noteq> Inr s"
proof
  assume u: "used_up (Is_hash (pe_is ev) t) db" and "snd (Platform_Refresh ev t db) = Inr s"
  then have "Platform_Refresh ev t db = (fst (Platform_Refresh ev t db), Inr s)" by (metis prod.collapse)
  then obtain r where "r \<in> set (PD_refresh db)" "OR_token_hash r = Is_hash (pe_is ev) t" "unspent r" by (rule Refresh_opens)
  with u show False by (auto simp: used_up_def)
qed

text \<open>An operator's refresh token opens one session. Once it has been exchanged, it is never accepted again, whatever happens in
  between, the sweep of expired links included, as long as the random source does not draw a token with its hash again.\<close>

theorem operator_refresh_once:
  assumes "plat_wf db" and "env_ok ev" and "snd (Platform_Refresh ev t db) = Inr s"
    and "\<forall>a\<in>set as. draws_apart (Is_hash (pe_is ev) t) (fst a)" and "Is_hash (pe_is ev') t = Is_hash (pe_is ev) t"
  shows "snd (Platform_Refresh ev' t (plat_run (plat_step db (ev, RefreshC t)) as)) \<noteq> Inr s'"
proof -
  have "Platform_Refresh ev t db = (plat_step db (ev, RefreshC t), Inr s)" using assms(3) by (simp add: plat_step_def prod_eq_iff)
  from used_up_run [OF Refresh_uses_up [OF assms(1,2) this] assms(4)] show ?thesis by (intro used_up_refused) (simp add: assms(5))
qed

theorem operator_refresh_once_witness:
  "\<exists>s. snd (Platform_Refresh (demo_plat 2 CHR ''x'' CHR ''9'') ''bob-token'' demo_installation) = Inr s \<and>
     (\<forall>s'. snd (Platform_Refresh (demo_plat 4 CHR ''z'' CHR ''d'') ''bob-token''
        (plat_run (plat_step demo_installation (demo_plat 2 CHR ''x'' CHR ''9'', RefreshC ''bob-token'')) [(demo_plat 3 CHR ''y'' CHR ''c'', SweepC)])) \<noteq> Inr s')"
proof -
  obtain s where s: "snd (Platform_Refresh (demo_plat 2 CHR ''x'' CHR ''9'') ''bob-token'' demo_installation) = Inr s"
    using demo_bob_refreshes [of demo_installation "demo_operator CHR ''b'' ''bob''"] by auto
  have ok: "env_ok (demo_plat 2 CHR ''x'' CHR ''9'')" by (rule demo_env_ok) simp
  have "EncodeToString (replicate 32 CHR ''y'') \<noteq> ''bob-token''" by code_simp
  then have "draws_apart ''bob-token'' (demo_plat 3 CHR ''y'' CHR ''c'')" by (simp add: draws_apart_def secret_New_def)
  with operator_refresh_once [OF demo_installation_ok ok s, of "[(demo_plat 3 CHR ''y'' CHR ''c'', SweepC)]" "demo_plat 4 CHR ''z'' CHR ''d''"] s
  show ?thesis by simp
qed

lemma revoke_ends:
  assumes "plat_wf db" "env_ok ev" "r \<in> set (PD_refresh db)" "\<not> Pe_fails ev RevokeRefreshFamilyPS"
  shows "ended (OR_family_id r) (revoke_family ev (OR_family_id r) db)"
proof -
  have "Pe_uuid ev (OR_family_id r) = Some (OR_family_id r)" using assms(1,3) env_okD(2) [OF assms(2)] by (auto simp: plat_wf_def)
  with assms(4) show ?thesis by (auto simp: ended_def unspent_def revoke_family_def Store_RevokeRefreshFamily_def by_uuid_def prun_def)
qed

lemma ended_emit [simp]: "ended f (plat_emit e db) \<longleftrightarrow> ended f db"
  by (simp add: ended_def)

text \<open>A call that ends a family: a token of it signed out, or presented after it was spent, with the revocation running.\<close>

definition ending :: "PlatformEnv \<Rightarrow> plat_call \<Rightarrow> PlatformDB \<Rightarrow> string \<Rightarrow> bool" where
  "ending ev c db f \<longleftrightarrow> \<not> Pe_fails ev RevokeRefreshFamilyPS \<and> \<not> Pe_fails ev RefreshByHashS \<and>
     (\<exists>t r. t \<noteq> [] \<and> r \<in> set (PD_refresh db) \<and> OR_token_hash r = Is_hash (pe_is ev) t \<and> OR_family_id r = f \<and>
       (c = LogoutC t \<or> c = RefreshC t \<and> snd (Platform_Refresh ev t db) = Inl ErrRefreshReuse))"

lemma rotate_error: "rotate ev rec now db = Inl e \<Longrightarrow> e \<noteq> ErrRefreshReuse"
  by (auto simp: rotate_def PlatformUserByID_def liveRoles_def Assignments_def mint_def signClaims_def AppendRefresh_def insert_refresh_def by_uuid_def
      prun_def Let_def split: option.splits if_splits sum.splits)

lemma Consume_unspent:
  assumes "plat_wf db" "env_ok ev" "r \<in> set (PD_refresh db)" "unspent r"
  shows "ConsumeRefresh ev (OR_id r) db \<noteq> Inr (False, db1)" "ConsumeRefresh ev (OR_id r) db \<noteq> Inl ErrRefreshReuse"
proof -
  have "Pe_uuid ev (OR_id r) = Some (OR_id r)" using assms(1,3) env_okD(2) [OF assms(2)] by (auto simp: plat_wf_def links_ok_def)
  with assms(3,4) show "ConsumeRefresh ev (OR_id r) db \<noteq> Inr (False, db1)" "ConsumeRefresh ev (OR_id r) db \<noteq> Inl ErrRefreshReuse"
    by (auto simp: ConsumeRefresh_def by_uuid_def prun_def list_ex_iff)
qed

lemma reuse_revokes:
  assumes wf: "plat_wf db" and ok: "env_ok ev" and r: "r \<in> set (PD_refresh db)"
    and b: "Store_RefreshByHash ev (Is_hash (pe_is ev) t) db = Inr (Some (refresh_of r))" and e: "snd (Platform_Refresh ev t db) = Inl ErrRefreshReuse"
  shows "fst (Platform_Refresh ev t db) = refreshReuse ev (refresh_of r) db"
proof (cases "Refresh_Spent (refresh_of r)")
  case True
  with b e show ?thesis by (auto simp: Platform_Refresh_def Let_def split: if_splits)
next
  case False
  then have "unspent r" by (simp add: refresh_of_def Refresh_Spent_def unspent_def)
  from Consume_unspent [OF wf ok r this] have "ConsumeRefresh ev (PF_ID (refresh_of r)) db \<noteq> Inr (False, db1)"
      "ConsumeRefresh ev (PF_ID (refresh_of r)) db \<noteq> Inl ErrRefreshReuse" for db1 by (simp_all add: refresh_of_def)
  with b e False rotate_error show ?thesis
    by (auto simp: Platform_Refresh_def Let_def split: if_splits sum.splits prod.splits)
qed

lemma ending_ends:
  assumes wf: "plat_wf db" and ok: "env_ok ev" and e: "ending ev c db f"
  shows "ended f (plat_step db (ev, c))"
proof -
  from e obtain t r where t: "t \<noteq> []" "r \<in> set (PD_refresh db)" "OR_token_hash r = Is_hash (pe_is ev) t" "OR_family_id r = f"
      and c: "c = LogoutC t \<or> c = RefreshC t \<and> snd (Platform_Refresh ev t db) = Inl ErrRefreshReuse"
      and nf: "\<not> Pe_fails ev RevokeRefreshFamilyPS" "\<not> Pe_fails ev RefreshByHashS" by (auto simp: ending_def)
  have "find (\<lambda>q. OR_token_hash q = Is_hash (pe_is ev) t) (PD_refresh db) = Some r"
  proof (cases "find (\<lambda>q. OR_token_hash q = Is_hash (pe_is ev) t) (PD_refresh db)")
    case None
    with t show ?thesis by (auto simp: find_None_iff)
  next
    case (Some q)
    then have "q \<in> set (PD_refresh db)" "OR_token_hash q = OR_token_hash r" using t(3) by (auto simp: find_Some_iff)
    with link_by_hash [OF wf _ t(2)] Some show ?thesis by simp
  qed
  with nf have by_hash: "Store_RefreshByHash ev (Is_hash (pe_is ev) t) db = Inr (Some (refresh_of r))" by (simp add: Store_RefreshByHash_def prun_def)
  have fam: "PF_FamilyID (refresh_of r) = f" using t(4) by (simp add: refresh_of_def)
  note ends = revoke_ends [OF wf ok t(2) nf(1), unfolded t(4)]
  from c show ?thesis
  proof
    assume "c = LogoutC t"
    with by_hash t(1) fam ends show ?thesis by (simp add: plat_step_def Platform_Logout_def)
  next
    assume c: "c = RefreshC t \<and> snd (Platform_Refresh ev t db) = Inl ErrRefreshReuse"
    with reuse_revokes [OF wf ok t(2) by_hash] fam ends show ?thesis by (simp add: plat_step_def refreshReuse_def)
  qed
qed

text \<open>C28. Signing an operator out, or presenting a refresh token a second time, ends the whole chain it belongs to: when the revocation runs,
  no token of that chain, not even the newest, is accepted from then on, whatever happens in between, as long as the database does not
  hand the id of the chain out again.\<close>

theorem operator_chain_ended:
  assumes "plat_wf db" and "env_ok ev" and "ending ev c db f"
    and "\<forall>a\<in>set as. env_ok (fst a) \<and> Pe_newid (fst a) CreateRefreshFamilyS \<noteq> f"
    and "\<forall>r\<in>set (PD_refresh (plat_run (plat_step db (ev, c)) as)). OR_token_hash r = Is_hash (pe_is ev') t \<longrightarrow> OR_family_id r = f"
  shows "snd (Platform_Refresh ev' t (plat_run (plat_step db (ev, c)) as)) \<noteq> Inr s"
proof (rule used_up_refused)
  have "ended f (plat_run (plat_step db (ev, c)) as)"
    by (rule ended_run [OF plat_wf_step [OF assms(1,2)] ending_ends [OF assms(1,2,3)] assms(4)])
  with assms(5) show "used_up (Is_hash (pe_is ev') t) (plat_run (plat_step db (ev, c)) as)" by (auto simp: ended_def used_up_def)
qed

theorem operator_chain_ended_witness:
  "\<forall>s. snd (Platform_Refresh (demo_plat 2 CHR ''x'' CHR ''9'') ''bob-token''
     (plat_run (plat_step demo_installation (demo_plat 1 CHR ''r'' CHR ''8'', LogoutC ''bob-token'')) [])) \<noteq> Inr s"
proof -
  let ?ev = "demo_plat 1 CHR ''r'' CHR ''8''"
  have ok: "env_ok ?ev" by (rule demo_env_ok) simp
  have e: "ending ?ev (LogoutC ''bob-token'') demo_installation (demo_uuid CHR ''7'')" by (simp add: ending_def demo_link_def)
  have "\<forall>r\<in>set (PD_refresh (plat_run (plat_step demo_installation (?ev, LogoutC ''bob-token'')) [])).
      OR_token_hash r = Is_hash (pe_is (demo_plat 2 CHR ''x'' CHR ''9'')) ''bob-token'' \<longrightarrow> OR_family_id r = demo_uuid CHR ''7''"
    by (simp add: plat_step_def Platform_Logout_def Store_RefreshByHash_def revoke_family_def Store_RevokeRefreshFamily_def refresh_of_def demo_link_def)
  from operator_chain_ended [OF demo_installation_ok ok e _ this] show ?thesis by simp
qed

end
