(* ===== verification/Spec2Isabelle.thy ===== *)
theory Spec2Isabelle
  imports Gate_Decision Sdk_Verifier Grant_Change_Store Authorize Record_Share Session_Safety Challenge_Safety Browser_Safety
    Scope_Feed Audit_Safety Operator_Safety
begin

text \<open>
  A verification development of \<^bold>\<open>anubis\<close>, an identity and authorisation service written in Go.

  The service keeps, per tenant, people, roles, grants limited to places, shares of single records and
  route policies in PostgreSQL. Three things answer questions from that state, and the development follows them:

  \<^item> the \<^emph>\<open>gate\<close> (\<^verbatim>\<open>internal/gate\<close>) decides forwarded requests in memory, from a snapshot of the tenant's
    tables that a manager keeps fresh, and from access tokens verified offline;
  \<^item> the \<^emph>\<open>decision endpoint\<close> and the administration of access (\<^verbatim>\<open>internal/authz\<close>) ask the database, change
    grants in bulk and let a person share one record;
  \<^item> \<^emph>\<open>consuming services\<close> verify tokens with the SDK (\<^verbatim>\<open>pkg/anubis\<close>).

  \<^bold>\<open>Layout.\<close> \<open>Go_Prelude\<close> holds the Go vocabulary (byte strings, maps, time, 64-bit integers, the error sentinels), the
  \<open>go_simps\<close> rules and the locale \<open>machine\<close>, a state machine whose invariant every admissible step keeps.
  One theory models each component:

  \<^item> \<open>Route_Path\<close>, \<open>Route_Match\<close>: \<^verbatim>\<open>internal/gate/routepath\<close>. Normalisation is canonicalisation and accepts exactly the
    paths it should; matching takes the first policy that accepts, and captures what the pattern names.
  \<^item> \<open>Scope_Index\<close>: \<^verbatim>\<open>internal/gate/snapshot/scope_index.go\<close>, the place tree as parent pointers. The locale
    \<open>scope_hierarchy\<close> states what a hierarchy promises; the index is interpreted as one and refines the rows.
  \<^item> \<open>Snapshot\<close>: \<^verbatim>\<open>internal/gate/snapshot\<close>, the evaluator and the listing of granted places.
  \<^item> \<open>Snapshot_Loader\<close>: \<^verbatim>\<open>internal/gate/adapter/postgres/snapshot_repository.go\<close>. On a loaded snapshot the evaluator
    decides what the rows say (\<open>tables_authorise\<close>), and the listing agrees with it.
  \<^item> \<open>Revocation_Broker\<close>, \<open>Snapshot_Manager\<close>: \<^verbatim>\<open>internal/platform/revocation\<close> and \<^verbatim>\<open>internal/gate/app/manager.go\<close>, both
    interpreted as \<open>machine\<close>; the manager is also a \<open>snapshot_source\<close>, the interface a decision relies on. Bounded
    buffers, bounded age, coalesced refreshes, failing static.
  \<^item> \<open>Base64_Url\<close>, \<open>Paseto\<close>, \<open>Access_Token\<close>: the token codecs, their dispatch, the claims and the key ring.
  \<^item> \<open>Gate_Decision\<close>: \<^verbatim>\<open>internal/gate/app/decision.go\<close> and the granted-nodes use case.
  \<^item> \<open>Sdk_Verifier\<close>: \<^verbatim>\<open>pkg/anubis\<close>, offline verification and the rate-limited key cache.
  \<^item> \<open>Principal\<close>: \<^verbatim>\<open>internal/shared/authctx\<close> and \<^verbatim>\<open>internal/shared/validate\<close>.
  \<^item> \<open>Grant_Change\<close>, \<open>Grant_Change_Store\<close>: bulk changes to grants, planned, previewed, applied and undone.
  \<^item> \<open>Authorize\<close>: the decision endpoint, step-up and its audit trail.
  \<^item> \<open>Record_Share\<close>: shares of single records and their links.
  \<^item> \<open>Identity_Domain\<close>: \<^verbatim>\<open>internal/identity/domain\<close> and \<^verbatim>\<open>internal/tenancy/domain\<close>, the values sign-in and tokens are decided on.
  \<^item> \<open>Session_Store\<close>: the tables of sessions, refresh tokens and identities, every statement of
    \<^verbatim>\<open>internal/auth/adapter/postgres\<close> on them (each may fail), and transactions.
  \<^item> \<open>Token_Issuer\<close>, \<open>Token_Lifecycle\<close>: \<^verbatim>\<open>internal/auth/app\<close>: issuing a token pair, establishing a session, refresh
    rotation with reuse detection, revocation, introspection, the three sign-outs with their back-channel notices,
    scope switching, and the administration that ends sessions.
  \<^item> \<open>Session_Machine\<close>: the contract those operations keep, as a step relation on token and session statuses
    (\<open>life_step\<close>), and that each of them, failing statements included, is a sequence of its steps.
  \<^item> \<open>Session_Examples\<close>, \<open>Session_Safety\<close>: a concrete installation, and what follows for the program: a refresh token is
    spent at most once, a reused one ends its family and session, signing out everywhere is final.
  \<^item> \<open>Go_Format\<close>, \<open>Password_Hash\<close>, \<open>Local_Token\<close>, \<open>Totp\<close>: \<^verbatim>\<open>internal/platform/crypto\<close>: stored password hashes, the service's own sealed
    tokens and secrets, and one-time codes. What is stored verifies, what is sealed opens for its purpose alone, and exactly
    the codes of three half-minutes pass.
  \<^item> \<open>Credential_Store\<close>: the tables of credentials and one-time tokens with the unique indexes of the migrations.
  \<^item> \<open>Sign_In\<close>, \<open>Factors\<close>: \<^verbatim>\<open>internal/auth/app/signin\<close>, \<^verbatim>\<open>mfa\<close>, \<^verbatim>\<open>enroll\<close> and \<^verbatim>\<open>device\<close>, and the credential administration of
    \<^verbatim>\<open>internal/identity/app\<close>.
  \<^item> \<open>Sign_In_Examples\<close>, \<open>Sign_In_Safety\<close>: who learns anything from a sign-in, when a password is enough, and that a sealed
    challenge opens as it was sealed.
  \<^item> \<open>Credential_Machine\<close>: the contract of the credential table (\<open>cred_step\<close>) and that every operation keeps it; a code is good once.
  \<^item> \<open>Factor_Safety\<close>: who may bind an authenticator and what it changes, what a device sign-in proves, base 32.
  \<^item> \<open>Challenge_Safety\<close>: which one-time rows each operation writes, and that a second-factor challenge opens once over any run.
  \<^item> \<open>Browser_Flow\<close>: \<^verbatim>\<open>internal/auth/adapter/http/oidc_handler.go\<close>, \<^verbatim>\<open>cookies.go\<close> and \<^verbatim>\<open>internal/auth/app/emaillink\<close>: signing in with a
    browser, codes under PKCE, mailed links.
  \<^item> \<open>Browser_Runs\<close>, \<open>Browser_Examples\<close>, \<open>Browser_Safety\<close>: runs of those endpoints interleaved with the rest of the service, as an instance of
    \<open>machine\<close>: what every one-time row stands for, that a code is good once and only to who holds its verifier, and that
    every session of a browser rests on factors proved in the run. The API's doors are shown to be such a rest.
  \<^item> \<open>Audit_Chain\<close>, \<open>Audit_Safety\<close>: \<^verbatim>\<open>internal/audit\<close>: the queue, the hash chain of each tenant, its verification in batches
    and its signed heads. Events are accounted for, what is appended verifies, and history under a signed head is fixed.
  \<^item> \<open>Operator_Store\<close>, \<open>Operator_Plane\<close>: \<^verbatim>\<open>internal/control\<close> and \<^verbatim>\<open>internal/authz/guard\<close>: the people who operate an installation, their
    assignments over it or over a company and what is below it, their sign-in, refresh chain and machine credentials, how they
    are appointed and dismissed, and the guards of every administration call.
  \<^item> \<open>Operator_Runs\<close>, \<open>Operator_Invariants\<close>, \<open>Operator_Examples\<close>, \<open>Operator_Safety\<close>: the writes a call of that plane can make, with what
    was checked first, the invariant of its tables as an instance of \<open>machine\<close>, and what follows: the guard lets through exactly
    whom it should, superseded tokens are dead, authority comes only from those who hold it, the last owner stays, a
    refresh chain that was ended stays ended.
  \<^item> \<open>Scope_Feed\<close>: \<^verbatim>\<open>internal/scope/domain\<close>: the ordering of a sync feed, parents first; it ends on cycles too.

  This theory composes them: the gate's answer, through manager and loader, agrees with the tenant's
  tables as they recently stood.

  \<^bold>\<open>Conventions.\<close> A Go function is a HOL function of the same name (prefixed where two packages share it); a struct is a
  record with prefixed fields; an error return is the left of a sum; a table is the list of rows its statements read and
  write, with the keys and checks its migration declares; a transaction that fails leaves the tables as they were. A
  loop is a recursive function on what is left of its list. Nearly every loop is bounded by a list or a length; two are not,
  the batches of a chain verification, which end because every batch moves the cursor, and the climb of the feed
  ordering, a \<open>partial_function\<close> proved to return on every feed. No fuel is needed. A Go map is an association list in whatever order an iteration takes, and statements read it
  through \<open>map_of\<close>.

  \<^bold>\<open>Parameters.\<close> Code that is not in the repository is an argument: Ed25519 (\<open>ed25519\<close>, with its correctness and unforgeability as
  named hypotheses where a theorem needs them), the JSON decoders, address parsing, Unicode case folding, HTTP
  fetches, the clock, random identifiers, and the answers of SQL queries, among them the SQL function \<^verbatim>\<open>authorize()\<close>.

  \<^bold>\<open>Not modelled.\<close> Transport adapters, generated protobuf and storm code, the console, metrics and logs carry no decision of their
  own. Of the remaining packages these are left out. The administration of roles, memberships, catalogs and manifests
  (\<^verbatim>\<open>internal/authz/app/admin\<close>, \<^verbatim>\<open>internal/authz/app/catalog\<close>), of the scope tree (\<^verbatim>\<open>internal/scope\<close>), of tenants, realms and
  applications (\<^verbatim>\<open>internal/tenancy/app\<close>), directory edits and provisioning (\<^verbatim>\<open>internal/identity/app\<close>): a guard, which is
  modelled, in front of single SQL writes whose rules are the database's constraints. Access links, client
  credentials and a tenant's API keys (\<^verbatim>\<open>internal/auth/app/accesslink\<close>, \<^verbatim>\<open>clientcreds\<close>, \<^verbatim>\<open>internal/tenancy/app\<close>): what such
  a principal may do is modelled at the gate and the decision endpoint, how its token is minted is not. The SQL functions, the decision
  engine \<^verbatim>\<open>authorize()\<close> among them: parameters.
\<close>

section \<open>From the tables to the gate\<close>

text \<open>A refresh that reads the database: \<open>db slug t\<close> is what a repeatable-read transaction of the tenant sees at
  time \<open>t\<close>; a rebuilt snapshot is \<open>LoadSnapshot\<close> of it, and a version probe takes at most \<open>slack\<close>.\<close>

fun op_reads :: "(string \<Rightarrow> time \<Rightarrow> Tx) \<Rightarrow> duration \<Rightarrow> manager_op \<Rightarrow> bool" where
  "op_reads db slack (Load slug l) \<longleftrightarrow> Ld_touched l - Ld_since l \<le> slack \<and>
     (case Ld_LoadSnapshot l of Inl e \<Rightarrow> True
      | Inr d \<Rightarrow> \<exists>un tid w t1 t2. t1 \<le> t2 \<and> LoadSnapshot un (Some (db slug t2)) tid slug w t1 t2 = Inr d)"

text \<open>Every held snapshot is what the tables said when it was built; only its refresh time has moved since.\<close>

definition held_from :: "(string \<Rightarrow> time \<Rightarrow> Tx) \<Rightarrow> string \<Rightarrow> Data \<Rightarrow> bool" where
  "held_from db slug d \<longleftrightarrow>
     (\<exists>un tid w t1. LoadSnapshot un (Some (db slug (Data_BuiltAt d))) tid slug w t1 (Data_BuiltAt d) = Inr (d\<lparr>Data_LoadedAt := t1\<rparr>))"

definition all_held :: "(string \<Rightarrow> time \<Rightarrow> Tx) \<Rightarrow> Manager \<Rightarrow> bool" where
  "all_held db m \<longleftrightarrow> (\<forall>slug ref d. map_of (Mg_data m) slug = Some (ref, d) \<longrightarrow> held_from db slug d)"

lemma LoadSnapshot_times:
  "LoadSnapshot un tx tid slug w t1 t2 = Inr d \<Longrightarrow> Data_LoadedAt d = t1 \<and> Data_BuiltAt d = t2"
  by (auto simp: LoadSnapshot_def Let_def and_then_Inr InternGrantScopes_def split: option.splits if_splits)

lemma op_reads_loader_ok: "op_reads db slack op \<Longrightarrow> loader_ok slack op"
  by (cases op) (auto dest: LoadSnapshot_times split: sum.splits)

lemma held_from_loaded:
  assumes "LoadSnapshot un (Some (db slug t2)) tid slug w t1 t2 = Inr d"
  shows "held_from db slug d"
proof -
  have "Data_BuiltAt d = t2" "d\<lparr>Data_LoadedAt := t1\<rparr> = d" using LoadSnapshot_times [OF assms] by auto
  with assms show ?thesis unfolding held_from_def by metis
qed

lemma all_held_step:
  assumes "all_held db m" and "op_reads db slack op"
  shows "all_held db (manager_step m op)"
proof (cases op)
  case (Load slug l)
  have r: "all_held db (rebuild m slug l)"
    using assms Load unfolding all_held_def rebuild_sel
    by (auto split: sum.splits if_splits intro: held_from_loaded)
  have t: "all_held db (touch m slug cur now)" if "map_of (Mg_data m) slug = Some cur" for cur now
    using assms(1) that by (cases cur) (auto simp: all_held_def touch_def go_simps held_from_def)
  from r t Load show ?thesis by (auto simp: load_def split: option.splits)
qed

lemma all_held_run: "all_held db m \<Longrightarrow> \<forall>op\<in>set ops. op_reads db slack op \<Longrightarrow> all_held db (foldl manager_step m ops)"
  by (induction ops arbitrary: m) (auto intro: all_held_step)

lemma Evaluate_LoadedAt [simp]: "Evaluate (d\<lparr>Data_LoadedAt := t\<rparr>) = Evaluate d"
proof -
  have "evaluate_grants (d\<lparr>Data_LoadedAt := t\<rparr>) who permission targets now gs = evaluate_grants d who permission targets now gs"
    for who permission targets now gs
    by (induction gs) (simp_all add: role_has_def grantScopesSatisfied_def strictAxesAddressed_def)
  moreover have "sharedRecordAllows (d\<lparr>Data_LoadedAt := t\<rparr>) = sharedRecordAllows d"
    by (intro ext) (simp add: sharedRecordAllows_def)
  ultimately show ?thesis by (intro ext) (simp add: Evaluate_def split: option.split)
qed

lemma held_authorises:
  assumes "held_from db slug d" and "tables_wf (db slug (Data_BuiltAt d))"
  shows "Evaluate d who permission targets now \<longleftrightarrow> tables_authorise (db slug (Data_BuiltAt d)) who permission targets now"
proof -
  from assms(1) obtain un tid w t1 where
    "LoadSnapshot un (Some (db slug (Data_BuiltAt d))) tid slug w t1 (Data_BuiltAt d) = Inr (d\<lparr>Data_LoadedAt := t1\<rparr>)"
    by (auto simp: held_from_def)
  from LoadSnapshot_assembled [OF this] obtain d0 where d0: "d\<lparr>Data_LoadedAt := t1\<rparr> = InternGrantScopes d0"
    "assembled_from (db slug (Data_BuiltAt d)) d0" by blast
  have "Evaluate d who permission targets now = Evaluate (InternGrantScopes d0) who permission targets now"
    unfolding d0(1) [symmetric] by simp
  also have "\<dots> \<longleftrightarrow> tables_authorise (db slug (Data_BuiltAt d)) who permission targets now"
    unfolding Evaluate_authorised [OF assembled_wf [OF d0(2) assms(2)]] by (rule assembled_authorised [OF d0(2) assms(2)])
  finally show ?thesis .
qed

text \<open>C1. The gate end to end. A process keeps its snapshots by any sequence of refreshes that read the
  tenants' tables (some may fail), and decides with them. When it lets a request through at \<open>now\<close>, a fresh snapshot of
  the request's tenant has a first route policy that accepts the canonical path, and that route is public; or the bearer
  token is good and not an access link, and, if the route requires a permission, the tenant's own tables authorised the
  token's subject for it, at the targets the route binds, as they stood at some moment less than twice the maximum
  age before \<open>now\<close> (plus the time of one version probe).\<close>

theorem gate_decides_recent_tables:
  assumes "0 < maxAge" and "maxAge < 2 ^ 63 - 1" and "0 \<le> slack"
    and "\<forall>slug t. tables_wf (db slug t)" and "\<forall>op\<in>set ops. op_reads db slack op"
    and "Dc_Outcome (Decide d (\<lambda>slug. Get (foldl manager_step (NewManager maxAge) ops) slug now) req clock1 clock2) = Allow"
  shows "\<exists>snap path route params.
    Get (foldl manager_step (NewManager maxAge) ops) (Rq_Tenant req) now = (Some snap, True) \<and>
    NormalizePath (Rq_Path req) = Inr path \<and>
    Match (De_equal_fold d) (Data_Routes snap) (Rq_Host req) (Rq_Method req) path = Some (route, params) \<and>
    (Route_Effect route = ''public'' \<or>
     (\<exists>claims. token_good d snap (Rq_Token req) clock1 claims \<and> ''link'' \<notin> set (Cl_AMR claims) \<and>
       (Route_Effect route = ''require_permission'' \<longrightarrow>
         (\<exists>t. now - t < 2 * maxAge + slack \<and>
            tables_authorise (db (Rq_Tenant req) t) (Cl_Subject claims) (Route_PermissionKey route)
              (foldl (bind_target claims params) [] (Route_ScopeBindings route)) clock2))))"
proof -
  let ?m = "foldl manager_step (NewManager maxAge) ops"
  from assms(6) obtain snap path route params where s: "Get ?m (Rq_Tenant req) now = (Some snap, True)"
    and n: "NormalizePath (Rq_Path req) = Inr path"
    and m: "Match (De_equal_fold d) (Data_Routes snap) (Rq_Host req) (Rq_Method req) path = Some (route, params)"
    and a: "Route_Effect route = ''public'' \<or>
     (Route_Effect route \<noteq> ''deny'' \<and> (\<exists>claims. verify d (Rq_Token req) snap clock1 = Some claims \<and>
        ''link'' \<notin> set (Cl_AMR claims) \<and>
        (Route_Effect route = ''require_permission'' \<longrightarrow>
           Evaluate snap (Cl_Subject claims) (Route_PermissionKey route)
             (foldl (bind_target claims params) [] (Route_ScopeBindings route)) clock2)))"
    by (rule Decide_allow)
  have "\<forall>op\<in>set ops. loader_ok slack op" using assms(5) op_reads_loader_ok by blast
  then have "manager_inv maxAge slack ?m" using assms(1-3) by (intro manager.inv_reachable) simp_all
  from manager_inv_served [OF this s] have age: "now - Data_BuiltAt snap < 2 * maxAge + slack" .
  have "all_held db ?m" by (rule all_held_run [OF _ assms(5)]) (simp add: all_held_def NewManager_def Let_def)
  then have "held_from db (Rq_Tenant req) snap"
    using s by (auto simp: Get_def all_held_def split: option.splits)
  from held_authorises [OF this] assms(4)
  have ev: "Evaluate snap who permission targets t \<longleftrightarrow>
      tables_authorise (db (Rq_Tenant req) (Data_BuiltAt snap)) who permission targets t" for who permission targets t
    by blast
  show ?thesis using s n m a age verify_good [of d "Rq_Token req" snap clock1] unfolding ev by blast
qed

definition gate_tx :: Tx where
  "gate_tx = demo_tx\<lparr>Tx_routes := Inr [\<lparr>RouteRow_Priority = 1, RouteRow_Effect = ''require_permission'',
     RouteRow_PathPattern = ''/shops/{id}/**'', RouteRow_HostPattern = None, RouteRow_Methods = [''GET''],
     RouteRow_ScopeBindings = ''{...}'', RouteRow_PermissionKey = Some ''sale'', RouteRow_ApplicationSlug = ''app''\<rparr>]\<rparr>"

definition gate_load :: manager_op where
  "gate_load = Load ''acme'' \<lparr>Ld_CatalogVersion = Inr 7,
     Ld_LoadSnapshot = LoadSnapshot (\<lambda>_. [(''place'', ''path.id'')]) (Some gate_tx) ''t'' ''acme'' 0 5 5,
     Ld_since = 5, Ld_touched = 5, Ld_swapped = 5\<rparr>"

theorem gate_decides_recent_tables_witness:
  "\<exists>claims params t. 10 - t < (200 :: time) \<and> tables_authorise gate_tx (Cl_Subject claims) ''sale''
     (foldl (bind_target claims params) [] [(''place'', ''path.id'')]) 10"
proof -
  have load: "LoadSnapshot (\<lambda>_. [(''place'', ''path.id'')]) (Some gate_tx) ''t'' ''acme'' 0 5 5 = Inr demo_gate_data"
    by code_simp
  have get: "Get (foldl manager_step (NewManager 100) [gate_load]) ''acme'' 10 = (Some demo_gate_data, True)"
    by (simp add: gate_load_def load load_def rebuild_def NewManager_def Let_def Get_def go_simps)
       (simp add: demo_gate_data_def demo_data_def demo_tx_def LoadSnapshot_def Let_def InternGrantScopes_def time_sub_def)
  have "Decide demo_decider (\<lambda>slug. Get (foldl manager_step (NewManager 100) [gate_load]) slug 10)
      (demo_request ''/shops/shop/till'') 10 10 =
    Decide demo_decider (\<lambda>_. (Some demo_gate_data, True)) (demo_request ''/shops/shop/till'') 10 10"
    using get by (simp add: Decide_def demo_request_def)
  with demo_gate have allow: "Dc_Outcome (Decide demo_decider (\<lambda>slug. Get (foldl manager_step (NewManager 100) [gate_load]) slug 10)
      (demo_request ''/shops/shop/till'') 10 10) = Allow" by simp
  have wf: "\<forall>slug t. tables_wf ((\<lambda>_ _. gate_tx) slug t)" by (simp add: tables_wf_def gate_tx_def demo_tx_def rows_of_def)
  have ok: "\<forall>op\<in>set [gate_load]. op_reads (\<lambda>_ _. gate_tx) 0 op"
    using load by (simp add: gate_load_def) (metis order_refl)
  have n: "NormalizePath ''/shops/shop/till'' = Inr ''/shops/shop/till''" by code_simp
  have m: "Match (=) (Data_Routes demo_gate_data) ''h'' ''GET'' ''/shops/shop/till'' = Some (demo_route, [(''id'', ''shop'')])"
    by code_simp
  have eff: "Route_Effect demo_route = ''require_permission''" "Route_PermissionKey demo_route = ''sale''"
    "Route_ScopeBindings demo_route = [(''place'', ''path.id'')]" by (simp_all add: demo_route_def)
  from gate_decides_recent_tables [OF _ _ _ wf ok allow] get n m eff show ?thesis
    by (auto simp: demo_request_def demo_decider_def)
qed

end
